(* ===== verification/Stn_Prelude.thy ===== *)
theory Stn_Prelude
  imports Main "HOL-Library.Word"
begin

text \<open>
  Shared ground of the development: the machine integer types, byte strings, the
  big-endian readers and writers of \<^verbatim>\<open>src/src/stn_wire_internal.h\<close>, \<^verbatim>\<open>memcmp\<close>, the
  status enumeration of \<^verbatim>\<open>src/includes/stn_transaction.h\<close> and the lemmas on byte slices
  that carry every codec proof.

  Conventions used by all theories.
  \<^item> A pointer and its length are one list of bytes; a pointer the code compares with NULL
    is an \<open>option\<close>, with \<open>None\<close> for NULL. An output pointer is the returned value, so
    the NULL tests on output pointers have no branch of their own.
  \<^item> \<open>p + k\<close> is \<open>drop k p\<close>; copying \<open>n\<close> bytes from \<open>p + k\<close> is \<open>take n (drop k p)\<close>;
    writing a buffer from left to right is list concatenation.
  \<^item> A status result with an output is a sum: \<open>Inl e\<close> for a status other than OK,
    \<open>Inr v\<close> for OK with the output \<open>v\<close>. A function with no output returns the status.
  \<^item> \<^verbatim>\<open>size_t\<close> is \<open>nat\<close>; the other integers keep their width.
\<close>

unbundle bit_operations_syntax

section \<open>Machine integers and byte strings\<close>

type_synonym u8 = "8 word"
type_synonym u16 = "16 word"
type_synonym u32 = "32 word"
type_synonym u64 = "64 word"
type_synonym bytes = "8 word list"

named_theorems lengths "lengths of encodings and fixed fields"
named_theorems slices "rewrite rules that join adjacent slices of one byte string"

datatype stn_data_status =
    STN_DATA_OK | STN_DATA_ARGUMENT | STN_DATA_LENGTH
  | STN_DATA_MAGIC | STN_DATA_VERSION | STN_DATA_TYPE
  | STN_DATA_CONTENT | STN_DATA_CAPACITY | STN_DATA_UNRESOLVED
  | STN_DATA_PROVIDER_ERROR | STN_DATA_DUPLICATE | STN_DATA_COMMITMENT
  | STN_DATA_TARGET | STN_DATA_WORK | STN_DATA_OVERFLOW

type_synonym 'a data_result = "stn_data_status + 'a"

text \<open>The status a result stands for.\<close>

fun data_status :: "'a data_result \<Rightarrow> stn_data_status" where
  "data_status (Inl e) = e"
| "data_status (Inr _) = STN_DATA_OK"

definition sum_right :: "'a + 'b \<Rightarrow> 'b option" where
  "sum_right x = (case x of Inl _ \<Rightarrow> None | Inr b \<Rightarrow> Some b)"

lemma sum_right_simps [simp]: "sum_right (Inl a) = None" "sum_right (Inr b) = Some b"
  by (simp_all add: sum_right_def)

lemma sum_right_iff [simp]:
  "sum_right x = Some b \<longleftrightarrow> x = Inr b" "sum_right x = None \<longleftrightarrow> (\<exists>a. x = Inl a)"
  by (cases x; auto)+

text \<open>A chain of guards that ends in a value passed every guard; rewriting with these is linear in the chain.\<close>

lemma guard_iff:
  "(if c then Inl x else y) = Inr z \<longleftrightarrow> \<not> c \<and> y = Inr z"
  "(if c then (Inl x, s) else p) = (Inr z, t) \<longleftrightarrow> \<not> c \<and> p = (Inr z, t)"
  "(case r of Inl e \<Rightarrow> Inl (f e) | Inr a \<Rightarrow> g a) = Inr z \<longleftrightarrow> (\<exists>a. r = Inr a \<and> g a = Inr z)"
  "case_sum Inl g r = Inr z \<longleftrightarrow> (\<exists>a. r = Inr a \<and> g a = Inr z)"
  by (auto split: sum.splits)

text \<open>
  A hash provider (\<^verbatim>\<open>stn_hash_provider\<close>): the domain bytes and the input bytes to a digest
  or a status. \<open>None\<close> stands for a NULL provider or a provider with a NULL function.
\<close>

type_synonym stn_hash_fn = "bytes \<Rightarrow> bytes \<Rightarrow> bytes data_result"
type_synonym stn_hash_provider = "stn_hash_fn option"

text \<open>
  The documented contract of a provider: a digest is 32 bytes, and it comes exactly with OK.
\<close>

definition hash_fn_ok :: "stn_hash_fn \<Rightarrow> bool" where
  "hash_fn_ok h \<longleftrightarrow> (\<forall>d bs x. h d bs = Inr x \<longrightarrow> length x = 32) \<and> (\<forall>d bs. h d bs \<noteq> Inl STN_DATA_OK)"

lemma hash_fn_ok_length: "hash_fn_ok h \<Longrightarrow> h d bs = Inr x \<Longrightarrow> length x = 32"
  by (auto simp: hash_fn_ok_def)

lemma hash_fn_ok_status: "hash_fn_ok h \<Longrightarrow> h d bs \<noteq> Inl STN_DATA_OK"
  by (auto simp: hash_fn_ok_def)

text \<open>An ASCII string as bytes, and the domain strings hashed with their terminating zero.\<close>

definition ascii :: "string \<Rightarrow> bytes" where
  "ascii s = map (\<lambda>c. word_of_nat (of_char c)) s"

definition cstring :: "string \<Rightarrow> bytes" where
  "cstring s = ascii s @ [0]"

lemma length_ascii [simp, lengths]: "length (ascii s) = length s"
  by (simp add: ascii_def)

lemma length_cstring [simp, lengths]: "length (cstring s) = Suc (length s)"
  by (simp add: cstring_def)

section \<open>Big-endian numbers\<close>

text \<open>The number a byte string denotes, most significant byte first.\<close>

fun be :: "bytes \<Rightarrow> nat" where
  "be [] = 0"
| "be (b # bs) = unat b * 256 ^ length bs + be bs"

lemma unat_u8_less [simp]: "unat (b :: u8) < 256"
  using unsigned_less [of b, where ?'a = nat] by simp

lemma be_append: "be (xs @ ys) = be xs * 256 ^ length ys + be ys"
  by (induction xs) (simp_all add: algebra_simps power_add)

lemma be_less: "be xs < 256 ^ length xs"
proof (induction xs)
  case Nil
  then show ?case by simp
next
  case (Cons b bs)
  have "unat b + 1 \<le> 256"
    using unat_u8_less [of b] by linarith
  then have "(unat b + 1) * 256 ^ length bs \<le> 256 * 256 ^ length bs"
    by (rule mult_le_mono1)
  then have "unat b * 256 ^ length bs + 256 ^ length bs \<le> 256 * 256 ^ length bs"
    by (simp only: add_mult_distrib mult_1)
  with Cons.IH show ?case
    unfolding be.simps length_Cons power_Suc by linarith
qed

lemma be_take_less: "be (take n xs) < 256 ^ n"
proof -
  have "(256 :: nat) ^ length (take n xs) \<le> 256 ^ n"
    by (rule power_increasing) simp_all
  then show ?thesis
    using be_less [of "take n xs"] by linarith
qed

lemma be_zeros [simp]: "be (replicate n 0) = 0"
  by (induction n) simp_all

lemma be_eq_0_iff: "be xs = 0 \<longleftrightarrow> (\<forall>x \<in> set xs. x = 0)"
  by (induction xs) (auto simp: unat_eq_0)

text \<open>Two digits in base \<open>B\<close> compare lexicographically.\<close>

lemma digit_less:
  fixes a b x y B :: nat
  assumes "a < b" "x < B"
  shows "a * B + x < b * B + y"
proof -
  have "a * B + x < (a + 1) * B"
    using assms(2) by (simp add: algebra_simps)
  also have "\<dots> \<le> b * B"
    using assms(1) by (intro mult_le_mono1) simp
  finally show ?thesis by simp
qed

lemma be_inj: "length xs = length ys \<Longrightarrow> be xs = be ys \<Longrightarrow> xs = ys"
proof (induction xs ys rule: list_induct2)
  case Nil
  then show ?case by simp
next
  case (Cons x xs y ys)
  have "unat x = unat y"
  proof (rule ccontr)
    assume "unat x \<noteq> unat y"
    then consider "unat x < unat y" | "unat y < unat x" by linarith
    then show False
    proof cases
      case 1
      from digit_less [OF 1 be_less [of xs], of "be ys"] Cons.prems Cons.hyps show False by simp
    next
      case 2
      from digit_less [OF 2 be_less [of ys], of "be xs"] Cons.prems Cons.hyps show False by simp
    qed
  qed
  then show ?case
    using Cons by (simp add: word_unat_eq_iff)
qed

section \<open>Reading and writing fields (\<^verbatim>\<open>stn_wire_internal.h\<close>)\<close>

text \<open>The loop of \<^verbatim>\<open>stn_wire_read\<close>: \<open>v = (v << 8) | p[i]\<close>.\<close>

fun wire_read_loop :: "u64 \<Rightarrow> bytes \<Rightarrow> u64" where
  "wire_read_loop v [] = v"
| "wire_read_loop v (b # bs) = wire_read_loop (push_bit 8 v OR ucast b) bs"

definition stn_wire_read :: "bytes \<Rightarrow> nat \<Rightarrow> u64" where
  "stn_wire_read p n = wire_read_loop 0 (take n p)"

text \<open>The loop of \<^verbatim>\<open>stn_wire_write\<close> stores the low byte last: \<open>p[--n] = v & 255; v >>= 8\<close>.\<close>

fun stn_wire_write :: "nat \<Rightarrow> u64 \<Rightarrow> bytes" where
  "stn_wire_write 0 v = []"
| "stn_wire_write (Suc n) v = stn_wire_write n (drop_bit 8 v) @ [ucast (v AND 255)]"

lemma length_wire_write [simp, lengths]: "length (stn_wire_write n v) = n"
  by (induction n arbitrary: v) simp_all

lemma ucast_and_255: "ucast (v AND 255 :: u64) = (ucast v :: u8)"
proof -
  have "(255 :: u64) = mask 8" by (simp add: mask_eq_exp_minus_1)
  then have "ucast (v AND 255) = (ucast (take_bit 8 v) :: u8)"
    by (simp only: take_bit_eq_mask)
  also have "\<dots> = ucast v"
    by (rule bit_word_eqI) (simp add: bit_ucast_iff bit_take_bit_iff)
  finally show ?thesis .
qed

lemma unat_low_byte: "unat (ucast (v :: u64) :: u8) = unat v mod 256"
  by (simp add: unsigned_ucast_eq take_bit_eq_mod)

lemma unat_drop_8: "unat (drop_bit 8 v :: u64) = unat v div 256"
  unfolding unat_drop_bit_eq by (simp add: drop_bit_eq_div)

lemma be_wire_write: "be (stn_wire_write n v) = unat v mod 256 ^ n"
proof (induction n arbitrary: v)
  case 0
  then show ?case by simp
next
  case (Suc n)
  have "be (stn_wire_write (Suc n) v) = unat v div 256 mod 256 ^ n * 256 + unat v mod 256"
    by (simp add: be_append Suc ucast_and_255 unat_low_byte unat_drop_8)
  also have "\<dots> = unat v mod (256 * 256 ^ n)"
    by (simp add: mod_mult2_eq)
  finally show ?case by simp
qed

lemma unat_wire_step:
  assumes "unat v < 256 ^ 7"
  shows "unat (push_bit 8 v OR ucast (b :: u8) :: u64) = unat v * 256 + unat b"
proof -
  have disj: "push_bit 8 v AND ucast b = (0 :: u64)"
    by (rule bit_word_eqI) (auto simp: bit_and_iff bit_push_bit_iff bit_ucast_iff dest: bit_imp_le_length)
  have "push_bit 8 v OR ucast b = push_bit 8 v + (ucast b :: u64)"
    using disj by (simp add: disjunctive_add_eq_or)
  moreover have "unat (push_bit 8 v :: u64) = unat v * 256"
  proof -
    have "unat v * 256 < 2 ^ 64"
      using assms by simp
    then show ?thesis
      by (simp add: push_bit_eq_mult unat_mult_lem [THEN iffD1])
  qed
  moreover have "unat (ucast b :: u64) = unat b"
    using unat_u8_less [of b]
    by (simp add: unsigned_ucast_eq take_bit_nat_eq_self del: unat_u8_less)
  moreover have "unat v * 256 + unat b < 2 ^ LENGTH(64)"
    using assms unat_u8_less [of b] by (simp del: unat_u8_less)
  ultimately show ?thesis
    by (metis unat_add_lem)
qed

lemma unat_wire_read_loop:
  "unat v * 256 ^ length bs + be bs < 2 ^ 64 \<Longrightarrow>
   unat (wire_read_loop v bs) = unat v * 256 ^ length bs + be bs"
proof (induction bs arbitrary: v)
  case Nil
  then show ?case by simp
next
  case (Cons b bs)
  have "unat v * 256 \<le> unat v * 256 * 256 ^ length bs" by simp
  also have "\<dots> \<le> unat v * 256 ^ length (b # bs) + be (b # bs)"
    by (simp add: algebra_simps)
  also have "\<dots> < 2 ^ 64"
    by (rule Cons.prems)
  finally have v: "unat v * 256 < 2 ^ 64" .
  then have step: "unat (push_bit 8 v OR ucast b :: u64) = unat v * 256 + unat b"
    by (intro unat_wire_step) simp
  with Cons.prems have bound:
      "unat (push_bit 8 v OR ucast b :: u64) * 256 ^ length bs + be bs < 2 ^ 64"
    by (simp add: algebra_simps)
  show ?case
    using Cons.IH [OF bound] step by (simp add: algebra_simps)
qed

lemma pow_256_le: "n \<le> 8 \<Longrightarrow> (256 :: nat) ^ n \<le> 2 ^ 64"
proof -
  assume "n \<le> 8"
  then have "(256 :: nat) ^ n \<le> 256 ^ 8"
    by (intro power_increasing) simp_all
  then show ?thesis by simp
qed

lemma unat_wire_read:
  assumes "n \<le> 8"
  shows "unat (stn_wire_read p n) = be (take n p)"
proof -
  have "be (take n p) < 256 ^ n"
    by (rule be_take_less)
  then have "be (take n p) < 2 ^ 64"
    using pow_256_le [OF assms] by linarith
  then show ?thesis
    by (simp add: stn_wire_read_def unat_wire_read_loop)
qed

text \<open>Writing what was read gives the bytes back, and reading what was written the value.\<close>

lemma wire_write_read:
  assumes "n \<le> 8" "n \<le> length p"
  shows "stn_wire_write n (stn_wire_read p n) = take n p"
proof (rule be_inj)
  have "be (take n p) < 256 ^ n"
    by (rule be_take_less)
  then show "be (stn_wire_write n (stn_wire_read p n)) = be (take n p)"
    using assms by (simp add: be_wire_write unat_wire_read)
qed (use assms in simp)

lemma wire_read_write:
  assumes "n \<le> 8" "unat v < 256 ^ n"
  shows "stn_wire_read (stn_wire_write n v @ r) n = v"
proof -
  have "unat (stn_wire_read (stn_wire_write n v @ r) n) = unat v"
    using assms by (simp add: unat_wire_read be_wire_write)
  then show ?thesis by (simp add: word_unat_eq_iff)
qed

lemma wire_read_take [simp]: "stn_wire_read (take m p) n = stn_wire_read p (min n m)"
  by (simp add: stn_wire_read_def)

lemma unat_u64_small [simp]: "unat (v :: u64) < 18446744073709551616"
  using unsigned_less [of v, where ?'a = nat] by simp

lemma unat_ucast_u16 [simp]: "unat (ucast (v :: u16) :: u64) = unat v"
  using unsigned_less [of v, where ?'a = nat] by (simp add: unsigned_ucast_eq take_bit_nat_eq_self)

lemma unat_ucast_u32 [simp]: "unat (ucast (v :: u32) :: u64) = unat v"
  using unsigned_less [of v, where ?'a = nat] by (simp add: unsigned_ucast_eq take_bit_nat_eq_self)

lemma unat_u16_less [simp]: "unat (v :: u16) < 65536"
  using unsigned_less [of v, where ?'a = nat] by simp

lemma unat_u32_less [simp]: "unat (v :: u32) < 4294967296"
  using unsigned_less [of v, where ?'a = nat] by simp

text \<open>The three field widths the formats use.\<close>

lemma read_write_64 [simp]: "stn_wire_read (stn_wire_write 8 v @ r) 8 = v"
  by (rule wire_read_write) simp_all

lemma read_write_64_end [simp]: "stn_wire_read (stn_wire_write 8 v) 8 = v"
  using read_write_64 [of v "[]"] by simp

lemma read_write_32 [simp]:
  "ucast (stn_wire_read (stn_wire_write 4 (ucast (v :: u32)) @ r) 4) = v"
proof -
  have "stn_wire_read (stn_wire_write 4 (ucast v) @ r) 4 = ucast v"
    by (rule wire_read_write) simp_all
  then show ?thesis by (simp add: word_unat_eq_iff unsigned_ucast_eq take_bit_nat_eq_self)
qed

lemma read_write_32_end [simp]:
  "ucast (stn_wire_read (stn_wire_write 4 (ucast (v :: u32))) 4) = v"
  using read_write_32 [of v "[]"] by simp

lemma read_write_16 [simp]:
  "ucast (stn_wire_read (stn_wire_write 2 (ucast (v :: u16)) @ r) 2) = v"
proof -
  have "stn_wire_read (stn_wire_write 2 (ucast v) @ r) 2 = ucast v"
    by (rule wire_read_write) simp_all
  then show ?thesis by (simp add: word_unat_eq_iff unsigned_ucast_eq take_bit_nat_eq_self)
qed

lemma read_write_16_end [simp]:
  "ucast (stn_wire_read (stn_wire_write 2 (ucast (v :: u16))) 2) = v"
  using read_write_16 [of v "[]"] by simp

text \<open>A constant field, and the narrow copy of a field that was widened to be written.\<close>

lemma read_write_const [simp]:
  "unat v < 65536 \<Longrightarrow> stn_wire_read (stn_wire_write 2 v @ r) 2 = v"
  "unat v < 4294967296 \<Longrightarrow> stn_wire_read (stn_wire_write 4 v @ r) 4 = v"
  "unat v < 65536 \<Longrightarrow> stn_wire_read (stn_wire_write 2 v) 2 = v"
  "unat v < 4294967296 \<Longrightarrow> stn_wire_read (stn_wire_write 4 v) 4 = v"
  using wire_read_write [of 2 v] wire_read_write [of 4 v]
    wire_read_write [of 2 v "[]"] wire_read_write [of 4 v "[]"] by simp_all

lemma ucast_widened [simp]:
  "ucast (ucast (a :: u16) :: u64) = a"
  "ucast (ucast (b :: u32) :: u64) = b"
  "ucast (ucast (c :: u8) :: u64) = c"
  by (rule bit_word_eqI; auto simp: bit_simps dest: bit_imp_le_length)+

lemma ucast_narrow:
  fixes w :: u64
  assumes "unat w < 2 ^ LENGTH('a)"
  shows "ucast (ucast w :: 'a :: len word) = w"
proof -
  have "unat (take_bit LENGTH('a) w) = unat w"
    unfolding unsigned_take_bit_eq using assms by (rule take_bit_nat_eq_self)
  then have "take_bit LENGTH('a) w = w"
    by (simp add: word_unat_eq_iff)
  moreover have "ucast (ucast w :: 'a word) = take_bit LENGTH('a) w"
    by (rule bit_word_eqI) (auto simp: bit_simps)
  ultimately show ?thesis by simp
qed

lemma write_read_64 [simp]: "8 \<le> length p \<Longrightarrow> stn_wire_write 8 (stn_wire_read p 8) = take 8 p"
  by (simp add: wire_write_read)

lemma narrow_read:
  assumes "n \<le> 8" "256 ^ n \<le> (2 :: nat) ^ LENGTH('a :: len)"
  shows "ucast (ucast (stn_wire_read p n) :: 'a word) = stn_wire_read p n"
proof (rule ucast_narrow)
  have "be (take n p) < 256 ^ n"
    by (rule be_take_less)
  then show "unat (stn_wire_read p n) < 2 ^ LENGTH('a)"
    using assms by (simp add: unat_wire_read)
qed

lemma write_read_32 [simp]:
  "4 \<le> length p \<Longrightarrow> stn_wire_write 4 (ucast (ucast (stn_wire_read p 4) :: u32)) = take 4 p"
  by (simp add: narrow_read wire_write_read)

lemma write_read_16 [simp]:
  "2 \<le> length p \<Longrightarrow> stn_wire_write 2 (ucast (ucast (stn_wire_read p 2) :: u16)) = take 2 p"
  by (simp add: narrow_read wire_write_read)

text \<open>A field that was read as a constant is written back as that slice.\<close>

lemma const_field_16:
  "ucast (stn_wire_read p 2) = (c :: u16) \<Longrightarrow> 2 \<le> length p \<Longrightarrow> stn_wire_write 2 (ucast c) = take 2 p"
  by (metis write_read_16)

lemma const_field_32:
  "ucast (stn_wire_read p 4) = (c :: u32) \<Longrightarrow> 4 \<le> length p \<Longrightarrow> stn_wire_write 4 (ucast c) = take 4 p"
  by (metis write_read_32)

text \<open>A copy of \<open>n\<close> bytes that is skipped when \<open>n\<close> is zero.\<close>

lemma take_unless_zero [simp]:
  "(if l = 0 then [] else take (unat (l :: u32)) p) = take (unat l) p"
  by simp

lemma unat_read_32: "unat (ucast (stn_wire_read p 4) :: u32) = be (take 4 p)"
proof -
  have "be (take 4 p) < 256 ^ 4"
    by (rule be_take_less)
  then show ?thesis
    by (simp add: unsigned_ucast_eq unat_wire_read take_bit_nat_eq_self)
qed

section \<open>Slices of a byte string\<close>

text \<open>Adjacent slices of one byte string join; used right to left over an encoder's output.\<close>

lemma slice_join [slices]:
  "j = k + n \<Longrightarrow> take n (drop k bs) @ take m (drop j bs) = take (n + m) (drop k bs)"
  by (simp add: take_add drop_drop add.commute [of n k])

lemma slice_join_more [slices]:
  "j = k + n \<Longrightarrow> take n (drop k bs) @ take m (drop j bs) @ r = take (n + m) (drop k bs) @ r"
  by (simp add: take_add drop_drop add.commute [of n k])

lemma slice_join_start [slices]:
  "j = n \<Longrightarrow> take n bs @ take m (drop j bs) = take (n + m) bs"
  by (simp add: take_add)

lemma slice_join_start_more [slices]:
  "j = n \<Longrightarrow> take n bs @ take m (drop j bs) @ r = take (n + m) bs @ r"
  by (simp add: take_add)

lemma slice_end [slices]: "j = n \<Longrightarrow> take n bs @ drop j bs = bs"
  by simp

lemma slice_end_mid [slices]: "j = k + n \<Longrightarrow> take n (drop k bs) @ drop j bs = drop k bs"
  by (metis add.commute append_take_drop_id drop_drop)

text \<open>The first byte as a one-byte slice.\<close>

lemma hd_slice: "0 < length bs \<Longrightarrow> [bs ! 0] = take 1 bs"
  by (cases bs) auto

lemma nth_slice: "k < length bs \<Longrightarrow> [bs ! k] = take 1 (drop k bs)"
  by (simp add: take_Suc_conv_app_nth Cons_nth_drop_Suc [symmetric])

text \<open>A leading byte and the rest: the join every one-byte-version format needs.\<close>

lemma version_join:
  "0 < length bs \<Longrightarrow> bs ! 0 = v \<Longrightarrow> r = drop 1 bs \<Longrightarrow> v # r = bs"
  by (cases bs) auto

section \<open>Comparison and zero tests\<close>

text \<open>
  \<^verbatim>\<open>memcmp\<close> of two byte strings of one length: the sign of the first difference. On unequal
  lengths, which the code never compares, it is the lexicographic order.
\<close>

fun memcmp :: "bytes \<Rightarrow> bytes \<Rightarrow> int" where
  "memcmp [] [] = 0"
| "memcmp [] (b # bs) = - 1"
| "memcmp (a # as) [] = 1"
| "memcmp (a # as) (b # bs) = (if a < b then - 1 else if b < a then 1 else memcmp as bs)"

lemma memcmp_refl [simp]: "memcmp a a = 0"
  by (induction a) simp_all

lemma memcmp_eq_0_iff [simp]: "memcmp a b = 0 \<longleftrightarrow> a = b"
  by (induction a b rule: memcmp.induct) auto

lemma memcmp_swap: "memcmp b a = - memcmp a b"
  by (induction a b rule: memcmp.induct) auto

lemma memcmp_trans: "memcmp a b < 0 \<Longrightarrow> memcmp b c < 0 \<Longrightarrow> memcmp a c < 0"
proof (induction a b arbitrary: c rule: memcmp.induct)
  case (2 b bs)
  then show ?case by (cases c) auto
next
  case (4 a as b bs)
  then show ?case
    by (cases c) (auto split: if_splits)
qed auto

lemma memcmp_less_be: "length a = length b \<Longrightarrow> memcmp a b < 0 \<longleftrightarrow> be a < be b"
proof (induction a b rule: list_induct2)
  case Nil
  then show ?case by simp
next
  case (Cons x xs y ys)
  note d1 = digit_less [of "unat x" "unat y" "be xs" "256 ^ length xs" "be ys"]
  note d2 = digit_less [of "unat y" "unat x" "be ys" "256 ^ length ys" "be xs"]
  consider "x < y" | "y < x" | "x = y" by force
  then show ?case
  proof cases
    case 1
    then show ?thesis
      using d1 be_less [of xs] Cons.hyps by (simp add: word_less_nat_alt)
  next
    case 2
    then have "be (y # ys) < be (x # xs)"
      using d2 be_less [of ys] Cons.hyps by (simp add: word_less_nat_alt)
    with 2 show ?thesis
      by (auto simp del: be.simps)
  next
    case 3
    then show ?thesis
      using Cons by simp
  qed
qed

lemma memcmp_le_be: "length a = length b \<Longrightarrow> memcmp a b \<le> 0 \<longleftrightarrow> be a \<le> be b"
  using memcmp_less_be [of b a] memcmp_swap [of a b] by (auto simp: not_less)

text \<open>The zero tests of the sources: \<open>v |= p[i]\<close> over the bytes, then \<open>v != 0\<close>.\<close>

definition nonzero :: "bytes \<Rightarrow> bool" where
  "nonzero p \<longleftrightarrow> fold (\<lambda>b v. v OR b) p 0 \<noteq> 0"

lemma fold_or_eq_0: "fold (\<lambda>b v. v OR b) p v = (0 :: u8) \<longleftrightarrow> v = 0 \<and> (\<forall>b \<in> set p. b = 0)"
  by (induction p arbitrary: v) (auto simp: or_eq_0_iff)

lemma nonzero_iff: "nonzero p \<longleftrightarrow> (\<exists>b \<in> set p. b \<noteq> 0)"
  by (auto simp: nonzero_def fold_or_eq_0)

lemma nonzero_iff_be: "nonzero p \<longleftrightarrow> be p \<noteq> 0"
  by (auto simp: nonzero_iff be_eq_0_iff)

end
