(* ===== verification/Stn_Interfaces.thy ===== *)
theory Stn_Interfaces
  imports Stn_Prelude
begin

text \<open>
  The interfaces several components share, each a locale with its laws and the lemmas a client
  gets from them, and the array idioms they rest on.
  \<^item> \<open>codec\<close>: an encoder and a decoder of a canonical byte format.
  \<^item> \<open>key_registry\<close>: the replay and approval registries, a caller-owned buffer of fixed-size
    keys with a count and a capacity, a \<open>check\<close> and a \<open>consume\<close>.
  \<^item> sorted tables: the arrays kept in ascending identifier order (balances, compensation
    destinations, pending entries), searched from the front and opened with \<^verbatim>\<open>memmove\<close>.
\<close>

section \<open>Canonical codecs\<close>

text \<open>
  A format is canonical when decoding undoes encoding on well-formed values and an accepted byte
  string is exactly the encoding of what it decodes to. Every transaction, block and identifier
  hash of the chain is taken over such bytes, so the format must have one encoding per value.
\<close>

locale codec =
  fixes enc :: "'a \<Rightarrow> 'e + bytes"
    and dec :: "bytes \<Rightarrow> 'f + 'a"
    and wf :: "'a \<Rightarrow> bool"
  assumes dec_enc: "wf a \<Longrightarrow> enc a = Inr bs \<Longrightarrow> dec bs = Inr a"
    and enc_dec: "dec bs = Inr a \<Longrightarrow> enc a = Inr bs"
    and dec_wf: "dec bs = Inr a \<Longrightarrow> wf a"
begin

lemma enc_injective:
  assumes "wf a" "wf b" "enc a = Inr bs" "enc b = Inr bs"
  shows "a = b"
proof -
  have "dec bs = Inr a" using assms(1,3) by (rule dec_enc)
  moreover have "dec bs = Inr b" using assms(2,4) by (rule dec_enc)
  ultimately show ?thesis by simp
qed

lemma dec_injective:
  assumes "dec xs = Inr a" "dec ys = Inr a"
  shows "xs = ys"
proof -
  have "enc a = Inr xs" using assms(1) by (rule enc_dec)
  moreover have "enc a = Inr ys" using assms(2) by (rule enc_dec)
  ultimately show ?thesis by simp
qed

lemma dec_iff: "dec bs = Inr a \<longleftrightarrow> wf a \<and> enc a = Inr bs"
  by (auto intro: dec_enc enc_dec dec_wf)

end

section \<open>Registries of consumed keys\<close>

text \<open>
  \<^verbatim>\<open>stn_replay_state\<close>, \<^verbatim>\<open>stn_share_replay_state\<close>, \<^verbatim>\<open>stn_transfer_replay_state\<close>,
  \<^verbatim>\<open>stn_transfer_envelope_replay_state\<close> and \<^verbatim>\<open>stn_contract_approval_state\<close> have one layout: a
  buffer pointer, a count and a capacity in keys. The buffer is the list of its key slots, with
  \<open>None\<close> for a NULL pointer; slots at and after the count hold whatever was there before.
\<close>

record key_buffer =
  consumed :: "bytes list option"
  consumed_count :: nat
  consumed_capacity :: nat

definition buffer_valid :: "key_buffer \<Rightarrow> bool" where
  "buffer_valid s \<longleftrightarrow>
     consumed_count s \<le> consumed_capacity s \<and> (consumed_capacity s = 0 \<or> consumed s \<noteq> None)"

text \<open>The keys in force: the slots below the count.\<close>

definition accepted :: "key_buffer \<Rightarrow> bytes list" where
  "accepted s = take (consumed_count s) (case consumed s of None \<Rightarrow> [] | Some b \<Rightarrow> b)"

text \<open>The loop \<^verbatim>\<open>for(i=0;i<count;++i) if(memcmp(slot i,key)==0)\<close>.\<close>

definition scan_key :: "key_buffer \<Rightarrow> bytes \<Rightarrow> bool" where
  "scan_key s k \<longleftrightarrow> list_ex (\<lambda>x. memcmp x k = 0) (accepted s)"

text \<open>\<^verbatim>\<open>memcpy(slot count,key); ++count\<close>.\<close>

definition store_key :: "key_buffer \<Rightarrow> bytes \<Rightarrow> key_buffer" where
  "store_key s k =
     s\<lparr>consumed := map_option (\<lambda>b. b[consumed_count s := k]) (consumed s),
       consumed_count := consumed_count s + 1\<rparr>"

text \<open>The caller's contract: the buffer has room for as many keys as its capacity says.\<close>

definition buffer_wf :: "key_buffer \<Rightarrow> bool" where
  "buffer_wf s \<longleftrightarrow> buffer_valid s \<and>
     (case consumed s of None \<Rightarrow> True | Some b \<Rightarrow> length b = consumed_capacity s)"

definition key_buffer_initialize :: "bytes list option \<Rightarrow> nat \<Rightarrow> key_buffer" where
  "key_buffer_initialize buf cap =
     \<lparr>consumed = buf, consumed_count = 0, consumed_capacity = cap\<rparr>"

lemma scan_key_iff [simp]: "scan_key s k \<longleftrightarrow> k \<in> set (accepted s)"
  by (auto simp: scan_key_def list_ex_iff)

lemma buffer_wf_valid: "buffer_wf s \<Longrightarrow> buffer_valid s"
  by (simp add: buffer_wf_def)

lemma accepted_store:
  assumes "buffer_wf s" "consumed_count s < consumed_capacity s"
  shows "accepted (store_key s k) = accepted s @ [k]"
  using assms
  by (cases "consumed s")
     (auto simp: accepted_def store_key_def buffer_wf_def buffer_valid_def take_Suc_conv_app_nth)

lemma buffer_wf_store:
  assumes "buffer_wf s" "consumed_count s < consumed_capacity s"
  shows "buffer_wf (store_key s k)"
  using assms
  by (cases "consumed s") (auto simp: store_key_def buffer_wf_def buffer_valid_def)

lemma store_key_fields [simp]:
  "consumed_capacity (store_key s k) = consumed_capacity s"
  "consumed_count (store_key s k) = Suc (consumed_count s)"
  by (simp_all add: store_key_def)

lemma length_accepted: "buffer_wf s \<Longrightarrow> length (accepted s) = consumed_count s"
  by (cases "consumed s") (auto simp: accepted_def buffer_wf_def buffer_valid_def)

lemma accepted_initialize [simp]: "accepted (key_buffer_initialize b n) = []"
  by (simp add: accepted_def key_buffer_initialize_def)

lemma buffer_wf_initialize:
  "length b = n \<Longrightarrow> buffer_wf (key_buffer_initialize (Some b) n)"
  by (simp add: buffer_wf_def buffer_valid_def key_buffer_initialize_def)

text \<open>A sequence of consume calls; each returns its result and the state it leaves.\<close>

fun consume_all :: "('s \<Rightarrow> 'k \<Rightarrow> 'r \<times> 's) \<Rightarrow> 's \<Rightarrow> 'k list \<Rightarrow> 's" where
  "consume_all f s [] = s"
| "consume_all f s (k # ks) = consume_all f (snd (f s k)) ks"

text \<open>
  The rebuild loops: derive the key of each entry of a history in order and consume it, stopping
  at the first entry that is not fresh.
\<close>

fun rebuild_loop ::
  "('x \<Rightarrow> 'r + 'k) \<Rightarrow> ('s \<Rightarrow> 'k \<Rightarrow> 'r \<times> 's) \<Rightarrow> 'r \<Rightarrow> 's \<Rightarrow> 'x list \<Rightarrow> 'r \<times> 's" where
  "rebuild_loop ident f fresh s [] = (fresh, s)"
| "rebuild_loop ident f fresh s (x # xs) =
     (case ident x of
        Inl r \<Rightarrow> (r, s)
      | Inr k \<Rightarrow>
          (case f s k of
             (r, s') \<Rightarrow> if r \<noteq> fresh then (r, s') else rebuild_loop ident f fresh s' xs))"

locale key_registry =
  fixes check :: "key_buffer \<Rightarrow> 'k \<Rightarrow> 'r"
    and consume :: "key_buffer \<Rightarrow> 'k \<Rightarrow> 'r \<times> key_buffer"
    and key :: "'k \<Rightarrow> bytes option"
    and fresh :: 'r
    and dup :: 'r
    and full :: 'r
  assumes codes: "fresh \<noteq> dup" "fresh \<noteq> full"
    and check_spec: "buffer_wf s \<Longrightarrow> key k = Some b \<Longrightarrow>
      check s k = (if b \<in> set (accepted s) then dup else fresh)"
    and consume_spec: "buffer_wf s \<Longrightarrow> key k = Some b \<Longrightarrow>
      consume s k =
        (if b \<in> set (accepted s) then (dup, s)
         else if consumed_count s = consumed_capacity s then (full, s)
         else (fresh, store_key s b))"
    and consume_bad: "key k = None \<Longrightarrow> fst (consume s k) \<noteq> fresh \<and> snd (consume s k) = s"
begin

lemma consume_fresh_iff:
  assumes "buffer_wf s" "key k = Some b"
  shows "fst (consume s k) = fresh \<longleftrightarrow>
    b \<notin> set (accepted s) \<and> consumed_count s < consumed_capacity s"
  using assms codes by (auto simp: consume_spec buffer_wf_def buffer_valid_def)

text \<open>A call that is not fresh changes nothing.\<close>

lemma consume_fail_unchanged:
  assumes "buffer_wf s" "fst (consume s k) \<noteq> fresh"
  shows "snd (consume s k) = s"
  using assms by (cases "key k") (auto simp: consume_spec consume_bad split: if_splits)

lemma consume_accepted:
  assumes "buffer_wf s" "fst (consume s k) = fresh"
  obtains b where "key k = Some b" "accepted (snd (consume s k)) = accepted s @ [b]"
    "b \<notin> set (accepted s)"
proof (cases "key k")
  case None
  with assms(2) show ?thesis by (simp add: consume_bad)
next
  case (Some b)
  with assms show ?thesis
    using that [OF Some] consume_fresh_iff [OF assms(1) Some]
    by (simp add: consume_spec accepted_store)
qed

lemma consume_wf:
  assumes "buffer_wf s"
  shows "buffer_wf (snd (consume s k))"
proof (cases "key k")
  case None
  with assms show ?thesis by (simp add: consume_bad)
next
  case (Some b)
  moreover have "consumed_count s \<le> consumed_capacity s"
    using assms by (simp add: buffer_wf_def buffer_valid_def)
  ultimately show ?thesis
    using assms by (simp add: consume_spec buffer_wf_store)
qed

lemma consume_mono:
  assumes "buffer_wf s"
  shows "set (accepted s) \<subseteq> set (accepted (snd (consume s k)))"
proof (cases "fst (consume s k) = fresh")
  case True
  with assms show ?thesis by (auto elim: consume_accepted)
next
  case False
  with assms show ?thesis by (simp add: consume_fail_unchanged)
qed

lemma consume_distinct:
  assumes "buffer_wf s" "distinct (accepted s)"
  shows "distinct (accepted (snd (consume s k)))"
proof (cases "fst (consume s k) = fresh")
  case True
  from consume_accepted [OF assms(1) True] obtain b where
      "accepted (snd (consume s k)) = accepted s @ [b]" "b \<notin> set (accepted s)"
    by metis
  with assms(2) show ?thesis by simp
next
  case False
  with assms show ?thesis by (simp add: consume_fail_unchanged)
qed

lemma consume_all_inv:
  assumes "buffer_wf s" "distinct (accepted s)"
  shows "buffer_wf (consume_all consume s ks) \<and> distinct (accepted (consume_all consume s ks)) \<and>
    set (accepted s) \<subseteq> set (accepted (consume_all consume s ks))"
  using assms
proof (induction ks arbitrary: s)
  case Nil
  then show ?case by simp
next
  case (Cons k ks)
  have "buffer_wf (snd (consume s k))" "distinct (accepted (snd (consume s k)))"
    using Cons.prems by (simp_all add: consume_wf consume_distinct)
  from Cons.IH [OF this] consume_mono [OF Cons.prems(1), of k] show ?case
    by auto
qed

text \<open>A consumed key stays a duplicate, whatever is consumed after it.\<close>

lemma replay_is_duplicate:
  assumes "buffer_wf s" "distinct (accepted s)" "fst (consume s k) = fresh"
    "key l = key k"
  shows "check (consume_all consume (snd (consume s k)) ks) l = dup"
proof -
  from consume_accepted [OF assms(1,3)] obtain b where b: "key k = Some b"
      "accepted (snd (consume s k)) = accepted s @ [b]"
    by metis
  let ?t = "consume_all consume (snd (consume s k)) ks"
  have "buffer_wf ?t" "b \<in> set (accepted ?t)"
    using consume_all_inv [OF consume_wf [OF assms(1), of k] consume_distinct [OF assms(1,2), of k],
        of ks] b(2)
    by auto
  then show ?thesis
    using b(1) assms(4) by (simp add: check_spec)
qed

text \<open>
  A rebuild that succeeds has accepted exactly the keys of the history, in order, each once; and
  it succeeds on every history of distinct keys the buffer has room for.
\<close>

lemma rebuild_accepts:
  assumes "buffer_wf s" "distinct (accepted s)" "rebuild_loop ident consume fresh s xs = (fresh, t)"
    "\<And>x r. ident x = Inl r \<Longrightarrow> r \<noteq> fresh"
  shows "buffer_wf t \<and> distinct (accepted t) \<and>
    (\<exists>bs. accepted t = accepted s @ bs \<and>
      list_all2 (\<lambda>x b. \<exists>k. ident x = Inr k \<and> key k = Some b) xs bs)"
  using assms(1-3)
proof (induction xs arbitrary: s)
  case Nil
  then show ?case by simp
next
  case (Cons x xs)
  from Cons.prems(3) assms(4) obtain k where k: "ident x = Inr k" "fst (consume s k) = fresh"
      "rebuild_loop ident consume fresh (snd (consume s k)) xs = (fresh, t)"
    by (auto split: sum.splits prod.splits if_splits)
  from consume_accepted [OF Cons.prems(1) k(2)] obtain b where b: "key k = Some b"
      "accepted (snd (consume s k)) = accepted s @ [b]"
    by metis
  from Cons.IH [OF consume_wf [OF Cons.prems(1)] consume_distinct [OF Cons.prems(1,2)] k(3)]
  obtain bs where bs: "buffer_wf t" "distinct (accepted t)"
      "accepted t = accepted (snd (consume s k)) @ bs"
      "list_all2 (\<lambda>x b. \<exists>k. ident x = Inr k \<and> key k = Some b) xs bs"
    by blast
  have "accepted t = accepted s @ b # bs"
    using bs(3) b(2) by simp
  with bs k(1) b(1) show ?case
    by blast
qed

lemma rebuild_succeeds:
  assumes "buffer_wf s" "list_all2 (\<lambda>x b. \<exists>k. ident x = Inr k \<and> key k = Some b) xs bs"
    "distinct (accepted s @ bs)" "consumed_count s + length bs \<le> consumed_capacity s"
  shows "fst (rebuild_loop ident consume fresh s xs) = fresh"
  using assms(2,1,3,4)
proof (induction xs bs arbitrary: s rule: list_all2_induct)
  case Nil
  then show ?case by simp
next
  case (Cons x xs b bs)
  then obtain k where k: "ident x = Inr k" "key k = Some b" by blast
  have c: "consume s k = (fresh, store_key s b)"
    using Cons.prems k(2) by (simp add: consume_spec)
  have room: "consumed_count s < consumed_capacity s"
    using Cons.prems by simp
  have "fst (rebuild_loop ident consume fresh (store_key s b) xs) = fresh"
    using Cons.prems Cons.IH [OF buffer_wf_store [OF Cons.prems(1) room, of b]]
    by (simp add: accepted_store [OF Cons.prems(1) room])
  with k c show ?case by simp
qed

end

section \<open>Tables sorted by identifier\<close>

text \<open>\<^verbatim>\<open>while(at<count && memcmp(entry[at].id,id)<0) ++at\<close>: the insertion point.\<close>

fun find_at :: "('a \<Rightarrow> bytes) \<Rightarrow> bytes \<Rightarrow> 'a list \<Rightarrow> nat" where
  "find_at f k [] = 0"
| "find_at f k (x # xs) = (if memcmp (f x) k < 0 then Suc (find_at f k xs) else 0)"

text \<open>\<^verbatim>\<open>memmove(entries+at+1,entries+at,...); entries[at]=x\<close>.\<close>

definition insert_at :: "nat \<Rightarrow> 'a \<Rightarrow> 'a list \<Rightarrow> 'a list" where
  "insert_at n x xs = take n xs @ x # drop n xs"

text \<open>The lookup loop, left early at the first larger identifier.\<close>

fun scan_sorted :: "('a \<Rightarrow> bytes) \<Rightarrow> bytes \<Rightarrow> 'a list \<Rightarrow> 'a option" where
  "scan_sorted f k [] = None"
| "scan_sorted f k (x # xs) =
     (if memcmp (f x) k = 0 then Some x
      else if memcmp (f x) k > 0 then None
      else scan_sorted f k xs)"

definition sorted_by :: "('a \<Rightarrow> bytes) \<Rightarrow> 'a list \<Rightarrow> bool" where
  "sorted_by f xs \<longleftrightarrow> sorted_wrt (\<lambda>a b. memcmp (f a) (f b) < 0) xs"

text \<open>The table as a finite map from identifiers to entries.\<close>

definition table :: "('a \<Rightarrow> bytes) \<Rightarrow> 'a list \<Rightarrow> bytes \<rightharpoonup> 'a" where
  "table f xs = map_of (map (\<lambda>x. (f x, x)) xs)"

lemma sorted_by_simps [simp]:
  "sorted_by f []"
  "sorted_by f (x # xs) \<longleftrightarrow> (\<forall>y \<in> set xs. memcmp (f x) (f y) < 0) \<and> sorted_by f xs"
  by (simp_all add: sorted_by_def)

lemma table_simps [simp]:
  "table f [] k = None"
  "table f (x # xs) k = (if f x = k then Some x else table f xs k)"
  by (simp_all add: table_def)

lemma table_key: "table f xs k = Some x \<Longrightarrow> f x = k \<and> x \<in> set xs"
  by (induction xs) (auto split: if_splits)

lemma table_None_iff: "table f xs k = None \<longleftrightarrow> k \<notin> f ` set xs"
  by (induction xs) auto

lemma memcmp_asym: "memcmp a b < 0 \<Longrightarrow> \<not> memcmp b a < 0"
  by (simp add: memcmp_swap [of b a])

lemma memcmp_total: "memcmp a b < 0 \<or> a = b \<or> memcmp b a < 0"
  by (metis linorder_neqE_linordered_idom memcmp_eq_0_iff memcmp_swap neg_less_0_iff_less)

lemma sorted_by_larger_absent:
  assumes "sorted_by f xs" "\<forall>y \<in> set xs. memcmp k (f y) < 0"
  shows "k \<notin> f ` set xs"
  using assms(2) by auto

text \<open>In a sorted table the early exit is right: the scan is the map lookup.\<close>

lemma scan_sorted_table:
  assumes "sorted_by f xs"
  shows "scan_sorted f k xs = table f xs k"
  using assms
proof (induction xs)
  case Nil
  then show ?case by simp
next
  case (Cons x xs)
  show ?case
  proof (cases "memcmp (f x) k > 0")
    case True
    then have "memcmp k (f x) < 0"
      by (simp add: memcmp_swap [of k])
    then have "\<forall>y \<in> set xs. memcmp k (f y) < 0"
      using Cons.prems by (auto intro: memcmp_trans)
    then have "table f xs k = None"
      using Cons.prems by (subst table_None_iff) auto
    with True show ?thesis by auto
  next
    case False
    with Cons show ?thesis by auto
  qed
qed

lemma find_at_le: "find_at f k xs \<le> length xs"
  by (induction xs) auto

lemma find_at_before: "x \<in> set (take (find_at f k xs) xs) \<Longrightarrow> memcmp (f x) k < 0"
  by (induction xs) (auto split: if_splits)

lemma find_at_not_less:
  "find_at f k xs < length xs \<Longrightarrow> \<not> memcmp (f (xs ! find_at f k xs)) k < 0"
  by (induction xs) auto

text \<open>The insertion point carries the identifier exactly when the table has it.\<close>

lemma find_at_table:
  assumes "sorted_by f xs"
  shows "table f xs k =
    (if find_at f k xs < length xs \<and> f (xs ! find_at f k xs) = k
     then Some (xs ! find_at f k xs) else None)"
  using assms
proof (induction xs)
  case Nil
  then show ?case by simp
next
  case (Cons x xs)
  show ?case
  proof (cases "memcmp (f x) k < 0")
    case True
    with Cons show ?thesis by auto
  next
    case False
    have "table f xs k = None" if "f x \<noteq> k"
    proof -
      from False that have "memcmp k (f x) < 0"
        using memcmp_total [of k "f x"] by auto
      then have "\<forall>y \<in> set xs. memcmp k (f y) < 0"
        using Cons.prems by (auto intro: memcmp_trans)
      then show ?thesis
        by (subst table_None_iff) auto
    qed
    with False show ?thesis by auto
  qed
qed

lemma set_insert_at [simp]: "set (insert_at n x xs) = insert x (set xs)"
proof -
  have "set (insert_at n x xs) = insert x (set (take n xs) \<union> set (drop n xs))"
    by (auto simp: insert_at_def)
  also have "\<dots> = insert x (set xs)"
    by (metis append_take_drop_id set_append)
  finally show ?thesis .
qed

lemma length_insert_at [simp]: "length (insert_at n x xs) = Suc (length xs)"
  by (simp add: insert_at_def)

lemma insert_at_find_Cons:
  "insert_at (find_at f k (y # ys)) x (y # ys) =
     (if memcmp (f y) k < 0 then y # insert_at (find_at f k ys) x ys else x # y # ys)"
  by (simp add: insert_at_def)

lemma sorted_insert_at:
  assumes "sorted_by f xs" "table f xs (f x) = None"
  shows "sorted_by f (insert_at (find_at f (f x) xs) x xs)"
  using assms
proof (induction xs)
  case Nil
  then show ?case by (simp add: insert_at_def)
next
  case (Cons y ys)
  show ?case
  proof (cases "memcmp (f y) (f x) < 0")
    case True
    with Cons show ?thesis by (auto simp: insert_at_find_Cons simp del: find_at.simps split: if_splits)
  next
    case False
    with Cons.prems have "memcmp (f x) (f y) < 0"
      using memcmp_total [of "f x" "f y"] by (auto split: if_splits)
    with Cons.prems False show ?thesis
      by (auto simp: insert_at_find_Cons simp del: find_at.simps intro: memcmp_trans)
  qed
qed

lemma table_insert_at:
  assumes "sorted_by f xs" "table f xs (f x) = None"
  shows "table f (insert_at (find_at f (f x) xs) x xs) = (table f xs)(f x \<mapsto> x)"
  using assms
proof (induction xs)
  case Nil
  then show ?case by (auto simp: insert_at_def)
next
  case (Cons y ys)
  then show ?case
    by (auto simp: insert_at_find_Cons fun_eq_iff simp del: find_at.simps split: if_splits)
qed

text \<open>Access and update of one slot of a sorted table.\<close>

lemma sorted_by_nth_less:
  "sorted_by f xs \<Longrightarrow> i < j \<Longrightarrow> j < length xs \<Longrightarrow> memcmp (f (xs ! i)) (f (xs ! j)) < 0"
  by (auto simp: sorted_by_def intro: sorted_wrt_nth_less)

lemma table_nth:
  assumes "sorted_by f xs" "i < length xs"
  shows "table f xs (f (xs ! i)) = Some (xs ! i)"
  using assms
proof (induction xs arbitrary: i)
  case Nil
  then show ?case by simp
next
  case (Cons x xs)
  show ?case
  proof (cases i)
    case 0
    then show ?thesis by simp
  next
    case (Suc j)
    have "xs ! j \<in> set xs" using Cons.prems Suc by simp
    then have "f x \<noteq> f (xs ! j)" using Cons.prems by auto
    then show ?thesis using Cons Suc by simp
  qed
qed

lemma map_update_same: "f y = f (xs ! i) \<Longrightarrow> map f (xs[i := y]) = map f xs"
  by (cases "i < length xs") (simp_all add: map_update list_update_same_conv list_update_beyond)

lemma sorted_by_map: "sorted_by f xs \<longleftrightarrow> sorted_wrt (\<lambda>a b. memcmp a b < 0) (map f xs)"
  by (simp add: sorted_by_def sorted_wrt_map)

lemma sorted_by_update:
  "f y = f (xs ! i) \<Longrightarrow> sorted_by f (xs[i := y]) \<longleftrightarrow> sorted_by f xs"
  by (simp add: sorted_by_map map_update_same)

lemma table_update:
  assumes "sorted_by f xs" "i < length xs" "f y = f (xs ! i)"
  shows "table f (xs[i := y]) = (table f xs)(f y \<mapsto> y)"
  using assms
proof (induction xs arbitrary: i)
  case Nil
  then show ?case by simp
next
  case (Cons x xs)
  show ?case
  proof (cases i)
    case 0
    then show ?thesis using Cons.prems by (auto simp: fun_eq_iff)
  next
    case (Suc j)
    have "memcmp (f x) (f (xs ! j)) < 0" using Cons.prems Suc by simp
    then have "f x \<noteq> f y" using Cons.prems(3) Suc by auto
    then show ?thesis using Cons Suc by (auto simp: fun_eq_iff)
  qed
qed

end
