(* ===== verification/Stn_Work.thy ===== *)
theory Stn_Work
  imports Stn_Interfaces
begin

text \<open>
  Targets and work: \<^verbatim>\<open>src/src/stn_pow.c\<close> without the retarget rule (theory
  \<^verbatim>\<open>Stn_Retarget\<close>) and without \<^verbatim>\<open>stn_pow_verify\<close> (theory \<^verbatim>\<open>Stn_Block\<close>), and
  \<^verbatim>\<open>src/src/stn_economy.c\<close>. A target is 32 big-endian bytes, work is 40. The byte loops are
  kept as loops; the lemmas relate them to arithmetic on the numbers the bytes denote.
\<close>

section \<open>The byte loops\<close>

text \<open>
  \<^verbatim>\<open>for(i=n;i!=0;){--i; v=f(p[i],carry); p[i]=(uint8_t)(v&255u); carry=v>>8;}\<close>, from the last
  byte to the first; \<^verbatim>\<open>unsigned\<close> is 32 bits wide.
\<close>

fun carry_loop :: "(u8 \<Rightarrow> u32 \<Rightarrow> u32) \<Rightarrow> u32 \<Rightarrow> bytes \<Rightarrow> bytes \<times> u32" where
  "carry_loop f c [] = ([], c)"
| "carry_loop f c (b # bs) =
     (let (r, c') = carry_loop f c bs; v = f b c'
      in (ucast (v AND 255) # r, drop_bit 8 v))"

text \<open>\<^verbatim>\<open>v=a[i]+b[i]+carry\<close> of \<^verbatim>\<open>stn_work_add\<close>.\<close>

fun add_loop :: "bytes \<Rightarrow> bytes \<Rightarrow> bytes \<times> u32" where
  "add_loop (a # as) (b # bs) =
     (let (r, c) = add_loop as bs; v = ucast a + ucast b + c
      in (ucast (v AND 255) # r, drop_bit 8 v))"
| "add_loop _ _ = ([], 0)"

text \<open>\<^verbatim>\<open>sub=denominator[i]+borrow; v=remainder[i]; remainder[i]=(v-sub)&255; borrow=v<sub\<close>.\<close>

fun sub_loop :: "bytes \<Rightarrow> bytes \<Rightarrow> bytes \<times> u32" where
  "sub_loop (a # as) (b # bs) =
     (let (r, borrow) = sub_loop as bs; sub = ucast b + borrow; v = (ucast a :: u32)
      in (ucast ((v - sub) AND 255) # r, if v < sub then 1 else 0))"
| "sub_loop _ _ = ([], 0)"

lemma length_carry_loop [simp, lengths]: "length (fst (carry_loop f c bs)) = length bs"
  by (induction bs) (simp_all add: case_prod_unfold Let_def)

lemma length_add_loop: "length a = length b \<Longrightarrow> length (fst (add_loop a b)) = length b"
  by (induction a b rule: list_induct2) (simp_all add: case_prod_unfold Let_def)

lemma length_sub_loop: "length a = length b \<Longrightarrow> length (fst (sub_loop a b)) = length b"
  by (induction a b rule: list_induct2) (simp_all add: case_prod_unfold Let_def)

lemma unat_low_byte_32: "unat (ucast (v AND 255 :: u32) :: u8) = unat v mod 256"
proof -
  have "(255 :: u32) = mask 8" by (simp add: mask_eq_exp_minus_1)
  then have "ucast (v AND 255) = (ucast (take_bit 8 v) :: u8)"
    by (simp only: take_bit_eq_mask)
  also have "\<dots> = ucast v"
    by (rule bit_word_eqI) (simp add: bit_simps)
  finally show ?thesis
    by (simp add: unsigned_ucast_eq take_bit_eq_mod)
qed

lemma unat_carry: "unat (drop_bit 8 v :: u32) = unat v div 256"
  unfolding unat_drop_bit_eq by (simp add: drop_bit_eq_div)

lemma split_256: "x mod 256 * P + (x div 256) * (256 * P) = x * (P :: nat)"
proof -
  have "x mod 256 * P + (x div 256) * (256 * P) = (x mod 256 + (x div 256) * 256) * P"
    by (simp only: add_mult_distrib mult.assoc)
  then show ?thesis by simp
qed

text \<open>
  A loop whose step is \<open>k * b + carry\<close> multiplies the number by \<open>k\<close> and adds the first carry; the
  carry that leaves the first byte is the part that does not fit.
\<close>

lemma carry_loop_value:
  assumes step: "\<And>b c. unat c \<le> k \<Longrightarrow> unat (f b c) = k * unat b + unat c"
    and "0 < k" "unat c \<le> k"
  shows "be (fst (carry_loop f c bs)) + unat (snd (carry_loop f c bs)) * 256 ^ length bs =
      k * be bs + unat c \<and> unat (snd (carry_loop f c bs)) \<le> k"
proof (induction bs)
  case Nil
  then show ?case using assms by simp
next
  case (Cons b bs)
  obtain r d where rd: "carry_loop f c bs = (r, d)" by force
  let ?P = "256 ^ length bs"
  have r: "be r + unat d * ?P = k * be bs + unat c" and d: "unat d \<le> k"
    using Cons.IH rd by simp_all
  have len: "length r = length bs"
    using length_carry_loop [of f c bs] rd by simp
  have v: "unat (f b d) = k * unat b + unat d"
    using step d by blast
  have "be (fst (carry_loop f c (b # bs))) + unat (snd (carry_loop f c (b # bs))) * 256 ^ length (b # bs) =
      unat (f b d) mod 256 * ?P + unat (f b d) div 256 * (256 * ?P) + be r"
    by (simp add: rd len unat_low_byte_32 unat_carry Let_def)
  also have "\<dots> = (k * unat b + unat d) * ?P + be r"
    by (simp only: split_256 v)
  also have "\<dots> = k * be (b # bs) + unat c"
    using r by (simp add: algebra_simps)
  finally have val: "be (fst (carry_loop f c (b # bs))) +
      unat (snd (carry_loop f c (b # bs))) * 256 ^ length (b # bs) = k * be (b # bs) + unat c" .
  have "unat b \<le> 255"
    using unat_u8_less [of b] by linarith
  then have "k * unat b \<le> k * 255" by (rule mult_le_mono2)
  then have "k * unat b + unat d \<le> k * 255 + k"
    using d by (rule add_le_mono)
  also have "\<dots> < 256 * (k + 1)" by simp
  finally have "unat (f b d) < 256 * (k + 1)"
    unfolding v .
  then have "unat (f b d) < (k + 1) * 256"
    by (simp only: mult.commute)
  then have "unat (f b d) div 256 < k + 1"
    by (rule less_mult_imp_div_less)
  then have "unat (f b d) div 256 \<le> k" by simp
  then have "unat (snd (carry_loop f c (b # bs))) \<le> k"
    by (simp add: rd unat_carry Let_def)
  with val show ?case by blast
qed

lemma add_loop_value:
  assumes "length a = length b"
  shows "be (fst (add_loop a b)) + unat (snd (add_loop a b)) * 256 ^ length b = be a + be b \<and>
    unat (snd (add_loop a b)) \<le> 1"
  using assms
proof (induction a b rule: list_induct2)
  case Nil
  then show ?case by simp
next
  case (Cons x xs y ys)
  obtain r d where rd: "add_loop xs ys = (r, d)" by force
  let ?P = "256 ^ length ys" and ?v = "ucast x + ucast y + d :: u32"
  have r: "be r + unat d * ?P = be xs + be ys" and d: "unat d \<le> 1"
    using Cons.IH rd by simp_all
  have len: "length r = length ys"
    using length_add_loop [OF Cons.hyps] rd by simp
  have x: "unat (ucast x :: u32) = unat x" "unat (ucast y :: u32) = unat y"
    using unat_u8_less [of x] unat_u8_less [of y]
    by (simp_all add: unsigned_ucast_eq take_bit_nat_eq_self del: unat_u8_less)
  have v: "unat ?v = unat x + unat y + unat d"
    using d x unat_u8_less [of x] unat_u8_less [of y]
    by (simp add: unat_word_ariths del: unat_u8_less)
  have "be (fst (add_loop (x # xs) (y # ys))) + unat (snd (add_loop (x # xs) (y # ys))) * 256 ^ length (y # ys) =
      unat ?v mod 256 * ?P + unat ?v div 256 * (256 * ?P) + be r"
    by (simp add: rd len unat_low_byte_32 unat_carry Let_def)
  also have "\<dots> = (unat x + unat y + unat d) * ?P + be r"
    by (simp only: split_256 v)
  also have "\<dots> = be (x # xs) + be (y # ys)"
    using r Cons.hyps by (simp add: algebra_simps)
  finally have "be (fst (add_loop (x # xs) (y # ys))) +
      unat (snd (add_loop (x # xs) (y # ys))) * 256 ^ length (y # ys) = be (x # xs) + be (y # ys)" .
  moreover have "unat (snd (add_loop (x # xs) (y # ys))) \<le> 1"
    using v d unat_u8_less [of x] unat_u8_less [of y]
    by (simp add: rd unat_carry Let_def del: unat_u8_less)
  ultimately show ?case by blast
qed

lemma sub_loop_value:
  assumes "length a = length b"
  shows "be (fst (sub_loop a b)) + be b = be a + unat (snd (sub_loop a b)) * 256 ^ length b \<and>
    unat (snd (sub_loop a b)) \<le> 1"
  using assms
proof (induction a b rule: list_induct2)
  case Nil
  then show ?case by simp
next
  case (Cons x xs y ys)
  obtain r d where rd: "sub_loop xs ys = (r, d)" by force
  let ?P = "256 ^ length ys" and ?s = "ucast y + d :: u32" and ?v = "ucast x :: u32"
  have r: "be r + be ys = be xs + unat d * ?P" and d: "unat d \<le> 1"
    using Cons.IH rd by simp_all
  have len: "length r = length ys"
    using length_sub_loop [OF Cons.hyps] rd by simp
  have bounds: "unat x < 256" "unat y < 256" by simp_all
  have v: "unat ?v = unat x" and s: "unat ?s = unat y + unat d"
    using bounds d by (simp_all add: unsigned_ucast_eq take_bit_nat_eq_self unat_word_ariths del: unat_u8_less)
  have digit: "unat (?v - ?s) mod 256 + (unat y + unat d) = unat x + (if ?v < ?s then 256 else 0)"
  proof (cases "?v < ?s")
    case True
    then have lt: "unat x < unat y + unat d" by (simp add: word_less_nat_alt v s)
    have "unat (?v - ?s) = 4294967296 + unat x - (unat y + unat d)"
      using True lt by (simp add: unat_sub_if' v s word_le_nat_alt)
    moreover have "(4294967296 + unat x - (unat y + unat d)) mod 256 = 256 + unat x - (unat y + unat d)"
    proof -
      have "4294967296 + unat x - (unat y + unat d) = (256 + unat x - (unat y + unat d)) + 16777215 * 256"
        using bounds d by linarith
      moreover have "256 + unat x - (unat y + unat d) < 256"
        using lt by linarith
      ultimately show ?thesis by (metis mod_less mod_mult_self1)
    qed
    moreover have "256 + unat x - (unat y + unat d) + (unat y + unat d) = unat x + 256"
      using bounds d by linarith
    ultimately show ?thesis using True by simp
  next
    case False
    then have ge: "unat y + unat d \<le> unat x" by (simp add: word_less_nat_alt v s)
    then have "unat (?v - ?s) = unat x - (unat y + unat d)"
      using False by (simp add: unat_sub_if' v s word_le_nat_alt)
    moreover have "unat x - (unat y + unat d) < 256"
      using bounds by linarith
    ultimately show ?thesis using False ge by simp
  qed
  have "be (fst (sub_loop (x # xs) (y # ys))) + be (y # ys) =
      (unat (?v - ?s) mod 256 + (unat y + unat d)) * ?P + (be r + be ys) - unat d * ?P"
    by (simp add: rd len unat_low_byte_32 algebra_simps Let_def)
  also have "\<dots> = (unat x + (if ?v < ?s then 256 else 0)) * ?P + be xs"
    using r by (simp only: digit)
  also have "\<dots> = be (x # xs) + unat (snd (sub_loop (x # xs) (y # ys))) * 256 ^ length (y # ys)"
    using Cons.hyps by (simp add: rd algebra_simps Let_def)
  finally show ?case by (simp add: rd Let_def)
qed

section \<open>Targets\<close>

fun stn_target_validate :: "bytes option \<Rightarrow> stn_data_status" where
  "stn_target_validate None = STN_DATA_ARGUMENT"
| "stn_target_validate (Some target) =
     (if length target \<noteq> 32 then STN_DATA_LENGTH
      else if nonzero target \<and> target ! 0 < 0x80 then STN_DATA_OK
      else STN_DATA_TARGET)"

fun stn_pow_compare :: "bytes option \<Rightarrow> bytes \<Rightarrow> stn_data_status" where
  "stn_pow_compare None target = STN_DATA_ARGUMENT"
| "stn_pow_compare (Some hash) target =
     (let s = stn_target_validate (Some target)
      in if s \<noteq> STN_DATA_OK then s
         else if memcmp hash target \<le> 0 then STN_DATA_OK
         else STN_DATA_WORK)"

text \<open>The number of a valid target, between 1 and \<open>2^255 - 1\<close>.\<close>

lemma be_32_split:
  "length t = 32 \<Longrightarrow> be t = unat (t ! 0) * 256 ^ 31 + be (tl t) \<and> be (tl t) < 256 ^ 31"
  using be_less [of "tl t"] by (cases t) simp_all

lemma top_bit_clear_iff:
  assumes "length t = 32"
  shows "t ! 0 < 0x80 \<longleftrightarrow> be t < 2 ^ 255"
proof -
  have b: "be t = unat (t ! 0) * 256 ^ 31 + be (tl t)" "be (tl t) < 256 ^ 31"
    using be_32_split [OF assms] by simp_all
  have "t ! 0 < 0x80 \<longleftrightarrow> unat (t ! 0) < 128"
    by (simp add: word_less_nat_alt)
  moreover have "be t < 128 * 256 ^ 31" if "unat (t ! 0) < 128"
  proof -
    have "be t < (unat (t ! 0) + 1) * 256 ^ 31"
      using b by (simp only: add_mult_distrib)
    also have "\<dots> \<le> 128 * 256 ^ 31"
      using that by (intro mult_le_mono1) simp
    finally show ?thesis .
  qed
  moreover have "128 * 256 ^ 31 \<le> be t" if "\<not> unat (t ! 0) < 128"
  proof -
    have "128 * (256 :: nat) ^ 31 \<le> unat (t ! 0) * 256 ^ 31"
      using that by (intro mult_le_mono1) simp
    also have "\<dots> \<le> be t"
      unfolding b(1) by (rule le_add1)
    finally show ?thesis .
  qed
  moreover have "(128 :: nat) * 256 ^ 31 = 2 ^ 255" by simp
  ultimately show ?thesis by (metis not_less)
qed

lemma target_validate_iff:
  "stn_target_validate (Some t) = STN_DATA_OK \<longleftrightarrow> length t = 32 \<and> 0 < be t \<and> be t < 2 ^ 255"
  using top_bit_clear_iff [of t] by (auto simp: nonzero_iff_be)

lemma target_validate_length: "stn_target_validate (Some t) = STN_DATA_OK \<Longrightarrow> length t = 32"
  by (simp add: target_validate_iff del: stn_target_validate.simps)

declare stn_target_validate.simps(2) [simp del]

section \<open>Work\<close>

text \<open>\<^verbatim>\<open>typedef struct stn_work { uint8_t bytes[40]; }\<close>\<close>

datatype stn_work = Stn_Work (work_bytes: bytes)

definition STN_WORK_SIZE :: nat where "STN_WORK_SIZE = 40"

text \<open>Work is compared with \<^verbatim>\<open>memcmp\<close>; this is a linear order, so the library's order applies.\<close>

instantiation stn_work :: linorder
begin

definition less_eq_stn_work :: "stn_work \<Rightarrow> stn_work \<Rightarrow> bool" where
  "less_eq_stn_work a b \<longleftrightarrow> memcmp (work_bytes a) (work_bytes b) \<le> 0"

definition less_stn_work :: "stn_work \<Rightarrow> stn_work \<Rightarrow> bool" where
  "less_stn_work a b \<longleftrightarrow> memcmp (work_bytes a) (work_bytes b) < 0"

instance
proof
  fix a b c :: stn_work
  show "a < b \<longleftrightarrow> a \<le> b \<and> \<not> b \<le> a"
    using memcmp_swap [of "work_bytes a" "work_bytes b"]
    by (auto simp: less_eq_stn_work_def less_stn_work_def)
  show "a \<le> a" by (simp add: less_eq_stn_work_def)
  show "a \<le> b \<Longrightarrow> b \<le> c \<Longrightarrow> a \<le> c"
    using memcmp_trans [of "work_bytes a" "work_bytes b" "work_bytes c"]
    by (auto simp: less_eq_stn_work_def le_less)
  show "a \<le> b \<Longrightarrow> b \<le> a \<Longrightarrow> a = b"
    using memcmp_swap [of "work_bytes a" "work_bytes b"]
    by (auto simp: less_eq_stn_work_def stn_work.expand)
  show "a \<le> b \<or> b \<le> a"
    using memcmp_swap [of "work_bytes a" "work_bytes b"]
    by (auto simp: less_eq_stn_work_def)
qed

end

definition work_value :: "stn_work \<Rightarrow> nat" where
  "work_value w = be (work_bytes w)"

definition wf_work :: "stn_work \<Rightarrow> bool" where
  "wf_work w \<longleftrightarrow> length (work_bytes w) = 40"

definition zero_work :: stn_work where
  "zero_work = Stn_Work (replicate 40 0)"

fun stn_work_add :: "stn_work option \<Rightarrow> stn_work option \<Rightarrow> stn_work data_result" where
  "stn_work_add (Some a) (Some b) =
     (let (accum, carry) = add_loop (work_bytes a) (work_bytes b)
      in if carry \<noteq> 0 then Inl STN_DATA_OVERFLOW else Inr (Stn_Work accum))"
| "stn_work_add _ _ = Inl STN_DATA_ARGUMENT"

text \<open>
  The division of \<^verbatim>\<open>stn_target_work\<close>, bit by bit from 256 to 0: shift the 33-byte remainder left
  (bringing in the single one bit of the numerator \<open>2^256\<close> first), compare with the
  denominator, subtract and set the quotient bit. The first argument is the number of bits left.
\<close>

fun div_loop :: "nat \<Rightarrow> bytes \<Rightarrow> bytes \<Rightarrow> bytes \<Rightarrow> stn_work data_result" where
  "div_loop 0 den rem q = Inr (Stn_Work q)"
| "div_loop (Suc k) den rem q =
     (let rem1 = fst (carry_loop (\<lambda>b c. ucast b * 2 + c) (if k = 256 then 1 else 0) rem)
      in if memcmp rem1 den \<ge> 0 then
           (let rem2 = fst (sub_loop rem1 den)
            in if k = 256 then Inl STN_DATA_OVERFLOW
               else div_loop k den rem2
                      (q[39 - k div 8 := (q ! (39 - k div 8)) OR push_bit (k mod 8) 1]))
         else div_loop k den rem1 q)"

definition stn_target_work :: "bytes \<Rightarrow> stn_work data_result" where
  "stn_target_work target =
     (let s = stn_target_validate (Some target)
      in if s \<noteq> STN_DATA_OK then Inl s
         else
           (let denominator = fst (carry_loop (\<lambda>b c. ucast b + c) 1 (0 # target))
            in div_loop 257 denominator (replicate 33 0) (replicate 40 0)))"

text \<open>The double-and-add loop of \<^verbatim>\<open>stn_work_at_height\<close>.\<close>

function work_height_loop :: "u64 \<Rightarrow> stn_work \<Rightarrow> stn_work \<Rightarrow> stn_work data_result" where
  "work_height_loop height accum pw =
     (if height = 0 then Inr accum
      else
        (case (if height AND 1 \<noteq> 0 then stn_work_add (Some accum) (Some pw) else Inr accum) of
           Inl s \<Rightarrow> Inl s
         | Inr accum' \<Rightarrow>
             (if drop_bit 1 height \<noteq> 0 then
                (case stn_work_add (Some pw) (Some pw) of
                   Inl s \<Rightarrow> Inl s
                 | Inr pw' \<Rightarrow> work_height_loop (drop_bit 1 height) accum' pw')
              else Inr accum')))"
  by pat_completeness auto
termination
proof (relation "measure (\<lambda>(h, _, _). unat h)", goal_cases)
  case 1
  show ?case by simp
next
  case (2 height accum pw)
  have "unat (drop_bit 1 height) = unat height div 2"
    unfolding unat_drop_bit_eq by (simp add: drop_bit_eq_div)
  moreover have "0 < unat height"
    using 2(1) by (simp add: unat_gt_0)
  ultimately show ?case by simp
qed

declare work_height_loop.simps [simp del]

definition stn_work_at_height :: "bytes \<Rightarrow> u64 \<Rightarrow> stn_work data_result" where
  "stn_work_at_height target height =
     (case stn_target_work target of
        Inl s \<Rightarrow> Inl s
      | Inr unit \<Rightarrow>
          (case work_height_loop height zero_work unit of
             Inl s \<Rightarrow> Inl s
           | Inr accum \<Rightarrow> stn_work_add (Some accum) (Some unit)))"

section \<open>The share target (\<^verbatim>\<open>stn_economy.c\<close>)\<close>

definition STN_SHARE_FACTOR :: u32 where "STN_SHARE_FACTOR = 10"

fun stn_economy_share_target :: "bytes option \<Rightarrow> bytes data_result" where
  "stn_economy_share_target None = Inl STN_DATA_ARGUMENT"
| "stn_economy_share_target (Some chain_target) =
     (let status = stn_target_validate (Some chain_target)
      in if status \<noteq> STN_DATA_OK then Inl status
         else
           (let (result, carry) =
                  carry_loop (\<lambda>b c. ucast b * STN_SHARE_FACTOR + c) 0 chain_target
            in if carry \<noteq> 0 \<or> result ! 0 \<ge> 0x80
               then Inr (0x7f # replicate 31 0xff)
               else Inr result))"

declare stn_work_add.simps [simp del]

section \<open>The loops compute the arithmetic they are written for\<close>

lemma unat_ucast_8_32 [simp]: "unat (ucast (b :: u8) :: u32) = unat b"
  using unat_u8_less [of b]
  by (simp add: unsigned_ucast_eq take_bit_nat_eq_self del: unat_u8_less)

lemma linear_step:
  assumes "k < 65536" "unat c \<le> k"
  shows "unat (ucast (b :: u8) * word_of_nat k + c :: u32) = k * unat b + unat c"
proof -
  have b: "unat b \<le> 255" using unat_u8_less [of b] by linarith
  have kb: "k * unat b \<le> 65535 * 255"
    using assms(1) b by (intro mult_le_mono) simp_all
  have k: "unat (word_of_nat k :: u32) = k"
    using assms(1) by (simp add: unat_of_nat)
  have m: "unat (ucast b * word_of_nat k :: u32) = k * unat b"
    using kb by (simp add: unat_word_ariths k mult.commute)
  have "k * unat b + unat c < 4294967296"
    using kb assms by linarith
  then show ?thesis
    unfolding unat_word_ariths(1) m by simp
qed

lemma carry_loop_linear:
  assumes "0 < k" "k < 65536" "unat c \<le> k"
  shows "be (fst (carry_loop (\<lambda>b c. ucast b * word_of_nat k + c) c bs)) +
      unat (snd (carry_loop (\<lambda>b c. ucast b * word_of_nat k + c) c bs)) * 256 ^ length bs =
    k * be bs + unat c"
  using carry_loop_value [of k "\<lambda>b c. ucast b * word_of_nat k + c" c bs] linear_step [OF assms(2)] assms
  by blast

text \<open>When the product fits in the array, no carry leaves it.\<close>

lemma carry_loop_fits:
  assumes "0 < k" "k < 65536" "unat c \<le> k" "k * be bs + unat c < 256 ^ length bs"
  shows "be (fst (carry_loop (\<lambda>b c. ucast b * word_of_nat k + c) c bs)) = k * be bs + unat c"
proof -
  let ?r = "carry_loop (\<lambda>b c. ucast b * word_of_nat k + c) c bs"
  have eq: "be (fst ?r) + unat (snd ?r) * 256 ^ length bs = k * be bs + unat c"
    using assms(1-3) by (rule carry_loop_linear)
  have "unat (snd ?r) = 0"
  proof (rule ccontr)
    assume "unat (snd ?r) \<noteq> 0"
    then have "1 * 256 ^ length bs \<le> unat (snd ?r) * 256 ^ length bs"
      by (intro mult_le_mono1) simp
    with eq assms(4) show False by linarith
  qed
  with eq show ?thesis by simp
qed

lemma wf_zero_work [simp]: "wf_work zero_work"
  by (simp add: wf_work_def zero_work_def)

lemma work_value_zero [simp]: "work_value zero_work = 0"
  by (simp add: work_value_def zero_work_def)

lemma work_value_less: "wf_work w \<Longrightarrow> work_value w < 256 ^ 40"
  using be_less [of "work_bytes w"] by (simp add: wf_work_def work_value_def)

lemma work_value_inj: "wf_work a \<Longrightarrow> wf_work b \<Longrightarrow> work_value a = work_value b \<Longrightarrow> a = b"
  by (auto simp: wf_work_def work_value_def intro!: stn_work.expand be_inj)

text \<open>\<^verbatim>\<open>stn_work_add\<close> is exact addition, and reports overflow exactly when the sum needs more than 320 bits.\<close>

lemma work_add_cases:
  assumes "wf_work a" "wf_work b"
  shows "if work_value a + work_value b < 256 ^ 40
    then \<exists>s. stn_work_add (Some a) (Some b) = Inr s \<and> wf_work s \<and>
      work_value s = work_value a + work_value b
    else stn_work_add (Some a) (Some b) = Inl STN_DATA_OVERFLOW"
proof -
  obtain r c where rc: "add_loop (work_bytes a) (work_bytes b) = (r, c)" by force
  have len: "length (work_bytes a) = length (work_bytes b)" "length (work_bytes b) = 40"
    using assms by (simp_all add: wf_work_def)
  have eq: "be r + unat c * 256 ^ 40 = work_value a + work_value b" and c: "unat c \<le> 1"
    using add_loop_value [OF len(1)] rc len(2) by (simp_all add: work_value_def)
  have r: "length r = 40" "be r < 256 ^ 40"
    using length_add_loop [OF len(1)] rc len(2) be_less [of r] by simp_all
  show ?thesis
  proof (cases "c = 0")
    case True
    then have "work_value a + work_value b = be r" using eq by simp
    with True r show ?thesis by (simp add: stn_work_add.simps rc wf_work_def work_value_def)
  next
    case False
    then have "unat c = 1" using c by (metis le_neq_implies_less less_one unat_eq_0)
    then have "be r + 256 ^ 40 = work_value a + work_value b" using eq by simp
    then have "256 ^ 40 \<le> work_value a + work_value b" by (metis le_add2)
    then have "\<not> work_value a + work_value b < 256 ^ 40" by (simp only: not_less)
    with False show ?thesis by (simp add: stn_work_add.simps rc)
  qed
qed

lemma work_add_fits:
  assumes "wf_work a" "wf_work b" "work_value a + work_value b < 256 ^ 40"
  obtains s where "stn_work_add (Some a) (Some b) = Inr s" "wf_work s"
    "work_value s = work_value a + work_value b"
  using work_add_cases [OF assms(1,2)] assms(3) by auto

end
