(* ===== verification/Stn_Work_Correct.thy ===== *)
theory Stn_Work_Correct
  imports Stn_Work
begin

text \<open>
  Correctness of the work arithmetic of theory \<^verbatim>\<open>Stn_Work\<close>: the binary division of
  \<^verbatim>\<open>stn_target_work\<close> is division, the double-and-add of \<^verbatim>\<open>stn_work_at_height\<close> is multiplication
  and never overflows, and the share target is ten times the chain target, saturated.
\<close>

section \<open>Setting one bit of a byte array\<close>

lemma be_update:
  "i < length xs \<Longrightarrow>
   be (xs[i := v]) + unat (xs ! i) * 256 ^ (length xs - 1 - i) =
   be xs + unat v * 256 ^ (length xs - 1 - i)"
proof (induction xs arbitrary: i)
  case Nil
  then show ?case by simp
next
  case (Cons x xs)
  show ?case
  proof (cases i)
    case 0
    then show ?thesis by simp
  next
    case (Suc j)
    with Cons show ?thesis by simp
  qed
qed

lemma be_byte: "i < length xs \<Longrightarrow> unat (xs ! i) = be xs div 256 ^ (length xs - 1 - i) mod 256"
proof (induction xs arbitrary: i)
  case Nil
  then show ?case by simp
next
  case (Cons x xs)
  show ?case
  proof (cases i)
    case 0
    then show ?thesis using be_less [of xs] by simp
  next
    case (Suc j)
    let ?n = "length xs - 1 - j"
    have j: "j < length xs" using Cons.prems Suc by simp
    then have n: "length xs = Suc ?n + j" by simp
    have "unat x * 256 ^ length xs = unat x * 256 ^ j * 256 * 256 ^ ?n"
      by (subst n) (simp add: power_add mult.commute mult.left_commute)
    then have "be (x # xs) = unat x * 256 ^ j * 256 * 256 ^ ?n + be xs"
      by (simp only: be.simps)
    then have "be (x # xs) div 256 ^ ?n = unat x * 256 ^ j * 256 + be xs div 256 ^ ?n"
      by (simp only: div_mult_self3 power_eq_0_iff) simp
    then have "be (x # xs) div 256 ^ ?n mod 256 = be xs div 256 ^ ?n mod 256"
      by simp
    with Cons.IH [OF j] Suc show ?thesis by simp
  qed
qed

lemma or_clear_bit:
  fixes b :: u8
  assumes "k < 8" "2 ^ Suc k dvd unat b"
  shows "unat (b OR push_bit k 1) = unat b + 2 ^ k"
proof -
  obtain m where m: "unat b = 2 ^ Suc k * m" using assms(2) by (rule dvdE)
  have "\<not> bit (unat b) k"
    by (simp add: bit_iff_odd m)
  then have nb: "\<not> bit b k"
    by (simp add: bit_unsigned_iff)
  have "b AND push_bit k 1 = 0"
    using nb by (intro bit_word_eqI) (auto simp: bit_simps)
  then have eq: "b OR push_bit k 1 = b + push_bit k 1"
    by (simp add: disjunctive_add_eq_or)
  have p: "unat (push_bit k (1 :: u8)) = 2 ^ k"
  proof -
    have "(2 :: nat) ^ k < 2 ^ 8"
      using assms(1) by (intro power_strict_increasing) simp_all
    then have "unat (word_of_nat (2 ^ k) :: u8) = 2 ^ k"
      by (simp only: unat_of_nat) simp
    moreover have "push_bit k 1 = (word_of_nat (2 ^ k) :: u8)"
      by (simp add: push_bit_eq_mult)
    ultimately show ?thesis by simp
  qed
  have "unat b + 2 ^ k < 256"
  proof -
    have "Suc k + (7 - k) = 8" using assms(1) by simp
    then have "(2 :: nat) ^ Suc k * 2 ^ (7 - k) = 2 ^ 8"
      by (simp only: power_add [symmetric])
    also have "\<dots> = 256" by simp
    finally have p8: "(2 :: nat) ^ Suc k * 2 ^ (7 - k) = 256" .
    have "2 ^ Suc k * m < 2 ^ Suc k * 2 ^ (7 - k)"
      using unat_u8_less [of b] by (simp only: m p8)
    then have "m < 2 ^ (7 - k)"
      by (simp only: mult_less_cancel1)
    then have "Suc m \<le> 2 ^ (7 - k)" by simp
    then have "2 ^ Suc k * Suc m \<le> 2 ^ Suc k * 2 ^ (7 - k)" by (rule mult_le_mono2)
    then have "unat b + 2 ^ Suc k \<le> 256" by (simp only: m p8 mult_Suc_right add.commute)
    moreover have "(2 :: nat) ^ k < 2 ^ Suc k" by simp
    ultimately show ?thesis by linarith
  qed
  then show ?thesis
    unfolding eq unat_word_ariths(1) p by simp
qed

lemma be_set_bit:
  assumes "length q = 40" "k < 256" "2 ^ Suc k dvd be q"
  shows "be (q[39 - k div 8 := (q ! (39 - k div 8)) OR push_bit (k mod 8) 1]) = be q + 2 ^ k"
proof -
  let ?i = "39 - k div 8" and ?j = "k mod 8"
  have d: "k div 8 < 32" using assms(2) by simp
  then have i: "?i < length q" and n: "length q - 1 - ?i = k div 8"
    using assms(1) by simp_all
  have byte: "unat (q ! ?i) = be q div 256 ^ (k div 8) mod 256"
    using be_byte [OF i] n by simp
  obtain m where m: "be q = 2 ^ Suc k * m" using assms(3) by (rule dvdE)
  have k: "Suc k = 8 * (k div 8) + Suc ?j" by simp
  have "(2 :: nat) ^ Suc k = 256 ^ (k div 8) * 2 ^ Suc ?j"
    by (subst k) (simp only: power_add power_mult, simp)
  then have "be q div 256 ^ (k div 8) = 2 ^ Suc ?j * m"
    by (simp add: m mult.assoc)
  moreover have "2 ^ Suc ?j dvd (256 :: nat)"
  proof -
    have "(2 :: nat) ^ Suc ?j dvd 2 ^ 8" by (intro le_imp_power_dvd) (simp add: Suc_leI)
    then show ?thesis by simp
  qed
  ultimately have "2 ^ Suc ?j dvd unat (q ! ?i)"
    unfolding byte by (simp add: dvd_mod)
  then have "unat ((q ! ?i) OR push_bit ?j 1) = unat (q ! ?i) + 2 ^ ?j"
    by (intro or_clear_bit) simp_all
  moreover have "(2 :: nat) ^ ?j * 256 ^ (k div 8) = 2 ^ k"
  proof -
    have "(2 :: nat) ^ k = 2 ^ (8 * (k div 8) + ?j)" by simp
    then show ?thesis by (simp only: power_add power_mult) simp
  qed
  ultimately show ?thesis
    using be_update [OF i, of "(q ! ?i) OR push_bit ?j 1"] n by (simp add: add_mult_distrib)
qed

section \<open>The division loop\<close>

text \<open>
  With \<open>n\<close> bits left, the quotient so far and the remainder account for the top bits of
  \<open>2^256\<close>: \<open>2^256 div 2^n = (q div 2^n) * D + r\<close> with \<open>r < D\<close>.
\<close>

definition div_inv :: "nat \<Rightarrow> nat \<Rightarrow> bytes \<Rightarrow> bytes \<Rightarrow> bool" where
  "div_inv D n rem q \<longleftrightarrow>
     length rem = 33 \<and> length q = 40 \<and> be rem < D \<and> 2 ^ n dvd be q \<and>
     2 ^ 256 div 2 ^ n = (be q div 2 ^ n) * D + be rem"

lemma numerator_bit:
  assumes "k \<le> 256"
  shows "(2 :: nat) ^ 256 div 2 ^ k = 2 * (2 ^ 256 div 2 ^ Suc k) + (if k = 256 then 1 else 0)"
proof (cases "k = 256")
  case True
  then show ?thesis by simp
next
  case False
  with assms have k: "Suc k \<le> 256" by simp
  have "(2 :: nat) ^ 256 div 2 ^ k = 2 ^ (256 - k)"
    using assms by (simp only: power_diff [symmetric])
  moreover have "(2 :: nat) ^ 256 div 2 ^ Suc k = 2 ^ (256 - Suc k)"
    using k by (simp only: power_diff [symmetric])
  moreover have "256 - k = Suc (256 - Suc k)" using k by simp
  ultimately show ?thesis using False by simp
qed

lemma shift_in_bit:
  assumes "length rem = 33" "2 * be rem + c < 256 ^ 33" "c \<le> 1"
  shows "be (fst (carry_loop (\<lambda>b c. ucast b * 2 + c) (word_of_nat c) rem)) = 2 * be rem + c"
proof -
  have c: "unat (word_of_nat c :: u32) = c"
    using assms(3) by (simp add: unat_of_nat)
  have "be (fst (carry_loop (\<lambda>b c. ucast b * word_of_nat 2 + c) (word_of_nat c) rem)) =
      2 * be rem + unat (word_of_nat c :: u32)"
    using assms by (intro carry_loop_fits) (simp_all add: c)
  then show ?thesis by (simp add: c)
qed

lemma div_inv_step:
  assumes inv: "div_inv D (Suc k) rem q" and k: "k \<le> 256"
    and den: "length den = 33" "be den = D" "2 \<le> D" "D \<le> 2 ^ 255"
    and rem1: "rem1 = fst (carry_loop (\<lambda>b c. ucast b * 2 + c) (if k = 256 then 1 else 0) rem)"
  shows "be rem1 = 2 * be rem + (if k = 256 then 1 else 0)"
    and "length rem1 = 33"
    and "be rem1 < D \<Longrightarrow> div_inv D k rem1 q"
    and "D \<le> be rem1 \<Longrightarrow> k < 256 \<and>
      div_inv D k (fst (sub_loop rem1 den))
        (q[39 - k div 8 := (q ! (39 - k div 8)) OR push_bit (k mod 8) 1])"
proof -
  let ?c = "if k = 256 then 1 else 0 :: nat"
  have r: "length rem = 33" "be rem < D" and q: "length q = 40" "2 ^ Suc k dvd be q"
    and eq: "2 ^ 256 div 2 ^ Suc k = (be q div 2 ^ Suc k) * D + be rem"
    using inv by (simp_all only: div_inv_def)
  have small: "2 * be rem + ?c < 2 * D" using r(2) by simp
  also have "\<dots> \<le> 2 * 2 ^ 255" using den(4) by (rule mult_le_mono2)
  also have "\<dots> < 256 ^ 33" by simp
  finally have "2 * be rem + ?c < 256 ^ 33" .
  then have "be (fst (carry_loop (\<lambda>b c. ucast b * 2 + c) (word_of_nat ?c) rem)) = 2 * be rem + ?c"
    using r(1) by (intro shift_in_bit) simp_all
  then show v: "be rem1 = 2 * be rem + ?c" by (simp add: rem1 if_distrib cong: if_cong)
  show len: "length rem1 = 33" using r(1) by (simp add: rem1)
  obtain m where m: "be q = 2 ^ Suc k * m" using q(2) by (rule dvdE)
  have qk: "be q div 2 ^ k = 2 * m" "be q div 2 ^ Suc k = m" "2 ^ k dvd be q"
    by (simp_all add: m)
  have num: "2 ^ 256 div 2 ^ k = 2 * m * D + be rem1"
    unfolding numerator_bit [OF k] eq v qk(2) by (simp add: algebra_simps)
  show "div_inv D k rem1 q" if "be rem1 < D"
    unfolding div_inv_def qk(1) using that len q(1) qk(3) num by blast
  assume ge: "D \<le> be rem1"
  have k': "k < 256"
  proof (rule ccontr)
    assume "\<not> k < 256"
    with k have "k = 256" by simp
    then have "be rem1 = 1" using num m by (cases m) simp_all
    with ge den(3) show False by simp
  qed
  let ?rem2 = "fst (sub_loop rem1 den)"
  let ?q = "q[39 - k div 8 := (q ! (39 - k div 8)) OR push_bit (k mod 8) 1]"
  have len2: "length ?rem2 = 33"
    using length_sub_loop [of rem1 den] len den(1) by simp
  have rem2: "be ?rem2 = be rem1 - D"
  proof -
    have s: "be ?rem2 + D = be rem1 + unat (snd (sub_loop rem1 den)) * 256 ^ 33"
      using sub_loop_value [of rem1 den] len den by simp
    have "be ?rem2 < 256 ^ 33" using be_less [of ?rem2] len2 by simp
    then have "unat (snd (sub_loop rem1 den)) = 0"
      using s ge by (cases "unat (snd (sub_loop rem1 den))") simp_all
    with s show ?thesis by simp
  qed
  have qv: "be ?q = 2 ^ k * (2 * m + 1)"
    using be_set_bit [OF q(1) k' q(2)] by (simp add: m algebra_simps)
  have "2 ^ 256 div 2 ^ k = (2 * m + 1) * D + (be rem1 - D)"
    unfolding num using ge by (simp add: add_mult_distrib)
  moreover have "be rem1 - D < D" using small v ge by linarith
  ultimately show "k < 256 \<and> div_inv D k ?rem2 ?q"
    unfolding div_inv_def rem2 qv using k' len2 q(1) by simp
qed

lemma div_loop_correct:
  assumes "length den = 33" "be den = D" "2 \<le> D" "D \<le> 2 ^ 255"
    and "n \<le> 257" "div_inv D n rem q"
  shows "\<exists>w. div_loop n den rem q = Inr w \<and> wf_work w \<and> work_value w = 2 ^ 256 div D"
  using assms(5,6)
proof (induction n arbitrary: rem q)
  case 0
  then have "length q = 40" and eq: "2 ^ 256 = be q * D + be rem" and "be rem < D"
    by (simp_all only: div_inv_def power_0 div_by_1)
  from \<open>be rem < D\<close> have "(be q * D + be rem) div D = be q" by simp
  then have "2 ^ 256 div D = be q" by (simp only: eq)
  with \<open>length q = 40\<close> show ?case by (simp add: wf_work_def work_value_def)
next
  case (Suc k)
  have k: "k \<le> 256" using Suc.prems by simp
  let ?rem1 = "fst (carry_loop (\<lambda>b c. ucast b * 2 + c) (if k = 256 then 1 else 0) rem)"
  note step = div_inv_step [OF Suc.prems(2) k assms(1-4) refl]
  have cmp: "memcmp ?rem1 den \<ge> 0 \<longleftrightarrow> D \<le> be ?rem1"
    using memcmp_less_be [of ?rem1 den] step(2) assms(1,2) by (simp add: not_less [symmetric])
  show ?case
  proof (cases "D \<le> be ?rem1")
    case True
    from step(4) [OF True] Suc.IH cmp True show ?thesis
      by (auto simp: Let_def)
  next
    case False
    then have "div_inv D k ?rem1 q" using step(3) by simp
    then show ?thesis using Suc.IH k cmp False by (simp add: Let_def)
  qed
qed

lemma target_work_correct:
  assumes "stn_target_validate (Some t) = STN_DATA_OK"
  obtains w where "stn_target_work t = Inr w" "wf_work w" "work_value w = 2 ^ 256 div (be t + 1)"
proof -
  have t: "length t = 32" "0 < be t" "be t < 2 ^ 255"
    using assms by (simp_all add: target_validate_iff)
  let ?den = "fst (carry_loop (\<lambda>b c. ucast b + c) 1 (0 # t))"
  have "1 * be (0 # t) + unat (1 :: u32) < 256 ^ length (0 # t)"
    using t(1) be_less [of t] by simp
  then have "be ?den = be t + 1"
    using carry_loop_fits [of 1 "1 :: u32" "0 # t"] by simp
  moreover have "length ?den = 33"
    by (simp only: length_carry_loop) (simp add: t(1))
  ultimately have den: "be ?den = be t + 1" "length ?den = 33" .
  have "div_inv (be t + 1) 257 (replicate 33 0) (replicate 40 0)"
    by (simp add: div_inv_def)
  then obtain w where "div_loop 257 ?den (replicate 33 0) (replicate 40 0) = Inr w"
      "wf_work w" "work_value w = 2 ^ 256 div (be t + 1)"
    using div_loop_correct [of ?den "be t + 1" 257] den t by auto
  with that assms show ?thesis by (simp add: stn_target_work_def)
qed

lemma target_work_error:
  "stn_target_validate (Some t) \<noteq> STN_DATA_OK \<Longrightarrow> stn_target_work t = Inl (stn_target_validate (Some t))"
  by (cases "stn_target_validate (Some t)") (simp_all add: stn_target_work_def)

section \<open>Work at a height\<close>

lemma low_bit: "(h AND 1 :: u64) \<noteq> 0 \<longleftrightarrow> odd (unat h)"
proof -
  have "unat h = (unat h div 2) * 2 + unat h mod 2" by simp
  have "(h AND 1) = take_bit 1 h"
    by (simp add: take_bit_eq_mask mask_eq_exp_minus_1)
  then have "(h AND 1) \<noteq> 0 \<longleftrightarrow> odd h" by (simp add: take_bit_Suc odd_iff_mod_2_eq_one)
  also have "\<dots> \<longleftrightarrow> odd (unat h)"
    by (metis bit_0 bit_unsigned_iff unsigned_of_nat possible_bit_nat)
  finally show ?thesis .
qed

lemma unat_half: "unat (drop_bit 1 h :: u64) = unat h div 2"
  unfolding unat_drop_bit_eq by (simp add: drop_bit_eq_div)

lemma work_height_loop_correct:
  assumes "wf_work acc" "wf_work pw" "work_value acc + work_value pw * unat h < 256 ^ 40"
  shows "\<exists>w. work_height_loop h acc pw = Inr w \<and> wf_work w \<and>
    work_value w = work_value acc + work_value pw * unat h"
  using assms
proof (induction h acc pw rule: work_height_loop.induct)
  case (1 h acc pw)
  show ?case
  proof (cases "h = 0")
    case True
    with "1.prems" show ?thesis by (simp add: work_height_loop.simps)
  next
    case h0: False
    let ?h2 = "unat h div 2"
    have h: "unat h = 2 * ?h2 + (if odd (unat h) then 1 else 0)"
      by (simp add: odd_two_times_div_two_succ)
    define acc_step where
      "acc_step = (if h AND 1 \<noteq> 0 then stn_work_add (Some acc) (Some pw) else Inr acc)"
    have "\<exists>a. acc_step = Inr a \<and> wf_work a \<and>
      work_value a = work_value acc + work_value pw * (if odd (unat h) then 1 else 0)"
    proof (cases "odd (unat h)")
      case True
      have "1 \<le> unat h" using True by (cases "unat h") simp_all
      then have "work_value pw * 1 \<le> work_value pw * unat h" by (rule mult_le_mono2)
      with "1.prems"(3) have "work_value acc + work_value pw < 256 ^ 40" by linarith
      from work_add_fits [OF "1.prems"(1,2) this] True low_bit [of h] show ?thesis
        by (auto simp: acc_step_def)
    next
      case False
      with "1.prems" low_bit [of h] show ?thesis by (simp add: acc_step_def)
    qed
    then obtain a where a: "acc_step = Inr a" "wf_work a"
        "work_value a = work_value acc + work_value pw * (if odd (unat h) then 1 else 0)"
      by blast
    have unfold: "work_height_loop h acc pw =
        (if drop_bit 1 h \<noteq> 0 then
           (case stn_work_add (Some pw) (Some pw) of
              Inl s \<Rightarrow> Inl s | Inr pw' \<Rightarrow> work_height_loop (drop_bit 1 h) a pw')
         else Inr a)"
      using h0 a(1) by (simp add: work_height_loop.simps [of h] acc_step_def split del: if_split)
    have split_h: "work_value pw * unat h =
        2 * work_value pw * ?h2 + work_value pw * (if odd (unat h) then 1 else 0)"
      by (subst h) (simp add: algebra_simps)
    show ?thesis
    proof (cases "drop_bit 1 h = 0")
      case True
      then have "?h2 = 0" using unat_half [of h] by simp
      with unfold True a split_h show ?thesis by (auto split del: if_split)
    next
      case False
      then have pos: "1 \<le> ?h2"
        using unat_half [of h] by (metis One_nat_def Suc_leI neq0_conv unat_eq_0)
      then have "work_value pw * 2 * 1 \<le> work_value pw * 2 * ?h2" by (rule mult_le_mono2)
      also have "\<dots> \<le> work_value pw * unat h" using split_h by (simp add: algebra_simps)
      finally have "work_value pw + work_value pw < 256 ^ 40" using "1.prems"(3) by linarith
      from work_add_fits [OF "1.prems"(2,2) this] obtain p where
          p: "stn_work_add (Some pw) (Some pw) = Inr p" "wf_work p" "work_value p = work_value pw + work_value pw" .
      have val: "work_value a + work_value p * unat (drop_bit 1 h) =
          work_value acc + work_value pw * unat h"
        unfolding a(3) p(3) unat_half split_h by (simp add: algebra_simps split del: if_split)
      then have bound: "work_value a + work_value p * unat (drop_bit 1 h) < 256 ^ 40"
        using "1.prems"(3) by (simp only:)
      have "\<exists>w. work_height_loop (drop_bit 1 h) a p = Inr w \<and> wf_work w \<and>
          work_value w = work_value acc + work_value pw * unat h"
        using "1.IH" [OF h0 a(1) [unfolded acc_step_def] False p(1) a(2) p(2) bound] unfolding val .
      with unfold False p(1) show ?thesis by simp
    qed
  qed
qed

lemma work_at_height_correct:
  assumes "stn_target_validate (Some t) = STN_DATA_OK"
  obtains w where "stn_work_at_height t h = Inr w" "wf_work w"
    "work_value w = (unat h + 1) * (2 ^ 256 div (be t + 1))"
proof -
  from target_work_correct [OF assms] obtain u where
    u: "stn_target_work t = Inr u" "wf_work u" "work_value u = 2 ^ 256 div (be t + 1)" .
  have "0 < be t" using assms by (simp add: target_validate_iff)
  then have "work_value u \<le> 2 ^ 256 div 2"
    unfolding u(3) by (intro div_le_mono2) simp_all
  then have ule: "work_value u \<le> 2 ^ 255" by simp
  have bound: "work_value u * n \<le> 2 ^ 319" if "n \<le> 2 ^ 64" for n
  proof -
    have "work_value u * n \<le> 2 ^ 255 * 2 ^ 64"
      using ule that by (rule mult_le_mono)
    then show ?thesis by simp
  qed
  have "work_value zero_work + work_value u * unat h < 256 ^ 40"
    using bound [of "unat h"] unat_u64_small [of h] by simp
  then obtain s where s: "work_height_loop h zero_work u = Inr s" "wf_work s"
      "work_value s = work_value u * unat h"
    using work_height_loop_correct [of zero_work u h] u(2) by auto
  have "unat h + 1 \<le> 2 ^ 64" using unat_u64_small [of h] by (simp del: unat_u64_small)
  from bound [OF this] have "work_value s + work_value u < 256 ^ 40"
    by (simp add: s(3) algebra_simps)
  from work_add_fits [OF s(2) u(2) this] obtain w where
    "stn_work_add (Some s) (Some u) = Inr w" "wf_work w" "work_value w = work_value s + work_value u" .
  with that u s show ?thesis
    by (simp add: stn_work_at_height_def algebra_simps)
qed

section \<open>The share target\<close>

lemma Suc_be_ones: "Suc (be (replicate n 0xff)) = 256 ^ n"
  by (induction n) simp_all

lemma be_max_target [simp]: "be (0x7f # replicate 31 0xff) = 2 ^ 255 - 1"
  using Suc_be_ones [of 31] by simp

lemma share_target_correct:
  assumes "stn_target_validate (Some t) = STN_DATA_OK"
  obtains s where "stn_economy_share_target (Some t) = Inr s" "length s = 32"
    "be s = min (2 ^ 255 - 1) (10 * be t)"
proof -
  have t: "length t = 32" "be t < 2 ^ 255"
    using assms by (simp_all add: target_validate_iff)
  obtain r c where rc: "carry_loop (\<lambda>b c. ucast b * 10 + c) 0 t = (r, c)" by force
  have val: "be r + unat c * 256 ^ 32 = 10 * be t"
    using carry_loop_linear [of 10 0 t] rc t(1) by simp
  have r: "length r = 32" using length_carry_loop [of "\<lambda>b c. ucast b * 10 + c" 0 t] rc t(1) by simp
  have top: "r ! 0 \<ge> 0x80 \<longleftrightarrow> \<not> be r < 2 ^ 255"
    using top_bit_clear_iff [OF r] by (metis not_less)
  have eq: "stn_economy_share_target (Some t) =
      (if c \<noteq> 0 \<or> r ! 0 \<ge> 0x80 then Inr (0x7f # replicate 31 0xff) else Inr r)"
    using assms rc by (simp add: STN_SHARE_FACTOR_def)
  show ?thesis
  proof (cases "10 * be t < 2 ^ 255")
    case True
    then have "unat c = 0" using val by (cases "unat c") simp_all
    then have "c = 0" "be r = 10 * be t" using val by (simp_all add: unat_eq_0)
    with True that [of r] r top eq show ?thesis by simp
  next
    case False
    have "c \<noteq> 0 \<or> r ! 0 \<ge> 0x80"
      using False val top by auto
    then have "stn_economy_share_target (Some t) = Inr (0x7f # replicate 31 0xff)"
      using eq by simp
    moreover have "be (0x7f # replicate 31 0xff) = min (2 ^ 255 - 1) (10 * be t)"
      unfolding be_max_target using False by simp
    ultimately show ?thesis
      using that [of "0x7f # replicate 31 0xff"] by simp
  qed
qed


lemma share_target_exact_valid:
  assumes "stn_target_validate (Some t) = STN_DATA_OK" "stn_economy_share_target (Some t) = Inr s"
  shows "stn_target_validate (Some s) = STN_DATA_OK"
proof -
  from share_target_correct [OF assms(1)] assms(2) have
    s: "length s = 32" "be s = min (2 ^ 255 - 1) (10 * be t)" by auto
  have "0 < be t" using assms(1) by (simp add: target_validate_iff)
  moreover have "min (2 ^ 255 - 1) (10 * be t) < 2 ^ 255"
    by (rule le_less_trans [OF min.cobounded1]) simp
  ultimately show ?thesis
    unfolding target_validate_iff using s(1) by (simp only: s(2)) simp
qed

section \<open>Properties\<close>

text \<open>
  C37. The binary long division of the target work computes \<open>floor(2^256 / (target + 1))\<close> exactly for
  every valid target; its overflow branch is never taken, and an invalid target is reported with the
  status of the validation.
\<close>

theorem target_work_exact:
  "map_sum id work_value (stn_target_work t) =
     (if stn_target_validate (Some t) = STN_DATA_OK then Inr (2 ^ 256 div (be t + 1))
      else Inl (stn_target_validate (Some t)))"
proof (cases "stn_target_validate (Some t) = STN_DATA_OK")
  case True
  from target_work_correct [OF this] obtain w where
    "stn_target_work t = Inr w" "work_value w = 2 ^ 256 div (be t + 1)" by blast
  with True show ?thesis by simp
next
  case False
  then show ?thesis by (simp add: target_work_error)
qed

text \<open>
  Adding work is exact on 320 bits: the sum when it fits and OVERFLOW exactly when it does not,
  with no wrapped result. The order of work is the order of the numbers.
\<close>

theorem work_add_exact:
  assumes "wf_work a" "wf_work b"
  shows "map_sum id work_value (stn_work_add (Some a) (Some b)) =
      (if work_value a + work_value b < 2 ^ 320 then Inr (work_value a + work_value b)
       else Inl STN_DATA_OVERFLOW) \<and>
    (a < b \<longleftrightarrow> work_value a < work_value b)"
proof -
  have bound: "(256 :: nat) ^ 40 = 2 ^ 320" by simp
  have "map_sum id work_value (stn_work_add (Some a) (Some b)) =
      (if work_value a + work_value b < 256 ^ 40 then Inr (work_value a + work_value b)
       else Inl STN_DATA_OVERFLOW)"
  proof (cases "work_value a + work_value b < 256 ^ 40")
    case True
    from work_add_fits [OF assms True] obtain s where
      "stn_work_add (Some a) (Some b) = Inr s" "work_value s = work_value a + work_value b" by blast
    with True show ?thesis by (simp only: map_sum.simps if_True)
  next
    case False
    then have "stn_work_add (Some a) (Some b) = Inl STN_DATA_OVERFLOW"
      using work_add_cases [OF assms] by (simp only: if_False)
    with False show ?thesis by (simp only: map_sum.simps if_False id_apply)
  qed
  moreover have "a < b \<longleftrightarrow> work_value a < work_value b"
    using assms by (simp add: less_stn_work_def work_value_def wf_work_def memcmp_less_be)
  ultimately show ?thesis unfolding bound by blast
qed

theorem work_add_exact_witness:
  "map_sum id work_value (stn_work_add (Some (Stn_Work (replicate 39 0 @ [255])))
     (Some (Stn_Work (replicate 39 0 @ [2])))) = Inr 257"
proof -
  have "wf_work (Stn_Work (replicate 39 0 @ [255]))" "wf_work (Stn_Work (replicate 39 0 @ [2]))"
    by (simp_all add: wf_work_def)
  from work_add_exact [OF this] show ?thesis
    by (simp add: work_value_def be_append)
qed

text \<open>
  C21. The cumulative work at a height, computed by doubling and adding, is exactly \<open>height + 1\<close> times
  the work of one block; for a valid target no 64-bit height makes it overflow 320 bits.
\<close>

theorem work_at_height_exact:
  "map_sum id work_value (stn_work_at_height t h) =
     (if stn_target_validate (Some t) = STN_DATA_OK
      then Inr ((unat h + 1) * (2 ^ 256 div (be t + 1)))
      else Inl (stn_target_validate (Some t)))"
proof (cases "stn_target_validate (Some t) = STN_DATA_OK")
  case True
  from work_at_height_correct [OF this] obtain w where
    "stn_work_at_height t h = Inr w" "work_value w = (unat h + 1) * (2 ^ 256 div (be t + 1))" by blast
  with True show ?thesis by simp
next
  case False
  then show ?thesis by (simp add: stn_work_at_height_def target_work_error)
qed

text \<open>
  C29. Proof of work is the numeric comparison: for a 32-byte hash the answer is OK exactly when the
  target is between 1 and \<open>2^255 - 1\<close> and the hash, read big-endian, is at most the target; WORK when
  it is larger, and TARGET when a 32-byte target is out of range.
\<close>

theorem pow_compare_numeric:
  assumes "length hash = 32" "length target = 32"
  shows "stn_pow_compare (Some hash) target =
    (if be target = 0 \<or> 2 ^ 255 \<le> be target then STN_DATA_TARGET
     else if be hash \<le> be target then STN_DATA_OK else STN_DATA_WORK)"
proof -
  have valid: "stn_target_validate (Some target) =
      (if be target = 0 \<or> 2 ^ 255 \<le> be target then STN_DATA_TARGET else STN_DATA_OK)"
    using assms(2) top_bit_clear_iff [OF assms(2)] unfolding not_less [symmetric]
    by (simp only: stn_target_validate.simps nonzero_iff_be) auto
  show ?thesis
    unfolding stn_pow_compare.simps Let_def valid
    using memcmp_le_be [of hash target] assms by simp
qed

theorem pow_compare_numeric_witness:
  "stn_pow_compare (Some (replicate 31 0 @ [7])) (replicate 31 0 @ [7]) = STN_DATA_OK \<and>
   stn_pow_compare (Some (replicate 31 0 @ [8])) (replicate 31 0 @ [7]) = STN_DATA_WORK"
  using pow_compare_numeric [of "replicate 31 0 @ [7]" "replicate 31 0 @ [7]"]
    pow_compare_numeric [of "replicate 31 0 @ [8]" "replicate 31 0 @ [7]"]
  by (simp add: be_append)

text \<open>
  C27. The share target is ten times the chain target, saturated at the largest target \<open>2^255 - 1\<close>, and
  itself a valid target, for every valid chain target.
\<close>

theorem share_target_exact:
  assumes "stn_target_validate (Some t) = STN_DATA_OK"
  shows "map_sum id be (stn_economy_share_target (Some t)) = Inr (min (2 ^ 255 - 1) (10 * be t)) \<and>
    (\<forall>s. stn_economy_share_target (Some t) = Inr s \<longrightarrow> stn_target_validate (Some s) = STN_DATA_OK)"
proof -
  from share_target_correct [OF assms] obtain s where
    s: "stn_economy_share_target (Some t) = Inr s" "length s = 32" "be s = min (2 ^ 255 - 1) (10 * be t)"
    by blast
  have "map_sum id be (stn_economy_share_target (Some t)) = Inr (min (2 ^ 255 - 1) (10 * be t))"
    unfolding s(1) map_sum.simps s(3) ..
  then show ?thesis using share_target_exact_valid [OF assms] by blast
qed

theorem share_target_exact_witness:
  "map_sum id be (stn_economy_share_target (Some (replicate 31 0 @ [200]))) = Inr 2000"
  using share_target_exact [of "replicate 31 0 @ [200]"]
  by (simp add: target_validate_iff be_append)

end
