(* ===== verification/Stn_Record.thy ===== *)
theory Stn_Record
  imports Stn_Interfaces
begin

text \<open>
  The signed record envelope (\<^verbatim>\<open>src/src/stn_record.c\<close>): its structural codec, the record
  identifier and the publication tokens the authority rules compare against.
\<close>

section \<open>Data\<close>

datatype stn_record_status =
    STN_RECORD_OK | STN_RECORD_ARGUMENT | STN_RECORD_TRUNCATED | STN_RECORD_MAGIC
  | STN_RECORD_UNSUPPORTED | STN_RECORD_LIMIT | STN_RECORD_LENGTH | STN_RECORD_NONCE
  | STN_RECORD_CAPACITY

definition STN_RECORD_HEADER_SIZE :: nat where [simp]: "STN_RECORD_HEADER_SIZE = 116"
definition STN_RECORD_SIGNATURE_SIZE :: nat where [simp]: "STN_RECORD_SIGNATURE_SIZE = 64"
definition STN_RECORD_OVERHEAD :: nat where [simp]: "STN_RECORD_OVERHEAD = 180"
definition STN_RECORD_MAX_PAYLOAD :: nat where [simp]: "STN_RECORD_MAX_PAYLOAD = 65536"
definition STN_RECORD_MAX_SIZE :: nat where
  [simp]: "STN_RECORD_MAX_SIZE = STN_RECORD_OVERHEAD + STN_RECORD_MAX_PAYLOAD"
definition STN_RECORD_VERSION :: u16 where [simp]: "STN_RECORD_VERSION = 1"
definition STN_RECORD_INTELLIGENCE :: u16 where [simp]: "STN_RECORD_INTELLIGENCE = 1"

text \<open>The payload pointer is an option; the length field is separate, as in the structure.\<close>

record stn_record =
  rec_version :: u16
  rec_type :: u16
  rec_network_id :: bytes
  rec_signer_public_key :: bytes
  rec_nonce :: bytes
  rec_issued_at :: u64
  rec_payload :: "bytes option"
  rec_payload_length :: u32
  rec_signature :: bytes

text \<open>The arrays have their declared sizes and the payload points at its length in bytes.\<close>

definition wf_record :: "stn_record \<Rightarrow> bool" where
  "wf_record r \<longleftrightarrow>
     length (rec_network_id r) = 32 \<and> length (rec_signer_public_key r) = 32 \<and>
     length (rec_nonce r) = 32 \<and> length (rec_signature r) = 64 \<and>
     (case rec_payload r of None \<Rightarrow> False | Some p \<Rightarrow> length p = unat (rec_payload_length r))"

definition record_magic :: bytes where "record_magic = [0x53, 0x54, 0x4e, 0x52]"

lemma length_record_magic [simp, lengths]: "length record_magic = 4"
  by (simp add: record_magic_def)

definition nonce_present :: "bytes \<Rightarrow> bool" where
  "nonce_present nonce \<longleftrightarrow> list_ex (\<lambda>b. b \<noteq> 0) (take 32 nonce)"

section \<open>The codec\<close>

fun stn_record_decode :: "bytes option \<Rightarrow> stn_record_status + stn_record" where
  "stn_record_decode None = Inl STN_RECORD_ARGUMENT"
| "stn_record_decode (Some input) =
     (if length input < STN_RECORD_OVERHEAD then Inl STN_RECORD_TRUNCATED
      else if length input > STN_RECORD_MAX_SIZE then Inl STN_RECORD_LIMIT
      else if take 4 input \<noteq> record_magic then Inl STN_RECORD_MAGIC
      else
        (let version = ucast (stn_wire_read (drop 4 input) 2) :: u16;
             ty = ucast (stn_wire_read (drop 6 input) 2) :: u16;
             payload_length = ucast (stn_wire_read (drop 112 input) 4) :: u32
         in if version \<noteq> STN_RECORD_VERSION \<or> ty \<noteq> STN_RECORD_INTELLIGENCE
            then Inl STN_RECORD_UNSUPPORTED
            else if unat payload_length > STN_RECORD_MAX_PAYLOAD then Inl STN_RECORD_LIMIT
            else if unat payload_length \<noteq> length input - STN_RECORD_OVERHEAD
            then Inl STN_RECORD_LENGTH
            else if \<not> nonce_present (drop 72 input) then Inl STN_RECORD_NONCE
            else Inr
              \<lparr>rec_version = version, rec_type = ty,
               rec_network_id = take 32 (drop 8 input),
               rec_signer_public_key = take 32 (drop 40 input),
               rec_nonce = take 32 (drop 72 input),
               rec_issued_at = stn_wire_read (drop 104 input) 8,
               rec_payload = Some (take (unat payload_length) (drop STN_RECORD_HEADER_SIZE input)),
               rec_payload_length = payload_length,
               rec_signature =
                 take STN_RECORD_SIGNATURE_SIZE
                   (drop (STN_RECORD_HEADER_SIZE + unat payload_length) input)\<rparr>))"

fun stn_record_encode :: "stn_record option \<Rightarrow> nat \<Rightarrow> stn_record_status + bytes" where
  "stn_record_encode None capacity = Inl STN_RECORD_ARGUMENT"
| "stn_record_encode (Some r) capacity =
     (if rec_version r \<noteq> STN_RECORD_VERSION \<or> rec_type r \<noteq> STN_RECORD_INTELLIGENCE
      then Inl STN_RECORD_UNSUPPORTED
      else if unat (rec_payload_length r) > STN_RECORD_MAX_PAYLOAD then Inl STN_RECORD_LIMIT
      else if rec_payload_length r \<noteq> 0 \<and> rec_payload r = None then Inl STN_RECORD_ARGUMENT
      else if \<not> nonce_present (rec_nonce r) then Inl STN_RECORD_NONCE
      else if capacity < unat (rec_payload_length r) + STN_RECORD_OVERHEAD
      then Inl STN_RECORD_CAPACITY
      else Inr
        (record_magic @ stn_wire_write 2 (ucast (rec_version r)) @
         stn_wire_write 2 (ucast (rec_type r)) @
         rec_network_id r @ rec_signer_public_key r @ rec_nonce r @
         stn_wire_write 8 (rec_issued_at r) @ stn_wire_write 4 (ucast (rec_payload_length r)) @
         (if rec_payload_length r \<noteq> 0
          then take (unat (rec_payload_length r)) (the (rec_payload r)) else []) @
         rec_signature r))"

section \<open>Identifiers and tokens\<close>

text \<open>A provider's status, as every caller but two reports it.\<close>

definition provider_status :: "stn_data_status \<Rightarrow> stn_data_status" where
  "provider_status s = (if s = STN_DATA_UNRESOLVED then s else STN_DATA_PROVIDER_ERROR)"

fun stn_record_id :: "bytes option \<Rightarrow> stn_hash_provider \<Rightarrow> bytes data_result" where
  "stn_record_id None provider = Inl STN_DATA_ARGUMENT"
| "stn_record_id (Some record_bytes) None = Inl STN_DATA_ARGUMENT"
| "stn_record_id (Some record_bytes) (Some hash) =
     (case stn_record_decode (Some record_bytes) of
        Inl _ \<Rightarrow> Inl STN_DATA_CONTENT
      | Inr r \<Rightarrow>
          (case hash (ascii ''STN-CHAIN:RECORD:ID:1'')
                  (take (STN_RECORD_HEADER_SIZE + unat (rec_payload_length r)) record_bytes) of
             Inr digest \<Rightarrow> Inr digest
           | Inl status \<Rightarrow> Inl (provider_status status)))"

text \<open>The result is the action token and the context token.\<close>

fun stn_record_publication_tokens ::
  "bytes option \<Rightarrow> stn_hash_provider \<Rightarrow> (bytes \<times> bytes) data_result" where
  "stn_record_publication_tokens None provider = Inl STN_DATA_ARGUMENT"
| "stn_record_publication_tokens (Some bs) provider =
     (case stn_record_decode (Some bs) of
        Inl _ \<Rightarrow> Inl STN_DATA_CONTENT
      | Inr _ \<Rightarrow>
          (case provider of
             None \<Rightarrow> Inl STN_DATA_UNRESOLVED
           | Some hash \<Rightarrow>
               (case hash (ascii ''STN-CHAIN:AUTHORITY:ACTION:PUBLISH_RECORD:1'') [] of
                  Inl status \<Rightarrow> Inl (provider_status status)
                | Inr action_hash \<Rightarrow>
                    (case hash (ascii ''STN-CHAIN:AUTHORITY:CONTEXT:RECORD_CLASS:1'')
                            (take 2 (drop 6 bs)) of
                       Inl status \<Rightarrow> Inl (provider_status status)
                     | Inr context_hash \<Rightarrow>
                         Inr (1 # take 31 action_hash, 1 # take 31 context_hash)))))"

section \<open>The format is canonical\<close>

lemma nonce_present_take [simp]: "nonce_present (take 32 n) = nonce_present n"
  by (simp add: nonce_present_def)

lemma nonce_present_append [simp]: "length n = 32 \<Longrightarrow> nonce_present (n @ r) = nonce_present n"
  by (simp add: nonce_present_def)

lemma record_decode_encode:
  assumes "wf_record r" "stn_record_encode (Some r) capacity = Inr bs"
  shows "stn_record_decode (Some bs) = Inr r"
  using assms
  by (cases r; cases "rec_payload r") (auto simp: wf_record_def Let_def split: if_splits)

text \<open>What acceptance by the decoder says of the bytes.\<close>

lemma record_decode_facts:
  assumes "stn_record_decode (Some bs) = Inr r"
  shows "length bs = 180 + unat (rec_payload_length r)" "unat (rec_payload_length r) \<le> 65536"
    "wf_record r" "nonce_present (rec_nonce r)"
  using assms by (auto simp: wf_record_def Let_def split: if_splits)

lemma record_decode_fields:
  assumes "stn_record_decode (Some bs) = Inr r"
  shows "take 4 bs = record_magic"
    "rec_version r = 1" "stn_wire_write 2 (ucast (rec_version r)) = take 2 (drop 4 bs)"
    "rec_type r = 1" "stn_wire_write 2 (ucast (rec_type r)) = take 2 (drop 6 bs)"
    "rec_network_id r = take 32 (drop 8 bs)" "rec_signer_public_key r = take 32 (drop 40 bs)"
    "rec_nonce r = take 32 (drop 72 bs)" "stn_wire_write 8 (rec_issued_at r) = take 8 (drop 104 bs)"
    "stn_wire_write 4 (ucast (rec_payload_length r)) = take 4 (drop 112 bs)"
    "rec_payload r = Some (take (unat (rec_payload_length r)) (drop 116 bs))"
    "rec_signature r = take 64 (drop (116 + unat (rec_payload_length r)) bs)"
  using assms const_field_16 [of "drop 4 bs" 1] const_field_16 [of "drop 6 bs" 1]
  by (auto simp: Let_def split: if_splits)

definition record_layout :: "stn_record \<Rightarrow> bytes" where
  "record_layout r =
     record_magic @ stn_wire_write 2 (ucast (rec_version r)) @ stn_wire_write 2 (ucast (rec_type r)) @
     rec_network_id r @ rec_signer_public_key r @ rec_nonce r @
     stn_wire_write 8 (rec_issued_at r) @ stn_wire_write 4 (ucast (rec_payload_length r)) @
     take (unat (rec_payload_length r)) (the (rec_payload r)) @ rec_signature r"

lemma record_encode_iff:
  "stn_record_encode (Some r) capacity = Inr bs \<longleftrightarrow>
     rec_version r = 1 \<and> rec_type r = 1 \<and> unat (rec_payload_length r) \<le> 65536 \<and>
     (rec_payload_length r \<noteq> 0 \<longrightarrow> rec_payload r \<noteq> None) \<and> nonce_present (rec_nonce r) \<and>
     unat (rec_payload_length r) + 180 \<le> capacity \<and> bs = record_layout r"
  by (auto simp: record_layout_def not_less)

lemma record_layout_decode:
  assumes "stn_record_decode (Some bs) = Inr r"
  shows "record_layout r = bs"
  unfolding record_layout_def record_decode_fields(1) [OF assms, symmetric]
    record_decode_fields(3,5-) [OF assms]
  using record_decode_facts(1) [OF assms] by (simp add: slices)

lemma record_encode_decode:
  assumes "stn_record_decode (Some bs) = Inr r" "length bs \<le> capacity"
  shows "stn_record_encode (Some r) capacity = Inr bs"
  using assms record_decode_facts [OF assms(1)] record_decode_fields(2,4) [OF assms(1)]
    record_layout_decode [OF assms(1)]
  by (simp add: record_encode_iff wf_record_def del: stn_record_encode.simps
      stn_record_decode.simps split: option.splits)

definition record_bytes :: "stn_record \<Rightarrow> stn_record_status + bytes" where
  "record_bytes r = stn_record_encode (Some r) STN_RECORD_MAX_SIZE"

interpretation record_codec: codec record_bytes "\<lambda>bs. stn_record_decode (Some bs)" wf_record
proof
  fix r bs
  assume "wf_record r" "record_bytes r = Inr bs"
  then show "stn_record_decode (Some bs) = Inr r"
    unfolding record_bytes_def by (rule record_decode_encode)
next
  fix r bs
  assume *: "stn_record_decode (Some bs) = Inr r"
  have "length bs \<le> STN_RECORD_MAX_SIZE"
    using record_decode_facts(1,2) [OF *] by simp
  with * show "record_bytes r = Inr bs"
    unfolding record_bytes_def by (rule record_encode_decode)
qed (rule record_decode_facts)

text \<open>The encoder rejects a capacity that is too small and nothing else depends on it.\<close>

lemma record_encode_capacity:
  "stn_record_encode (Some r) capacity = Inr bs \<longleftrightarrow>
     stn_record_encode (Some r) STN_RECORD_MAX_SIZE = Inr bs \<and>
     unat (rec_payload_length r) + 180 \<le> capacity"
  unfolding record_encode_iff by auto

text \<open>
  The record format is canonical: the decoder accepts bytes exactly when they are the encoding of
  the record it returns, a record whose arrays have their sizes and whose payload has its stated
  length; the encoder refuses every other record.
\<close>

theorem record_canonical:
  "stn_record_decode (Some bs) = Inr r \<longleftrightarrow>
     wf_record r \<and> stn_record_encode (Some r) STN_RECORD_MAX_SIZE = Inr bs"
  using record_codec.dec_iff unfolding record_bytes_def .

end
