(* ===== verification/Stn_Identity.thy ===== *)
theory Stn_Identity
  imports Stn_Record
begin

text \<open>
  Identities and signatures (\<^verbatim>\<open>src/src/stn_identity.c\<close>) and the record replay registry
  (\<^verbatim>\<open>src/src/stn_replay.c\<close>). The Ed25519 verification routine the code links in is the parameter
  \<open>ed\<close>: statement, public key and signature to 0 for a valid signature.
\<close>

type_synonym ed25519 = "bytes \<Rightarrow> bytes \<Rightarrow> bytes \<Rightarrow> int"

section \<open>Canonical keys and scalars\<close>

datatype stn_identity_result =
    STN_IDENTITY_VALID | STN_IDENTITY_INVALID | STN_IDENTITY_MALFORMED

text \<open>
  The loop \<^verbatim>\<open>for(i=32;i!=0;--i)\<close> of both canonical tests: from the last byte down, the first
  difference decides; equal strings are rejected.
\<close>

fun less_from :: "nat \<Rightarrow> bytes \<Rightarrow> bytes \<Rightarrow> bool" where
  "less_from 0 s limit = False"
| "less_from (Suc i) s limit =
     (if s ! i < limit ! i then True
      else if s ! i > limit ! i then False
      else less_from i s limit)"

definition scalar_order :: bytes where
  "scalar_order =
     [0xed, 0xd3, 0xf5, 0x5c, 0x1a, 0x63, 0x12, 0x58, 0xd6, 0x9c, 0xf7, 0xa2, 0xde, 0xf9, 0xde, 0x14,
      0, 0, 0, 0, 0, 0, 0, 0, 0, 0, 0, 0, 0, 0, 0, 0x10]"

definition canonical_scalar :: "bytes \<Rightarrow> bool" where
  "canonical_scalar s = less_from 32 s scalar_order"

definition field_prime :: bytes where
  "field_prime =
     [0xed, 0xff, 0xff, 0xff, 0xff, 0xff, 0xff, 0xff, 0xff, 0xff, 0xff, 0xff, 0xff, 0xff, 0xff, 0xff,
      0xff, 0xff, 0xff, 0xff, 0xff, 0xff, 0xff, 0xff, 0xff, 0xff, 0xff, 0xff, 0xff, 0xff, 0xff, 0x7f]"

definition canonical_point :: "bytes \<Rightarrow> bool" where
  "canonical_point p = (let y = take 32 p in less_from 32 (y[31 := y ! 31 AND 0x7f]) field_prime)"

definition small_order :: "bytes \<Rightarrow> bool" where
  "small_order p \<longleftrightarrow> take 32 p = 1 # replicate 31 0"

text \<open>The little-endian number of a byte string.\<close>

definition le_value :: "bytes \<Rightarrow> nat" where
  "le_value s = be (rev s)"

section \<open>Identities\<close>

fun stn_identity_derive :: "bytes option \<Rightarrow> stn_identity_result + bytes" where
  "stn_identity_derive None = Inl STN_IDENTITY_MALFORMED"
| "stn_identity_derive (Some public_key) =
     (if \<not> canonical_point public_key \<or> \<not> nonzero (take 32 public_key) \<or> small_order public_key
      then Inl STN_IDENTITY_MALFORMED
      else Inr (take 32 public_key))"

definition STN_IDENTITY_DOMAIN :: bytes where
  "STN_IDENTITY_DOMAIN = ascii ''STN-CHAIN:RECORD:SIGN:1''"

definition STN_IDENTITY_DOMAIN_SIZE :: nat where [simp]: "STN_IDENTITY_DOMAIN_SIZE = 24"

definition SIZE_MAX :: nat where [simp]: "SIZE_MAX = 18446744073709551615"

text \<open>The statement signed for a record: the domain with its zero byte, then the bytes.\<close>

definition stn_identity_statement ::
  "bytes option \<Rightarrow> nat \<Rightarrow> nat \<Rightarrow> stn_identity_result + bytes" where
  "stn_identity_statement unsigned_bytes len capacity =
     (if (unsigned_bytes = None \<and> len \<noteq> 0) \<or> len > SIZE_MAX - STN_IDENTITY_DOMAIN_SIZE - 1
      then Inl STN_IDENTITY_MALFORMED
      else if capacity < STN_IDENTITY_DOMAIN_SIZE + len then Inl STN_IDENTITY_MALFORMED
      else Inr (take (STN_IDENTITY_DOMAIN_SIZE - 1) STN_IDENTITY_DOMAIN @ [0] @
                (case unsigned_bytes of None \<Rightarrow> [] | Some bs \<Rightarrow> take len bs)))"

definition stn_identity_verify ::
  "ed25519 \<Rightarrow> bytes option \<Rightarrow> bytes option \<Rightarrow> bytes option \<Rightarrow> nat \<Rightarrow> stn_identity_result" where
  "stn_identity_verify ed public_key statement signature signature_length =
     (case (public_key, statement, signature) of
        (Some k, Some m, Some sg) \<Rightarrow>
          if signature_length \<noteq> 64 \<or> \<not> canonical_point k \<or> \<not> nonzero (take 32 k) \<or> small_order k
          then STN_IDENTITY_MALFORMED
          else if \<not> canonical_point sg \<or> \<not> canonical_scalar (drop 32 sg) \<or> small_order sg
          then STN_IDENTITY_MALFORMED
          else if ed m k sg = 0 then STN_IDENTITY_VALID else STN_IDENTITY_INVALID
      | _ \<Rightarrow> STN_IDENTITY_MALFORMED)"

lemma identity_derive_iff:
  "stn_identity_derive (Some k) = Inr i \<longleftrightarrow>
     canonical_point k \<and> nonzero (take 32 k) \<and> \<not> small_order k \<and> i = take 32 k"
  by auto

subsection \<open>The canonical tests are numeric bounds\<close>

lemma less_from_le_value:
  "n \<le> length s \<Longrightarrow> n \<le> length t \<Longrightarrow>
   less_from n s t \<longleftrightarrow> le_value (take n s) < le_value (take n t)"
proof (induction n)
  case 0
  then show ?case by simp
next
  case (Suc n)
  have split: "le_value (take (Suc n) u) = unat (u ! n) * 256 ^ n + le_value (take n u)"
    if "Suc n \<le> length u" for u
    using that by (simp add: le_value_def take_Suc_conv_app_nth)
  have bound: "le_value (take n u) < 256 ^ n" if "Suc n \<le> length u" for u
    using be_less [of "rev (take n u)"] that by (simp add: le_value_def)
  note d1 = digit_less [of "unat (s ! n)" "unat (t ! n)" "le_value (take n s)" "256 ^ n" "le_value (take n t)"]
  note d2 = digit_less [of "unat (t ! n)" "unat (s ! n)" "le_value (take n t)" "256 ^ n" "le_value (take n s)"]
  have IH: "less_from n s t \<longleftrightarrow> le_value (take n s) < le_value (take n t)"
    using Suc by simp
  consider "s ! n < t ! n" | "t ! n < s ! n" | "s ! n = t ! n" by force
  then show ?case
  proof cases
    case 1
    then show ?thesis
      using d1 bound [of s] Suc.prems by (simp add: split word_less_nat_alt)
  next
    case 2
    then show ?thesis
      using d2 bound [of t] Suc.prems by (simp add: split word_less_nat_alt not_less less_imp_le)
  next
    case 3
    then show ?thesis
      using IH Suc.prems by (simp add: split)
  qed
qed

lemma length_limits [simp]: "length scalar_order = 32" "length field_prime = 32"
  by (simp_all add: scalar_order_def field_prime_def)

lemma value_limits:
  "le_value scalar_order = 2 ^ 252 + 27742317777372353535851937790883648493"
  "le_value field_prime = 2 ^ 255 - 19"
  by (simp_all add: le_value_def scalar_order_def field_prime_def)

lemma canonical_scalar_value:
  assumes "32 \<le> length s"
  shows "canonical_scalar s \<longleftrightarrow>
    le_value (take 32 s) < 2 ^ 252 + 27742317777372353535851937790883648493"
  unfolding canonical_scalar_def value_limits(1) [symmetric]
  using less_from_le_value [of 32 s scalar_order] assms by simp

lemma le_value_snoc: "le_value (xs @ [x]) = unat x * 256 ^ length xs + le_value xs"
  by (simp add: le_value_def)

lemma unat_and_127: "unat (x AND 127 :: u8) = unat x mod 128"
proof -
  have "(127 :: u8) = mask 7" by (simp add: mask_eq_exp_minus_1)
  then have "x AND 127 = take_bit 7 x"
    by (simp only: take_bit_eq_mask)
  then have "unat (x AND 127) = take_bit 7 (unat x)"
    by (simp only: unsigned_take_bit_eq)
  then show ?thesis
    by (simp add: take_bit_eq_mod)
qed

text \<open>The sign bit is cleared before the comparison: it is the value modulo \<open>2^255\<close>.\<close>

lemma le_value_clear_sign:
  assumes "length y = 32"
  shows "le_value (y[31 := y ! 31 AND 0x7f]) = le_value y mod 2 ^ 255"
proof -
  define z where "z = butlast y"
  define x where "x = last y"
  have "y \<noteq> []" using assms by auto
  then have y: "y = z @ [x]" "length z = 31"
    using assms by (simp_all add: z_def x_def)
  define B :: nat where "B = 256 ^ 31"
  have z: "le_value z < B"
    using be_less [of "rev z"] y(2) by (simp add: le_value_def B_def)
  then have B: "0 < B" by linarith
  have "(2 :: nat) ^ 255 = B * 128" by (simp add: B_def)
  then have "le_value y mod 2 ^ 255 = (unat x * B + le_value z) mod (B * 128)"
    by (simp only: y le_value_snoc B_def)
  also have "\<dots> = B * (((unat x * B + le_value z) div B) mod 128) + (unat x * B + le_value z) mod B"
    by (rule mod_mult2_eq)
  also have "\<dots> = B * (unat x mod 128) + le_value z"
    using z B by simp
  finally have mod: "le_value y mod 2 ^ 255 = B * (unat x mod 128) + le_value z" .
  have "y[31 := y ! 31 AND 0x7f] = z @ [x AND 0x7f]"
    using y by (simp add: list_update_append nth_append)
  then have "le_value (y[31 := y ! 31 AND 0x7f]) = unat (x AND 0x7f) * B + le_value z"
    by (simp only: le_value_snoc y(2) B_def)
  then show ?thesis
    unfolding mod unat_and_127 by (simp only: mult.commute)
qed

lemma canonical_point_value:
  assumes "32 \<le> length p"
  shows "canonical_point p \<longleftrightarrow> le_value (take 32 p) mod 2 ^ 255 < 2 ^ 255 - 19"
  unfolding canonical_point_def Let_def value_limits(2) [symmetric]
  using less_from_le_value [of 32 "(take 32 p)[31 := take 32 p ! 31 AND 0x7f]" field_prime] assms
    le_value_clear_sign [of "take 32 p"]
  by simp

text \<open>
  C23. Verification accepts a signature only in canonical form. For a 32-byte key and a 64-byte
  signature the answer is VALID exactly when the key is a nonzero point encoding other than the
  identity element with y-coordinate below the field prime \<open>2^255 - 19\<close>, the same bound holds for the
  signature's point, its scalar is below the group order \<open>2^252 + 27742317777372353535851937790883648493\<close>
  and the Ed25519 check passes.
\<close>

theorem identity_verify_canonical:
  assumes "length k = 32" "length sg = 64"
  shows "stn_identity_verify ed (Some k) (Some m) (Some sg) (length sg) = STN_IDENTITY_VALID \<longleftrightarrow>
    le_value k mod 2 ^ 255 < 2 ^ 255 - 19 \<and> le_value k \<noteq> 0 \<and> le_value k \<noteq> 1 \<and>
    le_value (take 32 sg) mod 2 ^ 255 < 2 ^ 255 - 19 \<and> le_value (take 32 sg) \<noteq> 1 \<and>
    le_value (drop 32 sg) < 2 ^ 252 + 27742317777372353535851937790883648493 \<and>
    ed m k sg = 0"
proof -
  have one: "small_order p \<longleftrightarrow> le_value (take 32 p) = 1" if "32 \<le> length p" for p
  proof -
    have "le_value (take 32 p) = le_value (1 # replicate 31 0) \<longleftrightarrow> take 32 p = 1 # replicate 31 0"
      using that be_inj [of "rev (take 32 p)" "rev (1 # replicate 31 0)"]
      unfolding le_value_def by (auto simp del: rev.simps)
    moreover have "le_value (1 # replicate 31 0) = 1"
      by (simp add: le_value_def be_append)
    ultimately show ?thesis by (simp add: small_order_def)
  qed
  have zero: "nonzero k \<longleftrightarrow> le_value k \<noteq> 0"
    by (simp add: nonzero_iff le_value_def be_eq_0_iff)
  show ?thesis
    using assms one [of k] one [of sg] zero
    by (auto simp: stn_identity_verify_def canonical_point_value canonical_scalar_value)
qed

theorem identity_verify_canonical_witness:
  "stn_identity_verify (\<lambda>_ _ _. 0) (Some (2 # replicate 31 0)) (Some [])
     (Some (2 # replicate 63 0)) 64 = STN_IDENTITY_VALID"
  using identity_verify_canonical [of "2 # replicate 31 0" "2 # replicate 63 0" "\<lambda>_ _ _. 0" "[]"]
  by (simp add: le_value_def be_append)

section \<open>Concrete keys for the witnesses\<close>

definition sample_sha :: stn_hash_fn where
  "sample_sha d bs = Inr (replicate 32 9)"

definition sample_ed :: ed25519 where
  "sample_ed m k sg = 0"

lemma sample_sha_ok: "hash_fn_ok sample_sha"
  by (simp add: sample_sha_def hash_fn_ok_def)

lemma sample_key_canonical:
  "canonical_point (2 # replicate 31 0)" "\<not> small_order (2 # replicate 31 0)"
  "nonzero (2 # replicate 31 0)" "nonzero (5 # replicate 31 0)"
  "canonical_point (2 # replicate 31 0 @ replicate 32 0)"
  "canonical_scalar (replicate 32 0)" "\<not> small_order (2 # replicate 31 0 @ replicate 32 0)"
  by (simp_all add: canonical_point_value canonical_scalar_value le_value_def small_order_def
      nonzero_iff be_append)

end
