(* ===== verification/Stn_Replay.thy ===== *)
theory Stn_Replay
  imports Stn_Identity
begin

text \<open>
  The record replay registry (\<^verbatim>\<open>src/src/stn_replay.c\<close>): a record is identified by its signer and
  its nonzero nonce, and a registry of the identifiers of accepted records rejects a second one.
\<close>

datatype stn_replay_result = STN_REPLAY_FRESH | STN_REPLAY_REPLAY | STN_REPLAY_MALFORMED

definition stn_replay_id_from_signer_nonce ::
  "bytes option \<Rightarrow> bytes option \<Rightarrow> stn_replay_result + bytes" where
  "stn_replay_id_from_signer_nonce signer nonce =
     (case stn_identity_derive signer of
        Inl _ \<Rightarrow> Inl STN_REPLAY_MALFORMED
      | Inr canonical \<Rightarrow>
          (case nonce of
             None \<Rightarrow> Inl STN_REPLAY_MALFORMED
           | Some n \<Rightarrow>
               if \<not> nonzero (take 32 n) then Inl STN_REPLAY_MALFORMED
               else Inr (canonical @ take 32 n)))"

definition stn_replay_id_from_record :: "bytes option \<Rightarrow> stn_replay_result + bytes" where
  "stn_replay_id_from_record bs =
     (case stn_record_decode bs of
        Inl _ \<Rightarrow> Inl STN_REPLAY_MALFORMED
      | Inr r \<Rightarrow> stn_replay_id_from_signer_nonce (Some (rec_signer_public_key r)) (Some (rec_nonce r)))"

definition stn_replay_state_initialize :: "bytes list option \<Rightarrow> nat \<Rightarrow> key_buffer" where
  "stn_replay_state_initialize buf capacity = key_buffer_initialize buf capacity"

definition stn_replay_state_check :: "key_buffer \<Rightarrow> bytes option \<Rightarrow> stn_replay_result" where
  "stn_replay_state_check state i =
     (case i of
        None \<Rightarrow> STN_REPLAY_MALFORMED
      | Some k \<Rightarrow>
          if \<not> buffer_valid state then STN_REPLAY_MALFORMED
          else if scan_key state k then STN_REPLAY_REPLAY
          else STN_REPLAY_FRESH)"

definition stn_replay_state_consume ::
  "key_buffer \<Rightarrow> bytes option \<Rightarrow> stn_replay_result \<times> key_buffer" where
  "stn_replay_state_consume state i =
     (case i of
        None \<Rightarrow> (STN_REPLAY_MALFORMED, state)
      | Some k \<Rightarrow>
          if \<not> buffer_valid state then (STN_REPLAY_MALFORMED, state)
          else
            (let r = stn_replay_state_check state i
             in if r \<noteq> STN_REPLAY_FRESH then (r, state)
                else if consumed_count state = consumed_capacity state
                then (STN_REPLAY_MALFORMED, state)
                else (STN_REPLAY_FRESH, store_key state k)))"

text \<open>
  The array pointer is an option of the list it points at; each entry is a record pointer with its
  length.
\<close>

definition stn_replay_state_rebuild ::
  "key_buffer \<Rightarrow> bytes option list option \<Rightarrow> nat \<Rightarrow> stn_replay_result \<times> key_buffer" where
  "stn_replay_state_rebuild state records count =
     (if count \<noteq> 0 \<and> records = None then (STN_REPLAY_MALFORMED, state)
      else rebuild_loop stn_replay_id_from_record (\<lambda>s k. stn_replay_state_consume s (Some k))
             STN_REPLAY_FRESH (state\<lparr>consumed_count := 0\<rparr>)
             (case records of None \<Rightarrow> [] | Some rs \<Rightarrow> take count rs))"

interpretation record_replay: key_registry
  "\<lambda>s k. stn_replay_state_check s (Some k)" "\<lambda>s k. stn_replay_state_consume s (Some k)"
  Some STN_REPLAY_FRESH STN_REPLAY_REPLAY STN_REPLAY_MALFORMED
  by unfold_locales
     (auto simp: stn_replay_state_check_def stn_replay_state_consume_def buffer_wf_valid)

lemma replay_id_status:
  "stn_replay_id_from_record bs = Inl r \<Longrightarrow> r = STN_REPLAY_MALFORMED"
  by (auto simp: stn_replay_id_from_record_def stn_replay_id_from_signer_nonce_def
      split: sum.splits option.splits if_splits)

lemma buffer_wf_reset: "buffer_wf s \<Longrightarrow> buffer_wf (s\<lparr>consumed_count := 0\<rparr>)"
  by (cases s) (auto simp: buffer_wf_def buffer_valid_def)

lemma accepted_reset [simp]: "accepted (s\<lparr>consumed_count := 0\<rparr>) = []"
  by (simp add: accepted_def)

lemma rebuild_loop_capacity:
  "consumed_capacity (snd (rebuild_loop stn_replay_id_from_record
      (\<lambda>s k. stn_replay_state_consume s (Some k)) f s xs)) = consumed_capacity s"
proof (induction xs arbitrary: s)
  case Nil
  then show ?case by simp
next
  case (Cons x xs)
  have "stn_replay_state_consume s k = (r, t) \<Longrightarrow> consumed_capacity t = consumed_capacity s" for k r t
    by (auto simp: stn_replay_state_consume_def Let_def store_key_def split: option.splits if_splits)
  with Cons show ?case by (auto split: sum.splits prod.splits if_splits)
qed

lemma ids_list_all2:
  "list_all2 (\<lambda>x b. f x = Inr b) xs bs \<longleftrightarrow> map f xs = map Inr bs"
  by (induction xs arbitrary: bs) (auto simp: list_all2_Cons1 Cons_eq_map_conv)

text \<open>
  Rebuilding the record replay registry from a history of record bytes answers FRESH exactly
  when every record has an identifier, no two records share signer and nonce, and the buffer holds
  as many keys as there are records; then the registry holds exactly the identifiers of the history
  in order, in a well-formed buffer.
\<close>

theorem replay_rebuild_correct:
  assumes "buffer_wf s"
  shows "case stn_replay_state_rebuild s (Some rs) (length rs) of (status, t) \<Rightarrow>
    if status = STN_REPLAY_FRESH
    then map stn_replay_id_from_record rs = map Inr (accepted t) \<and> distinct (accepted t) \<and>
      buffer_wf t \<and> length rs \<le> consumed_capacity s
    else \<not> (\<exists>ids. map stn_replay_id_from_record rs = map Inr ids \<and> distinct ids \<and>
      length rs \<le> consumed_capacity s)"
proof -
  let ?run = "rebuild_loop stn_replay_id_from_record
      (\<lambda>s k. stn_replay_state_consume s (Some k)) STN_REPLAY_FRESH (s\<lparr>consumed_count := 0\<rparr>) rs"
  obtain status t where run: "?run = (status, t)" by force
  have call: "stn_replay_state_rebuild s (Some rs) (length rs) = (status, t)"
    using run by (simp add: stn_replay_state_rebuild_def)
  note wf = buffer_wf_reset [OF assms]
  show ?thesis
  proof (cases "status = STN_REPLAY_FRESH")
    case True
    with run have r: "?run = (STN_REPLAY_FRESH, t)" by simp
    have cap: "consumed_capacity t = consumed_capacity s"
      using rebuild_loop_capacity [of STN_REPLAY_FRESH "s\<lparr>consumed_count := 0\<rparr>" rs] r by simp
    from record_replay.rebuild_accepts [OF wf _ r] replay_id_status
    have t: "buffer_wf t" "distinct (accepted t)" "map stn_replay_id_from_record rs = map Inr (accepted t)"
      by (auto simp: ids_list_all2)
    then have "length rs = length (accepted t)" by (metis length_map)
    with t(1) cap have "length rs \<le> consumed_capacity s"
      by (auto simp: accepted_def buffer_wf_def buffer_valid_def)
    with t True show ?thesis by (simp add: call)
  next
    case False
    have "fst ?run = STN_REPLAY_FRESH" if ids: "map stn_replay_id_from_record rs = map Inr ids"
      and "distinct ids" "length rs \<le> consumed_capacity s" for ids
    proof (rule record_replay.rebuild_succeeds [OF wf])
      show "list_all2 (\<lambda>x b. \<exists>k. stn_replay_id_from_record x = Inr k \<and> Some k = Some b) rs ids"
        using ids by (simp add: ids_list_all2 [symmetric])
      have "length ids = length rs" using ids by (metis length_map)
      then show "distinct (accepted (s\<lparr>consumed_count := 0\<rparr>) @ ids)"
        "consumed_count (s\<lparr>consumed_count := 0\<rparr>) + length ids
          \<le> consumed_capacity (s\<lparr>consumed_count := 0\<rparr>)"
        using that by simp_all
    qed
    with False run show ?thesis by (auto simp: call)
  qed
qed

definition sample_record_bytes :: bytes where
  "sample_record_bytes = record_magic @ [0, 1, 0, 1] @ replicate 32 0 @ (2 # replicate 31 0) @
     (7 # replicate 31 0) @ replicate 8 0 @ [0, 0, 0, 1] @ [9] @ replicate 64 0"

lemma sample_record_id:
  "stn_replay_id_from_record (Some sample_record_bytes) =
     Inr ((2 # replicate 31 0) @ (7 # replicate 31 0))"
  by (simp add: sample_record_bytes_def stn_replay_id_from_record_def record_magic_def
      nonce_present_def stn_replay_id_from_signer_nonce_def stn_wire_read_def nonzero_iff
      canonical_point_value small_order_def le_value_def be_append)

theorem replay_rebuild_correct_witness:
  "fst (stn_replay_state_rebuild
      \<lparr>consumed = Some [[], []], consumed_count = 0, consumed_capacity = 2\<rparr>
      (Some [Some sample_record_bytes]) 1) = STN_REPLAY_FRESH"
proof (rule ccontr)
  let ?s = "\<lparr>consumed = Some [[], []], consumed_count = 0, consumed_capacity = 2\<rparr>"
  assume not_fresh: "\<not> ?thesis"
  have "map stn_replay_id_from_record [Some sample_record_bytes] =
      map Inr [(2 # replicate 31 0) @ (7 # replicate 31 0)]"
    by (simp add: sample_record_id)
  moreover have "buffer_wf ?s" by (simp add: buffer_wf_def buffer_valid_def)
  then have "\<not> (\<exists>ids. map stn_replay_id_from_record [Some sample_record_bytes] = map Inr ids \<and>
      distinct ids \<and> length [Some sample_record_bytes] \<le> 2)"
    using replay_rebuild_correct [of ?s "[Some sample_record_bytes]"] not_fresh
    by (simp split: prod.splits if_splits)
  ultimately show False by (metis distinct_singleton length_Cons list.size(3) one_le_numeral One_nat_def)
qed

end
