(* ===== verification/Stn_Address.thy ===== *)
theory Stn_Address
  imports Stn_Interfaces
begin

text \<open>
  Typed addresses (\<^verbatim>\<open>src/src/stn_address.c\<close>) and the deterministic wallet of an identity
  (\<^verbatim>\<open>src/src/stn_wallet.c\<close>). The SHA-256 function the platform links in is the parameter
  \<open>sha\<close> of the definitions that call it.
\<close>

section \<open>Addresses\<close>

text \<open>
  \<^verbatim>\<open>stn_address_type\<close>; \<open>STN_ADDRESS_OTHER\<close> is any other value the C enumeration can hold (a zeroed
  structure has one), which every function rejects.
\<close>

datatype stn_address_type =
    STN_ADDRESS_IDENTITY | STN_ADDRESS_CONTRACT | STN_ADDRESS_WALLET | STN_ADDRESS_OTHER

record stn_address =
  addr_type :: stn_address_type
  addr_id :: bytes

definition wf_address :: "stn_address \<Rightarrow> bool" where
  "wf_address a \<longleftrightarrow> length (addr_id a) = 32"

fun addr_prefix :: "stn_address_type \<Rightarrow> bytes option" where
  "addr_prefix STN_ADDRESS_IDENTITY = Some (ascii ''stn0_'')"
| "addr_prefix STN_ADDRESS_CONTRACT = Some (ascii ''stnc0_'')"
| "addr_prefix STN_ADDRESS_WALLET = Some (ascii ''stnw0_'')"
| "addr_prefix STN_ADDRESS_OTHER = None"

text \<open>
  The source pointer and its length are separate here, because the code tells an empty NULL span
  from a NULL pointer with a length.
\<close>

definition stn_address_derive ::
  "stn_hash_fn \<Rightarrow> stn_address_type \<Rightarrow> bytes option \<Rightarrow> nat \<Rightarrow> stn_address data_result" where
  "stn_address_derive sha ty source len =
     (if source = None \<and> len \<noteq> 0 then Inl STN_DATA_ARGUMENT
      else if addr_prefix ty = None then Inl STN_DATA_TYPE
      else if len > 4294967295 then Inl STN_DATA_LENGTH
      else
        (case sha [] (case source of None \<Rightarrow> [] | Some s \<Rightarrow> take len s) of
           Inl s \<Rightarrow> Inl s
         | Inr digest \<Rightarrow> Inr \<lparr>addr_type = ty, addr_id = digest\<rparr>))"

fun nibble :: "u8 \<Rightarrow> u8 option" where
  "nibble c =
     (if 0x30 \<le> c \<and> c \<le> 0x39 then Some (c - 0x30)
      else if 0x61 \<le> c \<and> c \<le> 0x66 then Some (c - 0x61 + 10)
      else None)"

text \<open>The loop over the 32 digit pairs; a pair with a bad digit is CONTENT.\<close>

fun hex_decode :: "bytes \<Rightarrow> bytes option" where
  "hex_decode [] = Some []"
| "hex_decode [_] = None"
| "hex_decode (h # l # r) =
     (case (nibble h, nibble l) of
        (Some high, Some low) \<Rightarrow> map_option (\<lambda>bs. (push_bit 4 high OR low) # bs) (hex_decode r)
      | _ \<Rightarrow> None)"

fun stn_address_decode :: "bytes option \<Rightarrow> stn_address data_result" where
  "stn_address_decode None = Inl STN_DATA_ARGUMENT"
| "stn_address_decode (Some text) =
     (if length text \<noteq> 69 \<and> length text \<noteq> 70 then Inl STN_DATA_LENGTH
      else
        (case (if take 5 text = ascii ''stn0_'' then Some (STN_ADDRESS_IDENTITY, 5)
               else if take 6 text = ascii ''stnc0_'' then Some (STN_ADDRESS_CONTRACT, 6)
               else if take 6 text = ascii ''stnw0_'' then Some (STN_ADDRESS_WALLET, 6)
               else None) of
           None \<Rightarrow> Inl STN_DATA_TYPE
         | Some (ty, offset) \<Rightarrow>
             (if length text \<noteq> offset + 64 then Inl STN_DATA_LENGTH
              else
                (case hex_decode (drop offset text) of
                   None \<Rightarrow> Inl STN_DATA_CONTENT
                 | Some bs \<Rightarrow> Inr \<lparr>addr_type = ty, addr_id = bs\<rparr>))))"

definition stn_address_validate :: "bytes option \<Rightarrow> stn_data_status" where
  "stn_address_validate text = data_status (stn_address_decode text)"

definition hex_digit :: "u8 \<Rightarrow> u8" where
  "hex_digit v = ascii ''0123456789abcdef'' ! unat v"

definition hex_encode :: "bytes \<Rightarrow> bytes" where
  "hex_encode bs = concat (map (\<lambda>b. [hex_digit (drop_bit 4 b), hex_digit (b AND 15)]) bs)"

text \<open>
  \<^verbatim>\<open>format\<close> returns the text with its terminating zero and the length written, which excludes it.
\<close>

fun format_address ::
  "stn_address option \<Rightarrow> nat \<Rightarrow> bool \<Rightarrow> (bytes \<times> nat) data_result" where
  "format_address None capacity abbreviated = Inl STN_DATA_ARGUMENT"
| "format_address (Some a) capacity abbreviated =
     (case addr_prefix (addr_type a) of
        None \<Rightarrow> Inl STN_DATA_TYPE
      | Some label \<Rightarrow>
          (let size = length label + (if abbreviated then 11 else 64)
           in if capacity \<le> size then Inl STN_DATA_CAPACITY
              else Inr (label @ (if abbreviated then ascii ''.....'' else []) @
                        hex_encode (drop (if abbreviated then 29 else 0) (addr_id a)) @ [0], size)))"

definition stn_address_encode :: "stn_address option \<Rightarrow> nat \<Rightarrow> (bytes \<times> nat) data_result" where
  "stn_address_encode a capacity = format_address a capacity False"

definition stn_address_abbreviate :: "stn_address option \<Rightarrow> nat \<Rightarrow> (bytes \<times> nat) data_result" where
  "stn_address_abbreviate a capacity = format_address a capacity True"

section \<open>Wallets\<close>

record stn_wallet_binding =
  wb_identity :: stn_address
  wb_wallet :: stn_address

fun stn_wallet_derive :: "stn_hash_fn \<Rightarrow> stn_address option \<Rightarrow> stn_address data_result" where
  "stn_wallet_derive sha None = Inl STN_DATA_ARGUMENT"
| "stn_wallet_derive sha (Some a) =
     (if addr_type a \<noteq> STN_ADDRESS_IDENTITY then Inl STN_DATA_TYPE
      else stn_address_derive sha STN_ADDRESS_WALLET (Some (addr_id a)) 32)"

fun binding_valid :: "stn_hash_fn \<Rightarrow> stn_wallet_binding option \<Rightarrow> stn_data_status" where
  "binding_valid sha None = STN_DATA_ARGUMENT"
| "binding_valid sha (Some b) =
     (if addr_type (wb_identity b) \<noteq> STN_ADDRESS_IDENTITY \<or>
         addr_type (wb_wallet b) \<noteq> STN_ADDRESS_WALLET then STN_DATA_TYPE
      else
        (case stn_wallet_derive sha (Some (wb_identity b)) of
           Inl status \<Rightarrow> status
         | Inr expected \<Rightarrow>
             (if memcmp (addr_id expected) (addr_id (wb_wallet b)) \<noteq> 0 then STN_DATA_CONTENT
              else STN_DATA_OK)))"

definition STN_WALLET_VERSION :: u8 where "STN_WALLET_VERSION = 1"

fun stn_wallet_binding_encode ::
  "stn_hash_fn \<Rightarrow> stn_wallet_binding option \<Rightarrow> bytes data_result" where
  "stn_wallet_binding_encode sha None = Inl STN_DATA_ARGUMENT"
| "stn_wallet_binding_encode sha (Some b) =
     (let status = binding_valid sha (Some b)
      in if status \<noteq> STN_DATA_OK then Inl status
         else Inr (STN_WALLET_VERSION # addr_id (wb_identity b) @ addr_id (wb_wallet b)))"

fun stn_wallet_binding_decode ::
  "stn_hash_fn \<Rightarrow> bytes option \<Rightarrow> stn_wallet_binding data_result" where
  "stn_wallet_binding_decode sha None = Inl STN_DATA_ARGUMENT"
| "stn_wallet_binding_decode sha (Some canonical) =
     (if length canonical \<noteq> 65 then Inl STN_DATA_LENGTH
      else if canonical ! 0 \<noteq> STN_WALLET_VERSION then Inl STN_DATA_CONTENT
      else
        (let result =
           \<lparr>wb_identity = \<lparr>addr_type = STN_ADDRESS_IDENTITY, addr_id = take 32 (drop 1 canonical)\<rparr>,
            wb_wallet = \<lparr>addr_type = STN_ADDRESS_WALLET, addr_id = take 32 (drop 33 canonical)\<rparr>\<rparr>;
             status = binding_valid sha (Some result)
         in if status \<noteq> STN_DATA_OK then Inl status else Inr result))"

section \<open>Hexadecimal text\<close>

lemma below_16_cases:
  fixes v :: u8
  assumes "v < 16"
  shows "v \<in> set (map word_of_nat [0..<16])"
proof -
  have "unat v < 16" using assms by (simp add: word_less_nat_alt)
  then have "word_of_nat (unat v) \<in> set (map word_of_nat [0..<16] :: u8 list)"
    unfolding set_map by (intro imageI) simp
  then show ?thesis by simp
qed

lemma digit_cases:
  fixes c :: u8
  assumes "nibble c = Some v"
  shows "c \<in> set (map word_of_nat ([0x30..<0x3a] @ [0x61..<0x67]))"
proof -
  have "unat c \<in> set ([0x30..<0x3a] @ [0x61..<0x67])"
    unfolding set_append set_upt Un_iff atLeastLessThan_iff
    using assms by (auto simp: word_le_nat_alt split: if_splits)
  then have "word_of_nat (unat c) \<in> set (map word_of_nat ([0x30..<0x3a] @ [0x61..<0x67]) :: u8 list)"
    unfolding set_map by (rule imageI)
  then show ?thesis by simp
qed

lemma nibble_hex_digit: "v < 16 \<Longrightarrow> nibble (hex_digit v) = Some v"
  by (drule below_16_cases) (auto simp: upt_rec hex_digit_def ascii_def)

lemma hex_digit_nibble:
  assumes "nibble c = Some v"
  shows "v < 16" "hex_digit v = c"
  using digit_cases [OF assms] assms by (auto simp: upt_rec hex_digit_def ascii_def)

lemma high_nibble_less: "drop_bit 4 (b :: u8) < 16"
proof -
  have "unat (drop_bit 4 b) = unat b div 16"
    unfolding unat_drop_bit_eq by (simp add: drop_bit_eq_div)
  moreover have "unat b div 16 < 16"
    using unsigned_less [of b, where ?'a = nat] by (simp add: less_mult_imp_div_less)
  ultimately show ?thesis by (simp add: word_less_nat_alt)
qed

lemma low_nibble_less: "(b :: u8) AND 15 < 16"
proof -
  have "b AND 15 \<le> 15" by (rule word_and_le1)
  then show ?thesis by (simp add: word_le_nat_alt word_less_nat_alt)
qed

lemma mask_15: "(15 :: u8) = mask 4"
  by (simp add: mask_eq_exp_minus_1)

lemma nibbles_join: "push_bit 4 (drop_bit 4 b) OR (b AND 15) = (b :: u8)"
  unfolding mask_15 by (rule bit_word_eqI) (auto simp: bit_simps)

lemma nibbles_split:
  fixes h l :: u8
  assumes "h < 16" "l < 16"
  shows "drop_bit 4 (push_bit 4 h OR l) = h" "(push_bit 4 h OR l) AND 15 = l"
  using below_16_cases [OF assms(1)] below_16_cases [OF assms(2)]
  by (auto simp: upt_rec)

lemma length_hex_encode [simp, lengths]: "length (hex_encode bs) = 2 * length bs"
  by (induction bs) (simp_all add: hex_encode_def)

lemma hex_decode_encode: "hex_decode (hex_encode bs) = Some bs"
  by (induction bs)
     (simp_all add: hex_encode_def nibble_hex_digit high_nibble_less low_nibble_less nibbles_join
        del: nibble.simps)

lemma hex_encode_Cons:
  "hex_encode (b # bs) = hex_digit (drop_bit 4 b) # hex_digit (b AND 15) # hex_encode bs"
  by (simp add: hex_encode_def)

lemma hex_encode_pair:
  assumes "nibble h = Some x" "nibble l = Some y"
  shows "hex_encode ((push_bit 4 x OR y) # bs) = h # l # hex_encode bs"
  unfolding hex_encode_Cons nibbles_split [OF hex_digit_nibble(1) hex_digit_nibble(1), OF assms]
  by (simp add: hex_digit_nibble(2) [OF assms(1)] hex_digit_nibble(2) [OF assms(2)])

lemma hex_encode_decode: "hex_decode t = Some bs \<Longrightarrow> hex_encode bs = t"
proof (induction t arbitrary: bs rule: hex_decode.induct)
  case (3 h l r)
  from "3.prems" obtain x y z where "nibble h = Some x" "nibble l = Some y"
      "hex_decode r = Some z" "bs = (push_bit 4 x OR y) # z"
    by (auto simp del: nibble.simps split: option.splits)
  with "3.IH" show ?case
    by (metis hex_encode_pair)
qed (simp_all add: hex_encode_def)

lemma length_hex_decode: "hex_decode t = Some bs \<Longrightarrow> length t = 2 * length bs"
  by (metis hex_encode_decode length_hex_encode)


section \<open>The text form\<close>

text \<open>What the encoder writes into a buffer of the full capacity, without the terminator.\<close>

definition address_text :: "stn_address \<Rightarrow> bytes data_result" where
  "address_text a = map_sum id (\<lambda>(t, n). take n t) (stn_address_encode (Some a) 71)"

lemma address_text_eq:
  "address_text a =
     (case addr_prefix (addr_type a) of
        None \<Rightarrow> Inl STN_DATA_TYPE
      | Some label \<Rightarrow> Inr (take (length label + 64) (label @ hex_encode (addr_id a) @ [0])))"
  by (cases "addr_type a") (simp_all add: address_text_def stn_address_encode_def ascii_def)

lemma address_decode_cases:
  assumes "stn_address_decode (Some t) = Inr a"
  obtains label where "addr_prefix (addr_type a) = Some label" "t = label @ hex_encode (addr_id a)"
    "length (addr_id a) = 32"
proof -
  from assms obtain ty off where ty: "length t = off + 64"
      "(ty, off) \<in> {(STN_ADDRESS_IDENTITY, 5), (STN_ADDRESS_CONTRACT, 6), (STN_ADDRESS_WALLET, 6)}"
      "addr_prefix ty = Some (take off t)" "hex_decode (drop off t) = Some (addr_id a)"
      "addr_type a = ty"
    by (auto split: if_splits option.splits)
  have "t = take off t @ hex_encode (addr_id a)"
    using hex_encode_decode [OF ty(4)] by simp
  moreover have "length (addr_id a) = 32"
    using length_hex_decode [OF ty(4)] ty(1) by simp
  ultimately show ?thesis
    using that ty by metis
qed

lemma address_prefix_cases:
  assumes "addr_prefix ty = Some label"
  shows "(ty, label) \<in> {(STN_ADDRESS_IDENTITY, ascii ''stn0_''), (STN_ADDRESS_CONTRACT, ascii ''stnc0_''),
    (STN_ADDRESS_WALLET, ascii ''stnw0_'')}"
  using assms by (cases ty) auto

lemma address_decode_join:
  assumes "addr_prefix ty = Some label" "length bs = 32"
  shows "stn_address_decode (Some (label @ hex_encode bs)) = Inr \<lparr>addr_type = ty, addr_id = bs\<rparr>"
  using address_prefix_cases [OF assms(1)] assms(2)
  by (auto simp: ascii_def hex_decode_encode)

interpretation address_codec: codec address_text "\<lambda>t. stn_address_decode (Some t)" wf_address
proof
  fix a t
  assume "wf_address a" "address_text a = Inr t"
  then show "stn_address_decode (Some t) = Inr a"
    by (auto simp: address_text_eq wf_address_def address_decode_join simp del: stn_address_decode.simps
        split: option.splits)
next
  fix a t
  assume "stn_address_decode (Some t) = Inr a"
  then show "address_text a = Inr t"
    by (rule address_decode_cases) (simp add: address_text_eq)
next
  fix a t
  assume "stn_address_decode (Some t) = Inr a"
  then show "wf_address a"
    by (rule address_decode_cases) (simp add: wf_address_def)
qed

section \<open>The wallet binding\<close>

definition wf_wallet_binding :: "stn_wallet_binding \<Rightarrow> bool" where
  "wf_wallet_binding b \<longleftrightarrow> wf_address (wb_identity b) \<and> wf_address (wb_wallet b)"

lemma wallet_derive_iff:
  assumes "hash_fn_ok sha"
  shows "stn_wallet_derive sha (Some a) = Inr w \<longleftrightarrow>
    addr_type a = STN_ADDRESS_IDENTITY \<and> addr_type w = STN_ADDRESS_WALLET \<and>
    sha [] (take 32 (addr_id a)) = Inr (addr_id w)"
  by (cases w) (auto simp: stn_address_derive_def split: sum.splits)

lemma binding_valid_iff:
  assumes "hash_fn_ok sha"
  shows "binding_valid sha (Some b) = STN_DATA_OK \<longleftrightarrow>
    stn_wallet_derive sha (Some (wb_identity b)) = Inr (wb_wallet b)"
proof -
  obtain i w where b: "b = \<lparr>wb_identity = i, wb_wallet = w\<rparr>" by (cases b)
  have "binding_valid sha (Some b) = STN_DATA_OK \<longleftrightarrow>
      addr_type i = STN_ADDRESS_IDENTITY \<and> addr_type w = STN_ADDRESS_WALLET \<and>
      (\<exists>e. stn_wallet_derive sha (Some i) = Inr e \<and> addr_id e = addr_id w)"
    using hash_fn_ok_status [OF assms]
    by (auto simp: b stn_address_derive_def split: sum.splits if_splits)
  also have "\<dots> \<longleftrightarrow> stn_wallet_derive sha (Some i) = Inr w"
    using assms by (auto simp del: stn_wallet_derive.simps simp: wallet_derive_iff)
  finally show ?thesis by (simp add: b)
qed

lemma wallet_encode_iff:
  assumes "hash_fn_ok sha"
  shows "stn_wallet_binding_encode sha (Some b) = Inr t \<longleftrightarrow>
    stn_wallet_derive sha (Some (wb_identity b)) = Inr (wb_wallet b) \<and>
    t = STN_WALLET_VERSION # addr_id (wb_identity b) @ addr_id (wb_wallet b)"
  by (auto simp: Let_def binding_valid_iff [OF assms]
      simp del: binding_valid.simps stn_wallet_derive.simps)

lemma wallet_decode_iff:
  assumes "hash_fn_ok sha"
  shows "stn_wallet_binding_decode sha (Some t) = Inr b \<longleftrightarrow>
    length t = 65 \<and> t ! 0 = STN_WALLET_VERSION \<and>
    stn_wallet_derive sha (Some (wb_identity b)) = Inr (wb_wallet b) \<and>
    wb_identity b = \<lparr>addr_type = STN_ADDRESS_IDENTITY, addr_id = take 32 (drop 1 t)\<rparr> \<and>
    wb_wallet b = \<lparr>addr_type = STN_ADDRESS_WALLET, addr_id = take 32 (drop 33 t)\<rparr>"
  by (cases b) (auto simp: Let_def binding_valid_iff [OF assms]
      simp del: binding_valid.simps stn_wallet_derive.simps)

text \<open>The binding format is canonical for every hash the platform may link in.\<close>

lemma wallet_codec:
  assumes "hash_fn_ok sha"
  shows "codec (\<lambda>b. stn_wallet_binding_encode sha (Some b))
    (\<lambda>t. stn_wallet_binding_decode sha (Some t)) wf_wallet_binding"
proof
  fix b t
  assume "wf_wallet_binding b" "stn_wallet_binding_encode sha (Some b) = Inr t"
  then show "stn_wallet_binding_decode sha (Some t) = Inr b"
    unfolding wallet_encode_iff [OF assms] wallet_decode_iff [OF assms]
    by (cases b) (auto simp: wf_wallet_binding_def wf_address_def wallet_derive_iff [OF assms]
        simp del: stn_wallet_derive.simps intro!: stn_address.equality)
next
  fix b t
  assume *: "stn_wallet_binding_decode sha (Some t) = Inr b"
  then have "t = STN_WALLET_VERSION # take 32 (drop 1 t) @ take 32 (drop 33 t)"
    unfolding wallet_decode_iff [OF assms]
    by (cases t) (auto simp: slices)
  with * show "stn_wallet_binding_encode sha (Some b) = Inr t"
    unfolding wallet_encode_iff [OF assms] wallet_decode_iff [OF assms]
    by (metis stn_address.select_convs(2))
next
  fix b t
  assume "stn_wallet_binding_decode sha (Some t) = Inr b"
  then show "wf_wallet_binding b"
    unfolding wallet_decode_iff [OF assms]
    by (auto simp: wf_wallet_binding_def wf_address_def)
qed

text \<open>
  The address text is canonical: the decoder accepts a text exactly when it is what the encoder
  writes for the address it returns, so an address has one text (prefix of its type, 64 lowercase
  hexadecimal digits) and every other text is rejected.
\<close>

theorem address_text_canonical:
  "stn_address_decode (Some t) = Inr a \<longleftrightarrow> wf_address a \<and> address_text a = Inr t"
  by (rule address_codec.dec_iff)

end
