(* ===== verification/Stn_Compensation.thy ===== *)
theory Stn_Compensation
  imports Stn_Address
begin

text \<open>
  Compensation destinations (\<^verbatim>\<open>src/src/stn_compensation.c\<close>) and the accepted mapping of mining
  identities to wallets (\<^verbatim>\<open>stn_compensation_state.c\<close>).

  The entry array is the list of its first \<open>count\<close> slots (no operation reads a slot past the
  count), \<open>None\<close> when the pointer is NULL; the count and the capacity are fields of their own.
\<close>

section \<open>The destination codec\<close>

record stn_compensation_destination =
  dest_identity :: stn_address
  dest_wallet :: stn_address

definition wf_destination :: "stn_compensation_destination \<Rightarrow> bool" where
  "wf_destination d \<longleftrightarrow> wf_address (dest_identity d) \<and> wf_address (dest_wallet d)"

definition dest_typed :: "stn_compensation_destination \<Rightarrow> bool" where
  "dest_typed d \<longleftrightarrow> addr_type (dest_identity d) = STN_ADDRESS_IDENTITY \<and>
     addr_type (dest_wallet d) = STN_ADDRESS_WALLET"

definition STN_COMPENSATION_DESTINATION_VERSION :: u8 where
  "STN_COMPENSATION_DESTINATION_VERSION = 1"

definition STN_COMPENSATION_DESTINATION_SIZE :: nat where
  [simp]: "STN_COMPENSATION_DESTINATION_SIZE = 65"

fun stn_compensation_destination_encode ::
  "stn_compensation_destination option \<Rightarrow> bytes data_result" where
  "stn_compensation_destination_encode None = Inl STN_DATA_ARGUMENT"
| "stn_compensation_destination_encode (Some d) =
     (if addr_type (dest_identity d) \<noteq> STN_ADDRESS_IDENTITY \<or>
         addr_type (dest_wallet d) \<noteq> STN_ADDRESS_WALLET then Inl STN_DATA_TYPE
      else Inr (STN_COMPENSATION_DESTINATION_VERSION # addr_id (dest_identity d) @
                addr_id (dest_wallet d)))"

fun stn_compensation_destination_decode ::
  "bytes option \<Rightarrow> stn_compensation_destination data_result" where
  "stn_compensation_destination_decode None = Inl STN_DATA_ARGUMENT"
| "stn_compensation_destination_decode (Some canonical) =
     (if length canonical \<noteq> STN_COMPENSATION_DESTINATION_SIZE then Inl STN_DATA_LENGTH
      else if canonical ! 0 \<noteq> STN_COMPENSATION_DESTINATION_VERSION then Inl STN_DATA_VERSION
      else Inr
        \<lparr>dest_identity = \<lparr>addr_type = STN_ADDRESS_IDENTITY, addr_id = take 32 (drop 1 canonical)\<rparr>,
         dest_wallet = \<lparr>addr_type = STN_ADDRESS_WALLET, addr_id = take 32 (drop 33 canonical)\<rparr>\<rparr>)"

lemma destination_encode_iff:
  "stn_compensation_destination_encode (Some d) = Inr bs \<longleftrightarrow> dest_typed d \<and>
     bs = STN_COMPENSATION_DESTINATION_VERSION # addr_id (dest_identity d) @ addr_id (dest_wallet d)"
  by (auto simp: dest_typed_def)

lemma destination_decode_iff:
  "stn_compensation_destination_decode (Some bs) = Inr d \<longleftrightarrow>
     length bs = 65 \<and> bs ! 0 = STN_COMPENSATION_DESTINATION_VERSION \<and>
     d = \<lparr>dest_identity = \<lparr>addr_type = STN_ADDRESS_IDENTITY, addr_id = take 32 (drop 1 bs)\<rparr>,
          dest_wallet = \<lparr>addr_type = STN_ADDRESS_WALLET, addr_id = take 32 (drop 33 bs)\<rparr>\<rparr>"
  by auto

declare stn_compensation_destination_encode.simps(2) [simp del]
  stn_compensation_destination_decode.simps(2) [simp del]

interpretation destination_codec: codec
  "\<lambda>d. stn_compensation_destination_encode (Some d)"
  "\<lambda>bs. stn_compensation_destination_decode (Some bs)" wf_destination
proof
  fix d bs
  assume "wf_destination d" "stn_compensation_destination_encode (Some d) = Inr bs"
  then show "stn_compensation_destination_decode (Some bs) = Inr d"
    unfolding destination_encode_iff destination_decode_iff
    by (cases d) (auto simp: wf_destination_def wf_address_def dest_typed_def
        intro!: stn_address.equality)
next
  fix d bs
  assume "stn_compensation_destination_decode (Some bs) = Inr d"
  then have d: "length bs = 65" "bs ! 0 = STN_COMPENSATION_DESTINATION_VERSION"
      "d = \<lparr>dest_identity = \<lparr>addr_type = STN_ADDRESS_IDENTITY, addr_id = take 32 (drop 1 bs)\<rparr>,
            dest_wallet = \<lparr>addr_type = STN_ADDRESS_WALLET, addr_id = take 32 (drop 33 bs)\<rparr>\<rparr>"
    unfolding destination_decode_iff by blast+
  have "STN_COMPENSATION_DESTINATION_VERSION # take 32 (drop 1 bs) @ take 32 (drop 33 bs) = bs"
    by (rule version_join) (use d(1,2) in \<open>simp_all add: slices\<close>)
  then show "stn_compensation_destination_encode (Some d) = Inr bs"
    unfolding destination_encode_iff by (simp add: d(3) dest_typed_def)
next
  fix d bs
  assume "stn_compensation_destination_decode (Some bs) = Inr d"
  then show "wf_destination d"
    unfolding destination_decode_iff by (auto simp: wf_destination_def wf_address_def)
qed

section \<open>The accepted mapping\<close>

record stn_compensation_state =
  comp_entries :: "stn_compensation_destination list option"
  comp_count :: nat
  comp_capacity :: nat

definition comp_live :: "stn_compensation_state \<Rightarrow> stn_compensation_destination list" where
  "comp_live s = (case comp_entries s of None \<Rightarrow> [] | Some xs \<Rightarrow> xs)"

abbreviation dest_key :: "stn_compensation_destination \<Rightarrow> bytes" where
  "dest_key d \<equiv> addr_id (dest_identity d)"

definition comp_bad :: "stn_compensation_state \<Rightarrow> bool" where
  "comp_bad s \<longleftrightarrow> comp_count s > comp_capacity s \<or> (comp_capacity s \<noteq> 0 \<and> comp_entries s = None)"

text \<open>The storage handed over at initialization has no live slot yet; only its NULL test matters.\<close>

definition stn_compensation_state_initialize ::
  "bool \<Rightarrow> nat \<Rightarrow> stn_compensation_state data_result" where
  "stn_compensation_state_initialize storage_null capacity =
     (if capacity \<noteq> 0 \<and> storage_null then Inl STN_DATA_ARGUMENT
      else Inr \<lparr>comp_entries = (if storage_null then None else Some []), comp_count = 0,
                comp_capacity = capacity\<rparr>)"

fun stn_compensation_state_apply ::
  "stn_compensation_state \<Rightarrow> stn_compensation_destination option \<Rightarrow>
   stn_data_status \<times> stn_compensation_state" where
  "stn_compensation_state_apply s None = (STN_DATA_ARGUMENT, s)"
| "stn_compensation_state_apply s (Some d) =
     (if addr_type (dest_identity d) \<noteq> STN_ADDRESS_IDENTITY \<or>
         addr_type (dest_wallet d) \<noteq> STN_ADDRESS_WALLET then (STN_DATA_TYPE, s)
      else if comp_bad s then (STN_DATA_ARGUMENT, s)
      else
        (let xs = comp_live s; at = find_at dest_key (dest_key d) xs
         in if at < comp_count s \<and> memcmp (dest_key (xs ! at)) (dest_key d) = 0
            then (if memcmp (addr_id (dest_wallet (xs ! at))) (addr_id (dest_wallet d)) = 0
                  then STN_DATA_OK else STN_DATA_DUPLICATE, s)
            else if comp_count s = comp_capacity s then (STN_DATA_CAPACITY, s)
            else (STN_DATA_OK,
                  s\<lparr>comp_entries := map_option (insert_at at d) (comp_entries s),
                    comp_count := comp_count s + 1\<rparr>)))"

fun stn_compensation_state_lookup ::
  "stn_compensation_state \<Rightarrow> stn_address option \<Rightarrow> stn_address data_result" where
  "stn_compensation_state_lookup s None = Inl STN_DATA_ARGUMENT"
| "stn_compensation_state_lookup s (Some i) =
     (if addr_type i \<noteq> STN_ADDRESS_IDENTITY then Inl STN_DATA_TYPE
      else if comp_bad s then Inl STN_DATA_ARGUMENT
      else
        (case scan_sorted dest_key (addr_id i) (comp_live s) of
           Some e \<Rightarrow> Inr (dest_wallet e)
         | None \<Rightarrow> Inl STN_DATA_UNRESOLVED))"

text \<open>
  The invariant: the guard of every operation, a count that is the number of live slots, strictly
  ascending identities, and typed entries.
\<close>

definition comp_wf :: "stn_compensation_state \<Rightarrow> bool" where
  "comp_wf s \<longleftrightarrow> \<not> comp_bad s \<and> length (comp_live s) = comp_count s \<and>
     sorted_by dest_key (comp_live s) \<and> (\<forall>d \<in> set (comp_live s). dest_typed d)"

text \<open>The abstract state: a finite map from mining identities to destinations.\<close>

definition comp_map :: "stn_compensation_state \<Rightarrow> bytes \<rightharpoonup> stn_compensation_destination" where
  "comp_map s = table dest_key (comp_live s)"

lemma comp_initialize_wf:
  "stn_compensation_state_initialize n c = Inr s \<Longrightarrow> comp_wf s \<and> comp_map s = Map.empty"
  by (auto simp: stn_compensation_state_initialize_def comp_wf_def comp_bad_def comp_live_def
      comp_map_def fun_eq_iff split: if_splits)

lemma comp_lookup_map:
  assumes "comp_wf s" "addr_type i = STN_ADDRESS_IDENTITY"
  shows "stn_compensation_state_lookup s (Some i) =
    (case comp_map s (addr_id i) of None \<Rightarrow> Inl STN_DATA_UNRESOLVED | Some e \<Rightarrow> Inr (dest_wallet e))"
  using assms by (auto simp: comp_wf_def comp_map_def scan_sorted_table split: option.splits)

text \<open>What one application does, on every branch.\<close>

lemma comp_apply_cases:
  assumes "comp_wf s"
  shows "stn_compensation_state_apply s (Some d) =
    (if \<not> dest_typed d then (STN_DATA_TYPE, s)
     else
       (case comp_map s (dest_key d) of
          Some e \<Rightarrow>
            (if addr_id (dest_wallet e) = addr_id (dest_wallet d) then STN_DATA_OK
             else STN_DATA_DUPLICATE, s)
        | None \<Rightarrow>
            if comp_count s = comp_capacity s then (STN_DATA_CAPACITY, s)
            else (STN_DATA_OK,
              s\<lparr>comp_entries :=
                  map_option (insert_at (find_at dest_key (dest_key d) (comp_live s)) d)
                    (comp_entries s),
                comp_count := comp_count s + 1\<rparr>)))"
proof -
  have "sorted_by dest_key (comp_live s)" "length (comp_live s) = comp_count s"
    using assms by (simp_all add: comp_wf_def)
  note find_at_table [OF this(1), of "dest_key d"] and this
  with assms show ?thesis
    by (auto simp: comp_wf_def comp_map_def dest_typed_def Let_def)
qed

declare stn_compensation_state_apply.simps(2) [simp del]
  stn_compensation_state_lookup.simps(2) [simp del]

lemma comp_insert:
  assumes "comp_wf s" "dest_typed d" "comp_map s (dest_key d) = None"
    "comp_count s \<noteq> comp_capacity s"
  defines "t \<equiv> s\<lparr>comp_entries :=
      map_option (insert_at (find_at dest_key (dest_key d) (comp_live s)) d) (comp_entries s),
    comp_count := comp_count s + 1\<rparr>"
  shows "comp_wf t \<and> comp_map t = (comp_map s)(dest_key d \<mapsto> d)"
proof -
  have "comp_entries s \<noteq> None"
    using assms(1,4) by (auto simp: comp_wf_def comp_bad_def)
  then have live: "comp_live t = insert_at (find_at dest_key (dest_key d) (comp_live s)) d (comp_live s)"
    by (auto simp: t_def comp_live_def)
  have s: "sorted_by dest_key (comp_live s)" "table dest_key (comp_live s) (dest_key d) = None"
    using assms(1,3) by (simp_all add: comp_wf_def comp_map_def)
  have "comp_map t = (comp_map s)(dest_key d \<mapsto> d)"
    unfolding comp_map_def live by (rule table_insert_at [OF s])
  moreover have "comp_wf t"
    unfolding comp_wf_def live using sorted_insert_at [OF s] assms(1,2,4)
    by (auto simp: t_def comp_wf_def comp_bad_def)
  ultimately show ?thesis by simp
qed

lemma comp_apply_wf:
  assumes "comp_wf s"
  shows "comp_wf (snd (stn_compensation_state_apply s d))"
  using assms comp_insert [OF assms]
  by (cases d) (auto simp: comp_apply_cases split: option.splits)

text \<open>An accepted mapping is never changed: only absent identities are added.\<close>

lemma comp_apply_extends:
  assumes "comp_wf s"
  shows "comp_map s \<subseteq>\<^sub>m comp_map (snd (stn_compensation_state_apply s d))"
  using assms comp_insert [OF assms]
  by (cases d) (auto simp: comp_apply_cases map_le_def split: option.splits)

section \<open>Properties\<close>

text \<open>
  The compensation mapping is set once per mining identity. Under the invariant, applying a
  destination answers OK exactly for a typed destination whose identity is unmapped, with a free slot,
  or already mapped to the same wallet; a different wallet for a mapped identity is DUPLICATE. The
  invariant is preserved, a new identity is added to the map, every answer but OK for a new identity
  leaves the state unchanged, and a lookup that succeeded before gives the same wallet after.
\<close>

theorem compensation_apply_refines:
  assumes "comp_wf s"
  shows "case stn_compensation_state_apply s (Some d) of (status, t) \<Rightarrow>
    comp_wf t \<and>
    (case comp_map s (addr_id (dest_identity d)) of
       Some e \<Rightarrow> t = s \<and> (status = STN_DATA_OK \<longleftrightarrow>
         dest_typed d \<and> addr_id (dest_wallet e) = addr_id (dest_wallet d))
     | None \<Rightarrow>
         if status = STN_DATA_OK then comp_map t = (comp_map s)(addr_id (dest_identity d) \<mapsto> d)
         else t = s \<and> \<not> (dest_typed d \<and> comp_count s < comp_capacity s)) \<and>
    (\<forall>i w. stn_compensation_state_lookup s (Some i) = Inr w \<longrightarrow>
       stn_compensation_state_lookup t (Some i) = Inr w)"
proof (cases "stn_compensation_state_apply s (Some d)")
  case (Pair status t)
  have wf: "comp_wf t" and ext: "comp_map s \<subseteq>\<^sub>m comp_map t"
    using comp_apply_wf [OF assms, of "Some d"] comp_apply_extends [OF assms, of "Some d"] Pair by simp_all
  have look: "stn_compensation_state_lookup t (Some i) = Inr w"
    if found: "stn_compensation_state_lookup s (Some i) = Inr w" for i w
  proof -
    have ty: "addr_type i = STN_ADDRESS_IDENTITY"
      using found by (simp add: stn_compensation_state_lookup.simps(2) split: if_splits)
    then obtain e where "comp_map s (addr_id i) = Some e" "w = dest_wallet e"
      using found unfolding comp_lookup_map [OF assms ty] by (auto split: option.splits)
    moreover from this ext have "comp_map t (addr_id i) = Some e"
      by (auto simp: map_le_def dom_def)
    ultimately show ?thesis using comp_lookup_map [OF wf ty] by simp
  qed
  show ?thesis
    using wf look Pair comp_insert [OF assms, of d] unfolding comp_apply_cases [OF assms]
    by (auto split: option.splits if_splits)
qed

definition sample_mapping :: stn_compensation_destination where
  "sample_mapping =
     \<lparr>dest_identity = \<lparr>addr_type = STN_ADDRESS_IDENTITY, addr_id = replicate 32 7\<rparr>,
      dest_wallet = \<lparr>addr_type = STN_ADDRESS_WALLET, addr_id = replicate 32 9\<rparr>\<rparr>"

definition sample_compensation :: stn_compensation_state where
  "sample_compensation =
     \<lparr>comp_entries = Some [sample_mapping], comp_count = 1, comp_capacity = 2\<rparr>"

lemma sample_compensation_wf: "comp_wf sample_compensation"
  by (simp add: sample_compensation_def sample_mapping_def comp_wf_def comp_bad_def comp_live_def
      dest_typed_def)

theorem compensation_apply_refines_witness:
  "stn_compensation_state_apply sample_compensation
     (Some (sample_mapping\<lparr>dest_wallet := \<lparr>addr_type = STN_ADDRESS_WALLET, addr_id = replicate 32 1\<rparr>\<rparr>)) =
   (STN_DATA_DUPLICATE, sample_compensation) \<and>
   comp_map (snd (stn_compensation_state_apply sample_compensation
     (Some (sample_mapping\<lparr>dest_identity := \<lparr>addr_type = STN_ADDRESS_IDENTITY, addr_id = replicate 32 1\<rparr>\<rparr>))))
     (replicate 32 7) = Some sample_mapping"
proof -
  let ?d = "sample_mapping\<lparr>dest_identity := \<lparr>addr_type = STN_ADDRESS_IDENTITY, addr_id = replicate 32 1\<rparr>\<rparr>"
  have map: "comp_map sample_compensation = [replicate 32 7 \<mapsto> sample_mapping]"
    by (simp add: comp_map_def comp_live_def sample_compensation_def sample_mapping_def fun_eq_iff)
  have "stn_compensation_state_apply sample_compensation
     (Some (sample_mapping\<lparr>dest_wallet := \<lparr>addr_type = STN_ADDRESS_WALLET, addr_id = replicate 32 1\<rparr>\<rparr>)) =
     (STN_DATA_DUPLICATE, sample_compensation)"
    unfolding comp_apply_cases [OF sample_compensation_wf] map
    by (simp add: sample_mapping_def dest_typed_def)
  moreover have "fst (stn_compensation_state_apply sample_compensation (Some ?d)) = STN_DATA_OK"
    unfolding comp_apply_cases [OF sample_compensation_wf] map
    by (simp add: sample_mapping_def dest_typed_def sample_compensation_def)
  ultimately show ?thesis
    using compensation_apply_refines [OF sample_compensation_wf, of ?d]
    unfolding map by (auto simp: sample_mapping_def split: prod.splits)
qed

end
