(* ===== verification/Stn_Issuance.thy ===== *)
theory Stn_Issuance
  imports Stn_Compensation
begin

text \<open>
  The canonical mining issuance record (\<^verbatim>\<open>src/src/stn_issuance.c\<close>). The bindings of an issuance to
  its evidence (\<^verbatim>\<open>stn_issuance_binding.c\<close>) are in \<open>Stn_Reward\<close>, after the evidence formats.
\<close>

record stn_issuance_record =
  iss_reason :: u8
  iss_units :: u64
  iss_evidence_id :: bytes
  iss_destination :: stn_compensation_destination

definition wf_issuance :: "stn_issuance_record \<Rightarrow> bool" where
  "wf_issuance r \<longleftrightarrow> length (iss_evidence_id r) = 32 \<and> wf_destination (iss_destination r)"

definition STN_ISSUANCE_VERSION :: u8 where "STN_ISSUANCE_VERSION = 1"
definition STN_ISSUANCE_REASON_SHARE :: u8 where "STN_ISSUANCE_REASON_SHARE = 1"
definition STN_ISSUANCE_REASON_BLOCK :: u8 where "STN_ISSUANCE_REASON_BLOCK = 2"
definition STN_ISSUANCE_SHARE_UNITS :: u64 where "STN_ISSUANCE_SHARE_UNITS = 100"
definition STN_ISSUANCE_BLOCK_UNITS :: u64 where "STN_ISSUANCE_BLOCK_UNITS = 10000"
definition STN_ISSUANCE_CANONICAL_SIZE :: nat where [simp]: "STN_ISSUANCE_CANONICAL_SIZE = 106"

definition valid_amount :: "u8 \<Rightarrow> u64 \<Rightarrow> bool" where
  "valid_amount reason units \<longleftrightarrow>
     (reason = STN_ISSUANCE_REASON_SHARE \<and> units = STN_ISSUANCE_SHARE_UNITS) \<or>
     (reason = STN_ISSUANCE_REASON_BLOCK \<and> units = STN_ISSUANCE_BLOCK_UNITS)"

fun stn_issuance_encode :: "stn_issuance_record option \<Rightarrow> bytes data_result" where
  "stn_issuance_encode None = Inl STN_DATA_ARGUMENT"
| "stn_issuance_encode (Some r) =
     (if addr_type (dest_identity (iss_destination r)) \<noteq> STN_ADDRESS_IDENTITY \<or>
         addr_type (dest_wallet (iss_destination r)) \<noteq> STN_ADDRESS_WALLET then Inl STN_DATA_TYPE
      else if \<not> valid_amount (iss_reason r) (iss_units r) then Inl STN_DATA_CONTENT
      else Inr (STN_ISSUANCE_VERSION # iss_reason r # stn_wire_write 8 (iss_units r) @
                iss_evidence_id r @ addr_id (dest_identity (iss_destination r)) @
                addr_id (dest_wallet (iss_destination r))))"

fun stn_issuance_decode :: "bytes option \<Rightarrow> stn_issuance_record data_result" where
  "stn_issuance_decode None = Inl STN_DATA_ARGUMENT"
| "stn_issuance_decode (Some canonical) =
     (if length canonical \<noteq> STN_ISSUANCE_CANONICAL_SIZE then Inl STN_DATA_LENGTH
      else if canonical ! 0 \<noteq> STN_ISSUANCE_VERSION then Inl STN_DATA_VERSION
      else
        (let reason = canonical ! 1; units = stn_wire_read (drop 2 canonical) 8
         in if \<not> valid_amount reason units then Inl STN_DATA_CONTENT
            else Inr
              \<lparr>iss_reason = reason, iss_units = units,
               iss_evidence_id = take 32 (drop 10 canonical),
               iss_destination =
                 \<lparr>dest_identity =
                    \<lparr>addr_type = STN_ADDRESS_IDENTITY, addr_id = take 32 (drop 42 canonical)\<rparr>,
                  dest_wallet =
                    \<lparr>addr_type = STN_ADDRESS_WALLET, addr_id = take 32 (drop 74 canonical)\<rparr>\<rparr>\<rparr>))"

lemma issuance_encode_iff:
  "stn_issuance_encode (Some r) = Inr bs \<longleftrightarrow>
     dest_typed (iss_destination r) \<and> valid_amount (iss_reason r) (iss_units r) \<and>
     bs = STN_ISSUANCE_VERSION # iss_reason r # stn_wire_write 8 (iss_units r) @
       iss_evidence_id r @ addr_id (dest_identity (iss_destination r)) @
       addr_id (dest_wallet (iss_destination r))"
  by (auto simp: dest_typed_def)

lemma issuance_decode_iff:
  "stn_issuance_decode (Some bs) = Inr r \<longleftrightarrow>
     length bs = 106 \<and> bs ! 0 = STN_ISSUANCE_VERSION \<and> iss_reason r = bs ! 1 \<and>
     iss_units r = stn_wire_read (drop 2 bs) 8 \<and> valid_amount (iss_reason r) (iss_units r) \<and>
     iss_evidence_id r = take 32 (drop 10 bs) \<and>
     dest_identity (iss_destination r) =
       \<lparr>addr_type = STN_ADDRESS_IDENTITY, addr_id = take 32 (drop 42 bs)\<rparr> \<and>
     dest_wallet (iss_destination r) =
       \<lparr>addr_type = STN_ADDRESS_WALLET, addr_id = take 32 (drop 74 bs)\<rparr>"
  by (cases r; cases "iss_destination r") (auto simp: Let_def)

declare stn_issuance_encode.simps(2) [simp del] stn_issuance_decode.simps(2) [simp del]

interpretation issuance_codec: codec
  "\<lambda>r. stn_issuance_encode (Some r)" "\<lambda>bs. stn_issuance_decode (Some bs)" wf_issuance
proof
  fix r bs
  assume "wf_issuance r" "stn_issuance_encode (Some r) = Inr bs"
  then show "stn_issuance_decode (Some bs) = Inr r"
    unfolding issuance_encode_iff issuance_decode_iff
    by (cases "iss_destination r")
       (auto simp: wf_issuance_def wf_destination_def wf_address_def dest_typed_def
         intro!: stn_address.equality)
next
  fix r bs
  assume "stn_issuance_decode (Some bs) = Inr r"
  then have r: "length bs = 106" "bs ! 0 = STN_ISSUANCE_VERSION" "iss_reason r = bs ! 1"
      "iss_units r = stn_wire_read (drop 2 bs) 8" "valid_amount (iss_reason r) (iss_units r)"
      "iss_evidence_id r = take 32 (drop 10 bs)"
      "dest_identity (iss_destination r) =
         \<lparr>addr_type = STN_ADDRESS_IDENTITY, addr_id = take 32 (drop 42 bs)\<rparr>"
      "dest_wallet (iss_destination r) =
         \<lparr>addr_type = STN_ADDRESS_WALLET, addr_id = take 32 (drop 74 bs)\<rparr>"
    unfolding issuance_decode_iff by blast+
  have "STN_ISSUANCE_VERSION # [bs ! 1] @ take 8 (drop 2 bs) @ take 32 (drop 10 bs) @
      take 32 (drop 42 bs) @ take 32 (drop 74 bs) = bs"
    using r(1,2) by (intro version_join) (simp_all add: nth_slice slices)
  then show "stn_issuance_encode (Some r) = Inr bs"
    unfolding issuance_encode_iff using r(5) by (simp add: r(1,3,4,6-8) dest_typed_def)
next
  fix r bs
  assume "stn_issuance_decode (Some bs) = Inr r"
  then show "wf_issuance r"
    unfolding issuance_decode_iff
    by (auto simp: wf_issuance_def wf_destination_def wf_address_def)
qed

text \<open>
  The issuance format is canonical, and only the two protocol amounts exist: the decoder accepts
  bytes exactly when they encode the record it returns, whose reason and units are SHARE with 100 or
  BLOCK with 10000 and whose destination pairs an identity with a wallet.
\<close>

theorem issuance_canonical:
  "stn_issuance_decode (Some bs) = Inr r \<longleftrightarrow>
     wf_issuance r \<and> dest_typed (iss_destination r) \<and>
     ((iss_reason r = 1 \<and> iss_units r = 100) \<or> (iss_reason r = 2 \<and> iss_units r = 10000)) \<and>
     stn_issuance_encode (Some r) = Inr bs"
  using issuance_codec.dec_iff [of bs r] issuance_encode_iff [of r bs]
  by (auto simp: valid_amount_def STN_ISSUANCE_REASON_SHARE_def STN_ISSUANCE_REASON_BLOCK_def
      STN_ISSUANCE_SHARE_UNITS_def STN_ISSUANCE_BLOCK_UNITS_def)

end
