(* ===== verification/Stn_Transfer.thy ===== *)
theory Stn_Transfer
  imports Stn_Replay Stn_Address
begin

text \<open>
  Wallet transfers: the canonical transfer (\<^verbatim>\<open>src/src/stn_transfer.c\<close>) and its replay registry
  (\<^verbatim>\<open>stn_transfer_replay.c\<close>), the signed envelope (\<^verbatim>\<open>stn_transfer_envelope.c\<close>) and its registry
  (\<^verbatim>\<open>stn_transfer_envelope_replay.c\<close>), and the statements the controllers sign
  (\<^verbatim>\<open>stn_transfer_authorization.c\<close>, \<^verbatim>\<open>stn_transfer_envelope_authorization.c\<close>).
\<close>

section \<open>The transfer\<close>

record stn_transfer =
  tr_source :: stn_address
  tr_destination :: stn_address
  tr_units :: u64

definition wf_transfer :: "stn_transfer \<Rightarrow> bool" where
  "wf_transfer t \<longleftrightarrow> wf_address (tr_source t) \<and> wf_address (tr_destination t)"

definition STN_TRANSFER_VERSION :: u8 where "STN_TRANSFER_VERSION = 1"
definition STN_TRANSFER_CANONICAL_SIZE :: nat where [simp]: "STN_TRANSFER_CANONICAL_SIZE = 73"

fun transfer_valid :: "stn_transfer option \<Rightarrow> stn_data_status" where
  "transfer_valid None = STN_DATA_ARGUMENT"
| "transfer_valid (Some t) =
     (if addr_type (tr_source t) \<noteq> STN_ADDRESS_WALLET \<or>
         addr_type (tr_destination t) \<noteq> STN_ADDRESS_WALLET then STN_DATA_TYPE
      else if tr_units t = 0 then STN_DATA_CONTENT
      else if memcmp (addr_id (tr_source t)) (addr_id (tr_destination t)) = 0
      then STN_DATA_CONTENT
      else STN_DATA_OK)"

fun stn_transfer_encode :: "stn_transfer option \<Rightarrow> bytes data_result" where
  "stn_transfer_encode None = Inl STN_DATA_ARGUMENT"
| "stn_transfer_encode (Some t) =
     (let status = transfer_valid (Some t)
      in if status \<noteq> STN_DATA_OK then Inl status
         else Inr (STN_TRANSFER_VERSION # addr_id (tr_source t) @ addr_id (tr_destination t) @
                   stn_wire_write 8 (tr_units t)))"

fun stn_transfer_decode :: "bytes option \<Rightarrow> stn_transfer data_result" where
  "stn_transfer_decode None = Inl STN_DATA_ARGUMENT"
| "stn_transfer_decode (Some canonical) =
     (if length canonical \<noteq> STN_TRANSFER_CANONICAL_SIZE then Inl STN_DATA_LENGTH
      else if canonical ! 0 \<noteq> STN_TRANSFER_VERSION then Inl STN_DATA_CONTENT
      else
        (let result =
           \<lparr>tr_source = \<lparr>addr_type = STN_ADDRESS_WALLET, addr_id = take 32 (drop 1 canonical)\<rparr>,
            tr_destination = \<lparr>addr_type = STN_ADDRESS_WALLET, addr_id = take 32 (drop 33 canonical)\<rparr>,
            tr_units = stn_wire_read (drop 65 canonical) 8\<rparr>;
             status = transfer_valid (Some result)
         in if status \<noteq> STN_DATA_OK then Inl status else Inr result))"

lemma transfer_valid_iff:
  "transfer_valid (Some t) = STN_DATA_OK \<longleftrightarrow>
     addr_type (tr_source t) = STN_ADDRESS_WALLET \<and>
     addr_type (tr_destination t) = STN_ADDRESS_WALLET \<and> tr_units t \<noteq> 0 \<and>
     addr_id (tr_source t) \<noteq> addr_id (tr_destination t)"
  by auto

declare transfer_valid.simps(2) [simp del]

lemma transfer_encode_iff:
  "stn_transfer_encode (Some t) = Inr bs \<longleftrightarrow>
     transfer_valid (Some t) = STN_DATA_OK \<and>
     bs = STN_TRANSFER_VERSION # addr_id (tr_source t) @ addr_id (tr_destination t) @
          stn_wire_write 8 (tr_units t)"
  by (auto simp: Let_def)

lemma transfer_decode_iff:
  "stn_transfer_decode (Some bs) = Inr t \<longleftrightarrow>
     length bs = 73 \<and> bs ! 0 = STN_TRANSFER_VERSION \<and> transfer_valid (Some t) = STN_DATA_OK \<and>
     t = \<lparr>tr_source = \<lparr>addr_type = STN_ADDRESS_WALLET, addr_id = take 32 (drop 1 bs)\<rparr>,
          tr_destination = \<lparr>addr_type = STN_ADDRESS_WALLET, addr_id = take 32 (drop 33 bs)\<rparr>,
          tr_units = stn_wire_read (drop 65 bs) 8\<rparr>"
  by (auto simp: Let_def)

declare stn_transfer_encode.simps(2) [simp del] stn_transfer_decode.simps(2) [simp del]

lemma transfer_layout_decode:
  assumes "stn_transfer_decode (Some bs) = Inr t"
  shows "STN_TRANSFER_VERSION # addr_id (tr_source t) @ addr_id (tr_destination t) @
      stn_wire_write 8 (tr_units t) = bs"
  using assms unfolding transfer_decode_iff
  by (intro version_join) (auto simp: slices)

interpretation transfer_codec: codec
  "\<lambda>t. stn_transfer_encode (Some t)" "\<lambda>bs. stn_transfer_decode (Some bs)" wf_transfer
proof
  fix t bs
  assume "wf_transfer t" "stn_transfer_encode (Some t) = Inr bs"
  then show "stn_transfer_decode (Some bs) = Inr t"
    unfolding transfer_encode_iff transfer_decode_iff
    by (cases t) (auto simp: transfer_valid_iff wf_transfer_def wf_address_def intro!: stn_address.equality)
next
  fix t bs
  assume *: "stn_transfer_decode (Some bs) = Inr t"
  then show "stn_transfer_encode (Some t) = Inr bs"
    unfolding transfer_encode_iff transfer_layout_decode [OF *]
    unfolding transfer_decode_iff by blast
next
  fix t bs
  assume "stn_transfer_decode (Some bs) = Inr t"
  then show "wf_transfer t"
    unfolding transfer_decode_iff by (auto simp: wf_transfer_def wf_address_def)
qed

section \<open>The replay registry of transfers\<close>

datatype stn_transfer_replay_result =
    STN_TRANSFER_REPLAY_FRESH | STN_TRANSFER_REPLAY_DUPLICATE
  | STN_TRANSFER_REPLAY_CAPACITY | STN_TRANSFER_REPLAY_ARGUMENT

text \<open>The key is the canonical transfer; \<open>Inl\<close> carries a result other than FRESH.\<close>

fun stn_transfer_replay_key :: "stn_transfer option \<Rightarrow> stn_transfer_replay_result + bytes" where
  "stn_transfer_replay_key None = Inl STN_TRANSFER_REPLAY_ARGUMENT"
| "stn_transfer_replay_key (Some t) =
     (case stn_transfer_encode (Some t) of
        Inl _ \<Rightarrow> Inl STN_TRANSFER_REPLAY_ARGUMENT
      | Inr key \<Rightarrow> Inr key)"

definition stn_transfer_replay_initialize :: "bytes list option \<Rightarrow> nat \<Rightarrow> key_buffer" where
  "stn_transfer_replay_initialize buf capacity = key_buffer_initialize buf capacity"

definition stn_transfer_replay_check ::
  "key_buffer \<Rightarrow> stn_transfer option \<Rightarrow> stn_transfer_replay_result" where
  "stn_transfer_replay_check state t =
     (if \<not> buffer_valid state then STN_TRANSFER_REPLAY_ARGUMENT
      else
        (case stn_transfer_replay_key t of
           Inl _ \<Rightarrow> STN_TRANSFER_REPLAY_ARGUMENT
         | Inr key \<Rightarrow>
             if scan_key state key then STN_TRANSFER_REPLAY_DUPLICATE
             else STN_TRANSFER_REPLAY_FRESH))"

definition stn_transfer_replay_consume ::
  "key_buffer \<Rightarrow> stn_transfer option \<Rightarrow> stn_transfer_replay_result \<times> key_buffer" where
  "stn_transfer_replay_consume state t =
     (if \<not> buffer_valid state then (STN_TRANSFER_REPLAY_ARGUMENT, state)
      else
        (case stn_transfer_replay_key t of
           Inl _ \<Rightarrow> (STN_TRANSFER_REPLAY_ARGUMENT, state)
         | Inr key \<Rightarrow>
             (let result = stn_transfer_replay_check state t
              in if result \<noteq> STN_TRANSFER_REPLAY_FRESH then (result, state)
                 else if consumed_count state = consumed_capacity state
                 then (STN_TRANSFER_REPLAY_CAPACITY, state)
                 else (STN_TRANSFER_REPLAY_FRESH, store_key state key))))"

interpretation transfer_replay: key_registry
  stn_transfer_replay_check stn_transfer_replay_consume
  "\<lambda>t. sum_right (stn_transfer_replay_key t)"
  STN_TRANSFER_REPLAY_FRESH STN_TRANSFER_REPLAY_DUPLICATE STN_TRANSFER_REPLAY_CAPACITY
  by unfold_locales
     (auto simp: stn_transfer_replay_check_def stn_transfer_replay_consume_def buffer_wf_valid
       simp del: stn_transfer_replay_key.simps)

end
