(* ===== verification/Stn_Economic.thy ===== *)
theory Stn_Economic
  imports Stn_Issuance Stn_Transfer
begin

text \<open>
  The economic state (\<^verbatim>\<open>src/src/stn_economic_state.c\<close>): balances sorted by wallet identifier and the
  total supply. The balance array is the list of its first \<open>balance_count\<close> slots, \<open>None\<close> when the
  pointer is NULL.
\<close>

section \<open>State and operations\<close>

record stn_economic_balance =
  bal_wallet_id :: bytes
  bal_units :: u64

record stn_economic_state =
  balances :: "stn_economic_balance list option"
  balance_count :: nat
  balance_capacity :: nat
  total_supply :: u64

definition econ_live :: "stn_economic_state \<Rightarrow> stn_economic_balance list" where
  "econ_live s = (case balances s of None \<Rightarrow> [] | Some xs \<Rightarrow> xs)"

definition econ_bad :: "stn_economic_state \<Rightarrow> bool" where
  "econ_bad s \<longleftrightarrow>
     balance_count s > balance_capacity s \<or> (balance_capacity s \<noteq> 0 \<and> balances s = None)"

definition UINT64_MAX :: u64 where "UINT64_MAX = 0xFFFFFFFFFFFFFFFF"

definition stn_economic_state_initialize :: "bool \<Rightarrow> nat \<Rightarrow> stn_economic_state data_result" where
  "stn_economic_state_initialize storage_null capacity =
     (if capacity \<noteq> 0 \<and> storage_null then Inl STN_DATA_ARGUMENT
      else Inr \<lparr>balances = (if storage_null then None else Some []), balance_count = 0,
                balance_capacity = capacity, total_supply = 0\<rparr>)"

fun record_valid :: "stn_issuance_record option \<Rightarrow> stn_data_status" where
  "record_valid None = STN_DATA_ARGUMENT"
| "record_valid (Some r) =
     (if addr_type (dest_identity (iss_destination r)) \<noteq> STN_ADDRESS_IDENTITY \<or>
         addr_type (dest_wallet (iss_destination r)) \<noteq> STN_ADDRESS_WALLET then STN_DATA_TYPE
      else if (iss_reason r = STN_ISSUANCE_REASON_SHARE \<and> iss_units r = STN_ISSUANCE_SHARE_UNITS) \<or>
              (iss_reason r = STN_ISSUANCE_REASON_BLOCK \<and> iss_units r = STN_ISSUANCE_BLOCK_UNITS)
      then STN_DATA_OK
      else STN_DATA_CONTENT)"

text \<open>\<^verbatim>\<open>balances[at].units += u\<close> and \<^verbatim>\<open>-= u\<close>.\<close>

definition credit :: "nat \<Rightarrow> u64 \<Rightarrow> stn_economic_balance list \<Rightarrow> stn_economic_balance list" where
  "credit at u xs = xs[at := (xs ! at)\<lparr>bal_units := bal_units (xs ! at) + u\<rparr>]"

definition debit :: "nat \<Rightarrow> u64 \<Rightarrow> stn_economic_balance list \<Rightarrow> stn_economic_balance list" where
  "debit at u xs = xs[at := (xs ! at)\<lparr>bal_units := bal_units (xs ! at) - u\<rparr>]"

definition stn_economic_state_apply ::
  "stn_economic_state \<Rightarrow> stn_issuance_record option \<Rightarrow> stn_data_status \<times> stn_economic_state" where
  "stn_economic_state_apply s r =
     (let status = record_valid r
      in if status \<noteq> STN_DATA_OK then (status, s)
         else if econ_bad s then (STN_DATA_ARGUMENT, s)
         else
           (let units = iss_units (the r);
                wallet = addr_id (dest_wallet (iss_destination (the r)));
                xs = econ_live s;
                at = find_at bal_wallet_id wallet xs
            in if UINT64_MAX - total_supply s < units then (STN_DATA_OVERFLOW, s)
               else if at < balance_count s \<and> memcmp (bal_wallet_id (xs ! at)) wallet = 0
               then
                 (if UINT64_MAX - bal_units (xs ! at) < units then (STN_DATA_OVERFLOW, s)
                  else (STN_DATA_OK,
                        s\<lparr>balances := map_option (credit at units) (balances s),
                          total_supply := total_supply s + units\<rparr>))
               else if balance_count s = balance_capacity s then (STN_DATA_CAPACITY, s)
               else (STN_DATA_OK,
                     s\<lparr>balances :=
                         map_option (insert_at at \<lparr>bal_wallet_id = wallet, bal_units = units\<rparr>)
                           (balances s),
                       balance_count := balance_count s + 1,
                       total_supply := total_supply s + units\<rparr>)))"

text \<open>The full scan of a transfer: the last slot that carries the identifier.\<close>

fun scan_last :: "bytes \<Rightarrow> nat \<Rightarrow> nat option \<Rightarrow> stn_economic_balance list \<Rightarrow> nat option" where
  "scan_last k i found [] = found"
| "scan_last k i found (x # xs) =
     scan_last k (Suc i) (if memcmp (bal_wallet_id x) k = 0 then Some i else found) xs"

fun stn_economic_state_apply_transfer ::
  "stn_economic_state \<Rightarrow> stn_transfer option \<Rightarrow> stn_data_status \<times> stn_economic_state" where
  "stn_economic_state_apply_transfer s None = (STN_DATA_ARGUMENT, s)"
| "stn_economic_state_apply_transfer s (Some t) =
     (if addr_type (tr_source t) \<noteq> STN_ADDRESS_WALLET \<or>
         addr_type (tr_destination t) \<noteq> STN_ADDRESS_WALLET then (STN_DATA_TYPE, s)
      else if tr_units t = 0 \<or> memcmp (addr_id (tr_source t)) (addr_id (tr_destination t)) = 0
      then (STN_DATA_CONTENT, s)
      else if econ_bad s then (STN_DATA_ARGUMENT, s)
      else
        (let xs = econ_live s
         in case scan_last (addr_id (tr_source t)) 0 None xs of
              None \<Rightarrow> (STN_DATA_CONTENT, s)
            | Some source_at \<Rightarrow>
                if bal_units (xs ! source_at) < tr_units t then (STN_DATA_CONTENT, s)
                else
                  (case scan_last (addr_id (tr_destination t)) 0 None xs of
                     Some destination_at \<Rightarrow>
                       if UINT64_MAX - bal_units (xs ! destination_at) < tr_units t
                       then (STN_DATA_OVERFLOW, s)
                       else (STN_DATA_OK,
                             s\<lparr>balances :=
                                 map_option
                                   (credit destination_at (tr_units t) \<circ> debit source_at (tr_units t))
                                   (balances s)\<rparr>)
                   | None \<Rightarrow>
                       if balance_count s = balance_capacity s then (STN_DATA_CAPACITY, s)
                       else
                         (let destination_at =
                                find_at bal_wallet_id (addr_id (tr_destination t)) xs
                          in (STN_DATA_OK,
                              s\<lparr>balances :=
                                  map_option
                                    (insert_at destination_at
                                       \<lparr>bal_wallet_id = addr_id (tr_destination t),
                                        bal_units = tr_units t\<rparr> \<circ> debit source_at (tr_units t))
                                    (balances s),
                                balance_count := balance_count s + 1\<rparr>)))))"

fun stn_economic_state_balance ::
  "stn_economic_state \<Rightarrow> stn_address option \<Rightarrow> u64 data_result" where
  "stn_economic_state_balance s None = Inl STN_DATA_ARGUMENT"
| "stn_economic_state_balance s (Some w) =
     (if addr_type w \<noteq> STN_ADDRESS_WALLET then Inl STN_DATA_TYPE
      else if econ_bad s then Inl STN_DATA_ARGUMENT
      else
        (case scan_sorted bal_wallet_id (addr_id w) (econ_live s) of
           Some b \<Rightarrow> Inr (bal_units b)
         | None \<Rightarrow> Inr 0))"

section \<open>Invariant and abstraction\<close>

text \<open>The sum of the balances as an unbounded number.\<close>

definition units_sum :: "stn_economic_balance list \<Rightarrow> nat" where
  "units_sum xs = sum_list (map (\<lambda>b. unat (bal_units b)) xs)"

definition econ_wf :: "stn_economic_state \<Rightarrow> bool" where
  "econ_wf s \<longleftrightarrow> \<not> econ_bad s \<and> length (econ_live s) = balance_count s \<and>
     sorted_by bal_wallet_id (econ_live s) \<and> units_sum (econ_live s) = unat (total_supply s)"

text \<open>The abstract state: what every wallet holds, as a number.\<close>

definition funds :: "stn_economic_balance list \<Rightarrow> bytes \<Rightarrow> nat" where
  "funds xs k = (case table bal_wallet_id xs k of None \<Rightarrow> 0 | Some b \<Rightarrow> unat (bal_units b))"

definition balance_of :: "stn_economic_state \<Rightarrow> bytes \<Rightarrow> nat" where
  "balance_of s k = funds (econ_live s) k"

definition has_entry :: "stn_economic_state \<Rightarrow> bytes \<Rightarrow> bool" where
  "has_entry s k \<longleftrightarrow> table bal_wallet_id (econ_live s) k \<noteq> None"

lemma supply_simps [simp]:
  "units_sum [] = 0" "units_sum (x # xs) = unat (bal_units x) + units_sum xs"
  "units_sum (xs @ ys) = units_sum xs + units_sum ys"
  by (simp_all add: units_sum_def)

lemma funds_simps [simp]:
  "funds [] k = 0"
  "funds (x # xs) k = (if bal_wallet_id x = k then unat (bal_units x) else funds xs k)"
  by (simp_all add: funds_def)

lemma supply_insert_at [simp]: "units_sum (insert_at n x xs) = unat (bal_units x) + units_sum xs"
proof -
  have "units_sum xs = units_sum (take n xs) + units_sum (drop n xs)"
    by (metis append_take_drop_id supply_simps(3))
  then show ?thesis by (simp add: insert_at_def)
qed

lemma funds_le_sum: "funds xs k \<le> units_sum xs"
  by (induction xs) auto

lemma nth_le_sum: "i < length xs \<Longrightarrow> unat (bal_units (xs ! i)) \<le> units_sum xs"
  unfolding units_sum_def by (rule member_le_sum_list) auto


section \<open>Lemmas on slots\<close>

lemma scan_last_None:
  "scan_last k n found xs = None \<longleftrightarrow> found = None \<and> k \<notin> bal_wallet_id ` set xs"
  by (induction xs arbitrary: n found) auto

lemma scan_last_Some:
  "scan_last k n found xs = Some i \<Longrightarrow>
   found = Some i \<or> (n \<le> i \<and> i - n < length xs \<and> bal_wallet_id (xs ! (i - n)) = k)"
proof (induction xs arbitrary: n found)
  case (Cons x xs)
  from Cons.IH [of "Suc n" "if memcmp (bal_wallet_id x) k = 0 then Some n else found"] Cons.prems
  consider "(if bal_wallet_id x = k then Some n else found) = Some i"
    | "Suc n \<le> i" "i - Suc n < length xs" "bal_wallet_id (xs ! (i - Suc n)) = k"
    by auto
  then show ?case
  proof cases
    case 1
    then show ?thesis by (auto split: if_splits)
  next
    case 2
    then obtain m where "i = Suc n + m" "m < length xs" by (metis add_diff_inverse_nat not_less)
    with 2 show ?thesis by auto
  qed
qed simp

lemma scan_last_at:
  assumes "scan_last k 0 None xs = Some i"
  shows "i < length xs" "bal_wallet_id (xs ! i) = k"
  using scan_last_Some [OF assms] by simp_all

lemma slot_key [simp]:
  "bal_wallet_id ((xs ! i)\<lparr>bal_units := u\<rparr>) = bal_wallet_id (xs ! i)"
  by simp

lemma length_slot [simp]: "length (credit i u xs) = length xs" "length (debit i u xs) = length xs"
  by (simp_all add: credit_def debit_def)

lemma sorted_slot [simp]:
  "sorted_by bal_wallet_id (credit i u xs) = sorted_by bal_wallet_id xs"
  "sorted_by bal_wallet_id (debit i u xs) = sorted_by bal_wallet_id xs"
  by (simp_all add: credit_def debit_def sorted_by_update)

lemma find_at_debit [simp]:
  "find_at bal_wallet_id k (debit i u xs) = find_at bal_wallet_id k xs"
proof (induction xs arbitrary: i)
  case Nil
  then show ?case by (simp add: debit_def)
next
  case (Cons x xs)
  then show ?case by (cases i) (auto simp: debit_def)
qed

lemma units_sum_update:
  "i < length xs \<Longrightarrow> units_sum (xs[i := y]) + unat (bal_units (xs ! i)) = units_sum xs + unat (bal_units y)"
proof (induction xs arbitrary: i)
  case (Cons x xs)
  then show ?case by (cases i) auto
qed simp

lemma unat_no_overflow:
  fixes a b :: u64
  assumes "\<not> UINT64_MAX - a < b"
  shows "unat (a + b) = unat a + unat b"
proof -
  have max: "UINT64_MAX = - 1" by (simp add: UINT64_MAX_def)
  have "a \<le> UINT64_MAX" unfolding max by (rule word_n1_ge)
  then have "unat (UINT64_MAX - a) = unat UINT64_MAX - unat a" by (rule unat_sub)
  then have "unat b \<le> unat UINT64_MAX - unat a"
    using assms by (simp add: not_less word_le_nat_alt)
  moreover have "unat a \<le> unat UINT64_MAX" using \<open>a \<le> UINT64_MAX\<close> by (simp add: word_le_nat_alt)
  ultimately have "unat a + unat b < 2 ^ LENGTH(64)" by (simp add: UINT64_MAX_def)
  then show ?thesis by (rule unat_add_lem [THEN iffD1])
qed

lemma no_overflow_iff:
  fixes a b :: u64
  shows "UINT64_MAX - a < b \<longleftrightarrow> 2 ^ 64 \<le> unat a + unat b"
proof
  assume "UINT64_MAX - a < b"
  have max: "UINT64_MAX = - 1" by (simp add: UINT64_MAX_def)
  have "a \<le> UINT64_MAX" unfolding max by (rule word_n1_ge)
  then have "unat (UINT64_MAX - a) = unat UINT64_MAX - unat a" by (rule unat_sub)
  with \<open>UINT64_MAX - a < b\<close> have "unat UINT64_MAX - unat a < unat b" by (simp add: word_less_nat_alt)
  then show "2 ^ 64 \<le> unat a + unat b" by (simp add: UINT64_MAX_def)
next
  assume *: "2 ^ 64 \<le> unat a + unat b"
  show "UINT64_MAX - a < b"
  proof (rule ccontr)
    assume "\<not> UINT64_MAX - a < b"
    from unat_no_overflow [OF this] have "unat a + unat b < 2 ^ 64"
      using unsigned_less [of "a + b", where ?'a = nat] by simp
    with * show False by simp
  qed
qed

lemma units_sum_credit:
  assumes "i < length xs" "\<not> UINT64_MAX - bal_units (xs ! i) < u"
  shows "units_sum (credit i u xs) = units_sum xs + unat u"
  using units_sum_update [OF assms(1), of "(xs ! i)\<lparr>bal_units := bal_units (xs ! i) + u\<rparr>"]
    unat_no_overflow [OF assms(2)]
  by (simp add: credit_def)

lemma units_sum_debit:
  assumes "i < length xs" "\<not> bal_units (xs ! i) < u"
  shows "units_sum (debit i u xs) + unat u = units_sum xs"
proof -
  have "unat (bal_units (xs ! i) - u) = unat (bal_units (xs ! i)) - unat u" "unat u \<le> unat (bal_units (xs ! i))"
    using assms(2) by (simp_all add: unat_sub not_less word_le_nat_alt)
  then show ?thesis
    using units_sum_update [OF assms(1), of "(xs ! i)\<lparr>bal_units := bal_units (xs ! i) - u\<rparr>"]
    by (simp add: debit_def)
qed

lemma funds_credit:
  assumes "sorted_by bal_wallet_id xs" "i < length xs" "\<not> UINT64_MAX - bal_units (xs ! i) < u"
  shows "funds (credit i u xs) =
    (funds xs)(bal_wallet_id (xs ! i) := funds xs (bal_wallet_id (xs ! i)) + unat u)"
  using unat_no_overflow [OF assms(3)]
  by (auto simp: fun_eq_iff funds_def credit_def table_update [OF assms(1,2)] table_nth [OF assms(1,2)])

lemma funds_debit:
  assumes "sorted_by bal_wallet_id xs" "i < length xs" "\<not> bal_units (xs ! i) < u"
  shows "funds (debit i u xs) =
    (funds xs)(bal_wallet_id (xs ! i) := funds xs (bal_wallet_id (xs ! i)) - unat u)"
  using assms(3)
  by (auto simp: fun_eq_iff funds_def debit_def table_update [OF assms(1,2)] table_nth [OF assms(1,2)]
      unat_sub not_less)

lemma funds_insert:
  assumes "sorted_by bal_wallet_id xs" "table bal_wallet_id xs k = None"
  shows "funds (insert_at (find_at bal_wallet_id k xs) \<lparr>bal_wallet_id = k, bal_units = u\<rparr> xs) =
    (funds xs)(k := unat u)"
  using table_insert_at [of bal_wallet_id xs "\<lparr>bal_wallet_id = k, bal_units = u\<rparr>"] assms
  by (auto simp: fun_eq_iff funds_def)


section \<open>Issuance\<close>

abbreviation iss_wallet :: "stn_issuance_record \<Rightarrow> bytes" where
  "iss_wallet r \<equiv> addr_id (dest_wallet (iss_destination r))"

declare record_valid.simps(2) [simp del]

lemma econ_initialize_wf:
  "stn_economic_state_initialize n c = Inr s \<Longrightarrow>
     econ_wf s \<and> total_supply s = 0 \<and> balance_of s = (\<lambda>_. 0)"
  by (auto simp: stn_economic_state_initialize_def econ_wf_def econ_bad_def econ_live_def
      balance_of_def fun_eq_iff split: if_splits)

lemma econ_wf_storage:
  assumes "econ_wf s" "balance_count s \<noteq> balance_capacity s \<or> econ_live s \<noteq> []"
  shows "balances s = Some (econ_live s)"
  using assms by (auto simp: econ_wf_def econ_bad_def econ_live_def split: option.splits)

text \<open>
  Under the invariant every branch of an application is decided by the abstract state. The credit
  of an existing entry cannot overflow once the total supply does not.
\<close>

lemma econ_apply_cases:
  assumes "econ_wf s"
  shows "stn_economic_state_apply s (Some r) =
    (if record_valid (Some r) \<noteq> STN_DATA_OK then (record_valid (Some r), s)
     else if 2 ^ 64 \<le> unat (total_supply s) + unat (iss_units r) then (STN_DATA_OVERFLOW, s)
     else if has_entry s (iss_wallet r)
     then (STN_DATA_OK,
       s\<lparr>balances := Some (credit (find_at bal_wallet_id (iss_wallet r) (econ_live s)) (iss_units r)
           (econ_live s)),
         total_supply := total_supply s + iss_units r\<rparr>)
     else if balance_count s = balance_capacity s then (STN_DATA_CAPACITY, s)
     else (STN_DATA_OK,
       s\<lparr>balances := Some (insert_at (find_at bal_wallet_id (iss_wallet r) (econ_live s))
           \<lparr>bal_wallet_id = iss_wallet r, bal_units = iss_units r\<rparr> (econ_live s)),
         balance_count := balance_count s + 1,
         total_supply := total_supply s + iss_units r\<rparr>))"
proof -
  let ?at = "find_at bal_wallet_id (iss_wallet r) (econ_live s)"
  have s: "\<not> econ_bad s" "length (econ_live s) = balance_count s"
      "sorted_by bal_wallet_id (econ_live s)" "units_sum (econ_live s) = unat (total_supply s)"
    using assms by (simp_all add: econ_wf_def)
  have entry: "has_entry s (iss_wallet r) \<longleftrightarrow>
      ?at < balance_count s \<and> bal_wallet_id (econ_live s ! ?at) = iss_wallet r"
    using find_at_table [OF s(3), of "iss_wallet r"] s(2) by (simp add: has_entry_def)
  have over: "\<not> UINT64_MAX - bal_units (econ_live s ! ?at) < iss_units r"
    if "?at < balance_count s" "unat (total_supply s) + unat (iss_units r) < 2 ^ 64"
    using nth_le_sum [of ?at "econ_live s"] that s(2,4) by (simp add: no_overflow_iff)
  show ?thesis
  proof (cases "has_entry s (iss_wallet r) \<or> balance_count s \<noteq> balance_capacity s")
    case True
    then have "balances s = Some (econ_live s)"
      using econ_wf_storage [OF assms] by (cases "econ_live s = []") (auto simp: has_entry_def)
    then show ?thesis
      using over
      by (auto simp: stn_economic_state_apply_def s(1) Let_def entry no_overflow_iff not_le)
  next
    case False
    then show ?thesis
      by (auto simp: stn_economic_state_apply_def s(1) Let_def entry no_overflow_iff not_le)
  qed
qed

lemma econ_apply_ok:
  assumes "econ_wf s" "stn_economic_state_apply s (Some r) = (STN_DATA_OK, t)"
  shows "econ_wf t \<and>
    unat (total_supply t) = unat (total_supply s) + unat (iss_units r) \<and>
    balance_of t = (balance_of s)(iss_wallet r := balance_of s (iss_wallet r) + unat (iss_units r))"
proof -
  let ?at = "find_at bal_wallet_id (iss_wallet r) (econ_live s)"
  have s: "\<not> econ_bad s" "length (econ_live s) = balance_count s"
      "sorted_by bal_wallet_id (econ_live s)" "units_sum (econ_live s) = unat (total_supply s)"
    using assms by (simp_all add: econ_wf_def)
  have room: "unat (total_supply s) + unat (iss_units r) < 2 ^ 64"
    using assms(2) unfolding econ_apply_cases [OF assms(1)] by (auto split: if_splits)
  then have total: "unat (total_supply s + iss_units r) = unat (total_supply s) + unat (iss_units r)"
    by (intro unat_no_overflow) (simp add: no_overflow_iff)
  show ?thesis
  proof (cases "has_entry s (iss_wallet r)")
    case True
    then have at: "?at < length (econ_live s)" "bal_wallet_id (econ_live s ! ?at) = iss_wallet r"
      using find_at_table [OF s(3), of "iss_wallet r"] by (auto simp: has_entry_def split: if_splits)
    have nover: "\<not> UINT64_MAX - bal_units (econ_live s ! ?at) < iss_units r"
      using nth_le_sum [OF at(1)] room s(4) by (simp add: no_overflow_iff)
    have t: "t = s\<lparr>balances := Some (credit ?at (iss_units r) (econ_live s)),
        total_supply := total_supply s + iss_units r\<rparr>"
      using assms(2) True unfolding econ_apply_cases [OF assms(1)] by (auto split: if_splits)
    then have live: "econ_live t = credit ?at (iss_units r) (econ_live s)"
      by (simp add: econ_live_def)
    have "econ_wf t"
      using s units_sum_credit [OF at(1) nover] total
      by (auto simp: econ_wf_def live) (auto simp: t econ_bad_def)
    then show ?thesis
      using funds_credit [OF s(3) at(1) nover] at(2) total
      by (auto simp: balance_of_def live fun_eq_iff) (simp_all add: t total)
  next
    case False
    then have none: "table bal_wallet_id (econ_live s) (iss_wallet r) = None"
      by (simp add: has_entry_def)
    let ?e = "\<lparr>bal_wallet_id = iss_wallet r, bal_units = iss_units r\<rparr>"
    have t: "t = s\<lparr>balances := Some (insert_at ?at ?e (econ_live s)),
        balance_count := balance_count s + 1, total_supply := total_supply s + iss_units r\<rparr>"
        "balance_count s \<noteq> balance_capacity s"
      using assms(2) False unfolding econ_apply_cases [OF assms(1)] by (auto split: if_splits)
    then have live: "econ_live t = insert_at ?at ?e (econ_live s)"
      by (simp add: econ_live_def)
    have "econ_wf t"
      using s t(2) sorted_insert_at [OF s(3), of ?e] none total
      by (auto simp: econ_wf_def live) (auto simp: t(1) econ_bad_def)
    moreover have "balance_of s (iss_wallet r) = 0"
      using none by (simp add: balance_of_def funds_def)
    ultimately show ?thesis
      using funds_insert [OF s(3) none] total
      by (auto simp: balance_of_def live fun_eq_iff) (simp_all add: t(1) total)
  qed
qed

lemma econ_apply_fail:
  assumes "stn_economic_state_apply s r = (e, t)" "e \<noteq> STN_DATA_OK"
  shows "t = s"
  using assms by (auto simp: stn_economic_state_apply_def Let_def split: if_splits)

section \<open>Transfers\<close>

abbreviation tr_from :: "stn_transfer \<Rightarrow> bytes" where "tr_from t \<equiv> addr_id (tr_source t)"
abbreviation tr_to :: "stn_transfer \<Rightarrow> bytes" where "tr_to t \<equiv> addr_id (tr_destination t)"

text \<open>
  Under the invariant a transfer's outcome is decided by the balances: the credit of the destination
  cannot overflow, because both balances are parts of the total supply.
\<close>

lemma funds_two:
  assumes "sorted_by bal_wallet_id xs" "j \<noteq> k"
  shows "funds xs j + funds xs k \<le> units_sum xs"
  using assms(1)
proof (induction xs)
  case (Cons x xs)
  have "funds xs j \<le> units_sum xs" "funds xs k \<le> units_sum xs" by (rule funds_le_sum)+
  with Cons assms(2) show ?case by auto
qed simp

lemma funds_nth:
  "sorted_by bal_wallet_id xs \<Longrightarrow> i < length xs \<Longrightarrow>
   funds xs (bal_wallet_id (xs ! i)) = unat (bal_units (xs ! i))"
  by (simp add: funds_def table_nth)


lemma transfer_apply_cases:
  assumes "econ_wf s"
  shows "stn_economic_state_apply_transfer s (Some t) =
    (if addr_type (tr_source t) \<noteq> STN_ADDRESS_WALLET \<or>
        addr_type (tr_destination t) \<noteq> STN_ADDRESS_WALLET then (STN_DATA_TYPE, s)
     else if tr_units t = 0 \<or> tr_from t = tr_to t then (STN_DATA_CONTENT, s)
     else
       (case scan_last (tr_from t) 0 None (econ_live s) of
          None \<Rightarrow> (STN_DATA_CONTENT, s)
        | Some i \<Rightarrow>
            if balance_of s (tr_from t) < unat (tr_units t) then (STN_DATA_CONTENT, s)
            else
              (case scan_last (tr_to t) 0 None (econ_live s) of
                 Some j \<Rightarrow>
                   (STN_DATA_OK,
                    s\<lparr>balances := Some (credit j (tr_units t) (debit i (tr_units t) (econ_live s)))\<rparr>)
               | None \<Rightarrow>
                   if balance_count s = balance_capacity s then (STN_DATA_CAPACITY, s)
                   else (STN_DATA_OK,
                         s\<lparr>balances := Some (insert_at (find_at bal_wallet_id (tr_to t) (econ_live s))
                              \<lparr>bal_wallet_id = tr_to t, bal_units = tr_units t\<rparr>
                              (debit i (tr_units t) (econ_live s))),
                            balance_count := balance_count s + 1\<rparr>))))"
proof -
  have s: "\<not> econ_bad s" "length (econ_live s) = balance_count s"
      "sorted_by bal_wallet_id (econ_live s)" "units_sum (econ_live s) = unat (total_supply s)"
    using assms by (simp_all add: econ_wf_def)
  have source: "bal_units (econ_live s ! i) < tr_units t \<longleftrightarrow> balance_of s (tr_from t) < unat (tr_units t)"
    if "scan_last (tr_from t) 0 None (econ_live s) = Some i" for i
    using funds_nth [OF s(3) scan_last_at(1) [OF that]] scan_last_at(2) [OF that]
    by (simp add: balance_of_def word_less_nat_alt)
  have over: "\<not> UINT64_MAX - bal_units (econ_live s ! j) < tr_units t"
    if "scan_last (tr_to t) 0 None (econ_live s) = Some j" "tr_from t \<noteq> tr_to t"
      "\<not> balance_of s (tr_from t) < unat (tr_units t)" for j
  proof -
    have "funds (econ_live s) (tr_to t) = unat (bal_units (econ_live s ! j))"
      using funds_nth [OF s(3) scan_last_at(1) [OF that(1)]] scan_last_at(2) [OF that(1)] by simp
    moreover have "funds (econ_live s) (tr_from t) + funds (econ_live s) (tr_to t) < 2 ^ 64"
      using funds_two [OF s(3) that(2)] unsigned_less [of "total_supply s", where ?'a = nat]
      unfolding s(4) len_num1 by (simp del: unat_u64_small)
    ultimately show ?thesis
      using that(3) unfolding no_overflow_iff balance_of_def by linarith
  qed
  have opt: "balances s = Some (econ_live s)"
    if "scan_last k 0 None (econ_live s) = Some i" for i k
    using econ_wf_storage [OF assms] scan_last_at(1) [OF that] by (cases "econ_live s = []") auto
  show ?thesis
    using opt over by (auto simp: s(1) Let_def source split: option.splits)
qed

declare stn_economic_state_apply_transfer.simps(2) [simp del]

lemma transfer_apply_ok:
  assumes "econ_wf s" "stn_economic_state_apply_transfer s (Some t) = (STN_DATA_OK, s')"
  shows "econ_wf s' \<and> total_supply s' = total_supply s \<and>
    unat (tr_units t) \<le> balance_of s (tr_from t) \<and> tr_from t \<noteq> tr_to t \<and>
    balance_of s' = (balance_of s)
      (tr_from t := balance_of s (tr_from t) - unat (tr_units t),
       tr_to t := balance_of s (tr_to t) + unat (tr_units t))"
proof -
  have s: "\<not> econ_bad s" "length (econ_live s) = balance_count s"
      "sorted_by bal_wallet_id (econ_live s)" "units_sum (econ_live s) = unat (total_supply s)"
    using assms by (simp_all add: econ_wf_def)
  let ?u = "tr_units t" and ?xs = "econ_live s"
  from assms(2) obtain i where i: "scan_last (tr_from t) 0 None ?xs = Some i"
      "tr_from t \<noteq> tr_to t" "unat ?u \<le> balance_of s (tr_from t)"
    unfolding transfer_apply_cases [OF assms(1)] by (auto split: if_splits option.splits)
  note at = scan_last_at [OF i(1)]
  have enough: "\<not> bal_units (?xs ! i) < ?u"
    using i(3) funds_nth [OF s(3) at(1)] at(2) by (simp add: balance_of_def word_less_nat_alt)
  let ?ds = "debit i ?u ?xs"
  have ds: "sorted_by bal_wallet_id ?ds" "length ?ds = balance_count s"
      "units_sum ?ds + unat ?u = unat (total_supply s)"
      "funds ?ds = (funds ?xs)(tr_from t := funds ?xs (tr_from t) - unat ?u)"
    using s units_sum_debit [OF at(1) enough] funds_debit [OF s(3) at(1) enough] at(2) by simp_all
  have small: "unat (total_supply s) < 2 ^ 64"
    using unsigned_less [of "total_supply s", where ?'a = nat] by simp
  show ?thesis
  proof (cases "scan_last (tr_to t) 0 None ?xs")
    case (Some j)
    note to = scan_last_at [OF Some]
    have ij: "i \<noteq> j" using at(2) to(2) i(2) by auto
    then have slot: "bal_wallet_id (?ds ! j) = tr_to t" "j < length ?ds"
      using to by (simp_all add: debit_def)
    have nover: "\<not> UINT64_MAX - bal_units (?ds ! j) < ?u"
      using nth_le_sum [OF slot(2)] ds(3) small unfolding no_overflow_iff by linarith
    have s': "s' = s\<lparr>balances := Some (credit j ?u ?ds)\<rparr>"
      using assms(2) i Some unfolding transfer_apply_cases [OF assms(1)] by (auto split: if_splits)
    then have live: "econ_live s' = credit j ?u ?ds" by (simp add: econ_live_def)
    have "econ_wf s'"
      using ds s units_sum_credit [OF slot(2) nover]
      by (auto simp: econ_wf_def live) (auto simp: s' econ_bad_def)
    then show ?thesis
      using i(2,3) funds_credit [OF ds(1) slot(2) nover] slot(1) ds(4)
      by (auto simp: balance_of_def live fun_eq_iff) (simp add: s')
  next
    case None
    let ?e = "\<lparr>bal_wallet_id = tr_to t, bal_units = ?u\<rparr>"
    have s': "s' = s\<lparr>balances := Some (insert_at (find_at bal_wallet_id (tr_to t) ?xs) ?e ?ds),
        balance_count := balance_count s + 1\<rparr>" "balance_count s \<noteq> balance_capacity s"
      using assms(2) i None unfolding transfer_apply_cases [OF assms(1)] by (auto split: if_splits)
    then have live: "econ_live s' = insert_at (find_at bal_wallet_id (tr_to t) ?ds) ?e ?ds"
      by (simp add: econ_live_def)
    have absent: "tr_to t \<notin> bal_wallet_id ` set ?xs"
      using None by (simp add: scan_last_None)
    have keys: "map bal_wallet_id ?ds = map bal_wallet_id ?xs"
      by (simp add: debit_def map_update_same)
    then have none: "table bal_wallet_id ?ds (tr_to t) = None"
      using absent unfolding table_None_iff by (metis set_map)
    have "funds ?xs (tr_to t) = 0"
      using absent by (simp add: funds_def table_None_iff [THEN iffD2])
    moreover have "econ_wf s'"
      using ds s s'(2) sorted_insert_at [OF ds(1), of ?e] none
      by (auto simp: econ_wf_def live) (auto simp: s'(1) econ_bad_def)
    ultimately show ?thesis
      using i(2,3) funds_insert [OF ds(1) none, of ?u] ds(4)
      by (auto simp: balance_of_def live fun_eq_iff) (simp add: s'(1))
  qed
qed

lemma transfer_apply_fail:
  assumes "stn_economic_state_apply_transfer s t = (e, s')" "e \<noteq> STN_DATA_OK"
  shows "s' = s"
  using assms
  by (cases t)
     (auto simp: stn_economic_state_apply_transfer.simps(2) Let_def split: if_splits option.splits)

lemma balance_lookup:
  assumes "econ_wf s" "addr_type w = STN_ADDRESS_WALLET"
  shows "\<exists>u. stn_economic_state_balance s (Some w) = Inr u \<and> unat u = balance_of s (addr_id w)"
  using assms
  by (auto simp: econ_wf_def balance_of_def funds_def scan_sorted_table split: option.splits)


declare stn_economic_state_balance.simps(2) [simp del]

section \<open>Properties\<close>

text \<open>
  Applying an issuance refines the abstract ledger. Under the invariant it answers OK exactly
  when the record is valid, the total supply has room for the units and the wallet has an entry or
  the array a free slot; then the wallet's balance and the total supply grow by the units, every
  other balance is unchanged and the invariant (sorted entries whose sum is the total supply) holds
  again. On every other answer the state is unchanged.
\<close>

theorem economic_issue_refines:
  assumes "econ_wf s"
  shows "case stn_economic_state_apply s (Some r) of (status, t) \<Rightarrow>
    econ_wf t \<and>
    (status = STN_DATA_OK \<longleftrightarrow> record_valid (Some r) = STN_DATA_OK \<and>
       unat (total_supply s) + unat (iss_units r) < 2 ^ 64 \<and>
       (has_entry s (iss_wallet r) \<or> balance_count s < balance_capacity s)) \<and>
    (if status = STN_DATA_OK
     then balance_of t = (balance_of s)(iss_wallet r := balance_of s (iss_wallet r) + unat (iss_units r)) \<and>
       unat (total_supply t) = unat (total_supply s) + unat (iss_units r)
     else t = s)"
proof (cases "stn_economic_state_apply s (Some r)")
  case (Pair status t)
  have le: "balance_count s \<le> balance_capacity s"
    using assms by (simp add: econ_wf_def econ_bad_def)
  have iff: "status = STN_DATA_OK \<longleftrightarrow> record_valid (Some r) = STN_DATA_OK \<and>
      unat (total_supply s) + unat (iss_units r) < 2 ^ 64 \<and>
      (has_entry s (iss_wallet r) \<or> balance_count s < balance_capacity s)"
    using Pair le unfolding econ_apply_cases [OF assms] by (auto split: if_splits)
  show ?thesis
  proof (cases "status = STN_DATA_OK")
    case True
    from econ_apply_ok [OF assms, of r t] Pair True iff show ?thesis
      by simp
  next
    case False
    with econ_apply_fail [OF Pair False] assms iff Pair show ?thesis by simp
  qed
qed

definition sample_destination :: stn_compensation_destination where
  "sample_destination =
     \<lparr>dest_identity = \<lparr>addr_type = STN_ADDRESS_IDENTITY, addr_id = replicate 32 7\<rparr>,
      dest_wallet = \<lparr>addr_type = STN_ADDRESS_WALLET, addr_id = replicate 32 9\<rparr>\<rparr>"

definition sample_issuance :: stn_issuance_record where
  "sample_issuance = \<lparr>iss_reason = 2, iss_units = 10000, iss_evidence_id = replicate 32 1,
     iss_destination = sample_destination\<rparr>"

definition sample_economy :: stn_economic_state where
  "sample_economy = \<lparr>balances = Some [], balance_count = 0, balance_capacity = 4, total_supply = 0\<rparr>"

lemma sample_economy_wf: "econ_wf sample_economy"
  by (simp add: sample_economy_def econ_wf_def econ_bad_def econ_live_def)

lemma sample_economy_balance: "balance_of sample_economy k = 0"
  by (simp add: sample_economy_def balance_of_def econ_live_def)

lemma sample_issuance_valid: "record_valid (Some sample_issuance) = STN_DATA_OK"
  by (simp add: record_valid.simps sample_issuance_def sample_destination_def
      STN_ISSUANCE_REASON_BLOCK_def STN_ISSUANCE_BLOCK_UNITS_def)

theorem economic_issue_refines_witness:
  "fst (stn_economic_state_apply sample_economy (Some sample_issuance)) = STN_DATA_OK \<and>
   balance_of (snd (stn_economic_state_apply sample_economy (Some sample_issuance))) (replicate 32 9) =
     10000"
  using economic_issue_refines [OF sample_economy_wf, of sample_issuance] sample_issuance_valid
    sample_economy_balance
  by (auto simp: sample_economy_def sample_issuance_def sample_destination_def split: prod.splits)

text \<open>
  C36. Applying a transfer refines the abstract ledger. Under the invariant it answers OK exactly
  when both addresses are wallets, distinct, the units are nonzero, the source has an entry with at
  least the units, and the destination has an entry or the array a free slot: the overflow answer
  cannot occur. Then the units move from the source to the destination, every other balance and the
  total supply are unchanged, and the invariant holds again. On every other answer the state is
  unchanged.
\<close>

theorem economic_transfer_refines:
  assumes "econ_wf s"
  shows "case stn_economic_state_apply_transfer s (Some t) of (status, s') \<Rightarrow>
    econ_wf s' \<and> total_supply s' = total_supply s \<and> status \<noteq> STN_DATA_OVERFLOW \<and>
    (status = STN_DATA_OK \<longleftrightarrow> transfer_valid (Some t) = STN_DATA_OK \<and>
       has_entry s (tr_from t) \<and> unat (tr_units t) \<le> balance_of s (tr_from t) \<and>
       (has_entry s (tr_to t) \<or> balance_count s < balance_capacity s)) \<and>
    (if status = STN_DATA_OK
     then balance_of s' = (balance_of s)
       (tr_from t := balance_of s (tr_from t) - unat (tr_units t),
        tr_to t := balance_of s (tr_to t) + unat (tr_units t))
     else s' = s)"
proof (cases "stn_economic_state_apply_transfer s (Some t)")
  case (Pair status s')
  have le: "balance_count s \<le> balance_capacity s"
    using assms(1) by (simp add: econ_wf_def econ_bad_def)
  have entry: "has_entry s k \<longleftrightarrow> scan_last k 0 None (econ_live s) \<noteq> None" for k
    using scan_last_None [of k 0 None "econ_live s"]
    by (simp add: has_entry_def table_None_iff del: not_None_eq)
  have iff: "status \<noteq> STN_DATA_OVERFLOW \<and>
    (status = STN_DATA_OK \<longleftrightarrow> transfer_valid (Some t) = STN_DATA_OK \<and>
       has_entry s (tr_from t) \<and> unat (tr_units t) \<le> balance_of s (tr_from t) \<and>
       (has_entry s (tr_to t) \<or> balance_count s < balance_capacity s))"
    using Pair le unfolding transfer_apply_cases [OF assms(1)] transfer_valid_iff entry
    by (auto split: if_splits option.splits)
  show ?thesis
  proof (cases "status = STN_DATA_OK")
    case True
    with transfer_apply_ok [OF assms(1), of t s'] Pair iff show ?thesis by simp
  next
    case False
    with transfer_apply_fail [OF Pair False] assms(1) iff Pair show ?thesis by simp
  qed
qed

definition sample_transfer :: stn_transfer where
  "sample_transfer =
     \<lparr>tr_source = \<lparr>addr_type = STN_ADDRESS_WALLET, addr_id = replicate 32 9\<rparr>,
      tr_destination = \<lparr>addr_type = STN_ADDRESS_WALLET, addr_id = replicate 32 3\<rparr>, tr_units = 400\<rparr>"

definition sample_funded :: stn_economic_state where
  "sample_funded = \<lparr>balances = Some [\<lparr>bal_wallet_id = replicate 32 9, bal_units = 1000\<rparr>],
     balance_count = 1, balance_capacity = 4, total_supply = 1000\<rparr>"

lemma sample_funded_wf: "econ_wf sample_funded"
  by (simp add: sample_funded_def econ_wf_def econ_bad_def econ_live_def)

lemma sample_funded_balance:
  "balance_of sample_funded k = (if k = replicate 32 9 then 1000 else 0)"
  by (simp add: sample_funded_def balance_of_def econ_live_def)

lemma sample_funded_entry: "has_entry sample_funded k \<longleftrightarrow> k = replicate 32 9"
  by (simp add: sample_funded_def has_entry_def econ_live_def)

lemma economic_transfer_sample:
  "fst (stn_economic_state_apply_transfer sample_funded (Some sample_transfer)) = STN_DATA_OK"
proof -
  have "tr_from sample_transfer = replicate 32 9" "tr_units sample_transfer = 400"
      "econ_live sample_funded = [\<lparr>bal_wallet_id = replicate 32 9, bal_units = 1000\<rparr>]"
    by (simp_all add: sample_transfer_def sample_funded_def econ_live_def)
  then show ?thesis
    by (simp add: transfer_apply_cases [OF sample_funded_wf] sample_funded_balance)
       (simp add: sample_funded_def sample_transfer_def)
qed

theorem economic_transfer_refines_witness:
  "fst (stn_economic_state_apply_transfer sample_funded (Some sample_transfer)) = STN_DATA_OK \<and>
   balance_of (snd (stn_economic_state_apply_transfer sample_funded (Some sample_transfer)))
     (replicate 32 3) = 400"
  using economic_transfer_refines [OF sample_funded_wf, of sample_transfer]
    sample_funded_balance sample_funded_entry
  by (auto simp: sample_funded_def sample_transfer_def transfer_valid_iff split: prod.splits)

text \<open>
  The balance query answers, for every wallet address and every state that satisfies the
  invariant, exactly the abstract balance; a wallet without an entry has the balance zero.
\<close>

theorem economic_balance_exact:
  assumes "econ_wf s" "addr_type w = STN_ADDRESS_WALLET"
  shows "map_sum id unat (stn_economic_state_balance s (Some w)) = Inr (balance_of s (addr_id w))"
  using balance_lookup [OF assms] by auto

theorem economic_balance_exact_witness:
  "map_sum id unat (stn_economic_state_balance sample_funded
     (Some \<lparr>addr_type = STN_ADDRESS_WALLET, addr_id = replicate 32 9\<rparr>)) = Inr 1000"
  using economic_balance_exact [OF sample_funded_wf,
      of "\<lparr>addr_type = STN_ADDRESS_WALLET, addr_id = replicate 32 9\<rparr>"]
  by (simp add: sample_funded_balance)

end
