(* ===== verification/Stn_Envelope.thy ===== *)
theory Stn_Envelope
  imports Stn_Transfer
begin

text \<open>
  Signed transfers: the envelope codec (\<^verbatim>\<open>src/src/stn_transfer_envelope.c\<close>), its replay registry
  (\<^verbatim>\<open>stn_transfer_envelope_replay.c\<close>) and the statements a wallet controller signs
  (\<^verbatim>\<open>stn_transfer_authorization.c\<close>, \<^verbatim>\<open>stn_transfer_envelope_authorization.c\<close>).
\<close>

section \<open>The envelope\<close>

record stn_transfer_envelope =
  env_controller :: bytes
  env_nonce :: bytes
  env_transfer :: stn_transfer
  env_signature :: bytes

definition wf_envelope :: "stn_transfer_envelope \<Rightarrow> bool" where
  "wf_envelope e \<longleftrightarrow> length (env_controller e) = 32 \<and> length (env_nonce e) = 32 \<and>
     wf_transfer (env_transfer e) \<and> length (env_signature e) = 64"

definition STN_TRANSFER_ENVELOPE_VERSION :: u8 where "STN_TRANSFER_ENVELOPE_VERSION = 1"
definition STN_TRANSFER_ENVELOPE_CANONICAL_SIZE :: nat where
  [simp]: "STN_TRANSFER_ENVELOPE_CANONICAL_SIZE = 1 + 32 + 32 + 73 + 64"

fun stn_transfer_envelope_encode :: "stn_transfer_envelope option \<Rightarrow> bytes data_result" where
  "stn_transfer_envelope_encode None = Inl STN_DATA_ARGUMENT"
| "stn_transfer_envelope_encode (Some e) =
     (if \<not> nonzero (env_controller e) \<or> \<not> nonzero (env_nonce e) then Inl STN_DATA_CONTENT
      else
        (case stn_transfer_encode (Some (env_transfer e)) of
           Inl _ \<Rightarrow> Inl STN_DATA_CONTENT
         | Inr transfer \<Rightarrow>
             Inr (STN_TRANSFER_ENVELOPE_VERSION # env_controller e @ env_nonce e @ transfer @
                  env_signature e)))"

fun stn_transfer_envelope_decode :: "bytes option \<Rightarrow> stn_transfer_envelope data_result" where
  "stn_transfer_envelope_decode None = Inl STN_DATA_ARGUMENT"
| "stn_transfer_envelope_decode (Some bs) =
     (if length bs \<noteq> STN_TRANSFER_ENVELOPE_CANONICAL_SIZE then Inl STN_DATA_LENGTH
      else if bs ! 0 \<noteq> STN_TRANSFER_ENVELOPE_VERSION then Inl STN_DATA_VERSION
      else
        (let controller = take 32 (drop 1 bs); nonce = take 32 (drop 33 bs)
         in if \<not> nonzero controller \<or> \<not> nonzero nonce then Inl STN_DATA_CONTENT
            else
              (case stn_transfer_decode (Some (take STN_TRANSFER_CANONICAL_SIZE (drop 65 bs))) of
                 Inl _ \<Rightarrow> Inl STN_DATA_CONTENT
               | Inr t \<Rightarrow>
                   Inr \<lparr>env_controller = controller, env_nonce = nonce, env_transfer = t,
                        env_signature = take 64 (drop 138 bs)\<rparr>)))"

lemma envelope_encode_iff:
  "stn_transfer_envelope_encode (Some e) = Inr bs \<longleftrightarrow>
     nonzero (env_controller e) \<and> nonzero (env_nonce e) \<and>
     (\<exists>t. stn_transfer_encode (Some (env_transfer e)) = Inr t \<and>
       bs = STN_TRANSFER_ENVELOPE_VERSION # env_controller e @ env_nonce e @ t @ env_signature e)"
  by (auto split: sum.splits)

lemma envelope_decode_iff:
  "stn_transfer_envelope_decode (Some bs) = Inr e \<longleftrightarrow>
     length bs = 202 \<and> bs ! 0 = STN_TRANSFER_ENVELOPE_VERSION \<and>
     env_controller e = take 32 (drop 1 bs) \<and> nonzero (env_controller e) \<and>
     env_nonce e = take 32 (drop 33 bs) \<and> nonzero (env_nonce e) \<and>
     stn_transfer_decode (Some (take 73 (drop 65 bs))) = Inr (env_transfer e) \<and>
     env_signature e = take 64 (drop 138 bs)"
  by (cases e) (auto simp: Let_def split: sum.splits)

declare stn_transfer_envelope_encode.simps(2) [simp del]
  stn_transfer_envelope_decode.simps(2) [simp del]

lemma length_transfer_encoding:
  "wf_transfer t \<Longrightarrow> stn_transfer_encode (Some t) = Inr bs \<Longrightarrow> length bs = 73"
  by (auto simp: transfer_encode_iff wf_transfer_def wf_address_def)

interpretation envelope_codec: codec
  "\<lambda>e. stn_transfer_envelope_encode (Some e)" "\<lambda>bs. stn_transfer_envelope_decode (Some bs)"
  wf_envelope
proof
  fix e bs
  assume wf: "wf_envelope e" and "stn_transfer_envelope_encode (Some e) = Inr bs"
  then obtain t where t: "stn_transfer_encode (Some (env_transfer e)) = Inr t"
      "nonzero (env_controller e)" "nonzero (env_nonce e)"
      "bs = STN_TRANSFER_ENVELOPE_VERSION # env_controller e @ env_nonce e @ t @ env_signature e"
    unfolding envelope_encode_iff by blast
  have "wf_transfer (env_transfer e)" using wf by (simp add: wf_envelope_def)
  then have "stn_transfer_decode (Some t) = Inr (env_transfer e)" "length t = 73"
    using t(1) by (simp_all add: transfer_codec.dec_enc length_transfer_encoding)
  then show "stn_transfer_envelope_decode (Some bs) = Inr e"
    unfolding envelope_decode_iff using t wf by (simp add: wf_envelope_def)
next
  fix e bs
  assume "stn_transfer_envelope_decode (Some bs) = Inr e"
  then have e: "length bs = 202" "bs ! 0 = STN_TRANSFER_ENVELOPE_VERSION"
      "env_controller e = take 32 (drop 1 bs)" "nonzero (env_controller e)"
      "env_nonce e = take 32 (drop 33 bs)" "nonzero (env_nonce e)"
      "stn_transfer_decode (Some (take 73 (drop 65 bs))) = Inr (env_transfer e)"
      "env_signature e = take 64 (drop 138 bs)"
    unfolding envelope_decode_iff by auto
  have "bs = STN_TRANSFER_ENVELOPE_VERSION # env_controller e @ env_nonce e @
      take 73 (drop 65 bs) @ env_signature e"
    by (rule version_join [symmetric]) (use e(1,2) in \<open>auto simp: e(3,5,8) slices\<close>)
  then show "stn_transfer_envelope_encode (Some e) = Inr bs"
    unfolding envelope_encode_iff using transfer_codec.enc_dec [OF e(7)] e(4,6) by blast
next
  fix e bs
  assume "stn_transfer_envelope_decode (Some bs) = Inr e"
  then show "wf_envelope e"
    unfolding envelope_decode_iff by (auto simp: wf_envelope_def transfer_codec.dec_wf)
qed

section \<open>The replay registry of envelopes\<close>

datatype stn_transfer_envelope_replay_result =
    STN_TRANSFER_ENVELOPE_REPLAY_FRESH | STN_TRANSFER_ENVELOPE_REPLAY_DUPLICATE
  | STN_TRANSFER_ENVELOPE_REPLAY_CAPACITY | STN_TRANSFER_ENVELOPE_REPLAY_ARGUMENT

fun stn_transfer_envelope_replay_key ::
  "stn_transfer_envelope option \<Rightarrow> stn_transfer_envelope_replay_result + bytes" where
  "stn_transfer_envelope_replay_key None = Inl STN_TRANSFER_ENVELOPE_REPLAY_ARGUMENT"
| "stn_transfer_envelope_replay_key (Some e) =
     (case stn_replay_id_from_signer_nonce (Some (env_controller e)) (Some (env_nonce e)) of
        Inl _ \<Rightarrow> Inl STN_TRANSFER_ENVELOPE_REPLAY_ARGUMENT
      | Inr key \<Rightarrow> Inr key)"

definition stn_transfer_envelope_replay_initialize :: "bytes list option \<Rightarrow> nat \<Rightarrow> key_buffer" where
  "stn_transfer_envelope_replay_initialize buf capacity = key_buffer_initialize buf capacity"

definition stn_transfer_envelope_replay_check ::
  "key_buffer \<Rightarrow> stn_transfer_envelope option \<Rightarrow> stn_transfer_envelope_replay_result" where
  "stn_transfer_envelope_replay_check s e =
     (if \<not> buffer_valid s then STN_TRANSFER_ENVELOPE_REPLAY_ARGUMENT
      else
        (case stn_transfer_envelope_replay_key e of
           Inl _ \<Rightarrow> STN_TRANSFER_ENVELOPE_REPLAY_ARGUMENT
         | Inr key \<Rightarrow>
             if scan_key s key then STN_TRANSFER_ENVELOPE_REPLAY_DUPLICATE
             else STN_TRANSFER_ENVELOPE_REPLAY_FRESH))"

definition stn_transfer_envelope_replay_consume ::
  "key_buffer \<Rightarrow> stn_transfer_envelope option \<Rightarrow> stn_transfer_envelope_replay_result \<times> key_buffer"
  where
  "stn_transfer_envelope_replay_consume s e =
     (if \<not> buffer_valid s then (STN_TRANSFER_ENVELOPE_REPLAY_ARGUMENT, s)
      else
        (case stn_transfer_envelope_replay_key e of
           Inl _ \<Rightarrow> (STN_TRANSFER_ENVELOPE_REPLAY_ARGUMENT, s)
         | Inr key \<Rightarrow>
             (let r = stn_transfer_envelope_replay_check s e
              in if r \<noteq> STN_TRANSFER_ENVELOPE_REPLAY_FRESH then (r, s)
                 else if consumed_count s = consumed_capacity s
                 then (STN_TRANSFER_ENVELOPE_REPLAY_CAPACITY, s)
                 else (STN_TRANSFER_ENVELOPE_REPLAY_FRESH, store_key s key))))"

interpretation envelope_replay: key_registry
  stn_transfer_envelope_replay_check stn_transfer_envelope_replay_consume
  "\<lambda>e. sum_right (stn_transfer_envelope_replay_key e)"
  STN_TRANSFER_ENVELOPE_REPLAY_FRESH STN_TRANSFER_ENVELOPE_REPLAY_DUPLICATE
  STN_TRANSFER_ENVELOPE_REPLAY_CAPACITY
  by unfold_locales
     (auto simp: stn_transfer_envelope_replay_check_def stn_transfer_envelope_replay_consume_def
       buffer_wf_valid simp del: stn_transfer_envelope_replay_key.simps)

text \<open>The key is the controller and the nonce, whatever the transfer in the envelope.\<close>

lemma envelope_key_iff:
  assumes "wf_envelope e"
  shows "stn_transfer_envelope_replay_key (Some e) = Inr k \<longleftrightarrow>
    k = env_controller e @ env_nonce e \<and> canonical_point (env_controller e) \<and>
    nonzero (env_controller e) \<and> \<not> small_order (env_controller e) \<and> nonzero (env_nonce e)"
  using assms
  by (auto simp: stn_replay_id_from_signer_nonce_def wf_envelope_def split: sum.splits if_splits)

section \<open>Authorization statements\<close>

definition STN_TRANSFER_AUTHORIZATION_DOMAIN :: bytes where
  "STN_TRANSFER_AUTHORIZATION_DOMAIN = ascii ''STN-CHAIN:TRANSFER:AUTHORIZE:1''"

definition STN_TRANSFER_AUTHORIZATION_VERSION :: u8 where "STN_TRANSFER_AUTHORIZATION_VERSION = 1"

definition stn_transfer_authorization_statement ::
  "stn_hash_fn \<Rightarrow> stn_transfer option \<Rightarrow> bytes option \<Rightarrow> bytes data_result" where
  "stn_transfer_authorization_statement sha transfer controller =
     (case (transfer, controller) of
        (Some t, Some c) \<Rightarrow>
          (case stn_identity_derive (Some c) of
             Inl _ \<Rightarrow> Inl STN_DATA_CONTENT
           | Inr i \<Rightarrow>
               (case stn_wallet_derive sha (Some \<lparr>addr_type = STN_ADDRESS_IDENTITY, addr_id = i\<rparr>) of
                  Inl _ \<Rightarrow> Inl STN_DATA_CONTENT
                | Inr w \<Rightarrow>
                    if memcmp (addr_id w) (addr_id (tr_source t)) \<noteq> 0 then Inl STN_DATA_CONTENT
                    else
                      (case stn_transfer_encode (Some t) of
                         Inl _ \<Rightarrow> Inl STN_DATA_CONTENT
                       | Inr canonical \<Rightarrow>
                           Inr (STN_TRANSFER_AUTHORIZATION_DOMAIN @ [0] @
                                [STN_TRANSFER_AUTHORIZATION_VERSION] @ take 32 c @ canonical))))
      | _ \<Rightarrow> Inl STN_DATA_ARGUMENT)"

definition stn_transfer_authorization_verify ::
  "stn_hash_fn \<Rightarrow> ed25519 \<Rightarrow> stn_transfer option \<Rightarrow> bytes option \<Rightarrow> bytes option \<Rightarrow> stn_data_status"
  where
  "stn_transfer_authorization_verify sha ed transfer controller signature =
     (case signature of
        None \<Rightarrow> STN_DATA_ARGUMENT
      | Some sg \<Rightarrow>
          (case stn_transfer_authorization_statement sha transfer controller of
             Inl status \<Rightarrow> status
           | Inr statement \<Rightarrow>
               if stn_identity_verify ed controller (Some statement) signature 64 = STN_IDENTITY_VALID
               then STN_DATA_OK else STN_DATA_CONTENT))"

definition STN_TRANSFER_ENVELOPE_AUTHORIZATION_DOMAIN :: bytes where
  "STN_TRANSFER_ENVELOPE_AUTHORIZATION_DOMAIN = ascii ''STN-CHAIN:TRANSFER:ENVELOPE:AUTHORIZE:1''"

definition STN_TRANSFER_ENVELOPE_AUTHORIZATION_VERSION :: u8 where
  "STN_TRANSFER_ENVELOPE_AUTHORIZATION_VERSION = 1"

fun stn_transfer_envelope_authorization_statement ::
  "stn_hash_fn \<Rightarrow> stn_transfer_envelope option \<Rightarrow> bytes data_result" where
  "stn_transfer_envelope_authorization_statement sha None = Inl STN_DATA_ARGUMENT"
| "stn_transfer_envelope_authorization_statement sha (Some e) =
     (if \<not> nonzero (env_nonce e) then Inl STN_DATA_CONTENT
      else
        (case stn_identity_derive (Some (env_controller e)) of
           Inl _ \<Rightarrow> Inl STN_DATA_CONTENT
         | Inr i \<Rightarrow>
             (case stn_wallet_derive sha (Some \<lparr>addr_type = STN_ADDRESS_IDENTITY, addr_id = i\<rparr>) of
                Inl _ \<Rightarrow> Inl STN_DATA_CONTENT
              | Inr w \<Rightarrow>
                  if memcmp (addr_id w) (addr_id (tr_source (env_transfer e))) \<noteq> 0
                  then Inl STN_DATA_CONTENT
                  else
                    (case stn_transfer_encode (Some (env_transfer e)) of
                       Inl _ \<Rightarrow> Inl STN_DATA_CONTENT
                     | Inr transfer \<Rightarrow>
                         Inr (STN_TRANSFER_ENVELOPE_AUTHORIZATION_DOMAIN @ [0] @
                              [STN_TRANSFER_ENVELOPE_AUTHORIZATION_VERSION] @ env_controller e @
                              env_nonce e @ transfer)))))"

fun stn_transfer_envelope_authorization_verify ::
  "stn_hash_fn \<Rightarrow> ed25519 \<Rightarrow> stn_transfer_envelope option \<Rightarrow> stn_data_status" where
  "stn_transfer_envelope_authorization_verify sha ed None = STN_DATA_ARGUMENT"
| "stn_transfer_envelope_authorization_verify sha ed (Some e) =
     (case stn_transfer_envelope_authorization_statement sha (Some e) of
        Inl status \<Rightarrow> status
      | Inr statement \<Rightarrow>
          if stn_identity_verify ed (Some (env_controller e)) (Some statement)
               (Some (env_signature e)) 64 = STN_IDENTITY_VALID
          then STN_DATA_OK else STN_DATA_CONTENT)"

section \<open>Properties\<close>

text \<open>
  The envelope format is canonical: the decoder accepts 202 bytes exactly when they are the
  encoding of the envelope it returns, and that envelope carries a canonical wallet transfer.
\<close>

theorem envelope_canonical:
  "stn_transfer_envelope_decode (Some bs) = Inr e \<longleftrightarrow>
     wf_envelope e \<and> stn_transfer_envelope_encode (Some e) = Inr bs"
  by (rule envelope_codec.dec_iff)

lemma envelope_statement_iff:
  "stn_transfer_envelope_authorization_statement sha (Some e) = Inr m \<Longrightarrow>
   \<exists>t. stn_transfer_encode (Some (env_transfer e)) = Inr t \<and>
     m = STN_TRANSFER_ENVELOPE_AUTHORIZATION_DOMAIN @ [0] @
       [STN_TRANSFER_ENVELOPE_AUTHORIZATION_VERSION] @ env_controller e @ env_nonce e @ t"
  by (auto split: sum.splits if_splits)

text \<open>
  What a controller signs binds everything but the signature: two well-formed envelopes with the
  same signed statement have the same controller, nonce and transfer.
\<close>

theorem envelope_statement_binds:
  assumes "wf_envelope e" "wf_envelope e'"
    "stn_transfer_envelope_authorization_statement sha (Some e) = Inr m"
    "stn_transfer_envelope_authorization_statement sha (Some e') = Inr m"
  shows "e' = e\<lparr>env_signature := env_signature e'\<rparr>"
proof -
  from envelope_statement_iff [OF assms(3)] obtain t where t:
      "stn_transfer_encode (Some (env_transfer e)) = Inr t"
      "m = STN_TRANSFER_ENVELOPE_AUTHORIZATION_DOMAIN @ [0] @
        [STN_TRANSFER_ENVELOPE_AUTHORIZATION_VERSION] @ env_controller e @ env_nonce e @ t" by blast
  from envelope_statement_iff [OF assms(4)] obtain t' where t':
      "stn_transfer_encode (Some (env_transfer e')) = Inr t'"
      "m = STN_TRANSFER_ENVELOPE_AUTHORIZATION_DOMAIN @ [0] @
        [STN_TRANSFER_ENVELOPE_AUTHORIZATION_VERSION] @ env_controller e' @ env_nonce e' @ t'" by blast
  have "env_controller e' = env_controller e" "env_nonce e' = env_nonce e" "t' = t"
    using t(2) t'(2) assms(1,2) by (simp_all add: wf_envelope_def)
  moreover have "env_transfer e' = env_transfer e"
    using assms(1,2) t(1) t'(1) \<open>t' = t\<close>
    by (intro transfer_codec.enc_injective [of _ _ t]) (simp_all add: wf_envelope_def)
  ultimately show ?thesis by simp
qed

end
