(* ===== verification/Stn_Acceptance.thy ===== *)
theory Stn_Acceptance
  imports Stn_Economic Stn_Envelope
begin

text \<open>
  Acceptance of transfers: the atomic binding of a transfer to the economic state and the replay
  registry (\<^verbatim>\<open>src/src/stn_transfer_binding.c\<close>), acceptance of a signed transfer
  (\<^verbatim>\<open>stn_transfer_acceptance.c\<close>) and of a signed envelope
  (\<^verbatim>\<open>stn_transfer_envelope_acceptance.c\<close>), and the states the accepted history can reach.
  The economic state and the registry are threaded through every call, so a branch that fails after
  a mutation would show.
\<close>

section \<open>Operations\<close>

definition stn_transfer_binding_apply ::
  "stn_economic_state \<Rightarrow> key_buffer \<Rightarrow> stn_transfer option \<Rightarrow>
   stn_data_status \<times> stn_economic_state \<times> key_buffer" where
  "stn_transfer_binding_apply economic replay transfer =
     (if transfer = None then (STN_DATA_ARGUMENT, economic, replay)
      else
        (let r = stn_transfer_replay_check replay transfer
         in if r = STN_TRANSFER_REPLAY_DUPLICATE then (STN_DATA_CONTENT, economic, replay)
            else if r = STN_TRANSFER_REPLAY_ARGUMENT then (STN_DATA_ARGUMENT, economic, replay)
            else if r \<noteq> STN_TRANSFER_REPLAY_FRESH then (STN_DATA_CONTENT, economic, replay)
            else if consumed_count replay = consumed_capacity replay
            then (STN_DATA_CAPACITY, economic, replay)
            else
              (case stn_economic_state_apply_transfer economic transfer of
                 (status, economic') \<Rightarrow>
                   if status \<noteq> STN_DATA_OK then (status, economic', replay)
                   else
                     (case stn_transfer_replay_consume replay transfer of
                        (r', replay') \<Rightarrow>
                          if r' \<noteq> STN_TRANSFER_REPLAY_FRESH
                          then (STN_DATA_ARGUMENT, economic', replay')
                          else (STN_DATA_OK, economic', replay')))))"

definition stn_transfer_accept ::
  "stn_hash_fn \<Rightarrow> ed25519 \<Rightarrow> stn_economic_state \<Rightarrow> key_buffer \<Rightarrow> stn_transfer option \<Rightarrow>
   bytes option \<Rightarrow> bytes option \<Rightarrow> stn_data_status \<times> stn_economic_state \<times> key_buffer" where
  "stn_transfer_accept sha ed economic replay transfer controller signature =
     (if transfer = None \<or> controller = None \<or> signature = None
      then (STN_DATA_ARGUMENT, economic, replay)
      else
        (let status = stn_transfer_authorization_verify sha ed transfer controller signature
         in if status \<noteq> STN_DATA_OK then (status, economic, replay)
            else stn_transfer_binding_apply economic replay transfer))"

definition stn_transfer_envelope_accept ::
  "stn_hash_fn \<Rightarrow> ed25519 \<Rightarrow> stn_economic_state \<Rightarrow> key_buffer \<Rightarrow> stn_transfer_envelope option \<Rightarrow>
   stn_data_status \<times> stn_economic_state \<times> key_buffer" where
  "stn_transfer_envelope_accept sha ed economic replay envelope =
     (case envelope of
        None \<Rightarrow> (STN_DATA_ARGUMENT, economic, replay)
      | Some e \<Rightarrow>
          (let s = stn_transfer_envelope_authorization_verify sha ed envelope
           in if s \<noteq> STN_DATA_OK then (s, economic, replay)
              else
                (let r = stn_transfer_envelope_replay_check replay envelope
                 in if r = STN_TRANSFER_ENVELOPE_REPLAY_DUPLICATE
                    then (STN_DATA_DUPLICATE, economic, replay)
                    else if r = STN_TRANSFER_ENVELOPE_REPLAY_ARGUMENT
                    then (STN_DATA_ARGUMENT, economic, replay)
                    else if r \<noteq> STN_TRANSFER_ENVELOPE_REPLAY_FRESH
                    then (STN_DATA_CONTENT, economic, replay)
                    else if consumed_count replay = consumed_capacity replay
                    then (STN_DATA_CAPACITY, economic, replay)
                    else
                      (case stn_economic_state_apply_transfer economic (Some (env_transfer e)) of
                         (status, economic') \<Rightarrow>
                           if status \<noteq> STN_DATA_OK then (status, economic', replay)
                           else
                             (case stn_transfer_envelope_replay_consume replay envelope of
                                (r', replay') \<Rightarrow>
                                  (if r' = STN_TRANSFER_ENVELOPE_REPLAY_FRESH then STN_DATA_OK
                                   else STN_DATA_ARGUMENT, economic', replay'))))))"

section \<open>Atomicity\<close>

lemma transfer_check_consume:
  assumes "buffer_wf replay" "stn_transfer_replay_check replay t = STN_TRANSFER_REPLAY_FRESH"
    "consumed_count replay \<noteq> consumed_capacity replay"
  obtains k where "stn_transfer_replay_key t = Inr k" "k \<notin> set (accepted replay)"
    "stn_transfer_replay_consume replay t = (STN_TRANSFER_REPLAY_FRESH, store_key replay k)"
  using assms transfer_replay.check_spec [OF assms(1), of t] transfer_replay.consume_spec [OF assms(1), of t]
  by (auto simp: stn_transfer_replay_check_def split: sum.splits if_splits)

lemma envelope_check_consume:
  assumes "buffer_wf replay"
    "stn_transfer_envelope_replay_check replay e = STN_TRANSFER_ENVELOPE_REPLAY_FRESH"
    "consumed_count replay \<noteq> consumed_capacity replay"
  obtains k where "stn_transfer_envelope_replay_key e = Inr k" "k \<notin> set (accepted replay)"
    "stn_transfer_envelope_replay_consume replay e =
       (STN_TRANSFER_ENVELOPE_REPLAY_FRESH, store_key replay k)"
  using assms envelope_replay.check_spec [OF assms(1), of e] envelope_replay.consume_spec [OF assms(1), of e]
  by (auto simp: stn_transfer_envelope_replay_check_def split: sum.splits if_splits)

lemma binding_apply_result:
  assumes "buffer_wf replay"
  shows "stn_transfer_binding_apply economic replay t = (status, economic', replay') \<Longrightarrow>
    (status \<noteq> STN_DATA_OK \<and> economic' = economic \<and> replay' = replay) \<or>
    (status = STN_DATA_OK \<and>
      stn_economic_state_apply_transfer economic t = (STN_DATA_OK, economic') \<and>
      stn_transfer_replay_consume replay t = (STN_TRANSFER_REPLAY_FRESH, replay'))"
  by (cases t)
     (auto simp: stn_transfer_binding_apply_def Let_def dest: transfer_apply_fail
       elim!: transfer_check_consume [OF assms, rotated] split: if_splits prod.splits)


lemma envelope_accept_result:
  assumes "buffer_wf replay"
  shows "stn_transfer_envelope_accept sha ed economic replay (Some e) = (status, economic', replay') \<Longrightarrow>
    (status \<noteq> STN_DATA_OK \<and> economic' = economic \<and> replay' = replay) \<or>
    (status = STN_DATA_OK \<and>
      stn_transfer_envelope_authorization_verify sha ed (Some e) = STN_DATA_OK \<and>
      stn_economic_state_apply_transfer economic (Some (env_transfer e)) = (STN_DATA_OK, economic') \<and>
      stn_transfer_envelope_replay_consume replay (Some e) =
        (STN_TRANSFER_ENVELOPE_REPLAY_FRESH, replay'))"
  by (auto simp: stn_transfer_envelope_accept_def Let_def dest: transfer_apply_fail
      elim!: envelope_check_consume [OF assms, rotated]
      simp del: stn_transfer_envelope_authorization_verify.simps split: if_splits prod.splits)

text \<open>An authorized envelope names the wallet of its controller and carries a valid signature.\<close>

lemma envelope_authorized:
  assumes "hash_fn_ok sha" "wf_envelope e"
    "stn_transfer_envelope_authorization_verify sha ed (Some e) = STN_DATA_OK"
  shows "sha [] (env_controller e) = Inr (addr_id (tr_source (env_transfer e))) \<and>
    canonical_point (env_controller e) \<and> canonical_scalar (drop 32 (env_signature e)) \<and>
    (\<exists>m. stn_transfer_envelope_authorization_statement sha (Some e) = Inr m \<and>
      ed m (env_controller e) (env_signature e) = 0)"
proof -
  from assms(3) obtain m where m: "stn_transfer_envelope_authorization_statement sha (Some e) = Inr m"
      "stn_identity_verify ed (Some (env_controller e)) (Some m) (Some (env_signature e)) 64 =
        STN_IDENTITY_VALID"
    using hash_fn_ok_status [OF assms(1)]
    by (auto simp del: stn_transfer_encode.simps split: sum.splits if_splits)
  have "length (env_controller e) = 32" using assms(2) by (simp add: wf_envelope_def)
  then have "sha [] (env_controller e) = Inr (addr_id (tr_source (env_transfer e)))"
    using m(1) wallet_derive_iff [OF assms(1)]
    by (auto simp: stn_address_derive_def split: sum.splits if_splits)
  with m show ?thesis
    by (auto simp: stn_identity_verify_def split: if_splits)
qed

section \<open>The accepted history\<close>

text \<open>
  What the accepted history does to the two states: issuances and envelopes are applied in any
  order, successfully or not. The relation counts the units issued and lists the envelopes accepted.
\<close>

inductive economic_run ::
  "stn_hash_fn \<Rightarrow> ed25519 \<Rightarrow> stn_economic_state \<times> key_buffer \<Rightarrow>
   stn_economic_state \<times> key_buffer \<Rightarrow> nat \<Rightarrow> stn_transfer_envelope list \<Rightarrow> bool"
  for sha ed start where
  run_start: "economic_run sha ed start start 0 []"
| run_issue: "economic_run sha ed start (economic, replay) n es \<Longrightarrow>
    stn_economic_state_apply economic (Some i) = (status, economic') \<Longrightarrow>
    economic_run sha ed start (economic', replay)
      (n + (if status = STN_DATA_OK then unat (iss_units i) else 0)) es"
| run_transfer: "economic_run sha ed start (economic, replay) n es \<Longrightarrow> wf_envelope e \<Longrightarrow>
    stn_transfer_envelope_accept sha ed economic replay (Some e) = (status, economic', replay') \<Longrightarrow>
    economic_run sha ed start (economic', replay') n
      (if status = STN_DATA_OK then es @ [e] else es)"

definition envelope_id :: "stn_transfer_envelope \<Rightarrow> bytes" where
  "envelope_id e = env_controller e @ env_nonce e"

lemma economic_run_inv:
  assumes "economic_run sha ed start now n es" "econ_wf (fst start)" "buffer_wf (snd start)"
    "accepted (snd start) = []"
  shows "econ_wf (fst now) \<and> buffer_wf (snd now) \<and>
    unat (total_supply (fst now)) = unat (total_supply (fst start)) + n \<and>
    accepted (snd now) = map envelope_id es \<and> distinct (map envelope_id es)"
  using assms(1)
proof induction
  case run_start
  then show ?case using assms(2-) by simp
next
  case (run_issue economic replay n es i status economic')
  show ?case
  proof (cases "status = STN_DATA_OK")
    case True
    with run_issue econ_apply_ok [of economic i economic'] show ?thesis by auto
  next
    case False
    with econ_apply_fail [OF run_issue.hyps(2)] run_issue.IH show ?thesis by simp
  qed
next
  case (run_transfer economic replay n es e status economic' replay')
  then have bw: "buffer_wf replay" by simp
  from envelope_accept_result [OF bw run_transfer.hyps(3)] show ?case
  proof (elim disjE conjE)
    assume "status \<noteq> STN_DATA_OK" "economic' = economic" "replay' = replay"
    with run_transfer.IH show ?thesis by simp
  next
    assume ok: "status = STN_DATA_OK"
      "stn_economic_state_apply_transfer economic (Some (env_transfer e)) = (STN_DATA_OK, economic')"
      "stn_transfer_envelope_replay_consume replay (Some e) =
        (STN_TRANSFER_ENVELOPE_REPLAY_FRESH, replay')"
    then have "fst (stn_transfer_envelope_replay_consume replay (Some e)) = STN_TRANSFER_ENVELOPE_REPLAY_FRESH"
      by simp
    from envelope_replay.consume_accepted [OF bw this] obtain k where
        k: "stn_transfer_envelope_replay_key (Some e) = Inr k" "accepted replay' = accepted replay @ [k]"
          "k \<notin> set (accepted replay)"
      unfolding ok(3) by auto
    have "k = envelope_id e"
      using k(1) unfolding envelope_key_iff [OF run_transfer.hyps(2)] envelope_id_def by simp
    moreover have "buffer_wf replay'"
      using envelope_replay.consume_wf [OF bw, of "Some e"] ok(3) by simp
    moreover have "econ_wf economic' \<and> total_supply economic' = total_supply economic"
      using transfer_apply_ok [OF _ ok(2)] run_transfer.IH by simp
    ultimately show ?thesis
      using run_transfer.IH k ok(1) by auto
  qed
qed


section \<open>Properties\<close>

text \<open>
  Binding a transfer is atomic and exactly once. On any answer other than OK neither the economic
  state nor the registry changes. On OK the transfer was applied to the economic state, its canonical
  bytes are the one new key of the registry, and binding it again, with whatever economic state, is
  refused without a change.
\<close>

theorem transfer_binding_atomic:
  assumes "buffer_wf replay"
  shows "case stn_transfer_binding_apply economic replay (Some t) of (status, economic', replay') \<Rightarrow>
    buffer_wf replay' \<and>
    (if status = STN_DATA_OK
     then stn_economic_state_apply_transfer economic (Some t) = (STN_DATA_OK, economic') \<and>
       (\<exists>k. stn_transfer_encode (Some t) = Inr k \<and> k \<notin> set (accepted replay) \<and>
         accepted replay' = accepted replay @ [k]) \<and>
       stn_transfer_binding_apply later replay' (Some t) = (STN_DATA_CONTENT, later, replay')
     else economic' = economic \<and> replay' = replay)"
proof -
  obtain status economic' replay' where r:
      "stn_transfer_binding_apply economic replay (Some t) = (status, economic', replay')"
    by (metis prod_cases3)
  from binding_apply_result [OF assms r] show ?thesis
  proof (elim disjE conjE)
    assume "status \<noteq> STN_DATA_OK" "economic' = economic" "replay' = replay"
    with r assms show ?thesis by simp
  next
    assume ok: "status = STN_DATA_OK"
      "stn_economic_state_apply_transfer economic (Some t) = (STN_DATA_OK, economic')"
      "stn_transfer_replay_consume replay (Some t) = (STN_TRANSFER_REPLAY_FRESH, replay')"
    then have fresh: "fst (stn_transfer_replay_consume replay (Some t)) = STN_TRANSFER_REPLAY_FRESH"
      by simp
    from transfer_replay.consume_accepted [OF assms fresh] obtain k where
        k: "stn_transfer_replay_key (Some t) = Inr k" "accepted replay' = accepted replay @ [k]"
          "k \<notin> set (accepted replay)"
      unfolding ok(3) by auto
    have wf: "buffer_wf replay'"
      using transfer_replay.consume_wf [OF assms, of "Some t"] ok(3) by simp
    have enc: "stn_transfer_encode (Some t) = Inr k"
      using k(1) by (simp split: sum.splits)
    have "stn_transfer_replay_check replay' (Some t) = STN_TRANSFER_REPLAY_DUPLICATE"
      using transfer_replay.check_spec [OF wf, of "Some t" k] k by (simp del: stn_transfer_replay_key.simps)
    then have "stn_transfer_binding_apply later replay' (Some t) = (STN_DATA_CONTENT, later, replay')"
      by (simp add: stn_transfer_binding_apply_def)
    with r ok k enc wf show ?thesis by simp
  qed
qed

definition sample_buffer :: key_buffer where
  "sample_buffer = key_buffer_initialize (Some [[], []]) 2"

lemma sample_buffer_wf: "buffer_wf sample_buffer"
  by (simp add: sample_buffer_def buffer_wf_initialize)

theorem transfer_binding_atomic_witness:
  "fst (stn_transfer_binding_apply sample_funded sample_buffer (Some sample_transfer)) = STN_DATA_OK \<and>
   fst (stn_transfer_binding_apply sample_funded
     (snd (snd (stn_transfer_binding_apply sample_funded sample_buffer (Some sample_transfer))))
     (Some sample_transfer)) = STN_DATA_CONTENT"
proof -
  have "fst (stn_transfer_binding_apply sample_funded sample_buffer (Some sample_transfer)) = STN_DATA_OK"
    by code_simp
  with transfer_binding_atomic [OF sample_buffer_wf, of sample_funded sample_transfer sample_funded]
  show ?thesis by (auto split: prod.splits)
qed

text \<open>
  C19. Accepting an envelope. It answers OK only for an envelope whose source wallet is the one
  derived from the controller key, whose key, signature point and scalar are canonical and whose
  signature verifies on the statement that binds controller, nonce and transfer; then the units move
  as the ledger transfer says and the controller and nonce become a key of the registry that was not
  there. On any other answer neither state changes.
\<close>

theorem envelope_accept_correct:
  assumes "hash_fn_ok sha" "econ_wf economic" "buffer_wf replay" "wf_envelope e"
  shows "case stn_transfer_envelope_accept sha ed economic replay (Some e) of
      (status, economic', replay') \<Rightarrow>
    (if status = STN_DATA_OK
     then sha [] (env_controller e) = Inr (tr_from (env_transfer e)) \<and>
       canonical_point (env_controller e) \<and> canonical_scalar (drop 32 (env_signature e)) \<and>
       (\<exists>m. stn_transfer_envelope_authorization_statement sha (Some e) = Inr m \<and>
         ed m (env_controller e) (env_signature e) = 0) \<and>
       balance_of economic' = (balance_of economic)
         (tr_from (env_transfer e) :=
            balance_of economic (tr_from (env_transfer e)) - unat (tr_units (env_transfer e)),
          tr_to (env_transfer e) :=
            balance_of economic (tr_to (env_transfer e)) + unat (tr_units (env_transfer e))) \<and>
       unat (tr_units (env_transfer e)) \<le> balance_of economic (tr_from (env_transfer e)) \<and>
       envelope_id e \<notin> set (accepted replay) \<and>
       accepted replay' = accepted replay @ [envelope_id e]
     else economic' = economic \<and> replay' = replay)"
proof -
  obtain status economic' replay' where r:
      "stn_transfer_envelope_accept sha ed economic replay (Some e) = (status, economic', replay')"
    by (metis prod_cases3)
  from envelope_accept_result [OF assms(3) r] show ?thesis
  proof (elim disjE conjE)
    assume "status \<noteq> STN_DATA_OK" "economic' = economic" "replay' = replay"
    with r show ?thesis by simp
  next
    assume ok: "status = STN_DATA_OK"
      "stn_transfer_envelope_authorization_verify sha ed (Some e) = STN_DATA_OK"
      "stn_economic_state_apply_transfer economic (Some (env_transfer e)) = (STN_DATA_OK, economic')"
      "stn_transfer_envelope_replay_consume replay (Some e) =
        (STN_TRANSFER_ENVELOPE_REPLAY_FRESH, replay')"
    have fresh: "fst (stn_transfer_envelope_replay_consume replay (Some e)) =
        STN_TRANSFER_ENVELOPE_REPLAY_FRESH" using ok(4) by simp
    from envelope_replay.consume_accepted [OF assms(3) fresh] obtain k where
        k: "stn_transfer_envelope_replay_key (Some e) = Inr k" "accepted replay' = accepted replay @ [k]"
          "k \<notin> set (accepted replay)"
      unfolding ok(4) by auto
    have "k = envelope_id e"
      using k(1) unfolding envelope_key_iff [OF assms(4)] envelope_id_def by simp
    with r ok(1) k envelope_authorized [OF assms(1,4) ok(2)] transfer_apply_ok [OF assms(2) ok(3)]
    show ?thesis by simp
  qed
qed

definition sample_envelope :: stn_transfer_envelope where
  "sample_envelope =
     \<lparr>env_controller = 2 # replicate 31 0, env_nonce = 5 # replicate 31 0,
      env_transfer = sample_transfer, env_signature = 2 # replicate 31 0 @ replicate 32 0\<rparr>"

lemma sample_envelope_wf: "wf_envelope sample_envelope"
  by (simp add: sample_envelope_def sample_transfer_def wf_envelope_def wf_transfer_def wf_address_def)

lemma sample_statement:
  "\<exists>m. stn_transfer_envelope_authorization_statement sample_sha (Some sample_envelope) = Inr m"
  using sample_key_canonical
  by (simp add: sample_envelope_def sample_transfer_def stn_address_derive_def sample_sha_def
      transfer_valid_iff stn_transfer_encode.simps)

lemma sample_authorized:
  "stn_transfer_envelope_authorization_verify sample_sha sample_ed (Some sample_envelope) = STN_DATA_OK"
proof -
  obtain m where "stn_transfer_envelope_authorization_statement sample_sha (Some sample_envelope) = Inr m"
    using sample_statement by blast
  then show ?thesis
    using sample_key_canonical
    by (simp add: stn_identity_verify_def sample_envelope_def sample_ed_def)
qed

lemma sample_key: "stn_transfer_envelope_replay_key (Some sample_envelope) =
    Inr (envelope_id sample_envelope)"
  unfolding envelope_key_iff [OF sample_envelope_wf]
  using sample_key_canonical by (simp add: sample_envelope_def envelope_id_def)

lemma sample_accept:
  "fst (stn_transfer_envelope_accept sample_sha sample_ed sample_funded sample_buffer
     (Some sample_envelope)) = STN_DATA_OK"
proof -
  have "stn_transfer_envelope_replay_consume sample_buffer (Some sample_envelope) =
      (STN_TRANSFER_ENVELOPE_REPLAY_FRESH, store_key sample_buffer (envelope_id sample_envelope))"
    "stn_transfer_envelope_replay_check sample_buffer (Some sample_envelope) =
      STN_TRANSFER_ENVELOPE_REPLAY_FRESH"
    using envelope_replay.consume_spec [OF sample_buffer_wf, of "Some sample_envelope"]
      envelope_replay.check_spec [OF sample_buffer_wf, of "Some sample_envelope"] sample_key
    by (simp_all add: sample_buffer_def key_buffer_initialize_def)
       (simp_all add: accepted_def)
  moreover have "env_transfer sample_envelope = sample_transfer"
    by (simp add: sample_envelope_def)
  ultimately show ?thesis
    using sample_authorized economic_transfer_sample
    by (auto simp: stn_transfer_envelope_accept_def Let_def sample_buffer_def key_buffer_initialize_def
        split: prod.splits simp del: stn_transfer_envelope_authorization_verify.simps)
qed


theorem envelope_accept_correct_witness:
  "balance_of (fst (snd (stn_transfer_envelope_accept sample_sha sample_ed sample_funded sample_buffer
     (Some sample_envelope)))) (replicate 32 3) = 400"
proof -
  obtain status economic' replay' where r:
      "stn_transfer_envelope_accept sample_sha sample_ed sample_funded sample_buffer
         (Some sample_envelope) = (status, economic', replay')"
    by (metis prod_cases3)
  have "status = STN_DATA_OK" using sample_accept r by simp
  moreover have t: "env_transfer sample_envelope = sample_transfer"
    by (simp add: sample_envelope_def)
  ultimately have "balance_of economic' = (balance_of sample_funded)
      (tr_from sample_transfer := balance_of sample_funded (tr_from sample_transfer) - unat (tr_units sample_transfer),
       tr_to sample_transfer := balance_of sample_funded (tr_to sample_transfer) + unat (tr_units sample_transfer))"
    using envelope_accept_correct [OF sample_sha_ok sample_funded_wf sample_buffer_wf sample_envelope_wf,
        of sample_ed] unfolding r prod.case t by presburger
  moreover have "tr_to sample_transfer = replicate 32 3" "tr_units sample_transfer = 400"
      "(replicate 32 3 :: bytes) \<noteq> replicate 32 9"
    by (simp_all add: sample_transfer_def)
  ultimately show ?thesis
    unfolding r by (simp add: sample_funded_balance)
qed

text \<open>
  C18. Conservation over the accepted history. From a freshly initialized economic state and a fresh
  registry, after any sequence of issuances and envelope transfers, successful or not: the balances
  are sorted by wallet with no duplicate, their sum is the total supply, the total supply is exactly
  the number of units issued (so it never wrapped), and no two accepted envelopes share controller
  and nonce.
\<close>

theorem economic_history_conserved:
  assumes "stn_economic_state_initialize storage_null capacity = Inr economy"
    "length buf = slots"
    "economic_run sha ed
       (economy, stn_transfer_envelope_replay_initialize (Some buf) slots) (economic, replay) n es"
  shows "sorted_by bal_wallet_id (econ_live economic) \<and>
    units_sum (econ_live economic) = unat (total_supply economic) \<and>
    unat (total_supply economic) = n \<and> n < 2 ^ 64 \<and>
    accepted replay = map envelope_id es \<and> distinct (map envelope_id es)"
proof -
  have "econ_wf economic \<and> unat (total_supply economic) = n \<and>
      accepted replay = map envelope_id es \<and> distinct (map envelope_id es)"
    using economic_run_inv [OF assms(3)] econ_initialize_wf [OF assms(1)] assms(2)
    by (simp add: stn_transfer_envelope_replay_initialize_def buffer_wf_initialize)
  moreover have "unat (total_supply economic) < 2 ^ 64"
    using unsigned_less [of "total_supply economic", where ?'a = nat] by simp
  ultimately show ?thesis
    by (auto simp: econ_wf_def)
qed

theorem economic_history_conserved_witness:
  "\<exists>economic replay.
     economic_run sample_sha sample_ed (sample_economy, sample_buffer) (economic, replay) 10000 [] \<and>
     units_sum (econ_live economic) = 10000"
proof -
  let ?e = "snd (stn_economic_state_apply sample_economy (Some sample_issuance))"
  have "has_entry sample_economy w = False" for w
    by (simp add: sample_economy_def has_entry_def econ_live_def)
  then have "fst (stn_economic_state_apply sample_economy (Some sample_issuance)) = STN_DATA_OK"
    unfolding econ_apply_cases [OF sample_economy_wf] sample_issuance_valid
    by (simp add: sample_economy_def sample_issuance_def)
  then have "stn_economic_state_apply sample_economy (Some sample_issuance) = (STN_DATA_OK, ?e)"
    by (metis prod.collapse)
  from run_issue [OF run_start [of sample_sha sample_ed "(sample_economy, sample_buffer)"] this]
  have run: "economic_run sample_sha sample_ed (sample_economy, sample_buffer) (?e, sample_buffer) 10000 []"
    by (simp add: sample_issuance_def)
  have "stn_economic_state_initialize False 4 = Inr sample_economy"
    by (simp add: stn_economic_state_initialize_def sample_economy_def)
  moreover have "stn_transfer_envelope_replay_initialize (Some [[], []]) 2 = sample_buffer"
    by (simp add: stn_transfer_envelope_replay_initialize_def sample_buffer_def)
  ultimately have "units_sum (econ_live ?e) = 10000"
    using economic_history_conserved [of False 4 sample_economy "[[], []]" 2 sample_sha sample_ed
        ?e sample_buffer 10000 "[]"] run
    by simp
  with run show ?thesis by blast
qed

text \<open>
  No double spend by replay. Once an envelope has been accepted in a history, every later
  envelope with the same controller and nonce, whatever its transfer and signature, is refused and
  changes nothing; an authorized one is answered DUPLICATE.
\<close>

theorem envelope_replay_refused:
  assumes "economic_run sha ed start (economic, replay) n es" "econ_wf (fst start)"
    "buffer_wf (snd start)" "accepted (snd start) = []"
    "e \<in> set es" "wf_envelope e'" "envelope_id e' = envelope_id e"
  shows "snd (stn_transfer_envelope_accept sha ed economic replay (Some e')) = (economic, replay) \<and>
    fst (stn_transfer_envelope_accept sha ed economic replay (Some e')) \<noteq> STN_DATA_OK \<and>
    (stn_transfer_envelope_authorization_verify sha ed (Some e') = STN_DATA_OK \<and>
     stn_transfer_envelope_replay_key (Some e') \<noteq> Inl STN_TRANSFER_ENVELOPE_REPLAY_ARGUMENT \<longrightarrow>
       fst (stn_transfer_envelope_accept sha ed economic replay (Some e')) = STN_DATA_DUPLICATE)"
proof -
  have wf: "buffer_wf replay" and mem: "envelope_id e' \<in> set (accepted replay)"
    using economic_run_inv [OF assms(1-4)] assms(5,7) by auto
  have key: "stn_transfer_envelope_replay_key (Some e') = Inl STN_TRANSFER_ENVELOPE_REPLAY_ARGUMENT \<or>
      stn_transfer_envelope_replay_key (Some e') = Inr (envelope_id e')"
  proof (cases "stn_transfer_envelope_replay_key (Some e')")
    case (Inl r)
    then show ?thesis by (simp split: sum.splits)
  next
    case (Inr k)
    then show ?thesis
      unfolding envelope_key_iff [OF assms(6)] envelope_id_def by blast
  qed
  have "stn_transfer_envelope_replay_check replay (Some e') \<noteq> STN_TRANSFER_ENVELOPE_REPLAY_FRESH \<and>
      (stn_transfer_envelope_replay_key (Some e') = Inr (envelope_id e') \<longrightarrow>
        stn_transfer_envelope_replay_check replay (Some e') = STN_TRANSFER_ENVELOPE_REPLAY_DUPLICATE)"
    using key mem buffer_wf_valid [OF wf] by (auto simp: stn_transfer_envelope_replay_check_def)
  then show ?thesis
    using key by (auto simp: stn_transfer_envelope_accept_def Let_def
        simp del: stn_transfer_envelope_authorization_verify.simps stn_transfer_envelope_replay_key.simps)
qed


theorem envelope_replay_refused_witness:
  "\<exists>economic replay.
     stn_transfer_envelope_accept sample_sha sample_ed sample_funded sample_buffer
       (Some sample_envelope) = (STN_DATA_OK, economic, replay) \<and>
     stn_transfer_envelope_accept sample_sha sample_ed economic replay (Some sample_envelope) =
       (STN_DATA_DUPLICATE, economic, replay)"
proof -
  obtain economic replay where r:
      "stn_transfer_envelope_accept sample_sha sample_ed sample_funded sample_buffer
         (Some sample_envelope) = (STN_DATA_OK, economic, replay)"
    using sample_accept by (metis prod.collapse)
  have "economic_run sample_sha sample_ed (sample_funded, sample_buffer) (economic, replay) 0
      [sample_envelope]"
    using run_transfer [OF run_start sample_envelope_wf r] by simp
  moreover have "accepted sample_buffer = []" by (simp add: sample_buffer_def)
  ultimately have "snd (stn_transfer_envelope_accept sample_sha sample_ed economic replay
        (Some sample_envelope)) = (economic, replay) \<and>
      fst (stn_transfer_envelope_accept sample_sha sample_ed economic replay
        (Some sample_envelope)) = STN_DATA_DUPLICATE"
    using envelope_replay_refused [of sample_sha sample_ed "(sample_funded, sample_buffer)" economic
        replay 0 "[sample_envelope]" sample_envelope sample_envelope]
      sample_funded_wf sample_buffer_wf sample_envelope_wf sample_authorized sample_key by simp
  with r show ?thesis by (metis prod.collapse)
qed

theorem envelope_statement_binds_witness:
  "\<exists>m. stn_transfer_envelope_authorization_statement sample_sha (Some sample_envelope) = Inr m \<and>
     (\<forall>e'. wf_envelope e' \<and> stn_transfer_envelope_authorization_statement sample_sha (Some e') = Inr m
       \<longrightarrow> env_transfer e' = sample_transfer)"
proof -
  obtain m where m: "stn_transfer_envelope_authorization_statement sample_sha (Some sample_envelope) = Inr m"
    using sample_statement by blast
  have "env_transfer e' = sample_transfer"
    if "wf_envelope e'" "stn_transfer_envelope_authorization_statement sample_sha (Some e') = Inr m" for e'
  proof -
    have "e' = sample_envelope\<lparr>env_signature := env_signature e'\<rparr>"
      by (rule envelope_statement_binds [OF sample_envelope_wf that(1) m that(2)])
    then have "env_transfer e' = env_transfer (sample_envelope\<lparr>env_signature := env_signature e'\<rparr>)"
      by (rule arg_cong)
    then show ?thesis by (simp add: sample_envelope_def)
  qed
  with m show ?thesis by blast
qed

end
