(* ===== verification/Stn_Block_Header.thy ===== *)
theory Stn_Block_Header
  imports Stn_Work
begin

text \<open>
  The block header and its codec (the header part of \<^verbatim>\<open>src/src/stn_block.c\<close>).
\<close>

definition STN_TX_HEADER_SIZE :: nat where [simp]: "STN_TX_HEADER_SIZE = 12"
definition STN_TX_COMPENSATION_DESTINATION_SIZE :: nat where
  [simp]: "STN_TX_COMPENSATION_DESTINATION_SIZE = 65"
definition STN_TX_MIN_SIZE :: nat where
  [simp]: "STN_TX_MIN_SIZE = STN_TX_HEADER_SIZE + STN_TX_COMPENSATION_DESTINATION_SIZE"
definition STN_TX_CONTRACT_ACTION_MAX_SIZE :: nat where
  [simp]: "STN_TX_CONTRACT_ACTION_MAX_SIZE = 116 + 66656 + 97"
definition STN_TX_MAX_SIZE :: nat where
  [simp]: "STN_TX_MAX_SIZE = STN_TX_HEADER_SIZE + STN_TX_CONTRACT_ACTION_MAX_SIZE"

definition STN_POW_BLOCK_VERSION :: u16 where [simp]: "STN_POW_BLOCK_VERSION = 3"
definition STN_BLOCK_HEADER_SIZE :: nat where [simp]: "STN_BLOCK_HEADER_SIZE = 168"
definition STN_BLOCK_MAX_TRANSACTIONS :: nat where [simp]: "STN_BLOCK_MAX_TRANSACTIONS = 32"
definition STN_BLOCK_MIN_BODY :: nat where [simp]: "STN_BLOCK_MIN_BODY = 4 + STN_TX_MIN_SIZE"
definition STN_BLOCK_MAX_BODY :: nat where
  [simp]: "STN_BLOCK_MAX_BODY = STN_BLOCK_MAX_TRANSACTIONS * (4 + STN_TX_MAX_SIZE)"
definition STN_BLOCK_MAX_SIZE :: nat where
  [simp]: "STN_BLOCK_MAX_SIZE = STN_BLOCK_HEADER_SIZE + STN_BLOCK_MAX_BODY"

record stn_block_header =
  bh_version :: u16
  bh_flags :: u16
  bh_network_id :: bytes
  bh_previous_hash :: bytes
  bh_height :: u64
  bh_timestamp :: u64
  bh_transaction_commitment :: bytes
  bh_reserved_target :: bytes
  bh_reserved_work_nonce :: u64
  bh_transaction_count :: u32
  bh_body_length :: u32

definition wf_header :: "stn_block_header \<Rightarrow> bool" where
  "wf_header h \<longleftrightarrow> length (bh_network_id h) = 32 \<and> length (bh_previous_hash h) = 32 \<and>
     length (bh_transaction_commitment h) = 32 \<and> length (bh_reserved_target h) = 32"

definition block_magic :: bytes where "block_magic = [0x53, 0x54, 0x4e, 0x42]"

lemma length_block_magic [simp, lengths]: "length block_magic = 4"
  by (simp add: block_magic_def)

text \<open>The products are computed in 32 bits, after the count was bounded by 32.\<close>

definition header_valid :: "stn_block_header \<Rightarrow> stn_data_status" where
  "header_valid h =
     (if bh_version h \<noteq> 1 \<and> bh_version h \<noteq> STN_POW_BLOCK_VERSION then STN_DATA_VERSION
      else if bh_flags h \<noteq> 0 \<or>
        (bh_version h = 1 \<and> (bh_reserved_work_nonce h \<noteq> 0 \<or> nonzero (bh_reserved_target h)))
      then STN_DATA_CONTENT
      else if bh_version h = STN_POW_BLOCK_VERSION \<and>
        stn_target_validate (Some (bh_reserved_target h)) \<noteq> STN_DATA_OK
      then STN_DATA_TARGET
      else if (bh_height h = 0) = nonzero (bh_previous_hash h) then STN_DATA_CONTENT
      else if bh_transaction_count h = 0 then
        (if bh_body_length h \<noteq> 0 then STN_DATA_LENGTH else STN_DATA_OK)
      else if unat (bh_transaction_count h) > STN_BLOCK_MAX_TRANSACTIONS \<or>
        bh_body_length h < bh_transaction_count h * word_of_nat STN_BLOCK_MIN_BODY \<or>
        bh_body_length h > bh_transaction_count h * word_of_nat (4 + STN_TX_MAX_SIZE)
      then STN_DATA_LENGTH
      else STN_DATA_OK)"

fun stn_block_header_decode :: "bytes option \<Rightarrow> stn_block_header data_result" where
  "stn_block_header_decode None = Inl STN_DATA_ARGUMENT"
| "stn_block_header_decode (Some bs) =
     (if length bs \<noteq> STN_BLOCK_HEADER_SIZE then Inl STN_DATA_LENGTH
      else if take 4 bs \<noteq> block_magic then Inl STN_DATA_MAGIC
      else
        (let h =
           \<lparr>bh_version = ucast (stn_wire_read (drop 4 bs) 2),
            bh_flags = ucast (stn_wire_read (drop 6 bs) 2),
            bh_network_id = take 32 (drop 8 bs),
            bh_previous_hash = take 32 (drop 40 bs),
            bh_height = stn_wire_read (drop 72 bs) 8,
            bh_timestamp = stn_wire_read (drop 80 bs) 8,
            bh_transaction_commitment = take 32 (drop 88 bs),
            bh_reserved_target = take 32 (drop 120 bs),
            bh_reserved_work_nonce = stn_wire_read (drop 152 bs) 8,
            bh_transaction_count = ucast (stn_wire_read (drop 160 bs) 4),
            bh_body_length = ucast (stn_wire_read (drop 164 bs) 4)\<rparr>;
             status = header_valid h
         in if status = STN_DATA_OK then Inr h else Inl status))"

definition stn_block_header_validate_structure :: "bytes option \<Rightarrow> stn_data_status" where
  "stn_block_header_validate_structure bs = data_status (stn_block_header_decode bs)"

text \<open>The bytes the encoder writes, in order.\<close>

definition header_layout :: "stn_block_header \<Rightarrow> bytes" where
  "header_layout h =
     block_magic @ stn_wire_write 2 (ucast (bh_version h)) @ stn_wire_write 2 (ucast (bh_flags h)) @
     bh_network_id h @ bh_previous_hash h @ stn_wire_write 8 (bh_height h) @
     stn_wire_write 8 (bh_timestamp h) @ bh_transaction_commitment h @ bh_reserved_target h @
     stn_wire_write 8 (bh_reserved_work_nonce h) @
     stn_wire_write 4 (ucast (bh_transaction_count h)) @ stn_wire_write 4 (ucast (bh_body_length h))"

fun stn_block_header_encode :: "stn_block_header option \<Rightarrow> nat \<Rightarrow> bytes data_result" where
  "stn_block_header_encode None capacity = Inl STN_DATA_ARGUMENT"
| "stn_block_header_encode (Some h) capacity =
     (let status = header_valid h
      in if status \<noteq> STN_DATA_OK then Inl status
         else if capacity < STN_BLOCK_HEADER_SIZE then Inl STN_DATA_CAPACITY
         else Inr (header_layout h))"

lemma length_header_layout [simp, lengths]: "wf_header h \<Longrightarrow> length (header_layout h) = 168"
  by (simp add: header_layout_def wf_header_def)

lemma header_encode_iff:
  "stn_block_header_encode (Some h) capacity = Inr bs \<longleftrightarrow>
     header_valid h = STN_DATA_OK \<and> 168 \<le> capacity \<and> bs = header_layout h"
  by (auto simp: Let_def)

lemma header_decode_iff:
  "stn_block_header_decode (Some bs) = Inr h \<longleftrightarrow>
     length bs = 168 \<and> take 4 bs = block_magic \<and> header_valid h = STN_DATA_OK \<and>
     h = \<lparr>bh_version = ucast (stn_wire_read (drop 4 bs) 2),
          bh_flags = ucast (stn_wire_read (drop 6 bs) 2),
          bh_network_id = take 32 (drop 8 bs),
          bh_previous_hash = take 32 (drop 40 bs),
          bh_height = stn_wire_read (drop 72 bs) 8,
          bh_timestamp = stn_wire_read (drop 80 bs) 8,
          bh_transaction_commitment = take 32 (drop 88 bs),
          bh_reserved_target = take 32 (drop 120 bs),
          bh_reserved_work_nonce = stn_wire_read (drop 152 bs) 8,
          bh_transaction_count = ucast (stn_wire_read (drop 160 bs) 4),
          bh_body_length = ucast (stn_wire_read (drop 164 bs) 4)\<rparr>"
  by (auto simp: Let_def)

declare stn_block_header_encode.simps(2) [simp del] stn_block_header_decode.simps(2) [simp del]

lemma header_layout_decode:
  assumes "stn_block_header_decode (Some bs) = Inr h"
  shows "header_layout h = bs"
proof -
  have h: "length bs = 168" "take 4 bs = block_magic" and eq: "h =
      \<lparr>bh_version = ucast (stn_wire_read (drop 4 bs) 2),
       bh_flags = ucast (stn_wire_read (drop 6 bs) 2),
       bh_network_id = take 32 (drop 8 bs),
       bh_previous_hash = take 32 (drop 40 bs),
       bh_height = stn_wire_read (drop 72 bs) 8,
       bh_timestamp = stn_wire_read (drop 80 bs) 8,
       bh_transaction_commitment = take 32 (drop 88 bs),
       bh_reserved_target = take 32 (drop 120 bs),
       bh_reserved_work_nonce = stn_wire_read (drop 152 bs) 8,
       bh_transaction_count = ucast (stn_wire_read (drop 160 bs) 4),
       bh_body_length = ucast (stn_wire_read (drop 164 bs) 4)\<rparr>"
    using assms unfolding header_decode_iff by blast+
  show ?thesis
    unfolding header_layout_def eq h(2) [symmetric] using h(1) by (simp add: slices)
qed

lemma header_decode_layout:
  assumes "wf_header h" "header_valid h = STN_DATA_OK"
  shows "stn_block_header_decode (Some (header_layout h)) = Inr h"
  unfolding header_decode_iff using assms
  by (cases h) (simp add: header_layout_def wf_header_def)

lemma header_decode_wf:
  assumes "stn_block_header_decode (Some bs) = Inr h"
  shows "wf_header h" "header_valid h = STN_DATA_OK" "length bs = 168"
  using assms unfolding header_decode_iff by (auto simp: wf_header_def)

interpretation header_codec: codec
  "\<lambda>h. stn_block_header_encode (Some h) STN_BLOCK_HEADER_SIZE"
  "\<lambda>bs. stn_block_header_decode (Some bs)" wf_header
proof
  fix h bs
  assume "wf_header h" "stn_block_header_encode (Some h) STN_BLOCK_HEADER_SIZE = Inr bs"
  then show "stn_block_header_decode (Some bs) = Inr h"
    unfolding header_encode_iff using header_decode_layout by blast
next
  fix h bs
  assume "stn_block_header_decode (Some bs) = Inr h"
  then show "stn_block_header_encode (Some h) STN_BLOCK_HEADER_SIZE = Inr bs"
    unfolding header_encode_iff using header_layout_decode header_decode_wf by simp
qed (rule header_decode_wf)

end
