(* ===== verification/Stn_Retarget.thy ===== *)
theory Stn_Retarget
  imports Stn_Block_Header Stn_Work_Correct
begin

text \<open>
  The required target of a height (\<^verbatim>\<open>stn_target_next\<close> of \<^verbatim>\<open>src/src/stn_pow.c\<close>): the bootstrap target
  below height 60, the predecessor's target in between, and every 60 blocks the predecessor's
  target scaled by the clamped time span of the last 60 headers. The multiplication and the division
  are byte loops on a 34-byte number.
\<close>

text \<open>\<^verbatim>\<open>for(i=0;i<34;++i){v=remainder*256u+scaled[i]; quotient[i]=v/3600u; remainder=v%3600u;}\<close>\<close>

fun quotient_loop :: "u32 \<Rightarrow> bytes \<Rightarrow> bytes" where
  "quotient_loop r [] = []"
| "quotient_loop r (b # bs) =
     (let v = r * 256 + ucast b
      in ucast (v div 3600) # quotient_loop (v mod 3600) bs)"

text \<open>The history loop: heights, versions and targets; below the first retarget the bootstrap target.\<close>

fun history_loop :: "u64 \<Rightarrow> bytes \<Rightarrow> nat \<Rightarrow> nat \<Rightarrow> stn_block_header list \<Rightarrow> stn_data_status" where
  "history_loop height bootstrap count i [] = STN_DATA_OK"
| "history_loop height bootstrap count i (h # hs) =
     (if bh_height h \<noteq> height - word_of_nat count + word_of_nat i \<or>
         bh_version h \<noteq> STN_POW_BLOCK_VERSION then STN_DATA_CONTENT
      else
        (let status = stn_target_validate (Some (bh_reserved_target h))
         in if status \<noteq> STN_DATA_OK then status
            else if height \<le> 60 \<and> memcmp (bh_reserved_target h) bootstrap \<noteq> 0 then STN_DATA_CONTENT
            else history_loop height bootstrap count (i + 1) hs))"

definition boundary :: "u64 \<Rightarrow> bool" where
  "boundary height \<longleftrightarrow> height \<ge> 60 \<and> height mod 60 = 0"

definition required_history :: "u64 \<Rightarrow> nat" where
  "required_history height = (if height = 0 then 0 else if boundary height then 60 else 1)"

text \<open>The retarget of one boundary, from the first and the last header of the window.\<close>

definition retarget :: "stn_block_header \<Rightarrow> stn_block_header \<Rightarrow> bytes" where
  "retarget first final =
     (let span = (if bh_timestamp final \<le> bh_timestamp first then 0
                  else bh_timestamp final - bh_timestamp first);
          factor = (if span < 900 then 900 else if span > 14400 then 14400 else ucast span) :: u32;
          (scaled, carry) = carry_loop (\<lambda>b c. ucast b * factor + c) 0 (bh_reserved_target final);
          quotient = quotient_loop 0
            (ucast (drop_bit 8 carry) # ucast (carry AND 255) # scaled)
      in if quotient ! 0 \<noteq> 0 \<or> quotient ! 1 \<noteq> 0 \<or> quotient ! 2 \<ge> 128
         then 127 # replicate 31 255
         else
           (let result = drop 2 quotient
            in if stn_target_validate (Some result) \<noteq> STN_DATA_OK then result[31 := 1] else result))"

definition stn_target_next ::
  "u64 \<Rightarrow> bytes option \<Rightarrow> stn_block_header list option \<Rightarrow> nat \<Rightarrow> bytes data_result" where
  "stn_target_next height bootstrap history count =
     (let status = stn_target_validate bootstrap
      in if status \<noteq> STN_DATA_OK then Inl status
         else
           (let required = required_history height;
                hs = (case history of None \<Rightarrow> [] | Some xs \<Rightarrow> take count xs)
            in if count < required \<or> (required \<noteq> 0 \<and> history = None) then Inl STN_DATA_UNRESOLVED
               else if count \<noteq> required then Inl STN_DATA_CONTENT
               else
                 (let status' = history_loop height (the bootstrap) count 0 hs
                  in if status' \<noteq> STN_DATA_OK then Inl status'
                     else if \<not> boundary height
                     then Inr (if height < 60 then the bootstrap
                               else bh_reserved_target (hs ! (count - 1)))
                     else Inr (retarget (hs ! 0) (hs ! 59)))))"

section \<open>The byte loops\<close>

lemma unat_div_32: "unat (v div 3600 :: u32) = unat v div 3600"
  by (simp add: unat_div)

lemma unat_mod_32: "unat (v mod 3600 :: u32) = unat v mod 3600"
  by (simp add: unat_mod)

lemma length_quotient_loop [simp, lengths]: "length (quotient_loop r bs) = length bs"
  by (induction bs arbitrary: r) (simp_all add: Let_def)

lemma digits_join: "3600 * (d * P) + (m * P + b) = (d * 3600 + m) * P + (b :: nat)"
  by (simp add: algebra_simps)

lemma quotient_loop_value:
  "unat r < 3600 \<Longrightarrow> be (quotient_loop r bs) = (unat r * 256 ^ length bs + be bs) div 3600"
proof (induction bs arbitrary: r)
  case Nil
  then show ?case by simp
next
  case (Cons b bs)
  let ?v = "r * 256 + ucast b :: u32" and ?P = "256 ^ length bs :: nat"
  have b: "unat b < 256" using unsigned_less [of b, where ?'a = nat] by simp
  have v: "unat ?v = unat r * 256 + unat b"
  proof -
    have "unat (r * 256) = unat r * 256"
      using Cons.prems by (simp add: unat_mult_lem [THEN iffD1])
    moreover have "unat r * 256 + unat b < 4294967296"
      using Cons.prems b by linarith
    ultimately show ?thesis
      by (simp add: unat_add_lem [THEN iffD1])
  qed
  have "unat r * 256 + unat b < 256 * 3600"
    using Cons.prems b by linarith
  then have small: "unat ?v div 3600 < 256"
    unfolding v by (rule less_mult_imp_div_less)
  then have q: "unat (ucast (?v div 3600) :: u8) = unat ?v div 3600"
    by (simp add: unsigned_ucast_eq unat_div_32 take_bit_nat_eq_self)
  have IH: "be (quotient_loop (?v mod 3600) bs) = (unat ?v mod 3600 * ?P + be bs) div 3600"
    using Cons.IH [of "?v mod 3600"] by (simp add: unat_mod_32)
  have "be (quotient_loop r (b # bs)) = (unat ?v div 3600) * ?P + (unat ?v mod 3600 * ?P + be bs) div 3600"
    by (simp add: Let_def q IH)
  also have "\<dots> = (3600 * ((unat ?v div 3600) * ?P) + (unat ?v mod 3600 * ?P + be bs)) div 3600"
    by (simp add: div_mult_self2)
  also have "3600 * ((unat ?v div 3600) * ?P) + (unat ?v mod 3600 * ?P + be bs) =
      (unat ?v div 3600 * 3600 + unat ?v mod 3600) * ?P + be bs"
    by (rule digits_join)
  also have "\<dots> = unat r * 256 ^ length (b # bs) + be (b # bs)"
    by (simp only: div_mult_mod_eq v) (simp add: algebra_simps)
  finally show ?case .
qed

lemma quotient_zero: "be (quotient_loop 0 bs) = be bs div 3600"
  using quotient_loop_value [of 0 bs] by simp

declare quotient_loop.simps [simp del]

text \<open>The clamped span of a window, as a number.\<close>

definition window_span :: "stn_block_header \<Rightarrow> stn_block_header \<Rightarrow> nat" where
  "window_span first final =
     max 900 (min 14400 (unat (bh_timestamp final) - unat (bh_timestamp first)))"


lemma factor_eq:
  fixes span :: u64
  shows "(if span < 900 then 900 else if span > 14400 then 14400 else ucast span :: u32) =
    word_of_nat (max 900 (min 14400 (unat span)))"
proof (cases "span < 900 \<or> span > 14400")
  case True
  then show ?thesis by (auto simp: word_less_nat_alt max_def min_def)
next
  case False
  then have b: "900 \<le> unat span" "unat span \<le> 14400"
    by (auto simp: word_less_nat_alt)
  then have "unat (ucast span :: u32) = unat span"
    by (simp add: unsigned_ucast_eq take_bit_nat_eq_self)
  then have "ucast span = (word_of_nat (unat span) :: u32)"
    by (simp add: word_unat_eq_iff)
  with False b show ?thesis by (simp add: max_def min_def)
qed

lemma span_value:
  "unat (if b \<le> a then 0 else b - a :: u64) = unat b - unat a"
  by (auto simp: word_le_nat_alt unat_sub_if')

lemma carry_bytes:
  assumes "unat (c :: u32) < 65536"
  shows "unat (ucast (drop_bit 8 c) :: u8) * 256 ^ 33 + unat (ucast (c AND 255) :: u8) * 256 ^ 32 =
    unat c * 256 ^ 32"
proof -
  have "unat (ucast (drop_bit 8 c) :: u8) = unat c div 256"
    using assms by (simp add: unsigned_ucast_eq unat_carry take_bit_nat_eq_self less_mult_imp_div_less)
  moreover have "unat (ucast (c AND 255) :: u8) = unat c mod 256"
    by (rule unat_low_byte_32)
  moreover have "unat c mod 256 * 256 ^ 32 + unat c div 256 * (256 * 256 ^ 32) = unat c * 256 ^ 32"
    by (rule split_256)
  moreover have "(256 :: nat) ^ 33 = 256 * 256 ^ 32" by simp
  ultimately show ?thesis
    by (simp only: add.commute)
qed

lemma quotient_split:
  assumes "length q = 34"
  shows "be q = unat (q ! 0) * 256 ^ 33 + unat (q ! 1) * 256 ^ 32 + be (drop 2 q)"
proof -
  have "q = q ! 0 # q ! 1 # drop 2 q"
    using assms by (cases q; cases "tl q") auto
  then have "be q = be (q ! 0 # q ! 1 # drop 2 q)" by simp
  then show ?thesis
    unfolding be.simps using assms by simp
qed

text \<open>The retarget computes the scaled target, saturated and never zero.\<close>

lemma retarget_value:
  assumes "stn_target_validate (Some (bh_reserved_target final)) = STN_DATA_OK"
  shows "length (retarget first final) = 32 \<and>
    be (retarget first final) =
      max 1 (min (2 ^ 255 - 1) (be (bh_reserved_target final) * window_span first final div 3600))"
proof -
  let ?t = "bh_reserved_target final" and ?k = "window_span first final"
  define rc where "rc = carry_loop (\<lambda>b c. ucast b * word_of_nat ?k + c) 0 ?t"
  define q where "q = quotient_loop 0
      (ucast (drop_bit 8 (snd rc)) # ucast (snd rc AND 255) # fst rc)"
  have t: "length ?t = 32" using target_validate_length [OF assms] .
  have k: "0 < ?k" "?k \<le> 14400" by (auto simp: window_span_def)
  have val: "be (fst rc) + unat (snd rc) * 256 ^ 32 = ?k * be ?t"
    using carry_loop_linear [of ?k 0 ?t] k t by (simp add: rc_def)
  have "unat (snd rc) \<le> ?k"
    using carry_loop_value [of ?k "\<lambda>b c. ucast b * word_of_nat ?k + c" 0 ?t] linear_step [of ?k] k
    unfolding rc_def by simp
  then have c: "unat (snd rc) < 65536" using k by linarith
  have lr: "length (fst rc) = 32" using t by (simp add: rc_def)
  then have lq: "length q = 34" unfolding q_def length_quotient_loop by simp
  have "be q = be (ucast (drop_bit 8 (snd rc)) # ucast (snd rc AND 255) # fst rc) div 3600"
    unfolding q_def by (rule quotient_zero)
  also have "be (ucast (drop_bit 8 (snd rc)) # ucast (snd rc AND 255) # fst rc) =
      unat (ucast (drop_bit 8 (snd rc)) :: u8) * 256 ^ 33 + unat (ucast (snd rc AND 255) :: u8) * 256 ^ 32 +
      be (fst rc)"
    using t unfolding be.simps by (simp add: rc_def)
  also have "\<dots> = ?k * be ?t"
    unfolding carry_bytes [OF c] using val by linarith
  finally have q: "be q = be ?t * ?k div 3600" by (simp only: mult.commute)
  have lo: "length (drop 2 q) = 32" "drop 2 q ! 0 = q ! 2"
    using lq by simp_all
  have split: "be q = unat (q ! 0) * 256 ^ 33 + unat (q ! 1) * 256 ^ 32 + be (drop 2 q)"
    using quotient_split [OF lq] .
  have fit: "(q ! 0 \<noteq> 0 \<or> q ! 1 \<noteq> 0 \<or> q ! 2 \<ge> 128) \<longleftrightarrow> 2 ^ 255 \<le> be q"
  proof (cases "q ! 0 = 0 \<and> q ! 1 = 0")
    case True
    then have "be q = be (drop 2 q)" using split by simp
    then show ?thesis
      using top_bit_clear_iff [OF lo(1)] True unfolding lo(2) by (simp only: not_less [symmetric]) simp
  next
    case False
    then have "1 \<le> unat (q ! 0) \<or> 1 \<le> unat (q ! 1)"
      by (auto simp: Suc_le_eq unat_gt_0)
    then have "256 ^ 32 \<le> be q"
    proof
      assume "1 \<le> unat (q ! 0)"
      then have "1 * 256 ^ 33 \<le> unat (q ! 0) * 256 ^ 33" by (rule mult_le_mono1)
      moreover have "(256 :: nat) ^ 32 \<le> 1 * 256 ^ 33" by simp
      ultimately show ?thesis unfolding split by linarith
    next
      assume "1 \<le> unat (q ! 1)"
      then have "1 * 256 ^ 32 \<le> unat (q ! 1) * 256 ^ 32" by (rule mult_le_mono1)
      then show ?thesis unfolding split by linarith
    qed
    moreover have "(2 :: nat) ^ 255 \<le> 256 ^ 32" by simp
    ultimately show ?thesis using False by (auto intro: order_trans)
  qed
  have eq: "retarget first final =
      (if q ! 0 \<noteq> 0 \<or> q ! 1 \<noteq> 0 \<or> q ! 2 \<ge> 128 then 127 # replicate 31 255
       else if stn_target_validate (Some (drop 2 q)) \<noteq> STN_DATA_OK then (drop 2 q)[31 := 1] else drop 2 q)"
    unfolding retarget_def Let_def factor_eq span_value window_span_def [symmetric] case_prod_unfold
      rc_def [symmetric] q_def [symmetric] by simp
  show ?thesis
  proof (cases "2 ^ 255 \<le> be q")
    case True
    then have "retarget first final = 127 # replicate 31 255"
      unfolding eq fit by simp
    then show ?thesis
      using True be_max_target unfolding q by simp
  next
    case False
    then have small: "be q < 2 ^ 255" by simp
    then have zero: "q ! 0 = 0" "q ! 1 = 0" using fit by auto
    then have bq: "be q = be (drop 2 q)" using split by simp
    have ok: "stn_target_validate (Some (drop 2 q)) = STN_DATA_OK \<longleftrightarrow> be q \<noteq> 0"
      unfolding target_validate_iff bq [symmetric] using lo(1) small by simp
    show ?thesis
    proof (cases "be q = 0")
      case True
      then have "drop 2 q = replicate 32 0"
        using bq lo(1) by (simp add: be_eq_0_iff replicate_eqI)
      then have "retarget first final = (replicate 32 0)[31 := 1]"
        unfolding eq fit using ok True False by simp
      moreover have "be ((replicate 32 0)[31 := 1]) = 1"
        using be_update [of 31 "replicate 32 0" 1] by simp
      ultimately show ?thesis using True unfolding q by simp
    next
      case nz: False
      then have "retarget first final = drop 2 q"
        unfolding eq fit using ok False by simp
      then show ?thesis using nz small bq lo(1) unfolding q by simp
    qed
  qed
qed


lemma clamp_bounds: "0 < max 1 (min (2 ^ 255 - 1) y) \<and> max 1 (min (2 ^ 255 - 1) y) < (2 :: nat) ^ 255"
  by (simp add: max_def min_def)

lemma retarget_valid:
  assumes "stn_target_validate (Some (bh_reserved_target final)) = STN_DATA_OK"
  shows "stn_target_validate (Some (retarget first final)) = STN_DATA_OK"
proof -
  note v = retarget_value [OF assms, of first]
  show ?thesis
    unfolding target_validate_iff v [THEN conjunct2] using v [THEN conjunct1] clamp_bounds by blast
qed

section \<open>The required target\<close>

definition history_entry_ok :: "u64 \<Rightarrow> bytes \<Rightarrow> nat \<Rightarrow> nat \<Rightarrow> stn_block_header \<Rightarrow> bool" where
  "history_entry_ok height bootstrap count i h \<longleftrightarrow>
     bh_height h = height - word_of_nat count + word_of_nat i \<and> bh_version h = 3 \<and>
     stn_target_validate (Some (bh_reserved_target h)) = STN_DATA_OK \<and>
     (height \<le> 60 \<longrightarrow> bh_reserved_target h = bootstrap)"

lemma history_loop_iff:
  "history_loop height bootstrap count i hs = STN_DATA_OK \<longleftrightarrow>
     (\<forall>j < length hs. history_entry_ok height bootstrap count (i + j) (hs ! j))"
proof (induction hs arbitrary: i)
  case Nil
  then show ?case by simp
next
  case (Cons h hs)
  have "history_loop height bootstrap count i (h # hs) = STN_DATA_OK \<longleftrightarrow>
      history_entry_ok height bootstrap count i h \<and>
      history_loop height bootstrap count (i + 1) hs = STN_DATA_OK"
    by (auto simp: history_entry_ok_def Let_def)
  also have "\<dots> \<longleftrightarrow> (\<forall>j < length (h # hs). history_entry_ok height bootstrap count (i + j) ((h # hs) ! j))"
    unfolding Cons.IH by (auto simp: less_Suc_eq_0_disj all_conj_distrib)
  finally show ?case .
qed

lemma target_next_iff:
  assumes "stn_target_validate (Some b) = STN_DATA_OK" "length hs = count"
  shows "stn_target_next height (Some b) (Some hs) count = Inr t \<longleftrightarrow>
    count = required_history height \<and>
    (\<forall>j < count. history_entry_ok height b count j (hs ! j)) \<and>
    t = (if boundary height then retarget (hs ! 0) (hs ! 59)
         else if height < 60 then b else bh_reserved_target (hs ! (count - 1)))"
  using assms history_loop_iff [of height b count 0 hs]
  by (auto simp: stn_target_next_def Let_def split: if_splits)

text \<open>
  C20. The required target. Given a valid bootstrap target and the decoded history, the rule answers
  exactly when the history has the required number of headers, each with its height, version 3, a
  valid target and, up to height 60, the bootstrap target. Below height 60 the answer is the
  bootstrap target; between boundaries it is the predecessor's target; at a boundary it is the
  predecessor's target times the clamped span (900 to 14400 seconds, 0 for a clock that went back)
  divided by 3600 and rounded down, saturated at \<open>2^255 - 1\<close> and never below 1. The answer is
  always a valid target.
\<close>

theorem target_next_correct:
  assumes "stn_target_validate (Some b) = STN_DATA_OK" "length hs = count"
  shows "case stn_target_next height (Some b) (Some hs) count of
      Inl _ \<Rightarrow> \<not> (count = required_history height \<and>
        (\<forall>j < count. history_entry_ok height b count j (hs ! j)))
    | Inr t \<Rightarrow>
        count = required_history height \<and>
        (\<forall>j < count. history_entry_ok height b count j (hs ! j)) \<and>
        stn_target_validate (Some t) = STN_DATA_OK \<and>
        (if boundary height
         then be t = max 1 (min (2 ^ 255 - 1)
           (be (bh_reserved_target (hs ! 59)) *
            max 900 (min 14400 (unat (bh_timestamp (hs ! 59)) - unat (bh_timestamp (hs ! 0)))) div 3600))
         else t = (if height < 60 then b else bh_reserved_target (hs ! (count - 1))))"
proof (cases "stn_target_next height (Some b) (Some hs) count")
  case (Inl e)
  then show ?thesis
    using target_next_iff [OF assms, of height] by auto
next
  case (Inr t)
  then have t: "count = required_history height"
      "\<forall>j < count. history_entry_ok height b count j (hs ! j)"
      "t = (if boundary height then retarget (hs ! 0) (hs ! 59)
         else if height < 60 then b else bh_reserved_target (hs ! (count - 1)))"
    unfolding target_next_iff [OF assms] by blast+
  have valid: "stn_target_validate (Some (bh_reserved_target (hs ! j))) = STN_DATA_OK" if "j < count" for j
    using t(2) that by (simp add: history_entry_ok_def)
  show ?thesis
  proof (cases "boundary height")
    case True
    then have v: "stn_target_validate (Some (bh_reserved_target (hs ! 59))) = STN_DATA_OK"
      using t(1) by (intro valid) (auto simp: required_history_def boundary_def)
    have "t = retarget (hs ! 0) (hs ! 59)" using t(3) True by simp
    then show ?thesis
      using t(1,2) True retarget_value [OF v, of "hs ! 0"] retarget_valid [OF v, of "hs ! 0"]
      unfolding Inr sum.case window_span_def by presburger
  next
    case False
    have "0 < count" if "\<not> height < 60"
      using t(1) False that by (cases "height = 0") (auto simp: required_history_def)
    then have "stn_target_validate (Some t) = STN_DATA_OK"
      using t(3) False assms(1) valid [of "count - 1"] by auto
    with t False show ?thesis
      unfolding Inr sum.case by presburger
  qed
qed

definition sample_header :: "nat \<Rightarrow> stn_block_header" where
  "sample_header i =
     \<lparr>bh_version = 3, bh_flags = 0, bh_network_id = replicate 32 1, bh_previous_hash = replicate 32 2,
      bh_height = word_of_nat i, bh_timestamp = word_of_nat (30 * i),
      bh_transaction_commitment = replicate 32 4, bh_reserved_target = replicate 31 0 @ [200],
      bh_reserved_work_nonce = 0, bh_transaction_count = 0, bh_body_length = 0\<rparr>"

definition sample_history :: "stn_block_header list" where
  "sample_history = map sample_header [0..<60]"

text \<open>A window of 60 headers, 30 seconds apart: the span is 1770 and \<open>200 * 1770 div 3600\<close> is 98.\<close>

theorem target_next_correct_witness:
  "\<exists>t. stn_target_next 60 (Some (replicate 31 0 @ [200])) (Some sample_history) 60 = Inr t \<and>
     be t = 98"
proof -
  have b: "stn_target_validate (Some (replicate 31 0 @ [200])) = STN_DATA_OK"
    by (simp add: target_validate_iff be_append)
  have len: "length sample_history = 60" by (simp add: sample_history_def)
  have hd: "required_history 60 = 60" "boundary 60"
    by (simp_all add: required_history_def boundary_def)
  have "history_entry_ok 60 (replicate 31 0 @ [200]) 60 j (sample_history ! j)" if "j < 60" for j
    using that b by (simp add: history_entry_ok_def sample_history_def sample_header_def)
  then have "stn_target_next 60 (Some (replicate 31 0 @ [200])) (Some sample_history) 60 \<noteq> Inl e" for e
    using target_next_correct [OF b len, of 60] hd by auto
  then obtain t where
      t: "stn_target_next 60 (Some (replicate 31 0 @ [200])) (Some sample_history) 60 = Inr t"
    by (metis sumE)
  have "be t = 98"
    using target_next_correct [OF b len, of 60] hd(2) unfolding t
    by (simp add: sample_history_def sample_header_def be_append)
  with t show ?thesis by blast
qed

end
