(* ===== verification/Stn_Share.thy ===== *)
theory Stn_Share
  imports Stn_Block_Header Stn_Address Stn_Work_Correct
begin

text \<open>
  Mining share evidence (\<^verbatim>\<open>src/src/stn_share.c\<close>) and its replay registry
  (\<^verbatim>\<open>src/src/stn_share_replay.c\<close>). The SHA-256 function the share identifier uses is the
  parameter \<open>sha\<close>; verification uses the hash provider it is given.
\<close>

section \<open>The evidence\<close>

definition STN_SHARE_VERSION :: u8 where "STN_SHARE_VERSION = 2"
definition STN_SHARE_TEMPLATE_HEADER_SIZE :: nat where [simp]: "STN_SHARE_TEMPLATE_HEADER_SIZE = 168"
definition STN_SHARE_CANONICAL_SIZE :: nat where [simp]: "STN_SHARE_CANONICAL_SIZE = 273"

record stn_share_evidence =
  sh_work_id :: bytes
  sh_miner :: stn_address
  sh_nonce :: u64
  sh_template_header :: bytes
  sh_body_commitment :: bytes

definition wf_share :: "stn_share_evidence \<Rightarrow> bool" where
  "wf_share s \<longleftrightarrow> length (sh_work_id s) = 32 \<and> wf_address (sh_miner s) \<and>
     length (sh_template_header s) = 168 \<and> length (sh_body_commitment s) = 32"

text \<open>The header test encoder and decoder share.\<close>

definition share_header_ok :: "bytes \<Rightarrow> bytes \<Rightarrow> bool" where
  "share_header_ok template commitment =
     (case stn_block_header_decode (Some template) of
        Inl _ \<Rightarrow> False
      | Inr header \<Rightarrow>
          bh_version header = STN_POW_BLOCK_VERSION \<and>
          memcmp (bh_transaction_commitment header) commitment = 0)"

fun stn_share_encode :: "stn_share_evidence option \<Rightarrow> bytes data_result" where
  "stn_share_encode None = Inl STN_DATA_ARGUMENT"
| "stn_share_encode (Some s) =
     (if addr_type (sh_miner s) \<noteq> STN_ADDRESS_IDENTITY then Inl STN_DATA_TYPE
      else if \<not> share_header_ok (sh_template_header s) (sh_body_commitment s)
      then Inl STN_DATA_CONTENT
      else Inr (STN_SHARE_VERSION # sh_work_id s @ addr_id (sh_miner s) @
                stn_wire_write 8 (sh_nonce s) @ sh_template_header s @ sh_body_commitment s))"

fun stn_share_decode :: "bytes option \<Rightarrow> stn_share_evidence data_result" where
  "stn_share_decode None = Inl STN_DATA_ARGUMENT"
| "stn_share_decode (Some canonical) =
     (if length canonical \<noteq> STN_SHARE_CANONICAL_SIZE then Inl STN_DATA_LENGTH
      else if canonical ! 0 \<noteq> STN_SHARE_VERSION then Inl STN_DATA_VERSION
      else
        (let share =
           \<lparr>sh_work_id = take 32 (drop 1 canonical),
            sh_miner = \<lparr>addr_type = STN_ADDRESS_IDENTITY, addr_id = take 32 (drop 33 canonical)\<rparr>,
            sh_nonce = stn_wire_read (drop 65 canonical) 8,
            sh_template_header = take 168 (drop 73 canonical),
            sh_body_commitment = take 32 (drop 241 canonical)\<rparr>
         in if \<not> share_header_ok (sh_template_header share) (sh_body_commitment share)
            then Inl STN_DATA_CONTENT else Inr share))"

fun stn_share_id :: "stn_hash_fn \<Rightarrow> stn_share_evidence option \<Rightarrow> bytes data_result" where
  "stn_share_id sha None = Inl STN_DATA_ARGUMENT"
| "stn_share_id sha (Some s) =
     (case stn_share_encode (Some s) of
        Inl status \<Rightarrow> Inl status
      | Inr canonical \<Rightarrow> sha (cstring ''STN-CHAIN:SHARE:ID:1'') canonical)"

section \<open>Verification\<close>

definition report_status :: "stn_data_status \<Rightarrow> stn_data_status" where
  "report_status s = (if s = STN_DATA_UNRESOLVED then s else STN_DATA_PROVIDER_ERROR)"

definition work_id_from_evidence :: "stn_share_evidence \<Rightarrow> stn_hash_provider \<Rightarrow> bytes data_result" where
  "work_id_from_evidence share provider =
     (case provider of
        None \<Rightarrow> Inl STN_DATA_ARGUMENT
      | Some hash \<Rightarrow>
          (case hash (cstring ''STN-CHAIN:WORK:ID:1'') (sh_template_header share) of
             Inr work_id \<Rightarrow> Inr work_id
           | Inl status \<Rightarrow> Inl (report_status status)))"

definition stn_share_verify_evidence ::
  "stn_share_evidence option \<Rightarrow> stn_hash_provider \<Rightarrow> bytes data_result" where
  "stn_share_verify_evidence share provider =
     (case (share, provider) of
        (Some s, Some hash) \<Rightarrow>
          if addr_type (sh_miner s) \<noteq> STN_ADDRESS_IDENTITY then Inl STN_DATA_TYPE
          else
            (case stn_block_header_decode (Some (sh_template_header s)) of
               Inl status \<Rightarrow> Inl status
             | Inr header \<Rightarrow>
                 if bh_version header \<noteq> STN_POW_BLOCK_VERSION then Inl STN_DATA_VERSION
                 else
                   (case work_id_from_evidence s provider of
                      Inl status \<Rightarrow> Inl status
                    | Inr work_id \<Rightarrow>
                        if memcmp work_id (sh_work_id s) \<noteq> 0 then Inl STN_DATA_CONTENT
                        else
                          (case stn_economy_share_target (Some (bh_reserved_target header)) of
                             Inl status \<Rightarrow> Inl status
                           | Inr share_target \<Rightarrow>
                               (case stn_block_header_encode
                                       (Some (header\<lparr>bh_reserved_work_nonce := sh_nonce s\<rparr>))
                                       STN_SHARE_TEMPLATE_HEADER_SIZE of
                                  Inl status \<Rightarrow> Inl status
                                | Inr header_bytes \<Rightarrow>
                                    if length header_bytes \<noteq> STN_SHARE_TEMPLATE_HEADER_SIZE
                                    then Inl STN_DATA_CONTENT
                                    else
                                      (case hash (cstring ''STN-CHAIN:BLOCK:ID:1'') header_bytes of
                                         Inl status \<Rightarrow> Inl (report_status status)
                                       | Inr digest \<Rightarrow>
                                           (let status = stn_pow_compare (Some digest) share_target
                                            in if status = STN_DATA_OK then Inr digest
                                               else Inl status))))))
      | _ \<Rightarrow> Inl STN_DATA_ARGUMENT)"

definition stn_share_verify ::
  "stn_share_evidence option \<Rightarrow> bytes option \<Rightarrow> stn_hash_provider \<Rightarrow> bytes data_result" where
  "stn_share_verify share canonical_template provider =
     (case (share, canonical_template, provider) of
        (Some s, Some template, Some _) \<Rightarrow>
          if length template < STN_BLOCK_HEADER_SIZE \<or> length template > STN_BLOCK_MAX_SIZE
          then Inl STN_DATA_LENGTH
          else if memcmp (take STN_SHARE_TEMPLATE_HEADER_SIZE template) (sh_template_header s) \<noteq> 0
          then Inl STN_DATA_CONTENT
          else stn_share_verify_evidence share provider
      | _ \<Rightarrow> Inl STN_DATA_ARGUMENT)"

section \<open>The replay registry of shares\<close>

datatype stn_share_replay_result =
    STN_SHARE_REPLAY_FRESH | STN_SHARE_REPLAY_DUPLICATE
  | STN_SHARE_REPLAY_CAPACITY | STN_SHARE_REPLAY_ARGUMENT

text \<open>\<^verbatim>\<open>key[64+i]=(uint8_t)(nonce>>(56-8*i))\<close>.\<close>

definition nonce_bytes :: "u64 \<Rightarrow> bytes" where
  "nonce_bytes nonce = map (\<lambda>i. ucast (drop_bit (56 - 8 * i) nonce)) [0..<8]"

fun stn_share_replay_key :: "stn_share_evidence option \<Rightarrow> stn_share_replay_result + bytes" where
  "stn_share_replay_key None = Inl STN_SHARE_REPLAY_ARGUMENT"
| "stn_share_replay_key (Some s) =
     (if addr_type (sh_miner s) \<noteq> STN_ADDRESS_IDENTITY then Inl STN_SHARE_REPLAY_ARGUMENT
      else Inr (sh_work_id s @ addr_id (sh_miner s) @ nonce_bytes (sh_nonce s)))"

definition stn_share_replay_initialize :: "bytes list option \<Rightarrow> nat \<Rightarrow> key_buffer" where
  "stn_share_replay_initialize buf capacity = key_buffer_initialize buf capacity"

definition stn_share_replay_check ::
  "key_buffer \<Rightarrow> stn_share_evidence option \<Rightarrow> stn_share_replay_result" where
  "stn_share_replay_check state share =
     (if \<not> buffer_valid state then STN_SHARE_REPLAY_ARGUMENT
      else
        (case stn_share_replay_key share of
           Inl _ \<Rightarrow> STN_SHARE_REPLAY_ARGUMENT
         | Inr key \<Rightarrow>
             if scan_key state key then STN_SHARE_REPLAY_DUPLICATE else STN_SHARE_REPLAY_FRESH))"

definition stn_share_replay_consume ::
  "key_buffer \<Rightarrow> stn_share_evidence option \<Rightarrow> stn_share_replay_result \<times> key_buffer" where
  "stn_share_replay_consume state share =
     (if \<not> buffer_valid state then (STN_SHARE_REPLAY_ARGUMENT, state)
      else
        (case stn_share_replay_key share of
           Inl _ \<Rightarrow> (STN_SHARE_REPLAY_ARGUMENT, state)
         | Inr key \<Rightarrow>
             (let result = stn_share_replay_check state share
              in if result \<noteq> STN_SHARE_REPLAY_FRESH then (result, state)
                 else if consumed_count state = consumed_capacity state
                 then (STN_SHARE_REPLAY_CAPACITY, state)
                 else (STN_SHARE_REPLAY_FRESH, store_key state key))))"

interpretation share_replay: key_registry
  stn_share_replay_check stn_share_replay_consume "\<lambda>s. sum_right (stn_share_replay_key s)"
  STN_SHARE_REPLAY_FRESH STN_SHARE_REPLAY_DUPLICATE STN_SHARE_REPLAY_CAPACITY
  by unfold_locales
     (auto simp: stn_share_replay_check_def stn_share_replay_consume_def buffer_wf_valid
       simp del: stn_share_replay_key.simps)

section \<open>The format is canonical\<close>

lemma share_encode_iff:
  "stn_share_encode (Some s) = Inr bs \<longleftrightarrow>
     addr_type (sh_miner s) = STN_ADDRESS_IDENTITY \<and>
     share_header_ok (sh_template_header s) (sh_body_commitment s) \<and>
     bs = STN_SHARE_VERSION # sh_work_id s @ addr_id (sh_miner s) @
       stn_wire_write 8 (sh_nonce s) @ sh_template_header s @ sh_body_commitment s"
  by auto

lemma share_decode_iff:
  "stn_share_decode (Some bs) = Inr s \<longleftrightarrow>
     length bs = 273 \<and> bs ! 0 = STN_SHARE_VERSION \<and>
     sh_work_id s = take 32 (drop 1 bs) \<and>
     sh_miner s = \<lparr>addr_type = STN_ADDRESS_IDENTITY, addr_id = take 32 (drop 33 bs)\<rparr> \<and>
     sh_nonce s = stn_wire_read (drop 65 bs) 8 \<and>
     sh_template_header s = take 168 (drop 73 bs) \<and>
     sh_body_commitment s = take 32 (drop 241 bs) \<and>
     share_header_ok (sh_template_header s) (sh_body_commitment s)"
  by (cases s) (auto simp: Let_def)

declare stn_share_encode.simps(2) [simp del] stn_share_decode.simps(2) [simp del]

interpretation share_codec: codec
  "\<lambda>s. stn_share_encode (Some s)" "\<lambda>bs. stn_share_decode (Some bs)" wf_share
proof
  fix s bs
  assume "wf_share s" "stn_share_encode (Some s) = Inr bs"
  then show "stn_share_decode (Some bs) = Inr s"
    unfolding share_encode_iff share_decode_iff
    by (auto simp: wf_share_def wf_address_def intro!: stn_address.equality)
next
  fix s bs
  assume "stn_share_decode (Some bs) = Inr s"
  then have s: "length bs = 273" "bs ! 0 = STN_SHARE_VERSION" "sh_work_id s = take 32 (drop 1 bs)"
      "sh_miner s = \<lparr>addr_type = STN_ADDRESS_IDENTITY, addr_id = take 32 (drop 33 bs)\<rparr>"
      "sh_nonce s = stn_wire_read (drop 65 bs) 8" "sh_template_header s = take 168 (drop 73 bs)"
      "sh_body_commitment s = take 32 (drop 241 bs)"
      "share_header_ok (sh_template_header s) (sh_body_commitment s)"
    unfolding share_decode_iff by blast+
  have "STN_SHARE_VERSION # take 32 (drop 1 bs) @ take 32 (drop 33 bs) @ take 8 (drop 65 bs) @
      take 168 (drop 73 bs) @ take 32 (drop 241 bs) = bs"
    by (rule version_join) (use s(1,2) in \<open>simp_all add: slices\<close>)
  then show "stn_share_encode (Some s) = Inr bs"
    unfolding share_encode_iff using s(1,8) by (simp add: s(3-7))
next
  fix s bs
  assume "stn_share_decode (Some bs) = Inr s"
  then show "wf_share s"
    unfolding share_decode_iff by (auto simp: wf_share_def wf_address_def)
qed

section \<open>What verification establishes\<close>

lemma header_valid_nonce:
  "bh_version h = 3 \<Longrightarrow> header_valid (h\<lparr>bh_reserved_work_nonce := n\<rparr>) = header_valid h"
  by (simp add: header_valid_def)

lemma header_v3_target:
  "header_valid h = STN_DATA_OK \<Longrightarrow> bh_version h = 3 \<Longrightarrow>
   stn_target_validate (Some (bh_reserved_target h)) = STN_DATA_OK"
  by (auto simp: header_valid_def split: if_splits)

text \<open>Replacing the nonce of a decoded header replaces bytes 152 to 159 of its encoding.\<close>

lemma header_layout_nonce:
  assumes "stn_block_header_decode (Some bs) = Inr h"
  shows "header_layout (h\<lparr>bh_reserved_work_nonce := n\<rparr>) =
    take 152 bs @ stn_wire_write 8 n @ drop 160 bs"
proof -
  have bs: "bs = header_layout h" and wf: "wf_header h"
    using header_layout_decode [OF assms] header_decode_wf [OF assms] by simp_all
  show ?thesis
    using wf unfolding bs by (simp add: header_layout_def wf_header_def)
qed

lemma pow_compare_digest:
  assumes "length d = 32" "stn_target_validate (Some t) = STN_DATA_OK"
  shows "stn_pow_compare (Some d) t = (if be d \<le> be t then STN_DATA_OK else STN_DATA_WORK)"
  using assms memcmp_le_be [of d t] target_validate_length [OF assms(2)] by (simp add: Let_def)

lemma share_verify_iff:
  assumes "hash_fn_ok hash" "length (sh_template_header s) = 168"
  shows "stn_share_verify_evidence (Some s) (Some hash) = Inr d \<longleftrightarrow>
    addr_type (sh_miner s) = STN_ADDRESS_IDENTITY \<and>
    (\<exists>h. stn_block_header_decode (Some (sh_template_header s)) = Inr h \<and> bh_version h = 3 \<and>
      hash (cstring ''STN-CHAIN:WORK:ID:1'') (sh_template_header s) = Inr (sh_work_id s) \<and>
      hash (cstring ''STN-CHAIN:BLOCK:ID:1'')
        (take 152 (sh_template_header s) @ stn_wire_write 8 (sh_nonce s) @
         drop 160 (sh_template_header s)) = Inr d \<and>
      be d \<le> min (2 ^ 255 - 1) (10 * be (bh_reserved_target h)))"
proof (cases "stn_block_header_decode (Some (sh_template_header s))")
  case (Inl e)
  then show ?thesis by (simp add: stn_share_verify_evidence_def)
next
  case (Inr h)
  note dec = this
  let ?t = "sh_template_header s"
  let ?hb = "take 152 ?t @ stn_wire_write 8 (sh_nonce s) @ drop 160 ?t"
  show ?thesis
  proof (cases "bh_version h = 3")
    case False
    with dec show ?thesis by (simp add: stn_share_verify_evidence_def)
  next
    case True
    have valid: "header_valid h = STN_DATA_OK" using header_decode_wf [OF dec] by simp
    from share_target_correct [OF header_v3_target [OF valid True]] obtain st where
        st: "stn_economy_share_target (Some (bh_reserved_target h)) = Inr st" "length st = 32"
          "be st = min (2 ^ 255 - 1) (10 * be (bh_reserved_target h))" by blast
    have ok: "stn_target_validate (Some st) = STN_DATA_OK"
      using share_target_exact_valid [OF header_v3_target [OF valid True] st(1)] .
    have enc: "stn_block_header_encode (Some (h\<lparr>bh_reserved_work_nonce := sh_nonce s\<rparr>)) 168 = Inr ?hb"
      unfolding header_encode_iff header_layout_nonce [OF dec] header_valid_nonce [OF True]
      using valid by simp
    have len: "length ?hb = 168" using assms(2) by simp
    have cmp: "stn_pow_compare (Some x) st = STN_DATA_OK \<longleftrightarrow> be x \<le> be st"
      if "hash dom y = Inr x" for x dom y
      using pow_compare_digest [OF hash_fn_ok_length [OF assms(1) that] ok] by simp
    have core: "stn_share_verify_evidence (Some s) (Some hash) = Inr d \<longleftrightarrow>
        addr_type (sh_miner s) = STN_ADDRESS_IDENTITY \<and>
        hash (cstring ''STN-CHAIN:WORK:ID:1'') ?t = Inr (sh_work_id s) \<and>
        hash (cstring ''STN-CHAIN:BLOCK:ID:1'') ?hb = Inr d \<and> be d \<le> be st"
      using dec True st(1) enc len cmp
      by (auto simp: stn_share_verify_evidence_def work_id_from_evidence_def Let_def
          simp del: stn_economy_share_target.simps stn_pow_compare.simps
          split: sum.splits if_splits)
    show ?thesis
      unfolding core st(3) using dec True by simp
  qed
qed

text \<open>
  C36. Share verification is independent of transient state. With a provider that keeps its contract
  it returns a digest exactly when the miner is an identity, the retained header decodes to a
  version 3 header, the work identifier is the hash of that header, and the digest is the block hash
  of the header with only its nonce field replaced and is at most ten times the header's target,
  saturated at \<open>2^255 - 1\<close>.
\<close>

theorem share_verify_correct:
  assumes "hash_fn_ok hash" "length (sh_template_header s) = 168"
  shows "stn_share_verify_evidence (Some s) (Some hash) = Inr d \<longleftrightarrow>
    addr_type (sh_miner s) = STN_ADDRESS_IDENTITY \<and>
    (\<exists>h. stn_block_header_decode (Some (sh_template_header s)) = Inr h \<and> bh_version h = 3 \<and>
      hash (cstring ''STN-CHAIN:WORK:ID:1'') (sh_template_header s) = Inr (sh_work_id s) \<and>
      hash (cstring ''STN-CHAIN:BLOCK:ID:1'')
        (take 152 (sh_template_header s) @ stn_wire_write 8 (sh_nonce s) @
         drop 160 (sh_template_header s)) = Inr d \<and>
      be d \<le> min (2 ^ 255 - 1) (10 * be (bh_reserved_target h)))"
  using assms by (rule share_verify_iff)

definition sample_share_header :: stn_block_header where
  "sample_share_header =
     \<lparr>bh_version = 3, bh_flags = 0, bh_network_id = replicate 32 1, bh_previous_hash = replicate 32 2,
      bh_height = 5, bh_timestamp = 7, bh_transaction_commitment = replicate 32 4,
      bh_reserved_target = replicate 31 0 @ [200], bh_reserved_work_nonce = 0,
      bh_transaction_count = 0, bh_body_length = 0\<rparr>"

definition sample_share :: stn_share_evidence where
  "sample_share =
     \<lparr>sh_work_id = replicate 31 0 @ [6], sh_miner = \<lparr>addr_type = STN_ADDRESS_IDENTITY, addr_id = replicate 32 7\<rparr>,
      sh_nonce = 11, sh_template_header = header_layout sample_share_header,
      sh_body_commitment = replicate 32 4\<rparr>"

definition sample_hash :: stn_hash_fn where
  "sample_hash d bs = Inr (replicate 31 0 @ [6])"

lemma sample_hash_ok: "hash_fn_ok sample_hash"
  by (simp add: sample_hash_def hash_fn_ok_def)

lemma sample_share_header_ok:
  "wf_header sample_share_header" "header_valid sample_share_header = STN_DATA_OK"
  "length (header_layout sample_share_header) = 168"
proof -
  show wf: "wf_header sample_share_header" by (simp add: sample_share_header_def wf_header_def)
  show "header_valid sample_share_header = STN_DATA_OK"
    by (simp add: sample_share_header_def header_valid_def target_validate_iff be_append nonzero_iff)
  show "length (header_layout sample_share_header) = 168"
    using wf by (rule length_header_layout)
qed

theorem share_verify_correct_witness:
  "stn_share_verify_evidence (Some sample_share) (Some sample_hash) = Inr (replicate 31 0 @ [6])"
proof -
  have len: "length (sh_template_header sample_share) = 168"
    using sample_share_header_ok(3) by (simp add: sample_share_def)
  have dec: "stn_block_header_decode (Some (sh_template_header sample_share)) = Inr sample_share_header"
    using header_decode_layout [OF sample_share_header_ok(1,2)] by (simp add: sample_share_def)
  have bound: "be (replicate 31 0 @ [6]) \<le> min (2 ^ 255 - 1) (10 * be (bh_reserved_target sample_share_header))"
    by (simp add: sample_share_header_def be_append)
  have rest: "bh_version sample_share_header = 3"
      "addr_type (sh_miner sample_share) = STN_ADDRESS_IDENTITY"
      "sh_work_id sample_share = replicate 31 0 @ [6]"
    by (simp_all add: sample_share_def sample_share_header_def)
  show ?thesis
    by (rule share_verify_correct [OF sample_hash_ok len, THEN iffD2])
       (intro conjI exI [of _ sample_share_header] dec bound rest; simp only: sample_hash_def rest)
qed

section \<open>Replayed shares\<close>

lemma nonce_bytes_eq: "nonce_bytes n = stn_wire_write 8 n"
  by (simp add: nonce_bytes_def eval_nat_numeral upt_rec ucast_and_255)

lemma share_key_inj:
  assumes "wf_share s" "wf_share t"
  shows "stn_share_replay_key (Some s) = Inr k \<Longrightarrow> stn_share_replay_key (Some t) = Inr k \<Longrightarrow>
    sh_work_id t = sh_work_id s \<and> sh_miner t = sh_miner s \<and> sh_nonce t = sh_nonce s"
proof -
  assume "stn_share_replay_key (Some s) = Inr k" "stn_share_replay_key (Some t) = Inr k"
  then have "sh_work_id t = sh_work_id s" "addr_id (sh_miner t) = addr_id (sh_miner s)"
      "stn_wire_write 8 (sh_nonce t) = stn_wire_write 8 (sh_nonce s)"
      "addr_type (sh_miner t) = addr_type (sh_miner s)"
    using assms by (auto simp: nonce_bytes_eq wf_share_def wf_address_def split: if_splits)
  moreover from this(3) have "sh_nonce t = sh_nonce s"
    by (metis read_write_64_end)
  ultimately show ?thesis by (simp add: stn_address.equality)
qed

lemma share_key_fields:
  assumes "sh_work_id t = sh_work_id s" "sh_miner t = sh_miner s" "sh_nonce t = sh_nonce s"
  shows "stn_share_replay_key (Some t) = stn_share_replay_key (Some s)"
  using assms by simp

text \<open>
  A share is paid once. Once a share has been consumed as FRESH, then after any further consumed
  shares the registry answers DUPLICATE for every share with the same work identifier, miner and
  nonce, whatever header and commitment it carries; and a well-formed share is answered DUPLICATE
  only if one with the same work identifier, miner and nonce is in the registry.
\<close>

theorem share_replay_refused:
  assumes "buffer_wf state" "distinct (accepted state)"
    "fst (stn_share_replay_consume state (Some s)) = STN_SHARE_REPLAY_FRESH" "wf_share s"
  shows "(sh_work_id t = sh_work_id s \<and> sh_miner t = sh_miner s \<and> sh_nonce t = sh_nonce s \<longrightarrow>
      stn_share_replay_check
        (consume_all stn_share_replay_consume (snd (stn_share_replay_consume state (Some s))) later)
        (Some t) = STN_SHARE_REPLAY_DUPLICATE) \<and>
    (accepted state = [] \<and> wf_share t \<and>
      stn_share_replay_check (snd (stn_share_replay_consume state (Some s))) (Some t) =
        STN_SHARE_REPLAY_DUPLICATE \<longrightarrow>
      sh_work_id t = sh_work_id s \<and> sh_miner t = sh_miner s \<and> sh_nonce t = sh_nonce s)"
proof (intro conjI impI)
  assume "sh_work_id t = sh_work_id s \<and> sh_miner t = sh_miner s \<and> sh_nonce t = sh_nonce s"
  then have "stn_share_replay_key (Some t) = stn_share_replay_key (Some s)"
    by (intro share_key_fields) simp_all
  then show "stn_share_replay_check
      (consume_all stn_share_replay_consume (snd (stn_share_replay_consume state (Some s))) later)
      (Some t) = STN_SHARE_REPLAY_DUPLICATE"
    by (intro share_replay.replay_is_duplicate [OF assms(1-3)]) (rule arg_cong)
next
  assume *: "accepted state = [] \<and> wf_share t \<and>
      stn_share_replay_check (snd (stn_share_replay_consume state (Some s))) (Some t) =
        STN_SHARE_REPLAY_DUPLICATE"
  from share_replay.consume_accepted [OF assms(1,3)] obtain k where k:
      "stn_share_replay_key (Some s) = Inr k"
      "accepted (snd (stn_share_replay_consume state (Some s))) = accepted state @ [k]"
    by auto
  have "stn_share_replay_key (Some t) = Inr k"
    using * k(2) by (auto simp: stn_share_replay_check_def simp del: stn_share_replay_key.simps
        split: sum.splits if_splits)
  then show "sh_work_id t = sh_work_id s" "sh_miner t = sh_miner s" "sh_nonce t = sh_nonce s"
    using share_key_inj [OF assms(4) _ k(1)] * by blast+
qed

theorem share_replay_refused_witness:
  "stn_share_replay_check
     (snd (stn_share_replay_consume (key_buffer_initialize (Some [[]]) 1) (Some sample_share)))
     (Some (sample_share\<lparr>sh_template_header := []\<rparr>)) = STN_SHARE_REPLAY_DUPLICATE"
proof -
  have wf: "buffer_wf (key_buffer_initialize (Some [[]]) 1)" "wf_share sample_share"
    using sample_share_header_ok(3)
    by (simp_all add: buffer_wf_initialize sample_share_def wf_share_def wf_address_def)
  have "fst (stn_share_replay_consume (key_buffer_initialize (Some [[]]) 1) (Some sample_share)) =
      STN_SHARE_REPLAY_FRESH"
    using share_replay.consume_spec [OF wf(1), of "Some sample_share"]
    by (simp add: key_buffer_initialize_def sample_share_def accepted_def)
  from share_replay_refused [OF wf(1) _ this wf(2), of "sample_share\<lparr>sh_template_header := []\<rparr>" "[]"]
  show ?thesis by simp
qed

end
