(* ===== verification/Stn_Block_Compensation.thy ===== *)
theory Stn_Block_Compensation
  imports Stn_Share Stn_Economic
begin

text \<open>
  Block compensation: the evidence of a solved block (\<^verbatim>\<open>src/src/stn_block_compensation.c\<close>), its replay
  table (\<^verbatim>\<open>stn_block_compensation_replay.c\<close>), the bindings of an issuance to its evidence
  (\<^verbatim>\<open>stn_issuance_binding.c\<close>), the reward builder (\<^verbatim>\<open>stn_block_reward_build\<close>) and the atomic
  acceptance (\<^verbatim>\<open>stn_block_compensation_acceptance.c\<close>). The linked SHA-256 is the parameter \<open>sha\<close>.
\<close>

section \<open>Evidence\<close>

definition STN_BLOCK_COMPENSATION_VERSION :: u8 where "STN_BLOCK_COMPENSATION_VERSION = 1"
definition STN_BLOCK_COMPENSATION_CANONICAL_SIZE :: nat where
  [simp]: "STN_BLOCK_COMPENSATION_CANONICAL_SIZE = 65"

record stn_block_compensation_evidence =
  ev_block_id :: bytes
  ev_miner :: stn_address

definition wf_evidence :: "stn_block_compensation_evidence \<Rightarrow> bool" where
  "wf_evidence e \<longleftrightarrow> length (ev_block_id e) = 32 \<and> wf_address (ev_miner e)"

definition zero32 :: "bytes \<Rightarrow> bool" where
  "zero32 v \<longleftrightarrow> \<not> nonzero v"

fun stn_block_compensation_encode ::
  "stn_block_compensation_evidence option \<Rightarrow> bytes data_result" where
  "stn_block_compensation_encode None = Inl STN_DATA_ARGUMENT"
| "stn_block_compensation_encode (Some e) =
     (if addr_type (ev_miner e) \<noteq> STN_ADDRESS_IDENTITY then Inl STN_DATA_TYPE
      else if zero32 (ev_block_id e) \<or> zero32 (addr_id (ev_miner e)) then Inl STN_DATA_CONTENT
      else Inr (STN_BLOCK_COMPENSATION_VERSION # ev_block_id e @ addr_id (ev_miner e)))"

fun stn_block_compensation_decode ::
  "bytes option \<Rightarrow> stn_block_compensation_evidence data_result" where
  "stn_block_compensation_decode None = Inl STN_DATA_ARGUMENT"
| "stn_block_compensation_decode (Some canonical) =
     (if length canonical \<noteq> STN_BLOCK_COMPENSATION_CANONICAL_SIZE then Inl STN_DATA_LENGTH
      else if canonical ! 0 \<noteq> STN_BLOCK_COMPENSATION_VERSION then Inl STN_DATA_VERSION
      else
        (let decoded =
           \<lparr>ev_block_id = take 32 (drop 1 canonical),
            ev_miner = \<lparr>addr_type = STN_ADDRESS_IDENTITY, addr_id = take 32 (drop 33 canonical)\<rparr>\<rparr>
         in if zero32 (ev_block_id decoded) \<or> zero32 (addr_id (ev_miner decoded))
            then Inl STN_DATA_CONTENT else Inr decoded))"

fun stn_block_compensation_id ::
  "stn_hash_fn \<Rightarrow> stn_block_compensation_evidence option \<Rightarrow> bytes data_result" where
  "stn_block_compensation_id sha None = Inl STN_DATA_ARGUMENT"
| "stn_block_compensation_id sha (Some e) =
     (case stn_block_compensation_encode (Some e) of
        Inl status \<Rightarrow> Inl status
      | Inr canonical \<Rightarrow> sha (cstring ''STN-CHAIN:BLOCK-COMPENSATION:ID:1'') canonical)"

lemma evidence_encode_iff:
  "stn_block_compensation_encode (Some e) = Inr bs \<longleftrightarrow>
     addr_type (ev_miner e) = STN_ADDRESS_IDENTITY \<and> \<not> zero32 (ev_block_id e) \<and>
     \<not> zero32 (addr_id (ev_miner e)) \<and>
     bs = STN_BLOCK_COMPENSATION_VERSION # ev_block_id e @ addr_id (ev_miner e)"
  by auto

lemma evidence_decode_iff:
  "stn_block_compensation_decode (Some bs) = Inr e \<longleftrightarrow>
     length bs = 65 \<and> bs ! 0 = STN_BLOCK_COMPENSATION_VERSION \<and>
     ev_block_id e = take 32 (drop 1 bs) \<and>
     ev_miner e = \<lparr>addr_type = STN_ADDRESS_IDENTITY, addr_id = take 32 (drop 33 bs)\<rparr> \<and>
     \<not> zero32 (ev_block_id e) \<and> \<not> zero32 (addr_id (ev_miner e))"
  by (cases e) (auto simp: Let_def)

declare stn_block_compensation_encode.simps(2) [simp del]
  stn_block_compensation_decode.simps(2) [simp del]

interpretation evidence_codec: codec
  "\<lambda>e. stn_block_compensation_encode (Some e)" "\<lambda>bs. stn_block_compensation_decode (Some bs)"
  wf_evidence
proof
  fix e bs
  assume "wf_evidence e" "stn_block_compensation_encode (Some e) = Inr bs"
  then show "stn_block_compensation_decode (Some bs) = Inr e"
    unfolding evidence_encode_iff evidence_decode_iff
    by (auto simp: wf_evidence_def wf_address_def intro!: stn_address.equality)
next
  fix e bs
  assume "stn_block_compensation_decode (Some bs) = Inr e"
  then have e: "length bs = 65" "bs ! 0 = STN_BLOCK_COMPENSATION_VERSION"
      "ev_block_id e = take 32 (drop 1 bs)"
      "ev_miner e = \<lparr>addr_type = STN_ADDRESS_IDENTITY, addr_id = take 32 (drop 33 bs)\<rparr>"
      "\<not> zero32 (ev_block_id e)" "\<not> zero32 (addr_id (ev_miner e))"
    unfolding evidence_decode_iff by blast+
  have "STN_BLOCK_COMPENSATION_VERSION # take 32 (drop 1 bs) @ take 32 (drop 33 bs) = bs"
    by (rule version_join) (use e(1,2) in \<open>simp_all add: slices\<close>)
  then show "stn_block_compensation_encode (Some e) = Inr bs"
    unfolding evidence_encode_iff using e(5,6) by (simp add: e(3,4))
next
  fix e bs
  assume "stn_block_compensation_decode (Some bs) = Inr e"
  then show "wf_evidence e"
    unfolding evidence_decode_iff by (auto simp: wf_evidence_def wf_address_def)
qed

section \<open>The replay table\<close>

text \<open>
  A fixed array of 4096 identifiers and a count; the list holds the slots below the count, and the
  count is a field of its own because the code tests it against the capacity before using it.
\<close>

definition STN_BLOCK_COMPENSATION_REPLAY_CAPACITY :: nat where
  [simp]: "STN_BLOCK_COMPENSATION_REPLAY_CAPACITY = 4096"

record stn_block_compensation_replay =
  bcr_ids :: "bytes list"
  bcr_count :: nat

definition zero_id :: "bytes \<Rightarrow> bool" where
  "zero_id i \<longleftrightarrow> \<not> nonzero i"

definition stn_block_compensation_replay_initialize :: stn_block_compensation_replay where
  "stn_block_compensation_replay_initialize = \<lparr>bcr_ids = [], bcr_count = 0\<rparr>"

definition stn_block_compensation_replay_copy ::
  "stn_block_compensation_replay \<Rightarrow> stn_block_compensation_replay data_result" where
  "stn_block_compensation_replay_copy source =
     (if bcr_count source > STN_BLOCK_COMPENSATION_REPLAY_CAPACITY then Inl STN_DATA_CONTENT
      else if list_ex zero_id (take (bcr_count source) (bcr_ids source)) then Inl STN_DATA_CONTENT
      else Inr source)"

text \<open>The scan reports a zero slot before it looks further.\<close>

fun replay_scan :: "bytes \<Rightarrow> bytes list \<Rightarrow> stn_data_status" where
  "replay_scan k [] = STN_DATA_OK"
| "replay_scan k (x # xs) =
     (if zero_id x then STN_DATA_CONTENT
      else if memcmp x k = 0 then STN_DATA_DUPLICATE
      else replay_scan k xs)"

fun stn_block_compensation_replay_consume ::
  "stn_block_compensation_replay \<Rightarrow> bytes option \<Rightarrow>
   stn_data_status \<times> stn_block_compensation_replay" where
  "stn_block_compensation_replay_consume state None = (STN_DATA_ARGUMENT, state)"
| "stn_block_compensation_replay_consume state (Some evidence_id) =
     (if bcr_count state > STN_BLOCK_COMPENSATION_REPLAY_CAPACITY then (STN_DATA_CONTENT, state)
      else if zero_id evidence_id then (STN_DATA_CONTENT, state)
      else
        (let status = replay_scan evidence_id (take (bcr_count state) (bcr_ids state))
         in if status \<noteq> STN_DATA_OK then (status, state)
            else if bcr_count state \<ge> STN_BLOCK_COMPENSATION_REPLAY_CAPACITY
            then (STN_DATA_CAPACITY, state)
            else (STN_DATA_OK,
                  \<lparr>bcr_ids = take (bcr_count state) (bcr_ids state) @ [evidence_id],
                   bcr_count = bcr_count state + 1\<rparr>)))"

fun stn_block_compensation_replay_consume_evidence ::
  "stn_hash_fn \<Rightarrow> stn_block_compensation_replay \<Rightarrow> stn_block_compensation_evidence option \<Rightarrow>
   stn_data_status \<times> stn_block_compensation_replay" where
  "stn_block_compensation_replay_consume_evidence sha state None = (STN_DATA_ARGUMENT, state)"
| "stn_block_compensation_replay_consume_evidence sha state (Some e) =
     (case stn_block_compensation_id sha (Some e) of
        Inl status \<Rightarrow> (status, state)
      | Inr evidence_id \<Rightarrow> stn_block_compensation_replay_consume state (Some evidence_id))"

section \<open>Bindings of an issuance to its evidence\<close>

definition stn_issuance_bind_share ::
  "stn_hash_fn \<Rightarrow> stn_issuance_record option \<Rightarrow> stn_share_evidence option \<Rightarrow>
   stn_compensation_state \<Rightarrow> stn_data_status" where
  "stn_issuance_bind_share sha issuance share compensation =
     (case (issuance, share) of
        (Some i, Some s) \<Rightarrow>
          if iss_reason i \<noteq> STN_ISSUANCE_REASON_SHARE \<or> iss_units i \<noteq> STN_ISSUANCE_SHARE_UNITS
          then STN_DATA_CONTENT
          else if addr_type (sh_miner s) \<noteq> STN_ADDRESS_IDENTITY \<or>
            addr_type (dest_identity (iss_destination i)) \<noteq> STN_ADDRESS_IDENTITY \<or>
            addr_type (dest_wallet (iss_destination i)) \<noteq> STN_ADDRESS_WALLET
          then STN_DATA_TYPE
          else if memcmp (addr_id (dest_identity (iss_destination i))) (addr_id (sh_miner s)) \<noteq> 0
          then STN_DATA_CONTENT
          else
            (case stn_share_id sha (Some s) of
               Inl status \<Rightarrow> status
             | Inr share_id \<Rightarrow>
                 if memcmp (iss_evidence_id i) share_id \<noteq> 0 then STN_DATA_CONTENT
                 else
                   (case stn_compensation_state_lookup compensation (Some (sh_miner s)) of
                      Inl status \<Rightarrow> status
                    | Inr wallet \<Rightarrow>
                        if memcmp (addr_id wallet) (addr_id (dest_wallet (iss_destination i))) \<noteq> 0
                        then STN_DATA_CONTENT else STN_DATA_OK))
      | _ \<Rightarrow> STN_DATA_ARGUMENT)"

definition stn_issuance_bind_block ::
  "stn_hash_fn \<Rightarrow> stn_issuance_record option \<Rightarrow> stn_block_compensation_evidence option \<Rightarrow>
   stn_compensation_state \<Rightarrow> stn_data_status" where
  "stn_issuance_bind_block sha issuance evidence compensation =
     (case (issuance, evidence) of
        (Some i, Some e) \<Rightarrow>
          if iss_reason i \<noteq> STN_ISSUANCE_REASON_BLOCK \<or> iss_units i \<noteq> STN_ISSUANCE_BLOCK_UNITS
          then STN_DATA_CONTENT
          else if addr_type (ev_miner e) \<noteq> STN_ADDRESS_IDENTITY \<or>
            addr_type (dest_identity (iss_destination i)) \<noteq> STN_ADDRESS_IDENTITY \<or>
            addr_type (dest_wallet (iss_destination i)) \<noteq> STN_ADDRESS_WALLET
          then STN_DATA_TYPE
          else if memcmp (addr_id (dest_identity (iss_destination i))) (addr_id (ev_miner e)) \<noteq> 0
          then STN_DATA_CONTENT
          else
            (case stn_block_compensation_id sha (Some e) of
               Inl status \<Rightarrow> status
             | Inr evidence_id \<Rightarrow>
                 if memcmp (iss_evidence_id i) evidence_id \<noteq> 0 then STN_DATA_CONTENT
                 else
                   (case stn_compensation_state_lookup compensation (Some (ev_miner e)) of
                      Inl status \<Rightarrow> status
                    | Inr wallet \<Rightarrow>
                        if memcmp (addr_id wallet) (addr_id (dest_wallet (iss_destination i))) \<noteq> 0
                        then STN_DATA_CONTENT else STN_DATA_OK))
      | _ \<Rightarrow> STN_DATA_ARGUMENT)"

text \<open>The reward of an accepted block: its evidence and its issuance.\<close>

definition stn_block_reward_build ::
  "stn_hash_fn \<Rightarrow> bytes option \<Rightarrow> stn_address option \<Rightarrow> stn_compensation_state \<Rightarrow>
   (stn_block_compensation_evidence \<times> stn_issuance_record) data_result" where
  "stn_block_reward_build sha block_id miner compensation =
     (case (block_id, miner) of
        (Some bid, Some m) \<Rightarrow>
          if addr_type m \<noteq> STN_ADDRESS_IDENTITY then Inl STN_DATA_TYPE
          else if \<not> nonzero (take 32 bid) then Inl STN_DATA_CONTENT
          else
            (case stn_compensation_state_lookup compensation (Some m) of
               Inl status \<Rightarrow> Inl status
             | Inr wallet \<Rightarrow>
                 if addr_type wallet \<noteq> STN_ADDRESS_WALLET then Inl STN_DATA_TYPE
                 else
                   (let e = \<lparr>ev_block_id = take 32 bid, ev_miner = m\<rparr>
                    in case stn_block_compensation_id sha (Some e) of
                         Inl status \<Rightarrow> Inl status
                       | Inr evidence_id \<Rightarrow>
                           Inr (e, \<lparr>iss_reason = STN_ISSUANCE_REASON_BLOCK,
                                    iss_units = STN_ISSUANCE_BLOCK_UNITS,
                                    iss_evidence_id = evidence_id,
                                    iss_destination = \<lparr>dest_identity = m, dest_wallet = wallet\<rparr>\<rparr>)))
      | _ \<Rightarrow> Inl STN_DATA_ARGUMENT)"

end
