(* ===== verification/Stn_Reward.thy ===== *)
theory Stn_Reward
  imports Stn_Block_Compensation
begin

text \<open>
  Acceptance of a block compensation (\<^verbatim>\<open>src/src/stn_block_compensation_acceptance.c\<close>): the issuance
  binding, the replay table and the economic state change together or not at all. The parameter
  \<open>alloc\<close> is whether \<^verbatim>\<open>malloc\<close> returned a scratch array.
\<close>

definition stn_block_compensation_accept ::
  "stn_hash_fn \<Rightarrow> bool \<Rightarrow> stn_block_compensation_replay \<Rightarrow> stn_block_compensation_evidence option \<Rightarrow>
   stn_issuance_record option \<Rightarrow> stn_compensation_state \<Rightarrow> stn_economic_state \<Rightarrow>
   stn_data_status \<times> stn_block_compensation_replay \<times> stn_economic_state" where
  "stn_block_compensation_accept sha alloc replay evidence issuance compensation economy =
     (if evidence = None \<or> issuance = None then (STN_DATA_ARGUMENT, replay, economy)
      else if econ_bad economy then (STN_DATA_CONTENT, replay, economy)
      else
        (let status = stn_issuance_bind_block sha issuance evidence compensation
         in if status \<noteq> STN_DATA_OK then (status, replay, economy)
            else
              (case stn_block_compensation_replay_copy replay of
                 Inl status \<Rightarrow> (status, replay, economy)
               | Inr copy \<Rightarrow>
                   (case stn_block_compensation_replay_consume_evidence sha copy evidence of
                      (status, next_replay) \<Rightarrow>
                        if status \<noteq> STN_DATA_OK then (status, replay, economy)
                        else if balance_capacity economy \<noteq> 0 then
                          (if balance_capacity economy > SIZE_MAX div 40
                           then (STN_DATA_CAPACITY, replay, economy)
                           else if \<not> alloc then (STN_DATA_CAPACITY, replay, economy)
                           else
                             (case stn_economic_state_apply
                                     (economy\<lparr>balances := Some (econ_live economy)\<rparr>) issuance of
                                (status, next_economy) \<Rightarrow>
                                  if status \<noteq> STN_DATA_OK then (status, replay, economy)
                                  else (STN_DATA_OK, next_replay,
                                        economy\<lparr>balances :=
                                            map_option (\<lambda>_. econ_live next_economy) (balances economy),
                                          balance_count := balance_count next_economy,
                                          total_supply := total_supply next_economy\<rparr>)))
                        else
                          (case stn_economic_state_apply economy issuance of
                             (status, next_economy) \<Rightarrow>
                               if status \<noteq> STN_DATA_OK then (status, replay, economy)
                               else (STN_DATA_OK, next_replay,
                                     economy\<lparr>balance_count := balance_count next_economy,
                                       total_supply := total_supply next_economy\<rparr>))))))"

section \<open>The replay table\<close>

definition bcr_wf :: "stn_block_compensation_replay \<Rightarrow> bool" where
  "bcr_wf r \<longleftrightarrow> length (bcr_ids r) = bcr_count r \<and> bcr_count r \<le> 4096 \<and>
     (\<forall>i \<in> set (bcr_ids r). \<not> zero_id i) \<and> distinct (bcr_ids r)"

lemma bcr_initialize_wf: "bcr_wf stn_block_compensation_replay_initialize"
  by (simp add: bcr_wf_def stn_block_compensation_replay_initialize_def)

lemma replay_scan_cases:
  "\<forall>i \<in> set xs. \<not> zero_id i \<Longrightarrow>
   replay_scan k xs = (if k \<in> set xs then STN_DATA_DUPLICATE else STN_DATA_OK)"
  by (induction xs) auto

lemma bcr_consume_cases:
  assumes "bcr_wf r"
  shows "stn_block_compensation_replay_consume r (Some k) =
    (if zero_id k then (STN_DATA_CONTENT, r)
     else if k \<in> set (bcr_ids r) then (STN_DATA_DUPLICATE, r)
     else if bcr_count r = 4096 then (STN_DATA_CAPACITY, r)
     else (STN_DATA_OK, \<lparr>bcr_ids = bcr_ids r @ [k], bcr_count = bcr_count r + 1\<rparr>))"
  using assms replay_scan_cases [of "bcr_ids r" k] by (auto simp: bcr_wf_def Let_def)

lemma bcr_copy_wf: "bcr_wf r \<Longrightarrow> stn_block_compensation_replay_copy r = Inr r"
  by (auto simp: stn_block_compensation_replay_copy_def bcr_wf_def list_ex_iff)

lemma bcr_consume_wf:
  assumes "bcr_wf r"
  shows "bcr_wf (snd (stn_block_compensation_replay_consume r k))"
proof (cases k)
  case None
  with assms show ?thesis by simp
next
  case (Some i)
  show ?thesis
    unfolding Some bcr_consume_cases [OF assms] using assms by (auto simp: bcr_wf_def)
qed

declare stn_block_compensation_replay_consume.simps(2) [simp del]

section \<open>Acceptance\<close>

lemma bind_block_ok:
  assumes "stn_issuance_bind_block sha (Some i) (Some e) compensation = STN_DATA_OK"
    "hash_fn_ok sha" "comp_wf compensation"
  shows "record_valid (Some i) = STN_DATA_OK \<and> iss_units i = 10000 \<and>
    stn_block_compensation_id sha (Some e) = Inr (iss_evidence_id i) \<and>
    dest_key (iss_destination i) = addr_id (ev_miner e) \<and>
    (\<exists>d. comp_map compensation (addr_id (ev_miner e)) = Some d \<and>
      addr_id (dest_wallet d) = iss_wallet i)"
proof -
  have ty: "addr_type (ev_miner e) = STN_ADDRESS_IDENTITY"
    using assms(1) by (simp add: stn_issuance_bind_block_def split: if_splits)
  have nid: "stn_block_compensation_id sha (Some e) \<noteq> Inl STN_DATA_OK"
    using hash_fn_ok_status [OF assms(2)]
    by (auto simp: stn_block_compensation_encode.simps(2) split: sum.splits if_splits)
  show ?thesis
    using assms(1) nid unfolding stn_issuance_bind_block_def
    by (auto simp: record_valid.simps(2) STN_ISSUANCE_BLOCK_UNITS_def ty comp_lookup_map [OF assms(3) ty]
        simp del: stn_block_compensation_id.simps split: if_splits sum.splits option.splits)
qed

lemma econ_wf_same: "econ_wf s \<Longrightarrow> balances s \<noteq> None \<Longrightarrow> s\<lparr>balances := Some (econ_live s)\<rparr> = s"
  by (cases s) (auto simp: econ_live_def)

lemma econ_apply_capacity: "balance_capacity (snd (stn_economic_state_apply s r)) = balance_capacity s"
  by (simp add: stn_economic_state_apply_def Let_def)

lemma econ_apply_keeps_storage:
  "balances s = Some xs \<Longrightarrow> balances (snd (stn_economic_state_apply s r)) \<noteq> None"
  by (simp add: stn_economic_state_apply_def Let_def)

lemma econ_apply_zero:
  assumes "econ_wf s" "balance_capacity s = 0"
  shows "fst (stn_economic_state_apply s (Some r)) \<noteq> STN_DATA_OK"
proof -
  have "econ_live s = []" "balance_count s = 0"
    using assms by (auto simp: econ_wf_def econ_bad_def)
  then show ?thesis
    using assms(2) unfolding econ_apply_cases [OF assms(1)] by (auto simp: has_entry_def)
qed

text \<open>Under the invariants acceptance is: bind, consume, apply, and publish all or nothing.\<close>

lemma block_accept_result:
  assumes "econ_wf economy" "bcr_wf replay"
    "stn_block_compensation_accept sha alloc replay (Some e) (Some i) compensation economy =
      (status, replay', economy')"
  shows "(status \<noteq> STN_DATA_OK \<and> replay' = replay \<and> economy' = economy) \<or>
    (status = STN_DATA_OK \<and>
      stn_issuance_bind_block sha (Some i) (Some e) compensation = STN_DATA_OK \<and>
      stn_block_compensation_replay_consume_evidence sha replay (Some e) = (STN_DATA_OK, replay') \<and>
      stn_economic_state_apply economy (Some i) = (STN_DATA_OK, economy'))"
proof (cases "balance_capacity economy = 0")
  case True
  then show ?thesis
    using assms(3) econ_apply_zero [OF assms(1) True, of i] assms(1)
    by (auto simp: stn_block_compensation_accept_def bcr_copy_wf [OF assms(2)] Let_def econ_wf_def
        simp del: stn_block_compensation_replay_consume_evidence.simps split: if_splits prod.splits)
next
  case False
  then have some: "balances economy = Some (econ_live economy)"
    using econ_wf_storage [OF assms(1)] assms(1)
    by (auto simp: econ_wf_def econ_bad_def econ_live_def split: option.splits)
  then have same: "economy\<lparr>balances := Some (econ_live economy)\<rparr> = economy"
    by (cases economy) simp
  have merge: "economy\<lparr>balances := Some (econ_live next), balance_count := balance_count next,
      total_supply := total_supply next\<rparr> = next"
    if "stn_economic_state_apply economy (Some i) = (s, next)" for s "next"
    using econ_apply_capacity [of economy "Some i"] econ_apply_keeps_storage [OF some, of "Some i"] that
    by (cases "next") (auto simp: econ_live_def)
  show ?thesis
    using assms(1,3) False
    by (auto simp: stn_block_compensation_accept_def bcr_copy_wf [OF assms(2)] Let_def same some merge
        econ_wf_def simp del: stn_block_compensation_replay_consume_evidence.simps
        split: if_splits prod.splits)
qed

section \<open>Properties\<close>

text \<open>
  C21. Block compensation is atomic and paid once per evidence. Under the invariants of the three
  states, acceptance either answers OK, or changes neither the replay table nor the economic state
  (not even when allocation fails). On OK the issuance is a BLOCK issuance of 10000 units whose
  evidence identifier is the hash of the evidence and whose wallet is the one the accepted mapping
  has for the miner; that wallet gains 10000 units, the total supply grows by 10000, the evidence
  identifier is new in the table, the invariants hold again, and accepting the same evidence again,
  with any issuance and economic state, is refused without a change.
\<close>

theorem block_compensation_once:
  assumes "hash_fn_ok sha" "comp_wf compensation" "econ_wf economy" "bcr_wf replay"
  shows "case stn_block_compensation_accept sha alloc replay (Some e) (Some i) compensation economy of
      (status, replay', economy') \<Rightarrow>
    econ_wf economy' \<and> bcr_wf replay' \<and>
    (if status = STN_DATA_OK
     then iss_units i = 10000 \<and>
       stn_block_compensation_id sha (Some e) = Inr (iss_evidence_id i) \<and>
       (\<exists>d. comp_map compensation (addr_id (ev_miner e)) = Some d \<and>
         addr_id (dest_wallet d) = iss_wallet i) \<and>
       balance_of economy' = (balance_of economy)
         (iss_wallet i := balance_of economy (iss_wallet i) + 10000) \<and>
       unat (total_supply economy') = unat (total_supply economy) + 10000 \<and>
       iss_evidence_id i \<notin> set (bcr_ids replay) \<and>
       bcr_ids replay' = bcr_ids replay @ [iss_evidence_id i] \<and>
       (econ_wf later \<longrightarrow>
         snd (stn_block_compensation_accept sha alloc' replay' (Some e) (Some i') compensation later) =
           (replay', later) \<and>
         fst (stn_block_compensation_accept sha alloc' replay' (Some e) (Some i') compensation later) \<noteq>
           STN_DATA_OK)
     else replay' = replay \<and> economy' = economy)"
proof -
  obtain status replay' economy' where r:
      "stn_block_compensation_accept sha alloc replay (Some e) (Some i) compensation economy =
        (status, replay', economy')"
    by (metis prod_cases3)
  from block_accept_result [OF assms(3,4) r] show ?thesis
  proof (elim disjE conjE)
    assume "status \<noteq> STN_DATA_OK" "replay' = replay" "economy' = economy"
    with r assms(3,4) show ?thesis by simp
  next
    assume ok: "status = STN_DATA_OK"
      "stn_issuance_bind_block sha (Some i) (Some e) compensation = STN_DATA_OK"
      "stn_block_compensation_replay_consume_evidence sha replay (Some e) = (STN_DATA_OK, replay')"
      "stn_economic_state_apply economy (Some i) = (STN_DATA_OK, economy')"
    note b = bind_block_ok [OF ok(2) assms(1,2)]
    have c: "stn_block_compensation_replay_consume replay (Some (iss_evidence_id i)) = (STN_DATA_OK, replay')"
      using ok(3) b by simp
    then have rep: "\<not> zero_id (iss_evidence_id i)" "iss_evidence_id i \<notin> set (bcr_ids replay)"
        "bcr_ids replay' = bcr_ids replay @ [iss_evidence_id i]"
      unfolding bcr_consume_cases [OF assms(4)] by (auto split: if_splits)
    have wf': "bcr_wf replay'"
      using bcr_consume_wf [OF assms(4), of "Some (iss_evidence_id i)"] c by simp
    have again: "snd (stn_block_compensation_accept sha alloc' replay' (Some e) (Some i') compensation later) =
          (replay', later) \<and>
        fst (stn_block_compensation_accept sha alloc' replay' (Some e) (Some i') compensation later) \<noteq>
          STN_DATA_OK" if "econ_wf later"
    proof -
      obtain s2 r2 e2 where r2: "stn_block_compensation_accept sha alloc' replay' (Some e) (Some i')
          compensation later = (s2, r2, e2)" by (metis prod_cases3)
      have "stn_block_compensation_replay_consume_evidence sha replay' (Some e) = (STN_DATA_DUPLICATE, replay')"
        using b rep unfolding stn_block_compensation_replay_consume_evidence.simps
        by (simp add: bcr_consume_cases [OF wf'])
      with block_accept_result [OF that wf' r2] show ?thesis unfolding r2 by auto
    qed
    show ?thesis
      using r b rep wf' again econ_apply_ok [OF assms(3) ok(4)] ok(1) by simp
  qed
qed

definition sample_evidence :: stn_block_compensation_evidence where
  "sample_evidence =
     \<lparr>ev_block_id = replicate 32 1, ev_miner = \<lparr>addr_type = STN_ADDRESS_IDENTITY, addr_id = replicate 32 7\<rparr>\<rparr>"

definition sample_evidence_hash :: stn_hash_fn where
  "sample_evidence_hash d bs = Inr (replicate 32 1)"

lemma sample_evidence_hash_ok: "hash_fn_ok sample_evidence_hash"
  by (simp add: sample_evidence_hash_def hash_fn_ok_def)

lemma sample_evidence_id:
  "stn_block_compensation_id sample_evidence_hash (Some sample_evidence) = Inr (replicate 32 1)"
  by (simp add: stn_block_compensation_encode.simps(2) sample_evidence_def zero32_def nonzero_iff
      sample_evidence_hash_def)

lemma sample_compensation_map: "comp_map sample_compensation = [replicate 32 7 \<mapsto> sample_mapping]"
  by (simp add: comp_map_def comp_live_def sample_compensation_def sample_mapping_def fun_eq_iff)

lemma sample_bind:
  "stn_issuance_bind_block sample_evidence_hash (Some sample_issuance) (Some sample_evidence)
     sample_compensation = STN_DATA_OK"
proof -
  have "stn_compensation_state_lookup sample_compensation (Some (ev_miner sample_evidence)) =
      Inr (dest_wallet sample_mapping)"
    using comp_lookup_map [OF sample_compensation_wf, of "ev_miner sample_evidence"]
    by (simp add: sample_compensation_map sample_evidence_def)
  then show ?thesis
    using sample_evidence_id
    by (simp add: stn_issuance_bind_block_def sample_issuance_def sample_destination_def
        sample_evidence_def sample_mapping_def STN_ISSUANCE_REASON_BLOCK_def STN_ISSUANCE_BLOCK_UNITS_def
        del: stn_block_compensation_id.simps)
qed

theorem block_compensation_once_witness:
  "balance_of (snd (snd (stn_block_compensation_accept sample_evidence_hash True
     stn_block_compensation_replay_initialize (Some sample_evidence) (Some sample_issuance)
     sample_compensation sample_economy))) (replicate 32 9) = 10000"
proof -
  let ?r = "stn_block_compensation_replay_initialize"
  obtain status replay' economy' where r:
      "stn_block_compensation_accept sample_evidence_hash True ?r (Some sample_evidence)
         (Some sample_issuance) sample_compensation sample_economy = (status, replay', economy')"
    by (metis prod_cases3)
  have "zero_id (replicate 32 1) = False" by (simp add: zero_id_def nonzero_iff)
  then have c: "stn_block_compensation_replay_consume_evidence sample_evidence_hash ?r (Some sample_evidence) =
      (STN_DATA_OK, \<lparr>bcr_ids = [replicate 32 1], bcr_count = 1\<rparr>)"
    unfolding stn_block_compensation_replay_consume_evidence.simps sample_evidence_id
    by (simp add: bcr_consume_cases [OF bcr_initialize_wf])
       (simp add: stn_block_compensation_replay_initialize_def)
  have "has_entry sample_economy w = False" for w
    by (simp add: sample_economy_def has_entry_def econ_live_def)
  then have "fst (stn_economic_state_apply sample_economy (Some sample_issuance)) = STN_DATA_OK"
    unfolding econ_apply_cases [OF sample_economy_wf] sample_issuance_valid
    by (simp add: sample_economy_def sample_issuance_def)
  moreover have "sample_economy\<lparr>balances := Some (econ_live sample_economy)\<rparr> = sample_economy"
      "balance_capacity sample_economy = 4" "\<not> econ_bad sample_economy"
    by (simp_all add: sample_economy_def econ_live_def econ_bad_def)
  ultimately have "status = STN_DATA_OK"
    using r c by (auto simp: stn_block_compensation_accept_def Let_def sample_bind
        bcr_copy_wf [OF bcr_initialize_wf] simp del: stn_block_compensation_replay_consume_evidence.simps
        split: prod.splits)
  then have "balance_of economy' = (balance_of sample_economy)
      (iss_wallet sample_issuance := balance_of sample_economy (iss_wallet sample_issuance) + 10000)"
    using block_compensation_once [OF sample_evidence_hash_ok sample_compensation_wf sample_economy_wf
        bcr_initialize_wf, where alloc = True and e = sample_evidence and i = sample_issuance] unfolding r prod.case by presburger
  moreover have "iss_wallet sample_issuance = replicate 32 9"
    by (simp add: sample_issuance_def sample_destination_def)
  ultimately show ?thesis
    unfolding r by (simp add: sample_economy_balance)
qed

text \<open>
  The reward builder and the acceptance rule agree: for a mapped miner, the evidence and issuance
  built for a block identifier pass the binding check against the same mapping, form a valid economic
  record of 10000 units, and name the block and the miner they were built for.
\<close>

theorem block_reward_binds:
  assumes "hash_fn_ok sha" "comp_wf compensation"
  shows "case stn_block_reward_build sha (Some bid) (Some m) compensation of
      Inl status \<Rightarrow> status \<noteq> STN_DATA_OK
    | Inr (e, i) \<Rightarrow>
        stn_issuance_bind_block sha (Some i) (Some e) compensation = STN_DATA_OK \<and>
        record_valid (Some i) = STN_DATA_OK \<and> ev_block_id e = take 32 bid \<and> ev_miner e = m"
proof -
  have look: "stn_compensation_state_lookup compensation (Some m) \<noteq> Inl STN_DATA_OK"
    if "addr_type m = STN_ADDRESS_IDENTITY"
    using comp_lookup_map [OF assms(2) that] by (auto split: option.splits)
  have nid: "stn_block_compensation_id sha (Some e) \<noteq> Inl STN_DATA_OK" for e
    using hash_fn_ok_status [OF assms(1)]
    by (auto simp: stn_block_compensation_encode.simps(2) split: sum.splits if_splits)
  show ?thesis
    using look nid
    by (auto simp: stn_block_reward_build_def stn_issuance_bind_block_def Let_def record_valid.simps(2)
        simp del: stn_block_compensation_id.simps split: sum.splits)
qed

theorem block_reward_binds_witness:
  "\<exists>e i. stn_block_reward_build sample_evidence_hash (Some (replicate 32 1)) (Some (ev_miner sample_evidence))
     sample_compensation = Inr (e, i) \<and>
   stn_issuance_bind_block sample_evidence_hash (Some i) (Some e) sample_compensation = STN_DATA_OK"
proof -
  have "stn_compensation_state_lookup sample_compensation (Some (ev_miner sample_evidence)) =
      Inr (dest_wallet sample_mapping)"
    using comp_lookup_map [OF sample_compensation_wf, of "ev_miner sample_evidence"]
    by (simp add: sample_compensation_map sample_evidence_def)
  moreover have "\<lparr>ev_block_id = replicate 32 1, ev_miner = ev_miner sample_evidence\<rparr> = sample_evidence"
    by (simp add: sample_evidence_def)
  ultimately obtain e i where
      "stn_block_reward_build sample_evidence_hash (Some (replicate 32 1)) (Some (ev_miner sample_evidence))
        sample_compensation = Inr (e, i)"
    using sample_evidence_id
    by (auto simp: stn_block_reward_build_def nonzero_iff Let_def sample_mapping_def sample_evidence_def
        simp del: stn_block_compensation_id.simps)
  with block_reward_binds [OF sample_evidence_hash_ok sample_compensation_wf,
      of "replicate 32 1" "ev_miner sample_evidence"] show ?thesis by auto
qed

end
