(* ===== verification/Stn_Authority.thy ===== *)
theory Stn_Authority
  imports Stn_Identity Stn_Interfaces
begin

text \<open>
  Authority evidence, root-signed grants, their revocation and the rotation of identities
  (\<^verbatim>\<open>src/src/stn_authority.c\<close>). An array of \<^verbatim>\<open>uint8_t[32]\<close> behind a pointer is a list of its
  slots; the statements and codes an operation writes are returned with its success code. On other
  codes the caller's output buffers hold scratch that no caller reads, and it is not modelled.
\<close>

section \<open>Tokens and evidence\<close>

datatype stn_authority_result =
  STN_AUTHORITY_AUTHORIZED | STN_AUTHORITY_UNAUTHORIZED | STN_AUTHORITY_MALFORMED

datatype stn_authority_grant_result =
  STN_AUTHORITY_VALID_GRANT | STN_AUTHORITY_INVALID_GRANT | STN_AUTHORITY_MALFORMED_GRANT

datatype stn_authority_revocation_result =
  STN_AUTHORITY_VALID_REVOCATION | STN_AUTHORITY_INVALID_REVOCATION | STN_AUTHORITY_MALFORMED_REVOCATION

datatype stn_identity_rotation_result =
  STN_AUTHORITY_VALID_ROTATION | STN_AUTHORITY_INVALID_ROTATION | STN_AUTHORITY_MALFORMED_ROTATION

definition STN_AUTHORITY_VERSION :: u8 where [simp]: "STN_AUTHORITY_VERSION = 1"
definition STN_AUTHORITY_EVIDENCE_SIZE :: nat where [simp]: "STN_AUTHORITY_EVIDENCE_SIZE = 97"
definition STN_AUTHORITY_MAX_ROOTS :: nat where [simp]: "STN_AUTHORITY_MAX_ROOTS = 16"
definition STN_AUTHORITY_GRANT_SIZE :: nat where [simp]: "STN_AUTHORITY_GRANT_SIZE = 194"
definition STN_AUTHORITY_REVOCATION_SIZE :: nat where [simp]: "STN_AUTHORITY_REVOCATION_SIZE = 129"
definition STN_AUTHORITY_MAX_REVOKED :: nat where [simp]: "STN_AUTHORITY_MAX_REVOKED = 256"
definition STN_AUTHORITY_ROTATION_SIZE :: nat where [simp]: "STN_AUTHORITY_ROTATION_SIZE = 129"
definition STN_AUTHORITY_MAX_ROTATIONS :: nat where [simp]: "STN_AUTHORITY_MAX_ROTATIONS = 256"

definition STN_AUTHORITY_GRANT_DOMAIN :: bytes where
  "STN_AUTHORITY_GRANT_DOMAIN = ascii ''STN-CHAIN:AUTHORITY:GRANT:1''"
definition STN_AUTHORITY_GRANT_DOMAIN_SIZE :: nat where [simp]: "STN_AUTHORITY_GRANT_DOMAIN_SIZE = 28"
definition STN_AUTHORITY_REVOKE_DOMAIN :: bytes where
  "STN_AUTHORITY_REVOKE_DOMAIN = ascii ''STN-CHAIN:AUTHORITY:REVOKE:1''"
definition STN_AUTHORITY_REVOKE_DOMAIN_SIZE :: nat where [simp]: "STN_AUTHORITY_REVOKE_DOMAIN_SIZE = 29"
definition STN_AUTHORITY_ROTATE_DOMAIN :: bytes where
  "STN_AUTHORITY_ROTATE_DOMAIN = ascii ''STN-CHAIN:IDENTITY:ROTATE:1''"
definition STN_AUTHORITY_ROTATE_DOMAIN_SIZE :: nat where [simp]: "STN_AUTHORITY_ROTATE_DOMAIN_SIZE = 28"

fun token_valid :: "bytes option \<Rightarrow> nat \<Rightarrow> bool" where
  "token_valid None n = False"
| "token_valid (Some p) n \<longleftrightarrow>
     2 \<le> n \<and> p ! 0 = STN_AUTHORITY_VERSION \<and> nonzero (take (n - 1) (drop 1 p))"

definition stn_authority_action_validate :: "bytes option \<Rightarrow> stn_authority_result" where
  "stn_authority_action_validate action =
     (if token_valid action 32 then STN_AUTHORITY_AUTHORIZED else STN_AUTHORITY_MALFORMED)"

definition stn_authority_context_validate :: "bytes option \<Rightarrow> stn_authority_result" where
  "stn_authority_context_validate context =
     (if token_valid context 32 then STN_AUTHORITY_AUTHORIZED else STN_AUTHORITY_MALFORMED)"

fun stn_authority_evidence_validate :: "bytes option \<Rightarrow> stn_authority_result" where
  "stn_authority_evidence_validate None = STN_AUTHORITY_MALFORMED"
| "stn_authority_evidence_validate (Some evidence) =
     (if length evidence \<noteq> STN_AUTHORITY_EVIDENCE_SIZE \<or> evidence ! 0 \<noteq> STN_AUTHORITY_VERSION
      then STN_AUTHORITY_MALFORMED
      else
        (case stn_identity_derive (Some (drop 1 evidence)) of
           Inl _ \<Rightarrow> STN_AUTHORITY_MALFORMED
         | Inr _ \<Rightarrow>
             if stn_authority_action_validate (Some (drop 33 evidence)) \<noteq> STN_AUTHORITY_AUTHORIZED \<or>
                stn_authority_context_validate (Some (drop 65 evidence)) \<noteq> STN_AUTHORITY_AUTHORIZED
             then STN_AUTHORITY_MALFORMED
             else STN_AUTHORITY_AUTHORIZED))"

definition stn_authority_evidence_encode ::
  "bytes option \<Rightarrow> bytes option \<Rightarrow> bytes option \<Rightarrow> nat \<Rightarrow> stn_authority_result + bytes" where
  "stn_authority_evidence_encode subject action context capacity =
     (if capacity < STN_AUTHORITY_EVIDENCE_SIZE then Inl STN_AUTHORITY_MALFORMED
      else
        (case stn_identity_derive subject of
           Inl _ \<Rightarrow> Inl STN_AUTHORITY_MALFORMED
         | Inr identity \<Rightarrow>
             if stn_authority_action_validate action \<noteq> STN_AUTHORITY_AUTHORIZED \<or>
                stn_authority_context_validate context \<noteq> STN_AUTHORITY_AUTHORIZED
             then Inl STN_AUTHORITY_MALFORMED
             else
               (case (action, context) of
                  (Some a, Some c) \<Rightarrow>
                    Inr ([STN_AUTHORITY_VERSION] @ identity @ take 32 a @ take 32 c)
                | _ \<Rightarrow> Inl STN_AUTHORITY_MALFORMED)))"

text \<open>Absent evidence (NULL with length zero) is unauthorized; other NULL evidence is malformed.\<close>

definition stn_authority_evaluate ::
  "bytes option \<Rightarrow> bytes option \<Rightarrow> bytes option \<Rightarrow> bytes option \<Rightarrow> nat \<Rightarrow> stn_authority_result" where
  "stn_authority_evaluate identity action context evidence evidence_length =
     (case stn_identity_derive identity of
        Inl _ \<Rightarrow> STN_AUTHORITY_MALFORMED
      | Inr canonical \<Rightarrow>
          if stn_authority_action_validate action \<noteq> STN_AUTHORITY_AUTHORIZED \<or>
             stn_authority_context_validate context \<noteq> STN_AUTHORITY_AUTHORIZED
          then STN_AUTHORITY_MALFORMED
          else
            (case (evidence, action, context) of
               (None, _, _) \<Rightarrow>
                 if evidence_length = 0 then STN_AUTHORITY_UNAUTHORIZED else STN_AUTHORITY_MALFORMED
             | (Some e, Some a, Some c) \<Rightarrow>
                 if evidence_length \<noteq> STN_AUTHORITY_EVIDENCE_SIZE \<or> e ! 0 \<noteq> STN_AUTHORITY_VERSION
                 then STN_AUTHORITY_MALFORMED
                 else if memcmp (take 32 (drop 1 e)) canonical \<noteq> 0 \<or>
                   memcmp (take 32 (drop 33 e)) (take 32 a) \<noteq> 0 \<or>
                   memcmp (take 32 (drop 65 e)) (take 32 c) \<noteq> 0
                 then STN_AUTHORITY_UNAUTHORIZED
                 else STN_AUTHORITY_AUTHORIZED
             | _ \<Rightarrow> STN_AUTHORITY_MALFORMED))"

section \<open>Root sets and grants\<close>

text \<open>The loop of the root-set check; \<open>prev\<close> is the root before, none for the first.\<close>

fun root_loop :: "bytes option \<Rightarrow> bytes list \<Rightarrow> bool" where
  "root_loop prev [] = True"
| "root_loop prev (r # rs) =
     (case stn_identity_derive (Some r) of
        Inl _ \<Rightarrow> False
      | Inr _ \<Rightarrow>
          (case prev of
             None \<Rightarrow> root_loop (Some r) rs
           | Some p \<Rightarrow> if memcmp p r \<ge> 0 then False else root_loop (Some r) rs))"

definition root_list :: "bytes list option \<Rightarrow> nat \<Rightarrow> bytes list" where
  "root_list roots count = (case roots of None \<Rightarrow> [] | Some rs \<Rightarrow> take count rs)"

definition stn_authority_root_set_validate :: "bytes list option \<Rightarrow> nat \<Rightarrow> stn_authority_result" where
  "stn_authority_root_set_validate roots count =
     (if count > STN_AUTHORITY_MAX_ROOTS \<or> (count \<noteq> 0 \<and> roots = None) then STN_AUTHORITY_MALFORMED
      else if root_loop None (root_list roots count) then STN_AUTHORITY_AUTHORIZED
      else STN_AUTHORITY_MALFORMED)"

definition root_contains :: "bytes list option \<Rightarrow> nat \<Rightarrow> bytes \<Rightarrow> bool" where
  "root_contains roots count issuer \<longleftrightarrow>
     list_ex (\<lambda>r. memcmp r issuer = 0) (root_list roots count)"

definition stn_authority_grant_statement ::
  "bytes option \<Rightarrow> bytes option \<Rightarrow> nat \<Rightarrow> stn_authority_grant_result + bytes" where
  "stn_authority_grant_statement issuer evidence capacity =
     (if capacity < STN_AUTHORITY_GRANT_DOMAIN_SIZE + 1 + 32 + 97 then Inl STN_AUTHORITY_MALFORMED_GRANT
      else
        (case (stn_identity_derive issuer, evidence) of
           (Inr i, Some e) \<Rightarrow>
             if stn_authority_evidence_validate (Some (take 97 e)) \<noteq> STN_AUTHORITY_AUTHORIZED
             then Inl STN_AUTHORITY_MALFORMED_GRANT
             else Inr (STN_AUTHORITY_GRANT_DOMAIN @ [0] @ [STN_AUTHORITY_VERSION] @ i @ take 97 e)
         | _ \<Rightarrow> Inl STN_AUTHORITY_MALFORMED_GRANT))"

definition stn_authority_grant_encode ::
  "bytes option \<Rightarrow> bytes option \<Rightarrow> bytes option \<Rightarrow> nat \<Rightarrow> stn_authority_grant_result + bytes" where
  "stn_authority_grant_encode issuer evidence signature capacity =
     (case signature of
        None \<Rightarrow> Inl STN_AUTHORITY_MALFORMED_GRANT
      | Some sg \<Rightarrow>
          if capacity < STN_AUTHORITY_GRANT_SIZE then Inl STN_AUTHORITY_MALFORMED_GRANT
          else
            (case stn_authority_grant_statement issuer evidence (STN_AUTHORITY_GRANT_DOMAIN_SIZE + 130) of
               Inl _ \<Rightarrow> Inl STN_AUTHORITY_MALFORMED_GRANT
             | Inr statement \<Rightarrow>
                 Inr (take 130 (drop STN_AUTHORITY_GRANT_DOMAIN_SIZE statement) @ take 64 sg)))"

definition stn_authority_grant_validate ::
  "ed25519 \<Rightarrow> bytes option \<Rightarrow> bytes list option \<Rightarrow> nat \<Rightarrow> stn_authority_grant_result + bytes" where
  "stn_authority_grant_validate ed grant roots count =
     (case grant of
        None \<Rightarrow> Inl STN_AUTHORITY_MALFORMED_GRANT
      | Some g \<Rightarrow>
          if length g \<noteq> STN_AUTHORITY_GRANT_SIZE \<or> g ! 0 \<noteq> STN_AUTHORITY_VERSION \<or>
             stn_authority_root_set_validate roots count \<noteq> STN_AUTHORITY_AUTHORIZED
          then Inl STN_AUTHORITY_MALFORMED_GRANT
          else
            (let issuer = take 32 (drop 1 g); evidence = take 97 (drop 33 g)
             in case stn_identity_derive (Some issuer) of
                  Inl _ \<Rightarrow> Inl STN_AUTHORITY_MALFORMED_GRANT
                | Inr issuer \<Rightarrow>
                    if stn_authority_evidence_validate (Some evidence) \<noteq> STN_AUTHORITY_AUTHORIZED
                    then Inl STN_AUTHORITY_MALFORMED_GRANT
                    else
                      (case stn_authority_grant_statement (Some issuer) (Some evidence)
                              (STN_AUTHORITY_GRANT_DOMAIN_SIZE + 130) of
                         Inl _ \<Rightarrow> Inl STN_AUTHORITY_MALFORMED_GRANT
                       | Inr statement \<Rightarrow>
                           if \<not> root_contains roots count issuer \<or> ed statement issuer (drop 130 g) \<noteq> 0
                           then Inl STN_AUTHORITY_INVALID_GRANT
                           else Inr evidence)))"

definition stn_authority_grant_id :: "bytes option \<Rightarrow> stn_hash_provider \<Rightarrow> bytes data_result" where
  "stn_authority_grant_id grant provider =
     (case grant of
        None \<Rightarrow> Inl STN_DATA_ARGUMENT
      | Some g \<Rightarrow>
          if length g \<noteq> STN_AUTHORITY_GRANT_SIZE then Inl STN_DATA_ARGUMENT
          else if g ! 0 \<noteq> STN_AUTHORITY_VERSION then Inl STN_DATA_CONTENT
          else
            (case stn_identity_derive (Some (drop 1 g)) of
               Inl _ \<Rightarrow> Inl STN_DATA_CONTENT
             | Inr _ \<Rightarrow>
                 if stn_authority_evidence_validate (Some (take 97 (drop 33 g))) \<noteq> STN_AUTHORITY_AUTHORIZED
                 then Inl STN_DATA_CONTENT
                 else
                   (case provider of
                      None \<Rightarrow> Inl STN_DATA_UNRESOLVED
                    | Some hash \<Rightarrow>
                        (case hash [] g of
                           Inr digest \<Rightarrow> Inr digest
                         | Inl s \<Rightarrow>
                             Inl (if s = STN_DATA_UNRESOLVED \<or> s = STN_DATA_ARGUMENT then s
                                  else STN_DATA_PROVIDER_ERROR)))))"

section \<open>Revocations\<close>

definition stn_authority_revocation_statement ::
  "bytes option \<Rightarrow> bytes option \<Rightarrow> nat \<Rightarrow> stn_authority_revocation_result + bytes" where
  "stn_authority_revocation_statement issuer grant_id capacity =
     (if capacity < STN_AUTHORITY_REVOKE_DOMAIN_SIZE + 1 + 64 then Inl STN_AUTHORITY_MALFORMED_REVOCATION
      else
        (case (grant_id, stn_identity_derive issuer) of
           (Some i, Inr canonical) \<Rightarrow>
             if \<not> nonzero (take 32 i) then Inl STN_AUTHORITY_MALFORMED_REVOCATION
             else Inr (STN_AUTHORITY_REVOKE_DOMAIN @ [0] @ [STN_AUTHORITY_VERSION] @ canonical @ take 32 i)
         | _ \<Rightarrow> Inl STN_AUTHORITY_MALFORMED_REVOCATION))"

definition stn_authority_revocation_encode ::
  "bytes option \<Rightarrow> bytes option \<Rightarrow> bytes option \<Rightarrow> nat \<Rightarrow> stn_authority_revocation_result + bytes" where
  "stn_authority_revocation_encode issuer grant_id signature capacity =
     (case signature of
        None \<Rightarrow> Inl STN_AUTHORITY_MALFORMED_REVOCATION
      | Some sg \<Rightarrow>
          if capacity < STN_AUTHORITY_REVOCATION_SIZE then Inl STN_AUTHORITY_MALFORMED_REVOCATION
          else
            (case stn_authority_revocation_statement issuer grant_id
                    (STN_AUTHORITY_REVOKE_DOMAIN_SIZE + 65) of
               Inl _ \<Rightarrow> Inl STN_AUTHORITY_MALFORMED_REVOCATION
             | Inr _ \<Rightarrow>
                 (case (issuer, grant_id) of
                    (Some k, Some i) \<Rightarrow> Inr ([STN_AUTHORITY_VERSION] @ take 32 k @ take 32 i @ take 64 sg)
                  | _ \<Rightarrow> Inl STN_AUTHORITY_MALFORMED_REVOCATION)))"

definition stn_authority_revocation_validate ::
  "ed25519 \<Rightarrow> bytes option \<Rightarrow> bytes option \<Rightarrow> bytes list option \<Rightarrow> nat \<Rightarrow> stn_hash_provider \<Rightarrow>
   stn_authority_revocation_result + bytes" where
  "stn_authority_revocation_validate ed revocation grant roots root_count provider =
     (case (revocation, grant) of
        (Some r, Some g) \<Rightarrow>
          if length r \<noteq> STN_AUTHORITY_REVOCATION_SIZE \<or> r ! 0 \<noteq> STN_AUTHORITY_VERSION
          then Inl STN_AUTHORITY_MALFORMED_REVOCATION
          else
            (case stn_authority_grant_validate ed grant roots root_count of
               Inl STN_AUTHORITY_MALFORMED_GRANT \<Rightarrow> Inl STN_AUTHORITY_MALFORMED_REVOCATION
             | Inl _ \<Rightarrow> Inl STN_AUTHORITY_INVALID_REVOCATION
             | Inr _ \<Rightarrow>
                 (case stn_authority_grant_id grant provider of
                    Inl _ \<Rightarrow> Inl STN_AUTHORITY_INVALID_REVOCATION
                  | Inr i \<Rightarrow>
                      if \<not> nonzero (take 32 (drop 33 r)) then Inl STN_AUTHORITY_MALFORMED_REVOCATION
                      else
                        (case stn_identity_derive (Some (take 32 (drop 1 r))) of
                           Inl _ \<Rightarrow> Inl STN_AUTHORITY_MALFORMED_REVOCATION
                         | Inr issuer \<Rightarrow>
                             if memcmp issuer (take 32 (drop 1 g)) \<noteq> 0
                             then Inl STN_AUTHORITY_INVALID_REVOCATION
                             else if memcmp (take 32 (drop 33 r)) i \<noteq> 0
                             then Inl STN_AUTHORITY_INVALID_REVOCATION
                             else
                               (case stn_authority_revocation_statement (Some issuer) (Some i)
                                       (STN_AUTHORITY_REVOKE_DOMAIN_SIZE + 65) of
                                  Inl _ \<Rightarrow> Inl STN_AUTHORITY_INVALID_REVOCATION
                                | Inr statement \<Rightarrow>
                                    (case stn_identity_verify ed (Some issuer) (Some statement)
                                            (Some (drop 65 r)) 64 of
                                       STN_IDENTITY_VALID \<Rightarrow> Inr i
                                     | STN_IDENTITY_MALFORMED \<Rightarrow> Inl STN_AUTHORITY_MALFORMED_REVOCATION
                                     | STN_IDENTITY_INVALID \<Rightarrow> Inl STN_AUTHORITY_INVALID_REVOCATION)))))
      | _ \<Rightarrow> Inl STN_AUTHORITY_MALFORMED_REVOCATION)"

text \<open>The revoked identifiers: an array of 256 slots and the number in use.\<close>

record stn_authority_state =
  revoked_ids :: "bytes list"
  revoked_count :: nat

definition stn_authority_state_initialize :: stn_authority_state where
  "stn_authority_state_initialize =
     \<lparr>revoked_ids = replicate STN_AUTHORITY_MAX_REVOKED (replicate 32 0), revoked_count = 0\<rparr>"

definition revoked :: "stn_authority_state \<Rightarrow> bytes list" where
  "revoked s = take (revoked_count s) (revoked_ids s)"

definition stn_authority_state_is_revoked :: "stn_authority_state \<Rightarrow> bytes option \<Rightarrow> bool" where
  "stn_authority_state_is_revoked state i =
     (case i of
        None \<Rightarrow> False
      | Some k \<Rightarrow>
          list_ex (\<lambda>x. memcmp x k = 0) (take STN_AUTHORITY_MAX_REVOKED (revoked state)))"

text \<open>The insertion loop moves every larger identifier one slot up and returns the free slot.\<close>

fun shift_loop :: "bytes list \<Rightarrow> nat \<Rightarrow> bytes \<Rightarrow> bytes list \<times> nat" where
  "shift_loop ids 0 k = (ids, 0)"
| "shift_loop ids (Suc p) k =
     (if memcmp (ids ! p) k > 0 then shift_loop (ids[Suc p := ids ! p]) p k else (ids, Suc p))"

definition stn_authority_state_apply ::
  "ed25519 \<Rightarrow> stn_authority_state \<Rightarrow> bytes option \<Rightarrow> bytes option \<Rightarrow> bytes list option \<Rightarrow> nat \<Rightarrow>
   stn_hash_provider \<Rightarrow> stn_authority_revocation_result \<times> stn_authority_state" where
  "stn_authority_state_apply ed state revocation grant roots root_count provider =
     (if revoked_count state > STN_AUTHORITY_MAX_REVOKED then (STN_AUTHORITY_MALFORMED_REVOCATION, state)
      else
        (case stn_authority_revocation_validate ed revocation grant roots root_count provider of
           Inl r \<Rightarrow> (r, state)
         | Inr i \<Rightarrow>
             if list_ex (\<lambda>x. memcmp x i = 0) (revoked state) then (STN_AUTHORITY_VALID_REVOCATION, state)
             else if revoked_count state = STN_AUTHORITY_MAX_REVOKED
             then (STN_AUTHORITY_INVALID_REVOCATION, state)
             else
               (case shift_loop (revoked_ids state) (revoked_count state) i of
                  (ids, pos) \<Rightarrow>
                    (STN_AUTHORITY_VALID_REVOCATION,
                     \<lparr>revoked_ids = ids[pos := i], revoked_count = revoked_count state + 1\<rparr>))))"

definition stn_authority_grant_active ::
  "ed25519 \<Rightarrow> bytes option \<Rightarrow> bytes list option \<Rightarrow> nat \<Rightarrow> stn_hash_provider \<Rightarrow> stn_authority_state \<Rightarrow>
   stn_authority_grant_result + bytes" where
  "stn_authority_grant_active ed grant roots count provider state =
     (case stn_authority_grant_validate ed grant roots count of
        Inl r \<Rightarrow> Inl r
      | Inr evidence \<Rightarrow>
          (case stn_authority_grant_id grant provider of
             Inl _ \<Rightarrow> Inl STN_AUTHORITY_INVALID_GRANT
           | Inr i \<Rightarrow>
               if stn_authority_state_is_revoked state (Some i) then Inl STN_AUTHORITY_INVALID_GRANT
               else Inr evidence))"

section \<open>The set of revoked grants\<close>

lemma find_at_append_larger: "\<not> memcmp (f z) k < 0 \<Longrightarrow> find_at f k (xs @ [z]) = find_at f k xs"
  by (induction xs) simp_all

lemma find_at_all_smaller: "\<forall>x \<in> set xs. memcmp (f x) k < 0 \<Longrightarrow> find_at f k xs = length xs"
  by (induction xs) simp_all

lemma shift_loop_props:
  "shift_loop ids n k = (ids', p) \<Longrightarrow> p \<le> n \<and> length ids' = length ids \<and> (\<forall>j > n. ids' ! j = ids ! j)"
proof (induction n arbitrary: ids)
  case 0
  then show ?case by simp
next
  case (Suc n)
  show ?case
  proof (cases "memcmp (ids ! n) k > 0")
    case True
    with Suc.prems have "shift_loop (ids[Suc n := ids ! n]) n k = (ids', p)" by simp
    from Suc.IH [OF this] show ?thesis by auto
  next
    case False
    with Suc.prems show ?thesis by auto
  qed
qed

lemma insert_at_append: "n \<le> length xs \<Longrightarrow> insert_at n x (xs @ ys) = insert_at n x xs @ ys"
  by (simp add: insert_at_def)

text \<open>The shifting loop inserts at the place the sorted search finds.\<close>

lemma shift_loop_insert:
  assumes "n < length ids" "sorted_by id (take n ids)" "k \<notin> set (take n ids)"
    "shift_loop ids n k = (ids', p)"
  shows "take (Suc n) (ids'[p := k]) = insert_at (find_at id k (take n ids)) k (take n ids)"
  using assms
proof (induction n arbitrary: ids)
  case 0
  then show ?case by (cases ids) (auto simp: insert_at_def)
next
  case (Suc n)
  have split: "take (Suc n) ids = take n ids @ [ids ! n]"
    using Suc.prems(1) by (simp add: take_Suc_conv_app_nth)
  have sorted: "sorted_by id (take n ids)" and below: "\<forall>x \<in> set (take n ids). memcmp x (ids ! n) < 0"
    using Suc.prems(2) unfolding split by (auto simp: sorted_by_def sorted_wrt_append)
  show ?case
  proof (cases "memcmp (ids ! n) k > 0")
    case True
    let ?ids = "ids[Suc n := ids ! n]"
    from True Suc.prems(4) have loop: "shift_loop ?ids n k = (ids', p)" by simp
    note props = shift_loop_props [OF loop]
    have same: "take n ?ids = take n ids" by simp
    have "n < length ?ids" "k \<notin> set (take n ids)"
      using Suc.prems(1,3) split by auto
    from Suc.IH [OF this(1) _ _ loop, unfolded same, OF sorted this(2)]
    have "take (Suc n) (ids'[p := k]) = insert_at (find_at id k (take n ids)) k (take n ids)" .
    moreover have "ids'[p := k] ! Suc n = ids ! n"
      using props Suc.prems(1) by simp
    ultimately have "take (Suc (Suc n)) (ids'[p := k]) =
        insert_at (find_at id k (take n ids)) k (take n ids) @ [ids ! n]"
      using props Suc.prems(1) by (simp add: take_Suc_conv_app_nth)
    also have "\<dots> = insert_at (find_at id k (take n ids)) k (take n ids @ [ids ! n])"
      by (rule insert_at_append [OF find_at_le, symmetric])
    also have "find_at id k (take n ids) = find_at id k (take n ids @ [ids ! n])"
      by (rule find_at_append_larger [symmetric]) (use True in simp)
    finally show ?thesis unfolding split .
  next
    case False
    with Suc.prems(3) split have "memcmp (ids ! n) k < 0"
      using memcmp_total [of "ids ! n" k] by (auto simp: memcmp_swap [of k "ids ! n"])
    then have "\<forall>x \<in> set (take (Suc n) ids). memcmp x k < 0"
      unfolding split using below memcmp_trans by auto
    then have pos: "find_at id k (take (Suc n) ids) = Suc n"
      using find_at_all_smaller [of "take (Suc n) ids" id k] Suc.prems(1) by simp
    from False Suc.prems(4) have "ids' = ids" "p = Suc n" by simp_all
    then show ?thesis
      unfolding pos using Suc.prems(1) by (simp add: insert_at_def take_Suc_conv_app_nth)
  qed
qed

definition authority_wf :: "stn_authority_state \<Rightarrow> bool" where
  "authority_wf s \<longleftrightarrow> length (revoked_ids s) = 256 \<and> revoked_count s \<le> 256 \<and> sorted_by id (revoked s)"

lemma authority_wf_initialize: "authority_wf stn_authority_state_initialize"
  by (simp add: authority_wf_def stn_authority_state_initialize_def revoked_def)

lemma is_revoked_iff:
  "authority_wf s \<Longrightarrow> stn_authority_state_is_revoked s (Some k) \<longleftrightarrow> k \<in> set (revoked s)"
  by (auto simp: stn_authority_state_is_revoked_def authority_wf_def revoked_def list_ex_iff)

text \<open>One application, on the set of revoked identifiers.\<close>

lemma state_apply_cases:
  assumes "authority_wf s"
  shows "case stn_authority_state_apply ed s revocation grant roots count provider of (result, t) \<Rightarrow>
    authority_wf t \<and>
    (case stn_authority_revocation_validate ed revocation grant roots count provider of
       Inl r \<Rightarrow> result = r \<and> t = s
     | Inr i \<Rightarrow>
         if i \<in> set (revoked s) then result = STN_AUTHORITY_VALID_REVOCATION \<and> t = s
         else if revoked_count s = 256 then result = STN_AUTHORITY_INVALID_REVOCATION \<and> t = s
         else result = STN_AUTHORITY_VALID_REVOCATION \<and> set (revoked t) = insert i (set (revoked s)) \<and>
           revoked_count t = revoked_count s + 1)"
proof (cases "stn_authority_revocation_validate ed revocation grant roots count provider")
  case (Inl r)
  with assms show ?thesis by (auto simp: stn_authority_state_apply_def authority_wf_def)
next
  case (Inr i)
  show ?thesis
  proof (cases "i \<in> set (revoked s) \<or> revoked_count s = 256")
    case True
    with assms Inr show ?thesis
      by (auto simp: stn_authority_state_apply_def authority_wf_def list_ex_iff)
  next
    case False
    obtain ids p where loop: "shift_loop (revoked_ids s) (revoked_count s) i = (ids, p)" by force
    let ?t = "\<lparr>revoked_ids = ids[p := i], revoked_count = revoked_count s + 1\<rparr>"
    have room: "revoked_count s < length (revoked_ids s)"
      using assms False by (simp add: authority_wf_def)
    have sorted: "sorted_by id (revoked s)" using assms by (simp add: authority_wf_def)
    have new: "revoked ?t = insert_at (find_at id i (revoked s)) i (revoked s)"
      using shift_loop_insert [OF room _ _ loop] sorted False by (simp add: revoked_def)
    have "table id (revoked s) i = None" using False by (simp add: table_None_iff)
    then have "sorted_by id (revoked ?t)"
      using sorted_insert_at [OF sorted, of i] unfolding new by simp
    moreover have "set (revoked ?t) = insert i (set (revoked s))"
      unfolding new by (rule set_insert_at)
    ultimately show ?thesis
      using assms False Inr loop shift_loop_props [OF loop]
      by (auto simp: stn_authority_state_apply_def authority_wf_def list_ex_iff)
  qed
qed

lemma revocation_validate_grant:
  assumes "stn_authority_revocation_validate ed r (Some g) roots count provider = Inr i"
  shows "stn_authority_grant_id (Some g) provider = Inr i"
  using assms
  by (auto simp: stn_authority_revocation_validate_def
      simp del: stn_identity_derive.simps
      split: option.splits sum.splits if_splits stn_authority_grant_result.splits stn_identity_result.splits)

lemma apply_monotone:
  assumes "authority_wf s"
  shows "authority_wf (snd (stn_authority_state_apply ed s r g roots count provider)) \<and>
    set (revoked s) \<subseteq> set (revoked (snd (stn_authority_state_apply ed s r g roots count provider)))"
  using state_apply_cases [OF assms, of ed r g roots count provider]
  by (auto split: prod.splits sum.splits if_splits)

lemma apply_all_monotone:
  assumes "authority_wf s"
  shows "authority_wf (consume_all (\<lambda>s (r, g). stn_authority_state_apply ed s r g roots count provider) s later) \<and>
    set (revoked s) \<subseteq>
      set (revoked (consume_all (\<lambda>s (r, g). stn_authority_state_apply ed s r g roots count provider) s later))"
  using assms
proof (induction later arbitrary: s)
  case Nil
  then show ?case by simp
next
  case (Cons rg later)
  obtain r g where rg: "rg = (r, g)" by force
  from apply_monotone [OF Cons.prems, of ed r g roots count provider] Cons.IH rg
  show ?case by auto
qed

text \<open>
  C30. Revocation is permanent and exact. An accepted revocation adds the grant's identifier, and
  nothing else, to the sorted set of revoked identifiers; after any sequence of later applications,
  accepted or not, the set is still sorted without duplicates and contains it, and the grant is not
  active for any verifier and any root set.
\<close>

theorem authority_revocation_permanent:
  assumes "authority_wf s"
    "stn_authority_state_apply ed s r (Some g) roots count (Some hash) =
       (STN_AUTHORITY_VALID_REVOCATION, t)"
  shows "let u = consume_all (\<lambda>s (r, g). stn_authority_state_apply ed s r g roots count (Some hash)) t later in
    authority_wf u \<and>
    (\<exists>i. stn_authority_grant_id (Some g) (Some hash) = Inr i \<and>
       set (revoked t) = insert i (set (revoked s)) \<and> i \<in> set (revoked u)) \<and>
    (\<forall>e. stn_authority_grant_active ed' (Some g) roots' count' (Some hash) u \<noteq> Inr e)"
proof -
  from assms(2) obtain i where i: "stn_authority_revocation_validate ed r (Some g) roots count (Some hash) = Inr i"
    using state_apply_cases [OF assms(1), of ed r "Some g" roots count "Some hash"]
    by (cases "stn_authority_revocation_validate ed r (Some g) roots count (Some hash)")
       (auto simp: stn_authority_revocation_validate_def simp del: stn_identity_derive.simps
        split: option.splits sum.splits if_splits stn_authority_grant_result.splits stn_identity_result.splits)
  note grant_id = revocation_validate_grant [OF i]
  have t: "authority_wf t" "set (revoked t) = insert i (set (revoked s))"
    using state_apply_cases [OF assms(1), of ed r "Some g" roots count "Some hash"] assms(2) i
    by (auto split: if_splits)
  define u where "u = consume_all (\<lambda>s (r, g). stn_authority_state_apply ed s r g roots count (Some hash)) t later"
  have u: "authority_wf u" "i \<in> set (revoked u)"
    using apply_all_monotone [OF t(1), of ed roots count "Some hash" later] t(2) unfolding u_def by auto
  have "stn_authority_state_is_revoked u (Some i)"
    using u by (simp add: is_revoked_iff)
  then have "stn_authority_grant_active ed' (Some g) roots' count' (Some hash) u \<noteq> Inr e" for e
    using grant_id by (auto simp: stn_authority_grant_active_def split: sum.splits)
  with t u grant_id show ?thesis unfolding u_def [symmetric] Let_def by blast
qed

section \<open>Who may grant\<close>

lemma root_loop_iff:
  "root_loop prev rs \<longleftrightarrow> (\<forall>r \<in> set rs. stn_identity_derive (Some r) = Inr (take 32 r)) \<and>
     (case prev of None \<Rightarrow> sorted_by id rs | Some p \<Rightarrow> sorted_by id (p # rs))"
proof (induction rs arbitrary: prev)
  case Nil
  then show ?case by (simp split: option.splits)
next
  case (Cons r rs)
  have "stn_identity_derive (Some r) = Inr (take 32 r) \<or> (\<exists>e. stn_identity_derive (Some r) = Inl e)" by simp
  moreover have "sorted_by id (p # r # rs) \<longleftrightarrow> memcmp p r < 0 \<and> sorted_by id (r # rs)" for p
    by (auto intro: memcmp_trans)
  ultimately show ?case
    using Cons.IH by (auto simp del: stn_identity_derive.simps split: option.splits)
qed

lemma grant_validate_iff:
  assumes "length rs = count"
  shows "stn_authority_grant_validate ed (Some g) (Some rs) count = Inr e \<longleftrightarrow>
    length g = 194 \<and> g ! 0 = 1 \<and> count \<le> 16 \<and> sorted_by id rs \<and>
    (\<forall>r \<in> set rs. stn_identity_derive (Some r) = Inr (take 32 r)) \<and>
    take 32 (drop 1 g) \<in> set rs \<and> e = take 97 (drop 33 g) \<and>
    stn_identity_derive (Some (take 32 (drop 1 g))) = Inr (take 32 (drop 1 g)) \<and>
    stn_authority_evidence_validate (Some e) = STN_AUTHORITY_AUTHORIZED \<and>
    ed (cstring ''STN-CHAIN:AUTHORITY:GRANT:1'' @ [1] @ take 32 (drop 1 g) @ e) (take 32 (drop 1 g)) (drop 130 g) = 0"
proof -
  have roots: "stn_authority_root_set_validate (Some rs) count = STN_AUTHORITY_AUTHORIZED \<longleftrightarrow>
      count \<le> 16 \<and> sorted_by id rs \<and> (\<forall>r \<in> set rs. stn_identity_derive (Some r) = Inr (take 32 r))"
    using assms by (auto simp: stn_authority_root_set_validate_def root_list_def root_loop_iff
        simp del: stn_identity_derive.simps)
  have contains: "root_contains (Some rs) count k \<longleftrightarrow> k \<in> set rs" for k
    using assms by (auto simp: root_contains_def root_list_def list_ex_iff)
  let ?i = "take 32 (drop 1 g)" and ?e = "take 97 (drop 33 g)"
  have statement: "stn_authority_grant_statement (Some ?i) (Some ?e) (28 + 130) =
      Inr (cstring ''STN-CHAIN:AUTHORITY:GRANT:1'' @ [1] @ ?i @ ?e)"
    if "stn_identity_derive (Some ?i) = Inr ?i" "stn_authority_evidence_validate (Some ?e) = STN_AUTHORITY_AUTHORIZED"
    using that by (simp add: stn_authority_grant_statement_def STN_AUTHORITY_GRANT_DOMAIN_def cstring_def
        del: stn_identity_derive.simps stn_authority_evidence_validate.simps)
  have derive: "stn_identity_derive (Some ?i) = Inr ?i \<or> (\<exists>x. stn_identity_derive (Some ?i) = Inl x)" by simp
  show ?thesis
    unfolding stn_authority_grant_validate_def option.case Let_def
    using roots contains statement derive
    by (auto simp del: stn_identity_derive.simps stn_authority_evidence_validate.simps
        split: if_splits sum.splits)
qed

text \<open>
  Only a genesis root grants. A grant is valid exactly when it has its 194 bytes and version, the
  root set has at most 16 canonical keys in strictly ascending order, the issuer is one of them, the
  evidence is a canonical subject with a versioned nonzero action and context, and the signature
  verifies under the issuer on the domain, the version, the issuer and the evidence.
\<close>

theorem authority_grant_roots_only:
  assumes "length rs = count"
  shows "stn_authority_grant_validate ed (Some g) (Some rs) count = Inr e \<longleftrightarrow>
    length g = 194 \<and> g ! 0 = 1 \<and> count \<le> 16 \<and> sorted_by id rs \<and>
    (\<forall>r \<in> set rs. stn_identity_derive (Some r) = Inr (take 32 r)) \<and>
    take 32 (drop 1 g) \<in> set rs \<and> e = take 97 (drop 33 g) \<and>
    stn_identity_derive (Some (take 32 (drop 1 g))) = Inr (take 32 (drop 1 g)) \<and>
    stn_authority_evidence_validate (Some e) = STN_AUTHORITY_AUTHORIZED \<and>
    ed (cstring ''STN-CHAIN:AUTHORITY:GRANT:1'' @ [1] @ take 32 (drop 1 g) @ e) (take 32 (drop 1 g)) (drop 130 g) = 0"
  using assms by (rule grant_validate_iff)

section \<open>Concrete grants\<close>

definition sample_authority_evidence :: bytes where
  "sample_authority_evidence =
     [1] @ (2 # replicate 31 0) @ (1 # 1 # replicate 30 0) @ (1 # 1 # replicate 30 0)"

definition sample_grant :: bytes where
  "sample_grant = [1] @ (2 # replicate 31 0) @ sample_authority_evidence @ replicate 64 0"

definition sample_revocation :: bytes where
  "sample_revocation = [1] @ (2 # replicate 31 0) @ replicate 32 9 @ (2 # replicate 31 0 @ replicate 32 0)"

lemma sample_key_derive [simp]:
  "stn_identity_derive (Some (2 # replicate 31 0)) = Inr (2 # replicate 31 0)"
  "stn_identity_derive (Some (2 # replicate 31 0 @ xs)) = Inr (2 # replicate 31 0)"
  using sample_key_canonical(1-3) by (simp_all add: canonical_point_def small_order_def)

lemma sample_evidence_valid:
  "stn_authority_evidence_validate (Some sample_authority_evidence) = STN_AUTHORITY_AUTHORIZED"
  "length sample_authority_evidence = 97"
  by (simp_all add: sample_authority_evidence_def stn_authority_action_validate_def
      stn_authority_context_validate_def nonzero_iff del: stn_identity_derive.simps)

lemma sample_grant_parts:
  "length sample_grant = 194" "sample_grant ! 0 = 1" "take 32 (drop 1 sample_grant) = 2 # replicate 31 0"
  "take 97 (drop 33 sample_grant) = sample_authority_evidence"
  "stn_identity_derive (Some (drop 1 sample_grant)) = Inr (2 # replicate 31 0)"
  using sample_evidence_valid(2)
  by (simp_all add: sample_grant_def del: stn_identity_derive.simps)

lemma sample_grant_valid:
  "stn_authority_grant_validate sample_ed (Some sample_grant) (Some [2 # replicate 31 0]) 1 =
     Inr sample_authority_evidence"
  by (subst grant_validate_iff)
     (simp_all add: sample_grant_parts sample_evidence_valid sample_ed_def
        del: stn_identity_derive.simps stn_authority_evidence_validate.simps drop_Suc_Cons One_nat_def)

theorem authority_grant_roots_only_witness:
  "stn_authority_grant_validate sample_ed (Some sample_grant) (Some [2 # replicate 31 0]) 1 =
     Inr sample_authority_evidence"
proof -
  have "take 32 (2 # replicate 31 0 :: bytes) = 2 # replicate 31 0" by simp
  then show ?thesis
    by (subst authority_grant_roots_only)
       (simp_all add: sample_grant_parts sample_evidence_valid sample_ed_def
          del: stn_identity_derive.simps stn_authority_evidence_validate.simps drop_Suc_Cons One_nat_def)
qed

lemma sample_revocation_valid:
  "stn_authority_revocation_validate sample_ed (Some sample_revocation) (Some sample_grant)
     (Some [2 # replicate 31 0]) 1 (Some sample_sha) = Inr (replicate 32 9)"
proof -
  have r: "length sample_revocation = 129" "sample_revocation ! 0 = 1"
      "take 32 (drop 1 sample_revocation) = 2 # replicate 31 0"
      "take 32 (drop 33 sample_revocation) = replicate 32 9"
      "drop 65 sample_revocation = 2 # replicate 31 0 @ replicate 32 0"
    by (simp_all add: sample_revocation_def)
  have i: "stn_authority_grant_id (Some sample_grant) (Some sample_sha) = Inr (replicate 32 9)"
    by (simp add: stn_authority_grant_id_def sample_grant_parts sample_evidence_valid sample_sha_def
        del: stn_identity_derive.simps stn_authority_evidence_validate.simps drop_Suc_Cons One_nat_def)
  show ?thesis
    using sample_key_canonical
    by (simp add: stn_authority_revocation_validate_def r i sample_grant_valid sample_grant_parts
        nonzero_iff stn_authority_revocation_statement_def stn_identity_verify_def sample_ed_def
        del: stn_identity_derive.simps stn_authority_evidence_validate.simps drop_Suc_Cons One_nat_def)
qed

theorem authority_revocation_permanent_witness:
  "\<exists>t. stn_authority_state_apply sample_ed stn_authority_state_initialize (Some sample_revocation)
      (Some sample_grant) (Some [2 # replicate 31 0]) 1 (Some sample_sha) = (STN_AUTHORITY_VALID_REVOCATION, t) \<and>
    (\<forall>e. stn_authority_grant_active sample_ed (Some sample_grant) (Some [2 # replicate 31 0]) 1 (Some sample_sha) t
       \<noteq> Inr e)"
proof -
  obtain t where t: "stn_authority_state_apply sample_ed stn_authority_state_initialize (Some sample_revocation)
      (Some sample_grant) (Some [2 # replicate 31 0]) 1 (Some sample_sha) = (STN_AUTHORITY_VALID_REVOCATION, t)"
    by (simp add: stn_authority_state_apply_def sample_revocation_valid [simplified] stn_authority_state_initialize_def
        revoked_def)
  with authority_revocation_permanent [OF authority_wf_initialize t, of "[]" sample_ed
      "Some [2 # replicate 31 0]" 1]
  show ?thesis by (auto simp: Let_def)
qed

end
