(* ===== verification/Stn_Contract.thy ===== *)
theory Stn_Contract
  imports Stn_Address Stn_Authority
begin

text \<open>
  Contracts, first part (\<^verbatim>\<open>src/src/stn_contract.c\<close>): the canonical representation, its codec and
  address, the participant accessor and the lifecycle. The file's static \<^verbatim>\<open>read_be\<close> and
  \<^verbatim>\<open>write_be\<close> are the loops of \<^verbatim>\<open>stn_wire_read\<close> and \<^verbatim>\<open>stn_wire_write\<close>. Types, states, roles
  and actions are \<^verbatim>\<open>uint16_t\<close> fields of the structures, compared with enumeration constants.
\<close>

section \<open>Constants\<close>

datatype stn_contract_status =
  STN_CONTRACT_OK | STN_CONTRACT_ARGUMENT | STN_CONTRACT_TRUNCATED | STN_CONTRACT_MAGIC
| STN_CONTRACT_VERSION_ERROR | STN_CONTRACT_TYPE_ERROR | STN_CONTRACT_STATE_ERROR
| STN_CONTRACT_ROLE_ERROR | STN_CONTRACT_PARTICIPANT_LIMIT | STN_CONTRACT_PARTICIPANT_INDEX
| STN_CONTRACT_TERMS_LIMIT | STN_CONTRACT_LENGTH | STN_CONTRACT_CAPACITY
| STN_CONTRACT_ADDRESS_ERROR | STN_CONTRACT_ACTION_ERROR | STN_CONTRACT_TRANSITION_ERROR
| STN_CONTRACT_SEQUENCE_ERROR | STN_CONTRACT_AUTHORITY_ERROR | STN_CONTRACT_SIGNATURE_ERROR
| STN_CONTRACT_DUPLICATE_APPROVAL

definition STN_CONTRACT_VERSION :: u16 where [simp]: "STN_CONTRACT_VERSION = 1"
definition STN_CONTRACT_HEADER_SIZE :: nat where [simp]: "STN_CONTRACT_HEADER_SIZE = 32"
definition STN_CONTRACT_PARTICIPANT_SIZE :: nat where [simp]: "STN_CONTRACT_PARTICIPANT_SIZE = 34"
definition STN_CONTRACT_MAX_PARTICIPANTS :: nat where [simp]: "STN_CONTRACT_MAX_PARTICIPANTS = 32"
definition STN_CONTRACT_MAX_TERMS :: nat where [simp]: "STN_CONTRACT_MAX_TERMS = 65536"
definition STN_CONTRACT_MAX_SIZE :: nat where
  [simp]: "STN_CONTRACT_MAX_SIZE =
     STN_CONTRACT_HEADER_SIZE + STN_CONTRACT_MAX_PARTICIPANTS * STN_CONTRACT_PARTICIPANT_SIZE +
     STN_CONTRACT_MAX_TERMS"

definition STN_CONTRACT_STATE_DRAFT :: u16 where [simp]: "STN_CONTRACT_STATE_DRAFT = 1"
definition STN_CONTRACT_STATE_ISSUED :: u16 where [simp]: "STN_CONTRACT_STATE_ISSUED = 2"
definition STN_CONTRACT_STATE_REVIEW :: u16 where [simp]: "STN_CONTRACT_STATE_REVIEW = 3"
definition STN_CONTRACT_STATE_APPROVALS :: u16 where [simp]: "STN_CONTRACT_STATE_APPROVALS = 4"
definition STN_CONTRACT_STATE_ATTESTATION :: u16 where [simp]: "STN_CONTRACT_STATE_ATTESTATION = 5"
definition STN_CONTRACT_STATE_EXECUTED :: u16 where [simp]: "STN_CONTRACT_STATE_EXECUTED = 6"
definition STN_CONTRACT_STATE_REJECTED :: u16 where [simp]: "STN_CONTRACT_STATE_REJECTED = 7"
definition STN_CONTRACT_STATE_REVOKED :: u16 where [simp]: "STN_CONTRACT_STATE_REVOKED = 8"
definition STN_CONTRACT_STATE_CLOSED :: u16 where [simp]: "STN_CONTRACT_STATE_CLOSED = 9"

definition STN_CONTRACT_ROLE_APPROVER :: u16 where [simp]: "STN_CONTRACT_ROLE_APPROVER = 4"

definition STN_CONTRACT_ACTION_CREATE :: u16 where [simp]: "STN_CONTRACT_ACTION_CREATE = 1"
definition STN_CONTRACT_ACTION_AMEND :: u16 where [simp]: "STN_CONTRACT_ACTION_AMEND = 2"
definition STN_CONTRACT_ACTION_APPROVE :: u16 where [simp]: "STN_CONTRACT_ACTION_APPROVE = 3"
definition STN_CONTRACT_ACTION_REJECT :: u16 where [simp]: "STN_CONTRACT_ACTION_REJECT = 4"
definition STN_CONTRACT_ACTION_EXECUTE :: u16 where [simp]: "STN_CONTRACT_ACTION_EXECUTE = 5"
definition STN_CONTRACT_ACTION_REVOKE :: u16 where [simp]: "STN_CONTRACT_ACTION_REVOKE = 6"
definition STN_CONTRACT_ACTION_CLOSE :: u16 where [simp]: "STN_CONTRACT_ACTION_CLOSE = 7"

text \<open>The switches over the enumerations; GENERIC to SERVICE_AGREEMENT are the types 1 to 6.\<close>

definition contract_type_valid :: "u16 \<Rightarrow> bool" where
  "contract_type_valid t \<longleftrightarrow> t \<in> {1, 2, 3, 4, 5, 6}"

definition contract_state_valid :: "u16 \<Rightarrow> bool" where
  "contract_state_valid s \<longleftrightarrow>
     s \<in> {STN_CONTRACT_STATE_DRAFT, STN_CONTRACT_STATE_ISSUED, STN_CONTRACT_STATE_REVIEW,
       STN_CONTRACT_STATE_APPROVALS, STN_CONTRACT_STATE_ATTESTATION, STN_CONTRACT_STATE_EXECUTED,
       STN_CONTRACT_STATE_REJECTED, STN_CONTRACT_STATE_REVOKED, STN_CONTRACT_STATE_CLOSED}"

definition contract_role_valid :: "u16 \<Rightarrow> bool" where
  "contract_role_valid r \<longleftrightarrow> r \<in> {1, 2, 3, STN_CONTRACT_ROLE_APPROVER, 5}"

definition contract_action_valid :: "u16 \<Rightarrow> bool" where
  "contract_action_valid a \<longleftrightarrow>
     a \<in> {STN_CONTRACT_ACTION_CREATE, STN_CONTRACT_ACTION_AMEND, STN_CONTRACT_ACTION_APPROVE,
       STN_CONTRACT_ACTION_REJECT, STN_CONTRACT_ACTION_EXECUTE, STN_CONTRACT_ACTION_REVOKE,
       STN_CONTRACT_ACTION_CLOSE}"

section \<open>The object and its codec\<close>

record stn_contract_participant =
  part_identity :: bytes
  part_role :: u16

text \<open>
  Encode callers set the participants, decode sets the packed participant bytes; a NULL pointer is
  \<open>None\<close>.
\<close>

record stn_contract =
  ct_version :: u16
  ct_type :: u16
  ct_sequence :: u64
  ct_created_at :: u64
  ct_state :: u16
  ct_participants :: "stn_contract_participant list option"
  ct_participant_count :: u16
  ct_participant_bytes :: "bytes option"
  ct_terms :: "bytes option"
  ct_terms_length :: u32

definition contract_magic :: bytes where "contract_magic = [0x53, 0x54, 0x43, 0x54]"

lemma length_contract_magic [simp, lengths]: "length contract_magic = 4"
  by (simp add: contract_magic_def)

definition contract_size :: "u16 \<Rightarrow> u32 \<Rightarrow> stn_contract_status + nat" where
  "contract_size participant_count terms_length =
     (if unat participant_count > STN_CONTRACT_MAX_PARTICIPANTS then Inl STN_CONTRACT_PARTICIPANT_LIMIT
      else if unat terms_length > STN_CONTRACT_MAX_TERMS then Inl STN_CONTRACT_TERMS_LIMIT
      else
        (let calculated = STN_CONTRACT_HEADER_SIZE +
               unat participant_count * STN_CONTRACT_PARTICIPANT_SIZE + unat terms_length
         in if calculated > STN_CONTRACT_MAX_SIZE then Inl STN_CONTRACT_LENGTH else Inr calculated))"

text \<open>The loop over the packed participants: every role must be one of the five.\<close>

fun roles_loop :: "nat \<Rightarrow> bytes \<Rightarrow> bool" where
  "roles_loop 0 bs = True"
| "roles_loop (Suc n) bs \<longleftrightarrow>
     contract_role_valid (ucast (stn_wire_read (drop 32 bs) 2)) \<and>
     roles_loop n (drop STN_CONTRACT_PARTICIPANT_SIZE bs)"

text \<open>
  The fields as the decoder reads them; the packed participants and the terms are spans of the
  input, NULL when empty.
\<close>

definition contract_view :: "bytes \<Rightarrow> stn_contract" where
  "contract_view input =
     (let participant_count = ucast (stn_wire_read (drop 26 input) 2) :: u16;
          terms_length = ucast (stn_wire_read (drop 28 input) 4) :: u32;
          participant_length = unat participant_count * STN_CONTRACT_PARTICIPANT_SIZE
      in \<lparr>ct_version = ucast (stn_wire_read (drop 4 input) 2),
          ct_type = ucast (stn_wire_read (drop 6 input) 2),
          ct_sequence = stn_wire_read (drop 8 input) 8,
          ct_created_at = stn_wire_read (drop 16 input) 8,
          ct_state = ucast (stn_wire_read (drop 24 input) 2),
          ct_participants = None,
          ct_participant_count = participant_count,
          ct_participant_bytes =
            (if participant_count = 0 then None
             else Some (take participant_length (drop STN_CONTRACT_HEADER_SIZE input))),
          ct_terms =
            (if terms_length = 0 then None
             else Some (take (unat terms_length)
               (drop (STN_CONTRACT_HEADER_SIZE + participant_length) input))),
          ct_terms_length = terms_length\<rparr>)"

fun stn_contract_decode :: "bytes option \<Rightarrow> stn_contract_status + stn_contract" where
  "stn_contract_decode None = Inl STN_CONTRACT_ARGUMENT"
| "stn_contract_decode (Some input) =
     (if length input < STN_CONTRACT_HEADER_SIZE then Inl STN_CONTRACT_TRUNCATED
      else if length input > STN_CONTRACT_MAX_SIZE then Inl STN_CONTRACT_LENGTH
      else if take 4 input \<noteq> contract_magic then Inl STN_CONTRACT_MAGIC
      else
        (let decoded = contract_view input
         in if ct_version decoded \<noteq> STN_CONTRACT_VERSION then Inl STN_CONTRACT_VERSION_ERROR
            else if \<not> contract_type_valid (ct_type decoded) then Inl STN_CONTRACT_TYPE_ERROR
            else if \<not> contract_state_valid (ct_state decoded) then Inl STN_CONTRACT_STATE_ERROR
            else
              (case contract_size (ct_participant_count decoded) (ct_terms_length decoded) of
                 Inl status \<Rightarrow> Inl status
               | Inr expected \<Rightarrow>
                   if length input \<noteq> expected then Inl STN_CONTRACT_LENGTH
                   else if \<not> roles_loop (unat (ct_participant_count decoded))
                        (drop STN_CONTRACT_HEADER_SIZE input)
                   then Inl STN_CONTRACT_ROLE_ERROR
                   else Inr decoded)))"

definition participant_wire :: "stn_contract_participant \<Rightarrow> bytes" where
  "participant_wire p = part_identity p @ stn_wire_write 2 (ucast (part_role p))"

text \<open>The arrays an encode caller passes, read up to their counts.\<close>

definition native_participants :: "stn_contract \<Rightarrow> stn_contract_participant list" where
  "native_participants c =
     (case ct_participants c of None \<Rightarrow> [] | Some ps \<Rightarrow> take (unat (ct_participant_count c)) ps)"

definition native_terms :: "stn_contract \<Rightarrow> bytes" where
  "native_terms c = (case ct_terms c of None \<Rightarrow> [] | Some t \<Rightarrow> take (unat (ct_terms_length c)) t)"

fun stn_contract_encode :: "stn_contract option \<Rightarrow> nat \<Rightarrow> stn_contract_status + bytes" where
  "stn_contract_encode None capacity = Inl STN_CONTRACT_ARGUMENT"
| "stn_contract_encode (Some c) capacity =
     (if ct_version c \<noteq> STN_CONTRACT_VERSION then Inl STN_CONTRACT_VERSION_ERROR
      else if \<not> contract_type_valid (ct_type c) then Inl STN_CONTRACT_TYPE_ERROR
      else if \<not> contract_state_valid (ct_state c) then Inl STN_CONTRACT_STATE_ERROR
      else if ct_participant_count c \<noteq> 0 \<and> ct_participants c = None then Inl STN_CONTRACT_ARGUMENT
      else if ct_terms_length c \<noteq> 0 \<and> ct_terms c = None then Inl STN_CONTRACT_ARGUMENT
      else
        (case contract_size (ct_participant_count c) (ct_terms_length c) of
           Inl status \<Rightarrow> Inl status
         | Inr needed \<Rightarrow>
             if \<not> list_all (\<lambda>p. contract_role_valid (part_role p)) (native_participants c)
             then Inl STN_CONTRACT_ROLE_ERROR
             else if capacity < needed then Inl STN_CONTRACT_CAPACITY
             else Inr
               (contract_magic @ stn_wire_write 2 (ucast (ct_version c)) @
                stn_wire_write 2 (ucast (ct_type c)) @ stn_wire_write 8 (ct_sequence c) @
                stn_wire_write 8 (ct_created_at c) @ stn_wire_write 2 (ucast (ct_state c)) @
                stn_wire_write 2 (ucast (ct_participant_count c)) @
                stn_wire_write 4 (ucast (ct_terms_length c)) @
                concat (map participant_wire (native_participants c)) @ native_terms c)))"

definition stn_contract_participant_at ::
  "stn_contract option \<Rightarrow> u16 \<Rightarrow> stn_contract_status + stn_contract_participant" where
  "stn_contract_participant_at contract index =
     (case contract of
        None \<Rightarrow> Inl STN_CONTRACT_ARGUMENT
      | Some c \<Rightarrow>
          if index \<ge> ct_participant_count c then Inl STN_CONTRACT_PARTICIPANT_INDEX
          else
            (case ct_participant_bytes c of
               None \<Rightarrow> Inl STN_CONTRACT_ARGUMENT
             | Some packed \<Rightarrow>
                 (let entry = drop (unat index * STN_CONTRACT_PARTICIPANT_SIZE) packed;
                      role = ucast (stn_wire_read (drop 32 entry) 2)
                  in if \<not> contract_role_valid role then Inl STN_CONTRACT_ROLE_ERROR
                     else Inr \<lparr>part_identity = take 32 entry, part_role = role\<rparr>)))"

text \<open>The status of a decode, for the callers that drop the view.\<close>

definition stn_contract_validate_structure :: "bytes option \<Rightarrow> stn_contract_status" where
  "stn_contract_validate_structure input =
     (case stn_contract_decode input of Inl status \<Rightarrow> status | Inr _ \<Rightarrow> STN_CONTRACT_OK)"

definition stn_contract_address :: "stn_hash_fn \<Rightarrow> bytes option \<Rightarrow> stn_contract_status + stn_address" where
  "stn_contract_address sha input =
     (case input of
        None \<Rightarrow> Inl STN_CONTRACT_ARGUMENT
      | Some bs \<Rightarrow>
          if stn_contract_validate_structure input \<noteq> STN_CONTRACT_OK
          then Inl (stn_contract_validate_structure input)
          else
            (case stn_address_derive sha STN_ADDRESS_CONTRACT (Some bs) (length bs) of
               Inl _ \<Rightarrow> Inl STN_CONTRACT_ADDRESS_ERROR
             | Inr derived \<Rightarrow> Inr derived))"

section \<open>The format is canonical\<close>

text \<open>Splitting packed bytes into participants, 34 bytes each, and packing them again.\<close>

fun unpack :: "nat \<Rightarrow> bytes \<Rightarrow> stn_contract_participant list" where
  "unpack 0 bs = []"
| "unpack (Suc n) bs =
     \<lparr>part_identity = take 32 bs, part_role = ucast (stn_wire_read (drop 32 bs) 2)\<rparr> #
     unpack n (drop 34 bs)"

lemma length_unpack [simp]: "length (unpack n bs) = n"
  by (induction n arbitrary: bs) simp_all

lemma pack_unpack: "34 * n \<le> length bs \<Longrightarrow> concat (map participant_wire (unpack n bs)) = take (34 * n) bs"
proof (induction n arbitrary: bs)
  case 0
  then show ?case by simp
next
  case (Suc n)
  then have "concat (map participant_wire (unpack n (drop 34 bs))) = take (34 * n) (drop 34 bs)" by simp
  with Suc.prems have "concat (map participant_wire (unpack (Suc n) bs)) =
      take 32 bs @ take 2 (drop 32 bs) @ take (34 * n) (drop 34 bs)"
    by (simp add: participant_wire_def [of "\<lparr>part_identity = _, part_role = _\<rparr>"])
  also have "\<dots> = take (34 * Suc n) bs" by (simp add: slices)
  finally show ?case .
qed

lemma length_pack:
  "\<forall>p \<in> set ps. length (part_identity p) = 32 \<Longrightarrow> length (concat (map participant_wire ps)) = 34 * length ps"
  by (induction ps) (simp_all add: participant_wire_def)

lemma unpack_pack:
  "\<forall>p \<in> set ps. length (part_identity p) = 32 \<Longrightarrow>
   unpack (length ps) (concat (map participant_wire ps) @ r) = ps"
  by (induction ps) (simp_all add: participant_wire_def)

lemma roles_loop_iff: "roles_loop n bs \<longleftrightarrow> list_all (\<lambda>p. contract_role_valid (part_role p)) (unpack n bs)"
  by (induction n arbitrary: bs) simp_all

lemma unpack_nth:
  "i < n \<Longrightarrow> unpack n bs ! i =
     \<lparr>part_identity = take 32 (drop (i * 34) bs), part_role = ucast (stn_wire_read (drop 32 (drop (i * 34) bs)) 2)\<rparr>"
proof (induction n arbitrary: i bs)
  case 0
  then show ?case by simp
next
  case (Suc n)
  then show ?case
  proof (cases i)
    case (Suc j)
    with Suc.prems show ?thesis using Suc.IH [of j "drop 34 bs"] by (simp add: add.commute)
  qed simp
qed

lemma contract_size_cases:
  "contract_size n l =
     (if 32 < unat n then Inl STN_CONTRACT_PARTICIPANT_LIMIT
      else if 65536 < unat l then Inl STN_CONTRACT_TERMS_LIMIT
      else Inr (32 + 34 * unat n + unat l))"
  by (auto simp: contract_size_def Let_def)

text \<open>
  What a decoded view is: no native participants, the packed ones with valid roles, and the terms.
  \<open>contract_native\<close> reads the participants out of it, as the accessor does one by one.
\<close>

definition packed_participants :: "stn_contract \<Rightarrow> bytes" where
  "packed_participants c = (case ct_participant_bytes c of None \<Rightarrow> [] | Some b \<Rightarrow> b)"

definition wf_view :: "stn_contract \<Rightarrow> bool" where
  "wf_view c \<longleftrightarrow> ct_participants c = None \<and>
     (ct_participant_bytes c = None \<longleftrightarrow> ct_participant_count c = 0) \<and>
     length (packed_participants c) = 34 * unat (ct_participant_count c) \<and>
     (ct_terms c = None \<longleftrightarrow> ct_terms_length c = 0) \<and>
     (\<forall>t. ct_terms c = Some t \<longrightarrow> length t = unat (ct_terms_length c))"

definition contract_native :: "stn_contract \<Rightarrow> stn_contract" where
  "contract_native c =
     c\<lparr>ct_participants := Some (unpack (unat (ct_participant_count c)) (packed_participants c)),
       ct_participant_bytes := None\<rparr>"

lemma participant_at_iff:
  assumes "wf_view c" "i < ct_participant_count c"
  shows "stn_contract_participant_at (Some c) i =
    (let p = unpack (unat (ct_participant_count c)) (packed_participants c) ! unat i
     in if contract_role_valid (part_role p) then Inr p else Inl STN_CONTRACT_ROLE_ERROR)"
proof -
  have i: "unat i < unat (ct_participant_count c)" using assms(2) by (simp add: word_less_nat_alt)
  have "ct_participant_count c \<noteq> 0" using assms(2) by auto
  with assms(1) obtain b where b: "ct_participant_bytes c = Some b" by (auto simp: wf_view_def)
  from assms(2) b show ?thesis
    by (simp add: stn_contract_participant_at_def packed_participants_def Let_def unpack_nth [OF i])
qed

definition contract_ok :: "stn_contract \<Rightarrow> bool" where
  "contract_ok c \<longleftrightarrow> ct_version c = 1 \<and> contract_type_valid (ct_type c) \<and> contract_state_valid (ct_state c) \<and>
     unat (ct_participant_count c) \<le> 32 \<and> unat (ct_terms_length c) \<le> 65536"

definition contract_layout :: "stn_contract \<Rightarrow> bytes \<Rightarrow> bytes \<Rightarrow> bytes" where
  "contract_layout c ps ts =
     contract_magic @ stn_wire_write 2 (ucast (ct_version c)) @ stn_wire_write 2 (ucast (ct_type c)) @
     stn_wire_write 8 (ct_sequence c) @ stn_wire_write 8 (ct_created_at c) @
     stn_wire_write 2 (ucast (ct_state c)) @ stn_wire_write 2 (ucast (ct_participant_count c)) @
     stn_wire_write 4 (ucast (ct_terms_length c)) @ ps @ ts"

lemma contract_encode_iff:
  "stn_contract_encode (Some c) capacity = Inr bs \<longleftrightarrow>
     contract_ok c \<and> (ct_participant_count c \<noteq> 0 \<longrightarrow> ct_participants c \<noteq> None) \<and>
     (ct_terms_length c \<noteq> 0 \<longrightarrow> ct_terms c \<noteq> None) \<and>
     list_all (\<lambda>p. contract_role_valid (part_role p)) (native_participants c) \<and>
     32 + 34 * unat (ct_participant_count c) + unat (ct_terms_length c) \<le> capacity \<and>
     bs = contract_layout c (concat (map participant_wire (native_participants c))) (native_terms c)"
  by (auto simp: contract_ok_def contract_layout_def contract_size_cases not_less)

lemma contract_decode_iff:
  "stn_contract_decode (Some bs) = Inr c \<longleftrightarrow>
     contract_ok c \<and> take 4 bs = contract_magic \<and>
     length bs = 32 + 34 * unat (ct_participant_count c) + unat (ct_terms_length c) \<and>
     roles_loop (unat (ct_participant_count c)) (drop 32 bs) \<and> c = contract_view bs"
proof -
  define v where "v = contract_view bs"
  show ?thesis
    unfolding stn_contract_decode.simps v_def [symmetric] contract_ok_def
    by (auto simp: Let_def contract_size_cases)
qed

declare stn_contract_decode.simps(2) [simp del] stn_contract_encode.simps(2) [simp del]

lemma unpack_take: "34 * n \<le> m \<Longrightarrow> unpack n (take m bs) = unpack n bs"
proof (induction n arbitrary: m bs)
  case 0
  then show ?case by simp
next
  case (Suc n)
  then have "2 \<le> m - 32" by simp
  with Suc show ?case by (simp add: drop_take min_def)
qed

lemma length_contract_layout [simp, lengths]:
  "length (contract_layout c ps ts) = 32 + length ps + length ts"
  by (simp add: contract_layout_def)

text \<open>Decoding what the encoder writes, for either kind of contract object.\<close>

lemma decode_layout:
  assumes "contract_ok c" "length ps = 34 * unat (ct_participant_count c)" "length ts = unat (ct_terms_length c)"
    "list_all (\<lambda>p. contract_role_valid (part_role p)) (unpack (unat (ct_participant_count c)) ps)"
  shows "stn_contract_decode (Some (contract_layout c ps ts)) =
    Inr (c\<lparr>ct_participants := None,
      ct_participant_bytes := (if ct_participant_count c = 0 then None else Some ps),
      ct_terms := (if ct_terms_length c = 0 then None else Some ts)\<rparr>)" (is "_ = Inr ?d")
proof -
  have view: "contract_view (contract_layout c ps ts) = ?d"
    using assms(2,3) by (simp add: contract_view_def contract_layout_def Let_def)
  have "drop 32 (contract_layout c ps ts) = ps @ ts"
    by (simp add: contract_layout_def)
  moreover have "unpack (unat (ct_participant_count c)) (ps @ ts) = unpack (unat (ct_participant_count c)) ps"
    using unpack_take [of "unat (ct_participant_count c)" "34 * unat (ct_participant_count c)" "ps @ ts"] assms(2)
    by simp
  ultimately show ?thesis
    unfolding contract_decode_iff view using assms
    by (simp add: contract_ok_def roles_loop_iff) (simp add: contract_layout_def)
qed

text \<open>What acceptance by the decoder says of the view and the bytes.\<close>

lemma contract_decode_facts:
  assumes "stn_contract_decode (Some bs) = Inr c"
  shows "wf_view c" "contract_ok c" "packed_participants c = take (34 * unat (ct_participant_count c)) (drop 32 bs)"
    "native_terms c = drop (32 + 34 * unat (ct_participant_count c)) bs"
    "list_all (\<lambda>p. contract_role_valid (part_role p))
       (unpack (unat (ct_participant_count c)) (packed_participants c))"
    "length bs = 32 + 34 * unat (ct_participant_count c) + unat (ct_terms_length c)"
proof -
  from assms have ok: "contract_ok c"
      "length bs = 32 + 34 * unat (ct_participant_count c) + unat (ct_terms_length c)"
      "roles_loop (unat (ct_participant_count c)) (drop 32 bs)" and c: "c = contract_view bs"
    unfolding contract_decode_iff by blast+
  show "contract_ok c" "length bs = 32 + 34 * unat (ct_participant_count c) + unat (ct_terms_length c)"
    by (fact ok)+
  have f: "ct_participants c = None"
    "ct_participant_bytes c = (if ct_participant_count c = 0 then None
       else Some (take (34 * unat (ct_participant_count c)) (drop 32 bs)))"
    "ct_terms c = (if ct_terms_length c = 0 then None
       else Some (take (unat (ct_terms_length c)) (drop (32 + 34 * unat (ct_participant_count c)) bs)))"
    using c by (simp_all add: contract_view_def Let_def mult.commute)
  then show packed: "packed_participants c = take (34 * unat (ct_participant_count c)) (drop 32 bs)"
    by (simp add: packed_participants_def)
  show "wf_view c" using f ok(2) packed by (auto simp: wf_view_def split: if_splits)
  show "native_terms c = drop (32 + 34 * unat (ct_participant_count c)) bs"
    using f(3) ok(2) by (simp add: native_terms_def)
  show "list_all (\<lambda>p. contract_role_valid (part_role p))
       (unpack (unat (ct_participant_count c)) (packed_participants c))"
    using ok(3) by (simp add: packed roles_loop_iff unpack_take)
qed

lemma contract_header_fields:
  assumes "stn_contract_decode (Some bs) = Inr c"
  shows "contract_layout c (packed_participants c) (native_terms c) = bs"
proof -
  have c: "c = contract_view bs" and magic: "take 4 bs = contract_magic"
    using assms unfolding contract_decode_iff by blast+
  have fields: "ct_version c = ucast (stn_wire_read (drop 4 bs) 2)" "ct_type c = ucast (stn_wire_read (drop 6 bs) 2)"
    "ct_sequence c = stn_wire_read (drop 8 bs) 8" "ct_created_at c = stn_wire_read (drop 16 bs) 8"
    "ct_state c = ucast (stn_wire_read (drop 24 bs) 2)"
    "ct_participant_count c = ucast (stn_wire_read (drop 26 bs) 2)"
    "ct_terms_length c = ucast (stn_wire_read (drop 28 bs) 4)"
    unfolding c by (simp_all add: contract_view_def Let_def)
  define n where "n = unat (ct_participant_count c)"
  note facts = contract_decode_facts(3,4,6) [OF assms, folded n_def]
  show ?thesis
    unfolding contract_layout_def facts(1,2) magic [symmetric] fields
    using facts(3) by (simp add: slices)
qed

lemma contract_native_facts:
  assumes "wf_view c"
  shows "native_participants (contract_native c) = unpack (unat (ct_participant_count c)) (packed_participants c)"
    "native_terms (contract_native c) = native_terms c" "contract_ok (contract_native c) = contract_ok c"
    "contract_layout (contract_native c) ps ts = contract_layout c ps ts"
    "concat (map participant_wire (unpack (unat (ct_participant_count c)) (packed_participants c))) =
       packed_participants c"
  using assms
  by (simp_all add: contract_native_def native_participants_def native_terms_def contract_ok_def
      contract_layout_def pack_unpack wf_view_def split: option.splits)

interpretation contract_codec: codec
  "\<lambda>c. stn_contract_encode (Some (contract_native c)) STN_CONTRACT_MAX_SIZE"
  "\<lambda>bs. stn_contract_decode (Some bs)" wf_view
proof
  fix c bs
  assume wf: "wf_view c" and enc: "stn_contract_encode (Some (contract_native c)) STN_CONTRACT_MAX_SIZE = Inr bs"
  have parts: "contract_ok c" "list_all (\<lambda>p. contract_role_valid (part_role p))
      (unpack (unat (ct_participant_count c)) (packed_participants c))"
      "bs = contract_layout c (packed_participants c) (native_terms c)"
    using enc unfolding contract_encode_iff contract_native_facts [OF wf] by blast+
  have lens: "length (packed_participants c) = 34 * unat (ct_participant_count c)"
      "length (native_terms c) = unat (ct_terms_length c)"
    using wf by (auto simp: wf_view_def native_terms_def split: option.splits)
  have "c\<lparr>ct_participants := None,
      ct_participant_bytes := (if ct_participant_count c = 0 then None else Some (packed_participants c)),
      ct_terms := (if ct_terms_length c = 0 then None else Some (native_terms c))\<rparr> = c"
    using wf by (cases c) (auto simp: wf_view_def packed_participants_def native_terms_def)
  with decode_layout [OF parts(1) lens parts(2)] parts(3)
  show "stn_contract_decode (Some bs) = Inr c" by simp
next
  fix c bs
  assume dec: "stn_contract_decode (Some bs) = Inr c"
  note facts = contract_decode_facts [OF dec]
  show "stn_contract_encode (Some (contract_native c)) STN_CONTRACT_MAX_SIZE = Inr bs"
    unfolding contract_encode_iff contract_native_facts [OF facts(1)]
    using facts contract_header_fields [OF dec]
    by (auto simp: contract_ok_def contract_native_def wf_view_def)
qed (rule contract_decode_facts)

text \<open>
  The contract format is canonical: the decoder accepts bytes exactly when they are the encoding
  of the view it returns with its packed participants read out, so a contract has one encoding and
  its address, the hash of those bytes, names one agreement.
\<close>

theorem contract_canonical:
  "stn_contract_decode (Some bs) = Inr c \<longleftrightarrow>
     wf_view c \<and> stn_contract_encode (Some (contract_native c)) STN_CONTRACT_MAX_SIZE = Inr bs"
  by (rule contract_codec.dec_iff)

text \<open>
  Encoding keeps every field and every participant: what the encoder writes for a native contract
  decodes to a view with the same header fields and terms, whose accessor returns exactly the
  participants of the native array at their indices and an index error beyond them.
\<close>

theorem contract_participants_roundtrip:
  assumes "stn_contract_encode (Some c) capacity = Inr bs"
    "length (native_participants c) = unat (ct_participant_count c)"
    "\<forall>p \<in> set (native_participants c). length (part_identity p) = 32"
    "length (native_terms c) = unat (ct_terms_length c)"
  shows "\<exists>d. stn_contract_decode (Some bs) = Inr d \<and> ct_type d = ct_type c \<and> ct_sequence d = ct_sequence c \<and>
    ct_created_at d = ct_created_at c \<and> ct_state d = ct_state c \<and> native_terms d = native_terms c \<and>
    (\<forall>i. stn_contract_participant_at (Some d) i =
      (if i < ct_participant_count c then Inr (native_participants c ! unat i)
       else Inl STN_CONTRACT_PARTICIPANT_INDEX))"
proof -
  let ?ps = "concat (map participant_wire (native_participants c))" and ?ts = "native_terms c"
  have ok: "contract_ok c" "list_all (\<lambda>p. contract_role_valid (part_role p)) (native_participants c)"
    and bs: "bs = contract_layout c ?ps ?ts"
    using assms(1) unfolding contract_encode_iff by blast+
  have len: "length ?ps = 34 * unat (ct_participant_count c)"
    using length_pack [OF assms(3)] assms(2) by simp
  have un: "unpack (unat (ct_participant_count c)) ?ps = native_participants c"
    using unpack_pack [OF assms(3), of "[]"] assms(2) by simp
  let ?d = "c\<lparr>ct_participants := None,
      ct_participant_bytes := (if ct_participant_count c = 0 then None else Some ?ps),
      ct_terms := (if ct_terms_length c = 0 then None else Some ?ts)\<rparr>"
  have dec: "stn_contract_decode (Some bs) = Inr ?d"
    using decode_layout [OF ok(1) len assms(4)] ok(2) un by (simp add: bs)
  note facts = contract_decode_facts [OF dec]
  have packed: "packed_participants ?d = ?ps"
    using assms(2) by (auto simp: packed_participants_def)
  have at: "stn_contract_participant_at (Some ?d) i =
      (if i < ct_participant_count c then Inr (native_participants c ! unat i)
       else Inl STN_CONTRACT_PARTICIPANT_INDEX)" for i
  proof (cases "i < ct_participant_count c")
    case True
    then have "unat i < length (native_participants c)"
      using assms(2) by (simp add: word_less_nat_alt)
    then have "contract_role_valid (part_role (native_participants c ! unat i))"
      using ok(2) by (simp add: list_all_length)
    with True show ?thesis
      using participant_at_iff [OF facts(1), of i] packed un by (simp add: Let_def)
  next
    case False
    then have "ct_participant_count c \<le> i" by simp
    with False show ?thesis by (simp add: stn_contract_participant_at_def)
  qed
  have "native_terms ?d = ?ts" using assms(4) by (auto simp: native_terms_def split: option.splits)
  with dec at show ?thesis by (intro exI [of _ ?d]) simp
qed

definition sample_contract :: stn_contract where
  "sample_contract =
     \<lparr>ct_version = 1, ct_type = 2, ct_sequence = 0, ct_created_at = 7, ct_state = 1,
      ct_participants = Some [\<lparr>part_identity = 2 # replicate 31 0, part_role = 4\<rparr>],
      ct_participant_count = 1, ct_participant_bytes = None, ct_terms = Some [65, 66], ct_terms_length = 2\<rparr>"

theorem contract_participants_roundtrip_witness:
  "\<exists>bs d. stn_contract_encode (Some sample_contract) 100 = Inr bs \<and> stn_contract_decode (Some bs) = Inr d \<and>
     stn_contract_participant_at (Some d) 0 = Inr \<lparr>part_identity = 2 # replicate 31 0, part_role = 4\<rparr>"
proof -
  have parts: "native_participants sample_contract = [\<lparr>part_identity = 2 # replicate 31 0, part_role = 4\<rparr>]"
      "native_terms sample_contract = [65, 66]" "ct_participant_count sample_contract = 1"
      "ct_terms_length sample_contract = 2"
    by (simp_all add: native_participants_def native_terms_def sample_contract_def)
  obtain bs where bs: "stn_contract_encode (Some sample_contract) 100 = Inr bs"
    unfolding contract_encode_iff parts
    by (simp add: contract_ok_def contract_type_valid_def contract_state_valid_def contract_role_valid_def
        sample_contract_def)
  from contract_participants_roundtrip [OF bs] parts obtain d where
      "stn_contract_decode (Some bs) = Inr d"
      "\<forall>i. stn_contract_participant_at (Some d) i = (if i < 1 then Inr (native_participants sample_contract ! unat i)
         else Inl STN_CONTRACT_PARTICIPANT_INDEX)"
    by auto
  with bs parts show ?thesis by auto
qed

end
