(* ===== verification/Stn_Contract_Action.thy ===== *)
theory Stn_Contract_Action
  imports Stn_Contract
begin

text \<open>
  Contracts, second part (\<^verbatim>\<open>src/src/stn_contract.c\<close>): the lifecycle, the authority tokens and the
  signed statement of an action, the approval registry, and the validation, application and rebuild
  of accepted actions.
\<close>

section \<open>The lifecycle\<close>

definition stn_contract_transition :: "u16 \<Rightarrow> u16 \<Rightarrow> stn_contract_status + u16" where
  "stn_contract_transition current_state action =
     (if \<not> contract_state_valid current_state then Inl STN_CONTRACT_STATE_ERROR
      else if \<not> contract_action_valid action then Inl STN_CONTRACT_ACTION_ERROR
      else if action = STN_CONTRACT_ACTION_CREATE then
        (if current_state \<noteq> STN_CONTRACT_STATE_DRAFT then Inl STN_CONTRACT_TRANSITION_ERROR
         else Inr STN_CONTRACT_STATE_ISSUED)
      else if action = STN_CONTRACT_ACTION_AMEND then
        (if current_state \<noteq> STN_CONTRACT_STATE_ISSUED \<and> current_state \<noteq> STN_CONTRACT_STATE_REVIEW
         then Inl STN_CONTRACT_TRANSITION_ERROR
         else Inr STN_CONTRACT_STATE_REVIEW)
      else if action = STN_CONTRACT_ACTION_APPROVE then
        (if current_state = STN_CONTRACT_STATE_REVIEW then Inr STN_CONTRACT_STATE_APPROVALS
         else if current_state = STN_CONTRACT_STATE_APPROVALS then Inr STN_CONTRACT_STATE_ATTESTATION
         else Inl STN_CONTRACT_TRANSITION_ERROR)
      else if action = STN_CONTRACT_ACTION_REJECT then
        (if current_state \<noteq> STN_CONTRACT_STATE_ISSUED \<and> current_state \<noteq> STN_CONTRACT_STATE_REVIEW \<and>
            current_state \<noteq> STN_CONTRACT_STATE_APPROVALS \<and> current_state \<noteq> STN_CONTRACT_STATE_ATTESTATION
         then Inl STN_CONTRACT_TRANSITION_ERROR
         else Inr STN_CONTRACT_STATE_REJECTED)
      else if action = STN_CONTRACT_ACTION_EXECUTE then
        (if current_state \<noteq> STN_CONTRACT_STATE_ATTESTATION then Inl STN_CONTRACT_TRANSITION_ERROR
         else Inr STN_CONTRACT_STATE_EXECUTED)
      else if action = STN_CONTRACT_ACTION_REVOKE then
        (if current_state \<noteq> STN_CONTRACT_STATE_ISSUED \<and> current_state \<noteq> STN_CONTRACT_STATE_REVIEW \<and>
            current_state \<noteq> STN_CONTRACT_STATE_APPROVALS \<and>
            current_state \<noteq> STN_CONTRACT_STATE_ATTESTATION \<and> current_state \<noteq> STN_CONTRACT_STATE_EXECUTED
         then Inl STN_CONTRACT_TRANSITION_ERROR
         else Inr STN_CONTRACT_STATE_REVOKED)
      else if action = STN_CONTRACT_ACTION_CLOSE then
        (if current_state \<noteq> STN_CONTRACT_STATE_EXECUTED \<and> current_state \<noteq> STN_CONTRACT_STATE_REJECTED \<and>
            current_state \<noteq> STN_CONTRACT_STATE_REVOKED
         then Inl STN_CONTRACT_TRANSITION_ERROR
         else Inr STN_CONTRACT_STATE_CLOSED)
      else Inl STN_CONTRACT_ACTION_ERROR)"

definition UINT64_LAST :: u64 where "UINT64_LAST = 18446744073709551615"

fun stn_contract_apply_action ::
  "stn_contract option \<Rightarrow> u16 \<Rightarrow> u64 \<Rightarrow> stn_contract_status + stn_contract" where
  "stn_contract_apply_action None action expected_sequence = Inl STN_CONTRACT_ARGUMENT"
| "stn_contract_apply_action (Some current) action expected_sequence =
     (if ct_version current \<noteq> STN_CONTRACT_VERSION then Inl STN_CONTRACT_VERSION_ERROR
      else if \<not> contract_type_valid (ct_type current) then Inl STN_CONTRACT_TYPE_ERROR
      else if \<not> contract_state_valid (ct_state current) then Inl STN_CONTRACT_STATE_ERROR
      else if ct_sequence current = UINT64_LAST \<or> expected_sequence \<noteq> ct_sequence current + 1
      then Inl STN_CONTRACT_SEQUENCE_ERROR
      else
        (case stn_contract_transition (ct_state current) action of
           Inl status \<Rightarrow> Inl status
         | Inr next_state \<Rightarrow>
             Inr (current\<lparr>ct_sequence := expected_sequence, ct_state := next_state\<rparr>)))"

section \<open>Authority tokens and signatures\<close>

definition stn_contract_authority_action :: "u16 \<Rightarrow> stn_contract_status + bytes" where
  "stn_contract_authority_action action =
     (if \<not> contract_action_valid action then Inl STN_CONTRACT_ACTION_ERROR
      else
        (let token = [STN_AUTHORITY_VERSION, 0x43, ucast (drop_bit 8 action AND 0xff), ucast (action AND 0xff)] @
               replicate 28 0
         in if stn_authority_action_validate (Some token) \<noteq> STN_AUTHORITY_AUTHORIZED
            then Inl STN_CONTRACT_AUTHORITY_ERROR
            else Inr token))"

definition stn_contract_authority_context ::
  "stn_hash_fn \<Rightarrow> bytes option \<Rightarrow> stn_contract_status + bytes" where
  "stn_contract_authority_context sha canonical_contract =
     (case stn_contract_address sha canonical_contract of
        Inl status \<Rightarrow> Inl status
      | Inr address \<Rightarrow>
          (let token = [STN_AUTHORITY_VERSION, 0x43] @ take 30 (addr_id address)
           in if stn_authority_context_validate (Some token) \<noteq> STN_AUTHORITY_AUTHORIZED
              then Inl STN_CONTRACT_AUTHORITY_ERROR
              else Inr token))"

definition stn_contract_authority_evaluate ::
  "stn_hash_fn \<Rightarrow> bytes option \<Rightarrow> u16 \<Rightarrow> bytes option \<Rightarrow> bytes option \<Rightarrow> nat \<Rightarrow> stn_contract_status" where
  "stn_contract_authority_evaluate sha actor action canonical_contract evidence evidence_length =
     (if actor = None \<or> canonical_contract = None then STN_CONTRACT_ARGUMENT
      else
        (case stn_contract_authority_action action of
           Inl status \<Rightarrow> status
         | Inr authority_action \<Rightarrow>
             (case stn_contract_authority_context sha canonical_contract of
                Inl status \<Rightarrow> status
              | Inr authority_context \<Rightarrow>
                  if stn_authority_evaluate actor (Some authority_action) (Some authority_context)
                       evidence evidence_length \<noteq> STN_AUTHORITY_AUTHORIZED
                  then STN_CONTRACT_AUTHORITY_ERROR
                  else STN_CONTRACT_OK)))"

text \<open>
  The bytes signed for an action: the canonical contract, the actor, the action and the sequence,
  under the identity signing domain.
\<close>

definition stn_contract_signature_verify ::
  "ed25519 \<Rightarrow> bytes option \<Rightarrow> u16 \<Rightarrow> bytes option \<Rightarrow> u64 \<Rightarrow> bytes option \<Rightarrow> stn_contract_status" where
  "stn_contract_signature_verify ed actor action canonical_contract sequence signature =
     (case (actor, canonical_contract, signature) of
        (Some a, Some c, Some sg) \<Rightarrow>
          if \<not> contract_action_valid action then STN_CONTRACT_ACTION_ERROR
          else if stn_contract_validate_structure (Some c) \<noteq> STN_CONTRACT_OK
          then stn_contract_validate_structure (Some c)
          else
            (case stn_identity_derive (Some a) of
               Inl _ \<Rightarrow> STN_CONTRACT_SIGNATURE_ERROR
             | Inr canonical_actor \<Rightarrow>
                 (let unsigned_bytes = c @ canonical_actor @ stn_wire_write 2 (ucast action) @
                        stn_wire_write 8 sequence
                  in case stn_identity_statement (Some unsigned_bytes) (length c + 32 + 2 + 8)
                         (STN_IDENTITY_DOMAIN_SIZE + STN_CONTRACT_MAX_SIZE + 32 + 2 + 8) of
                       Inl _ \<Rightarrow> STN_CONTRACT_SIGNATURE_ERROR
                     | Inr statement \<Rightarrow>
                         if stn_identity_verify ed (Some canonical_actor) (Some statement) (Some sg) 64 \<noteq>
                            STN_IDENTITY_VALID
                         then STN_CONTRACT_SIGNATURE_ERROR
                         else STN_CONTRACT_OK))
      | _ \<Rightarrow> STN_CONTRACT_ARGUMENT)"

section \<open>Accepted approvals\<close>

definition STN_CONTRACT_APPROVAL_KEY_SIZE :: nat where [simp]: "STN_CONTRACT_APPROVAL_KEY_SIZE = 32 + 8 + 32"

definition stn_contract_approval_key ::
  "stn_hash_fn \<Rightarrow> bytes option \<Rightarrow> u64 \<Rightarrow> bytes option \<Rightarrow> stn_contract_status + bytes" where
  "stn_contract_approval_key sha canonical_contract sequence actor =
     (case (canonical_contract, actor) of
        (Some c, Some a) \<Rightarrow>
          (case stn_contract_address sha (Some c) of
             Inl status \<Rightarrow> Inl status
           | Inr address \<Rightarrow>
               (case stn_identity_derive (Some a) of
                  Inl _ \<Rightarrow> Inl STN_CONTRACT_AUTHORITY_ERROR
                | Inr canonical_actor \<Rightarrow>
                    Inr (addr_id address @ stn_wire_write 8 sequence @ canonical_actor)))
      | _ \<Rightarrow> Inl STN_CONTRACT_ARGUMENT)"

definition stn_contract_approval_state_initialize :: "bytes list option \<Rightarrow> nat \<Rightarrow> key_buffer" where
  "stn_contract_approval_state_initialize buf capacity = key_buffer_initialize buf capacity"

definition stn_contract_approval_state_check :: "key_buffer \<Rightarrow> bytes option \<Rightarrow> stn_contract_status" where
  "stn_contract_approval_state_check state k =
     (case k of
        None \<Rightarrow> STN_CONTRACT_ARGUMENT
      | Some key \<Rightarrow>
          if \<not> buffer_valid state then STN_CONTRACT_ARGUMENT
          else if scan_key state key then STN_CONTRACT_DUPLICATE_APPROVAL
          else STN_CONTRACT_OK)"

definition stn_contract_approval_state_consume ::
  "key_buffer \<Rightarrow> bytes option \<Rightarrow> stn_contract_status \<times> key_buffer" where
  "stn_contract_approval_state_consume state k =
     (case k of
        None \<Rightarrow> (STN_CONTRACT_ARGUMENT, state)
      | Some key \<Rightarrow>
          (let status = stn_contract_approval_state_check state k
           in if status \<noteq> STN_CONTRACT_OK then (status, state)
              else if consumed_count state = consumed_capacity state then (STN_CONTRACT_CAPACITY, state)
              else (STN_CONTRACT_OK, store_key state key)))"

text \<open>
  The rebuild reuses the caller's buffer: on a failure the count is restored and the slots written so
  far keep the new keys. \<open>None\<close> is a NULL key array.
\<close>

definition stn_contract_approval_state_rebuild ::
  "key_buffer \<Rightarrow> bytes list option \<Rightarrow> nat \<Rightarrow> stn_contract_status \<times> key_buffer" where
  "stn_contract_approval_state_rebuild state keys key_count =
     (if key_count \<noteq> 0 \<and> keys = None then (STN_CONTRACT_ARGUMENT, state)
      else if \<not> buffer_valid state then (STN_CONTRACT_ARGUMENT, state)
      else if key_count > consumed_capacity state then (STN_CONTRACT_CAPACITY, state)
      else
        (case rebuild_loop Inr (\<lambda>s k. stn_contract_approval_state_consume s (Some k)) STN_CONTRACT_OK
                (state\<lparr>consumed_count := 0\<rparr>)
                (case keys of None \<Rightarrow> [] | Some ks \<Rightarrow> take key_count ks) of
           (status, built) \<Rightarrow>
             if status \<noteq> STN_CONTRACT_OK then (status, built\<lparr>consumed_count := consumed_count state\<rparr>)
             else (STN_CONTRACT_OK, built)))"

section \<open>Actions on the current contract\<close>

text \<open>The comparison loop over the native participants of the current contract.\<close>

fun participants_match ::
  "stn_contract \<Rightarrow> nat \<Rightarrow> stn_contract_participant list \<Rightarrow> stn_contract_status" where
  "participants_match decoded i [] = STN_CONTRACT_OK"
| "participants_match decoded i (p # ps) =
     (case stn_contract_participant_at (Some decoded) (of_nat i) of
        Inl status \<Rightarrow> status
      | Inr q \<Rightarrow>
          if memcmp (part_identity p) (part_identity q) \<noteq> 0 \<or> part_role p \<noteq> part_role q
          then STN_CONTRACT_LENGTH
          else participants_match decoded (Suc i) ps)"

definition contract_matches_canonical :: "stn_contract \<Rightarrow> bytes option \<Rightarrow> stn_contract_status" where
  "contract_matches_canonical current canonical_contract =
     (case stn_contract_decode canonical_contract of
        Inl status \<Rightarrow> status
      | Inr decoded \<Rightarrow>
          if ct_version current \<noteq> ct_version decoded \<or> ct_type current \<noteq> ct_type decoded \<or>
             ct_sequence current \<noteq> ct_sequence decoded \<or> ct_created_at current \<noteq> ct_created_at decoded \<or>
             ct_state current \<noteq> ct_state decoded \<or>
             ct_participant_count current \<noteq> ct_participant_count decoded \<or>
             ct_terms_length current \<noteq> ct_terms_length decoded
          then STN_CONTRACT_LENGTH
          else
            (let participants =
                   (if ct_participant_count current = 0 then STN_CONTRACT_OK
                    else if ct_participants current \<noteq> None
                    then participants_match decoded 0 (native_participants current)
                    else
                      (case (ct_participant_bytes current, ct_participant_bytes decoded) of
                         (Some b, Some d) \<Rightarrow>
                           if memcmp (take (unat (ct_participant_count current) * STN_CONTRACT_PARTICIPANT_SIZE) b)
                                (take (unat (ct_participant_count current) * STN_CONTRACT_PARTICIPANT_SIZE) d) \<noteq> 0
                           then STN_CONTRACT_LENGTH else STN_CONTRACT_OK
                       | _ \<Rightarrow> STN_CONTRACT_ARGUMENT))
             in if participants \<noteq> STN_CONTRACT_OK then participants
                else if ct_terms_length current = 0 then STN_CONTRACT_OK
                else
                  (case (ct_terms current, ct_terms decoded) of
                     (Some t, Some d) \<Rightarrow>
                       if memcmp (take (unat (ct_terms_length current)) t)
                            (take (unat (ct_terms_length current)) d) \<noteq> 0
                       then STN_CONTRACT_LENGTH else STN_CONTRACT_OK
                   | _ \<Rightarrow> STN_CONTRACT_ARGUMENT)))"

text \<open>\<open>approval_state\<close> is \<open>None\<close> for a NULL pointer, which only APPROVE rejects.\<close>

definition stn_contract_validate_action ::
  "stn_hash_fn \<Rightarrow> ed25519 \<Rightarrow> stn_contract \<Rightarrow> u16 \<Rightarrow> u64 \<Rightarrow> bytes option \<Rightarrow> bytes option \<Rightarrow> bytes option \<Rightarrow>
   bytes option \<Rightarrow> nat \<Rightarrow> key_buffer option \<Rightarrow> stn_contract_status" where
  "stn_contract_validate_action sha ed current action expected_sequence canonical_contract actor
       signature evidence evidence_length approval_state =
     (if canonical_contract = None \<or> actor = None \<or> signature = None then STN_CONTRACT_ARGUMENT
      else if evidence_length \<noteq> 0 \<and> evidence = None then STN_CONTRACT_ARGUMENT
      else if contract_matches_canonical current canonical_contract \<noteq> STN_CONTRACT_OK
      then contract_matches_canonical current canonical_contract
      else
        (case stn_contract_apply_action (Some current) action expected_sequence of
           Inl status \<Rightarrow> status
         | Inr _ \<Rightarrow>
             (let status = stn_contract_signature_verify ed actor action canonical_contract
                    expected_sequence signature
              in if status \<noteq> STN_CONTRACT_OK then status
                 else
                   (let status = stn_contract_authority_evaluate sha actor action canonical_contract
                          evidence evidence_length
                    in if status \<noteq> STN_CONTRACT_OK then status
                       else if action = STN_CONTRACT_ACTION_APPROVE then
                         (case approval_state of
                            None \<Rightarrow> STN_CONTRACT_ARGUMENT
                          | Some state \<Rightarrow>
                              (case stn_contract_approval_key sha canonical_contract expected_sequence actor of
                                 Inl status \<Rightarrow> status
                               | Inr key \<Rightarrow> stn_contract_approval_state_check state (Some key)))
                       else STN_CONTRACT_OK))))"

definition stn_contract_accept_action ::
  "stn_hash_fn \<Rightarrow> stn_contract \<Rightarrow> u16 \<Rightarrow> u64 \<Rightarrow> bytes option \<Rightarrow> bytes option \<Rightarrow> key_buffer option \<Rightarrow>
   (stn_contract_status + stn_contract) \<times> key_buffer option" where
  "stn_contract_accept_action sha current action expected_sequence canonical_contract actor approval_state =
     (if canonical_contract = None \<or> actor = None then (Inl STN_CONTRACT_ARGUMENT, approval_state)
      else if contract_matches_canonical current canonical_contract \<noteq> STN_CONTRACT_OK
      then (Inl (contract_matches_canonical current canonical_contract), approval_state)
      else
        (case stn_contract_apply_action (Some current) action expected_sequence of
           Inl status \<Rightarrow> (Inl status, approval_state)
         | Inr updated \<Rightarrow>
             if action = STN_CONTRACT_ACTION_APPROVE then
               (case approval_state of
                  None \<Rightarrow> (Inl STN_CONTRACT_ARGUMENT, approval_state)
                | Some state \<Rightarrow>
                    (case stn_contract_approval_key sha canonical_contract expected_sequence actor of
                       Inl status \<Rightarrow> (Inl status, approval_state)
                     | Inr key \<Rightarrow>
                         (let status = stn_contract_approval_state_check state (Some key)
                          in if status \<noteq> STN_CONTRACT_OK then (Inl status, approval_state)
                             else if consumed_count state = consumed_capacity state
                             then (Inl STN_CONTRACT_CAPACITY, approval_state)
                             else
                               (case stn_contract_approval_state_consume state (Some key) of
                                  (status, state') \<Rightarrow>
                                    if status \<noteq> STN_CONTRACT_OK then (Inl status, Some state')
                                    else (Inr updated, Some state')))))
             else (Inr updated, approval_state)))"

section \<open>Rebuilding from accepted history\<close>

record stn_contract_accepted_action =
  act_action :: u16
  act_sequence :: u64
  act_canonical_contract :: "bytes option"
  act_actor :: bytes

fun history_accept ::
  "stn_hash_fn \<Rightarrow> stn_contract \<Rightarrow> key_buffer \<Rightarrow> stn_contract_accepted_action list \<Rightarrow>
   (stn_contract_status + stn_contract) \<times> key_buffer" where
  "history_accept sha rebuilt working [] = (Inr rebuilt, working)"
| "history_accept sha rebuilt working (entry # history) =
     (if act_canonical_contract entry = None then (Inl STN_CONTRACT_ARGUMENT, working)
      else
        (case stn_contract_accept_action sha rebuilt (act_action entry) (act_sequence entry)
                (act_canonical_contract entry) (Some (act_actor entry)) (Some working) of
           (Inl status, w) \<Rightarrow> (Inl status, case w of None \<Rightarrow> working | Some working' \<Rightarrow> working')
         | (Inr next_contract, w) \<Rightarrow>
             history_accept sha next_contract (case w of None \<Rightarrow> working | Some working' \<Rightarrow> working') history))"

text \<open>
  The working approvals share the caller's buffer; only the count is withheld until the whole
  history has been accepted.
\<close>

definition stn_contract_rebuild_accepted_state ::
  "stn_hash_fn \<Rightarrow> stn_contract \<Rightarrow> stn_contract_accepted_action list option \<Rightarrow> nat \<Rightarrow> key_buffer \<Rightarrow>
   (stn_contract_status + stn_contract) \<times> key_buffer" where
  "stn_contract_rebuild_accepted_state sha initial history history_count approval_state =
     (if history_count \<noteq> 0 \<and> history = None then (Inl STN_CONTRACT_ARGUMENT, approval_state)
      else if \<not> buffer_valid approval_state then (Inl STN_CONTRACT_ARGUMENT, approval_state)
      else
        (case history_accept sha initial (approval_state\<lparr>consumed_count := 0\<rparr>)
                (case history of None \<Rightarrow> [] | Some hs \<Rightarrow> take history_count hs) of
           (Inl status, working) \<Rightarrow>
             (Inl status, approval_state\<lparr>consumed := consumed working\<rparr>)
         | (Inr rebuilt, working) \<Rightarrow>
             (Inr rebuilt,
              approval_state\<lparr>consumed := consumed working, consumed_count := consumed_count working\<rparr>)))"

end
