(* ===== verification/Stn_Contract_Lifecycle.thy ===== *)
theory Stn_Contract_Lifecycle
  imports Stn_Contract_Action
begin

text \<open>
  What the contract lifecycle guarantees: the transition table, the runs of accepted actions, the
  atomic application of an action with its approval key, and the rebuild from accepted history.
\<close>

section \<open>Runs of the lifecycle\<close>

lemma transition_table:
  "stn_contract_transition s a = Inr t \<longleftrightarrow>
     (s, a, t) \<in> {(1, 1, 2), (2, 2, 3), (3, 2, 3), (3, 3, 4), (4, 3, 5), (5, 5, 6),
       (2, 4, 7), (3, 4, 7), (4, 4, 7), (5, 4, 7), (2, 6, 8), (3, 6, 8), (4, 6, 8), (5, 6, 8), (6, 6, 8),
       (6, 7, 9), (7, 7, 9), (8, 7, 9)}"
  by (auto simp: stn_contract_transition_def contract_state_valid_def contract_action_valid_def
      split: if_splits)

lemma apply_action_iff:
  "stn_contract_apply_action (Some c) a q = Inr d \<longleftrightarrow>
     ct_version c = 1 \<and> contract_type_valid (ct_type c) \<and> contract_state_valid (ct_state c) \<and>
     ct_sequence c \<noteq> UINT64_LAST \<and> q = ct_sequence c + 1 \<and>
     (\<exists>t. stn_contract_transition (ct_state c) a = Inr t \<and> d = c\<lparr>ct_sequence := q, ct_state := t\<rparr>)"
  by (auto split: sum.splits)

lemma unat_next:
  assumes "q \<noteq> UINT64_LAST"
  shows "unat (q + 1) = Suc (unat q)"
proof -
  have "q = - 1" if "q + 1 = 0" using that by (simp add: eq_neg_iff_add_eq_0)
  moreover have "(- 1 :: u64) = UINT64_LAST" by (simp add: UINT64_LAST_def)
  ultimately have "1 + q \<noteq> 0" using assms by (metis add.commute)
  then have "unat (1 + q) = Suc (unat q)" by (rule unatSuc)
  then show ?thesis by (simp add: add.commute)
qed

text \<open>A run: actions with the sequence values they carry, each applied to the result of the one before.\<close>

inductive contract_run :: "stn_contract \<Rightarrow> (u16 \<times> u64) list \<Rightarrow> stn_contract \<Rightarrow> bool" for c where
  run_nil: "contract_run c [] c"
| run_step: "contract_run c as d \<Longrightarrow> stn_contract_apply_action (Some d) a q = Inr e \<Longrightarrow>
    contract_run c (as @ [(a, q)]) e"

lemma contract_run_fields:
  assumes "contract_run c as d"
  shows "d = c\<lparr>ct_sequence := ct_sequence d, ct_state := ct_state d\<rparr> \<and>
    unat (ct_sequence d) = unat (ct_sequence c) + length as \<and>
    (as \<noteq> [] \<longrightarrow> contract_state_valid (ct_state d)) \<and>
    map (\<lambda>x. unat (snd x)) as = map (\<lambda>i. unat (ct_sequence c) + Suc i) [0..<length as]"
  using assms
proof (induction rule: contract_run.induct)
  case run_nil
  then show ?case by simp
next
  case (run_step as d a q e)
  from run_step.hyps(2) obtain t where t: "ct_sequence d \<noteq> UINT64_LAST" "q = ct_sequence d + 1"
      "stn_contract_transition (ct_state d) a = Inr t" "e = d\<lparr>ct_sequence := q, ct_state := t\<rparr>"
    unfolding apply_action_iff by blast
  have "contract_state_valid t"
    using t(3) unfolding transition_table by (auto simp: contract_state_valid_def)
  moreover have "unat q = Suc (unat (ct_sequence d))" using unat_next [OF t(1)] t(2) by simp
  ultimately show ?case
    using run_step.IH t(4) by (cases d; cases c) auto
qed

text \<open>The action words that lead from DRAFT to each of the states before a rejection or revocation.\<close>

definition draft_word :: "u16 \<Rightarrow> u16 list \<Rightarrow> bool" where
  "draft_word s w \<longleftrightarrow>
     (s = 1 \<longrightarrow> w = []) \<and> (s = 2 \<longrightarrow> w = [1]) \<and>
     (s = 3 \<longrightarrow> (\<exists>n \<ge> 1. w = 1 # replicate n 2)) \<and>
     (s = 4 \<longrightarrow> (\<exists>n \<ge> 1. w = 1 # replicate n 2 @ [3])) \<and>
     (s = 5 \<longrightarrow> (\<exists>n \<ge> 1. w = 1 # replicate n 2 @ [3, 3])) \<and>
     (s = 6 \<longrightarrow> (\<exists>n \<ge> 1. w = 1 # replicate n 2 @ [3, 3, 5]))"

lemma draft_word_step:
  assumes "draft_word s w" "stn_contract_transition s a = Inr t"
  shows "draft_word t (w @ [a])"
proof -
  have grow: "\<exists>m \<ge> 1. 1 # replicate n 2 @ [2] = 1 # replicate m (2 :: u16)" for n
    by (rule exI [of _ "Suc n"]) (simp add: replicate_append_same)
  have start: "\<exists>m \<ge> 1. [1, 2] = 1 # replicate m (2 :: u16)"
    by (rule exI [of _ 1]) simp
  consider "s = 1" "a = 1" "t = 2" | "s = 2" "a = 2" "t = 3" | "s = 3" "a = 2" "t = 3"
    | "s = 3" "a = 3" "t = 4" | "s = 4" "a = 3" "t = 5" | "s = 5" "a = 5" "t = 6" | "t \<in> {7, 8, 9}"
    using assms(2) unfolding transition_table by blast
  then show ?thesis
  proof cases
    case 3
    with assms(1) grow show ?thesis by (auto simp: draft_word_def)
  next
    case 2
    with assms(1) start show ?thesis by (simp add: draft_word_def)
  qed (use assms(1) in \<open>auto simp: draft_word_def\<close>)
qed

lemma draft_run_word:
  assumes "contract_run c as d" "ct_state c = 1"
  shows "draft_word (ct_state d) (map fst as)"
  using assms
proof (induction rule: contract_run.induct)
  case run_nil
  then show ?case by (simp add: draft_word_def)
next
  case (run_step as d a q e)
  then obtain t where "stn_contract_transition (ct_state d) a = Inr t" "ct_state e = t"
    unfolding apply_action_iff by auto
  with draft_word_step run_step show ?case by fastforce
qed

text \<open>
  The transitions alone, without the votes: every run of them from a DRAFT to EXECUTED is one creation,
  at least one amendment, exactly two approvals and the execution, however many approvers the draft
  has. This is what the rebuild from accepted history applies; on the chain path, where a strict
  majority of the approvers decides, Stn_Contract_Trace says what an executed contract went through.
\<close>

theorem contract_executed_trace:
  assumes "contract_run c as d" "ct_state c = STN_CONTRACT_STATE_DRAFT" "ct_state d = STN_CONTRACT_STATE_EXECUTED"
  shows "(\<exists>n \<ge> 1. map fst as = [STN_CONTRACT_ACTION_CREATE] @ replicate n STN_CONTRACT_ACTION_AMEND @
      [STN_CONTRACT_ACTION_APPROVE, STN_CONTRACT_ACTION_APPROVE, STN_CONTRACT_ACTION_EXECUTE]) \<and>
    map (\<lambda>x. unat (snd x)) as = map (\<lambda>i. unat (ct_sequence c) + Suc i) [0..<length as] \<and>
    unat (ct_sequence d) = unat (ct_sequence c) + length as \<and>
    d = c\<lparr>ct_sequence := ct_sequence d, ct_state := ct_state d\<rparr>"
  using draft_run_word [OF assms(1)] contract_run_fields [OF assms(1)] assms(2,3)
  by (simp add: draft_word_def)

lemma run_append:
  assumes "contract_run c as d" "contract_run d bs e"
  shows "contract_run c (as @ bs) e"
  using assms(2,1)
proof (induction rule: contract_run.induct)
  case run_nil
  then show ?case by simp
next
  case (run_step bs d' a q e)
  then show ?case
    using contract_run.run_step [of c "as @ bs" d' a q e] by simp
qed

lemma run_one: "stn_contract_apply_action (Some c) a q = Inr d \<Longrightarrow> contract_run c [(a, q)] d"
  using contract_run.run_step [OF contract_run.run_nil, of c a q d] by simp

text \<open>One applicable action, with the sequence value it must carry.\<close>

lemma run_transition:
  assumes "ct_version c = 1" "contract_type_valid (ct_type c)" "contract_state_valid (ct_state c)"
    "unat (ct_sequence c) < 2 ^ 64 - 1" "stn_contract_transition (ct_state c) a = Inr t"
  shows "\<exists>d. contract_run c [(a, ct_sequence c + 1)] d \<and> ct_state d = t \<and> ct_version d = 1 \<and>
    ct_type d = ct_type c \<and> unat (ct_sequence d) = unat (ct_sequence c) + 1"
proof -
  have "ct_sequence c \<noteq> UINT64_LAST" using assms(4) by (auto simp: UINT64_LAST_def)
  then show ?thesis
    using assms unat_next [of "ct_sequence c"]
    by (intro exI [of _ "c\<lparr>ct_sequence := ct_sequence c + 1, ct_state := t\<rparr>"])
       (auto intro!: run_one simp: apply_action_iff simp del: stn_contract_apply_action.simps)
qed

text \<open>
  C39. A contract can always be closed, and only once. From every valid state but CLOSED a run of at
  most three actions closes the contract, if the sequence has room for them; in CLOSED no action is
  accepted, whatever sequence value it carries.
\<close>

theorem contract_can_close:
  assumes "ct_version c = 1" "contract_type_valid (ct_type c)" "contract_state_valid (ct_state c)"
    "unat (ct_sequence c) < 2 ^ 64 - 3"
  shows "(ct_state c \<noteq> STN_CONTRACT_STATE_CLOSED \<longrightarrow>
      (\<exists>as d. length as \<le> 3 \<and> contract_run c as d \<and> ct_state d = STN_CONTRACT_STATE_CLOSED)) \<and>
    (ct_state c = STN_CONTRACT_STATE_CLOSED \<longrightarrow>
      (\<forall>a q d. stn_contract_apply_action (Some c) a q \<noteq> Inr d))"
proof -
  let ?ends = "{6, 7, 8} :: u16 set" and ?mids = "{2, 3, 4, 5} :: u16 set"
  have close: "\<exists>e. contract_run d [(7, ct_sequence d + 1)] e \<and> ct_state e = 9"
    if "ct_version d = 1" "contract_type_valid (ct_type d)" "ct_state d \<in> ?ends"
      "unat (ct_sequence d) < 2 ^ 64 - 1" for d
    using run_transition [of d 7 9] that by (auto simp: contract_state_valid_def transition_table)
  have reject: "\<exists>as e. length as \<le> 2 \<and> contract_run d as e \<and> ct_state e = 9"
    if d: "ct_version d = 1" "contract_type_valid (ct_type d)" "ct_state d \<in> ?mids"
      "unat (ct_sequence d) < 2 ^ 64 - 2" for d
  proof -
    have "stn_contract_transition (ct_state d) 4 = Inr 7" "contract_state_valid (ct_state d)"
      using d(3) by (auto simp: transition_table contract_state_valid_def)
    with run_transition [of d 4 7] d obtain e where
      e: "contract_run d [(4, ct_sequence d + 1)] e" "ct_state e = 7" "ct_version e = 1"
        "ct_type e = ct_type d" "unat (ct_sequence e) = unat (ct_sequence d) + 1" by auto
    with close [of e] d obtain f where f: "contract_run e [(7, ct_sequence e + 1)] f" "ct_state f = 9" by auto
    have "length ([(4, ct_sequence d + 1)] @ [(7, ct_sequence e + 1)]) \<le> 2" by simp
    with run_append [OF e(1) f(1)] f(2) show ?thesis by blast
  qed
  have draft: "\<exists>as e. length as \<le> 3 \<and> contract_run c as e \<and> ct_state e = 9" if "ct_state c = 1"
  proof -
    have "stn_contract_transition (ct_state c) 1 = Inr 2" using that by (simp add: transition_table)
    with run_transition [of c 1 2] assms obtain d where
      d: "contract_run c [(1, ct_sequence c + 1)] d" "ct_state d = 2" "ct_version d = 1"
        "ct_type d = ct_type c" "unat (ct_sequence d) = unat (ct_sequence c) + 1" by auto
    with reject [of d] assms obtain as e where e: "length as \<le> 2" "contract_run d as e" "ct_state e = 9" by auto
    then have "length ([(1, ct_sequence c + 1)] @ as) \<le> 3" by simp
    with run_append [OF d(1) e(2)] e(3) show ?thesis by blast
  qed
  have "ct_state c \<in> {1, 9} \<union> ?mids \<union> ?ends" using assms(3) by (auto simp: contract_state_valid_def)
  moreover have "\<exists>as e. length as \<le> 3 \<and> contract_run c as e \<and> ct_state e = 9" if "ct_state c \<in> ?ends"
  proof -
    from close [OF assms(1,2) that] assms(4) obtain e where
      e: "contract_run c [(7, ct_sequence c + 1)] e" "ct_state e = 9" by auto
    have "length [(7 :: u16, ct_sequence c + 1)] \<le> 3" by simp
    with e show ?thesis by blast
  qed
  moreover have "\<exists>as e. length as \<le> 3 \<and> contract_run c as e \<and> ct_state e = 9" if "ct_state c \<in> ?mids"
  proof -
    from reject [OF assms(1,2) that] assms(4) obtain as e where
      e: "length as \<le> 2" "contract_run c as e" "ct_state e = 9" by auto
    then have "length as \<le> 3" by simp
    with e show ?thesis by blast
  qed
  ultimately show ?thesis
    using draft by (auto simp: apply_action_iff transition_table simp del: stn_contract_apply_action.simps)
qed

section \<open>Applying an accepted action\<close>

interpretation approvals: key_registry
  "\<lambda>s k. stn_contract_approval_state_check s (Some k)"
  "\<lambda>s k. stn_contract_approval_state_consume s (Some k)"
  Some STN_CONTRACT_OK STN_CONTRACT_DUPLICATE_APPROVAL STN_CONTRACT_CAPACITY
  by unfold_locales
     (auto simp: stn_contract_approval_state_check_def stn_contract_approval_state_consume_def
       buffer_wf_valid Let_def)

text \<open>The answer of an application on a well-formed registry, case by case.\<close>

definition accept_spec ::
  "stn_hash_fn \<Rightarrow> stn_contract \<Rightarrow> u16 \<Rightarrow> u64 \<Rightarrow> bytes \<Rightarrow> bytes \<Rightarrow> (stn_contract \<times> bytes list) option" where
  "accept_spec sha c a q bs actor =
     (if contract_matches_canonical c (Some bs) \<noteq> STN_CONTRACT_OK then None
      else
        (case stn_contract_apply_action (Some c) a q of
           Inl _ \<Rightarrow> None
         | Inr d \<Rightarrow>
             if a = STN_CONTRACT_ACTION_APPROVE then
               (case stn_contract_approval_key sha (Some bs) q (Some actor) of
                  Inl _ \<Rightarrow> None
                | Inr k \<Rightarrow> Some (d, [k]))
             else Some (d, [])))"

lemma accept_action_exact:
  assumes "buffer_wf s"
  shows "case stn_contract_accept_action sha c a q (Some bs) (Some actor) (Some s) of
      (Inr d, s') \<Rightarrow> \<exists>ks t. accept_spec sha c a q bs actor = Some (d, ks) \<and> s' = Some t \<and>
        buffer_wf t \<and> accepted t = accepted s @ ks \<and> set ks \<inter> set (accepted s) = {} \<and>
        consumed_capacity t = consumed_capacity s
    | (Inl _, s') \<Rightarrow> s' = Some s \<and>
        (\<forall>d ks. accept_spec sha c a q bs actor = Some (d, ks) \<longrightarrow>
           set ks \<inter> set (accepted s) \<noteq> {} \<or> consumed_count s + length ks > consumed_capacity s)"
proof (cases "accept_spec sha c a q bs actor")
  case None
  then show ?thesis
    by (auto simp: accept_spec_def stn_contract_accept_action_def
        simp del: stn_contract_apply_action.simps split: sum.splits if_splits)
next
  case (Some dks)
  obtain d ks where dks: "dks = (d, ks)" by force
  with Some have ok: "contract_matches_canonical c (Some bs) = STN_CONTRACT_OK"
      "stn_contract_apply_action (Some c) a q = Inr d"
    by (auto simp: accept_spec_def simp del: stn_contract_apply_action.simps split: sum.splits if_splits)
  show ?thesis
  proof (cases "a = STN_CONTRACT_ACTION_APPROVE")
    case True
    with Some dks ok obtain k where k: "stn_contract_approval_key sha (Some bs) q (Some actor) = Inr k" "ks = [k]"
      by (auto simp: accept_spec_def simp del: stn_contract_apply_action.simps split: sum.splits if_splits)
    have le: "consumed_count s \<le> consumed_capacity s"
      using assms by (simp add: buffer_wf_def buffer_valid_def)
    show ?thesis
      using True ok k dks Some approvals.check_spec [OF assms, of k k] approvals.consume_spec [OF assms, of k k]
        assms le buffer_wf_store [OF assms, of k] accepted_store [OF assms, of k]
      by (auto simp: stn_contract_accept_action_def Let_def simp del: stn_contract_apply_action.simps
          split: if_splits)
  next
    case False
    with Some dks ok have "ks = []"
      by (auto simp: accept_spec_def simp del: stn_contract_apply_action.simps split: if_splits)
    with False ok dks Some assms show ?thesis
      by (auto simp: stn_contract_accept_action_def simp del: stn_contract_apply_action.simps)
  qed
qed

text \<open>
  Applying an accepted action is atomic. On a well-formed registry a refused application changes
  nothing. A successful one is bound to the exact canonical bytes of the current contract and yields
  the contract with the next sequence value and the state of the transition table; an APPROVE adds its
  key, which was not there, as the one new key of the registry, and no other action touches it.
\<close>

theorem contract_accept_atomic:
  assumes "buffer_wf s"
  shows "case stn_contract_accept_action sha c a q (Some bs) (Some actor) (Some s) of (result, s') \<Rightarrow>
    (case result of
       Inl _ \<Rightarrow> s' = Some s
     | Inr d \<Rightarrow> contract_matches_canonical c (Some bs) = STN_CONTRACT_OK \<and>
         stn_contract_apply_action (Some c) a q = Inr d \<and>
         (if a = STN_CONTRACT_ACTION_APPROVE
          then \<exists>k t. stn_contract_approval_key sha (Some bs) q (Some actor) = Inr k \<and>
            k \<notin> set (accepted s) \<and> s' = Some t \<and> buffer_wf t \<and> accepted t = accepted s @ [k]
          else s' = Some s))"
proof (cases "stn_contract_accept_action sha c a q (Some bs) (Some actor) (Some s)")
  case (Pair result s')
  show ?thesis
  proof (cases result)
    case (Inl status)
    with Pair accept_action_exact [OF assms, of sha c a q bs actor] show ?thesis by simp
  next
    case (Inr d)
    with Pair accept_action_exact [OF assms, of sha c a q bs actor] obtain ks t where
      t: "accept_spec sha c a q bs actor = Some (d, ks)" "s' = Some t" "buffer_wf t"
        "accepted t = accepted s @ ks" "set ks \<inter> set (accepted s) = {}" by auto
    have other: "s' = Some s" if "a \<noteq> STN_CONTRACT_ACTION_APPROVE"
      using Pair Inr that
      by (auto simp: stn_contract_accept_action_def simp del: stn_contract_apply_action.simps
          split: if_splits sum.splits)
    from t(1) have ok: "contract_matches_canonical c (Some bs) = STN_CONTRACT_OK"
        "stn_contract_apply_action (Some c) a q = Inr d"
      by (auto simp: accept_spec_def simp del: stn_contract_apply_action.simps split: sum.splits if_splits)
    show ?thesis
    proof (cases "a = STN_CONTRACT_ACTION_APPROVE")
      case True
      with t(1) ok obtain k where "stn_contract_approval_key sha (Some bs) q (Some actor) = Inr k" "ks = [k]"
        by (auto simp: accept_spec_def simp del: stn_contract_apply_action.simps split: sum.splits if_splits)
      with t True ok Pair Inr show ?thesis by (simp del: stn_contract_apply_action.simps)
    next
      case False
      with other ok Pair Inr show ?thesis by (simp del: stn_contract_apply_action.simps)
    qed
  qed
qed

lemma apply_action_status: "stn_contract_apply_action (Some c) a q \<noteq> Inl STN_CONTRACT_OK"
  by (auto simp: stn_contract_transition_def split: sum.splits if_splits)

lemma address_status: "stn_contract_address sha (Some bs) \<noteq> Inl STN_CONTRACT_OK"
  by (auto simp: stn_contract_address_def split: sum.splits)

text \<open>
  Validation and application agree: an action that passed validation against the registry is
  accepted, with the same next contract the validation computed, whenever it is not an approval or the
  registry has a free slot.
\<close>

theorem contract_validated_accepts:
  assumes "buffer_wf s"
    "stn_contract_validate_action sha ed c a q (Some bs) (Some actor) sg ev n (Some s) = STN_CONTRACT_OK"
    "a = STN_CONTRACT_ACTION_APPROVE \<Longrightarrow> consumed_count s < consumed_capacity s"
  shows "\<exists>d. fst (stn_contract_accept_action sha c a q (Some bs) (Some actor) (Some s)) = Inr d \<and>
    stn_contract_apply_action (Some c) a q = Inr d"
proof -
  from assms(2) obtain d where ok: "contract_matches_canonical c (Some bs) = STN_CONTRACT_OK"
      "stn_contract_apply_action (Some c) a q = Inr d"
    by (auto simp: stn_contract_validate_action_def apply_action_status
        simp del: stn_contract_apply_action.simps split: if_splits sum.splits)
  show ?thesis
  proof (cases "a = STN_CONTRACT_ACTION_APPROVE")
    case True
    with assms(2) ok obtain k where k: "stn_contract_approval_key sha (Some bs) q (Some actor) = Inr k"
        "stn_contract_approval_state_check s (Some k) = STN_CONTRACT_OK"
      by (cases "stn_contract_approval_key sha (Some bs) q (Some actor)")
         (auto simp: stn_contract_validate_action_def Let_def stn_contract_approval_key_def address_status
          simp del: stn_contract_apply_action.simps stn_identity_derive.simps
          split: if_splits sum.splits)
    then have "fst (stn_contract_approval_state_consume s (Some k)) = STN_CONTRACT_OK"
      using approvals.consume_spec [OF assms(1), of k k] approvals.check_spec [OF assms(1), of k k]
        assms(3) [OF True] by (simp split: if_splits)
    with True ok k assms(3) show ?thesis
      by (auto simp: stn_contract_accept_action_def Let_def simp del: stn_contract_apply_action.simps
          split: prod.splits)
  next
    case False
    with ok show ?thesis
      by (simp add: stn_contract_accept_action_def del: stn_contract_apply_action.simps)
  qed
qed

section \<open>Rebuilding from history\<close>

text \<open>The history without a registry: the resulting contract and the approval keys in order.\<close>

fun history_spec ::
  "stn_hash_fn \<Rightarrow> stn_contract \<Rightarrow> stn_contract_accepted_action list \<Rightarrow> (stn_contract \<times> bytes list) option" where
  "history_spec sha c [] = Some (c, [])"
| "history_spec sha c (e # es) =
     (case act_canonical_contract e of
        None \<Rightarrow> None
      | Some bs \<Rightarrow>
          (case accept_spec sha c (act_action e) (act_sequence e) bs (act_actor e) of
             None \<Rightarrow> None
           | Some (d, ks) \<Rightarrow>
               (case history_spec sha d es of None \<Rightarrow> None | Some (f, ls) \<Rightarrow> Some (f, ks @ ls))))"

text \<open>The sequence value inside an approval key.\<close>

definition key_sequence :: "bytes \<Rightarrow> nat" where
  "key_sequence k = be (take 8 (drop 32 k))"

lemma approval_key_sequence:
  assumes "hash_fn_ok sha" "stn_contract_approval_key sha (Some bs) q (Some actor) = Inr k"
  shows "key_sequence k = unat q"
proof -
  from assms(2) obtain ad i where "stn_contract_address sha (Some bs) = Inr ad"
      "k = addr_id ad @ stn_wire_write 8 q @ i"
    by (auto simp: stn_contract_approval_key_def simp del: stn_identity_derive.simps split: sum.splits)
  moreover from this have "length (addr_id ad) = 32"
    using hash_fn_ok_length [OF assms(1)]
    by (auto simp: stn_contract_address_def stn_address_derive_def split: if_splits sum.splits)
  ultimately show ?thesis by (simp add: key_sequence_def be_wire_write)
qed

lemma accept_spec_step:
  assumes "hash_fn_ok sha" "accept_spec sha c a q bs actor = Some (d, ks)"
  shows "unat (ct_sequence d) = Suc (unat (ct_sequence c))" "\<forall>k \<in> set ks. key_sequence k = unat (ct_sequence d)"
    "stn_contract_apply_action (Some c) a q = Inr d" "distinct ks"
proof -
  from assms(2) show step: "stn_contract_apply_action (Some c) a q = Inr d"
    by (auto simp: accept_spec_def simp del: stn_contract_apply_action.simps split: sum.splits if_splits)
  then have q: "ct_sequence c \<noteq> UINT64_LAST" "q = ct_sequence c + 1" "ct_sequence d = q"
    unfolding apply_action_iff by auto
  then show "unat (ct_sequence d) = Suc (unat (ct_sequence c))" using unat_next by simp
  show "\<forall>k \<in> set ks. key_sequence k = unat (ct_sequence d)" "distinct ks"
    using assms(2) q(3) approval_key_sequence [OF assms(1)]
    by (auto simp: accept_spec_def simp del: stn_contract_apply_action.simps split: sum.splits if_splits)
qed

lemma history_spec_keys:
  assumes "hash_fn_ok sha" "history_spec sha c es = Some (d, ks)"
  shows "\<forall>k \<in> set ks. unat (ct_sequence c) < key_sequence k"
  using assms(2)
proof (induction es arbitrary: c ks)
  case Nil
  then show ?case by simp
next
  case (Cons e es)
  from Cons.prems obtain bs d' ks' ls where
    e: "accept_spec sha c (act_action e) (act_sequence e) bs (act_actor e) = Some (d', ks')"
    and h: "history_spec sha d' es = Some (d, ls)" and ks: "ks = ks' @ ls"
    by (auto split: option.splits)
  from accept_spec_step(1,2) [OF assms(1) e] Cons.IH [OF h] ks show ?case by auto
qed

text \<open>
  On a registry whose keys are all older than the current sequence value, the loop computes the
  specification and fails only where the specification does or the buffer is full: the duplicate
  answer is never given.
\<close>

lemma history_accept_spec:
  assumes "hash_fn_ok sha" "buffer_wf w" "\<forall>k \<in> set (accepted w). key_sequence k \<le> unat (ct_sequence c)"
  shows "case history_accept sha c w es of
      (Inr d, w') \<Rightarrow> buffer_wf w' \<and> consumed_capacity w' = consumed_capacity w \<and>
        (\<exists>ks. history_spec sha c es = Some (d, ks) \<and> accepted w' = accepted w @ ks)
    | (Inl _, w') \<Rightarrow> buffer_wf w' \<and> consumed_capacity w' = consumed_capacity w \<and>
        (\<forall>d ks. history_spec sha c es = Some (d, ks) \<longrightarrow> consumed_count w + length ks > consumed_capacity w)"
  using assms(2,3)
proof (induction es arbitrary: c w)
  case Nil
  then show ?case by simp
next
  case (Cons e es)
  show ?case
  proof (cases "act_canonical_contract e")
    case None
    with Cons.prems show ?thesis by simp
  next
    case (Some bs)
    let ?spec = "accept_spec sha c (act_action e) (act_sequence e) bs (act_actor e)"
    obtain r s' where call: "stn_contract_accept_action sha c (act_action e) (act_sequence e) (Some bs)
        (Some (act_actor e)) (Some w) = (r, s')" by force
    note exact = accept_action_exact [OF Cons.prems(1), of sha c "act_action e" "act_sequence e" bs "act_actor e",
        unfolded call]
    show ?thesis
    proof (cases r)
      case (Inl status)
      have fresh: "set ks \<inter> set (accepted w) = {}" if "?spec = Some (d, ks)" for d ks
        using accept_spec_step(1,2) [OF assms(1) that] Cons.prems(2) by force
      from exact Inl have s': "s' = Some w" by simp
      have full: "consumed_count w + length ks > consumed_capacity w" if "?spec = Some (d, ks)" for d ks
        using exact Inl fresh [OF that] that by simp
      have "consumed_count w + length ks > consumed_capacity w"
        if spec: "history_spec sha c (e # es) = Some (d, ks)" for d ks
      proof -
        from spec Some obtain d' ks' ls where "?spec = Some (d', ks')" "ks = ks' @ ls"
          by (auto split: option.splits)
        with full [of d' ks'] show ?thesis by simp
      qed
      with Some call Inl s' Cons.prems(1) show ?thesis by simp
    next
      case (Inr d)
      with exact obtain ks t where t: "?spec = Some (d, ks)" "s' = Some t" "buffer_wf t"
          "accepted t = accepted w @ ks" "consumed_capacity t = consumed_capacity w" by auto
      have old: "\<forall>k \<in> set (accepted t). key_sequence k \<le> unat (ct_sequence d)"
        using t(4) accept_spec_step(1,2) [OF assms(1) t(1)] Cons.prems(2) by fastforce
      have count: "consumed_count t = consumed_count w + length ks"
        using length_accepted [OF t(3)] length_accepted [OF Cons.prems(1)] t(4) by simp
      from Cons.IH [OF t(3) old] show ?thesis
        using Some call Inr t count by (fastforce split: sum.splits prod.splits option.splits)
    qed
  qed
qed

lemma history_spec_run:
  assumes "hash_fn_ok sha" "history_spec sha c es = Some (d, ks)"
  shows "contract_run c (map (\<lambda>e. (act_action e, act_sequence e)) es) d \<and> distinct ks"
  using assms(2)
proof (induction es arbitrary: c ks)
  case Nil
  then show ?case by (simp add: contract_run.run_nil)
next
  case (Cons e es)
  from Cons.prems obtain bs d' ks' ls where
    e: "accept_spec sha c (act_action e) (act_sequence e) bs (act_actor e) = Some (d', ks')"
    and h: "history_spec sha d' es = Some (d, ls)" and ks: "ks = ks' @ ls"
    by (auto split: option.splits)
  note step = accept_spec_step [OF assms(1) e]
  have "set ks' \<inter> set ls = {}"
    using step(2) history_spec_keys [OF assms(1) h] by fastforce
  with Cons.IH [OF h] step(4) ks run_append [OF run_one [OF step(3)]] show ?case by auto
qed

text \<open>
  The rebuild computes exactly the accepted history. With a sound hash and a well-formed buffer it
  succeeds precisely when the specification of the history (each action bound to the canonical bytes of
  the contract before it and applied with the next sequence value) yields a contract and the approval
  keys fit the buffer; then it returns that contract, which a run of the lifecycle reaches, and the
  registry holds exactly those keys in order, each once. The duplicate answer never occurs.
\<close>

theorem contract_rebuild_exact:
  assumes "hash_fn_ok sha" "buffer_wf s"
  shows "case stn_contract_rebuild_accepted_state sha c (Some es) (length es) s of
      (Inr d, t) \<Rightarrow> history_spec sha c es = Some (d, accepted t) \<and> buffer_wf t \<and> distinct (accepted t) \<and>
        contract_run c (map (\<lambda>e. (act_action e, act_sequence e)) es) d
    | (Inl _, t) \<Rightarrow> consumed_count t = consumed_count s \<and>
        (\<forall>d ks. history_spec sha c es = Some (d, ks) \<longrightarrow> consumed_capacity s < length ks)"
proof -
  let ?w = "s\<lparr>consumed_count := 0\<rparr>"
  have wf: "buffer_wf ?w" and empty: "accepted ?w = []"
    using assms(2) by (cases s; auto simp: buffer_wf_def buffer_valid_def accepted_def)+
  obtain r w where loop: "history_accept sha c ?w es = (r, w)" by force
  note spec = history_accept_spec [OF assms(1) wf, of c es, unfolded loop empty, simplified]
  show ?thesis
  proof (cases r)
    case (Inl status)
    with spec loop assms(2) show ?thesis
      by (simp add: stn_contract_rebuild_accepted_state_def buffer_wf_valid)
  next
    case (Inr d)
    with spec have w: "buffer_wf w" "consumed_capacity w = consumed_capacity s"
        "history_spec sha c es = Some (d, accepted w)" by auto
    have t: "s\<lparr>consumed := consumed w, consumed_count := consumed_count w\<rparr> = w"
      using w(2) by (cases s; cases w) simp
    from Inr w loop assms(2) history_spec_run [OF assms(1) w(3)] show ?thesis
      by (simp add: stn_contract_rebuild_accepted_state_def buffer_wf_valid t)
  qed
qed

text \<open>
  A failing rebuild is not atomic. Although the accepted count is restored, the working keys share
  the caller's buffer: when the history starts with an acceptable approval and then fails, the first
  accepted approval key has been overwritten by the history's key.
\<close>

theorem contract_rebuild_overwrites:
  assumes "buffer_wf s" "accepted s = k0 # ks"
    "accept_spec sha c STN_CONTRACT_ACTION_APPROVE (act_sequence e) bs (act_actor e) = Some (d, [k])"
    "act_action e = STN_CONTRACT_ACTION_APPROVE" "act_canonical_contract e = Some bs"
    "act_canonical_contract f = None"
  shows "\<exists>t. stn_contract_rebuild_accepted_state sha c (Some [e, f]) 2 s = (Inl STN_CONTRACT_ARGUMENT, t) \<and>
    accepted t = k # ks"
proof -
  let ?w = "s\<lparr>consumed_count := 0\<rparr>"
  obtain b where b: "consumed s = Some b" "length b = consumed_capacity s" "take (consumed_count s) b = k0 # ks"
      "consumed_count s \<le> consumed_capacity s"
    using assms(1,2) by (cases "consumed s") (auto simp: accepted_def buffer_wf_def buffer_valid_def)
  have pos: "0 < consumed_count s" using b(3) by (cases "consumed_count s") auto
  have wf: "buffer_wf ?w" and empty: "accepted ?w = []"
    using assms(1) by (cases s; auto simp: buffer_wf_def buffer_valid_def accepted_def)+
  obtain r w where call: "stn_contract_accept_action sha c (act_action e) (act_sequence e) (Some bs)
      (Some (act_actor e)) (Some ?w) = (r, w)" by force
  note exact = accept_action_exact [OF wf, of sha c "act_action e" "act_sequence e" bs "act_actor e", unfolded call empty]
  have "r = Inr d"
    using exact assms(3,4) pos b(4) by (cases r) auto
  have ok: "contract_matches_canonical c (Some bs) = STN_CONTRACT_OK"
      "stn_contract_apply_action (Some c) 3 (act_sequence e) = Inr d"
      "stn_contract_approval_key sha (Some bs) (act_sequence e) (Some (act_actor e)) = Inr k"
    using assms(3) by (auto simp: accept_spec_def simp del: stn_contract_apply_action.simps
        split: sum.splits if_splits)
  have room: "0 < consumed_capacity s" using pos b(4) by simp
  have w: "w = Some (store_key ?w k)"
    using call ok room assms(4) approvals.check_spec [OF wf, of k k] approvals.consume_spec [OF wf, of k k] empty
    by (simp add: stn_contract_accept_action_def del: stn_contract_apply_action.simps)
  have "accepted (s\<lparr>consumed := consumed (store_key ?w k)\<rparr>) = (k0 # ks)[0 := k]"
    using b(3) pos by (simp add: accepted_def store_key_def b(1) take_update_swap)
  then show ?thesis
    using call \<open>r = Inr d\<close> w assms(1,5,6)
    by (simp add: stn_contract_rebuild_accepted_state_def buffer_wf_valid numeral_2_eq_2)
qed

section \<open>A concrete contract under review\<close>

lemma matches_self:
  assumes "stn_contract_decode (Some bs) = Inr d"
  shows "contract_matches_canonical d (Some bs) = STN_CONTRACT_OK"
  using contract_decode_facts(1) [OF assms] assms
  by (auto simp: contract_matches_canonical_def wf_view_def Let_def split: option.splits)

lemma sample_decoded:
  "\<exists>bs d. stn_contract_decode (Some bs) = Inr d \<and> ct_state d = 3 \<and> ct_sequence d = 0 \<and> ct_version d = 1 \<and>
     ct_type d = 2 \<and> length bs = 68"
proof -
  let ?c = "sample_contract\<lparr>ct_state := 3\<rparr>"
  have parts: "native_participants ?c = [\<lparr>part_identity = 2 # replicate 31 0, part_role = 4\<rparr>]"
      "native_terms ?c = [65, 66]"
    by (simp_all add: native_participants_def native_terms_def sample_contract_def)
  have "contract_ok ?c" "length (concat (map participant_wire (native_participants ?c))) = 34 * unat (ct_participant_count ?c)"
    "length (native_terms ?c) = unat (ct_terms_length ?c)"
    "list_all (\<lambda>p. contract_role_valid (part_role p)) (unpack (unat (ct_participant_count ?c))
       (concat (map participant_wire (native_participants ?c))))"
    unfolding parts
    by (simp_all add: contract_ok_def contract_type_valid_def contract_state_valid_def contract_role_valid_def
        sample_contract_def participant_wire_def)
  from decode_layout [OF this] show ?thesis
    by (intro exI [of _ "contract_layout ?c (concat (map participant_wire (native_participants ?c))) (native_terms ?c)"] exI)
       (auto simp: parts participant_wire_def, auto simp: sample_contract_def)
qed

lemma sample_applies:
  assumes "ct_version d = 1" "ct_type d = 2" "ct_sequence d = 0" "stn_contract_transition (ct_state d) a = Inr t"
  shows "stn_contract_apply_action (Some d) a 1 = Inr (d\<lparr>ct_sequence := 1, ct_state := t\<rparr>)"
proof -
  have "contract_state_valid (ct_state d)"
    using assms(4) by (simp add: stn_contract_transition_def split: if_splits)
  then show ?thesis
    unfolding apply_action_iff using assms by (simp add: contract_type_valid_def UINT64_LAST_def)
qed

lemma sample_approval:
  "\<exists>bs d k e. stn_contract_decode (Some bs) = Inr d \<and>
     accept_spec sample_sha d STN_CONTRACT_ACTION_APPROVE 1 bs (2 # replicate 31 0) = Some (e, [k])"
proof -
  from sample_decoded obtain bs d where d: "stn_contract_decode (Some bs) = Inr d" "ct_state d = 3"
      "ct_sequence d = 0" "ct_version d = 1" "ct_type d = 2" "length bs = 68" by blast
  have "stn_contract_apply_action (Some d) 3 1 = Inr (d\<lparr>ct_sequence := 1, ct_state := 4\<rparr>)"
    by (rule sample_applies) (simp_all add: d transition_table)
  moreover have "stn_contract_address sample_sha (Some bs) = Inr \<lparr>addr_type = STN_ADDRESS_CONTRACT, addr_id = replicate 32 9\<rparr>"
    using d by (simp add: stn_contract_address_def stn_contract_validate_structure_def stn_address_derive_def sample_sha_def)
  ultimately have "accept_spec sample_sha d STN_CONTRACT_ACTION_APPROVE 1 bs (2 # replicate 31 0) =
      Some (d\<lparr>ct_sequence := 1, ct_state := 4\<rparr>, [replicate 32 9 @ stn_wire_write 8 1 @ (2 # replicate 31 0)])"
    using matches_self [OF d(1)]
    by (simp add: accept_spec_def stn_contract_approval_key_def
        del: stn_contract_apply_action.simps stn_identity_derive.simps)
  with d(1) show ?thesis by blast
qed

definition sample_registry :: "bytes list \<Rightarrow> key_buffer" where
  "sample_registry ks = \<lparr>consumed = Some (ks @ [[]]), consumed_count = length ks, consumed_capacity = length ks + 1\<rparr>"

lemma sample_registry_parts:
  "buffer_wf (sample_registry ks)" "accepted (sample_registry ks) = ks"
  "consumed_count (sample_registry ks) = length ks" "consumed_capacity (sample_registry ks) = length ks + 1"
  by (simp_all add: sample_registry_def buffer_wf_def buffer_valid_def accepted_def)

theorem contract_executed_trace_witness:
  "\<exists>as d. contract_run sample_contract as d \<and> ct_state d = STN_CONTRACT_STATE_EXECUTED \<and>
     map fst as = [1, 2, 3, 3, 5] \<and> unat (ct_sequence d) = 5"
proof -
  let ?d = "\<lambda>q t. sample_contract\<lparr>ct_sequence := q, ct_state := t\<rparr>"
  have step: "stn_contract_apply_action (Some (?d q s)) a (q + 1) = Inr (?d (q + 1) t)"
    if "stn_contract_transition s a = Inr t" "q \<noteq> UINT64_LAST" for q s a t
    using that by (auto simp: apply_action_iff sample_contract_def contract_type_valid_def transition_table
        contract_state_valid_def simp del: stn_contract_apply_action.simps)
  have start: "sample_contract = ?d 0 1" by (simp add: sample_contract_def)
  have s1: "contract_run (?d 0 1) ([] @ [(1, 1)]) (?d 1 2)"
    using contract_run.run_step [OF contract_run.run_nil step [of 1 1 2 0]]
    by (simp add: transition_table UINT64_LAST_def)
  have s2: "contract_run (?d 0 1) (([] @ [(1, 1)]) @ [(2, 2)]) (?d 2 3)"
    using contract_run.run_step [OF s1 step [of 2 2 3 1]] by (simp add: transition_table UINT64_LAST_def)
  have s3: "contract_run (?d 0 1) ((([] @ [(1, 1)]) @ [(2, 2)]) @ [(3, 3)]) (?d 3 4)"
    using contract_run.run_step [OF s2 step [of 3 3 4 2]] by (simp add: transition_table UINT64_LAST_def)
  have s4: "contract_run (?d 0 1) (((([] @ [(1, 1)]) @ [(2, 2)]) @ [(3, 3)]) @ [(3, 4)]) (?d 4 5)"
    using contract_run.run_step [OF s3 step [of 4 3 5 3]] by (simp add: transition_table UINT64_LAST_def)
  have s5: "contract_run (?d 0 1) ((((([] @ [(1, 1)]) @ [(2, 2)]) @ [(3, 3)]) @ [(3, 4)]) @ [(5, 5)]) (?d 5 6)"
    using contract_run.run_step [OF s4 step [of 5 5 6 4]] by (simp add: transition_table UINT64_LAST_def)
  have ends: "ct_state sample_contract = STN_CONTRACT_STATE_DRAFT" "ct_state (?d 5 6) = STN_CONTRACT_STATE_EXECUTED"
    by (simp_all add: sample_contract_def)
  from contract_executed_trace [OF s5 [folded start] ends]
  have "unat (ct_sequence (?d 5 6)) = unat (ct_sequence sample_contract) + 5" by simp
  then have "unat (ct_sequence (?d 5 6)) = 5" by (simp add: sample_contract_def)
  with s5 [folded start] ends(2) show ?thesis by (intro exI conjI) (assumption | simp)+
qed

theorem contract_can_close_witness:
  "\<exists>as d. length as \<le> 3 \<and> contract_run sample_contract as d \<and> ct_state d = STN_CONTRACT_STATE_CLOSED"
  using contract_can_close [of sample_contract]
  by (simp add: sample_contract_def contract_type_valid_def contract_state_valid_def)

theorem contract_accept_atomic_witness:
  "\<exists>bs d e k t. stn_contract_accept_action sample_sha d STN_CONTRACT_ACTION_APPROVE 1 (Some bs)
      (Some (2 # replicate 31 0)) (Some (sample_registry [])) =
      (Inr e, Some t) \<and> accepted t = [k]"
proof -
  let ?s = "sample_registry []"
  note wf = sample_registry_parts [of "[]"]
  from sample_approval obtain bs d k e where
    spec: "accept_spec sample_sha d STN_CONTRACT_ACTION_APPROVE 1 bs (2 # replicate 31 0) = Some (e, [k])" by blast
  obtain r s' where call: "stn_contract_accept_action sample_sha d STN_CONTRACT_ACTION_APPROVE 1 (Some bs)
      (Some (2 # replicate 31 0)) (Some ?s) = (r, s')" by force
  from accept_action_exact [OF wf(1), of sample_sha d STN_CONTRACT_ACTION_APPROVE 1 bs "2 # replicate 31 0", unfolded call] spec
  obtain f where f: "r = Inr f" by (cases r) (auto simp: wf)
  from contract_accept_atomic [OF wf(1), where sha = sample_sha and c = d and a = STN_CONTRACT_ACTION_APPROVE
      and q = 1 and bs = bs and actor = "2 # replicate 31 0", unfolded call f]
  obtain k' t where "s' = Some t" "accepted t = [k']" by (auto simp: wf(2))
  with call f show ?thesis by blast
qed

theorem contract_rebuild_exact_witness:
  "\<exists>bs d e t. stn_contract_rebuild_accepted_state sample_sha d (Some [\<lparr>act_action = STN_CONTRACT_ACTION_APPROVE,
      act_sequence = 1, act_canonical_contract = Some bs, act_actor = 2 # replicate 31 0\<rparr>]) 1
      (sample_registry []) = (Inr e, t) \<and> length (accepted t) = 1"
proof -
  let ?s = "sample_registry []"
  note wf = sample_registry_parts(1) [of "[]"] and cap = sample_registry_parts(4) [of "[]"]
  from sample_approval obtain bs d k e where
    spec: "accept_spec sample_sha d STN_CONTRACT_ACTION_APPROVE 1 bs (2 # replicate 31 0) = Some (e, [k])" by blast
  let ?e = "\<lparr>act_action = STN_CONTRACT_ACTION_APPROVE, act_sequence = 1, act_canonical_contract = Some bs,
    act_actor = 2 # replicate 31 0\<rparr>"
  have h: "history_spec sample_sha d [?e] = Some (e, [k])" using spec by simp
  obtain r t where call: "stn_contract_rebuild_accepted_state sample_sha d (Some [?e]) (length [?e]) ?s = (r, t)" by force
  from contract_rebuild_exact [OF sample_sha_ok wf, of d "[?e]", unfolded call h]
  have "r = Inr e \<and> accepted t = [k]" by (auto simp: cap split: sum.splits)
  with call show ?thesis by (intro exI [of _ bs] exI [of _ d] exI [of _ e] exI [of _ t]) simp
qed

theorem contract_rebuild_overwrites_witness:
  "\<exists>bs d k t. stn_contract_rebuild_accepted_state sample_sha d (Some [\<lparr>act_action = STN_CONTRACT_ACTION_APPROVE,
      act_sequence = 1, act_canonical_contract = Some bs, act_actor = 2 # replicate 31 0\<rparr>,
      \<lparr>act_action = STN_CONTRACT_ACTION_APPROVE, act_sequence = 2, act_canonical_contract = None, act_actor = []\<rparr>]) 2
      (sample_registry [[1]]) = (Inl STN_CONTRACT_ARGUMENT, t) \<and>
     accepted t = [k]"
proof -
  let ?s = "sample_registry [[1]]"
  note wf = sample_registry_parts [of "[[1]]"]
  from sample_approval obtain bs d k e where
    spec: "accept_spec sample_sha d STN_CONTRACT_ACTION_APPROVE 1 bs (2 # replicate 31 0) = Some (e, [k])" by blast
  let ?e = "\<lparr>act_action = STN_CONTRACT_ACTION_APPROVE, act_sequence = 1, act_canonical_contract = Some bs,
    act_actor = 2 # replicate 31 0\<rparr>"
  let ?f = "\<lparr>act_action = STN_CONTRACT_ACTION_APPROVE, act_sequence = 2, act_canonical_contract = None, act_actor = []\<rparr>"
  have "accept_spec sample_sha d STN_CONTRACT_ACTION_APPROVE (act_sequence ?e) bs (act_actor ?e) = Some (e, [k])"
    using spec by simp
  from contract_rebuild_overwrites [OF wf(1,2) this, of ?f] obtain t where
      "stn_contract_rebuild_accepted_state sample_sha d (Some [?e, ?f]) 2 ?s = (Inl STN_CONTRACT_ARGUMENT, t)" "accepted t = [k]"
    by auto
  then show ?thesis by blast
qed

lemma sample_validated:
  "\<exists>bs d ev. stn_contract_decode (Some bs) = Inr d \<and> ct_state d = 3 \<and>
     stn_contract_validate_action sample_sha sample_ed d STN_CONTRACT_ACTION_AMEND 1 (Some bs) (Some (2 # replicate 31 0))
       (Some (2 # replicate 63 0)) (Some ev) 97 (Some (sample_registry [])) = STN_CONTRACT_OK"
proof -
  let ?actor = "2 # replicate 31 (0 :: 8 word)"
  let ?act = "[1, 0x43, 0, 2] @ replicate 28 (0 :: 8 word)" and ?ctx = "[1, 0x43] @ replicate 30 (9 :: 8 word)"
  let ?ev = "[1] @ ?actor @ ?act @ ?ctx"
  from sample_decoded obtain bs d where d: "stn_contract_decode (Some bs) = Inr d" "ct_state d = 3"
      "ct_sequence d = 0" "ct_version d = 1" "ct_type d = 2" "length bs = 68" by blast
  have der: "stn_identity_derive (Some ?actor) = Inr ?actor" by (simp add: sample_key_canonical)
  have step: "stn_contract_apply_action (Some d) 2 1 = Inr (d\<lparr>ct_sequence := 1, ct_state := 3\<rparr>)"
    by (rule sample_applies) (simp_all add: d transition_table)
  have addr: "stn_contract_address sample_sha (Some bs) = Inr \<lparr>addr_type = STN_ADDRESS_CONTRACT, addr_id = replicate 32 9\<rparr>"
    using d by (simp add: stn_contract_address_def stn_contract_validate_structure_def stn_address_derive_def sample_sha_def)
  have action: "stn_contract_authority_action 2 = Inr ?act"
    by (simp add: stn_contract_authority_action_def contract_action_valid_def stn_authority_action_validate_def
        nonzero_iff)
  have ctx: "stn_contract_authority_context sample_sha (Some bs) = Inr ?ctx"
    by (simp add: stn_contract_authority_context_def addr stn_authority_context_validate_def nonzero_iff)
  have auth: "stn_contract_authority_evaluate sample_sha (Some ?actor) 2 (Some bs) (Some ?ev) 97 = STN_CONTRACT_OK"
    unfolding stn_contract_authority_evaluate_def action ctx
    by (simp add: stn_authority_evaluate_def der stn_authority_action_validate_def stn_authority_context_validate_def
      nonzero_iff del: stn_identity_derive.simps)
  have sig: "stn_contract_signature_verify sample_ed (Some ?actor) 2 (Some bs) 1 (Some (2 # replicate 63 0)) = STN_CONTRACT_OK"
    using d by (simp add: stn_contract_signature_verify_def der contract_action_valid_def stn_contract_validate_structure_def
      stn_identity_statement_def stn_identity_verify_def sample_ed_def sample_key_canonical SIZE_MAX_def
      canonical_point_value canonical_scalar_value le_value_def be_append small_order_def nonzero_iff
      del: stn_identity_derive.simps)
  show ?thesis
    by (intro exI [of _ bs] exI [of _ d] exI [of _ ?ev])
      (simp add: stn_contract_validate_action_def d(1,2) matches_self [OF d(1)] step auth [simplified] sig
        del: stn_contract_apply_action.simps)
qed

theorem contract_validated_accepts_witness:
  "\<exists>bs d ev e. stn_contract_validate_action sample_sha sample_ed d STN_CONTRACT_ACTION_AMEND 1 (Some bs)
       (Some (2 # replicate 31 0)) (Some (2 # replicate 63 0)) (Some ev) 97 (Some (sample_registry [])) = STN_CONTRACT_OK \<and>
     fst (stn_contract_accept_action sample_sha d STN_CONTRACT_ACTION_AMEND 1 (Some bs) (Some (2 # replicate 31 0))
       (Some (sample_registry []))) = Inr e"
proof -
  from sample_validated obtain bs d ev where v:
    "stn_contract_validate_action sample_sha sample_ed d STN_CONTRACT_ACTION_AMEND 1 (Some bs)
       (Some (2 # replicate 31 0)) (Some (2 # replicate 63 0)) (Some ev) 97 (Some (sample_registry [])) = STN_CONTRACT_OK" by blast
  from contract_validated_accepts [OF sample_registry_parts(1) v, simplified] v show ?thesis by (auto simp del: stn_contract_apply_action.simps)
qed

end
