(* ===== verification/Stn_Contract_Vote.thy ===== *)
theory Stn_Contract_Vote
  imports Stn_Contract_Lifecycle
begin

text \<open>
  Majority approval of a contract, \<^verbatim>\<open>src/src/stn_contract_consensus.c\<close>: who may vote, the vote
  state of an immutable draft, one vote, and its effect on the contract. The accepted votes are a
  registry of keys (contract identifier, then voter), so \<open>key_buffer\<close> models the caller's buffer.
\<close>

section \<open>Operations\<close>

record stn_contract_vote_state =
  vote_contract_id :: bytes
  vote_keys :: key_buffer
  eligible_count :: nat
  required_count :: nat

text \<open>The checks every operation makes of the draft, with the derived address where it is asked for.\<close>

definition draft_view :: "bytes option \<Rightarrow> stn_contract_status + stn_contract" where
  "draft_view input =
     (case input of
        None \<Rightarrow> Inl STN_CONTRACT_ARGUMENT
      | Some bs \<Rightarrow>
          (case stn_contract_decode (Some bs) of
             Inl status \<Rightarrow> Inl status
           | Inr draft \<Rightarrow>
               if ct_state draft \<noteq> STN_CONTRACT_STATE_DRAFT \<or> ct_sequence draft \<noteq> 0
               then Inl STN_CONTRACT_STATE_ERROR
               else Inr draft))"

definition draft_view_address ::
  "stn_hash_fn \<Rightarrow> bytes option \<Rightarrow> stn_contract_status + (stn_contract \<times> stn_address)" where
  "draft_view_address sha input =
     (case draft_view input of
        Inl status \<Rightarrow> Inl status
      | Inr draft \<Rightarrow>
          (case stn_contract_address sha input of
             Inl status \<Rightarrow> Inl status
           | Inr address \<Rightarrow> Inr (draft, address)))"

fun eligible_loop :: "stn_contract \<Rightarrow> bytes \<Rightarrow> nat list \<Rightarrow> stn_contract_status" where
  "eligible_loop draft actor [] = STN_CONTRACT_AUTHORITY_ERROR"
| "eligible_loop draft actor (i # is) =
     (case stn_contract_participant_at (Some draft) (of_nat i) of
        Inl status \<Rightarrow> status
      | Inr p \<Rightarrow>
          if part_role p = STN_CONTRACT_ROLE_APPROVER \<and> memcmp (part_identity p) actor = 0
          then STN_CONTRACT_OK
          else eligible_loop draft actor is)"

definition stn_contract_vote_eligible :: "bytes option \<Rightarrow> bytes option \<Rightarrow> stn_contract_status" where
  "stn_contract_vote_eligible canonical_draft actor =
     (if actor = None then STN_CONTRACT_ARGUMENT
      else
        (case draft_view canonical_draft of
           Inl status \<Rightarrow> status
         | Inr draft \<Rightarrow>
             (case stn_identity_derive actor of
                Inl _ \<Rightarrow> STN_CONTRACT_AUTHORITY_ERROR
              | Inr canonical_actor \<Rightarrow>
                  eligible_loop draft canonical_actor [0..<unat (ct_participant_count draft)])))"

text \<open>The inner loop: an earlier approver with the same identity refuses the draft.\<close>

fun duplicate_loop :: "stn_contract \<Rightarrow> stn_contract_participant \<Rightarrow> nat list \<Rightarrow> stn_contract_status" where
  "duplicate_loop draft p [] = STN_CONTRACT_OK"
| "duplicate_loop draft p (j # js) =
     (case stn_contract_participant_at (Some draft) (of_nat j) of
        Inl status \<Rightarrow> status
      | Inr q \<Rightarrow>
          if part_role q = STN_CONTRACT_ROLE_APPROVER \<and> memcmp (part_identity q) (part_identity p) = 0
          then STN_CONTRACT_DUPLICATE_APPROVAL
          else duplicate_loop draft p js)"

fun eligible_count_loop :: "stn_contract \<Rightarrow> nat \<Rightarrow> nat list \<Rightarrow> stn_contract_status + nat" where
  "eligible_count_loop draft eligible [] = Inr eligible"
| "eligible_count_loop draft eligible (i # is) =
     (case stn_contract_participant_at (Some draft) (of_nat i) of
        Inl status \<Rightarrow> Inl status
      | Inr p \<Rightarrow>
          if part_role p \<noteq> STN_CONTRACT_ROLE_APPROVER then eligible_count_loop draft eligible is
          else
            (let status = duplicate_loop draft p [0..<i]
             in if status \<noteq> STN_CONTRACT_OK then Inl status
                else eligible_count_loop draft (eligible + 1) is))"

definition stn_contract_vote_state_initialize ::
  "stn_hash_fn \<Rightarrow> bytes option \<Rightarrow> bytes list option \<Rightarrow> nat \<Rightarrow> stn_contract_status + stn_contract_vote_state" where
  "stn_contract_vote_state_initialize sha canonical_draft buf capacity =
     (if capacity \<noteq> 0 \<and> buf = None then Inl STN_CONTRACT_ARGUMENT
      else
        (case draft_view_address sha canonical_draft of
           Inl status \<Rightarrow> Inl status
         | Inr (draft, address) \<Rightarrow>
             (case eligible_count_loop draft 0 [0..<unat (ct_participant_count draft)] of
                Inl status \<Rightarrow> Inl status
              | Inr eligible \<Rightarrow>
                  if eligible = 0 then Inl STN_CONTRACT_AUTHORITY_ERROR
                  else Inr \<lparr>vote_contract_id = addr_id address,
                    vote_keys = key_buffer_initialize buf capacity,
                    eligible_count = eligible, required_count = eligible div 2 + 1\<rparr>)))"

text \<open>One vote; on success the value tells whether the strict majority is reached.\<close>

definition stn_contract_vote_accept ::
  "stn_hash_fn \<Rightarrow> stn_contract_vote_state \<Rightarrow> bytes option \<Rightarrow> bytes option \<Rightarrow>
   (stn_contract_status + bool) \<times> stn_contract_vote_state" where
  "stn_contract_vote_accept sha state canonical_draft actor =
     (if actor = None then (Inl STN_CONTRACT_ARGUMENT, state)
      else if \<not> buffer_valid (vote_keys state) \<or> eligible_count state = 0 \<or>
        required_count state \<noteq> eligible_count state div 2 + 1
      then (Inl STN_CONTRACT_ARGUMENT, state)
      else
        (case draft_view_address sha canonical_draft of
           Inl status \<Rightarrow> (Inl status, state)
         | Inr (draft, address) \<Rightarrow>
             if memcmp (addr_id address) (vote_contract_id state) \<noteq> 0
             then (Inl STN_CONTRACT_ADDRESS_ERROR, state)
             else
               (let status = stn_contract_vote_eligible canonical_draft actor
                in if status \<noteq> STN_CONTRACT_OK then (Inl status, state)
                   else
                     (case stn_identity_derive actor of
                        Inl _ \<Rightarrow> (Inl STN_CONTRACT_AUTHORITY_ERROR, state)
                      | Inr canonical_actor \<Rightarrow>
                          (let key = vote_contract_id state @ canonical_actor
                           in if scan_key (vote_keys state) key
                              then (Inl STN_CONTRACT_DUPLICATE_APPROVAL, state)
                              else if consumed_count (vote_keys state) = consumed_capacity (vote_keys state)
                              then (Inl STN_CONTRACT_CAPACITY, state)
                              else
                                (let voted = state\<lparr>vote_keys := store_key (vote_keys state) key\<rparr>
                                 in (Inr (consumed_count (vote_keys voted) \<ge> required_count voted),
                                     voted)))))))"

definition stn_contract_vote_apply ::
  "stn_hash_fn \<Rightarrow> stn_contract option \<Rightarrow> u64 \<Rightarrow> bytes option \<Rightarrow> bytes option \<Rightarrow> stn_contract_vote_state \<Rightarrow>
   (stn_contract_status + stn_contract) \<times> stn_contract_vote_state" where
  "stn_contract_vote_apply sha contract expected_sequence canonical_draft actor vote_state =
     (case contract of
        None \<Rightarrow> (Inl STN_CONTRACT_ARGUMENT, vote_state)
      | Some current \<Rightarrow>
          if canonical_draft = None \<or> actor = None then (Inl STN_CONTRACT_ARGUMENT, vote_state)
          else if ct_state current \<noteq> STN_CONTRACT_STATE_REVIEW \<and>
            ct_state current \<noteq> STN_CONTRACT_STATE_APPROVALS
          then (Inl STN_CONTRACT_TRANSITION_ERROR, vote_state)
          else if ct_sequence current = UINT64_LAST \<or> expected_sequence \<noteq> ct_sequence current + 1
          then (Inl STN_CONTRACT_SEQUENCE_ERROR, vote_state)
          else
            (case stn_contract_vote_accept sha vote_state canonical_draft actor of
               (Inl status, vote_state') \<Rightarrow> (Inl status, vote_state')
             | (Inr reached, vote_state') \<Rightarrow>
                 (Inr (current\<lparr>ct_sequence := expected_sequence,
                    ct_state := (if reached then STN_CONTRACT_STATE_ATTESTATION
                      else STN_CONTRACT_STATE_APPROVALS)\<rparr>), vote_state')))"

section \<open>Eligible voters\<close>

definition draft_participants :: "stn_contract \<Rightarrow> stn_contract_participant list" where
  "draft_participants d = unpack (unat (ct_participant_count d)) (packed_participants d)"

text \<open>The approvers of a draft, in participant order.\<close>

definition approvers :: "stn_contract \<Rightarrow> bytes list" where
  "approvers d = map part_identity (filter (\<lambda>p. part_role p = STN_CONTRACT_ROLE_APPROVER) (draft_participants d))"

lemma length_draft_participants [simp]: "length (draft_participants d) = unat (ct_participant_count d)"
  by (simp add: draft_participants_def)

text \<open>The accessor of a decoded draft never fails below the count.\<close>

lemma draft_participant:
  assumes "stn_contract_decode (Some bs) = Inr d" "i < unat (ct_participant_count d)"
  shows "stn_contract_participant_at (Some d) (of_nat i) = Inr (draft_participants d ! i)"
    "length (part_identity (draft_participants d ! i)) = 32"
proof -
  note facts = contract_decode_facts [OF assms(1)]
  have bound: "unat (ct_participant_count d) \<le> 32" using facts(2) by (simp add: contract_ok_def)
  then have u: "unat (of_nat i :: u16) = i" using assms(2) by (simp add: unat_of_nat take_bit_nat_eq_self)
  then have i: "(of_nat i :: u16) < ct_participant_count d" using assms(2) by (simp add: word_less_nat_alt)
  have "contract_role_valid (part_role (draft_participants d ! i))"
    using facts(5) assms(2) by (simp add: draft_participants_def list_all_length)
  then show "stn_contract_participant_at (Some d) (of_nat i) = Inr (draft_participants d ! i)"
    using participant_at_iff [OF facts(1) i] u by (simp add: draft_participants_def Let_def)
  have "34 * unat (ct_participant_count d) \<le> length (packed_participants d)"
    using facts(1) by (simp add: wf_view_def)
  with assms(2) show "length (part_identity (draft_participants d ! i)) = 32"
    by (simp add: draft_participants_def unpack_nth)
qed


lemma eligible_loop_iff:
  assumes "stn_contract_decode (Some bs) = Inr d" "\<forall>i \<in> set is. i < unat (ct_participant_count d)" "length k = 32"
  shows "eligible_loop d k is = (if \<exists>i \<in> set is. part_role (draft_participants d ! i) = STN_CONTRACT_ROLE_APPROVER \<and>
      part_identity (draft_participants d ! i) = k then STN_CONTRACT_OK else STN_CONTRACT_AUTHORITY_ERROR)"
  using assms(2)
proof (induction "is")
  case Nil
  then show ?case by simp
next
  case (Cons i "is")
  then have i: "i < unat (ct_participant_count d)" by simp
  have "memcmp (part_identity (draft_participants d ! i)) k = 0 \<longleftrightarrow> part_identity (draft_participants d ! i) = k"
    using draft_participant(2) [OF assms(1) i] assms(3) by (simp add: memcmp_eq_0_iff)
  with Cons show ?case by (simp add: draft_participant(1) [OF assms(1) i] del: STN_CONTRACT_ROLE_APPROVER_def)
qed

lemma approvers_nth:
  "set (approvers d) = {part_identity (draft_participants d ! i) | i. i < unat (ct_participant_count d) \<and>
     part_role (draft_participants d ! i) = STN_CONTRACT_ROLE_APPROVER}"
  by (auto simp: approvers_def in_set_conv_nth simp del: STN_CONTRACT_ROLE_APPROVER_def)

lemma draft_view_iff:
  "draft_view (Some bs) = Inr d \<longleftrightarrow>
     stn_contract_decode (Some bs) = Inr d \<and> ct_state d = STN_CONTRACT_STATE_DRAFT \<and> ct_sequence d = 0"
  by (auto simp: draft_view_def split: sum.splits)

lemma draft_view_address_iff:
  "draft_view_address sha (Some bs) = Inr (d, a) \<longleftrightarrow>
     draft_view (Some bs) = Inr d \<and> stn_contract_address sha (Some bs) = Inr a"
  by (auto simp: draft_view_address_def split: sum.splits)

lemma vote_eligible_iff:
  assumes "draft_view (Some bs) = Inr d" "length actor = 32"
  shows "stn_contract_vote_eligible (Some bs) (Some actor) = STN_CONTRACT_OK \<longleftrightarrow>
    (\<exists>k. stn_identity_derive (Some actor) = Inr k \<and> k \<in> set (approvers d))"
proof (cases "stn_identity_derive (Some actor)")
  case (Inl r)
  then show ?thesis using assms by (simp add: stn_contract_vote_eligible_def del: stn_identity_derive.simps)
next
  case (Inr k)
  then have "length k = 32" using assms(2) by (simp add: identity_derive_iff del: stn_identity_derive.simps)
  moreover from assms have "stn_contract_decode (Some bs) = Inr d" by (simp add: draft_view_iff)
  ultimately show ?thesis
    using Inr assms eligible_loop_iff [of bs d "[0..<unat (ct_participant_count d)]" k]
    by (auto simp: stn_contract_vote_eligible_def approvers_nth
        simp del: stn_identity_derive.simps STN_CONTRACT_ROLE_APPROVER_def)
qed

section \<open>The vote state of a draft\<close>

lemma duplicate_loop_iff:
  assumes "stn_contract_decode (Some bs) = Inr d" "i < unat (ct_participant_count d)"
    "\<forall>j \<in> set js. j < unat (ct_participant_count d)"
  shows "duplicate_loop d (draft_participants d ! i) js = STN_CONTRACT_OK \<longleftrightarrow>
    (\<forall>j \<in> set js. part_role (draft_participants d ! j) = STN_CONTRACT_ROLE_APPROVER \<longrightarrow>
      part_identity (draft_participants d ! j) \<noteq> part_identity (draft_participants d ! i))"
  using assms(3)
proof (induction js)
  case Nil
  then show ?case by simp
next
  case (Cons j js)
  then have j: "j < unat (ct_participant_count d)" by simp
  have "memcmp (part_identity (draft_participants d ! j)) (part_identity (draft_participants d ! i)) = 0 \<longleftrightarrow>
      part_identity (draft_participants d ! j) = part_identity (draft_participants d ! i)"
    using draft_participant(2) [OF assms(1) j] draft_participant(2) [OF assms(1,2)] by (simp add: memcmp_eq_0_iff)
  with Cons show ?case by (simp add: draft_participant(1) [OF assms(1) j] del: STN_CONTRACT_ROLE_APPROVER_def)
qed

definition approvers_to :: "stn_contract \<Rightarrow> nat \<Rightarrow> bytes list" where
  "approvers_to d m = map part_identity (filter (\<lambda>p. part_role p = STN_CONTRACT_ROLE_APPROVER)
     (take m (draft_participants d)))"

lemma approvers_to_simps:
  "approvers_to d 0 = []"
  "m < unat (ct_participant_count d) \<Longrightarrow> approvers_to d (Suc m) = approvers_to d m @
     (if part_role (draft_participants d ! m) = STN_CONTRACT_ROLE_APPROVER
      then [part_identity (draft_participants d ! m)] else [])"
  "approvers_to d (unat (ct_participant_count d)) = approvers d"
  by (simp_all add: approvers_to_def approvers_def take_Suc_conv_app_nth del: STN_CONTRACT_ROLE_APPROVER_def)

lemma set_approvers_to:
  "m \<le> unat (ct_participant_count d) \<Longrightarrow> set (approvers_to d m) =
     {part_identity (draft_participants d ! j) | j. j < m \<and>
       part_role (draft_participants d ! j) = STN_CONTRACT_ROLE_APPROVER}"
  by (induction m) (auto simp: approvers_to_simps less_Suc_eq simp del: STN_CONTRACT_ROLE_APPROVER_def)

lemma eligible_count_loop_iff:
  assumes "stn_contract_decode (Some bs) = Inr d" "m \<le> unat (ct_participant_count d)"
    "e = length (approvers_to d m)" "distinct (approvers_to d m)"
  shows "eligible_count_loop d e [m..<unat (ct_participant_count d)] = Inr n \<longleftrightarrow>
    distinct (approvers d) \<and> n = length (approvers d)"
  using assms(2-)
proof (induction "unat (ct_participant_count d) - m" arbitrary: m e)
  case 0
  then have "m = unat (ct_participant_count d)" by simp
  with 0 show ?case by (auto simp: approvers_to_simps)
next
  case (Suc r)
  then have m: "m < unat (ct_participant_count d)" by simp
  then have upt: "[m..<unat (ct_participant_count d)] = m # [Suc m..<unat (ct_participant_count d)]"
    by (rule upt_conv_Cons)
  note next_ = Suc.hyps(1) [of "Suc m"]
  have r: "r = unat (ct_participant_count d) - Suc m" using Suc.hyps(2) by simp
  show ?case
  proof (cases "part_role (draft_participants d ! m) = STN_CONTRACT_ROLE_APPROVER")
    case False
    with next_ [of e] Suc.prems m r show ?thesis
      by (simp add: upt draft_participant(1) [OF assms(1) m] approvers_to_simps del: STN_CONTRACT_ROLE_APPROVER_def)
  next
    case True
    have dup: "duplicate_loop d (draft_participants d ! m) [0..<m] = STN_CONTRACT_OK \<longleftrightarrow>
        part_identity (draft_participants d ! m) \<notin> set (approvers_to d m)"
      using duplicate_loop_iff [OF assms(1) m, of "[0..<m]"] m Suc.prems(1)
      by (auto simp: set_approvers_to simp del: STN_CONTRACT_ROLE_APPROVER_def)
    have more: "\<exists>zs. approvers d = approvers_to d (Suc m) @ zs"
      by (metis approvers_def approvers_to_def append_take_drop_id filter_append map_append)
    show ?thesis
    proof (cases "part_identity (draft_participants d ! m) \<in> set (approvers_to d m)")
      case False
      with True dup next_ [of "Suc e"] Suc.prems m r show ?thesis
        by (simp add: upt draft_participant(1) [OF assms(1) m] approvers_to_simps
            del: STN_CONTRACT_ROLE_APPROVER_def)
    next
      case in_: True
      with True m more have "\<not> distinct (approvers d)"
        by (auto simp: approvers_to_simps simp del: STN_CONTRACT_ROLE_APPROVER_def)
      with in_ True dup show ?thesis
        by (simp add: upt draft_participant(1) [OF assms(1) m] Let_def del: STN_CONTRACT_ROLE_APPROVER_def)
    qed
  qed
qed

lemma vote_initialize_iff:
  assumes "capacity = 0 \<or> buf \<noteq> None"
  shows "stn_contract_vote_state_initialize sha (Some bs) buf capacity = Inr s \<longleftrightarrow>
     (\<exists>d a. draft_view (Some bs) = Inr d \<and> stn_contract_address sha (Some bs) = Inr a \<and>
       distinct (approvers d) \<and> approvers d \<noteq> [] \<and>
       s = \<lparr>vote_contract_id = addr_id a, vote_keys = key_buffer_initialize buf capacity,
         eligible_count = length (approvers d), required_count = length (approvers d) div 2 + 1\<rparr>)"
proof (cases "draft_view_address sha (Some bs)")
  case (Inl r)
  then have "\<not> (draft_view (Some bs) = Inr d \<and> stn_contract_address sha (Some bs) = Inr a)" for d a
    using draft_view_address_iff [of sha bs d a] by simp
  with Inl assms show ?thesis by (auto simp: stn_contract_vote_state_initialize_def)
next
  case (Inr da)
  then obtain d a where da: "draft_view_address sha (Some bs) = Inr (d, a)" by (cases da) auto
  then have v: "draft_view (Some bs) = Inr d" "stn_contract_address sha (Some bs) = Inr a"
    by (simp_all add: draft_view_address_iff)
  from v(1) have dec: "stn_contract_decode (Some bs) = Inr d" by (simp add: draft_view_iff)
  note count = eligible_count_loop_iff [OF dec, of 0 0, simplified approvers_to_simps]
  show ?thesis
  proof (cases "eligible_count_loop d 0 [0..<unat (ct_participant_count d)]")
    case (Inl r)
    with count have "\<not> distinct (approvers d)" by auto
    with Inl v assms show ?thesis by (simp add: stn_contract_vote_state_initialize_def da)
  next
    case (Inr n)
    with count [of n] have "distinct (approvers d)" "n = length (approvers d)" by auto
    with Inr v assms show ?thesis by (auto simp: stn_contract_vote_state_initialize_def da)
  qed
qed


text \<open>A refusal never carries the success status.\<close>

lemma contract_decode_status: "stn_contract_decode input \<noteq> Inl STN_CONTRACT_OK"
  by (cases input) (auto simp: stn_contract_decode.simps(2) contract_size_cases Let_def split: if_splits)

lemma contract_address_status: "stn_contract_address sha input \<noteq> Inl STN_CONTRACT_OK"
  by (auto simp: stn_contract_address_def split: option.splits sum.splits)

lemma participant_at_status: "stn_contract_participant_at c i \<noteq> Inl STN_CONTRACT_OK"
  by (auto simp: stn_contract_participant_at_def Let_def split: option.splits)

lemma eligible_count_loop_status: "eligible_count_loop d e is \<noteq> Inl STN_CONTRACT_OK"
  by (induction d e "is" rule: eligible_count_loop.induct)
     (auto simp: Let_def participant_at_status split: sum.splits)

lemma draft_view_status: "draft_view input \<noteq> Inl STN_CONTRACT_OK"
  by (auto simp: draft_view_def contract_decode_status split: option.splits sum.splits)

lemma vote_initialize_status: "stn_contract_vote_state_initialize sha input buf n \<noteq> Inl STN_CONTRACT_OK"
  by (auto simp: stn_contract_vote_state_initialize_def draft_view_address_def draft_view_status
      contract_address_status eligible_count_loop_status split: sum.splits)
section \<open>Votes\<close>

text \<open>
  What a vote state stands for: the identifier of the draft's contract, the number of its approvers
  with the strict majority of them, and the votes cast so far, in order.
\<close>

definition vote_inv :: "stn_contract \<Rightarrow> stn_address \<Rightarrow> nat \<Rightarrow> stn_contract_vote_state \<Rightarrow> bytes list \<Rightarrow> bool" where
  "vote_inv d a capacity s vs \<longleftrightarrow> vote_contract_id s = addr_id a \<and> buffer_wf (vote_keys s) \<and>
     consumed_capacity (vote_keys s) = capacity \<and> accepted (vote_keys s) = map (\<lambda>v. addr_id a @ v) vs \<and>
     eligible_count s = length (approvers d) \<and> approvers d \<noteq> [] \<and>
     required_count s = length (approvers d) div 2 + 1 \<and> distinct vs \<and>
     (\<forall>v \<in> set vs. v \<in> set (approvers d) \<and> stn_identity_derive (Some v) = Inr v)"

lemma vote_inv_count: "vote_inv d a capacity s vs \<Longrightarrow> consumed_count (vote_keys s) = length vs"
  using length_accepted [of "vote_keys s"] by (simp add: vote_inv_def)

lemma vote_accept_exact:
  assumes "vote_inv d a capacity s vs" "draft_view (Some bs) = Inr d" "stn_contract_address sha (Some bs) = Inr a"
    "length actor = 32"
  shows "if stn_identity_derive (Some actor) = Inr actor \<and> actor \<in> set (approvers d) \<and> actor \<notin> set vs \<and>
      length vs < capacity
    then \<exists>s'. stn_contract_vote_accept sha s (Some bs) (Some actor) =
        (Inr (length (approvers d) < 2 * Suc (length vs)), s') \<and> vote_inv d a capacity s' (vs @ [actor])
    else \<exists>r. stn_contract_vote_accept sha s (Some bs) (Some actor) = (Inl r, s)"
proof -
  note inv = assms(1) [unfolded vote_inv_def]
  have view: "draft_view_address sha (Some bs) = Inr (d, a)"
    using assms(2,3) by (simp add: draft_view_address_iff)
  have derive: "k = actor" if "stn_identity_derive (Some actor) = Inr k" for k
    using that assms(4) by (simp add: identity_derive_iff del: stn_identity_derive.simps)
  have eligible: "stn_contract_vote_eligible (Some bs) (Some actor) = STN_CONTRACT_OK \<longleftrightarrow>
      stn_identity_derive (Some actor) = Inr actor \<and> actor \<in> set (approvers d)"
    unfolding vote_eligible_iff [OF assms(2,4)] using derive by blast
  have seen: "addr_id a @ actor \<in> set (accepted (vote_keys s)) \<longleftrightarrow> actor \<in> set vs"
    using inv by auto
  have count: "consumed_count (vote_keys s) = length vs" "length vs \<le> capacity"
    using vote_inv_count [OF assms(1)] inv by (auto simp: buffer_wf_def buffer_valid_def)
  have pre: "buffer_valid (vote_keys s)" "eligible_count s \<noteq> 0" "required_count s = eligible_count s div 2 + 1"
      "vote_contract_id s = addr_id a" "consumed_capacity (vote_keys s) = capacity"
    using inv by (simp_all add: buffer_wf_valid)
  have majority: "required_count s \<le> Suc (length vs) \<longleftrightarrow> length (approvers d) < 2 * Suc (length vs)"
    using inv by presburger
  have more: "vote_inv d a capacity (s\<lparr>vote_keys := store_key (vote_keys s) (addr_id a @ actor)\<rparr>) (vs @ [actor])"
    if "stn_identity_derive (Some actor) = Inr actor" "actor \<in> set (approvers d)" "actor \<notin> set vs" "length vs < capacity"
    using inv that count by (auto simp: vote_inv_def accepted_store buffer_wf_store simp del: stn_identity_derive.simps)
  show ?thesis
  proof (cases "stn_identity_derive (Some actor) = Inr actor \<and> actor \<in> set (approvers d)")
    case False
    with eligible pre show ?thesis
      by (auto simp: stn_contract_vote_accept_def Let_def view simp del: stn_identity_derive.simps)
  next
    case True
    then have call: "stn_contract_vote_accept sha s (Some bs) (Some actor) =
        (if actor \<in> set vs then (Inl STN_CONTRACT_DUPLICATE_APPROVAL, s)
         else if length vs = capacity then (Inl STN_CONTRACT_CAPACITY, s)
         else (Inr (length (approvers d) < 2 * Suc (length vs)),
           s\<lparr>vote_keys := store_key (vote_keys s) (addr_id a @ actor)\<rparr>))"
      using eligible pre seen count majority
      by (simp add: stn_contract_vote_accept_def Let_def view del: stn_identity_derive.simps)
    show ?thesis unfolding call using True more count by (auto simp del: stn_identity_derive.simps)
  qed
qed


text \<open>
  A sequence of vote submissions on one contract: accepted ones move the contract and the vote state,
  refused ones leave what the call left. The list holds the accepted voters, in order.
\<close>

inductive vote_run ::
  "stn_hash_fn \<Rightarrow> bytes \<Rightarrow> stn_contract \<Rightarrow> stn_contract_vote_state \<Rightarrow> bytes list \<Rightarrow> stn_contract \<Rightarrow>
   stn_contract_vote_state \<Rightarrow> bool" for sha bs c s where
  vote_start: "vote_run sha bs c s [] c s"
| vote_taken: "vote_run sha bs c s vs d t \<Longrightarrow> length actor = 32 \<Longrightarrow>
    stn_contract_vote_apply sha (Some d) q (Some bs) (Some actor) t = (Inr e, u) \<Longrightarrow>
    vote_run sha bs c s (vs @ [actor]) e u"
| vote_refused: "vote_run sha bs c s vs d t \<Longrightarrow> length actor = 32 \<Longrightarrow>
    stn_contract_vote_apply sha (Some d) q (Some bs) (Some actor) t = (Inl r, u) \<Longrightarrow>
    vote_run sha bs c s vs d u"

text \<open>One submission: an accepted vote in the right state, at the next sequence; else no change.\<close>

lemma vote_apply_exact:
  assumes "vote_inv d a capacity s vs" "draft_view (Some bs) = Inr d" "stn_contract_address sha (Some bs) = Inr a"
    "length actor = 32"
  shows "if ct_state c \<in> {STN_CONTRACT_STATE_REVIEW, STN_CONTRACT_STATE_APPROVALS} \<and>
      ct_sequence c \<noteq> UINT64_LAST \<and> q = ct_sequence c + 1 \<and>
      stn_identity_derive (Some actor) = Inr actor \<and> actor \<in> set (approvers d) \<and> actor \<notin> set vs \<and>
      length vs < capacity
    then \<exists>t. stn_contract_vote_apply sha (Some c) q (Some bs) (Some actor) s =
        (Inr (c\<lparr>ct_sequence := q, ct_state := (if length (approvers d) < 2 * Suc (length vs)
          then STN_CONTRACT_STATE_ATTESTATION else STN_CONTRACT_STATE_APPROVALS)\<rparr>), t) \<and>
        vote_inv d a capacity t (vs @ [actor])
    else \<exists>r. stn_contract_vote_apply sha (Some c) q (Some bs) (Some actor) s = (Inl r, s)"
  using vote_accept_exact [OF assms]
  by (auto simp: stn_contract_vote_apply_def simp del: stn_identity_derive.simps split: if_splits)

lemma vote_initialize_inv:
  assumes "stn_contract_vote_state_initialize sha (Some bs) (Some buf) capacity = Inr s" "length buf = capacity"
  obtains d a where "draft_view (Some bs) = Inr d" "stn_contract_address sha (Some bs) = Inr a"
    "distinct (approvers d)" "vote_inv d a capacity s []"
proof -
  from assms(1) obtain d a where "draft_view (Some bs) = Inr d" "stn_contract_address sha (Some bs) = Inr a"
      "distinct (approvers d)" "approvers d \<noteq> []"
      "s = \<lparr>vote_contract_id = addr_id a, vote_keys = key_buffer_initialize (Some buf) capacity,
         eligible_count = length (approvers d), required_count = length (approvers d) div 2 + 1\<rparr>"
    using vote_initialize_iff [of capacity "Some buf"] by auto
  moreover from this have "vote_inv d a capacity s []"
    using assms(2) buffer_wf_initialize [OF assms(2)] by (simp add: vote_inv_def key_buffer_initialize_def accepted_def)
  ultimately show thesis using that by blast
qed

definition voting_state :: "nat \<Rightarrow> nat \<Rightarrow> u16" where
  "voting_state n v =
     (if v = 0 then STN_CONTRACT_STATE_REVIEW
      else if n < 2 * v then STN_CONTRACT_STATE_ATTESTATION else STN_CONTRACT_STATE_APPROVALS)"

lemma vote_run_invariant:
  assumes "vote_run sha bs c s vs e t" "draft_view (Some bs) = Inr d" "stn_contract_address sha (Some bs) = Inr a"
    "vote_inv d a capacity s []" "ct_state c = STN_CONTRACT_STATE_REVIEW"
  shows "vote_inv d a capacity t vs \<and> unat (ct_sequence e) = unat (ct_sequence c) + length vs \<and>
    ct_state e = voting_state (length (approvers d)) (length vs) \<and>
    2 * (length vs - 1) \<le> length (approvers d)"
  using assms(1)
proof (induction rule: vote_run.induct)
  case vote_start
  then show ?case using assms(4,5) by (simp add: voting_state_def)
next
  case (vote_taken vs e t actor q f u)
  note exact = vote_apply_exact [OF conjunct1 [OF vote_taken.IH] assms(2,3) vote_taken.hyps(2), of e q]
  have guard: "ct_state e \<in> {STN_CONTRACT_STATE_REVIEW, STN_CONTRACT_STATE_APPROVALS}"
      "ct_sequence e \<noteq> UINT64_LAST" "q = ct_sequence e + 1"
    and f: "f = e\<lparr>ct_sequence := q, ct_state := (if length (approvers d) < 2 * Suc (length vs)
          then STN_CONTRACT_STATE_ATTESTATION else STN_CONTRACT_STATE_APPROVALS)\<rparr>"
      "vote_inv d a capacity u (vs @ [actor])"
    using exact vote_taken.hyps(3) by (auto split: if_splits)
  have "\<not> (vs \<noteq> [] \<and> length (approvers d) < 2 * length vs)"
    using guard(1) vote_taken.IH by (auto simp: voting_state_def)
  then have "2 * length vs \<le> length (approvers d)" by (cases vs) auto
  moreover have "unat (ct_sequence f) = unat (ct_sequence c) + length (vs @ [actor])"
    using unat_next [OF guard(2)] vote_taken.IH guard(3) f(1) by simp
  ultimately show ?case using f by (simp add: voting_state_def)
next
  case (vote_refused vs e t actor q r u)
  have "u = t"
    using vote_apply_exact [OF conjunct1 [OF vote_refused.IH] assms(2,3) vote_refused.hyps(2), of e q] vote_refused.hyps(3)
    by (auto split: if_splits)
  with vote_refused.IH show ?case by simp
qed

text \<open>
  C32. Approval is the strict majority of the draft's approvers. From a fresh vote state and a contract
  in REVIEW, after any sequence of submissions, accepted or refused, the accepted voters are distinct
  approvers of the immutable draft, each a canonical identity; the sequence advanced once per accepted
  vote; and the contract is in ATTESTATION exactly when more than half of the approvers have voted,
  no vote being accepted after that one.
\<close>

theorem contract_vote_majority:
  assumes "stn_contract_vote_state_initialize sha (Some bs) (Some buf) capacity = Inr s" "length buf = capacity"
    "ct_state c = STN_CONTRACT_STATE_REVIEW" "vote_run sha bs c s vs e t"
  shows "\<exists>d. stn_contract_decode (Some bs) = Inr d \<and> distinct (approvers d) \<and> distinct vs \<and>
    (\<forall>v \<in> set vs. v \<in> set (approvers d) \<and> stn_identity_derive (Some v) = Inr v) \<and>
    unat (ct_sequence e) = unat (ct_sequence c) + length vs \<and>
    ct_state e = (if vs = [] then STN_CONTRACT_STATE_REVIEW
      else if length (approvers d) < 2 * length vs then STN_CONTRACT_STATE_ATTESTATION
      else STN_CONTRACT_STATE_APPROVALS) \<and>
    2 * (length vs - 1) \<le> length (approvers d)"
proof -
  from vote_initialize_inv [OF assms(1,2)] obtain d a where d: "draft_view (Some bs) = Inr d"
      "stn_contract_address sha (Some bs) = Inr a" "distinct (approvers d)" "vote_inv d a capacity s []" .
  from vote_run_invariant [OF assms(4) d(1,2,4) assms(3)] d(1,3) show ?thesis
    by (intro exI [of _ d])
       (auto simp: vote_inv_def voting_state_def draft_view_iff simp del: stn_identity_derive.simps)
qed

text \<open>
  The threshold counts approvers that can never vote. A draft is admitted with any 32 bytes as an
  approver's identity, but a vote needs a canonical public key: when at most half of the listed
  approvers are canonical identities, no sequence of votes brings the contract to ATTESTATION.
\<close>

theorem contract_vote_unreachable:
  assumes "stn_contract_vote_state_initialize sha (Some bs) (Some buf) capacity = Inr s" "length buf = capacity"
    "ct_state c = STN_CONTRACT_STATE_REVIEW" "stn_contract_decode (Some bs) = Inr d"
    "2 * card {k \<in> set (approvers d). stn_identity_derive (Some k) = Inr k} \<le> length (approvers d)"
    "vote_run sha bs c s vs e t"
  shows "ct_state e \<noteq> STN_CONTRACT_STATE_ATTESTATION"
proof -
  from vote_initialize_inv [OF assms(1,2)] obtain d' a where d': "draft_view (Some bs) = Inr d'"
      "stn_contract_address sha (Some bs) = Inr a" "vote_inv d' a capacity s []" .
  then have "d' = d" using assms(4) by (simp add: draft_view_iff)
  with d' have run: "vote_inv d a capacity t vs" "ct_state e = voting_state (length (approvers d)) (length vs)"
    using vote_run_invariant [OF assms(6) d' assms(3)] by auto
  have "set vs \<subseteq> {k \<in> set (approvers d). stn_identity_derive (Some k) = Inr k}" "distinct vs"
    using run(1) by (auto simp: vote_inv_def simp del: stn_identity_derive.simps)
  then have "length vs \<le> card {k \<in> set (approvers d). stn_identity_derive (Some k) = Inr k}"
    using card_mono [of "{k \<in> set (approvers d). stn_identity_derive (Some k) = Inr k}" "set vs"]
    by (simp add: distinct_card)
  with assms(5) have "2 * length vs \<le> length (approvers d)" by simp
  then show ?thesis by (simp add: run(2) voting_state_def)
qed


section \<open>A concrete draft\<close>

lemma sample_draft:
  assumes "length k = 32"
  shows "\<exists>bs d. draft_view (Some bs) = Inr d \<and> approvers d = [k] \<and> length bs = 68 \<and>
    stn_contract_address sample_sha (Some bs) = Inr \<lparr>addr_type = STN_ADDRESS_CONTRACT, addr_id = replicate 32 9\<rparr>"
proof -
  let ?c = "sample_contract" and ?p = "\<lparr>part_identity = k, part_role = 4\<rparr>"
  have un: "unpack (unat (ct_participant_count ?c)) (participant_wire ?p) = [?p]"
    using unpack_pack [of "[?p]" "[]"] assms by (simp add: sample_contract_def)
  have ok: "contract_ok ?c" "length (participant_wire ?p) = 34 * unat (ct_participant_count ?c)"
      "length [65, 66 :: 8 word] = unat (ct_terms_length ?c)"
    using assms by (simp_all add: contract_ok_def contract_type_valid_def contract_state_valid_def
        sample_contract_def participant_wire_def)
  let ?bs = "contract_layout ?c (participant_wire ?p) [65, 66]"
  let ?d = "?c\<lparr>ct_participants := None, ct_participant_bytes := Some (participant_wire ?p), ct_terms := Some [65, 66]\<rparr>"
  have dec: "stn_contract_decode (Some ?bs) = Inr ?d"
    using decode_layout [OF ok] un by (simp add: contract_role_valid_def sample_contract_def)
  have len: "length ?bs = 68" using assms by (simp add: participant_wire_def)
  have "approvers ?d = [k]"
    using un by (simp add: approvers_def draft_participants_def packed_participants_def)
  moreover have "draft_view (Some ?bs) = Inr ?d"
    using dec by (simp add: draft_view_iff sample_contract_def)
  moreover have "stn_contract_address sample_sha (Some ?bs) =
      Inr \<lparr>addr_type = STN_ADDRESS_CONTRACT, addr_id = replicate 32 9\<rparr>"
    using dec len by (simp add: stn_contract_address_def stn_contract_validate_structure_def
        stn_address_derive_def sample_sha_def)
  ultimately show ?thesis using len by blast
qed

lemma sample_votes:
  assumes "draft_view (Some bs) = Inr d" "approvers d = [k]"
    "stn_contract_address sample_sha (Some bs) = Inr a"
  shows "stn_contract_vote_state_initialize sample_sha (Some bs) (Some [[]]) 1 =
    Inr \<lparr>vote_contract_id = addr_id a, vote_keys = key_buffer_initialize (Some [[]]) 1,
      eligible_count = 1, required_count = 1\<rparr>"
  using assms by (simp add: vote_initialize_iff)

theorem contract_vote_majority_witness:
  "\<exists>bs s e t. stn_contract_vote_state_initialize sample_sha (Some bs) (Some [[]]) 1 = Inr s \<and>
     vote_run sample_sha bs (sample_contract\<lparr>ct_state := 3\<rparr>) s [2 # replicate 31 0] e t \<and>
     ct_state e = STN_CONTRACT_STATE_ATTESTATION \<and> unat (ct_sequence e) = 1"
proof -
  let ?k = "2 # replicate 31 (0 :: 8 word)" and ?c = "sample_contract\<lparr>ct_state := 3\<rparr>"
  obtain bs d a where d: "draft_view (Some bs) = Inr d" "approvers d = [?k]"
      "stn_contract_address sample_sha (Some bs) = Inr a" using sample_draft [of ?k] by auto
  note init = sample_votes [OF d]
  define s where "s = \<lparr>vote_contract_id = addr_id a, vote_keys = key_buffer_initialize (Some [[]]) 1,
      eligible_count = 1, required_count = 1\<rparr>"
  have i: "stn_contract_vote_state_initialize sample_sha (Some bs) (Some [[]]) 1 = Inr s"
    using init by (simp add: s_def)
  have inv: "vote_inv d a 1 s []"
    using vote_initialize_inv [OF i] d by (simp add: draft_view_iff) (metis Inr_inject)
  have derive: "stn_identity_derive (Some ?k) = Inr ?k" by (simp add: sample_key_canonical)
  from vote_apply_exact [OF inv d(1,3), of ?k ?c 1] obtain e t where step:
      "stn_contract_vote_apply sample_sha (Some ?c) 1 (Some bs) (Some ?k) s = (Inr e, t)"
    using derive d(2) by (auto simp: sample_contract_def UINT64_LAST_def simp del: stn_identity_derive.simps)
  have run: "vote_run sample_sha bs ?c s [?k] e t"
    using vote_run.vote_taken [OF vote_run.vote_start _ step] by simp
  from contract_vote_majority [OF i _ _ run] obtain d' where "stn_contract_decode (Some bs) = Inr d'"
      "unat (ct_sequence e) = unat (ct_sequence ?c) + 1"
      "ct_state e = (if length (approvers d') < 2 then STN_CONTRACT_STATE_ATTESTATION else STN_CONTRACT_STATE_APPROVALS)"
    by auto
  with d have "ct_state e = STN_CONTRACT_STATE_ATTESTATION" "unat (ct_sequence e) = 1"
    by (simp_all add: draft_view_iff sample_contract_def)
  with i run show ?thesis by blast
qed

theorem contract_vote_unreachable_witness:
  "\<exists>bs s d. stn_contract_vote_state_initialize sample_sha (Some bs) (Some [[]]) 1 = Inr s \<and>
     stn_contract_decode (Some bs) = Inr d \<and> approvers d = [replicate 32 0] \<and>
     (\<forall>vs e t. vote_run sample_sha bs (sample_contract\<lparr>ct_state := 3\<rparr>) s vs e t \<longrightarrow>
       ct_state e \<noteq> STN_CONTRACT_STATE_ATTESTATION)"
proof -
  let ?k = "replicate 32 (0 :: 8 word)" and ?c = "sample_contract\<lparr>ct_state := 3\<rparr>"
  obtain bs d a where d: "draft_view (Some bs) = Inr d" "approvers d = [?k]"
      "stn_contract_address sample_sha (Some bs) = Inr a" using sample_draft [of ?k] by auto
  note init = sample_votes [OF d]
  have dec: "stn_contract_decode (Some bs) = Inr d" using d(1) by (simp add: draft_view_iff)
  have "stn_identity_derive (Some ?k) \<noteq> Inr ?k"
    by (simp add: identity_derive_iff nonzero_iff del: stn_identity_derive.simps)
  then have none: "{k \<in> set (approvers d). stn_identity_derive (Some k) = Inr k} = {}"
    using d(2) by (auto simp del: stn_identity_derive.simps)
  have "ct_state e \<noteq> STN_CONTRACT_STATE_ATTESTATION" if
      "vote_run sample_sha bs ?c (\<lparr>vote_contract_id = addr_id a, vote_keys = key_buffer_initialize (Some [[]]) 1,
      eligible_count = 1, required_count = 1\<rparr>) vs e t" for vs e t
    by (rule contract_vote_unreachable [OF init _ _ dec _ that]) (simp, simp, unfold none, simp)
  with init dec d(2) show ?thesis by blast
qed

end
