(* ===== verification/Stn_Contract_Tx.thy ===== *)
theory Stn_Contract_Tx
  imports Stn_Contract_Vote
begin

text \<open>
  The canonical contract action payload, \<^verbatim>\<open>src/src/stn_contract_transaction.c\<close>: a fixed header, the
  canonical contract and, after CREATE, the authority evidence.
\<close>

definition STN_CONTRACT_TX_VERSION :: u16 where [simp]: "STN_CONTRACT_TX_VERSION = 1"
definition STN_CONTRACT_TX_HEADER_SIZE :: nat where [simp]: "STN_CONTRACT_TX_HEADER_SIZE = 116"
definition STN_CONTRACT_TX_MAX_SIZE :: nat where [simp]:
  "STN_CONTRACT_TX_MAX_SIZE =
     STN_CONTRACT_TX_HEADER_SIZE + STN_CONTRACT_MAX_SIZE + STN_AUTHORITY_EVIDENCE_SIZE"

record stn_contract_transaction =
  ctx_version :: u16
  ctx_action :: u16
  ctx_sequence :: u64
  ctx_contract :: "bytes option"
  ctx_contract_length :: u32
  ctx_actor :: bytes
  ctx_signature :: bytes
  ctx_evidence :: "bytes option"
  ctx_evidence_length :: u32

definition action_valid :: "u16 \<Rightarrow> bool" where
  "action_valid action \<longleftrightarrow> STN_CONTRACT_ACTION_CREATE \<le> action \<and> action \<le> STN_CONTRACT_ACTION_CLOSE"

definition authority_length_valid :: "u16 \<Rightarrow> u32 \<Rightarrow> bool" where
  "authority_length_valid action len \<longleftrightarrow>
     (if action = STN_CONTRACT_ACTION_CREATE then len = 0 else unat len = STN_AUTHORITY_EVIDENCE_SIZE)"

definition create_admission_valid :: "stn_hash_fn \<Rightarrow> u16 \<Rightarrow> bytes option \<Rightarrow> stn_contract_status" where
  "create_admission_valid sha action canonical_contract =
     (if action \<noteq> STN_CONTRACT_ACTION_CREATE then STN_CONTRACT_OK
      else
        (case stn_contract_vote_state_initialize sha canonical_contract None 0 of
           Inl status \<Rightarrow> status
         | Inr _ \<Rightarrow> STN_CONTRACT_OK))"

text \<open>The fields at their offsets; the two variable parts are spans of the input.\<close>

definition contract_transaction_view :: "bytes \<Rightarrow> stn_contract_transaction" where
  "contract_transaction_view input =
     (let contract_length = ucast (stn_wire_read (drop 12 input) 4);
          authority_length = ucast (stn_wire_read (drop 16 input) 4);
          rest = drop STN_CONTRACT_TX_HEADER_SIZE input
      in \<lparr>ctx_version = ucast (stn_wire_read input 2),
          ctx_action = ucast (stn_wire_read (drop 2 input) 2),
          ctx_sequence = stn_wire_read (drop 4 input) 8,
          ctx_contract = Some (take (unat contract_length) rest),
          ctx_contract_length = contract_length,
          ctx_actor = take 32 (drop 20 input),
          ctx_signature = take 64 (drop 52 input),
          ctx_evidence =
            (if authority_length = 0 then None
             else Some (take (unat authority_length) (drop (unat contract_length) rest))),
          ctx_evidence_length = authority_length\<rparr>)"

fun stn_contract_transaction_decode ::
  "stn_hash_fn \<Rightarrow> bytes option \<Rightarrow> stn_contract_status + stn_contract_transaction" where
  "stn_contract_transaction_decode sha None = Inl STN_CONTRACT_ARGUMENT"
| "stn_contract_transaction_decode sha (Some input) =
     (if length input < STN_CONTRACT_TX_HEADER_SIZE \<or> length input > STN_CONTRACT_TX_MAX_SIZE
      then Inl STN_CONTRACT_LENGTH
      else
        (let decoded = contract_transaction_view input
         in if ctx_version decoded \<noteq> STN_CONTRACT_TX_VERSION then Inl STN_CONTRACT_VERSION_ERROR
            else if \<not> action_valid (ctx_action decoded) then Inl STN_CONTRACT_ACTION_ERROR
            else if unat (ctx_contract_length decoded) < STN_CONTRACT_HEADER_SIZE \<or>
              unat (ctx_contract_length decoded) > STN_CONTRACT_MAX_SIZE
            then Inl STN_CONTRACT_LENGTH
            else if \<not> authority_length_valid (ctx_action decoded) (ctx_evidence_length decoded)
            then Inl STN_CONTRACT_AUTHORITY_ERROR
            else if STN_CONTRACT_TX_HEADER_SIZE + unat (ctx_contract_length decoded) +
              unat (ctx_evidence_length decoded) \<noteq> length input
            then Inl STN_CONTRACT_LENGTH
            else if stn_contract_validate_structure (ctx_contract decoded) \<noteq> STN_CONTRACT_OK
            then Inl STN_CONTRACT_LENGTH
            else
              (let status = create_admission_valid sha (ctx_action decoded) (ctx_contract decoded)
               in if status \<noteq> STN_CONTRACT_OK then Inl status
                  else if ctx_action decoded \<noteq> STN_CONTRACT_ACTION_CREATE \<and>
                    stn_authority_evidence_validate (ctx_evidence decoded) \<noteq> STN_AUTHORITY_AUTHORIZED
                  then Inl STN_CONTRACT_AUTHORITY_ERROR
                  else Inr decoded)))"

text \<open>The bytes an encode caller passes behind a pointer, up to the length it states.\<close>

definition span_of :: "bytes option \<Rightarrow> u32 \<Rightarrow> bytes option" where
  "span_of p len = map_option (take (unat len)) p"

fun stn_contract_transaction_encode ::
  "stn_hash_fn \<Rightarrow> stn_contract_transaction option \<Rightarrow> nat \<Rightarrow> stn_contract_status + bytes" where
  "stn_contract_transaction_encode sha None capacity = Inl STN_CONTRACT_ARGUMENT"
| "stn_contract_transaction_encode sha (Some t) capacity =
     (if ctx_contract t = None then Inl STN_CONTRACT_ARGUMENT
      else if ctx_version t \<noteq> STN_CONTRACT_TX_VERSION then Inl STN_CONTRACT_VERSION_ERROR
      else if \<not> action_valid (ctx_action t) then Inl STN_CONTRACT_ACTION_ERROR
      else if unat (ctx_contract_length t) < STN_CONTRACT_HEADER_SIZE \<or>
        unat (ctx_contract_length t) > STN_CONTRACT_MAX_SIZE
      then Inl STN_CONTRACT_LENGTH
      else if \<not> authority_length_valid (ctx_action t) (ctx_evidence_length t)
      then Inl STN_CONTRACT_AUTHORITY_ERROR
      else if ctx_evidence_length t \<noteq> 0 \<and> ctx_evidence t = None then Inl STN_CONTRACT_ARGUMENT
      else
        (let contract = span_of (ctx_contract t) (ctx_contract_length t);
             evidence = span_of (ctx_evidence t) (ctx_evidence_length t)
         in if stn_contract_validate_structure contract \<noteq> STN_CONTRACT_OK then Inl STN_CONTRACT_LENGTH
            else
              (let status = create_admission_valid sha (ctx_action t) contract;
                   needed = STN_CONTRACT_TX_HEADER_SIZE + unat (ctx_contract_length t) +
                     unat (ctx_evidence_length t)
               in if status \<noteq> STN_CONTRACT_OK then Inl status
                  else if ctx_action t \<noteq> STN_CONTRACT_ACTION_CREATE \<and>
                    stn_authority_evidence_validate evidence \<noteq> STN_AUTHORITY_AUTHORIZED
                  then Inl STN_CONTRACT_AUTHORITY_ERROR
                  else if capacity < needed then Inl STN_CONTRACT_CAPACITY
                  else Inr
                    (stn_wire_write 2 (ucast (ctx_version t)) @ stn_wire_write 2 (ucast (ctx_action t)) @
                     stn_wire_write 8 (ctx_sequence t) @ stn_wire_write 4 (ucast (ctx_contract_length t)) @
                     stn_wire_write 4 (ucast (ctx_evidence_length t)) @ ctx_actor t @ ctx_signature t @
                     (case contract of None \<Rightarrow> [] | Some c \<Rightarrow> c) @
                     (if ctx_evidence_length t \<noteq> 0 then (case evidence of None \<Rightarrow> [] | Some e \<Rightarrow> e) else [])))))"

definition stn_contract_transaction_validate_structure :: "stn_hash_fn \<Rightarrow> bytes option \<Rightarrow> stn_contract_status" where
  "stn_contract_transaction_validate_structure sha input =
     (case stn_contract_transaction_decode sha input of Inl status \<Rightarrow> status | Inr _ \<Rightarrow> STN_CONTRACT_OK)"

section \<open>The format is canonical\<close>

text \<open>A well-formed payload object: pointers that match their lengths, and fixed-size fields.\<close>

definition wf_ctx :: "stn_contract_transaction \<Rightarrow> bool" where
  "wf_ctx t \<longleftrightarrow> (\<exists>c. ctx_contract t = Some c \<and> length c = unat (ctx_contract_length t)) \<and>
     length (ctx_actor t) = 32 \<and> length (ctx_signature t) = 64 \<and>
     (ctx_evidence t = None \<longleftrightarrow> ctx_evidence_length t = 0) \<and>
     (\<forall>e. ctx_evidence t = Some e \<longrightarrow> length e = unat (ctx_evidence_length t))"

definition ctx_ok :: "stn_hash_fn \<Rightarrow> stn_contract_transaction \<Rightarrow> bool" where
  "ctx_ok sha t \<longleftrightarrow> ctx_version t = 1 \<and> action_valid (ctx_action t) \<and>
     32 \<le> unat (ctx_contract_length t) \<and> unat (ctx_contract_length t) \<le> 66656 \<and>
     authority_length_valid (ctx_action t) (ctx_evidence_length t) \<and>
     stn_contract_validate_structure (ctx_contract t) = STN_CONTRACT_OK \<and>
     create_admission_valid sha (ctx_action t) (ctx_contract t) = STN_CONTRACT_OK \<and>
     (ctx_action t \<noteq> STN_CONTRACT_ACTION_CREATE \<longrightarrow>
       stn_authority_evidence_validate (ctx_evidence t) = STN_AUTHORITY_AUTHORIZED)"

definition ctx_layout :: "stn_contract_transaction \<Rightarrow> bytes" where
  "ctx_layout t =
     stn_wire_write 2 (ucast (ctx_version t)) @ stn_wire_write 2 (ucast (ctx_action t)) @
     stn_wire_write 8 (ctx_sequence t) @ stn_wire_write 4 (ucast (ctx_contract_length t)) @
     stn_wire_write 4 (ucast (ctx_evidence_length t)) @ ctx_actor t @ ctx_signature t @
     the (ctx_contract t) @ (case ctx_evidence t of None \<Rightarrow> [] | Some e \<Rightarrow> e)"

lemma span_of_whole: "(\<And>b. p = Some b \<Longrightarrow> length b = unat n) \<Longrightarrow> span_of p n = p"
  by (cases p) (auto simp: span_of_def)

lemma ctx_encode_iff:
  assumes "wf_ctx t"
  shows "stn_contract_transaction_encode sha (Some t) capacity = Inr bs \<longleftrightarrow>
    ctx_ok sha t \<and> 116 + unat (ctx_contract_length t) + unat (ctx_evidence_length t) \<le> capacity \<and> bs = ctx_layout t"
proof -
  from assms obtain c where c: "ctx_contract t = Some c" by (auto simp: wf_ctx_def)
  have spans: "span_of (ctx_contract t) (ctx_contract_length t) = ctx_contract t"
      "span_of (ctx_evidence t) (ctx_evidence_length t) = ctx_evidence t"
    using assms by (auto simp: wf_ctx_def intro!: span_of_whole)
  show ?thesis
    unfolding stn_contract_transaction_encode.simps spans Let_def ctx_ok_def ctx_layout_def guard_iff
    using assms by (cases "ctx_evidence t") (auto simp: wf_ctx_def c simp del: stn_authority_evidence_validate.simps)
qed

lemma ctx_decode_iff:
  "stn_contract_transaction_decode sha (Some bs) = Inr t \<longleftrightarrow>
     ctx_ok sha t \<and> length bs = 116 + unat (ctx_contract_length t) + unat (ctx_evidence_length t) \<and>
     t = contract_transaction_view bs"
proof -
  define v where "v = contract_transaction_view bs"
  have "unat (ctx_evidence_length t) \<le> 97" if "ctx_ok sha t"
    using that by (auto simp: ctx_ok_def authority_length_valid_def split: if_splits)
  then have "length bs \<le> 66869" if "ctx_ok sha t" "length bs = 116 + unat (ctx_contract_length t) + unat (ctx_evidence_length t)"
    using that by (auto simp: ctx_ok_def)
  then show ?thesis
    unfolding stn_contract_transaction_decode.simps v_def [symmetric] Let_def guard_iff
    by (auto simp: ctx_ok_def simp del: stn_authority_evidence_validate.simps)
qed

declare stn_contract_transaction_decode.simps(2) [simp del] stn_contract_transaction_encode.simps(2) [simp del]


lemma ctx_view_layout:
  assumes "wf_ctx t"
  shows "contract_transaction_view (ctx_layout t) = t"
proof -
  from assms obtain c where c: "ctx_contract t = Some c" "length c = unat (ctx_contract_length t)"
    by (auto simp: wf_ctx_def)
  then show ?thesis
    using assms
    by (cases t; cases "ctx_evidence t") (auto simp: wf_ctx_def contract_transaction_view_def ctx_layout_def Let_def)
qed

lemma ctx_decode_facts:
  assumes "stn_contract_transaction_decode sha (Some bs) = Inr t"
  shows "wf_ctx t" "ctx_layout t = bs"
proof -
  have ok: "length bs = 116 + unat (ctx_contract_length t) + unat (ctx_evidence_length t)"
    and t: "t = contract_transaction_view bs"
    using assms unfolding ctx_decode_iff by blast+
  define n where "n = unat (ctx_contract_length t)"
  define m where "m = unat (ctx_evidence_length t)"
  have f: "ctx_version t = ucast (stn_wire_read bs 2)" "ctx_action t = ucast (stn_wire_read (drop 2 bs) 2)"
    "ctx_sequence t = stn_wire_read (drop 4 bs) 8" "ctx_contract_length t = ucast (stn_wire_read (drop 12 bs) 4)"
    "ctx_evidence_length t = ucast (stn_wire_read (drop 16 bs) 4)"
    "ctx_actor t = take 32 (drop 20 bs)" "ctx_signature t = take 64 (drop 52 bs)"
    and spans: "ctx_contract t = Some (take n (drop 116 bs))"
    "ctx_evidence t = (if m = 0 then None else Some (take m (drop n (drop 116 bs))))"
    unfolding n_def m_def t by (simp_all add: contract_transaction_view_def Let_def unat_gt_0)
  have len: "length bs = 116 + n + m" using ok by (simp add: n_def m_def)
  have m: "m = 0 \<longleftrightarrow> ctx_evidence_length t = 0" by (simp add: m_def word_unat_eq_iff)
  show "wf_ctx t"
    using len m unfolding wf_ctx_def f(6,7) spans n_def [symmetric] m_def [symmetric] by auto
  have "(case ctx_evidence t of None \<Rightarrow> [] | Some e \<Rightarrow> e) = drop (116 + n) bs"
    using len by (auto simp: spans(2) add.commute)
  then show "ctx_layout t = bs"
    unfolding ctx_layout_def spans(1) option.sel f using len by (simp add: slices)
qed

interpretation ctx_codec: codec
  "\<lambda>t. stn_contract_transaction_encode sha (Some t) STN_CONTRACT_TX_MAX_SIZE"
  "\<lambda>bs. stn_contract_transaction_decode sha (Some bs)" wf_ctx for sha
proof
  fix t bs
  assume "wf_ctx t" "stn_contract_transaction_encode sha (Some t) STN_CONTRACT_TX_MAX_SIZE = Inr bs"
  moreover from this have "length bs = 116 + unat (ctx_contract_length t) + unat (ctx_evidence_length t)"
    by (auto simp: ctx_encode_iff ctx_layout_def wf_ctx_def split: option.splits)
  ultimately show "stn_contract_transaction_decode sha (Some bs) = Inr t"
    by (auto simp: ctx_encode_iff ctx_decode_iff ctx_view_layout)
next
  fix t bs
  assume dec: "stn_contract_transaction_decode sha (Some bs) = Inr t"
  then have ok: "ctx_ok sha t" unfolding ctx_decode_iff by blast
  then have "unat (ctx_evidence_length t) \<le> 97"
    by (auto simp: ctx_ok_def authority_length_valid_def split: if_splits)
  with ok ctx_decode_facts [OF dec]
  show "stn_contract_transaction_encode sha (Some t) STN_CONTRACT_TX_MAX_SIZE = Inr bs"
    by (auto simp: ctx_encode_iff ctx_ok_def)
qed (rule ctx_decode_facts)

text \<open>
  The contract action payload is canonical, and CREATE is admitted only with a draft that consensus
  can start: bytes are accepted exactly when they are the encoding of the payload they decode to; the
  embedded contract is structurally valid; a CREATE carries no authority evidence and a DRAFT at
  sequence 0 with at least one approver and none twice; any other action carries 97 bytes of
  well-formed evidence.
\<close>

theorem contract_transaction_canonical:
  "stn_contract_transaction_decode sha (Some bs) = Inr t \<longleftrightarrow>
     wf_ctx t \<and> stn_contract_transaction_encode sha (Some t) STN_CONTRACT_TX_MAX_SIZE = Inr bs \<and>
     (\<exists>c d. ctx_contract t = Some c \<and> stn_contract_decode (Some c) = Inr d \<and>
       (if ctx_action t = STN_CONTRACT_ACTION_CREATE
        then ctx_evidence t = None \<and> ct_state d = STN_CONTRACT_STATE_DRAFT \<and> ct_sequence d = 0 \<and>
          approvers d \<noteq> [] \<and> distinct (approvers d)
        else \<exists>e. ctx_evidence t = Some e \<and> length e = 97 \<and>
          stn_authority_evidence_validate (Some e) = STN_AUTHORITY_AUTHORIZED))" (is "?dec \<longleftrightarrow> _ \<and> _ \<and> ?content")
proof -
  have "?content" if dec: ?dec
  proof -
    have ok: "ctx_ok sha t" using dec unfolding ctx_decode_iff by blast
    from ctx_decode_facts(1) [OF dec] obtain c where c: "ctx_contract t = Some c" by (auto simp: wf_ctx_def)
    from ok c obtain d where d: "stn_contract_decode (Some c) = Inr d"
      by (cases "stn_contract_decode (Some c)")
         (auto simp: ctx_ok_def stn_contract_validate_structure_def contract_decode_status)
    show ?content
    proof (cases "ctx_action t = STN_CONTRACT_ACTION_CREATE")
      case True
      with ok c obtain s where "stn_contract_vote_state_initialize sha (Some c) None 0 = Inr s"
        by (cases "stn_contract_vote_state_initialize sha (Some c) None 0")
           (auto simp: ctx_ok_def create_admission_valid_def vote_initialize_status)
      then have "ct_state d = STN_CONTRACT_STATE_DRAFT \<and> ct_sequence d = 0 \<and> approvers d \<noteq> [] \<and> distinct (approvers d)"
        using d by (auto simp: vote_initialize_iff draft_view_iff)
      moreover have "ctx_evidence t = None"
        using True ok ctx_decode_facts(1) [OF dec] by (simp add: ctx_ok_def authority_length_valid_def wf_ctx_def)
      ultimately show ?thesis using True c d by (intro exI [of _ c] exI [of _ d]) simp
    next
      case False
      then have v: "stn_authority_evidence_validate (ctx_evidence t) = STN_AUTHORITY_AUTHORIZED"
          "unat (ctx_evidence_length t) = 97"
        using ok by (simp_all add: ctx_ok_def authority_length_valid_def del: stn_authority_evidence_validate.simps)
      then obtain e where "ctx_evidence t = Some e" by (cases "ctx_evidence t") auto
      with v False c d ctx_decode_facts(1) [OF dec] show ?thesis
        by (auto simp: wf_ctx_def simp del: stn_authority_evidence_validate.simps)
    qed
  qed
  then show ?thesis using ctx_codec.dec_iff [of sha bs t] by blast
qed

end
