(* ===== verification/Stn_Transaction.thy ===== *)
theory Stn_Transaction
  imports Stn_Contract_Tx Stn_Share Stn_Envelope Stn_Issuance Stn_Block_Compensation Stn_Block_Header
begin

text \<open>
  The transaction envelope, \<^verbatim>\<open>src/src/stn_transaction.c\<close>: a header with version, type and record
  length, and one record of one of the ten transaction types, checked by the codec of its type.
\<close>

section \<open>Data\<close>

definition STN_TX_AUTHORITY_GRANT_SIZE :: nat where [simp]: "STN_TX_AUTHORITY_GRANT_SIZE = 194"
definition STN_TX_AUTHORITY_REVOKE_SIZE :: nat where [simp]: "STN_TX_AUTHORITY_REVOKE_SIZE = 129"
definition STN_TX_PUBLICATION :: u16 where [simp]: "STN_TX_PUBLICATION = 1"
definition STN_TX_AUTHORITY_GRANT :: u16 where [simp]: "STN_TX_AUTHORITY_GRANT = 2"
definition STN_TX_AUTHORITY_REVOKE :: u16 where [simp]: "STN_TX_AUTHORITY_REVOKE = 3"
definition STN_TX_IDENTITY_ROTATE :: u16 where [simp]: "STN_TX_IDENTITY_ROTATE = 4"
definition STN_TX_CONTRACT_ACTION :: u16 where [simp]: "STN_TX_CONTRACT_ACTION = 5"
definition STN_TX_SHARE_EVIDENCE :: u16 where [simp]: "STN_TX_SHARE_EVIDENCE = 6"
definition STN_TX_COMPENSATION_DESTINATION :: u16 where [simp]: "STN_TX_COMPENSATION_DESTINATION = 7"
definition STN_TX_ISSUANCE :: u16 where [simp]: "STN_TX_ISSUANCE = 8"
definition STN_TX_TRANSFER :: u16 where [simp]: "STN_TX_TRANSFER = 9"
definition STN_TX_BLOCK_COMPENSATION_EVIDENCE :: u16 where [simp]: "STN_TX_BLOCK_COMPENSATION_EVIDENCE = 10"

record stn_transaction =
  txn_version :: u16
  txn_type :: u16
  txn_record_bytes :: "bytes option"
  txn_record_length :: u32

definition transaction_magic :: bytes where "transaction_magic = [0x53, 0x54, 0x4e, 0x54]"

lemma length_transaction_magic [simp, lengths]: "length transaction_magic = 4"
  by (simp add: transaction_magic_def)

section \<open>Record contents\<close>

definition lifecycle_size :: "u16 \<Rightarrow> nat" where
  "lifecycle_size type =
     (if type = STN_TX_AUTHORITY_GRANT then STN_TX_AUTHORITY_GRANT_SIZE
      else if type = STN_TX_AUTHORITY_REVOKE \<or> type = STN_TX_IDENTITY_ROTATE then STN_TX_AUTHORITY_REVOKE_SIZE
      else 0)"

definition block_compensation_structure :: "bytes option \<Rightarrow> stn_data_status" where
  "block_compensation_structure input =
     (case input of
        None \<Rightarrow> STN_DATA_ARGUMENT
      | Some bs \<Rightarrow>
          if length bs \<noteq> STN_BLOCK_COMPENSATION_CANONICAL_SIZE then STN_DATA_LENGTH
          else if bs ! 0 \<noteq> STN_BLOCK_COMPENSATION_VERSION then STN_DATA_VERSION
          else if \<not> nonzero (take 32 (drop 1 bs)) then STN_DATA_CONTENT
          else if \<not> nonzero (take 32 (drop 33 bs)) then STN_DATA_CONTENT
          else STN_DATA_OK)"

text \<open>The chain of checks by type, in the decoder and again in the encoder.\<close>

definition transaction_content :: "stn_hash_fn \<Rightarrow> u16 \<Rightarrow> bytes \<Rightarrow> stn_data_status" where
  "transaction_content sha type payload =
     (if type = STN_TX_PUBLICATION then
        (case stn_record_decode (Some payload) of Inl _ \<Rightarrow> STN_DATA_CONTENT | Inr _ \<Rightarrow> STN_DATA_OK)
      else if type = STN_TX_CONTRACT_ACTION then
        (if stn_contract_transaction_validate_structure sha (Some payload) \<noteq> STN_CONTRACT_OK
         then STN_DATA_CONTENT else STN_DATA_OK)
      else if type = STN_TX_SHARE_EVIDENCE then
        (if length payload \<noteq> 73 \<and> data_status (stn_share_decode (Some payload)) \<noteq> STN_DATA_OK
         then STN_DATA_CONTENT else STN_DATA_OK)
      else if type = STN_TX_COMPENSATION_DESTINATION then
        (if data_status (stn_compensation_destination_decode (Some payload)) \<noteq> STN_DATA_OK
         then STN_DATA_CONTENT else STN_DATA_OK)
      else if type = STN_TX_ISSUANCE then
        (if data_status (stn_issuance_decode (Some payload)) \<noteq> STN_DATA_OK
         then STN_DATA_CONTENT else STN_DATA_OK)
      else if type = STN_TX_TRANSFER then
        (if data_status (stn_transfer_envelope_decode (Some payload)) \<noteq> STN_DATA_OK
         then STN_DATA_CONTENT else STN_DATA_OK)
      else if type = STN_TX_BLOCK_COMPENSATION_EVIDENCE then
        (if block_compensation_structure (Some payload) \<noteq> STN_DATA_OK
         then STN_DATA_CONTENT else STN_DATA_OK)
      else if length payload \<noteq> lifecycle_size type then STN_DATA_LENGTH
      else STN_DATA_OK)"

section \<open>The codec\<close>

fun stn_transaction_decode :: "stn_hash_fn \<Rightarrow> bytes option \<Rightarrow> stn_transaction data_result" where
  "stn_transaction_decode sha None = Inl STN_DATA_ARGUMENT"
| "stn_transaction_decode sha (Some bs) =
     (if length bs < STN_TX_HEADER_SIZE \<or> length bs > STN_TX_MAX_SIZE then Inl STN_DATA_LENGTH
      else if take 4 bs \<noteq> transaction_magic then Inl STN_DATA_MAGIC
      else
        (let version = ucast (stn_wire_read (drop 4 bs) 2) :: u16;
             type = ucast (stn_wire_read (drop 6 bs) 2) :: u16;
             record_length = ucast (stn_wire_read (drop 8 bs) 4) :: u32
         in if version \<noteq> 1 then Inl STN_DATA_VERSION
            else if type < STN_TX_PUBLICATION \<or> type > STN_TX_BLOCK_COMPENSATION_EVIDENCE
            then Inl STN_DATA_TYPE
            else if unat record_length \<noteq> length bs - STN_TX_HEADER_SIZE then Inl STN_DATA_LENGTH
            else
              (let payload = drop STN_TX_HEADER_SIZE bs;
                   status = transaction_content sha type payload
               in if status \<noteq> STN_DATA_OK then Inl status
                  else Inr \<lparr>txn_version = version, txn_type = type,
                    txn_record_bytes = Some payload, txn_record_length = record_length\<rparr>)))"

definition stn_transaction_validate_structure :: "stn_hash_fn \<Rightarrow> bytes option \<Rightarrow> stn_data_status" where
  "stn_transaction_validate_structure sha bs = data_status (stn_transaction_decode sha bs)"

definition typed_content :: "u16 \<Rightarrow> bool" where
  "typed_content type \<longleftrightarrow> type \<in> {STN_TX_PUBLICATION, STN_TX_CONTRACT_ACTION, STN_TX_SHARE_EVIDENCE,
     STN_TX_COMPENSATION_DESTINATION, STN_TX_ISSUANCE, STN_TX_TRANSFER, STN_TX_BLOCK_COMPENSATION_EVIDENCE}"

fun stn_transaction_encode :: "stn_hash_fn \<Rightarrow> stn_transaction option \<Rightarrow> nat \<Rightarrow> bytes data_result" where
  "stn_transaction_encode sha None capacity = Inl STN_DATA_ARGUMENT"
| "stn_transaction_encode sha (Some tx) capacity =
     (case txn_record_bytes tx of
        None \<Rightarrow> Inl STN_DATA_ARGUMENT
      | Some source \<Rightarrow>
          (let len = unat (txn_record_length tx);
               payload = take len source
           in if txn_version tx \<noteq> 1 then Inl STN_DATA_VERSION
              else if txn_type tx < STN_TX_PUBLICATION \<or> txn_type tx > STN_TX_BLOCK_COMPENSATION_EVIDENCE
              then Inl STN_DATA_TYPE
              else if txn_type tx = STN_TX_PUBLICATION \<and> (len < STN_RECORD_OVERHEAD \<or> len > STN_RECORD_MAX_SIZE)
              then Inl STN_DATA_LENGTH
              else if \<not> typed_content (txn_type tx) \<and> len \<noteq> lifecycle_size (txn_type tx)
              then Inl STN_DATA_LENGTH
              else if txn_type tx = STN_TX_CONTRACT_ACTION \<and> len > STN_TX_CONTRACT_ACTION_MAX_SIZE
              then Inl STN_DATA_CONTENT
              else if transaction_content sha (txn_type tx) payload \<noteq> STN_DATA_OK
              then Inl (transaction_content sha (txn_type tx) payload)
              else if capacity < STN_TX_HEADER_SIZE + len then Inl STN_DATA_CAPACITY
              else Inr (transaction_magic @ stn_wire_write 2 (ucast (txn_version tx)) @
                stn_wire_write 2 (ucast (txn_type tx)) @ stn_wire_write 4 (ucast (txn_record_length tx)) @
                payload)))"

definition stn_transaction_id ::
  "stn_hash_fn \<Rightarrow> bytes option \<Rightarrow> stn_hash_provider \<Rightarrow> bytes data_result" where
  "stn_transaction_id sha input provider =
     (if stn_transaction_validate_structure sha input \<noteq> STN_DATA_OK
      then Inl (stn_transaction_validate_structure sha input)
      else
        (case (provider, input) of
           (Some hash, Some bs) \<Rightarrow>
             (case hash (cstring ''STN-CHAIN:TX:ID:1'') bs of
                Inr digest \<Rightarrow> Inr digest
              | Inl status \<Rightarrow> Inl (provider_status status))
         | _ \<Rightarrow> Inl STN_DATA_UNRESOLVED))"


section \<open>The format is canonical\<close>

definition wf_tx :: "stn_transaction \<Rightarrow> bool" where
  "wf_tx t \<longleftrightarrow> (\<exists>p. txn_record_bytes t = Some p \<and> length p = unat (txn_record_length t))"

definition known_type :: "u16 \<Rightarrow> bool" where
  "known_type type \<longleftrightarrow> STN_TX_PUBLICATION \<le> type \<and> type \<le> STN_TX_BLOCK_COMPENSATION_EVIDENCE"

lemma known_type_guard: "known_type type \<longleftrightarrow> \<not> (type < STN_TX_PUBLICATION \<or> type > STN_TX_BLOCK_COMPENSATION_EVIDENCE)"
  by (simp add: known_type_def not_less del: STN_TX_PUBLICATION_def)

lemma known_type_cases:
  assumes "known_type type"
  obtains "type = 1" | "type = 2" | "type = 3" | "type = 4" | "type = 5" | "type = 6" | "type = 7" | "type = 8"
    | "type = 9" | "type = 10"
proof -
  have "unat type \<in> {1..10}" using assms by (simp add: known_type_def word_le_nat_alt)
  then have "unat type \<in> {1, 2, 3, 4, 5, 6, 7, 8, 9, 10}" by (simp; arith)
  then show thesis using that by (auto simp: word_unat_eq_iff)
qed


text \<open>A decoder's refusal is never the success status, so the status tests of the chain test for a value.\<close>

lemma decode_statuses:
  "data_status (stn_share_decode (Some bs)) = STN_DATA_OK \<longleftrightarrow> (\<exists>r. stn_share_decode (Some bs) = Inr r)"
  "data_status (stn_compensation_destination_decode (Some bs)) = STN_DATA_OK \<longleftrightarrow>
     (\<exists>r. stn_compensation_destination_decode (Some bs) = Inr r)"
  "data_status (stn_issuance_decode (Some bs)) = STN_DATA_OK \<longleftrightarrow> (\<exists>r. stn_issuance_decode (Some bs) = Inr r)"
  "data_status (stn_transfer_envelope_decode (Some bs)) = STN_DATA_OK \<longleftrightarrow>
     (\<exists>r. stn_transfer_envelope_decode (Some bs) = Inr r)"
  by (auto simp: stn_share_decode.simps(2) stn_compensation_destination_decode.simps(2)
      stn_issuance_decode.simps(2) stn_transfer_envelope_decode.simps(2) Let_def split: sum.splits)

lemma ctx_structure_iff:
  "stn_contract_transaction_validate_structure sha (Some p) = STN_CONTRACT_OK \<longleftrightarrow>
     (\<exists>t. stn_contract_transaction_decode sha (Some p) = Inr t)"
proof -
  have "stn_contract_transaction_decode sha (Some p) \<noteq> Inl STN_CONTRACT_OK"
    by (auto simp: stn_contract_transaction_decode.simps(2) Let_def)
  then show ?thesis
    by (auto simp: stn_contract_transaction_validate_structure_def split: sum.splits)
qed

lemma block_compensation_structure_iff:
  "block_compensation_structure (Some bs) = STN_DATA_OK \<longleftrightarrow> length bs = 65 \<and>
     bs ! 0 = STN_BLOCK_COMPENSATION_VERSION \<and> nonzero (take 32 (drop 1 bs)) \<and> nonzero (take 32 (drop 33 bs))"
  by (simp add: block_compensation_structure_def)

text \<open>Every accepted record has between 65 and 66,869 bytes, so no transaction is below the minimum size.\<close>

lemma content_length:
  assumes "transaction_content sha type p = STN_DATA_OK" "known_type type"
  shows "65 \<le> length p" "length p \<le> 66869"
    "type = STN_TX_PUBLICATION \<Longrightarrow> 180 \<le> length p \<and> length p \<le> 65716"
    "\<not> typed_content type \<Longrightarrow> length p = lifecycle_size type"
proof -
  have pub: "180 \<le> length p \<and> length p \<le> 65716" if "type = 1"
  proof -
    from that assms(1) obtain r where "stn_record_decode (Some p) = Inr r"
      by (auto simp: transaction_content_def simp del: stn_record_decode.simps split: sum.splits)
    from record_decode_facts(1,2) [OF this] show ?thesis
      by simp
  qed
  have con: "116 \<le> length p \<and> length p \<le> 66869" if "type = 5"
  proof -
    from that assms(1) obtain t where t: "stn_contract_transaction_decode sha (Some p) = Inr t"
      by (auto simp: transaction_content_def ctx_structure_iff split: if_splits)
    then show ?thesis by (auto simp: stn_contract_transaction_decode.simps(2) Let_def split: if_splits)
  qed
  have rest: "length p \<in> {73, 273, 65, 106, 202, 194, 129}" if "type \<noteq> 1" "type \<noteq> 5"
    using assms(2)
    by (rule known_type_cases; use assms(1) that in \<open>auto simp: transaction_content_def lifecycle_size_def
        decode_statuses share_decode_iff destination_decode_iff issuance_decode_iff envelope_decode_iff
        block_compensation_structure_iff split: if_splits\<close>)
  show "65 \<le> length p" "length p \<le> 66869"
    using pub con rest by fastforce+
  show "type = STN_TX_PUBLICATION \<Longrightarrow> 180 \<le> length p \<and> length p \<le> 65716" using pub by simp
  show "length p = lifecycle_size type" if "\<not> typed_content type"
    using that assms(1) by (auto simp: transaction_content_def typed_content_def split: if_splits)
qed


definition tx_ok :: "stn_hash_fn \<Rightarrow> stn_transaction \<Rightarrow> bool" where
  "tx_ok sha t \<longleftrightarrow> txn_version t = 1 \<and> known_type (txn_type t) \<and>
     transaction_content sha (txn_type t) (the (txn_record_bytes t)) = STN_DATA_OK"

definition tx_layout :: "stn_transaction \<Rightarrow> bytes" where
  "tx_layout t = transaction_magic @ stn_wire_write 2 (ucast (txn_version t)) @
     stn_wire_write 2 (ucast (txn_type t)) @ stn_wire_write 4 (ucast (txn_record_length t)) @
     the (txn_record_bytes t)"

lemma tx_encode_iff:
  assumes "wf_tx t"
  shows "stn_transaction_encode sha (Some t) capacity = Inr bs \<longleftrightarrow>
    tx_ok sha t \<and> 12 + unat (txn_record_length t) \<le> capacity \<and> bs = tx_layout t"
proof -
  from assms obtain p where p: "txn_record_bytes t = Some p" "length p = unat (txn_record_length t)"
    by (auto simp: wf_tx_def)
  have bounds: "(txn_type t = STN_TX_PUBLICATION \<longrightarrow> 180 \<le> length p \<and> length p \<le> 65716) \<and>
      (\<not> typed_content (txn_type t) \<longrightarrow> length p = lifecycle_size (txn_type t)) \<and> length p \<le> 66869"
    if "tx_ok sha t"
    using content_length [of sha "txn_type t" p] that p by (auto simp: tx_ok_def)
  show ?thesis
    unfolding stn_transaction_encode.simps p(1) option.case Let_def p(2) [symmetric] guard_iff tx_layout_def
    using bounds by (auto simp: tx_ok_def known_type_guard p(1))
qed

lemma tx_decode_iff:
  "stn_transaction_decode sha (Some bs) = Inr t \<longleftrightarrow>
     12 \<le> length bs \<and> take 4 bs = transaction_magic \<and> tx_ok sha t \<and>
     t = \<lparr>txn_version = ucast (stn_wire_read (drop 4 bs) 2), txn_type = ucast (stn_wire_read (drop 6 bs) 2),
       txn_record_bytes = Some (drop 12 bs), txn_record_length = ucast (stn_wire_read (drop 8 bs) 4)\<rparr> \<and>
     unat (txn_record_length t) = length bs - 12"
proof -
  have "length (drop 12 bs) \<le> 66869" if "tx_ok sha t" "txn_record_bytes t = Some (drop 12 bs)"
    using content_length(2) [of sha "txn_type t" "drop 12 bs"] that by (auto simp: tx_ok_def)
  then show ?thesis
    unfolding stn_transaction_decode.simps Let_def guard_iff
    by (auto simp: tx_ok_def known_type_guard)
qed

declare stn_transaction_decode.simps(2) [simp del] stn_transaction_encode.simps(2) [simp del]

interpretation tx_codec: codec
  "\<lambda>t. stn_transaction_encode sha (Some t) STN_TX_MAX_SIZE" "\<lambda>bs. stn_transaction_decode sha (Some bs)" wf_tx for sha
proof
  fix t bs
  assume "wf_tx t" "stn_transaction_encode sha (Some t) STN_TX_MAX_SIZE = Inr bs"
  then show "stn_transaction_decode sha (Some bs) = Inr t"
    by (cases t) (auto simp: tx_encode_iff tx_decode_iff wf_tx_def tx_layout_def)
next
  fix t bs
  assume dec: "stn_transaction_decode sha (Some bs) = Inr t"
  have f: "12 \<le> length bs" "take 4 bs = transaction_magic" "tx_ok sha t"
      "txn_version t = ucast (stn_wire_read (drop 4 bs) 2)" "txn_type t = ucast (stn_wire_read (drop 6 bs) 2)"
      "txn_record_bytes t = Some (drop 12 bs)" "txn_record_length t = ucast (stn_wire_read (drop 8 bs) 4)"
      "unat (txn_record_length t) = length bs - 12"
    using dec unfolding tx_decode_iff by auto
  then have wf: "wf_tx t" by (auto simp: wf_tx_def)
  have "12 + unat (txn_record_length t) \<le> STN_TX_MAX_SIZE"
    using f(3,6,8) content_length(2) [of sha "txn_type t" "drop 12 bs"] by (auto simp: tx_ok_def)
  moreover have "tx_layout t = bs"
    unfolding tx_layout_def f(4-7) f(2) [symmetric] using f(1) by (simp add: slices)
  ultimately show "stn_transaction_encode sha (Some t) STN_TX_MAX_SIZE = Inr bs"
    using wf f(3) by (simp add: tx_encode_iff)
next
  fix t bs
  assume "stn_transaction_decode sha (Some bs) = Inr t"
  then show "wf_tx t" unfolding tx_decode_iff by (auto simp: wf_tx_def)
qed

lemma tx_structure_iff:
  "stn_transaction_validate_structure sha (Some bs) = STN_DATA_OK \<longleftrightarrow> (\<exists>t. stn_transaction_decode sha (Some bs) = Inr t)"
proof -
  have "stn_transaction_decode sha (Some bs) \<noteq> Inl STN_DATA_OK"
    by (auto simp: stn_transaction_decode.simps(2) Let_def)
  then show ?thesis
    by (cases "stn_transaction_decode sha (Some bs)") (auto simp: stn_transaction_validate_structure_def)
qed

lemma tx_decode_length:
  assumes "stn_transaction_decode sha (Some bs) = Inr t"
  shows "STN_TX_MIN_SIZE \<le> length bs" "length bs \<le> STN_TX_MAX_SIZE"
proof -
  have "12 \<le> length bs" "tx_ok sha t" "txn_record_bytes t = Some (drop 12 bs)"
    using assms unfolding tx_decode_iff by auto
  then show "STN_TX_MIN_SIZE \<le> length bs" "length bs \<le> STN_TX_MAX_SIZE"
    using content_length(1,2) [of sha "txn_type t" "drop 12 bs"] by (auto simp: tx_ok_def)
qed

text \<open>
  C38. The transaction format is canonical and bounded: bytes are accepted exactly when they are the
  encoding of a transaction with one of the ten types whose record its codec accepts, and then they
  have between 77 and 66,881 bytes.
\<close>

theorem transaction_canonical:
  "stn_transaction_decode sha (Some bs) = Inr t \<longleftrightarrow>
     wf_tx t \<and> stn_transaction_encode sha (Some t) STN_TX_MAX_SIZE = Inr bs \<and>
     1 \<le> txn_type t \<and> txn_type t \<le> 10 \<and>
     transaction_content sha (txn_type t) (drop 12 bs) = STN_DATA_OK \<and> 77 \<le> length bs \<and> length bs \<le> 66881"
proof -
  have "1 \<le> txn_type t \<and> txn_type t \<le> 10 \<and>
      transaction_content sha (txn_type t) (drop 12 bs) = STN_DATA_OK \<and> 77 \<le> length bs \<and> length bs \<le> 66881"
    if dec: "stn_transaction_decode sha (Some bs) = Inr t"
    using tx_decode_length [OF dec] dec unfolding tx_decode_iff by (auto simp: tx_ok_def known_type_def)
  then show ?thesis using tx_codec.dec_iff [of sha bs t] by blast
qed

end
