(* ===== verification/Stn_Block.thy ===== *)
theory Stn_Block
  imports Stn_Transaction
begin

text \<open>
  Blocks, \<^verbatim>\<open>src/src/stn_block.c\<close>: the body of length-prefixed transactions, the block codec, the body
  commitment and the integrity check; and the two uses of the block identifier that need the block
  codec, \<^verbatim>\<open>stn_chain_block_id\<close> and \<^verbatim>\<open>stn_pow_verify\<close>.
\<close>

section \<open>Operations\<close>

record stn_block =
  blk_header :: stn_block_header
  blk_body :: "bytes option"

record stn_transaction_span =
  span_bytes :: "bytes option"
  span_length :: u32

text \<open>The loop over the framed transactions; \<open>rest\<close> is what is left from the current offset.\<close>

fun body_loop :: "stn_hash_fn \<Rightarrow> nat \<Rightarrow> bytes \<Rightarrow> stn_data_status" where
  "body_loop sha 0 rest = (if rest = [] then STN_DATA_OK else STN_DATA_LENGTH)"
| "body_loop sha (Suc i) rest =
     (if length rest < 4 then STN_DATA_LENGTH
      else
        (let n = unat (ucast (stn_wire_read rest 4) :: u32); after = drop 4 rest
         in if n < STN_TX_MIN_SIZE \<or> n > STN_TX_MAX_SIZE \<or> n > length after then STN_DATA_LENGTH
            else if stn_transaction_validate_structure sha (Some (take n after)) \<noteq> STN_DATA_OK
            then STN_DATA_CONTENT
            else body_loop sha i (drop n after)))"

definition stn_block_body_validate_structure ::
  "stn_hash_fn \<Rightarrow> bytes option \<Rightarrow> nat \<Rightarrow> u32 \<Rightarrow> stn_data_status" where
  "stn_block_body_validate_structure sha input len count =
     (if count = 0 then (if len = 0 then STN_DATA_OK else STN_DATA_LENGTH)
      else
        (case input of
           None \<Rightarrow> STN_DATA_ARGUMENT
         | Some bs \<Rightarrow>
             if unat count > STN_BLOCK_MAX_TRANSACTIONS \<or> len > STN_BLOCK_MAX_BODY \<or>
               len < unat count * STN_BLOCK_MIN_BODY
             then STN_DATA_LENGTH
             else body_loop sha (unat count) (take len bs)))"

fun spans_loop :: "stn_hash_fn \<Rightarrow> nat \<Rightarrow> stn_transaction_span list \<Rightarrow> nat data_result" where
  "spans_loop sha so_far [] = Inr so_far"
| "spans_loop sha so_far (t # ts) =
     (let status = stn_transaction_validate_structure sha (span_of (span_bytes t) (span_length t))
      in if status \<noteq> STN_DATA_OK then Inl status
         else spans_loop sha (so_far + 4 + unat (span_length t)) ts)"

definition span_frame :: "stn_transaction_span \<Rightarrow> bytes" where
  "span_frame t = stn_wire_write 4 (ucast (span_length t)) @
     (case span_of (span_bytes t) (span_length t) of None \<Rightarrow> [] | Some bs \<Rightarrow> bs)"

definition stn_block_body_encode ::
  "stn_hash_fn \<Rightarrow> stn_transaction_span list option \<Rightarrow> u32 \<Rightarrow> nat \<Rightarrow> bytes data_result" where
  "stn_block_body_encode sha transactions count capacity =
     (if count = 0 then Inr []
      else
        (case transactions of
           None \<Rightarrow> Inl STN_DATA_ARGUMENT
         | Some spans \<Rightarrow>
             if unat count > STN_BLOCK_MAX_TRANSACTIONS then Inl STN_DATA_LENGTH
             else
               (case spans_loop sha 0 (take (unat count) spans) of
                  Inl status \<Rightarrow> Inl status
                | Inr needed \<Rightarrow>
                    if capacity < needed then Inl STN_DATA_CAPACITY
                    else Inr (concat (map span_frame (take (unat count) spans))))))"

fun stn_block_decode :: "stn_hash_fn \<Rightarrow> bytes option \<Rightarrow> stn_block data_result" where
  "stn_block_decode sha None = Inl STN_DATA_ARGUMENT"
| "stn_block_decode sha (Some bs) =
     (if length bs < STN_BLOCK_HEADER_SIZE \<or> length bs > STN_BLOCK_MAX_SIZE then Inl STN_DATA_LENGTH
      else
        (case stn_block_header_decode (Some (take STN_BLOCK_HEADER_SIZE bs)) of
           Inl status \<Rightarrow> Inl status
         | Inr header \<Rightarrow>
             if length bs - STN_BLOCK_HEADER_SIZE \<noteq> unat (bh_body_length header) then Inl STN_DATA_LENGTH
             else
               (let body = drop STN_BLOCK_HEADER_SIZE bs;
                    status = stn_block_body_validate_structure sha (Some body)
                      (unat (bh_body_length header)) (bh_transaction_count header)
                in if status \<noteq> STN_DATA_OK then Inl status
                   else Inr \<lparr>blk_header = header, blk_body = Some body\<rparr>)))"

definition stn_block_validate_structure :: "stn_hash_fn \<Rightarrow> bytes option \<Rightarrow> stn_data_status" where
  "stn_block_validate_structure sha input = data_status (stn_block_decode sha input)"

fun stn_block_encode :: "stn_hash_fn \<Rightarrow> stn_block option \<Rightarrow> nat \<Rightarrow> bytes data_result" where
  "stn_block_encode sha None capacity = Inl STN_DATA_ARGUMENT"
| "stn_block_encode sha (Some b) capacity =
     (let h = blk_header b; status = header_valid h
      in if status \<noteq> STN_DATA_OK then Inl status
         else
           (let status = stn_block_body_validate_structure sha (blk_body b) (unat (bh_body_length h))
                  (bh_transaction_count h)
            in if status \<noteq> STN_DATA_OK then Inl status
               else if capacity < STN_BLOCK_HEADER_SIZE + unat (bh_body_length h) then Inl STN_DATA_CAPACITY
               else
                 (case stn_block_header_encode (Some h) capacity of
                    Inl status \<Rightarrow> Inl status
                  | Inr header \<Rightarrow>
                      Inr (header @
                        (if bh_body_length h \<noteq> 0
                         then (case span_of (blk_body b) (bh_body_length h) of None \<Rightarrow> [] | Some bs \<Rightarrow> bs)
                         else [])))))"

definition stn_block_body_commitment ::
  "stn_hash_fn \<Rightarrow> bytes option \<Rightarrow> nat \<Rightarrow> u32 \<Rightarrow> stn_hash_provider \<Rightarrow> bytes data_result" where
  "stn_block_body_commitment sha body len count provider =
     (let status = stn_block_body_validate_structure sha body len count
      in if status \<noteq> STN_DATA_OK then Inl status
         else
           (case provider of
              None \<Rightarrow> Inl STN_DATA_UNRESOLVED
            | Some hash \<Rightarrow>
                (let hash_body = (if len = 0 then [] else case body of None \<Rightarrow> [] | Some bs \<Rightarrow> take len bs)
                 in case hash (cstring ''STN-CHAIN:BLOCK:BODY:1'') hash_body of
                      Inr digest \<Rightarrow> Inr digest
                    | Inl status \<Rightarrow> Inl (provider_status status))))"

text \<open>The identifiers of the framed transactions, in order; a repeated one refuses the block.\<close>

fun ids_loop ::
  "stn_hash_fn \<Rightarrow> stn_hash_provider \<Rightarrow> nat \<Rightarrow> bytes \<Rightarrow> bytes list \<Rightarrow> bytes list data_result" where
  "ids_loop sha provider 0 rest ids = Inr ids"
| "ids_loop sha provider (Suc i) rest ids =
     (let n = unat (ucast (stn_wire_read rest 4) :: u32); after = drop 4 rest
      in case stn_transaction_id sha (Some (take n after)) provider of
           Inl status \<Rightarrow> Inl status
         | Inr ident \<Rightarrow>
             if list_ex (\<lambda>j. memcmp ident j = 0) ids then Inl STN_DATA_DUPLICATE
             else ids_loop sha provider i (drop n after) (ids @ [ident]))"

definition stn_block_check_integrity ::
  "stn_hash_fn \<Rightarrow> bytes option \<Rightarrow> stn_hash_provider \<Rightarrow> stn_data_status" where
  "stn_block_check_integrity sha input provider =
     (case stn_block_decode sha input of
        Inl status \<Rightarrow> status
      | Inr b \<Rightarrow>
          (let h = blk_header b; body = (case blk_body b of None \<Rightarrow> [] | Some bs \<Rightarrow> bs)
           in case ids_loop sha provider (unat (bh_transaction_count h)) body [] of
                Inl status \<Rightarrow> status
              | Inr _ \<Rightarrow>
                  (case stn_block_body_commitment sha (blk_body b) (unat (bh_body_length h))
                          (bh_transaction_count h) provider of
                     Inl status \<Rightarrow> status
                   | Inr commitment \<Rightarrow>
                       if memcmp commitment (bh_transaction_commitment h) = 0 then STN_DATA_OK
                       else STN_DATA_COMMITMENT)))"

text \<open>The block identifier hashes the header; proof of work compares it with the header's target.\<close>

definition stn_chain_block_id ::
  "stn_hash_fn \<Rightarrow> bytes option \<Rightarrow> stn_hash_provider \<Rightarrow> bytes data_result" where
  "stn_chain_block_id sha input provider =
     (let status = stn_block_validate_structure sha input
      in if status \<noteq> STN_DATA_OK then Inl status
         else
           (case (provider, input) of
              (Some hash, Some bs) \<Rightarrow>
                (case hash (cstring ''STN-CHAIN:BLOCK:ID:1'') (take STN_BLOCK_HEADER_SIZE bs) of
                   Inr digest \<Rightarrow> Inr digest
                 | Inl status \<Rightarrow> Inl (provider_status status))
            | _ \<Rightarrow> Inl STN_DATA_UNRESOLVED))"

definition stn_pow_verify :: "stn_hash_fn \<Rightarrow> bytes option \<Rightarrow> stn_hash_provider \<Rightarrow> bytes data_result" where
  "stn_pow_verify sha input provider =
     (case stn_block_decode sha input of
        Inl status \<Rightarrow> Inl status
      | Inr b \<Rightarrow>
          if bh_version (blk_header b) \<noteq> STN_POW_BLOCK_VERSION then Inl STN_DATA_VERSION
          else
            (let target = bh_reserved_target (blk_header b); status = stn_target_validate (Some target)
             in if status \<noteq> STN_DATA_OK then Inl status
                else
                  (case stn_chain_block_id sha input provider of
                     Inl status \<Rightarrow> Inl status
                   | Inr hash \<Rightarrow>
                       (let status = stn_pow_compare (Some hash) target
                        in if status \<noteq> STN_DATA_OK then Inl status else Inr hash))))"


section \<open>Bodies are framed transaction lists\<close>

definition valid_tx :: "stn_hash_fn \<Rightarrow> bytes \<Rightarrow> bool" where
  "valid_tx sha t \<longleftrightarrow> stn_transaction_validate_structure sha (Some t) = STN_DATA_OK"

definition frame :: "bytes \<Rightarrow> bytes" where
  "frame t = stn_wire_write 4 (ucast (word_of_nat (length t) :: u32)) @ t"

definition frames :: "bytes list \<Rightarrow> bytes" where
  "frames ts = concat (map frame ts)"

lemma frames_simps [simp]: "frames [] = []" "frames (t # ts) = frame t @ frames ts"
  by (simp_all add: frames_def)

lemma length_frame [simp]: "length (frame t) = 4 + length t"
  by (simp add: frame_def)

lemma valid_tx_length:
  assumes "valid_tx sha t"
  shows "77 \<le> length t" "length t \<le> 66881"
  using assms tx_decode_length unfolding valid_tx_def tx_structure_iff by auto

lemma unat_length:
  assumes "length t \<le> 66881"
  shows "unat (word_of_nat (length t) :: u32) = length t"
  using assms by (simp add: unat_of_nat take_bit_nat_eq_self)

lemma read_frame:
  assumes "length t \<le> 66881"
  shows "unat (ucast (stn_wire_read (frame t @ r) 4) :: u32) = length t" "drop 4 (frame t @ r) = t @ r"
    "unat (ucast (stn_wire_read (frame t) 4) :: u32) = length t" "drop 4 (frame t) = t"
  using unat_length [OF assms] by (simp_all add: frame_def)

lemma frame_read:
  assumes "4 \<le> length bs" "n = unat (ucast (stn_wire_read bs 4) :: u32)" "n \<le> length (drop 4 bs)"
  shows "frame (take n (drop 4 bs)) @ drop n (drop 4 bs) = bs"
proof -
  have "word_of_nat (length (take n (drop 4 bs))) = (ucast (stn_wire_read bs 4) :: u32)"
    using assms(2,3) by simp
  then have "frame (take n (drop 4 bs)) = take 4 bs @ take n (drop 4 bs)"
    using assms(1) by (simp add: frame_def)
  then show ?thesis by (metis append_assoc append_take_drop_id)
qed

lemma body_loop_iff:
  "body_loop sha n bs = STN_DATA_OK \<longleftrightarrow>
     (\<exists>ts. length ts = n \<and> (\<forall>t \<in> set ts. valid_tx sha t) \<and> bs = frames ts)"
proof (induction n arbitrary: bs)
  case 0
  then show ?case by simp
next
  case (Suc n)
  show ?case
  proof
    assume ok: "body_loop sha (Suc n) bs = STN_DATA_OK"
    define k where "k = unat (ucast (stn_wire_read bs 4) :: u32)"
    have f: "4 \<le> length bs" "k \<le> length (drop 4 bs)" "valid_tx sha (take k (drop 4 bs))"
        "body_loop sha n (drop k (drop 4 bs)) = STN_DATA_OK"
      using ok by (auto simp: Let_def k_def valid_tx_def split: if_splits)
    from f(4) obtain ts where "length ts = n" "\<forall>t \<in> set ts. valid_tx sha t" "drop k (drop 4 bs) = frames ts"
      unfolding Suc.IH by blast
    with f(3) frame_read [OF f(1) k_def f(2)]
    show "\<exists>ts. length ts = Suc n \<and> (\<forall>t \<in> set ts. valid_tx sha t) \<and> bs = frames ts"
      by (intro exI [of _ "take k (drop 4 bs) # ts"]) simp
  next
    assume "\<exists>ts. length ts = Suc n \<and> (\<forall>t \<in> set ts. valid_tx sha t) \<and> bs = frames ts"
    then obtain t ts where ts: "length ts = n" "valid_tx sha t" "\<forall>t \<in> set ts. valid_tx sha t" "bs = frame t @ frames ts"
      by (auto simp: length_Suc_conv)
    note len = valid_tx_length [OF ts(2)]
    have "body_loop sha n (frames ts) = STN_DATA_OK" unfolding Suc.IH using ts by blast
    then show "body_loop sha (Suc n) bs = STN_DATA_OK"
      using len ts(2) by (simp add: ts(4) read_frame [OF len(2)] valid_tx_def)
  qed
qed

lemma length_frames_bounds:
  assumes "\<forall>t \<in> set ts. valid_tx sha t"
  shows "81 * length ts \<le> length (frames ts)" "length (frames ts) \<le> 66885 * length ts"
  using assms valid_tx_length by (induction ts) fastforce+

lemma body_structure_iff:
  "stn_block_body_validate_structure sha (Some bs) (length bs) count = STN_DATA_OK \<longleftrightarrow>
     (\<exists>ts. length ts = unat count \<and> length ts \<le> 32 \<and> (\<forall>t \<in> set ts. valid_tx sha t) \<and> bs = frames ts)"
proof (cases "count = 0")
  case True
  then show ?thesis by (auto simp: stn_block_body_validate_structure_def)
next
  case False
  show ?thesis (is "?l \<longleftrightarrow> ?r")
  proof
    assume ?l
    with False have "unat count \<le> 32" "body_loop sha (unat count) bs = STN_DATA_OK"
      by (auto simp: stn_block_body_validate_structure_def split: if_splits)
    then show ?r unfolding body_loop_iff by auto
  next
    assume ?r
    then obtain ts where ts: "length ts = unat count" "length ts \<le> 32" "\<forall>t \<in> set ts. valid_tx sha t" "bs = frames ts"
      by blast
    then have "body_loop sha (unat count) bs = STN_DATA_OK" unfolding body_loop_iff by blast
    with False ts length_frames_bounds [OF ts(3)] show ?l
      by (simp add: stn_block_body_validate_structure_def)
  qed
qed


text \<open>
  The body encoder writes the frames of the transactions it is given, after checking each, when there
  are at most 32 and the capacity suffices.
\<close>

definition span_list :: "bytes list \<Rightarrow> stn_transaction_span list" where
  "span_list ts = map (\<lambda>t. \<lparr>span_bytes = Some t, span_length = word_of_nat (length t)\<rparr>) ts"

lemma valid_status: "valid_tx sha t \<longleftrightarrow> stn_transaction_validate_structure sha (Some t) = STN_DATA_OK"
  by (simp add: valid_tx_def)

lemma span_frame_list:
  "\<forall>t \<in> set ts. length t \<le> 66881 \<Longrightarrow> map span_frame (span_list ts) = map frame ts"
  by (induction ts) (simp_all add: span_list_def span_frame_def span_of_def frame_def unat_length)

lemma spans_loop_iff:
  assumes "\<forall>t \<in> set ts. length t \<le> 66881"
  shows "spans_loop sha n (span_list ts) = Inr m \<longleftrightarrow>
    (\<forall>t \<in> set ts. valid_tx sha t) \<and> m = n + length (frames ts)"
  using assms
  by (induction ts arbitrary: n)
     (auto simp: span_list_def span_of_def Let_def unat_length valid_status)

lemma body_encode_iff:
  assumes "\<forall>t \<in> set ts. length t \<le> 66881" "length ts \<le> 32"
  shows "stn_block_body_encode sha (Some (span_list ts)) (word_of_nat (length ts)) capacity = Inr bs \<longleftrightarrow>
    (\<forall>t \<in> set ts. valid_tx sha t) \<and> length (frames ts) \<le> capacity \<and> bs = frames ts"
proof -
  have n: "unat (word_of_nat (length ts) :: u32) = length ts"
    using assms(2) by (simp add: unat_of_nat take_bit_nat_eq_self)
  have zero: "(word_of_nat (length ts) :: u32) = 0 \<longleftrightarrow> ts = []"
    using n by (simp add: word_unat_eq_iff)
  have all: "take (length ts) (span_list ts) = span_list ts" by (simp add: span_list_def)
  have loop: "spans_loop sha 0 (span_list ts) = Inr m \<longleftrightarrow> (\<forall>t \<in> set ts. valid_tx sha t) \<and> m = length (frames ts)" for m
    using spans_loop_iff [OF assms(1), of sha 0 m] by simp
  show ?thesis
  proof (cases "ts = []")
    case False
    then show ?thesis
      using assms(2)
      by (auto simp: stn_block_body_encode_def zero n all guard_iff span_frame_list [OF assms(1)]
          frames_def [symmetric] loop)
  qed (auto simp: stn_block_body_encode_def)
qed

section \<open>The block format is canonical\<close>

definition wf_block :: "stn_block \<Rightarrow> bool" where
  "wf_block b \<longleftrightarrow> wf_header (blk_header b) \<and>
     (\<exists>body. blk_body b = Some body \<and> length body = unat (bh_body_length (blk_header b)))"

lemma block_decode_iff:
  "stn_block_decode sha (Some bs) = Inr b \<longleftrightarrow>
     168 \<le> length bs \<and> stn_block_header_decode (Some (take 168 bs)) = Inr (blk_header b) \<and>
     blk_body b = Some (drop 168 bs) \<and> length (drop 168 bs) = unat (bh_body_length (blk_header b)) \<and>
     stn_block_body_validate_structure sha (Some (drop 168 bs)) (length (drop 168 bs))
       (bh_transaction_count (blk_header b)) = STN_DATA_OK"
proof -
  have bound: "length bs \<le> 2140488"
    if "stn_block_body_validate_structure sha (Some (drop 168 bs)) (length (drop 168 bs)) n = STN_DATA_OK" for n
  proof -
    from that obtain ts where "length ts \<le> 32" "\<forall>t \<in> set ts. valid_tx sha t" "drop 168 bs = frames ts"
      unfolding body_structure_iff by blast
    moreover from this have "length (frames ts) \<le> 66885 * length ts" by (intro length_frames_bounds)
    ultimately have "length (drop 168 bs) \<le> 2140320" by simp
    then show ?thesis by simp
  qed
  show ?thesis
    unfolding stn_block_decode.simps Let_def guard_iff
    using bound [of "bh_transaction_count (blk_header b)"] by (cases b) auto
qed


lemma block_encode_iff:
  assumes "wf_block b"
  shows "stn_block_encode sha (Some b) capacity = Inr bs \<longleftrightarrow>
    header_valid (blk_header b) = STN_DATA_OK \<and>
    stn_block_body_validate_structure sha (blk_body b) (length (the (blk_body b)))
      (bh_transaction_count (blk_header b)) = STN_DATA_OK \<and>
    168 + length (the (blk_body b)) \<le> capacity \<and> bs = header_layout (blk_header b) @ the (blk_body b)"
proof -
  from assms obtain body where body: "blk_body b = Some body" "unat (bh_body_length (blk_header b)) = length body"
    by (auto simp: wf_block_def)
  have whole: "span_of (Some body) (bh_body_length (blk_header b)) = Some body"
    using body by (simp add: span_of_def)
  have empty: "bh_body_length (blk_header b) = 0 \<longleftrightarrow> body = []"
    using body(2) by (auto simp: word_unat_eq_iff)
  show ?thesis
    unfolding stn_block_encode.simps Let_def guard_iff body whole header_encode_iff empty option.case option.sel
    by (auto simp: guard_iff header_encode_iff)
qed

declare stn_block_decode.simps(2) [simp del] stn_block_encode.simps(2) [simp del]

lemma block_decode_facts:
  assumes "stn_block_decode sha (Some bs) = Inr b"
  shows "wf_block b" "header_valid (blk_header b) = STN_DATA_OK" "header_layout (blk_header b) = take 168 bs"
    "blk_body b = Some (drop 168 bs)" "168 \<le> length bs"
  using assms header_decode_wf [of "take 168 bs" "blk_header b"] header_layout_decode [of "take 168 bs" "blk_header b"]
  unfolding block_decode_iff wf_block_def by auto

interpretation block_codec: codec
  "\<lambda>b. stn_block_encode sha (Some b) STN_BLOCK_MAX_SIZE" "\<lambda>bs. stn_block_decode sha (Some bs)" wf_block for sha
proof
  fix b bs
  assume wf: "wf_block b" and enc: "stn_block_encode sha (Some b) STN_BLOCK_MAX_SIZE = Inr bs"
  from wf obtain body where body: "blk_body b = Some body" "wf_header (blk_header b)"
      "length body = unat (bh_body_length (blk_header b))"
    by (auto simp: wf_block_def)
  with enc have bs: "bs = header_layout (blk_header b) @ body"
      "stn_block_body_validate_structure sha (Some body) (length body) (bh_transaction_count (blk_header b)) = STN_DATA_OK"
      "header_valid (blk_header b) = STN_DATA_OK"
    by (simp_all add: block_encode_iff [OF wf])
  then have "take 168 bs = header_layout (blk_header b)" "drop 168 bs = body" "168 \<le> length bs"
    using body(2) by simp_all
  then show "stn_block_decode sha (Some bs) = Inr b"
    using body bs header_decode_layout by (simp add: block_decode_iff)
next
  fix b bs
  assume dec: "stn_block_decode sha (Some bs) = Inr b"
  note f = block_decode_facts [OF dec]
  have "stn_block_body_validate_structure sha (blk_body b) (length (the (blk_body b)))
      (bh_transaction_count (blk_header b)) = STN_DATA_OK"
    using dec unfolding block_decode_iff by auto
  moreover have "168 + length (the (blk_body b)) \<le> STN_BLOCK_MAX_SIZE"
    using dec f(5) by (simp add: stn_block_decode.simps(2) f(4) split: if_splits)
  ultimately show "stn_block_encode sha (Some b) STN_BLOCK_MAX_SIZE = Inr bs"
    unfolding block_encode_iff [OF f(1)] using f(2-5) by simp
qed (rule block_decode_facts)

lemma block_structure_iff:
  "stn_block_validate_structure sha (Some bs) = STN_DATA_OK \<longleftrightarrow> (\<exists>b. stn_block_decode sha (Some bs) = Inr b)"
proof -
  have "stn_block_header_decode (Some hs) \<noteq> Inl STN_DATA_OK" for hs
    by (simp add: stn_block_header_decode.simps(2) Let_def)
  then have "stn_block_decode sha (Some bs) \<noteq> Inl STN_DATA_OK"
    by (auto simp: stn_block_decode.simps(2) Let_def split: sum.splits)
  then show ?thesis
    by (cases "stn_block_decode sha (Some bs)") (auto simp: stn_block_validate_structure_def)
qed

section \<open>Integrity and proof of work\<close>

lemma transaction_id_iff:
  "stn_transaction_id sha (Some t) (Some hash) = Inr d \<longleftrightarrow>
     valid_tx sha t \<and> hash (cstring ''STN-CHAIN:TX:ID:1'') t = Inr d"
  by (auto simp: stn_transaction_id_def valid_tx_def split: sum.splits)

lemma ids_loop_iff:
  assumes "\<forall>t \<in> set ts. valid_tx sha t"
  shows "ids_loop sha (Some hash) (length ts) (frames ts) ids = Inr out \<longleftrightarrow>
    (\<exists>ds. list_all2 (\<lambda>t d. hash (cstring ''STN-CHAIN:TX:ID:1'') t = Inr d) ts ds \<and> distinct ds \<and>
      set ds \<inter> set ids = {} \<and> out = ids @ ds)"
  using assms
proof (induction ts arbitrary: ids)
  case Nil
  then show ?case by auto
next
  case (Cons t ts)
  then have t: "valid_tx sha t" and ts: "\<forall>t \<in> set ts. valid_tx sha t" by simp_all
  let ?id = "\<lambda>t d. hash (cstring ''STN-CHAIN:TX:ID:1'') t = Inr d"
  have step: "ids_loop sha (Some hash) (length (t # ts)) (frames (t # ts)) ids = Inr out \<longleftrightarrow>
      (\<exists>d. ?id t d \<and> d \<notin> set ids \<and> ids_loop sha (Some hash) (length ts) (frames ts) (ids @ [d]) = Inr out)"
    using t read_frame(1,2) [OF valid_tx_length(2) [OF t], of "frames ts"]
    by (auto simp: Let_def guard_iff transaction_id_iff list_ex_iff)
  show ?case
    unfolding step Cons.IH [OF ts] list_all2_Cons1
    by (auto simp: list_all2_Cons1)
qed

text \<open>What a block is made of: a header that fits its body, and the body's transactions.\<close>

definition block_parts :: "stn_hash_fn \<Rightarrow> bytes \<Rightarrow> stn_block_header \<Rightarrow> bytes list \<Rightarrow> bool" where
  "block_parts sha bs h ts \<longleftrightarrow> 168 \<le> length bs \<and> stn_block_header_decode (Some (take 168 bs)) = Inr h \<and>
     drop 168 bs = frames ts \<and> length (frames ts) = unat (bh_body_length h) \<and>
     length ts = unat (bh_transaction_count h) \<and> length ts \<le> 32 \<and> (\<forall>t \<in> set ts. valid_tx sha t)"

lemma block_parts_decode:
  assumes "block_parts sha bs h ts"
  shows "stn_block_decode sha (Some bs) = Inr \<lparr>blk_header = h, blk_body = Some (frames ts)\<rparr>"
    "stn_block_body_validate_structure sha (Some (frames ts)) (unat (bh_body_length h)) (bh_transaction_count h) = STN_DATA_OK"
proof -
  show v: "stn_block_body_validate_structure sha (Some (frames ts)) (unat (bh_body_length h)) (bh_transaction_count h) = STN_DATA_OK"
    using assms body_structure_iff [of sha "frames ts" "bh_transaction_count h"] by (auto simp: block_parts_def)
  then show "stn_block_decode sha (Some bs) = Inr \<lparr>blk_header = h, blk_body = Some (frames ts)\<rparr>"
    using assms unfolding block_decode_iff block_parts_def by auto
qed

lemma block_decode_parts:
  assumes "stn_block_decode sha (Some bs) = Inr b"
  obtains ts where "block_parts sha bs (blk_header b) ts" "blk_body b = Some (frames ts)"
proof -
  from assms obtain ts where "length ts = unat (bh_transaction_count (blk_header b))" "length ts \<le> 32"
      "\<forall>t \<in> set ts. valid_tx sha t" "drop 168 bs = frames ts"
    unfolding block_decode_iff body_structure_iff by blast
  moreover from this assms have "length (frames ts) = unat (bh_body_length (blk_header b))"
    unfolding block_decode_iff by auto
  ultimately have "block_parts sha bs (blk_header b) ts" "blk_body b = Some (frames ts)"
    using assms unfolding block_decode_iff block_parts_def by auto
  then show thesis by (rule that)
qed

lemma ids_loop_status: "hash_fn_ok hash \<Longrightarrow> ids_loop sha (Some hash) n rest ids \<noteq> Inl STN_DATA_OK"
  by (induction n arbitrary: rest ids)
     (auto simp: Let_def stn_transaction_id_def provider_status_def hash_fn_ok_status split: sum.splits)

lemma commitment_iff:
  assumes "block_parts sha bs h ts"
  shows "stn_block_body_commitment sha (Some (frames ts)) (unat (bh_body_length h)) (bh_transaction_count h) (Some hash) = Inr c \<longleftrightarrow>
    hash (cstring ''STN-CHAIN:BLOCK:BODY:1'') (frames ts) = Inr c"
proof -
  have "length (frames ts) = unat (bh_body_length h)" using assms by (simp add: block_parts_def)
  then show ?thesis
    by (auto simp: stn_block_body_commitment_def block_parts_decode(2) [OF assms] split: sum.splits)
qed

lemma commitment_status:
  "hash_fn_ok hash \<Longrightarrow> stn_block_body_commitment sha body n m (Some hash) \<noteq> Inl STN_DATA_OK"
  by (auto simp: stn_block_body_commitment_def Let_def provider_status_def hash_fn_ok_status split: sum.splits)

lemma integrity_parts:
  assumes "hash_fn_ok hash" "block_parts sha bs h ts"
  shows "stn_block_check_integrity sha (Some bs) (Some hash) = STN_DATA_OK \<longleftrightarrow>
    (\<exists>ds. list_all2 (\<lambda>t d. hash (cstring ''STN-CHAIN:TX:ID:1'') t = Inr d) ts ds \<and> distinct ds) \<and>
    hash (cstring ''STN-CHAIN:BLOCK:BODY:1'') (frames ts) = Inr (bh_transaction_commitment h)"
proof -
  have n: "unat (bh_transaction_count h) = length ts" and valid: "\<forall>t \<in> set ts. valid_tx sha t"
    using assms(2) by (simp_all add: block_parts_def)
  have "stn_block_check_integrity sha (Some bs) (Some hash) = STN_DATA_OK \<longleftrightarrow>
      (\<exists>ds. ids_loop sha (Some hash) (length ts) (frames ts) [] = Inr ds) \<and>
      stn_block_body_commitment sha (Some (frames ts)) (unat (bh_body_length h)) (bh_transaction_count h) (Some hash) =
        Inr (bh_transaction_commitment h)"
    using ids_loop_status [OF assms(1)] commitment_status [OF assms(1)]
    by (auto simp: stn_block_check_integrity_def block_parts_decode(1) [OF assms(2)] n split: sum.splits)
  then show ?thesis by (simp add: ids_loop_iff [OF valid] commitment_iff [OF assms(2)])
qed

text \<open>
  C31. Block integrity: a block passes exactly when its first 168 bytes are a valid header, the rest is
  the list of as many length-prefixed valid transactions as the header counts, at most 32, whose
  identifiers under the provider are pairwise distinct, and the header commits to the hash of that body.
\<close>

theorem block_integrity_exact:
  assumes "hash_fn_ok hash"
  shows "stn_block_check_integrity sha (Some bs) (Some hash) = STN_DATA_OK \<longleftrightarrow>
    (\<exists>h ts ds. 168 \<le> length bs \<and> stn_block_header_decode (Some (take 168 bs)) = Inr h \<and>
      drop 168 bs = frames ts \<and> length (frames ts) = unat (bh_body_length h) \<and>
      length ts = unat (bh_transaction_count h) \<and> length ts \<le> 32 \<and> (\<forall>t \<in> set ts. valid_tx sha t) \<and>
      list_all2 (\<lambda>t d. hash (cstring ''STN-CHAIN:TX:ID:1'') t = Inr d) ts ds \<and> distinct ds \<and>
      hash (cstring ''STN-CHAIN:BLOCK:BODY:1'') (frames ts) = Inr (bh_transaction_commitment h))" (is "?ok \<longleftrightarrow> ?spec")
proof
  assume ?ok
  then obtain b where "stn_block_decode sha (Some bs) = Inr b"
    using block_structure_iff [of sha bs]
    by (auto simp: stn_block_check_integrity_def stn_block_validate_structure_def split: sum.splits)
  then obtain ts where "block_parts sha bs (blk_header b) ts" by (rule block_decode_parts)
  with \<open>?ok\<close> integrity_parts [OF assms this] show ?spec unfolding block_parts_def by blast
next
  assume ?spec
  then obtain h ts where "block_parts sha bs h ts"
      "\<exists>ds. list_all2 (\<lambda>t d. hash (cstring ''STN-CHAIN:TX:ID:1'') t = Inr d) ts ds \<and> distinct ds"
      "hash (cstring ''STN-CHAIN:BLOCK:BODY:1'') (frames ts) = Inr (bh_transaction_commitment h)"
    unfolding block_parts_def by blast
  then show ?ok using integrity_parts [OF assms] by blast
qed

text \<open>
  C33. Proof of work is about the header alone: verification returns an identifier exactly when the
  block is structurally valid with a version 3 header, the identifier is the hash of its first 168
  bytes, and as a number it is at most the header's target.
\<close>

theorem pow_verify_exact:
  assumes "hash_fn_ok hash"
  shows "stn_pow_verify sha (Some bs) (Some hash) = Inr d \<longleftrightarrow>
    (\<exists>b. stn_block_decode sha (Some bs) = Inr b \<and> bh_version (blk_header b) = 3 \<and>
      hash (cstring ''STN-CHAIN:BLOCK:ID:1'') (take 168 bs) = Inr d \<and>
      be d \<le> be (bh_reserved_target (blk_header b)))"
proof (cases "stn_block_decode sha (Some bs)")
  case (Inl status)
  then show ?thesis by (simp add: stn_pow_verify_def)
next
  case (Inr b)
  let ?t = "bh_reserved_target (blk_header b)"
  have id: "stn_chain_block_id sha (Some bs) (Some hash) = Inr x \<longleftrightarrow>
      hash (cstring ''STN-CHAIN:BLOCK:ID:1'') (take 168 bs) = Inr x" for x
    using Inr by (auto simp: stn_chain_block_id_def stn_block_validate_structure_def split: sum.splits)
  have ok: "stn_target_validate (Some ?t) = STN_DATA_OK" if "bh_version (blk_header b) = 3"
    using block_decode_facts(2) [OF Inr] that by (auto simp: header_valid_def split: if_splits)
  have cmp: "stn_pow_compare (Some x) ?t = STN_DATA_OK \<longleftrightarrow> be x \<le> be ?t"
    if "bh_version (blk_header b) = 3" "hash (cstring ''STN-CHAIN:BLOCK:ID:1'') (take 168 bs) = Inr x" for x
    using pow_compare_digest [OF hash_fn_ok_length [OF assms that(2)] ok [OF that(1)]] by simp
  show ?thesis
    using ok cmp id
    by (auto simp: stn_pow_verify_def Inr Let_def guard_iff simp del: stn_pow_compare.simps)
qed


section \<open>A concrete block\<close>

definition sample_tx :: bytes where
  "sample_tx = transaction_magic @ [0, 1, 0, 7, 0, 0, 0, 65] @ STN_COMPENSATION_DESTINATION_VERSION # replicate 64 5"

definition sample_block_header :: stn_block_header where
  "sample_block_header = \<lparr>bh_version = 3, bh_flags = 0, bh_network_id = replicate 32 1,
     bh_previous_hash = replicate 32 0, bh_height = 0, bh_timestamp = 7,
     bh_transaction_commitment = replicate 32 9, bh_reserved_target = 0x40 # replicate 31 0,
     bh_reserved_work_nonce = 3, bh_transaction_count = 1, bh_body_length = 81\<rparr>"

definition sample_block_bytes :: bytes where
  "sample_block_bytes = header_layout sample_block_header @ frames [sample_tx]"

lemma sample_tx_valid: "valid_tx sha sample_tx" "length sample_tx = 77"
proof -
  show len: "length sample_tx = 77" by (simp add: sample_tx_def)
  have fields: "ucast (stn_wire_read (drop 4 sample_tx) 2) = (1 :: u16)" "ucast (stn_wire_read (drop 6 sample_tx) 2) = (7 :: u16)"
      "ucast (stn_wire_read (drop 8 sample_tx) 4) = (65 :: u32)" "take 4 sample_tx = transaction_magic"
      "drop 12 sample_tx = STN_COMPENSATION_DESTINATION_VERSION # replicate 64 5"
    by (simp_all add: sample_tx_def transaction_magic_def stn_wire_read_def)
  have "stn_transaction_decode sha (Some sample_tx) = Inr \<lparr>txn_version = 1, txn_type = 7,
      txn_record_bytes = Some (STN_COMPENSATION_DESTINATION_VERSION # replicate 64 5), txn_record_length = 65\<rparr>"
    unfolding tx_decode_iff fields using len
    by (simp add: tx_ok_def known_type_def transaction_content_def decode_statuses destination_decode_iff)
  then show "valid_tx sha sample_tx" unfolding valid_tx_def tx_structure_iff by blast
qed

lemma sample_header_wf: "wf_header sample_block_header" "header_valid sample_block_header = STN_DATA_OK"
proof -
  have "stn_target_validate (Some (0x40 # replicate 31 0)) = STN_DATA_OK"
    by (simp add: target_validate_iff be_append)
  then show "header_valid sample_block_header = STN_DATA_OK"
    by (simp add: header_valid_def sample_block_header_def nonzero_iff)
qed (simp add: wf_header_def sample_block_header_def)

lemma sample_parts: "block_parts sha sample_block_bytes sample_block_header [sample_tx]"
proof -
  have "take 168 sample_block_bytes = header_layout sample_block_header"
      "drop 168 sample_block_bytes = frames [sample_tx]" "168 \<le> length sample_block_bytes"
    using sample_header_wf(1) by (simp_all add: sample_block_bytes_def)
  then show ?thesis
    using header_decode_layout [OF sample_header_wf] sample_tx_valid
    by (simp add: block_parts_def) (simp add: sample_block_header_def)
qed

theorem block_integrity_exact_witness:
  "hash_fn_ok sample_sha \<and>
   stn_block_check_integrity sample_sha (Some sample_block_bytes) (Some sample_sha) = STN_DATA_OK"
proof -
  have "list_all2 (\<lambda>t d. sample_sha (cstring ''STN-CHAIN:TX:ID:1'') t = Inr d) [sample_tx] [replicate 32 9]"
    "sample_sha (cstring ''STN-CHAIN:BLOCK:BODY:1'') (frames [sample_tx]) = Inr (bh_transaction_commitment sample_block_header)"
    by (simp_all add: sample_sha_def sample_block_header_def)
  then show ?thesis
    unfolding block_integrity_exact [OF sample_sha_ok]
    using sample_parts [of sample_sha] sample_sha_ok unfolding block_parts_def
    by (intro conjI exI [of _ sample_block_header] exI [of _ "[sample_tx]"] exI [of _ "[replicate 32 9]"]) simp_all
qed

theorem pow_verify_exact_witness:
  "stn_pow_verify sample_sha (Some sample_block_bytes) (Some sample_sha) = Inr (replicate 32 9)"
proof -
  have "be (replicate 32 9) \<le> be (bh_reserved_target sample_block_header)"
  proof -
    have "replicate 32 (9 :: 8 word) = [9] @ replicate 31 9" by (simp flip: replicate_Suc)
    then have "be (replicate 32 (9 :: 8 word)) = 9 * 256 ^ 31 + be (replicate 31 9)"
      by (simp only: be_append) simp
    moreover have "be (replicate 31 (9 :: 8 word)) < 256 ^ 31" using be_less [of "replicate 31 9"] by simp
    moreover have "be (bh_reserved_target sample_block_header) = 64 * 256 ^ 31"
      by (simp add: sample_block_header_def be_append)
    ultimately show ?thesis by simp
  qed
  then show ?thesis
    unfolding pow_verify_exact [OF sample_sha_ok]
    using block_parts_decode(1) [OF sample_parts, of sample_sha]
    by (simp add: sample_sha_def) (simp add: sample_block_header_def)
qed

end
