(* ===== verification/Stn_Rotation.thy ===== *)
theory Stn_Rotation
  imports Stn_Authority
begin

text \<open>
  Identity rotation (the second half of \<^verbatim>\<open>src/src/stn_authority.c\<close>): the signed rotation record,
  the lineage of accepted rotations and the current identity it resolves to.
\<close>

section \<open>The rotation record and the lineage\<close>

record stn_identity_rotation_state =
  initial_identity :: bytes
  current_identity :: bytes
  old_identities :: "bytes list"
  new_identities :: "bytes list"
  rotation_count :: nat

definition stn_identity_rotation_statement ::
  "bytes option \<Rightarrow> bytes option \<Rightarrow> nat \<Rightarrow> stn_identity_rotation_result + bytes" where
  "stn_identity_rotation_statement old_id new_id capacity =
     (if capacity < STN_AUTHORITY_ROTATE_DOMAIN_SIZE + 1 + 64 then Inl STN_AUTHORITY_MALFORMED_ROTATION
      else
        (case (stn_identity_derive old_id, stn_identity_derive new_id) of
           (Inr a, Inr b) \<Rightarrow>
             if memcmp a b = 0 then Inl STN_AUTHORITY_MALFORMED_ROTATION
             else Inr (STN_AUTHORITY_ROTATE_DOMAIN @ [0] @ [STN_AUTHORITY_VERSION] @ a @ b)
         | _ \<Rightarrow> Inl STN_AUTHORITY_MALFORMED_ROTATION))"

definition stn_identity_rotation_encode ::
  "bytes option \<Rightarrow> bytes option \<Rightarrow> bytes option \<Rightarrow> nat \<Rightarrow> stn_identity_rotation_result + bytes" where
  "stn_identity_rotation_encode old_id new_id signature capacity =
     (case signature of
        None \<Rightarrow> Inl STN_AUTHORITY_MALFORMED_ROTATION
      | Some sg \<Rightarrow>
          if capacity < STN_AUTHORITY_ROTATION_SIZE then Inl STN_AUTHORITY_MALFORMED_ROTATION
          else
            (case stn_identity_rotation_statement old_id new_id (STN_AUTHORITY_ROTATE_DOMAIN_SIZE + 65) of
               Inl _ \<Rightarrow> Inl STN_AUTHORITY_MALFORMED_ROTATION
             | Inr _ \<Rightarrow>
                 (case (stn_identity_derive old_id, stn_identity_derive new_id) of
                    (Inr a, Inr b) \<Rightarrow> Inr ([STN_AUTHORITY_VERSION] @ a @ b @ take 64 sg)
                  | _ \<Rightarrow> Inl STN_AUTHORITY_MALFORMED_ROTATION)))"

text \<open>The scan over the accepted pairs: it decides at the first pair that names either identity as old.\<close>

fun rotation_scan :: "(bytes \<times> bytes) list \<Rightarrow> bytes \<Rightarrow> bytes \<Rightarrow> stn_identity_rotation_result option" where
  "rotation_scan [] old_id new_id = None"
| "rotation_scan ((old, new) # ps) old_id new_id =
     (if memcmp old old_id = 0
      then Some (if memcmp new new_id = 0 then STN_AUTHORITY_VALID_ROTATION
                 else STN_AUTHORITY_INVALID_ROTATION)
      else if memcmp old new_id = 0 then Some STN_AUTHORITY_INVALID_ROTATION
      else rotation_scan ps old_id new_id)"

definition accepted_rotations :: "stn_identity_rotation_state \<Rightarrow> (bytes \<times> bytes) list" where
  "accepted_rotations s = take (rotation_count s) (zip (old_identities s) (new_identities s))"

definition stn_identity_rotation_validate ::
  "ed25519 \<Rightarrow> bytes option \<Rightarrow> stn_identity_rotation_state \<Rightarrow> bytes list option \<Rightarrow> nat \<Rightarrow>
   stn_identity_rotation_result" where
  "stn_identity_rotation_validate ed rotation state roots count =
     (case rotation of
        None \<Rightarrow> STN_AUTHORITY_MALFORMED_ROTATION
      | Some r \<Rightarrow>
          if length r \<noteq> STN_AUTHORITY_ROTATION_SIZE \<or> r ! 0 \<noteq> STN_AUTHORITY_VERSION \<or>
             rotation_count state > STN_AUTHORITY_MAX_ROTATIONS \<or>
             stn_authority_root_set_validate roots count \<noteq> STN_AUTHORITY_AUTHORIZED
          then STN_AUTHORITY_MALFORMED_ROTATION
          else
            (case (stn_identity_derive (Some (drop 1 r)), stn_identity_derive (Some (drop 33 r))) of
               (Inr old_id, Inr new_id) \<Rightarrow>
                 if memcmp old_id new_id = 0 \<or> root_contains roots count old_id \<or>
                    root_contains roots count new_id
                 then STN_AUTHORITY_INVALID_ROTATION
                 else
                   (case rotation_scan (accepted_rotations state) old_id new_id of
                      Some result \<Rightarrow> result
                    | None \<Rightarrow>
                        if memcmp old_id (current_identity state) \<noteq> 0
                        then STN_AUTHORITY_INVALID_ROTATION
                        else
                          (case stn_identity_rotation_statement (Some old_id) (Some new_id)
                                  (STN_AUTHORITY_ROTATE_DOMAIN_SIZE + 65) of
                             Inl _ \<Rightarrow> STN_AUTHORITY_MALFORMED_ROTATION
                           | Inr statement \<Rightarrow>
                               (case stn_identity_verify ed (Some old_id) (Some statement)
                                       (Some (drop 65 r)) 64 of
                                  STN_IDENTITY_VALID \<Rightarrow> STN_AUTHORITY_VALID_ROTATION
                                | STN_IDENTITY_MALFORMED \<Rightarrow> STN_AUTHORITY_MALFORMED_ROTATION
                                | STN_IDENTITY_INVALID \<Rightarrow> STN_AUTHORITY_INVALID_ROTATION)))
             | _ \<Rightarrow> STN_AUTHORITY_MALFORMED_ROTATION))"

definition stn_identity_rotation_initialize :: "bytes option \<Rightarrow> stn_identity_rotation_state" where
  "stn_identity_rotation_initialize initial =
     (let zero = replicate 32 0;
          i = (case stn_identity_derive initial of Inl _ \<Rightarrow> zero | Inr i \<Rightarrow> i)
      in \<lparr>initial_identity = i, current_identity = i,
          old_identities = replicate STN_AUTHORITY_MAX_ROTATIONS zero,
          new_identities = replicate STN_AUTHORITY_MAX_ROTATIONS zero, rotation_count = 0\<rparr>)"

definition stn_identity_rotation_apply ::
  "ed25519 \<Rightarrow> stn_identity_rotation_state \<Rightarrow> bytes option \<Rightarrow> bytes list option \<Rightarrow> nat \<Rightarrow>
   stn_identity_rotation_result \<times> stn_identity_rotation_state" where
  "stn_identity_rotation_apply ed state rotation roots count =
     (let r = stn_identity_rotation_validate ed rotation state roots count
      in if r \<noteq> STN_AUTHORITY_VALID_ROTATION then (r, state)
         else
           (case rotation of
              None \<Rightarrow> (STN_AUTHORITY_MALFORMED_ROTATION, state)
            | Some bs \<Rightarrow>
                (let old_id = take 32 (drop 1 bs); new_id = take 32 (drop 33 bs)
                 in if memcmp (current_identity state) new_id = 0
                    then (STN_AUTHORITY_VALID_ROTATION, state)
                    else if rotation_count state = STN_AUTHORITY_MAX_ROTATIONS
                    then (STN_AUTHORITY_INVALID_ROTATION, state)
                    else
                      (STN_AUTHORITY_VALID_ROTATION,
                       state\<lparr>old_identities := (old_identities state)[rotation_count state := old_id],
                         new_identities := (new_identities state)[rotation_count state := new_id],
                         current_identity := new_id,
                         rotation_count := rotation_count state + 1\<rparr>))))"

definition stn_identity_rotation_current ::
  "stn_identity_rotation_state \<Rightarrow> stn_identity_rotation_result + bytes" where
  "stn_identity_rotation_current state =
     (if rotation_count state > STN_AUTHORITY_MAX_ROTATIONS then Inl STN_AUTHORITY_MALFORMED_ROTATION
      else
        (case stn_identity_derive (Some (current_identity state)) of
           Inl _ \<Rightarrow> Inl STN_AUTHORITY_MALFORMED_ROTATION
         | Inr current \<Rightarrow> Inr current))"

section \<open>The lineage invariant\<close>

text \<open>
  The identities a lineage has gone through, in order: the first old one, then every successor. In
  a lineage each accepted pair starts where the one before ended, no identity occurs twice, and the
  current identity is the last.
\<close>

definition rotation_wf :: "stn_identity_rotation_state \<Rightarrow> bool" where
  "rotation_wf s \<longleftrightarrow> length (old_identities s) = 256 \<and> length (new_identities s) = 256 \<and>
     rotation_count s \<le> 256"

definition olds :: "stn_identity_rotation_state \<Rightarrow> bytes list" where
  "olds s = take (rotation_count s) (old_identities s)"

definition news :: "stn_identity_rotation_state \<Rightarrow> bytes list" where
  "news s = take (rotation_count s) (new_identities s)"

definition lineage :: "stn_identity_rotation_state \<Rightarrow> bool" where
  "lineage s \<longleftrightarrow> rotation_wf s \<and> olds s @ [current_identity s] = hd (olds s @ [current_identity s]) # news s \<and>
     distinct (olds s @ [current_identity s])"

lemma rotation_scan_None_iff:
  "rotation_scan ps a b = None \<longleftrightarrow> a \<notin> fst ` set ps \<and> b \<notin> fst ` set ps"
  by (induction ps) (auto split: if_splits)

lemma accepted_rotations_zip:
  "rotation_wf s \<Longrightarrow> accepted_rotations s = zip (olds s) (news s)"
  by (simp add: accepted_rotations_def olds_def news_def take_zip)

lemma length_olds [simp]: "rotation_wf s \<Longrightarrow> length (olds s) = rotation_count s"
  and length_news [simp]: "rotation_wf s \<Longrightarrow> length (news s) = rotation_count s"
  by (simp_all add: olds_def news_def rotation_wf_def)

lemma accepted_rotations_olds: "rotation_wf s \<Longrightarrow> fst ` set (accepted_rotations s) = set (olds s)"
  by (metis accepted_rotations_zip length_news length_olds list.set_map map_fst_zip)

text \<open>The state after an accepted pair is recorded.\<close>

definition record_rotation :: "stn_identity_rotation_state \<Rightarrow> bytes \<Rightarrow> bytes \<Rightarrow> stn_identity_rotation_state" where
  "record_rotation s a b =
     s\<lparr>old_identities := (old_identities s)[rotation_count s := a],
       new_identities := (new_identities s)[rotation_count s := b],
       current_identity := b, rotation_count := rotation_count s + 1\<rparr>"

lemma record_rotation_fields:
  assumes "rotation_wf s" "rotation_count s < 256"
  shows "olds (record_rotation s a b) = olds s @ [a]" "news (record_rotation s a b) = news s @ [b]"
    "current_identity (record_rotation s a b) = b" "rotation_wf (record_rotation s a b)"
    "rotation_count (record_rotation s a b) = Suc (rotation_count s)"
  using assms
  by (simp_all add: record_rotation_def olds_def news_def rotation_wf_def take_Suc_conv_app_nth)

lemma lineage_extend:
  assumes "lineage s" "rotation_count s < 256" "b \<notin> set (olds s)" "b \<noteq> current_identity s"
  shows "lineage (record_rotation s (current_identity s) b)"
proof -
  have wf: "rotation_wf s" using assms(1) by (simp add: lineage_def)
  note f = record_rotation_fields [OF wf assms(2), of "current_identity s" b]
  have "olds s @ [current_identity s, b] = hd (olds s @ [current_identity s]) # news s @ [b]"
    using assms(1) unfolding lineage_def by (metis append.assoc append_Cons append_Nil)
  moreover have "hd (olds s @ [current_identity s, b]) = hd (olds s @ [current_identity s])"
    by (cases "olds s") simp_all
  ultimately show ?thesis
    using assms f by (simp add: lineage_def)
qed

lemma rotation_scan_Some:
  "rotation_scan ps a b = Some STN_AUTHORITY_VALID_ROTATION \<Longrightarrow> (a, b) \<in> set ps"
  by (induction ps) (auto split: if_splits)

lemma rotation_scan_first:
  "i < length ps \<Longrightarrow> ps ! i = (a, b) \<Longrightarrow> distinct (map fst ps) \<Longrightarrow> b \<notin> fst ` set (take i ps) \<Longrightarrow>
     rotation_scan ps a b = Some STN_AUTHORITY_VALID_ROTATION"
proof (induction ps arbitrary: i)
  case Nil
  then show ?case by simp
next
  case (Cons p ps)
  show ?case
  proof (cases i)
    case 0
    with Cons.prems show ?thesis by simp
  next
    case (Suc j)
    with Cons.prems have j: "j < length ps" "ps ! j = (a, b)" by simp_all
    then have "(a, b) \<in> set ps" using nth_mem by fastforce
    with Cons.prems(3) have "fst p \<noteq> a"
      by (metis distinct.simps(2) fst_conv image_eqI list.set_map list.simps(9))
    moreover have "fst p \<noteq> b" "b \<notin> fst ` set (take j ps)" using Cons.prems(4) Suc by auto
    ultimately show ?thesis
      using Cons.IH [OF j] Cons.prems(3) by (cases p) simp
  qed
qed

text \<open>What the checks before the lineage scan say of a rotation record.\<close>

definition rotation_checks :: "bytes \<Rightarrow> stn_identity_rotation_state \<Rightarrow> bytes list option \<Rightarrow> nat \<Rightarrow> bool" where
  "rotation_checks r s roots count \<longleftrightarrow> length r = 129 \<and> r ! 0 = 1 \<and> rotation_count s \<le> 256 \<and>
     stn_authority_root_set_validate roots count = STN_AUTHORITY_AUTHORIZED \<and>
     stn_identity_derive (Some (drop 1 r)) = Inr (take 32 (drop 1 r)) \<and>
     stn_identity_derive (Some (drop 33 r)) = Inr (take 32 (drop 33 r)) \<and>
     take 32 (drop 1 r) \<noteq> take 32 (drop 33 r) \<and>
     \<not> root_contains roots count (take 32 (drop 1 r)) \<and> \<not> root_contains roots count (take 32 (drop 33 r))"

definition rotation_signed :: "ed25519 \<Rightarrow> bytes \<Rightarrow> bool" where
  "rotation_signed ed r \<longleftrightarrow> stn_identity_verify ed (Some (take 32 (drop 1 r)))
     (Some (STN_AUTHORITY_ROTATE_DOMAIN @ [0] @ [1] @ take 32 (drop 1 r) @ take 32 (drop 33 r)))
     (Some (drop 65 r)) 64 = STN_IDENTITY_VALID"

lemma derive_take: "stn_identity_derive (Some k) = Inr i \<Longrightarrow> stn_identity_derive (Some i) = Inr i"
  by (auto simp: canonical_point_def small_order_def Let_def split: if_splits)

lemma rotation_validate_iff:
  "stn_identity_rotation_validate ed (Some r) s roots count = STN_AUTHORITY_VALID_ROTATION \<longleftrightarrow>
     rotation_checks r s roots count \<and>
     (case rotation_scan (accepted_rotations s) (take 32 (drop 1 r)) (take 32 (drop 33 r)) of
        Some result \<Rightarrow> result = STN_AUTHORITY_VALID_ROTATION
      | None \<Rightarrow> take 32 (drop 1 r) = current_identity s \<and> rotation_signed ed r)"
proof -
  have statement: "stn_identity_rotation_statement (Some a) (Some b) (28 + 65) =
      Inr (STN_AUTHORITY_ROTATE_DOMAIN @ [0] @ [1] @ a @ b)"
    if "stn_identity_derive (Some a) = Inr a" "stn_identity_derive (Some b) = Inr b" "a \<noteq> b" for a b
    using that by (simp add: stn_identity_rotation_statement_def)
  show ?thesis
  proof (cases "rotation_checks r s roots count")
    case True
    then have d: "stn_identity_derive (Some (drop 1 r)) = Inr (take 32 (drop 1 r))"
        "stn_identity_derive (Some (drop 33 r)) = Inr (take 32 (drop 33 r))"
        "take 32 (drop 1 r) \<noteq> take 32 (drop 33 r)"
      by (simp_all add: rotation_checks_def)
    note st = statement [OF derive_take [OF d(1)] derive_take [OF d(2)] d(3)]
    show ?thesis
      using True d st
      by (auto simp: stn_identity_rotation_validate_def rotation_checks_def rotation_signed_def
          simp del: stn_identity_derive.simps split: option.splits stn_identity_result.splits)
  next
    case False
    have "stn_identity_rotation_validate ed (Some r) s roots count \<noteq> STN_AUTHORITY_VALID_ROTATION"
    proof
      assume "stn_identity_rotation_validate ed (Some r) s roots count = STN_AUTHORITY_VALID_ROTATION"
      then obtain a b where "length r = 129" "r ! 0 = 1" "rotation_count s \<le> 256"
          "stn_authority_root_set_validate roots count = STN_AUTHORITY_AUTHORIZED"
          and ab: "stn_identity_derive (Some (drop 1 r)) = Inr a" "stn_identity_derive (Some (drop 33 r)) = Inr b"
          and "a \<noteq> b" "\<not> root_contains roots count a" "\<not> root_contains roots count b"
        by (auto simp: stn_identity_rotation_validate_def simp del: stn_identity_derive.simps
            split: sum.splits if_splits)
      moreover have "a = take 32 (drop 1 r)" "b = take 32 (drop 33 r)"
        using ab by (auto split: if_splits)
      ultimately show False using False by (simp add: rotation_checks_def)
    qed
    with False show ?thesis by simp
  qed
qed

text \<open>One application to a lineage, by result.\<close>

lemma rotation_apply_cases:
  assumes "lineage s"
  shows "case stn_identity_rotation_apply ed s (Some r) roots count of (result, t) \<Rightarrow>
    let a = take 32 (drop 1 r); b = take 32 (drop 33 r) in
    if result \<noteq> STN_AUTHORITY_VALID_ROTATION then t = s
    else if a \<in> set (olds s)
    then (a, b) \<in> set (zip (olds s) (news s)) \<and>
      t = (if b = current_identity s then s else record_rotation s a b)
    else a = current_identity s \<and> rotation_signed ed r \<and> b \<notin> set (olds s) \<and> b \<noteq> a \<and>
      t = record_rotation s a b \<and> lineage t"
proof -
  let ?a = "take 32 (drop 1 r)" and ?b = "take 32 (drop 33 r)"
  obtain result t where call: "stn_identity_rotation_apply ed s (Some r) roots count = (result, t)"
    by force
  have wf: "rotation_wf s" using assms by (simp add: lineage_def)
  note apply_def = stn_identity_rotation_apply_def Let_def
  show ?thesis
  proof (cases "result = STN_AUTHORITY_VALID_ROTATION")
    case False
    then have "t = s" using call by (auto simp: apply_def split: if_splits)
    with False call show ?thesis by simp
  next
    case True
    then have v: "stn_identity_rotation_validate ed (Some r) s roots count = STN_AUTHORITY_VALID_ROTATION"
        and room: "current_identity s \<noteq> ?b \<Longrightarrow> rotation_count s < 256"
        and t: "t = (if ?b = current_identity s then s else record_rotation s ?a ?b)"
      using call wf by (auto simp: apply_def record_rotation_def rotation_wf_def split: if_splits)
    note v' = v [unfolded rotation_validate_iff]
    show ?thesis
    proof (cases "?a \<in> set (olds s)")
      case old: True
      then obtain res where "rotation_scan (accepted_rotations s) ?a ?b = Some res"
        by (metis rotation_scan_None_iff accepted_rotations_olds [OF wf] not_Some_eq)
      with v' have "(?a, ?b) \<in> set (accepted_rotations s)"
        using rotation_scan_Some by (simp split: option.splits)
      then show ?thesis
        using call True old t by (simp add: accepted_rotations_zip [OF wf] Let_def)
    next
      case new: False
      have none: "rotation_scan (accepted_rotations s) ?a ?b = None"
      proof (rule ccontr)
        assume "rotation_scan (accepted_rotations s) ?a ?b \<noteq> None"
        with v' have "rotation_scan (accepted_rotations s) ?a ?b = Some STN_AUTHORITY_VALID_ROTATION"
          by (auto split: option.splits)
        then have "(?a, ?b) \<in> set (accepted_rotations s)" by (rule rotation_scan_Some)
        then show False using new accepted_rotations_olds [OF wf] by force
      qed
      from v' have "?a = current_identity s" "rotation_signed ed r" "?a \<noteq> ?b"
        unfolding none option.case rotation_checks_def by blast+
      moreover from none have "?b \<notin> set (olds s)"
        by (simp add: rotation_scan_None_iff accepted_rotations_olds [OF wf])
      ultimately have cur: "?a = current_identity s" "rotation_signed ed r" "?b \<notin> set (olds s)" "?b \<noteq> ?a"
        by metis+
      with room have "lineage (record_rotation s ?a ?b)"
        using lineage_extend [OF assms] by simp
      with call True new cur t show ?thesis by (simp add: Let_def)
    qed
  qed
qed

text \<open>
  What an accepted rotation does to the lineage. From a lineage, an application that is not VALID
  changes nothing. A VALID one whose old identity is not retired was signed by the current identity,
  names a successor that was never retired, and extends the lineage by that successor. A VALID one
  whose old identity is retired repeats an accepted pair: it changes nothing when the successor is
  the current identity, and otherwise records the pair again and makes its successor current.
\<close>

theorem rotation_apply_lineage:
  assumes "lineage s"
  shows "case stn_identity_rotation_apply ed s (Some r) roots count of (result, t) \<Rightarrow>
    let a = take 32 (drop 1 r); b = take 32 (drop 33 r) in
    if result \<noteq> STN_AUTHORITY_VALID_ROTATION then t = s
    else if a \<in> set (olds s)
    then (a, b) \<in> set (zip (olds s) (news s)) \<and>
      t = (if b = current_identity s then s else record_rotation s a b)
    else a = current_identity s \<and> rotation_signed ed r \<and> b \<notin> set (olds s) \<and> b \<noteq> a \<and>
      t = record_rotation s a b \<and> lineage t"
  using rotation_apply_cases [OF assms] .

lemma lineage_next:
  assumes "lineage s" "Suc i < rotation_count s"
  shows "news s ! i = olds s ! Suc i"
proof -
  have wf: "rotation_wf s" using assms(1) by (simp add: lineage_def)
  have "(olds s @ [current_identity s]) ! Suc i = news s ! i"
    using assms(1) unfolding lineage_def by (metis nth_Cons_Suc)
  then show ?thesis using assms(2) wf by (simp add: nth_append)
qed

text \<open>
  C40. A superseded rotation can be replayed to move the current identity back. In a lineage with at
  least two rotations and room for one more, take any accepted pair but the last: a rotation record
  of that pair, with whatever 64 bytes as its signature, is answered VALID and makes the retired
  successor current again, although the pair's old identity is long retired and nobody signed.
\<close>

theorem rotation_replay_rolls_back:
  assumes "lineage s" "rotation_count s < 256" "Suc i < rotation_count s"
    "a = olds s ! i" "b = news s ! i" "length a = 32" "length b = 32"
    "stn_identity_derive (Some a) = Inr a" "stn_identity_derive (Some b) = Inr b"
    "stn_authority_root_set_validate roots count = STN_AUTHORITY_AUTHORIZED"
    "\<not> root_contains roots count a" "\<not> root_contains roots count b" "length sg = 64"
  shows "stn_identity_rotation_apply ed s (Some ([1] @ a @ b @ sg)) roots count =
      (STN_AUTHORITY_VALID_ROTATION, record_rotation s a b) \<and>
    current_identity (record_rotation s a b) = b \<and> b \<noteq> current_identity s"
proof -
  let ?r = "[1] @ a @ b @ sg"
  have wf: "rotation_wf s" using assms(1) by (simp add: lineage_def)
  have next_old: "b = olds s ! Suc i"
    using lineage_next [OF assms(1,3)] assms(5) by simp
  have d: "distinct (olds s @ [current_identity s])" using assms(1) by (simp add: lineage_def)
  have len: "length (olds s) = rotation_count s" "length (news s) = rotation_count s"
    using wf by simp_all
  have current: "b \<noteq> current_identity s" "a \<noteq> b"
    using d next_old assms(3,4) len nth_mem [of "Suc i" "olds s"]
    by (auto simp del: nth_mem simp: nth_eq_iff_index_eq)
  have fields: "take 32 (drop 1 ?r) = a" "take 32 (drop 33 ?r) = b"
    using assms(6,7) by simp_all
  have "stn_identity_derive (Some (drop 1 ?r)) = Inr a" "stn_identity_derive (Some (drop 33 ?r)) = Inr b"
    using assms(6-9) fields by (auto simp: canonical_point_def small_order_def Let_def split: if_splits)
  then have checks: "rotation_checks ?r s roots count"
    using assms fields current wf by (simp add: rotation_checks_def rotation_wf_def
        del: drop_Suc_Cons One_nat_def stn_identity_derive.simps append_Cons append_Nil)
      (use assms(6,7,13) in simp)
  have "b \<notin> set (take i (olds s))"
    using d next_old assms(3) len by (auto simp: in_set_conv_nth nth_eq_iff_index_eq)
  then have "rotation_scan (accepted_rotations s) a b = Some STN_AUTHORITY_VALID_ROTATION"
    using rotation_scan_first [of i "zip (olds s) (news s)" a b] assms(3-5) len d
    by (simp add: accepted_rotations_zip [OF wf] take_zip set_map [symmetric] del: set_map)
  with checks fields have "stn_identity_rotation_validate ed (Some ?r) s roots count = STN_AUTHORITY_VALID_ROTATION"
    by (simp only: rotation_validate_iff fields) simp
  with fields current assms(2) show ?thesis
    by (simp add: stn_identity_rotation_apply_def Let_def record_rotation_def
        del: drop_Suc_Cons One_nat_def append_Cons append_Nil)
qed

section \<open>Concrete lineages\<close>

lemma sample_identities:
  "stn_identity_derive (Some (4 # replicate 31 0)) = Inr (4 # replicate 31 0)"
  "stn_identity_derive (Some (5 # replicate 31 0)) = Inr (5 # replicate 31 0)"
  "stn_identity_derive (Some (4 # replicate 31 0 @ xs)) = Inr (4 # replicate 31 0)"
  by (simp_all add: canonical_point_value le_value_def be_append small_order_def nonzero_iff)

definition sample_lineage :: stn_identity_rotation_state where
  "sample_lineage = stn_identity_rotation_initialize (Some (2 # replicate 31 0))"

definition sample_lineage2 :: stn_identity_rotation_state where
  "sample_lineage2 = record_rotation
     (record_rotation sample_lineage (2 # replicate 31 0) (4 # replicate 31 0))
     (4 # replicate 31 0) (5 # replicate 31 0)"

lemma sample_lineage_parts:
  "rotation_wf sample_lineage" "rotation_count sample_lineage = 0" "olds sample_lineage = []"
  "news sample_lineage = []" "current_identity sample_lineage = 2 # replicate 31 0"
  by (simp_all add: sample_lineage_def stn_identity_rotation_initialize_def rotation_wf_def olds_def
      news_def Let_def del: stn_identity_derive.simps)

lemma sample_lineage_ok: "lineage sample_lineage"
  by (simp add: lineage_def sample_lineage_parts)

lemma sample_lineage2_ok:
  "lineage sample_lineage2" "rotation_count sample_lineage2 = 2"
  "olds sample_lineage2 = [2 # replicate 31 0, 4 # replicate 31 0]"
  "news sample_lineage2 = [4 # replicate 31 0, 5 # replicate 31 0]"
  "current_identity sample_lineage2 = 5 # replicate 31 0"
proof -
  let ?a = "2 # replicate 31 0 :: bytes" and ?b = "4 # replicate 31 0 :: bytes" and ?c = "5 # replicate 31 0 :: bytes"
  note f1 = record_rotation_fields [OF sample_lineage_parts(1), of ?a ?b]
  let ?s1 = "record_rotation sample_lineage ?a ?b"
  have one: "lineage ?s1"
    using lineage_extend [OF sample_lineage_ok, of ?b] by (simp add: sample_lineage_parts)
  have n1: "rotation_count ?s1 = 1" "olds ?s1 = [?a]" "news ?s1 = [?b]" "current_identity ?s1 = ?b" "rotation_wf ?s1"
    using f1 by (simp_all add: sample_lineage_parts)
  note f2 = record_rotation_fields [OF n1(5), of ?b ?c]
  show "lineage sample_lineage2"
    unfolding sample_lineage2_def using lineage_extend [OF one, of ?c] by (simp add: n1)
  show "rotation_count sample_lineage2 = 2" "olds sample_lineage2 = [?a, ?b]"
    "news sample_lineage2 = [?b, ?c]" "current_identity sample_lineage2 = ?c"
    unfolding sample_lineage2_def using f2 by (simp_all add: n1)
qed

lemma no_roots: "stn_authority_root_set_validate (Some []) 0 = STN_AUTHORITY_AUTHORIZED"
  "\<not> root_contains (Some []) 0 k"
  by (simp_all add: stn_authority_root_set_validate_def root_list_def root_contains_def)

theorem rotation_apply_lineage_witness:
  "lineage (snd (stn_identity_rotation_apply sample_ed sample_lineage
     (Some ([1] @ (2 # replicate 31 0) @ (4 # replicate 31 0) @ (2 # replicate 31 0) @ replicate 32 0))
     (Some []) 0)) \<and>
   fst (stn_identity_rotation_apply sample_ed sample_lineage
     (Some ([1] @ (2 # replicate 31 0) @ (4 # replicate 31 0) @ (2 # replicate 31 0) @ replicate 32 0))
     (Some []) 0) = STN_AUTHORITY_VALID_ROTATION"
proof -
  let ?r = "[1] @ (2 # replicate 31 0) @ (4 # replicate 31 0) @ (2 # replicate 31 0) @ replicate 32 0 :: bytes"
  have parts: "take 32 (drop 1 ?r) = 2 # replicate 31 0" "take 32 (drop 33 ?r) = 4 # replicate 31 0"
      "drop 65 ?r = 2 # replicate 31 0 @ replicate 32 0" by simp_all
  have checks: "rotation_checks ?r sample_lineage (Some []) 0"
    unfolding rotation_checks_def parts
    by (simp add: sample_lineage_parts no_roots sample_identities del: stn_identity_derive.simps)
  moreover have "rotation_signed sample_ed ?r"
    unfolding rotation_signed_def parts using sample_key_canonical
    by (simp add: stn_identity_verify_def sample_ed_def)
  ultimately have v: "stn_identity_rotation_validate sample_ed (Some ?r) sample_lineage (Some []) 0 =
      STN_AUTHORITY_VALID_ROTATION"
    unfolding rotation_validate_iff parts
    by (simp add: accepted_rotations_zip sample_lineage_parts)
  have "fst (stn_identity_rotation_apply sample_ed sample_lineage (Some ?r) (Some []) 0) =
      STN_AUTHORITY_VALID_ROTATION"
    unfolding stn_identity_rotation_apply_def v Let_def by (simp add: sample_lineage_parts)
  then obtain t where call: "stn_identity_rotation_apply sample_ed sample_lineage (Some ?r) (Some []) 0 =
      (STN_AUTHORITY_VALID_ROTATION, t)" by (metis prod.collapse)
  from rotation_apply_lineage [OF sample_lineage_ok, where ed = sample_ed and r = ?r and roots = "Some []" and count = 0]
  have "lineage t" unfolding call Let_def parts prod.case sample_lineage_parts by auto
  then show ?thesis unfolding call by simp
qed

theorem rotation_replay_rolls_back_witness:
  "stn_identity_rotation_apply sample_ed sample_lineage2
     (Some ([1] @ (2 # replicate 31 0) @ (4 # replicate 31 0) @ replicate 64 0)) (Some []) 0 =
     (STN_AUTHORITY_VALID_ROTATION,
      record_rotation sample_lineage2 (2 # replicate 31 0) (4 # replicate 31 0))"
proof -
  have "2 # replicate 31 0 = olds sample_lineage2 ! 0" "4 # replicate 31 0 = news sample_lineage2 ! 0"
    "rotation_count sample_lineage2 < 256" "Suc 0 < rotation_count sample_lineage2"
    by (simp_all add: sample_lineage2_ok)
  from rotation_replay_rolls_back [OF sample_lineage2_ok(1) this(3,4,1,2) _ _
      sample_key_derive(1) sample_identities(1) no_roots(1) no_roots(2) no_roots(2), of "replicate 64 0" sample_ed]
  show ?thesis by (simp only: length_Cons length_replicate)
qed

end
