(* ===== verification/Stn_Lifecycle.thy ===== *)
theory Stn_Lifecycle
  imports Stn_Block Stn_Rotation Stn_Replay "HOL-Library.Sublist"
begin

text \<open>
  The accepted authority lifecycle of a chain, \<^verbatim>\<open>src/src/stn_lifecycle.c\<close>: the grants in force, the
  revocations, the rotation lineage and the replay registry that grants, revocations, rotations and
  publications share, driven by the transactions of accepted blocks. The grant array is a caller's
  buffer of 194-byte slots with a count and a capacity, so \<open>key_buffer\<close> models it.
\<close>

section \<open>State\<close>

datatype stn_lifecycle_result =
    STN_LIFECYCLE_OK | STN_LIFECYCLE_ARGUMENT | STN_LIFECYCLE_MALFORMED | STN_LIFECYCLE_INVALID
  | STN_LIFECYCLE_REPLAY | STN_LIFECYCLE_CAPACITY | STN_LIFECYCLE_PROVIDER

definition STN_GENESIS_INITIAL_IDENTITY_MAX :: nat where [simp]: "STN_GENESIS_INITIAL_IDENTITY_MAX = 16"

definition STN_LIFECYCLE_REPLAY_DOMAIN :: bytes where
  "STN_LIFECYCLE_REPLAY_DOMAIN = cstring ''STN-CHAIN:LIFECYCLE:REPLAY:1''"

record stn_lifecycle_state =
  lc_grants :: key_buffer
  lc_authority :: stn_authority_state
  lc_rotation :: stn_identity_rotation_state
  lc_replay :: key_buffer
  lc_initial_identity :: bytes
  lc_initial_identities :: "bytes list"
  lc_initial_count :: nat

definition stn_lifecycle_initialize ::
  "bytes list option \<Rightarrow> nat \<Rightarrow> bytes list option \<Rightarrow> nat \<Rightarrow> bytes \<Rightarrow> stn_lifecycle_state" where
  "stn_lifecycle_initialize grant_bytes grant_capacity replay_bytes replay_capacity initial =
     \<lparr>lc_grants = key_buffer_initialize grant_bytes grant_capacity,
      lc_authority = stn_authority_state_initialize,
      lc_rotation = stn_identity_rotation_initialize (Some initial),
      lc_replay = stn_replay_state_initialize replay_bytes replay_capacity,
      lc_initial_identity = take 32 initial,
      lc_initial_identities = replicate STN_GENESIS_INITIAL_IDENTITY_MAX (replicate 32 0),
      lc_initial_count = 0\<rparr>"

definition stn_lifecycle_set_initial_identities ::
  "stn_lifecycle_state \<Rightarrow> bytes list option \<Rightarrow> nat \<Rightarrow> stn_lifecycle_state" where
  "stn_lifecycle_set_initial_identities s ids count =
     (if count > STN_GENESIS_INITIAL_IDENTITY_MAX \<or> (count \<noteq> 0 \<and> ids = None) then s
      else s\<lparr>lc_initial_count := count,
        lc_initial_identities := (case ids of None \<Rightarrow> lc_initial_identities s
          | Some xs \<Rightarrow> take count xs @ drop count (lc_initial_identities s))\<rparr>)"

definition stn_lifecycle_rebind ::
  "stn_lifecycle_state \<Rightarrow> bytes list option \<Rightarrow> nat \<Rightarrow> bytes list option \<Rightarrow> nat \<Rightarrow> stn_lifecycle_state" where
  "stn_lifecycle_rebind s grant_bytes grant_capacity replay_bytes replay_capacity =
     s\<lparr>lc_grants := (lc_grants s)\<lparr>consumed := grant_bytes, consumed_capacity := grant_capacity\<rparr>,
       lc_replay := (lc_replay s)\<lparr>consumed := replay_bytes, consumed_capacity := replay_capacity\<rparr>\<rparr>"

section \<open>Transactions\<close>

definition map_rev :: "stn_authority_revocation_result \<Rightarrow> stn_lifecycle_result" where
  "map_rev r = (if r = STN_AUTHORITY_VALID_REVOCATION then STN_LIFECYCLE_OK
     else if r = STN_AUTHORITY_MALFORMED_REVOCATION then STN_LIFECYCLE_MALFORMED
     else STN_LIFECYCLE_INVALID)"

definition map_rot :: "stn_identity_rotation_result \<Rightarrow> stn_lifecycle_result" where
  "map_rot r = (if r = STN_AUTHORITY_VALID_ROTATION then STN_LIFECYCLE_OK
     else if r = STN_AUTHORITY_MALFORMED_ROTATION then STN_LIFECYCLE_MALFORMED
     else STN_LIFECYCLE_INVALID)"

text \<open>The nonce of an unsigned lifecycle record: the hash of its type and signed statement.\<close>

definition stn_lifecycle_replay_nonce ::
  "u16 \<Rightarrow> bytes option \<Rightarrow> stn_hash_provider \<Rightarrow> stn_lifecycle_result + bytes" where
  "stn_lifecycle_replay_nonce type statement provider =
     (case (statement, provider) of
        (Some st, Some hash) \<Rightarrow>
          if length st > STN_AUTHORITY_GRANT_DOMAIN_SIZE + STN_AUTHORITY_GRANT_SIZE
          then Inl STN_LIFECYCLE_ARGUMENT
          else
            (case hash [] (STN_LIFECYCLE_REPLAY_DOMAIN @ stn_wire_write 2 (ucast type) @ st) of
               Inl _ \<Rightarrow> Inl STN_LIFECYCLE_PROVIDER
             | Inr nonce \<Rightarrow> if \<not> nonzero nonce then Inl STN_LIFECYCLE_MALFORMED else Inr nonce)
      | _ \<Rightarrow> Inl STN_LIFECYCLE_ARGUMENT)"

text \<open>The registry part of both consume functions.\<close>

definition consume_id :: "stn_lifecycle_state \<Rightarrow> bytes \<Rightarrow> stn_lifecycle_result \<times> stn_lifecycle_state" where
  "consume_id s i =
     (if stn_replay_state_check (lc_replay s) (Some i) = STN_REPLAY_REPLAY then (STN_LIFECYCLE_REPLAY, s)
      else
        (case stn_replay_state_consume (lc_replay s) (Some i) of
           (r, registry) \<Rightarrow>
             (if r \<noteq> STN_REPLAY_FRESH then STN_LIFECYCLE_CAPACITY else STN_LIFECYCLE_OK,
              s\<lparr>lc_replay := registry\<rparr>)))"

definition consume ::
  "stn_lifecycle_state \<Rightarrow> bytes \<Rightarrow> u16 \<Rightarrow> bytes \<Rightarrow> stn_hash_provider \<Rightarrow>
   stn_lifecycle_result \<times> stn_lifecycle_state" where
  "consume s signer type statement provider =
     (case stn_lifecycle_replay_nonce type (Some statement) provider of
        Inl r \<Rightarrow> (r, s)
      | Inr nonce \<Rightarrow>
          (case stn_replay_id_from_signer_nonce (Some signer) (Some nonce) of
             Inl _ \<Rightarrow> (STN_LIFECYCLE_MALFORMED, s)
           | Inr i \<Rightarrow> consume_id s i))"

definition find_grant :: "stn_lifecycle_state \<Rightarrow> bytes \<Rightarrow> stn_hash_provider \<Rightarrow> bytes option" where
  "find_grant s i provider =
     find (\<lambda>g. case stn_authority_grant_id (Some g) provider of
         Inl _ \<Rightarrow> False | Inr digest \<Rightarrow> memcmp digest (take 32 i) = 0) (accepted (lc_grants s))"

definition initial_contains :: "stn_lifecycle_state \<Rightarrow> bytes \<Rightarrow> bool" where
  "initial_contains s i \<longleftrightarrow>
     list_ex (\<lambda>x. memcmp x (take 32 i) = 0) (take (lc_initial_count s) (lc_initial_identities s))"

definition consume_publication ::
  "stn_lifecycle_state \<Rightarrow> stn_record \<Rightarrow> stn_lifecycle_result \<times> stn_lifecycle_state" where
  "consume_publication s r =
     (case stn_replay_id_from_signer_nonce (Some (rec_signer_public_key r)) (Some (rec_nonce r)) of
        Inl _ \<Rightarrow> (STN_LIFECYCLE_MALFORMED, s)
      | Inr i \<Rightarrow> consume_id s i)"

text \<open>The four branches of the transaction handler, each with its record \<open>b\<close>.\<close>

definition apply_grant ::
  "ed25519 \<Rightarrow> stn_lifecycle_state \<Rightarrow> bytes \<Rightarrow> bytes list option \<Rightarrow> nat \<Rightarrow> stn_hash_provider \<Rightarrow>
   stn_lifecycle_result \<times> stn_lifecycle_state" where
  "apply_grant ed s b roots root_count provider =
     (if length b \<noteq> STN_AUTHORITY_GRANT_SIZE then (STN_LIFECYCLE_INVALID, s)
      else
        (case stn_authority_grant_validate ed (Some b) roots root_count of
           Inl _ \<Rightarrow> (STN_LIFECYCLE_INVALID, s)
         | Inr evidence \<Rightarrow>
             (case stn_authority_grant_statement (Some (drop 1 b)) (Some evidence) 256 of
                Inl _ \<Rightarrow> (STN_LIFECYCLE_INVALID, s)
              | Inr statement \<Rightarrow>
                  if consumed_count (lc_grants s) \<ge> consumed_capacity (lc_grants s) \<or>
                    consumed (lc_grants s) = None
                  then (STN_LIFECYCLE_CAPACITY, s)
                  else
                    (case consume s (drop 1 b) STN_TX_AUTHORITY_GRANT statement provider of
                       (r, s') \<Rightarrow>
                         if r \<noteq> STN_LIFECYCLE_OK then (r, s')
                         else (STN_LIFECYCLE_OK, s'\<lparr>lc_grants := store_key (lc_grants s') b\<rparr>)))))"

definition apply_revoke ::
  "ed25519 \<Rightarrow> stn_lifecycle_state \<Rightarrow> bytes \<Rightarrow> bytes list option \<Rightarrow> nat \<Rightarrow> stn_hash_provider \<Rightarrow>
   stn_lifecycle_result \<times> stn_lifecycle_state" where
  "apply_revoke ed s b roots root_count provider =
     (if length b \<noteq> STN_AUTHORITY_REVOCATION_SIZE then (STN_LIFECYCLE_INVALID, s)
      else
        (case find_grant s (drop 33 b) provider of
           None \<Rightarrow> (STN_LIFECYCLE_INVALID, s)
         | Some grant \<Rightarrow>
             if revoked_count (lc_authority s) \<ge> STN_AUTHORITY_MAX_REVOKED then (STN_LIFECYCLE_CAPACITY, s)
             else
               (case stn_authority_revocation_validate ed (Some b) (Some grant) roots root_count provider of
                  Inl _ \<Rightarrow> (STN_LIFECYCLE_INVALID, s)
                | Inr _ \<Rightarrow>
                    (case stn_authority_revocation_statement (Some (drop 1 b)) (Some (drop 33 b)) 256 of
                       Inl _ \<Rightarrow> (STN_LIFECYCLE_INVALID, s)
                     | Inr statement \<Rightarrow>
                         (case consume s (drop 1 b) STN_TX_AUTHORITY_REVOKE statement provider of
                            (r, s') \<Rightarrow>
                              if r \<noteq> STN_LIFECYCLE_OK then (r, s')
                              else
                                (case stn_authority_state_apply ed (lc_authority s') (Some b) (Some grant)
                                        roots root_count provider of
                                   (result, authority) \<Rightarrow>
                                     (map_rev result, s'\<lparr>lc_authority := authority\<rparr>)))))))"

text \<open>
  The first rotation of a chain may start at any initial identity, which becomes the current one for
  the checks and is taken back on a refusal.
\<close>

definition set_current :: "stn_lifecycle_state \<Rightarrow> bytes \<Rightarrow> stn_lifecycle_state" where
  "set_current s i = s\<lparr>lc_rotation := (lc_rotation s)\<lparr>current_identity := i\<rparr>\<rparr>"

definition apply_rotate ::
  "ed25519 \<Rightarrow> stn_lifecycle_state \<Rightarrow> bytes \<Rightarrow> bytes list option \<Rightarrow> nat \<Rightarrow> stn_hash_provider \<Rightarrow>
   stn_lifecycle_result \<times> stn_lifecycle_state" where
  "apply_rotate ed s b roots root_count provider =
     (if length b \<noteq> STN_AUTHORITY_ROTATION_SIZE then (STN_LIFECYCLE_INVALID, s)
      else
        (let seeded = rotation_count (lc_rotation s) = 0
         in if seeded \<and> \<not> initial_contains s (drop 1 b) then (STN_LIFECYCLE_INVALID, s)
            else
              (let saved = current_identity (lc_rotation s);
                   s1 = (if seeded then set_current s (take 32 (drop 1 b)) else s);
                   restore = (\<lambda>t. if seeded then set_current t saved else t)
               in if stn_identity_rotation_validate ed (Some b) (lc_rotation s1) roots root_count \<noteq>
                    STN_AUTHORITY_VALID_ROTATION
                  then (STN_LIFECYCLE_INVALID, restore s1)
                  else if rotation_count (lc_rotation s1) \<ge> STN_AUTHORITY_MAX_ROTATIONS
                  then (STN_LIFECYCLE_CAPACITY, s1)
                  else
                    (case stn_identity_rotation_statement (Some (drop 1 b)) (Some (drop 33 b)) 256 of
                       Inl _ \<Rightarrow> (STN_LIFECYCLE_INVALID, s1)
                     | Inr statement \<Rightarrow>
                         (case consume s1 (drop 1 b) STN_TX_IDENTITY_ROTATE statement provider of
                            (r, s2) \<Rightarrow>
                              if r \<noteq> STN_LIFECYCLE_OK then (r, restore s2)
                              else
                                (case stn_identity_rotation_apply ed (lc_rotation s2) (Some b) roots
                                        root_count of
                                   (result, rotation) \<Rightarrow>
                                     (map_rot result, s2\<lparr>lc_rotation := rotation\<rparr>)))))))"

definition apply_publication ::
  "stn_lifecycle_state \<Rightarrow> bytes \<Rightarrow> stn_lifecycle_result \<times> stn_lifecycle_state" where
  "apply_publication s b =
     (case stn_record_decode (Some b) of
        Inl _ \<Rightarrow> (STN_LIFECYCLE_MALFORMED, s)
      | Inr r \<Rightarrow> consume_publication s r)"

text \<open>
  The handler. The provider pointer and the function in the provider may each be NULL, and only the
  pointer is tested here, so it has an option of its own.
\<close>

definition stn_lifecycle_apply_transaction ::
  "ed25519 \<Rightarrow> stn_lifecycle_state \<Rightarrow> stn_transaction option \<Rightarrow> bytes list option \<Rightarrow> nat \<Rightarrow>
   stn_hash_provider option \<Rightarrow> stn_lifecycle_result \<times> stn_lifecycle_state" where
  "stn_lifecycle_apply_transaction ed s tx roots root_count p =
     (case (tx, p) of
        (Some t, Some provider) \<Rightarrow>
          (case txn_record_bytes t of
             None \<Rightarrow> (STN_LIFECYCLE_ARGUMENT, s)
           | Some source \<Rightarrow>
               (let b = take (unat (txn_record_length t)) source
                in if txn_type t = STN_TX_AUTHORITY_GRANT
                   then apply_grant ed s b roots root_count provider
                   else if txn_type t = STN_TX_AUTHORITY_REVOKE
                   then apply_revoke ed s b roots root_count provider
                   else if txn_type t = STN_TX_IDENTITY_ROTATE
                   then apply_rotate ed s b roots root_count provider
                   else if txn_type t = STN_TX_PUBLICATION then apply_publication s b
                   else (STN_LIFECYCLE_MALFORMED, s)))
      | _ \<Rightarrow> (STN_LIFECYCLE_ARGUMENT, s))"

section \<open>Blocks and the rebuild from history\<close>

fun lifecycle_loop ::
  "stn_hash_fn \<Rightarrow> ed25519 \<Rightarrow> bytes list option \<Rightarrow> nat \<Rightarrow> stn_hash_provider option \<Rightarrow> nat \<Rightarrow> bytes \<Rightarrow>
   stn_lifecycle_state \<Rightarrow> stn_lifecycle_result \<times> stn_lifecycle_state" where
  "lifecycle_loop sha ed roots root_count p 0 rest s = (STN_LIFECYCLE_OK, s)"
| "lifecycle_loop sha ed roots root_count p (Suc i) rest s =
     (let n = unat (stn_wire_read rest 4); after = drop 4 rest
      in case stn_transaction_decode sha (Some (take n after)) of
           Inl _ \<Rightarrow> (STN_LIFECYCLE_MALFORMED, s)
         | Inr tx \<Rightarrow>
             (case stn_lifecycle_apply_transaction ed s (Some tx) roots root_count p of
                (r, s') \<Rightarrow>
                  if r \<noteq> STN_LIFECYCLE_OK then (r, s')
                  else lifecycle_loop sha ed roots root_count p i (drop n after) s'))"

definition stn_lifecycle_apply_block ::
  "stn_hash_fn \<Rightarrow> ed25519 \<Rightarrow> stn_lifecycle_state \<Rightarrow> bytes option \<Rightarrow> bytes list option \<Rightarrow> nat \<Rightarrow>
   stn_hash_provider option \<Rightarrow> stn_lifecycle_result \<times> stn_lifecycle_state" where
  "stn_lifecycle_apply_block sha ed s block roots root_count p =
     (case stn_block_decode sha block of
        Inl _ \<Rightarrow> (STN_LIFECYCLE_MALFORMED, s)
      | Inr b \<Rightarrow>
          lifecycle_loop sha ed roots root_count p (unat (bh_transaction_count (blk_header b)))
            (case blk_body b of None \<Rightarrow> [] | Some body \<Rightarrow> body) s)"

fun blocks_loop ::
  "stn_hash_fn \<Rightarrow> ed25519 \<Rightarrow> bytes list option \<Rightarrow> nat \<Rightarrow> stn_hash_provider option \<Rightarrow> bytes option list \<Rightarrow>
   stn_lifecycle_state \<Rightarrow> stn_lifecycle_result \<times> stn_lifecycle_state" where
  "blocks_loop sha ed roots root_count p [] s = (STN_LIFECYCLE_OK, s)"
| "blocks_loop sha ed roots root_count p (block # blocks) s =
     (case stn_block_decode sha block of
        Inl _ \<Rightarrow> (STN_LIFECYCLE_MALFORMED, s)
      | Inr b \<Rightarrow>
          (case lifecycle_loop sha ed roots root_count p (unat (bh_transaction_count (blk_header b)))
                  (case blk_body b of None \<Rightarrow> [] | Some body \<Rightarrow> body) s of
             (r, s') \<Rightarrow>
               if r \<noteq> STN_LIFECYCLE_OK then (r, s')
               else blocks_loop sha ed roots root_count p blocks s'))"

text \<open>The block array and the array of lengths are one list here: each entry is a span or NULL.\<close>

definition stn_lifecycle_rebuild ::
  "stn_hash_fn \<Rightarrow> ed25519 \<Rightarrow> stn_lifecycle_state \<Rightarrow> bytes option list option \<Rightarrow> nat \<Rightarrow> bytes list option \<Rightarrow>
   nat \<Rightarrow> stn_hash_provider option \<Rightarrow> stn_lifecycle_result \<times> stn_lifecycle_state" where
  "stn_lifecycle_rebuild sha ed s blocks count roots root_count p =
     (if count \<noteq> 0 \<and> blocks = None then (STN_LIFECYCLE_ARGUMENT, s)
      else
        blocks_loop sha ed roots root_count p (case blocks of None \<Rightarrow> [] | Some bs \<Rightarrow> take count bs)
          (s\<lparr>lc_authority := stn_authority_state_initialize,
             lc_rotation := stn_identity_rotation_initialize (Some (lc_initial_identity s)),
             lc_grants := (lc_grants s)\<lparr>consumed_count := 0\<rparr>,
             lc_replay := (lc_replay s)\<lparr>consumed_count := 0\<rparr>\<rparr>))"


section \<open>The invariant of the accepted lifecycle\<close>

definition rotation_words :: "bytes \<Rightarrow> bytes \<Rightarrow> bytes" where
  "rotation_words a b = STN_AUTHORITY_ROTATE_DOMAIN @ [0] @ [STN_AUTHORITY_VERSION] @ a @ b"

text \<open>The registry key of a rotation from \<open>a\<close> to \<open>b\<close>.\<close>

definition rotation_key :: "stn_hash_provider \<Rightarrow> bytes \<Rightarrow> bytes \<Rightarrow> bytes option" where
  "rotation_key provider a b =
     (case stn_lifecycle_replay_nonce STN_TX_IDENTITY_ROTATE (Some (rotation_words a b)) provider of
        Inl _ \<Rightarrow> None | Inr nonce \<Rightarrow> Some (a @ take 32 nonce))"

text \<open>
  Buffers well formed, no replay key twice, every grant in force valid under the roots, the rotations
  a lineage, and the key of each accepted rotation in the registry.
\<close>

definition lifecycle_inv ::
  "ed25519 \<Rightarrow> bytes list option \<Rightarrow> nat \<Rightarrow> stn_hash_provider \<Rightarrow> stn_lifecycle_state \<Rightarrow> bool" where
  "lifecycle_inv ed roots n provider s \<longleftrightarrow>
     buffer_wf (lc_grants s) \<and> buffer_wf (lc_replay s) \<and> authority_wf (lc_authority s) \<and>
     lineage (lc_rotation s) \<and> distinct (accepted (lc_replay s)) \<and>
     (\<forall>g \<in> set (accepted (lc_grants s)). \<exists>e. stn_authority_grant_validate ed (Some g) roots n = Inr e) \<and>
     (\<forall>(a, b) \<in> set (zip (olds (lc_rotation s)) (news (lc_rotation s))).
        \<exists>k \<in> set (accepted (lc_replay s)). rotation_key provider a b = Some k)"

lemma consume_id_cases:
  assumes "buffer_wf (lc_replay s)"
  shows "consume_id s i =
    (if i \<in> set (accepted (lc_replay s)) then (STN_LIFECYCLE_REPLAY, s)
     else if consumed_count (lc_replay s) = consumed_capacity (lc_replay s) then (STN_LIFECYCLE_CAPACITY, s)
     else (STN_LIFECYCLE_OK, s\<lparr>lc_replay := store_key (lc_replay s) i\<rparr>))"
  using record_replay.check_spec [OF assms, of i i] record_replay.consume_spec [OF assms, of i i]
  by (simp add: consume_id_def)

text \<open>A refused consumption changes nothing; an accepted one stores one fresh key of the signer.\<close>

lemma consume_cases:
  assumes "buffer_wf (lc_replay s)" "consume s signer type statement provider = (r, t)"
  shows "if r \<noteq> STN_LIFECYCLE_OK then t = s
    else \<exists>c nonce. stn_identity_derive (Some signer) = Inr c \<and>
      stn_lifecycle_replay_nonce type (Some statement) provider = Inr nonce \<and>
      c @ take 32 nonce \<notin> set (accepted (lc_replay s)) \<and>
      consumed_count (lc_replay s) < consumed_capacity (lc_replay s) \<and>
      t = s\<lparr>lc_replay := store_key (lc_replay s) (c @ take 32 nonce)\<rparr>"
proof (cases "stn_lifecycle_replay_nonce type (Some statement) provider")
  case (Inl e)
  then have "e \<noteq> STN_LIFECYCLE_OK"
    by (auto simp: stn_lifecycle_replay_nonce_def split: option.splits sum.splits if_splits)
  with Inl assms(2) show ?thesis by (auto simp: consume_def)
next
  case (Inr nonce)
  have full: "consumed_count (lc_replay s) \<le> consumed_capacity (lc_replay s)"
    using assms(1) by (simp add: buffer_wf_def buffer_valid_def)
  show ?thesis
    using assms(2) Inr full
    by (cases "stn_identity_derive (Some signer)")
       (auto simp: consume_def stn_replay_id_from_signer_nonce_def consume_id_cases [OF assms(1)]
          simp del: stn_identity_derive.simps split: if_splits)
qed

lemma consume_publication_cases:
  assumes "buffer_wf (lc_replay s)" "consume_publication s rec = (r, t)"
  shows "if r \<noteq> STN_LIFECYCLE_OK then t = s
    else \<exists>k. stn_replay_id_from_signer_nonce (Some (rec_signer_public_key rec)) (Some (rec_nonce rec)) = Inr k \<and>
      k \<notin> set (accepted (lc_replay s)) \<and> consumed_count (lc_replay s) < consumed_capacity (lc_replay s) \<and>
      t = s\<lparr>lc_replay := store_key (lc_replay s) k\<rparr>"
proof -
  have full: "consumed_count (lc_replay s) \<le> consumed_capacity (lc_replay s)"
    using assms(1) by (simp add: buffer_wf_def buffer_valid_def)
  show ?thesis
    using assms(2) full
    by (auto simp: consume_publication_def consume_id_cases [OF assms(1)] split: sum.splits if_splits)
qed

text \<open>What storing one fresh key keeps.\<close>

lemma lifecycle_inv_store:
  assumes "lifecycle_inv ed roots n provider s" "k \<notin> set (accepted (lc_replay s))"
    "consumed_count (lc_replay s) < consumed_capacity (lc_replay s)"
  shows "lifecycle_inv ed roots n provider (s\<lparr>lc_replay := store_key (lc_replay s) k\<rparr>)"
    "accepted (store_key (lc_replay s) k) = accepted (lc_replay s) @ [k]"
proof -
  have wf: "buffer_wf (lc_replay s)" using assms(1) by (simp add: lifecycle_inv_def)
  show "accepted (store_key (lc_replay s) k) = accepted (lc_replay s) @ [k]"
    by (rule accepted_store [OF wf assms(3)])
  then show "lifecycle_inv ed roots n provider (s\<lparr>lc_replay := store_key (lc_replay s) k\<rparr>)"
    using assms buffer_wf_store [OF wf assms(3)] by (auto simp: lifecycle_inv_def)
qed

section \<open>The effect of one transaction\<close>

lemma apply_grant_cases:
  assumes "lifecycle_inv ed roots n provider s" "apply_grant ed s b roots n provider = (r, t)"
  shows "if r \<noteq> STN_LIFECYCLE_OK then t = s
    else lifecycle_inv ed roots n provider t \<and>
      (\<exists>k e. k \<notin> set (accepted (lc_replay s)) \<and> accepted (lc_replay t) = accepted (lc_replay s) @ [k] \<and>
        stn_authority_grant_validate ed (Some b) roots n = Inr e \<and>
        accepted (lc_grants t) = accepted (lc_grants s) @ [b]) \<and>
      lc_authority t = lc_authority s \<and> lc_rotation t = lc_rotation s"
proof (cases "r = STN_LIFECYCLE_OK")
  case False
  have wf: "buffer_wf (lc_replay s)" using assms(1) by (simp add: lifecycle_inv_def)
  show ?thesis
    using assms(2) False consume_cases [OF wf]
    by (fastforce simp: apply_grant_def split: if_splits sum.splits prod.splits)
next
  case True
  have wf: "buffer_wf (lc_replay s)" "buffer_wf (lc_grants s)" using assms(1) by (simp_all add: lifecycle_inv_def)
  from True assms(2) obtain e st s' where e: "stn_authority_grant_validate ed (Some b) roots n = Inr e"
      "consume s (drop 1 b) STN_TX_AUTHORITY_GRANT st provider = (STN_LIFECYCLE_OK, s')"
      "consumed_count (lc_grants s) < consumed_capacity (lc_grants s)"
      "t = s'\<lparr>lc_grants := store_key (lc_grants s') b\<rparr>"
    by (auto simp: apply_grant_def split: if_splits sum.splits prod.splits)
  from consume_cases [OF wf(1) e(2)] obtain k where k: "k \<notin> set (accepted (lc_replay s))"
      "consumed_count (lc_replay s) < consumed_capacity (lc_replay s)"
      "s' = s\<lparr>lc_replay := store_key (lc_replay s) k\<rparr>" by auto
  note inv = lifecycle_inv_store [OF assms(1) k(1,2), folded k(3)]
  have g: "lc_grants s' = lc_grants s" using k(3) by simp
  have "accepted (lc_grants t) = accepted (lc_grants s) @ [b]" "buffer_wf (lc_grants t)"
    using accepted_store [OF wf(2) e(3)] buffer_wf_store [OF wf(2) e(3)] by (simp_all add: e(4) g)
  moreover have "lifecycle_inv ed roots n provider t"
    using inv(1) e(1) calculation g by (auto simp: lifecycle_inv_def e(4))
  ultimately show ?thesis using True e(1,4) k(1,3) inv(2) by auto
qed


lemma apply_revoke_cases:
  assumes "lifecycle_inv ed roots n provider s" "apply_revoke ed s b roots n provider = (r, t)"
  shows "if r \<noteq> STN_LIFECYCLE_OK then t = s
    else lifecycle_inv ed roots n provider t \<and>
      (\<exists>k g i. k \<notin> set (accepted (lc_replay s)) \<and> accepted (lc_replay t) = accepted (lc_replay s) @ [k] \<and>
        g \<in> set (accepted (lc_grants s)) \<and> stn_authority_grant_id (Some g) provider = Inr i \<and>
        stn_authority_revocation_validate ed (Some b) (Some g) roots n provider = Inr i \<and>
        set (revoked (lc_authority t)) = insert i (set (revoked (lc_authority s)))) \<and>
      lc_grants t = lc_grants s \<and> lc_rotation t = lc_rotation s"
proof (cases "r = STN_LIFECYCLE_OK \<or> (\<exists>g i st s'. length b = 129 \<and> find_grant s (drop 33 b) provider = Some g \<and>
    revoked_count (lc_authority s) < 256 \<and>
    stn_authority_revocation_validate ed (Some b) (Some g) roots n provider = Inr i \<and>
    stn_authority_revocation_statement (Some (drop 1 b)) (Some (drop 33 b)) 256 = Inr st \<and>
    consume s (drop 1 b) STN_TX_AUTHORITY_REVOKE st provider = (STN_LIFECYCLE_OK, s'))")
  case False
  have wf: "buffer_wf (lc_replay s)" using assms(1) by (simp add: lifecycle_inv_def)
  show ?thesis
    using assms(2) False consume_cases [OF wf]
    by (fastforce simp: apply_revoke_def split: if_splits sum.splits prod.splits option.splits)
next
  case True
  have wf: "buffer_wf (lc_replay s)" "authority_wf (lc_authority s)" using assms(1) by (simp_all add: lifecycle_inv_def)
  from True assms(2) obtain g i st s' result au where g: "find_grant s (drop 33 b) provider = Some g"
      "revoked_count (lc_authority s) < 256"
      "stn_authority_revocation_validate ed (Some b) (Some g) roots n provider = Inr i"
      "consume s (drop 1 b) STN_TX_AUTHORITY_REVOKE st provider = (STN_LIFECYCLE_OK, s')"
      "stn_authority_state_apply ed (lc_authority s') (Some b) (Some g) roots n provider = (result, au)"
      "r = map_rev result" "t = s'\<lparr>lc_authority := au\<rparr>"
    by (auto simp: apply_revoke_def split: if_splits sum.splits prod.splits option.splits)
  from consume_cases [OF wf(1) g(4)] obtain k where k: "k \<notin> set (accepted (lc_replay s))"
      "consumed_count (lc_replay s) < consumed_capacity (lc_replay s)"
      "s' = s\<lparr>lc_replay := store_key (lc_replay s) k\<rparr>" by auto
  note inv = lifecycle_inv_store [OF assms(1) k(1,2), folded k(3)]
  have au: "authority_wf au" "result = STN_AUTHORITY_VALID_REVOCATION"
      "set (revoked au) = insert i (set (revoked (lc_authority s)))"
    using state_apply_cases [OF wf(2), of ed "Some b" "Some g" roots n provider] g(2,3,5) k(3)
    by (auto split: if_splits)
  have "g \<in> set (accepted (lc_grants s))"
    using g(1) by (auto simp: find_grant_def find_Some_iff)
  moreover have "lifecycle_inv ed roots n provider t"
    using inv(1) au(1) by (simp add: lifecycle_inv_def g(7))
  ultimately show ?thesis
    using inv(2) au(2,3) k(1,3) g(3,6,7) revocation_validate_grant [OF g(3)] by (auto simp: map_rev_def)
qed

lemma apply_publication_cases:
  assumes "lifecycle_inv ed roots n provider s" "apply_publication s b = (r, t)"
  shows "if r \<noteq> STN_LIFECYCLE_OK then t = s
    else lifecycle_inv ed roots n provider t \<and>
      (\<exists>k rec. k \<notin> set (accepted (lc_replay s)) \<and> accepted (lc_replay t) = accepted (lc_replay s) @ [k] \<and>
        stn_record_decode (Some b) = Inr rec \<and>
        stn_replay_id_from_signer_nonce (Some (rec_signer_public_key rec)) (Some (rec_nonce rec)) = Inr k) \<and>
      lc_grants t = lc_grants s \<and> lc_authority t = lc_authority s \<and> lc_rotation t = lc_rotation s"
proof (cases "stn_record_decode (Some b)")
  case (Inl e)
  with assms(2) show ?thesis by (auto simp: apply_publication_def)
next
  case (Inr rec)
  have wf: "buffer_wf (lc_replay s)" using assms(1) by (simp add: lifecycle_inv_def)
  from assms(2) Inr have call: "consume_publication s rec = (r, t)"
    by (simp add: apply_publication_def del: stn_record_decode.simps)
  show ?thesis
  proof (cases "r = STN_LIFECYCLE_OK")
    case False
    then show ?thesis using consume_publication_cases [OF wf call] by simp
  next
    case True
    with consume_publication_cases [OF wf call] obtain k where
      k: "stn_replay_id_from_signer_nonce (Some (rec_signer_public_key rec)) (Some (rec_nonce rec)) = Inr k"
        "k \<notin> set (accepted (lc_replay s))" "consumed_count (lc_replay s) < consumed_capacity (lc_replay s)"
        "t = s\<lparr>lc_replay := store_key (lc_replay s) k\<rparr>" by auto
    with True Inr lifecycle_inv_store [OF assms(1) k(2,3)] show ?thesis by simp
  qed
qed

text \<open>The state the checks of a rotation see: the first rotation may start at any initial identity.\<close>

definition rotation_base :: "stn_lifecycle_state \<Rightarrow> bytes \<Rightarrow> stn_lifecycle_state" where
  "rotation_base s b = (if rotation_count (lc_rotation s) = 0 then set_current s (take 32 (drop 1 b)) else s)"

lemma rotation_base_facts:
  "lc_replay (rotation_base s b) = lc_replay s" "lc_grants (rotation_base s b) = lc_grants s"
  "lc_authority (rotation_base s b) = lc_authority s"
  "rotation_count (lc_rotation (rotation_base s b)) = rotation_count (lc_rotation s)"
  "olds (lc_rotation (rotation_base s b)) = olds (lc_rotation s)"
  "news (lc_rotation (rotation_base s b)) = news (lc_rotation s)"
  "record_rotation (lc_rotation (rotation_base s b)) x y = record_rotation (lc_rotation s) x y"
  "current_identity (lc_rotation (rotation_base s b)) =
     (if rotation_count (lc_rotation s) = 0 then take 32 (drop 1 b) else current_identity (lc_rotation s))"
  by (simp_all add: rotation_base_def set_current_def olds_def news_def record_rotation_def)

lemma rotation_base_inv:
  assumes "lifecycle_inv ed roots n provider s"
  shows "lifecycle_inv ed roots n provider (rotation_base s b)"
proof -
  have "lineage (lc_rotation (rotation_base s b))"
    using assms
    by (auto simp: lifecycle_inv_def lineage_def rotation_wf_def rotation_base_def set_current_def olds_def news_def)
  then show ?thesis using assms by (simp add: lifecycle_inv_def rotation_base_facts)
qed

text \<open>Taking the seeded identity back gives the state before.\<close>

lemma rotation_base_restore:
  "(if rotation_count (lc_rotation s) = 0
    then set_current (rotation_base s b) (current_identity (lc_rotation s)) else rotation_base s b) = s"
  by (simp add: rotation_base_def set_current_def)

text \<open>The statement of a rotation that passes the checks.\<close>

lemma rotation_statement_checked:
  assumes "rotation_checks b s roots n"
  shows "stn_identity_rotation_statement (Some (drop 1 b)) (Some (drop 33 b)) 256 =
    Inr (rotation_words (take 32 (drop 1 b)) (take 32 (drop 33 b)))"
  using assms
  by (simp add: rotation_checks_def stn_identity_rotation_statement_def rotation_words_def
      del: stn_identity_derive.simps)

text \<open>A pair already accepted has its key in the registry, so its statement is not consumed again.\<close>

lemma rotation_consume_fresh:
  assumes "lifecycle_inv ed roots n provider s" "rotation_checks b (lc_rotation s) roots n"
    "consume s (drop 1 b) STN_TX_IDENTITY_ROTATE (rotation_words (take 32 (drop 1 b)) (take 32 (drop 33 b))) provider =
      (STN_LIFECYCLE_OK, t)"
  shows "\<exists>k. rotation_key provider (take 32 (drop 1 b)) (take 32 (drop 33 b)) = Some k \<and>
    k \<notin> set (accepted (lc_replay s)) \<and> consumed_count (lc_replay s) < consumed_capacity (lc_replay s) \<and>
    t = s\<lparr>lc_replay := store_key (lc_replay s) k\<rparr>"
    "(take 32 (drop 1 b), take 32 (drop 33 b)) \<notin> set (zip (olds (lc_rotation s)) (news (lc_rotation s)))"
proof -
  have wf: "buffer_wf (lc_replay s)" using assms(1) by (simp add: lifecycle_inv_def)
  have "stn_identity_derive (Some (drop 1 b)) = Inr (take 32 (drop 1 b))"
    using assms(2) by (simp add: rotation_checks_def)
  with consume_cases [OF wf assms(3)] obtain nonce where nonce:
      "stn_lifecycle_replay_nonce STN_TX_IDENTITY_ROTATE
        (Some (rotation_words (take 32 (drop 1 b)) (take 32 (drop 33 b)))) provider = Inr nonce"
      "take 32 (drop 1 b) @ take 32 nonce \<notin> set (accepted (lc_replay s))"
      "consumed_count (lc_replay s) < consumed_capacity (lc_replay s)"
      "t = s\<lparr>lc_replay := store_key (lc_replay s) (take 32 (drop 1 b) @ take 32 nonce)\<rparr>"
    by (auto simp del: stn_identity_derive.simps)
  then have key: "rotation_key provider (take 32 (drop 1 b)) (take 32 (drop 33 b)) = Some (take 32 (drop 1 b) @ take 32 nonce)"
    by (simp add: rotation_key_def)
  with nonce show "\<exists>k. rotation_key provider (take 32 (drop 1 b)) (take 32 (drop 33 b)) = Some k \<and>
    k \<notin> set (accepted (lc_replay s)) \<and> consumed_count (lc_replay s) < consumed_capacity (lc_replay s) \<and>
    t = s\<lparr>lc_replay := store_key (lc_replay s) k\<rparr>" by blast
  show "(take 32 (drop 1 b), take 32 (drop 33 b)) \<notin> set (zip (olds (lc_rotation s)) (news (lc_rotation s)))"
    using assms(1) key nonce(2) by (fastforce simp: lifecycle_inv_def)
qed

lemma apply_rotate_calls:
  "apply_rotate ed s b roots n provider =
    (if length b \<noteq> 129 \<or> (rotation_count (lc_rotation s) = 0 \<and> \<not> initial_contains s (drop 1 b))
     then (STN_LIFECYCLE_INVALID, s)
     else if stn_identity_rotation_validate ed (Some b) (lc_rotation (rotation_base s b)) roots n \<noteq>
       STN_AUTHORITY_VALID_ROTATION
     then (STN_LIFECYCLE_INVALID, s)
     else if rotation_count (lc_rotation s) \<ge> 256 then (STN_LIFECYCLE_CAPACITY, rotation_base s b)
     else
       (case stn_identity_rotation_statement (Some (drop 1 b)) (Some (drop 33 b)) 256 of
          Inl _ \<Rightarrow> (STN_LIFECYCLE_INVALID, rotation_base s b)
        | Inr st \<Rightarrow>
            (case consume (rotation_base s b) (drop 1 b) STN_TX_IDENTITY_ROTATE st provider of
               (r, t) \<Rightarrow>
                 if r \<noteq> STN_LIFECYCLE_OK
                 then (r, if rotation_count (lc_rotation s) = 0
                   then set_current t (current_identity (lc_rotation s)) else t)
                 else
                   (case stn_identity_rotation_apply ed (lc_rotation t) (Some b) roots n of
                      (result, rotation) \<Rightarrow> (map_rot result, t\<lparr>lc_rotation := rotation\<rparr>)))))"
  unfolding apply_rotate_def Let_def rotation_base_def [symmetric]
  using rotation_base_restore [of s b]
  by (auto simp: rotation_base_facts split: sum.splits prod.splits)


lemma rotation_count_bound: "lineage s \<Longrightarrow> rotation_count s \<le> 256"
  by (simp add: lineage_def rotation_wf_def)

text \<open>A consumed rotation is applied: it records the pair and keeps the invariant.\<close>

lemma apply_rotate_accepted:
  assumes "lifecycle_inv ed roots n provider s" "s1 = rotation_base s b" "rotation_count (lc_rotation s) < 256"
    "stn_identity_rotation_validate ed (Some b) (lc_rotation s1) roots n = STN_AUTHORITY_VALID_ROTATION"
    "consume s1 (drop 1 b) STN_TX_IDENTITY_ROTATE (rotation_words (take 32 (drop 1 b)) (take 32 (drop 33 b))) provider =
      (STN_LIFECYCLE_OK, s2)"
    "stn_identity_rotation_apply ed (lc_rotation s2) (Some b) roots n = (result, rotation)"
  shows "result = STN_AUTHORITY_VALID_ROTATION" "take 32 (drop 1 b) = current_identity (lc_rotation s1)"
    "rotation_signed ed b" "rotation = record_rotation (lc_rotation s) (take 32 (drop 1 b)) (take 32 (drop 33 b))"
    "take 32 (drop 33 b) \<notin> set (olds (lc_rotation s))"
    "lifecycle_inv ed roots n provider (s2\<lparr>lc_rotation := rotation\<rparr>)"
    "\<exists>k. k \<notin> set (accepted (lc_replay s)) \<and> accepted (lc_replay s2) = accepted (lc_replay s) @ [k] \<and>
      lc_grants s2 = lc_grants s \<and> lc_authority s2 = lc_authority s"
proof -
  let ?a = "take 32 (drop 1 b)" and ?c = "take 32 (drop 33 b)"
  have base: "lifecycle_inv ed roots n provider s1" unfolding assms(2) by (rule rotation_base_inv [OF assms(1)])
  have checks: "rotation_checks b (lc_rotation s1) roots n"
    using assms(4) unfolding rotation_validate_iff by blast
  obtain k where k: "rotation_key provider ?a ?c = Some k" "k \<notin> set (accepted (lc_replay s1))"
      "consumed_count (lc_replay s1) < consumed_capacity (lc_replay s1)"
      "s2 = s1\<lparr>lc_replay := store_key (lc_replay s1) k\<rparr>"
    using rotation_consume_fresh(1) [OF base checks assms(5)] by blast
  note inv2 = lifecycle_inv_store [OF base k(2,3), folded k(4)]
  have rot: "lc_rotation s2 = lc_rotation s1" using k(4) by simp
  have lin: "lineage (lc_rotation s1)" using base by (simp add: lifecycle_inv_def)
  have cases: "if result \<noteq> STN_AUTHORITY_VALID_ROTATION then rotation = lc_rotation s1
    else if ?a \<in> set (olds (lc_rotation s1))
    then (?a, ?c) \<in> set (zip (olds (lc_rotation s1)) (news (lc_rotation s1))) \<and>
      rotation = (if ?c = current_identity (lc_rotation s1) then lc_rotation s1 else record_rotation (lc_rotation s1) ?a ?c)
    else ?a = current_identity (lc_rotation s1) \<and> rotation_signed ed b \<and> ?c \<notin> set (olds (lc_rotation s1)) \<and> ?c \<noteq> ?a \<and>
      rotation = record_rotation (lc_rotation s1) ?a ?c \<and> lineage rotation"
    using rotation_apply_cases [OF lin, where ed = ed and r = b and roots = roots and count = n]
    unfolding assms(6) [unfolded rot] prod.case Let_def .
  show valid: "result = STN_AUTHORITY_VALID_ROTATION"
    using assms(3,4,6) by (auto simp: rot stn_identity_rotation_apply_def Let_def assms(2) rotation_base_facts(4) split: if_splits)
  have fresh: "?a \<notin> set (olds (lc_rotation s1))"
    using cases valid rotation_consume_fresh(2) [OF base checks assms(5)] by auto
  with cases valid have eff: "?a = current_identity (lc_rotation s1)" "rotation_signed ed b"
      "?c \<notin> set (olds (lc_rotation s1))" "rotation = record_rotation (lc_rotation s1) ?a ?c" "lineage rotation"
    by auto
  show "?a = current_identity (lc_rotation s1)" "rotation_signed ed b" by (rule eff)+
  show "rotation = record_rotation (lc_rotation s) ?a ?c" "?c \<notin> set (olds (lc_rotation s))"
    using eff(3,4) by (simp_all only: assms(2) rotation_base_facts not_False_eq_True)
  have wf: "rotation_wf (lc_rotation s1)" "rotation_count (lc_rotation s1) < 256"
    using lin assms(3) by (simp_all add: lineage_def assms(2) rotation_base_facts(4))
  have "zip (olds rotation) (news rotation) = zip (olds (lc_rotation s1)) (news (lc_rotation s1)) @ [(?a, ?c)]"
    using record_rotation_fields(1,2) [OF wf, of ?a ?c] wf(1) by (simp add: eff(4))
  then show "lifecycle_inv ed roots n provider (s2\<lparr>lc_rotation := rotation\<rparr>)"
    using inv2 eff(5) k(1) rot by (auto simp: lifecycle_inv_def k(4))
  show "\<exists>k. k \<notin> set (accepted (lc_replay s)) \<and> accepted (lc_replay s2) = accepted (lc_replay s) @ [k] \<and>
      lc_grants s2 = lc_grants s \<and> lc_authority s2 = lc_authority s"
    using k(2,4) inv2(2) by (auto simp: assms(2) rotation_base_facts)
qed

lemma apply_rotate_cases:
  assumes "lifecycle_inv ed roots n provider s" "apply_rotate ed s b roots n provider = (r, t)"
    "rotation_count (lc_rotation s) < 256"
  shows "if r \<noteq> STN_LIFECYCLE_OK then t = s
    else lifecycle_inv ed roots n provider t \<and>
      (\<exists>k. k \<notin> set (accepted (lc_replay s)) \<and> accepted (lc_replay t) = accepted (lc_replay s) @ [k]) \<and>
      rotation_signed ed b \<and> take 32 (drop 33 b) \<notin> set (olds (lc_rotation s)) \<and>
      (take 32 (drop 1 b) = current_identity (lc_rotation s) \<or>
        rotation_count (lc_rotation s) = 0 \<and> initial_contains s (drop 1 b)) \<and>
      lc_rotation t = record_rotation (lc_rotation s) (take 32 (drop 1 b)) (take 32 (drop 33 b)) \<and>
      lc_grants t = lc_grants s \<and> lc_authority t = lc_authority s"
proof (cases "length b \<noteq> 129 \<or> (rotation_count (lc_rotation s) = 0 \<and> \<not> initial_contains s (drop 1 b)) \<or>
    stn_identity_rotation_validate ed (Some b) (lc_rotation (rotation_base s b)) roots n \<noteq> STN_AUTHORITY_VALID_ROTATION")
  case True
  then have "r = STN_LIFECYCLE_INVALID" "t = s" using assms(2) by (auto simp: apply_rotate_calls split: if_splits)
  then show ?thesis by simp
next
  case False
  then have v: "stn_identity_rotation_validate ed (Some b) (lc_rotation (rotation_base s b)) roots n = STN_AUTHORITY_VALID_ROTATION"
    by simp
  then have "rotation_checks b (lc_rotation (rotation_base s b)) roots n" unfolding rotation_validate_iff by blast
  note st = rotation_statement_checked [OF this]
  have guards: "(length b \<noteq> 129 \<or> (rotation_count (lc_rotation s) = 0 \<and> \<not> initial_contains s (drop 1 b))) = False"
      "(rotation_count (lc_rotation s) \<ge> 256) = False"
    using False assms(3) by simp_all
  note opened = apply_rotate_calls guards v st if_False if_True sum.case prod.case simp_thms
  obtain r2 s2 where call: "consume (rotation_base s b) (drop 1 b) STN_TX_IDENTITY_ROTATE
      (rotation_words (take 32 (drop 1 b)) (take 32 (drop 33 b))) provider = (r2, s2)" by force
  have wf: "buffer_wf (lc_replay (rotation_base s b))"
    using assms(1) by (simp add: lifecycle_inv_def rotation_base_facts)
  show ?thesis
  proof (cases "r2 = STN_LIFECYCLE_OK")
    case False
    then have "s2 = rotation_base s b" using consume_cases [OF wf call] by simp
    with assms(2) False have "r = r2" "t = s"
      by (simp_all only: opened call prod.inject rotation_base_restore)
    with False show ?thesis by simp
  next
    case True
    obtain result rotation where ap: "stn_identity_rotation_apply ed (lc_rotation s2) (Some b) roots n = (result, rotation)"
      by force
    note acc = apply_rotate_accepted [OF assms(1) refl assms(3) v call [unfolded True] ap]
    have "(r, t) = (map_rot result, s2\<lparr>lc_rotation := rotation\<rparr>)"
      using assms(2) unfolding opened call True ap by simp
    with acc(1) have rt: "r = STN_LIFECYCLE_OK" "t = s2\<lparr>lc_rotation := rotation\<rparr>" by (simp_all add: map_rot_def)
    have "take 32 (drop 1 b) = current_identity (lc_rotation s) \<or>
        rotation_count (lc_rotation s) = 0 \<and> initial_contains s (drop 1 b)"
      using acc(2) [unfolded rotation_base_facts] guards(1)
      by (cases "rotation_count (lc_rotation s) = 0") simp_all
    with acc(3-7) rt show ?thesis by auto
  qed
qed

lemma apply_rotate_full:
  assumes "lifecycle_inv ed roots n provider s" "\<not> rotation_count (lc_rotation s) < 256"
  shows "\<exists>r. apply_rotate ed s b roots n provider = (r, s) \<and> r \<noteq> STN_LIFECYCLE_OK"
proof -
  have "rotation_base s b = s" using assms(2) by (simp add: rotation_base_def)
  with assms(2) show ?thesis by (simp add: apply_rotate_calls)
qed

section \<open>Accepted transactions as steps\<close>

text \<open>What an accepted transaction of type \<open>type\<close> with record \<open>b\<close> does to the state.\<close>

inductive lifecycle_step ::
  "ed25519 \<Rightarrow> bytes list option \<Rightarrow> nat \<Rightarrow> stn_hash_provider \<Rightarrow> stn_lifecycle_state \<Rightarrow> u16 \<Rightarrow> bytes \<Rightarrow>
   stn_lifecycle_state \<Rightarrow> bool" for ed roots n provider where
  granted: "\<lbrakk>stn_authority_grant_validate ed (Some b) roots n = Inr e;
      k \<notin> set (accepted (lc_replay s)); accepted (lc_replay t) = accepted (lc_replay s) @ [k];
      accepted (lc_grants t) = accepted (lc_grants s) @ [b];
      lc_authority t = lc_authority s; lc_rotation t = lc_rotation s\<rbrakk>
    \<Longrightarrow> lifecycle_step ed roots n provider s STN_TX_AUTHORITY_GRANT b t"
| revoked: "\<lbrakk>g \<in> set (accepted (lc_grants s)); stn_authority_grant_id (Some g) provider = Inr i;
      stn_authority_revocation_validate ed (Some b) (Some g) roots n provider = Inr i;
      k \<notin> set (accepted (lc_replay s)); accepted (lc_replay t) = accepted (lc_replay s) @ [k];
      set (revoked (lc_authority t)) = insert i (set (revoked (lc_authority s)));
      lc_grants t = lc_grants s; lc_rotation t = lc_rotation s\<rbrakk>
    \<Longrightarrow> lifecycle_step ed roots n provider s STN_TX_AUTHORITY_REVOKE b t"
| rotated: "\<lbrakk>rotation_signed ed b; old = take 32 (drop 1 b); new = take 32 (drop 33 b);
      old = current_identity (lc_rotation s) \<or> rotation_count (lc_rotation s) = 0 \<and> initial_contains s (drop 1 b);
      new \<notin> set (olds (lc_rotation s));
      k \<notin> set (accepted (lc_replay s)); accepted (lc_replay t) = accepted (lc_replay s) @ [k];
      lc_rotation t = record_rotation (lc_rotation s) old new;
      lc_grants t = lc_grants s; lc_authority t = lc_authority s\<rbrakk>
    \<Longrightarrow> lifecycle_step ed roots n provider s STN_TX_IDENTITY_ROTATE b t"
| published: "\<lbrakk>stn_record_decode (Some b) = Inr rec;
      stn_replay_id_from_signer_nonce (Some (rec_signer_public_key rec)) (Some (rec_nonce rec)) = Inr k;
      k \<notin> set (accepted (lc_replay s)); accepted (lc_replay t) = accepted (lc_replay s) @ [k];
      lc_grants t = lc_grants s; lc_authority t = lc_authority s; lc_rotation t = lc_rotation s\<rbrakk>
    \<Longrightarrow> lifecycle_step ed roots n provider s STN_TX_PUBLICATION b t"

inductive_cases lifecycle_stepE: "lifecycle_step ed roots n provider s type b t"

lemma lifecycle_apply_step:
  assumes "lifecycle_inv ed roots n provider s"
    "stn_lifecycle_apply_transaction ed s (Some tx) roots n (Some provider) = (r, t)"
    "txn_record_bytes tx = Some source" "b = take (unat (txn_record_length tx)) source"
  shows "if r \<noteq> STN_LIFECYCLE_OK then t = s
    else lifecycle_inv ed roots n provider t \<and> lifecycle_step ed roots n provider s (txn_type tx) b t"
proof -
  note run = assms(2) [unfolded stn_lifecycle_apply_transaction_def Let_def option.case prod.case assms(3) assms(4) [symmetric]]
  consider (grant) "txn_type tx = STN_TX_AUTHORITY_GRANT" "apply_grant ed s b roots n provider = (r, t)"
    | (revoke) "txn_type tx = STN_TX_AUTHORITY_REVOKE" "apply_revoke ed s b roots n provider = (r, t)"
    | (rotate) "txn_type tx = STN_TX_IDENTITY_ROTATE" "apply_rotate ed s b roots n provider = (r, t)"
    | (publish) "txn_type tx = STN_TX_PUBLICATION" "apply_publication s b = (r, t)"
    | (other) "r = STN_LIFECYCLE_MALFORMED" "t = s"
    using run by (auto split: if_splits)
  then show ?thesis
  proof cases
    case grant
    show ?thesis using apply_grant_cases [OF assms(1) grant(2)] unfolding grant(1)
      by (auto intro: lifecycle_step.granted [simplified])
  next
    case revoke
    show ?thesis using apply_revoke_cases [OF assms(1) revoke(2)] unfolding revoke(1)
      by (auto intro: lifecycle_step.revoked [simplified])
  next
    case rotate
    show ?thesis
    proof (cases "rotation_count (lc_rotation s) < 256")
      case True
      show ?thesis using apply_rotate_cases [OF assms(1) rotate(2) True] unfolding rotate(1)
        by (auto intro: lifecycle_step.rotated [simplified])
    next
      case False
      then show ?thesis using apply_rotate_full [OF assms(1), of b] rotate(2) by auto
    qed
  next
    case publish
    show ?thesis using apply_publication_cases [OF assms(1) publish(2)] unfolding publish(1)
      by (auto intro: lifecycle_step.published [simplified])
  next
    case other
    then show ?thesis by simp
  qed
qed

section \<open>Runs of accepted transactions\<close>

definition tx_event :: "bytes \<Rightarrow> u16 \<times> bytes" where
  "tx_event t = (ucast (stn_wire_read (drop 6 t) 2), drop 12 t)"

inductive lifecycle_run ::
  "ed25519 \<Rightarrow> bytes list option \<Rightarrow> nat \<Rightarrow> stn_hash_provider \<Rightarrow> stn_lifecycle_state \<Rightarrow> (u16 \<times> bytes) list \<Rightarrow>
   stn_lifecycle_state \<Rightarrow> bool" for ed roots n provider where
  run_none: "lifecycle_run ed roots n provider s [] s"
| run_more: "\<lbrakk>lifecycle_step ed roots n provider s type b t; lifecycle_run ed roots n provider t es u\<rbrakk>
    \<Longrightarrow> lifecycle_run ed roots n provider s ((type, b) # es) u"

inductive_simps lifecycle_run_nil: "lifecycle_run ed roots n provider s [] t"
inductive_simps lifecycle_run_cons: "lifecycle_run ed roots n provider s (e # es) t"

lemma lifecycle_run_append:
  "lifecycle_run ed roots n provider s (es @ fs) u \<longleftrightarrow>
     (\<exists>t. lifecycle_run ed roots n provider s es t \<and> lifecycle_run ed roots n provider t fs u)"
proof (induction es arbitrary: s)
  case Nil
  show ?case by (simp add: lifecycle_run_nil)
next
  case (Cons e es)
  show ?case by (auto simp: lifecycle_run_cons Cons.IH)
qed

definition rotated_pairs :: "stn_lifecycle_state \<Rightarrow> (bytes \<times> bytes) list" where
  "rotated_pairs s = zip (olds (lc_rotation s)) (news (lc_rotation s))"

text \<open>Every step appends: one registry key each, and nothing accepted is ever taken back.\<close>

definition lifecycle_extends :: "stn_lifecycle_state \<Rightarrow> stn_lifecycle_state \<Rightarrow> bool" where
  "lifecycle_extends s t \<longleftrightarrow> prefix (accepted (lc_replay s)) (accepted (lc_replay t)) \<and>
     prefix (accepted (lc_grants s)) (accepted (lc_grants t)) \<and>
     set (revoked (lc_authority s)) \<subseteq> set (revoked (lc_authority t)) \<and> prefix (rotated_pairs s) (rotated_pairs t)"

lemma lifecycle_extends_refl: "lifecycle_extends s s"
  by (simp add: lifecycle_extends_def)

lemma lifecycle_extends_trans: "lifecycle_extends s t \<Longrightarrow> lifecycle_extends t u \<Longrightarrow> lifecycle_extends s u"
  unfolding lifecycle_extends_def by (blast intro: prefix_order.trans)

lemma record_rotation_extends:
  assumes "lineage s" "lineage (record_rotation s a b)"
  shows "prefix (zip (olds s) (news s)) (zip (olds (record_rotation s a b)) (news (record_rotation s a b)))"
proof (cases "rotation_count s < 256")
  case True
  have wf: "rotation_wf s" using assms(1) by (simp add: lineage_def)
  from record_rotation_fields(1,2) [OF wf True, of a b] wf show ?thesis by (simp add: prefix_def)
next
  case False
  with rotation_count_bound [OF assms(2)] show ?thesis by (simp add: record_rotation_def)
qed

lemma lifecycle_step_extends:
  assumes "lifecycle_step ed roots n provider s type b t" "lineage (lc_rotation s)" "lineage (lc_rotation t)"
  shows "lifecycle_extends s t" "length (accepted (lc_replay t)) = Suc (length (accepted (lc_replay s)))"
proof -
  have "prefix (rotated_pairs s) (rotated_pairs t)"
    using assms record_rotation_extends unfolding rotated_pairs_def
    by (cases rule: lifecycle_step.cases) (simp_all add: prefix_def)
  with assms(1) show "lifecycle_extends s t"
    by (cases rule: lifecycle_step.cases) (auto simp: lifecycle_extends_def)
  show "length (accepted (lc_replay t)) = Suc (length (accepted (lc_replay s)))"
    using assms(1) by (cases rule: lifecycle_step.cases) simp_all
qed

lemma frame_read64:
  assumes "length t \<le> 66881"
  shows "unat (stn_wire_read (frame t @ r) 4) = length t"
proof -
  have "unat (ucast (stn_wire_read (frame t @ r) 4) :: u32) = unat (stn_wire_read (frame t @ r) 4)"
    using be_take_less [of 4 "frame t @ r"] by (simp add: unsigned_ucast_eq unat_wire_read take_bit_nat_eq_self)
  then show ?thesis using read_frame(1) [OF assms] by simp
qed

lemma valid_tx_decode:
  assumes "valid_tx sha t"
  obtains tx where "stn_transaction_decode sha (Some t) = Inr tx" "txn_record_bytes tx = Some (drop 12 t)"
    "tx_event t = (txn_type tx, take (unat (txn_record_length tx)) (drop 12 t))"
proof -
  from assms obtain tx where dec: "stn_transaction_decode sha (Some t) = Inr tx"
    unfolding valid_tx_def tx_structure_iff by blast
  then have "txn_record_bytes tx = Some (drop 12 t)"
      "tx_event t = (txn_type tx, take (unat (txn_record_length tx)) (drop 12 t))"
    unfolding tx_decode_iff tx_event_def by auto
  with dec show thesis by (rule that)
qed

text \<open>The transactions of a block are applied in order up to the first refusal, which changes nothing.\<close>

lemma lifecycle_loop_run:
  assumes "\<forall>x \<in> set ts. valid_tx sha x" "lifecycle_inv ed roots n provider s"
    "lifecycle_loop sha ed roots n (Some provider) (length ts) (frames ts) s = (r, t)"
  shows "lifecycle_inv ed roots n provider t \<and> lifecycle_extends s t \<and>
    (\<exists>m \<le> length ts. lifecycle_run ed roots n provider s (map tx_event (take m ts)) t \<and>
      length (accepted (lc_replay t)) = length (accepted (lc_replay s)) + m \<and>
      (r = STN_LIFECYCLE_OK \<longrightarrow> m = length ts))"
  using assms
proof (induction ts arbitrary: s)
  case Nil
  then show ?case by (auto simp: lifecycle_run_nil lifecycle_extends_refl)
next
  case (Cons x ts)
  then have x: "valid_tx sha x" by simp
  from valid_tx_decode [OF x] obtain tx where tx: "stn_transaction_decode sha (Some x) = Inr tx"
      "txn_record_bytes tx = Some (drop 12 x)"
      "tx_event x = (txn_type tx, take (unat (txn_record_length tx)) (drop 12 x))" by blast
  obtain r1 s1 where call: "stn_lifecycle_apply_transaction ed s (Some tx) roots n (Some provider) = (r1, s1)"
    by force
  note len = valid_tx_length(2) [OF x]
  note rd = read_frame(2) [OF len, of "frames ts"] read_frame(4) [OF len] frame_read64 [OF len, of "frames ts"]
  have step: "if r1 \<noteq> STN_LIFECYCLE_OK then r = r1 \<and> t = s1
      else lifecycle_loop sha ed roots n (Some provider) (length ts) (frames ts) s1 = (r, t)"
    using Cons.prems(3) by (simp add: Let_def rd tx(1) call split: if_splits)
  note ap = lifecycle_apply_step [OF Cons.prems(2) call tx(2) refl]
  show ?case
  proof (cases "r1 = STN_LIFECYCLE_OK")
    case False
    with ap step Cons.prems(2) show ?thesis
      by (auto simp: lifecycle_run_nil lifecycle_extends_refl intro!: exI [of _ 0])
  next
    case True
    with ap have one: "lifecycle_inv ed roots n provider s1"
        "lifecycle_step ed roots n provider s (fst (tx_event x)) (snd (tx_event x)) s1"
      by (simp_all add: tx(3))
    have lin: "lineage (lc_rotation s)" "lineage (lc_rotation s1)"
      using Cons.prems(2) one(1) by (simp_all add: lifecycle_inv_def)
    note ext = lifecycle_step_extends [OF one(2) lin]
    from Cons.IH [OF _ one(1)] step True Cons.prems(1) obtain m where m: "m \<le> length ts"
        "lifecycle_inv ed roots n provider t" "lifecycle_extends s1 t"
        "lifecycle_run ed roots n provider s1 (map tx_event (take m ts)) t"
        "length (accepted (lc_replay t)) = length (accepted (lc_replay s1)) + m"
        "r = STN_LIFECYCLE_OK \<longrightarrow> m = length ts" by auto
    have "lifecycle_run ed roots n provider s (map tx_event (take (Suc m) (x # ts))) t"
      using run_more [OF one(2) m(4)] by simp
    with m ext lifecycle_extends_trans [OF ext(1) m(3)] show ?thesis
      by (intro conjI exI [of _ "Suc m"]) auto
  qed
qed

lemma lifecycle_block_run:
  assumes "lifecycle_inv ed roots n provider s" "block_parts sha bs h ts"
    "stn_lifecycle_apply_block sha ed s (Some bs) roots n (Some provider) = (r, t)"
  shows "lifecycle_inv ed roots n provider t \<and> lifecycle_extends s t \<and>
    (\<exists>m \<le> length ts. lifecycle_run ed roots n provider s (map tx_event (take m ts)) t \<and>
      length (accepted (lc_replay t)) = length (accepted (lc_replay s)) + m \<and>
      (r = STN_LIFECYCLE_OK \<longrightarrow> m = length ts))"
proof (rule lifecycle_loop_run)
  show "\<forall>x \<in> set ts. valid_tx sha x" using assms(2) by (simp add: block_parts_def)
  have "length ts = unat (bh_transaction_count h)" using assms(2) by (simp add: block_parts_def)
  then show "lifecycle_loop sha ed roots n (Some provider) (length ts) (frames ts) s = (r, t)"
    using assms(3) by (simp add: stn_lifecycle_apply_block_def block_parts_decode [OF assms(2)])
qed (rule assms)

lemma blocks_loop_block:
  "blocks_loop sha ed roots n p (block # blocks) s =
    (case stn_lifecycle_apply_block sha ed s block roots n p of
       (r, s') \<Rightarrow> if r \<noteq> STN_LIFECYCLE_OK then (r, s') else blocks_loop sha ed roots n p blocks s')"
  by (simp add: stn_lifecycle_apply_block_def split: sum.splits prod.splits)

declare blocks_loop.simps(2) [simp del]

lemma blocks_loop_append:
  "blocks_loop sha ed roots n p (xs @ ys) s =
    (case blocks_loop sha ed roots n p xs s of
       (r, s') \<Rightarrow> if r \<noteq> STN_LIFECYCLE_OK then (r, s') else blocks_loop sha ed roots n p ys s')"
  by (induction xs arbitrary: s) (simp_all add: blocks_loop_block split: prod.splits)

lemma apply_block_refused:
  assumes "stn_block_decode sha block = Inl e"
  shows "stn_lifecycle_apply_block sha ed s block roots n p = (STN_LIFECYCLE_MALFORMED, s)"
  using assms by (simp add: stn_lifecycle_apply_block_def)

lemma apply_block_inv:
  assumes "lifecycle_inv ed roots n provider s"
    "stn_lifecycle_apply_block sha ed s block roots n (Some provider) = (r, t)"
  shows "lifecycle_inv ed roots n provider t \<and> lifecycle_extends s t"
proof (cases "\<exists>bs b. block = Some bs \<and> stn_block_decode sha block = Inr b")
  case True
  then obtain bs b where b: "block = Some bs" "stn_block_decode sha (Some bs) = Inr b" by blast
  from block_decode_parts [OF b(2)] obtain ts where "block_parts sha bs (blk_header b) ts" by blast
  from lifecycle_block_run [OF assms(1) this] assms(2) b(1) show ?thesis by blast
next
  case False
  then obtain e where "stn_block_decode sha block = Inl e"
    by (cases block; cases "stn_block_decode sha block") auto
  from apply_block_refused [OF this] assms show ?thesis by (simp add: lifecycle_extends_refl)
qed

lemma blocks_loop_inv:
  assumes "lifecycle_inv ed roots n provider s"
    "blocks_loop sha ed roots n (Some provider) blocks s = (r, t)"
  shows "lifecycle_inv ed roots n provider t \<and> lifecycle_extends s t"
  using assms
proof (induction blocks arbitrary: s)
  case Nil
  then show ?case by (simp add: lifecycle_extends_refl)
next
  case (Cons block blocks)
  obtain r1 s1 where call: "stn_lifecycle_apply_block sha ed s block roots n (Some provider) = (r1, s1)" by force
  note one = apply_block_inv [OF Cons.prems(1) call]
  show ?case
  proof (cases "r1 = STN_LIFECYCLE_OK")
    case True
    with Cons.prems(2) call have "blocks_loop sha ed roots n (Some provider) blocks s1 = (r, t)"
      by (simp add: blocks_loop_block)
    from Cons.IH [OF _ this] one show ?thesis by (blast intro: lifecycle_extends_trans)
  next
    case False
    with Cons.prems(2) call one show ?thesis by (simp add: blocks_loop_block)
  qed
qed

text \<open>The state a rebuild starts from.\<close>

definition lifecycle_genesis :: "stn_lifecycle_state \<Rightarrow> stn_lifecycle_state" where
  "lifecycle_genesis s = s\<lparr>lc_authority := stn_authority_state_initialize,
     lc_rotation := stn_identity_rotation_initialize (Some (lc_initial_identity s)),
     lc_grants := (lc_grants s)\<lparr>consumed_count := 0\<rparr>,
     lc_replay := (lc_replay s)\<lparr>consumed_count := 0\<rparr>\<rparr>"

lemma lifecycle_genesis_inv:
  assumes "buffer_wf (lc_grants s)" "buffer_wf (lc_replay s)"
  shows "lifecycle_inv ed roots n provider (lifecycle_genesis s)"
proof -
  have "rotation_wf (stn_identity_rotation_initialize (Some i))"
      "olds (stn_identity_rotation_initialize (Some i)) = []"
      "news (stn_identity_rotation_initialize (Some i)) = []" for i
    by (simp_all add: stn_identity_rotation_initialize_def rotation_wf_def olds_def news_def Let_def
        del: stn_identity_derive.simps split: sum.splits)
  then show ?thesis
    using assms by (simp add: lifecycle_inv_def lifecycle_genesis_def lineage_def buffer_wf_reset authority_wf_initialize)
qed

lemma rebuild_genesis:
  "stn_lifecycle_rebuild sha ed s (Some blocks) (length blocks) roots n p =
    blocks_loop sha ed roots n p blocks (lifecycle_genesis s)"
  by (simp add: stn_lifecycle_rebuild_def lifecycle_genesis_def)

section \<open>Properties\<close>

text \<open>
  C34. One lifecycle transaction, exactly. From a state in the invariant, a refusal of any kind leaves
  the whole state as it was. An acceptance keeps the invariant (no registry key twice, every grant in
  force valid under the roots, the rotations an unbroken lineage) and is one of the four steps of
  \<open>lifecycle_step\<close>: a grant valid under the roots is appended; a revocation names a grant in force and
  adds its id; a rotation signed by the current identity (or the first, by an initial identity)
  moves on to an identity never used before; a publication consumes its signer's nonce. In
  particular a record already accepted is never accepted again.
\<close>

theorem lifecycle_apply_exact:
  assumes "lifecycle_inv ed roots n provider s" "txn_record_bytes tx = Some source"
  shows "case stn_lifecycle_apply_transaction ed s (Some tx) roots n (Some provider) of (r, t) \<Rightarrow>
    if r \<noteq> STN_LIFECYCLE_OK then t = s
    else lifecycle_inv ed roots n provider t \<and>
      lifecycle_step ed roots n provider s (txn_type tx) (take (unat (txn_record_length tx)) source) t"
  using lifecycle_apply_step [OF assms(1) _ assms(2) refl] by auto

text \<open>
  C27. A block of lifecycle transactions only appends. Applied to a state in the invariant, the block
  with transactions \<open>ts\<close> runs a prefix of them in order, up to the first refusal; the invariant holds
  after it, each applied transaction added exactly one registry key, and no key, grant, revocation
  or rotation accepted before is ever taken back. On OK the prefix is the whole block.
\<close>

theorem lifecycle_block_appends:
  assumes "lifecycle_inv ed roots n provider s" "block_parts sha bs h ts"
  shows "case stn_lifecycle_apply_block sha ed s (Some bs) roots n (Some provider) of (r, t) \<Rightarrow>
    lifecycle_inv ed roots n provider t \<and> lifecycle_extends s t \<and>
    (\<exists>m \<le> length ts. lifecycle_run ed roots n provider s (map tx_event (take m ts)) t \<and>
      length (accepted (lc_replay t)) = length (accepted (lc_replay s)) + m \<and>
      (r = STN_LIFECYCLE_OK \<longrightarrow> m = length ts))"
  using lifecycle_block_run [OF assms] by blast

text \<open>
  Rebuilding from history and applying block by block agree. The rebuild of a history with one
  block more is the rebuild of the history followed by that block, with the first refusal's status;
  and whatever the bytes, its result is in the invariant.
\<close>

theorem lifecycle_rebuild_incremental:
  assumes "buffer_wf (lc_grants s)" "buffer_wf (lc_replay s)"
  shows "stn_lifecycle_rebuild sha ed s (Some (blocks @ [block])) (length blocks + 1) roots n p =
      (case stn_lifecycle_rebuild sha ed s (Some blocks) (length blocks) roots n p of (r, t) \<Rightarrow>
         if r \<noteq> STN_LIFECYCLE_OK then (r, t) else stn_lifecycle_apply_block sha ed t block roots n p) \<and>
    lifecycle_inv ed roots n provider
      (snd (stn_lifecycle_rebuild sha ed s (Some blocks) (length blocks) roots n (Some provider)))"
proof
  have last: "blocks_loop sha ed roots n p [block] t = stn_lifecycle_apply_block sha ed t block roots n p" for t
    by (simp add: blocks_loop_block split: prod.splits)
  show "stn_lifecycle_rebuild sha ed s (Some (blocks @ [block])) (length blocks + 1) roots n p =
      (case stn_lifecycle_rebuild sha ed s (Some blocks) (length blocks) roots n p of (r, t) \<Rightarrow>
         if r \<noteq> STN_LIFECYCLE_OK then (r, t) else stn_lifecycle_apply_block sha ed t block roots n p)"
    using rebuild_genesis [of sha ed s "blocks @ [block]" roots n p]
    unfolding rebuild_genesis blocks_loop_append last length_append by simp
  show "lifecycle_inv ed roots n provider
      (snd (stn_lifecycle_rebuild sha ed s (Some blocks) (length blocks) roots n (Some provider)))"
    using blocks_loop_inv [OF lifecycle_genesis_inv [OF assms]] by (metis rebuild_genesis prod.collapse)
qed

section \<open>A grant accepted from a block\<close>

definition sample_lifecycle :: stn_lifecycle_state where
  "sample_lifecycle = stn_lifecycle_initialize (Some [[], []]) 2 (Some [[], []]) 2 (2 # replicate 31 0)"

definition sample_grant_tx :: bytes where
  "sample_grant_tx = transaction_magic @ [0, 1, 0, 2, 0, 0, 0, 194] @ sample_grant"

definition sample_grant_header :: stn_block_header where
  "sample_grant_header = sample_block_header\<lparr>bh_body_length := 210\<rparr>"

definition sample_grant_block :: bytes where
  "sample_grant_block = header_layout sample_grant_header @ frames [sample_grant_tx]"

lemma sample_lifecycle_genesis:
  "lifecycle_genesis sample_lifecycle = sample_lifecycle"
  "buffer_wf (lc_grants sample_lifecycle)" "buffer_wf (lc_replay sample_lifecycle)"
  "consumed_count (lc_grants sample_lifecycle) = 0" "consumed_capacity (lc_grants sample_lifecycle) = 2"
  "consumed (lc_grants sample_lifecycle) = Some [[], []]"
  "accepted (lc_replay sample_lifecycle) = []" "consumed_count (lc_replay sample_lifecycle) = 0"
  "consumed_capacity (lc_replay sample_lifecycle) = 2"
  by (simp_all add: sample_lifecycle_def lifecycle_genesis_def stn_lifecycle_initialize_def accepted_def
      stn_replay_state_initialize_def key_buffer_initialize_def buffer_wf_def buffer_valid_def
      del: stn_identity_derive.simps)

lemma sample_lifecycle_inv: "lifecycle_inv ed roots n provider sample_lifecycle"
  using lifecycle_genesis_inv [OF sample_lifecycle_genesis(2,3)] by (simp add: sample_lifecycle_genesis(1))

lemma sample_grant_tx_valid:
  "valid_tx sha sample_grant_tx" "length sample_grant_tx = 206" "tx_event sample_grant_tx = (2, sample_grant)"
  "stn_transaction_decode sha (Some sample_grant_tx) = Inr \<lparr>txn_version = 1, txn_type = 2,
      txn_record_bytes = Some sample_grant, txn_record_length = 194\<rparr>"
proof -
  show len: "length sample_grant_tx = 206" by (simp add: sample_grant_tx_def sample_grant_parts)
  have fields: "ucast (stn_wire_read (drop 4 sample_grant_tx) 2) = (1 :: u16)"
      "ucast (stn_wire_read (drop 6 sample_grant_tx) 2) = (2 :: u16)"
      "ucast (stn_wire_read (drop 8 sample_grant_tx) 4) = (194 :: u32)" "take 4 sample_grant_tx = transaction_magic"
      "drop 12 sample_grant_tx = sample_grant"
    by (simp_all add: sample_grant_tx_def transaction_magic_def stn_wire_read_def)
  show dec: "stn_transaction_decode sha (Some sample_grant_tx) = Inr \<lparr>txn_version = 1, txn_type = 2,
      txn_record_bytes = Some sample_grant, txn_record_length = 194\<rparr>"
    unfolding tx_decode_iff fields using len
    by (simp add: tx_ok_def known_type_def transaction_content_def decode_statuses sample_grant_parts lifecycle_size_def)
  then show "valid_tx sha sample_grant_tx" unfolding valid_tx_def tx_structure_iff by blast
  show "tx_event sample_grant_tx = (2, sample_grant)" by (simp add: tx_event_def fields)
qed

lemma sample_grant_block_parts: "block_parts sha sample_grant_block sample_grant_header [sample_grant_tx]"
proof -
  have "stn_target_validate (Some (0x40 # replicate 31 0)) = STN_DATA_OK"
    by (simp add: target_validate_iff be_append)
  then have h: "wf_header sample_grant_header" "header_valid sample_grant_header = STN_DATA_OK"
    by (simp_all add: sample_grant_header_def wf_header_def header_valid_def sample_block_header_def nonzero_iff)
  then have "take 168 sample_grant_block = header_layout sample_grant_header"
      "drop 168 sample_grant_block = frames [sample_grant_tx]" "168 \<le> length sample_grant_block"
    by (simp_all add: sample_grant_block_def)
  then show ?thesis
    using header_decode_layout [OF h] sample_grant_tx_valid
    by (simp add: block_parts_def) (simp add: sample_grant_header_def sample_block_header_def)
qed

lemma sample_grant_applied:
  "\<exists>t. stn_lifecycle_apply_transaction sample_ed sample_lifecycle (Some \<lparr>txn_version = 1, txn_type = 2,
      txn_record_bytes = Some sample_grant, txn_record_length = 194\<rparr>)
      (Some [2 # replicate 31 0]) 1 (Some (Some sample_sha)) = (STN_LIFECYCLE_OK, t)"
proof -
  let ?st = "STN_AUTHORITY_GRANT_DOMAIN @ [0] @ [STN_AUTHORITY_VERSION] @ (2 # replicate 31 0) @ sample_authority_evidence"
  have st: "stn_authority_grant_statement (Some (drop 1 sample_grant)) (Some sample_authority_evidence) 256 = Inr ?st"
    unfolding stn_authority_grant_statement_def
    by (simp add: sample_grant_parts sample_evidence_valid
        del: stn_identity_derive.simps stn_authority_evidence_validate.simps drop_Suc_Cons One_nat_def)
  have "length ?st \<le> STN_AUTHORITY_GRANT_DOMAIN_SIZE + STN_AUTHORITY_GRANT_SIZE"
    by (simp add: sample_evidence_valid STN_AUTHORITY_GRANT_DOMAIN_def)
  then have "stn_lifecycle_replay_nonce STN_TX_AUTHORITY_GRANT (Some ?st) (Some sample_sha) = Inr (replicate 32 9)"
    by (simp add: stn_lifecycle_replay_nonce_def sample_sha_def nonzero_iff)
  then have "\<exists>k. consume sample_lifecycle (drop 1 sample_grant) STN_TX_AUTHORITY_GRANT ?st (Some sample_sha) =
      (STN_LIFECYCLE_OK, sample_lifecycle\<lparr>lc_replay := store_key (lc_replay sample_lifecycle) k\<rparr>)"
    by (simp add: consume_def stn_replay_id_from_signer_nonce_def sample_grant_parts nonzero_iff
        consume_id_cases sample_lifecycle_genesis del: stn_identity_derive.simps drop_Suc_Cons One_nat_def) blast
  then have "\<exists>t. apply_grant sample_ed sample_lifecycle sample_grant (Some [2 # replicate 31 0]) 1 (Some sample_sha) =
      (STN_LIFECYCLE_OK, t)"
    unfolding apply_grant_def sample_grant_valid sum.case st
    by (auto simp: sample_grant_parts sample_lifecycle_genesis)
  then show ?thesis
    by (simp add: stn_lifecycle_apply_transaction_def sample_grant_parts)
qed

theorem lifecycle_apply_exact_witness:
  "\<exists>t. stn_lifecycle_apply_transaction sample_ed sample_lifecycle (Some \<lparr>txn_version = 1, txn_type = 2,
      txn_record_bytes = Some sample_grant, txn_record_length = 194\<rparr>)
      (Some [2 # replicate 31 0]) 1 (Some (Some sample_sha)) = (STN_LIFECYCLE_OK, t) \<and>
     lifecycle_step sample_ed (Some [2 # replicate 31 0]) 1 (Some sample_sha) sample_lifecycle 2 sample_grant t"
  using sample_grant_applied
    lifecycle_apply_exact [OF sample_lifecycle_inv, where tx = "\<lparr>txn_version = 1, txn_type = 2,
      txn_record_bytes = Some sample_grant, txn_record_length = 194\<rparr>" and source = sample_grant
      and ed = sample_ed and roots = "Some [2 # replicate 31 0]" and n = 1 and provider = "Some sample_sha"]
  by (auto simp: sample_grant_parts)

lemma sample_grant_block_applied:
  "\<exists>t. stn_lifecycle_apply_block sample_sha sample_ed sample_lifecycle (Some sample_grant_block)
      (Some [2 # replicate 31 0]) 1 (Some (Some sample_sha)) = (STN_LIFECYCLE_OK, t)"
proof -
  have "unat (bh_transaction_count sample_grant_header) = Suc 0"
    by (simp add: sample_grant_header_def sample_block_header_def)
  then show ?thesis
    using sample_grant_applied sample_grant_tx_valid(2,4) read_frame(4) [of sample_grant_tx]
      frame_read64 [of sample_grant_tx "[]"]
    by (auto simp: stn_lifecycle_apply_block_def block_parts_decode(1) [OF sample_grant_block_parts] Let_def)
qed

theorem lifecycle_block_appends_witness:
  "\<exists>t. stn_lifecycle_apply_block sample_sha sample_ed sample_lifecycle (Some sample_grant_block)
      (Some [2 # replicate 31 0]) 1 (Some (Some sample_sha)) = (STN_LIFECYCLE_OK, t) \<and>
    length (accepted (lc_replay t)) = 1"
  using sample_grant_block_applied
    lifecycle_block_appends [OF sample_lifecycle_inv sample_grant_block_parts [of sample_sha],
      where ed = sample_ed and roots = "Some [2 # replicate 31 0]" and n = 1 and provider = "Some sample_sha"]
  by (auto simp: sample_lifecycle_genesis)

theorem lifecycle_rebuild_incremental_witness:
  "stn_lifecycle_rebuild sample_sha sample_ed sample_lifecycle (Some [Some sample_grant_block]) 1
      (Some [2 # replicate 31 0]) 1 (Some (Some sample_sha)) =
    stn_lifecycle_apply_block sample_sha sample_ed sample_lifecycle (Some sample_grant_block)
      (Some [2 # replicate 31 0]) 1 (Some (Some sample_sha))"
  using lifecycle_rebuild_incremental [OF sample_lifecycle_genesis(2,3), of sample_sha sample_ed "[]"
      "Some sample_grant_block" "Some [2 # replicate 31 0]" 1 "Some (Some sample_sha)" "Some sample_sha"]
    rebuild_genesis [of sample_sha sample_ed sample_lifecycle "[]" "Some [2 # replicate 31 0]" 1 "Some (Some sample_sha)"]
  by (simp add: sample_lifecycle_genesis(1))

end
