(* ===== verification/Stn_Sentinel.thy ===== *)
theory Stn_Sentinel
  imports Stn_Interfaces
begin

text \<open>
  The Sentinel intelligence payload of a publication, \<^verbatim>\<open>src/src/stn_sentinel_intelligence.c\<close>: three
  length-delimited ASCII fields between a fixed head and the evidence digest. The file's static
  \<^verbatim>\<open>read16\<close> and \<^verbatim>\<open>write16\<close> are the two-byte cases of the wire reader and writer.
\<close>

section \<open>Data\<close>

datatype stn_sentinel_intelligence_status =
    STN_SENTINEL_INTELLIGENCE_OK | STN_SENTINEL_INTELLIGENCE_ARGUMENT
  | STN_SENTINEL_INTELLIGENCE_LENGTH | STN_SENTINEL_INTELLIGENCE_VERSION_ERROR
  | STN_SENTINEL_INTELLIGENCE_SEVERITY | STN_SENTINEL_INTELLIGENCE_CLASSIFICATION
  | STN_SENTINEL_INTELLIGENCE_SOURCE | STN_SENTINEL_INTELLIGENCE_SUBJECT
  | STN_SENTINEL_INTELLIGENCE_EVIDENCE | STN_SENTINEL_INTELLIGENCE_CAPACITY

definition STN_SENTINEL_INTELLIGENCE_MIN_SIZE :: nat where [simp]: "STN_SENTINEL_INTELLIGENCE_MIN_SIZE = 52"
definition STN_SENTINEL_INTELLIGENCE_MAX_SIZE :: nat where [simp]: "STN_SENTINEL_INTELLIGENCE_MAX_SIZE = 1390"
definition STN_SENTINEL_INTELLIGENCE_VERSION :: u16 where [simp]: "STN_SENTINEL_INTELLIGENCE_VERSION = 1"

record stn_sentinel_intelligence =
  si_version :: u16
  si_observed_at :: u64
  si_severity :: u8
  si_classification :: "bytes option"
  si_classification_length :: u16
  si_source :: "bytes option"
  si_source_length :: u16
  si_subject :: "bytes option"
  si_subject_length :: u16
  si_evidence_digest :: bytes

section \<open>Validation\<close>

definition alnum_lower :: "u8 \<Rightarrow> bool" where
  "alnum_lower c \<longleftrightarrow> (c \<ge> 0x61 \<and> c \<le> 0x7a) \<or> (c \<ge> 0x30 \<and> c \<le> 0x39)"

text \<open>
  The loop over the source name: \<open>label\<close> counts the characters of the current label and \<open>prev\<close> is
  the byte before, read only when the label is not empty. The value is the count at the end.
\<close>

fun source_loop :: "nat \<Rightarrow> u8 \<Rightarrow> bytes \<Rightarrow> nat option" where
  "source_loop label prev [] = Some label"
| "source_loop label prev (c # cs) =
     (if c = 0x2e then
        (if label = 0 \<or> prev = 0x2d then None else source_loop 0 c cs)
      else if (\<not> alnum_lower c \<and> c \<noteq> 0x2d) \<or> (label = 0 \<and> c = 0x2d) \<or> label = 63 then None
      else source_loop (label + 1) c cs)"

definition source_valid :: "bytes \<Rightarrow> bool" where
  "source_valid s =
     (case source_loop 0 0 s of
        None \<Rightarrow> False
      | Some label \<Rightarrow> \<not> (label = 0 \<or> last s = 0x2d))"

definition sentinel_validate :: "stn_sentinel_intelligence \<Rightarrow> stn_sentinel_intelligence_status" where
  "sentinel_validate v =
     (if si_version v \<noteq> STN_SENTINEL_INTELLIGENCE_VERSION then STN_SENTINEL_INTELLIGENCE_VERSION_ERROR
      else if si_severity v < 1 \<or> si_severity v > 10 then STN_SENTINEL_INTELLIGENCE_SEVERITY
      else if si_classification_length v < 1 \<or> si_classification_length v > 64
      then STN_SENTINEL_INTELLIGENCE_CLASSIFICATION
      else if si_source_length v < 1 \<or> si_source_length v > 253 then STN_SENTINEL_INTELLIGENCE_SOURCE
      else if si_subject_length v < 1 \<or> si_subject_length v > 1024 then STN_SENTINEL_INTELLIGENCE_SUBJECT
      else
        (case (si_classification v, si_source v, si_subject v) of
           (Some classification, Some source, Some subject) \<Rightarrow>
             if list_ex (\<lambda>c. \<not> alnum_lower c \<and> c \<noteq> 0x5f \<and> c \<noteq> 0x2d)
               (take (unat (si_classification_length v)) classification)
             then STN_SENTINEL_INTELLIGENCE_CLASSIFICATION
             else if \<not> source_valid (take (unat (si_source_length v)) source)
             then STN_SENTINEL_INTELLIGENCE_SOURCE
             else if list_ex (\<lambda>c. c < 0x20 \<or> c > 0x7e) (take (unat (si_subject_length v)) subject)
             then STN_SENTINEL_INTELLIGENCE_SUBJECT
             else if nonzero (si_evidence_digest v) then STN_SENTINEL_INTELLIGENCE_OK
             else STN_SENTINEL_INTELLIGENCE_EVIDENCE
         | _ \<Rightarrow> STN_SENTINEL_INTELLIGENCE_ARGUMENT))"

section \<open>The codec\<close>

text \<open>One field from the rest of the input: its bytes, its count and what follows.\<close>

definition sentinel_field :: "bytes \<Rightarrow> (bytes \<times> u16 \<times> bytes) option" where
  "sentinel_field rest =
     (if length rest < 2 then None
      else
        (let count = ucast (stn_wire_read rest 2) :: u16; after = drop 2 rest
         in if unat count > length after then None
            else Some (take (unat count) after, count, drop (unat count) after)))"

fun stn_sentinel_intelligence_decode ::
  "bytes option \<Rightarrow> stn_sentinel_intelligence_status + stn_sentinel_intelligence" where
  "stn_sentinel_intelligence_decode None = Inl STN_SENTINEL_INTELLIGENCE_ARGUMENT"
| "stn_sentinel_intelligence_decode (Some input) =
     (if length input < STN_SENTINEL_INTELLIGENCE_MIN_SIZE \<or>
        length input > STN_SENTINEL_INTELLIGENCE_MAX_SIZE
      then Inl STN_SENTINEL_INTELLIGENCE_LENGTH
      else
        (case sentinel_field (drop 11 input) of
           None \<Rightarrow> Inl STN_SENTINEL_INTELLIGENCE_LENGTH
         | Some (classification, classification_length, rest1) \<Rightarrow>
             (case sentinel_field rest1 of
                None \<Rightarrow> Inl STN_SENTINEL_INTELLIGENCE_LENGTH
              | Some (source, source_length, rest2) \<Rightarrow>
                  (case sentinel_field rest2 of
                     None \<Rightarrow> Inl STN_SENTINEL_INTELLIGENCE_LENGTH
                   | Some (subject, subject_length, rest3) \<Rightarrow>
                       if length rest3 \<noteq> 32 then Inl STN_SENTINEL_INTELLIGENCE_LENGTH
                       else
                         (let v = \<lparr>si_version = ucast (stn_wire_read input 2),
                                si_observed_at = stn_wire_read (drop 2 input) 8,
                                si_severity = input ! 10,
                                si_classification = Some classification,
                                si_classification_length = classification_length,
                                si_source = Some source, si_source_length = source_length,
                                si_subject = Some subject, si_subject_length = subject_length,
                                si_evidence_digest = take 32 rest3\<rparr>;
                              status = sentinel_validate v
                          in if status = STN_SENTINEL_INTELLIGENCE_OK then Inr v else Inl status)))))"

definition put_field :: "bytes \<Rightarrow> u16 \<Rightarrow> bytes" where
  "put_field bs count = stn_wire_write 2 (ucast count) @ take (unat count) bs"

fun stn_sentinel_intelligence_encode ::
  "stn_sentinel_intelligence option \<Rightarrow> nat \<Rightarrow> stn_sentinel_intelligence_status + bytes" where
  "stn_sentinel_intelligence_encode None capacity = Inl STN_SENTINEL_INTELLIGENCE_ARGUMENT"
| "stn_sentinel_intelligence_encode (Some v) capacity =
     (let status = sentinel_validate v
      in if status \<noteq> STN_SENTINEL_INTELLIGENCE_OK then Inl status
         else if capacity < 49 + unat (si_classification_length v) + unat (si_source_length v) +
           unat (si_subject_length v)
         then Inl STN_SENTINEL_INTELLIGENCE_CAPACITY
         else Inr
           (stn_wire_write 2 (ucast (si_version v)) @ stn_wire_write 8 (si_observed_at v) @
            [si_severity v] @ put_field (the (si_classification v)) (si_classification_length v) @
            put_field (the (si_source v)) (si_source_length v) @
            put_field (the (si_subject v)) (si_subject_length v) @ si_evidence_digest v))"

section \<open>The source is a host name\<close>

text \<open>The labels of a name: the maximal runs between dots.\<close>

fun labels :: "bytes \<Rightarrow> bytes \<Rightarrow> bytes list" where
  "labels cur [] = [cur]"
| "labels cur (c # cs) = (if c = 0x2e then cur # labels [] cs else labels (cur @ [c]) cs)"

definition host_label :: "bytes \<Rightarrow> bool" where
  "host_label l \<longleftrightarrow> l \<noteq> [] \<and> length l \<le> 63 \<and> (\<forall>c \<in> set l. alnum_lower c \<or> c = 0x2d) \<and>
     hd l \<noteq> 0x2d \<and> last l \<noteq> 0x2d"

definition label_prefix :: "bytes \<Rightarrow> bool" where
  "label_prefix l \<longleftrightarrow> length l \<le> 63 \<and> (\<forall>c \<in> set l. alnum_lower c \<or> c = 0x2d) \<and> (l \<noteq> [] \<longrightarrow> hd l \<noteq> 0x2d)"

lemma host_label_prefix: "host_label l \<longleftrightarrow> label_prefix l \<and> l \<noteq> [] \<and> last l \<noteq> 0x2d"
  by (auto simp: host_label_def label_prefix_def)

lemma labels_start: "\<exists>rest more. labels cur cs = (cur @ rest) # more"
proof (induction cs arbitrary: cur)
  case (Cons c cs)
  from Cons.IH [of "cur @ [c]"] show ?case by auto
qed simp

lemma label_prefix_appendD: "label_prefix (a @ b) \<Longrightarrow> label_prefix a"
  by (auto simp: label_prefix_def)

lemma source_loop_labels:
  assumes "label_prefix cur" "cur \<noteq> [] \<Longrightarrow> prev = last cur"
  shows "(case source_loop (length cur) prev cs of None \<Rightarrow> False
      | Some n \<Rightarrow> n \<noteq> 0 \<and> last (cur @ cs) \<noteq> 0x2d) \<longleftrightarrow> (\<forall>l \<in> set (labels cur cs). host_label l)"
  using assms
proof (induction cs arbitrary: cur prev)
  case Nil
  then show ?case by (auto simp: host_label_prefix)
next
  case (Cons c cs)
  show ?case
  proof (cases "c = 0x2e")
    case True
    have "label_prefix []" by (simp add: label_prefix_def)
    from Cons.IH [OF this, of c] have ih: "(case source_loop 0 c cs of None \<Rightarrow> False
        | Some n \<Rightarrow> n \<noteq> 0 \<and> last cs \<noteq> 0x2d) \<longleftrightarrow> (\<forall>l \<in> set (labels [] cs). host_label l)"
      unfolding append_Nil list.size(3) by blast
    have "source_loop 0 c [] = Some n \<Longrightarrow> n = 0" for n by simp
    with ih True Cons.prems show ?thesis
      by (cases "cs = []") (auto simp: host_label_prefix split: option.splits)
  next
    case False
    show ?thesis
    proof (cases "label_prefix (cur @ [c])")
      case True
      have "source_loop (length cur) prev (c # cs) = source_loop (length (cur @ [c])) c cs"
        using True False by (auto simp: label_prefix_def)
      moreover have "labels cur (c # cs) = labels (cur @ [c]) cs" using False by simp
      ultimately show ?thesis
        using Cons.IH [OF True, of c] unfolding append_assoc append_Cons append_Nil by (simp only: last_snoc)
    next
      case bad: False
      from labels_start [of "cur @ [c]" cs] obtain rest more where "labels (cur @ [c]) cs = ((cur @ [c]) @ rest) # more" by blast
      with bad False have "\<not> (\<forall>l \<in> set (labels cur (c # cs)). host_label l)"
        using label_prefix_appendD [of "cur @ [c]" rest] by (auto simp: host_label_prefix)
      moreover have "source_loop (length cur) prev (c # cs) = None"
        using bad False Cons.prems(1) by (auto simp: label_prefix_def hd_append split: if_splits)
      ultimately show ?thesis by simp
    qed
  qed
qed

lemma source_valid_labels: "source_valid s \<longleftrightarrow> (\<forall>l \<in> set (labels [] s). host_label l)"
proof -
  have "label_prefix []" by (simp add: label_prefix_def)
  from source_loop_labels [OF this, of 0 s] show ?thesis
    by (auto simp: source_valid_def split: option.splits)
qed

section \<open>The format is canonical\<close>

definition wf_sentinel :: "stn_sentinel_intelligence \<Rightarrow> bool" where
  "wf_sentinel v \<longleftrightarrow> length (si_evidence_digest v) = 32 \<and>
     (\<exists>a b c. si_classification v = Some a \<and> length a = unat (si_classification_length v) \<and>
       si_source v = Some b \<and> length b = unat (si_source_length v) \<and>
       si_subject v = Some c \<and> length c = unat (si_subject_length v))"

definition sentinel_layout :: "stn_sentinel_intelligence \<Rightarrow> bytes" where
  "sentinel_layout v =
     stn_wire_write 2 (ucast (si_version v)) @ stn_wire_write 8 (si_observed_at v) @
     [si_severity v] @ put_field (the (si_classification v)) (si_classification_length v) @
     put_field (the (si_source v)) (si_source_length v) @
     put_field (the (si_subject v)) (si_subject_length v) @ si_evidence_digest v"

lemma sentinel_encode_iff:
  "stn_sentinel_intelligence_encode (Some v) capacity = Inr bs \<longleftrightarrow>
     sentinel_validate v = STN_SENTINEL_INTELLIGENCE_OK \<and>
     49 + unat (si_classification_length v) + unat (si_source_length v) + unat (si_subject_length v) \<le> capacity \<and>
     bs = sentinel_layout v"
  by (auto simp: sentinel_layout_def Let_def)

lemma length_put_field [simp]: "length b = unat n \<Longrightarrow> length (put_field b n) = 2 + length b"
  by (simp add: put_field_def)

lemma sentinel_field_put:
  assumes "length b = unat n"
  shows "sentinel_field (put_field b n @ r) = Some (b, n, r)"
  using assms by (simp add: sentinel_field_def put_field_def)

lemma sentinel_field_Some:
  assumes "sentinel_field bs = Some (b, n, r)"
  shows "length b = unat n" "bs = put_field b n @ r"
proof -
  have f: "2 \<le> length bs" "n = ucast (stn_wire_read bs 2)" "unat n \<le> length (drop 2 bs)"
      "b = take (unat n) (drop 2 bs)" "r = drop (unat n) (drop 2 bs)"
    using assms by (auto simp: sentinel_field_def Let_def split: if_splits)
  then show len: "length b = unat n" by simp
  have "stn_wire_write 2 (ucast n) = take 2 bs" using f(1,2) by simp
  then have "put_field b n = take 2 bs @ b" using len by (simp add: put_field_def)
  then show "bs = put_field b n @ r"
    using f(4,5) by (metis append_assoc append_take_drop_id)
qed

lemma sentinel_validate_lengths:
  assumes "sentinel_validate v = STN_SENTINEL_INTELLIGENCE_OK"
  shows "si_version v = 1" "1 \<le> unat (si_classification_length v)" "unat (si_classification_length v) \<le> 64"
    "1 \<le> unat (si_source_length v)" "unat (si_source_length v) \<le> 253"
    "1 \<le> unat (si_subject_length v)" "unat (si_subject_length v) \<le> 1024"
  using assms by (auto simp: sentinel_validate_def word_le_nat_alt word_less_nat_alt not_less split: if_splits)

lemma length_sentinel_layout:
  "wf_sentinel v \<Longrightarrow> length (sentinel_layout v) =
     49 + unat (si_classification_length v) + unat (si_source_length v) + unat (si_subject_length v)"
  by (auto simp: sentinel_layout_def wf_sentinel_def)

lemma sentinel_decode_iff:
  "stn_sentinel_intelligence_decode (Some bs) = Inr v \<longleftrightarrow>
     wf_sentinel v \<and> sentinel_validate v = STN_SENTINEL_INTELLIGENCE_OK \<and> bs = sentinel_layout v"
proof
  assume dec: "stn_sentinel_intelligence_decode (Some bs) = Inr v"
  then obtain b1 n1 r1 b2 n2 r2 b3 n3 r3 where len: "52 \<le> length bs"
      and f: "sentinel_field (drop 11 bs) = Some (b1, n1, r1)" "sentinel_field r1 = Some (b2, n2, r2)"
        "sentinel_field r2 = Some (b3, n3, r3)" "length r3 = 32"
      and v: "v = \<lparr>si_version = ucast (stn_wire_read bs 2), si_observed_at = stn_wire_read (drop 2 bs) 8,
          si_severity = bs ! 10, si_classification = Some b1, si_classification_length = n1,
          si_source = Some b2, si_source_length = n2, si_subject = Some b3, si_subject_length = n3,
          si_evidence_digest = r3\<rparr>"
      and ok: "sentinel_validate v = STN_SENTINEL_INTELLIGENCE_OK"
    by (auto simp: Let_def split: if_splits option.splits)
  note g1 = sentinel_field_Some [OF f(1)] and g2 = sentinel_field_Some [OF f(2)] and g3 = sentinel_field_Some [OF f(3)]
  have "take 11 bs = stn_wire_write 2 (ucast (si_version v)) @ stn_wire_write 8 (si_observed_at v) @ [si_severity v]"
    using len by (simp add: v nth_slice slices)
  then have "bs = sentinel_layout v"
    using g1(2) g2(2) g3(2) append_take_drop_id [of 11 bs]
    unfolding sentinel_layout_def v stn_sentinel_intelligence.simps option.sel by (metis append_assoc)
  then show "wf_sentinel v \<and> sentinel_validate v = STN_SENTINEL_INTELLIGENCE_OK \<and> bs = sentinel_layout v"
    using ok f(4) g1(1) g2(1) g3(1) by (simp add: wf_sentinel_def v)
next
  assume r: "wf_sentinel v \<and> sentinel_validate v = STN_SENTINEL_INTELLIGENCE_OK \<and> bs = sentinel_layout v"
  then obtain a b c where w: "si_classification v = Some a" "length a = unat (si_classification_length v)"
      "si_source v = Some b" "length b = unat (si_source_length v)"
      "si_subject v = Some c" "length c = unat (si_subject_length v)" "length (si_evidence_digest v) = 32"
    by (auto simp: wf_sentinel_def)
  from r have ok: "sentinel_validate v = STN_SENTINEL_INTELLIGENCE_OK" by blast
  note l = sentinel_validate_lengths [of v]
  have len: "52 \<le> length bs" "length bs \<le> 1390"
    using r l length_sentinel_layout [of v] by auto
  have split: "bs = stn_wire_write 2 (ucast (si_version v)) @ stn_wire_write 8 (si_observed_at v) @
      [si_severity v] @ put_field a (si_classification_length v) @ put_field b (si_source_length v) @
      put_field c (si_subject_length v) @ si_evidence_digest v"
    using r w by (simp add: sentinel_layout_def)
  have d: "drop 11 bs = put_field a (si_classification_length v) @ put_field b (si_source_length v) @
      put_field c (si_subject_length v) @ si_evidence_digest v" "drop 2 bs = stn_wire_write 8 (si_observed_at v) @
      [si_severity v] @ put_field a (si_classification_length v) @ put_field b (si_source_length v) @
      put_field c (si_subject_length v) @ si_evidence_digest v"
    unfolding split by simp_all
  have h: "ucast (stn_wire_read bs 2) = si_version v" "stn_wire_read (drop 2 bs) 8 = si_observed_at v"
      "bs ! 10 = si_severity v"
    unfolding split by (simp_all add: nth_append)
  have eta: "\<lparr>si_version = si_version v, si_observed_at = si_observed_at v, si_severity = si_severity v,
      si_classification = si_classification v, si_classification_length = si_classification_length v,
      si_source = si_source v, si_source_length = si_source_length v, si_subject = si_subject v,
      si_subject_length = si_subject_length v, si_evidence_digest = si_evidence_digest v\<rparr> = v" by simp
  show "stn_sentinel_intelligence_decode (Some bs) = Inr v"
    using len w(2,4,6) ok unfolding stn_sentinel_intelligence_decode.simps d(1)
    by (simp add: sentinel_field_put h w(7) Let_def eta flip: w(1,3,5))
qed

declare stn_sentinel_intelligence_decode.simps(2) [simp del] stn_sentinel_intelligence_encode.simps(2) [simp del]

interpretation sentinel_codec: codec
  "\<lambda>v. stn_sentinel_intelligence_encode (Some v) STN_SENTINEL_INTELLIGENCE_MAX_SIZE"
  "\<lambda>bs. stn_sentinel_intelligence_decode (Some bs)" wf_sentinel
proof
  fix v bs
  assume "wf_sentinel v" "stn_sentinel_intelligence_encode (Some v) STN_SENTINEL_INTELLIGENCE_MAX_SIZE = Inr bs"
  then show "stn_sentinel_intelligence_decode (Some bs) = Inr v"
    by (simp add: sentinel_decode_iff sentinel_encode_iff)
next
  fix v bs
  assume dec: "stn_sentinel_intelligence_decode (Some bs) = Inr v"
  then have ok: "sentinel_validate v = STN_SENTINEL_INTELLIGENCE_OK" by (simp add: sentinel_decode_iff)
  show "stn_sentinel_intelligence_encode (Some v) STN_SENTINEL_INTELLIGENCE_MAX_SIZE = Inr bs"
    using dec sentinel_validate_lengths [OF ok] by (simp add: sentinel_decode_iff sentinel_encode_iff)
next
  fix v bs
  assume "stn_sentinel_intelligence_decode (Some bs) = Inr v"
  then show "wf_sentinel v" by (simp add: sentinel_decode_iff)
qed

text \<open>The schema of a payload.\<close>

definition sentinel_schema :: "stn_sentinel_intelligence \<Rightarrow> bool" where
  "sentinel_schema v \<longleftrightarrow> si_version v = 1 \<and> unat (si_severity v) \<in> {1..10} \<and>
     length (si_evidence_digest v) = 32 \<and> nonzero (si_evidence_digest v) \<and>
     (\<exists>classification source subject.
        si_classification v = Some classification \<and> si_source v = Some source \<and> si_subject v = Some subject \<and>
        unat (si_classification_length v) = length classification \<and> length classification \<in> {1..64} \<and>
        unat (si_source_length v) = length source \<and> length source \<in> {1..253} \<and>
        unat (si_subject_length v) = length subject \<and> length subject \<in> {1..1024} \<and>
        (\<forall>c \<in> set classification. alnum_lower c \<or> c = 0x5f \<or> c = 0x2d) \<and>
        (\<forall>l \<in> set (labels [] source). host_label l) \<and>
        (\<forall>c \<in> set subject. 0x20 \<le> c \<and> c \<le> 0x7e))"

lemma sentinel_schema_iff:
  "wf_sentinel v \<and> sentinel_validate v = STN_SENTINEL_INTELLIGENCE_OK \<longleftrightarrow> sentinel_schema v"
proof
  assume l: "wf_sentinel v \<and> sentinel_validate v = STN_SENTINEL_INTELLIGENCE_OK"
  then obtain a b c where w: "si_classification v = Some a" "length a = unat (si_classification_length v)"
      "si_source v = Some b" "length b = unat (si_source_length v)"
      "si_subject v = Some c" "length c = unat (si_subject_length v)"
    by (auto simp: wf_sentinel_def)
  have "list_all (\<lambda>c. alnum_lower c \<or> c = 0x5f \<or> c = 0x2d) a" "source_valid b"
      "list_all (\<lambda>c. 0x20 \<le> c \<and> c \<le> 0x7e) c" "nonzero (si_evidence_digest v)"
      "si_severity v \<noteq> 0" "si_severity v \<le> 10"
    using l w by (auto simp: sentinel_validate_def list_ex_iff list_all_iff not_less split: if_splits)
  moreover from this have "unat (si_severity v) \<noteq> 0" "unat (si_severity v) \<le> 10"
    by (simp_all add: word_unat_eq_iff word_le_nat_alt)
  ultimately show "sentinel_schema v"
    using l w sentinel_validate_lengths [of v]
    by (simp add: sentinel_schema_def wf_sentinel_def source_valid_labels list_all_iff word_le_nat_alt)
next
  assume "sentinel_schema v"
  then show "wf_sentinel v \<and> sentinel_validate v = STN_SENTINEL_INTELLIGENCE_OK"
    by (auto simp: sentinel_schema_def wf_sentinel_def sentinel_validate_def source_valid_labels list_ex_iff
        word_less_nat_alt word_le_nat_alt) (meson not_less)+
qed

text \<open>
  C35. The intelligence payload is canonical and its texts are what the schema says: bytes are
  accepted exactly when they are the encoding of a version 1 value of severity 1 to 10 with a
  classification of 1 to 64 characters from \<open>a-z0-9_-\<close>, a source of 1 to 253 characters that is a dotted
  host name (labels of 1 to 63 lower case letters, digits and inner hyphens), a printable subject
  of 1 to 1024 characters and a digest that is not zero.
\<close>

theorem sentinel_canonical:
  "stn_sentinel_intelligence_decode (Some bs) = Inr v \<longleftrightarrow>
     sentinel_schema v \<and>
     stn_sentinel_intelligence_encode (Some v) STN_SENTINEL_INTELLIGENCE_MAX_SIZE = Inr bs"
  unfolding sentinel_codec.dec_iff sentinel_schema_iff [symmetric] by (auto simp: sentinel_encode_iff)

end
