(* ===== verification/Stn_Publication.thy ===== *)
theory Stn_Publication
  imports Stn_Lifecycle Stn_Sentinel
begin

text \<open>
  Admission of a publication under the accepted lifecycle, the read-only half of
  \<^verbatim>\<open>src/src/stn_lifecycle.c\<close> that the chain, the pending pool and the RPC share: a canonical record with
  a canonical payload, signed by an identity that has not been rotated away, under a grant in force,
  with a fresh nonce. \<^verbatim>\<open>malloc\<close> may fail, so its success is a parameter.
\<close>

section \<open>The check\<close>

text \<open>The loop over the grants: each must be well formed and have an identifier; one must authorize.\<close>

fun publication_grants ::
  "stn_authority_state \<Rightarrow> bytes \<Rightarrow> bytes \<Rightarrow> bytes \<Rightarrow> stn_hash_provider \<Rightarrow> bool \<Rightarrow> bytes list \<Rightarrow>
   stn_lifecycle_result + bool" where
  "publication_grants authority signer action context provider authorized [] = Inr authorized"
| "publication_grants authority signer action context provider authorized (grant # grants) =
     (let evidence = take STN_AUTHORITY_EVIDENCE_SIZE (drop 33 grant)
      in if stn_authority_evidence_validate (Some evidence) \<noteq> STN_AUTHORITY_AUTHORIZED
         then Inl STN_LIFECYCLE_INVALID
         else
           (case stn_authority_grant_id (Some grant) provider of
              Inl _ \<Rightarrow> Inl STN_LIFECYCLE_PROVIDER
            | Inr grant_id \<Rightarrow>
                publication_grants authority signer action context provider
                  (authorized \<or> \<not> stn_authority_state_is_revoked authority (Some grant_id) \<and>
                    stn_authority_evaluate (Some signer) (Some action) (Some context) (Some evidence)
                      (length evidence) = STN_AUTHORITY_AUTHORIZED)
                  grants))"

definition stn_lifecycle_check_publication ::
  "ed25519 \<Rightarrow> bool \<Rightarrow> stn_lifecycle_state option \<Rightarrow> bytes option \<Rightarrow> stn_hash_provider \<Rightarrow> stn_lifecycle_result" where
  "stn_lifecycle_check_publication ed alloc state input provider =
     (case (state, input) of
        (Some s, Some bs) \<Rightarrow>
          (case stn_record_decode (Some bs) of
             Inl _ \<Rightarrow> STN_LIFECYCLE_MALFORMED
           | Inr r \<Rightarrow>
               (case stn_sentinel_intelligence_decode (rec_payload r) of
                  Inl _ \<Rightarrow> STN_LIFECYCLE_MALFORMED
                | Inr payload \<Rightarrow>
                    (case (stn_record_publication_tokens (Some bs) provider, stn_record_id (Some bs) provider) of
                       (Inr (action, context), Inr record_id) \<Rightarrow>
                         (let unsigned_length = STN_RECORD_HEADER_SIZE + unat (rec_payload_length r)
                          in if \<not> alloc then STN_LIFECYCLE_CAPACITY
                             else
                               (case stn_identity_statement (Some bs) unsigned_length
                                       (STN_IDENTITY_DOMAIN_SIZE + unsigned_length) of
                                  Inl _ \<Rightarrow> STN_LIFECYCLE_MALFORMED
                                | Inr statement \<Rightarrow>
                                    if stn_identity_verify ed (Some (rec_signer_public_key r)) (Some statement)
                                      (Some (rec_signature r)) STN_RECORD_SIGNATURE_SIZE \<noteq> STN_IDENTITY_VALID
                                    then STN_LIFECYCLE_INVALID
                                    else if list_ex (\<lambda>old. memcmp (rec_signer_public_key r) old = 0)
                                      (take (rotation_count (lc_rotation s)) (old_identities (lc_rotation s)))
                                    then STN_LIFECYCLE_INVALID
                                    else
                                      (case publication_grants (lc_authority s) (rec_signer_public_key r)
                                              action context provider False (accepted (lc_grants s)) of
                                         Inl result \<Rightarrow> result
                                       | Inr authorized \<Rightarrow>
                                           if \<not> authorized then STN_LIFECYCLE_INVALID
                                           else
                                             (case stn_replay_id_from_signer_nonce
                                                     (Some (rec_signer_public_key r)) (Some (rec_nonce r)) of
                                                Inl _ \<Rightarrow> STN_LIFECYCLE_MALFORMED
                                              | Inr replay_id \<Rightarrow>
                                                  if stn_replay_state_check (lc_replay s) (Some replay_id) =
                                                    STN_REPLAY_FRESH
                                                  then STN_LIFECYCLE_OK else STN_LIFECYCLE_REPLAY))))
                     | _ \<Rightarrow> STN_LIFECYCLE_PROVIDER)))
      | _ \<Rightarrow> STN_LIFECYCLE_ARGUMENT)"

section \<open>What the check decides\<close>

lemma publication_grants_iff:
  "publication_grants authority signer action context provider auth grants = Inr a \<longleftrightarrow>
     (\<forall>g \<in> set grants. stn_authority_evidence_validate (Some (take 97 (drop 33 g))) = STN_AUTHORITY_AUTHORIZED \<and>
        (\<exists>i. stn_authority_grant_id (Some g) provider = Inr i)) \<and>
     (a \<longleftrightarrow> auth \<or> (\<exists>g \<in> set grants. \<exists>i. stn_authority_grant_id (Some g) provider = Inr i \<and>
        \<not> stn_authority_state_is_revoked authority (Some i) \<and>
        stn_authority_evaluate (Some signer) (Some action) (Some context) (Some (take 97 (drop 33 g)))
          (length (take 97 (drop 33 g))) = STN_AUTHORITY_AUTHORIZED))"
proof (induction grants arbitrary: auth)
  case (Cons g grants)
  show ?case
    by (cases "stn_authority_grant_id (Some g) provider")
       (auto simp: Let_def Cons.IH simp del: stn_authority_evidence_validate.simps)
qed auto

lemma publication_grants_refused:
  "publication_grants authority signer action context provider auth grants \<noteq> Inl STN_LIFECYCLE_OK"
  by (induction grants arbitrary: auth) (auto simp: Let_def split: sum.splits)

text \<open>The statement a record signs.\<close>

definition record_statement :: "bytes \<Rightarrow> stn_record \<Rightarrow> bytes" where
  "record_statement bs r = take (STN_IDENTITY_DOMAIN_SIZE - 1) STN_IDENTITY_DOMAIN @ [0] @
     take (STN_RECORD_HEADER_SIZE + unat (rec_payload_length r)) bs"

lemma record_statement_iff:
  assumes "stn_record_decode (Some bs) = Inr r"
  shows "stn_identity_statement (Some bs) (STN_RECORD_HEADER_SIZE + unat (rec_payload_length r))
      (STN_IDENTITY_DOMAIN_SIZE + (STN_RECORD_HEADER_SIZE + unat (rec_payload_length r))) = Inr (record_statement bs r)"
  using record_decode_facts(2) [OF assms]
  by (simp add: stn_identity_statement_def record_statement_def SIZE_MAX_def)

text \<open>A grant in force that lets the signer publish.\<close>

definition publishing_grant ::
  "stn_lifecycle_state \<Rightarrow> stn_hash_provider \<Rightarrow> bytes \<Rightarrow> bytes \<Rightarrow> bytes \<Rightarrow> bytes \<Rightarrow> bool" where
  "publishing_grant s provider signer action context g \<longleftrightarrow>
     g \<in> set (accepted (lc_grants s)) \<and>
     (\<exists>i. stn_authority_grant_id (Some g) provider = Inr i \<and> i \<notin> set (revoked (lc_authority s))) \<and>
     stn_authority_evaluate (Some signer) (Some action) (Some context) (Some (take 97 (drop 33 g))) 97 =
       STN_AUTHORITY_AUTHORIZED"

definition publication_ok ::
  "ed25519 \<Rightarrow> stn_lifecycle_state \<Rightarrow> stn_hash_provider \<Rightarrow> bytes \<Rightarrow> stn_record \<Rightarrow> bool" where
  "publication_ok ed s provider bs r \<longleftrightarrow>
     (\<exists>payload. stn_sentinel_intelligence_decode (rec_payload r) = Inr payload) \<and>
     (\<exists>record_id. stn_record_id (Some bs) provider = Inr record_id) \<and>
     stn_identity_verify ed (Some (rec_signer_public_key r)) (Some (record_statement bs r))
       (Some (rec_signature r)) 64 = STN_IDENTITY_VALID \<and>
     rec_signer_public_key r \<notin> set (olds (lc_rotation s)) \<and>
     (\<forall>g \<in> set (accepted (lc_grants s)). \<exists>i. stn_authority_grant_id (Some g) provider = Inr i) \<and>
     (\<exists>action context g. stn_record_publication_tokens (Some bs) provider = Inr (action, context) \<and>
        publishing_grant s provider (rec_signer_public_key r) action context g) \<and>
     (\<exists>k. stn_replay_id_from_signer_nonce (Some (rec_signer_public_key r)) (Some (rec_nonce r)) = Inr k \<and>
        k \<notin> set (accepted (lc_replay s)))"

lemma grant_id_facts:
  assumes "stn_authority_grant_id (Some g) provider = Inr i"
  shows "stn_authority_evidence_validate (Some (take 97 (drop 33 g))) = STN_AUTHORITY_AUTHORIZED"
    "length (take 97 (drop 33 g)) = 97"
  using assms by (auto simp: stn_authority_grant_id_def simp del: stn_authority_evidence_validate.simps
      split: if_splits sum.splits)

lemma publication_grants_ok:
  assumes "authority_wf (lc_authority s)"
  shows "publication_grants (lc_authority s) signer action context provider False (accepted (lc_grants s)) = Inr True \<longleftrightarrow>
     (\<forall>g \<in> set (accepted (lc_grants s)). \<exists>i. stn_authority_grant_id (Some g) provider = Inr i) \<and>
     (\<exists>g. publishing_grant s provider signer action context g)"
proof -
  let ?ev = "\<lambda>g n. stn_authority_evaluate (Some signer) (Some action) (Some context) (Some (take 97 (drop 33 g))) n =
      STN_AUTHORITY_AUTHORIZED"
  have e: "stn_authority_grant_id (Some g) provider = Inr i \<and> i \<notin> set (revoked (lc_authority s)) \<and>
        ?ev g (length (take 97 (drop 33 g))) \<longleftrightarrow>
      stn_authority_grant_id (Some g) provider = Inr i \<and> i \<notin> set (revoked (lc_authority s)) \<and> ?ev g 97" for g i
    using grant_id_facts(2) [of g provider i] by auto
  show ?thesis
    unfolding publication_grants_iff is_revoked_iff [OF assms] publishing_grant_def e
    using grant_id_facts(1) [of _ provider] by blast
qed

lemma publication_check_iff:
  assumes "buffer_wf (lc_replay s)" "authority_wf (lc_authority s)"
  shows "stn_lifecycle_check_publication ed True (Some s) (Some bs) provider = STN_LIFECYCLE_OK \<longleftrightarrow>
     (\<exists>r. stn_record_decode (Some bs) = Inr r \<and> publication_ok ed s provider bs r)"
proof (cases "stn_record_decode (Some bs)")
  case (Inl e)
  then show ?thesis by (simp add: stn_lifecycle_check_publication_def)
next
  case (Inr r)
  note st = record_statement_iff [OF Inr]
  have olds: "list_ex (\<lambda>old. memcmp k old = 0) (take (rotation_count (lc_rotation s)) (old_identities (lc_rotation s))) \<longleftrightarrow>
      k \<in> set (olds (lc_rotation s))" for k
    by (auto simp: olds_def list_ex_iff)
  have check: "stn_replay_state_check (lc_replay s) (Some k) = STN_REPLAY_FRESH \<longleftrightarrow> k \<notin> set (accepted (lc_replay s))" for k
    using record_replay.check_spec [OF assms(1), of k k] by auto
  show ?thesis
  proof (cases "\<exists>payload action context record_id.
      stn_sentinel_intelligence_decode (rec_payload r) = Inr payload \<and>
      stn_record_publication_tokens (Some bs) provider = Inr (action, context) \<and>
      stn_record_id (Some bs) provider = Inr record_id")
    case False
    then show ?thesis
      unfolding stn_lifecycle_check_publication_def option.case prod.case Inr sum.case publication_ok_def
      by (auto simp del: stn_record_decode.simps stn_record_id.simps stn_record_publication_tokens.simps
          split: sum.splits)
  next
    case True
    then obtain payload action cx record_id where f:
        "stn_sentinel_intelligence_decode (rec_payload r) = Inr payload"
        "stn_record_publication_tokens (Some bs) provider = Inr (action, cx)"
        "stn_record_id (Some bs) provider = Inr record_id" by blast
    let ?g = "publication_grants (lc_authority s) (rec_signer_public_key r) action cx provider False (accepted (lc_grants s))"
    let ?k = "stn_replay_id_from_signer_nonce (Some (rec_signer_public_key r)) (Some (rec_nonce r))"
    have "stn_lifecycle_check_publication ed True (Some s) (Some bs) provider = STN_LIFECYCLE_OK \<longleftrightarrow>
        stn_identity_verify ed (Some (rec_signer_public_key r)) (Some (record_statement bs r))
          (Some (rec_signature r)) 64 = STN_IDENTITY_VALID \<and> rec_signer_public_key r \<notin> set (olds (lc_rotation s)) \<and>
        ?g = Inr True \<and> (\<exists>k. ?k = Inr k \<and> k \<notin> set (accepted (lc_replay s)))"
      unfolding stn_lifecycle_check_publication_def option.case prod.case Inr sum.case f Let_def st olds check
      using publication_grants_refused [of "lc_authority s" "rec_signer_public_key r" action cx provider False]
      by (cases ?g; cases ?k) auto
    then show ?thesis
      unfolding publication_grants_ok [OF assms(2)] Inr publication_ok_def using f by auto
  qed
qed

section \<open>Properties\<close>

text \<open>
  A publication is admitted exactly when it may be accepted: its bytes are a canonical record with a
  canonical intelligence payload, the signature verifies over the domain-separated unsigned bytes, the
  signer has not been rotated away, every grant in force has an identifier and one that is not
  revoked names the signer and the two tokens of the record, and the signer's nonce is fresh.
\<close>

theorem publication_check_exact:
  assumes "lifecycle_inv ed roots n provider s"
  shows "stn_lifecycle_check_publication ed True (Some s) (Some bs) provider = STN_LIFECYCLE_OK \<longleftrightarrow>
     (\<exists>r. stn_record_decode (Some bs) = Inr r \<and> publication_ok ed s provider bs r)"
  using assms by (intro publication_check_iff) (simp_all add: lifecycle_inv_def)

text \<open>
  An admitted publication is accepted, once. When the check answers OK and the registry has room,
  applying the publication transaction answers OK; and in every later state that extends the one it
  leads to, the check refuses the same bytes.
\<close>

theorem publication_accepted_once:
  assumes "lifecycle_inv ed roots n provider s" "consumed_count (lc_replay s) < consumed_capacity (lc_replay s)"
    "stn_lifecycle_check_publication ed True (Some s) (Some bs) provider = STN_LIFECYCLE_OK"
    "txn_type tx = STN_TX_PUBLICATION" "txn_record_bytes tx = Some bs" "unat (txn_record_length tx) = length bs"
  shows "\<exists>t. stn_lifecycle_apply_transaction ed s (Some tx) roots n (Some provider) = (STN_LIFECYCLE_OK, t) \<and>
    lifecycle_inv ed roots n provider t \<and>
    (\<forall>u. lifecycle_extends t u \<and> lifecycle_inv ed roots n provider u \<longrightarrow>
      stn_lifecycle_check_publication ed True (Some u) (Some bs) provider \<noteq> STN_LIFECYCLE_OK)"
proof -
  have wf: "buffer_wf (lc_replay s)" "authority_wf (lc_authority s)" using assms(1) by (simp_all add: lifecycle_inv_def)
  from assms(3) obtain r k where r: "stn_record_decode (Some bs) = Inr r"
      and k: "stn_replay_id_from_signer_nonce (Some (rec_signer_public_key r)) (Some (rec_nonce r)) = Inr k"
        "k \<notin> set (accepted (lc_replay s))"
    unfolding publication_check_iff [OF wf] publication_ok_def by blast
  let ?t = "s\<lparr>lc_replay := store_key (lc_replay s) k\<rparr>"
  have "apply_publication s bs = (STN_LIFECYCLE_OK, ?t)"
    using k assms(2) by (simp add: apply_publication_def r consume_publication_def consume_id_cases [OF wf(1)]
        del: stn_record_decode.simps)
  then have "stn_lifecycle_apply_transaction ed s (Some tx) roots n (Some provider) = (STN_LIFECYCLE_OK, ?t)"
    using assms(4-6) by (simp add: stn_lifecycle_apply_transaction_def)
  moreover note inv = lifecycle_inv_store [OF assms(1) k(2) assms(2)]
  moreover have "stn_lifecycle_check_publication ed True (Some u) (Some bs) provider \<noteq> STN_LIFECYCLE_OK"
    if u: "lifecycle_extends ?t u" "lifecycle_inv ed roots n provider u" for u
  proof -
    have "k \<in> set (accepted (lc_replay u))"
      using u(1) inv(2) by (auto simp: lifecycle_extends_def prefix_def)
    moreover have "buffer_wf (lc_replay u)" "authority_wf (lc_authority u)"
      using u(2) by (simp_all add: lifecycle_inv_def)
    ultimately show ?thesis
      using r k(1) by (auto simp: publication_check_iff publication_ok_def simp del: stn_record_decode.simps)
  qed
  ultimately show ?thesis by blast
qed

section \<open>A publication under a grant\<close>

definition sample_publisher_evidence :: bytes where
  "sample_publisher_evidence = [1] @ (2 # replicate 31 0) @ (1 # replicate 31 9) @ (1 # replicate 31 9)"

definition sample_publisher_grant :: bytes where
  "sample_publisher_grant = [1] @ (2 # replicate 31 0) @ sample_publisher_evidence @ replicate 64 0"

definition sample_publisher :: stn_lifecycle_state where
  "sample_publisher = sample_lifecycle
     \<lparr>lc_grants := \<lparr>consumed = Some [sample_publisher_grant], consumed_count = 1, consumed_capacity = 1\<rparr>\<rparr>"

definition sample_intelligence :: stn_sentinel_intelligence where
  "sample_intelligence = \<lparr>si_version = 1, si_observed_at = 5, si_severity = 3,
     si_classification = Some [0x61], si_classification_length = 1, si_source = Some [0x61], si_source_length = 1,
     si_subject = Some [0x61], si_subject_length = 1, si_evidence_digest = replicate 32 7\<rparr>"

definition sample_publication_record :: stn_record where
  "sample_publication_record = \<lparr>rec_version = 1, rec_type = 1, rec_network_id = replicate 32 1,
     rec_signer_public_key = 2 # replicate 31 0, rec_nonce = 7 # replicate 31 0, rec_issued_at = 5,
     rec_payload = Some (sentinel_layout sample_intelligence), rec_payload_length = 52,
     rec_signature = 2 # replicate 31 0 @ replicate 32 0\<rparr>"

definition sample_publication_bytes :: bytes where
  "sample_publication_bytes = record_layout sample_publication_record"

lemma sample_intelligence_decode:
  "stn_sentinel_intelligence_decode (Some (sentinel_layout sample_intelligence)) = Inr sample_intelligence"
  "length (sentinel_layout sample_intelligence) = 52"
proof -
  have "sentinel_schema sample_intelligence"
    by (simp add: sentinel_schema_def sample_intelligence_def host_label_def alnum_lower_def nonzero_iff)
  then have "wf_sentinel sample_intelligence \<and> sentinel_validate sample_intelligence = STN_SENTINEL_INTELLIGENCE_OK"
    by (simp add: sentinel_schema_iff)
  then show "stn_sentinel_intelligence_decode (Some (sentinel_layout sample_intelligence)) = Inr sample_intelligence"
      "length (sentinel_layout sample_intelligence) = 52"
    by (simp_all add: sentinel_decode_iff length_sentinel_layout) (simp add: sample_intelligence_def)
qed

lemma sample_publication_decode:
  "stn_record_decode (Some sample_publication_bytes) = Inr sample_publication_record"
proof (rule record_decode_encode)
  show "wf_record sample_publication_record"
    by (simp add: wf_record_def sample_publication_record_def sample_intelligence_decode)
  show "stn_record_encode (Some sample_publication_record) 65716 = Inr sample_publication_bytes"
    by (simp only: record_encode_iff sample_publication_bytes_def)
       (simp add: sample_publication_record_def nonce_present_def)
qed

lemma sample_publisher_grant_parts:
  "length sample_publisher_grant = 194" "sample_publisher_grant ! 0 = 1"
  "take 32 (drop 1 sample_publisher_grant) = 2 # replicate 31 0"
  "take 97 (drop 33 sample_publisher_grant) = sample_publisher_evidence"
  "stn_identity_derive (Some (drop 1 sample_publisher_grant)) = Inr (2 # replicate 31 0)"
  "length sample_publisher_evidence = 97"
  "stn_authority_evidence_validate (Some sample_publisher_evidence) = STN_AUTHORITY_AUTHORIZED"
  by (simp_all add: sample_publisher_grant_def sample_publisher_evidence_def stn_authority_action_validate_def
      stn_authority_context_validate_def nonzero_iff del: stn_identity_derive.simps)

lemma sample_publisher_facts:
  "lifecycle_inv sample_ed (Some [2 # replicate 31 0]) 1 (Some sample_sha) sample_publisher"
  "publishing_grant sample_publisher (Some sample_sha) (2 # replicate 31 0) (1 # replicate 31 9) (1 # replicate 31 9)
     sample_publisher_grant"
  "\<forall>g \<in> set (accepted (lc_grants sample_publisher)). \<exists>i. stn_authority_grant_id (Some g) (Some sample_sha) = Inr i"
proof -
  have acc: "accepted (lc_grants sample_publisher) = [sample_publisher_grant]"
    by (simp add: accepted_def sample_publisher_def)
  have "\<exists>e. stn_authority_grant_validate sample_ed (Some sample_publisher_grant) (Some [2 # replicate 31 0]) 1 = Inr e"
    by (subst grant_validate_iff)
       (simp_all add: sample_publisher_grant_parts sample_ed_def
         del: stn_identity_derive.simps stn_authority_evidence_validate.simps drop_Suc_Cons One_nat_def)
  then show "lifecycle_inv sample_ed (Some [2 # replicate 31 0]) 1 (Some sample_sha) sample_publisher"
    using sample_lifecycle_inv [of sample_ed "Some [2 # replicate 31 0]" 1 "Some sample_sha"]
    by (simp add: lifecycle_inv_def acc) (simp add: sample_publisher_def buffer_wf_def buffer_valid_def)
  have i: "stn_authority_grant_id (Some sample_publisher_grant) (Some sample_sha) = Inr (replicate 32 9)"
    by (simp add: stn_authority_grant_id_def sample_publisher_grant_parts sample_sha_def
        del: stn_identity_derive.simps stn_authority_evidence_validate.simps drop_Suc_Cons One_nat_def)
  then show "\<forall>g \<in> set (accepted (lc_grants sample_publisher)). \<exists>i. stn_authority_grant_id (Some g) (Some sample_sha) = Inr i"
    by (simp add: acc)
  have "revoked (lc_authority sample_publisher) = []"
    by (simp add: sample_publisher_def sample_lifecycle_def stn_lifecycle_initialize_def
        stn_authority_state_initialize_def revoked_def)
  moreover have "stn_authority_evaluate (Some (2 # replicate 31 0)) (Some (1 # replicate 31 9))
      (Some (1 # replicate 31 9)) (Some sample_publisher_evidence) 97 = STN_AUTHORITY_AUTHORIZED"
    by (simp add: stn_authority_evaluate_def sample_publisher_evidence_def stn_authority_action_validate_def
      stn_authority_context_validate_def nonzero_iff del: stn_identity_derive.simps)
  ultimately show "publishing_grant sample_publisher (Some sample_sha) (2 # replicate 31 0) (1 # replicate 31 9)
      (1 # replicate 31 9) sample_publisher_grant"
    by (simp add: publishing_grant_def acc i sample_publisher_grant_parts)
qed

lemma sample_publication_ok:
  "publication_ok sample_ed sample_publisher (Some sample_sha) sample_publication_bytes sample_publication_record"
proof -
  have tokens: "stn_record_publication_tokens (Some sample_publication_bytes) (Some sample_sha) =
      Inr (1 # replicate 31 9, 1 # replicate 31 9)"
    and rid: "\<exists>i. stn_record_id (Some sample_publication_bytes) (Some sample_sha) = Inr i"
    by (simp_all add: sample_publication_decode sample_sha_def del: stn_record_decode.simps)
  have fields: "rec_payload sample_publication_record = Some (sentinel_layout sample_intelligence)"
      "rec_signer_public_key sample_publication_record = 2 # replicate 31 0"
      "rec_nonce sample_publication_record = 7 # replicate 31 0"
      "rec_signature sample_publication_record = 2 # replicate 31 0 @ replicate 32 0"
    by (simp_all add: sample_publication_record_def)
  have "stn_identity_verify sample_ed (Some (2 # replicate 31 0)) (Some m)
      (Some (2 # replicate 31 0 @ replicate 32 0)) 64 = STN_IDENTITY_VALID" for m
    using sample_key_canonical by (simp add: stn_identity_verify_def sample_ed_def nonzero_iff)
  moreover have "olds (lc_rotation sample_publisher) = []" "accepted (lc_replay sample_publisher) = []"
    by (simp_all add: sample_publisher_def sample_lifecycle_genesis) (simp add: sample_lifecycle_def
      stn_lifecycle_initialize_def stn_identity_rotation_initialize_def olds_def Let_def)
  moreover have "\<exists>k. stn_replay_id_from_signer_nonce (Some (2 # replicate 31 0)) (Some (7 # replicate 31 0)) = Inr k"
    by (simp add: stn_replay_id_from_signer_nonce_def nonzero_iff del: stn_identity_derive.simps)
  ultimately show ?thesis
    unfolding publication_ok_def fields
    using sample_intelligence_decode(1) tokens rid sample_publisher_facts(2,3) by auto
qed

theorem publication_check_exact_witness:
  "stn_lifecycle_check_publication sample_ed True (Some sample_publisher) (Some sample_publication_bytes)
     (Some sample_sha) = STN_LIFECYCLE_OK"
  unfolding publication_check_exact [OF sample_publisher_facts(1)]
  using sample_publication_decode sample_publication_ok by blast

theorem publication_accepted_once_witness:
  "\<exists>t. stn_lifecycle_apply_transaction sample_ed sample_publisher (Some \<lparr>txn_version = 1, txn_type = 1,
      txn_record_bytes = Some sample_publication_bytes, txn_record_length = 232\<rparr>)
      (Some [2 # replicate 31 0]) 1 (Some (Some sample_sha)) = (STN_LIFECYCLE_OK, t)"
proof -
  have "stn_lifecycle_check_publication sample_ed True (Some sample_publisher) (Some sample_publication_bytes)
      (Some sample_sha) = STN_LIFECYCLE_OK"
    using publication_check_iff [of sample_publisher] sample_publisher_facts(1) sample_publication_decode
      sample_publication_ok unfolding lifecycle_inv_def by blast
  moreover have "length sample_publication_bytes = 232"
    using record_decode_facts(1) [OF sample_publication_decode] by (simp add: sample_publication_record_def)
  moreover have "consumed_count (lc_replay sample_publisher) < consumed_capacity (lc_replay sample_publisher)"
    by (simp add: sample_publisher_def sample_lifecycle_genesis)
  ultimately show ?thesis
    using publication_accepted_once [OF sample_publisher_facts(1), where bs = sample_publication_bytes and
      tx = "\<lparr>txn_version = 1, txn_type = 1, txn_record_bytes = Some sample_publication_bytes, txn_record_length = 232\<rparr>"]
    by auto
qed

end
