(* ===== verification/Stn_Contract_Store.thy ===== *)
theory Stn_Contract_Store
  imports Stn_Contract_Tx
begin

text \<open>
  The contracts of a chain state: lineage between a draft and a later representation
  (\<^verbatim>\<open>src/src/stn_contract_lineage.c\<close>), the store of contracts with their votes
  (\<^verbatim>\<open>src/src/stn_contract_state.c\<close>) and the snapshot that owns it
  (\<^verbatim>\<open>src/src/stn_contract_snapshot.c\<close>). The votes of all contracts share one array, each contract
  having a window of it. An entry holds its draft by value where the code points into the
  snapshot's draft buffer, and reference counts are left out.
\<close>

section \<open>Lineage\<close>

definition lineage_views ::
  "bytes option \<Rightarrow> bytes option \<Rightarrow> stn_contract_status + (stn_contract \<times> stn_contract)" where
  "lineage_views draft_bytes current_bytes =
     (if draft_bytes = None \<or> current_bytes = None then Inl STN_CONTRACT_ARGUMENT
      else
        (case stn_contract_decode draft_bytes of
           Inl status \<Rightarrow> Inl status
         | Inr draft \<Rightarrow>
             if ct_state draft \<noteq> STN_CONTRACT_STATE_DRAFT \<or> ct_sequence draft \<noteq> 0
             then Inl STN_CONTRACT_STATE_ERROR
             else
               (case stn_contract_decode current_bytes of
                  Inl status \<Rightarrow> Inl status
                | Inr current \<Rightarrow>
                    if ct_version draft \<noteq> ct_version current \<or> ct_type draft \<noteq> ct_type current \<or>
                      ct_created_at draft \<noteq> ct_created_at current \<or>
                      ct_participant_count draft \<noteq> ct_participant_count current \<or>
                      ct_terms_length draft \<noteq> ct_terms_length current
                    then Inl STN_CONTRACT_ADDRESS_ERROR
                    else if ct_participant_count draft \<noteq> 0 \<and>
                      memcmp (the (ct_participant_bytes draft)) (the (ct_participant_bytes current)) \<noteq> 0
                    then Inl STN_CONTRACT_ADDRESS_ERROR
                    else if ct_terms_length draft \<noteq> 0 \<and>
                      memcmp (the (ct_terms draft)) (the (ct_terms current)) \<noteq> 0
                    then Inl STN_CONTRACT_ADDRESS_ERROR
                    else Inr (draft, current))))"

definition stn_contract_lineage_validate :: "bytes option \<Rightarrow> bytes option \<Rightarrow> stn_contract_status" where
  "stn_contract_lineage_validate canonical_draft canonical_current =
     (case lineage_views canonical_draft canonical_current of Inl status \<Rightarrow> status | Inr _ \<Rightarrow> STN_CONTRACT_OK)"

definition stn_contract_lineage_id ::
  "stn_hash_fn \<Rightarrow> bytes option \<Rightarrow> bytes option \<Rightarrow> stn_contract_status + bytes" where
  "stn_contract_lineage_id sha canonical_draft canonical_current =
     (case lineage_views canonical_draft canonical_current of
        Inl status \<Rightarrow> Inl status
      | Inr _ \<Rightarrow>
          (case stn_contract_address sha canonical_draft of
             Inl status \<Rightarrow> Inl status
           | Inr address \<Rightarrow> Inr (addr_id address)))"

section \<open>The store\<close>

definition STN_CONTRACT_STATE_MAX_CONTRACTS :: nat where "STN_CONTRACT_STATE_MAX_CONTRACTS = 128"
definition STN_CONTRACT_STATE_MAX_VOTES :: nat where
  "STN_CONTRACT_STATE_MAX_VOTES = STN_CONTRACT_STATE_MAX_CONTRACTS * STN_CONTRACT_MAX_PARTICIPANTS"

record stn_contract_state_entry =
  ent_contract_id :: bytes
  ent_canonical_draft :: "bytes option"
  ent_current :: stn_contract
  ent_vote_offset :: nat
  ent_vote_count :: nat
  ent_eligible_count :: nat
  ent_required_count :: nat

record stn_contract_state_store =
  st_entries :: "stn_contract_state_entry list option"
  st_entry_count :: nat
  st_entry_capacity :: nat
  st_votes :: "bytes list option"
  st_vote_count :: nat
  st_vote_capacity :: nat

definition stn_contract_state_initialize ::
  "stn_contract_state_entry list option \<Rightarrow> nat \<Rightarrow> bytes list option \<Rightarrow> nat \<Rightarrow> stn_contract_state_store" where
  "stn_contract_state_initialize entries entry_capacity votes vote_capacity =
     \<lparr>st_entries = entries, st_entry_count = 0, st_entry_capacity = entry_capacity,
      st_votes = votes, st_vote_count = 0, st_vote_capacity = vote_capacity\<rparr>"

definition live_entries :: "stn_contract_state_store \<Rightarrow> stn_contract_state_entry list" where
  "live_entries s = take (st_entry_count s) (case st_entries s of None \<Rightarrow> [] | Some es \<Rightarrow> es)"

definition stn_contract_state_find ::
  "stn_contract_state_store \<Rightarrow> bytes option \<Rightarrow> stn_contract_status + nat" where
  "stn_contract_state_find s contract_id =
     (case contract_id of
        None \<Rightarrow> Inl STN_CONTRACT_ARGUMENT
      | Some k \<Rightarrow>
          if st_entry_count s > st_entry_capacity s \<or> (st_entry_capacity s \<noteq> 0 \<and> st_entries s = None)
          then Inl STN_CONTRACT_ARGUMENT
          else
            (let i = length (takeWhile (\<lambda>e. memcmp (ent_contract_id e) k \<noteq> 0) (live_entries s))
             in if i < length (live_entries s) then Inr i else Inl STN_CONTRACT_ADDRESS_ERROR))"

definition stn_contract_state_register ::
  "stn_hash_fn \<Rightarrow> stn_contract_state_store \<Rightarrow> bytes option \<Rightarrow>
   (stn_contract_status + nat) \<times> stn_contract_state_store" where
  "stn_contract_state_register sha s canonical_draft =
     (if canonical_draft = None then (Inl STN_CONTRACT_ARGUMENT, s)
      else if st_entry_count s > st_entry_capacity s \<or> st_vote_count s > st_vote_capacity s \<or>
        (st_entry_capacity s \<noteq> 0 \<and> st_entries s = None) \<or> (st_vote_capacity s \<noteq> 0 \<and> st_votes s = None)
      then (Inl STN_CONTRACT_ARGUMENT, s)
      else
        (case stn_contract_decode canonical_draft of
           Inl status \<Rightarrow> (Inl status, s)
         | Inr draft \<Rightarrow>
             if ct_state draft \<noteq> STN_CONTRACT_STATE_DRAFT \<or> ct_sequence draft \<noteq> 0
             then (Inl STN_CONTRACT_STATE_ERROR, s)
             else
               (case stn_contract_address sha canonical_draft of
                  Inl status \<Rightarrow> (Inl status, s)
                | Inr address \<Rightarrow>
                    if \<not> isl (stn_contract_state_find s (Some (addr_id address)))
                    then (Inl STN_CONTRACT_ADDRESS_ERROR, s)
                    else if st_entry_count s = st_entry_capacity s then (Inl STN_CONTRACT_CAPACITY, s)
                    else if unat (ct_participant_count draft) > st_vote_capacity s - st_vote_count s
                    then (Inl STN_CONTRACT_CAPACITY, s)
                    else
                      (case stn_contract_vote_state_initialize sha canonical_draft
                              (map_option (drop (st_vote_count s)) (st_votes s))
                              (unat (ct_participant_count draft)) of
                         Inl status \<Rightarrow> (Inl status, s)
                       | Inr votes \<Rightarrow>
                           (Inr (st_entry_count s),
                            s\<lparr>st_entries := map_option (\<lambda>es. es[st_entry_count s :=
                                \<lparr>ent_contract_id = addr_id address, ent_canonical_draft = canonical_draft,
                                 ent_current = draft, ent_vote_offset = st_vote_count s,
                                 ent_vote_count = 0, ent_eligible_count = eligible_count votes,
                                 ent_required_count = required_count votes\<rparr>]) (st_entries s),
                              st_entry_count := st_entry_count s + 1,
                              st_vote_count := st_vote_count s + unat (ct_participant_count draft)\<rparr>)))))"

text \<open>The vote state of an entry: its window of the shared array.\<close>

definition entry_votes :: "stn_contract_state_store \<Rightarrow> stn_contract_state_entry \<Rightarrow> stn_contract_vote_state" where
  "entry_votes s e =
     \<lparr>vote_contract_id = ent_contract_id e,
      vote_keys = \<lparr>consumed = map_option (\<lambda>vs. take (ent_eligible_count e) (drop (ent_vote_offset e) vs)) (st_votes s),
        consumed_count = ent_vote_count e, consumed_capacity = ent_eligible_count e\<rparr>,
      eligible_count = ent_eligible_count e, required_count = ent_required_count e\<rparr>"

text \<open>What the vote wrote through the pointer into the array.\<close>

definition write_votes ::
  "stn_contract_state_store \<Rightarrow> stn_contract_state_entry \<Rightarrow> stn_contract_vote_state \<Rightarrow> stn_contract_state_store" where
  "write_votes s e votes =
     s\<lparr>st_votes := map_option (\<lambda>vs. take (ent_vote_offset e) vs @
         (case consumed (vote_keys votes) of None \<Rightarrow> [] | Some w \<Rightarrow> w) @
         drop (ent_vote_offset e + ent_eligible_count e) vs) (st_votes s)\<rparr>"

definition update_entry ::
  "stn_contract_state_store \<Rightarrow> nat \<Rightarrow> (stn_contract_state_entry \<Rightarrow> stn_contract_state_entry) \<Rightarrow>
   stn_contract_state_store" where
  "update_entry s i f = s\<lparr>st_entries := map_option (\<lambda>es. es[i := f (es ! i)]) (st_entries s)\<rparr>"

text \<open>The new contract keeps the entry's own participant and terms spans.\<close>

definition with_spans :: "stn_contract \<Rightarrow> stn_contract \<Rightarrow> stn_contract" where
  "with_spans own next = next\<lparr>ct_participants := ct_participants own,
     ct_participant_bytes := ct_participant_bytes own, ct_terms := ct_terms own\<rparr>"

definition stn_contract_state_apply_vote ::
  "stn_hash_fn \<Rightarrow> stn_contract_state_store \<Rightarrow> nat \<Rightarrow> bytes option \<Rightarrow> u64 \<Rightarrow> bytes option \<Rightarrow>
   stn_contract_status \<times> stn_contract_state_store" where
  "stn_contract_state_apply_vote sha s index canonical_current expected_sequence actor =
     (if canonical_current = None \<or> actor = None \<or> index \<ge> st_entry_count s
      then (STN_CONTRACT_ARGUMENT, s)
      else
        (let entry = live_entries s ! index;
             status = stn_contract_lineage_validate (ent_canonical_draft entry) canonical_current
         in if status \<noteq> STN_CONTRACT_OK then (status, s)
            else
              (case stn_contract_decode canonical_current of
                 Inl status \<Rightarrow> (status, s)
               | Inr current \<Rightarrow>
                   if ct_sequence current \<noteq> ct_sequence (ent_current entry) \<or>
                     ct_state current \<noteq> ct_state (ent_current entry)
                   then (STN_CONTRACT_STATE_ERROR, s)
                   else
                     (case stn_contract_vote_apply sha (Some current) expected_sequence
                             (ent_canonical_draft entry) actor (entry_votes s entry) of
                        (Inl status, votes) \<Rightarrow> (status, write_votes s entry votes)
                      | (Inr next, votes) \<Rightarrow>
                          (STN_CONTRACT_OK,
                           update_entry (write_votes s entry votes) index
                             (\<lambda>e. e\<lparr>ent_current := with_spans (ent_current e) next,
                               ent_vote_count := consumed_count (vote_keys votes)\<rparr>))))))"

section \<open>The snapshot\<close>

record stn_contract_snapshot =
  snap_state :: stn_contract_state_store
  snap_draft_bytes :: bytes

fun bind_entries :: "stn_contract_state_entry list \<Rightarrow> stn_contract_state_entry list option" where
  "bind_entries [] = Some []"
| "bind_entries (e # es) =
     (case ent_canonical_draft e of
        None \<Rightarrow> None
      | Some d \<Rightarrow>
          (case stn_contract_decode (Some d) of
             Inl _ \<Rightarrow> None
           | Inr decoded \<Rightarrow>
               (case bind_entries es of
                  None \<Rightarrow> None
                | Some es' \<Rightarrow>
                    Some (e\<lparr>ent_current := decoded\<lparr>ct_sequence := ct_sequence (ent_current e),
                      ct_state := ct_state (ent_current e)\<rparr>\<rparr> # es'))))"

definition bind_snapshot :: "stn_contract_state_store \<Rightarrow> stn_contract_state_store option" where
  "bind_snapshot s =
     (case bind_entries (live_entries s) of
        None \<Rightarrow> None
      | Some es \<Rightarrow> Some (s\<lparr>st_entries := map_option (\<lambda>all. es @ drop (st_entry_count s) all) (st_entries s),
          st_entry_capacity := STN_CONTRACT_STATE_MAX_CONTRACTS,
          st_vote_capacity := STN_CONTRACT_STATE_MAX_VOTES\<rparr>))"

definition zero_contract :: stn_contract where
  "zero_contract = \<lparr>ct_version = 0, ct_type = 0, ct_sequence = 0, ct_created_at = 0, ct_state = 0,
     ct_participants = None, ct_participant_count = 0, ct_participant_bytes = None, ct_terms = None,
     ct_terms_length = 0\<rparr>"

definition zero_entry :: stn_contract_state_entry where
  "zero_entry = \<lparr>ent_contract_id = replicate 32 0, ent_canonical_draft = None, ent_current = zero_contract,
     ent_vote_offset = 0, ent_vote_count = 0, ent_eligible_count = 0, ent_required_count = 0\<rparr>"

definition stn_contract_snapshot_create :: "bool \<Rightarrow> stn_contract_snapshot option" where
  "stn_contract_snapshot_create alloc =
     (if \<not> alloc then None
      else Some \<lparr>snap_state = stn_contract_state_initialize
          (Some (replicate STN_CONTRACT_STATE_MAX_CONTRACTS zero_entry)) STN_CONTRACT_STATE_MAX_CONTRACTS
          (Some (replicate STN_CONTRACT_STATE_MAX_VOTES (replicate 64 0))) STN_CONTRACT_STATE_MAX_VOTES,
        snap_draft_bytes = []\<rparr>)"

definition stn_contract_snapshot_clone ::
  "bool \<Rightarrow> stn_contract_snapshot option \<Rightarrow> stn_contract_snapshot option" where
  "stn_contract_snapshot_clone alloc source =
     (case source of
        None \<Rightarrow> None
      | Some snapshot \<Rightarrow>
          if \<not> alloc then None
          else
            (case bind_snapshot (snap_state snapshot) of
               None \<Rightarrow> None
             | Some state \<Rightarrow> Some (snapshot\<lparr>snap_state := state\<rparr>)))"

text \<open>
  A failed registration binds the entries back to the old buffer; the \<^verbatim>\<open>abort\<close> when that fails is
  unreachable after the first bind succeeded.
\<close>

definition stn_contract_snapshot_register ::
  "stn_hash_fn \<Rightarrow> bool \<Rightarrow> stn_contract_snapshot \<Rightarrow> bytes option \<Rightarrow>
   (stn_contract_status + nat) \<times> stn_contract_snapshot" where
  "stn_contract_snapshot_register sha alloc snapshot canonical_draft =
     (case canonical_draft of
        None \<Rightarrow> (Inl STN_CONTRACT_ARGUMENT, snapshot)
      | Some d \<Rightarrow>
          if length d > STN_CONTRACT_MAX_SIZE \<or> length (snap_draft_bytes snapshot) > SIZE_MAX - length d
          then (Inl STN_CONTRACT_CAPACITY, snapshot)
          else if \<not> alloc then (Inl STN_CONTRACT_CAPACITY, snapshot)
          else
            (case (if snap_draft_bytes snapshot = [] then Some (snap_state snapshot)
                   else bind_snapshot (snap_state snapshot)) of
               None \<Rightarrow> (Inl STN_CONTRACT_ARGUMENT, snapshot)
             | Some bound \<Rightarrow>
                 (case stn_contract_state_register sha bound (Some d) of
                    (Inl status, _) \<Rightarrow>
                      (Inl status, snapshot\<lparr>snap_state :=
                        (if snap_draft_bytes snapshot = [] then bound else the (bind_snapshot bound))\<rparr>)
                  | (Inr index, state) \<Rightarrow>
                      (Inr index, \<lparr>snap_state = state, snap_draft_bytes = snap_draft_bytes snapshot @ d\<rparr>))))"

section \<open>The draft of a contract is unique\<close>

definition as_draft :: "stn_contract \<Rightarrow> stn_contract" where
  "as_draft c = c\<lparr>ct_sequence := 0, ct_state := STN_CONTRACT_STATE_DRAFT\<rparr>"

lemma as_draft_eqI:
  assumes "wf_view d" "wf_view c" "ct_state d = STN_CONTRACT_STATE_DRAFT" "ct_sequence d = 0"
    "ct_version d = ct_version c" "ct_type d = ct_type c" "ct_created_at d = ct_created_at c"
    "ct_participant_count d = ct_participant_count c" "ct_terms_length d = ct_terms_length c"
    "ct_participant_count d \<noteq> 0 \<Longrightarrow> the (ct_participant_bytes d) = the (ct_participant_bytes c)"
    "ct_terms_length d \<noteq> 0 \<Longrightarrow> the (ct_terms d) = the (ct_terms c)"
  shows "d = as_draft c"
  using assms
  by (cases d; cases c; cases "ct_participant_bytes d"; cases "ct_participant_bytes c"; cases "ct_terms d"; cases "ct_terms c")
     (auto simp: wf_view_def as_draft_def)

lemma lineage_views_iff:
  "lineage_views (Some d) (Some c) = Inr (draft, current) \<longleftrightarrow>
     stn_contract_decode (Some d) = Inr draft \<and> stn_contract_decode (Some c) = Inr current \<and> draft = as_draft current"
proof
  assume "lineage_views (Some d) (Some c) = Inr (draft, current)"
  then have f: "stn_contract_decode (Some d) = Inr draft" "stn_contract_decode (Some c) = Inr current"
      "ct_state draft = STN_CONTRACT_STATE_DRAFT" "ct_sequence draft = 0"
      "ct_version draft = ct_version current" "ct_type draft = ct_type current"
      "ct_created_at draft = ct_created_at current" "ct_participant_count draft = ct_participant_count current"
      "ct_terms_length draft = ct_terms_length current"
      "ct_participant_count draft \<noteq> 0 \<Longrightarrow> the (ct_participant_bytes draft) = the (ct_participant_bytes current)"
      "ct_terms_length draft \<noteq> 0 \<Longrightarrow> the (ct_terms draft) = the (ct_terms current)"
    by (auto simp: lineage_views_def split: sum.splits if_splits)
  have "draft = as_draft current"
    using f(3-) by (intro as_draft_eqI contract_decode_facts(1) [OF f(1)] contract_decode_facts(1) [OF f(2)])
  with f show "stn_contract_decode (Some d) = Inr draft \<and> stn_contract_decode (Some c) = Inr current \<and>
      draft = as_draft current" by simp
next
  assume "stn_contract_decode (Some d) = Inr draft \<and> stn_contract_decode (Some c) = Inr current \<and>
    draft = as_draft current"
  then show "lineage_views (Some d) (Some c) = Inr (draft, current)"
    by (auto simp: lineage_views_def as_draft_def)
qed

lemma lineage_validate_iff:
  "stn_contract_lineage_validate (Some d) (Some c) = STN_CONTRACT_OK \<longleftrightarrow>
     (\<exists>current. stn_contract_decode (Some c) = Inr current \<and> stn_contract_decode (Some d) = Inr (as_draft current))"
proof -
  have refused: "lineage_views (Some d) (Some c) \<noteq> Inl STN_CONTRACT_OK"
    using contract_decode_status by (auto simp: lineage_views_def split: sum.splits)
  show ?thesis
  proof (cases "lineage_views (Some d) (Some c)")
    case (Inl e)
    with refused lineage_views_iff [of d c] show ?thesis by (auto simp: stn_contract_lineage_validate_def)
  next
    case (Inr v)
    with lineage_views_iff [of d c "fst v" "snd v"] show ?thesis
      by (auto simp: stn_contract_lineage_validate_def)
  qed
qed

text \<open>
  C0. A contract has one draft. Bytes \<open>d\<close> pass the lineage check for a later representation \<open>c\<close> exactly
  when \<open>d\<close> is the encoding of what \<open>c\<close> decodes to with the sequence set back to 0 and the state to
  DRAFT; so no two registered drafts can both claim the same action.
\<close>

theorem contract_lineage_unique:
  "stn_contract_lineage_validate (Some d) (Some c) = STN_CONTRACT_OK \<longleftrightarrow>
     (\<exists>current. stn_contract_decode (Some c) = Inr current \<and>
       stn_contract_encode (Some (contract_native
         (current\<lparr>ct_sequence := 0, ct_state := STN_CONTRACT_STATE_DRAFT\<rparr>))) STN_CONTRACT_MAX_SIZE = Inr d)"
proof -
  have "wf_view (as_draft current) \<longleftrightarrow> wf_view current" for current
    by (simp add: wf_view_def as_draft_def packed_participants_def)
  then show ?thesis
    unfolding lineage_validate_iff as_draft_def [symmetric] contract_codec.dec_iff [of d]
    using contract_decode_facts(1) by blast
qed

end
