(* ===== verification/Stn_Contract_Ledger.thy ===== *)
theory Stn_Contract_Ledger
  imports Stn_Contract_Store
begin

text \<open>
  The contract store refines a finite map from contract identifiers to the draft, the current contract
  and the voters so far. The windows of the shared vote array do not overlap, so a vote on one
  contract leaves every other contract as it was.
\<close>

section \<open>The abstract contracts\<close>

definition entry_voters :: "stn_contract_state_store \<Rightarrow> stn_contract_state_entry \<Rightarrow> bytes list" where
  "entry_voters s e = map (drop (length (ent_contract_id e))) (accepted (vote_keys (entry_votes s e)))"

definition contract_map :: "stn_contract_state_store \<Rightarrow> bytes \<rightharpoonup> bytes \<times> stn_contract \<times> bytes list" where
  "contract_map s k = map_option (\<lambda>e. (the (ent_canonical_draft e), ent_current e, entry_voters s e))
     (find (\<lambda>e. ent_contract_id e = k) (live_entries s))"

definition entry_ok :: "stn_hash_fn \<Rightarrow> stn_contract_state_store \<Rightarrow> stn_contract_state_entry \<Rightarrow> bool" where
  "entry_ok sha s e \<longleftrightarrow> (\<exists>d a. ent_canonical_draft e = Some d \<and>
     draft_view (Some d) = Inr (as_draft (ent_current e)) \<and> stn_contract_address sha (Some d) = Inr a \<and>
     ent_contract_id e = addr_id a \<and> distinct (approvers (ent_current e)) \<and>
     ent_eligible_count e = length (approvers (ent_current e)) \<and>
     vote_inv (ent_current e) a (length (approvers (ent_current e))) (entry_votes s e) (entry_voters s e))"

definition store_arrays :: "stn_contract_state_store \<Rightarrow> bool" where
  "store_arrays s \<longleftrightarrow> (\<exists>es vs. st_entries s = Some es \<and> st_votes s = Some vs \<and>
     length es = st_entry_capacity s \<and> length vs = st_vote_capacity s) \<and>
     st_entry_count s \<le> st_entry_capacity s \<and> st_vote_count s \<le> st_vote_capacity s"

definition window_before :: "stn_contract_state_entry \<Rightarrow> stn_contract_state_entry \<Rightarrow> bool" where
  "window_before e f \<longleftrightarrow> ent_vote_offset e + ent_eligible_count e \<le> ent_vote_offset f"

definition store_inv :: "stn_hash_fn \<Rightarrow> stn_contract_state_store \<Rightarrow> bool" where
  "store_inv sha s \<longleftrightarrow> store_arrays s \<and> distinct (map ent_contract_id (live_entries s)) \<and>
     sorted_wrt window_before (live_entries s) \<and>
     (\<forall>e \<in> set (live_entries s). entry_ok sha s e \<and>
        ent_vote_offset e + ent_eligible_count e \<le> st_vote_count s)"

lemma approvers_as_draft [simp]: "approvers (as_draft c) = approvers c"
  by (simp add: approvers_def draft_participants_def packed_participants_def as_draft_def)

lemma as_draft_update [simp]: "as_draft (c\<lparr>ct_sequence := q, ct_state := st\<rparr>) = as_draft c"
  by (simp add: as_draft_def)

lemma approvers_update [simp]: "approvers (c\<lparr>ct_sequence := q, ct_state := st\<rparr>) = approvers c"
  by (metis approvers_as_draft as_draft_update)

lemma vote_inv_approvers: "approvers c = approvers d \<Longrightarrow> vote_inv c a n v vs = vote_inv d a n v vs"
  by (simp add: vote_inv_def)

lemma length_live_entries: "store_arrays s \<Longrightarrow> length (live_entries s) = st_entry_count s"
  by (auto simp: store_arrays_def live_entries_def)

lemma vote_inv_voters:
  "vote_inv c a n (entry_votes s e) vs \<Longrightarrow> ent_contract_id e = addr_id a \<Longrightarrow> entry_voters s e = vs"
  by (simp add: vote_inv_def entry_voters_def comp_def)

section \<open>Windows\<close>

lemma window_same:
  assumes "o1 + n1 \<le> length vs" "length w = n1"
  shows "take n1 (drop o1 (take o1 vs @ w @ drop (o1 + n1) vs)) = w"
  using assms by simp

lemma window_other:
  assumes "o1 + n1 \<le> length vs" "length w = n1" "o1 + n1 \<le> o2 \<or> o2 + n2 \<le> o1"
  shows "take n2 (drop o2 (take o1 vs @ w @ drop (o1 + n1) vs)) = take n2 (drop o2 vs)"
proof (cases "o1 + n1 \<le> o2")
  case True
  then have "drop o2 (take o1 vs @ w @ drop (o1 + n1) vs) = drop o2 vs"
    using assms(1,2) by simp
  then show ?thesis by simp
next
  case False
  with assms(3) have "o2 + n2 \<le> o1" by simp
  moreover from this assms(1) have "take n2 (drop o2 (take o1 vs)) = take n2 (drop o2 vs)"
    by (simp add: drop_take)
  ultimately show ?thesis using assms(1) by simp
qed

lemma write_votes_fields [simp]:
  "st_entries (write_votes s e v) = st_entries s" "st_entry_count (write_votes s e v) = st_entry_count s"
  "st_entry_capacity (write_votes s e v) = st_entry_capacity s"
  "st_vote_count (write_votes s e v) = st_vote_count s"
  "st_vote_capacity (write_votes s e v) = st_vote_capacity s"
  "live_entries (write_votes s e v) = live_entries s"
  by (simp_all add: write_votes_def live_entries_def)

lemma window_self: "take o1 xs @ take n (drop o1 xs) @ drop (o1 + n) xs = xs"
  by (metis append_take_drop_id drop_drop add.commute)

lemma write_votes_same: "write_votes s e (entry_votes s e) = s"
  by (cases s; cases "st_votes s") (simp_all add: write_votes_def entry_votes_def window_self)

section \<open>A vote moves one contract\<close>

lemma vote_apply_status: "fst (stn_contract_vote_apply sha c q d actor v) \<noteq> Inl STN_CONTRACT_OK"
proof -
  have "draft_view_address sha d \<noteq> Inl STN_CONTRACT_OK"
    using contract_decode_status contract_address_status
    by (auto simp: draft_view_address_def draft_view_def split: option.splits sum.splits)
  then have "fst (stn_contract_vote_accept sha v d actor) \<noteq> Inl STN_CONTRACT_OK"
    by (auto simp: stn_contract_vote_accept_def Let_def split: sum.splits)
  then show ?thesis
    by (auto simp: stn_contract_vote_apply_def split: option.splits sum.splits prod.splits)
qed

lemma find_update_key:
  "distinct (map k xs) \<Longrightarrow> i < length xs \<Longrightarrow> k y = k (xs ! i) \<Longrightarrow>
     find (\<lambda>x. k x = a) (xs[i := y]) = (if a = k (xs ! i) then Some y else find (\<lambda>x. k x = a) xs)"
proof (induction xs arbitrary: i)
  case (Cons x xs)
  show ?case
  proof (cases i)
    case (Suc j)
    with Cons.prems have "k x \<noteq> k (xs ! j)" using nth_mem [of j xs] by force
    with Suc Cons show ?thesis by auto
  qed (use Cons in auto)
qed simp

lemma find_key_nth: "distinct (map k xs) \<Longrightarrow> i < length xs \<Longrightarrow> find (\<lambda>x. k x = k (xs ! i)) xs = Some (xs ! i)"
  using find_update_key [of k xs i "xs ! i" "k (xs ! i)"] by simp

lemma live_update_entry:
  assumes "store_arrays s" "i < st_entry_count s"
  shows "live_entries (update_entry s i f) = (live_entries s)[i := f (live_entries s ! i)]"
  using assms by (auto simp: store_arrays_def live_entries_def update_entry_def take_update_swap)

lemma update_entry_cong:
  assumes "store_arrays s" "i < st_entry_count s" "f (live_entries s ! i) = g (live_entries s ! i)"
  shows "update_entry s i f = update_entry s i g"
  using assms by (auto simp: update_entry_def live_entries_def store_arrays_def)

lemma store_arrays_update:
  assumes "store_arrays s" "ent_vote_offset e + ent_eligible_count e \<le> st_vote_count s"
    "consumed (vote_keys v) = Some w" "length w = ent_eligible_count e"
  shows "store_arrays (update_entry (write_votes s e v) i f)"
  using assms by (auto simp: store_arrays_def update_entry_def write_votes_def)

lemma entry_votes_update: "entry_votes (update_entry s i f) e = entry_votes s e"
  by (simp add: entry_votes_def update_entry_def)

text \<open>Which votes the window of another contract holds after a write: the same as before.\<close>

lemma entry_votes_other:
  assumes "store_arrays s" "ent_vote_offset e + ent_eligible_count e \<le> st_vote_count s"
    "consumed (vote_keys v) = Some w" "length w = ent_eligible_count e"
    "window_before e f \<or> window_before f e"
  shows "entry_votes (write_votes s e v) f = entry_votes s f"
proof -
  from assms(1) obtain vs where vs: "st_votes s = Some vs" "ent_vote_offset e + ent_eligible_count e \<le> length vs"
    using assms(2) by (auto simp: store_arrays_def)
  show ?thesis
    using window_other [OF vs(2) assms(4), of "ent_vote_offset f" "ent_eligible_count f"] vs(1) assms(3,5)
    by (simp add: entry_votes_def write_votes_def window_before_def)
qed

lemma entry_votes_own:
  assumes "store_arrays s" "ent_vote_offset e + ent_eligible_count e \<le> st_vote_count s"
    "consumed (vote_keys v) = Some w" "length w = ent_eligible_count e"
    "v = \<lparr>vote_contract_id = ent_contract_id e,
       vote_keys = \<lparr>consumed = Some w, consumed_count = n, consumed_capacity = ent_eligible_count e\<rparr>,
       eligible_count = ent_eligible_count e, required_count = ent_required_count e\<rparr>"
  shows "entry_votes (write_votes s e v) (e\<lparr>ent_current := c, ent_vote_count := n\<rparr>) = v"
  using assms by (auto simp: entry_votes_def write_votes_def store_arrays_def)

lemma contract_map_nth:
  assumes "store_inv sha s" "i < st_entry_count s"
  shows "contract_map s (ent_contract_id (live_entries s ! i)) =
    Some (the (ent_canonical_draft (live_entries s ! i)), ent_current (live_entries s ! i),
      entry_voters s (live_entries s ! i))"
proof -
  have "i < length (live_entries s)" "distinct (map ent_contract_id (live_entries s))"
    using assms by (simp_all add: store_inv_def length_live_entries)
  from find_key_nth [OF this(2,1)] show ?thesis by (simp add: contract_map_def)
qed

text \<open>
  The store after a new vote state and a new contract for entry \<open>i\<close>: the invariant holds again, and the
  abstract contracts change at that entry only.
\<close>

lemma store_update:
  assumes inv: "store_inv sha s" and i: "i < st_entry_count s" and e: "e = live_entries s ! i"
    and address: "ent_contract_id e = addr_id a"
    and votes: "vote_inv (ent_current e) a (length (approvers (ent_current e))) (entry_votes s e) vs"
    and voted: "vote_inv (ent_current e) a (length (approvers (ent_current e))) v (us)"
    and same: "as_draft c = as_draft (ent_current e)"
  shows "store_inv sha (update_entry (write_votes s e v) i
      (\<lambda>e. e\<lparr>ent_current := c, ent_vote_count := consumed_count (vote_keys v)\<rparr>)) \<and>
    contract_map (update_entry (write_votes s e v) i
      (\<lambda>e. e\<lparr>ent_current := c, ent_vote_count := consumed_count (vote_keys v)\<rparr>)) =
    (contract_map s)(ent_contract_id e \<mapsto> (the (ent_canonical_draft e), c, us))"
proof -
  let ?f = "\<lambda>e. e\<lparr>ent_current := c, ent_vote_count := consumed_count (vote_keys v)\<rparr>"
  let ?t = "update_entry (write_votes s e v) i ?f" and ?xs = "live_entries s"
  have arrays: "store_arrays s" and ids: "distinct (map ent_contract_id ?xs)" and
      order: "sorted_wrt window_before ?xs" and
      all: "\<And>x. x \<in> set ?xs \<Longrightarrow> entry_ok sha s x \<and> ent_vote_offset x + ent_eligible_count x \<le> st_vote_count s"
    using inv by (auto simp: store_inv_def)
  have len: "i < length ?xs" using i arrays by (simp add: length_live_entries)
  then have mem: "e \<in> set ?xs" using e by simp
  note ok = all [OF mem]
  have ap: "approvers c = approvers (ent_current e)" by (metis approvers_as_draft same)
  obtain w where w: "consumed (vote_keys v) = Some w" "length w = ent_eligible_count e"
    using voted ok
    by (auto simp: vote_inv_def buffer_wf_def buffer_valid_def entry_ok_def simp del: stn_identity_derive.simps)
  have v: "v = \<lparr>vote_contract_id = ent_contract_id e,
       vote_keys = \<lparr>consumed = Some w, consumed_count = consumed_count (vote_keys v),
         consumed_capacity = ent_eligible_count e\<rparr>,
       eligible_count = ent_eligible_count e, required_count = ent_required_count e\<rparr>"
    using voted votes w ok address
    by (cases v; cases "vote_keys v")
       (auto simp: vote_inv_def entry_votes_def entry_ok_def simp del: stn_identity_derive.simps)
  have live: "live_entries ?t = ?xs[i := ?f e]"
    using live_update_entry [of "write_votes s e v" i ?f] i e arrays
      store_arrays_update [OF arrays conjunct2 [OF ok] w, of 0 id]
    by (simp add: update_entry_def store_arrays_def write_votes_def live_entries_def)
  have own: "entry_votes ?t (?f e) = v"
    using entry_votes_own [OF arrays conjunct2 [OF ok] w v, of c] by (simp add: entry_votes_update)
  have other: "entry_votes ?t x = entry_votes s x" if "x = ?xs ! j" "j < length ?xs" "j \<noteq> i" for x j
    using entry_votes_other [OF arrays conjunct2 [OF ok] w, of x] order that e len
    by (cases "j < i") (auto simp: entry_votes_update sorted_wrt_iff_nth_less)
  have mine: "entry_voters ?t (?f e) = us"
    using voted own address by (simp add: entry_voters_def vote_inv_def comp_def)
  have voters: "entry_voters ?t x = entry_voters s x" if "x = ?xs ! j" "j < length ?xs" "j \<noteq> i" for x j
    using other [OF that] by (simp add: entry_voters_def)
  obtain d b where d: "ent_canonical_draft e = Some d" "draft_view (Some d) = Inr (as_draft (ent_current e))"
      "stn_contract_address sha (Some d) = Inr b" "ent_contract_id e = addr_id b"
      "distinct (approvers (ent_current e))" "ent_eligible_count e = length (approvers (ent_current e))"
    using ok by (auto simp: entry_ok_def)
  have "vote_inv c b (length (approvers c)) v (us)"
    using voted d(4) address by (simp add: vote_inv_def ap)
  then have oke: "entry_ok sha ?t (?f e)"
    using d own mine ap same by (simp add: entry_ok_def)
  have okx: "entry_ok sha ?t x" if "x = ?xs ! j" "j < length ?xs" "j \<noteq> i" for x j
    using all [of x] that other [OF that] voters [OF that] by (simp add: entry_ok_def)
  have fixed: "st_vote_count ?t = st_vote_count s" by (simp add: update_entry_def)
  have "sorted_wrt window_before (live_entries ?t)"
    using order len e unfolding live by (auto simp: sorted_wrt_iff_nth_less nth_list_update window_before_def)
  moreover have "map ent_contract_id (live_entries ?t) = map ent_contract_id ?xs"
    unfolding live using len e by (simp add: map_update list_update_same_conv)
  moreover have "entry_ok sha ?t x \<and> ent_vote_offset x + ent_eligible_count x \<le> st_vote_count ?t"
    if "x \<in> set (live_entries ?t)" for x
  proof -
    from that obtain j where j: "j < length ?xs" "x = ?xs[i := ?f e] ! j"
      by (auto simp: live in_set_conv_nth)
    show ?thesis
      using oke okx [of x j] all [of x] ok j len fixed by (cases "j = i") auto
  qed
  ultimately have "store_inv sha ?t"
    using store_arrays_update [OF arrays conjunct2 [OF ok] w] ids by (simp add: store_inv_def)
  moreover have "contract_map ?t k =
      ((contract_map s)(ent_contract_id e \<mapsto> (the (ent_canonical_draft e), c, us))) k" for k
  proof -
    have "find (\<lambda>x. ent_contract_id x = k) (live_entries ?t) =
        (if k = ent_contract_id e then Some (?f e) else find (\<lambda>x. ent_contract_id x = k) ?xs)"
      unfolding live using find_update_key [OF ids len, of "?f e" k] e by simp
    moreover have "entry_voters ?t x = entry_voters s x"
      if "find (\<lambda>x. ent_contract_id x = k) ?xs = Some x" "k \<noteq> ent_contract_id e" for x
    proof -
      from that(1) obtain j where "j < length ?xs" "x = ?xs ! j" "ent_contract_id x = k"
        by (auto simp: find_Some_iff)
      with that(2) e show ?thesis using voters [of x j] by blast
    qed
    ultimately show ?thesis
      using mine by (cases "find (\<lambda>x. ent_contract_id x = k) ?xs") (auto simp: contract_map_def)
  qed
  ultimately show ?thesis by blast
qed

lemma store_set_current:
  assumes inv: "store_inv sha s" and i: "i < st_entry_count s" and e: "e = live_entries s ! i"
    and same: "as_draft c = as_draft (ent_current e)"
  shows "store_inv sha (update_entry s i (\<lambda>e. e\<lparr>ent_current := c\<rparr>)) \<and>
    contract_map (update_entry s i (\<lambda>e. e\<lparr>ent_current := c\<rparr>)) =
    (contract_map s)(ent_contract_id e \<mapsto> (the (ent_canonical_draft e), c, entry_voters s e))"
proof -
  have arrays: "store_arrays s" using inv by (simp add: store_inv_def)
  then have mem: "e \<in> set (live_entries s)" using i e by (simp add: length_live_entries)
  then obtain a where a: "ent_contract_id e = addr_id a"
      "vote_inv (ent_current e) a (length (approvers (ent_current e))) (entry_votes s e) (entry_voters s e)"
    using inv by (auto simp: store_inv_def entry_ok_def)
  have "update_entry (write_votes s e (entry_votes s e)) i
      (\<lambda>e. e\<lparr>ent_current := c, ent_vote_count := consumed_count (vote_keys (entry_votes s (live_entries s ! i)))\<rparr>) =
    update_entry s i (\<lambda>e. e\<lparr>ent_current := c\<rparr>)"
    using arrays i unfolding write_votes_same
    by (auto simp: update_entry_def live_entries_def store_arrays_def entry_votes_def)
  with store_update [OF inv i e a(1,2,2) same] e show ?thesis by simp
qed

lemma as_draft_inject:
  "as_draft c = as_draft d \<Longrightarrow> ct_sequence c = ct_sequence d \<Longrightarrow> ct_state c = ct_state d \<Longrightarrow> c = d"
  by (cases c; cases d) (simp add: as_draft_def)

text \<open>Which submissions are taken.\<close>

definition vote_taken_when :: "bytes \<Rightarrow> stn_contract \<Rightarrow> bytes list \<Rightarrow> u64 \<Rightarrow> bytes \<Rightarrow> bool" where
  "vote_taken_when current c vs q actor \<longleftrightarrow>
     stn_contract_decode (Some current) = Inr c \<and>
     ct_state c \<in> {STN_CONTRACT_STATE_REVIEW, STN_CONTRACT_STATE_APPROVALS} \<and>
     ct_sequence c \<noteq> UINT64_LAST \<and> q = ct_sequence c + 1 \<and>
     stn_identity_derive (Some actor) = Inr actor \<and> actor \<in> set (approvers c) \<and> actor \<notin> set vs"

definition voted_contract :: "stn_contract \<Rightarrow> bytes list \<Rightarrow> u64 \<Rightarrow> stn_contract" where
  "voted_contract c vs q = c\<lparr>ct_sequence := q,
     ct_state := (if length (approvers c) < 2 * Suc (length vs)
       then STN_CONTRACT_STATE_ATTESTATION else STN_CONTRACT_STATE_APPROVALS)\<rparr>"

lemma with_spans_voted [simp]: "with_spans c (voted_contract c vs q) = voted_contract c vs q"
  by (simp add: with_spans_def voted_contract_def)

lemma as_draft_voted [simp]: "as_draft (voted_contract c vs q) = as_draft c"
  by (simp add: voted_contract_def as_draft_def)

lemma vote_step:
  assumes inv: "store_inv sha s" and i: "i < st_entry_count s" and actor: "length actor = 32"
    and e: "e = live_entries s ! i"
  shows "if vote_taken_when current (ent_current e) (entry_voters s e) q actor
    then \<exists>s'. stn_contract_state_apply_vote sha s i (Some current) q (Some actor) = (STN_CONTRACT_OK, s') \<and>
      store_inv sha s' \<and>
      contract_map s' = (contract_map s)(ent_contract_id e \<mapsto> (the (ent_canonical_draft e),
        voted_contract (ent_current e) (entry_voters s e) q, entry_voters s e @ [actor]))
    else \<exists>r. r \<noteq> STN_CONTRACT_OK \<and> stn_contract_state_apply_vote sha s i (Some current) q (Some actor) = (r, s)"
proof -
  let ?c = "ent_current e" and ?vs = "entry_voters s e"
  have arrays: "store_arrays s" using inv by (simp add: store_inv_def)
  have mem: "e \<in> set (live_entries s)" using i e length_live_entries [OF arrays] by simp
  then obtain d a where d: "ent_canonical_draft e = Some d" "draft_view (Some d) = Inr (as_draft ?c)"
      "stn_contract_address sha (Some d) = Inr a" "ent_contract_id e = addr_id a" "distinct (approvers ?c)"
      "ent_eligible_count e = length (approvers ?c)"
      "vote_inv ?c a (length (approvers ?c)) (entry_votes s e) ?vs"
    using inv by (auto simp: store_inv_def entry_ok_def)
  have dd: "stn_contract_decode (Some d) = Inr (as_draft ?c)" using d(2) by (simp add: draft_view_iff)
  have vinv: "vote_inv (as_draft ?c) a (length (approvers ?c)) (entry_votes s e) ?vs"
    using d(7) vote_inv_approvers [of "as_draft ?c" ?c] by simp
  show ?thesis
  proof (cases "stn_contract_decode (Some current) = Inr ?c")
    case False
    have "stn_contract_decode (Some current) \<noteq> Inl STN_CONTRACT_OK" by (rule contract_decode_status)
    then have "\<exists>r. r \<noteq> STN_CONTRACT_OK \<and>
        stn_contract_state_apply_vote sha s i (Some current) q (Some actor) = (r, s)"
      using False i d(1) e dd lineage_validate_iff [of d current] as_draft_inject
      by (auto simp: stn_contract_state_apply_vote_def Let_def split: sum.splits)
    then show ?thesis using False by (simp add: vote_taken_when_def)
  next
    case True
    have lineage: "stn_contract_lineage_validate (Some d) (Some current) = STN_CONTRACT_OK"
      using True dd by (simp add: lineage_validate_iff)
    have call: "stn_contract_state_apply_vote sha s i (Some current) q (Some actor) =
        (case stn_contract_vote_apply sha (Some ?c) q (Some d) (Some actor) (entry_votes s e) of
           (Inl status, votes) \<Rightarrow> (status, write_votes s e votes)
         | (Inr next, votes) \<Rightarrow> (STN_CONTRACT_OK, update_entry (write_votes s e votes) i
             (\<lambda>e. e\<lparr>ent_current := with_spans (ent_current e) next,
               ent_vote_count := consumed_count (vote_keys votes)\<rparr>)))"
      unfolding stn_contract_state_apply_vote_def Let_def e [symmetric] using i True lineage d(1) by simp
    have room: "length ?vs < length (approvers ?c)" if "actor \<in> set (approvers ?c)" "actor \<notin> set ?vs"
    proof -
      have "set ?vs \<subset> set (approvers ?c)" "distinct ?vs"
        using d(7) that by (auto simp: vote_inv_def simp del: stn_identity_derive.simps)
      then show ?thesis
        using psubset_card_mono [of "set (approvers ?c)" "set ?vs"] d(5) by (simp add: distinct_card)
    qed
    note exact = vote_apply_exact [OF vinv d(2,3) actor, of ?c q]
    show ?thesis
    proof (cases "vote_taken_when current ?c ?vs q actor")
      case taken: True
      then obtain t where t: "stn_contract_vote_apply sha (Some ?c) q (Some d) (Some actor) (entry_votes s e) =
          (Inr (voted_contract ?c ?vs q), t)" "vote_inv (as_draft ?c) a (length (approvers ?c)) t (?vs @ [actor])"
        using exact room by (auto simp: vote_taken_when_def voted_contract_def simp del: stn_identity_derive.simps)
      have "vote_inv ?c a (length (approvers ?c)) t (?vs @ [actor])"
        using t(2) vote_inv_approvers [of "as_draft ?c" ?c] by simp
      note step = store_update [OF inv i e d(4,7) this, of "voted_contract ?c ?vs q"]
      have "update_entry (write_votes s e t) i (\<lambda>e. e\<lparr>ent_current := with_spans (ent_current e) (voted_contract ?c ?vs q),
            ent_vote_count := consumed_count (vote_keys t)\<rparr>) =
          update_entry (write_votes s e t) i (\<lambda>e. e\<lparr>ent_current := voted_contract ?c ?vs q,
            ent_vote_count := consumed_count (vote_keys t)\<rparr>)"
        using arrays i by (auto simp: update_entry_def e live_entries_def store_arrays_def write_votes_def
            intro!: arg_cong [where f = "list_update _ _"])
      with taken step t(1) show ?thesis by (auto simp: call)
    next
      case refused: False
      then have "\<exists>r. stn_contract_vote_apply sha (Some ?c) q (Some d) (Some actor) (entry_votes s e) =
          (Inl r, entry_votes s e)"
        using exact room True
        by (auto simp: vote_taken_when_def simp del: stn_identity_derive.simps split: if_splits)
      then show ?thesis
        using refused vote_apply_status [of sha "Some ?c" q "Some d" "Some actor" "entry_votes s e"]
        by (auto simp: call write_votes_same)
    qed
  qed
qed

section \<open>Registering a draft\<close>

definition draft_admissible :: "stn_hash_fn \<Rightarrow> stn_contract_state_store \<Rightarrow> bytes \<Rightarrow> bool" where
  "draft_admissible sha s bs \<longleftrightarrow> (\<exists>d a. stn_contract_decode (Some bs) = Inr d \<and>
     ct_state d = STN_CONTRACT_STATE_DRAFT \<and> ct_sequence d = 0 \<and>
     stn_contract_address sha (Some bs) = Inr a \<and> contract_map s (addr_id a) = None \<and>
     st_entry_count s < st_entry_capacity s \<and>
     unat (ct_participant_count d) \<le> st_vote_capacity s - st_vote_count s \<and>
     distinct (approvers d) \<and> approvers d \<noteq> [])"

lemma length_approvers: "length (approvers d) \<le> unat (ct_participant_count d)"
  using length_filter_le [of _ "draft_participants d"] by (simp add: approvers_def del: STN_CONTRACT_ROLE_APPROVER_def)

lemma as_draft_self: "ct_state d = STN_CONTRACT_STATE_DRAFT \<Longrightarrow> ct_sequence d = 0 \<Longrightarrow> as_draft d = d"
  by (simp add: as_draft_def)

lemma find_fresh:
  assumes "store_arrays s"
  shows "isl (stn_contract_state_find s (Some k)) \<longleftrightarrow> contract_map s k = None"
proof -
  have "length (takeWhile (\<lambda>e. ent_contract_id e \<noteq> k) xs) < length xs \<longleftrightarrow> find (\<lambda>e. ent_contract_id e = k) xs \<noteq> None"
    for xs by (induction xs) auto
  then show ?thesis
    using assms by (auto simp: stn_contract_state_find_def contract_map_def Let_def store_arrays_def)
qed

text \<open>Appending an entry whose window starts at the vote count.\<close>

definition append_entry :: "stn_contract_state_store \<Rightarrow> stn_contract_state_entry \<Rightarrow> nat \<Rightarrow> stn_contract_state_store" where
  "append_entry s e n = s\<lparr>st_entries := map_option (\<lambda>es. es[st_entry_count s := e]) (st_entries s),
     st_entry_count := st_entry_count s + 1, st_vote_count := st_vote_count s + n\<rparr>"

lemma live_append:
  assumes "store_arrays s" "st_entry_count s < st_entry_capacity s"
  shows "live_entries (append_entry s e n) = live_entries s @ [e]"
  using assms by (auto simp: store_arrays_def append_entry_def live_entries_def take_Suc_conv_app_nth take_update_cancel)

lemma entry_votes_append: "entry_votes (append_entry s e n) f = entry_votes s f"
  by (simp add: append_entry_def entry_votes_def)

lemma store_append:
  assumes inv: "store_inv sha s" and room: "st_entry_count s < st_entry_capacity s"
      "n \<le> st_vote_capacity s - st_vote_count s" and
    fresh: "contract_map s (ent_contract_id e) = None" and
    e: "entry_ok sha s e" "entry_voters s e = []" "ent_vote_offset e = st_vote_count s" "ent_eligible_count e \<le> n"
  shows "store_inv sha (append_entry s e n) \<and>
    contract_map (append_entry s e n) = (contract_map s)(ent_contract_id e \<mapsto>
      (the (ent_canonical_draft e), ent_current e, []))"
proof -
  let ?t = "append_entry s e n"
  have arrays: "store_arrays s" using inv by (simp add: store_inv_def)
  note live = live_append [OF arrays room(1), of e n]
  have voters: "entry_voters ?t f = entry_voters s f" for f by (simp add: entry_voters_def entry_votes_append)
  have okt: "entry_ok sha ?t f = entry_ok sha s f" for f by (simp add: entry_ok_def entry_votes_append voters)
  have old: "ent_contract_id e \<notin> ent_contract_id ` set (live_entries s)"
    using fresh by (force simp: contract_map_def find_None_iff)
  have "store_arrays ?t" using arrays room by (auto simp: store_arrays_def append_entry_def)
  moreover have "st_vote_count ?t = st_vote_count s + n" by (simp add: append_entry_def)
  ultimately have "store_inv sha ?t"
    using inv old e okt by (auto simp: store_inv_def live sorted_wrt_append window_before_def)
  moreover have "contract_map ?t k = ((contract_map s)(ent_contract_id e \<mapsto>
      (the (ent_canonical_draft e), ent_current e, []))) k" for k
  proof -
    have "find (\<lambda>x. ent_contract_id x = k) (xs @ [e]) =
        (if ent_contract_id e = k then Some e else find (\<lambda>x. ent_contract_id x = k) xs)"
      if "ent_contract_id e \<notin> ent_contract_id ` set xs" for xs
      using that by (induction xs) auto
    from this [OF old] show ?thesis by (simp add: contract_map_def live voters e(2))
  qed
  ultimately show ?thesis by blast
qed

lemma register_step:
  assumes inv: "store_inv sha s"
  shows "if draft_admissible sha s bs
    then \<exists>s' d a. stn_contract_state_register sha s (Some bs) = (Inr (st_entry_count s), s') \<and>
      stn_contract_decode (Some bs) = Inr d \<and> stn_contract_address sha (Some bs) = Inr a \<and> store_inv sha s' \<and>
      contract_map s' = (contract_map s)(addr_id a \<mapsto> (bs, d, []))
    else \<exists>r. stn_contract_state_register sha s (Some bs) = (Inl r, s)"
proof -
  have arrays: "store_arrays s" using inv by (simp add: store_inv_def)
  then obtain es vs where st: "st_entries s = Some es" "st_votes s = Some vs" "length vs = st_vote_capacity s"
      "st_entry_count s \<le> st_entry_capacity s" "st_vote_count s \<le> st_vote_capacity s"
    by (auto simp: store_arrays_def)
  note init = vote_initialize_iff [of _ "Some (drop (st_vote_count s) vs)" sha bs]
  have init': "stn_contract_vote_state_initialize sha (Some bs) (Some (drop (st_vote_count s) vs)) n = Inr v \<longleftrightarrow>
      (\<exists>d a. draft_view (Some bs) = Inr d \<and> stn_contract_address sha (Some bs) = Inr a \<and>
       distinct (approvers d) \<and> approvers d \<noteq> [] \<and>
       v = \<lparr>vote_contract_id = addr_id a, vote_keys = key_buffer_initialize (Some (drop (st_vote_count s) vs)) n,
         eligible_count = length (approvers d), required_count = length (approvers d) div 2 + 1\<rparr>)" for n v
    by (rule init) simp
  show ?thesis
  proof (cases "draft_admissible sha s bs")
    case True
    then obtain d a where d: "stn_contract_decode (Some bs) = Inr d" "ct_state d = STN_CONTRACT_STATE_DRAFT"
        "ct_sequence d = 0" "stn_contract_address sha (Some bs) = Inr a" "contract_map s (addr_id a) = None"
        "st_entry_count s < st_entry_capacity s"
        "unat (ct_participant_count d) \<le> st_vote_capacity s - st_vote_count s"
        "distinct (approvers d)" "approvers d \<noteq> []" by (auto simp: draft_admissible_def)
    let ?n = "unat (ct_participant_count d)" and ?k = "length (approvers d)"
    define e where "e = \<lparr>ent_contract_id = addr_id a, ent_canonical_draft = Some bs, ent_current = d,
      ent_vote_offset = st_vote_count s, ent_vote_count = 0, ent_eligible_count = ?k,
      ent_required_count = ?k div 2 + 1\<rparr>"
    have call: "stn_contract_state_register sha s (Some bs) = (Inr (st_entry_count s), append_entry s e ?n)"
    proof -
      have "stn_contract_vote_state_initialize sha (Some bs) (Some (drop (st_vote_count s) vs)) ?n = Inr
          \<lparr>vote_contract_id = addr_id a, vote_keys = key_buffer_initialize (Some (drop (st_vote_count s) vs)) ?n,
            eligible_count = ?k, required_count = ?k div 2 + 1\<rparr>"
        using d by (auto simp: init' draft_view_iff)
      then show ?thesis
        using d st find_fresh [OF arrays, of "addr_id a"]
        by (simp add: stn_contract_state_register_def append_entry_def e_def)
    qed
    have "?k \<le> ?n" by (rule length_approvers)
    then have window: "length (take ?k (drop (st_vote_count s) vs)) = ?k" using d(7) st(3) by simp
    have draft: "as_draft d = d" using d(2,3) by (rule as_draft_self)
    have none: "entry_voters s e = []" by (simp add: entry_voters_def entry_votes_def accepted_def e_def)
    have "vote_inv d a ?k (entry_votes s e) []"
      using window st(2) d(9) by (simp add: vote_inv_def entry_votes_def accepted_def e_def buffer_wf_def buffer_valid_def)
    then have "entry_ok sha s e" using d draft none by (simp add: entry_ok_def e_def draft_view_iff)
    from store_append [OF inv d(6,7) _ this none] d(5) \<open>?k \<le> ?n\<close> have
        "store_inv sha (append_entry s e ?n) \<and>
         contract_map (append_entry s e ?n) = (contract_map s)(addr_id a \<mapsto> (bs, d, []))" by (simp add: e_def)
    with True call d(1,4) show ?thesis by auto
  next
    case False
    have "\<exists>r. stn_contract_state_register sha s (Some bs) = (Inl r, s)"
    proof (rule ccontr)
      assume "\<not> ?thesis"
      then obtain d a v where "stn_contract_decode (Some bs) = Inr d" "ct_state d = STN_CONTRACT_STATE_DRAFT"
        "ct_sequence d = 0" "stn_contract_address sha (Some bs) = Inr a"
        "isl (stn_contract_state_find s (Some (addr_id a)))"
        "st_entry_count s \<noteq> st_entry_capacity s"
        "unat (ct_participant_count d) \<le> st_vote_capacity s - st_vote_count s"
        "stn_contract_vote_state_initialize sha (Some bs) (Some (drop (st_vote_count s) vs))
          (unat (ct_participant_count d)) = Inr v"
        using st by (auto simp: stn_contract_state_register_def split: sum.splits if_splits)
      with False st(4) find_fresh [OF arrays] show False
        by (auto simp: init' draft_view_iff draft_admissible_def)
    qed
    with False show ?thesis by simp
  qed
qed

section \<open>The store refines the contract map\<close>

lemma store_inv_fresh: "stn_contract_snapshot_create True = Some snap \<Longrightarrow>
    store_inv sha (snap_state snap) \<and> contract_map (snap_state snap) = Map.empty \<and>
    st_entry_capacity (snap_state snap) = 128 \<and> st_vote_capacity (snap_state snap) = 4096 \<and>
    st_entry_count (snap_state snap) = 0 \<and> st_vote_count (snap_state snap) = 0"
  by (auto simp: stn_contract_snapshot_create_def stn_contract_state_initialize_def store_inv_def store_arrays_def
      live_entries_def contract_map_def STN_CONTRACT_STATE_MAX_CONTRACTS_def STN_CONTRACT_STATE_MAX_VOTES_def)

text \<open>
  Registering a draft refines an insertion into the map of contracts. On a store in the invariant a
  registration succeeds exactly when the bytes are a DRAFT with sequence 0 whose contract address is not
  registered yet, there is a free entry and room for its votes, and its approvers are distinct and at
  least one; the map then gains that contract with no voters and no other changes, and the invariant
  holds again. A refused registration leaves the store as it was.
\<close>

theorem contract_register_refines:
  assumes "store_inv sha s"
  shows "if draft_admissible sha s bs
    then \<exists>s' d a. stn_contract_state_register sha s (Some bs) = (Inr (st_entry_count s), s') \<and>
      stn_contract_decode (Some bs) = Inr d \<and> stn_contract_address sha (Some bs) = Inr a \<and> store_inv sha s' \<and>
      contract_map s' = (contract_map s)(addr_id a \<mapsto> (bs, d, []))
    else \<exists>r. stn_contract_state_register sha s (Some bs) = (Inl r, s)"
  using assms by (rule register_step)

text \<open>
  C23. A vote changes one contract and nothing else. On a store in the invariant a submission for entry
  \<open>i\<close> answers OK exactly when the bytes decode to that entry's current contract, in REVIEW or APPROVALS
  with the next sequence, and the actor is a canonical identity among the approvers that has not voted;
  then the map changes at that contract's identifier only (the votes of all contracts share one array)
  and the invariant holds again. Otherwise the whole store is unchanged.
\<close>

theorem contract_vote_refines:
  assumes "store_inv sha s" "i < st_entry_count s" "length actor = 32"
    "contract_map s (ent_contract_id (live_entries s ! i)) = Some (bs, c, vs)"
  shows "if vote_taken_when current c vs q actor
    then \<exists>s'. stn_contract_state_apply_vote sha s i (Some current) q (Some actor) = (STN_CONTRACT_OK, s') \<and>
      store_inv sha s' \<and>
      contract_map s' = (contract_map s)(ent_contract_id (live_entries s ! i) \<mapsto>
        (bs, voted_contract c vs q, vs @ [actor]))
    else \<exists>r. r \<noteq> STN_CONTRACT_OK \<and> stn_contract_state_apply_vote sha s i (Some current) q (Some actor) = (r, s)"
proof -
  have "bs = the (ent_canonical_draft (live_entries s ! i))" "c = ent_current (live_entries s ! i)"
      "vs = entry_voters s (live_entries s ! i)"
    using contract_map_nth [OF assms(1,2)] assms(4) by simp_all
  with vote_step [OF assms(1-3) refl] show ?thesis by simp
qed

lemma sample_admissible:
  assumes "length k = 32"
  shows "\<exists>snap bs. stn_contract_snapshot_create True = Some snap \<and> store_inv sample_sha (snap_state snap) \<and>
    draft_admissible sample_sha (snap_state snap) bs \<and> contract_map (snap_state snap) = Map.empty \<and>
    length bs = 68 \<and> stn_contract_address sample_sha (Some bs) =
      Inr \<lparr>addr_type = STN_ADDRESS_CONTRACT, addr_id = replicate 32 9\<rparr> \<and>
    (\<exists>d. stn_contract_decode (Some bs) = Inr d \<and> approvers d = [k] \<and> ct_sequence d = 0 \<and>
      ct_state d = STN_CONTRACT_STATE_DRAFT)"
proof -
  obtain snap where snap: "stn_contract_snapshot_create True = Some snap"
    by (simp add: stn_contract_snapshot_create_def)
  obtain bs d where d: "draft_view (Some bs) = Inr d" "approvers d = [k]" "length bs = 68"
      "stn_contract_address sample_sha (Some bs) =
        Inr \<lparr>addr_type = STN_ADDRESS_CONTRACT, addr_id = replicate 32 9\<rparr>"
    using sample_draft [OF assms] by auto
  then have dec: "stn_contract_decode (Some bs) = Inr d" by (simp add: draft_view_iff)
  have "unat (ct_participant_count d) \<le> 32" using contract_decode_facts(2) [OF dec] by (simp add: contract_ok_def)
  with d store_inv_fresh [OF snap, of sample_sha] have "draft_admissible sample_sha (snap_state snap) bs"
    by (auto simp: draft_admissible_def draft_view_iff)
  with snap store_inv_fresh [OF snap] dec d show ?thesis by (auto simp: draft_view_iff)
qed

lemma contract_reencode:
  assumes "stn_contract_decode (Some bs) = Inr d" "contract_state_valid st"
  shows "\<exists>current. stn_contract_decode (Some current) = Inr (d\<lparr>ct_sequence := q, ct_state := st\<rparr>)"
proof -
  let ?c = "d\<lparr>ct_sequence := q, ct_state := st\<rparr>"
  have "stn_contract_encode (Some (contract_native d)) STN_CONTRACT_MAX_SIZE = Inr bs"
    using assms(1) by (rule contract_codec.enc_dec)
  then have "\<exists>current. stn_contract_encode (Some (contract_native ?c)) STN_CONTRACT_MAX_SIZE = Inr current"
    using assms(2) unfolding contract_encode_iff
    by (simp add: contract_native_def contract_ok_def native_participants_def native_terms_def packed_participants_def)
  moreover have "wf_view ?c"
    using contract_decode_facts(1) [OF assms(1)] by (simp add: wf_view_def packed_participants_def)
  ultimately show ?thesis using contract_codec.dec_enc by blast
qed

theorem contract_register_refines_witness:
  "\<exists>snap bs s' d a. stn_contract_snapshot_create True = Some snap \<and>
     stn_contract_state_register sample_sha (snap_state snap) (Some bs) = (Inr 0, s') \<and>
     stn_contract_address sample_sha (Some bs) = Inr a \<and> contract_map s' = [addr_id a \<mapsto> (bs, d, [])]"
proof -
  obtain snap bs where s: "stn_contract_snapshot_create True = Some snap" "store_inv sample_sha (snap_state snap)"
      "draft_admissible sample_sha (snap_state snap) bs" "contract_map (snap_state snap) = Map.empty"
    using sample_admissible [of "2 # replicate 31 0"] by auto
  with contract_register_refines [OF s(2), of bs] store_inv_fresh [OF s(1)] obtain s' d a where
      "stn_contract_state_register sample_sha (snap_state snap) (Some bs) = (Inr 0, s')"
      "stn_contract_address sample_sha (Some bs) = Inr a" "contract_map s' = [addr_id a \<mapsto> (bs, d, [])]"
    by auto
  with s(1) show ?thesis by blast
qed

lemma sample_review:
  "\<exists>s bs c current. store_inv sample_sha s \<and> st_entry_count s = 1 \<and>
     contract_map s = [replicate 32 9 \<mapsto> (bs, c, [])] \<and> ct_state c = STN_CONTRACT_STATE_REVIEW \<and>
     ct_sequence c = 0 \<and> approvers c = [2 # replicate 31 0] \<and>
     stn_contract_decode (Some current) = Inr c \<and> length current = 68 \<and>
     stn_contract_address sample_sha (Some bs) = Inr \<lparr>addr_type = STN_ADDRESS_CONTRACT, addr_id = replicate 32 9\<rparr>"
proof -
  let ?k = "2 # replicate 31 (0 :: 8 word)" and ?i = "replicate 32 (9 :: 8 word)"
  obtain snap bs d where s: "stn_contract_snapshot_create True = Some snap" "store_inv sample_sha (snap_state snap)"
      "draft_admissible sample_sha (snap_state snap) bs" "contract_map (snap_state snap) = Map.empty"
      "stn_contract_decode (Some bs) = Inr d" "approvers d = [?k]" "ct_sequence d = 0" "length bs = 68"
      "stn_contract_address sample_sha (Some bs) = Inr \<lparr>addr_type = STN_ADDRESS_CONTRACT, addr_id = ?i\<rparr>"
    using sample_admissible [of ?k] by auto
  from register_step [OF s(2), of bs] s(3-5,9) store_inv_fresh [OF s(1), of sample_sha] obtain r where
      reg: "stn_contract_state_register sample_sha (snap_state snap) (Some bs) = (Inr 0, r)"
      "store_inv sample_sha r" "contract_map r = [?i \<mapsto> (bs, d, [])]" by auto
  have count: "st_entry_count r = 1"
    using reg(1) store_inv_fresh [OF s(1)] by (auto simp: stn_contract_state_register_def split: if_splits sum.splits)
  let ?e = "live_entries r ! 0" and ?c = "d\<lparr>ct_state := STN_CONTRACT_STATE_REVIEW\<rparr>"
  have at: "ent_contract_id ?e = ?i" "the (ent_canonical_draft ?e) = bs" "ent_current ?e = d" "entry_voters r ?e = []"
    using contract_map_nth [OF reg(2), of 0] reg(3) count by (auto split: if_splits)
  have same: "as_draft ?c = as_draft d" by (simp add: as_draft_def)
  then have ap: "approvers ?c = [?k]" using s(6) by (metis approvers_as_draft)
  obtain current where cur: "stn_contract_decode (Some current) = Inr ?c"
    using contract_reencode [OF s(5), of STN_CONTRACT_STATE_REVIEW "ct_sequence d"]
    by (auto simp: contract_state_valid_def)
  have "length current = 68"
    using contract_decode_facts(6) [OF cur] contract_decode_facts(6) [OF s(5)] s(8) by simp
  moreover have "store_inv sample_sha (update_entry r 0 (\<lambda>e. e\<lparr>ent_current := ?c\<rparr>))"
      "contract_map (update_entry r 0 (\<lambda>e. e\<lparr>ent_current := ?c\<rparr>)) = [?i \<mapsto> (bs, ?c, [])]"
      "st_entry_count (update_entry r 0 (\<lambda>e. e\<lparr>ent_current := ?c\<rparr>)) = 1"
    using store_set_current [OF reg(2), of 0 ?e ?c] reg(3) count same at by (simp_all add: update_entry_def)
  moreover have "ct_state ?c = STN_CONTRACT_STATE_REVIEW" "ct_sequence ?c = 0" using s(7) by simp_all
  ultimately show ?thesis using cur s(9) ap by blast
qed

theorem contract_vote_refines_witness:
  "\<exists>s s' current bs c d. contract_map s = [replicate 32 9 \<mapsto> (bs, c, [])] \<and> ct_state c = STN_CONTRACT_STATE_REVIEW \<and>
     stn_contract_state_apply_vote sample_sha s 0 (Some current) 1 (Some (2 # replicate 31 0)) =
       (STN_CONTRACT_OK, s') \<and>
     contract_map s' = [replicate 32 9 \<mapsto> (bs, d, [2 # replicate 31 0])] \<and> ct_state d = STN_CONTRACT_STATE_ATTESTATION"
proof -
  let ?k = "2 # replicate 31 (0 :: 8 word)"
  obtain s bs c current where s: "store_inv sample_sha s" "st_entry_count s = 1"
      "contract_map s = [replicate 32 9 \<mapsto> (bs, c, [])]" "ct_state c = STN_CONTRACT_STATE_REVIEW" "ct_sequence c = 0"
      "approvers c = [?k]" "stn_contract_decode (Some current) = Inr c" using sample_review by blast
  have key: "ent_contract_id (live_entries s ! 0) = replicate 32 9"
    using contract_map_nth [OF s(1), of 0] s(2,3) by (auto split: if_splits)
  have derive: "stn_identity_derive (Some ?k) = Inr ?k" by (simp add: sample_key_canonical)
  have "vote_taken_when current c [] 1 ?k"
    using s(4-7) derive by (simp add: vote_taken_when_def UINT64_LAST_def del: stn_identity_derive.simps)
  moreover have "ct_state (voted_contract c [] 1) = STN_CONTRACT_STATE_ATTESTATION"
    using s(6) by (simp add: voted_contract_def)
  ultimately obtain s' where "stn_contract_state_apply_vote sample_sha s 0 (Some current) 1 (Some ?k) = (STN_CONTRACT_OK, s')"
      "contract_map s' = [replicate 32 9 \<mapsto> (bs, voted_contract c [] 1, [?k])]"
      "ct_state (voted_contract c [] 1) = STN_CONTRACT_STATE_ATTESTATION"
    using contract_vote_refines [OF s(1), where i = 0 and actor = ?k and bs = bs and c = c and vs = "[]" and q = 1
        and current = current] s(2,3) key by auto
  with s(3,4) show ?thesis by blast
qed

end
