(* ===== verification/Stn_Contract_Trace.thy ===== *)
theory Stn_Contract_Trace
  imports Stn_Contract_Vote
begin

text \<open>
  The life of one registered contract, as \<^verbatim>\<open>contract_apply_transaction\<close> of \<^verbatim>\<open>src/src/stn_chain.c\<close> moves
  it: an approval goes through the vote on the contract's draft, every other action through the
  transition of \<^verbatim>\<open>stn_contract_apply_action\<close>.
\<close>

section \<open>Runs with votes\<close>

text \<open>
  The list holds the accepted actions with their sequence values, the voters are those of the accepted
  votes. A refused vote leaves the contract; a refused transition is no step, it answers no contract.
\<close>

inductive entry_run ::
  "stn_hash_fn \<Rightarrow> bytes \<Rightarrow> stn_contract \<Rightarrow> stn_contract_vote_state \<Rightarrow> (u16 \<times> u64) list \<Rightarrow> bytes list \<Rightarrow> stn_contract \<Rightarrow>
   stn_contract_vote_state \<Rightarrow> bool" for sha bs c s where
  entry_start: "entry_run sha bs c s [] [] c s"
| entry_moved: "entry_run sha bs c s as vs d t \<Longrightarrow> a \<noteq> STN_CONTRACT_ACTION_APPROVE \<Longrightarrow>
    stn_contract_apply_action (Some d) a q = Inr e \<Longrightarrow> entry_run sha bs c s (as @ [(a, q)]) vs e t"
| entry_voted: "entry_run sha bs c s as vs d t \<Longrightarrow> length actor = 32 \<Longrightarrow>
    stn_contract_vote_apply sha (Some d) q (Some bs) (Some actor) t = (Inr e, u) \<Longrightarrow>
    entry_run sha bs c s (as @ [(STN_CONTRACT_ACTION_APPROVE, q)]) (vs @ [actor]) e u"
| entry_refused: "entry_run sha bs c s as vs d t \<Longrightarrow> length actor = 32 \<Longrightarrow>
    stn_contract_vote_apply sha (Some d) q (Some bs) (Some actor) t = (Inl r, u) \<Longrightarrow>
    entry_run sha bs c s as vs d u"

text \<open>The action words from DRAFT to each state before a rejection or revocation; \<open>n\<close> approvers, \<open>v\<close> votes.\<close>

definition voted_word :: "nat \<Rightarrow> u16 \<Rightarrow> u16 list \<Rightarrow> nat \<Rightarrow> bool" where
  "voted_word n s w v \<longleftrightarrow>
     (s = 1 \<longrightarrow> w = [] \<and> v = 0) \<and> (s = 2 \<longrightarrow> w = [1] \<and> v = 0) \<and>
     (s = 3 \<longrightarrow> (\<exists>m \<ge> 1. w = 1 # replicate m 2) \<and> v = 0) \<and>
     (s = 4 \<longrightarrow> (\<exists>m \<ge> 1. w = 1 # replicate m 2 @ replicate v 3) \<and> 2 * v \<le> n) \<and>
     (s = 5 \<longrightarrow> (\<exists>m \<ge> 1. w = 1 # replicate m 2 @ replicate v 3) \<and> v = n div 2 + 1) \<and>
     (s = 6 \<longrightarrow> (\<exists>m \<ge> 1. w = 1 # replicate m 2 @ replicate v 3 @ [5]) \<and> v = n div 2 + 1)"

lemma voted_word_moved:
  assumes "voted_word n s w v" "stn_contract_transition s a = Inr t" "a \<noteq> 3"
  shows "voted_word n t (w @ [a]) v"
proof -
  have cases: "(s, a, t) \<in> {(1, 1, 2), (2, 2, 3), (3, 2, 3), (5, 5, 6)} \<or> t \<in> {7, 8, 9}"
    using assms(2,3) unfolding transition_table by auto
  have amended: "\<exists>k \<ge> 1. replicate m (2 :: u16) @ [2] = replicate k 2" for m
    by (intro exI [of _ "Suc m"]) (simp add: replicate_append_same)
  from cases consider "s = 1" "a = 1" "t = 2" | "s = 2" "a = 2" "t = 3" | "s = 3" "a = 2" "t = 3"
    | "s = 5" "a = 5" "t = 6" | "t \<in> {7, 8, 9}" by auto
  then show ?thesis
  proof cases
    case 2
    then show ?thesis using assms(1) by (auto simp: voted_word_def intro!: exI [of _ "1 :: nat"])
  next
    case 3
    then show ?thesis using assms(1) amended by (auto simp: voted_word_def)
  next
    case 4
    then show ?thesis using assms(1) by (auto simp: voted_word_def)
  qed (use assms(1) in \<open>auto simp: voted_word_def\<close>)
qed

lemma voted_word_voted:
  assumes "voted_word n s w v" "s \<in> {3, 4}"
  shows "voted_word n (if n < 2 * Suc v then 5 else 4) (w @ [3]) (Suc v)"
proof -
  have "\<exists>m \<ge> 1. w = 1 # replicate m 2 @ replicate v 3" "2 * v \<le> n"
    using assms by (auto simp: voted_word_def)
  then have "\<exists>m \<ge> 1. w @ [3] = 1 # replicate m 2 @ replicate (Suc v) 3"
    by (auto simp: replicate_append_same)
  moreover have "Suc v = n div 2 + 1" if "n < 2 * Suc v" using that \<open>2 * v \<le> n\<close> by presburger
  ultimately show ?thesis by (auto simp: voted_word_def)
qed

definition entry_inv ::
  "nat \<Rightarrow> stn_contract \<Rightarrow> (u16 \<times> u64) list \<Rightarrow> bytes list \<Rightarrow> stn_contract \<Rightarrow> bool" where
  "entry_inv n c as vs e \<longleftrightarrow> voted_word n (ct_state e) (map fst as) (length vs) \<and>
     e = c\<lparr>ct_sequence := ct_sequence e, ct_state := ct_state e\<rparr> \<and>
     unat (ct_sequence e) = unat (ct_sequence c) + length as \<and>
     map (\<lambda>x. unat (snd x)) as = map (\<lambda>i. unat (ct_sequence c) + Suc i) [0..<length as]"

text \<open>The bookkeeping of one accepted action.\<close>

lemma entry_inv_step:
  assumes "entry_inv n c as vs d" "ct_sequence d \<noteq> UINT64_LAST" "q = ct_sequence d + 1"
    "voted_word n s (map fst as @ [a]) (length us)"
  shows "entry_inv n c (as @ [(a, q)]) us (d\<lparr>ct_sequence := q, ct_state := s\<rparr>)"
  using assms unat_next [OF assms(2)] by (cases d; cases c) (auto simp: entry_inv_def)

lemma entry_run_invariant:
  assumes "entry_run sha bs c s as vs e t" "draft_view (Some bs) = Inr d" "stn_contract_address sha (Some bs) = Inr a"
    "vote_inv d a capacity s []" "ct_state c = STN_CONTRACT_STATE_DRAFT"
  shows "vote_inv d a capacity t vs \<and> entry_inv (length (approvers d)) c as vs e"
  using assms(1)
proof (induction rule: entry_run.induct)
  case entry_start
  then show ?case using assms(4,5) by (simp add: entry_inv_def voted_word_def)
next
  case (entry_moved as vs f t b q e)
  from entry_moved.hyps(3) obtain x where x: "ct_sequence f \<noteq> UINT64_LAST" "q = ct_sequence f + 1"
      "stn_contract_transition (ct_state f) b = Inr x" "e = f\<lparr>ct_sequence := q, ct_state := x\<rparr>"
    unfolding apply_action_iff by blast
  have "voted_word (length (approvers d)) x (map fst as @ [b]) (length vs)"
    using voted_word_moved [OF _ x(3)] entry_moved by (simp add: entry_inv_def)
  then show ?case using entry_inv_step [OF conjunct2 [OF entry_moved.IH] x(1,2)] entry_moved.IH x(4) by simp
next
  case (entry_voted as vs f t actor q e u)
  note exact = vote_apply_exact [OF conjunct1 [OF entry_voted.IH] assms(2,3) entry_voted.hyps(2), of f q]
  have guard: "ct_state f \<in> {3, 4}" "ct_sequence f \<noteq> UINT64_LAST" "q = ct_sequence f + 1"
    and e: "e = f\<lparr>ct_sequence := q, ct_state := (if length (approvers d) < 2 * Suc (length vs) then 5 else 4)\<rparr>"
      "vote_inv d a capacity u (vs @ [actor])"
    using exact entry_voted.hyps(3) by (auto split: if_splits)
  have "voted_word (length (approvers d)) (if length (approvers d) < 2 * Suc (length vs) then 5 else 4)
      (map fst as @ [3]) (length (vs @ [actor]))"
    using voted_word_voted [OF _ guard(1)] entry_voted.IH by (simp add: entry_inv_def)
  from entry_inv_step [OF conjunct2 [OF entry_voted.IH] guard(2,3) this] show ?case using e by simp
next
  case (entry_refused as vs f t actor q r u)
  have "u = t"
    using vote_apply_exact [OF conjunct1 [OF entry_refused.IH] assms(2,3) entry_refused.hyps(2), of f q]
      entry_refused.hyps(3)
    by (auto split: if_splits)
  with entry_refused.IH show ?case by simp
qed

section \<open>What an executed contract went through\<close>

text \<open>
  C29. What an executed contract went through. A registered contract is moved by votes on its draft and,
  for every action but APPROVE, by the transition of the state machine. Every such run from DRAFT to
  EXECUTED is one creation, at least one amendment, then exactly as many approvals as a strict majority
  of the draft's approvers needs, by distinct approvers, and the execution, in this order and nothing
  else; each accepted action carried the next sequence value, so the sequence has grown by their number
  without wrapping, and every other field of the contract is the drafted one.
\<close>

theorem contract_executed_majority:
  assumes "stn_contract_vote_state_initialize sha (Some bs) (Some buf) capacity = Inr s" "length buf = capacity"
    "ct_state c = STN_CONTRACT_STATE_DRAFT" "entry_run sha bs c s as vs e t"
    "ct_state e = STN_CONTRACT_STATE_EXECUTED"
  shows "\<exists>d n. stn_contract_decode (Some bs) = Inr d \<and> 1 \<le> n \<and>
    map fst as = [STN_CONTRACT_ACTION_CREATE] @ replicate n STN_CONTRACT_ACTION_AMEND @
      replicate (length (approvers d) div 2 + 1) STN_CONTRACT_ACTION_APPROVE @ [STN_CONTRACT_ACTION_EXECUTE] \<and>
    length vs = length (approvers d) div 2 + 1 \<and> distinct vs \<and> set vs \<subseteq> set (approvers d) \<and>
    map (\<lambda>x. unat (snd x)) as = map (\<lambda>i. unat (ct_sequence c) + Suc i) [0..<length as] \<and>
    unat (ct_sequence e) = unat (ct_sequence c) + length as \<and>
    e = c\<lparr>ct_sequence := ct_sequence e, ct_state := ct_state e\<rparr>"
proof -
  from vote_initialize_inv [OF assms(1,2)] obtain d a where d: "draft_view (Some bs) = Inr d"
      "stn_contract_address sha (Some bs) = Inr a" "vote_inv d a capacity s []" by blast
  from entry_run_invariant [OF assms(4) d assms(3)] have inv: "vote_inv d a capacity t vs"
      "entry_inv (length (approvers d)) c as vs e" by blast+
  then have "distinct vs" "set vs \<subseteq> set (approvers d)" "stn_contract_decode (Some bs) = Inr d"
    using d(1) by (auto simp: vote_inv_def draft_view_iff simp del: stn_identity_derive.simps)
  with inv(2) assms(5) show ?thesis
    by (intro exI [of _ d]) (auto simp: entry_inv_def voted_word_def)
qed

theorem contract_executed_majority_witness:
  "\<exists>bs s as e t. stn_contract_vote_state_initialize sample_sha (Some bs) (Some [[]]) 1 = Inr s \<and>
     entry_run sample_sha bs sample_contract s as [2 # replicate 31 0] e t \<and>
     map fst as = [1, 2, 3, 5] \<and> ct_state e = STN_CONTRACT_STATE_EXECUTED \<and> unat (ct_sequence e) = 4"
proof -
  let ?k = "2 # replicate 31 (0 :: 8 word)" and ?c = "\<lambda>q t. sample_contract\<lparr>ct_sequence := q, ct_state := t\<rparr>"
  obtain bs d a where d: "draft_view (Some bs) = Inr d" "approvers d = [?k]"
      "stn_contract_address sample_sha (Some bs) = Inr a" using sample_draft [of ?k] by auto
  obtain s where i: "stn_contract_vote_state_initialize sample_sha (Some bs) (Some [[]]) 1 = Inr s"
    using sample_votes [OF d] by blast
  have inv: "vote_inv d a 1 s []"
    using vote_initialize_inv [OF i] d by (simp add: draft_view_iff) (metis Inr_inject)
  have step: "stn_contract_apply_action (Some (?c q s)) a (q + 1) = Inr (?c (q + 1) t)"
    if "stn_contract_transition s a = Inr t" "q \<noteq> UINT64_LAST" for q s a t
    using that by (auto simp: apply_action_iff sample_contract_def contract_type_valid_def transition_table
        contract_state_valid_def simp del: stn_contract_apply_action.simps)
  have start: "sample_contract = ?c 0 1" by (simp add: sample_contract_def)
  have s1: "entry_run sample_sha bs sample_contract s [(1, 1)] [] (?c 1 2) s"
    using entry_run.entry_moved [OF entry_run.entry_start [of _ _ "?c 0 1"] _ step [of 1 1 2 0]]
    by (simp add: transition_table UINT64_LAST_def flip: start)
  have s2: "entry_run sample_sha bs sample_contract s [(1, 1), (2, 2)] [] (?c 2 3) s"
    using entry_run.entry_moved [OF s1 _ step [of 2 2 3 1]] by (simp add: transition_table UINT64_LAST_def)
  have "stn_identity_derive (Some ?k) = Inr ?k" by (simp add: sample_key_canonical)
  with vote_apply_exact [OF inv d(1,3), of ?k "?c 2 3" 3] obtain t where
      "stn_contract_vote_apply sample_sha (Some (?c 2 3)) 3 (Some bs) (Some ?k) s = (Inr (?c 3 5), t)"
    using d(2) by (auto simp: UINT64_LAST_def simp del: stn_identity_derive.simps)
  from entry_run.entry_voted [OF s2 _ this]
  have s3: "entry_run sample_sha bs sample_contract s [(1, 1), (2, 2), (3, 3)] [?k] (?c 3 5) t" by simp
  have run: "entry_run sample_sha bs sample_contract s [(1, 1), (2, 2), (3, 3), (5, 4)] [?k] (?c 4 6) t"
    using entry_run.entry_moved [OF s3 _ step [of 5 5 6 3]] by (simp add: transition_table UINT64_LAST_def)
  from contract_executed_majority [OF i _ _ run] have "unat (ct_sequence (?c 4 6)) = unat (ct_sequence sample_contract) + 4"
    by (simp add: sample_contract_def)
  then have "unat (ct_sequence (?c 4 6)) = 4" by (simp add: sample_contract_def)
  with i run show ?thesis by (intro exI conjI) (assumption | simp)+
qed

end
