(* ===== verification/Stn_Chain_Contract.thy ===== *)
theory Stn_Chain_Contract
  imports Stn_Contract_Ledger Stn_Lifecycle
begin

text \<open>
  Contract actions in a block, \<^verbatim>\<open>contract_authorized\<close> and \<^verbatim>\<open>contract_apply_transaction\<close> of
  \<^verbatim>\<open>src/src/stn_chain.c\<close>: who may act on a contract, and what an action does to the contract store of
  the candidate state.
\<close>

text \<open>The loop over the accepted grants: one that holds the evidence and is not revoked is enough.\<close>

fun contract_grants :: "stn_authority_state \<Rightarrow> bytes \<Rightarrow> stn_hash_provider \<Rightarrow> bytes list \<Rightarrow> stn_data_status" where
  "contract_grants authority evidence provider [] = STN_DATA_CONTENT"
| "contract_grants authority evidence provider (grant # grants) =
     (if memcmp (take STN_AUTHORITY_EVIDENCE_SIZE (drop 33 grant)) evidence \<noteq> 0
      then contract_grants authority evidence provider grants
      else
        (case stn_authority_grant_id (Some grant) provider of
           Inl _ \<Rightarrow> STN_DATA_PROVIDER_ERROR
         | Inr grant_id \<Rightarrow>
             if \<not> stn_authority_state_is_revoked authority (Some grant_id) then STN_DATA_OK
             else contract_grants authority evidence provider grants))"

definition contract_authorized ::
  "stn_hash_fn \<Rightarrow> ed25519 \<Rightarrow> stn_lifecycle_state option \<Rightarrow> stn_contract_transaction \<Rightarrow> bytes option \<Rightarrow>
   stn_hash_provider \<Rightarrow> stn_data_status" where
  "contract_authorized sha ed lifecycle action canonical_draft provider =
     (if lifecycle = None \<or> canonical_draft = None then STN_DATA_ARGUMENT
      else if stn_contract_signature_verify ed (Some (ctx_actor action)) (ctx_action action)
        (ctx_contract action) (ctx_sequence action) (Some (ctx_signature action)) \<noteq> STN_CONTRACT_OK
      then STN_DATA_CONTENT
      else if stn_contract_authority_evaluate sha (Some (ctx_actor action)) (ctx_action action)
        canonical_draft (ctx_evidence action) (unat (ctx_evidence_length action)) \<noteq> STN_CONTRACT_OK
      then STN_DATA_CONTENT
      else contract_grants (lc_authority (the lifecycle)) (the (ctx_evidence action)) provider
        (accepted (lc_grants (the lifecycle))))"

text \<open>The new current contract of an entry, its spans kept.\<close>

definition set_entry_current :: "stn_contract_snapshot \<Rightarrow> nat \<Rightarrow> stn_contract \<Rightarrow> stn_contract_snapshot" where
  "set_entry_current snapshot i next =
     snapshot\<lparr>snap_state := update_entry (snap_state snapshot) i
       (\<lambda>e. e\<lparr>ent_current := with_spans (ent_current e) next\<rparr>)\<rparr>"

definition contract_apply_transaction ::
  "stn_hash_fn \<Rightarrow> ed25519 \<Rightarrow> bool \<Rightarrow> stn_contract_snapshot \<Rightarrow> stn_lifecycle_state option \<Rightarrow> stn_transaction \<Rightarrow>
   stn_hash_provider \<Rightarrow> stn_data_status \<times> stn_contract_snapshot" where
  "contract_apply_transaction sha ed alloc snapshot lifecycle transaction provider =
     (if lifecycle = None then (STN_DATA_ARGUMENT, snapshot)
      else
        (case stn_contract_transaction_decode sha (txn_record_bytes transaction) of
           Inl _ \<Rightarrow> (STN_DATA_CONTENT, snapshot)
         | Inr action \<Rightarrow>
             if ctx_action action = STN_CONTRACT_ACTION_CREATE then
               (case stn_contract_decode (ctx_contract action) of
                  Inl _ \<Rightarrow> (STN_DATA_CONTENT, snapshot)
                | Inr current \<Rightarrow>
                    if ct_state current \<noteq> STN_CONTRACT_STATE_DRAFT \<or> ct_sequence current \<noteq> 0
                    then (STN_DATA_CONTENT, snapshot)
                    else
                      (let authorized = contract_authorized sha ed lifecycle action (ctx_contract action) provider
                       in if authorized \<noteq> STN_DATA_OK then (authorized, snapshot)
                          else
                            (case stn_contract_snapshot_register sha alloc snapshot (ctx_contract action) of
                               (Inl status, snapshot') \<Rightarrow>
                                 (if status = STN_CONTRACT_CAPACITY then STN_DATA_CAPACITY else STN_DATA_CONTENT,
                                  snapshot')
                             | (Inr index, snapshot') \<Rightarrow>
                                 (case stn_contract_apply_action
                                         (Some (ent_current (live_entries (snap_state snapshot') ! index)))
                                         (ctx_action action) (ctx_sequence action) of
                                    Inl _ \<Rightarrow> (STN_DATA_CONTENT, snapshot')
                                  | Inr next \<Rightarrow> (STN_DATA_OK, set_entry_current snapshot' index next)))))
             else
               (let entries = live_entries (snap_state snapshot);
                    index = length (takeWhile (\<lambda>e. stn_contract_lineage_validate (ent_canonical_draft e)
                      (ctx_contract action) \<noteq> STN_CONTRACT_OK) entries)
                in if index = length entries then (STN_DATA_CONTENT, snapshot)
                   else
                     (case stn_contract_decode (ctx_contract action) of
                        Inl _ \<Rightarrow> (STN_DATA_CONTENT, snapshot)
                      | Inr current \<Rightarrow>
                          if ct_sequence current \<noteq> ct_sequence (ent_current (entries ! index)) \<or>
                            ct_state current \<noteq> ct_state (ent_current (entries ! index))
                          then (STN_DATA_CONTENT, snapshot)
                          else
                            (let authorized = contract_authorized sha ed lifecycle action
                                   (ent_canonical_draft (entries ! index)) provider
                             in if authorized \<noteq> STN_DATA_OK then (authorized, snapshot)
                                else if ctx_action action = STN_CONTRACT_ACTION_APPROVE then
                                  (case stn_contract_state_apply_vote sha (snap_state snapshot) index
                                          (ctx_contract action) (ctx_sequence action) (Some (ctx_actor action)) of
                                     (status, state) \<Rightarrow>
                                       (if status = STN_CONTRACT_OK then STN_DATA_OK
                                        else if status = STN_CONTRACT_CAPACITY then STN_DATA_CAPACITY
                                        else STN_DATA_CONTENT,
                                        snapshot\<lparr>snap_state := state\<rparr>))
                                else
                                  (case stn_contract_apply_action (Some current) (ctx_action action)
                                          (ctx_sequence action) of
                                     Inl _ \<Rightarrow> (STN_DATA_CONTENT, snapshot)
                                   | Inr next \<Rightarrow> (STN_DATA_OK, set_entry_current snapshot index next)))))))"

section \<open>Creation is never accepted\<close>

lemma action_decode_facts:
  assumes "stn_contract_transaction_decode sha (Some bs) = Inr t"
  shows "wf_ctx t" "ctx_ok sha t"
  using ctx_codec.dec_wf [OF assms] ctx_codec.enc_dec [OF assms] ctx_encode_iff by blast+

lemma authority_evaluate_evidence:
  "stn_contract_authority_evaluate sha actor action draft None n \<noteq> STN_CONTRACT_OK"
proof -
  have "stn_authority_evaluate k (Some a) (Some c) None n \<noteq> STN_AUTHORITY_AUTHORIZED" for k a c
    by (auto simp: stn_authority_evaluate_def split: sum.splits)
  moreover have "stn_contract_authority_action action \<noteq> Inl STN_CONTRACT_OK"
    by (auto simp: stn_contract_authority_action_def Let_def)
  moreover have "stn_contract_authority_context sha draft \<noteq> Inl STN_CONTRACT_OK"
    using contract_address_status [of sha draft]
    by (auto simp: stn_contract_authority_context_def Let_def split: sum.splits)
  ultimately show ?thesis
    by (auto simp: stn_contract_authority_evaluate_def split: sum.splits)
qed

lemma create_unauthorized:
  assumes "stn_contract_transaction_decode sha (Some bs) = Inr t" "ctx_action t = STN_CONTRACT_ACTION_CREATE"
  shows "contract_authorized sha ed lifecycle t draft provider \<in> {STN_DATA_ARGUMENT, STN_DATA_CONTENT}"
proof -
  have "ctx_evidence t = None"
    using action_decode_facts [OF assms(1)] assms(2) by (simp add: wf_ctx_def ctx_ok_def authority_length_valid_def)
  then show ?thesis using authority_evaluate_evidence by (simp add: contract_authorized_def)
qed

lemma create_refused:
  assumes "stn_contract_transaction_decode sha (txn_record_bytes tx) = Inr t"
    "ctx_action t = STN_CONTRACT_ACTION_CREATE \<or> st_entry_count (snap_state snapshot) = 0"
  shows "fst (contract_apply_transaction sha ed alloc snapshot lifecycle tx provider) \<noteq> STN_DATA_OK \<and>
    snd (contract_apply_transaction sha ed alloc snapshot lifecycle tx provider) = snapshot"
proof -
  obtain bs where bs: "txn_record_bytes tx = Some bs" using assms(1) by (cases "txn_record_bytes tx") auto
  note dec = assms(1) [unfolded bs]
  show ?thesis
  proof (cases "ctx_action t = STN_CONTRACT_ACTION_CREATE")
    case True
    show ?thesis
      using create_unauthorized [OF dec True, of ed lifecycle "ctx_contract t" provider] True dec bs
      by (auto simp: contract_apply_transaction_def Let_def split: sum.splits)
  next
    case False
    with assms(2) have "live_entries (snap_state snapshot) = []" by (simp add: live_entries_def)
    with False dec bs show ?thesis by (auto simp: contract_apply_transaction_def Let_def)
  qed
qed

lemma contract_refused_empty:
  assumes "st_entry_count (snap_state snapshot) = 0"
  shows "fst (contract_apply_transaction sha ed alloc snapshot lifecycle tx provider) \<noteq> STN_DATA_OK"
proof (cases "stn_contract_transaction_decode sha (txn_record_bytes tx)")
  case (Inl e)
  then show ?thesis by (simp add: contract_apply_transaction_def)
next
  case (Inr t)
  then show ?thesis using create_refused [OF Inr] assms by blast
qed

text \<open>
  C28. No contract can ever be created through a block. A CREATE carries no authority evidence, but
  \<^verbatim>\<open>contract_apply_transaction\<close> asks for the same scoped grant as for every other action, and that is
  refused without evidence; so a CREATE is always refused, whatever the signature, the grants and the
  store. And as a store without contracts has nothing another action could apply to, every contract
  action on it is refused and leaves it as it was: the store of a chain stays empty.
\<close>

theorem contract_create_refused:
  assumes "stn_contract_transaction_decode sha (txn_record_bytes tx) = Inr t"
    "ctx_action t = STN_CONTRACT_ACTION_CREATE \<or> st_entry_count (snap_state snapshot) = 0"
  shows "fst (contract_apply_transaction sha ed alloc snapshot lifecycle tx provider) \<noteq> STN_DATA_OK \<and>
    snd (contract_apply_transaction sha ed alloc snapshot lifecycle tx provider) = snapshot"
  using assms by (rule create_refused)

section \<open>What an accepted action does\<close>

text \<open>The contract and the voters after an action, when the state machine allows it.\<close>

definition contract_action_next ::
  "stn_contract \<Rightarrow> bytes list \<Rightarrow> stn_contract_transaction \<Rightarrow> (stn_contract \<times> bytes list) option" where
  "contract_action_next c vs t =
     (if ctx_action t = STN_CONTRACT_ACTION_APPROVE then
        (if vote_taken_when (the (ctx_contract t)) c vs (ctx_sequence t) (ctx_actor t)
         then Some (voted_contract c vs (ctx_sequence t), vs @ [ctx_actor t]) else None)
      else
        (case stn_contract_apply_action (Some c) (ctx_action t) (ctx_sequence t) of
           Inl _ \<Rightarrow> None
         | Inr d \<Rightarrow> Some (d, vs)))"

definition contract_action_allowed ::
  "stn_hash_fn \<Rightarrow> ed25519 \<Rightarrow> stn_lifecycle_state option \<Rightarrow> stn_hash_provider \<Rightarrow>
   stn_contract_transaction \<Rightarrow> stn_contract_state_store \<Rightarrow> bytes \<Rightarrow>
   bytes \<Rightarrow> stn_contract \<Rightarrow> bytes list \<Rightarrow> stn_contract \<Rightarrow> bytes list \<Rightarrow> bool" where
  "contract_action_allowed sha ed lifecycle provider t s k bs c vs d us \<longleftrightarrow>
     contract_map s k = Some (bs, c, vs) \<and> stn_contract_decode (ctx_contract t) = Inr c \<and>
     contract_authorized sha ed lifecycle t (Some bs) provider = STN_DATA_OK \<and>
     contract_action_next c vs t = Some (d, us)"

lemma entry_facts:
  assumes "store_inv sha s" "i < st_entry_count s" "e = live_entries s ! i"
  obtains d a where "ent_canonical_draft e = Some d" "stn_contract_decode (Some d) = Inr (as_draft (ent_current e))"
    "stn_contract_address sha (Some d) = Inr a" "ent_contract_id e = addr_id a"
    "contract_map s (ent_contract_id e) = Some (d, ent_current e, entry_voters s e)"
proof -
  have "e \<in> set (live_entries s)" using assms length_live_entries by (simp add: store_inv_def)
  then show thesis
    using that contract_map_nth [OF assms(1,2)] assms by (auto simp: store_inv_def entry_ok_def draft_view_iff)
qed

lemma contract_map_entry:
  assumes "store_inv sha s" "contract_map s k = Some (bs, c, vs)"
  obtains i where "i < st_entry_count s" "ent_contract_id (live_entries s ! i) = k"
    "ent_canonical_draft (live_entries s ! i) = Some bs" "ent_current (live_entries s ! i) = c"
    "entry_voters s (live_entries s ! i) = vs"
proof -
  from assms(2) obtain e where "find (\<lambda>e. ent_contract_id e = k) (live_entries s) = Some e"
    by (auto simp: contract_map_def)
  then obtain i where i: "i < length (live_entries s)" "ent_contract_id (live_entries s ! i) = k"
    by (auto simp: find_Some_iff)
  have count: "i < st_entry_count s" using assms(1) i(1) length_live_entries by (simp add: store_inv_def)
  obtain d where "ent_canonical_draft (live_entries s ! i) = Some d"
      "contract_map s k = Some (d, ent_current (live_entries s ! i), entry_voters s (live_entries s ! i))"
    using entry_facts [OF assms(1) count refl] i(2) by metis
  with that [OF count i(2)] assms(2) show thesis by simp
qed

text \<open>The entry an action is for: the first whose draft is that of the submitted contract, the only one.\<close>

lemma lineage_index:
  assumes inv: "store_inv sha s" and i: "i < st_entry_count s" and dec: "stn_contract_decode (Some current) = Inr c"
    and same: "as_draft c = as_draft (ent_current (live_entries s ! i))"
  shows "length (takeWhile (\<lambda>e. stn_contract_lineage_validate (ent_canonical_draft e) (Some current) \<noteq> STN_CONTRACT_OK)
    (live_entries s)) = i"
proof -
  let ?P = "\<lambda>e. stn_contract_lineage_validate (ent_canonical_draft e) (Some current) \<noteq> STN_CONTRACT_OK"
  have len: "i < length (live_entries s)" "distinct (map ent_contract_id (live_entries s))"
    using inv i length_live_entries by (simp_all add: store_inv_def)
  have draft: "\<not> ?P (live_entries s ! j) \<longleftrightarrow> as_draft c = as_draft (ent_current (live_entries s ! j))"
    if j: "j < st_entry_count s" for j
  proof -
    obtain d where "ent_canonical_draft (live_entries s ! j) = Some d"
        "stn_contract_decode (Some d) = Inr (as_draft (ent_current (live_entries s ! j)))"
      using entry_facts [OF inv j refl] by metis
    with dec show ?thesis by (auto simp: lineage_validate_iff)
  qed
  have "?P (live_entries s ! j)" if "j < i" for j
  proof (rule ccontr)
    assume "\<not> ?P (live_entries s ! j)"
    then have eq: "as_draft (ent_current (live_entries s ! j)) = as_draft (ent_current (live_entries s ! i))"
      using draft [of j] that i same by simp
    have j: "j < st_entry_count s" using that i by simp
    obtain d a where d: "stn_contract_decode (Some d) = Inr (as_draft (ent_current (live_entries s ! i)))"
        "stn_contract_address sha (Some d) = Inr a" "ent_contract_id (live_entries s ! i) = addr_id a"
      using entry_facts [OF inv i refl] by metis
    obtain d' a' where d': "stn_contract_decode (Some d') = Inr (as_draft (ent_current (live_entries s ! j)))"
        "stn_contract_address sha (Some d') = Inr a'" "ent_contract_id (live_entries s ! j) = addr_id a'"
      using entry_facts [OF inv j refl] by metis
    have "d' = d" using contract_codec.dec_injective d(1) d'(1) eq by simp
    then have "ent_contract_id (live_entries s ! j) = ent_contract_id (live_entries s ! i)" using d d' by simp
    with len that show False by (auto simp: distinct_conv_nth)
  qed
  moreover have "\<not> ?P (live_entries s ! i)" using draft [OF i] same by simp
  ultimately have "takeWhile ?P (live_entries s) = take i (live_entries s)"
    by (intro takeWhile_eq_take_P_nth) simp_all
  with len(1) show ?thesis by simp
qed

text \<open>The index at which the code stops for the submitted contract, and what it finds there.\<close>

definition action_index :: "stn_contract_state_store \<Rightarrow> bytes \<Rightarrow> nat" where
  "action_index s current =
     length (takeWhile (\<lambda>e. stn_contract_lineage_validate (ent_canonical_draft e) (Some current) \<noteq> STN_CONTRACT_OK)
       (live_entries s))"

lemma action_index_allowed:
  assumes inv: "store_inv sha s" and cur: "ctx_contract t = Some current"
    and allowed: "contract_action_allowed sha ed lifecycle provider t s k bs c vs d us"
  shows "action_index s current < st_entry_count s \<and> ent_contract_id (live_entries s ! action_index s current) = k \<and>
    ent_canonical_draft (live_entries s ! action_index s current) = Some bs \<and>
    ent_current (live_entries s ! action_index s current) = c \<and>
    entry_voters s (live_entries s ! action_index s current) = vs"
proof -
  from allowed have m: "contract_map s k = Some (bs, c, vs)" and c: "stn_contract_decode (Some current) = Inr c"
    by (simp_all add: contract_action_allowed_def cur)
  obtain i where i: "i < st_entry_count s" "ent_contract_id (live_entries s ! i) = k"
      "ent_canonical_draft (live_entries s ! i) = Some bs" "ent_current (live_entries s ! i) = c"
      "entry_voters s (live_entries s ! i) = vs" using contract_map_entry [OF inv m] .
  from lineage_index [OF inv i(1) c] i show ?thesis by (simp add: action_index_def)
qed

lemma action_index_draft:
  assumes inv: "store_inv sha s" and at: "action_index s current < st_entry_count s"
    and c: "stn_contract_decode (Some current) = Inr c"
  shows "as_draft c = as_draft (ent_current (live_entries s ! action_index s current))"
proof -
  have count: "length (live_entries s) = st_entry_count s" using inv by (simp add: store_inv_def length_live_entries)
  have "stn_contract_lineage_validate (ent_canonical_draft (live_entries s ! action_index s current)) (Some current) =
      STN_CONTRACT_OK"
    using at nth_length_takeWhile [of "\<lambda>e. stn_contract_lineage_validate (ent_canonical_draft e)
      (Some current) \<noteq> STN_CONTRACT_OK" "live_entries s"] by (simp add: action_index_def count)
  moreover obtain d where "ent_canonical_draft (live_entries s ! action_index s current) = Some d"
      "stn_contract_decode (Some d) = Inr (as_draft (ent_current (live_entries s ! action_index s current)))"
    using entry_facts [OF inv at refl] by metis
  ultimately show ?thesis using c by (simp add: lineage_validate_iff)
qed

lemma action_call:
  assumes inv: "store_inv sha (snap_state snapshot)"
    and dec: "stn_contract_transaction_decode sha (txn_record_bytes tx) = Inr t"
    and action: "ctx_action t \<noteq> STN_CONTRACT_ACTION_CREATE" and cur: "ctx_contract t = Some current"
  shows "contract_apply_transaction sha ed alloc snapshot (Some lifecycle) tx provider =
    (let s = snap_state snapshot; index = action_index s current; e = live_entries s ! index;
         auth = contract_authorized sha ed (Some lifecycle) t (ent_canonical_draft e) provider
     in if index = st_entry_count s then (STN_DATA_CONTENT, snapshot)
        else case stn_contract_decode (Some current) of Inl _ \<Rightarrow> (STN_DATA_CONTENT, snapshot)
        | Inr c \<Rightarrow>
            if ct_sequence c \<noteq> ct_sequence (ent_current e) \<or> ct_state c \<noteq> ct_state (ent_current e)
            then (STN_DATA_CONTENT, snapshot)
            else if auth \<noteq> STN_DATA_OK then (auth, snapshot)
            else if ctx_action t = STN_CONTRACT_ACTION_APPROVE then
              (case stn_contract_state_apply_vote sha s index (Some current) (ctx_sequence t) (Some (ctx_actor t)) of
                 (status, state) \<Rightarrow> (if status = STN_CONTRACT_OK then STN_DATA_OK
                    else if status = STN_CONTRACT_CAPACITY then STN_DATA_CAPACITY else STN_DATA_CONTENT,
                    snapshot\<lparr>snap_state := state\<rparr>))
            else (case stn_contract_apply_action (Some c) (ctx_action t) (ctx_sequence t) of
                Inl _ \<Rightarrow> (STN_DATA_CONTENT, snapshot)
              | Inr next \<Rightarrow> (STN_DATA_OK, set_entry_current snapshot index next)))"
proof -
  have count: "length (live_entries (snap_state snapshot)) = st_entry_count (snap_state snapshot)"
    using inv by (simp add: store_inv_def length_live_entries)
  show ?thesis
    unfolding contract_apply_transaction_def Let_def dec sum.case cur action_index_def count using action
    by (simp del: stn_contract_apply_action.simps)
qed

text \<open>The entry at the index, as the contract submitted and authorized.\<close>

definition action_entry ::
  "stn_hash_fn \<Rightarrow> ed25519 \<Rightarrow> stn_lifecycle_state \<Rightarrow> stn_hash_provider \<Rightarrow> stn_contract_transaction \<Rightarrow>
   stn_contract_state_store \<Rightarrow> bytes \<Rightarrow> bool" where
  "action_entry sha ed lifecycle provider t s current \<longleftrightarrow> action_index s current < st_entry_count s \<and>
     stn_contract_decode (Some current) = Inr (ent_current (live_entries s ! action_index s current)) \<and>
     contract_authorized sha ed (Some lifecycle) t (ent_canonical_draft (live_entries s ! action_index s current))
       provider = STN_DATA_OK"

lemma action_refused:
  assumes inv: "store_inv sha (snap_state snapshot)"
    and dec: "stn_contract_transaction_decode sha (txn_record_bytes tx) = Inr t"
    and action: "ctx_action t \<noteq> STN_CONTRACT_ACTION_CREATE" and cur: "ctx_contract t = Some current"
    and no: "\<not> action_entry sha ed lifecycle provider t (snap_state snapshot) current"
  shows "fst (contract_apply_transaction sha ed alloc snapshot (Some lifecycle) tx provider) \<noteq> STN_DATA_OK"
    "snd (contract_apply_transaction sha ed alloc snapshot (Some lifecycle) tx provider) = snapshot"
    "\<not> contract_action_allowed sha ed (Some lifecycle) provider t (snap_state snapshot) k bs c vs d us"
proof -
  let ?s = "snap_state snapshot"
  let ?e = "live_entries ?s ! action_index ?s current"
  have count: "length (live_entries ?s) = st_entry_count ?s"
    using inv by (simp add: store_inv_def length_live_entries)
  have le: "action_index ?s current \<le> st_entry_count ?s"
    using length_takeWhile_le by (simp add: action_index_def flip: count)
  note call = action_call [OF inv dec action cur, unfolded Let_def]
  have "fst (contract_apply_transaction sha ed alloc snapshot (Some lifecycle) tx provider) \<noteq> STN_DATA_OK \<and>
      snd (contract_apply_transaction sha ed alloc snapshot (Some lifecycle) tx provider) = snapshot"
  proof (cases "action_index ?s current = st_entry_count ?s \<or> isl (stn_contract_decode (Some current))")
    case True
    then show ?thesis unfolding call by (auto simp: isl_def)
  next
    case False
    then obtain x where x: "stn_contract_decode (Some current) = Inr x" "action_index ?s current < st_entry_count ?s"
      using le by (auto simp: isl_def) (meson sum.exhaust_sel)
    then have "x = ent_current ?e \<or> ct_sequence x \<noteq> ct_sequence (ent_current ?e) \<or> ct_state x \<noteq> ct_state (ent_current ?e)"
      using as_draft_inject action_index_draft [OF inv x(2,1)] by blast
    with x no show ?thesis unfolding call action_entry_def by auto
  qed
  then show "fst (contract_apply_transaction sha ed alloc snapshot (Some lifecycle) tx provider) \<noteq> STN_DATA_OK"
    "snd (contract_apply_transaction sha ed alloc snapshot (Some lifecycle) tx provider) = snapshot" by simp_all
  show "\<not> contract_action_allowed sha ed (Some lifecycle) provider t ?s k bs c vs d us"
  proof
    assume a: "contract_action_allowed sha ed (Some lifecycle) provider t ?s k bs c vs d us"
    from action_index_allowed [OF inv cur a] a no show False
      unfolding contract_action_allowed_def action_entry_def cur by simp
  qed
qed

lemma action_allowed_iff:
  assumes inv: "store_inv sha s" and cur: "ctx_contract t = Some current"
    and e: "action_entry sha ed lifecycle provider t s current"
  obtains draft where
    "ent_canonical_draft (live_entries s ! action_index s current) = Some draft"
    "contract_map s (ent_contract_id (live_entries s ! action_index s current)) =
      Some (draft, ent_current (live_entries s ! action_index s current),
        entry_voters s (live_entries s ! action_index s current))"
    "\<And>k bs c vs d us. contract_action_allowed sha ed (Some lifecycle) provider t s k bs c vs d us \<longleftrightarrow>
      k = ent_contract_id (live_entries s ! action_index s current) \<and> bs = draft \<and>
      c = ent_current (live_entries s ! action_index s current) \<and>
      vs = entry_voters s (live_entries s ! action_index s current) \<and>
      contract_action_next (ent_current (live_entries s ! action_index s current))
        (entry_voters s (live_entries s ! action_index s current)) t = Some (d, us)"
proof -
  let ?e = "live_entries s ! action_index s current"
  have at: "action_index s current < st_entry_count s" using e by (simp add: action_entry_def)
  obtain draft where d: "ent_canonical_draft ?e = Some draft"
      "contract_map s (ent_contract_id ?e) = Some (draft, ent_current ?e, entry_voters s ?e)"
    using entry_facts [OF inv at refl] by metis
  have "contract_action_allowed sha ed (Some lifecycle) provider t s k bs c vs x us \<longleftrightarrow>
      k = ent_contract_id ?e \<and> bs = draft \<and> c = ent_current ?e \<and> vs = entry_voters s ?e \<and>
      contract_action_next (ent_current ?e) (entry_voters s ?e) t = Some (x, us)" for k bs c vs x us
  proof
    assume a: "contract_action_allowed sha ed (Some lifecycle) provider t s k bs c vs x us"
    from action_index_allowed [OF inv cur a] a d show "k = ent_contract_id ?e \<and> bs = draft \<and> c = ent_current ?e \<and>
      vs = entry_voters s ?e \<and> contract_action_next (ent_current ?e) (entry_voters s ?e) t = Some (x, us)" unfolding contract_action_allowed_def by simp
  next
    assume "k = ent_contract_id ?e \<and> bs = draft \<and> c = ent_current ?e \<and> vs = entry_voters s ?e \<and>
      contract_action_next (ent_current ?e) (entry_voters s ?e) t = Some (x, us)"
    then have "k = ent_contract_id ?e" "bs = draft" "c = ent_current ?e" "vs = entry_voters s ?e"
      "contract_action_next (ent_current ?e) (entry_voters s ?e) t = Some (x, us)" by blast+
    with e d show "contract_action_allowed sha ed (Some lifecycle) provider t s k bs c vs x us"
      unfolding contract_action_allowed_def action_entry_def cur by simp
  qed
  with d show thesis by (rule that)
qed

lemma action_moves:
  assumes inv: "store_inv sha (snap_state snapshot)" and at: "index < st_entry_count (snap_state snapshot)"
    and e: "e = live_entries (snap_state snapshot) ! index" "ent_canonical_draft e = Some draft"
    and moved: "stn_contract_apply_action (Some (ent_current e)) action sequence = Inr d"
  shows "store_inv sha (snap_state (set_entry_current snapshot index d))"
    "contract_map (snap_state (set_entry_current snapshot index d)) =
      (contract_map (snap_state snapshot))(ent_contract_id e \<mapsto> (draft, d, entry_voters (snap_state snapshot) e))"
proof -
  let ?s = "snap_state snapshot"
  from moved have same: "as_draft d = as_draft (ent_current e)" "with_spans (ent_current e) d = d"
    by (auto simp: as_draft_def with_spans_def split: if_splits sum.splits)
  have cong: "update_entry ?s index (\<lambda>e. e\<lparr>ent_current := with_spans (ent_current e) d\<rparr>) =
      update_entry ?s index (\<lambda>e. e\<lparr>ent_current := d\<rparr>)"
    using inv at same(2) e(1) by (intro update_entry_cong) (simp_all add: store_inv_def)
  have "contract_map ?s (ent_contract_id e) = Some (draft, ent_current e, entry_voters ?s e)"
    using entry_facts [OF inv at e(1)] e(2) by (metis option.inject)
  with store_set_current [OF inv at e(1) same(1)] cong e(2)
  show "store_inv sha (snap_state (set_entry_current snapshot index d))"
    "contract_map (snap_state (set_entry_current snapshot index d)) =
      (contract_map ?s)(ent_contract_id e \<mapsto> (draft, d, entry_voters ?s e))"
    by (simp_all add: set_entry_current_def)
qed

text \<open>
  C27. What a contract action other than CREATE does. On a store in the invariant it answers OK exactly
  when some registered contract is the one submitted, bit for bit in its current representation, the
  action is authorized for it (a valid signature, and an unrevoked accepted grant for this action on
  this contract's draft) and the state machine or the vote allows it; then that contract moves, every
  other stays, and the invariant holds again. Any other answer leaves the whole snapshot unchanged.
\<close>

theorem contract_action_exact:
  assumes inv: "store_inv sha (snap_state snapshot)"
    and dec: "stn_contract_transaction_decode sha (txn_record_bytes tx) = Inr t"
    and action: "ctx_action t \<noteq> STN_CONTRACT_ACTION_CREATE"
  shows "case contract_apply_transaction sha ed alloc snapshot (Some lifecycle) tx provider of (status, snapshot') \<Rightarrow>
    if status = STN_DATA_OK
    then \<exists>k bs c vs d us.
      contract_action_allowed sha ed (Some lifecycle) provider t (snap_state snapshot) k bs c vs d us \<and>
      store_inv sha (snap_state snapshot') \<and>
      contract_map (snap_state snapshot') = (contract_map (snap_state snapshot))(k \<mapsto> (bs, d, us))
    else snapshot' = snapshot \<and>
      (\<forall>k bs c vs d us.
        \<not> contract_action_allowed sha ed (Some lifecycle) provider t (snap_state snapshot) k bs c vs d us)"
proof -
  let ?s = "snap_state snapshot"
  let ?call = "contract_apply_transaction sha ed alloc snapshot (Some lifecycle) tx provider"
  obtain input where input: "txn_record_bytes tx = Some input" using dec by (cases "txn_record_bytes tx") auto
  obtain cur where cur: "ctx_contract t = Some cur" and actor: "length (ctx_actor t) = 32"
    using action_decode_facts [OF dec [unfolded input]] by (auto simp: wf_ctx_def)
  show ?thesis
  proof (cases "action_entry sha ed lifecycle provider t ?s cur")
    case False
    from action_refused [OF inv dec action cur this] show ?thesis by (simp add: case_prod_beta)
  next
    case True
    let ?i = "action_index ?s cur" and ?e = "live_entries ?s ! action_index ?s cur"
    have at: "?i < st_entry_count ?s" using True by (simp add: action_entry_def)
    obtain draft where d: "ent_canonical_draft ?e = Some draft"
        "contract_map ?s (ent_contract_id ?e) = Some (draft, ent_current ?e, entry_voters ?s ?e)"
      and allowed: "\<And>k bs c vs d us. contract_action_allowed sha ed (Some lifecycle) provider t ?s k bs c vs d us \<longleftrightarrow>
        k = ent_contract_id ?e \<and> bs = draft \<and> c = ent_current ?e \<and> vs = entry_voters ?s ?e \<and>
        contract_action_next (ent_current ?e) (entry_voters ?s ?e) t = Some (d, us)"
      by (rule action_allowed_iff [OF inv cur True]) blast
    note call = action_call [OF inv dec action cur, of ed alloc lifecycle provider, unfolded Let_def]
    show ?thesis
    proof (cases "ctx_action t = STN_CONTRACT_ACTION_APPROVE")
      case approve: True
      have run: "?call = (case stn_contract_state_apply_vote sha ?s ?i (Some cur) (ctx_sequence t) (Some (ctx_actor t)) of
          (status, state) \<Rightarrow> (if status = STN_CONTRACT_OK then STN_DATA_OK
            else if status = STN_CONTRACT_CAPACITY then STN_DATA_CAPACITY else STN_DATA_CONTENT,
            snapshot\<lparr>snap_state := state\<rparr>))"
        unfolding call using True approve by (simp add: action_entry_def)
      note vote = vote_step [OF inv at actor refl, of cur "ctx_sequence t"]
      show ?thesis
      proof (cases "vote_taken_when cur (ent_current ?e) (entry_voters ?s ?e) (ctx_sequence t) (ctx_actor t)")
        case taken: True
        from vote [unfolded if_P [OF taken]] obtain s' where
            "stn_contract_state_apply_vote sha ?s ?i (Some cur) (ctx_sequence t) (Some (ctx_actor t)) = (STN_CONTRACT_OK, s')"
            "store_inv sha s'" "contract_map s' = (contract_map ?s)(ent_contract_id ?e \<mapsto> (draft,
              voted_contract (ent_current ?e) (entry_voters ?s ?e) (ctx_sequence t), entry_voters ?s ?e @ [ctx_actor t]))"
          unfolding d option.sel by blast
        with taken approve cur show ?thesis unfolding run allowed contract_action_next_def by simp
      next
        case refused: False
        from vote [unfolded if_not_P [OF refused]] obtain r where "r \<noteq> STN_CONTRACT_OK"
            "stn_contract_state_apply_vote sha ?s ?i (Some cur) (ctx_sequence t) (Some (ctx_actor t)) = (r, ?s)" by blast
        with refused approve cur show ?thesis unfolding run allowed contract_action_next_def by simp
      qed
    next
      case other: False
      have run: "?call = (case stn_contract_apply_action (Some (ent_current ?e)) (ctx_action t) (ctx_sequence t) of
            Inl _ \<Rightarrow> (STN_DATA_CONTENT, snapshot)
          | Inr next \<Rightarrow> (STN_DATA_OK, set_entry_current snapshot ?i next))"
        unfolding call using True other by (simp add: action_entry_def)
      show ?thesis
        using action_moves [OF inv at refl d(1)] other unfolding run allowed contract_action_next_def
        by (cases "stn_contract_apply_action (Some (ent_current ?e)) (ctx_action t) (ctx_sequence t)") simp_all
    qed
  qed
qed

section \<open>Concrete actions\<close>

definition sample_contract_evidence :: bytes where
  "sample_contract_evidence = [1] @ (2 # replicate 31 0) @ ([1, 0x43, 0, 3] @ replicate 28 0) @ ([1, 0x43] @ replicate 30 9)"

definition sample_action :: "u16 \<Rightarrow> u64 \<Rightarrow> bytes \<Rightarrow> bytes option \<Rightarrow> stn_contract_transaction" where
  "sample_action action sequence contract evidence =
     \<lparr>ctx_version = 1, ctx_action = action, ctx_sequence = sequence, ctx_contract = Some contract,
      ctx_contract_length = 68, ctx_actor = 2 # replicate 31 0, ctx_signature = (2 # replicate 31 0) @ replicate 32 0,
      ctx_evidence = evidence, ctx_evidence_length = (if evidence = None then 0 else 97)\<rparr>"

definition sample_action_tx :: "stn_contract_transaction \<Rightarrow> stn_transaction" where
  "sample_action_tx t = \<lparr>txn_version = 1, txn_type = 5, txn_record_bytes = Some (ctx_layout t),
     txn_record_length = of_nat (length (ctx_layout t))\<rparr>"

definition sample_authority :: stn_lifecycle_state where
  "sample_authority = sample_lifecycle\<lparr>lc_grants := \<lparr>consumed = Some [[1] @ (2 # replicate 31 0) @
     sample_contract_evidence @ replicate 64 0], consumed_count = 1, consumed_capacity = 1\<rparr>\<rparr>"

lemma sample_action_decode:
  assumes "wf_ctx t" "ctx_ok sample_sha t" "116 + unat (ctx_contract_length t) + unat (ctx_evidence_length t) \<le> 66869"
  shows "stn_contract_transaction_decode sample_sha (txn_record_bytes (sample_action_tx t)) = Inr t"
  unfolding sample_action_tx_def stn_transaction.simps
  by (rule ctx_codec.dec_enc [OF assms(1)]) (use assms in \<open>simp add: ctx_encode_iff\<close>)

theorem contract_create_refused_witness:
  "\<exists>bs. fst (contract_apply_transaction sample_sha sample_ed True (the (stn_contract_snapshot_create True))
       (Some sample_authority) (sample_action_tx (sample_action 1 0 bs None)) (Some sample_sha)) \<noteq> STN_DATA_OK \<and>
     stn_contract_transaction_decode sample_sha (txn_record_bytes (sample_action_tx (sample_action 1 0 bs None))) =
       Inr (sample_action 1 0 bs None)"
proof -
  obtain bs d where bs: "draft_view (Some bs) = Inr d" "approvers d = [2 # replicate 31 0]" "length bs = 68"
      "stn_contract_address sample_sha (Some bs) =
        Inr \<lparr>addr_type = STN_ADDRESS_CONTRACT, addr_id = replicate 32 9\<rparr>"
    using sample_draft [of "2 # replicate 31 0"] by auto
  have admitted: "create_admission_valid sample_sha STN_CONTRACT_ACTION_CREATE (Some bs) = STN_CONTRACT_OK"
  proof -
    have "stn_contract_vote_state_initialize sample_sha (Some bs) None 0 =
        Inr \<lparr>vote_contract_id = replicate 32 9, vote_keys = key_buffer_initialize None 0,
          eligible_count = 1, required_count = 1\<rparr>"
      using bs by (simp add: vote_initialize_iff)
    then show ?thesis by (simp add: create_admission_valid_def)
  qed
  have "stn_contract_transaction_decode sample_sha (txn_record_bytes (sample_action_tx (sample_action 1 0 bs None))) =
      Inr (sample_action 1 0 bs None)"
  proof (rule sample_action_decode)
    show "wf_ctx (sample_action 1 0 bs None)" using bs(3) by (simp add: wf_ctx_def sample_action_def)
    show "ctx_ok sample_sha (sample_action 1 0 bs None)"
      using bs(1) admitted by (simp add: ctx_ok_def sample_action_def action_valid_def authority_length_valid_def
          draft_view_iff stn_contract_validate_structure_def)
  qed (simp add: sample_action_def)
  moreover have "ctx_action (sample_action 1 0 bs None) = STN_CONTRACT_ACTION_CREATE"
    by (simp add: sample_action_def)
  ultimately show ?thesis
    using contract_create_refused [where t = "sample_action 1 0 bs None"] by blast
qed

lemma sample_contract_authorized:
  assumes "stn_contract_address sample_sha (Some bs) = Inr \<lparr>addr_type = STN_ADDRESS_CONTRACT, addr_id = replicate 32 9\<rparr>"
    "stn_contract_decode (Some current) = Inr c" "length current = 68"
  shows "contract_authorized sample_sha sample_ed (Some sample_authority)
    (sample_action 3 1 current (Some sample_contract_evidence)) (Some bs) (Some sample_sha) = STN_DATA_OK"
proof -
  let ?k = "2 # replicate 31 (0 :: 8 word)" and ?e = sample_contract_evidence
  let ?g = "[1] @ ?k @ ?e @ replicate 64 0"
  have derive: "stn_identity_derive (Some ?k) = Inr ?k" by (simp add: sample_key_canonical)
  have "stn_identity_verify sample_ed (Some ?k) (Some m) (Some (?k @ replicate 32 0)) 64 = STN_IDENTITY_VALID" for m
    using sample_key_canonical by (simp add: stn_identity_verify_def sample_ed_def nonzero_iff)
  moreover have "stn_identity_statement (Some u) (length current + 32 + 2 + 8)
      (STN_IDENTITY_DOMAIN_SIZE + STN_CONTRACT_MAX_SIZE + 32 + 2 + 8) \<noteq> Inl x" for u x
    using assms(3) by (simp add: stn_identity_statement_def)
  ultimately have signed: "stn_contract_signature_verify sample_ed (Some ?k) 3 (Some current) 1
      (Some (?k @ replicate 32 0)) = STN_CONTRACT_OK"
    using assms(2) derive by (auto simp: stn_contract_signature_verify_def Let_def contract_action_valid_def
        stn_contract_validate_structure_def simp del: stn_identity_derive.simps split: sum.splits)
  have "stn_contract_authority_evaluate sample_sha (Some ?k) 3 (Some bs) (Some ?e) 97 = STN_CONTRACT_OK"
    using assms(1) derive
    by (simp add: stn_contract_authority_evaluate_def stn_contract_authority_action_def contract_action_valid_def
        stn_contract_authority_context_def stn_authority_evaluate_def stn_authority_action_validate_def
        stn_authority_context_validate_def sample_contract_evidence_def nonzero_iff del: stn_identity_derive.simps)
  moreover have "contract_grants (lc_authority sample_authority) ?e (Some sample_sha) [?g] = STN_DATA_OK"
  proof -
    have "take 97 (drop 33 ?g) = ?e" by (simp add: sample_contract_evidence_def)
    moreover have "\<exists>i. stn_authority_grant_id (Some ?g) (Some sample_sha) = Inr i"
      by (simp add: stn_authority_grant_id_def sample_contract_evidence_def sample_sha_def nonzero_iff
          stn_authority_action_validate_def stn_authority_context_validate_def derive del: stn_identity_derive.simps)
    moreover have "\<not> stn_authority_state_is_revoked (lc_authority sample_authority) (Some i)" for i
      by (simp add: is_revoked_iff sample_authority_def sample_lifecycle_def stn_lifecycle_initialize_def
          stn_authority_state_initialize_def revoked_def authority_wf_def)
    ultimately show ?thesis by auto
  qed
  ultimately show ?thesis
    using signed by (simp add: contract_authorized_def sample_action_def sample_authority_def accepted_def)
qed

theorem contract_action_exact_witness:
  "\<exists>snapshot bs c d current. contract_map (snap_state snapshot) = [replicate 32 9 \<mapsto> (bs, c, [])] \<and>
     ct_state c = STN_CONTRACT_STATE_REVIEW \<and>
     (case contract_apply_transaction sample_sha sample_ed True snapshot (Some sample_authority)
         (sample_action_tx (sample_action 3 1 current (Some sample_contract_evidence))) (Some sample_sha) of
       (status, snapshot') \<Rightarrow> status = STN_DATA_OK \<and>
         contract_map (snap_state snapshot') = [replicate 32 9 \<mapsto> (bs, d, [2 # replicate 31 0])])"
proof -
  let ?k = "2 # replicate 31 (0 :: 8 word)" and ?i = "replicate 32 (9 :: 8 word)"
  obtain s bs c current where s: "store_inv sample_sha s" "st_entry_count s = 1"
      "contract_map s = [?i \<mapsto> (bs, c, [])]" "ct_state c = STN_CONTRACT_STATE_REVIEW" "ct_sequence c = 0"
      "approvers c = [?k]" "stn_contract_decode (Some current) = Inr c" "length current = 68"
      "stn_contract_address sample_sha (Some bs) = Inr \<lparr>addr_type = STN_ADDRESS_CONTRACT, addr_id = ?i\<rparr>"
    using sample_review by blast
  let ?t = "sample_action 3 1 current (Some sample_contract_evidence)"
    and ?snap = "\<lparr>snap_state = s, snap_draft_bytes = bs\<rparr>"
  have dec: "stn_contract_transaction_decode sample_sha (txn_record_bytes (sample_action_tx ?t)) = Inr ?t"
  proof (rule sample_action_decode)
    show "wf_ctx ?t" using s(8) by (simp add: wf_ctx_def sample_action_def sample_contract_evidence_def)
    show "ctx_ok sample_sha ?t"
      using s(7) by (simp add: ctx_ok_def sample_action_def action_valid_def authority_length_valid_def
          stn_contract_validate_structure_def create_admission_valid_def sample_contract_evidence_def
          stn_authority_action_validate_def stn_authority_context_validate_def nonzero_iff
          del: stn_identity_derive.simps)
  qed (simp add: sample_action_def)
  have derive: "stn_identity_derive (Some ?k) = Inr ?k" by (simp add: sample_key_canonical)
  have "vote_taken_when current c [] 1 ?k"
    using s(4-7) derive by (simp add: vote_taken_when_def UINT64_LAST_def del: stn_identity_derive.simps)
  then have next_state: "contract_action_next c [] ?t = Some (voted_contract c [] 1, [?k])"
    by (simp add: contract_action_next_def sample_action_def)
  have allowed: "contract_action_allowed sample_sha sample_ed (Some sample_authority) (Some sample_sha) ?t s ?i bs c []
      (voted_contract c [] 1) [?k]"
    using s(3,7) sample_contract_authorized [OF s(9,7,8)] next_state
    by (simp add: contract_action_allowed_def sample_action_def)
  have only: "k = ?i \<and> bs' = bs \<and> d = voted_contract c [] 1 \<and> us = [?k]"
    if "contract_action_allowed sample_sha sample_ed (Some sample_authority) (Some sample_sha) ?t s k bs' c' vs d us"
    for k bs' c' vs d us
    using that s(3) next_state by (auto simp: contract_action_allowed_def split: if_splits)
  note exact = contract_action_exact [where snapshot = ?snap and tx = "sample_action_tx ?t" and alloc = True and
      lifecycle = sample_authority and provider = "Some sample_sha" and ed = sample_ed, OF _ dec]
  obtain status snap' where call: "contract_apply_transaction sample_sha sample_ed True ?snap (Some sample_authority)
      (sample_action_tx ?t) (Some sample_sha) = (status, snap')" by fastforce
  have "ctx_action ?t \<noteq> STN_CONTRACT_ACTION_CREATE" by (simp add: sample_action_def)
  with exact allowed have ok: "status = STN_DATA_OK" by (auto simp: call s(1) split: if_splits)
  with exact \<open>ctx_action ?t \<noteq> STN_CONTRACT_ACTION_CREATE\<close> obtain k bs' c' vs d us where
      "contract_action_allowed sample_sha sample_ed (Some sample_authority) (Some sample_sha) ?t s k bs' c' vs d us"
      "contract_map (snap_state snap') = (contract_map s)(k \<mapsto> (bs', d, us))"
    by (auto simp: call s(1))
  with only s(3) have "contract_map (snap_state snap') = [?i \<mapsto> (bs, voted_contract c [] 1, [?k])]" by fastforce
  with ok s(3,4) call have "contract_map (snap_state ?snap) = [?i \<mapsto> (bs, c, [])] \<and>
     ct_state c = STN_CONTRACT_STATE_REVIEW \<and>
     (case contract_apply_transaction sample_sha sample_ed True ?snap (Some sample_authority)
         (sample_action_tx ?t) (Some sample_sha) of
       (status, snapshot') \<Rightarrow> status = STN_DATA_OK \<and>
         contract_map (snap_state snapshot') = [?i \<mapsto> (bs, voted_contract c [] 1, [?k])])" by simp
  then show ?thesis
    by (intro exI [of _ ?snap] exI [of _ bs] exI [of _ c] exI [of _ "voted_contract c [] 1"] exI [of _ current])
qed

end
