(* ===== verification/Stn_Chain_State.thy ===== *)
theory Stn_Chain_State
  imports Stn_Chain_Contract Stn_Publication Stn_Retarget Stn_Reward Stn_Share Stn_Acceptance
begin

text \<open>
  The state of a chain, \<^verbatim>\<open>stn_chain_context\<close> and \<^verbatim>\<open>stn_chain_state\<close> of \<^verbatim>\<open>src/includes/stn_chain.h\<close>,
  with the checks of \<^verbatim>\<open>src/src/stn_chain.c\<close> on a context and on a prior state, the initial state,
  the required target of the next block, and the private copies a candidate works on. Snapshots are
  held by value, so reference counts and the \<open>has_tip\<close> values other than 0 and 1 do not appear; a
  failing allocation is a parameter.
\<close>

section \<open>Context and state\<close>

record stn_chain_context =
  cx_network_id :: bytes
  cx_genesis_bytes :: "bytes option"
  cx_authority_roots :: "bytes list option"
  cx_authority_root_count :: nat
  cx_initial_identities :: "bytes list option"
  cx_initial_identity_count :: nat
  cx_hash_provider :: stn_hash_provider
  cx_pow_policy :: "bytes option"

text \<open>The economic state with its envelope replay keys (\<^verbatim>\<open>stn_chain_economic_owned\<close>).\<close>

record stn_chain_economic_owned =
  own_state :: stn_economic_state
  own_replay :: key_buffer

record stn_chain_state =
  cs_network_id :: bytes
  cs_genesis_id :: bytes
  cs_tip_id :: bytes
  cs_height :: u64
  cs_timestamp :: u64
  cs_has_tip :: bool
  cs_current_target :: bytes
  cs_cumulative_work :: stn_work
  cs_target_history :: "stn_block_header list"
  cs_lifecycle :: "stn_lifecycle_state option"
  cs_contracts :: "stn_contract_snapshot option"
  cs_shares :: "key_buffer option"
  cs_block_compensation :: "stn_block_compensation_replay option"
  cs_compensation :: "stn_compensation_state option"
  cs_economy :: "stn_chain_economic_owned option"
  cs_activation :: u64

text \<open>The frozen checksums of the legacy genesis blocks and their activation heights.\<close>

definition legacy_genesis :: "(bytes \<times> u64) list" where
  "legacy_genesis =
    [([0x24,0xbc,0x21,0x9f,0xb3,0xf7,0x16,0xa8,0x27,0x92,0xaa,0x47,0xc0,0x08,0xcb,0xe7,0x05,0x80,0xa6,0x80,0x33,0xbd,0xda,0x29,0x57,0x25,0x84,0xb9,0xdf,0xc9,0x04,0x80],64),
     ([0x28,0xcb,0xfd,0xf9,0xc3,0xdb,0x7a,0xf6,0x93,0x79,0x08,0x21,0x65,0xb0,0xc5,0x0c,0x7d,0xe9,0x30,0x6c,0x04,0x88,0xec,0x7e,0xeb,0x1f,0x17,0xbe,0x34,0xe1,0xf1,0x27],122),
     ([0x50,0x1d,0xfd,0xe9,0x85,0xd3,0xda,0x8a,0x56,0xc9,0x32,0x05,0x4e,0xc0,0x05,0x25,0x39,0x0c,0x44,0xcf,0xf2,0xd8,0x37,0x01,0x18,0x33,0x9f,0x72,0xc7,0xbc,0xd8,0x0d],130),
     ([0x5a,0x1c,0x87,0x3c,0x0e,0xe5,0xa1,0x0e,0x92,0xb7,0x3f,0x00,0x85,0x48,0x38,0x4e,0xa7,0xd9,0x2a,0x07,0x9c,0xb1,0x92,0x8d,0xd4,0x8a,0x28,0xfa,0x31,0x7a,0x10,0x5e],61),
     ([0x79,0xa2,0x73,0x0e,0x6b,0xb2,0x6c,0xbf,0xb1,0xb2,0x7e,0xa5,0xca,0x8e,0xbd,0x99,0x11,0x1a,0xe6,0xd3,0xcf,0xe1,0x33,0x38,0x44,0xa6,0xe9,0xd4,0x08,0x10,0x5e,0xc3],61),
     ([0x93,0xd7,0xa8,0x97,0xf6,0x14,0x25,0x56,0x25,0x37,0x15,0x90,0x90,0x0c,0x21,0x81,0x46,0xc9,0xd6,0xe1,0xeb,0xb7,0xea,0x24,0x90,0x30,0x2a,0x47,0xd3,0x2f,0x71,0x27],61),
     ([0xae,0x8c,0x12,0xac,0x05,0xaf,0xa8,0xde,0x04,0x3f,0x9a,0x52,0x99,0x68,0xc6,0x94,0xad,0x53,0x33,0x0d,0x50,0xbb,0x14,0x99,0xed,0xbd,0xb3,0xc8,0xfa,0x4e,0xb0,0x4d],61)]"

definition stn_chain_publication_activation :: "stn_hash_fn \<Rightarrow> stn_chain_context \<Rightarrow> u64 data_result" where
  "stn_chain_publication_activation sha c =
     (case cx_genesis_bytes c of
        None \<Rightarrow> Inl STN_DATA_ARGUMENT
      | Some genesis \<Rightarrow>
          (case sha [] genesis of
             Inl _ \<Rightarrow> Inl STN_DATA_PROVIDER_ERROR
           | Inr digest \<Rightarrow>
               (case find (\<lambda>(g, _). memcmp digest g = 0) legacy_genesis of
                  None \<Rightarrow> Inr 1
                | Some (_, height) \<Rightarrow> Inr height)))"

section \<open>Checks of a context\<close>

fun initial_loop :: "bytes option \<Rightarrow> bytes list \<Rightarrow> bool" where
  "initial_loop prev [] = True"
| "initial_loop prev (k # ks) =
     (case stn_identity_derive (Some k) of
        Inl _ \<Rightarrow> False
      | Inr c \<Rightarrow>
          if memcmp c k \<noteq> 0 then False
          else if (case prev of None \<Rightarrow> False | Some p \<Rightarrow> memcmp p k \<ge> 0) then False
          else initial_loop (Some k) ks)"

definition initial_set_valid :: "bytes list option \<Rightarrow> nat \<Rightarrow> stn_data_status" where
  "initial_set_valid ids count =
     (if count > STN_GENESIS_INITIAL_IDENTITY_MAX \<or> (count \<noteq> 0 \<and> ids = None) then STN_DATA_CONTENT
      else if initial_loop None (take count (case ids of None \<Rightarrow> [] | Some xs \<Rightarrow> xs)) then STN_DATA_OK
      else STN_DATA_CONTENT)"

definition context_valid :: "stn_hash_fn \<Rightarrow> stn_chain_context \<Rightarrow> stn_data_status" where
  "context_valid sha c =
     (if cx_genesis_bytes c = None then STN_DATA_ARGUMENT
      else if stn_authority_root_set_validate (cx_authority_roots c) (cx_authority_root_count c) \<noteq>
        STN_AUTHORITY_AUTHORIZED then STN_DATA_CONTENT
      else if initial_set_valid (cx_initial_identities c) (cx_initial_identity_count c) \<noteq> STN_DATA_OK
      then STN_DATA_CONTENT
      else
        (case stn_block_decode sha (cx_genesis_bytes c) of
           Inl _ \<Rightarrow> STN_DATA_CONTENT
         | Inr b \<Rightarrow>
             if bh_height (blk_header b) \<noteq> 0 \<or>
               memcmp (bh_network_id (blk_header b)) (cx_network_id c) \<noteq> 0 then STN_DATA_CONTENT
             else
               (case cx_pow_policy c of
                  Some fixed_target \<Rightarrow>
                    if bh_version (blk_header b) \<noteq> STN_POW_BLOCK_VERSION \<or>
                      stn_target_validate (Some fixed_target) \<noteq> STN_DATA_OK \<or>
                      memcmp (bh_reserved_target (blk_header b)) fixed_target \<noteq> 0
                    then STN_DATA_TARGET else STN_DATA_OK
                | None \<Rightarrow> if bh_version (blk_header b) \<noteq> 1 then STN_DATA_VERSION else STN_DATA_OK)))"

section \<open>The initial state\<close>

text \<open>
  The allocations a call makes, for the failures that \<^verbatim>\<open>calloc\<close> and \<^verbatim>\<open>malloc\<close> may answer.
  \<open>Site_share_state\<close> is not an allocation: \<^verbatim>\<open>stn_chain_state_share\<close> fails when a snapshot's
  reference count is 0 or SIZE_MAX. Snapshots are values here and have no counts, so this failure is
  left open, and the theorems hold whether it happens or not; none rests on its happening.
\<close>

datatype chain_site =
    Site_lifecycle | Site_contracts | Site_shares | Site_compensation | Site_block_compensation
  | Site_economy | Site_share_state | Site_draft nat | Site_statement nat | Site_balances nat

type_synonym chain_alloc = "chain_site \<Rightarrow> bool"

definition share_new :: key_buffer where
  "share_new = stn_share_replay_initialize None 0"

definition block_compensation_new :: stn_block_compensation_replay where
  "block_compensation_new = stn_block_compensation_replay_initialize"

definition compensation_new :: stn_compensation_state where
  "compensation_new = \<lparr>comp_entries = None, comp_count = 0, comp_capacity = 0\<rparr>"

definition economic_new :: stn_chain_economic_owned where
  "economic_new = \<lparr>own_state = \<lparr>balances = None, balance_count = 0, balance_capacity = 0, total_supply = 0\<rparr>,
     own_replay = key_buffer_initialize None 0\<rparr>"

definition lifecycle_new :: "stn_chain_context \<Rightarrow> stn_lifecycle_state" where
  "lifecycle_new c =
     (let initial = (if cx_initial_identity_count c \<noteq> 0 then hd (the (cx_initial_identities c))
            else replicate 32 0)
      in stn_lifecycle_set_initial_identities
           (stn_lifecycle_initialize None 0 None 0 initial)
           (cx_initial_identities c) (cx_initial_identity_count c))"

definition empty_state :: "bytes \<Rightarrow> u64 \<Rightarrow> stn_chain_state" where
  "empty_state network activation =
     \<lparr>cs_network_id = network, cs_genesis_id = replicate 32 0, cs_tip_id = replicate 32 0, cs_height = 0,
      cs_timestamp = 0, cs_has_tip = False, cs_current_target = replicate 32 0,
      cs_cumulative_work = zero_work, cs_target_history = [], cs_lifecycle = None,
      cs_contracts = None, cs_shares = None, cs_block_compensation = None, cs_compensation = None,
      cs_economy = None, cs_activation = activation\<rparr>"

definition stn_chain_initialize ::
  "stn_hash_fn \<Rightarrow> chain_alloc \<Rightarrow> stn_chain_context \<Rightarrow> stn_chain_state data_result" where
  "stn_chain_initialize sha alloc c =
     (let status = context_valid sha c
      in if status \<noteq> STN_DATA_OK then Inl status
         else
           (case stn_chain_publication_activation sha c of
              Inl status \<Rightarrow> Inl status
            | Inr activation \<Rightarrow>
                if \<not> alloc Site_lifecycle then Inl STN_DATA_CAPACITY
                else
                  (case stn_contract_snapshot_create (alloc Site_contracts) of
                     None \<Rightarrow> Inl STN_DATA_CAPACITY
                   | Some contracts \<Rightarrow>
                       if \<not> alloc Site_shares then Inl STN_DATA_CAPACITY
                       else if \<not> alloc Site_compensation then Inl STN_DATA_CAPACITY
                       else if \<not> alloc Site_block_compensation then Inl STN_DATA_CAPACITY
                       else if \<not> alloc Site_economy then Inl STN_DATA_CAPACITY
                       else Inr ((empty_state (cx_network_id c) activation)
                         \<lparr>cs_lifecycle := Some (lifecycle_new c), cs_contracts := Some contracts,
                          cs_shares := Some share_new, cs_compensation := Some compensation_new,
                          cs_block_compensation := Some block_compensation_new,
                          cs_economy := Some economic_new\<rparr>))))"

section \<open>Checks of a prior state\<close>

definition zero_work_bytes :: "stn_work \<Rightarrow> bool" where
  "zero_work_bytes w \<longleftrightarrow> zero32 (take 32 (work_bytes w)) \<and> zero32 (drop 8 (work_bytes w))"

text \<open>The target and the work of a prior state: none before the genesis, exact below height 60.\<close>

definition prior_work :: "stn_chain_context \<Rightarrow> stn_chain_state \<Rightarrow> stn_data_status" where
  "prior_work c s =
     (case (if cs_has_tip s then cx_pow_policy c else None) of
        None \<Rightarrow>
          if \<not> zero32 (cs_current_target s) \<or> \<not> zero_work_bytes (cs_cumulative_work s)
          then STN_DATA_CONTENT else STN_DATA_OK
      | Some fixed_target \<Rightarrow>
          if stn_target_validate (Some (cs_current_target s)) \<noteq> STN_DATA_OK \<or>
            zero_work_bytes (cs_cumulative_work s) then STN_DATA_CONTENT
          else if cs_height s < 60 then
            (case stn_work_at_height fixed_target (cs_height s) of
               Inl status \<Rightarrow> status
             | Inr expected \<Rightarrow>
                 if memcmp (cs_current_target s) fixed_target \<noteq> 0 \<or>
                   memcmp (work_bytes (cs_cumulative_work s)) (work_bytes expected) \<noteq> 0
                 then STN_DATA_CONTENT else STN_DATA_OK)
          else STN_DATA_OK)"

definition prior_tip :: "stn_hash_fn \<Rightarrow> stn_chain_context \<Rightarrow> stn_chain_state \<Rightarrow> stn_data_status" where
  "prior_tip sha c s =
     (if \<not> cs_has_tip s then
        (if cs_height s = 0 \<and> cs_timestamp s = 0 \<and> zero32 (cs_tip_id s) \<and> zero32 (cs_genesis_id s)
         then STN_DATA_OK else STN_DATA_CONTENT)
      else
        (case stn_chain_block_id sha (cx_genesis_bytes c) (cx_hash_provider c) of
           Inl status \<Rightarrow> status
         | Inr anchor \<Rightarrow>
             if zero32 anchor \<or> zero32 (cs_tip_id s) \<or> memcmp anchor (cs_genesis_id s) \<noteq> 0
             then STN_DATA_CONTENT
             else
               (case stn_block_decode sha (cx_genesis_bytes c) of
                  Inl status \<Rightarrow> status
                | Inr genesis \<Rightarrow>
                    if cs_timestamp s < bh_timestamp (blk_header genesis) \<or>
                      (cs_height s = 0 \<and> (memcmp (cs_tip_id s) anchor \<noteq> 0 \<or>
                         cs_timestamp s \<noteq> bh_timestamp (blk_header genesis)))
                    then STN_DATA_CONTENT else STN_DATA_OK)))"

definition prior_valid :: "stn_hash_fn \<Rightarrow> stn_chain_context \<Rightarrow> stn_chain_state \<Rightarrow> stn_data_status" where
  "prior_valid sha c s =
     (case stn_chain_publication_activation sha c of
        Inl status \<Rightarrow> status
      | Inr activation \<Rightarrow>
          if cs_activation s \<noteq> activation then STN_DATA_CONTENT
          else if memcmp (cs_network_id s) (cx_network_id c) \<noteq> 0 then STN_DATA_CONTENT
          else if (case cs_block_compensation s of None \<Rightarrow> True
            | Some r \<Rightarrow> bcr_count r > STN_BLOCK_COMPENSATION_REPLAY_CAPACITY) then STN_DATA_CONTENT
          else if (case cs_economy s of None \<Rightarrow> True | Some e \<Rightarrow> \<not> buffer_valid (own_replay e))
          then STN_DATA_CONTENT
          else
            (let status = prior_work c s
             in if status \<noteq> STN_DATA_OK then status else prior_tip sha c s))"

section \<open>The required target\<close>

text \<open>The loop over the target history: consecutive heights, one target, times that do not fall.\<close>

fun target_history_ok :: "u64 \<Rightarrow> bytes \<Rightarrow> u64 option \<Rightarrow> stn_block_header list \<Rightarrow> bool" where
  "target_history_ok height current prev [] = True"
| "target_history_ok height current prev (h # hs) =
     (if bh_height h \<noteq> height \<or> bh_version h \<noteq> 3 \<or> memcmp (bh_reserved_target h) current \<noteq> 0 \<or>
        (case prev of None \<Rightarrow> False | Some t \<Rightarrow> bh_timestamp h < t)
      then False
      else target_history_ok (height + 1) current (Some (bh_timestamp h)) hs)"

definition stn_chain_required_target ::
  "stn_hash_fn \<Rightarrow> stn_chain_context \<Rightarrow> stn_chain_state \<Rightarrow> bytes data_result" where
  "stn_chain_required_target sha c prior =
     (let status = context_valid sha c
      in if status \<noteq> STN_DATA_OK then Inl status
         else
           (case cx_pow_policy c of
              None \<Rightarrow> Inl STN_DATA_UNRESOLVED
            | Some fixed_target \<Rightarrow>
                (let status = prior_valid sha c prior
                 in if status \<noteq> STN_DATA_OK then Inl status
                    else if cs_has_tip prior \<and> cs_height prior = 18446744073709551615
                    then Inl STN_DATA_OVERFLOW
                    else
                      (let height = (if cs_has_tip prior then cs_height prior + 1 else 0);
                           history = cs_target_history prior;
                           count = length history
                       in if count \<noteq> (if cs_has_tip prior then unat (cs_height prior mod 60) + 1 else 0)
                          then Inl STN_DATA_CONTENT
                          else if \<not> target_history_ok (height - of_nat count) (cs_current_target prior) None history
                          then Inl STN_DATA_CONTENT
                          else if count \<noteq> 0 \<and> bh_timestamp (history ! (count - 1)) \<noteq> cs_timestamp prior
                          then Inl STN_DATA_CONTENT
                          else if height \<noteq> 0 \<and> height mod 60 = 0
                          then stn_target_next height (Some fixed_target) (Some history) count
                          else stn_target_next height (Some fixed_target)
                            (if count = 0 then None else Some (drop (count - 1) history))
                            (if count = 0 then 0 else 1)))))"

section \<open>Private copies for a candidate\<close>

text \<open>
  Each copy has room for one more entry per transaction of a block. The overflow tests against
  \<^verbatim>\<open>sizeof\<close> of the C objects are part of the allocation's outcome.
\<close>

definition STN_REPLAY_ID_SIZE :: nat where "STN_REPLAY_ID_SIZE = 64"
definition STN_SHARE_REPLAY_KEY_SIZE :: nat where "STN_SHARE_REPLAY_KEY_SIZE = 72"
definition STN_TRANSFER_ENVELOPE_REPLAY_KEY_SIZE :: nat where "STN_TRANSFER_ENVELOPE_REPLAY_KEY_SIZE = 64"

definition buffer_clone :: "bytes \<Rightarrow> key_buffer \<Rightarrow> key_buffer" where
  "buffer_clone blank b =
     (let capacity = consumed_count b + STN_BLOCK_MAX_TRANSACTIONS
      in \<lparr>consumed = Some (accepted b @ replicate STN_BLOCK_MAX_TRANSACTIONS blank),
          consumed_count = consumed_count b, consumed_capacity = capacity\<rparr>)"

definition lifecycle_clone :: "bool \<Rightarrow> stn_chain_state \<Rightarrow> stn_lifecycle_state option" where
  "lifecycle_clone alloc s =
     (case cs_lifecycle s of
        None \<Rightarrow> None
      | Some l \<Rightarrow>
          if consumed_count (lc_grants l) > SIZE_MAX - STN_BLOCK_MAX_TRANSACTIONS \<or>
            consumed_count (lc_replay l) > SIZE_MAX - STN_BLOCK_MAX_TRANSACTIONS then None
          else
            (let grants = consumed_count (lc_grants l) + STN_BLOCK_MAX_TRANSACTIONS;
                 replays = consumed_count (lc_replay l) + STN_BLOCK_MAX_TRANSACTIONS
             in if grants > SIZE_MAX div STN_AUTHORITY_GRANT_SIZE \<or> replays > SIZE_MAX div STN_REPLAY_ID_SIZE
                then None
                else if \<not> alloc then None
                else Some (stn_lifecycle_rebind l
                  (Some (accepted (lc_grants l) @ replicate STN_BLOCK_MAX_TRANSACTIONS
                     (replicate STN_AUTHORITY_GRANT_SIZE 0))) grants
                  (Some (accepted (lc_replay l) @ replicate STN_BLOCK_MAX_TRANSACTIONS
                     (replicate STN_REPLAY_ID_SIZE 0))) replays)))"

definition share_clone :: "bool \<Rightarrow> stn_chain_state \<Rightarrow> key_buffer option" where
  "share_clone alloc s =
     (case cs_shares s of
        None \<Rightarrow> None
      | Some b \<Rightarrow>
          if consumed_count b > consumed_capacity b \<or>
            consumed_count b > SIZE_MAX - STN_BLOCK_MAX_TRANSACTIONS then None
          else if consumed_count b + STN_BLOCK_MAX_TRANSACTIONS > SIZE_MAX div STN_SHARE_REPLAY_KEY_SIZE then None
          else if \<not> alloc then None
          else Some (buffer_clone (replicate STN_SHARE_REPLAY_KEY_SIZE 0) b))"

definition block_compensation_clone :: "bool \<Rightarrow> stn_chain_state \<Rightarrow> stn_block_compensation_replay option" where
  "block_compensation_clone alloc s =
     (case cs_block_compensation s of
        None \<Rightarrow> None
      | Some r \<Rightarrow>
          if bcr_count r > STN_BLOCK_COMPENSATION_REPLAY_CAPACITY then None
          else if \<not> alloc then None
          else sum_right (stn_block_compensation_replay_copy r))"

definition compensation_clone :: "bool \<Rightarrow> stn_chain_state \<Rightarrow> stn_compensation_state option" where
  "compensation_clone alloc s =
     (case cs_compensation s of
        None \<Rightarrow> None
      | Some m \<Rightarrow>
          if comp_count m > comp_capacity m \<or> comp_count m > SIZE_MAX - STN_BLOCK_MAX_TRANSACTIONS then None
          else if \<not> alloc then None
          else Some \<lparr>comp_entries = Some (comp_live m), comp_count = comp_count m,
            comp_capacity = comp_count m + STN_BLOCK_MAX_TRANSACTIONS\<rparr>)"

definition economic_clone :: "bool \<Rightarrow> stn_chain_state \<Rightarrow> stn_chain_economic_owned option" where
  "economic_clone alloc s =
     (case cs_economy s of
        None \<Rightarrow> None
      | Some e \<Rightarrow>
          if balance_count (own_state e) > balance_capacity (own_state e) \<or>
            balance_count (own_state e) > SIZE_MAX - STN_BLOCK_MAX_TRANSACTIONS then None
          else if consumed_count (own_replay e) > consumed_capacity (own_replay e) \<or>
            consumed_count (own_replay e) > SIZE_MAX - STN_BLOCK_MAX_TRANSACTIONS then None
          else if consumed_count (own_replay e) + STN_BLOCK_MAX_TRANSACTIONS >
            SIZE_MAX div STN_TRANSFER_ENVELOPE_REPLAY_KEY_SIZE then None
          else if \<not> alloc then None
          else Some
            \<lparr>own_state = \<lparr>balances = Some (econ_live (own_state e)), balance_count = balance_count (own_state e),
               balance_capacity = balance_count (own_state e) + STN_BLOCK_MAX_TRANSACTIONS,
               total_supply = total_supply (own_state e)\<rparr>,
             own_replay = buffer_clone (replicate STN_TRANSFER_ENVELOPE_REPLAY_KEY_SIZE 0) (own_replay e)\<rparr>)"

text \<open>The read-only replay lookup of an envelope (\<^verbatim>\<open>stn_chain_transfer_replay_check\<close>).\<close>

definition stn_chain_transfer_replay_check ::
  "stn_chain_state \<Rightarrow> stn_transfer_envelope option \<Rightarrow> stn_data_status" where
  "stn_chain_transfer_replay_check state envelope =
     (if envelope = None then STN_DATA_ARGUMENT
      else
        (case cs_economy state of
           None \<Rightarrow> STN_DATA_UNRESOLVED
         | Some owned \<Rightarrow>
             if consumed_count (own_replay owned) > consumed_capacity (own_replay owned) \<or>
               consumed_capacity (own_replay owned) > SIZE_MAX div STN_TRANSFER_ENVELOPE_REPLAY_KEY_SIZE \<or>
               (consumed_capacity (own_replay owned) \<noteq> 0 \<and> consumed (own_replay owned) = None)
             then STN_DATA_CONTENT
             else
               (case stn_transfer_envelope_replay_check (own_replay owned) envelope of
                  STN_TRANSFER_ENVELOPE_REPLAY_FRESH \<Rightarrow> STN_DATA_OK
                | STN_TRANSFER_ENVELOPE_REPLAY_DUPLICATE \<Rightarrow> STN_DATA_DUPLICATE
                | _ \<Rightarrow> STN_DATA_ARGUMENT)))"

end
