(* ===== verification/Stn_Chain_Candidate.thy ===== *)
theory Stn_Chain_Candidate
  imports Stn_Chain_State
begin

text \<open>
  Validating one block on a prior state, \<^verbatim>\<open>validate_candidate\<close> of \<^verbatim>\<open>src/src/stn_chain.c\<close>: the
  structural, link and target stages, the scan of the body, the identifier and the work, the
  application of every transaction to private copies, and the new state. Validating a batch and
  reconstructing a history are loops over it.
\<close>

section \<open>Reports\<close>

datatype stn_stage_status =
    STN_STAGE_NOT_RUN | STN_STAGE_PASS | STN_STAGE_REJECT | STN_STAGE_UNRESOLVED | STN_STAGE_ERROR

datatype stn_acceptance =
    STN_ACCEPTANCE_REJECTED | STN_ACCEPTANCE_UNRESOLVED | STN_ACCEPTANCE_ERROR
  | STN_ACCEPTANCE_UNDER_CONTEXT

datatype stn_chain_reason =
    STN_CHAIN_NONE | STN_CHAIN_ARGUMENT | STN_CHAIN_CONTEXT | STN_CHAIN_STATE | STN_CHAIN_STRUCTURE
  | STN_CHAIN_NETWORK | STN_CHAIN_GENESIS | STN_CHAIN_HEIGHT | STN_CHAIN_PARENT | STN_CHAIN_TIMESTAMP
  | STN_CHAIN_BODY | STN_CHAIN_HASH | STN_CHAIN_ZERO_ID | STN_CHAIN_BATCH_LIMIT | STN_CHAIN_TARGET
  | STN_CHAIN_POW | STN_CHAIN_WORK

record stn_chain_report =
  rp_structure :: stn_stage_status
  rp_link :: stn_stage_status
  rp_body :: stn_stage_status
  rp_identifier :: stn_stage_status
  rp_pow :: stn_stage_status
  rp_target :: stn_stage_status
  rp_work :: stn_stage_status
  rp_acceptance :: stn_acceptance
  rp_reason :: stn_chain_reason
  rp_detail :: stn_data_status
  rp_failing_index :: nat
  rp_failing_height :: u64
  rp_height_available :: bool

definition initial_report :: stn_chain_report where
  "initial_report =
     \<lparr>rp_structure = STN_STAGE_NOT_RUN, rp_link = STN_STAGE_NOT_RUN, rp_body = STN_STAGE_NOT_RUN,
      rp_identifier = STN_STAGE_NOT_RUN, rp_pow = STN_STAGE_NOT_RUN, rp_target = STN_STAGE_NOT_RUN,
      rp_work = STN_STAGE_NOT_RUN, rp_acceptance = STN_ACCEPTANCE_ERROR, rp_reason = STN_CHAIN_NONE,
      rp_detail = STN_DATA_OK, rp_failing_index = SIZE_MAX, rp_failing_height = 0,
      rp_height_available = False\<rparr>"

definition fail :: "stn_chain_report \<Rightarrow> stn_chain_reason \<Rightarrow> stn_data_status \<Rightarrow> stn_chain_report" where
  "fail r reason detail =
     r\<lparr>rp_reason := reason, rp_detail := detail,
       rp_acceptance :=
         (if detail = STN_DATA_UNRESOLVED then STN_ACCEPTANCE_UNRESOLVED
          else if detail = STN_DATA_PROVIDER_ERROR \<or> detail = STN_DATA_ARGUMENT then STN_ACCEPTANCE_ERROR
          else STN_ACCEPTANCE_REJECTED)\<rparr>"

definition stage :: "stn_data_status \<Rightarrow> stn_stage_status" where
  "stage status =
     (if status = STN_DATA_OK then STN_STAGE_PASS
      else if status = STN_DATA_UNRESOLVED then STN_STAGE_UNRESOLVED
      else if status = STN_DATA_PROVIDER_ERROR \<or> status = STN_DATA_ARGUMENT then STN_STAGE_ERROR
      else STN_STAGE_REJECT)"

section \<open>The link of a block\<close>

text \<open>
  From the arguments to the required target. A success keeps the report and the decoded block; \<open>bytes\<close>
  is None for a NULL pointer.
\<close>

definition candidate_link ::
  "stn_hash_fn \<Rightarrow> stn_chain_context \<Rightarrow> stn_chain_state \<Rightarrow> bytes option \<Rightarrow>
   stn_chain_report + (stn_chain_report \<times> stn_block)" where
  "candidate_link sha c prior input =
     (case input of
        None \<Rightarrow> Inl (fail initial_report STN_CHAIN_ARGUMENT STN_DATA_ARGUMENT)
      | Some bs \<Rightarrow>
          (let status = context_valid sha c
           in if status \<noteq> STN_DATA_OK then Inl (fail initial_report STN_CHAIN_CONTEXT status)
              else
                (case stn_block_decode sha (Some bs) of
                   Inl status \<Rightarrow>
                     (let r = initial_report\<lparr>rp_structure := stage status, rp_failing_index := 0\<rparr>
                      in Inl (fail
                           (if length bs \<ge> STN_BLOCK_HEADER_SIZE then
                              (case stn_block_header_decode (Some (take STN_BLOCK_HEADER_SIZE bs)) of
                                 Inl _ \<Rightarrow> r
                               | Inr header \<Rightarrow> r\<lparr>rp_height_available := True, rp_failing_height := bh_height header\<rparr>)
                            else r) STN_CHAIN_STRUCTURE status))
                 | Inr b \<Rightarrow>
                     (let h = blk_header b;
                          r = initial_report\<lparr>rp_structure := STN_STAGE_PASS, rp_failing_index := 0,
                            rp_height_available := True, rp_failing_height := bh_height h\<rparr>
                      in if bh_version h \<noteq> (if cx_pow_policy c \<noteq> None then STN_POW_BLOCK_VERSION else 1)
                         then Inl (fail (r\<lparr>rp_link := STN_STAGE_REJECT\<rparr>) STN_CHAIN_CONTEXT STN_DATA_VERSION)
                         else
                           (let status = prior_valid sha c prior; r = r\<lparr>rp_link := stage status\<rparr>
                            in if status \<noteq> STN_DATA_OK then Inl (fail r STN_CHAIN_STATE status)
                               else
                                 (let r = r\<lparr>rp_link := STN_STAGE_REJECT\<rparr>
                                  in if memcmp (bh_network_id h) (cx_network_id c) \<noteq> 0
                                     then Inl (fail r STN_CHAIN_NETWORK STN_DATA_CONTENT)
                                     else if \<not> cs_has_tip prior \<and> memcmp bs (the (cx_genesis_bytes c)) \<noteq> 0
                                     then Inl (fail r STN_CHAIN_GENESIS STN_DATA_CONTENT)
                                     else if cs_has_tip prior \<and> (cs_height prior = 18446744073709551615 \<or>
                                       bh_height h \<noteq> cs_height prior + 1)
                                     then Inl (fail r STN_CHAIN_HEIGHT STN_DATA_CONTENT)
                                     else if cs_has_tip prior \<and> memcmp (bh_previous_hash h) (cs_tip_id prior) \<noteq> 0
                                     then Inl (fail r STN_CHAIN_PARENT STN_DATA_CONTENT)
                                     else if cs_has_tip prior \<and> bh_timestamp h < cs_timestamp prior
                                     then Inl (fail r STN_CHAIN_TIMESTAMP STN_DATA_CONTENT)
                                     else Inr (r\<lparr>rp_link := STN_STAGE_PASS\<rparr>, b)))))))"

definition candidate_target ::
  "stn_hash_fn \<Rightarrow> stn_chain_context \<Rightarrow> stn_chain_state \<Rightarrow> stn_block_header \<Rightarrow> stn_chain_report \<Rightarrow>
   stn_chain_report + stn_chain_report" where
  "candidate_target sha c prior h r =
     (if cx_pow_policy c = None then Inr r
      else
        (case stn_chain_required_target sha c prior of
           Inl status \<Rightarrow> Inl (fail (r\<lparr>rp_target := stage status\<rparr>) STN_CHAIN_TARGET status)
         | Inr required \<Rightarrow>
             if memcmp (bh_reserved_target h) required \<noteq> 0
             then Inl (fail (r\<lparr>rp_target := STN_STAGE_REJECT\<rparr>) STN_CHAIN_TARGET STN_DATA_TARGET)
             else Inr (r\<lparr>rp_target := STN_STAGE_PASS\<rparr>)))"

section \<open>The scan of the body\<close>

record candidate_flags =
  has_lifecycle :: bool
  has_contracts :: bool
  has_shares :: bool
  has_block_compensation :: bool
  has_compensation :: bool
  has_issuance :: bool
  has_transfer :: bool

definition no_flags :: candidate_flags where
  "no_flags = \<lparr>has_lifecycle = False, has_contracts = False, has_shares = False,
     has_block_compensation = False, has_compensation = False, has_issuance = False, has_transfer = False\<rparr>"

text \<open>The transaction at the front of the rest of a body, and what follows it.\<close>

definition front_tx :: "stn_hash_fn \<Rightarrow> bytes \<Rightarrow> stn_transaction data_result \<times> bytes" where
  "front_tx sha rest =
     (let n = unat (ucast (stn_wire_read rest 4) :: u32); after = drop 4 rest
      in (stn_transaction_decode sha (Some (take n after)), drop n after))"

fun scan_loop ::
  "stn_hash_fn \<Rightarrow> stn_chain_context \<Rightarrow> bool \<Rightarrow> nat \<Rightarrow> bytes \<Rightarrow> candidate_flags \<Rightarrow>
   stn_chain_reason + candidate_flags" where
  "scan_loop sha c active 0 rest fl = Inr fl"
| "scan_loop sha c active (Suc i) rest fl =
     (case front_tx sha rest of
        (Inl _, _) \<Rightarrow> Inl STN_CHAIN_BODY
      | (Inr tx, rest') \<Rightarrow>
          if txn_type tx = STN_TX_PUBLICATION then
            (case stn_record_decode (txn_record_bytes tx) of
               Inl _ \<Rightarrow> Inl STN_CHAIN_BODY
             | Inr record_value \<Rightarrow>
                 if memcmp (rec_network_id record_value) (cx_network_id c) \<noteq> 0 then Inl STN_CHAIN_NETWORK
                 else scan_loop sha c active i rest' (if active then fl\<lparr>has_lifecycle := True\<rparr> else fl))
          else if txn_type tx = STN_TX_CONTRACT_ACTION
          then scan_loop sha c active i rest' (fl\<lparr>has_contracts := True\<rparr>)
          else if txn_type tx = STN_TX_SHARE_EVIDENCE
          then scan_loop sha c active i rest' (fl\<lparr>has_shares := True\<rparr>)
          else if txn_type tx = STN_TX_BLOCK_COMPENSATION_EVIDENCE
          then scan_loop sha c active i rest' (fl\<lparr>has_block_compensation := True\<rparr>)
          else if txn_type tx = STN_TX_COMPENSATION_DESTINATION
          then scan_loop sha c active i rest' (fl\<lparr>has_compensation := True\<rparr>)
          else if txn_type tx = STN_TX_ISSUANCE
          then scan_loop sha c active i rest' (fl\<lparr>has_issuance := True\<rparr>)
          else if txn_type tx = STN_TX_TRANSFER
          then scan_loop sha c active i rest' (fl\<lparr>has_transfer := True\<rparr>)
          else scan_loop sha c active i rest' (fl\<lparr>has_lifecycle := True\<rparr>))"

definition candidate_body ::
  "stn_hash_fn \<Rightarrow> stn_chain_context \<Rightarrow> stn_chain_state \<Rightarrow> bytes \<Rightarrow> stn_block \<Rightarrow> stn_chain_report \<Rightarrow>
   stn_chain_report + (stn_chain_report \<times> candidate_flags)" where
  "candidate_body sha c prior bs b r =
     (let status = stn_block_check_integrity sha (Some bs) (cx_hash_provider c); r = r\<lparr>rp_body := stage status\<rparr>
      in if status \<noteq> STN_DATA_OK then Inl (fail r STN_CHAIN_BODY status)
         else
           (case scan_loop sha c (bh_height (blk_header b) \<ge> cs_activation prior)
                   (unat (bh_transaction_count (blk_header b))) (the (blk_body b)) no_flags of
              Inl reason \<Rightarrow> Inl (fail (r\<lparr>rp_body := STN_STAGE_REJECT\<rparr>) reason STN_DATA_CONTENT)
            | Inr fl \<Rightarrow> Inr (r, fl)))"

section \<open>Identifier and work\<close>

definition next_target_history :: "stn_chain_state \<Rightarrow> stn_block_header \<Rightarrow> stn_block_header list" where
  "next_target_history prior h =
     (if bh_height h mod 60 = 0 then [] else cs_target_history prior) @
     [\<lparr>bh_version = 3, bh_flags = 0, bh_network_id = replicate 32 0, bh_previous_hash = replicate 32 0,
       bh_height = bh_height h, bh_timestamp = bh_timestamp h, bh_transaction_commitment = replicate 32 0,
       bh_reserved_target = bh_reserved_target h, bh_reserved_work_nonce = 0, bh_transaction_count = 0,
       bh_body_length = 0\<rparr>]"

definition candidate_work ::
  "stn_hash_fn \<Rightarrow> stn_chain_context \<Rightarrow> stn_chain_state \<Rightarrow> bytes \<Rightarrow> stn_block_header \<Rightarrow> stn_chain_report \<Rightarrow>
   stn_chain_report + (stn_chain_report \<times> stn_chain_state)" where
  "candidate_work sha c prior bs h r =
     (case stn_chain_block_id sha (Some bs) (cx_hash_provider c) of
        Inl status \<Rightarrow> Inl (fail (r\<lparr>rp_identifier := stage status\<rparr>) STN_CHAIN_HASH status)
      | Inr ident \<Rightarrow>
          if zero32 ident
          then Inl (fail (r\<lparr>rp_identifier := STN_STAGE_REJECT\<rparr>) STN_CHAIN_ZERO_ID STN_DATA_CONTENT)
          else
            (let r = r\<lparr>rp_identifier := STN_STAGE_PASS\<rparr>;
                 base = prior\<lparr>cs_has_tip := True, cs_height := bh_height h, cs_timestamp := bh_timestamp h,
                   cs_tip_id := ident,
                   cs_genesis_id := (if \<not> cs_has_tip prior then ident else cs_genesis_id prior)\<rparr>
             in if cx_pow_policy c = None then Inr (r, base)
                else
                  (let status = stn_pow_compare (Some ident) (bh_reserved_target h);
                       r = r\<lparr>rp_pow := stage status\<rparr>
                   in if status \<noteq> STN_DATA_OK then Inl (fail r STN_CHAIN_POW status)
                      else
                        (let added = (case stn_target_work (bh_reserved_target h) of
                               Inl status \<Rightarrow> Inl status
                             | Inr unit \<Rightarrow> stn_work_add (Some (cs_cumulative_work prior)) (Some unit));
                             r = r\<lparr>rp_work := stage (data_status added)\<rparr>
                         in case added of
                              Inl status \<Rightarrow> Inl (fail r STN_CHAIN_WORK status)
                            | Inr work \<Rightarrow>
                                Inr (r, base\<lparr>cs_cumulative_work := work,
                                  cs_current_target := bh_reserved_target h,
                                  cs_target_history := next_target_history prior h\<rparr>)))))"

section \<open>Applying the transactions\<close>

text \<open>The private copies; a copy is there exactly when its flag is set.\<close>

record stn_candidate =
  cd_lifecycle :: "stn_lifecycle_state option"
  cd_contracts :: "stn_contract_snapshot option"
  cd_shares :: "key_buffer option"
  cd_block_compensation :: "stn_block_compensation_replay option"
  cd_compensation :: "stn_compensation_state option"
  cd_economy :: "stn_chain_economic_owned option"

text \<open>The mapping in force for the block: the candidate's copy when the block changes it.\<close>

definition mapping_of :: "stn_chain_state \<Rightarrow> stn_candidate \<Rightarrow> stn_compensation_state option" where
  "mapping_of prior cd = (case cd_compensation cd of None \<Rightarrow> cs_compensation prior | Some m \<Rightarrow> Some m)"

text \<open>Is a block identifier one of the accepted history?\<close>

fun history_has_block ::
  "stn_hash_fn \<Rightarrow> stn_hash_provider \<Rightarrow> bytes \<Rightarrow> bytes list \<Rightarrow> stn_data_status + bool" where
  "history_has_block sha provider ident [] = Inr False"
| "history_has_block sha provider ident (block # blocks) =
     (case stn_chain_block_id sha (Some block) provider of
        Inl _ \<Rightarrow> Inl STN_DATA_PROVIDER_ERROR
      | Inr accepted_id \<Rightarrow>
          if memcmp accepted_id ident = 0 then Inr True
          else history_has_block sha provider ident blocks)"

text \<open>Block compensation of one evidence and issuance (\<^verbatim>\<open>src/src/stn_block_compensation_candidate.c\<close>).\<close>

definition stn_block_compensation_candidate_apply ::
  "stn_hash_fn \<Rightarrow> bool \<Rightarrow> stn_transaction \<Rightarrow> stn_transaction \<Rightarrow> stn_block_compensation_replay \<Rightarrow>
   stn_compensation_state option \<Rightarrow> stn_economic_state \<Rightarrow>
   stn_data_status \<times> stn_block_compensation_replay \<times> stn_economic_state" where
  "stn_block_compensation_candidate_apply sha alloc evidence_tx issuance_tx replay compensation economy =
     (if compensation = None then (STN_DATA_ARGUMENT, replay, economy)
      else if txn_version evidence_tx \<noteq> 1 \<or> txn_type evidence_tx \<noteq> STN_TX_BLOCK_COMPENSATION_EVIDENCE \<or>
        txn_record_bytes evidence_tx = None \<or> txn_record_length evidence_tx \<noteq> 65
      then (STN_DATA_TYPE, replay, economy)
      else if txn_version issuance_tx \<noteq> 1 \<or> txn_type issuance_tx \<noteq> STN_TX_ISSUANCE \<or>
        txn_record_bytes issuance_tx = None \<or> txn_record_length issuance_tx \<noteq> 106
      then (STN_DATA_TYPE, replay, economy)
      else
        (case stn_block_compensation_decode (txn_record_bytes evidence_tx) of
           Inl status \<Rightarrow> (status, replay, economy)
         | Inr evidence \<Rightarrow>
             (case stn_issuance_decode (txn_record_bytes issuance_tx) of
                Inl status \<Rightarrow> (status, replay, economy)
              | Inr issuance \<Rightarrow>
                  if iss_reason issuance \<noteq> STN_ISSUANCE_REASON_BLOCK then (STN_DATA_TYPE, replay, economy)
                  else stn_block_compensation_accept sha alloc replay (Some evidence) (Some issuance)
                    (the compensation) economy)))"

text \<open>
  The evidence transaction with the issuance that follows it. The result holds what is left of the
  body after the pair; \<open>has_next\<close> tells that the block has another transaction.
\<close>

definition apply_block_compensation ::
  "stn_hash_fn \<Rightarrow> bool \<Rightarrow> stn_hash_provider \<Rightarrow> stn_chain_state \<Rightarrow> bytes list option \<Rightarrow> bool \<Rightarrow>
   stn_transaction \<Rightarrow> bytes \<Rightarrow> stn_candidate \<Rightarrow> stn_data_status \<times> stn_candidate \<times> bytes" where
  "apply_block_compensation sha alloc provider prior history has_next tx rest cd =
     (case (if has_next then stn_block_compensation_decode (txn_record_bytes tx) else Inl STN_DATA_CONTENT) of
        Inl _ \<Rightarrow> (STN_DATA_CONTENT, cd, rest)
      | Inr evidence \<Rightarrow>
          (case (case history of
                   Some blocks \<Rightarrow> history_has_block sha provider (ev_block_id evidence) blocks
                 | None \<Rightarrow> Inr (cs_has_tip prior \<and> memcmp (cs_tip_id prior) (ev_block_id evidence) = 0)) of
             Inl status \<Rightarrow> (status, cd, rest)
           | Inr accepted_block \<Rightarrow>
               if \<not> accepted_block
               then (if history = None then STN_DATA_UNRESOLVED else STN_DATA_CONTENT, cd, rest)
               else if length rest < 4 then (STN_DATA_CONTENT, cd, rest)
               else if unat (ucast (stn_wire_read rest 4) :: u32) > length rest - 4
               then (STN_DATA_CONTENT, cd, rest)
               else
                 (case front_tx sha rest of
                    (Inl _, _) \<Rightarrow> (STN_DATA_CONTENT, cd, rest)
                  | (Inr issuance_tx, rest') \<Rightarrow>
                      if txn_type issuance_tx \<noteq> STN_TX_ISSUANCE then (STN_DATA_CONTENT, cd, rest)
                      else
                        (let owned = the (cd_economy cd);
                             (status, replay, economy) =
                               stn_block_compensation_candidate_apply sha alloc tx issuance_tx
                                 (the (cd_block_compensation cd)) (mapping_of prior cd) (own_state owned)
                         in (status,
                             cd\<lparr>cd_block_compensation := Some replay,
                               cd_economy := Some (owned\<lparr>own_state := economy\<rparr>)\<rparr>, rest')))))"

text \<open>
  The search for the share an issuance pays. A transaction or block that does not decode is CONTENT;
  the code notices it after the loops, with the same answer.
\<close>

fun block_has_share ::
  "stn_hash_fn \<Rightarrow> stn_issuance_record \<Rightarrow> stn_compensation_state \<Rightarrow> nat \<Rightarrow> bytes \<Rightarrow> stn_data_status + bool" where
  "block_has_share sha issuance mapping 0 rest = Inr False"
| "block_has_share sha issuance mapping (Suc i) rest =
     (case front_tx sha rest of
        (Inl _, _) \<Rightarrow> Inl STN_DATA_CONTENT
      | (Inr tx, rest') \<Rightarrow>
          if txn_type tx = STN_TX_SHARE_EVIDENCE \<and>
            (case stn_share_decode (txn_record_bytes tx) of
               Inl _ \<Rightarrow> False
             | Inr share \<Rightarrow> stn_issuance_bind_share sha (Some issuance) (Some share) mapping = STN_DATA_OK)
          then Inr True
          else block_has_share sha issuance mapping i rest')"

fun history_has_share ::
  "stn_hash_fn \<Rightarrow> stn_issuance_record \<Rightarrow> stn_compensation_state \<Rightarrow> bytes list \<Rightarrow> stn_data_status + bool" where
  "history_has_share sha issuance mapping [] = Inr False"
| "history_has_share sha issuance mapping (block # blocks) =
     (case stn_block_decode sha (Some block) of
        Inl _ \<Rightarrow> Inl STN_DATA_CONTENT
      | Inr b \<Rightarrow>
          (case block_has_share sha issuance mapping (unat (bh_transaction_count (blk_header b)))
                  (the (blk_body b)) of
             Inl status \<Rightarrow> Inl status
           | Inr True \<Rightarrow> Inr True
           | Inr False \<Rightarrow> history_has_share sha issuance mapping blocks))"

definition apply_issuance ::
  "stn_hash_fn \<Rightarrow> stn_chain_state \<Rightarrow> bytes list option \<Rightarrow> stn_transaction \<Rightarrow> stn_candidate \<Rightarrow>
   stn_data_status \<times> stn_candidate" where
  "apply_issuance sha prior history tx cd =
     (case stn_issuance_decode (txn_record_bytes tx) of
        Inl _ \<Rightarrow> (STN_DATA_CONTENT, cd)
      | Inr issuance \<Rightarrow>
          if iss_reason issuance \<noteq> STN_ISSUANCE_REASON_SHARE then (STN_DATA_CONTENT, cd)
          else
            (case mapping_of prior cd of
               None \<Rightarrow> (STN_DATA_CONTENT, cd)
             | Some mapping \<Rightarrow>
                 (case stn_compensation_state_lookup mapping
                         (Some (dest_identity (iss_destination issuance))) of
                    Inl _ \<Rightarrow> (STN_DATA_CONTENT, cd)
                  | Inr mapped \<Rightarrow>
                      if memcmp (addr_id mapped) (addr_id (dest_wallet (iss_destination issuance))) \<noteq> 0
                      then (STN_DATA_CONTENT, cd)
                      else
                        (case history of
                           None \<Rightarrow> (STN_DATA_UNRESOLVED, cd)
                         | Some blocks \<Rightarrow>
                             (case history_has_share sha issuance mapping blocks of
                                Inl status \<Rightarrow> (status, cd)
                              | Inr found \<Rightarrow>
                                  if \<not> found then (STN_DATA_CONTENT, cd)
                                  else
                                    (let owned = the (cd_economy cd);
                                         (status, economy) =
                                           stn_economic_state_apply (own_state owned) (Some issuance)
                                     in (status, cd\<lparr>cd_economy := Some (owned\<lparr>own_state := economy\<rparr>)\<rparr>)))))))"

definition apply_transfer ::
  "stn_hash_fn \<Rightarrow> ed25519 \<Rightarrow> stn_transaction \<Rightarrow> stn_candidate \<Rightarrow> stn_data_status \<times> stn_candidate" where
  "apply_transfer sha ed tx cd =
     (case stn_transfer_envelope_decode (txn_record_bytes tx) of
        Inl _ \<Rightarrow> (STN_DATA_CONTENT, cd)
      | Inr envelope \<Rightarrow>
          (let owned = the (cd_economy cd);
               (status, economy, replay) =
                 stn_transfer_envelope_accept sha ed (own_state owned) (own_replay owned) (Some envelope)
           in (status, cd\<lparr>cd_economy := Some \<lparr>own_state = economy, own_replay = replay\<rparr>\<rparr>)))"

definition apply_destination :: "stn_transaction \<Rightarrow> stn_candidate \<Rightarrow> stn_data_status \<times> stn_candidate" where
  "apply_destination tx cd =
     (case stn_compensation_destination_decode (txn_record_bytes tx) of
        Inl _ \<Rightarrow> (STN_DATA_CONTENT, cd)
      | Inr destination \<Rightarrow>
          (let (status, mapping) = stn_compensation_state_apply (the (cd_compensation cd)) (Some destination)
           in (status, cd\<lparr>cd_compensation := Some mapping\<rparr>)))"

definition apply_contract ::
  "stn_hash_fn \<Rightarrow> ed25519 \<Rightarrow> bool \<Rightarrow> stn_hash_provider \<Rightarrow> stn_chain_state \<Rightarrow> stn_transaction \<Rightarrow> stn_candidate \<Rightarrow>
   stn_data_status \<times> stn_candidate" where
  "apply_contract sha ed alloc provider prior tx cd =
     (let authority_state = (case cd_lifecycle cd of None \<Rightarrow> cs_lifecycle prior | Some l \<Rightarrow> Some l);
          (status, contracts) =
            contract_apply_transaction sha ed alloc (the (cd_contracts cd)) authority_state tx provider
      in (status, cd\<lparr>cd_contracts := Some contracts\<rparr>))"

text \<open>The work a share refers to: the block of the accepted history before it, or the tip.\<close>

definition share_parent ::
  "stn_hash_fn \<Rightarrow> stn_hash_provider \<Rightarrow> stn_chain_state \<Rightarrow> bytes list option \<Rightarrow> u64 \<Rightarrow> stn_block_header \<Rightarrow>
   stn_data_status" where
  "share_parent sha provider prior history height work_header =
     (case history of
        Some blocks \<Rightarrow>
          (let parent_index = unat (bh_height work_header - 1)
           in if parent_index \<ge> length blocks then STN_DATA_CONTENT
              else
                (case stn_chain_block_id sha (Some (blocks ! parent_index)) provider of
                   Inl _ \<Rightarrow> STN_DATA_CONTENT
                 | Inr parent_id \<Rightarrow>
                     if memcmp parent_id (bh_previous_hash work_header) \<noteq> 0 then STN_DATA_CONTENT
                     else STN_DATA_OK))
      | None \<Rightarrow>
          if bh_height work_header + 1 \<noteq> height \<or> memcmp (bh_previous_hash work_header) (cs_tip_id prior) \<noteq> 0
          then STN_DATA_UNRESOLVED else STN_DATA_OK)"

definition apply_share ::
  "stn_hash_fn \<Rightarrow> stn_chain_context \<Rightarrow> stn_chain_state \<Rightarrow> bytes list option \<Rightarrow> u64 \<Rightarrow> stn_transaction \<Rightarrow>
   stn_candidate \<Rightarrow> stn_data_status \<times> stn_candidate" where
  "apply_share sha c prior history height tx cd =
     (case stn_share_decode (txn_record_bytes tx) of
        Inl _ \<Rightarrow> (STN_DATA_CONTENT, cd)
      | Inr share \<Rightarrow>
          (case stn_block_header_decode (Some (sh_template_header share)) of
             Inl _ \<Rightarrow> (STN_DATA_CONTENT, cd)
           | Inr work_header \<Rightarrow>
               if bh_version work_header \<noteq> STN_POW_BLOCK_VERSION \<or> bh_reserved_work_nonce work_header \<noteq> 0 \<or>
                 memcmp (bh_transaction_commitment work_header) (sh_body_commitment share) \<noteq> 0 \<or>
                 memcmp (bh_network_id work_header) (cx_network_id c) \<noteq> 0 \<or> \<not> cs_has_tip prior \<or>
                 cs_height prior = 18446744073709551615 \<or> bh_height work_header \<ge> height \<or>
                 bh_height work_header = 0 \<or>
                 isl (stn_share_verify_evidence (Some share) (cx_hash_provider c))
               then (STN_DATA_CONTENT, cd)
               else
                 (let status = share_parent sha (cx_hash_provider c) prior history height work_header
                  in if status \<noteq> STN_DATA_OK then (status, cd)
                     else
                       (case stn_share_replay_consume (the (cd_shares cd)) (Some share) of
                          (result, shares) \<Rightarrow>
                            (if result = STN_SHARE_REPLAY_FRESH then STN_DATA_OK
                             else if result = STN_SHARE_REPLAY_CAPACITY then STN_DATA_CAPACITY
                             else STN_DATA_DUPLICATE,
                             cd\<lparr>cd_shares := Some shares\<rparr>)))))"

definition lifecycle_failure :: "stn_lifecycle_result \<Rightarrow> stn_data_status" where
  "lifecycle_failure result =
     (if result = STN_LIFECYCLE_OK then STN_DATA_OK
      else if result = STN_LIFECYCLE_CAPACITY \<or> result = STN_LIFECYCLE_PROVIDER then STN_DATA_PROVIDER_ERROR
      else STN_DATA_CONTENT)"

definition apply_lifecycle ::
  "ed25519 \<Rightarrow> bool \<Rightarrow> stn_chain_context \<Rightarrow> stn_chain_state \<Rightarrow> u64 \<Rightarrow> stn_transaction \<Rightarrow> stn_candidate \<Rightarrow>
   stn_data_status \<times> stn_candidate" where
  "apply_lifecycle ed alloc c prior height tx cd =
     (case cd_lifecycle cd of
        None \<Rightarrow> (STN_DATA_OK, cd)
      | Some l \<Rightarrow>
          if txn_type tx = STN_TX_PUBLICATION \<and> height < cs_activation prior then (STN_DATA_OK, cd)
          else
            (let checked = (if txn_type tx = STN_TX_PUBLICATION
                   then stn_lifecycle_check_publication ed alloc (Some l) (txn_record_bytes tx) (cx_hash_provider c)
                   else STN_LIFECYCLE_OK)
             in if checked \<noteq> STN_LIFECYCLE_OK then (lifecycle_failure checked, cd)
                else
                  (case stn_lifecycle_apply_transaction ed l (Some tx) (cx_authority_roots c)
                          (cx_authority_root_count c) (Some (cx_hash_provider c)) of
                     (result, l') \<Rightarrow> (lifecycle_failure result, cd\<lparr>cd_lifecycle := Some l'\<rparr>))))"

text \<open>
  The loop over the transactions of the body, until one fails. The paired issuance of a block
  compensation is consumed with its evidence. \<open>count\<close> is the number of transactions of the block; it
  gives each allocation its index.
\<close>

fun apply_loop ::
  "stn_hash_fn \<Rightarrow> ed25519 \<Rightarrow> chain_alloc \<Rightarrow> stn_chain_context \<Rightarrow> stn_chain_state \<Rightarrow> bytes list option \<Rightarrow> u64 \<Rightarrow>
   nat \<Rightarrow> bytes \<Rightarrow> stn_candidate \<Rightarrow> stn_data_status \<times> stn_candidate" where
  "apply_loop sha ed alloc c prior history height 0 rest cd = (STN_DATA_OK, cd)"
| "apply_loop sha ed alloc c prior history height (Suc i) rest cd =
     (case front_tx sha rest of
        (Inl _, _) \<Rightarrow> (STN_DATA_CONTENT, cd)
      | (Inr tx, rest') \<Rightarrow>
          if txn_type tx = STN_TX_BLOCK_COMPENSATION_EVIDENCE then
            (case apply_block_compensation sha (alloc (Site_balances i)) (cx_hash_provider c) prior history
                    (i \<noteq> 0) tx rest' cd of
               (status, cd', rest'') \<Rightarrow>
                 if status \<noteq> STN_DATA_OK then (status, cd')
                 else apply_loop sha ed alloc c prior history height (i - 1) rest'' cd')
          else
            (case (if txn_type tx = STN_TX_ISSUANCE then apply_issuance sha prior history tx cd
                   else if txn_type tx = STN_TX_TRANSFER then apply_transfer sha ed tx cd
                   else if txn_type tx = STN_TX_COMPENSATION_DESTINATION then apply_destination tx cd
                   else if txn_type tx = STN_TX_CONTRACT_ACTION
                   then apply_contract sha ed (alloc (Site_draft i)) (cx_hash_provider c) prior tx cd
                   else if txn_type tx = STN_TX_SHARE_EVIDENCE
                   then apply_share sha c prior history height tx cd
                   else apply_lifecycle ed (alloc (Site_statement i)) c prior height tx cd) of
               (status, cd') \<Rightarrow>
                 if status \<noteq> STN_DATA_OK then (status, cd')
                 else apply_loop sha ed alloc c prior history height i rest' cd'))"

section \<open>The candidate state\<close>

text \<open>
  The private copies; reconstruction extends a lifecycle state that it owns alone and that has room
  (\<open>own\<close>) instead of copying it. None stands for a copy that failed.
\<close>

definition candidate_copies ::
  "chain_alloc \<Rightarrow> stn_chain_state \<Rightarrow> bool \<Rightarrow> u32 \<Rightarrow> candidate_flags \<Rightarrow> stn_candidate option" where
  "candidate_copies alloc prior own count fl =
     (let reused = (own \<and> (case cs_lifecycle prior of None \<Rightarrow> False | Some l \<Rightarrow>
            consumed_count (lc_grants l) \<le> consumed_capacity (lc_grants l) \<and>
            consumed_count (lc_replay l) \<le> consumed_capacity (lc_replay l) \<and>
            unat count \<le> consumed_capacity (lc_grants l) - consumed_count (lc_grants l) \<and>
            unat count \<le> consumed_capacity (lc_replay l) - consumed_count (lc_replay l)));
          lifecycle = (if reused then cs_lifecycle prior else lifecycle_clone (alloc Site_lifecycle) prior);
          shares = share_clone (alloc Site_shares) prior;
          block_compensation = block_compensation_clone (alloc Site_block_compensation) prior;
          compensation = compensation_clone (alloc Site_compensation) prior;
          economy = economic_clone (alloc Site_economy) prior;
          economic = (has_issuance fl \<or> has_transfer fl \<or> has_block_compensation fl);
          contracts = stn_contract_snapshot_clone (alloc Site_contracts) (cs_contracts prior)
      in if (has_lifecycle fl \<and> lifecycle = None) \<or> (has_shares fl \<and> shares = None) \<or>
           (has_block_compensation fl \<and> block_compensation = None) \<or>
           (has_compensation fl \<and> compensation = None) \<or> (economic \<and> economy = None) \<or>
           (has_contracts fl \<and> contracts = None)
         then None
         else Some
           \<lparr>cd_lifecycle = (if has_lifecycle fl then lifecycle else None),
            cd_contracts = (if has_contracts fl then contracts else None),
            cd_shares = (if has_shares fl then shares else None),
            cd_block_compensation = (if has_block_compensation fl then block_compensation else None),
            cd_compensation = (if has_compensation fl then compensation else None),
            cd_economy = (if economic then economy else None)\<rparr>)"

text \<open>The new state takes the copies that exist and shares the other snapshots with the prior state.\<close>

definition commit_candidate :: "stn_chain_state \<Rightarrow> stn_candidate \<Rightarrow> stn_chain_state" where
  "commit_candidate s cd =
     s\<lparr>cs_lifecycle := (if cd_lifecycle cd = None then cs_lifecycle s else cd_lifecycle cd),
       cs_contracts := (if cd_contracts cd = None then cs_contracts s else cd_contracts cd),
       cs_shares := (if cd_shares cd = None then cs_shares s else cd_shares cd),
       cs_block_compensation :=
         (if cd_block_compensation cd = None then cs_block_compensation s else cd_block_compensation cd),
       cs_compensation := (if cd_compensation cd = None then cs_compensation s else cd_compensation cd),
       cs_economy := (if cd_economy cd = None then cs_economy s else cd_economy cd)\<rparr>"

definition candidate_transactions ::
  "stn_hash_fn \<Rightarrow> ed25519 \<Rightarrow> chain_alloc \<Rightarrow> stn_chain_context \<Rightarrow> stn_chain_state \<Rightarrow> bytes list option \<Rightarrow> bool \<Rightarrow>
   stn_block \<Rightarrow> candidate_flags \<Rightarrow> stn_chain_report \<Rightarrow> stn_chain_report + stn_candidate" where
  "candidate_transactions sha ed alloc c prior history own b fl r =
     (let h = blk_header b
      in case candidate_copies alloc prior own (bh_transaction_count h) fl of
           None \<Rightarrow> Inl (fail (r\<lparr>rp_body := STN_STAGE_ERROR\<rparr>) STN_CHAIN_BODY STN_DATA_PROVIDER_ERROR)
         | Some cd \<Rightarrow>
             (case (if fl = no_flags then (STN_DATA_OK, cd)
                    else apply_loop sha ed alloc c prior history (bh_height h) (unat (bh_transaction_count h))
                      (the (blk_body b)) cd) of
                (failure, cd') \<Rightarrow>
                  if failure \<noteq> STN_DATA_OK
                  then Inl (fail (r\<lparr>rp_body := stage failure\<rparr>) STN_CHAIN_BODY failure)
                  else Inr cd'))"

text \<open>
  The whole validation. The state is None when the code leaves the output as it was. The last check is
  \<^verbatim>\<open>stn_chain_state_share\<close> of the prior snapshots, which allocates nothing: it fails only for a
  reference count of 0 or SIZE_MAX, and the count is not part of the state.
\<close>

definition validate_candidate ::
  "stn_hash_fn \<Rightarrow> ed25519 \<Rightarrow> chain_alloc \<Rightarrow> stn_chain_context \<Rightarrow> stn_chain_state \<Rightarrow> bytes list option \<Rightarrow>
   bytes option \<Rightarrow> bool \<Rightarrow> stn_chain_report \<times> stn_chain_state option" where
  "validate_candidate sha ed alloc c prior history input own =
     (case candidate_link sha c prior input of
        Inl r \<Rightarrow> (r, None)
      | Inr (r, b) \<Rightarrow>
          (case candidate_target sha c prior (blk_header b) r of
             Inl r \<Rightarrow> (r, None)
           | Inr r \<Rightarrow>
               (case candidate_body sha c prior (the input) b r of
                  Inl r \<Rightarrow> (r, None)
                | Inr (r, fl) \<Rightarrow>
                    (case candidate_work sha c prior (the input) (blk_header b) r of
                       Inl r \<Rightarrow> (r, None)
                     | Inr (r, next_state) \<Rightarrow>
                         (case candidate_transactions sha ed alloc c prior history own b fl r of
                            Inl r \<Rightarrow> (r, None)
                          | Inr cd \<Rightarrow>
                              if \<not> alloc Site_share_state
                              then (fail r STN_CHAIN_BODY STN_DATA_CAPACITY, None)
                              else (r\<lparr>rp_acceptance := STN_ACCEPTANCE_UNDER_CONTEXT,
                                      rp_reason := STN_CHAIN_NONE, rp_failing_index := SIZE_MAX,
                                      rp_height_available := False, rp_failing_height := 0\<rparr>,
                                    Some (commit_candidate next_state cd)))))))"

definition stn_chain_validate_candidate ::
  "stn_hash_fn \<Rightarrow> ed25519 \<Rightarrow> chain_alloc \<Rightarrow> stn_chain_context \<Rightarrow> stn_chain_state \<Rightarrow> bytes option \<Rightarrow>
   stn_chain_report \<times> stn_chain_state option" where
  "stn_chain_validate_candidate sha ed alloc c prior input =
     validate_candidate sha ed alloc c prior None input False"

section \<open>Histories and batches\<close>

text \<open>
  Reconstruction validates every block against the blocks before it. The local state is the only owner
  of its snapshots, so \<open>own\<close> holds; a failure releases it and leaves the output alone. The
  allocations are those of the block at each index.
\<close>

fun reconstruct_loop ::
  "stn_hash_fn \<Rightarrow> ed25519 \<Rightarrow> (nat \<Rightarrow> chain_alloc) \<Rightarrow> stn_chain_context \<Rightarrow> bytes list \<Rightarrow> bytes list \<Rightarrow>
   stn_chain_state \<Rightarrow> stn_chain_report \<Rightarrow> stn_chain_report \<times> stn_chain_state option" where
  "reconstruct_loop sha ed alloc c before [] state r = (r, Some state)"
| "reconstruct_loop sha ed alloc c before (block # blocks) state r =
     (case validate_candidate sha ed (alloc (length before)) c state (Some before) (Some block) True of
        (r', None) \<Rightarrow> (r'\<lparr>rp_failing_index := length before\<rparr>, None)
      | (r', Some state') \<Rightarrow> reconstruct_loop sha ed alloc c (before @ [block]) blocks state' r')"

definition stn_chain_reconstruct_history ::
  "stn_hash_fn \<Rightarrow> ed25519 \<Rightarrow> chain_alloc \<Rightarrow> (nat \<Rightarrow> chain_alloc) \<Rightarrow> stn_chain_context \<Rightarrow> bytes list option \<Rightarrow>
   stn_chain_report \<times> stn_chain_state option" where
  "stn_chain_reconstruct_history sha ed alloc allocs c blocks =
     (case blocks of
        None \<Rightarrow> (fail initial_report STN_CHAIN_ARGUMENT STN_DATA_ARGUMENT, None)
      | Some bs \<Rightarrow>
          if bs = [] then (fail initial_report STN_CHAIN_ARGUMENT STN_DATA_ARGUMENT, None)
          else
            (case stn_chain_initialize sha alloc c of
               Inl status \<Rightarrow> (fail initial_report STN_CHAIN_CONTEXT status, None)
             | Inr state \<Rightarrow> reconstruct_loop sha ed allocs c [] bs state initial_report))"

definition STN_CHAIN_MAX_BATCH :: nat where "STN_CHAIN_MAX_BATCH = 64"

fun sequence_loop ::
  "stn_hash_fn \<Rightarrow> ed25519 \<Rightarrow> (nat \<Rightarrow> chain_alloc) \<Rightarrow> stn_chain_context \<Rightarrow> nat \<Rightarrow> bytes option list \<Rightarrow>
   stn_chain_state \<Rightarrow> stn_chain_report \<Rightarrow> stn_chain_report \<times> stn_chain_state option" where
  "sequence_loop sha ed alloc c i [] state r = (r, Some state)"
| "sequence_loop sha ed alloc c i (block # blocks) state r =
     (case stn_chain_validate_candidate sha ed (alloc i) c state block of
        (r', None) \<Rightarrow> (r'\<lparr>rp_failing_index := i\<rparr>, None)
      | (r', Some state') \<Rightarrow> sequence_loop sha ed alloc c (i + 1) blocks state' r')"

definition stn_chain_validate_sequence ::
  "stn_hash_fn \<Rightarrow> ed25519 \<Rightarrow> bool \<Rightarrow> (nat \<Rightarrow> chain_alloc) \<Rightarrow> stn_chain_context \<Rightarrow> stn_chain_state \<Rightarrow>
   bytes option list option \<Rightarrow> nat \<Rightarrow> stn_chain_report \<times> stn_chain_state option" where
  "stn_chain_validate_sequence sha ed share alloc c prior blocks count =
     (if count \<noteq> 0 \<and> blocks = None
      then (fail initial_report STN_CHAIN_ARGUMENT STN_DATA_ARGUMENT, None)
      else if count > STN_CHAIN_MAX_BATCH
      then (fail initial_report STN_CHAIN_BATCH_LIMIT STN_DATA_LENGTH, None)
      else
        (let status = context_valid sha c
         in if status \<noteq> STN_DATA_OK then (fail initial_report STN_CHAIN_CONTEXT status, None)
            else
              (let status = prior_valid sha c prior
               in if status \<noteq> STN_DATA_OK then (fail initial_report STN_CHAIN_STATE status, None)
                  else if \<not> share then (fail initial_report STN_CHAIN_STATE STN_DATA_CAPACITY, None)
                  else
                    (case sequence_loop sha ed alloc c 0 (take count (case blocks of None \<Rightarrow> [] | Some bs \<Rightarrow> bs))
                            prior initial_report of
                       (r, None) \<Rightarrow> (r, None)
                     | (r, Some state) \<Rightarrow> (r\<lparr>rp_acceptance := STN_ACCEPTANCE_UNDER_CONTEXT\<rparr>, Some state)))))"

end
