(* ===== verification/Stn_Chain.thy ===== *)
theory Stn_Chain
  imports Stn_Chain_Candidate Stn_Work_Correct
begin

text \<open>
  What an accepted block is: the stages of \<^verbatim>\<open>validate_candidate\<close> as one characterisation, the
  invariants of every reachable chain state, and the composition of batches.
\<close>

section \<open>The stages\<close>

lemma link_accepted:
  "candidate_link sha c prior (Some bs) = Inr (r, b) \<longleftrightarrow>
     context_valid sha c = STN_DATA_OK \<and> prior_valid sha c prior = STN_DATA_OK \<and>
     stn_block_decode sha (Some bs) = Inr b \<and>
     bh_version (blk_header b) = (if cx_pow_policy c \<noteq> None then 3 else 1) \<and>
     bh_network_id (blk_header b) = cx_network_id c \<and>
     (if cs_has_tip prior
      then cs_height prior \<noteq> 18446744073709551615 \<and> bh_height (blk_header b) = cs_height prior + 1 \<and>
        bh_previous_hash (blk_header b) = cs_tip_id prior \<and> cs_timestamp prior \<le> bh_timestamp (blk_header b)
      else bs = the (cx_genesis_bytes c)) \<and>
     r = initial_report\<lparr>rp_structure := STN_STAGE_PASS, rp_failing_index := 0, rp_height_available := True,
       rp_failing_height := bh_height (blk_header b), rp_link := STN_STAGE_PASS\<rparr>"
  unfolding candidate_link_def Let_def option.case
  by (auto simp: stage_def not_less split: if_splits sum.splits)

lemma target_accepted:
  "candidate_target sha c prior h r = Inr r' \<longleftrightarrow>
     (case cx_pow_policy c of
        None \<Rightarrow> r' = r
      | Some _ \<Rightarrow> stn_chain_required_target sha c prior = Inr (bh_reserved_target h) \<and>
          r' = r\<lparr>rp_target := STN_STAGE_PASS\<rparr>)"
  by (auto simp: candidate_target_def split: option.splits sum.splits)

lemma body_accepted:
  "candidate_body sha c prior bs b r = Inr (r', fl) \<longleftrightarrow>
     stn_block_check_integrity sha (Some bs) (cx_hash_provider c) = STN_DATA_OK \<and>
     scan_loop sha c (bh_height (blk_header b) \<ge> cs_activation prior)
       (unat (bh_transaction_count (blk_header b))) (the (blk_body b)) no_flags = Inr fl \<and>
     r' = r\<lparr>rp_body := STN_STAGE_PASS\<rparr>"
  by (auto simp: candidate_body_def Let_def stage_def split: sum.splits)

lemma work_accepted:
  "candidate_work sha c prior bs h r = Inr (r', s) \<longleftrightarrow>
     (\<exists>ident. stn_chain_block_id sha (Some bs) (cx_hash_provider c) = Inr ident \<and> \<not> zero32 ident \<and>
       (let base = prior\<lparr>cs_has_tip := True, cs_height := bh_height h, cs_timestamp := bh_timestamp h,
          cs_tip_id := ident, cs_genesis_id := (if \<not> cs_has_tip prior then ident else cs_genesis_id prior)\<rparr>
        in case cx_pow_policy c of
             None \<Rightarrow> r' = r\<lparr>rp_identifier := STN_STAGE_PASS\<rparr> \<and> s = base
           | Some _ \<Rightarrow> stn_pow_compare (Some ident) (bh_reserved_target h) = STN_DATA_OK \<and>
               (\<exists>unit work. stn_target_work (bh_reserved_target h) = Inr unit \<and>
                 stn_work_add (Some (cs_cumulative_work prior)) (Some unit) = Inr work \<and>
                 r' = r\<lparr>rp_identifier := STN_STAGE_PASS, rp_pow := STN_STAGE_PASS, rp_work := STN_STAGE_PASS\<rparr> \<and>
                 s = base\<lparr>cs_cumulative_work := work, cs_current_target := bh_reserved_target h,
                   cs_target_history := next_target_history prior h\<rparr>)))"
proof (cases "stn_chain_block_id sha (Some bs) (cx_hash_provider c)")
  case (Inl e)
  then show ?thesis by (simp add: candidate_work_def)
next
  case (Inr ident)
  show ?thesis
  proof (cases "cx_pow_policy c")
    case None
    with Inr show ?thesis by (auto simp: candidate_work_def Let_def)
  next
    case (Some fixed)
    show ?thesis
    proof (cases "stn_target_work (bh_reserved_target h)")
      case (Inl e)
      with Some Inr show ?thesis by (simp add: candidate_work_def Let_def)
    next
      case unit: (Inr unit)
      show ?thesis
        unfolding candidate_work_def Let_def Inr unit Some
        by (cases "stn_work_add (Some (cs_cumulative_work prior)) (Some unit)") (auto simp: stage_def)
    qed
  qed
qed

lemma transactions_accepted:
  "candidate_transactions sha ed alloc c prior history own b fl r = Inr cd' \<longleftrightarrow>
     (\<exists>cd. candidate_copies alloc prior own (bh_transaction_count (blk_header b)) fl = Some cd \<and>
       (if fl = no_flags then cd' = cd
        else apply_loop sha ed alloc c prior history (bh_height (blk_header b))
          (unat (bh_transaction_count (blk_header b))) (the (blk_body b)) cd = (STN_DATA_OK, cd')))"
  by (auto simp: candidate_transactions_def Let_def split: option.splits prod.splits)

text \<open>The state part of an accepted block, and its transactions.\<close>

definition block_links :: "stn_hash_fn \<Rightarrow> stn_chain_context \<Rightarrow> stn_chain_state \<Rightarrow> bytes \<Rightarrow> stn_block \<Rightarrow> bool" where
  "block_links sha c prior bs b \<longleftrightarrow>
     context_valid sha c = STN_DATA_OK \<and> prior_valid sha c prior = STN_DATA_OK \<and>
     stn_block_decode sha (Some bs) = Inr b \<and>
     stn_block_check_integrity sha (Some bs) (cx_hash_provider c) = STN_DATA_OK \<and>
     bh_version (blk_header b) = (if cx_pow_policy c \<noteq> None then 3 else 1) \<and>
     bh_network_id (blk_header b) = cx_network_id c \<and>
     (if cs_has_tip prior
      then cs_height prior \<noteq> 18446744073709551615 \<and> bh_height (blk_header b) = cs_height prior + 1 \<and>
        bh_previous_hash (blk_header b) = cs_tip_id prior \<and> cs_timestamp prior \<le> bh_timestamp (blk_header b)
      else bs = the (cx_genesis_bytes c)) \<and>
     (cx_pow_policy c \<noteq> None \<longrightarrow>
       stn_chain_required_target sha c prior = Inr (bh_reserved_target (blk_header b)))"

definition accepted_report :: "stn_chain_context \<Rightarrow> stn_chain_report" where
  "accepted_report c =
     (let work = (if cx_pow_policy c = None then STN_STAGE_NOT_RUN else STN_STAGE_PASS)
      in \<lparr>rp_structure = STN_STAGE_PASS, rp_link = STN_STAGE_PASS, rp_body = STN_STAGE_PASS,
          rp_identifier = STN_STAGE_PASS, rp_pow = work, rp_target = work, rp_work = work,
          rp_acceptance = STN_ACCEPTANCE_UNDER_CONTEXT, rp_reason = STN_CHAIN_NONE, rp_detail = STN_DATA_OK,
          rp_failing_index = SIZE_MAX, rp_failing_height = 0, rp_height_available = False\<rparr>)"

text \<open>The state before the transactions: the tip, the clock and the work.\<close>

definition work_step ::
  "stn_hash_fn \<Rightarrow> stn_chain_context \<Rightarrow> stn_chain_state \<Rightarrow> bytes \<Rightarrow> stn_block_header \<Rightarrow> stn_chain_state \<Rightarrow> bool" where
  "work_step sha c prior bs h s \<longleftrightarrow>
     (\<exists>ident. stn_chain_block_id sha (Some bs) (cx_hash_provider c) = Inr ident \<and> \<not> zero32 ident \<and>
       (let base = prior\<lparr>cs_has_tip := True, cs_height := bh_height h, cs_timestamp := bh_timestamp h,
          cs_tip_id := ident, cs_genesis_id := (if \<not> cs_has_tip prior then ident else cs_genesis_id prior)\<rparr>
        in case cx_pow_policy c of
             None \<Rightarrow> s = base
           | Some _ \<Rightarrow> stn_pow_compare (Some ident) (bh_reserved_target h) = STN_DATA_OK \<and>
               (\<exists>unit work. stn_target_work (bh_reserved_target h) = Inr unit \<and>
                 stn_work_add (Some (cs_cumulative_work prior)) (Some unit) = Inr work \<and>
                 s = base\<lparr>cs_cumulative_work := work, cs_current_target := bh_reserved_target h,
                   cs_target_history := next_target_history prior h\<rparr>)))"

definition transactions_step ::
  "stn_hash_fn \<Rightarrow> ed25519 \<Rightarrow> chain_alloc \<Rightarrow> stn_chain_context \<Rightarrow> stn_chain_state \<Rightarrow> bytes list option \<Rightarrow> bool \<Rightarrow>
   stn_block \<Rightarrow> stn_candidate \<Rightarrow> bool" where
  "transactions_step sha ed alloc c prior history own b cd' \<longleftrightarrow>
     (\<exists>fl cd. scan_loop sha c (bh_height (blk_header b) \<ge> cs_activation prior)
         (unat (bh_transaction_count (blk_header b))) (the (blk_body b)) no_flags = Inr fl \<and>
       candidate_copies alloc prior own (bh_transaction_count (blk_header b)) fl = Some cd \<and>
       (if fl = no_flags then cd' = cd
        else apply_loop sha ed alloc c prior history (bh_height (blk_header b))
          (unat (bh_transaction_count (blk_header b))) (the (blk_body b)) cd = (STN_DATA_OK, cd')))"

lemma case_stage:
  "(case x of Inl r \<Rightarrow> (r, None) | Inr y \<Rightarrow> f y) = (r, Some s) \<longleftrightarrow> (\<exists>y. x = Inr y \<and> f y = (r, Some s))"
  by (cases x) auto

lemma if_stage:
  "(if \<not> a then (x, None) else (y, Some z)) = (r, Some s) \<longleftrightarrow> a \<and> s = z \<and> r = y"
  by auto

lemma candidate_stages:
  "validate_candidate sha ed alloc c prior history (Some bs) own = (r, Some s) \<longleftrightarrow>
     (\<exists>r1 b r2 r3 fl r4 base cd. candidate_link sha c prior (Some bs) = Inr (r1, b) \<and>
       candidate_target sha c prior (blk_header b) r1 = Inr r2 \<and>
       candidate_body sha c prior bs b r2 = Inr (r3, fl) \<and>
       candidate_work sha c prior bs (blk_header b) r3 = Inr (r4, base) \<and>
       candidate_transactions sha ed alloc c prior history own b fl r4 = Inr cd \<and>
       alloc Site_share_state \<and> s = commit_candidate base cd \<and>
       r = r4\<lparr>rp_acceptance := STN_ACCEPTANCE_UNDER_CONTEXT, rp_reason := STN_CHAIN_NONE,
         rp_failing_index := SIZE_MAX, rp_height_available := False, rp_failing_height := 0\<rparr>)"
  unfolding validate_candidate_def case_stage split_paired_Ex prod.case option.sel if_stage
  by (simp only: ex_simps)

lemma work_step_iff: "(\<exists>r'. candidate_work sha c prior bs h r = Inr (r', s)) \<longleftrightarrow> work_step sha c prior bs h s"
proof (cases "cx_pow_policy c")
  case None
  then show ?thesis unfolding work_accepted work_step_def Let_def None option.case by blast
next
  case (Some t)
  then show ?thesis unfolding work_accepted work_step_def Let_def Some option.case by blast
qed

lemma candidate_accepted:
  "(\<exists>r. validate_candidate sha ed alloc c prior history (Some bs) own = (r, Some s)) \<longleftrightarrow>
     (\<exists>b base cd. block_links sha c prior bs b \<and> work_step sha c prior bs (blk_header b) base \<and>
       transactions_step sha ed alloc c prior history own b cd \<and> alloc Site_share_state \<and>
       s = commit_candidate base cd)" (is "?l \<longleftrightarrow> ?r")
proof
  assume ?l
  then obtain r1 b r2 r3 fl r4 base cd where s: "candidate_link sha c prior (Some bs) = Inr (r1, b)"
      "candidate_target sha c prior (blk_header b) r1 = Inr r2"
      "candidate_body sha c prior bs b r2 = Inr (r3, fl)"
      "candidate_work sha c prior bs (blk_header b) r3 = Inr (r4, base)"
      "candidate_transactions sha ed alloc c prior history own b fl r4 = Inr cd"
      "alloc Site_share_state" "s = commit_candidate base cd"
    unfolding candidate_stages by blast
  have "block_links sha c prior bs b"
    using s(1-3) unfolding link_accepted target_accepted body_accepted block_links_def
    by (auto split: option.splits)
  moreover have "work_step sha c prior bs (blk_header b) base"
    using s(4) work_step_iff by blast
  moreover have "transactions_step sha ed alloc c prior history own b cd"
    using s(3,5) unfolding transactions_accepted body_accepted transactions_step_def by blast
  ultimately show ?r using s(6,7) by blast
next
  assume ?r
  then obtain b base cd fl where s: "block_links sha c prior bs b" "work_step sha c prior bs (blk_header b) base"
      "scan_loop sha c (bh_height (blk_header b) \<ge> cs_activation prior)
         (unat (bh_transaction_count (blk_header b))) (the (blk_body b)) no_flags = Inr fl"
      "\<And>r. candidate_transactions sha ed alloc c prior history own b fl r = Inr cd"
      "alloc Site_share_state" "s = commit_candidate base cd"
    unfolding transactions_accepted transactions_step_def by blast
  obtain r1 where r1: "candidate_link sha c prior (Some bs) = Inr (r1, b)"
    using s(1) unfolding link_accepted block_links_def by blast
  obtain r2 where r2: "candidate_target sha c prior (blk_header b) r1 = Inr r2"
    using s(1) unfolding target_accepted block_links_def by (cases "cx_pow_policy c") auto
  obtain r3 where r3: "candidate_body sha c prior bs b r2 = Inr (r3, fl)"
    using s(1,3) unfolding body_accepted block_links_def by blast
  obtain r4 where r4: "candidate_work sha c prior bs (blk_header b) r3 = Inr (r4, base)"
    using s(2) work_step_iff by blast
  show ?l unfolding candidate_stages using r1 r2 r3 r4 s(4-6) by blast
qed

lemma candidate_report:
  assumes "validate_candidate sha ed alloc c prior history (Some bs) own = (r, Some s)"
  shows "r = accepted_report c"
  using assms unfolding candidate_stages link_accepted target_accepted body_accepted work_accepted
  by (cases "cx_pow_policy c")
     (auto simp: accepted_report_def initial_report_def Let_def)

lemma candidate_null: "validate_candidate sha ed alloc c prior history None own =
    (fail initial_report STN_CHAIN_ARGUMENT STN_DATA_ARGUMENT, None)"
  by (simp add: validate_candidate_def candidate_link_def)

end
