(* ===== verification/Stn_Chain_Invariant.thy ===== *)
theory Stn_Chain_Invariant
  imports Stn_Chain
begin

text \<open>
  The invariants of the snapshots a chain state owns, kept by every accepted block, and the reachable
  states of a chain.
\<close>

section \<open>The snapshots\<close>

text \<open>
  What holds of each snapshot that is there. The contracts are still those of the first state: no
  contract action is ever accepted.
\<close>

definition parts_inv ::
  "stn_hash_fn \<Rightarrow> ed25519 \<Rightarrow> stn_chain_context \<Rightarrow> stn_lifecycle_state option \<Rightarrow>
   stn_contract_snapshot option \<Rightarrow> key_buffer option \<Rightarrow> stn_block_compensation_replay option \<Rightarrow>
   stn_compensation_state option \<Rightarrow> stn_chain_economic_owned option \<Rightarrow> bool" where
  "parts_inv sha ed c lifecycle contracts shares block_compensation compensation economy \<longleftrightarrow>
     pred_option (lifecycle_inv ed (cx_authority_roots c) (cx_authority_root_count c) (cx_hash_provider c)) lifecycle \<and>
     pred_option (\<lambda>n. stn_contract_snapshot_create True = Some n) contracts \<and>
     pred_option (\<lambda>b. buffer_wf b \<and> distinct (accepted b)) shares \<and>
     pred_option bcr_wf block_compensation \<and> pred_option comp_wf compensation \<and>
     pred_option (\<lambda>e. econ_wf (own_state e) \<and> buffer_wf (own_replay e) \<and> distinct (accepted (own_replay e))) economy"

definition chain_inv :: "stn_hash_fn \<Rightarrow> ed25519 \<Rightarrow> stn_chain_context \<Rightarrow> stn_chain_state \<Rightarrow> bool" where
  "chain_inv sha ed c s \<longleftrightarrow>
     parts_inv sha ed c (cs_lifecycle s) (cs_contracts s) (cs_shares s) (cs_block_compensation s)
       (cs_compensation s) (cs_economy s) \<and>
     cs_lifecycle s \<noteq> None \<and> cs_contracts s \<noteq> None \<and> cs_shares s \<noteq> None \<and> cs_block_compensation s \<noteq> None \<and>
     cs_compensation s \<noteq> None \<and> cs_economy s \<noteq> None"

definition candidate_inv :: "stn_hash_fn \<Rightarrow> ed25519 \<Rightarrow> stn_chain_context \<Rightarrow> stn_candidate \<Rightarrow> bool" where
  "candidate_inv sha ed c cd \<longleftrightarrow>
     parts_inv sha ed c (cd_lifecycle cd) (cd_contracts cd) (cd_shares cd) (cd_block_compensation cd)
       (cd_compensation cd) (cd_economy cd)"

lemmas inv_defs = chain_inv_def candidate_inv_def parts_inv_def

text \<open>Copies keep the accepted keys and the contents.\<close>

lemma buffer_clone_wf:
  assumes "buffer_wf b"
  shows "buffer_wf (buffer_clone blank b)" "accepted (buffer_clone blank b) = accepted b"
  using length_accepted [OF assms] by (simp_all add: buffer_clone_def buffer_wf_def buffer_valid_def accepted_def Let_def)

lemma clone_buffer:
  assumes "buffer_wf b" "b' = b\<lparr>consumed := Some (accepted b @ replicate n blank), consumed_capacity := consumed_count b + n\<rparr>"
  shows "buffer_wf b'" "accepted b' = accepted b"
  using length_accepted [OF assms(1)] assms(2)
  by (simp_all add: buffer_wf_def buffer_valid_def accepted_def)

lemma lifecycle_clone_inv:
  assumes "lifecycle_clone alloc s = Some l'" "pred_option (lifecycle_inv ed roots n provider) (cs_lifecycle s)"
  shows "lifecycle_inv ed roots n provider l'"
proof -
  obtain l where l: "cs_lifecycle s = Some l" "lifecycle_inv ed roots n provider l"
      "l' = stn_lifecycle_rebind l
        (Some (accepted (lc_grants l) @ replicate 32 (replicate 194 0))) (consumed_count (lc_grants l) + 32)
        (Some (accepted (lc_replay l) @ replicate 32 (replicate STN_REPLAY_ID_SIZE 0))) (consumed_count (lc_replay l) + 32)"
    using assms by (auto simp: lifecycle_clone_def Let_def split: option.splits if_splits)
  have wf: "buffer_wf (lc_grants l)" "buffer_wf (lc_replay l)" using l(2) by (simp_all add: lifecycle_inv_def)
  show ?thesis
    using l(2) clone_buffer [OF wf(1) refl] clone_buffer [OF wf(2) refl]
    by (simp add: l(3) lifecycle_inv_def stn_lifecycle_rebind_def)
qed

lemma contracts_clone_inv:
  assumes "stn_contract_snapshot_clone alloc contracts = Some n'"
    "pred_option (\<lambda>n. stn_contract_snapshot_create True = Some n) contracts"
  shows "stn_contract_snapshot_create True = Some n'"
  using assms
  by (auto simp: stn_contract_snapshot_clone_def stn_contract_snapshot_create_def bind_snapshot_def
      stn_contract_state_initialize_def live_entries_def split: option.splits if_splits)

lemma share_clone_inv:
  assumes "share_clone alloc s = Some b'" "pred_option (\<lambda>b. buffer_wf b \<and> distinct (accepted b)) (cs_shares s)"
  shows "buffer_wf b' \<and> distinct (accepted b')"
  using assms by (auto simp: share_clone_def buffer_clone_wf split: option.splits if_splits)

lemma block_compensation_clone_inv:
  assumes "block_compensation_clone alloc s = Some r'" "pred_option bcr_wf (cs_block_compensation s)"
  shows "bcr_wf r'"
  using assms bcr_copy_wf by (auto simp: block_compensation_clone_def split: option.splits if_splits)

lemma compensation_clone_inv:
  assumes "compensation_clone alloc s = Some m'" "pred_option comp_wf (cs_compensation s)"
  shows "comp_wf m'"
  using assms
  by (auto simp: compensation_clone_def comp_wf_def comp_bad_def comp_live_def split: option.splits if_splits)

lemma economic_clone_inv:
  assumes "economic_clone alloc s = Some e'"
    "pred_option (\<lambda>e. econ_wf (own_state e) \<and> buffer_wf (own_replay e) \<and> distinct (accepted (own_replay e))) (cs_economy s)"
  shows "econ_wf (own_state e') \<and> buffer_wf (own_replay e') \<and> distinct (accepted (own_replay e'))"
  using assms
  by (auto simp: economic_clone_def econ_wf_def econ_bad_def econ_live_def buffer_clone_wf split: option.splits if_splits)

lemma if_none_some: "(if p then None else Some x) = Some y \<longleftrightarrow> \<not> p \<and> y = x"
  by auto

lemma pred_option_if [simp]: "pred_option P (if b then x else y) \<longleftrightarrow> (if b then pred_option P x else pred_option P y)"
  by simp

lemma candidate_copies_inv:
  assumes copies: "candidate_copies alloc prior own count fl = Some cd" and inv: "chain_inv sha ed c prior"
  shows "candidate_inv sha ed c cd"
proof -
  have parts: "parts_inv sha ed c (cs_lifecycle prior) (cs_contracts prior) (cs_shares prior)
      (cs_block_compensation prior) (cs_compensation prior) (cs_economy prior)"
    using inv by (simp add: chain_inv_def)
  have pred: "pred_option P x" if "\<And>y. x = Some y \<Longrightarrow> P y" for P and x :: "'z option"
    using that by (cases x) auto
  have "pred_option (lifecycle_inv ed (cx_authority_roots c) (cx_authority_root_count c) (cx_hash_provider c))
      (lifecycle_clone (alloc Site_lifecycle) prior)"
    by (rule pred, erule lifecycle_clone_inv) (use parts in \<open>simp add: parts_inv_def\<close>)
  moreover have "pred_option (\<lambda>n. stn_contract_snapshot_create True = Some n)
      (stn_contract_snapshot_clone (alloc Site_contracts) (cs_contracts prior))"
    by (rule pred, erule contracts_clone_inv) (use parts in \<open>simp add: parts_inv_def\<close>)
  moreover have "pred_option (\<lambda>b. buffer_wf b \<and> distinct (accepted b)) (share_clone (alloc Site_shares) prior)"
    by (rule pred, erule share_clone_inv) (use parts in \<open>simp add: parts_inv_def\<close>)
  moreover have "pred_option bcr_wf (block_compensation_clone (alloc Site_block_compensation) prior)"
    by (rule pred, erule block_compensation_clone_inv) (use parts in \<open>simp add: parts_inv_def\<close>)
  moreover have "pred_option comp_wf (compensation_clone (alloc Site_compensation) prior)"
    by (rule pred, erule compensation_clone_inv) (use parts in \<open>simp add: parts_inv_def\<close>)
  moreover have "pred_option (\<lambda>e. econ_wf (own_state e) \<and> buffer_wf (own_replay e) \<and>
      distinct (accepted (own_replay e))) (economic_clone (alloc Site_economy) prior)"
    by (rule pred, erule economic_clone_inv) (use parts in \<open>simp add: parts_inv_def\<close>)
  ultimately show ?thesis
    using copies parts unfolding candidate_copies_def Let_def if_none_some candidate_inv_def
    by (simp add: parts_inv_def)
qed

section \<open>Which copies a block has\<close>

definition copy_present :: "stn_candidate \<Rightarrow> u16 \<Rightarrow> bool" where
  "copy_present cd ty \<longleftrightarrow>
     (ty = STN_TX_CONTRACT_ACTION \<longrightarrow> cd_contracts cd \<noteq> None) \<and> (ty = STN_TX_SHARE_EVIDENCE \<longrightarrow> cd_shares cd \<noteq> None) \<and>
     (ty = STN_TX_BLOCK_COMPENSATION_EVIDENCE \<longrightarrow> cd_block_compensation cd \<noteq> None \<and> cd_economy cd \<noteq> None) \<and>
     (ty = STN_TX_COMPENSATION_DESTINATION \<longrightarrow> cd_compensation cd \<noteq> None) \<and>
     (ty = STN_TX_ISSUANCE \<or> ty = STN_TX_TRANSFER \<longrightarrow> cd_economy cd \<noteq> None)"

text \<open>Every transaction of the body has the copy it changes.\<close>

fun covered :: "stn_hash_fn \<Rightarrow> stn_candidate \<Rightarrow> nat \<Rightarrow> bytes \<Rightarrow> bool" where
  "covered sha cd 0 rest = True"
| "covered sha cd (Suc i) rest =
     (case front_tx sha rest of
        (Inl _, _) \<Rightarrow> True
      | (Inr tx, rest') \<Rightarrow> copy_present cd (txn_type tx) \<and> covered sha cd i rest')"

definition same_copies :: "stn_candidate \<Rightarrow> stn_candidate \<Rightarrow> bool" where
  "same_copies cd cd' \<longleftrightarrow>
     (cd_lifecycle cd' = None \<longleftrightarrow> cd_lifecycle cd = None) \<and> (cd_contracts cd' = None \<longleftrightarrow> cd_contracts cd = None) \<and>
     (cd_shares cd' = None \<longleftrightarrow> cd_shares cd = None) \<and>
     (cd_block_compensation cd' = None \<longleftrightarrow> cd_block_compensation cd = None) \<and>
     (cd_compensation cd' = None \<longleftrightarrow> cd_compensation cd = None) \<and> (cd_economy cd' = None \<longleftrightarrow> cd_economy cd = None)"

lemma same_copies_refl [simp]: "same_copies cd cd"
  by (simp add: same_copies_def)

lemma same_copies_trans: "same_copies a b \<Longrightarrow> same_copies b d \<Longrightarrow> same_copies a d"
  by (simp add: same_copies_def)

lemma covered_same: "same_copies cd cd' \<Longrightarrow> covered sha cd' i rest = covered sha cd i rest"
  by (induction i arbitrary: rest) (auto simp: same_copies_def copy_present_def split: prod.splits sum.splits)

definition flags_le :: "candidate_flags \<Rightarrow> candidate_flags \<Rightarrow> bool" where
  "flags_le a b \<longleftrightarrow> (has_lifecycle a \<longrightarrow> has_lifecycle b) \<and> (has_contracts a \<longrightarrow> has_contracts b) \<and>
     (has_shares a \<longrightarrow> has_shares b) \<and> (has_block_compensation a \<longrightarrow> has_block_compensation b) \<and>
     (has_compensation a \<longrightarrow> has_compensation b) \<and> (has_issuance a \<longrightarrow> has_issuance b) \<and>
     (has_transfer a \<longrightarrow> has_transfer b)"

definition copies_for :: "candidate_flags \<Rightarrow> stn_candidate \<Rightarrow> bool" where
  "copies_for fl cd \<longleftrightarrow> (has_contracts fl \<longrightarrow> cd_contracts cd \<noteq> None) \<and> (has_shares fl \<longrightarrow> cd_shares cd \<noteq> None) \<and>
     (has_block_compensation fl \<longrightarrow> cd_block_compensation cd \<noteq> None) \<and>
     (has_compensation fl \<longrightarrow> cd_compensation cd \<noteq> None) \<and>
     (has_issuance fl \<or> has_transfer fl \<or> has_block_compensation fl \<longrightarrow> cd_economy cd \<noteq> None)"

lemma scan_covered:
  assumes "scan_loop sha c active i rest fl = Inr fl'" "copies_for fl' cd"
  shows "flags_le fl fl' \<and> covered sha cd i rest"
  using assms
proof (induction i arbitrary: rest fl)
  case 0
  then show ?case by (simp add: flags_le_def)
next
  case (Suc i)
  obtain tx rest' where f: "front_tx sha rest = (Inr tx, rest')"
    using Suc.prems(1) by (cases "front_tx sha rest"; cases "fst (front_tx sha rest)") auto
  obtain fl1 where n: "scan_loop sha c active i rest' fl1 = Inr fl'" "flags_le fl fl1"
      "txn_type tx = STN_TX_CONTRACT_ACTION \<longrightarrow> has_contracts fl1"
      "txn_type tx = STN_TX_SHARE_EVIDENCE \<longrightarrow> has_shares fl1"
      "txn_type tx = STN_TX_BLOCK_COMPENSATION_EVIDENCE \<longrightarrow> has_block_compensation fl1"
      "txn_type tx = STN_TX_COMPENSATION_DESTINATION \<longrightarrow> has_compensation fl1"
      "txn_type tx = STN_TX_ISSUANCE \<longrightarrow> has_issuance fl1" "txn_type tx = STN_TX_TRANSFER \<longrightarrow> has_transfer fl1"
    using Suc.prems(1) f
    by (auto simp: flags_le_def split: if_splits sum.splits)
  from Suc.IH [OF n(1) Suc.prems(2)] have ih: "flags_le fl1 fl'" "covered sha cd i rest'" by simp_all
  have "copy_present cd (txn_type tx)"
    using n(3-) ih(1) Suc.prems(2) unfolding copy_present_def copies_for_def flags_le_def by blast
  then show ?case using n(2) ih f by (auto simp: flags_le_def)
qed

lemma copies_covered:
  assumes "candidate_copies alloc prior own count fl = Some cd"
  shows "copies_for fl cd"
  using assms unfolding candidate_copies_def Let_def if_none_some copies_for_def
  by (auto simp del: not_None_eq split del: if_split)

section \<open>One transaction\<close>

definition supply_of :: "stn_chain_economic_owned option \<Rightarrow> nat" where
  "supply_of e = (case e of None \<Rightarrow> 0 | Some w \<Rightarrow> unat (total_supply (own_state w)))"

definition tx_units :: "stn_transaction \<Rightarrow> nat" where
  "tx_units tx =
     (if txn_type tx = STN_TX_ISSUANCE
      then (case stn_issuance_decode (txn_record_bytes tx) of Inl _ \<Rightarrow> 0 | Inr r \<Rightarrow> unat (iss_units r)) else 0)"

definition kept_by :: "stn_hash_fn \<Rightarrow> ed25519 \<Rightarrow> stn_chain_context \<Rightarrow> stn_candidate \<Rightarrow> nat \<Rightarrow> stn_candidate \<Rightarrow> bool" where
  "kept_by sha ed c cd n cd' \<longleftrightarrow> candidate_inv sha ed c cd' \<and> same_copies cd cd' \<and>
     supply_of (cd_economy cd') = supply_of (cd_economy cd) + n"

lemma envelope_accept_kept:
  assumes "econ_wf economic" "buffer_wf replay" "distinct (accepted replay)" "wf_envelope e"
    "stn_transfer_envelope_accept sha ed economic replay (Some e) = (STN_DATA_OK, economic', replay')"
  shows "econ_wf economic' \<and> buffer_wf replay' \<and> distinct (accepted replay') \<and>
    total_supply economic' = total_supply economic"
proof -
  from envelope_accept_result [OF assms(2,5)] have ok:
      "stn_economic_state_apply_transfer economic (Some (env_transfer e)) = (STN_DATA_OK, economic')"
      "stn_transfer_envelope_replay_consume replay (Some e) = (STN_TRANSFER_ENVELOPE_REPLAY_FRESH, replay')"
    by auto
  have "fst (stn_transfer_envelope_replay_consume replay (Some e)) = STN_TRANSFER_ENVELOPE_REPLAY_FRESH"
    using ok(2) by simp
  from envelope_replay.consume_accepted [OF assms(2) this] obtain k where
      "accepted replay' = accepted replay @ [k]" "k \<notin> set (accepted replay)" unfolding ok(2) by auto
  with envelope_replay.consume_wf [OF assms(2), of "Some e"] ok transfer_apply_ok [OF assms(1) ok(1)] assms(3)
  show ?thesis by simp
qed

lemma apply_transfer_kept:
  assumes "apply_transfer sha ed tx cd = (STN_DATA_OK, cd')" "candidate_inv sha ed c cd" "cd_economy cd \<noteq> None"
  shows "kept_by sha ed c cd 0 cd'"
proof -
  obtain bs e where e: "txn_record_bytes tx = Some bs" "stn_transfer_envelope_decode (Some bs) = Inr e"
    using assms(1) by (cases "txn_record_bytes tx"; cases "stn_transfer_envelope_decode (txn_record_bytes tx)")
       (auto simp: apply_transfer_def)
  obtain w where w: "cd_economy cd = Some w" using assms(3) by blast
  obtain economic' replay' where r:
      "stn_transfer_envelope_accept sha ed (own_state w) (own_replay w) (Some e) = (STN_DATA_OK, economic', replay')"
      "cd' = cd\<lparr>cd_economy := Some \<lparr>own_state = economic', own_replay = replay'\<rparr>\<rparr>"
    using assms(1) e w by (auto simp: apply_transfer_def Let_def split: prod.splits)
  have "econ_wf (own_state w)" "buffer_wf (own_replay w)" "distinct (accepted (own_replay w))"
    using assms(2) w by (auto simp: candidate_inv_def parts_inv_def)
  from envelope_accept_kept [OF this envelope_codec.dec_wf [OF e(2)] r(1)] assms(2) w r(2)
  show ?thesis by (simp add: kept_by_def candidate_inv_def parts_inv_def same_copies_def supply_of_def)
qed

lemma apply_destination_kept:
  assumes "apply_destination tx cd = (STN_DATA_OK, cd')" "candidate_inv sha ed c cd" "cd_compensation cd \<noteq> None"
  shows "kept_by sha ed c cd 0 cd'"
proof -
  obtain m where m: "cd_compensation cd = Some m" "comp_wf m"
    using assms(2,3) by (auto simp: candidate_inv_def parts_inv_def)
  obtain d m' where r: "stn_compensation_state_apply m (Some d) = (STN_DATA_OK, m')" "cd' = cd\<lparr>cd_compensation := Some m'\<rparr>"
    using assms(1) m(1) by (auto simp: apply_destination_def Let_def split: sum.splits prod.splits)
  with comp_apply_wf [OF m(2), of "Some d"] have "comp_wf m'" by simp
  with assms(2) m r(2) show ?thesis
    by (simp add: kept_by_def candidate_inv_def parts_inv_def same_copies_def)
qed

lemma block_has_share_status: "block_has_share sha i m n rest \<noteq> Inl STN_DATA_OK"
  by (induction n arbitrary: rest) (auto split: prod.splits sum.splits)

lemma history_has_share_status: "history_has_share sha i m blocks \<noteq> Inl STN_DATA_OK"
  using block_has_share_status by (induction blocks) (auto split: sum.splits bool.splits)

lemma history_has_block_status: "history_has_block sha provider ident blocks \<noteq> Inl STN_DATA_OK"
  by (induction blocks) (auto split: sum.splits)

lemma apply_issuance_kept:
  assumes "apply_issuance sha prior history tx cd = (STN_DATA_OK, cd')" "candidate_inv sha ed c cd"
    "cd_economy cd \<noteq> None" "txn_type tx = STN_TX_ISSUANCE"
  shows "kept_by sha ed c cd (tx_units tx) cd'"
proof -
  obtain w where w: "cd_economy cd = Some w" "econ_wf (own_state w)"
    using assms(2,3) by (auto simp: candidate_inv_def parts_inv_def)
  obtain i economic' where r: "stn_issuance_decode (txn_record_bytes tx) = Inr i"
      "stn_economic_state_apply (own_state w) (Some i) = (STN_DATA_OK, economic')"
      "cd' = cd\<lparr>cd_economy := Some (w\<lparr>own_state := economic'\<rparr>)\<rparr>"
    using assms(1) w(1) history_has_share_status
    by (auto simp: apply_issuance_def Let_def split: sum.splits prod.splits option.splits if_splits)
  from econ_apply_ok [OF w(2) r(2)] assms(2,4) w r(1,3) show ?thesis
    by (simp add: kept_by_def candidate_inv_def parts_inv_def same_copies_def supply_of_def tx_units_def)
qed

lemma apply_share_kept:
  assumes "apply_share sha c' prior history height tx cd = (STN_DATA_OK, cd')" "candidate_inv sha ed c cd"
    "cd_shares cd \<noteq> None"
  shows "kept_by sha ed c cd 0 cd'"
proof -
  obtain b where b: "cd_shares cd = Some b" "buffer_wf b" "distinct (accepted b)"
    using assms(2,3) by (auto simp: candidate_inv_def parts_inv_def)
  obtain s b' where r: "stn_share_replay_consume b (Some s) = (STN_SHARE_REPLAY_FRESH, b')" "cd' = cd\<lparr>cd_shares := Some b'\<rparr>"
    using assms(1) b(1) by (auto simp: apply_share_def Let_def split: sum.splits prod.splits if_splits)
  have "fst (stn_share_replay_consume b (Some s)) = STN_SHARE_REPLAY_FRESH" using r(1) by simp
  from share_replay.consume_accepted [OF b(2) this] obtain k where
      "accepted b' = accepted b @ [k]" "k \<notin> set (accepted b)" unfolding r(1) by auto
  with share_replay.consume_wf [OF b(2), of "Some s"] r b assms(2) show ?thesis
    by (simp add: kept_by_def candidate_inv_def parts_inv_def same_copies_def)
qed

lemma apply_contract_refused:
  assumes "candidate_inv sha ed c cd" "cd_contracts cd \<noteq> None"
  shows "fst (apply_contract sha ed alloc provider prior tx cd) \<noteq> STN_DATA_OK"
proof -
  obtain n where "cd_contracts cd = Some n" "st_entry_count (snap_state n) = 0"
    using assms store_inv_fresh [of _ sha] by (auto simp: candidate_inv_def parts_inv_def)
  with contract_refused_empty [of n sha ed alloc _ tx provider] show ?thesis
    by (auto simp: apply_contract_def Let_def split: prod.splits) (metis fst_conv)
qed

lemma apply_lifecycle_kept:
  assumes "apply_lifecycle ed alloc c prior height tx cd = (STN_DATA_OK, cd')" "candidate_inv sha ed c cd"
    "txn_record_bytes tx \<noteq> None"
  shows "kept_by sha ed c cd 0 cd'"
proof (cases "cd' = cd")
  case True
  with assms(2) show ?thesis by (simp add: kept_by_def)
next
  case False
  obtain source where source: "txn_record_bytes tx = Some source" using assms(3) by blast
  obtain l l' where r: "cd_lifecycle cd = Some l" "cd' = cd\<lparr>cd_lifecycle := Some l'\<rparr>"
      "stn_lifecycle_apply_transaction ed l (Some tx) (cx_authority_roots c) (cx_authority_root_count c)
        (Some (cx_hash_provider c)) = (STN_LIFECYCLE_OK, l')"
    using assms(1) False
    by (auto simp: apply_lifecycle_def Let_def lifecycle_failure_def split: option.splits prod.splits if_splits)
  have "lifecycle_inv ed (cx_authority_roots c) (cx_authority_root_count c) (cx_hash_provider c) l"
    using assms(2) r(1) by (simp add: candidate_inv_def parts_inv_def)
  from lifecycle_apply_step [OF this r(3) source refl] assms(2) r(1,2) show ?thesis
    by (simp add: kept_by_def candidate_inv_def parts_inv_def same_copies_def)
qed

lemma evidence_id_status:
  assumes "hash_fn_ok sha"
  shows "stn_block_compensation_id sha (Some e) \<noteq> Inl STN_DATA_OK"
  using hash_fn_ok_status [OF assms]
  by (auto simp: stn_block_compensation_encode.simps(2) split: sum.splits if_splits)

lemma compensation_pair_kept:
  assumes "stn_block_compensation_candidate_apply sha alloc tx itx replay mapping economy = (STN_DATA_OK, replay', economy')"
    "econ_wf economy" "bcr_wf replay" "hash_fn_ok sha"
  shows "econ_wf economy' \<and> bcr_wf replay' \<and>
    unat (total_supply economy') = unat (total_supply economy) + tx_units itx"
proof -
  obtain e i where d: "stn_block_compensation_decode (txn_record_bytes tx) = Inr e"
      "stn_issuance_decode (txn_record_bytes itx) = Inr i" "txn_type itx = STN_TX_ISSUANCE"
      "stn_block_compensation_accept sha alloc replay (Some e) (Some i) (the mapping) economy =
        (STN_DATA_OK, replay', economy')"
  proof (cases "stn_block_compensation_decode (txn_record_bytes tx)")
    case (Inl x)
    moreover have "x \<noteq> STN_DATA_OK"
      using Inl
      by (cases "txn_record_bytes tx") (auto simp: stn_block_compensation_decode.simps(2) Let_def split: if_splits)
    ultimately show ?thesis using assms(1) by (auto simp: stn_block_compensation_candidate_apply_def split: if_splits)
  next
    case (Inr e)
    show ?thesis
    proof (cases "stn_issuance_decode (txn_record_bytes itx)")
      case (Inl x)
      moreover have "x \<noteq> STN_DATA_OK"
        using Inl
        by (cases "txn_record_bytes itx") (auto simp: stn_issuance_decode.simps(2) Let_def split: if_splits)
      ultimately show ?thesis using assms(1) Inr by (auto simp: stn_block_compensation_candidate_apply_def split: if_splits)
    next
      case i: (Inr i)
      with Inr assms(1) that show ?thesis
        by (auto simp: stn_block_compensation_candidate_apply_def split: if_splits)
    qed
  qed
  from block_accept_result [OF assms(2,3) d(4)] have ok:
      "stn_block_compensation_replay_consume_evidence sha replay (Some e) = (STN_DATA_OK, replay')"
      "stn_economic_state_apply economy (Some i) = (STN_DATA_OK, economy')" by auto
  obtain k where "stn_block_compensation_replay_consume replay k = (STN_DATA_OK, replay')"
    using ok(1) evidence_id_status [OF assms(4), of e]
    by (cases "stn_block_compensation_id sha (Some e)") (auto simp del: stn_block_compensation_id.simps stn_block_compensation_replay_consume.simps)
  then have "bcr_wf replay'" using bcr_consume_wf [OF assms(3)] by (metis snd_conv)
  with econ_apply_ok [OF assms(2) ok(2)] d(2,3) show ?thesis by (simp add: tx_units_def)
qed

lemma apply_block_compensation_kept:
  assumes "apply_block_compensation sha alloc provider prior history has_next tx rest cd = (STN_DATA_OK, cd', rest'')"
    "candidate_inv sha ed c cd" "cd_block_compensation cd \<noteq> None" "cd_economy cd \<noteq> None" "hash_fn_ok sha"
  shows "has_next \<and> (\<exists>itx. front_tx sha rest = (Inr itx, rest'') \<and> kept_by sha ed c cd (tx_units itx) cd')"
proof -
  obtain w r where w: "cd_economy cd = Some w" "econ_wf (own_state w)" "cd_block_compensation cd = Some r" "bcr_wf r"
    using assms(2-4) by (auto simp: candidate_inv_def parts_inv_def)
  note call = assms(1) [unfolded apply_block_compensation_def Let_def]
  obtain e where e: "has_next" "stn_block_compensation_decode (txn_record_bytes tx) = Inr e"
    using call by (cases "stn_block_compensation_decode (txn_record_bytes tx)"; cases has_next) auto
  obtain found where f: "(case history of
      Some blocks \<Rightarrow> history_has_block sha provider (ev_block_id e) blocks
    | None \<Rightarrow> Inr (cs_has_tip prior \<and> memcmp (cs_tip_id prior) (ev_block_id e) = 0)) = Inr found"
  proof (cases "case history of
      Some blocks \<Rightarrow> history_has_block sha provider (ev_block_id e) blocks
    | None \<Rightarrow> Inr (cs_has_tip prior \<and> memcmp (cs_tip_id prior) (ev_block_id e) = 0)")
    case (Inl x)
    then have "x \<noteq> STN_DATA_OK" using history_has_block_status by (auto split: option.splits)
    with call Inl show ?thesis unfolding e(2) by (cases history) (simp_all add: e(1))
  qed (rule that)
  note step = call [unfolded e(2) if_P [OF e(1)] sum.case f]
  have found by (rule ccontr) (use step in \<open>auto split: if_splits\<close>)
  obtain itx where itx: "front_tx sha rest = (Inr itx, snd (front_tx sha rest))" "txn_type itx = STN_TX_ISSUANCE"
      "rest'' = snd (front_tx sha rest)"
    using step \<open>found\<close> by (cases "front_tx sha rest"; cases "fst (front_tx sha rest)") (auto split: if_splits prod.splits)
  obtain replay' economy' where pair:
      "stn_block_compensation_candidate_apply sha alloc tx itx r (mapping_of prior cd) (own_state w) =
        (STN_DATA_OK, replay', economy')"
      "cd' = cd\<lparr>cd_block_compensation := Some replay', cd_economy := Some (w\<lparr>own_state := economy'\<rparr>)\<rparr>"
    using step \<open>found\<close> itx w(1,3)
    by (cases "front_tx sha rest") (auto split: if_splits prod.splits)
  from compensation_pair_kept [OF pair(1) w(2,4) assms(5)] assms(2) w e(1) itx pair(2) show ?thesis
    by (auto simp: kept_by_def candidate_inv_def parts_inv_def same_copies_def supply_of_def)
qed


section \<open>All transactions of a block\<close>

text \<open>The units a body issues.\<close>

fun body_units :: "stn_hash_fn \<Rightarrow> nat \<Rightarrow> bytes \<Rightarrow> nat" where
  "body_units sha 0 rest = 0"
| "body_units sha (Suc i) rest =
     (case front_tx sha rest of
        (Inl _, _) \<Rightarrow> 0
      | (Inr tx, rest') \<Rightarrow> tx_units tx + body_units sha i rest')"

lemma kept_trans: "kept_by sha ed c a m b \<Longrightarrow> kept_by sha ed c b n d \<Longrightarrow> kept_by sha ed c a (m + n) d"
  by (auto simp: kept_by_def intro: same_copies_trans)

lemma front_tx_record: "front_tx sha rest = (Inr tx, rest') \<Longrightarrow> txn_record_bytes tx \<noteq> None"
  by (auto simp: front_tx_def Let_def dest!: tx_codec.dec_wf simp: wf_tx_def)

lemma apply_one_kept:
  assumes r: "(if txn_type tx = STN_TX_ISSUANCE then apply_issuance sha prior history tx cd
     else if txn_type tx = STN_TX_TRANSFER then apply_transfer sha ed tx cd
     else if txn_type tx = STN_TX_COMPENSATION_DESTINATION then apply_destination tx cd
     else if txn_type tx = STN_TX_CONTRACT_ACTION then apply_contract sha ed draft provider prior tx cd
     else if txn_type tx = STN_TX_SHARE_EVIDENCE then apply_share sha c prior history height tx cd
     else apply_lifecycle ed statement c prior height tx cd) = (STN_DATA_OK, cd')"
    and inv: "candidate_inv sha ed c cd" and present: "copy_present cd (txn_type tx)"
    and bytes: "txn_record_bytes tx \<noteq> None"
  shows "kept_by sha ed c cd (tx_units tx) cd'"
proof -
  have zero: "kept_by sha ed c cd 0 cd' \<Longrightarrow> txn_type tx \<noteq> STN_TX_ISSUANCE \<Longrightarrow> ?thesis" by (simp add: tx_units_def)
  consider (issuance) "txn_type tx = STN_TX_ISSUANCE" | (transfer) "txn_type tx = STN_TX_TRANSFER"
    | (destination) "txn_type tx = STN_TX_COMPENSATION_DESTINATION" | (contract) "txn_type tx = STN_TX_CONTRACT_ACTION"
    | (share) "txn_type tx = STN_TX_SHARE_EVIDENCE"
    | (lifecycle) "txn_type tx \<notin> {STN_TX_ISSUANCE, STN_TX_TRANSFER, STN_TX_COMPENSATION_DESTINATION,
        STN_TX_CONTRACT_ACTION, STN_TX_SHARE_EVIDENCE}" by blast
  then show ?thesis
  proof cases
    case issuance
    with r present have "apply_issuance sha prior history tx cd = (STN_DATA_OK, cd')" "cd_economy cd \<noteq> None"
      by (simp_all add: copy_present_def)
    then show ?thesis by (rule apply_issuance_kept [OF _ inv _ issuance])
  next
    case transfer
    with r present have "apply_transfer sha ed tx cd = (STN_DATA_OK, cd')" "cd_economy cd \<noteq> None"
      by (simp_all add: copy_present_def)
    from apply_transfer_kept [OF this(1) inv this(2)] show ?thesis by (rule zero) (simp add: transfer)
  next
    case destination
    with r present have "apply_destination tx cd = (STN_DATA_OK, cd')" "cd_compensation cd \<noteq> None"
      by (simp_all add: copy_present_def)
    from apply_destination_kept [OF this(1) inv this(2)] show ?thesis by (rule zero) (simp add: destination)
  next
    case contract
    with r present have "apply_contract sha ed draft provider prior tx cd = (STN_DATA_OK, cd')" "cd_contracts cd \<noteq> None"
      by (simp_all add: copy_present_def)
    with apply_contract_refused [OF inv this(2), of draft provider prior tx] show ?thesis by simp
  next
    case share
    with r present have "apply_share sha c prior history height tx cd = (STN_DATA_OK, cd')" "cd_shares cd \<noteq> None"
      by (simp_all add: copy_present_def)
    from apply_share_kept [OF this(1) inv this(2)] show ?thesis by (rule zero) (simp add: share)
  next
    case lifecycle
    with r have "apply_lifecycle ed statement c prior height tx cd = (STN_DATA_OK, cd')" by simp
    from apply_lifecycle_kept [OF this inv bytes] show ?thesis by (rule zero) (use lifecycle in simp)
  qed
qed

lemma apply_loop_kept:
  assumes "apply_loop sha ed alloc c prior history height i rest cd = (STN_DATA_OK, cd')"
    "candidate_inv sha ed c cd" "covered sha cd i rest" "hash_fn_ok sha"
  shows "kept_by sha ed c cd (body_units sha i rest) cd'"
  using assms(1-3)
proof (induction i arbitrary: rest cd rule: less_induct)
  case (less i)
  show ?case
  proof (cases i)
    case 0
    with less.prems show ?thesis by (simp add: kept_by_def)
  next
    case (Suc j)
    obtain tx rest' where f: "front_tx sha rest = (Inr tx, rest')"
      using less.prems(1) Suc by (cases "front_tx sha rest"; cases "fst (front_tx sha rest)") auto
    have present: "copy_present cd (txn_type tx)" "covered sha cd j rest'" using less.prems(3) Suc f by simp_all
    note bytes = front_tx_record [OF f]
    show ?thesis
    proof (cases "txn_type tx = STN_TX_BLOCK_COMPENSATION_EVIDENCE")
      case True
      obtain cd1 rest1 where one: "apply_block_compensation sha (alloc (Site_balances j)) (cx_hash_provider c) prior
            history (j \<noteq> 0) tx rest' cd = (STN_DATA_OK, cd1, rest1)"
          "apply_loop sha ed alloc c prior history height (j - 1) rest1 cd1 = (STN_DATA_OK, cd')"
        using less.prems(1) Suc f True by (auto split: prod.splits if_splits)
      have "cd_block_compensation cd \<noteq> None" "cd_economy cd \<noteq> None"
        using present(1) True by (simp_all add: copy_present_def)
      from apply_block_compensation_kept [OF one(1) less.prems(2) this assms(4)] obtain itx k where
          k: "j = Suc k" "front_tx sha rest' = (Inr itx, rest1)" "kept_by sha ed c cd (tx_units itx) cd1"
        by (cases j) auto
      have "covered sha cd1 k rest1"
        using present(2) k covered_same [of cd cd1 sha k rest1] by (simp add: kept_by_def)
      from less.IH [of k rest1 cd1] k one(2) this Suc have
          "kept_by sha ed c cd1 (body_units sha k rest1) cd'" by (simp add: kept_by_def)
      from kept_trans [OF k(3) this] show ?thesis using Suc f k(1,2) True by (simp add: tx_units_def)
    next
      case False
      define d where "d = (if txn_type tx = STN_TX_ISSUANCE then apply_issuance sha prior history tx cd
         else if txn_type tx = STN_TX_TRANSFER then apply_transfer sha ed tx cd
         else if txn_type tx = STN_TX_COMPENSATION_DESTINATION then apply_destination tx cd
         else if txn_type tx = STN_TX_CONTRACT_ACTION
         then apply_contract sha ed (alloc (Site_draft j)) (cx_hash_provider c) prior tx cd
         else if txn_type tx = STN_TX_SHARE_EVIDENCE then apply_share sha c prior history height tx cd
         else apply_lifecycle ed (alloc (Site_statement j)) c prior height tx cd)"
      have "(case d of (status, cd1) \<Rightarrow> if status \<noteq> STN_DATA_OK then (status, cd1)
          else apply_loop sha ed alloc c prior history height j rest' cd1) = (STN_DATA_OK, cd')"
        using less.prems(1) Suc f False unfolding d_def by simp
      then obtain cd1 where one: "d = (STN_DATA_OK, cd1)"
          "apply_loop sha ed alloc c prior history height j rest' cd1 = (STN_DATA_OK, cd')"
        by (auto split: prod.splits if_splits)
      have kept: "kept_by sha ed c cd (tx_units tx) cd1"
        by (rule apply_one_kept [OF one(1) [unfolded d_def] less.prems(2) present(1) bytes])
      have "covered sha cd1 j rest'"
        using present(2) kept covered_same [of cd cd1 sha j rest'] by (simp add: kept_by_def)
      from less.IH [of j rest' cd1] kept one(2) this Suc have
          "kept_by sha ed c cd1 (body_units sha j rest') cd'" by (simp add: kept_by_def)
      from kept_trans [OF kept this] show ?thesis using Suc f by simp
    qed
  qed
qed

end
