(* ===== verification/Stn_Chain_Run.thy ===== *)
theory Stn_Chain_Run
  imports Stn_Chain_Invariant
begin

text \<open>
  The states a chain reaches: the initial state of a context and what accepted blocks make of it. The
  snapshots keep their invariants, the supply is what the blocks issued, and the blocks are a linked
  chain whose proofs of work add up to the state's cumulative work.
\<close>

section \<open>The units a block issues\<close>

definition block_units :: "stn_hash_fn \<Rightarrow> bytes \<Rightarrow> nat" where
  "block_units sha bs =
     (case stn_block_decode sha (Some bs) of
        Inl _ \<Rightarrow> 0
      | Inr b \<Rightarrow> body_units sha (unat (bh_transaction_count (blk_header b))) (the (blk_body b)))"

lemma scan_issuance_mono:
  "scan_loop sha c active i rest fl = Inr fl' \<Longrightarrow> has_issuance fl \<Longrightarrow> has_issuance fl'"
  by (induction i arbitrary: rest fl) (auto split: prod.splits sum.splits if_splits)

lemma scan_no_issuance:
  assumes "scan_loop sha c active i rest fl = Inr fl'" "\<not> has_issuance fl'"
  shows "body_units sha i rest = 0"
  using assms
proof (induction i arbitrary: rest fl)
  case 0
  then show ?case by simp
next
  case (Suc i)
  obtain tx rest' where f: "front_tx sha rest = (Inr tx, rest')"
    using Suc.prems(1) by (cases "front_tx sha rest"; cases "fst (front_tx sha rest)") auto
  obtain fl1 where n: "scan_loop sha c active i rest' fl1 = Inr fl'"
      "txn_type tx = STN_TX_ISSUANCE \<longrightarrow> has_issuance fl1"
    using Suc.prems(1) f by (auto split: if_splits sum.splits)
  have "txn_type tx \<noteq> STN_TX_ISSUANCE"
    using scan_issuance_mono [OF n(1)] n(2) Suc.prems(2) by blast
  then show ?case using Suc.IH [OF n(1) Suc.prems(2)] f by (simp add: tx_units_def)
qed

lemma economic_clone_supply: "economic_clone alloc s = Some e \<Longrightarrow> supply_of (Some e) = supply_of (cs_economy s)"
  by (auto simp: economic_clone_def supply_of_def split: option.splits if_splits)

lemma copies_supply:
  assumes "candidate_copies alloc prior own count fl = Some cd"
  shows "(cd_economy cd = None \<longleftrightarrow> \<not> (has_issuance fl \<or> has_transfer fl \<or> has_block_compensation fl)) \<and>
    (cd_economy cd \<noteq> None \<longrightarrow> supply_of (cd_economy cd) = supply_of (cs_economy prior))"
proof -
  let ?e = "economic_clone (alloc Site_economy) prior"
    and ?p = "has_issuance fl \<or> has_transfer fl \<or> has_block_compensation fl"
  have "\<not> (?p \<and> ?e = None)" "cd_economy cd = (if ?p then ?e else None)"
    using assms unfolding candidate_copies_def Let_def if_none_some by simp_all
  then show ?thesis using economic_clone_supply by (cases ?e) auto
qed

section \<open>The invariant of one accepted block\<close>

lemma pred_option_committed: "pred_option P x \<Longrightarrow> pred_option P y \<Longrightarrow> pred_option P (if x = None then y else x)"
  by (rule if_split [THEN iffD2]) blast

lemma committed_present: "y \<noteq> None \<Longrightarrow> (if x = None then y else x) \<noteq> None"
  by simp

lemma commit_fields:
  "cs_lifecycle (commit_candidate s cd) = (if cd_lifecycle cd = None then cs_lifecycle s else cd_lifecycle cd)"
  "cs_contracts (commit_candidate s cd) = (if cd_contracts cd = None then cs_contracts s else cd_contracts cd)"
  "cs_shares (commit_candidate s cd) = (if cd_shares cd = None then cs_shares s else cd_shares cd)"
  "cs_block_compensation (commit_candidate s cd) =
     (if cd_block_compensation cd = None then cs_block_compensation s else cd_block_compensation cd)"
  "cs_compensation (commit_candidate s cd) = (if cd_compensation cd = None then cs_compensation s else cd_compensation cd)"
  "cs_economy (commit_candidate s cd) = (if cd_economy cd = None then cs_economy s else cd_economy cd)"
  by (simp_all add: commit_candidate_def)

lemma commit_inv:
  assumes "candidate_inv sha ed c cd" "chain_inv sha ed c s"
  shows "chain_inv sha ed c (commit_candidate s cd)"
  using assms(2) [unfolded chain_inv_def parts_inv_def] assms(1) [unfolded candidate_inv_def parts_inv_def]
  unfolding chain_inv_def parts_inv_def commit_fields
  by (elim conjE) (intro conjI pred_option_committed committed_present; assumption)

lemma work_step_cases:
  assumes "work_step sha c prior bs h s"
  obtains ident work target headers where
    "stn_chain_block_id sha (Some bs) (cx_hash_provider c) = Inr ident" "\<not> zero32 ident"
    "s = prior\<lparr>cs_has_tip := True, cs_height := bh_height h, cs_timestamp := bh_timestamp h, cs_tip_id := ident,
       cs_genesis_id := (if \<not> cs_has_tip prior then ident else cs_genesis_id prior),
       cs_cumulative_work := work, cs_current_target := target, cs_target_history := headers\<rparr>"
    "case cx_pow_policy c of
       None \<Rightarrow> work = cs_cumulative_work prior \<and> target = cs_current_target prior \<and> headers = cs_target_history prior
     | Some _ \<Rightarrow> stn_pow_compare (Some ident) (bh_reserved_target h) = STN_DATA_OK \<and>
         (\<exists>unit. stn_target_work (bh_reserved_target h) = Inr unit \<and>
           stn_work_add (Some (cs_cumulative_work prior)) (Some unit) = Inr work) \<and>
         target = bh_reserved_target h \<and> headers = next_target_history prior h"
proof (cases "cx_pow_policy c")
  case None
  with assms obtain ident where i: "stn_chain_block_id sha (Some bs) (cx_hash_provider c) = Inr ident" "\<not> zero32 ident"
      "s = prior\<lparr>cs_has_tip := True, cs_height := bh_height h, cs_timestamp := bh_timestamp h, cs_tip_id := ident,
         cs_genesis_id := (if \<not> cs_has_tip prior then ident else cs_genesis_id prior)\<rparr>"
    unfolding work_step_def Let_def None option.case by blast
  show ?thesis
    by (rule that [OF i(1,2), where work = "cs_cumulative_work prior" and
         target = "cs_current_target prior" and headers = "cs_target_history prior"])
       (simp_all add: i(3) None)
next
  case (Some fixed)
  with assms obtain ident unit work where i:
      "stn_chain_block_id sha (Some bs) (cx_hash_provider c) = Inr ident" "\<not> zero32 ident"
      "stn_pow_compare (Some ident) (bh_reserved_target h) = STN_DATA_OK"
      "stn_target_work (bh_reserved_target h) = Inr unit"
      "stn_work_add (Some (cs_cumulative_work prior)) (Some unit) = Inr work"
      "s = prior\<lparr>cs_has_tip := True, cs_height := bh_height h, cs_timestamp := bh_timestamp h, cs_tip_id := ident,
         cs_genesis_id := (if \<not> cs_has_tip prior then ident else cs_genesis_id prior)\<rparr>
         \<lparr>cs_cumulative_work := work, cs_current_target := bh_reserved_target h,
          cs_target_history := next_target_history prior h\<rparr>"
    unfolding work_step_def Let_def Some option.case by blast
  show ?thesis
    by (rule that [OF i(1,2), where work = work and target = "bh_reserved_target h" and
         headers = "next_target_history prior h"])
       (use i(3-5) in \<open>simp_all add: i(6) Some\<close>)
qed

lemma work_step_snapshots:
  assumes "work_step sha c prior bs h s"
  shows "cs_lifecycle s = cs_lifecycle prior" "cs_contracts s = cs_contracts prior" "cs_shares s = cs_shares prior"
    "cs_block_compensation s = cs_block_compensation prior" "cs_compensation s = cs_compensation prior"
    "cs_economy s = cs_economy prior" "cs_network_id s = cs_network_id prior" "cs_activation s = cs_activation prior"
  by (rule work_step_cases [OF assms], simp)+

lemma work_step_inv: "work_step sha c prior bs h s \<Longrightarrow> chain_inv sha ed c prior \<Longrightarrow> chain_inv sha ed c s"
  by (simp add: chain_inv_def work_step_snapshots)

lemma transactions_kept:
  assumes "transactions_step sha ed alloc c prior history own b cd'" "chain_inv sha ed c prior" "hash_fn_ok sha"
    "work_step sha c prior bs h base"
  shows "candidate_inv sha ed c cd' \<and>
    supply_of (cs_economy (commit_candidate base cd')) = supply_of (cs_economy prior) +
      body_units sha (unat (bh_transaction_count (blk_header b))) (the (blk_body b))"
proof -
  let ?n = "unat (bh_transaction_count (blk_header b))" and ?body = "the (blk_body b)"
  obtain fl cd where t: "scan_loop sha c (bh_height (blk_header b) \<ge> cs_activation prior) ?n ?body no_flags = Inr fl"
      "candidate_copies alloc prior own (bh_transaction_count (blk_header b)) fl = Some cd"
      "if fl = no_flags then cd' = cd
       else apply_loop sha ed alloc c prior history (bh_height (blk_header b)) ?n ?body cd = (STN_DATA_OK, cd')"
    using assms(1) unfolding transactions_step_def by blast
  note inv = candidate_copies_inv [OF t(2) assms(2)]
  have kept: "kept_by sha ed c cd (body_units sha ?n ?body) cd'"
  proof (cases "fl = no_flags")
    case True
    then have "body_units sha ?n ?body = 0" using scan_no_issuance [OF t(1)] by (simp add: no_flags_def)
    with True t(3) inv show ?thesis by (simp add: kept_by_def)
  next
    case False
    have "covered sha cd ?n ?body" using scan_covered [OF t(1) copies_covered [OF t(2)]] by simp
    with False t(3) show ?thesis by (intro apply_loop_kept [OF _ inv _ assms(3)]) auto
  qed
  show ?thesis
  proof (cases "cd_economy cd")
    case None
    then have "\<not> has_issuance fl" using copies_supply [OF t(2)] by simp
    then have "body_units sha ?n ?body = 0" by (rule scan_no_issuance [OF t(1)])
    with None kept show ?thesis
      by (simp add: kept_by_def same_copies_def commit_candidate_def work_step_snapshots [OF assms(4)])
  next
    case (Some e)
    then have "supply_of (cd_economy cd) = supply_of (cs_economy prior)" using copies_supply [OF t(2)] by simp
    with Some kept show ?thesis by (auto simp: kept_by_def same_copies_def commit_candidate_def)
  qed
qed

lemma candidate_kept:
  assumes "validate_candidate sha ed alloc c prior history (Some bs) own = (r, Some s)"
    "chain_inv sha ed c prior" "hash_fn_ok sha"
  shows "chain_inv sha ed c s \<and> supply_of (cs_economy s) = supply_of (cs_economy prior) + block_units sha bs"
proof -
  obtain b base cd where k: "block_links sha c prior bs b" "work_step sha c prior bs (blk_header b) base"
      "transactions_step sha ed alloc c prior history own b cd" "s = commit_candidate base cd"
    using assms(1) candidate_accepted [of sha ed alloc c prior history bs own s] by blast
  have "stn_block_decode sha (Some bs) = Inr b" using k(1) by (simp add: block_links_def)
  with transactions_kept [OF k(3) assms(2,3) k(2)] commit_inv work_step_inv [OF k(2) assms(2)] k(4)
  show ?thesis by (simp add: block_units_def)
qed

section \<open>The initial state\<close>

lemma lifecycle_new_inv: "lifecycle_inv ed roots n provider (lifecycle_new c)"
proof -
  define x where "x = (if cx_initial_identity_count c \<noteq> 0 then hd (the (cx_initial_identities c)) else replicate 32 0)"
  let ?l = "(lifecycle_new c)\<lparr>lc_initial_identity := x\<rparr>"
  have "lc_rotation ?l = stn_identity_rotation_initialize (Some x)" "lc_authority ?l = stn_authority_state_initialize"
      "lc_grants ?l = key_buffer_initialize None 0" "lc_replay ?l = key_buffer_initialize None 0"
    by (simp_all add: lifecycle_new_def stn_lifecycle_initialize_def stn_lifecycle_set_initial_identities_def x_def
        stn_replay_state_initialize_def key_buffer_initialize_def Let_def del: stn_identity_derive.simps)
  then have "lc_rotation (lifecycle_genesis ?l) = lc_rotation (lifecycle_new c)"
      "lc_authority (lifecycle_genesis ?l) = lc_authority (lifecycle_new c)"
      "lc_grants (lifecycle_genesis ?l) = lc_grants (lifecycle_new c)"
      "lc_replay (lifecycle_genesis ?l) = lc_replay (lifecycle_new c)" "buffer_wf (lc_grants ?l)" "buffer_wf (lc_replay ?l)"
    by (simp_all add: lifecycle_genesis_def key_buffer_initialize_def buffer_wf_def buffer_valid_def)
  with lifecycle_genesis_inv [of ?l ed roots n provider] show ?thesis by (simp add: lifecycle_inv_def)
qed

lemma initialize_inv:
  assumes "stn_chain_initialize sha alloc c = Inr s"
  shows "chain_inv sha ed c s \<and> supply_of (cs_economy s) = 0"
proof -
  obtain n where s: "stn_contract_snapshot_create (alloc Site_contracts) = Some n" "cs_lifecycle s = Some (lifecycle_new c)"
      "cs_contracts s = Some n" "cs_shares s = Some share_new" "cs_compensation s = Some compensation_new"
      "cs_block_compensation s = Some block_compensation_new" "cs_economy s = Some economic_new"
    using assms by (auto simp: stn_chain_initialize_def Let_def split: if_splits sum.splits option.splits)
  have "stn_contract_snapshot_create True = Some n"
    using s(1) by (simp add: stn_contract_snapshot_create_def split: if_splits)
  moreover have "buffer_wf share_new \<and> distinct (accepted share_new)"
    by (simp add: share_new_def stn_share_replay_initialize_def key_buffer_initialize_def buffer_wf_def buffer_valid_def accepted_def)
  moreover have "comp_wf compensation_new"
    by (simp add: compensation_new_def comp_wf_def comp_bad_def comp_live_def)
  moreover have "econ_wf (own_state economic_new) \<and> buffer_wf (own_replay economic_new) \<and>
      distinct (accepted (own_replay economic_new))"
    by (simp add: economic_new_def econ_wf_def econ_bad_def econ_live_def units_sum_def key_buffer_initialize_def
        buffer_wf_def buffer_valid_def accepted_def)
  moreover have "supply_of (Some economic_new) = 0" by (simp add: supply_of_def economic_new_def)
  ultimately show ?thesis
    using s lifecycle_new_inv bcr_initialize_wf by (simp add: chain_inv_def parts_inv_def block_compensation_new_def)
qed

section \<open>Reachable states\<close>

text \<open>
  A run from the initial state; each block is validated as a single candidate or, in a reconstruction,
  against the blocks accepted before it, whatever allocation answers.
\<close>

inductive chain_run ::
  "stn_hash_fn \<Rightarrow> ed25519 \<Rightarrow> stn_chain_context \<Rightarrow> bytes list \<Rightarrow> stn_chain_state \<Rightarrow> bool"
  for sha ed c where
  run_start: "stn_chain_initialize sha alloc c = Inr s \<Longrightarrow> chain_run sha ed c [] s"
| run_block: "chain_run sha ed c blocks s \<Longrightarrow>
    validate_candidate sha ed alloc c s history (Some block) own = (r, Some s') \<Longrightarrow>
    history = None \<or> history = Some blocks \<Longrightarrow> chain_run sha ed c (blocks @ [block]) s'"

lemma chain_run_inv:
  assumes "chain_run sha ed c blocks s" "hash_fn_ok sha"
  shows "chain_inv sha ed c s \<and> supply_of (cs_economy s) = sum_list (map (block_units sha) blocks)"
  using assms(1)
proof induction
  case (run_start alloc s)
  then show ?case using initialize_inv by fastforce
next
  case (run_block blocks s alloc history block own r s')
  from candidate_kept [OF run_block.hyps(2) conjunct1 [OF run_block.IH] assms(2)] run_block.IH show ?case by simp
qed

end
