(* ===== verification/Stn_Chain_Target.thy ===== *)
theory Stn_Chain_Target
  imports Stn_Chain_Linked
begin

text \<open>
  The target window and the work of a reachable state. The headers kept are those of the current
  retarget window, so the required target of the next block is always defined, and the state passes
  every check of \<^verbatim>\<open>prior_valid\<close>.
\<close>

section \<open>The window of headers\<close>

lemma target_history_snoc:
  "target_history_ok height t prev (hs @ [x]) \<longleftrightarrow>
     target_history_ok height t prev hs \<and> bh_height x = height + word_of_nat (length hs) \<and> bh_version x = 3 \<and>
     bh_reserved_target x = t \<and>
     (case (if hs = [] then prev else Some (bh_timestamp (last hs))) of None \<Rightarrow> True | Some u \<Rightarrow> u \<le> bh_timestamp x)"
  by (induction hs arbitrary: height prev) (auto simp: not_less algebra_simps split: option.splits)

lemma target_history_nth:
  assumes "target_history_ok height t prev hs" "j < length hs"
  shows "bh_height (hs ! j) = height + word_of_nat j \<and> bh_version (hs ! j) = 3 \<and> bh_reserved_target (hs ! j) = t"
  using assms
proof (induction hs arbitrary: height prev j)
  case Nil
  then show ?case by simp
next
  case (Cons h hs)
  then have ok: "bh_height h = height" "bh_version h = 3" "bh_reserved_target h = t"
      "target_history_ok (height + 1) t (Some (bh_timestamp h)) hs" by (auto split: if_splits)
  show ?case
  proof (cases j)
    case 0
    with ok show ?thesis by simp
  next
    case (Suc k)
    with Cons.IH [OF ok(4), of k] Cons.prems(2) show ?thesis by (simp add: algebra_simps)
  qed
qed

definition window_inv :: "bytes \<Rightarrow> stn_chain_state \<Rightarrow> bool" where
  "window_inv fixed s \<longleftrightarrow> wf_work (cs_cumulative_work s) \<and>
     (if \<not> cs_has_tip s
      then cs_height s = 0 \<and> cs_current_target s = replicate 32 0 \<and> cs_cumulative_work s = zero_work \<and>
        cs_target_history s = []
      else stn_target_validate (Some (cs_current_target s)) = STN_DATA_OK \<and>
        0 < work_value (cs_cumulative_work s) \<and>
        length (cs_target_history s) = unat (cs_height s) mod 60 + 1 \<and>
        target_history_ok (cs_height s + 1 - word_of_nat (length (cs_target_history s))) (cs_current_target s) None
          (cs_target_history s) \<and>
        bh_timestamp (last (cs_target_history s)) = cs_timestamp s \<and>
        (cs_height s < 60 \<longrightarrow> cs_current_target s = fixed \<and>
          work_value (cs_cumulative_work s) = (unat (cs_height s) + 1) * (2 ^ 256 div (be fixed + 1))))"

lemma unat_mod_60: "unat (h mod 60 :: u64) = unat h mod 60"
  by (simp add: unat_mod)

lemma boundary_iff: "boundary h \<longleftrightarrow> h \<noteq> 0 \<and> h mod 60 = 0"
proof -
  have "h mod 60 = 0 \<longleftrightarrow> unat h mod 60 = 0"
    unfolding unat_mod_60 [symmetric] by (subst word_unat_eq_iff) simp
  moreover have "h \<noteq> 0 \<longleftrightarrow> 0 < unat h" by (simp add: unat_gt_0)
  moreover have "h \<ge> 60 \<longleftrightarrow> 60 \<le> unat h" by (simp add: word_le_nat_alt)
  moreover have "60 \<le> n \<longleftrightarrow> 0 < n" if "n mod 60 = 0" for n :: nat using that by auto
  ultimately show ?thesis unfolding boundary_def by metis
qed

text \<open>The required target of the block after a state in the invariant.\<close>

lemma required_target_cases:
  assumes "context_valid sha c = STN_DATA_OK" "prior_valid sha c s = STN_DATA_OK" "cx_pow_policy c = Some fixed"
    "window_inv fixed s" "cs_height s \<noteq> 18446744073709551615"
  shows "stn_chain_required_target sha c s =
    Inr (if \<not> cs_has_tip s then fixed
         else if boundary (cs_height s + 1) then retarget (hd (cs_target_history s)) (last (cs_target_history s))
         else cs_current_target s)"
proof -
  have fixed: "stn_target_validate (Some fixed) = STN_DATA_OK" using context_genesis [OF assms(1)] assms(3) by auto
  let ?hs = "cs_target_history s" and ?h = "cs_height s + 1"
  show ?thesis
  proof (cases "cs_has_tip s")
    case False
    then have "cs_target_history s = []" using assms(4) by (simp add: window_inv_def)
    moreover have "stn_target_next 0 (Some fixed) None 0 = Inr fixed"
      using fixed by (simp add: stn_target_next_def required_history_def boundary_def Let_def)
    ultimately show ?thesis
      using False assms(1-3) by (simp add: stn_chain_required_target_def Let_def)
  next
    case True
    then have tip: "\<not> \<not> cs_has_tip s" by simp
    have w: "stn_target_validate (Some (cs_current_target s)) = STN_DATA_OK"
        "length ?hs = unat (cs_height s) mod 60 + 1"
        "target_history_ok (?h - word_of_nat (length ?hs)) (cs_current_target s) None ?hs"
        "bh_timestamp (last ?hs) = cs_timestamp s" "cs_height s < 60 \<longrightarrow> cs_current_target s = fixed"
      using assms(4) unfolding window_inv_def if_not_P [OF tip] by blast+
    have ne: "?hs \<noteq> []" using w(2) by auto
    note up = height_next [OF assms(5)]
    have nz: "?h \<noteq> 0" using up by (metis add_is_0 unat_0 one_neq_zero)
    have window: "?hs ! (length ?hs - 1) = last ?hs" "?hs ! 0 = hd ?hs"
      using ne by (simp_all add: last_conv_nth hd_conv_nth)
    define used where "used = (if boundary ?h then ?hs else [last ?hs])"
    have count: "length used = required_history ?h"
    proof (cases "boundary ?h")
      case True
      then have "(unat (cs_height s) + 1) mod 60 = 0"
        using up unat_mod_60 [of ?h] by (simp add: boundary_def)
      then have "unat (cs_height s) mod 60 = 59" by presburger
      with True w(2) nz show ?thesis by (simp add: used_def required_history_def)
    qed (use nz in \<open>simp add: used_def required_history_def\<close>)
    have small: "?h \<le> 60 \<Longrightarrow> cs_current_target s = fixed"
      using w(5) up by (simp add: word_le_nat_alt word_less_nat_alt)
    have entry: "history_entry_ok ?h fixed (length used) j (used ! j)" if "j < length used" for j
    proof -
      have at: "used ! j = ?hs ! (j + length ?hs - length used)" "j + length ?hs - length used < length ?hs"
        using that ne window(1) by (auto simp: used_def split: if_splits)
      have "(word_of_nat (j + length ?hs - length used) :: u64) = word_of_nat j + word_of_nat (length ?hs) - word_of_nat (length used)"
        using that ne by (auto simp: used_def of_nat_diff Suc_leI)
      with target_history_nth [OF w(3) at(2)] w(1) small show ?thesis
        by (simp add: history_entry_ok_def at(1))
    qed
    have "stn_target_next ?h (Some fixed) (Some used) (length used) =
        Inr (if boundary ?h then retarget (used ! 0) (used ! 59)
             else if ?h < 60 then fixed else bh_reserved_target (used ! (length used - 1)))"
      unfolding target_next_iff [OF fixed refl] using count entry by blast
    moreover have "bh_reserved_target (last ?hs) = cs_current_target s"
      using target_history_nth [OF w(3), of "length ?hs - 1"] ne window(1) by simp
    moreover have "length ?hs = 60" if "boundary ?h"
      using count that nz by (simp add: used_def required_history_def)
    ultimately have "stn_target_next ?h (Some fixed) (Some used) (length used) =
        Inr (if boundary ?h then retarget (hd ?hs) (last ?hs) else cs_current_target s)"
      using small window by (auto simp: used_def)
    moreover have "drop (length ?hs - 1) ?hs = [last ?hs]"
      using ne by (metis One_nat_def append_butlast_last_id append_eq_conv_conj length_butlast)
    ultimately have "(if ?h \<noteq> 0 \<and> ?h mod 60 = 0 then stn_target_next ?h (Some fixed) (Some ?hs) (length ?hs)
        else stn_target_next ?h (Some fixed) (if length ?hs = 0 then None else Some (drop (length ?hs - 1) ?hs))
          (if length ?hs = 0 then 0 else 1)) =
        Inr (if boundary ?h then retarget (hd ?hs) (last ?hs) else cs_current_target s)"
      using ne unfolding boundary_iff used_def by (auto split: if_splits)
    then show ?thesis
      using True assms(1-3,5) w(2-4) window(1) ne
      by (simp add: stn_chain_required_target_def Let_def unat_mod_60)
  qed
qed


section \<open>One block\<close>

lemma work_positive:
  assumes "stn_target_validate (Some t) = STN_DATA_OK"
  shows "(0 :: nat) < 2 ^ 256 div (be t + 1)"
proof -
  have "be t + 1 \<le> 2 ^ 255" using assms by (simp add: target_validate_iff)
  then have "be t + 1 \<le> (2 :: nat) ^ 256" by simp
  then show ?thesis by (simp only: div_greater_zero_iff) simp
qed

lemma initialize_window:
  assumes "stn_chain_initialize sha alloc c = Inr s"
  shows "window_inv fixed s" "wf_work (cs_cumulative_work s)" "work_value (cs_cumulative_work s) = 0"
  using initialize_tip [OF assms]
  by (simp_all add: window_inv_def tip_inv_def zero_work_def wf_work_def work_value_def)

lemma step_work:
  assumes "wf_work (cs_cumulative_work s)" "stn_target_work t = Inr unit"
    "stn_work_add (Some (cs_cumulative_work s)) (Some unit) = Inr w"
  shows "stn_target_validate (Some t) = STN_DATA_OK" "wf_work w"
    "work_value w = work_value (cs_cumulative_work s) + 2 ^ 256 div (be t + 1)"
proof -
  show ok: "stn_target_validate (Some t) = STN_DATA_OK"
    using assms(2) target_work_error [of t] by fastforce
  obtain u where u: "stn_target_work t = Inr u" "wf_work u" "work_value u = 2 ^ 256 div (be t + 1)"
    by (rule target_work_correct [OF ok])
  with assms(2) have "unit = u" by simp
  with work_add_cases [OF assms(1) u(2)] assms(3) u(3)
  show "wf_work w" "work_value w = work_value (cs_cumulative_work s) + 2 ^ 256 div (be t + 1)"
    by (auto split: if_splits)
qed

lemma step_window:
  assumes "window_inv fixed s" "cx_pow_policy c = Some fixed"
    "validate_candidate sha ed alloc c s history (Some bs) own = (r, Some s')"
  shows "window_inv fixed s' \<and>
    work_value (cs_cumulative_work s') = work_value (cs_cumulative_work s) + block_work sha bs"
proof (rule candidate_step [OF assms(3)])
  fix b :: stn_block and ident work target headers
  let ?h = "bh_height (blk_header b)" and ?t = "bh_reserved_target (blk_header b)"
  assume links: "block_links sha c s bs b"
    and s': "cs_has_tip s'" "cs_height s' = ?h" "cs_timestamp s' = bh_timestamp (blk_header b)"
      "cs_cumulative_work s' = work" "cs_current_target s' = target" "cs_target_history s' = headers"
    and step: "case cx_pow_policy c of
       None \<Rightarrow> work = cs_cumulative_work s \<and> target = cs_current_target s \<and> headers = cs_target_history s
     | Some _ \<Rightarrow> stn_pow_compare (Some ident) ?t = STN_DATA_OK \<and>
         (\<exists>unit. stn_target_work ?t = Inr unit \<and> stn_work_add (Some (cs_cumulative_work s)) (Some unit) = Inr work) \<and>
         target = ?t \<and> headers = next_target_history s (blk_header b)"
  note l = links_facts [OF links]
  obtain unit where u: "stn_target_work ?t = Inr unit" "stn_work_add (Some (cs_cumulative_work s)) (Some unit) = Inr work"
      "target = ?t" "headers = next_target_history s (blk_header b)"
    using step assms(2) by auto
  have "wf_work (cs_cumulative_work s)" using assms(1) by (simp add: window_inv_def)
  note w = step_work [OF this u(1,2)]
  have sum: "work_value work = work_value (cs_cumulative_work s) + block_work sha bs"
    using w(3) by (simp add: block_work_def l(4))
  have "cs_height s \<noteq> 18446744073709551615"
    using l(8) assms(1) by (cases "cs_has_tip s") (simp_all add: window_inv_def)
  note required = required_target_cases [OF l(1,2) assms(2,1) this]
  let ?hdr = "\<lparr>bh_version = 3, bh_flags = 0, bh_network_id = replicate 32 0, bh_previous_hash = replicate 32 0,
      bh_height = ?h, bh_timestamp = bh_timestamp (blk_header b), bh_transaction_commitment = replicate 32 0,
      bh_reserved_target = ?t, bh_reserved_work_nonce = 0, bh_transaction_count = 0, bh_body_length = 0\<rparr>"
  have fresh: "window_inv fixed s'"
    if "?h mod 60 = 0" "?h < 60 \<longrightarrow> ?t = fixed \<and> work_value (cs_cumulative_work s) = unat ?h * (2 ^ 256 div (be fixed + 1))"
  proof -
    have "headers = [?hdr]" using u(4) that(1) by (simp add: next_target_history_def)
    moreover have "unat ?h mod 60 = 0" using that(1) unat_mod_60 [of ?h] by simp
    ultimately show ?thesis
      using s' w work_positive [OF w(1)] u(3) that(2) by (simp add: window_inv_def algebra_simps)
  qed
  have "window_inv fixed s'"
  proof (cases "cs_has_tip s")
    case False
    then have "?h = 0" "?t = fixed" "work_value (cs_cumulative_work s) = 0"
      using l(12) [OF False] context_genesis [OF l(1)] l(3) assms(1,2)
      by (auto simp: window_inv_def zero_work_def work_value_def)
    then show ?thesis by (intro fresh) simp_all
  next
    case True
    then have tip: "\<not> \<not> cs_has_tip s" by simp
    have old: "length (cs_target_history s) = unat (cs_height s) mod 60 + 1"
        "target_history_ok (cs_height s + 1 - word_of_nat (length (cs_target_history s))) (cs_current_target s) None
          (cs_target_history s)" "bh_timestamp (last (cs_target_history s)) = cs_timestamp s"
        "cs_height s < 60 \<longrightarrow> cs_current_target s = fixed \<and>
          work_value (cs_cumulative_work s) = (unat (cs_height s) + 1) * (2 ^ 256 div (be fixed + 1))"
      using assms(1) unfolding window_inv_def if_not_P [OF tip] by blast+
    note up = height_next [OF l(8) [OF True]] and h = l(9) [OF True]
    have t: "?t = (if boundary ?h then retarget (hd (cs_target_history s)) (last (cs_target_history s))
        else cs_current_target s)"
      using required l(13) assms(2) True h by simp
    show ?thesis
    proof (cases "?h mod 60 = 0")
      case True
      then have "\<not> ?h < 60"
        using boundary_iff [of ?h] up h by (metis boundary_def h less_numeral_extra(3) linorder_not_less not_add_less2 unat_0 zero_less_one)
      with True show ?thesis by (intro fresh) simp_all
    next
      case False
      then have t': "?t = cs_current_target s" using t boundary_iff [of ?h] by simp
      have hs: "headers = cs_target_history s @ [?hdr]" using u(4) False by (simp add: next_target_history_def)
      have n: "unat ?h mod 60 = unat (cs_height s) mod 60 + 1"
        using False up h unat_mod_60 [of ?h] by (metis One_nat_def Suc_eq_plus1 mod_Suc unat_0 word_unat_eq_iff)
      have ne: "cs_target_history s \<noteq> []" using old(1) by auto
      have base: "?h + 1 - word_of_nat (length headers) = cs_height s + 1 - word_of_nat (length (cs_target_history s))"
        by (simp add: hs h)
      have "target_history_ok (?h + 1 - word_of_nat (length headers)) ?t None headers"
        unfolding base t' unfolding hs target_history_snoc using old(2,3) ne l(11) [OF True] t' h by simp
      moreover have "?h < 60 \<longrightarrow> ?t = fixed \<and>
          work_value (cs_cumulative_work s) = unat ?h * (2 ^ 256 div (be fixed + 1))"
        using old(4) up h t' by (auto simp: word_less_nat_alt)
      ultimately show ?thesis
        using s' w work_positive [OF w(1)] u(3) n old(1) hs by (simp add: window_inv_def algebra_simps)
    qed
  qed
  with sum s'(4) show ?thesis by simp
qed

lemma chain_run_window:
  assumes "chain_run sha ed c blocks s" "cx_pow_policy c = Some fixed"
  shows "window_inv fixed s \<and> work_value (cs_cumulative_work s) = sum_list (map (block_work sha) blocks)"
  using assms(1)
proof induction
  case (run_start alloc s)
  then show ?case using initialize_window by fastforce
next
  case (run_block blocks s alloc history block own r s')
  from step_window [OF conjunct1 [OF run_block.IH] assms(2) run_block.hyps(2)] run_block.IH show ?case by simp
qed

end
