(* ===== verification/Stn_Chain_Correct.thy ===== *)
theory Stn_Chain_Correct
  imports Stn_Chain_Target
begin

text \<open>
  The properties of chain acceptance: what an accepted block is, the invariants and the links of every
  reachable state, and its readiness for the next block. A genesis block on a concrete context shows
  that runs exist.
\<close>

section \<open>Reachable states pass the checks\<close>

lemma zero_work_positive:
  assumes "wf_work w"
  shows "zero_work_bytes w \<longleftrightarrow> work_value w = 0"
proof -
  let ?b = "work_bytes w"
  have len: "length ?b = 40" using assms by (simp add: wf_work_def)
  have "set (take 32 ?b) \<union> set (drop 8 ?b) = set ?b"
  proof
    have "set ?b = set (take 32 ?b) \<union> set (drop 32 ?b)" by (metis append_take_drop_id set_append)
    moreover have "set (drop 32 ?b) \<subseteq> set (drop 8 ?b)" using set_drop_subset_set_drop [of 8 32 ?b] by simp
    ultimately show "set ?b \<subseteq> set (take 32 ?b) \<union> set (drop 8 ?b)" by blast
  qed (use set_take_subset [of 32 ?b] set_drop_subset [of 8 ?b] in blast)
  then show ?thesis
    by (auto simp: zero_work_bytes_def zero32_def nonzero_iff work_value_def be_eq_0_iff)
qed

lemma chain_run_context: "chain_run sha ed c blocks s \<Longrightarrow> context_valid sha c = STN_DATA_OK"
  by (induction rule: chain_run.induct)
     (auto simp: stn_chain_initialize_def Let_def split: if_splits)

lemma chain_run_plain:
  assumes "chain_run sha ed c blocks s" "cx_pow_policy c = None"
  shows "cs_current_target s = replicate 32 0 \<and> cs_cumulative_work s = zero_work"
  using assms(1)
proof induction
  case (run_start alloc s)
  then show ?case using initialize_tip by blast
next
  case (run_block blocks s alloc history block own r s')
  show ?case by (rule candidate_step [OF run_block.hyps(2)]) (use run_block.IH assms(2) in simp)
qed

lemma zero32_zeros [simp]: "zero32 (replicate n 0)"
  by (auto simp: zero32_def nonzero_iff)

lemma prior_work_ok:
  assumes "chain_run sha ed c blocks s"
  shows "prior_work c s = STN_DATA_OK"
proof (cases "cx_pow_policy c")
  case None
  with chain_run_plain [OF assms None] show ?thesis by (simp add: prior_work_def zero_work_bytes_def zero_work_def)
next
  case (Some fixed)
  have w: "window_inv fixed s" using chain_run_window [OF assms Some] by simp
  show ?thesis
  proof (cases "cs_has_tip s")
    case False
    with w have "cs_current_target s = replicate 32 0" "cs_cumulative_work s = zero_work"
      by (simp_all add: window_inv_def)
    with False show ?thesis by (simp add: prior_work_def zero_work_bytes_def zero_work_def)
  next
    case True
    then have tip: "\<not> \<not> cs_has_tip s" by simp
    have v: "stn_target_validate (Some (cs_current_target s)) = STN_DATA_OK" "wf_work (cs_cumulative_work s)"
        "0 < work_value (cs_cumulative_work s)"
        "cs_height s < 60 \<longrightarrow> cs_current_target s = fixed \<and>
          work_value (cs_cumulative_work s) = (unat (cs_height s) + 1) * (2 ^ 256 div (be fixed + 1))"
      using w unfolding window_inv_def if_not_P [OF tip] by blast+
    have "stn_target_validate (Some fixed) = STN_DATA_OK"
      using context_genesis [OF chain_run_context [OF assms]] Some by auto
    from work_at_height_correct [OF this] obtain e where e: "stn_work_at_height fixed (cs_height s) = Inr e"
        "wf_work e" "work_value e = (unat (cs_height s) + 1) * (2 ^ 256 div (be fixed + 1))" by blast
    have "cs_height s < 60 \<Longrightarrow> cs_cumulative_work s = e" using work_value_inj [OF v(2) e(2)] v(4) e(3) by simp
    then show ?thesis
      using True Some v(1,3,4) e(1) zero_work_positive [OF v(2)] by (simp add: prior_work_def)
  qed
qed

lemma prior_tip_ok:
  assumes "chain_run sha ed c blocks s"
  shows "prior_tip sha c s = STN_DATA_OK"
proof -
  have t: "tip_inv sha c blocks s" and l: "\<forall>i < length blocks. linked_at sha c blocks i"
    using chain_run_linked [OF assms] by simp_all
  show ?thesis
  proof (cases "blocks = []")
    case True
    with t show ?thesis by (simp add: tip_inv_def prior_tip_def)
  next
    case False
    have tip: "cs_has_tip s" "unat (cs_height s) + 1 = length blocks"
        "cs_timestamp s = bh_timestamp (header_of sha (last blocks))"
        "bh_timestamp (header_of sha (hd blocks)) \<le> cs_timestamp s" "cx_genesis_bytes c = Some (hd blocks)"
        "stn_chain_block_id sha (Some (last blocks)) (cx_hash_provider c) = Inr (cs_tip_id s)"
        "stn_chain_block_id sha (Some (hd blocks)) (cx_hash_provider c) = Inr (cs_genesis_id s)"
        "\<not> zero32 (cs_tip_id s)" "\<not> zero32 (cs_genesis_id s)"
      using t unfolding tip_inv_def if_not_P [OF False] by blast+
    have "linked_at sha c blocks 0" using l False by simp
    then obtain b where b: "stn_block_decode sha (Some (hd blocks)) = Inr b"
      using False by (auto simp: linked_at_def linked_def hd_conv_nth)
    have one: "last blocks = hd blocks" if "cs_height s = 0"
    proof -
      have "length blocks = 1" using tip(2) that by simp
      then show ?thesis by (cases blocks) auto
    qed
    show ?thesis
    proof (cases "cs_height s = 0")
      case True
      with one tip b show ?thesis by (simp add: prior_tip_def)
    next
      case nz: False
      with tip b show ?thesis by (simp add: prior_tip_def)
    qed
  qed
qed

lemma prior_valid_ok:
  assumes "chain_run sha ed c blocks s" "hash_fn_ok sha"
  shows "prior_valid sha c s = STN_DATA_OK"
proof -
  have t: "cs_network_id s = cx_network_id c" "stn_chain_publication_activation sha c = Inr (cs_activation s)"
    using chain_run_linked [OF assms(1)] by (simp_all add: tip_inv_def)
  obtain r e where i: "cs_block_compensation s = Some r" "bcr_count r \<le> 4096" "cs_economy s = Some e"
      "buffer_valid (own_replay e)"
    using chain_run_inv [OF assms] by (auto simp: chain_inv_def parts_inv_def bcr_wf_def buffer_wf_def)
  show ?thesis
    using t i prior_work_ok [OF assms(1)] prior_tip_ok [OF assms(1)]
    by (simp add: prior_valid_def Let_def)
qed


section \<open>Refusals\<close>

lemma fail_acceptance [simp]: "rp_acceptance (fail r reason detail) \<noteq> STN_ACCEPTANCE_UNDER_CONTEXT"
  by (simp add: fail_def)

lemma stage_refused:
  "candidate_link sha c prior input = Inl r \<Longrightarrow> rp_acceptance r \<noteq> STN_ACCEPTANCE_UNDER_CONTEXT"
  "candidate_target sha c prior h r0 = Inl r \<Longrightarrow> rp_acceptance r \<noteq> STN_ACCEPTANCE_UNDER_CONTEXT"
  "candidate_body sha c prior bs b r0 = Inl r \<Longrightarrow> rp_acceptance r \<noteq> STN_ACCEPTANCE_UNDER_CONTEXT"
  "candidate_work sha c prior bs h r0 = Inl r \<Longrightarrow> rp_acceptance r \<noteq> STN_ACCEPTANCE_UNDER_CONTEXT"
  "candidate_transactions sha ed alloc c prior history own b fl r0 = Inl r \<Longrightarrow>
     rp_acceptance r \<noteq> STN_ACCEPTANCE_UNDER_CONTEXT"
proof -
  show "candidate_link sha c prior input = Inl r \<Longrightarrow> rp_acceptance r \<noteq> STN_ACCEPTANCE_UNDER_CONTEXT"
    by (auto simp: candidate_link_def Let_def split: option.splits if_splits sum.splits)
  show "candidate_target sha c prior h r0 = Inl r \<Longrightarrow> rp_acceptance r \<noteq> STN_ACCEPTANCE_UNDER_CONTEXT"
    by (auto simp: candidate_target_def split: if_splits sum.splits)
  show "candidate_body sha c prior bs b r0 = Inl r \<Longrightarrow> rp_acceptance r \<noteq> STN_ACCEPTANCE_UNDER_CONTEXT"
    by (auto simp: candidate_body_def Let_def split: if_splits sum.splits)
  show "candidate_work sha c prior bs h r0 = Inl r \<Longrightarrow> rp_acceptance r \<noteq> STN_ACCEPTANCE_UNDER_CONTEXT"
    by (auto simp: candidate_work_def Let_def split: if_splits sum.splits)
  show "candidate_transactions sha ed alloc c prior history own b fl r0 = Inl r \<Longrightarrow>
     rp_acceptance r \<noteq> STN_ACCEPTANCE_UNDER_CONTEXT"
    by (auto simp: candidate_transactions_def Let_def split: option.splits prod.splits if_splits)
qed

lemma candidate_refused:
  assumes "validate_candidate sha ed alloc c prior history input own = (r, None)"
  shows "rp_acceptance r \<noteq> STN_ACCEPTANCE_UNDER_CONTEXT"
  using assms stage_refused unfolding validate_candidate_def
  by (auto split: sum.splits if_splits prod.splits)

section \<open>A genesis block\<close>

definition sample_genesis_header :: stn_block_header where
  "sample_genesis_header = sample_block_header\<lparr>bh_transaction_count := 0, bh_body_length := 0\<rparr>"

definition sample_genesis :: bytes where
  "sample_genesis = header_layout sample_genesis_header"

definition sample_context :: stn_chain_context where
  "sample_context =
     \<lparr>cx_network_id = replicate 32 1, cx_genesis_bytes = Some sample_genesis, cx_authority_roots = None,
      cx_authority_root_count = 0, cx_initial_identities = None, cx_initial_identity_count = 0,
      cx_hash_provider = Some sample_sha, cx_pow_policy = Some (0x40 # replicate 31 0)\<rparr>"

lemma sample_genesis_parts: "block_parts sha sample_genesis sample_genesis_header []"
proof -
  have "stn_target_validate (Some (0x40 # replicate 31 0)) = STN_DATA_OK"
    by (simp add: target_validate_iff be_append)
  then have "wf_header sample_genesis_header" "header_valid sample_genesis_header = STN_DATA_OK"
    by (simp_all add: wf_header_def header_valid_def sample_genesis_header_def sample_block_header_def nonzero_iff)
  from header_decode_layout [OF this] this(1) show ?thesis
    by (simp add: block_parts_def sample_genesis_def) (simp add: sample_genesis_header_def)
qed

lemma sample_genesis_decode:
  "stn_block_decode sha (Some sample_genesis) = Inr \<lparr>blk_header = sample_genesis_header, blk_body = Some []\<rparr>"
  using block_parts_decode(1) [OF sample_genesis_parts, of sha] by simp

lemma sample_context_valid: "context_valid sha sample_context = STN_DATA_OK"
proof -
  have "stn_target_validate (Some (0x40 # replicate 31 0)) = STN_DATA_OK"
    by (simp add: target_validate_iff be_append)
  moreover have "stn_authority_root_set_validate None 0 = STN_AUTHORITY_AUTHORIZED"
      "initial_set_valid None 0 = STN_DATA_OK"
    by (simp_all add: stn_authority_root_set_validate_def root_list_def initial_set_valid_def)
  ultimately show ?thesis
    by (simp add: context_valid_def sample_context_def sample_genesis_decode sample_genesis_header_def
        sample_block_header_def)
qed

lemma sample_activation: "stn_chain_publication_activation sample_sha sample_context = Inr 1"
proof -
  have "replicate 32 (9 :: 8 word) = 9 # replicate 31 9" by (simp flip: replicate_Suc)
  then have "find (\<lambda>(g, _). memcmp (replicate 32 9) g = 0) legacy_genesis = None"
    by (simp add: legacy_genesis_def)
  then show ?thesis by (simp add: stn_chain_publication_activation_def sample_context_def sample_sha_def)
qed

lemma sample_initialize: "\<exists>s. stn_chain_initialize sample_sha (\<lambda>_. True) sample_context = Inr s"
  by (simp add: stn_chain_initialize_def sample_context_valid sample_activation stn_contract_snapshot_create_def)

lemma sample_genesis_id: "stn_chain_block_id sample_sha (Some sample_genesis) (Some sample_sha) = Inr (replicate 32 9)"
  by (simp add: stn_chain_block_id_def stn_block_validate_structure_def sample_genesis_decode sample_sha_def)

lemma sample_genesis_pow: "stn_pow_compare (Some (replicate 32 9)) (0x40 # replicate 31 0) = STN_DATA_OK"
proof -
  have "stn_target_validate (Some (0x40 # replicate 31 0)) = STN_DATA_OK"
    by (simp add: target_validate_iff be_append)
  moreover have "replicate 32 (9 :: 8 word) = 9 # replicate 31 9" by (simp flip: replicate_Suc)
  then have "memcmp (replicate 32 9) (0x40 # replicate 31 0) = - 1" by simp
  ultimately show ?thesis by (simp add: Let_def)
qed

text \<open>The genesis block is accepted on the initial state.\<close>

lemma sample_genesis_step:
  assumes s: "stn_chain_initialize sample_sha (\<lambda>_. True) sample_context = Inr s"
  shows "\<exists>r s'. validate_candidate sample_sha sample_ed (\<lambda>_. True) sample_context s history (Some sample_genesis) own =
    (r, Some s')"
proof -
  note run = run_start [OF s, of sample_ed] and tip = initialize_tip [OF s]
  have no: "\<not> cs_has_tip s" using tip(1) by (simp add: tip_inv_def)
  let ?h = "sample_genesis_header"
  let ?b = "\<lparr>blk_header = ?h, blk_body = Some []\<rparr> :: stn_block"
  have h: "bh_version ?h = 3" "bh_network_id ?h = replicate 32 1" "bh_reserved_target ?h = 0x40 # replicate 31 0"
      "bh_transaction_count ?h = 0" "bh_height ?h = 0"
    by (simp_all add: sample_genesis_header_def sample_block_header_def)
  have policy: "cx_pow_policy sample_context = Some (0x40 # replicate 31 0)"
      "cx_hash_provider sample_context = Some sample_sha" "cx_network_id sample_context = replicate 32 1"
      "cx_genesis_bytes sample_context = Some sample_genesis"
    by (simp_all add: sample_context_def)
  have prior: "prior_valid sample_sha sample_context s = STN_DATA_OK"
    by (rule prior_valid_ok [OF run sample_sha_ok])
  have "stn_chain_required_target sample_sha sample_context s = Inr (0x40 # replicate 31 0)"
    using required_target_cases [OF sample_context_valid prior policy(1) initialize_window(1) [OF s]] no tip(1)
    by (simp add: tip_inv_def)
  moreover have "stn_block_check_integrity sample_sha (Some sample_genesis) (Some sample_sha) = STN_DATA_OK"
    unfolding integrity_parts [OF sample_sha_ok sample_genesis_parts]
    by (simp add: sample_sha_def sample_genesis_header_def sample_block_header_def)
  ultimately have links: "block_links sample_sha sample_context s sample_genesis ?b"
    unfolding block_links_def using sample_context_valid prior sample_genesis_decode no
    by (simp add: policy h)
  have "stn_target_validate (Some (0x40 # replicate 31 0)) = STN_DATA_OK"
    by (simp add: target_validate_iff be_append)
  from target_work_correct [OF this] obtain u where u: "stn_target_work (0x40 # replicate 31 0) = Inr u" "wf_work u"
    by blast
  have "work_value (cs_cumulative_work s) + work_value u < 256 ^ 40"
    using initialize_window(3) [OF s] be_less [of "work_bytes u"] u(2) by (simp add: work_value_def wf_work_def)
  with work_add_fits [OF initialize_window(2) [OF s] u(2)] obtain w where
      w: "stn_work_add (Some (cs_cumulative_work s)) (Some u) = Inr w" by blast
  have "\<not> zero32 (replicate 32 9)" by (simp add: zero32_def nonzero_iff)
  then have "\<exists>base. work_step sample_sha sample_context s sample_genesis (blk_header ?b) base"
    unfolding work_step_def Let_def policy h option.case stn_block.simps sample_genesis_id
    using sample_genesis_pow u(1) w by blast
  moreover have "\<exists>cd. transactions_step sample_sha sample_ed (\<lambda>_. True) sample_context s history own ?b cd"
    by (simp add: transactions_step_def h candidate_copies_def Let_def no_flags_def)
  ultimately show ?thesis
    using candidate_accepted [of sample_sha sample_ed "\<lambda>_. True" sample_context s history sample_genesis own] links by blast
qed

lemma sample_genesis_accepted:
  "\<exists>s. chain_run sample_sha sample_ed sample_context [sample_genesis] s"
proof -
  obtain s where s: "stn_chain_initialize sample_sha (\<lambda>_. True) sample_context = Inr s"
    using sample_initialize by blast
  from sample_genesis_step [OF s, of None False] obtain r s' where
      "validate_candidate sample_sha sample_ed (\<lambda>_. True) sample_context s None (Some sample_genesis) False = (r, Some s')"
    by blast
  from run_block [OF run_start [OF s, of sample_ed] this] show ?thesis by auto
qed

section \<open>Properties\<close>

lemma tip_facts:
  assumes "tip_inv sha c blocks s"
  shows "cs_has_tip s \<longleftrightarrow> blocks \<noteq> []" "blocks = [] \<Longrightarrow> cs_height s = 0"
    "blocks \<noteq> [] \<Longrightarrow> unat (cs_height s) + 1 = length blocks"
    "blocks \<noteq> [] \<Longrightarrow> stn_chain_block_id sha (Some (last blocks)) (cx_hash_provider c) = Inr (cs_tip_id s)"
    "blocks \<noteq> [] \<Longrightarrow> cs_timestamp s = bh_timestamp (header_of sha (last blocks))"
  using assms unfolding tip_inv_def by (cases "blocks = []"; simp only: if_True if_False simp_thms)+

text \<open>
  C3. Accepting one block, exactly. On a prior state a block is accepted under the context exactly when
  the context and the prior state are valid, the block decodes, its body matches its commitment, it has
  the context's version and network, it extends the tip (the next height, the tip as its previous hash,
  a time that does not go back) or is the context's genesis block, it carries the required target, its
  identifier is not zero and meets that target, the work can be added, every transaction applies to the
  private copies in order, and no allocation fails; the new state is then the stepped tip, time and
  work with exactly the copies the block changed, and the report says all stages passed. Otherwise the
  report is not an acceptance and the output state is left alone.
\<close>

theorem chain_candidate_exact:
  "case stn_chain_validate_candidate sha ed alloc c prior (Some bs) of
     (r, Some s) \<Rightarrow> r = accepted_report c \<and>
       (\<exists>b base cd. block_links sha c prior bs b \<and> work_step sha c prior bs (blk_header b) base \<and>
         transactions_step sha ed alloc c prior None False b cd \<and> alloc Site_share_state \<and>
         s = commit_candidate base cd)
   | (r, None) \<Rightarrow> rp_acceptance r \<noteq> STN_ACCEPTANCE_UNDER_CONTEXT \<and>
       \<not> (\<exists>b base cd. block_links sha c prior bs b \<and> work_step sha c prior bs (blk_header b) base \<and>
         transactions_step sha ed alloc c prior None False b cd \<and> alloc Site_share_state)"
proof (cases "stn_chain_validate_candidate sha ed alloc c prior (Some bs)")
  case (Pair r out)
  note iff = candidate_accepted [of sha ed alloc c prior None bs False]
  show ?thesis
  proof (cases out)
    case None
    with Pair have "validate_candidate sha ed alloc c prior None (Some bs) False = (r, None)"
      by (simp add: stn_chain_validate_candidate_def)
    with candidate_refused [OF this] iff show ?thesis using Pair None by fastforce
  next
    case (Some s)
    with Pair have acc: "validate_candidate sha ed alloc c prior None (Some bs) False = (r, Some s)"
      by (simp add: stn_chain_validate_candidate_def)
    with candidate_report [OF this] iff [of s] show ?thesis using Pair Some by fastforce
  qed
qed

text \<open>
  C1. Units are conserved along a chain. In every state that accepted blocks can reach from the initial
  state, whichever way each block was validated, the total supply is the sum of the units of the
  issuance transactions of the blocks, it is also the sum of all balances, the replay registries hold
  no key twice, and every snapshot keeps its invariant.
\<close>

theorem chain_supply_conserved:
  assumes "chain_run sha ed c blocks s" "hash_fn_ok sha"
  shows "\<exists>e. cs_economy s = Some e \<and>
    unat (total_supply (own_state e)) = sum_list (map (block_units sha) blocks) \<and>
    units_sum (econ_live (own_state e)) = unat (total_supply (own_state e)) \<and>
    distinct (accepted (own_replay e)) \<and> chain_inv sha ed c s"
proof -
  from chain_run_inv [OF assms] obtain e where "cs_economy s = Some e" "econ_wf (own_state e)"
      "distinct (accepted (own_replay e))" "chain_inv sha ed c s"
      "supply_of (cs_economy s) = sum_list (map (block_units sha) blocks)"
    by (auto simp: chain_inv_def parts_inv_def)
  then show ?thesis by (auto simp: supply_of_def econ_wf_def)
qed

theorem chain_supply_conserved_witness:
  "\<exists>s e. chain_run sample_sha sample_ed sample_context [sample_genesis] s \<and> cs_economy s = Some e \<and>
     total_supply (own_state e) = 0"
proof -
  obtain s where s: "chain_run sample_sha sample_ed sample_context [sample_genesis] s"
    using sample_genesis_accepted by blast
  have "block_units sample_sha sample_genesis = 0"
    by (simp add: block_units_def sample_genesis_decode sample_genesis_header_def)
  with chain_supply_conserved [OF s sample_sha_ok] s show ?thesis by (auto simp: unat_eq_0)
qed

text \<open>
  C2. Accepted blocks form one chain of work. The blocks of a run are linked at every position: the
  first is the context's genesis, each later one names the identifier of the block before it, is one
  higher, and does not go back in time; each has an intact body, the context's network, and under a
  work policy an identifier that meets its target. The state names the last block, and its cumulative
  work is the sum over the blocks of \<open>2^256 div (target + 1)\<close>.
\<close>

theorem chain_linked_work:
  assumes "chain_run sha ed c blocks s"
  shows "(\<forall>i < length blocks. linked_at sha c blocks i) \<and>
    (if blocks = [] then \<not> cs_has_tip s
     else unat (cs_height s) + 1 = length blocks \<and>
       stn_chain_block_id sha (Some (last blocks)) (cx_hash_provider c) = Inr (cs_tip_id s) \<and>
       cs_timestamp s = bh_timestamp (header_of sha (last blocks))) \<and>
    (case cx_pow_policy c of None \<Rightarrow> cs_cumulative_work s = zero_work
     | Some _ \<Rightarrow> work_value (cs_cumulative_work s) = sum_list (map (block_work sha) blocks))"
proof -
  have "case cx_pow_policy c of None \<Rightarrow> cs_cumulative_work s = zero_work
     | Some _ \<Rightarrow> work_value (cs_cumulative_work s) = sum_list (map (block_work sha) blocks)"
    using chain_run_plain [OF assms] chain_run_window [OF assms] by (cases "cx_pow_policy c") auto
  moreover have "if blocks = [] then \<not> cs_has_tip s
     else unat (cs_height s) + 1 = length blocks \<and>
       stn_chain_block_id sha (Some (last blocks)) (cx_hash_provider c) = Inr (cs_tip_id s) \<and>
       cs_timestamp s = bh_timestamp (header_of sha (last blocks))"
    using chain_run_linked [OF assms] tip_facts [of sha c blocks s] by presburger
  ultimately show ?thesis using chain_run_linked [OF assms] by blast
qed

theorem chain_linked_work_witness:
  "\<exists>s. chain_run sample_sha sample_ed sample_context [sample_genesis] s \<and> cs_tip_id s = replicate 32 9 \<and>
     work_value (cs_cumulative_work s) = 2 ^ 256 div (2 ^ 254 + 1)"
proof -
  obtain s where s: "chain_run sample_sha sample_ed sample_context [sample_genesis] s"
    using sample_genesis_accepted by blast
  have "block_work sample_sha sample_genesis = 2 ^ 256 div (2 ^ 254 + 1)"
    by (simp add: block_work_def header_of_def sample_genesis_decode sample_genesis_header_def
        sample_block_header_def be_append)
  moreover have "cx_pow_policy sample_context = Some (0x40 # replicate 31 0)" "cx_hash_provider sample_context = Some sample_sha"
    by (simp_all add: sample_context_def)
  ultimately show ?thesis using chain_linked_work [OF s] s by (auto simp: sample_genesis_id)
qed

text \<open>
  C4. A reachable state is always a valid prior state. Whatever blocks led to it, it passes every check
  the code makes before it extends a state, and under a work policy the required target of the next
  block is defined: the policy's target for the genesis, the target of the tip inside a window of 60
  blocks, and the retarget of the window's first and last header at its end. The only refusal is the
  height \<open>2^64 - 1\<close>.
\<close>

theorem chain_state_ready:
  assumes "chain_run sha ed c blocks s" "hash_fn_ok sha"
  shows "context_valid sha c = STN_DATA_OK \<and> prior_valid sha c s = STN_DATA_OK \<and>
    (case cx_pow_policy c of
       None \<Rightarrow> stn_chain_required_target sha c s = Inl STN_DATA_UNRESOLVED
     | Some fixed \<Rightarrow>
         stn_chain_required_target sha c s =
           (if blocks = [] then Inr fixed
            else if length blocks = 2 ^ 64 then Inl STN_DATA_OVERFLOW
            else if length blocks mod 60 = 0
            then Inr (retarget (hd (cs_target_history s)) (last (cs_target_history s)))
            else Inr (cs_current_target s)) \<and>
         length (cs_target_history s) = (if blocks = [] then 0 else (length blocks - 1) mod 60 + 1))"
proof -
  note valid = chain_run_context [OF assms(1)] and prior = prior_valid_ok [OF assms]
  have tip: "cs_has_tip s \<longleftrightarrow> blocks \<noteq> []" "blocks \<noteq> [] \<longrightarrow> unat (cs_height s) + 1 = length blocks"
      "blocks = [] \<longrightarrow> cs_height s = 0"
    using chain_run_linked [OF assms(1)] tip_facts [of sha c blocks s] by blast+
  have top: "length blocks = 2 ^ 64 \<longleftrightarrow> cs_height s = 18446744073709551615" if "blocks \<noteq> []"
    using tip(2) that by (auto simp: word_unat_eq_iff)
  show ?thesis
  proof (cases "cx_pow_policy c")
    case None
    with valid prior show ?thesis by (simp add: stn_chain_required_target_def)
  next
    case (Some fixed)
    have w: "window_inv fixed s" using chain_run_window [OF assms(1) Some] by simp
    have len: "length (cs_target_history s) = (if blocks = [] then 0 else (length blocks - 1) mod 60 + 1)"
    proof -
      have "length (cs_target_history s) = (if cs_has_tip s then unat (cs_height s) mod 60 + 1 else 0)"
        using w by (simp add: window_inv_def split: if_splits)
      moreover have "blocks \<noteq> [] \<longrightarrow> unat (cs_height s) = length blocks - 1" using tip(2) by arith
      ultimately show ?thesis using tip(1) by auto
    qed
    show ?thesis
    proof (cases "blocks \<noteq> [] \<and> length blocks = 2 ^ 64")
      case True
      with valid prior Some tip top have "stn_chain_required_target sha c s = Inl STN_DATA_OVERFLOW"
        by (simp add: stn_chain_required_target_def)
      with valid prior Some True len show ?thesis by simp
    next
      case False
      then have ne: "cs_height s \<noteq> 18446744073709551615" using top tip(3) by (cases "blocks = []") auto
      have "boundary (cs_height s + 1) \<longleftrightarrow> length blocks mod 60 = 0" if "blocks \<noteq> []"
      proof -
        have up: "unat (cs_height s + 1) = length blocks" using height_next [OF ne] tip(2) that by simp
        then have "cs_height s + 1 \<noteq> 0" using that by (metis length_0_conv unat_0)
        moreover have "(cs_height s + 1) mod 60 = 0 \<longleftrightarrow> length blocks mod 60 = 0"
          unfolding up [symmetric] unat_mod_60 [symmetric] by (subst word_unat_eq_iff) simp
        ultimately show ?thesis by (simp add: boundary_iff)
      qed
      with required_target_cases [OF valid prior Some w ne] valid prior Some tip(1) len False
      show ?thesis by (cases "blocks = []") auto
    qed
  qed
qed

theorem chain_state_ready_witness:
  "\<exists>s. chain_run sample_sha sample_ed sample_context [sample_genesis] s \<and>
     prior_valid sample_sha sample_context s = STN_DATA_OK \<and>
     (\<exists>t. stn_chain_required_target sample_sha sample_context s = Inr t)"
proof -
  obtain s where s: "chain_run sample_sha sample_ed sample_context [sample_genesis] s"
    using sample_genesis_accepted by blast
  moreover have "cx_pow_policy sample_context = Some (0x40 # replicate 31 0)" by (simp add: sample_context_def)
  ultimately show ?thesis using chain_state_ready [OF s sample_sha_ok] by auto
qed

end
