(* ===== verification/Stn_Chain_Batch.thy ===== *)
theory Stn_Chain_Batch
  imports Stn_Chain_Correct
begin

text \<open>
  Batches and histories (\<^verbatim>\<open>stn_chain_validate_sequence\<close>, \<^verbatim>\<open>stn_chain_reconstruct_history\<close>): a batch is
  the same as its parts one after the other, a reconstruction accepts exactly when every block is
  accepted on the blocks before it, and both end in reachable states.
\<close>

section \<open>Batches\<close>

lemma sequence_loop_append:
  "sequence_loop sha ed alloc c i (xs @ ys) s r =
     (case sequence_loop sha ed alloc c i xs s r of
        (r', None) \<Rightarrow> (r', None)
      | (r', Some s') \<Rightarrow> sequence_loop sha ed alloc c (i + length xs) ys s' r')"
  by (induction xs arbitrary: i s r) (simp_all split: prod.split option.split)

lemma sequence_loop_shift:
  "snd (sequence_loop sha ed alloc c (i + k) xs s r) = snd (sequence_loop sha ed (\<lambda>j. alloc (j + k)) c i xs s r')"
proof (induction xs arbitrary: i s r r')
  case Nil
  then show ?case by simp
next
  case (Cons b bs)
  obtain q t where q: "stn_chain_validate_candidate sha ed (alloc (i + k)) c s b = (q, t)" by force
  show ?case
  proof (cases t)
    case None
    with q show ?thesis by simp
  next
    case (Some s')
    with q Cons.IH [of "i + 1" s' q q] show ?thesis by simp
  qed
qed

lemma sequence_loop_run:
  assumes "sequence_loop sha ed alloc c i xs s r = (r', Some s')" "chain_run sha ed c blocks s"
  shows "chain_run sha ed c (blocks @ map the xs) s'"
  using assms
proof (induction xs arbitrary: i s r blocks)
  case Nil
  then show ?case by simp
next
  case (Cons b bs)
  obtain q t where q: "stn_chain_validate_candidate sha ed (alloc i) c s b = (q, Some t)"
      "sequence_loop sha ed alloc c (i + 1) bs t q = (r', Some s')"
    using Cons.prems(1) by (auto split: prod.splits option.splits)
  obtain block where block: "b = Some block"
    using q(1) by (cases b) (auto simp: stn_chain_validate_candidate_def candidate_null)
  have "validate_candidate sha ed (alloc i) c s None (Some block) False = (q, Some t)"
    using q(1) block by (simp add: stn_chain_validate_candidate_def)
  from run_block [OF Cons.prems(2) this] have "chain_run sha ed c (blocks @ [block]) t" by simp
  from Cons.IH [OF q(2) this] show ?case by (simp add: block)
qed

lemma sequence_result:
  assumes "context_valid sha c = STN_DATA_OK" "prior_valid sha c s = STN_DATA_OK" "length xs \<le> 64"
  shows "snd (stn_chain_validate_sequence sha ed True alloc c s (Some xs) (length xs)) =
    snd (sequence_loop sha ed alloc c 0 xs s initial_report)"
  using assms by (simp add: stn_chain_validate_sequence_def STN_CHAIN_MAX_BATCH_def Let_def split: prod.split option.split)

text \<open>
  C16. A batch is its parts. From a reachable state, validating the batch \<open>xs @ ys\<close> leaves the same state
  as validating \<open>xs\<close> and then \<open>ys\<close> on the result, and leaves nothing when either fails; by repetition
  it is the same as offering the blocks one by one. What a batch leaves is again reachable, with the
  blocks appended.
\<close>

theorem chain_batch_composes:
  assumes "chain_run sha ed c blocks s" "hash_fn_ok sha" "length xs + length ys \<le> 64"
  shows "snd (stn_chain_validate_sequence sha ed True alloc c s (Some (xs @ ys)) (length (xs @ ys))) =
      (case snd (stn_chain_validate_sequence sha ed True alloc c s (Some xs) (length xs)) of
         None \<Rightarrow> None
       | Some middle \<Rightarrow>
           snd (stn_chain_validate_sequence sha ed True (\<lambda>i. alloc (i + length xs)) c middle (Some ys) (length ys))) \<and>
    (case snd (stn_chain_validate_sequence sha ed True alloc c s (Some xs) (length xs)) of
       None \<Rightarrow> True
     | Some middle \<Rightarrow> chain_run sha ed c (blocks @ map the xs) middle)"
proof -
  note valid = chain_run_context [OF assms(1)]
  have le: "length xs \<le> 64" "length ys \<le> 64" "length (xs @ ys) \<le> 64" using assms(3) by simp_all
  note one = sequence_result [OF valid prior_valid_ok [OF assms(1,2)]]
  obtain r t where t: "sequence_loop sha ed alloc c 0 xs s initial_report = (r, t)" by force
  show ?thesis
  proof (cases t)
    case None
    with t show ?thesis unfolding one [OF le(1)] one [OF le(3)] sequence_loop_append by simp
  next
    case (Some middle)
    have run: "chain_run sha ed c (blocks @ map the xs) middle"
      using sequence_loop_run [OF _ assms(1)] t Some by blast
    have rest: "snd (sequence_loop sha ed alloc c (length xs) ys middle r) =
        snd (stn_chain_validate_sequence sha ed True (\<lambda>i. alloc (i + length xs)) c middle (Some ys) (length ys))"
      using sequence_loop_shift [of sha ed alloc c 0 "length xs" ys middle r initial_report]
        sequence_result [OF valid prior_valid_ok [OF run assms(2)] le(2)] by simp
    from t Some run rest show ?thesis
      unfolding one [OF le(1)] one [OF le(3)] sequence_loop_append by simp
  qed
qed

theorem chain_batch_composes_witness:
  "\<exists>s middle. chain_run sample_sha sample_ed sample_context [] s \<and>
     snd (stn_chain_validate_sequence sample_sha sample_ed True (\<lambda>_ _. True) sample_context s
       (Some [Some sample_genesis]) 1) = Some middle \<and>
     chain_run sample_sha sample_ed sample_context [sample_genesis] middle"
proof -
  obtain s where s: "stn_chain_initialize sample_sha (\<lambda>_. True) sample_context = Inr s"
    using sample_initialize by blast
  note run = run_start [OF s, of sample_ed]
  from sample_genesis_step [OF s, of None False] obtain r s' where
      "validate_candidate sample_sha sample_ed (\<lambda>_. True) sample_context s None (Some sample_genesis) False = (r, Some s')"
    by blast
  then have "snd (sequence_loop sample_sha sample_ed (\<lambda>_ _. True) sample_context 0 [Some sample_genesis] s initial_report) =
      Some s'" by (simp add: stn_chain_validate_candidate_def)
  then have result: "snd (stn_chain_validate_sequence sample_sha sample_ed True (\<lambda>_ _. True) sample_context s
       (Some [Some sample_genesis]) (length [Some sample_genesis])) = Some s'"
    by (subst sequence_result [OF chain_run_context [OF run] prior_valid_ok [OF run sample_sha_ok]]) simp_all
  have "chain_run sample_sha sample_ed sample_context [sample_genesis] s'"
    using chain_batch_composes [OF run sample_sha_ok, of "[Some sample_genesis]" "[]" "\<lambda>_ _. True"]
    unfolding result by simp
  with run result show ?thesis by (intro exI [of _ s] exI [of _ s']) simp
qed

section \<open>Reconstruction\<close>

lemma reconstruct_loop_run:
  assumes "reconstruct_loop sha ed alloc c before xs s r = (r', Some s')" "chain_run sha ed c before s"
  shows "chain_run sha ed c (before @ xs) s'"
  using assms
proof (induction xs arbitrary: before s r)
  case Nil
  then show ?case by simp
next
  case (Cons b bs)
  obtain q t where q: "validate_candidate sha ed (alloc (length before)) c s (Some before) (Some b) True = (q, Some t)"
      "reconstruct_loop sha ed alloc c (before @ [b]) bs t q = (r', Some s')"
    using Cons.prems(1) by (auto split: prod.splits option.splits)
  from run_block [OF Cons.prems(2) q(1)] have "chain_run sha ed c (before @ [b]) t" by simp
  from Cons.IH [OF q(2) this] show ?case by simp
qed

lemma reconstruct_loop_append:
  "reconstruct_loop sha ed alloc c before (xs @ ys) s r =
     (case reconstruct_loop sha ed alloc c before xs s r of
        (r', None) \<Rightarrow> (r', None)
      | (r', Some s') \<Rightarrow> reconstruct_loop sha ed alloc c (before @ xs) ys s' r')"
  by (induction xs arbitrary: before s r) (simp_all split: prod.split option.split)

lemma reconstruct_loop_fails:
  assumes "reconstruct_loop sha ed alloc c before xs s r = (r', None)"
  shows "\<exists>k < length xs. \<exists>q t q'. reconstruct_loop sha ed alloc c before (take k xs) s r = (q, Some t) \<and>
    validate_candidate sha ed (alloc (length before + k)) c t (Some (before @ take k xs)) (Some (xs ! k)) True = (q', None) \<and>
    r' = q'\<lparr>rp_failing_index := length before + k\<rparr>"
  using assms
proof (induction xs arbitrary: before s r)
  case Nil
  then show ?case by simp
next
  case (Cons b bs)
  obtain q t where q: "validate_candidate sha ed (alloc (length before)) c s (Some before) (Some b) True = (q, t)" by force
  show ?case
  proof (cases t)
    case None
    with q Cons.prems show ?thesis by (intro exI [of _ 0]) simp
  next
    case (Some s')
    with q Cons.prems have "reconstruct_loop sha ed alloc c (before @ [b]) bs s' q = (r', None)" by simp
    from Cons.IH [OF this] obtain k u v w where k: "k < length bs"
        "reconstruct_loop sha ed alloc c (before @ [b]) (take k bs) s' q = (u, Some v)"
        "validate_candidate sha ed (alloc (length before + Suc k)) c v (Some (before @ b # take k bs)) (Some (bs ! k)) True =
          (w, None)" "r' = w\<lparr>rp_failing_index := length before + Suc k\<rparr>" by auto
    with q Some show ?thesis by (intro exI [of _ "Suc k"]) auto
  qed
qed

lemma reconstruct_cases:
  assumes "stn_chain_initialize sha alloc c = Inr start" "blocks \<noteq> []"
  shows "case stn_chain_reconstruct_history sha ed alloc allocs c (Some blocks) of
      (r, Some s) \<Rightarrow> r = accepted_report c \<and> chain_run sha ed c blocks s
    | (r, None) \<Rightarrow> rp_acceptance r \<noteq> STN_ACCEPTANCE_UNDER_CONTEXT \<and>
        (\<exists>k < length blocks. \<exists>s r'. chain_run sha ed c (take k blocks) s \<and>
          validate_candidate sha ed (allocs k) c s (Some (take k blocks)) (Some (blocks ! k)) True = (r', None) \<and>
          r = r'\<lparr>rp_failing_index := k\<rparr>)"
proof -
  note run = run_start [OF assms(1), of ed]
  have eq: "stn_chain_reconstruct_history sha ed alloc allocs c (Some blocks) =
      reconstruct_loop sha ed allocs c [] blocks start initial_report"
    using assms by (simp add: stn_chain_reconstruct_history_def)
  obtain r t where t: "reconstruct_loop sha ed allocs c [] blocks start initial_report = (r, t)" by force
  show ?thesis
  proof (cases t)
    case None
    with t obtain k q u q' where k: "k < length blocks"
        "reconstruct_loop sha ed allocs c [] (take k blocks) start initial_report = (q, Some u)"
        "validate_candidate sha ed (allocs k) c u (Some (take k blocks)) (Some (blocks ! k)) True = (q', None)"
        "r = q'\<lparr>rp_failing_index := k\<rparr>"
      using reconstruct_loop_fails [of sha ed allocs c "[]" blocks start initial_report r] by auto
    from reconstruct_loop_run [OF k(2) run] candidate_refused [OF k(3)] k None t show ?thesis
      unfolding eq by auto
  next
    case (Some s)
    obtain front b where b: "blocks = front @ [b]" using assms(2) by (cases blocks rule: rev_cases) auto
    obtain q u where u: "reconstruct_loop sha ed allocs c [] front start initial_report = (q, Some u)"
        "validate_candidate sha ed (allocs (length front)) c u (Some front) (Some b) True = (r, Some s)"
      using t Some unfolding b reconstruct_loop_append by (auto split: prod.splits option.splits)
    from candidate_report [OF u(2)] reconstruct_loop_run [OF _ run] t Some show ?thesis unfolding eq by auto
  qed
qed

lemma reconstruct_started:
  assumes "stn_chain_reconstruct_history sha ed alloc allocs c blocks = (r, Some s)"
  obtains start bs where "blocks = Some bs" "bs \<noteq> []" "stn_chain_initialize sha alloc c = Inr start"
  using assms by (auto simp: stn_chain_reconstruct_history_def split: option.splits if_splits sum.splits)

lemma reconstruct_accepted:
  assumes "stn_chain_reconstruct_history sha ed alloc allocs c (Some blocks) = (r, Some s)"
  shows "blocks \<noteq> []" "chain_run sha ed c blocks s" "r = accepted_report c"
proof -
  from reconstruct_started [OF assms] obtain start where
      start: "blocks \<noteq> []" "stn_chain_initialize sha alloc c = Inr start" by blast
  from reconstruct_cases [OF start(2,1), of ed allocs] assms
  show "blocks \<noteq> []" "chain_run sha ed c blocks s" "r = accepted_report c" using start by simp_all
qed

lemma reconstruct_refused:
  assumes "stn_chain_reconstruct_history sha ed alloc allocs c blocks = (r, None)"
  shows "rp_acceptance r \<noteq> STN_ACCEPTANCE_UNDER_CONTEXT"
proof -
  consider "blocks = None \<or> blocks = Some []" | bs e where "blocks = Some bs" "bs \<noteq> []" "stn_chain_initialize sha alloc c = Inl e"
    | bs start where "blocks = Some bs" "bs \<noteq> []" "stn_chain_initialize sha alloc c = Inr start"
    by (cases blocks; cases "stn_chain_initialize sha alloc c") auto
  then show ?thesis
  proof cases
    case 3
    then show ?thesis using reconstruct_cases [OF 3(3,2), of ed allocs] assms by simp
  qed (use assms in \<open>auto simp: stn_chain_reconstruct_history_def\<close>)
qed

text \<open>
  C5. Reconstruction stops at the first bad block. It yields a state only for a nonempty history whose
  blocks are each accepted on the state and the history before them, so that state is reachable with
  exactly these blocks; otherwise, on a valid context, the failing index is the first block that is not
  accepted, the blocks before it reconstruct, and the report is that block's, never an acceptance.
\<close>

theorem chain_reconstruct_exact:
  assumes "stn_chain_initialize sha alloc c = Inr start" "blocks \<noteq> []"
  shows "case stn_chain_reconstruct_history sha ed alloc allocs c (Some blocks) of
      (r, Some s) \<Rightarrow> r = accepted_report c \<and> chain_run sha ed c blocks s
    | (r, None) \<Rightarrow> rp_acceptance r \<noteq> STN_ACCEPTANCE_UNDER_CONTEXT \<and>
        (\<exists>k < length blocks. \<exists>s r'. chain_run sha ed c (take k blocks) s \<and>
          validate_candidate sha ed (allocs k) c s (Some (take k blocks)) (Some (blocks ! k)) True = (r', None) \<and>
          r = r'\<lparr>rp_failing_index := k\<rparr>)"
  by (rule reconstruct_cases [OF assms])

theorem chain_reconstruct_exact_witness:
  "\<exists>r s. stn_chain_reconstruct_history sample_sha sample_ed (\<lambda>_. True) (\<lambda>_ _. True) sample_context
       (Some [sample_genesis]) = (r, Some s) \<and> rp_acceptance r = STN_ACCEPTANCE_UNDER_CONTEXT \<and>
     chain_run sample_sha sample_ed sample_context [sample_genesis] s"
proof -
  obtain s where s: "stn_chain_initialize sample_sha (\<lambda>_. True) sample_context = Inr s"
    using sample_initialize by blast
  from sample_genesis_step [OF s, of "Some []" True] obtain r s' where
      "validate_candidate sample_sha sample_ed (\<lambda>_. True) sample_context s (Some []) (Some sample_genesis) True = (r, Some s')"
    by blast
  then have "stn_chain_reconstruct_history sample_sha sample_ed (\<lambda>_. True) (\<lambda>_ _. True) sample_context
       (Some [sample_genesis]) = (r, Some s')"
    using s by (simp add: stn_chain_reconstruct_history_def)
  with chain_reconstruct_exact [OF s, of "[sample_genesis]" sample_ed "\<lambda>_ _. True"] show ?thesis
    by (auto simp: accepted_report_def Let_def)
qed

end
