(* ===== verification/Stn_Share_Payment.thy ===== *)
theory Stn_Share_Payment
  imports Stn_Chain_Batch
begin

text \<open>
  Two weaknesses of the share path of block validation. A share reward that is paid once by an accepted
  block is paid again by any later block that repeats the issuance; and the check of a share without
  the history refuses every share that the check with the history accepts, and the other way round.
\<close>

section \<open>The second payment of a share\<close>

lemma history_has_share_append:
  assumes "history_has_share sha i m blocks = Inr True"
  shows "history_has_share sha i m (blocks @ rest) = Inr True"
  using assms by (induction blocks) (auto split: sum.splits bool.splits)

lemma issuance_applied:
  assumes "apply_issuance sha prior history tx cd = (STN_DATA_OK, cd')"
  obtains i mapping mapped blocks economy where "stn_issuance_decode (txn_record_bytes tx) = Inr i"
    "iss_reason i = STN_ISSUANCE_REASON_SHARE" "mapping_of prior cd = Some mapping"
    "stn_compensation_state_lookup mapping (Some (dest_identity (iss_destination i))) = Inr mapped"
    "addr_id mapped = addr_id (dest_wallet (iss_destination i))" "history = Some blocks"
    "history_has_share sha i mapping blocks = Inr True"
    "stn_economic_state_apply (own_state (the (cd_economy cd))) (Some i) = (STN_DATA_OK, economy)"
    "cd' = cd\<lparr>cd_economy := Some ((the (cd_economy cd))\<lparr>own_state := economy\<rparr>)\<rparr>"
proof -
  obtain i where i: "stn_issuance_decode (txn_record_bytes tx) = Inr i" "iss_reason i = STN_ISSUANCE_REASON_SHARE"
    using assms by (auto simp: apply_issuance_def split: sum.splits if_splits)
  obtain mapping where m: "mapping_of prior cd = Some mapping"
    using assms i by (auto simp: apply_issuance_def split: option.splits)
  obtain mapped where l: "stn_compensation_state_lookup mapping (Some (dest_identity (iss_destination i))) = Inr mapped"
      "addr_id mapped = addr_id (dest_wallet (iss_destination i))"
    using assms i m
    by (cases "stn_compensation_state_lookup mapping (Some (dest_identity (iss_destination i)))")
       (auto simp: apply_issuance_def split: if_splits)
  obtain blocks where h: "history = Some blocks"
    using assms i m l by (auto simp: apply_issuance_def split: option.splits)
  note call = assms [unfolded apply_issuance_def i(1) m l(1) h sum.case option.case]
  have found: "history_has_share sha i mapping blocks = Inr True"
  proof (cases "history_has_share sha i mapping blocks")
    case (Inl x)
    with call i(2) l(2) history_has_share_status show ?thesis by (metis memcmp_refl prod.inject sum.case(1))
  next
    case (Inr found)
    with call i(2) l(2) show ?thesis by (cases found) simp_all
  qed
  obtain economy where e: "stn_economic_state_apply (own_state (the (cd_economy cd))) (Some i) = (STN_DATA_OK, economy)"
      "cd' = cd\<lparr>cd_economy := Some ((the (cd_economy cd))\<lparr>own_state := economy\<rparr>)\<rparr>"
    using call i(2) l(2) found by (auto simp: Let_def split: prod.splits)
  show ?thesis by (rule that [OF i m l h found e])
qed

text \<open>
  C22. A share is paid as often as its issuance is included. When an issuance of a share was applied by
  one block, then in every later block, on any well-formed economy that has room and whose mapping of
  the miner is still the one of the first payment, the same issuance is applied again: the wallet gains
  the units a second time and the supply grows again. No state of the chain remembers the payment.
\<close>

theorem share_issuance_repeats:
  assumes "apply_issuance sha prior (Some blocks) tx cd = (STN_DATA_OK, cd')"
    "stn_issuance_decode (txn_record_bytes tx) = Inr i"
    "mapping_of later cd2 = mapping_of prior cd" "cd_economy cd2 = Some w" "econ_wf (own_state w)"
    "unat (total_supply (own_state w)) + unat (iss_units i) < 2 ^ 64"
    "has_entry (own_state w) (iss_wallet i) \<or> balance_count (own_state w) \<noteq> balance_capacity (own_state w)"
  shows "\<exists>cd3 w3. apply_issuance sha later (Some (blocks @ rest)) tx cd2 = (STN_DATA_OK, cd3) \<and>
    cd_economy cd3 = Some w3 \<and>
    unat (total_supply (own_state w3)) = unat (total_supply (own_state w)) + unat (iss_units i) \<and>
    balance_of (own_state w3) (iss_wallet i) = balance_of (own_state w) (iss_wallet i) + unat (iss_units i)"
proof -
  from issuance_applied [OF assms(1)] assms(2) obtain mapping mapped economy where p:
      "iss_reason i = STN_ISSUANCE_REASON_SHARE" "mapping_of prior cd = Some mapping"
      "stn_compensation_state_lookup mapping (Some (dest_identity (iss_destination i))) = Inr mapped"
      "addr_id mapped = addr_id (dest_wallet (iss_destination i))"
      "history_has_share sha i mapping blocks = Inr True"
      "stn_economic_state_apply (own_state (the (cd_economy cd))) (Some i) = (STN_DATA_OK, economy)"
    by (metis option.inject sum.inject(2))
  have "record_valid (Some i) = STN_DATA_OK"
    using p(6) by (auto simp: stn_economic_state_apply_def Let_def split: if_splits)
  then obtain economy2 where e: "stn_economic_state_apply (own_state w) (Some i) = (STN_DATA_OK, economy2)"
    using assms(6,7) unfolding econ_apply_cases [OF assms(5)]
    by (cases "has_entry (own_state w) (iss_wallet i)") auto
  have "apply_issuance sha later (Some (blocks @ rest)) tx cd2 =
      (STN_DATA_OK, cd2\<lparr>cd_economy := Some (w\<lparr>own_state := economy2\<rparr>)\<rparr>)"
    using assms(2-4) p(1-5) e history_has_share_append [OF p(5), of rest] by (simp add: apply_issuance_def)
  with econ_apply_ok [OF assms(5) e] show ?thesis by auto
qed


section \<open>A paid share\<close>

definition paid_share_bytes :: bytes where
  "paid_share_bytes = STN_SHARE_VERSION # replicate 31 0 @ [6] @ replicate 32 7 @
     stn_wire_write 8 11 @ header_layout sample_share_header @ replicate 32 4"

definition paid_share_tx :: bytes where
  "paid_share_tx = transaction_magic @ [0, 1, 0, 6, 0, 0, 1, 17] @ paid_share_bytes"

definition paid_share_header :: stn_block_header where
  "paid_share_header = sample_block_header\<lparr>bh_body_length := 289\<rparr>"

definition paid_share_block :: bytes where
  "paid_share_block = header_layout paid_share_header @ frames [paid_share_tx]"

definition paid_issuance :: stn_issuance_record where
  "paid_issuance = \<lparr>iss_reason = 1, iss_units = 100, iss_evidence_id = replicate 32 9,
     iss_destination = sample_destination\<rparr>"

definition paid_issuance_bytes :: bytes where
  "paid_issuance_bytes = STN_ISSUANCE_VERSION # 1 # stn_wire_write 8 100 @ replicate 32 9 @ replicate 32 7 @ replicate 32 9"

definition paid_issuance_tx :: stn_transaction where
  "paid_issuance_tx = \<lparr>txn_version = 1, txn_type = STN_TX_ISSUANCE, txn_record_bytes = Some paid_issuance_bytes,
     txn_record_length = 106\<rparr>"

definition paid_prior :: stn_chain_state where
  "paid_prior = (empty_state (replicate 32 1) 1)\<lparr>cs_compensation := Some sample_compensation\<rparr>"

definition paid_candidate :: stn_candidate where
  "paid_candidate = \<lparr>cd_lifecycle = None, cd_contracts = None, cd_shares = None, cd_block_compensation = None,
     cd_compensation = None,
     cd_economy = Some \<lparr>own_state = sample_economy, own_replay = key_buffer_initialize None 0\<rparr>\<rparr>"

lemma paid_share_codec:
  "stn_share_encode (Some sample_share) = Inr paid_share_bytes"
  "stn_share_decode (Some paid_share_bytes) = Inr sample_share" "length paid_share_bytes = 273"
proof -
  have "share_header_ok (header_layout sample_share_header) (replicate 32 4)"
    using header_decode_layout [OF sample_share_header_ok(1,2)]
    by (simp add: share_header_ok_def sample_share_header_def)
  then show enc: "stn_share_encode (Some sample_share) = Inr paid_share_bytes"
    unfolding share_encode_iff by (simp add: sample_share_def paid_share_bytes_def)
  have "wf_share sample_share"
    using sample_share_header_ok(3) by (simp add: sample_share_def wf_share_def wf_address_def)
  then show "stn_share_decode (Some paid_share_bytes) = Inr sample_share" by (rule share_codec.dec_enc [OF _ enc])
  then show "length paid_share_bytes = 273" unfolding share_decode_iff by blast
qed

lemma paid_share_tx_valid:
  "stn_transaction_decode sha (Some paid_share_tx) = Inr \<lparr>txn_version = 1, txn_type = 6,
     txn_record_bytes = Some paid_share_bytes, txn_record_length = 273\<rparr>"
  "valid_tx sha paid_share_tx" "length paid_share_tx = 285"
proof -
  show len: "length paid_share_tx = 285" using paid_share_codec(3) by (simp add: paid_share_tx_def)
  have fields: "ucast (stn_wire_read (drop 4 paid_share_tx) 2) = (1 :: u16)"
      "ucast (stn_wire_read (drop 6 paid_share_tx) 2) = (6 :: u16)"
      "ucast (stn_wire_read (drop 8 paid_share_tx) 4) = (273 :: u32)" "take 4 paid_share_tx = transaction_magic"
      "drop 12 paid_share_tx = paid_share_bytes"
    by (simp_all add: paid_share_tx_def transaction_magic_def stn_wire_read_def)
  show dec: "stn_transaction_decode sha (Some paid_share_tx) = Inr \<lparr>txn_version = 1, txn_type = 6,
     txn_record_bytes = Some paid_share_bytes, txn_record_length = 273\<rparr>"
    unfolding tx_decode_iff fields using len paid_share_codec(2,3)
    by (simp add: tx_ok_def known_type_def transaction_content_def)
  then show "valid_tx sha paid_share_tx" unfolding valid_tx_def tx_structure_iff by blast
qed

lemma paid_share_decode:
  "stn_block_decode sha (Some paid_share_block) = Inr \<lparr>blk_header = paid_share_header, blk_body = Some (frame paid_share_tx)\<rparr>"
proof -
  have wf: "wf_header paid_share_header" "header_valid paid_share_header = STN_DATA_OK"
    using sample_header_wf
    by (simp_all add: wf_header_def header_valid_def paid_share_header_def sample_block_header_def split: if_splits)
  have "take 168 paid_share_block = header_layout paid_share_header"
      "drop 168 paid_share_block = frames [paid_share_tx]" "168 \<le> length paid_share_block"
    using wf(1) by (simp_all add: paid_share_block_def)
  then have "block_parts sha paid_share_block paid_share_header [paid_share_tx]"
    using header_decode_layout [OF wf] paid_share_tx_valid(2) [of sha] paid_share_tx_valid(3)
    by (simp add: block_parts_def) (simp add: paid_share_header_def sample_block_header_def)
  from block_parts_decode(1) [OF this] show ?thesis by simp
qed

lemma paid_issuance_decode: "stn_issuance_decode (Some paid_issuance_bytes) = Inr paid_issuance"
proof -
  have "wf_issuance paid_issuance"
    by (simp add: paid_issuance_def wf_issuance_def wf_destination_def wf_address_def sample_destination_def)
  moreover have "stn_issuance_encode (Some paid_issuance) = Inr paid_issuance_bytes"
    unfolding issuance_encode_iff
    by (simp add: paid_issuance_def paid_issuance_bytes_def dest_typed_def sample_destination_def valid_amount_def
        STN_ISSUANCE_REASON_SHARE_def STN_ISSUANCE_SHARE_UNITS_def)
  ultimately show ?thesis by (rule issuance_codec.dec_enc)
qed

lemma paid_lookup:
  "stn_compensation_state_lookup sample_compensation (Some \<lparr>addr_type = STN_ADDRESS_IDENTITY, addr_id = replicate 32 7\<rparr>) =
     Inr \<lparr>addr_type = STN_ADDRESS_WALLET, addr_id = replicate 32 9\<rparr>"
  using comp_lookup_map [OF sample_compensation_wf, of "\<lparr>addr_type = STN_ADDRESS_IDENTITY, addr_id = replicate 32 7\<rparr>"]
  by (simp add: sample_compensation_map sample_mapping_def)

lemma paid_binds: "stn_issuance_bind_share sample_sha (Some paid_issuance) (Some sample_share) sample_compensation = STN_DATA_OK"
  using paid_share_codec(1) paid_lookup
  by (simp add: stn_issuance_bind_share_def paid_issuance_def sample_share_def sample_destination_def sample_sha_def
      STN_ISSUANCE_REASON_SHARE_def STN_ISSUANCE_SHARE_UNITS_def del: stn_share_encode.simps)

lemma paid_found: "history_has_share sample_sha paid_issuance sample_compensation [paid_share_block] = Inr True"
proof -
  have "front_tx sample_sha (frame paid_share_tx) = (stn_transaction_decode sample_sha (Some paid_share_tx), [])"
    using read_frame(3,4) [of paid_share_tx] paid_share_tx_valid(3) by (simp add: front_tx_def Let_def)
  then have "block_has_share sample_sha paid_issuance sample_compensation 1 (frame paid_share_tx) = Inr True"
    unfolding paid_share_tx_valid(1) One_nat_def block_has_share.simps
    by (simp add: paid_share_codec(2) paid_binds)
  then show ?thesis
    by (simp add: paid_share_decode paid_share_header_def sample_block_header_def)
qed

lemma paid_first:
  "\<exists>cd. apply_issuance sample_sha paid_prior (Some [paid_share_block]) paid_issuance_tx paid_candidate = (STN_DATA_OK, cd)"
proof -
  have "record_valid (Some paid_issuance) = STN_DATA_OK"
    by (simp add: record_valid.simps paid_issuance_def sample_destination_def STN_ISSUANCE_REASON_SHARE_def
        STN_ISSUANCE_SHARE_UNITS_def)
  moreover have "\<not> has_entry sample_economy (iss_wallet paid_issuance)"
    by (simp add: has_entry_def sample_economy_def econ_live_def)
  ultimately have "\<exists>e. stn_economic_state_apply sample_economy (Some paid_issuance) = (STN_DATA_OK, e)"
    unfolding econ_apply_cases [OF sample_economy_wf] by (simp add: sample_economy_def paid_issuance_def)
  moreover have "mapping_of paid_prior paid_candidate = Some sample_compensation"
    by (simp add: mapping_of_def paid_prior_def paid_candidate_def)
  moreover have "iss_reason paid_issuance = STN_ISSUANCE_REASON_SHARE"
      "dest_identity (iss_destination paid_issuance) = \<lparr>addr_type = STN_ADDRESS_IDENTITY, addr_id = replicate 32 7\<rparr>"
      "addr_id (dest_wallet (iss_destination paid_issuance)) = replicate 32 9"
    by (simp_all add: paid_issuance_def sample_destination_def STN_ISSUANCE_REASON_SHARE_def)
  moreover have "own_state (the (cd_economy paid_candidate)) = sample_economy" by (simp add: paid_candidate_def)
  ultimately show ?thesis
    using paid_issuance_decode paid_found paid_lookup
    by (auto simp: apply_issuance_def paid_issuance_tx_def Let_def)
qed

theorem share_issuance_repeats_witness:
  "\<exists>cd cd3 w3. apply_issuance sample_sha paid_prior (Some [paid_share_block]) paid_issuance_tx paid_candidate =
      (STN_DATA_OK, cd) \<and>
     apply_issuance sample_sha paid_prior (Some [paid_share_block, paid_share_block]) paid_issuance_tx cd =
      (STN_DATA_OK, cd3) \<and>
     cd_economy cd3 = Some w3 \<and> balance_of (own_state w3) (replicate 32 9) = 200"
proof -
  obtain cd where first: "apply_issuance sample_sha paid_prior (Some [paid_share_block]) paid_issuance_tx paid_candidate =
      (STN_DATA_OK, cd)" using paid_first by blast
  have i: "stn_issuance_decode (txn_record_bytes paid_issuance_tx) = Inr paid_issuance"
    by (simp add: paid_issuance_tx_def paid_issuance_decode)
  have economy: "own_state (the (cd_economy paid_candidate)) = sample_economy" by (simp add: paid_candidate_def)
  from issuance_applied [OF first] i obtain e where e:
      "stn_economic_state_apply sample_economy (Some paid_issuance) = (STN_DATA_OK, e)"
      "cd = paid_candidate\<lparr>cd_economy := Some ((the (cd_economy paid_candidate))\<lparr>own_state := e\<rparr>)\<rparr>"
    unfolding economy by (metis sum.inject(2))
  note one = econ_apply_ok [OF sample_economy_wf e(1)]
  have wallet: "iss_wallet paid_issuance = replicate 32 9" "unat (iss_units paid_issuance) = 100"
    by (simp_all add: paid_issuance_def sample_destination_def)
  have "has_entry e (replicate 32 9)"
  proof (rule ccontr)
    assume "\<not> has_entry e (replicate 32 9)"
    then have "balance_of e (replicate 32 9) = 0"
      by (simp add: has_entry_def balance_of_def funds_def split: option.splits)
    with one wallet show False by simp
  qed
  moreover define w where "w = (the (cd_economy paid_candidate))\<lparr>own_state := e\<rparr>"
  moreover from this have "cd_economy cd = Some w" "mapping_of paid_prior cd = mapping_of paid_prior paid_candidate"
    by (simp_all add: e(2) mapping_of_def)
  ultimately have "\<exists>cd3 w3. apply_issuance sample_sha paid_prior (Some ([paid_share_block] @ [paid_share_block]))
        paid_issuance_tx cd = (STN_DATA_OK, cd3) \<and> cd_economy cd3 = Some w3 \<and>
      unat (total_supply (own_state w3)) = unat (total_supply (own_state w)) + unat (iss_units paid_issuance) \<and>
      balance_of (own_state w3) (iss_wallet paid_issuance) =
        balance_of (own_state w) (iss_wallet paid_issuance) + unat (iss_units paid_issuance)"
    by (intro share_issuance_repeats [OF first i])
       (use one wallet in \<open>simp_all add: w_def sample_economy_balance, simp add: sample_economy_def\<close>)
  then obtain cd3 w3 where "apply_issuance sample_sha paid_prior (Some [paid_share_block, paid_share_block])
        paid_issuance_tx cd = (STN_DATA_OK, cd3)" "cd_economy cd3 = Some w3"
      "balance_of (own_state w3) (replicate 32 9) = balance_of e (replicate 32 9) + 100"
    using wallet by (auto simp: w_def)
  with first one wallet show ?thesis
    by (intro exI [of _ cd] exI [of _ cd3] exI [of _ w3]) (simp add: sample_economy_balance)
qed

section \<open>The two checks of a share\<close>

text \<open>
  C23. The two ways to validate a share exclude each other. On a state whose tip is the last of the given
  blocks and is not also the identifier of the block before it, a share that block validation accepts
  without the history is refused as CONTENT when the same block is validated with the history, and one
  that is accepted with the history is UNRESOLVED without it: the first compares the work's parent with
  the tip, the second with the block below the tip.
\<close>

theorem share_checks_exclude:
  assumes "unat (cs_height s) + 1 = length blocks" "height = cs_height s + 1"
    "stn_chain_block_id sha (Some (blocks ! (length blocks - 2))) (cx_hash_provider c) \<noteq> Inr (cs_tip_id s)"
  shows "(fst (apply_share sha c s None height tx cd) = STN_DATA_OK \<longrightarrow>
      fst (apply_share sha c s (Some blocks) height tx cd') = STN_DATA_CONTENT) \<and>
    (fst (apply_share sha c s (Some blocks) height tx cd) = STN_DATA_OK \<longrightarrow>
      fst (apply_share sha c s None height tx cd') = STN_DATA_UNRESOLVED)"
proof -
  have parent: "share_parent sha (cx_hash_provider c) s None height w = STN_DATA_OK \<Longrightarrow>
        share_parent sha (cx_hash_provider c) s (Some blocks) height w = STN_DATA_CONTENT"
      "share_parent sha (cx_hash_provider c) s (Some blocks) height w = STN_DATA_OK \<Longrightarrow>
        share_parent sha (cx_hash_provider c) s None height w = STN_DATA_UNRESOLVED"
    if "bh_height w \<noteq> 0" "cs_height s \<noteq> 18446744073709551615" for w
  proof -
    have "bh_height w = cs_height s \<Longrightarrow> unat (bh_height w - 1) = length blocks - 2"
      using that assms(1) by (metis add_diff_cancel_right' diff_add_inverse2 diff_diff_add nat_1_add_1 unat_minus_one)
    moreover have "bh_height w + 1 = height \<longleftrightarrow> bh_height w = cs_height s" by (simp add: assms(2))
    ultimately show "share_parent sha (cx_hash_provider c) s None height w = STN_DATA_OK \<Longrightarrow>
        share_parent sha (cx_hash_provider c) s (Some blocks) height w = STN_DATA_CONTENT"
      "share_parent sha (cx_hash_provider c) s (Some blocks) height w = STN_DATA_OK \<Longrightarrow>
        share_parent sha (cx_hash_provider c) s None height w = STN_DATA_UNRESOLVED"
      using assms(3) by (auto simp: share_parent_def Let_def split: if_splits sum.splits)
  qed
  show ?thesis
  proof (cases "stn_share_decode (txn_record_bytes tx)")
    case (Inl e)
    then show ?thesis by (simp add: apply_share_def)
  next
    case share: (Inr share)
    show ?thesis
    proof (cases "stn_block_header_decode (Some (sh_template_header share))")
      case (Inl e)
      with share show ?thesis by (simp add: apply_share_def)
    next
      case (Inr w)
      have "fst (apply_share sha c s (Some blocks) height tx cd') = STN_DATA_CONTENT"
        if "fst (apply_share sha c s None height tx cd) = STN_DATA_OK"
        using that share Inr parent(1) [of w]
        by (auto simp: apply_share_def Let_def split: if_splits prod.splits)
      moreover have "fst (apply_share sha c s None height tx cd') = STN_DATA_UNRESOLVED"
        if "fst (apply_share sha c s (Some blocks) height tx cd) = STN_DATA_OK"
        using that share Inr parent(2) [of w]
        by (auto simp: apply_share_def Let_def split: if_splits prod.splits)
      ultimately show ?thesis by blast
    qed
  qed
qed

definition early_share_state :: stn_chain_state where
  "early_share_state = (empty_state (replicate 32 1) 1)
     \<lparr>cs_has_tip := True, cs_height := 5, cs_tip_id := replicate 32 2\<rparr>"

definition early_share_context :: stn_chain_context where
  "early_share_context = sample_context\<lparr>cx_hash_provider := Some sample_hash\<rparr>"

definition early_share_candidate :: stn_candidate where
  "early_share_candidate = paid_candidate\<lparr>cd_shares := Some (key_buffer_initialize (Some [[]]) 1)\<rparr>"

definition early_share_tx :: stn_transaction where
  "early_share_tx = \<lparr>txn_version = 1, txn_type = STN_TX_SHARE_EVIDENCE, txn_record_bytes = Some paid_share_bytes,
     txn_record_length = 273\<rparr>"

lemma sample_share_verified: "stn_share_verify_evidence (Some sample_share) (Some sample_hash) = Inr (replicate 31 0 @ [6])"
proof -
  have "length (sh_template_header sample_share) = 168"
    using sample_share_header_ok(3) by (simp add: sample_share_def)
  then show ?thesis
    using header_decode_layout [OF sample_share_header_ok(1,2)]
    by (subst share_verify_iff [OF sample_hash_ok]) (simp_all add: sample_share_def sample_share_header_def sample_hash_def be_append)
qed

lemma early_share_accepted:
  "fst (apply_share sample_hash early_share_context early_share_state None 6 early_share_tx early_share_candidate) = STN_DATA_OK"
proof -
  have buffer: "buffer_wf (key_buffer_initialize (Some [[]]) 1)" by (simp add: buffer_wf_initialize)
  have fresh: "fst (stn_share_replay_consume (key_buffer_initialize (Some [[]]) 1) (Some sample_share)) = STN_SHARE_REPLAY_FRESH"
    using share_replay.consume_spec [OF buffer, of "Some sample_share"]
    by (simp add: key_buffer_initialize_def sample_share_def accepted_def)
  have "stn_block_header_decode (Some (sh_template_header sample_share)) = Inr sample_share_header"
    using header_decode_layout [OF sample_share_header_ok(1,2)] by (simp add: sample_share_def)
  moreover have "share_parent sample_hash (Some sample_hash) early_share_state None 6 sample_share_header = STN_DATA_OK"
    by (simp add: share_parent_def early_share_state_def sample_share_header_def)
  moreover have "sh_body_commitment sample_share = replicate 32 4" by (simp add: sample_share_def)
  moreover have "bh_version sample_share_header = 3" "bh_reserved_work_nonce sample_share_header = 0"
      "bh_transaction_commitment sample_share_header = replicate 32 4" "bh_network_id sample_share_header = replicate 32 1"
      "bh_height sample_share_header = 5" by (simp_all add: sample_share_header_def)
  moreover have "cx_hash_provider early_share_context = Some sample_hash" "cx_network_id early_share_context = replicate 32 1"
      "cs_has_tip early_share_state" "cs_height early_share_state = 5"
      "cd_shares early_share_candidate = Some (key_buffer_initialize (Some [[]]) 1)"
      "txn_record_bytes early_share_tx = Some paid_share_bytes"
    by (simp_all add: early_share_context_def early_share_state_def early_share_candidate_def early_share_tx_def sample_context_def)
  ultimately show ?thesis
    using paid_share_codec(2) fresh sample_share_verified
    by (cases "stn_share_replay_consume (key_buffer_initialize (Some [[]]) 1) (Some sample_share)")
       (simp add: apply_share_def)
qed

theorem share_checks_exclude_witness:
  "fst (apply_share sample_hash early_share_context early_share_state None 6 early_share_tx early_share_candidate) = STN_DATA_OK \<and>
   fst (apply_share sample_hash early_share_context early_share_state (Some (replicate 6 [])) 6 early_share_tx
     early_share_candidate) = STN_DATA_CONTENT"
proof -
  have "stn_chain_block_id sample_hash (Some []) p \<noteq> Inr d" for p d
    by (auto simp: stn_chain_block_id_def stn_block_validate_structure_def stn_block_decode.simps(2) split: sum.splits if_splits)
  then have "stn_chain_block_id sample_hash (Some (replicate 6 [] ! (length (replicate 6 ([] :: bytes)) - 2)))
      (cx_hash_provider early_share_context) \<noteq> Inr (cs_tip_id early_share_state)" by simp
  with share_checks_exclude [of early_share_state "replicate 6 []" 6 sample_hash early_share_context early_share_tx
      early_share_candidate early_share_candidate] early_share_accepted
  show ?thesis by (simp add: early_share_state_def)
qed

end
