(* ===== verification/Stn_Fork.thy ===== *)
theory Stn_Fork
  imports Stn_Chain_Batch "HOL-Library.Sublist"
begin

text \<open>
  Fork choice, \<^verbatim>\<open>src/src/stn_fork.c\<close>: both histories are reconstructed from nothing, the one with more
  cumulative work is preferred, and a plan says which blocks leave and which enter the active chain.
  The plan owns its two states, so its release does not appear; a block span is its bytes.
\<close>

section \<open>The order of work and the report\<close>

datatype stn_fork_result =
    STN_FORK_CURRENT | STN_FORK_CANDIDATE | STN_FORK_TIE | STN_FORK_INVALID_CURRENT
  | STN_FORK_INVALID_CANDIDATE | STN_FORK_ERROR | STN_FORK_UNRESOLVED | STN_FORK_UNSUPPORTED

record stn_fork_report =
  fr_result :: stn_fork_result
  fr_failed_side :: int
  fr_validation :: stn_chain_report

fun stn_work_order :: "stn_work option \<Rightarrow> stn_work option \<Rightarrow> stn_fork_result data_result" where
  "stn_work_order (Some current) (Some candidate) =
     (let order = memcmp (work_bytes candidate) (work_bytes current)
      in Inr (if order > 0 then STN_FORK_CANDIDATE else if order < 0 then STN_FORK_CURRENT else STN_FORK_TIE))"
| "stn_work_order _ _ = Inl STN_DATA_ARGUMENT"

definition zero_chain_report :: stn_chain_report where
  "zero_chain_report =
     \<lparr>rp_structure = STN_STAGE_NOT_RUN, rp_link = STN_STAGE_NOT_RUN, rp_body = STN_STAGE_NOT_RUN,
      rp_identifier = STN_STAGE_NOT_RUN, rp_pow = STN_STAGE_NOT_RUN, rp_target = STN_STAGE_NOT_RUN,
      rp_work = STN_STAGE_NOT_RUN, rp_acceptance = STN_ACCEPTANCE_REJECTED, rp_reason = STN_CHAIN_NONE,
      rp_detail = STN_DATA_OK, rp_failing_index = SIZE_MAX, rp_failing_height = 0,
      rp_height_available = False\<rparr>"

definition empty_fork_report :: stn_fork_report where
  "empty_fork_report = \<lparr>fr_result = STN_FORK_CURRENT, fr_failed_side = 0, fr_validation = zero_chain_report\<rparr>"

definition fork_failure :: "stn_fork_report \<Rightarrow> int \<Rightarrow> stn_data_status \<Rightarrow> stn_fork_report" where
  "fork_failure r side detail =
     r\<lparr>fr_failed_side := side,
       fr_result :=
         (if detail = STN_DATA_UNRESOLVED then STN_FORK_UNRESOLVED
          else if detail = STN_DATA_PROVIDER_ERROR \<or> detail = STN_DATA_ARGUMENT \<or> side = 0 then STN_FORK_ERROR
          else if side = 1 then STN_FORK_INVALID_CURRENT else STN_FORK_INVALID_CANDIDATE)\<rparr>"

section \<open>A history\<close>

text \<open>The allocations of one reconstruction: those of the initial state and those of each block.\<close>

type_synonym history_alloc = "chain_alloc \<times> (nat \<Rightarrow> chain_alloc)"

definition fork_history ::
  "stn_hash_fn \<Rightarrow> ed25519 \<Rightarrow> history_alloc \<Rightarrow> stn_chain_context \<Rightarrow> bytes list option \<Rightarrow> int \<Rightarrow>
   stn_fork_report \<times> stn_chain_state option" where
  "fork_history sha ed al c blocks side =
     (if blocks = None \<or> blocks = Some []
      then (fork_failure (empty_fork_report\<lparr>fr_validation := zero_chain_report
              \<lparr>rp_reason := STN_CHAIN_BATCH_LIMIT, rp_detail := STN_DATA_LENGTH\<rparr>\<rparr>) side STN_DATA_LENGTH, None)
      else
        (case stn_chain_reconstruct_history sha ed (fst al) (snd al) c blocks of
           (v, state) \<Rightarrow>
             (let r = empty_fork_report\<lparr>fr_validation := v\<rparr>
              in if rp_acceptance v \<noteq> STN_ACCEPTANCE_UNDER_CONTEXT
                 then (fork_failure r side (rp_detail v), None)
                 else (r\<lparr>fr_result := STN_FORK_TIE\<rparr>, state))))"

section \<open>The plan\<close>

record stn_reorg_plan =
  pl_actionable :: bool
  pl_ancestor_index :: nat
  pl_ancestor_id :: bytes
  pl_detach_begin :: nat
  pl_detach_end :: nat
  pl_attach_begin :: nat
  pl_attach_end :: nat
  pl_detached_count :: nat
  pl_attached_count :: nat
  pl_current :: stn_chain_state
  pl_candidate :: stn_chain_state
  pl_resulting_height :: u64

text \<open>
  The plan both evaluations publish: \<open>common\<close> blocks are shared, \<open>n\<close> and \<open>m\<close> are the lengths of the
  current and the candidate history.
\<close>

definition reorg_plan ::
  "nat \<Rightarrow> bytes \<Rightarrow> nat \<Rightarrow> nat \<Rightarrow> stn_chain_state \<Rightarrow> stn_chain_state \<Rightarrow> stn_fork_result \<Rightarrow> stn_reorg_plan" where
  "reorg_plan common ancestor n m current candidate result =
     \<lparr>pl_actionable = (result = STN_FORK_CANDIDATE), pl_ancestor_index = common - 1, pl_ancestor_id = ancestor,
      pl_detach_begin = common, pl_detach_end = n, pl_attach_begin = common, pl_attach_end = m,
      pl_detached_count = n - common, pl_attached_count = m - common, pl_current = current,
      pl_candidate = candidate,
      pl_resulting_height = (if result = STN_FORK_CANDIDATE then cs_height candidate else cs_height current)\<rparr>"

text \<open>The result of \<^verbatim>\<open>stn_work_order\<close>, which never fails on two existing works.\<close>

definition fork_order :: "stn_chain_state \<Rightarrow> stn_chain_state \<Rightarrow> stn_fork_result" where
  "fork_order current candidate =
     (case stn_work_order (Some (cs_cumulative_work current)) (Some (cs_cumulative_work candidate)) of
        Inr order \<Rightarrow> order | Inl _ \<Rightarrow> STN_FORK_TIE)"

fun common_loop :: "stn_hash_fn \<Rightarrow> stn_hash_provider \<Rightarrow> bytes list \<Rightarrow> bytes list \<Rightarrow> nat option" where
  "common_loop sha p (x # xs) (y # ys) =
     (case (stn_chain_block_id sha (Some x) p, stn_chain_block_id sha (Some y) p) of
        (Inr left, Inr right) \<Rightarrow>
          if memcmp left right \<noteq> 0 then Some 0 else map_option Suc (common_loop sha p xs ys)
      | _ \<Rightarrow> None)"
| "common_loop sha p _ _ = Some 0"

definition stn_fork_evaluate_history ::
  "stn_hash_fn \<Rightarrow> ed25519 \<Rightarrow> (nat \<Rightarrow> history_alloc) \<Rightarrow> stn_chain_context \<Rightarrow> bytes list option \<Rightarrow>
   bytes list option \<Rightarrow> stn_fork_report \<times> stn_reorg_plan option" where
  "stn_fork_evaluate_history sha ed al c current candidate =
     (if cx_pow_policy c = None then (empty_fork_report\<lparr>fr_result := STN_FORK_UNSUPPORTED\<rparr>, None)
      else
        (case fork_history sha ed (al 1) c current 1 of
           (r, None) \<Rightarrow> (r, None)
         | (r, Some s) \<Rightarrow>
             (case fork_history sha ed (al 2) c candidate 2 of
                (r, None) \<Rightarrow> (r, None)
              | (r, Some t) \<Rightarrow>
                  (case common_loop sha (cx_hash_provider c) (the current) (the candidate) of
                     None \<Rightarrow> (fork_failure r 0 STN_DATA_PROVIDER_ERROR, None)
                   | Some common \<Rightarrow>
                       if common = 0
                       then (fork_failure (r\<lparr>fr_validation := (fr_validation r)
                              \<lparr>rp_reason := STN_CHAIN_GENESIS, rp_detail := STN_DATA_CONTENT\<rparr>\<rparr>) 2 STN_DATA_CONTENT, None)
                       else
                         (case stn_chain_block_id sha (Some (the current ! (common - 1))) (cx_hash_provider c) of
                            Inl _ \<Rightarrow> (fork_failure r 0 STN_DATA_PROVIDER_ERROR, None)
                          | Inr ancestor \<Rightarrow>
                              (r\<lparr>fr_result := fork_order s t\<rparr>,
                               Some (reorg_plan common ancestor (length (the current)) (length (the candidate)) s t
                                 (fork_order s t))))))))"

section \<open>A suffix on an accepted prefix\<close>

fun suffix_loop ::
  "stn_hash_fn \<Rightarrow> ed25519 \<Rightarrow> (nat \<Rightarrow> chain_alloc) \<Rightarrow> stn_chain_context \<Rightarrow> nat \<Rightarrow> bytes list \<Rightarrow> stn_chain_state \<Rightarrow>
   stn_fork_report \<Rightarrow> stn_fork_report \<times> stn_chain_state option" where
  "suffix_loop sha ed alloc c i [] state r = (r, Some state)"
| "suffix_loop sha ed alloc c i (block # blocks) state r =
     (case stn_chain_validate_candidate sha ed (alloc i) c state (Some block) of
        (v, out) \<Rightarrow>
          (let r = r\<lparr>fr_validation := v\<rparr>
           in if rp_acceptance v \<noteq> STN_ACCEPTANCE_UNDER_CONTEXT then (fork_failure r 2 (rp_detail v), None)
              else suffix_loop sha ed alloc c (i + 1) blocks (case out of None \<Rightarrow> state | Some s \<Rightarrow> s) r))"

definition stn_fork_evaluate_suffix ::
  "stn_hash_fn \<Rightarrow> ed25519 \<Rightarrow> (nat \<Rightarrow> history_alloc) \<Rightarrow> stn_chain_context \<Rightarrow> bytes list option \<Rightarrow> nat \<Rightarrow>
   bytes list option \<Rightarrow> stn_fork_report \<times> stn_reorg_plan option" where
  "stn_fork_evaluate_suffix sha ed al c current prefix_count blocks =
     (if current = None \<or> prefix_count = 0 \<or> prefix_count > length (the current) \<or> blocks = None \<or> blocks = Some []
      then (fork_failure (empty_fork_report\<lparr>fr_validation := zero_chain_report\<lparr>rp_detail := STN_DATA_ARGUMENT\<rparr>\<rparr>)
              0 STN_DATA_ARGUMENT, None)
      else if cx_pow_policy c = None then (empty_fork_report\<lparr>fr_result := STN_FORK_UNSUPPORTED\<rparr>, None)
      else
        (case fork_history sha ed (al 1) c current 1 of
           (r, None) \<Rightarrow> (r, None)
         | (r, Some s) \<Rightarrow>
             (case fork_history sha ed (al 2) c (map_option (take prefix_count) current) 2 of
                (r, None) \<Rightarrow> (r, None)
              | (r, Some state) \<Rightarrow>
                  (case suffix_loop sha ed (snd (al 3)) c 0 (the blocks) state r of
                     (r, None) \<Rightarrow> (r, None)
                   | (r, Some t) \<Rightarrow>
                       (case stn_chain_block_id sha (Some (the current ! (prefix_count - 1))) (cx_hash_provider c) of
                          Inl _ \<Rightarrow> (fork_failure r 0 STN_DATA_PROVIDER_ERROR, None)
                        | Inr ancestor \<Rightarrow>
                            (r\<lparr>fr_result := fork_order s t\<rparr>,
                             Some (reorg_plan prefix_count ancestor (length (the current))
                               (prefix_count + length (the blocks)) s t (fork_order s t))))))))"

definition stn_fork_evaluate ::
  "stn_hash_fn \<Rightarrow> ed25519 \<Rightarrow> (nat \<Rightarrow> history_alloc) \<Rightarrow> stn_chain_context \<Rightarrow> bytes list option \<Rightarrow> nat \<Rightarrow>
   bytes list option \<Rightarrow> nat \<Rightarrow> stn_fork_report \<times> stn_reorg_plan option" where
  "stn_fork_evaluate sha ed al c current current_count candidate candidate_count =
     (if current_count > STN_CHAIN_MAX_BATCH \<or> candidate_count > STN_CHAIN_MAX_BATCH
      then (fork_failure (empty_fork_report\<lparr>fr_validation := zero_chain_report
              \<lparr>rp_reason := STN_CHAIN_BATCH_LIMIT, rp_detail := STN_DATA_LENGTH\<rparr>\<rparr>)
              (if current_count > STN_CHAIN_MAX_BATCH then 1 else 2) STN_DATA_LENGTH, None)
      else stn_fork_evaluate_history sha ed al c (map_option (take current_count) current)
             (map_option (take candidate_count) candidate))"

section \<open>Reconstructed histories\<close>

definition block_ids :: "stn_hash_fn \<Rightarrow> stn_hash_provider \<Rightarrow> bytes list \<Rightarrow> bytes data_result list" where
  "block_ids sha p blocks = map (\<lambda>b. stn_chain_block_id sha (Some b) p) blocks"

definition total_work :: "stn_hash_fn \<Rightarrow> bytes list \<Rightarrow> nat" where
  "total_work sha blocks = sum_list (map (block_work sha) blocks)"

lemma total_work_append: "total_work sha (xs @ ys) = total_work sha xs + total_work sha ys"
  by (simp add: total_work_def)

lemma run_identified:
  assumes "chain_run sha ed c blocks s" "cx_pow_policy c = Some fixed" "b \<in> set blocks"
  shows "\<exists>ident. stn_chain_block_id sha (Some b) (cx_hash_provider c) = Inr ident"
proof -
  obtain i where i: "i < length blocks" "blocks ! i = b" using assms(3) by (metis in_set_conv_nth)
  then have "linked_at sha c blocks i" using chain_run_linked [OF assms(1)] by blast
  then show ?thesis using i(2) assms(2) by (auto simp: linked_at_def linked_def)
qed

lemma run_work:
  assumes "chain_run sha ed c blocks s" "cx_pow_policy c = Some fixed"
  shows "wf_work (cs_cumulative_work s)" "work_value (cs_cumulative_work s) = total_work sha blocks"
  using chain_run_window [OF assms] by (simp_all add: window_inv_def total_work_def)

lemma run_genesis:
  assumes "chain_run sha ed c blocks s" "blocks \<noteq> []"
  shows "cx_genesis_bytes c = Some (hd blocks)"
  using chain_run_linked [OF assms(1)] assms(2) by (simp add: tip_inv_def)

lemma fork_history_ok:
  assumes "fork_history sha ed al c blocks side = (r, Some s)"
  obtains bs where "blocks = Some bs" "bs \<noteq> []" "chain_run sha ed c bs s"
    "stn_chain_reconstruct_history sha ed (fst al) (snd al) c blocks = (accepted_report c, Some s)"
    "r = empty_fork_report\<lparr>fr_validation := accepted_report c, fr_result := STN_FORK_TIE\<rparr>"
proof -
  obtain bs where bs: "blocks = Some bs" "bs \<noteq> []"
    using assms by (cases blocks) (auto simp: fork_history_def split: if_splits)
  obtain v t where v: "stn_chain_reconstruct_history sha ed (fst al) (snd al) c (Some bs) = (v, t)" by force
  have "t = Some s" "r = empty_fork_report\<lparr>fr_validation := v, fr_result := STN_FORK_TIE\<rparr>"
    using assms v bs by (auto simp: fork_history_def Let_def split: if_splits)
  with v reconstruct_accepted [of sha ed "fst al" "snd al" c bs v s] bs that show ?thesis by auto
qed

lemma fork_failure_result:
  "side = 1 \<or> side = 2 \<Longrightarrow> fr_result (fork_failure r side d) \<notin> {STN_FORK_CURRENT, STN_FORK_CANDIDATE, STN_FORK_TIE}"
  by (auto simp: fork_failure_def)

lemma fork_history_refused:
  assumes "fork_history sha ed al c blocks side = (r, None)" "side = 1 \<or> side = 2"
  shows "fr_result r \<notin> {STN_FORK_CURRENT, STN_FORK_CANDIDATE, STN_FORK_TIE}" "fr_failed_side r = side"
    "snd (stn_chain_reconstruct_history sha ed (fst al) (snd al) c blocks) = None"
proof -
  obtain v t where v: "stn_chain_reconstruct_history sha ed (fst al) (snd al) c blocks = (v, t)" by force
  have t: "t = None"
  proof (cases t)
    case (Some s)
    from reconstruct_started [OF v [unfolded Some]] obtain start bs where bs: "blocks = Some bs" "bs \<noteq> []" by metis
    from reconstruct_accepted(3) [of sha ed _ _ c bs v s] v Some bs have "v = accepted_report c" by simp
    then have "rp_acceptance v = STN_ACCEPTANCE_UNDER_CONTEXT" by (simp add: accepted_report_def Let_def)
    with assms(1) v Some bs show ?thesis by (simp add: fork_history_def)
  qed simp
  show "snd (stn_chain_reconstruct_history sha ed (fst al) (snd al) c blocks) = None" using v t by simp
  have "\<exists>q d. r = fork_failure q side d"
    using assms(1) reconstruct_refused [OF v [unfolded t]] v t by (auto simp: fork_history_def split: if_splits)
  then obtain q d where "r = fork_failure q side d" by blast
  with fork_failure_result [OF assms(2), of q d]
  show "fr_result r \<notin> {STN_FORK_CURRENT, STN_FORK_CANDIDATE, STN_FORK_TIE}" "fr_failed_side r = side"
    by (simp_all add: fork_failure_def)
qed

section \<open>The common prefix and the preference\<close>

lemma common_loop_prefix:
  assumes "\<And>b. b \<in> set xs \<union> set ys \<Longrightarrow> \<exists>ident. stn_chain_block_id sha (Some b) p = Inr ident"
  shows "common_loop sha p xs ys = Some (length (longest_common_prefix (block_ids sha p xs) (block_ids sha p ys)))"
  using assms
proof (induction sha p xs ys rule: common_loop.induct)
  case (1 sha p x xs y ys)
  obtain l r where "stn_chain_block_id sha (Some x) p = Inr l" "stn_chain_block_id sha (Some y) p = Inr r"
    using "1.prems" by (metis UnCI list.set_intros(1))
  with 1 show ?case by (simp add: block_ids_def)
qed (simp_all add: block_ids_def)

definition preference :: "nat \<Rightarrow> nat \<Rightarrow> stn_fork_result" where
  "preference current candidate =
     (if current < candidate then STN_FORK_CANDIDATE
      else if candidate < current then STN_FORK_CURRENT else STN_FORK_TIE)"

lemma work_order_value:
  assumes "wf_work a" "wf_work b"
  shows "stn_work_order (Some a) (Some b) = Inr (preference (work_value a) (work_value b))"
proof -
  have len: "length (work_bytes a) = length (work_bytes b)" using assms by (simp add: wf_work_def)
  show ?thesis
    using memcmp_less_be [OF len] memcmp_less_be [OF len [symmetric]] memcmp_swap [of "work_bytes a" "work_bytes b"]
    by (auto simp: preference_def work_value_def Let_def)
qed

lemma fork_order_run:
  assumes "chain_run sha ed c xs s" "chain_run sha ed c ys t" "cx_pow_policy c = Some fixed"
  shows "fork_order s t = preference (total_work sha xs) (total_work sha ys)"
  using run_work [OF assms(1,3)] run_work [OF assms(2,3)] work_order_value
  by (simp add: fork_order_def)

lemma common_genesis:
  assumes "xs \<noteq> []" "ys \<noteq> []" "hd xs = hd ys"
  shows "0 < length (longest_common_prefix (block_ids sha p xs) (block_ids sha p ys))"
  using assms by (cases xs; cases ys) (auto simp: block_ids_def)

text \<open>The shared part of two accepted histories.\<close>

definition shared :: "stn_hash_fn \<Rightarrow> stn_hash_provider \<Rightarrow> bytes list \<Rightarrow> bytes list \<Rightarrow> nat" where
  "shared sha p xs ys = length (longest_common_prefix (block_ids sha p xs) (block_ids sha p ys))"

lemma fork_evaluate_cases:
  assumes "cx_pow_policy c = Some fixed"
  shows "case stn_fork_evaluate_history sha ed al c current candidate of
      (r, None) \<Rightarrow> fr_result r \<notin> {STN_FORK_CURRENT, STN_FORK_CANDIDATE, STN_FORK_TIE} \<and>
        (if fr_failed_side r = 1
         then snd (stn_chain_reconstruct_history sha ed (fst (al 1)) (snd (al 1)) c current) = None
         else fr_failed_side r = 2 \<and>
           snd (stn_chain_reconstruct_history sha ed (fst (al 2)) (snd (al 2)) c candidate) = None)
    | (r, Some plan) \<Rightarrow> \<exists>xs ys s t ancestor. current = Some xs \<and> candidate = Some ys \<and>
        stn_chain_reconstruct_history sha ed (fst (al 1)) (snd (al 1)) c current = (accepted_report c, Some s) \<and>
        stn_chain_reconstruct_history sha ed (fst (al 2)) (snd (al 2)) c candidate = (accepted_report c, Some t) \<and>
        chain_run sha ed c xs s \<and> chain_run sha ed c ys t \<and> 0 < shared sha (cx_hash_provider c) xs ys \<and>
        stn_chain_block_id sha (Some (xs ! (shared sha (cx_hash_provider c) xs ys - 1))) (cx_hash_provider c) =
          Inr ancestor \<and>
        fr_result r = preference (total_work sha xs) (total_work sha ys) \<and> fr_failed_side r = 0 \<and>
        fr_validation r = accepted_report c \<and>
        plan = reorg_plan (shared sha (cx_hash_provider c) xs ys) ancestor (length xs) (length ys) s t (fr_result r)"
proof -
  obtain r1 u1 where h1: "fork_history sha ed (al 1) c current 1 = (r1, u1)" by force
  obtain r2 u2 where h2: "fork_history sha ed (al 2) c candidate 2 = (r2, u2)" by force
  note policy = assms
  consider "u1 = None" | s where "u1 = Some s" "u2 = None" | s t where "u1 = Some s" "u2 = Some t"
    by (cases u1; cases u2) auto
  then show ?thesis
  proof cases
    case 1
    with h1 policy have "stn_fork_evaluate_history sha ed al c current candidate = (r1, None)"
      by (simp add: stn_fork_evaluate_history_def)
    with fork_history_refused [OF h1 [unfolded 1]] show ?thesis by simp
  next
    case 2
    with h1 h2 policy have "stn_fork_evaluate_history sha ed al c current candidate = (r2, None)"
      by (simp add: stn_fork_evaluate_history_def)
    with fork_history_refused [OF h2 [unfolded 2]] show ?thesis by simp
  next
    case (3 s t)
    obtain xs where x: "current = Some xs" "xs \<noteq> []" "chain_run sha ed c xs s"
        "stn_chain_reconstruct_history sha ed (fst (al 1)) (snd (al 1)) c current = (accepted_report c, Some s)"
      using fork_history_ok [OF h1 [unfolded 3(1)]] by blast
    obtain ys where y: "candidate = Some ys" "ys \<noteq> []" "chain_run sha ed c ys t"
        "stn_chain_reconstruct_history sha ed (fst (al 2)) (snd (al 2)) c candidate = (accepted_report c, Some t)"
        "r2 = empty_fork_report\<lparr>fr_validation := accepted_report c, fr_result := STN_FORK_TIE\<rparr>"
      using fork_history_ok [OF h2 [unfolded 3(2)]] by blast
    let ?k = "shared sha (cx_hash_provider c) xs ys"
    have common: "common_loop sha (cx_hash_provider c) xs ys = Some ?k"
      unfolding shared_def
      by (rule common_loop_prefix) (use run_identified [OF x(3) assms] run_identified [OF y(3) assms] in blast)
    have pos: "0 < ?k"
      unfolding shared_def using common_genesis [OF x(2) y(2)] run_genesis [OF x(3,2)] run_genesis [OF y(3,2)] by simp
    have "?k \<le> length xs"
      unfolding shared_def using prefix_length_le [OF longest_common_prefix_prefix1] by (metis block_ids_def length_map)
    with pos have "xs ! (?k - 1) \<in> set xs" by (intro nth_mem) simp
    from run_identified [OF x(3) assms this] obtain ancestor where
        a: "stn_chain_block_id sha (Some (xs ! (?k - 1))) (cx_hash_provider c) = Inr ancestor" by blast
    have "stn_fork_evaluate_history sha ed al c current candidate =
        (r2\<lparr>fr_result := fork_order s t\<rparr>, Some (reorg_plan ?k ancestor (length xs) (length ys) s t (fork_order s t)))"
      using h1 h2 3 policy x(1) y(1) common pos a by (simp add: stn_fork_evaluate_history_def)
    then show ?thesis
      using x y a pos fork_order_run [OF x(3) y(3) assms] by (simp add: empty_fork_report_def)
  qed
qed

section \<open>Suffixes\<close>

lemma suffix_loop_run:
  assumes "suffix_loop sha ed alloc c i blocks s r = (r', Some t)" "chain_run sha ed c before s"
  shows "chain_run sha ed c (before @ blocks) t \<and> fr_failed_side r' = fr_failed_side r"
  using assms
proof (induction blocks arbitrary: i s r before)
  case Nil
  then show ?case by simp
next
  case (Cons b bs)
  obtain v out where v: "stn_chain_validate_candidate sha ed (alloc i) c s (Some b) = (v, out)" by force
  with Cons.prems(1) have ok: "rp_acceptance v = STN_ACCEPTANCE_UNDER_CONTEXT" by (auto simp: Let_def split: if_splits)
  then obtain u where u: "out = Some u"
    using v candidate_refused [of sha ed "alloc i" c s None "Some b" False v]
    by (cases out) (auto simp: stn_chain_validate_candidate_def)
  from v u have "validate_candidate sha ed (alloc i) c s None (Some b) False = (v, Some u)"
    by (simp add: stn_chain_validate_candidate_def)
  from run_block [OF Cons.prems(2) this] have run: "chain_run sha ed c (before @ [b]) u" by simp
  have "suffix_loop sha ed alloc c (i + 1) bs u (r\<lparr>fr_validation := v\<rparr>) = (r', Some t)"
    using Cons.prems(1) v u ok by (simp add: Let_def)
  from Cons.IH [OF this run] show ?case by simp
qed

lemma suffix_loop_refused:
  "suffix_loop sha ed alloc c i blocks s r = (r', None) \<Longrightarrow>
     fr_result r' \<notin> {STN_FORK_CURRENT, STN_FORK_CANDIDATE, STN_FORK_TIE} \<and> fr_failed_side r' = 2"
proof (induction blocks arbitrary: i s r)
  case (Cons b bs)
  obtain v out where v: "stn_chain_validate_candidate sha ed (alloc i) c s (Some b) = (v, out)" by force
  show ?case
  proof (cases "rp_acceptance v = STN_ACCEPTANCE_UNDER_CONTEXT")
    case True
    with Cons.prems v Cons.IH show ?thesis by (auto simp: Let_def)
  next
    case False
    with Cons.prems v have "r' = fork_failure (r\<lparr>fr_validation := v\<rparr>) 2 (rp_detail v)" by (simp add: Let_def)
    then show ?thesis using fork_failure_result [of 2] by (simp add: fork_failure_def)
  qed
qed simp

lemma fork_suffix_cases:
  assumes "cx_pow_policy c = Some fixed" "stn_fork_evaluate_suffix sha ed al c current k blocks = (r, Some plan)"
  obtains xs ys s t ancestor where "current = Some xs" "blocks = Some ys" "0 < k" "k \<le> length xs" "ys \<noteq> []"
    "chain_run sha ed c xs s" "chain_run sha ed c (take k xs @ ys) t"
    "stn_chain_block_id sha (Some (xs ! (k - 1))) (cx_hash_provider c) = Inr ancestor"
    "fr_result r = preference (total_work sha xs) (total_work sha (take k xs @ ys))" "fr_failed_side r = 0"
    "plan = reorg_plan k ancestor (length xs) (k + length ys) s t (fr_result r)"
proof -
  obtain xs ys where xs: "current = Some xs" "blocks = Some ys" "0 < k" "k \<le> length xs" "ys \<noteq> []"
    using assms(2) by (auto simp: stn_fork_evaluate_suffix_def split: if_splits)
  obtain r1 s r2 u r3 t ancestor where h: "fork_history sha ed (al 1) c (Some xs) 1 = (r1, Some s)"
      "fork_history sha ed (al 2) c (Some (take k xs)) 2 = (r2, Some u)"
      "suffix_loop sha ed (snd (al 3)) c 0 ys u r2 = (r3, Some t)"
      "stn_chain_block_id sha (Some (xs ! (k - 1))) (cx_hash_provider c) = Inr ancestor"
      "r = r3\<lparr>fr_result := fork_order s t\<rparr>"
      "plan = reorg_plan k ancestor (length xs) (k + length ys) s t (fork_order s t)"
    using assms xs by (auto simp: stn_fork_evaluate_suffix_def split: if_splits prod.splits option.splits sum.splits)
  have s: "chain_run sha ed c xs s" by (rule fork_history_ok [OF h(1)]) simp
  have u: "chain_run sha ed c (take k xs) u" by (rule fork_history_ok [OF h(2)]) simp
  have side: "fr_failed_side r2 = 0" by (rule fork_history_ok [OF h(2)]) (simp add: empty_fork_report_def)
  from suffix_loop_run [OF h(3) u] side have t: "chain_run sha ed c (take k xs @ ys) t" "fr_failed_side r3 = 0"
    by simp_all
  show ?thesis
    by (rule that [OF xs s t(1) h(4)]) (use h(5,6) t(2) fork_order_run [OF s t(1) assms(1)] in simp_all)
qed

lemma fork_suffix_refused:
  assumes "stn_fork_evaluate_suffix sha ed al c current k blocks = (r, None)"
  shows "fr_result r \<notin> {STN_FORK_CURRENT, STN_FORK_CANDIDATE, STN_FORK_TIE}"
proof -
  let ?bad = "\<lambda>r. fr_result r \<notin> {STN_FORK_CURRENT, STN_FORK_CANDIDATE, STN_FORK_TIE}"
  have args: "?bad (fork_failure q 0 d)" for q d by (simp add: fork_failure_def)
  have one: "?bad q" if "fork_history sha ed x c h 1 = (q, None)" for x h q
    using fork_history_refused(1) [OF that] by simp
  have two: "?bad q" if "fork_history sha ed x c h 2 = (q, None)" for x h q
    using fork_history_refused(1) [OF that] by simp
  have three: "?bad q" if "suffix_loop sha ed f c i bs u q' = (q, None)" for f i bs u q' q
    using suffix_loop_refused [OF that] by simp
  have unsupported: "?bad (empty_fork_report\<lparr>fr_result := STN_FORK_UNSUPPORTED\<rparr>)" by simp
  obtain r1 u1 where h1: "fork_history sha ed (al 1) c current 1 = (r1, u1)" by force
  obtain r2 u2 where h2: "fork_history sha ed (al 2) c (map_option (take k) current) 2 = (r2, u2)" by force
  obtain r3 u3 where h3: "suffix_loop sha ed (snd (al 3)) c 0 (the blocks) (the u2) r2 = (r3, u3)" by force
  note def = assms [unfolded stn_fork_evaluate_suffix_def h1 prod.case]
  show ?thesis
  proof (cases "(current = None \<or> k = 0 \<or> k > length (the current) \<or> blocks = None \<or> blocks = Some []) \<or>
      cx_pow_policy c = None")
    case True
    with def args unsupported show ?thesis by (auto split: if_splits)
  next
    case False
    then have False': "\<not> (current = None \<or> k = 0 \<or> k > length (the current) \<or> blocks = None \<or> blocks = Some [])"
      "\<not> cx_pow_policy c = None" by blast+
    note def2 = def [unfolded if_not_P [OF False'(1)] if_not_P [OF False'(2)]]
    consider "u1 = None" | "u1 \<noteq> None" "u2 = None" | "u1 \<noteq> None" "u2 \<noteq> None" "u3 = None"
      | "u1 \<noteq> None" "u2 \<noteq> None" "u3 \<noteq> None" by blast
    then show ?thesis
    proof cases
      case 1
      with def2 have "r = r1" by simp
      with one [of "al 1" current] h1 1 show ?thesis by simp
    next
      case 2
      with def2 h2 have "r = r2" by (auto split: option.splits)
      with two [of "al 2" "map_option (take k) current"] h2 2 show ?thesis by simp
    next
      case 3
      with def2 h2 h3 have "r = r3" by (auto split: option.splits)
      with three [of "snd (al 3)" 0 "the blocks" "the u2" r2] h3 3 show ?thesis by simp
    next
      case 4
      with def2 h2 h3 obtain q where "r = fork_failure q 0 STN_DATA_PROVIDER_ERROR"
        by (auto split: option.splits sum.splits)
      with args show ?thesis by simp
    qed
  qed
qed

section \<open>A second block\<close>

definition sample_second_header :: stn_block_header where
  "sample_second_header = sample_genesis_header\<lparr>bh_height := 1, bh_previous_hash := replicate 32 9\<rparr>"

definition sample_second :: bytes where
  "sample_second = header_layout sample_second_header"

lemma sample_second_parts: "block_parts sha sample_second sample_second_header []"
proof -
  have "stn_target_validate (Some (0x40 # replicate 31 0)) = STN_DATA_OK"
    by (simp add: target_validate_iff be_append)
  then have "wf_header sample_second_header" "header_valid sample_second_header = STN_DATA_OK"
    by (simp_all add: wf_header_def header_valid_def sample_second_header_def sample_genesis_header_def
        sample_block_header_def nonzero_iff)
  from header_decode_layout [OF this] this(1) show ?thesis
    by (simp add: block_parts_def sample_second_def)
      (simp add: sample_second_header_def sample_genesis_header_def)
qed

lemma sample_second_decode:
  "stn_block_decode sha (Some sample_second) = Inr \<lparr>blk_header = sample_second_header, blk_body = Some []\<rparr>"
  using block_parts_decode(1) [OF sample_second_parts, of sha] by simp

lemma sample_second_id: "stn_chain_block_id sample_sha (Some sample_second) (Some sample_sha) = Inr (replicate 32 9)"
  by (simp add: stn_chain_block_id_def stn_block_validate_structure_def sample_second_decode sample_sha_def)

lemma sample_second_step:
  assumes "chain_run sample_sha sample_ed sample_context [sample_genesis] s"
  shows "\<exists>r s'. validate_candidate sample_sha sample_ed (\<lambda>_. True) sample_context s history (Some sample_second) own =
    (r, Some s')"
proof -
  let ?h = "sample_second_header"
  let ?b = "\<lparr>blk_header = ?h, blk_body = Some []\<rparr> :: stn_block"
  have h: "bh_version ?h = 3" "bh_network_id ?h = replicate 32 1" "bh_reserved_target ?h = 0x40 # replicate 31 0"
      "bh_transaction_count ?h = 0" "bh_height ?h = 1" "bh_previous_hash ?h = replicate 32 9"
      "bh_timestamp ?h = bh_timestamp sample_genesis_header"
    by (simp_all add: sample_second_header_def sample_genesis_header_def sample_block_header_def)
  have policy: "cx_pow_policy sample_context = Some (0x40 # replicate 31 0)"
      "cx_hash_provider sample_context = Some sample_sha" "cx_network_id sample_context = replicate 32 1"
    by (simp_all add: sample_context_def)
  have g: "bh_height sample_genesis_header = 0" by (simp add: sample_genesis_header_def sample_block_header_def)
  have tip: "cs_has_tip s" "cs_height s = 0" "cs_tip_id s = replicate 32 9"
      "cs_timestamp s = bh_timestamp sample_genesis_header"
    using conjunct1 [OF chain_run_linked [OF assms]] g
    by (simp_all add: tip_inv_def policy sample_genesis_id header_of_def sample_genesis_decode)
  have prior: "prior_valid sample_sha sample_context s = STN_DATA_OK"
    by (rule prior_valid_ok [OF assms sample_sha_ok])
  note window = chain_run_window [OF assms policy(1)]
  have w: "window_inv (0x40 # replicate 31 0) s" "work_value (cs_cumulative_work s) = 2 ^ 256 div (2 ^ 254 + 1)"
      "wf_work (cs_cumulative_work s)"
  proof -
    show "window_inv (0x40 # replicate 31 0) s" using window by blast
    then show "wf_work (cs_cumulative_work s)" by (simp add: window_inv_def)
    show "work_value (cs_cumulative_work s) = 2 ^ 256 div (2 ^ 254 + 1)"
      using conjunct2 [OF window] by (simp add: block_work_def header_of_def sample_genesis_decode
          sample_genesis_header_def sample_block_header_def be_append)
  qed
  have "cs_current_target s = 0x40 # replicate 31 0" using w(1) tip(1,2) by (simp add: window_inv_def)
  then have required: "stn_chain_required_target sample_sha sample_context s = Inr (0x40 # replicate 31 0)"
    using required_target_cases [OF sample_context_valid prior policy(1) w(1)] tip(1,2)
    by (simp add: boundary_def)
  moreover have "stn_block_check_integrity sample_sha (Some sample_second) (Some sample_sha) = STN_DATA_OK"
    unfolding integrity_parts [OF sample_sha_ok sample_second_parts]
    by (simp add: sample_sha_def sample_second_header_def sample_genesis_header_def sample_block_header_def)
  ultimately have links: "block_links sample_sha sample_context s sample_second ?b"
    unfolding block_links_def using sample_context_valid prior sample_second_decode tip
    by (simp add: policy h)
  have "stn_target_validate (Some (0x40 # replicate 31 0)) = STN_DATA_OK"
    by (simp add: target_validate_iff be_append)
  from target_work_correct [OF this] obtain u where u: "stn_target_work (0x40 # replicate 31 0) = Inr u" "wf_work u"
      "work_value u = 2 ^ 256 div (2 ^ 254 + 1)" by (auto simp: be_append)
  have "work_value (cs_cumulative_work s) + work_value u < 256 ^ 40"
    unfolding w(2) u(3) by simp
  with work_add_fits [OF w(3) u(2)] obtain w' where
      w': "stn_work_add (Some (cs_cumulative_work s)) (Some u) = Inr w'" by blast
  have "\<not> zero32 (replicate 32 9)" by (simp add: zero32_def nonzero_iff)
  then have "\<exists>base. work_step sample_sha sample_context s sample_second (blk_header ?b) base"
    unfolding work_step_def Let_def policy h option.case stn_block.simps sample_second_id
    using sample_genesis_pow u(1) w' by blast
  moreover have "\<exists>cd. transactions_step sample_sha sample_ed (\<lambda>_. True) sample_context s history own ?b cd"
    by (simp add: transactions_step_def h candidate_copies_def Let_def no_flags_def)
  ultimately show ?thesis
    using candidate_accepted [of sample_sha sample_ed "\<lambda>_. True" sample_context s history sample_second own] links by blast
qed

text \<open>The histories of one and of two blocks are reconstructed when no allocation fails.\<close>

lemma sample_reconstruct_one:
  "\<exists>s. stn_chain_reconstruct_history sample_sha sample_ed (\<lambda>_. True) (\<lambda>_ _. True) sample_context
     (Some [sample_genesis]) = (accepted_report sample_context, Some s)"
proof -
  obtain s where s: "stn_chain_initialize sample_sha (\<lambda>_. True) sample_context = Inr s"
    using sample_initialize by blast
  from sample_genesis_step [OF s, of "Some []" True] obtain r s' where
      "validate_candidate sample_sha sample_ed (\<lambda>_. True) sample_context s (Some []) (Some sample_genesis) True = (r, Some s')"
    by blast
  then have "stn_chain_reconstruct_history sample_sha sample_ed (\<lambda>_. True) (\<lambda>_ _. True) sample_context
     (Some [sample_genesis]) = (r, Some s')"
    using s by (simp add: stn_chain_reconstruct_history_def)
  with reconstruct_accepted(3) [OF this] show ?thesis by blast
qed

lemma sample_reconstruct_two:
  "\<exists>s. stn_chain_reconstruct_history sample_sha sample_ed (\<lambda>_. True) (\<lambda>_ _. True) sample_context
     (Some [sample_genesis, sample_second]) = (accepted_report sample_context, Some s)"
proof -
  obtain s where s: "stn_chain_initialize sample_sha (\<lambda>_. True) sample_context = Inr s"
    using sample_initialize by blast
  from sample_genesis_step [OF s, of "Some []" True] obtain r s' where
      one: "validate_candidate sample_sha sample_ed (\<lambda>_. True) sample_context s (Some []) (Some sample_genesis) True = (r, Some s')"
    by blast
  from run_block [OF run_start [OF s, of sample_ed] one]
  have "chain_run sample_sha sample_ed sample_context [sample_genesis] s'" by simp
  from sample_second_step [OF this, of "Some [sample_genesis]" True] obtain r' s'' where
      "validate_candidate sample_sha sample_ed (\<lambda>_. True) sample_context s' (Some [sample_genesis]) (Some sample_second) True =
        (r', Some s'')" by blast
  with one have "stn_chain_reconstruct_history sample_sha sample_ed (\<lambda>_. True) (\<lambda>_ _. True) sample_context
     (Some [sample_genesis, sample_second]) = (r', Some s'')"
    using s by (simp add: stn_chain_reconstruct_history_def)
  with reconstruct_accepted(3) [OF this] show ?thesis by blast
qed

lemma sample_total_work:
  "total_work sample_sha [sample_genesis] = 2 ^ 256 div (2 ^ 254 + 1)"
  "total_work sample_sha [sample_genesis, sample_second] = 2 * (2 ^ 256 div (2 ^ 254 + 1))"
  by (simp_all add: total_work_def block_work_def header_of_def sample_genesis_decode sample_second_decode
      sample_second_header_def sample_genesis_header_def sample_block_header_def be_append)

section \<open>Properties\<close>

text \<open>
  C6. Fork choice, exactly. Under a work policy the evaluation yields a plan exactly when both histories
  are reconstructed; it prefers the one whose blocks have strictly more total work and keeps the current
  one on a tie. The plan splits both histories at the last block they share, which always exists because
  both start with the context's genesis: it detaches the rest of the current history and attaches the
  rest of the candidate. Otherwise there is no plan and the failed side names the history at fault.
\<close>

theorem fork_choice_exact:
  assumes "cx_pow_policy c = Some fixed"
  shows "case stn_fork_evaluate_history sha ed al c current candidate of
      (r, None) \<Rightarrow> fr_result r \<notin> {STN_FORK_CURRENT, STN_FORK_CANDIDATE, STN_FORK_TIE} \<and>
        (if fr_failed_side r = 1
         then snd (stn_chain_reconstruct_history sha ed (fst (al 1)) (snd (al 1)) c current) = None
         else fr_failed_side r = 2 \<and>
           snd (stn_chain_reconstruct_history sha ed (fst (al 2)) (snd (al 2)) c candidate) = None)
    | (r, Some plan) \<Rightarrow> \<exists>xs ys s t ancestor. current = Some xs \<and> candidate = Some ys \<and>
        stn_chain_reconstruct_history sha ed (fst (al 1)) (snd (al 1)) c current = (accepted_report c, Some s) \<and>
        stn_chain_reconstruct_history sha ed (fst (al 2)) (snd (al 2)) c candidate = (accepted_report c, Some t) \<and>
        chain_run sha ed c xs s \<and> chain_run sha ed c ys t \<and> 0 < shared sha (cx_hash_provider c) xs ys \<and>
        stn_chain_block_id sha (Some (xs ! (shared sha (cx_hash_provider c) xs ys - 1))) (cx_hash_provider c) =
          Inr ancestor \<and>
        fr_result r = preference (total_work sha xs) (total_work sha ys) \<and> fr_failed_side r = 0 \<and>
        fr_validation r = accepted_report c \<and>
        plan = reorg_plan (shared sha (cx_hash_provider c) xs ys) ancestor (length xs) (length ys) s t (fr_result r)"
  by (rule fork_evaluate_cases [OF assms])

theorem fork_choice_exact_witness:
  "\<exists>r plan. stn_fork_evaluate_history sample_sha sample_ed (\<lambda>_. (\<lambda>_. True, \<lambda>_ _. True)) sample_context
       (Some [sample_genesis]) (Some [sample_genesis, sample_second]) = (r, Some plan) \<and>
     fr_result r = STN_FORK_CANDIDATE \<and> pl_actionable plan \<and> pl_detached_count plan = 0 \<and> pl_attached_count plan = 1"
proof -
  have policy: "cx_pow_policy sample_context = Some (0x40 # replicate 31 0)" "cx_hash_provider sample_context = Some sample_sha"
    by (simp_all add: sample_context_def)
  have "shared sample_sha (Some sample_sha) [sample_genesis] [sample_genesis, sample_second] = 1"
    by (simp add: shared_def block_ids_def)
  moreover have "preference (2 ^ 256 div (2 ^ 254 + 1)) (2 * (2 ^ 256 div (2 ^ 254 + 1))) = STN_FORK_CANDIDATE"
    by (simp add: preference_def)
  ultimately show ?thesis
    using fork_choice_exact [OF policy(1), of sample_sha sample_ed "\<lambda>_. (\<lambda>_. True, \<lambda>_ _. True)"
        "Some [sample_genesis]" "Some [sample_genesis, sample_second]"]
      sample_reconstruct_one sample_reconstruct_two
    by (auto simp: policy sample_total_work reorg_plan_def split: prod.splits option.splits if_splits)
qed

text \<open>
  C17. A suffix is a history. When the evaluation of a suffix on the first \<open>k\<close> accepted blocks yields a
  plan, both the current history and those \<open>k\<close> blocks followed by the suffix are reachable chains, the
  order is that of their total work, and the plan detaches and attaches exactly what differs after the
  ancestor at \<open>k - 1\<close>. Without a plan the result is never one of the three orders.
\<close>

theorem fork_suffix_sound:
  assumes "cx_pow_policy c = Some fixed"
  shows "case stn_fork_evaluate_suffix sha ed al c current k blocks of
      (r, None) \<Rightarrow> fr_result r \<notin> {STN_FORK_CURRENT, STN_FORK_CANDIDATE, STN_FORK_TIE}
    | (r, Some plan) \<Rightarrow> \<exists>xs ys s t ancestor. current = Some xs \<and> blocks = Some ys \<and> 0 < k \<and> k \<le> length xs \<and>
        chain_run sha ed c xs s \<and> chain_run sha ed c (take k xs @ ys) t \<and>
        stn_chain_block_id sha (Some (xs ! (k - 1))) (cx_hash_provider c) = Inr ancestor \<and>
        fr_result r = preference (total_work sha xs) (total_work sha (take k xs @ ys)) \<and>
        plan = reorg_plan k ancestor (length xs) (k + length ys) s t (fr_result r)"
proof (cases "stn_fork_evaluate_suffix sha ed al c current k blocks")
  case (Pair r out)
  show ?thesis
  proof (cases out)
    case None
    with fork_suffix_refused [of sha ed al c current k blocks r] Pair show ?thesis by simp
  next
    case (Some plan)
    from fork_suffix_cases [OF assms Pair [unfolded Some]] show ?thesis using Pair Some by (simp, metis)
  qed
qed

theorem fork_suffix_sound_witness:
  "\<exists>r plan. stn_fork_evaluate_suffix sample_sha sample_ed (\<lambda>_. (\<lambda>_. True, \<lambda>_ _. True)) sample_context
       (Some [sample_genesis]) 1 (Some [sample_second]) = (r, Some plan) \<and> fr_result r = STN_FORK_CANDIDATE"
proof -
  let ?al = "\<lambda>_. (\<lambda>_. True, \<lambda>_ _. True) :: history_alloc"
  have policy: "cx_pow_policy sample_context = Some (0x40 # replicate 31 0)" "cx_hash_provider sample_context = Some sample_sha"
    by (simp_all add: sample_context_def)
  obtain s where s: "stn_chain_reconstruct_history sample_sha sample_ed (\<lambda>_. True) (\<lambda>_ _. True) sample_context
      (Some [sample_genesis]) = (accepted_report sample_context, Some s)" using sample_reconstruct_one by blast
  have "rp_acceptance (accepted_report sample_context) = STN_ACCEPTANCE_UNDER_CONTEXT"
    by (simp add: accepted_report_def Let_def)
  with s have h: "fork_history sample_sha sample_ed (\<lambda>_. True, \<lambda>_ _. True) sample_context (Some [sample_genesis]) side =
      (empty_fork_report\<lparr>fr_validation := accepted_report sample_context, fr_result := STN_FORK_TIE\<rparr>, Some s)" for side
    by (simp add: fork_history_def Let_def)
  obtain r t where step: "validate_candidate sample_sha sample_ed (\<lambda>_. True) sample_context s None (Some sample_second) False =
      (r, Some t)" using sample_second_step [OF reconstruct_accepted(2) [OF s]] by blast
  with candidate_report [OF step] have "suffix_loop sample_sha sample_ed (\<lambda>_ _. True) sample_context 0 [sample_second] s q =
      (q\<lparr>fr_validation := accepted_report sample_context\<rparr>, Some t)" for q
    by (simp add: stn_chain_validate_candidate_def accepted_report_def Let_def)
  with h have "\<exists>r plan. stn_fork_evaluate_suffix sample_sha sample_ed ?al sample_context (Some [sample_genesis]) 1
      (Some [sample_second]) = (r, Some plan)"
    by (simp add: stn_fork_evaluate_suffix_def policy sample_genesis_id)
  then obtain r plan where e: "stn_fork_evaluate_suffix sample_sha sample_ed ?al sample_context (Some [sample_genesis]) 1
      (Some [sample_second]) = (r, Some plan)" by blast
  have "preference (2 ^ 256 div (2 ^ 254 + 1)) (2 * (2 ^ 256 div (2 ^ 254 + 1))) = STN_FORK_CANDIDATE"
    by (simp add: preference_def)
  then have "fr_result r = STN_FORK_CANDIDATE"
    using fork_suffix_sound [OF policy(1), where sha = sample_sha and ed = sample_ed and al = ?al and
        current = "Some [sample_genesis]" and k = 1 and blocks = "Some [sample_second]"] e
    by (auto simp: sample_total_work)
  with e show ?thesis by blast
qed

end
