(* ===== verification/Stn_Storage.thy ===== *)
theory Stn_Storage
  imports Stn_Fork
begin

text \<open>
  The storage of the accepted history, \<^verbatim>\<open>src/src/stn_storage.c\<close>: the snapshot format, and the operations
  that create, load, extend, replace, repair and adopt a snapshot. The backend is a provider of
  callbacks; each operation calls each of them at most once, so a provider is the answer of these calls
  to the bytes it stores, None before the first snapshot.
\<close>

section \<open>Statuses and the provider\<close>

datatype stn_storage_status =
    STN_STORAGE_OK | STN_STORAGE_ARGUMENT | STN_STORAGE_FORMAT | STN_STORAGE_VALIDATION | STN_STORAGE_IO
  | STN_STORAGE_NOT_FOUND | STN_STORAGE_EXISTS | STN_STORAGE_STALE | STN_STORAGE_NOT_PREFERRED
  | STN_STORAGE_UNRESOLVED | STN_STORAGE_BUSY | STN_STORAGE_CAPACITY

type_synonym disk = "bytes option"

text \<open>A read answers the status and the bytes it wrote; their number is the reported length.\<close>

record stn_storage_provider =
  sp_acquire :: stn_storage_status
  sp_read :: "disk \<Rightarrow> nat \<Rightarrow> stn_storage_status \<times> bytes"
  sp_replace :: "disk \<Rightarrow> bytes \<Rightarrow> stn_storage_status \<times> disk"

text \<open>A decoded snapshot. The state is the one the history reconstructs.\<close>

record stn_storage_view =
  vw_blocks :: "bytes list"
  vw_state :: stn_chain_state

text \<open>The two buffers of a caller; None for a NULL pointer, else the capacity.\<close>

record stn_storage_workspace =
  ws_current_capacity :: "nat option"
  ws_next_capacity :: "nat option"

text \<open>The answers of the allocator: span tables, and the reconstructions of the operation in order.\<close>

record storage_alloc =
  sa_spans :: bool
  sa_table :: bool
  sa_history :: "nat \<Rightarrow> history_alloc"

section \<open>The snapshot format\<close>

definition STN_STORAGE_OVERHEAD :: nat where "STN_STORAGE_OVERHEAD = 44"

definition storage_digest :: "stn_chain_context \<Rightarrow> bytes \<Rightarrow> stn_storage_status + bytes" where
  "storage_digest c p =
     (case cx_hash_provider c of
        None \<Rightarrow> Inl STN_STORAGE_UNRESOLVED
      | Some hash \<Rightarrow>
          (case hash (cstring ''STN-CHAIN:STORAGE:1'') p of
             Inr digest \<Rightarrow> Inr digest
           | Inl s \<Rightarrow> Inl (if s = STN_DATA_UNRESOLVED then STN_STORAGE_UNRESOLVED else STN_STORAGE_IO)))"

definition storage_validate ::
  "stn_hash_fn \<Rightarrow> ed25519 \<Rightarrow> history_alloc \<Rightarrow> stn_chain_context \<Rightarrow> bytes list option \<Rightarrow>
   stn_storage_status + stn_chain_state" where
  "storage_validate sha ed al c b =
     (if b = None \<or> b = Some [] \<or> cx_pow_policy c = None then Inl STN_STORAGE_ARGUMENT
      else
        (case stn_chain_reconstruct_history sha ed (fst al) (snd al) c b of
           (r, out) \<Rightarrow>
             if rp_acceptance r = STN_ACCEPTANCE_UNRESOLVED then Inl STN_STORAGE_UNRESOLVED
             else if rp_acceptance r = STN_ACCEPTANCE_UNDER_CONTEXT \<and> out \<noteq> None then Inr (the out)
             else Inl STN_STORAGE_VALIDATION))"

text \<open>
  The loop of \<^verbatim>\<open>stn_storage_decode\<close> over the bytes between the header and the digest: \<open>n\<close> records of a
  length word and a block.
\<close>

fun spans_read :: "nat \<Rightarrow> bytes \<Rightarrow> (bytes list \<times> bytes) option" where
  "spans_read 0 rest = Some ([], rest)"
| "spans_read (Suc n) rest =
     (if length rest < 4 then None
      else
        (let len = unat (stn_wire_read rest 4); after = drop 4 rest
         in if len < STN_BLOCK_HEADER_SIZE \<or> len > STN_BLOCK_MAX_SIZE \<or> len > length after then None
            else map_option (map_prod ((#) (take len after)) id) (spans_read n (drop len after))))"

definition stn_storage_decode ::
  "stn_hash_fn \<Rightarrow> ed25519 \<Rightarrow> bool \<Rightarrow> history_alloc \<Rightarrow> stn_chain_context \<Rightarrow> bytes \<Rightarrow>
   stn_storage_status + stn_storage_view" where
  "stn_storage_decode sha ed spans al c p =
     (let n = length p; count = unat (stn_wire_read (drop 8 p) 4)
      in if n < STN_STORAGE_OVERHEAD \<or> memcmp (take 4 p) (ascii ''STNS'') \<noteq> 0 \<or>
           stn_wire_read (drop 4 p) 2 \<noteq> 1 \<or> stn_wire_read (drop 6 p) 2 \<noteq> 0 then Inl STN_STORAGE_FORMAT
         else if count = 0 \<or> count > SIZE_MAX div 16 then Inl STN_STORAGE_FORMAT
         else if count > (n - STN_STORAGE_OVERHEAD) div (4 + STN_BLOCK_HEADER_SIZE) then Inl STN_STORAGE_FORMAT
         else if \<not> spans then Inl STN_STORAGE_CAPACITY
         else
           (case spans_read count (drop 12 (take (n - 32) p)) of
              None \<Rightarrow> Inl STN_STORAGE_FORMAT
            | Some (blocks, rest) \<Rightarrow>
                if rest \<noteq> [] then Inl STN_STORAGE_FORMAT
                else
                  (case storage_digest c (take (n - 32) p) of
                     Inl s \<Rightarrow> Inl s
                   | Inr hash \<Rightarrow>
                       if memcmp hash (drop (n - 32) p) \<noteq> 0 then Inl STN_STORAGE_FORMAT
                       else
                         (case storage_validate sha ed al c (Some blocks) of
                            Inl s \<Rightarrow> Inl s
                          | Inr state \<Rightarrow> Inr \<lparr>vw_blocks = blocks, vw_state = state\<rparr>))))"

definition stored_record :: "bytes \<Rightarrow> bytes" where
  "stored_record b = stn_wire_write 4 (word_of_nat (length b)) @ b"

definition storage_prefix :: "bytes list \<Rightarrow> bytes" where
  "storage_prefix blocks =
     ascii ''STNS'' @ stn_wire_write 2 1 @ stn_wire_write 2 0 @ stn_wire_write 4 (word_of_nat (length blocks)) @
     concat (map stored_record blocks)"

fun storage_total :: "bytes list \<Rightarrow> nat \<Rightarrow> nat option" where
  "storage_total [] acc = Some acc"
| "storage_total (b # bs) acc =
     (if acc > SIZE_MAX - 4 \<or> length b > SIZE_MAX - acc - 4 then None
      else storage_total bs (acc + (4 + length b)))"

definition stn_storage_encode ::
  "stn_hash_fn \<Rightarrow> ed25519 \<Rightarrow> history_alloc \<Rightarrow> stn_chain_context \<Rightarrow> bytes list option \<Rightarrow> nat \<Rightarrow>
   stn_storage_status + bytes" where
  "stn_storage_encode sha ed al c b capacity =
     (let blocks = (case b of None \<Rightarrow> [] | Some bs \<Rightarrow> bs)
      in if length blocks > 4294967295 then Inl STN_STORAGE_CAPACITY
         else
           (case storage_validate sha ed al c b of
              Inl s \<Rightarrow> Inl s
            | Inr _ \<Rightarrow>
                (case storage_total blocks STN_STORAGE_OVERHEAD of
                   None \<Rightarrow> Inl STN_STORAGE_CAPACITY
                 | Some t \<Rightarrow>
                     if t > capacity then Inl STN_STORAGE_CAPACITY
                     else
                       (case storage_digest c (storage_prefix blocks) of
                          Inl s \<Rightarrow> Inl s
                        | Inr hash \<Rightarrow> Inr (storage_prefix blocks @ hash)))))"

section \<open>Reading under the lock\<close>

definition io_status :: "stn_storage_status \<Rightarrow> stn_storage_status" where
  "io_status s =
     (if s \<in> {STN_STORAGE_OK, STN_STORAGE_IO, STN_STORAGE_NOT_FOUND, STN_STORAGE_BUSY, STN_STORAGE_CAPACITY}
      then s else STN_STORAGE_IO)"

definition read_locked ::
  "stn_hash_fn \<Rightarrow> ed25519 \<Rightarrow> storage_alloc \<Rightarrow> stn_chain_context \<Rightarrow> stn_storage_provider \<Rightarrow> disk \<Rightarrow> nat \<Rightarrow>
   stn_storage_status + stn_storage_view" where
  "read_locked sha ed al c p d capacity =
     (case sp_read p d capacity of
        (status, bs) \<Rightarrow>
          if io_status status \<noteq> STN_STORAGE_OK then Inl (io_status status)
          else if length bs > capacity then Inl STN_STORAGE_IO
          else stn_storage_decode sha ed (sa_spans al) (sa_history al 0) c bs)"

definition stn_storage_load ::
  "stn_hash_fn \<Rightarrow> ed25519 \<Rightarrow> storage_alloc \<Rightarrow> stn_chain_context \<Rightarrow> stn_storage_provider option \<Rightarrow> disk \<Rightarrow>
   nat option \<Rightarrow> stn_storage_status + stn_storage_view" where
  "stn_storage_load sha ed al c provider d scratch =
     (case (provider, scratch) of
        (Some p, Some capacity) \<Rightarrow>
          if io_status (sp_acquire p) \<noteq> STN_STORAGE_OK then Inl (io_status (sp_acquire p))
          else read_locked sha ed al c p d capacity
      | _ \<Rightarrow> Inl STN_STORAGE_ARGUMENT)"

section \<open>Comparing states and plans\<close>

definition state_equal :: "stn_chain_state \<Rightarrow> stn_chain_state \<Rightarrow> bool" where
  "state_equal a b \<longleftrightarrow>
     length (cs_target_history a) = length (cs_target_history b) \<and> length (cs_target_history a) \<le> 60 \<and>
     list_all2 (\<lambda>g h. bh_version g = bh_version h \<and> bh_height g = bh_height h \<and> bh_timestamp g = bh_timestamp h \<and>
       memcmp (bh_reserved_target g) (bh_reserved_target h) = 0) (cs_target_history a) (cs_target_history b) \<and>
     cs_height a = cs_height b \<and> cs_timestamp a = cs_timestamp b \<and> cs_has_tip a = cs_has_tip b \<and>
     memcmp (cs_network_id a) (cs_network_id b) = 0 \<and> memcmp (cs_genesis_id a) (cs_genesis_id b) = 0 \<and>
     memcmp (cs_tip_id a) (cs_tip_id b) = 0 \<and> memcmp (cs_current_target a) (cs_current_target b) = 0 \<and>
     memcmp (work_bytes (cs_cumulative_work a)) (work_bytes (cs_cumulative_work b)) = 0"

definition plan_equal :: "stn_reorg_plan \<Rightarrow> stn_reorg_plan \<Rightarrow> bool" where
  "plan_equal a b \<longleftrightarrow>
     pl_actionable a = pl_actionable b \<and> pl_ancestor_index a = pl_ancestor_index b \<and>
     memcmp (pl_ancestor_id a) (pl_ancestor_id b) = 0 \<and> pl_detach_begin a = pl_detach_begin b \<and>
     pl_detach_end a = pl_detach_end b \<and> pl_attach_begin a = pl_attach_begin b \<and>
     pl_attach_end a = pl_attach_end b \<and> pl_detached_count a = pl_detached_count b \<and>
     pl_attached_count a = pl_attached_count b \<and> pl_resulting_height a = pl_resulting_height b \<and>
     state_equal (pl_current a) (pl_current b) \<and> state_equal (pl_candidate a) (pl_candidate b)"

section \<open>Create, replace and extend\<close>

text \<open>
  Each operation answers its status, the stored bytes after it and the active state after it, which is
  the one before unless the new snapshot was published.
\<close>

definition publish ::
  "stn_storage_provider \<Rightarrow> disk \<Rightarrow> bytes \<Rightarrow> stn_chain_state \<Rightarrow> stn_chain_state \<Rightarrow>
   stn_storage_status \<times> disk \<times> stn_chain_state" where
  "publish p d bs new active =
     (case sp_replace p d bs of
        (status, d') \<Rightarrow>
          (io_status status, d', if io_status status = STN_STORAGE_OK then new else active))"

definition stn_storage_create ::
  "stn_hash_fn \<Rightarrow> ed25519 \<Rightarrow> storage_alloc \<Rightarrow> stn_chain_context \<Rightarrow> stn_storage_provider option \<Rightarrow> disk \<Rightarrow>
   bytes list option \<Rightarrow> nat option \<Rightarrow> stn_chain_state \<Rightarrow> stn_storage_status \<times> disk \<times> stn_chain_state" where
  "stn_storage_create sha ed al c provider d b scratch active =
     (case (provider, scratch) of
        (Some p, Some capacity) \<Rightarrow>
          (case storage_validate sha ed (sa_history al 0) c b of
             Inl s \<Rightarrow> (s, d, active)
           | Inr state \<Rightarrow>
               if io_status (sp_acquire p) \<noteq> STN_STORAGE_OK then (io_status (sp_acquire p), d, active)
               else
                 (let s = io_status (fst (sp_read p d 0))
                  in if s \<noteq> STN_STORAGE_NOT_FOUND
                     then (if s = STN_STORAGE_OK \<or> s = STN_STORAGE_CAPACITY then STN_STORAGE_EXISTS else s, d, active)
                     else
                       (case stn_storage_encode sha ed (sa_history al 1) c b capacity of
                          Inl s \<Rightarrow> (s, d, active)
                        | Inr bs \<Rightarrow> publish p d bs state active)))
      | _ \<Rightarrow> (STN_STORAGE_ARGUMENT, d, active))"

definition stn_storage_apply ::
  "stn_hash_fn \<Rightarrow> ed25519 \<Rightarrow> storage_alloc \<Rightarrow> stn_chain_context \<Rightarrow> stn_storage_provider option \<Rightarrow> disk \<Rightarrow>
   bytes list option \<Rightarrow> stn_reorg_plan \<Rightarrow> stn_storage_workspace \<Rightarrow> stn_chain_state \<Rightarrow>
   stn_storage_status \<times> disk \<times> stn_chain_state" where
  "stn_storage_apply sha ed al c provider d b plan w active =
     (case (provider, b, ws_current_capacity w, ws_next_capacity w) of
        (Some p, Some _, Some capacity, Some next_capacity) \<Rightarrow>
          if io_status (sp_acquire p) \<noteq> STN_STORAGE_OK then (io_status (sp_acquire p), d, active)
          else
            (case read_locked sha ed al c p d capacity of
               Inl s \<Rightarrow> (s, d, active)
             | Inr current \<Rightarrow>
                 if \<not> state_equal active (vw_state current) then (STN_STORAGE_STALE, d, active)
                 else
                   (case stn_fork_evaluate_history sha ed (\<lambda>i. sa_history al i) c (Some (vw_blocks current)) b of
                      (r, fresh) \<Rightarrow>
                        if fr_result r \<noteq> STN_FORK_CANDIDATE
                        then (if fr_result r = STN_FORK_CURRENT \<or> fr_result r = STN_FORK_TIE
                              then STN_STORAGE_NOT_PREFERRED
                              else if fr_result r = STN_FORK_UNRESOLVED then STN_STORAGE_UNRESOLVED
                              else STN_STORAGE_VALIDATION, d, active)
                        else if fresh = None \<or> \<not> plan_equal plan (the fresh) then (STN_STORAGE_STALE, d, active)
                        else
                          (case stn_storage_encode sha ed (sa_history al 3) c b next_capacity of
                             Inl s \<Rightarrow> (s, d, active)
                           | Inr bs \<Rightarrow> publish p d bs (pl_candidate (the fresh)) active)))
      | _ \<Rightarrow> (STN_STORAGE_ARGUMENT, d, active))"

text \<open>
  The appended snapshot: the current bytes up to \<open>offset\<close> with a new block count, the block's record
  and the new digest.
\<close>

definition extend_prefix :: "bytes \<Rightarrow> nat \<Rightarrow> nat \<Rightarrow> bytes \<Rightarrow> bytes" where
  "extend_prefix current_bytes offset count block =
     take 8 current_bytes @ stn_wire_write 4 (word_of_nat (count + 1)) @ drop 12 (take offset current_bytes) @
     stored_record block"

definition stn_storage_extend ::
  "stn_hash_fn \<Rightarrow> ed25519 \<Rightarrow> storage_alloc \<Rightarrow> stn_chain_context \<Rightarrow> stn_storage_provider option \<Rightarrow> disk \<Rightarrow>
   bytes option \<Rightarrow> stn_storage_workspace \<Rightarrow> stn_chain_state \<Rightarrow> stn_storage_status \<times> disk \<times> stn_chain_state" where
  "stn_storage_extend sha ed al c provider d input w active =
     (case (provider, input, ws_current_capacity w, ws_next_capacity w) of
        (Some p, Some block, Some capacity, Some next_capacity) \<Rightarrow>
          if io_status (sp_acquire p) \<noteq> STN_STORAGE_OK then (io_status (sp_acquire p), d, active)
          else
            (case read_locked sha ed al c p d capacity of
               Inl s \<Rightarrow> (s, d, active)
             | Inr current \<Rightarrow>
                 if \<not> state_equal active (vw_state current) then (STN_STORAGE_STALE, d, active)
                 else if length (vw_blocks current) \<ge> 4294967295 then (STN_STORAGE_CAPACITY, d, active)
                 else if \<not> sa_table al then (STN_STORAGE_CAPACITY, d, active)
                 else
                   (case stn_chain_reconstruct_history sha ed (fst (sa_history al 1)) (snd (sa_history al 1)) c
                           (Some (vw_blocks current @ [block])) of
                      (r, out) \<Rightarrow>
                        if rp_acceptance r = STN_ACCEPTANCE_UNRESOLVED then (STN_STORAGE_UNRESOLVED, d, active)
                        else if rp_acceptance r \<noteq> STN_ACCEPTANCE_UNDER_CONTEXT \<or> out = None
                        then (STN_STORAGE_VALIDATION, d, active)
                        else
                          (case storage_total (vw_blocks current) 12 of
                             None \<Rightarrow> (STN_STORAGE_CAPACITY, d, active)
                           | Some offset \<Rightarrow>
                               if offset > SIZE_MAX - 36 \<or> length block > SIZE_MAX - offset - 36
                               then (STN_STORAGE_CAPACITY, d, active)
                               else if offset + 4 + length block + 32 > next_capacity
                               then (STN_STORAGE_CAPACITY, d, active)
                               else
                                 (let bytes = extend_prefix (snd (sp_read p d capacity)) offset
                                        (length (vw_blocks current)) block
                                  in case storage_digest c bytes of
                                       Inl s \<Rightarrow> (s, d, active)
                                     | Inr hash \<Rightarrow> publish p d (bytes @ hash) (the out) active))))
      | _ \<Rightarrow> (STN_STORAGE_ARGUMENT, d, active))"

section \<open>Recovery and adoption\<close>

text \<open>
  The loop of \<^verbatim>\<open>recovery_locked\<close> over a damaged snapshot: it keeps the blocks that are framed and
  accepted as candidates, and stops at the first that is not.
\<close>

fun salvage_loop ::
  "stn_hash_fn \<Rightarrow> ed25519 \<Rightarrow> (nat \<Rightarrow> chain_alloc) \<Rightarrow> stn_chain_context \<Rightarrow> nat \<Rightarrow> bytes \<Rightarrow> stn_storage_view \<Rightarrow>
   stn_storage_status + stn_storage_view" where
  "salvage_loop sha ed alloc c 0 rest v = Inr v"
| "salvage_loop sha ed alloc c (Suc n) rest v =
     (if length rest < 4 then Inr v
      else
        (let len = unat (stn_wire_read rest 4); after = drop 4 rest
         in if len < STN_BLOCK_HEADER_SIZE \<or> len > STN_BLOCK_MAX_SIZE \<or> len > length after then Inr v
            else
              (case stn_chain_validate_candidate sha ed (alloc (length (vw_blocks v))) c (vw_state v)
                      (Some (take len after)) of
                 (r, out) \<Rightarrow>
                   if rp_acceptance r = STN_ACCEPTANCE_UNRESOLVED then Inl STN_STORAGE_UNRESOLVED
                   else if rp_acceptance r = STN_ACCEPTANCE_ERROR then Inl STN_STORAGE_IO
                   else if rp_acceptance r \<noteq> STN_ACCEPTANCE_UNDER_CONTEXT then Inr v
                   else salvage_loop sha ed alloc c n (drop len after)
                     \<lparr>vw_blocks = vw_blocks v @ [take len after],
                      vw_state = (case out of None \<Rightarrow> vw_state v | Some s \<Rightarrow> s)\<rparr>)))"

text \<open>The number of records a damaged snapshot may hold; None when the table can not be allocated.\<close>

definition salvage_count :: "bool \<Rightarrow> bytes \<Rightarrow> nat option" where
  "salvage_count allocated bs =
     (let n = length bs; count = unat (stn_wire_read (drop 8 bs) 4)
      in if n \<ge> 12 \<and> memcmp (take 4 bs) (ascii ''STNS'') = 0 \<and> stn_wire_read (drop 4 bs) 2 = 1 \<and>
           stn_wire_read (drop 6 bs) 2 = 0 \<and> count \<noteq> 0 \<and> count \<le> SIZE_MAX div 16
         then
           (let count = min count ((n - 12) div (4 + STN_BLOCK_HEADER_SIZE))
            in if count \<noteq> 0 \<and> \<not> allocated then None else Some count)
         else Some 0)"

definition recovery_locked ::
  "stn_hash_fn \<Rightarrow> ed25519 \<Rightarrow> storage_alloc \<Rightarrow> stn_chain_context \<Rightarrow> stn_storage_provider \<Rightarrow> disk \<Rightarrow> nat \<Rightarrow>
   stn_storage_status + (stn_storage_view \<times> bool)" where
  "recovery_locked sha ed al c p d capacity =
     (case (cx_pow_policy c, stn_chain_initialize sha (fst (sa_history al 6)) c) of
        (Some _, Inr start) \<Rightarrow>
          (case sp_read p d capacity of
             (status, bs) \<Rightarrow>
               if io_status status = STN_STORAGE_NOT_FOUND then Inr (\<lparr>vw_blocks = [], vw_state = start\<rparr>, True)
               else if io_status status \<noteq> STN_STORAGE_OK then Inl (io_status status)
               else if length bs > capacity then Inl STN_STORAGE_IO
               else
                 (case stn_storage_decode sha ed (sa_spans al) (sa_history al 0) c bs of
                    Inr v \<Rightarrow> Inr (v, False)
                  | Inl s \<Rightarrow>
                      if s \<noteq> STN_STORAGE_FORMAT \<and> s \<noteq> STN_STORAGE_VALIDATION then Inl s
                      else
                        (case stn_chain_initialize sha (fst (sa_history al 1)) c of
                           Inl _ \<Rightarrow> Inl STN_STORAGE_VALIDATION
                         | Inr start \<Rightarrow>
                             (case salvage_count (sa_table al) bs of
                                None \<Rightarrow> Inl STN_STORAGE_CAPACITY
                              | Some count \<Rightarrow>
                                  (case salvage_loop sha ed (snd (sa_history al 1)) c count (drop 12 bs)
                                          \<lparr>vw_blocks = [], vw_state = start\<rparr> of
                                     Inl s \<Rightarrow> Inl s
                                   | Inr v \<Rightarrow> Inr (v, True))))))
      | _ \<Rightarrow> Inl STN_STORAGE_VALIDATION)"

definition stn_storage_recovery_read ::
  "stn_hash_fn \<Rightarrow> ed25519 \<Rightarrow> storage_alloc \<Rightarrow> stn_chain_context \<Rightarrow> stn_storage_provider option \<Rightarrow> disk \<Rightarrow>
   nat option \<Rightarrow> stn_storage_status + (stn_storage_view \<times> bool)" where
  "stn_storage_recovery_read sha ed al c provider d scratch =
     (case (provider, scratch) of
        (Some p, Some capacity) \<Rightarrow>
          if io_status (sp_acquire p) \<noteq> STN_STORAGE_OK then Inl (io_status (sp_acquire p))
          else recovery_locked sha ed al c p d capacity
      | _ \<Rightarrow> Inl STN_STORAGE_ARGUMENT)"

text \<open>What \<^verbatim>\<open>stn_storage_adopt\<close> demands of the comparison with the local history.\<close>

definition adoptable :: "bool \<Rightarrow> stn_fork_report \<Rightarrow> stn_reorg_plan option \<Rightarrow> bool" where
  "adoptable recovery r plan \<longleftrightarrow>
     fr_result r = STN_FORK_CANDIDATE \<or>
     (recovery \<and> fr_result r = STN_FORK_TIE \<and>
      (case plan of None \<Rightarrow> False
       | Some q \<Rightarrow> memcmp (cs_tip_id (pl_current q)) (cs_tip_id (pl_candidate q)) = 0))"

definition stn_storage_adopt ::
  "stn_hash_fn \<Rightarrow> ed25519 \<Rightarrow> storage_alloc \<Rightarrow> stn_chain_context \<Rightarrow> stn_storage_provider option \<Rightarrow> disk \<Rightarrow>
   bytes list option \<Rightarrow> stn_storage_workspace \<Rightarrow> stn_chain_state \<Rightarrow> stn_storage_status \<times> disk \<times> stn_chain_state" where
  "stn_storage_adopt sha ed al c provider d b w active =
     (case (provider, ws_current_capacity w, ws_next_capacity w) of
        (Some p, Some capacity, Some next_capacity) \<Rightarrow>
          (case storage_validate sha ed (sa_history al 2) c b of
             Inl s \<Rightarrow> (s, d, active)
           | Inr candidate \<Rightarrow>
               if io_status (sp_acquire p) \<noteq> STN_STORAGE_OK then (io_status (sp_acquire p), d, active)
               else
                 (case recovery_locked sha ed al c p d capacity of
                    Inl s \<Rightarrow> (s, d, active)
                  | Inr (local_view, recovery) \<Rightarrow>
                      (case (if vw_blocks local_view = [] then (empty_fork_report, None)
                             else stn_fork_evaluate_history sha ed (\<lambda>i. sa_history al (i + 2)) c
                                    (Some (vw_blocks local_view)) b) of
                         (r, plan) \<Rightarrow>
                           if vw_blocks local_view \<noteq> [] \<and> \<not> adoptable recovery r plan
                           then (if fr_result r = STN_FORK_CURRENT \<or> fr_result r = STN_FORK_TIE
                                 then STN_STORAGE_NOT_PREFERRED
                                 else if fr_result r = STN_FORK_UNRESOLVED then STN_STORAGE_UNRESOLVED
                                 else STN_STORAGE_VALIDATION, d, active)
                           else
                             (case stn_storage_encode sha ed (sa_history al 5) c b next_capacity of
                                Inl s \<Rightarrow> (s, d, active)
                              | Inr bs \<Rightarrow> publish p d bs candidate active))))
      | _ \<Rightarrow> (STN_STORAGE_ARGUMENT, d, active))"

end
