(* ===== verification/Stn_Storage_Format.thy ===== *)
theory Stn_Storage_Format
  imports Stn_Storage
begin

text \<open>
  The snapshot format: which bytes are decoded, which histories are encoded, and that a snapshot
  determines its blocks.
\<close>

section \<open>Records\<close>

definition storable :: "bytes \<Rightarrow> bool" where
  "storable b \<longleftrightarrow> STN_BLOCK_HEADER_SIZE \<le> length b \<and> length b \<le> STN_BLOCK_MAX_SIZE"

lemma storable_length: "storable b \<Longrightarrow> length b < 4294967296"
  by (simp add: storable_def STN_BLOCK_MAX_BODY_def)

lemma length_stored_record [simp]: "length (stored_record b) = 4 + length b"
  by (simp add: stored_record_def)

lemma unat_small: "n < 4294967296 \<Longrightarrow> unat (word_of_nat n :: u64) = n"
  by (simp add: unat_of_nat take_bit_nat_eq_self)

lemma read_span:
  assumes "storable b"
  shows "unat (stn_wire_read (stored_record b @ r) 4) = length b" "drop 4 (stored_record b @ r) = b @ r"
  using storable_length [OF assms] unat_small [of "length b"]
  by (simp_all add: stored_record_def read_write_const)

lemma span_read:
  assumes "4 \<le> length bs" "n = unat (stn_wire_read bs 4)" "n \<le> length (drop 4 bs)"
  shows "bs = stored_record (take n (drop 4 bs)) @ drop n (drop 4 bs)"
proof -
  have "word_of_nat (length (take n (drop 4 bs))) = stn_wire_read bs 4" using assms(2,3) by simp
  then have "stored_record (take n (drop 4 bs)) = take 4 bs @ take n (drop 4 bs)"
    using assms(1) by (simp add: stored_record_def wire_write_read)
  then show ?thesis by (metis append_assoc append_take_drop_id)
qed

lemma spans_read_iff:
  "spans_read n bs = Some (blocks, rest) \<longleftrightarrow>
     length blocks = n \<and> (\<forall>b \<in> set blocks. storable b) \<and> bs = concat (map stored_record blocks) @ rest"
proof (induction n arbitrary: bs blocks)
  case 0
  then show ?case by auto
next
  case (Suc n)
  let ?len = "unat (stn_wire_read bs 4)" and ?after = "drop 4 bs"
  show ?case
  proof
    assume read: "spans_read (Suc n) bs = Some (blocks, rest)"
    then have ok: "4 \<le> length bs" "storable (take ?len ?after)" "?len \<le> length ?after"
      by (auto simp: Let_def storable_def not_less split: if_splits)
    from read obtain tail where tail: "blocks = take ?len ?after # tail" "spans_read n (drop ?len ?after) = Some (tail, rest)"
      by (auto simp: Let_def split: if_splits)
    then show "length blocks = Suc n \<and> (\<forall>b \<in> set blocks. storable b) \<and> bs = concat (map stored_record blocks) @ rest"
      using Suc.IH [of "drop ?len ?after" tail] ok span_read [OF ok(1) refl ok(3)] by auto
  next
    assume parts: "length blocks = Suc n \<and> (\<forall>b \<in> set blocks. storable b) \<and> bs = concat (map stored_record blocks) @ rest"
    then obtain b tail where b: "blocks = b # tail" "storable b" "bs = stored_record b @ concat (map stored_record tail) @ rest"
      by (cases blocks) auto
    from read_span [OF b(2), of "concat (map stored_record tail) @ rest"] have
        r: "?len = length b" "?after = b @ concat (map stored_record tail) @ rest" unfolding b(3) by simp_all
    have "spans_read n (concat (map stored_record tail) @ rest) = Some (tail, rest)"
      using Suc.IH [of "concat (map stored_record tail) @ rest" tail] parts b(1) by simp
    moreover have "\<not> length bs < 4" by (simp add: b(3))
    moreover have "\<not> (length b < STN_BLOCK_HEADER_SIZE \<or> length b > STN_BLOCK_MAX_SIZE \<or>
        length b > length (b @ concat (map stored_record tail) @ rest))" using b(2) by (auto simp: storable_def)
    ultimately show "spans_read (Suc n) bs = Some (blocks, rest)"
      by (simp only: spans_read.simps r Let_def if_False b(1)) simp
  qed
qed

lemma stored_records_inj:
  assumes "concat (map stored_record xs) = concat (map stored_record ys)" "\<forall>b \<in> set xs. storable b"
    "\<forall>b \<in> set ys. storable b" "length xs = length ys"
  shows "xs = ys"
  using spans_read_iff [of "length xs" "concat (map stored_record xs)" xs "[]"]
    spans_read_iff [of "length xs" "concat (map stored_record xs)" ys "[]"] assms by simp

section \<open>Snapshots\<close>

text \<open>The snapshot of a history, and the histories it can hold.\<close>

definition storage_image :: "stn_chain_context \<Rightarrow> bytes list \<Rightarrow> bytes \<Rightarrow> bool" where
  "storage_image c blocks p \<longleftrightarrow>
     blocks \<noteq> [] \<and> length blocks \<le> 4294967295 \<and> (\<forall>b \<in> set blocks. storable b) \<and>
     (\<exists>hash. storage_digest c (storage_prefix blocks) = Inr hash \<and> length hash = 32 \<and> p = storage_prefix blocks @ hash)"

lemma length_storage_prefix: "length (storage_prefix blocks) = 12 + length (concat (map stored_record blocks))"
  by (simp add: storage_prefix_def)

lemma storage_prefix_fields:
  "take 4 (storage_prefix blocks @ r) = ascii ''STNS''"
  "stn_wire_read (drop 4 (storage_prefix blocks @ r)) 2 = 1"
  "stn_wire_read (drop 6 (storage_prefix blocks @ r)) 2 = 0"
  "length blocks \<le> 4294967295 \<Longrightarrow> unat (stn_wire_read (drop 8 (storage_prefix blocks @ r)) 4) = length blocks"
  "drop 12 (storage_prefix blocks) = concat (map stored_record blocks)"
  by (simp_all add: storage_prefix_def read_write_const unat_small)

lemma storage_prefix_read:
  assumes "12 \<le> length p" "take 4 p = ascii ''STNS''" "stn_wire_read (drop 4 p) 2 = 1" "stn_wire_read (drop 6 p) 2 = 0"
    "unat (stn_wire_read (drop 8 p) 4) = length blocks" "drop 12 p = concat (map stored_record blocks)"
  shows "p = storage_prefix blocks"
proof -
  have "stn_wire_write 2 (stn_wire_read (drop 4 p) 2) = take 2 (drop 4 p)"
      "stn_wire_write 2 (stn_wire_read (drop 6 p) 2) = take 2 (drop 6 p)"
      "stn_wire_write 4 (stn_wire_read (drop 8 p) 4) = take 4 (drop 8 p)"
    using assms(1) by (simp_all add: wire_write_read)
  moreover have "word_of_nat (length blocks) = stn_wire_read (drop 8 p) 4" using assms(5) by (simp flip: assms(5))
  moreover have "drop 4 p = take 2 (drop 4 p) @ drop 6 p" "drop 6 p = take 2 (drop 6 p) @ drop 8 p"
      "drop 8 p = take 4 (drop 8 p) @ drop 12 p"
    using append_take_drop_id [of 2 "drop 4 p"] append_take_drop_id [of 2 "drop 6 p"]
      append_take_drop_id [of 4 "drop 8 p"] by simp_all
  then have "p = take 4 p @ take 2 (drop 4 p) @ take 2 (drop 6 p) @ take 4 (drop 8 p) @ drop 12 p"
    by (metis append_take_drop_id)
  ultimately show ?thesis using assms(2-4,6) by (simp add: storage_prefix_def)
qed

lemma storage_image_inj:
  assumes "storage_image c xs p" "storage_image c ys p"
  shows "xs = ys"
proof -
  obtain h g where h: "p = storage_prefix xs @ h" "length h = 32" and g: "p = storage_prefix ys @ g" "length g = 32"
    using assms unfolding storage_image_def by blast
  then have eq: "storage_prefix xs = storage_prefix ys" by simp
  have "length xs = length ys"
    using storage_prefix_fields(4) [of xs "[]"] storage_prefix_fields(4) [of ys "[]"] eq assms
    by (simp add: storage_image_def)
  moreover have "concat (map stored_record xs) = concat (map stored_record ys)"
    using storage_prefix_fields(5) eq by metis
  ultimately show ?thesis using stored_records_inj assms by (simp add: storage_image_def)
qed

lemma storable_records: "\<forall>b \<in> set blocks. storable b \<Longrightarrow> 172 * length blocks \<le> length (concat (map stored_record blocks))"
  by (induction blocks) (auto simp: storable_def)

section \<open>The decoder\<close>

lemma storage_decode_image:
  assumes "storage_image c blocks p"
  shows "stn_storage_decode sha ed spans al c p =
    (if \<not> spans then Inl STN_STORAGE_CAPACITY
     else case storage_validate sha ed al c (Some blocks) of
       Inl s \<Rightarrow> Inl s | Inr state \<Rightarrow> Inr \<lparr>vw_blocks = blocks, vw_state = state\<rparr>)"
proof -
  from assms obtain hash where im: "blocks \<noteq> []" "length blocks \<le> 4294967295" "\<forall>b \<in> set blocks. storable b"
      "storage_digest c (storage_prefix blocks) = Inr hash" "length hash = 32" "p = storage_prefix blocks @ hash"
    unfolding storage_image_def by blast
  have size: "length p = 44 + length (concat (map stored_record blocks))"
    using im(5,6) by (simp add: length_storage_prefix)
  have front: "take (length p - 32) p = storage_prefix blocks" "drop (length p - 32) p = hash"
    using im(5,6) by simp_all
  have count: "unat (stn_wire_read (drop 8 p) 4) = length blocks" using storage_prefix_fields(4) [OF im(2)] im(6) by simp
  have fields: "take 4 p = ascii ''STNS''" "stn_wire_read (drop 4 p) 2 = 1" "stn_wire_read (drop 6 p) 2 = 0"
    unfolding im(6) by (rule storage_prefix_fields)+
  have "length blocks \<le> (length p - STN_STORAGE_OVERHEAD) div (4 + STN_BLOCK_HEADER_SIZE)"
    using storable_records [OF im(3)] size by (simp add: STN_STORAGE_OVERHEAD_def less_eq_div_iff_mult_less_eq)
  moreover have "length blocks \<le> SIZE_MAX div 16" using im(2) by (simp add: SIZE_MAX_def)
  moreover have "spans_read (length blocks) (drop 12 (take (length p - 32) p)) = Some (blocks, [])"
    unfolding front storage_prefix_fields(5) spans_read_iff using im(3) by simp
  ultimately show ?thesis
    using im(1,4) front size fields count
    by (simp add: stn_storage_decode_def Let_def STN_STORAGE_OVERHEAD_def)
qed

lemma storage_decode_iff:
  "stn_storage_decode sha ed spans al c p = Inr v \<longleftrightarrow>
     spans \<and> storage_image c (vw_blocks v) p \<and> storage_validate sha ed al c (Some (vw_blocks v)) = Inr (vw_state v)"
proof
  assume dec: "stn_storage_decode sha ed spans al c p = Inr v"
  let ?count = "unat (stn_wire_read (drop 8 p) 4)" and ?front = "take (length p - 32) p"
  have guards: "44 \<le> length p" "take 4 p = ascii ''STNS''" "stn_wire_read (drop 4 p) 2 = 1"
      "stn_wire_read (drop 6 p) 2 = 0" "?count \<noteq> 0" spans
    using dec unfolding stn_storage_decode_def Let_def STN_STORAGE_OVERHEAD_def by (simp_all split: if_splits)
  obtain blocks hash where b: "spans_read ?count (drop 12 ?front) = Some (blocks, [])"
      "storage_digest c ?front = Inr hash" "hash = drop (length p - 32) p"
      "storage_validate sha ed al c (Some blocks) = Inr (vw_state v)" "vw_blocks v = blocks"
    using dec unfolding stn_storage_decode_def Let_def
    by (auto split: if_splits option.splits prod.splits sum.splits)
  note parts = b(1) [unfolded spans_read_iff]
  have front: "?front = storage_prefix blocks"
    by (rule storage_prefix_read) (use guards parts in \<open>auto simp: drop_take\<close>)
  have "p = ?front @ drop (length p - 32) p" by simp
  then have "p = storage_prefix blocks @ hash" using front b(3) by simp
  moreover have "?count \<le> 4294967295"
    using be_less [of "take 4 (drop 8 p)"] guards(1) by (simp add: unat_wire_read)
  moreover have "length hash = 32" using b(3) guards(1) by simp
  ultimately show "spans \<and> storage_image c (vw_blocks v) p \<and>
      storage_validate sha ed al c (Some (vw_blocks v)) = Inr (vw_state v)"
    using b(2,4,5) guards(5,6) parts front unfolding storage_image_def by auto
next
  assume "spans \<and> storage_image c (vw_blocks v) p \<and>
      storage_validate sha ed al c (Some (vw_blocks v)) = Inr (vw_state v)"
  with storage_decode_image [of c "vw_blocks v" p sha ed spans al] show "stn_storage_decode sha ed spans al c p = Inr v"
    by simp
qed

section \<open>The encoder\<close>

lemma storage_total_iff:
  assumes "acc \<le> SIZE_MAX"
  shows "storage_total blocks acc = Some t \<longleftrightarrow>
    t = acc + length (concat (map stored_record blocks)) \<and> t \<le> SIZE_MAX"
  using assms
proof (induction blocks arbitrary: acc)
  case Nil
  then show ?case by auto
next
  case (Cons b bs)
  show ?case
  proof (cases "acc > SIZE_MAX - 4 \<or> length b > SIZE_MAX - acc - 4")
    case True
    then have "\<not> acc + (4 + length b) \<le> SIZE_MAX" using Cons.prems by (auto simp: SIZE_MAX_def)
    with True show ?thesis by auto
  next
    case False
    then have "acc + (4 + length b) \<le> SIZE_MAX" by (auto simp: SIZE_MAX_def)
    from Cons.IH [OF this] False show ?thesis by auto
  qed
qed

lemma storage_validate_run:
  assumes "storage_validate sha ed al c b = Inr s"
  obtains blocks fixed where "b = Some blocks" "blocks \<noteq> []" "cx_pow_policy c = Some fixed" "chain_run sha ed c blocks s"
    "stn_chain_reconstruct_history sha ed (fst al) (snd al) c (Some blocks) = (accepted_report c, Some s)"
proof -
  obtain blocks fixed where b: "b = Some blocks" "blocks \<noteq> []" "cx_pow_policy c = Some fixed"
    using assms by (cases b) (auto simp: storage_validate_def split: if_splits)
  obtain r where r: "stn_chain_reconstruct_history sha ed (fst al) (snd al) c (Some blocks) = (r, Some s)"
    using assms b by (auto simp: storage_validate_def split: prod.splits if_splits)
  from reconstruct_accepted [OF r] r b that show ?thesis by metis
qed

lemma run_storable:
  assumes "chain_run sha ed c blocks s"
  shows "\<forall>b \<in> set blocks. storable b"
proof
  fix b assume "b \<in> set blocks"
  then obtain i where i: "i < length blocks" "blocks ! i = b" by (metis in_set_conv_nth)
  with chain_run_linked [OF assms] have "linked_at sha c blocks i" by blast
  then obtain d where "stn_block_decode sha (Some b) = Inr d" using i(2) by (auto simp: linked_at_def linked_def)
  then show "storable b" by (auto simp: storable_def stn_block_decode.simps not_less split: if_splits)
qed

lemma storage_encode_iff:
  assumes "\<And>h d p x. cx_hash_provider c = Some h \<Longrightarrow> h d p = Inr x \<Longrightarrow> length x = 32"
  shows "stn_storage_encode sha ed al c b capacity = Inr p \<longleftrightarrow>
    (\<exists>blocks s. b = Some blocks \<and> storage_validate sha ed al c b = Inr s \<and> storage_image c blocks p \<and>
      length p \<le> capacity \<and> length p \<le> SIZE_MAX)"
proof
  assume enc: "stn_storage_encode sha ed al c b capacity = Inr p"
  then obtain s where s: "storage_validate sha ed al c b = Inr s"
    by (auto simp: stn_storage_encode_def Let_def split: if_splits sum.splits)
  from storage_validate_run [OF s] obtain blocks where b: "b = Some blocks" "blocks \<noteq> []" "chain_run sha ed c blocks s"
    by blast
  from enc b s obtain t hash where e: "length blocks \<le> 4294967295" "storage_total blocks 44 = Some t" "t \<le> capacity"
      "storage_digest c (storage_prefix blocks) = Inr hash" "p = storage_prefix blocks @ hash"
    by (auto simp: stn_storage_encode_def Let_def STN_STORAGE_OVERHEAD_def not_less
        split: if_splits sum.splits option.splits)
  have "length hash = 32" using e(4) assms by (auto simp: storage_digest_def split: option.splits sum.splits)
  moreover have "t = length p" "t \<le> SIZE_MAX"
    using storage_total_iff [of 44 blocks t] e(2,5) \<open>length hash = 32\<close> by (simp_all add: SIZE_MAX_def length_storage_prefix)
  ultimately show "\<exists>blocks s. b = Some blocks \<and> storage_validate sha ed al c b = Inr s \<and> storage_image c blocks p \<and>
      length p \<le> capacity \<and> length p \<le> SIZE_MAX"
    using b e s run_storable [OF b(3)] unfolding storage_image_def by blast
next
  assume "\<exists>blocks s. b = Some blocks \<and> storage_validate sha ed al c b = Inr s \<and> storage_image c blocks p \<and>
      length p \<le> capacity \<and> length p \<le> SIZE_MAX"
  then obtain blocks s where h: "b = Some blocks" "storage_validate sha ed al c b = Inr s" "storage_image c blocks p"
      "length p \<le> capacity" "length p \<le> SIZE_MAX" by blast
  from h(3) obtain hash where im: "length blocks \<le> 4294967295" "storage_digest c (storage_prefix blocks) = Inr hash"
      "length hash = 32" "p = storage_prefix blocks @ hash" unfolding storage_image_def by blast
  have "storage_total blocks 44 = Some (length p)"
    using storage_total_iff [of 44 blocks "length p"] h(5) im(3,4) by (simp add: SIZE_MAX_def length_storage_prefix)
  with h im show "stn_storage_encode sha ed al c b capacity = Inr p"
    by (simp add: stn_storage_encode_def Let_def STN_STORAGE_OVERHEAD_def)
qed

end
