(* ===== verification/Stn_Storage_Correct.thy ===== *)
theory Stn_Storage_Correct
  imports Stn_Storage_Format
begin

text \<open>
  The operations of the storage against the contract its header states for the backend: a failed
  operation leaves the stored bytes and the active state alone, a successful one leaves the snapshot of
  an accepted history and the state this history reaches.
\<close>

section \<open>The contract of the backend\<close>

text \<open>
  The documented behaviour (\<^verbatim>\<open>stn_storage.h\<close>): a read that succeeds delivers the stored snapshot, a read
  that finds nothing means there is none, and a replace publishes all bytes or preserves the previous
  snapshot.
\<close>

definition provider_ok :: "stn_storage_provider \<Rightarrow> bool" where
  "provider_ok p \<longleftrightarrow>
     (\<forall>d n. io_status (fst (sp_read p d n)) = STN_STORAGE_OK \<longrightarrow> d = Some (snd (sp_read p d n))) \<and>
     (\<forall>d n. io_status (fst (sp_read p d n)) = STN_STORAGE_NOT_FOUND \<longrightarrow> d = None) \<and>
     (\<forall>d bs. snd (sp_replace p d bs) =
        (if io_status (fst (sp_replace p d bs)) = STN_STORAGE_OK then Some bs else d))"

definition hash_ok :: "stn_chain_context \<Rightarrow> bool" where
  "hash_ok c \<longleftrightarrow> (\<forall>h. cx_hash_provider c = Some h \<longrightarrow> hash_fn_ok h)"

lemma hash_ok_length: "hash_ok c \<Longrightarrow> cx_hash_provider c = Some h \<Longrightarrow> h d p = Inr x \<Longrightarrow> length x = 32"
  using hash_fn_ok_length by (auto simp: hash_ok_def)

lemma digest_length: "hash_ok c \<Longrightarrow> storage_digest c p = Inr x \<Longrightarrow> length x = 32"
  using hash_ok_length by (auto simp: storage_digest_def split: option.splits sum.splits)

text \<open>The stored bytes are the snapshot of the blocks that lead to the active state.\<close>

definition stored :: "stn_hash_fn \<Rightarrow> ed25519 \<Rightarrow> stn_chain_context \<Rightarrow> bytes list \<Rightarrow> disk \<Rightarrow> stn_chain_state \<Rightarrow> bool" where
  "stored sha ed c blocks d active \<longleftrightarrow>
     (\<exists>p. d = Some p \<and> storage_image c blocks p) \<and> chain_run sha ed c blocks active"

lemma read_status:
  assumes "provider_ok p" "sp_read p d n = (s, bs)"
  shows "io_status s = STN_STORAGE_OK \<Longrightarrow> d = Some bs" "io_status s = STN_STORAGE_NOT_FOUND \<Longrightarrow> d = None"
  using assms unfolding provider_ok_def by (metis fst_conv snd_conv)+

lemma publish_cases:
  assumes "provider_ok p" "publish p d bs new active = (s, d', a')"
  shows "if s = STN_STORAGE_OK then d' = Some bs \<and> a' = new else d' = d \<and> a' = active"
proof -
  have "snd (sp_replace p d bs) = (if io_status (fst (sp_replace p d bs)) = STN_STORAGE_OK then Some bs else d)"
    using assms(1) unfolding provider_ok_def by blast
  then show ?thesis using assms(2) by (auto simp: publish_def split: if_splits prod.splits)
qed

text \<open>No step answers a failure with the status of success.\<close>

lemma digest_status: "storage_digest c p \<noteq> Inl STN_STORAGE_OK"
  by (auto simp: storage_digest_def split: option.splits sum.splits if_splits)

lemma validate_status: "storage_validate sha ed al c b \<noteq> Inl STN_STORAGE_OK"
  by (auto simp: storage_validate_def split: prod.splits if_splits)

lemma decode_status: "stn_storage_decode sha ed spans al c p \<noteq> Inl STN_STORAGE_OK"
  using digest_status [of c] validate_status [of sha ed al c]
  by (auto simp: stn_storage_decode_def Let_def split: if_splits option.splits prod.splits sum.splits)

lemma encode_status: "stn_storage_encode sha ed al c b n \<noteq> Inl STN_STORAGE_OK"
  using digest_status [of c] validate_status [of sha ed al c]
  by (auto simp: stn_storage_encode_def Let_def split: if_splits option.splits sum.splits)

lemma read_locked_status: "read_locked sha ed al c p d n \<noteq> Inl STN_STORAGE_OK"
  using decode_status by (auto simp: read_locked_def split: if_splits prod.splits)

lemma validate_stored:
  assumes "storage_validate sha ed al c b = Inr s"
  shows "\<exists>blocks. b = Some blocks \<and> blocks \<noteq> [] \<and> chain_run sha ed c blocks s"
  using storage_validate_run [OF assms] by metis

lemma decode_stored:
  assumes "stn_storage_decode sha ed spans al c p = Inr v"
  shows "stored sha ed c (vw_blocks v) (Some p) (vw_state v)"
proof -
  from assms [unfolded storage_decode_iff] have im: "storage_image c (vw_blocks v) p"
      "storage_validate sha ed al c (Some (vw_blocks v)) = Inr (vw_state v)" by simp_all
  from validate_stored [OF im(2)] im(1) show ?thesis by (simp add: stored_def)
qed

lemma read_locked_stored:
  assumes "provider_ok p" "read_locked sha ed al c p d n = Inr v"
  shows "d = Some (snd (sp_read p d n))" "stored sha ed c (vw_blocks v) d (vw_state v)"
proof -
  obtain s bs where s: "sp_read p d n = (s, bs)" by force
  with assms(2) have ok: "io_status s = STN_STORAGE_OK" "stn_storage_decode sha ed (sa_spans al) (sa_history al 0) c bs = Inr v"
    by (simp_all add: read_locked_def split: if_splits)
  with read_status(1) [OF assms(1) s] s show d: "d = Some (snd (sp_read p d n))" by simp
  with decode_stored [OF ok(2)] s show "stored sha ed c (vw_blocks v) d (vw_state v)" by simp
qed

lemma encode_stored:
  assumes "hash_ok c" "stn_storage_encode sha ed al c (Some blocks) n = Inr p"
  shows "storage_image c blocks p"
  using assms(2) storage_encode_iff [OF hash_ok_length [OF assms(1)], where b = "Some blocks"] by auto

lemma stored_inj:
  assumes "stored sha ed c xs d a" "stored sha ed c ys d b"
  shows "xs = ys"
  using assms storage_image_inj unfolding stored_def by blast

lemma stored_work:
  assumes "stored sha ed c blocks d a" "cx_pow_policy c = Some fixed"
  shows "work_value (cs_cumulative_work a) = total_work sha blocks"
  using run_work(2) assms unfolding stored_def by blast

section \<open>The operations\<close>

lemma create_cases:
  assumes "provider_ok p" "hash_ok c" "stn_storage_create sha ed al c (Some p) d b n active = (s, d', a')"
  shows "if s = STN_STORAGE_OK then d = None \<and> (\<exists>blocks. b = Some blocks \<and> stored sha ed c blocks d' a')
    else d' = d \<and> a' = active"
proof (cases "s = STN_STORAGE_OK \<or> d' \<noteq> d \<or> a' \<noteq> active")
  case True
  then obtain capacity state where n: "n = Some capacity" "storage_validate sha ed (sa_history al 0) c b = Inr state"
    using assms(3) validate_status by (cases n) (auto simp: stn_storage_create_def split: sum.splits)
  then obtain blocks where blocks: "b = Some blocks" "chain_run sha ed c blocks state"
    using validate_stored by blast
  obtain q bs' where q: "sp_read p d 0 = (q, bs')" by force
  have "s = STN_STORAGE_OK \<or> d' \<noteq> d \<or> a' \<noteq> active \<Longrightarrow> io_status q = STN_STORAGE_NOT_FOUND \<and>
      (\<exists>bs. stn_storage_encode sha ed (sa_history al 1) c b capacity = Inr bs \<and> publish p d bs state active = (s, d', a'))"
    using assms(3) n q encode_status by (auto simp: stn_storage_create_def Let_def split: if_splits sum.splits)
  with True obtain bs where found: "io_status q = STN_STORAGE_NOT_FOUND"
      "stn_storage_encode sha ed (sa_history al 1) c b capacity = Inr bs" "publish p d bs state active = (s, d', a')" by blast
  have "d = None" using read_status(2) [OF assms(1) q] found(1) by simp
  with publish_cases [OF assms(1) found(3)] encode_stored [OF assms(2)] found(2) blocks show ?thesis
    by (auto simp: stored_def split: if_splits)
qed auto

lemma apply_cases:
  assumes "provider_ok p" "hash_ok c" "stn_storage_apply sha ed al c (Some p) d b plan w active = (s, d', a')"
  shows "if s = STN_STORAGE_OK
    then \<exists>xs ys u. b = Some ys \<and> stored sha ed c xs d u \<and> state_equal active u \<and> stored sha ed c ys d' a' \<and>
      total_work sha xs < total_work sha ys
    else d' = d \<and> a' = active"
proof (cases "s = STN_STORAGE_OK \<or> d' \<noteq> d \<or> a' \<noteq> active")
  case True
  let ?eval = "\<lambda>v. stn_fork_evaluate_history sha ed (\<lambda>i. sa_history al i) c (Some (vw_blocks v)) b"
  from True assms(3) obtain ys capacity next_capacity v where v: "b = Some ys" "read_locked sha ed al c p d capacity = Inr v"
      "ws_current_capacity w = Some capacity" "ws_next_capacity w = Some next_capacity" "state_equal active (vw_state v)"
    using read_locked_status by (auto simp: stn_storage_apply_def split: option.splits sum.splits if_splits)
  obtain r fresh where r: "?eval v = (r, fresh)" by force
  with True assms(3) v obtain q bs where q: "fr_result r = STN_FORK_CANDIDATE" "fresh = Some q"
      "stn_storage_encode sha ed (sa_history al 3) c b next_capacity = Inr bs"
      "publish p d bs (pl_candidate q) active = (s, d', a')"
    using encode_status by (auto simp: stn_storage_apply_def split: sum.splits if_splits)
  note cur = read_locked_stored(2) [OF assms(1) v(2)]
  have policy: "cx_pow_policy c \<noteq> None"
    using r q(2) by (cases "cx_pow_policy c") (simp_all add: stn_fork_evaluate_history_def)
  then obtain fixed where fixed: "cx_pow_policy c = Some fixed" by blast
  obtain t where t: "chain_run sha ed c ys t" "pl_candidate q = t"
      "fr_result r = preference (total_work sha (vw_blocks v)) (total_work sha ys)"
    using fork_evaluate_cases [OF fixed, of sha ed "\<lambda>i. sa_history al i" "Some (vw_blocks v)" b] r q(2) v(1)
    by (auto simp: reorg_plan_def)
  have less: "total_work sha (vw_blocks v) < total_work sha ys"
    using t(3) q(1) by (auto simp: preference_def split: if_splits)
  have "storage_image c ys bs" using encode_stored [OF assms(2)] q(3) v(1) by simp
  with publish_cases [OF assms(1) q(4)] cur v(1,5) t(1,2) less show ?thesis
    by (auto simp: stored_def split: if_splits)
qed auto

lemma extended_snapshot:
  assumes "hash_ok c" "storage_image c xs p" "storage_total xs 12 = Some offset" "length xs < 4294967295"
    "storage_digest c (extend_prefix p offset (length xs) block) = Inr hash" "storable block"
  shows "storage_image c (xs @ [block]) (extend_prefix p offset (length xs) block @ hash)"
proof -
  from assms(2) obtain h where h: "p = storage_prefix xs @ h" "\<forall>b \<in> set xs. storable b"
    unfolding storage_image_def by blast
  have offset: "offset = length (storage_prefix xs)"
    using assms(3) storage_total_iff [of 12 xs offset] by (simp add: SIZE_MAX_def length_storage_prefix)
  then have front: "take offset p = storage_prefix xs" using h(1) by simp
  have "take 8 p = ascii ''STNS'' @ stn_wire_write 2 1 @ stn_wire_write 2 0"
    using h(1) by (simp add: storage_prefix_def)
  then have "extend_prefix p offset (length xs) block = storage_prefix (xs @ [block])"
    unfolding extend_prefix_def front storage_prefix_fields(5) by (simp add: storage_prefix_def)
  with assms(1,4-6) h(2) digest_length [OF assms(1)] show ?thesis unfolding storage_image_def by auto
qed

lemma extend_cases:
  assumes "provider_ok p" "hash_ok c" "stn_storage_extend sha ed al c (Some p) d input w active = (s, d', a')"
  shows "if s = STN_STORAGE_OK
    then \<exists>block xs u. input = Some block \<and> stored sha ed c xs d u \<and> state_equal active u \<and>
      stored sha ed c (xs @ [block]) d' a'
    else d' = d \<and> a' = active"
proof (cases "s = STN_STORAGE_OK \<or> d' \<noteq> d \<or> a' \<noteq> active")
  case True
  from True assms(3) obtain block capacity next_capacity v where v: "input = Some block"
      "read_locked sha ed al c p d capacity = Inr v" "ws_current_capacity w = Some capacity"
      "ws_next_capacity w = Some next_capacity" "state_equal active (vw_state v)" "length (vw_blocks v) < 4294967295"
    using read_locked_status by (auto simp: stn_storage_extend_def not_le split: option.splits sum.splits if_splits)
  let ?xs = "vw_blocks v" and ?bs = "snd (sp_read p d capacity)"
  obtain r out where r: "stn_chain_reconstruct_history sha ed (fst (sa_history al 1)) (snd (sa_history al 1)) c
      (Some (?xs @ [block])) = (r, out)" by force
  with True assms(3) v obtain t offset where t: "out = Some t" "storage_total ?xs 12 = Some offset"
    by (auto simp: stn_storage_extend_def split: if_splits option.splits)
  let ?bytes = "extend_prefix ?bs offset (length ?xs) block"
  from True assms(3) v r t obtain hash where hash: "storage_digest c ?bytes = Inr hash"
      "publish p d (?bytes @ hash) t active = (s, d', a')"
    using digest_status by (auto simp: stn_storage_extend_def Let_def split: if_splits sum.splits)
  note cur = read_locked_stored [OF assms(1) v(2)]
  have run: "chain_run sha ed c (?xs @ [block]) t" using reconstruct_accepted(2) [OF r [unfolded t(1)]] .
  then have "storable block" using run_storable by auto
  moreover have "storage_image c ?xs ?bs" using cur unfolding stored_def by (metis option.inject)
  ultimately have "storage_image c (?xs @ [block]) (?bytes @ hash)"
    using extended_snapshot [OF assms(2) _ t(2) v(6) hash(1)] by blast
  with publish_cases [OF assms(1) hash(2)] cur v(1,5) run show ?thesis by (auto simp: stored_def split: if_splits)
qed auto

lemma salvage_status: "salvage_loop sha ed alloc c n rest v \<noteq> Inl STN_STORAGE_OK"
  by (induction n arbitrary: rest v) (auto simp: Let_def split: prod.splits)

lemma recovery_status: "recovery_locked sha ed al c p d n \<noteq> Inl STN_STORAGE_OK"
  using decode_status [of sha ed "sa_spans al" "sa_history al 0" c] salvage_status
  by (auto simp: recovery_locked_def split: option.splits sum.splits prod.splits if_splits)

lemma recovery_snapshot:
  assumes "provider_ok p" "recovery_locked sha ed al c p d n = Inr (v, False)"
  shows "stored sha ed c (vw_blocks v) d (vw_state v)"
proof -
  obtain s bs where s: "sp_read p d n = (s, bs)" by force
  with assms(2) have ok: "io_status s = STN_STORAGE_OK" "stn_storage_decode sha ed (sa_spans al) (sa_history al 0) c bs = Inr v"
    by (auto simp: recovery_locked_def split: option.splits sum.splits if_splits)
  with read_status(1) [OF assms(1) s] decode_stored [OF ok(2)] show ?thesis by simp
qed

lemma adopt_cases:
  assumes "provider_ok p" "hash_ok c" "stn_storage_adopt sha ed al c (Some p) d b w active = (s, d', a')"
  shows "if s = STN_STORAGE_OK
    then \<exists>ys. b = Some ys \<and> stored sha ed c ys d' a' \<and>
      (\<forall>n v. ws_current_capacity w = Some n \<longrightarrow> recovery_locked sha ed al c p d n = Inr (v, False) \<longrightarrow>
        vw_blocks v \<noteq> [] \<and> total_work sha (vw_blocks v) < total_work sha ys)
    else d' = d \<and> a' = active"
proof (cases "s = STN_STORAGE_OK \<or> d' \<noteq> d \<or> a' \<noteq> active")
  case True
  from True assms(3) obtain capacity next_capacity t where t: "storage_validate sha ed (sa_history al 2) c b = Inr t"
      "ws_current_capacity w = Some capacity" "ws_next_capacity w = Some next_capacity"
    using validate_status by (auto simp: stn_storage_adopt_def split: option.splits sum.splits)
  from validate_stored [OF t(1)] obtain ys where ys: "b = Some ys" "chain_run sha ed c ys t" by blast
  from storage_validate_run [OF t(1)] obtain fixed where fixed: "cx_pow_policy c = Some fixed" by metis
  from True assms(3) t obtain v recovery where v: "recovery_locked sha ed al c p d capacity = Inr (v, recovery)"
    using recovery_status by (auto simp: stn_storage_adopt_def split: sum.splits if_splits)
  obtain r plan where r: "(if vw_blocks v = [] then (empty_fork_report, None)
      else stn_fork_evaluate_history sha ed (\<lambda>i. sa_history al (i + 2)) c (Some (vw_blocks v)) b) = (r, plan)" by force
  from True assms(3) t v r obtain bs where bs: "vw_blocks v = [] \<or> adoptable recovery r plan"
      "stn_storage_encode sha ed (sa_history al 5) c b next_capacity = Inr bs"
      "publish p d bs t active = (s, d', a')"
    using encode_status by (auto simp: stn_storage_adopt_def split: sum.splits if_splits)
  have im: "storage_image c ys bs" using encode_stored [OF assms(2)] bs(2) ys(1) by simp
  have preferred: "vw_blocks v \<noteq> [] \<and> total_work sha (vw_blocks v) < total_work sha ys" if "\<not> recovery"
  proof -
    from recovery_snapshot [OF assms(1)] v that have "stored sha ed c (vw_blocks v) d (vw_state v)" by simp
    then have ne: "vw_blocks v \<noteq> []" by (auto simp: stored_def storage_image_def)
    with bs(1) that have cand: "fr_result r = STN_FORK_CANDIDATE" by (simp add: adoptable_def)
    have "stn_fork_evaluate_history sha ed (\<lambda>i. sa_history al (i + 2)) c (Some (vw_blocks v)) (Some ys) = (r, plan)"
      using r ne ys(1) by simp
    with fork_evaluate_cases [OF fixed, of sha ed "\<lambda>i. sa_history al (i + 2)" "Some (vw_blocks v)" "Some ys"] cand
    have "fr_result r = preference (total_work sha (vw_blocks v)) (total_work sha ys)"
      by (auto split: option.splits)
    with cand ne show ?thesis by (auto simp: preference_def split: if_splits)
  qed
  show ?thesis
  proof (cases "s = STN_STORAGE_OK")
    case True
    with publish_cases [OF assms(1) bs(3)] im ys have "stored sha ed c ys d' a'" by (simp add: stored_def)
    moreover have "vw_blocks u \<noteq> [] \<and> total_work sha (vw_blocks u) < total_work sha ys"
      if "ws_current_capacity w = Some n" "recovery_locked sha ed al c p d n = Inr (u, False)" for n u
      using preferred v t(2) that by simp
    ultimately show ?thesis using True ys(1) by simp
  next
    case False
    with publish_cases [OF assms(1) bs(3)] show ?thesis by simp
  qed
qed auto

end
