(* ===== verification/Stn_Storage_Run.thy ===== *)
theory Stn_Storage_Run
  imports Stn_Storage_Correct
begin

text \<open>
  A node as a state machine over its storage: the stored bytes and the active state. Whatever the
  backend, the allocator and the offered blocks do, the snapshot and the active state describe the same
  accepted history; a successful reorganisation strictly increases its work, so there is no infinite
  run of them.
\<close>

section \<open>Runs\<close>

type_synonym config = "disk \<times> stn_chain_state"

inductive storage_step :: "stn_hash_fn \<Rightarrow> ed25519 \<Rightarrow> stn_chain_context \<Rightarrow> config \<Rightarrow> config \<Rightarrow> bool"
  for sha ed c where
  step_create: "provider_ok p \<Longrightarrow>
    stn_storage_create sha ed al c (Some p) d b n a = (s, d', a') \<Longrightarrow> storage_step sha ed c (d, a) (d', a')"
| step_apply: "provider_ok p \<Longrightarrow>
    stn_storage_apply sha ed al c (Some p) d b plan w a = (s, d', a') \<Longrightarrow> storage_step sha ed c (d, a) (d', a')"
| step_extend: "provider_ok p \<Longrightarrow>
    stn_storage_extend sha ed al c (Some p) d input w a = (s, d', a') \<Longrightarrow> storage_step sha ed c (d, a) (d', a')"
| step_adopt: "provider_ok p \<Longrightarrow>
    stn_storage_adopt sha ed al c (Some p) d b w a = (s, d', a') \<Longrightarrow> storage_step sha ed c (d, a) (d', a')"
| step_load: "provider_ok p \<Longrightarrow>
    stn_storage_load sha ed al c (Some p) d n = Inr v \<Longrightarrow> storage_step sha ed c (d, a) (d, vw_state v)"

inductive storage_run :: "stn_hash_fn \<Rightarrow> ed25519 \<Rightarrow> stn_chain_context \<Rightarrow> config \<Rightarrow> bool" for sha ed c where
  run_empty: "storage_run sha ed c (None, a)"
| run_step: "storage_run sha ed c x \<Longrightarrow> storage_step sha ed c x y \<Longrightarrow> storage_run sha ed c y"

lemma load_stored:
  assumes "provider_ok p" "stn_storage_load sha ed al c (Some p) d n = Inr v"
  shows "stored sha ed c (vw_blocks v) d (vw_state v)"
proof -
  from assms(2) obtain capacity where "read_locked sha ed al c p d capacity = Inr v"
    by (auto simp: stn_storage_load_def split: option.splits if_splits)
  then show ?thesis by (rule read_locked_stored(2) [OF assms(1)])
qed

definition storage_inv :: "stn_hash_fn \<Rightarrow> ed25519 \<Rightarrow> stn_chain_context \<Rightarrow> config \<Rightarrow> bool" where
  "storage_inv sha ed c x \<longleftrightarrow> fst x = None \<or> (\<exists>blocks. stored sha ed c blocks (fst x) (snd x))"

lemma storage_step_inv:
  assumes "storage_step sha ed c x y" "hash_ok c" "storage_inv sha ed c x"
  shows "storage_inv sha ed c y"
  using assms(1)
proof cases
  case (step_create p al d b n a s d' a')
  with create_cases [OF step_create(3) assms(2) step_create(4)] assms(3) show ?thesis
    by (auto simp: storage_inv_def split: if_splits)
next
  case (step_apply p al d b plan w a s d' a')
  with apply_cases [OF step_apply(3) assms(2) step_apply(4)] assms(3) show ?thesis
    by (auto simp: storage_inv_def split: if_splits)
next
  case (step_extend p al d input w a s d' a')
  with extend_cases [OF step_extend(3) assms(2) step_extend(4)] assms(3) show ?thesis
    by (auto simp: storage_inv_def split: if_splits)
next
  case (step_adopt p al d b w a s d' a')
  with adopt_cases [OF step_adopt(3) assms(2) step_adopt(4)] assms(3) show ?thesis
    by (auto simp: storage_inv_def split: if_splits)
next
  case (step_load p al d n v a)
  with load_stored [OF step_load(3,4)] show ?thesis by (auto simp: storage_inv_def)
qed

lemma storage_run_inv:
  assumes "storage_run sha ed c x" "hash_ok c"
  shows "storage_inv sha ed c x"
  using assms(1)
proof induction
  case (run_empty a)
  then show ?case by (simp add: storage_inv_def)
next
  case (run_step x y)
  then show ?case using storage_step_inv assms(2) by blast
qed

section \<open>Progress\<close>

text \<open>
  A successful reorganisation: an extension, an application of a plan, or an adoption that could read
  the stored snapshot.
\<close>

inductive storage_advance :: "stn_hash_fn \<Rightarrow> ed25519 \<Rightarrow> stn_chain_context \<Rightarrow> config \<Rightarrow> config \<Rightarrow> bool"
  for sha ed c where
  advance_extend: "provider_ok p \<Longrightarrow>
    stn_storage_extend sha ed al c (Some p) d input w a = (STN_STORAGE_OK, d', a') \<Longrightarrow>
    storage_advance sha ed c (d, a) (d', a')"
| advance_apply: "provider_ok p \<Longrightarrow>
    stn_storage_apply sha ed al c (Some p) d b plan w a = (STN_STORAGE_OK, d', a') \<Longrightarrow>
    storage_advance sha ed c (d, a) (d', a')"
| advance_adopt: "provider_ok p \<Longrightarrow>
    stn_storage_adopt sha ed al c (Some p) d b w a = (STN_STORAGE_OK, d', a') \<Longrightarrow>
    ws_current_capacity w = Some n \<Longrightarrow> recovery_locked sha ed al c p d n = Inr (v, False) \<Longrightarrow>
    storage_advance sha ed c (d, a) (d', a')"

lemma block_work_positive:
  assumes "chain_run sha ed c blocks s" "cx_pow_policy c = Some fixed" "b \<in> set blocks"
  shows "0 < block_work sha b"
proof -
  obtain i where i: "i < length blocks" "blocks ! i = b" using assms(3) by (metis in_set_conv_nth)
  then have "linked_at sha c blocks i" using chain_run_linked [OF assms(1)] by blast
  then obtain d ident where d: "stn_block_decode sha (Some b) = Inr d"
      "stn_pow_compare (Some ident) (bh_reserved_target (blk_header d)) = STN_DATA_OK"
    using i(2) assms(2) by (auto simp: linked_at_def linked_def)
  have "stn_target_validate (Some (bh_reserved_target (blk_header d))) = STN_DATA_OK"
    using d(2) by (auto simp: Let_def split: if_splits)
  then have "be (bh_reserved_target (blk_header d)) < 2 ^ 255"
    by (simp add: target_validate_iff)
  then show ?thesis using d(1) by (simp add: block_work_def div_greater_zero_iff)
qed

lemma extend_work:
  assumes "chain_run sha ed c (xs @ [b]) s" "cx_pow_policy c = Some fixed"
  shows "total_work sha xs < total_work sha (xs @ [b])"
  using block_work_positive [OF assms, of b] by (simp add: total_work_append) (simp add: total_work_def)

lemma advance_stored:
  assumes "storage_advance sha ed c x y" "hash_ok c" "cx_pow_policy c = Some fixed"
  shows "\<exists>xs ys u. stored sha ed c xs (fst x) u \<and> stored sha ed c ys (fst y) (snd y) \<and>
    total_work sha xs < total_work sha ys"
  using assms(1)
proof cases
  case (advance_extend p al d input w a d' a')
  from extend_cases [OF advance_extend(3) assms(2) advance_extend(4)] obtain block xs u where
      h: "stored sha ed c xs d u" "stored sha ed c (xs @ [block]) d' a'" by auto
  then have "total_work sha xs < total_work sha (xs @ [block])"
    using extend_work [OF _ assms(3)] by (auto simp: stored_def)
  with h advance_extend show ?thesis by auto
next
  case (advance_apply p al d b plan w a d' a')
  from apply_cases [OF advance_apply(3) assms(2) advance_apply(4)] show ?thesis using advance_apply by auto
next
  case (advance_adopt p al d b w a d' a' n v)
  from adopt_cases [OF advance_adopt(3) assms(2) advance_adopt(4)] obtain ys where
      ys: "stored sha ed c ys d' a'" "total_work sha (vw_blocks v) < total_work sha ys"
    using advance_adopt(5,6) by auto
  with recovery_snapshot [OF advance_adopt(3,6)] advance_adopt show ?thesis by auto
qed

lemma total_work_less:
  assumes "chain_run sha ed c blocks s" "cx_pow_policy c = Some fixed"
  shows "total_work sha blocks < 256 ^ 40"
  using run_work [OF assms] work_value_less by metis

text \<open>The work still missing to the largest 320-bit value bounds the number of steps.\<close>

definition missing_work :: "stn_hash_fn \<Rightarrow> ed25519 \<Rightarrow> stn_chain_context \<Rightarrow> config \<Rightarrow> nat" where
  "missing_work sha ed c x = 256 ^ 40 - work_value (cs_cumulative_work (snd x))"

lemma advance_decreases:
  assumes "storage_advance sha ed c x y" "storage_advance sha ed c y z" "hash_ok c" "cx_pow_policy c = Some fixed"
  shows "missing_work sha ed c z < missing_work sha ed c y"
proof -
  obtain ys where y: "stored sha ed c ys (fst y) (snd y)"
    using advance_stored [OF assms(1,3,4)] by blast
  obtain us u zs where z: "stored sha ed c us (fst y) u" "stored sha ed c zs (fst z) (snd z)"
      "total_work sha us < total_work sha zs"
    using advance_stored [OF assms(2,3,4)] by blast
  have "total_work sha zs < 256 ^ 40"
    using z(2) total_work_less [OF _ assms(4)] by (auto simp: stored_def)
  with z(3) stored_inj [OF y z(1)] stored_work [OF y assms(4)] stored_work [OF z(2) assms(4)]
  show ?thesis by (simp add: missing_work_def)
qed

lemma no_infinite_advance:
  assumes "hash_ok c" "cx_pow_policy c = Some fixed"
  shows "\<not> (\<exists>f. \<forall>i. storage_advance sha ed c (f i) (f (Suc i)))"
proof
  assume "\<exists>f. \<forall>i. storage_advance sha ed c (f i) (f (Suc i))"
  then obtain f where f: "storage_advance sha ed c (f i) (f (Suc i))" for i by blast
  have "missing_work sha ed c (f (Suc (Suc i))) < missing_work sha ed c (f (Suc i))" for i
    by (rule advance_decreases [OF f f assms])
  then have "\<exists>g :: nat \<Rightarrow> nat. \<forall>i. g (Suc i) < g i"
    by (intro exI [of _ "\<lambda>i. missing_work sha ed c (f (Suc i))"]) simp
  then show False using wf_iff_no_infinite_down_chain [of less_than] by (auto simp: less_than_iff)
qed

section \<open>A node on a file\<close>

text \<open>A backend that keeps one file, and an allocator that never fails.\<close>

definition file_backend :: stn_storage_provider where
  "file_backend =
     \<lparr>sp_acquire = STN_STORAGE_OK,
      sp_read = (\<lambda>d n. case d of None \<Rightarrow> (STN_STORAGE_NOT_FOUND, [])
        | Some bs \<Rightarrow> if length bs \<le> n then (STN_STORAGE_OK, bs) else (STN_STORAGE_CAPACITY, [])),
      sp_replace = (\<lambda>d bs. (STN_STORAGE_OK, Some bs))\<rparr>"

definition full_alloc :: storage_alloc where
  "full_alloc = \<lparr>sa_spans = True, sa_table = True, sa_history = (\<lambda>_. (\<lambda>_. True, \<lambda>_ _. True))\<rparr>"

definition sample_workspace :: stn_storage_workspace where
  "sample_workspace = \<lparr>ws_current_capacity = Some 1000, ws_next_capacity = Some 1000\<rparr>"

definition sample_snapshot :: "bytes list \<Rightarrow> bytes" where
  "sample_snapshot blocks = storage_prefix blocks @ replicate 32 9"

lemma io_status_simps [simp]:
  "io_status STN_STORAGE_OK = STN_STORAGE_OK" "io_status STN_STORAGE_NOT_FOUND = STN_STORAGE_NOT_FOUND"
  "io_status STN_STORAGE_CAPACITY = STN_STORAGE_CAPACITY"
  by (simp_all add: io_status_def)

lemma file_backend_ok: "provider_ok file_backend"
  by (auto simp: provider_ok_def file_backend_def split: option.splits)

lemma sample_hash_context: "hash_ok sample_context" "cx_pow_policy sample_context = Some (0x40 # replicate 31 0)"
  using sample_sha_ok by (simp_all add: hash_ok_def sample_context_def)

lemma sample_digest: "storage_digest sample_context p = Inr (replicate 32 9)"
  by (simp add: storage_digest_def sample_context_def sample_sha_def)

lemma sample_sizes: "length sample_genesis = 168" "length sample_second = 168"
  using sample_genesis_decode [of sample_sha] sample_second_decode [of sample_sha]
  by (auto simp: block_decode_iff)

lemma sample_image:
  assumes "blocks = [sample_genesis] \<or> blocks = [sample_genesis, sample_second]"
  shows "storage_image sample_context blocks (sample_snapshot blocks)" "length (sample_snapshot blocks) \<le> 400"
  using assms by (auto simp: storage_image_def sample_snapshot_def sample_digest storable_def sample_sizes
      length_storage_prefix STN_BLOCK_MAX_BODY_def)

lemma sample_storage_validated:
  assumes "blocks = [sample_genesis] \<or> blocks = [sample_genesis, sample_second]"
  obtains s where "storage_validate sample_sha sample_ed (\<lambda>_. True, \<lambda>_ _. True) sample_context (Some blocks) = Inr s"
    "chain_run sample_sha sample_ed sample_context blocks s"
    "stn_chain_reconstruct_history sample_sha sample_ed (\<lambda>_. True) (\<lambda>_ _. True) sample_context (Some blocks) =
      (accepted_report sample_context, Some s)"
proof -
  obtain s where s: "stn_chain_reconstruct_history sample_sha sample_ed (\<lambda>_. True) (\<lambda>_ _. True) sample_context (Some blocks) =
      (accepted_report sample_context, Some s)"
    using assms sample_reconstruct_one sample_reconstruct_two by auto
  moreover have "rp_acceptance (accepted_report sample_context) = STN_ACCEPTANCE_UNDER_CONTEXT"
    by (simp add: accepted_report_def Let_def)
  ultimately have "storage_validate sample_sha sample_ed (\<lambda>_. True, \<lambda>_ _. True) sample_context (Some blocks) = Inr s"
    using assms sample_hash_context(2) by (auto simp: storage_validate_def)
  with reconstruct_accepted(2) [OF s] s that show ?thesis by blast
qed

lemma sample_encoded:
  assumes "blocks = [sample_genesis] \<or> blocks = [sample_genesis, sample_second]"
  shows "stn_storage_encode sample_sha sample_ed (\<lambda>_. True, \<lambda>_ _. True) sample_context (Some blocks) 1000 =
    Inr (sample_snapshot blocks)"
proof -
  obtain s where "storage_validate sample_sha sample_ed (\<lambda>_. True, \<lambda>_ _. True) sample_context (Some blocks) = Inr s"
    using sample_storage_validated [OF assms] by blast
  with sample_image [OF assms] storage_encode_iff [OF hash_ok_length [OF sample_hash_context(1)],
      where b = "Some blocks" and al = "(\<lambda>_. True, \<lambda>_ _. True)" and capacity = 1000] show ?thesis
    by (simp add: SIZE_MAX_def)
qed

lemma sample_created:
  obtains s where "stn_storage_create sample_sha sample_ed full_alloc sample_context (Some file_backend) None
      (Some [sample_genesis]) (Some 1000) a = (STN_STORAGE_OK, Some (sample_snapshot [sample_genesis]), s)"
    "storage_validate sample_sha sample_ed (\<lambda>_. True, \<lambda>_ _. True) sample_context (Some [sample_genesis]) = Inr s"
    "chain_run sample_sha sample_ed sample_context [sample_genesis] s"
proof -
  have one: "[sample_genesis] = [sample_genesis] \<or> [sample_genesis] = [sample_genesis, sample_second]" by simp
  from sample_storage_validated [OF one] obtain s where
      s: "storage_validate sample_sha sample_ed (\<lambda>_. True, \<lambda>_ _. True) sample_context (Some [sample_genesis]) = Inr s"
      "chain_run sample_sha sample_ed sample_context [sample_genesis] s" by blast
  with sample_encoded [OF one] that show ?thesis
    by (simp add: stn_storage_create_def full_alloc_def file_backend_def publish_def)
qed

lemma sample_read:
  assumes "blocks = [sample_genesis] \<or> blocks = [sample_genesis, sample_second]"
    "storage_validate sample_sha sample_ed (\<lambda>_. True, \<lambda>_ _. True) sample_context (Some blocks) = Inr s"
  shows "read_locked sample_sha sample_ed full_alloc sample_context file_backend (Some (sample_snapshot blocks)) 1000 =
    Inr \<lparr>vw_blocks = blocks, vw_state = s\<rparr>"
  using sample_image [OF assms(1)] storage_decode_image [OF sample_image(1) [OF assms(1)]] assms(2)
  by (simp add: read_locked_def file_backend_def full_alloc_def)

lemma state_equal_refl: "length (cs_target_history s) \<le> 60 \<Longrightarrow> state_equal s s"
  by (simp add: state_equal_def list_all2_same)

lemma sample_extended:
  assumes "storage_validate sample_sha sample_ed (\<lambda>_. True, \<lambda>_ _. True) sample_context (Some [sample_genesis]) = Inr s"
    "chain_run sample_sha sample_ed sample_context [sample_genesis] s"
  shows "\<exists>t. stn_storage_extend sample_sha sample_ed full_alloc sample_context (Some file_backend)
      (Some (sample_snapshot [sample_genesis])) (Some sample_second) sample_workspace s =
    (STN_STORAGE_OK, Some (sample_snapshot [sample_genesis, sample_second]), t)"
proof -
  have two: "[sample_genesis, sample_second] = [sample_genesis] \<or>
      [sample_genesis, sample_second] = [sample_genesis, sample_second]" by simp
  from sample_storage_validated [OF two] obtain t where t: "stn_chain_reconstruct_history sample_sha sample_ed (\<lambda>_. True)
      (\<lambda>_ _. True) sample_context (Some [sample_genesis, sample_second]) = (accepted_report sample_context, Some t)" by blast
  have accepted: "rp_acceptance (accepted_report sample_context) = STN_ACCEPTANCE_UNDER_CONTEXT"
    by (simp add: accepted_report_def Let_def)
  have equal: "state_equal s s"
    using chain_run_window [OF assms(2) sample_hash_context(2)] conjunct1 [OF chain_run_linked [OF assms(2)]]
    by (intro state_equal_refl) (auto simp: window_inv_def tip_inv_def)
  have "storage_total [sample_genesis] 12 = Some 184" by (simp add: sample_sizes SIZE_MAX_def)
  moreover have "extend_prefix (sample_snapshot [sample_genesis]) 184 1 sample_second =
      storage_prefix [sample_genesis, sample_second]"
    by (simp add: extend_prefix_def sample_snapshot_def storage_prefix_def stored_record_def sample_sizes)
  moreover have "read_locked sample_sha sample_ed full_alloc sample_context file_backend
      (Some (sample_snapshot [sample_genesis])) 1000 = Inr \<lparr>vw_blocks = [sample_genesis], vw_state = s\<rparr>"
    by (rule sample_read) (use assms(1) in simp_all)
  moreover have "snd (sp_read file_backend (Some (sample_snapshot [sample_genesis])) 1000) = sample_snapshot [sample_genesis]"
    using sample_image(2) [of "[sample_genesis]"] by (simp add: file_backend_def)
  moreover have "sa_history full_alloc i = (\<lambda>_. True, \<lambda>_ _. True)" "sa_table full_alloc"
      "sp_acquire file_backend = STN_STORAGE_OK" "sp_replace file_backend d bs = (STN_STORAGE_OK, Some bs)"
      "ws_current_capacity sample_workspace = Some 1000" "ws_next_capacity sample_workspace = Some 1000" for i d bs
    by (simp_all add: full_alloc_def file_backend_def sample_workspace_def)
  ultimately show ?thesis
    using t accepted equal sample_snapshot_def [of "[sample_genesis, sample_second]"]
    by (simp add: stn_storage_extend_def sample_digest publish_def sample_sizes SIZE_MAX_def del: storage_total.simps)
qed

end
