(* ===== verification/Stn_Storage_Claims.thy ===== *)
theory Stn_Storage_Claims
  imports Stn_Storage_Run
begin

text \<open>The properties of the storage.\<close>

section \<open>Properties\<close>

text \<open>
  C8. The snapshot format. Bytes are decoded exactly when they are the snapshot of the decoded blocks
  (header, count, length-prefixed blocks and the digest of all this) and these blocks reconstruct the
  decoded state; so every snapshot the encoder writes is read back to the same blocks, and no two
  histories have the same snapshot.
\<close>

theorem storage_snapshot_exact:
  assumes "hash_ok c"
  shows "(stn_storage_decode sha ed spans al c p = Inr v \<longleftrightarrow> spans \<and> storage_image c (vw_blocks v) p \<and>
      storage_validate sha ed al c (Some (vw_blocks v)) = Inr (vw_state v)) \<and>
    (\<forall>capacity. stn_storage_encode sha ed al c (Some blocks) capacity = Inr p \<longrightarrow>
      length p \<le> capacity \<and> storage_image c blocks p \<and>
      (\<exists>s. stn_storage_decode sha ed True al c p = Inr \<lparr>vw_blocks = blocks, vw_state = s\<rparr>)) \<and>
    (storage_image c blocks p \<longrightarrow> storage_image c other p \<longrightarrow> blocks = other)"
proof (intro conjI allI impI)
  show "stn_storage_decode sha ed spans al c p = Inr v \<longleftrightarrow> spans \<and> storage_image c (vw_blocks v) p \<and>
      storage_validate sha ed al c (Some (vw_blocks v)) = Inr (vw_state v)" by (rule storage_decode_iff)
  show "blocks = other" if "storage_image c blocks p" "storage_image c other p" using storage_image_inj that by blast
  fix capacity
  assume "stn_storage_encode sha ed al c (Some blocks) capacity = Inr p"
  then obtain s where e: "storage_validate sha ed al c (Some blocks) = Inr s" "storage_image c blocks p" "length p \<le> capacity"
    using storage_encode_iff [OF hash_ok_length [OF assms], where b = "Some blocks"] by auto
  then show "length p \<le> capacity" "storage_image c blocks p" by simp_all
  show "\<exists>s. stn_storage_decode sha ed True al c p = Inr \<lparr>vw_blocks = blocks, vw_state = s\<rparr>"
    unfolding storage_decode_image [OF e(2)] using e(1) by simp
qed

theorem storage_snapshot_exact_witness:
  "\<exists>s. stn_storage_decode sample_sha sample_ed True (\<lambda>_. True, \<lambda>_ _. True) sample_context
     (sample_snapshot [sample_genesis, sample_second]) = Inr \<lparr>vw_blocks = [sample_genesis, sample_second], vw_state = s\<rparr>"
  using storage_snapshot_exact [OF sample_hash_context(1), where sha = sample_sha and ed = sample_ed and
      al = "(\<lambda>_. True, \<lambda>_ _. True)" and blocks = "[sample_genesis, sample_second]" and
      p = "sample_snapshot [sample_genesis, sample_second]"]
    sample_encoded [of "[sample_genesis, sample_second]"] by blast

text \<open>
  C7. The stored snapshot and the active state agree. Along any sequence of create, apply, extend, adopt
  and load calls on a backend that keeps its contract, failed ones included, whatever the allocator
  answers and whatever is offered: either nothing was stored yet, or the stored bytes are the snapshot of
  an accepted history and the active state is a state this very history reaches.
\<close>

theorem storage_consistent:
  assumes "storage_run sha ed c (d, active)" "hash_ok c" "d \<noteq> None"
  shows "\<exists>blocks p. d = Some p \<and> storage_image c blocks p \<and> chain_run sha ed c blocks active"
  using storage_run_inv [OF assms(1,2)] assms(3) by (auto simp: storage_inv_def stored_def)

theorem storage_consistent_witness:
  "\<exists>s blocks. storage_run sample_sha sample_ed sample_context (Some (sample_snapshot [sample_genesis, sample_second]), s) \<and>
     chain_run sample_sha sample_ed sample_context blocks s"
proof -
  obtain s where s: "stn_storage_create sample_sha sample_ed full_alloc sample_context (Some file_backend) None
      (Some [sample_genesis]) (Some 1000) undefined = (STN_STORAGE_OK, Some (sample_snapshot [sample_genesis]), s)"
      "storage_validate sample_sha sample_ed (\<lambda>_. True, \<lambda>_ _. True) sample_context (Some [sample_genesis]) = Inr s"
      "chain_run sample_sha sample_ed sample_context [sample_genesis] s"
    using sample_created [of undefined] by blast
  from sample_extended [OF s(2,3)] obtain t where
      t: "stn_storage_extend sample_sha sample_ed full_alloc sample_context (Some file_backend)
      (Some (sample_snapshot [sample_genesis])) (Some sample_second) sample_workspace s =
    (STN_STORAGE_OK, Some (sample_snapshot [sample_genesis, sample_second]), t)" by blast
  from run_step [OF run_step [OF run_empty step_create [OF file_backend_ok s(1)]] step_extend [OF file_backend_ok t]]
  have run: "storage_run sample_sha sample_ed sample_context (Some (sample_snapshot [sample_genesis, sample_second]), t)" .
  with storage_consistent [OF run sample_hash_context(1)] show ?thesis by blast
qed

text \<open>
  C9. Reorganisation terminates. There is no infinite sequence of successful extensions, applied plans
  and adoptions over a readable snapshot: each one replaces the stored history by one of strictly more
  total work, and the total work of an accepted history stays below \<open>2 ^ 320\<close>.
\<close>

theorem storage_advance_terminates:
  assumes "hash_ok c" "cx_pow_policy c = Some fixed"
  shows "\<not> (\<exists>f. \<forall>i. storage_advance sha ed c (f i) (f (Suc i)))"
  by (rule no_infinite_advance [OF assms])

theorem storage_advance_terminates_witness:
  "(\<exists>x y. storage_advance sample_sha sample_ed sample_context x y) \<and>
   \<not> (\<exists>f. \<forall>i. storage_advance sample_sha sample_ed sample_context (f i) (f (Suc i)))"
proof -
  obtain s where s: "storage_validate sample_sha sample_ed (\<lambda>_. True, \<lambda>_ _. True) sample_context (Some [sample_genesis]) = Inr s"
      "chain_run sample_sha sample_ed sample_context [sample_genesis] s"
    using sample_storage_validated [of "[sample_genesis]"] by blast
  from sample_extended [OF s] advance_extend [OF file_backend_ok]
  have "\<exists>x y. storage_advance sample_sha sample_ed sample_context x y" by blast
  with storage_advance_terminates [OF sample_hash_context] show ?thesis by blast
qed

end
