(* ===== verification/Stn_Query.thy ===== *)
theory Stn_Query
  imports Stn_Chain_Batch
begin

text \<open>
  The record queries of \<^verbatim>\<open>src/src/stn_chain.c\<close>: cursors, the lookup of a published record by its
  identifier, and the traversal of the published records of an accepted history. The history is
  revalidated by every call; the answers of the allocator are a parameter.
\<close>

section \<open>Cursors\<close>

definition STN_CHAIN_CURSOR_SIZE :: nat where [simp]: "STN_CHAIN_CURSOR_SIZE = 45"
definition STN_CHAIN_CURSOR_VERSION :: u8 where [simp]: "STN_CHAIN_CURSOR_VERSION = 1"

record stn_chain_cursor =
  cur_version :: u8
  cur_height :: u64
  cur_block_id :: bytes
  cur_position :: u32

datatype stn_cursor_result =
    STN_CURSOR_VALID | STN_CURSOR_DETACHED | STN_CURSOR_MALFORMED | STN_CURSOR_UNAVAILABLE | STN_CURSOR_PROVIDER

definition stn_chain_cursor_encode :: "stn_chain_cursor option \<Rightarrow> nat \<Rightarrow> stn_cursor_result + bytes" where
  "stn_chain_cursor_encode cursor len =
     (case cursor of
        None \<Rightarrow> Inl STN_CURSOR_MALFORMED
      | Some p \<Rightarrow>
          if len \<noteq> STN_CHAIN_CURSOR_SIZE \<or> cur_version p \<noteq> STN_CHAIN_CURSOR_VERSION then Inl STN_CURSOR_MALFORMED
          else Inr ([cur_version p] @ stn_wire_write 8 (cur_height p) @ cur_block_id p @
            stn_wire_write 4 (ucast (cur_position p))))"

definition stn_chain_cursor_decode :: "bytes option \<Rightarrow> stn_cursor_result + stn_chain_cursor" where
  "stn_chain_cursor_decode input =
     (case input of
        None \<Rightarrow> Inl STN_CURSOR_MALFORMED
      | Some bs \<Rightarrow>
          if length bs \<noteq> STN_CHAIN_CURSOR_SIZE \<or> hd bs \<noteq> STN_CHAIN_CURSOR_VERSION then Inl STN_CURSOR_MALFORMED
          else Inr \<lparr>cur_version = hd bs, cur_height = stn_wire_read (drop 1 bs) 8,
            cur_block_id = take 32 (drop 9 bs), cur_position = ucast (stn_wire_read (drop 41 bs) 4)\<rparr>)"

section \<open>Revalidation\<close>

text \<open>
  The allocations of one search: the initial state, each block, the scratch memory, and the statement of
  each publication, by block and position.
\<close>

record search_alloc =
  qa_init :: chain_alloc
  qa_block :: "nat \<Rightarrow> chain_alloc"
  qa_memory :: bool
  qa_statement :: "nat \<Rightarrow> nat \<Rightarrow> bool"

text \<open>The first loop of \<^verbatim>\<open>record_search\<close>: each block on the state of the blocks before it.\<close>

fun revalidate_loop ::
  "stn_hash_fn \<Rightarrow> ed25519 \<Rightarrow> (nat \<Rightarrow> chain_alloc) \<Rightarrow> stn_chain_context \<Rightarrow> nat \<Rightarrow> bytes list \<Rightarrow> stn_chain_state \<Rightarrow>
   stn_chain_state data_result" where
  "revalidate_loop sha ed alloc c i [] state = Inr state"
| "revalidate_loop sha ed alloc c i (block # blocks) state =
     (case stn_chain_validate_candidate sha ed (alloc i) c state (Some block) of
        (r, out) \<Rightarrow>
          if rp_acceptance r = STN_ACCEPTANCE_UNRESOLVED then Inl STN_DATA_UNRESOLVED
          else if rp_acceptance r \<noteq> STN_ACCEPTANCE_UNDER_CONTEXT then Inl STN_DATA_PROVIDER_ERROR
          else revalidate_loop sha ed alloc c (i + 1) blocks (case out of None \<Rightarrow> state | Some s \<Rightarrow> s))"

text \<open>The loop of \<^verbatim>\<open>stn_chain_cursor_validate\<close>, with the result so far.\<close>

fun cursor_loop ::
  "stn_hash_fn \<Rightarrow> ed25519 \<Rightarrow> (nat \<Rightarrow> chain_alloc) \<Rightarrow> stn_chain_context \<Rightarrow> stn_chain_cursor \<Rightarrow> nat \<Rightarrow> bytes list \<Rightarrow>
   stn_chain_state \<Rightarrow> stn_cursor_result \<Rightarrow> stn_cursor_result" where
  "cursor_loop sha ed alloc c cursor i [] state result = result"
| "cursor_loop sha ed alloc c cursor i (block # blocks) state result =
     (case stn_chain_validate_candidate sha ed (alloc i) c state (Some block) of
        (r, out) \<Rightarrow>
          if rp_acceptance r = STN_ACCEPTANCE_UNRESOLVED then STN_CURSOR_UNAVAILABLE
          else if rp_acceptance r \<noteq> STN_ACCEPTANCE_UNDER_CONTEXT then STN_CURSOR_PROVIDER
          else
            (let state = (case out of None \<Rightarrow> state | Some s \<Rightarrow> s)
             in case stn_block_decode sha (Some block) of
                  Inl _ \<Rightarrow> STN_CURSOR_PROVIDER
                | Inr b \<Rightarrow>
                    if bh_height (blk_header b) = cur_height cursor then
                      (case stn_chain_block_id sha (Some block) (cx_hash_provider c) of
                         Inl _ \<Rightarrow> STN_CURSOR_PROVIDER
                       | Inr ident \<Rightarrow>
                           cursor_loop sha ed alloc c cursor (i + 1) blocks state
                             (if memcmp ident (cur_block_id cursor) = 0 \<and>
                                cur_position cursor < bh_transaction_count (blk_header b)
                              then STN_CURSOR_VALID else result))
                    else cursor_loop sha ed alloc c cursor (i + 1) blocks state result))"

definition stn_chain_cursor_validate ::
  "stn_hash_fn \<Rightarrow> ed25519 \<Rightarrow> search_alloc \<Rightarrow> stn_chain_context \<Rightarrow> bytes list option \<Rightarrow> stn_chain_cursor option \<Rightarrow>
   stn_cursor_result" where
  "stn_chain_cursor_validate sha ed al c blocks cursor =
     (case cursor of
        None \<Rightarrow> STN_CURSOR_MALFORMED
      | Some p \<Rightarrow>
          if cur_version p \<noteq> STN_CHAIN_CURSOR_VERSION then STN_CURSOR_MALFORMED
          else if cx_pow_policy c = None \<or> blocks = None \<or> blocks = Some [] then STN_CURSOR_UNAVAILABLE
          else
            (case stn_chain_initialize sha (qa_init al) c of
               Inl _ \<Rightarrow> STN_CURSOR_PROVIDER
             | Inr state \<Rightarrow> cursor_loop sha ed (qa_block al) c p 0 (the blocks) state STN_CURSOR_DETACHED))"

section \<open>The search\<close>

record stn_chain_record_match =
  mt_found :: bool
  mt_record_id :: bytes
  mt_height :: u64
  mt_block_id :: bytes
  mt_transaction :: bytes

definition no_match :: stn_chain_record_match where
  "no_match = \<lparr>mt_found = False, mt_record_id = replicate 32 0, mt_height = 0, mt_block_id = replicate 32 0,
     mt_transaction = []\<rparr>"

text \<open>The transaction at the front of the rest of a body: its bytes and what follows.\<close>

definition front_span :: "bytes \<Rightarrow> bytes \<times> bytes" where
  "front_span rest = (let n = unat (stn_wire_read rest 4); after = drop 4 rest in (take n after, drop n after))"

text \<open>The second loop counts the transactions and the grants, for the size of the scratch memory.\<close>

fun grants_loop :: "stn_hash_fn \<Rightarrow> nat \<Rightarrow> bytes \<Rightarrow> nat \<Rightarrow> nat data_result" where
  "grants_loop sha 0 rest grants = Inr grants"
| "grants_loop sha (Suc n) rest grants =
     (case front_span rest of
        (t, rest') \<Rightarrow>
          (case stn_transaction_decode sha (Some t) of
             Inl _ \<Rightarrow> Inl STN_DATA_PROVIDER_ERROR
           | Inr tx \<Rightarrow> grants_loop sha n rest' (if txn_type tx = STN_TX_AUTHORITY_GRANT then grants + 1 else grants)))"

fun count_loop :: "stn_hash_fn \<Rightarrow> bytes list \<Rightarrow> nat \<Rightarrow> nat \<Rightarrow> (nat \<times> nat) data_result" where
  "count_loop sha [] amount grants = Inr (amount, grants)"
| "count_loop sha (block # blocks) amount grants =
     (case stn_block_decode sha (Some block) of
        Inl _ \<Rightarrow> Inl STN_DATA_PROVIDER_ERROR
      | Inr b \<Rightarrow>
          (let n = unat (bh_transaction_count (blk_header b))
           in if amount > SIZE_MAX - n then Inl STN_DATA_CAPACITY
              else
                (case grants_loop sha n (the (blk_body b)) grants of
                   Inl s \<Rightarrow> Inl s
                 | Inr grants \<Rightarrow> count_loop sha blocks (amount + n) grants)))"

text \<open>
  The two replay projections: the lifecycle of the accepted history, and the registry that decides which
  publications are reported.
\<close>

record search_state =
  ss_historical :: stn_lifecycle_state
  ss_eligible :: key_buffer

text \<open>Is this eligible publication the one the caller wants?\<close>

definition wanted :: "bytes option \<Rightarrow> stn_chain_cursor option \<Rightarrow> bytes \<Rightarrow> u64 \<Rightarrow> nat \<Rightarrow> bool" where
  "wanted key after ident height j \<longleftrightarrow>
     (key = None \<and> after = None) \<or>
     (case key of None \<Rightarrow> False | Some k \<Rightarrow> memcmp ident k = 0) \<or>
     (case after of None \<Rightarrow> False
      | Some a \<Rightarrow> height > cur_height a \<or> (height = cur_height a \<and> j > unat (cur_position a)))"

text \<open>The eligibility of a publication: an error, or whether it is eligible and its record identifier.\<close>

definition publication_eligible ::
  "ed25519 \<Rightarrow> bool \<Rightarrow> stn_chain_context \<Rightarrow> search_state \<Rightarrow> stn_transaction \<Rightarrow> (bytes option) data_result" where
  "publication_eligible ed statement c s tx =
     (let result = stn_lifecycle_check_publication ed statement
            (Some ((ss_historical s)\<lparr>lc_replay := ss_eligible s\<rparr>)) (txn_record_bytes tx) (cx_hash_provider c)
      in if result = STN_LIFECYCLE_PROVIDER \<or> result = STN_LIFECYCLE_CAPACITY then Inl STN_DATA_PROVIDER_ERROR
         else if result = STN_LIFECYCLE_OK then
           (case stn_record_id (txn_record_bytes tx) (cx_hash_provider c) of
              Inl _ \<Rightarrow> Inl STN_DATA_PROVIDER_ERROR
            | Inr ident \<Rightarrow> Inr (Some ident))
         else Inr None)"

definition lifecycle_of ::
  "ed25519 \<Rightarrow> stn_chain_context \<Rightarrow> stn_lifecycle_state \<Rightarrow> stn_transaction \<Rightarrow>
   stn_lifecycle_result \<times> stn_lifecycle_state" where
  "lifecycle_of ed c s tx =
     stn_lifecycle_apply_transaction ed s (Some tx) (cx_authority_roots c) (cx_authority_root_count c)
       (Some (cx_hash_provider c))"

text \<open>The rest of one step: the accepted history, and its new key in the eligible registry.\<close>

definition search_advance :: "ed25519 \<Rightarrow> stn_chain_context \<Rightarrow> search_state \<Rightarrow> stn_transaction \<Rightarrow> search_state data_result" where
  "search_advance ed c s tx =
     (case lifecycle_of ed c (ss_historical s) tx of
        (result, historical) \<Rightarrow>
          if result \<noteq> STN_LIFECYCLE_OK then Inl STN_DATA_PROVIDER_ERROR
          else
            (case stn_replay_state_consume (ss_eligible s) (Some (last (accepted (lc_replay historical)))) of
               (r, eligible) \<Rightarrow>
                 if r = STN_REPLAY_MALFORMED then Inl STN_DATA_PROVIDER_ERROR
                 else Inr \<lparr>ss_historical = historical, ss_eligible = eligible\<rparr>))"

text \<open>An eligible publication that is not wanted is consumed in the eligible registry.\<close>

definition eligible_consume ::
  "ed25519 \<Rightarrow> stn_chain_context \<Rightarrow> search_state \<Rightarrow> stn_transaction \<Rightarrow> search_state data_result" where
  "eligible_consume ed c s tx =
     (case lifecycle_of ed c ((ss_historical s)\<lparr>lc_replay := ss_eligible s\<rparr>) tx of
        (result, observed) \<Rightarrow>
          if result \<noteq> STN_LIFECYCLE_OK then Inl STN_DATA_PROVIDER_ERROR
          else Inr (s\<lparr>ss_eligible := lc_replay observed\<rparr>))"

definition search_rest ::
  "ed25519 \<Rightarrow> stn_chain_context \<Rightarrow> bool \<Rightarrow> search_state \<Rightarrow> stn_transaction \<Rightarrow> search_state data_result" where
  "search_rest ed c inactive s tx =
     (if txn_type tx = STN_TX_PUBLICATION \<and> inactive then Inr s else search_advance ed c s tx)"

text \<open>
  One transaction: an error, the match (Inl) or the state after it (Inr). \<open>P\<close> is the test of the caller,
  \<open>inactive\<close> says that the block is below the activation height.
\<close>

definition search_tx ::
  "stn_hash_fn \<Rightarrow> ed25519 \<Rightarrow> stn_chain_context \<Rightarrow> (bytes \<Rightarrow> u64 \<Rightarrow> nat \<Rightarrow> bool) \<Rightarrow> bool \<Rightarrow> bool \<Rightarrow> bytes \<Rightarrow> u64 \<Rightarrow> nat \<Rightarrow>
   bytes \<Rightarrow> search_state \<Rightarrow> ((stn_chain_record_match \<times> stn_chain_cursor) + search_state) data_result" where
  "search_tx sha ed c P statement inactive block height j t s =
     (case stn_transaction_decode sha (Some t) of
        Inl _ \<Rightarrow> Inl STN_DATA_PROVIDER_ERROR
      | Inr tx \<Rightarrow>
          (case (if txn_type tx = STN_TX_PUBLICATION then publication_eligible ed statement c s tx else Inr None) of
             Inl e \<Rightarrow> Inl e
           | Inr None \<Rightarrow> map_sum id Inr (search_rest ed c inactive s tx)
           | Inr (Some ident) \<Rightarrow>
               if P ident height j then
                 (case stn_chain_block_id sha (Some block) (cx_hash_provider c) of
                    Inl _ \<Rightarrow> Inl STN_DATA_PROVIDER_ERROR
                  | Inr bid \<Rightarrow>
                      Inr (Inl (\<lparr>mt_found = True, mt_record_id = ident, mt_height = height, mt_block_id = bid,
                                 mt_transaction = t\<rparr>,
                                \<lparr>cur_version = 1, cur_height = height, cur_block_id = bid,
                                 cur_position = word_of_nat j\<rparr>)))
               else
                 (case eligible_consume ed c s tx of
                    Inl e \<Rightarrow> Inl e
                  | Inr s \<Rightarrow> map_sum id Inr (search_rest ed c inactive s tx))))"

fun search_txs ::
  "stn_hash_fn \<Rightarrow> ed25519 \<Rightarrow> stn_chain_context \<Rightarrow> (bytes \<Rightarrow> u64 \<Rightarrow> nat \<Rightarrow> bool) \<Rightarrow> (nat \<Rightarrow> bool) \<Rightarrow> bool \<Rightarrow> bytes \<Rightarrow> u64 \<Rightarrow>
   nat \<Rightarrow> nat \<Rightarrow> bytes \<Rightarrow> search_state \<Rightarrow> ((stn_chain_record_match \<times> stn_chain_cursor) + search_state) data_result" where
  "search_txs sha ed c P statement inactive block height 0 j rest s = Inr (Inr s)"
| "search_txs sha ed c P statement inactive block height (Suc n) j rest s =
     (case search_tx sha ed c P (statement j) inactive block height j (fst (front_span rest)) s of
        Inl e \<Rightarrow> Inl e
      | Inr (Inl found) \<Rightarrow> Inr (Inl found)
      | Inr (Inr s) \<Rightarrow> search_txs sha ed c P statement inactive block height n (j + 1) (snd (front_span rest)) s)"

fun search_blocks ::
  "stn_hash_fn \<Rightarrow> ed25519 \<Rightarrow> stn_chain_context \<Rightarrow> (bytes \<Rightarrow> u64 \<Rightarrow> nat \<Rightarrow> bool) \<Rightarrow> (nat \<Rightarrow> nat \<Rightarrow> bool) \<Rightarrow> u64 \<Rightarrow> nat \<Rightarrow>
   bytes list \<Rightarrow> search_state \<Rightarrow> ((stn_chain_record_match \<times> stn_chain_cursor) + search_state) data_result" where
  "search_blocks sha ed c P statement activation i [] s = Inr (Inr s)"
| "search_blocks sha ed c P statement activation i (block # blocks) s =
     (case stn_block_decode sha (Some block) of
        Inl _ \<Rightarrow> Inl STN_DATA_PROVIDER_ERROR
      | Inr b \<Rightarrow>
          (case search_txs sha ed c P (statement i) (bh_height (blk_header b) < activation) block
                  (bh_height (blk_header b)) (unat (bh_transaction_count (blk_header b))) 0 (the (blk_body b)) s of
             Inl e \<Rightarrow> Inl e
           | Inr (Inl found) \<Rightarrow> Inr (Inl found)
           | Inr (Inr s) \<Rightarrow> search_blocks sha ed c P statement activation (i + 1) blocks s))"

text \<open>The two projections before the first block, over the scratch memory for \<open>grants\<close> and \<open>amount\<close>.\<close>

definition search_start :: "stn_chain_context \<Rightarrow> nat \<Rightarrow> nat \<Rightarrow> search_state" where
  "search_start c grants amount =
     \<lparr>ss_historical = stn_lifecycle_set_initial_identities
        (stn_lifecycle_initialize (Some (replicate grants (replicate 194 0))) grants
          (Some (replicate amount (replicate 64 0))) amount
          (if cx_initial_identity_count c \<noteq> 0 then hd (the (cx_initial_identities c)) else replicate 32 0))
        (cx_initial_identities c) (cx_initial_identity_count c),
      ss_eligible = stn_replay_state_initialize (Some (replicate amount (replicate 64 0))) amount\<rparr>"

definition record_search ::
  "stn_hash_fn \<Rightarrow> ed25519 \<Rightarrow> search_alloc \<Rightarrow> stn_chain_context \<Rightarrow> bytes list option \<Rightarrow>
   (bytes \<Rightarrow> u64 \<Rightarrow> nat \<Rightarrow> bool) \<Rightarrow> (stn_chain_record_match \<times> stn_chain_cursor) option data_result" where
  "record_search sha ed al c blocks P =
     (if cx_pow_policy c = None \<or> blocks = None \<or> blocks = Some [] then Inl STN_DATA_UNRESOLVED
      else
        (case stn_chain_initialize sha (qa_init al) c of
           Inl _ \<Rightarrow> Inl STN_DATA_PROVIDER_ERROR
         | Inr state \<Rightarrow>
             (case revalidate_loop sha ed (qa_block al) c 0 (the blocks) state of
                Inl e \<Rightarrow> Inl e
              | Inr current \<Rightarrow>
                  (case count_loop sha (the blocks) 0 0 of
                     Inl e \<Rightarrow> Inl e
                   | Inr (amount, grants) \<Rightarrow>
                       if grants > SIZE_MAX div 194 \<or> amount > SIZE_MAX div (2 * 64) then Inl STN_DATA_CAPACITY
                       else if grants * 194 > SIZE_MAX - 2 * (amount * 64) then Inl STN_DATA_CAPACITY
                       else if \<not> qa_memory al then Inl STN_DATA_PROVIDER_ERROR
                       else
                         (case search_blocks sha ed c P (qa_statement al) (cs_activation current) 0 (the blocks)
                                 (search_start c grants amount) of
                            Inl e \<Rightarrow> Inl e
                          | Inr (Inl found) \<Rightarrow> Inr (Some found)
                          | Inr (Inr _) \<Rightarrow> Inr None)))))"

section \<open>The queries\<close>

definition stn_chain_lookup_record ::
  "stn_hash_fn \<Rightarrow> ed25519 \<Rightarrow> search_alloc \<Rightarrow> stn_chain_context \<Rightarrow> bytes list option \<Rightarrow> bytes option \<Rightarrow>
   stn_chain_record_match data_result" where
  "stn_chain_lookup_record sha ed al c blocks key =
     (if key = None then Inl STN_DATA_ARGUMENT
      else
        (case record_search sha ed al c blocks (wanted key None) of
           Inl e \<Rightarrow> Inl e
         | Inr None \<Rightarrow> Inr no_match
         | Inr (Some (m, _)) \<Rightarrow> Inr m))"

datatype stn_next_result =
    STN_NEXT_RECORD | STN_NEXT_END | STN_NEXT_DETACHED | STN_NEXT_MALFORMED | STN_NEXT_UNAVAILABLE
  | STN_NEXT_PROVIDER | STN_NEXT_CAPACITY

definition stn_chain_next_record ::
  "stn_hash_fn \<Rightarrow> ed25519 \<Rightarrow> search_alloc \<Rightarrow> search_alloc \<Rightarrow> stn_chain_context \<Rightarrow> bytes list option \<Rightarrow>
   stn_chain_cursor option \<Rightarrow> stn_next_result \<times> (stn_chain_record_match \<times> stn_chain_cursor) option" where
  "stn_chain_next_record sha ed al al' c blocks after =
     (case stn_chain_cursor_validate sha ed al c blocks after of
        STN_CURSOR_MALFORMED \<Rightarrow> (STN_NEXT_MALFORMED, None)
      | STN_CURSOR_DETACHED \<Rightarrow> (STN_NEXT_DETACHED, None)
      | STN_CURSOR_UNAVAILABLE \<Rightarrow> (STN_NEXT_UNAVAILABLE, None)
      | STN_CURSOR_PROVIDER \<Rightarrow> (STN_NEXT_PROVIDER, None)
      | STN_CURSOR_VALID \<Rightarrow>
          (case record_search sha ed al' c blocks (wanted None after) of
             Inl e \<Rightarrow>
               (if e = STN_DATA_UNRESOLVED then STN_NEXT_UNAVAILABLE
                else if e = STN_DATA_CAPACITY then STN_NEXT_CAPACITY else STN_NEXT_PROVIDER, None)
           | Inr None \<Rightarrow> (STN_NEXT_END, None)
           | Inr (Some found) \<Rightarrow> (STN_NEXT_RECORD, Some found)))"

datatype stn_first_result =
    STN_FIRST_RECORD | STN_FIRST_END | STN_FIRST_ARGUMENT | STN_FIRST_UNAVAILABLE | STN_FIRST_PROVIDER
  | STN_FIRST_CAPACITY

definition stn_chain_first_record ::
  "stn_hash_fn \<Rightarrow> ed25519 \<Rightarrow> search_alloc \<Rightarrow> stn_chain_context \<Rightarrow> bytes list option \<Rightarrow>
   stn_first_result \<times> (stn_chain_record_match \<times> stn_chain_cursor) option" where
  "stn_chain_first_record sha ed al c blocks =
     (case record_search sha ed al c blocks (wanted None None) of
        Inl e \<Rightarrow>
          (if e = STN_DATA_UNRESOLVED then STN_FIRST_UNAVAILABLE
           else if e = STN_DATA_CAPACITY then STN_FIRST_CAPACITY else STN_FIRST_PROVIDER, None)
      | Inr None \<Rightarrow> (STN_FIRST_END, None)
      | Inr (Some found) \<Rightarrow> (STN_FIRST_RECORD, Some found))"

end
