(* ===== verification/Stn_Query_Correct.thy ===== *)
theory Stn_Query_Correct
  imports Stn_Query
begin

text \<open>
  The record queries against the list of all eligible publications of the history, in chain order: a
  lookup finds the first with the identifier, the traversal visits them one after the other, and every
  position it answers is a valid cursor that lies strictly after the one before.
\<close>

section \<open>Cursor codec\<close>

definition wf_cursor :: "stn_chain_cursor \<Rightarrow> bool" where
  "wf_cursor p \<longleftrightarrow> length (cur_block_id p) = 32 \<and> cur_version p = 1"

lemma cursor_encode_iff:
  "stn_chain_cursor_encode (Some p) n = Inr bs \<longleftrightarrow> n = 45 \<and> cur_version p = 1 \<and>
     bs = [1] @ stn_wire_write 8 (cur_height p) @ cur_block_id p @ stn_wire_write 4 (ucast (cur_position p))"
  by (auto simp: stn_chain_cursor_encode_def)

lemma cursor_decode_iff:
  "stn_chain_cursor_decode (Some bs) = Inr p \<longleftrightarrow>
     wf_cursor p \<and> stn_chain_cursor_encode (Some p) 45 = Inr bs"
proof
  assume dec: "stn_chain_cursor_decode (Some bs) = Inr p"
  then have len: "length bs = 45" "hd bs = 1" and
      p: "p = \<lparr>cur_version = hd bs, cur_height = stn_wire_read (drop 1 bs) 8,
            cur_block_id = take 32 (drop 9 bs), cur_position = ucast (stn_wire_read (drop 41 bs) 4)\<rparr>"
    by (auto simp: stn_chain_cursor_decode_def split: if_splits)
  have "take 1 bs = [1]" using len by (cases bs) auto
  moreover have "bs = take 1 bs @ drop 1 bs" "drop 1 bs = take 8 (drop 1 bs) @ drop 9 bs"
      "drop 9 bs = take 32 (drop 9 bs) @ drop 41 bs"
    using append_take_drop_id [of 8 "drop 1 bs"] append_take_drop_id [of 32 "drop 9 bs"] by simp_all
  moreover have "take 4 (drop 41 bs) = drop 41 bs" using len by simp
  ultimately have "bs = [1] @ take 8 (drop 1 bs) @ take 32 (drop 9 bs) @ take 4 (drop 41 bs)" by metis
  then have "bs = [1] @ stn_wire_write 8 (cur_height p) @ cur_block_id p @ stn_wire_write 4 (ucast (cur_position p))"
    using len unfolding p by (simp add: write_read_64 write_read_32)
  then show "wf_cursor p \<and> stn_chain_cursor_encode (Some p) 45 = Inr bs"
    using len p by (simp add: wf_cursor_def cursor_encode_iff)
next
  assume "wf_cursor p \<and> stn_chain_cursor_encode (Some p) 45 = Inr bs"
  then have wf: "length (cur_block_id p) = 32" "cur_version p = 1" and
      bs: "bs = [1] @ stn_wire_write 8 (cur_height p) @ cur_block_id p @ stn_wire_write 4 (ucast (cur_position p))"
    by (auto simp: wf_cursor_def cursor_encode_iff)
  show "stn_chain_cursor_decode (Some bs) = Inr p"
    unfolding bs using wf by (simp add: stn_chain_cursor_decode_def)
qed

interpretation cursor_codec: codec
  "\<lambda>p. stn_chain_cursor_encode (Some p) 45" "\<lambda>bs. stn_chain_cursor_decode (Some bs)" wf_cursor
  by unfold_locales (auto simp: cursor_decode_iff)

section \<open>What a search finds\<close>

type_synonym entry = "stn_chain_record_match \<times> stn_chain_cursor"

definition entry_test :: "(bytes \<Rightarrow> u64 \<Rightarrow> nat \<Rightarrow> bool) \<Rightarrow> entry \<Rightarrow> bool" where
  "entry_test P e \<longleftrightarrow> P (mt_record_id (fst e)) (cur_height (snd e)) (unat (cur_position (snd e)))"

lemma rest_not_found [simp]: "map_sum id Inr x \<noteq> Inr (Inl e)"
  by (cases x) simp_all

lemma search_tx_found:
  assumes "search_tx sha ed c P statement inactive block height j t s = Inr (Inl e)" "j < 4294967296"
  shows "entry_test P e" "cur_height (snd e) = height" "unat (cur_position (snd e)) = j" "cur_version (snd e) = 1"
    "mt_transaction (fst e) = t" "mt_height (fst e) = height" "mt_found (fst e)"
    "stn_chain_block_id sha (Some block) (cx_hash_provider c) = Inr (cur_block_id (snd e))"
proof -
  have j: "unat (word_of_nat j :: u32) = j" using assms(2) by (simp add: unat_of_nat take_bit_nat_eq_self)
  show "entry_test P e" "cur_height (snd e) = height" "unat (cur_position (snd e)) = j" "cur_version (snd e) = 1"
    "mt_transaction (fst e) = t" "mt_height (fst e) = height" "mt_found (fst e)"
    "stn_chain_block_id sha (Some block) (cx_hash_provider c) = Inr (cur_block_id (snd e))"
    using assms(1) j
    by (auto simp: search_tx_def entry_test_def split: sum.splits option.splits if_splits prod.splits)
qed

lemma search_txs_found:
  assumes "search_txs sha ed c P statement inactive block height n j rest s = Inr (Inl e)" "j + n \<le> 4294967295"
  shows "entry_test P e \<and> cur_height (snd e) = height"
  using assms
proof (induction n arbitrary: j rest s)
  case 0
  then show ?case by simp
next
  case (Suc n)
  have j: "j < 4294967296" using Suc.prems(2) by simp
  obtain x where x: "search_tx sha ed c P (statement j) inactive block height j (fst (front_span rest)) s = Inr x"
    using Suc.prems(1) by (auto split: sum.splits)
  show ?case
  proof (cases x)
    case (Inl f)
    with x Suc.prems(1) search_tx_found(1,2) [OF _ j] show ?thesis by auto
  next
    case (Inr s')
    with x Suc.prems(1) have "search_txs sha ed c P statement inactive block height n (j + 1) (snd (front_span rest)) s' =
        Inr (Inl e)" by simp
    from Suc.IH [OF this] Suc.prems(2) show ?thesis by simp
  qed
qed

lemma transaction_count_bound: "unat (n :: u32) \<le> 4294967295"
  using unat_u32_less [of n] by linarith

lemma search_blocks_found:
  "search_blocks sha ed c P statement activation i blocks s = Inr (Inl e) \<Longrightarrow> entry_test P e"
proof (induction blocks arbitrary: i s)
  case (Cons block blocks)
  from Cons.prems obtain b x where x: "stn_block_decode sha (Some block) = Inr b"
      "search_txs sha ed c P (statement i) (bh_height (blk_header b) < activation) block
        (bh_height (blk_header b)) (unat (bh_transaction_count (blk_header b))) 0 (the (blk_body b)) s = Inr x"
    by (auto split: sum.splits)
  show ?case
  proof (cases x)
    case (Inl f)
    with x Cons.prems have "f = e" by simp
    with search_txs_found [OF x(2) [unfolded Inl]] transaction_count_bound show ?thesis by simp
  next
    case (Inr s')
    with x Cons.prems Cons.IH show ?thesis by simp
  qed
qed simp

lemma record_search_found:
  assumes "record_search sha ed al c blocks P = Inr (Some e)"
  shows "entry_test P e"
  using assms search_blocks_found
  by (auto simp: record_search_def split: if_splits sum.splits prod.splits)

text \<open>The order of positions, and the distance to the last position there is.\<close>

definition after_cursor :: "stn_chain_cursor \<Rightarrow> stn_chain_cursor \<Rightarrow> bool" where
  "after_cursor p q \<longleftrightarrow> cur_height p < cur_height q \<or> (cur_height p = cur_height q \<and> cur_position p < cur_position q)"

definition cursor_rank :: "stn_chain_cursor \<Rightarrow> nat" where
  "cursor_rank p = unat (cur_height p) * 4294967296 + unat (cur_position p)"

lemma position_bound: "unat (cur_position p) < 4294967296"
  using unsigned_less [of "cur_position p"] by simp

lemma cursor_rank_bound: "cursor_rank p < 18446744073709551616 * 4294967296"
  using digit_less [of "unat (cur_height p)" 18446744073709551616 "unat (cur_position p)" 4294967296 0]
    unsigned_less [of "cur_height p"] position_bound [of p] by (simp add: cursor_rank_def)

lemma after_cursor_rank: "after_cursor p q \<longleftrightarrow> cursor_rank p < cursor_rank q"
proof -
  have eq: "cur_height p = cur_height q \<longleftrightarrow> unat (cur_height p) = unat (cur_height q)" by (simp add: word_unat_eq_iff)
  consider "unat (cur_height p) < unat (cur_height q)" | "unat (cur_height q) < unat (cur_height p)"
    | "unat (cur_height p) = unat (cur_height q)" by linarith
  then show ?thesis
  proof cases
    case 1
    with digit_less [OF 1 position_bound [of p], of "unat (cur_position q)"] show ?thesis
      by (simp add: after_cursor_def cursor_rank_def word_less_nat_alt)
  next
    case 2
    with digit_less [OF 2 position_bound [of q], of "unat (cur_position p)"] eq show ?thesis
      by (auto simp: after_cursor_def cursor_rank_def word_less_nat_alt)
  next
    case 3
    with eq show ?thesis by (simp add: after_cursor_def cursor_rank_def word_less_nat_alt)
  qed
qed

lemma next_record_after:
  assumes "stn_chain_next_record sha ed al al' c blocks (Some p) = (r, Some (m, q))"
  shows "after_cursor p q" "r = STN_NEXT_RECORD"
proof -
  from assms have "r = STN_NEXT_RECORD \<and> record_search sha ed al' c blocks (wanted None (Some p)) = Inr (Some (m, q))"
    by (auto simp: stn_chain_next_record_def split: stn_cursor_result.splits sum.splits option.splits if_splits)
  with record_search_found [of sha ed al' c blocks "wanted None (Some p)" "(m, q)"]
  show "after_cursor p q" "r = STN_NEXT_RECORD"
    by (auto simp: entry_test_def wanted_def after_cursor_def word_less_nat_alt)
qed

section \<open>The eligible publications\<close>

text \<open>
  The reference: all eligible publications of a history in chain order, from the same steps, each taken
  with the test that wants nothing; None stands for an error.
\<close>

definition never :: "bytes \<Rightarrow> u64 \<Rightarrow> nat \<Rightarrow> bool" where "never ident height j \<longleftrightarrow> False"
definition always :: "bytes \<Rightarrow> u64 \<Rightarrow> nat \<Rightarrow> bool" where "always ident height j \<longleftrightarrow> True"

fun eligible_txs ::
  "stn_hash_fn \<Rightarrow> ed25519 \<Rightarrow> stn_chain_context \<Rightarrow> (nat \<Rightarrow> bool) \<Rightarrow> bool \<Rightarrow> bytes \<Rightarrow> u64 \<Rightarrow> nat \<Rightarrow> nat \<Rightarrow> bytes \<Rightarrow>
   search_state \<Rightarrow> (entry list \<times> search_state) option" where
  "eligible_txs sha ed c statement inactive block height 0 j rest s = Some ([], s)"
| "eligible_txs sha ed c statement inactive block height (Suc n) j rest s =
     (let t = fst (front_span rest)
      in case (search_tx sha ed c always (statement j) inactive block height j t s,
               search_tx sha ed c never (statement j) inactive block height j t s) of
           (Inr found, Inr (Inr s')) \<Rightarrow>
             map_option (map_prod (\<lambda>es. (case found of Inl e \<Rightarrow> e # es | Inr _ \<Rightarrow> es)) id)
               (eligible_txs sha ed c statement inactive block height n (j + 1) (snd (front_span rest)) s')
         | _ \<Rightarrow> None)"

fun eligible_blocks ::
  "stn_hash_fn \<Rightarrow> ed25519 \<Rightarrow> stn_chain_context \<Rightarrow> (nat \<Rightarrow> nat \<Rightarrow> bool) \<Rightarrow> u64 \<Rightarrow> nat \<Rightarrow> bytes list \<Rightarrow> search_state \<Rightarrow>
   entry list option" where
  "eligible_blocks sha ed c statement activation i [] s = Some []"
| "eligible_blocks sha ed c statement activation i (block # blocks) s =
     (case stn_block_decode sha (Some block) of
        Inl _ \<Rightarrow> None
      | Inr b \<Rightarrow>
          (case eligible_txs sha ed c (statement i) (bh_height (blk_header b) < activation) block
                  (bh_height (blk_header b)) (unat (bh_transaction_count (blk_header b))) 0 (the (blk_body b)) s of
             None \<Rightarrow> None
           | Some (es, s') \<Rightarrow> map_option ((@) es) (eligible_blocks sha ed c statement activation (i + 1) blocks s')))"

text \<open>One step with any test, from the two extreme ones.\<close>

lemma search_tx_cases:
  assumes "search_tx sha ed c always st inactive block height j t s = Inr found"
    "search_tx sha ed c never st inactive block height j t s = Inr (Inr s')" "j < 4294967296"
  shows "search_tx sha ed c P st inactive block height j t s =
    (case found of Inl e \<Rightarrow> if entry_test P e then Inr (Inl e) else Inr (Inr s') | Inr _ \<Rightarrow> Inr (Inr s'))"
proof -
  have j: "unat (word_of_nat j :: u32) = j" using assms(3) by (simp add: unat_of_nat take_bit_nat_eq_self)
  obtain tx where tx: "stn_transaction_decode sha (Some t) = Inr tx"
    using assms(1) by (auto simp: search_tx_def split: sum.splits)
  let ?e = "if txn_type tx = STN_TX_PUBLICATION then publication_eligible ed st c s tx else Inr None"
  obtain o' where e: "?e = Inr o'" using assms(1) tx by (cases ?e) (simp_all add: search_tx_def)
  show ?thesis
  proof (cases o')
    case None
    with assms(1,2) tx e show ?thesis by (cases found) (simp_all add: search_tx_def)
  next
    case (Some ident)
    obtain bid where bid: "stn_chain_block_id sha (Some block) (cx_hash_provider c) = Inr bid"
      using assms(1) tx e Some by (auto simp: search_tx_def always_def split: sum.splits)
    with assms(1) tx e Some have found: "found = Inl (\<lparr>mt_found = True, mt_record_id = ident, mt_height = height,
        mt_block_id = bid, mt_transaction = t\<rparr>,
        \<lparr>cur_version = 1, cur_height = height, cur_block_id = bid, cur_position = word_of_nat j\<rparr>)"
      by (simp add: search_tx_def always_def)
    with assms(2) tx e Some bid j show ?thesis by (simp add: search_tx_def never_def entry_test_def)
  qed
qed

lemma search_txs_eligible:
  assumes "eligible_txs sha ed c statement inactive block height n j rest s = Some (es, s')" "j + n \<le> 4294967295"
  shows "search_txs sha ed c P statement inactive block height n j rest s =
    (case find (entry_test P) es of None \<Rightarrow> Inr (Inr s') | Some e \<Rightarrow> Inr (Inl e))"
  using assms
proof (induction n arbitrary: j rest s es)
  case 0
  then show ?case by simp
next
  case (Suc n)
  let ?t = "fst (front_span rest)"
  have j: "j < 4294967296" using Suc.prems(2) by simp
  obtain found s1 where t: "search_tx sha ed c always (statement j) inactive block height j ?t s = Inr found"
      "search_tx sha ed c never (statement j) inactive block height j ?t s = Inr (Inr s1)"
    using Suc.prems(1) by (auto simp: Let_def split: sum.splits)
  then obtain es1 where es1: "eligible_txs sha ed c statement inactive block height n (j + 1) (snd (front_span rest)) s1 =
      Some (es1, s')" "es = (case found of Inl e \<Rightarrow> e # es1 | Inr _ \<Rightarrow> es1)"
    using Suc.prems(1) by (auto simp: Let_def)
  have IH: "search_txs sha ed c P statement inactive block height n (j + 1) (snd (front_span rest)) s1 =
      (case find (entry_test P) es1 of None \<Rightarrow> Inr (Inr s') | Some e \<Rightarrow> Inr (Inl e))"
    by (rule Suc.IH [OF es1(1)]) (use Suc.prems(2) in simp)
  show ?case
  proof (cases found)
    case (Inl e)
    with search_tx_cases [OF t j, of P] IH es1(2) show ?thesis by simp
  next
    case (Inr u)
    with search_tx_cases [OF t j, of P] IH es1(2) show ?thesis by simp
  qed
qed

lemma find_append: "find P (xs @ ys) = (case find P xs of None \<Rightarrow> find P ys | Some x \<Rightarrow> Some x)"
  by (induction xs) simp_all

lemma search_blocks_eligible:
  assumes "eligible_blocks sha ed c statement activation i blocks s = Some es"
  shows "\<exists>s'. search_blocks sha ed c P statement activation i blocks s =
    (case find (entry_test P) es of None \<Rightarrow> Inr (Inr s') | Some e \<Rightarrow> Inr (Inl e))"
  using assms
proof (induction blocks arbitrary: i s es)
  case Nil
  then show ?case by simp
next
  case (Cons block blocks)
  from Cons.prems obtain b es1 s1 es2 where b: "stn_block_decode sha (Some block) = Inr b"
      "eligible_txs sha ed c (statement i) (bh_height (blk_header b) < activation) block
         (bh_height (blk_header b)) (unat (bh_transaction_count (blk_header b))) 0 (the (blk_body b)) s = Some (es1, s1)"
      "eligible_blocks sha ed c statement activation (i + 1) blocks s1 = Some es2" "es = es1 @ es2"
    by (auto split: sum.splits option.splits)
  have "search_txs sha ed c P (statement i) (bh_height (blk_header b) < activation) block
         (bh_height (blk_header b)) (unat (bh_transaction_count (blk_header b))) 0 (the (blk_body b)) s =
      (case find (entry_test P) es1 of None \<Rightarrow> Inr (Inr s1) | Some e \<Rightarrow> Inr (Inl e))"
    by (rule search_txs_eligible [OF b(2)]) (use transaction_count_bound in simp)
  moreover from Cons.IH [OF b(3)] obtain s' where "search_blocks sha ed c P statement activation (i + 1) blocks s1 =
      (case find (entry_test P) es2 of None \<Rightarrow> Inr (Inr s') | Some e \<Rightarrow> Inr (Inl e))" by blast
  ultimately show ?case using b(1,4) by (auto simp: find_append split: option.split)
qed

section \<open>Positions\<close>

definition entry_before :: "entry \<Rightarrow> entry \<Rightarrow> bool" where
  "entry_before a b \<longleftrightarrow> after_cursor (snd a) (snd b)"

lemma eligible_txs_positions:
  assumes "eligible_txs sha ed c statement inactive block height n j rest s = Some (es, s')" "j + n \<le> 4294967295"
  shows "(\<forall>e \<in> set es. cur_height (snd e) = height \<and> j \<le> unat (cur_position (snd e)) \<and>
      unat (cur_position (snd e)) < j + n \<and> cur_version (snd e) = 1 \<and>
      stn_chain_block_id sha (Some block) (cx_hash_provider c) = Inr (cur_block_id (snd e))) \<and>
    sorted_wrt entry_before es"
  using assms
proof (induction n arbitrary: j rest s es)
  case 0
  then show ?case by simp
next
  case (Suc n)
  let ?t = "fst (front_span rest)"
  have j: "j < 4294967296" "Suc j + n \<le> 4294967295" using Suc.prems(2) by simp_all
  obtain found s1 where t: "search_tx sha ed c always (statement j) inactive block height j ?t s = Inr found"
      "search_tx sha ed c never (statement j) inactive block height j ?t s = Inr (Inr s1)"
    using Suc.prems(1) by (auto simp: Let_def split: sum.splits)
  then obtain es1 where es1: "eligible_txs sha ed c statement inactive block height n (Suc j) (snd (front_span rest)) s1 =
      Some (es1, s')" "es = (case found of Inl e \<Rightarrow> e # es1 | Inr _ \<Rightarrow> es1)"
    using Suc.prems(1) by (auto simp: Let_def)
  note IH = Suc.IH [OF es1(1) j(2)]
  show ?case
  proof (cases found)
    case (Inl e)
    note e = search_tx_found [OF t(1) [unfolded Inl] j(1)]
    have "entry_before e f" if "f \<in> set es1" for f
      using IH that e(2,3) by (auto simp: entry_before_def after_cursor_def word_less_nat_alt)
    with IH e es1(2) Inl show ?thesis by auto
  next
    case (Inr u)
    with IH es1(2) show ?thesis by auto
  qed
qed

definition heights_from :: "stn_hash_fn \<Rightarrow> nat \<Rightarrow> bytes list \<Rightarrow> bool" where
  "heights_from sha i blocks \<longleftrightarrow>
     (\<forall>k < length blocks. unat (bh_height (header_of sha (blocks ! k))) = i + k)"

lemma heights_from_Cons:
  "heights_from sha i (b # bs) \<longleftrightarrow> unat (bh_height (header_of sha b)) = i \<and> heights_from sha (Suc i) bs"
proof -
  have "(\<forall>k < Suc n. P k) \<longleftrightarrow> P 0 \<and> (\<forall>k < n. P (Suc k))" for n and P :: "nat \<Rightarrow> bool"
    by (metis All_less_Suc2)
  from this [of "length bs"] show ?thesis by (simp add: heights_from_def)
qed

text \<open>The position of a transaction in a block of the history.\<close>

definition located :: "stn_hash_fn \<Rightarrow> stn_chain_context \<Rightarrow> bytes list \<Rightarrow> stn_chain_cursor \<Rightarrow> bool" where
  "located sha c blocks p \<longleftrightarrow> cur_version p = 1 \<and>
     (\<exists>b \<in> set blocks. bh_height (header_of sha b) = cur_height p \<and>
       stn_chain_block_id sha (Some b) (cx_hash_provider c) = Inr (cur_block_id p) \<and>
       cur_position p < bh_transaction_count (header_of sha b))"

lemma eligible_blocks_positions:
  assumes "eligible_blocks sha ed c statement activation i blocks s = Some es" "heights_from sha m blocks"
  shows "(\<forall>e \<in> set es. located sha c blocks (snd e) \<and> m \<le> unat (cur_height (snd e))) \<and> sorted_wrt entry_before es"
  using assms
proof (induction blocks arbitrary: i s es m)
  case Nil
  then show ?case by simp
next
  case (Cons block blocks)
  from Cons.prems(1) obtain b es1 s1 es2 where b: "stn_block_decode sha (Some block) = Inr b"
      "eligible_txs sha ed c (statement i) (bh_height (blk_header b) < activation) block
         (bh_height (blk_header b)) (unat (bh_transaction_count (blk_header b))) 0 (the (blk_body b)) s = Some (es1, s1)"
      "eligible_blocks sha ed c statement activation (i + 1) blocks s1 = Some es2" "es = es1 @ es2"
    by (auto split: sum.splits option.splits)
  have h: "header_of sha block = blk_header b" "unat (bh_height (blk_header b)) = m" "heights_from sha (Suc m) blocks"
    using Cons.prems(2) b(1) by (simp_all add: heights_from_Cons)
  have bound: "0 + unat (bh_transaction_count (blk_header b)) \<le> 4294967295" using transaction_count_bound by simp
  note here = eligible_txs_positions [OF b(2) bound] and rest = Cons.IH [OF b(3) h(3)]
  have "entry_before e f" if "e \<in> set es1" "f \<in> set es2" for e f
  proof -
    have "unat (cur_height (snd e)) < unat (cur_height (snd f))" using here rest that h(2) by fastforce
    then show ?thesis by (simp add: entry_before_def after_cursor_def word_less_nat_alt)
  qed
  moreover have "located sha c (block # blocks) (snd e) \<and> m \<le> unat (cur_height (snd e))" if "e \<in> set es1" for e
    using here that h by (auto simp: located_def word_less_nat_alt)
  moreover have "located sha c (block # blocks) (snd e) \<and> m \<le> unat (cur_height (snd e))" if "e \<in> set es2" for e
    using rest that by (auto simp: located_def)
  ultimately show ?case using here rest b(4) by (auto simp: sorted_wrt_append)
qed

section \<open>Valid cursors\<close>

text \<open>The first loop as a run of accepted blocks.\<close>

lemma candidate_accepted_some:
  assumes "stn_chain_validate_candidate sha ed alloc c s (Some b) = (r, out)" "rp_acceptance r = STN_ACCEPTANCE_UNDER_CONTEXT"
  obtains t where "out = Some t" "validate_candidate sha ed alloc c s None (Some b) False = (r, Some t)"
  using assms candidate_refused [of sha ed alloc c s None "Some b" False r]
  by (cases out) (auto simp: stn_chain_validate_candidate_def)

lemma revalidate_step:
  assumes "revalidate_loop sha ed alloc c i (b # bs) s = Inr u"
  obtains r t where "validate_candidate sha ed (alloc i) c s None (Some b) False = (r, Some t)"
    "stn_chain_validate_candidate sha ed (alloc i) c s (Some b) = (r, Some t)"
    "rp_acceptance r = STN_ACCEPTANCE_UNDER_CONTEXT" "revalidate_loop sha ed alloc c (i + 1) bs t = Inr u"
proof -
  obtain r out where r: "stn_chain_validate_candidate sha ed (alloc i) c s (Some b) = (r, out)" by force
  have acc: "rp_acceptance r = STN_ACCEPTANCE_UNDER_CONTEXT"
    by (rule ccontr) (use assms r in \<open>simp split: if_splits\<close>)
  obtain t where t: "out = Some t" "validate_candidate sha ed (alloc i) c s None (Some b) False = (r, Some t)"
    by (rule candidate_accepted_some [OF r acc])
  from assms r acc t(1) have "revalidate_loop sha ed alloc c (i + 1) bs t = Inr u" by simp
  with t r acc show ?thesis by (intro that) simp_all
qed

lemma revalidate_run:
  assumes "revalidate_loop sha ed alloc c i blocks s = Inr u" "chain_run sha ed c before s"
  shows "chain_run sha ed c (before @ blocks) u"
  using assms
proof (induction blocks arbitrary: i s before)
  case Nil
  then show ?case by simp
next
  case (Cons b bs)
  from revalidate_step [OF Cons.prems(1)] obtain r t where
      t: "validate_candidate sha ed (alloc i) c s None (Some b) False = (r, Some t)"
      "revalidate_loop sha ed alloc c (i + 1) bs t = Inr u" by blast
  from run_block [OF Cons.prems(2) t(1)] have "chain_run sha ed c (before @ [b]) t" by simp
  from Cons.IH [OF t(2) this] show ?case by simp
qed

lemma run_heights:
  assumes "chain_run sha ed c blocks s"
  shows "heights_from sha 0 blocks"
  using chain_run_linked [OF assms] by (auto simp: heights_from_def linked_at_def linked_def)

lemma cursor_loop_passes:
  assumes "revalidate_loop sha ed alloc c i blocks s = Inr u" "\<forall>b \<in> set blocks. \<exists>d. stn_block_decode sha (Some b) = Inr d"
    "\<forall>b \<in> set blocks. bh_height (header_of sha b) \<noteq> cur_height p"
  shows "cursor_loop sha ed alloc c p i blocks s result = result"
  using assms
proof (induction blocks arbitrary: i s)
  case Nil
  then show ?case by simp
next
  case (Cons b bs)
  from revalidate_step [OF Cons.prems(1)] obtain r t where
      t: "stn_chain_validate_candidate sha ed (alloc i) c s (Some b) = (r, Some t)"
      "rp_acceptance r = STN_ACCEPTANCE_UNDER_CONTEXT" "revalidate_loop sha ed alloc c (i + 1) bs t = Inr u" by blast
  obtain d where d: "stn_block_decode sha (Some b) = Inr d" using Cons.prems(2) by auto
  with Cons.prems(3) have "bh_height (blk_header d) \<noteq> cur_height p" by auto
  with t d Cons.IH [OF t(3)] Cons.prems(2,3) show ?case by (simp add: Let_def)
qed

lemma cursor_loop_located:
  assumes "revalidate_loop sha ed alloc c i blocks s = Inr u" "\<forall>b \<in> set blocks. \<exists>d. stn_block_decode sha (Some b) = Inr d"
    "heights_from sha m blocks" "located sha c blocks p"
  shows "cursor_loop sha ed alloc c p i blocks s result = STN_CURSOR_VALID"
  using assms
proof (induction blocks arbitrary: i s m result)
  case Nil
  then show ?case by (simp add: located_def)
next
  case (Cons b bs)
  from revalidate_step [OF Cons.prems(1)] obtain r t where
      t: "stn_chain_validate_candidate sha ed (alloc i) c s (Some b) = (r, Some t)"
      "rp_acceptance r = STN_ACCEPTANCE_UNDER_CONTEXT" "revalidate_loop sha ed alloc c (i + 1) bs t = Inr u" by blast
  obtain d where d: "stn_block_decode sha (Some b) = Inr d" using Cons.prems(2) by auto
  have h: "unat (bh_height (blk_header d)) = m" "heights_from sha (Suc m) bs"
    using Cons.prems(3) d by (simp_all add: heights_from_Cons)
  have later: "m < unat (bh_height (header_of sha x))" if "x \<in> set bs" for x
    using h(2) that by (auto simp: heights_from_def in_set_conv_nth)
  show ?case
  proof (cases "bh_height (blk_header d) = cur_height p")
    case True
    then have other: "\<forall>x \<in> set bs. bh_height (header_of sha x) \<noteq> cur_height p" using later h(1) by fastforce
    with Cons.prems(4) d True have here: "stn_chain_block_id sha (Some b) (cx_hash_provider c) = Inr (cur_block_id p)"
        "cur_position p < bh_transaction_count (blk_header d)" by (auto simp: located_def)
    from cursor_loop_passes [OF t(3) _ other] Cons.prems(2) t d True here show ?thesis by (simp add: Let_def)
  next
    case False
    with Cons.prems(4) d have "located sha c bs p" by (auto simp: located_def)
    with t d False Cons.IH [OF t(3) _ h(2)] Cons.prems(2) show ?thesis by (simp add: Let_def)
  qed
qed

section \<open>The eligible records of a history\<close>

text \<open>
  The reference of the queries: every eligible publication of a history that is revalidated, in chain
  order, when the scratch memory is there. None stands for an error of the search.
\<close>

definition eligible_records ::
  "stn_hash_fn \<Rightarrow> ed25519 \<Rightarrow> search_alloc \<Rightarrow> stn_chain_context \<Rightarrow> bytes list \<Rightarrow> entry list option" where
  "eligible_records sha ed al c blocks =
     (if cx_pow_policy c = None \<or> blocks = [] then None
      else
        (case stn_chain_initialize sha (qa_init al) c of
           Inl _ \<Rightarrow> None
         | Inr state \<Rightarrow>
             (case revalidate_loop sha ed (qa_block al) c 0 blocks state of
                Inl _ \<Rightarrow> None
              | Inr current \<Rightarrow>
                  (case count_loop sha blocks 0 0 of
                     Inl _ \<Rightarrow> None
                   | Inr (amount, grants) \<Rightarrow>
                       if grants > SIZE_MAX div 194 \<or> amount > SIZE_MAX div (2 * 64) \<or>
                         grants * 194 > SIZE_MAX - 2 * (amount * 64) \<or> \<not> qa_memory al then None
                       else eligible_blocks sha ed c (qa_statement al) (cs_activation current) 0 blocks
                         (search_start c grants amount)))))"

lemma eligible_records_cases:
  assumes "eligible_records sha ed al c blocks = Some es"
  obtains state current amount grants where "cx_pow_policy c \<noteq> None" "blocks \<noteq> []"
    "stn_chain_initialize sha (qa_init al) c = Inr state"
    "revalidate_loop sha ed (qa_block al) c 0 blocks state = Inr current"
    "count_loop sha blocks 0 0 = Inr (amount, grants)"
    "\<not> (grants > SIZE_MAX div 194 \<or> amount > SIZE_MAX div (2 * 64))" "\<not> grants * 194 > SIZE_MAX - 2 * (amount * 64)"
    "qa_memory al"
    "eligible_blocks sha ed c (qa_statement al) (cs_activation current) 0 blocks (search_start c grants amount) = Some es"
  using assms unfolding eligible_records_def
  by (auto simp del: SIZE_MAX_def split: if_splits sum.splits prod.splits)

text \<open>Every search is the first entry of the reference that passes its test.\<close>

lemma record_search_eligible:
  assumes "eligible_records sha ed al c blocks = Some es"
  shows "record_search sha ed al c (Some blocks) P = Inr (find (entry_test P) es)"
proof -
  from assms obtain state current amount grants where e: "cx_pow_policy c \<noteq> None" "blocks \<noteq> []"
    "stn_chain_initialize sha (qa_init al) c = Inr state"
    "revalidate_loop sha ed (qa_block al) c 0 blocks state = Inr current"
    "count_loop sha blocks 0 0 = Inr (amount, grants)"
    "\<not> (grants > SIZE_MAX div 194 \<or> amount > SIZE_MAX div (2 * 64))" "\<not> grants * 194 > SIZE_MAX - 2 * (amount * 64)"
    "qa_memory al" and
    es: "eligible_blocks sha ed c (qa_statement al) (cs_activation current) 0 blocks (search_start c grants amount) = Some es"
    by (rule eligible_records_cases)
  from search_blocks_eligible [OF es, of P] obtain s' where
    "search_blocks sha ed c P (qa_statement al) (cs_activation current) 0 blocks (search_start c grants amount) =
      (case find (entry_test P) es of None \<Rightarrow> Inr (Inr s') | Some e \<Rightarrow> Inr (Inl e))" by blast
  with e show ?thesis by (cases "find (entry_test P) es") (simp_all add: record_search_def del: SIZE_MAX_def)
qed

lemma eligible_blocks_decode:
  "eligible_blocks sha ed c statement activation i blocks s = Some es \<Longrightarrow>
    \<forall>b \<in> set blocks. \<exists>d. stn_block_decode sha (Some b) = Inr d"
proof (induction blocks arbitrary: i s es)
  case (Cons block blocks)
  from Cons.prems obtain b s1 es2 where b: "stn_block_decode sha (Some block) = Inr b"
      "eligible_blocks sha ed c statement activation (i + 1) blocks s1 = Some es2"
    by (auto split: sum.splits option.splits)
  from b(1) Cons.IH [OF b(2)] show ?case by simp
qed simp

lemma eligible_records_positions:
  assumes "eligible_records sha ed al c blocks = Some es"
  shows "\<forall>e \<in> set es. located sha c blocks (snd e)" "sorted_wrt entry_before es" "heights_from sha 0 blocks"
proof -
  from assms obtain state current amount grants where
    e: "stn_chain_initialize sha (qa_init al) c = Inr state"
    "revalidate_loop sha ed (qa_block al) c 0 blocks state = Inr current" and
    es: "eligible_blocks sha ed c (qa_statement al) (cs_activation current) 0 blocks (search_start c grants amount) = Some es"
    by (rule eligible_records_cases)
  from revalidate_run [OF e(2) run_start [OF e(1)]] have "chain_run sha ed c blocks current" by simp
  then show h: "heights_from sha 0 blocks" by (rule run_heights)
  from eligible_blocks_positions [OF es h] show "\<forall>e \<in> set es. located sha c blocks (snd e)" "sorted_wrt entry_before es"
    by simp_all
qed

text \<open>A position of the history is a valid cursor.\<close>

lemma cursor_valid:
  assumes "eligible_records sha ed al c blocks = Some es" "located sha c blocks p"
  shows "stn_chain_cursor_validate sha ed al c (Some blocks) (Some p) = STN_CURSOR_VALID"
proof -
  from assms(1) obtain state current amount grants where
    e: "cx_pow_policy c \<noteq> None" "blocks \<noteq> []" "stn_chain_initialize sha (qa_init al) c = Inr state"
    "revalidate_loop sha ed (qa_block al) c 0 blocks state = Inr current" and
    es: "eligible_blocks sha ed c (qa_statement al) (cs_activation current) 0 blocks (search_start c grants amount) = Some es"
    by (rule eligible_records_cases)
  from cursor_loop_located [OF e(4) eligible_blocks_decode [OF es] eligible_records_positions(3) [OF assms(1)] assms(2)]
  show ?thesis using e(1-3) assms(2) by (simp add: stn_chain_cursor_validate_def located_def)
qed

section \<open>Traversal\<close>

lemma wanted_after: "entry_test (wanted None (Some p)) e \<longleftrightarrow> after_cursor p (snd e)"
  by (auto simp: entry_test_def wanted_def after_cursor_def word_less_nat_alt)

lemma wanted_first: "entry_test (wanted None None) e"
  by (simp add: entry_test_def wanted_def)

lemma wanted_key: "entry_test (wanted (Some key) None) e \<longleftrightarrow> mt_record_id (fst e) = key"
  by (auto simp: entry_test_def wanted_def)

lemma after_cursor_not: "after_cursor p q \<Longrightarrow> \<not> after_cursor q p"
  by (simp add: after_cursor_rank)

text \<open>In a sorted list, the first entry after an entry is its neighbour.\<close>

lemma find_next:
  assumes "sorted_wrt entry_before es" "i < length es"
  shows "find (\<lambda>e. after_cursor (snd (es ! i)) (snd e)) es = (if Suc i < length es then Some (es ! Suc i) else None)"
proof -
  have before: "\<not> after_cursor (snd (es ! i)) (snd (es ! k))" if "k \<le> i" for k
  proof (cases "k = i")
    case False
    with that have "k < i" by simp
    from sorted_wrt_nth_less [OF assms(1) this assms(2)] show ?thesis
      by (simp add: entry_before_def after_cursor_not)
  qed (simp add: after_cursor_def)
  show ?thesis
  proof (cases "Suc i < length es")
    case True
    with sorted_wrt_nth_less [OF assms(1), of i "Suc i"] before show ?thesis
      by (auto simp: find_Some_iff entry_before_def less_Suc_eq_le intro!: exI [of _ "Suc i"])
  next
    case False
    then have "k \<le> i" if "k < length es" for k using that assms(2) by linarith
    with before have "\<not> after_cursor (snd (es ! i)) (snd e)" if "e \<in> set es" for e
      using that by (metis in_set_conv_nth)
    then have "find (\<lambda>e. after_cursor (snd (es ! i)) (snd e)) es = None"
      unfolding find_None_iff by blast
    with False show ?thesis by simp
  qed
qed

lemma next_record_eligible:
  assumes "eligible_records sha ed al c blocks = Some es'" "eligible_records sha ed al' c blocks = Some es" "i < length es"
  shows "stn_chain_next_record sha ed al al' c (Some blocks) (Some (snd (es ! i))) =
    (if Suc i < length es then (STN_NEXT_RECORD, Some (es ! Suc i)) else (STN_NEXT_END, None))"
proof -
  have "located sha c blocks (snd (es ! i))" using eligible_records_positions(1) [OF assms(2)] assms(3) by simp
  with cursor_valid [OF assms(1)] record_search_eligible [OF assms(2)]
    find_next [OF eligible_records_positions(2) [OF assms(2)] assms(3)]
  show ?thesis by (simp add: stn_chain_next_record_def wanted_after [abs_def])
qed

lemma first_record_eligible:
  assumes "eligible_records sha ed al c blocks = Some es"
  shows "stn_chain_first_record sha ed al c (Some blocks) =
    (case es of [] \<Rightarrow> (STN_FIRST_END, None) | e # _ \<Rightarrow> (STN_FIRST_RECORD, Some e))"
  using record_search_eligible [OF assms]
  by (cases es) (simp_all add: stn_chain_first_record_def wanted_first)

lemma lookup_record_eligible:
  assumes "eligible_records sha ed al c blocks = Some es"
  shows "stn_chain_lookup_record sha ed al c (Some blocks) (Some key) =
    Inr (case find (\<lambda>e. mt_record_id (fst e) = key) es of None \<Rightarrow> no_match | Some e \<Rightarrow> fst e)"
  using record_search_eligible [OF assms]
  by (auto simp: stn_chain_lookup_record_def wanted_key [abs_def] split: option.splits)

end
