(* ===== verification/Stn_Recovery.thy ===== *)
theory Stn_Recovery
  imports Stn_Fork Stn_Query_Correct
begin

text \<open>
  The recovery of a consumer whose cursor was left behind by a reorganization, the second part of
  \<^verbatim>\<open>src/src/stn_fork.c\<close>: the common ancestor of the current history and the one the consumer
  followed, and the last eligible record at or below it, found by walking the records from the first.
  The walk is total because each record lies strictly after the one before.
\<close>

section \<open>The common ancestor\<close>

datatype stn_cursor_reorg_result =
    STN_CURSOR_REORG_CURRENT | STN_CURSOR_REORG_COMMON_ANCESTOR | STN_CURSOR_REORG_NO_COMMON_ANCESTOR
  | STN_CURSOR_REORG_MALFORMED | STN_CURSOR_REORG_UNAVAILABLE | STN_CURSOR_REORG_PROVIDER

record stn_cursor_ancestor =
  an_height :: u64
  an_block_id :: bytes

text \<open>The allocations of one resolution: the two cursor checks and the fork evaluation.\<close>

record resolve_alloc =
  ra_current :: search_alloc
  ra_retained :: search_alloc
  ra_fork :: "nat \<Rightarrow> history_alloc"

definition stn_chain_resolve_cursor_reorg ::
  "stn_hash_fn \<Rightarrow> ed25519 \<Rightarrow> resolve_alloc \<Rightarrow> stn_chain_context \<Rightarrow> bytes list option \<Rightarrow> bytes list option \<Rightarrow>
   stn_chain_cursor option \<Rightarrow> stn_cursor_reorg_result \<times> stn_cursor_ancestor option" where
  "stn_chain_resolve_cursor_reorg sha ed al c current retained cursor =
     (case stn_chain_cursor_validate sha ed (ra_current al) c current cursor of
        STN_CURSOR_MALFORMED \<Rightarrow> (STN_CURSOR_REORG_MALFORMED, None)
      | STN_CURSOR_UNAVAILABLE \<Rightarrow> (STN_CURSOR_REORG_UNAVAILABLE, None)
      | STN_CURSOR_PROVIDER \<Rightarrow> (STN_CURSOR_REORG_PROVIDER, None)
      | STN_CURSOR_VALID \<Rightarrow> (STN_CURSOR_REORG_CURRENT, None)
      | STN_CURSOR_DETACHED \<Rightarrow>
          if retained = None \<or> retained = Some [] then (STN_CURSOR_REORG_NO_COMMON_ANCESTOR, None)
          else
            (case stn_chain_cursor_validate sha ed (ra_retained al) c retained cursor of
               STN_CURSOR_PROVIDER \<Rightarrow> (STN_CURSOR_REORG_PROVIDER, None)
             | STN_CURSOR_VALID \<Rightarrow>
                 (case stn_fork_evaluate_history sha ed (ra_fork al) c current retained of
                    (report, plan) \<Rightarrow>
                      if fr_result report = STN_FORK_ERROR then (STN_CURSOR_REORG_PROVIDER, None)
                      else if fr_result report \<noteq> STN_FORK_CURRENT \<and> fr_result report \<noteq> STN_FORK_CANDIDATE \<and>
                        fr_result report \<noteq> STN_FORK_TIE then (STN_CURSOR_REORG_NO_COMMON_ANCESTOR, None)
                      else (STN_CURSOR_REORG_COMMON_ANCESTOR,
                        map_option (\<lambda>p. \<lparr>an_height = word_of_nat (pl_ancestor_index p), an_block_id = pl_ancestor_id p\<rparr>)
                          plan))
             | _ \<Rightarrow> (STN_CURSOR_REORG_NO_COMMON_ANCESTOR, None)))"

section \<open>The recovery plan\<close>

datatype stn_consumer_recovery_result =
    STN_RECOVERY_CURRENT | STN_RECOVERY_FROM_START | STN_RECOVERY_AFTER_CURSOR | STN_RECOVERY_UNAVAILABLE
  | STN_RECOVERY_MALFORMED | STN_RECOVERY_PROVIDER

record stn_consumer_recovery_plan =
  cp_rollback :: stn_cursor_ancestor
  cp_resume :: stn_chain_cursor

definition zero_cursor :: stn_chain_cursor where
  "zero_cursor = \<lparr>cur_version = 0, cur_height = 0, cur_block_id = replicate 32 0, cur_position = 0\<rparr>"

text \<open>The positions that are left after a cursor: heights have 64 bits, positions 32.\<close>

definition positions_left :: "stn_chain_cursor \<Rightarrow> nat" where
  "positions_left p = 18446744073709551616 * 4294967296 - cursor_rank p"

lemma next_record_rank:
  assumes "stn_chain_next_record sha ed al al' c current (Some p) = (r, Some (m, q))"
  shows "positions_left q < positions_left p"
  using next_record_after(1) [OF assms] cursor_rank_bound [of q] by (simp add: positions_left_def after_cursor_rank)

text \<open>
  The loop: the last position at or below \<open>limit\<close>, or an error. Step \<open>i\<close> has the allocations
  \<open>al i\<close>; \<open>resume\<close> is the position the plan has so far.
\<close>

function recovery_loop ::
  "stn_hash_fn \<Rightarrow> ed25519 \<Rightarrow> (nat \<Rightarrow> search_alloc \<times> search_alloc) \<Rightarrow> stn_chain_context \<Rightarrow> bytes list option \<Rightarrow> u64 \<Rightarrow>
   nat \<Rightarrow> stn_chain_cursor \<Rightarrow> stn_chain_cursor option \<Rightarrow> stn_consumer_recovery_result + stn_chain_cursor option" where
  "recovery_loop sha ed al c current limit i position resume =
     (if cur_height position \<le> limit then
        (case stn_chain_next_record sha ed (fst (al i)) (snd (al i)) c current (Some position) of
           (STN_NEXT_END, _) \<Rightarrow> Inr (Some position)
         | (STN_NEXT_RECORD, Some (m, q)) \<Rightarrow> recovery_loop sha ed al c current limit (i + 1) q (Some position)
         | _ \<Rightarrow> Inl STN_RECOVERY_PROVIDER)
      else Inr resume)"
  by pat_completeness auto

termination
  by (relation "measure (\<lambda>(sha, ed, al, c, current, limit, i, position, resume). positions_left position)")
    (auto intro!: next_record_rank [OF sym])

declare recovery_loop.simps [simp del]

text \<open>The allocations of one plan: the resolution, the first record, and each step of the walk.\<close>

record recovery_alloc =
  pa_resolve :: resolve_alloc
  pa_first :: search_alloc
  pa_next :: "nat \<Rightarrow> search_alloc \<times> search_alloc"

definition stn_chain_build_consumer_recovery_plan ::
  "stn_hash_fn \<Rightarrow> ed25519 \<Rightarrow> recovery_alloc \<Rightarrow> stn_chain_context \<Rightarrow> bytes list option \<Rightarrow> bytes list option \<Rightarrow>
   stn_chain_cursor option \<Rightarrow> stn_consumer_recovery_result \<times> stn_consumer_recovery_plan option" where
  "stn_chain_build_consumer_recovery_plan sha ed al c current retained cursor =
     (case stn_chain_resolve_cursor_reorg sha ed (pa_resolve al) c current retained cursor of
        (STN_CURSOR_REORG_CURRENT, _) \<Rightarrow> (STN_RECOVERY_CURRENT, None)
      | (STN_CURSOR_REORG_MALFORMED, _) \<Rightarrow> (STN_RECOVERY_MALFORMED, None)
      | (STN_CURSOR_REORG_PROVIDER, _) \<Rightarrow> (STN_RECOVERY_PROVIDER, None)
      | (STN_CURSOR_REORG_COMMON_ANCESTOR, Some rollback) \<Rightarrow>
          (case (case stn_chain_first_record sha ed (pa_first al) c current of
                   (STN_FIRST_RECORD, Some (m, position)) \<Rightarrow>
                     recovery_loop sha ed (pa_next al) c current (an_height rollback) 0 position None
                 | (STN_FIRST_END, _) \<Rightarrow> Inr None
                 | _ \<Rightarrow> Inl STN_RECOVERY_PROVIDER) of
             Inl e \<Rightarrow> (e, None)
           | Inr None \<Rightarrow> (STN_RECOVERY_FROM_START, Some \<lparr>cp_rollback = rollback, cp_resume = zero_cursor\<rparr>)
           | Inr (Some p) \<Rightarrow> (STN_RECOVERY_AFTER_CURSOR, Some \<lparr>cp_rollback = rollback, cp_resume = p\<rparr>))
      | _ \<Rightarrow> (STN_RECOVERY_UNAVAILABLE, None))"

section \<open>The resolution\<close>

lemma fork_history_ok_plan:
  assumes "stn_fork_evaluate_history sha ed al c current candidate = (r, out)" "cx_pow_policy c = Some fixed"
    "fr_result r = STN_FORK_CURRENT \<or> fr_result r = STN_FORK_CANDIDATE \<or> fr_result r = STN_FORK_TIE"
  obtains xs ys plan where "current = Some xs" "candidate = Some ys" "out = Some plan"
    "0 < shared sha (cx_hash_provider c) xs ys"
    "pl_ancestor_index plan = shared sha (cx_hash_provider c) xs ys - 1"
    "stn_chain_block_id sha (Some (xs ! (shared sha (cx_hash_provider c) xs ys - 1))) (cx_hash_provider c) =
      Inr (pl_ancestor_id plan)"
proof -
  note cases = fork_evaluate_cases [OF assms(2), of sha ed al current candidate, unfolded assms(1) prod.case]
  obtain plan where plan: "out = Some plan" using cases assms(3) by (cases out) auto
  from cases [unfolded plan option.case] that [OF _ _ plan] show ?thesis by (auto simp: reorg_plan_def)
qed

text \<open>The common ancestor of a detached cursor, by the histories it was resolved against.\<close>

definition common_ancestor ::
  "stn_hash_fn \<Rightarrow> stn_chain_context \<Rightarrow> bytes list \<Rightarrow> bytes list \<Rightarrow> stn_cursor_ancestor \<Rightarrow> bool" where
  "common_ancestor sha c xs ys a \<longleftrightarrow>
     (let k = shared sha (cx_hash_provider c) xs ys
      in 0 < k \<and> an_height a = word_of_nat (k - 1) \<and>
        stn_chain_block_id sha (Some (xs ! (k - 1))) (cx_hash_provider c) = Inr (an_block_id a))"

lemma resolve_cases:
  assumes "stn_chain_resolve_cursor_reorg sha ed al c current retained cursor = (r, out)"
  shows "case out of
      None \<Rightarrow> r \<noteq> STN_CURSOR_REORG_COMMON_ANCESTOR
    | Some a \<Rightarrow> r = STN_CURSOR_REORG_COMMON_ANCESTOR \<and>
        stn_chain_cursor_validate sha ed (ra_current al) c current cursor = STN_CURSOR_DETACHED \<and>
        stn_chain_cursor_validate sha ed (ra_retained al) c retained cursor = STN_CURSOR_VALID \<and>
        (\<exists>xs ys. current = Some xs \<and> retained = Some ys \<and> common_ancestor sha c xs ys a)"
proof -
  let ?v = "stn_chain_cursor_validate sha ed (ra_current al) c current cursor"
  let ?w = "stn_chain_cursor_validate sha ed (ra_retained al) c retained cursor"
  obtain report plan where f: "stn_fork_evaluate_history sha ed (ra_fork al) c current retained = (report, plan)"
    by force
  let ?good = "fr_result report = STN_FORK_CURRENT \<or> fr_result report = STN_FORK_CANDIDATE \<or>
    fr_result report = STN_FORK_TIE"
  show ?thesis
  proof (cases "?v = STN_CURSOR_DETACHED \<and> retained \<noteq> None \<and> retained \<noteq> Some [] \<and> ?w = STN_CURSOR_VALID \<and> ?good")
    case True
    then obtain fixed where policy: "cx_pow_policy c = Some fixed"
      by (auto simp: stn_chain_cursor_validate_def split: option.splits if_splits)
    from True have good: ?good by blast
    obtain xs ys p where p: "current = Some xs" "retained = Some ys" "plan = Some p"
        "0 < shared sha (cx_hash_provider c) xs ys"
        "pl_ancestor_index p = shared sha (cx_hash_provider c) xs ys - 1"
        "stn_chain_block_id sha (Some (xs ! (shared sha (cx_hash_provider c) xs ys - 1))) (cx_hash_provider c) =
          Inr (pl_ancestor_id p)"
      using fork_history_ok_plan [OF f policy good] by blast
    have "r = STN_CURSOR_REORG_COMMON_ANCESTOR"
      "out = Some \<lparr>an_height = word_of_nat (pl_ancestor_index p), an_block_id = pl_ancestor_id p\<rparr>"
      using assms True f p(3) by (auto simp: stn_chain_resolve_cursor_reorg_def)
    with True p show ?thesis by (simp add: common_ancestor_def Let_def)
  next
    case False
    with assms f have "out = None \<and> r \<noteq> STN_CURSOR_REORG_COMMON_ANCESTOR"
      by (auto simp: stn_chain_resolve_cursor_reorg_def split: stn_cursor_result.splits if_splits)
    then show ?thesis by simp
  qed
qed

section \<open>The walk\<close>

text \<open>The last eligible record at or below a height.\<close>

definition records_below :: "u64 \<Rightarrow> entry list \<Rightarrow> entry list" where
  "records_below limit es = filter (\<lambda>e. cur_height (snd e) \<le> limit) es"

lemma later_higher:
  assumes "sorted_wrt entry_before es" "i < length es" "i \<le> k" "k < length es"
  shows "cur_height (snd (es ! i)) \<le> cur_height (snd (es ! k))"
proof (cases "i = k")
  case False
  with assms(3) have "i < k" by simp
  from sorted_wrt_nth_less [OF assms(1) this assms(4)] show ?thesis
    by (auto simp: entry_before_def after_cursor_def)
qed simp

lemma records_below_drop:
  assumes "sorted_wrt entry_before es" "i < length es" "limit < cur_height (snd (es ! i))"
  shows "records_below limit (drop i es) = []"
proof -
  have "limit < cur_height (snd e)" if "e \<in> set (drop i es)" for e
  proof -
    from that obtain k where "k < length es - i" "e = es ! (i + k)" by (auto simp: in_set_conv_nth)
    with later_higher [OF assms(1,2), of "i + k"] assms(3) show ?thesis
      by (intro less_le_trans [OF assms(3)]) simp
  qed
  then show ?thesis by (auto simp: records_below_def filter_empty_conv not_le)
qed

lemma recovery_loop_eligible:
  assumes "\<And>k. \<exists>fs. eligible_records sha ed (fst (al k)) c blocks = Some fs"
    "\<And>k. eligible_records sha ed (snd (al k)) c blocks = Some es" "i < length es"
  shows "recovery_loop sha ed al c (Some blocks) limit k (snd (es ! i)) resume =
    Inr (if records_below limit (drop i es) = [] then resume
         else Some (snd (last (records_below limit (drop i es)))))"
  using assms(3)
proof (induction "length es - i" arbitrary: i k resume)
  case (Suc n)
  obtain fs where fs: "eligible_records sha ed (fst (al k)) c blocks = Some fs" using assms(1) by blast
  note sorted = eligible_records_positions(2) [OF assms(2) [of 0]]
  have drop: "drop i es = es ! i # drop (Suc i) es" by (rule Cons_nth_drop_Suc [OF Suc.prems, symmetric])
  show ?case
  proof (cases "cur_height (snd (es ! i)) \<le> limit")
    case False
    with records_below_drop [OF sorted Suc.prems] show ?thesis by (subst recovery_loop.simps) simp
  next
    case here: True
    note step = next_record_eligible [OF fs assms(2) [of k] Suc.prems]
    show ?thesis
    proof (cases "Suc i < length es")
      case True
      have "n = length es - Suc i" using Suc.hyps(2) by simp
      note IH = Suc.hyps(1) [OF this True, of "k + 1" "Some (snd (es ! i))"]
      have "recovery_loop sha ed al c (Some blocks) limit k (snd (es ! i)) resume =
          recovery_loop sha ed al c (Some blocks) limit (k + 1) (snd (es ! Suc i)) (Some (snd (es ! i)))"
        using here step True by (subst recovery_loop.simps) (simp split: prod.split)
      with IH here show ?thesis by (simp add: drop records_below_def)
    next
      case False
      with here step show ?thesis by (subst recovery_loop.simps) (simp add: drop records_below_def)
    qed
  qed
qed simp

lemma recovery_plan_eligible:
  assumes "stn_chain_resolve_cursor_reorg sha ed (pa_resolve al) c (Some blocks) retained cursor =
      (STN_CURSOR_REORG_COMMON_ANCESTOR, Some a)"
    "eligible_records sha ed (pa_first al) c blocks = Some es"
    "\<And>k. \<exists>fs. eligible_records sha ed (fst (pa_next al k)) c blocks = Some fs"
    "\<And>k. eligible_records sha ed (snd (pa_next al k)) c blocks = Some es"
  shows "stn_chain_build_consumer_recovery_plan sha ed al c (Some blocks) retained cursor =
    (if records_below (an_height a) es = []
     then (STN_RECOVERY_FROM_START, Some \<lparr>cp_rollback = a, cp_resume = zero_cursor\<rparr>)
     else (STN_RECOVERY_AFTER_CURSOR,
       Some \<lparr>cp_rollback = a, cp_resume = snd (last (records_below (an_height a) es))\<rparr>))"
proof (cases es)
  case Nil
  with first_record_eligible [OF assms(2)] assms(1) show ?thesis
    by (simp add: stn_chain_build_consumer_recovery_plan_def records_below_def)
next
  case (Cons e rest)
  have "0 < length es" using Cons by simp
  note loop = recovery_loop_eligible [where al = "pa_next al" and limit = "an_height a" and k = 0 and resume = None,
      OF assms(3,4) this]
  show ?thesis
    using first_record_eligible [OF assms(2)] assms(1) loop Cons
    by (cases e) (simp add: stn_chain_build_consumer_recovery_plan_def)
qed

end
