(* ===== verification/Stn_Query_Sample.thy ===== *)
theory Stn_Query_Sample
  imports Stn_Recovery Stn_Publication
begin

text \<open>
  A history with an eligible record: the genesis grants a publisher and holds a publication below the
  activation height, and a second block publishes the same bytes for the lifecycle.
\<close>

section \<open>The transactions\<close>

definition sample_publisher_tx :: bytes where
  "sample_publisher_tx = transaction_magic @ [0, 1, 0, 2, 0, 0, 0, 194] @ sample_publisher_grant"

definition sample_publication_tx :: bytes where
  "sample_publication_tx = transaction_magic @ [0, 1, 0, 1, 0, 0, 0, 232] @ sample_publication_bytes"

definition decoded_publisher_tx :: stn_transaction where
  "decoded_publisher_tx = \<lparr>txn_version = 1, txn_type = 2, txn_record_bytes = Some sample_publisher_grant,
     txn_record_length = 194\<rparr>"

definition decoded_publication_tx :: stn_transaction where
  "decoded_publication_tx = \<lparr>txn_version = 1, txn_type = 1, txn_record_bytes = Some sample_publication_bytes,
     txn_record_length = 232\<rparr>"

lemma sample_publication_length: "length sample_publication_bytes = 232"
  using record_decode_facts(1) [OF sample_publication_decode] by (simp add: sample_publication_record_def)

lemma sample_publisher_tx:
  "length sample_publisher_tx = 206"
  "stn_transaction_decode sha (Some sample_publisher_tx) = Inr decoded_publisher_tx" "valid_tx sha sample_publisher_tx"
proof -
  show len: "length sample_publisher_tx = 206" by (simp add: sample_publisher_tx_def sample_publisher_grant_parts)
  have fields: "ucast (stn_wire_read (drop 4 sample_publisher_tx) 2) = (1 :: u16)"
      "ucast (stn_wire_read (drop 6 sample_publisher_tx) 2) = (2 :: u16)"
      "ucast (stn_wire_read (drop 8 sample_publisher_tx) 4) = (194 :: u32)" "take 4 sample_publisher_tx = transaction_magic"
      "drop 12 sample_publisher_tx = sample_publisher_grant"
    by (simp_all add: sample_publisher_tx_def transaction_magic_def stn_wire_read_def)
  show dec: "stn_transaction_decode sha (Some sample_publisher_tx) = Inr decoded_publisher_tx"
    unfolding tx_decode_iff decoded_publisher_tx_def fields using len
    by (simp add: tx_ok_def known_type_def transaction_content_def decode_statuses sample_publisher_grant_parts
        lifecycle_size_def)
  then show "valid_tx sha sample_publisher_tx" unfolding valid_tx_def tx_structure_iff by blast
qed

lemma sample_publication_tx:
  "length sample_publication_tx = 244"
  "stn_transaction_decode sha (Some sample_publication_tx) = Inr decoded_publication_tx" "valid_tx sha sample_publication_tx"
proof -
  show len: "length sample_publication_tx = 244" by (simp add: sample_publication_tx_def sample_publication_length)
  have fields: "ucast (stn_wire_read (drop 4 sample_publication_tx) 2) = (1 :: u16)"
      "ucast (stn_wire_read (drop 6 sample_publication_tx) 2) = (1 :: u16)"
      "ucast (stn_wire_read (drop 8 sample_publication_tx) 4) = (232 :: u32)" "take 4 sample_publication_tx = transaction_magic"
      "drop 12 sample_publication_tx = sample_publication_bytes"
    by (simp_all add: sample_publication_tx_def transaction_magic_def stn_wire_read_def)
  show dec: "stn_transaction_decode sha (Some sample_publication_tx) = Inr decoded_publication_tx"
    unfolding tx_decode_iff decoded_publication_tx_def fields using len sample_publication_decode
    by (simp add: tx_ok_def known_type_def transaction_content_def decode_statuses sample_publication_length
        lifecycle_size_def del: stn_record_decode.simps)
  then show "valid_tx sha sample_publication_tx" unfolding valid_tx_def tx_structure_iff by blast
qed

section \<open>Their effects on a lifecycle state\<close>

definition sample_grant_key :: bytes where "sample_grant_key = (2 # replicate 31 0) @ replicate 32 9"
definition sample_publication_key :: bytes where "sample_publication_key = (2 # replicate 31 0) @ (7 # replicate 31 0)"

lemma sample_publisher_validates:
  "stn_authority_grant_validate sample_ed (Some sample_publisher_grant) (Some [2 # replicate 31 0]) 1 =
    Inr sample_publisher_evidence"
proof -
  have "\<exists>e. stn_authority_grant_validate sample_ed (Some sample_publisher_grant) (Some [2 # replicate 31 0]) 1 = Inr e"
    by (subst grant_validate_iff)
       (simp_all add: sample_publisher_grant_parts sample_ed_def
         del: stn_identity_derive.simps stn_authority_evidence_validate.simps drop_Suc_Cons One_nat_def)
  then obtain e where e: "stn_authority_grant_validate sample_ed (Some sample_publisher_grant)
      (Some [2 # replicate 31 0]) 1 = Inr e" by blast
  then have "e = sample_publisher_evidence"
    by (simp add: grant_validate_iff sample_publisher_grant_parts)
  with e show ?thesis by simp
qed

lemma sample_publisher_applied:
  assumes "buffer_wf (lc_replay s)" "accepted (lc_replay s) = []" "consumed_count (lc_replay s) < consumed_capacity (lc_replay s)"
    "buffer_wf (lc_grants s)" "consumed_count (lc_grants s) < consumed_capacity (lc_grants s)"
  shows "stn_lifecycle_apply_transaction sample_ed s (Some decoded_publisher_tx)
      (Some [2 # replicate 31 0]) 1 (Some (Some sample_sha)) =
    (STN_LIFECYCLE_OK, s\<lparr>lc_replay := store_key (lc_replay s) sample_grant_key,
       lc_grants := store_key (lc_grants s) sample_publisher_grant\<rparr>)"
proof -
  let ?st = "STN_AUTHORITY_GRANT_DOMAIN @ [0] @ [STN_AUTHORITY_VERSION] @ (2 # replicate 31 0) @ sample_publisher_evidence"
  have st: "stn_authority_grant_statement (Some (drop 1 sample_publisher_grant)) (Some sample_publisher_evidence) 256 = Inr ?st"
    unfolding stn_authority_grant_statement_def
    by (simp add: sample_publisher_grant_parts
        del: stn_identity_derive.simps stn_authority_evidence_validate.simps drop_Suc_Cons One_nat_def)
  have "length ?st \<le> STN_AUTHORITY_GRANT_DOMAIN_SIZE + STN_AUTHORITY_GRANT_SIZE"
    by (simp add: sample_publisher_grant_parts STN_AUTHORITY_GRANT_DOMAIN_def)
  then have nonce: "stn_lifecycle_replay_nonce STN_TX_AUTHORITY_GRANT (Some ?st) (Some sample_sha) = Inr (replicate 32 9)"
    by (simp add: stn_lifecycle_replay_nonce_def sample_sha_def nonzero_iff)
  have "consume s (drop 1 sample_publisher_grant) STN_TX_AUTHORITY_GRANT ?st (Some sample_sha) =
      (STN_LIFECYCLE_OK, s\<lparr>lc_replay := store_key (lc_replay s) sample_grant_key\<rparr>)"
    using nonce assms(2,3)
    by (simp add: consume_def stn_replay_id_from_signer_nonce_def sample_publisher_grant_parts nonzero_iff
        consume_id_cases [OF assms(1)] sample_grant_key_def del: stn_identity_derive.simps drop_Suc_Cons One_nat_def)
  moreover have "consumed (lc_grants s) \<noteq> None"
    using assms(4,5) by (auto simp: buffer_wf_def buffer_valid_def)
  ultimately have "apply_grant sample_ed s sample_publisher_grant (Some [2 # replicate 31 0]) 1 (Some sample_sha) =
      (STN_LIFECYCLE_OK, s\<lparr>lc_replay := store_key (lc_replay s) sample_grant_key,
         lc_grants := store_key (lc_grants s) sample_publisher_grant\<rparr>)"
    unfolding apply_grant_def sample_publisher_validates sum.case st
    using assms(5) by (simp add: sample_publisher_grant_parts)
  then show ?thesis
    by (simp add: stn_lifecycle_apply_transaction_def decoded_publisher_tx_def sample_publisher_grant_parts)
qed

text \<open>A state that has the one grant.\<close>

definition granted :: "stn_lifecycle_state \<Rightarrow> bool" where
  "granted s \<longleftrightarrow> accepted (lc_grants s) = [sample_publisher_grant] \<and> lc_authority s = stn_authority_state_initialize \<and>
     olds (lc_rotation s) = [] \<and> buffer_wf (lc_grants s) \<and> buffer_wf (lc_replay s) \<and>
     accepted (lc_replay s) = [sample_grant_key] \<and> consumed_count (lc_replay s) < consumed_capacity (lc_replay s)"

lemma granted_replay: "granted s \<Longrightarrow> granted (s\<lparr>lc_replay := b\<rparr>) \<longleftrightarrow>
    buffer_wf b \<and> accepted b = [sample_grant_key] \<and> consumed_count b < consumed_capacity b"
  by (auto simp: granted_def)

lemma granted_publication:
  assumes "granted s"
  shows "stn_lifecycle_check_publication sample_ed True (Some s) (Some sample_publication_bytes) (Some sample_sha) =
      STN_LIFECYCLE_OK"
    "stn_lifecycle_apply_transaction sample_ed s (Some decoded_publication_tx) roots n (Some (Some sample_sha)) =
      (STN_LIFECYCLE_OK, s\<lparr>lc_replay := store_key (lc_replay s) sample_publication_key\<rparr>)"
proof -
  note s = assms [unfolded granted_def]
  have key: "stn_replay_id_from_signer_nonce (Some (2 # replicate 31 0)) (Some (7 # replicate 31 0)) =
      Inr sample_publication_key"
    using sample_key_canonical by (simp add: stn_replay_id_from_signer_nonce_def nonzero_iff sample_publication_key_def)
  have "replicate 32 (9 :: 8 word) = 9 # replicate 31 9" by (simp flip: replicate_Suc)
  then have fresh: "sample_publication_key \<notin> set (accepted (lc_replay s))"
    using s by (simp add: sample_publication_key_def sample_grant_key_def)
  have fields: "rec_payload sample_publication_record = Some (sentinel_layout sample_intelligence)"
      "rec_signer_public_key sample_publication_record = 2 # replicate 31 0"
      "rec_nonce sample_publication_record = 7 # replicate 31 0"
    by (simp_all add: sample_publication_record_def)
  have "publishing_grant s (Some sample_sha) (2 # replicate 31 0) (1 # replicate 31 9) (1 # replicate 31 9)
      sample_publisher_grant"
    using sample_publisher_facts(2,3) s by (auto simp: publishing_grant_def sample_publisher_def accepted_def
      sample_lifecycle_def stn_lifecycle_initialize_def)
  moreover have "\<forall>g \<in> set (accepted (lc_grants s)). \<exists>i. stn_authority_grant_id (Some g) (Some sample_sha) = Inr i"
    using sample_publisher_facts(3) s by (simp add: sample_publisher_def accepted_def)
  moreover have "stn_record_publication_tokens (Some sample_publication_bytes) (Some sample_sha) =
      Inr (1 # replicate 31 9, 1 # replicate 31 9)"
    by (simp add: sample_publication_decode sample_sha_def del: stn_record_decode.simps)
  moreover have "2 # replicate 31 0 \<notin> set (olds (lc_rotation s))" using s by simp
  ultimately have "publication_ok sample_ed s (Some sample_sha) sample_publication_bytes sample_publication_record"
    using sample_publication_ok key fresh unfolding publication_ok_def fields by blast
  moreover have "authority_wf (lc_authority s)" using s by (simp add: authority_wf_initialize)
  ultimately show "stn_lifecycle_check_publication sample_ed True (Some s) (Some sample_publication_bytes)
      (Some sample_sha) = STN_LIFECYCLE_OK"
    using publication_check_iff [of s sample_ed] sample_publication_decode s by blast
  have "apply_publication s sample_publication_bytes =
      (STN_LIFECYCLE_OK, s\<lparr>lc_replay := store_key (lc_replay s) sample_publication_key\<rparr>)"
    using key fresh s consume_id_cases [of s sample_publication_key]
    by (simp add: apply_publication_def sample_publication_decode consume_publication_def fields
        del: stn_record_decode.simps)
  then show "stn_lifecycle_apply_transaction sample_ed s (Some decoded_publication_tx) roots n (Some (Some sample_sha)) =
      (STN_LIFECYCLE_OK, s\<lparr>lc_replay := store_key (lc_replay s) sample_publication_key\<rparr>)"
    by (simp add: stn_lifecycle_apply_transaction_def decoded_publication_tx_def sample_publication_length)
qed

section \<open>The blocks\<close>

definition sample_first_header :: stn_block_header where
  "sample_first_header = sample_block_header\<lparr>bh_transaction_count := 1, bh_body_length := 210\<rparr>"

definition sample_first :: bytes where
  "sample_first = header_layout sample_first_header @ frames [sample_publisher_tx]"

text \<open>A block at a height of its own that holds the publication.\<close>

definition published_header :: "u64 \<Rightarrow> stn_block_header" where
  "published_header height =
     sample_block_header\<lparr>bh_height := height, bh_previous_hash := replicate 32 9, bh_body_length := 248\<rparr>"

definition published :: "u64 \<Rightarrow> bytes" where
  "published height = header_layout (published_header height) @ frames [sample_publication_tx]"

definition record_context :: stn_chain_context where
  "record_context = sample_context\<lparr>cx_genesis_bytes := Some sample_first,
     cx_authority_roots := Some [2 # replicate 31 0], cx_authority_root_count := 1\<rparr>"

lemma sample_header_fields [simp]:
  "bh_version sample_first_header = 3" "bh_height sample_first_header = 0" "bh_timestamp sample_first_header = 7"
  "bh_network_id sample_first_header = replicate 32 1" "bh_reserved_target sample_first_header = 0x40 # replicate 31 0"
  "bh_transaction_count sample_first_header = 1" "bh_body_length sample_first_header = 210"
  "bh_transaction_commitment sample_first_header = replicate 32 9"
  "bh_version (published_header k) = 3" "bh_height (published_header k) = k" "bh_timestamp (published_header k) = 7"
  "bh_network_id (published_header k) = replicate 32 1" "bh_reserved_target (published_header k) = 0x40 # replicate 31 0"
  "bh_transaction_count (published_header k) = 1" "bh_body_length (published_header k) = 248"
  "bh_transaction_commitment (published_header k) = replicate 32 9" "bh_previous_hash (published_header k) = replicate 32 9"
  by (simp_all add: sample_first_header_def published_header_def sample_block_header_def)

lemma record_context_fields [simp]:
  "cx_pow_policy record_context = Some (0x40 # replicate 31 0)" "cx_hash_provider record_context = Some sample_sha"
  "cx_network_id record_context = replicate 32 1" "cx_genesis_bytes record_context = Some sample_first"
  "cx_authority_roots record_context = Some [2 # replicate 31 0]" "cx_authority_root_count record_context = 1"
  "cx_initial_identities record_context = None" "cx_initial_identity_count record_context = 0"
  by (simp_all add: record_context_def sample_context_def)

lemma sample_target: "stn_target_validate (Some (0x40 # replicate 31 0)) = STN_DATA_OK"
  by (simp add: target_validate_iff be_append)

lemma sample_headers_wf:
  "wf_header sample_first_header" "header_valid sample_first_header = STN_DATA_OK"
  "wf_header (published_header k)" "k \<noteq> 0 \<Longrightarrow> header_valid (published_header k) = STN_DATA_OK"
proof -
  show "wf_header sample_first_header" "header_valid sample_first_header = STN_DATA_OK" "wf_header (published_header k)"
    using sample_target by (simp_all add: wf_header_def header_valid_def nonzero_iff)
      (simp_all add: sample_first_header_def published_header_def sample_block_header_def)
  show "header_valid (published_header k) = STN_DATA_OK" if "k \<noteq> 0"
    using sample_target that by (simp add: header_valid_def nonzero_iff)
      (simp add: published_header_def sample_block_header_def)
qed

lemma sample_first_parts: "block_parts sha sample_first sample_first_header [sample_publisher_tx]"
  using header_decode_layout [OF sample_headers_wf(1,2)] sample_headers_wf(1) sample_publisher_tx
  by (simp add: block_parts_def sample_first_def)

lemma published_parts:
  assumes "k \<noteq> 0"
  shows "block_parts sha (published k) (published_header k) [sample_publication_tx]"
  using header_decode_layout [OF sample_headers_wf(3) sample_headers_wf(4) [OF assms]] sample_headers_wf(3) [of k]
    sample_publication_tx
  by (simp add: block_parts_def published_def)

lemmas sample_first_decode = block_parts_decode(1) [OF sample_first_parts]
lemmas published_decode = block_parts_decode(1) [OF published_parts]

lemma any_block_id:
  "block_parts sample_sha bs h ts \<Longrightarrow> stn_chain_block_id sample_sha (Some bs) (Some sample_sha) = Inr (replicate 32 9)"
  using block_parts_decode(1) [of sample_sha bs h ts]
  by (simp add: stn_chain_block_id_def stn_block_validate_structure_def sample_sha_def)

lemma any_block_integrity:
  assumes "block_parts sample_sha bs h ts" "length ts \<le> 1" "bh_transaction_commitment h = replicate 32 9"
  shows "stn_block_check_integrity sample_sha (Some bs) (Some sample_sha) = STN_DATA_OK"
proof -
  have "\<exists>ds. list_all2 (\<lambda>t d. Inr d = (Inr (replicate 32 9) :: bytes data_result)) ts ds \<and> distinct ds"
    using assms(2) by (intro exI [of _ "map (\<lambda>_. replicate 32 9) ts"]) (cases ts; simp add: list_all2_map2 list_all2_same)
  then show ?thesis
    using assms(3) unfolding integrity_parts [OF sample_sha_ok assms(1)] by (simp add: sample_sha_def eq_commute)
qed

lemma record_context_valid: "context_valid sample_sha record_context = STN_DATA_OK"
proof -
  have "stn_authority_root_set_validate (Some [2 # replicate 31 0]) 1 = STN_AUTHORITY_AUTHORIZED"
      "initial_set_valid None 0 = STN_DATA_OK"
    using sample_key_canonical
    by (simp_all add: stn_authority_root_set_validate_def root_list_def initial_set_valid_def)
  then show ?thesis using sample_target
    by (simp add: context_valid_def sample_first_decode)
qed

lemma record_activation: "stn_chain_publication_activation sample_sha record_context = Inr 1"
proof -
  have "replicate 32 (9 :: 8 word) = 9 # replicate 31 9" by (simp flip: replicate_Suc)
  then have "find (\<lambda>(g, _). memcmp (replicate 32 9) g = 0) legacy_genesis = None"
    by (simp add: legacy_genesis_def)
  then show ?thesis by (simp add: stn_chain_publication_activation_def sample_sha_def)
qed

lemma record_initialize:
  "\<exists>s. stn_chain_initialize sample_sha (\<lambda>_. True) record_context = Inr s \<and>
     cs_lifecycle s = Some (lifecycle_new record_context)"
  by (simp add: stn_chain_initialize_def record_context_valid record_activation stn_contract_snapshot_create_def)

section \<open>Blocks that are accepted\<close>

text \<open>A block with the right link on a short run is accepted when its transactions are.\<close>

lemma record_step:
  assumes run: "chain_run sample_sha sample_ed record_context blocks s" "length blocks < 10"
    "blocks = [] \<or> bh_timestamp (header_of sample_sha (last blocks)) = 7" and
    parts: "block_parts sample_sha bs h ts" "length ts \<le> 1" "bh_transaction_commitment h = replicate 32 9" and
    h: "bh_version h = 3" "bh_network_id h = replicate 32 1" "bh_reserved_target h = 0x40 # replicate 31 0"
      "bh_timestamp h = 7" "bh_height h = word_of_nat (length blocks)"
      "if blocks = [] then bs = sample_first else bh_previous_hash h = replicate 32 9" and
    txs: "transactions_step sample_sha sample_ed (\<lambda>_. True) record_context s history own
      \<lparr>blk_header = h, blk_body = Some (frames ts)\<rparr> cd"
  shows "\<exists>r base. validate_candidate sample_sha sample_ed (\<lambda>_. True) record_context s history (Some bs) own =
    (r, Some (commit_candidate base cd)) \<and> cs_lifecycle base = cs_lifecycle s"
proof -
  let ?b = "\<lparr>blk_header = h, blk_body = Some (frames ts)\<rparr> :: stn_block"
  let ?p = "0x40 # replicate 31 (0 :: u8)"
  note decode = block_parts_decode(1) [OF parts(1)]
  have prior: "prior_valid sample_sha record_context s = STN_DATA_OK"
    by (rule prior_valid_ok [OF run(1) sample_sha_ok])
  have t: "tip_inv sample_sha record_context blocks s" using chain_run_linked [OF run(1)] by simp
  have w: "window_inv ?p s" using chain_run_window [OF run(1), of ?p] by simp
  have height: "cs_height s < 10 \<and> (if blocks = [] then \<not> cs_has_tip s else cs_has_tip s \<and>
      cs_height s + 1 = word_of_nat (length blocks) \<and> cs_tip_id s = replicate 32 9 \<and> cs_timestamp s = 7)"
  proof (cases "blocks = []")
    case True
    with t show ?thesis by (simp add: tip_inv_def)
  next
    case False
    have tip: "cs_has_tip s" "unat (cs_height s) + 1 = length blocks"
        "stn_chain_block_id sample_sha (Some (last blocks)) (cx_hash_provider record_context) = Inr (cs_tip_id s)"
        "cs_timestamp s = 7"
      using tip_facts [OF t] False run(3) by auto
    have "cs_tip_id s = replicate 32 9"
      using tip(3) by (auto simp: stn_chain_block_id_def sample_sha_def Let_def split: sum.splits if_splits)
    moreover have "cs_height s + 1 = word_of_nat (length blocks)"
      using tip(2) by (simp flip: tip(2))
    moreover have "cs_height s < 10" using tip(2) run(2) by (simp add: word_less_nat_alt)
    ultimately show ?thesis using False tip(1,4) by simp
  qed
  then have low: "unat (cs_height s) < 10" by (simp add: word_less_nat_alt)
  then have "unat (cs_height s + 1) = unat (cs_height s) + 1" by (simp add: unat_word_ariths)
  with low have small: "cs_height s \<noteq> 18446744073709551615" "\<not> boundary (cs_height s + 1)" "cs_height s < 60"
    by (auto simp: boundary_def word_le_nat_alt word_less_nat_alt)
  have "cs_current_target s = ?p" if "cs_has_tip s" using w small(3) that by (simp add: window_inv_def)
  then have required: "stn_chain_required_target sample_sha record_context s = Inr ?p"
    using required_target_cases [OF record_context_valid prior _ w small(1)] small(2) by simp
  have "block_links sample_sha record_context s bs ?b"
    unfolding block_links_def using record_context_valid prior decode any_block_integrity [OF parts] h small(1) required height
    by (auto split: if_splits)
  moreover have "\<exists>base. work_step sample_sha record_context s bs h base \<and> cs_lifecycle base = cs_lifecycle s"
  proof -
    from target_work_correct [OF sample_target] obtain u where u: "stn_target_work ?p = Inr u" "wf_work u"
        "work_value u = 2 ^ 256 div (2 ^ 254 + 1)" by (auto simp: be_append)
    have wf: "wf_work (cs_cumulative_work s)" using w by (simp add: window_inv_def)
    have "work_value (cs_cumulative_work s) \<le> 10 * (2 ^ 256 div (2 ^ 254 + 1))"
      using w small(3) low by (cases "cs_has_tip s") (simp_all add: window_inv_def be_append)
    then have "work_value (cs_cumulative_work s) + work_value u < 256 ^ 40"
      unfolding u(3) by simp
    with work_add_fits [OF wf u(2)] obtain w' where
        w': "stn_work_add (Some (cs_cumulative_work s)) (Some u) = Inr w'" by blast
    have "\<not> zero32 (replicate 32 9)" by (simp add: zero32_def nonzero_iff)
    then show ?thesis
      unfolding work_step_def Let_def record_context_fields h option.case any_block_id [OF parts(1)]
      using sample_genesis_pow u(1) w' by auto
  qed
  ultimately show ?thesis
    using candidate_accepted [of sample_sha sample_ed "\<lambda>_. True" record_context s history bs own] txs
    by (metis stn_block.select_convs(1))
qed

section \<open>Their transactions\<close>

lemma front_tx_one:
  assumes "stn_transaction_decode sha (Some t) = Inr tx" "length t \<le> 66881"
  shows "front_tx sha (frames [t]) = (Inr tx, [])" "front_tx sha (frame t) = (Inr tx, [])"
    "front_span (frames [t]) = (t, [])" "front_span (frame t) = (t, [])"
  using assms read_frame(3,4) [OF assms(2)] frame_read64 [OF assms(2), of "[]"]
  by (simp_all add: front_tx_def front_span_def Let_def)

lemma publication_network: "rec_network_id sample_publication_record = replicate 32 1"
  by (simp add: sample_publication_record_def)

lemma sample_scans:
  "scan_loop sample_sha record_context active 1 (frames [sample_publisher_tx]) no_flags =
    Inr (no_flags\<lparr>has_lifecycle := True\<rparr>)"
  "scan_loop sample_sha record_context True 1 (frames [sample_publication_tx]) no_flags =
    Inr (no_flags\<lparr>has_lifecycle := True\<rparr>)"
  using front_tx_one [OF sample_publisher_tx(2) [of sample_sha]] front_tx_one [OF sample_publication_tx(2) [of sample_sha]]
    sample_publication_decode
  by (simp_all add: sample_publisher_tx(1) sample_publication_tx(1) decoded_publisher_tx_def decoded_publication_tx_def
      publication_network del: stn_record_decode.simps)

text \<open>The copy of a lifecycle state has room for one more key of each kind.\<close>

lemma lifecycle_copied:
  assumes "cs_lifecycle s = Some l" "buffer_wf (lc_grants l)" "buffer_wf (lc_replay l)"
    "consumed_count (lc_grants l) < 100" "consumed_count (lc_replay l) < 100"
  obtains cd l' where "candidate_copies (\<lambda>_. True) s own 1 (no_flags\<lparr>has_lifecycle := True\<rparr>) = Some cd"
    "cd_lifecycle cd = Some l'" "lc_authority l' = lc_authority l" "lc_rotation l' = lc_rotation l"
    "buffer_wf (lc_grants l')" "buffer_wf (lc_replay l')"
    "accepted (lc_grants l') = accepted (lc_grants l)" "accepted (lc_replay l') = accepted (lc_replay l)"
    "consumed_count (lc_grants l') < consumed_capacity (lc_grants l')"
    "consumed_count (lc_replay l') < consumed_capacity (lc_replay l')"
    "consumed_count (lc_grants l') = consumed_count (lc_grants l)" "consumed_count (lc_replay l') = consumed_count (lc_replay l)"
proof -
  let ?c = "stn_lifecycle_rebind l
    (Some (accepted (lc_grants l) @ replicate 32 (replicate 194 0))) (consumed_count (lc_grants l) + 32)
    (Some (accepted (lc_replay l) @ replicate 32 (replicate 64 0))) (consumed_count (lc_replay l) + 32)"
  have clone: "lifecycle_clone True s = Some ?c"
    using assms by (simp add: lifecycle_clone_def Let_def STN_REPLAY_ID_SIZE_def)
  let ?reused = "own \<and> consumed_count (lc_grants l) \<le> consumed_capacity (lc_grants l) \<and>
    consumed_count (lc_replay l) \<le> consumed_capacity (lc_replay l) \<and>
    1 \<le> consumed_capacity (lc_grants l) - consumed_count (lc_grants l) \<and>
    1 \<le> consumed_capacity (lc_replay l) - consumed_count (lc_replay l)"
  let ?l = "if ?reused then l else ?c"
  have copies: "\<exists>cd. candidate_copies (\<lambda>_. True) s own 1 (no_flags\<lparr>has_lifecycle := True\<rparr>) = Some cd \<and> cd_lifecycle cd = Some ?l"
    using assms(1) clone by (simp add: candidate_copies_def no_flags_def Let_def)
  have grants: "buffer_wf (lc_grants ?c)" "accepted (lc_grants ?c) = accepted (lc_grants l)"
    using clone_buffer [OF assms(2), of "lc_grants ?c" 32 "replicate 194 0"] by (simp_all add: stn_lifecycle_rebind_def)
  have replays: "buffer_wf (lc_replay ?c)" "accepted (lc_replay ?c) = accepted (lc_replay l)"
    using clone_buffer [OF assms(3), of "lc_replay ?c" 32 "replicate 64 0"] by (simp_all add: stn_lifecycle_rebind_def)
  have rest: "lc_authority ?c = lc_authority l" "lc_rotation ?c = lc_rotation l"
      "consumed_count (lc_grants ?c) < consumed_capacity (lc_grants ?c)"
      "consumed_count (lc_replay ?c) < consumed_capacity (lc_replay ?c)"
      "consumed_count (lc_grants ?c) = consumed_count (lc_grants l)"
      "consumed_count (lc_replay ?c) = consumed_count (lc_replay l)"
    by (simp_all add: stn_lifecycle_rebind_def)
  from copies obtain cd where cd: "candidate_copies (\<lambda>_. True) s own 1 (no_flags\<lparr>has_lifecycle := True\<rparr>) = Some cd"
      "cd_lifecycle cd = Some ?l" by blast
  show thesis
  proof (cases ?reused)
    case True
    then have l: "?l = l" by simp
    show thesis by (rule that [OF cd [unfolded l]]) (use True assms(2,3) in auto)
  next
    case False
    then have l: "?l = ?c" by argo
    show thesis by (rule that [OF cd [unfolded l] rest(1,2) grants(1) replays(1) grants(2) replays(2) rest(3-6)])
  qed
qed

text \<open>A chain whose lifecycle has the one grant and nothing else.\<close>

definition settled :: "stn_chain_state \<Rightarrow> bool" where
  "settled s \<longleftrightarrow> (\<exists>l. cs_lifecycle s = Some l \<and> accepted (lc_grants l) = [sample_publisher_grant] \<and>
     lc_authority l = stn_authority_state_initialize \<and> olds (lc_rotation l) = [] \<and> buffer_wf (lc_grants l) \<and>
     buffer_wf (lc_replay l) \<and> accepted (lc_replay l) = [sample_grant_key] \<and>
     consumed_count (lc_grants l) = 1 \<and> consumed_count (lc_replay l) = 1)"

lemma lifecycle_fresh:
  "lc_authority (lifecycle_new record_context) = stn_authority_state_initialize"
  "olds (lc_rotation (lifecycle_new record_context)) = []"
  "buffer_wf (lc_grants (lifecycle_new record_context))" "buffer_wf (lc_replay (lifecycle_new record_context))"
  "accepted (lc_grants (lifecycle_new record_context)) = []" "accepted (lc_replay (lifecycle_new record_context)) = []"
  "consumed_count (lc_grants (lifecycle_new record_context)) = 0"
  "consumed_count (lc_replay (lifecycle_new record_context)) = 0"
  by (simp_all add: lifecycle_new_def stn_lifecycle_set_initial_identities_def stn_lifecycle_initialize_def
      key_buffer_initialize_def stn_replay_state_initialize_def buffer_wf_def buffer_valid_def accepted_def olds_def
      stn_identity_rotation_initialize_def Let_def del: stn_identity_derive.simps split: sum.splits)

lemma first_accepted:
  assumes "stn_chain_initialize sample_sha (\<lambda>_. True) record_context = Inr s"
  obtains r s' where "validate_candidate sample_sha sample_ed (\<lambda>_. True) record_context s history (Some sample_first) own =
      (r, Some s')" "settled s'"
proof -
  have l: "cs_lifecycle s = Some (lifecycle_new record_context)" using assms record_initialize by simp
  note fresh = lifecycle_fresh
  obtain cd l' where cd: "candidate_copies (\<lambda>_. True) s own 1 (no_flags\<lparr>has_lifecycle := True\<rparr>) = Some cd"
    "cd_lifecycle cd = Some l'" "lc_authority l' = lc_authority (lifecycle_new record_context)"
    "lc_rotation l' = lc_rotation (lifecycle_new record_context)"
    "buffer_wf (lc_grants l')" "buffer_wf (lc_replay l')"
    "accepted (lc_grants l') = []" "accepted (lc_replay l') = []"
    "consumed_count (lc_grants l') < consumed_capacity (lc_grants l')"
    "consumed_count (lc_replay l') < consumed_capacity (lc_replay l')"
    "consumed_count (lc_grants l') = 0" "consumed_count (lc_replay l') = 0"
    by (rule lifecycle_copied [OF l fresh(3,4), of own]) (simp_all add: fresh)
  let ?l = "l'\<lparr>lc_replay := store_key (lc_replay l') sample_grant_key,
       lc_grants := store_key (lc_grants l') sample_publisher_grant\<rparr>"
  have ty: "txn_type decoded_publisher_tx = 2" by (simp add: decoded_publisher_tx_def)
  have "apply_lifecycle sample_ed True record_context s 0 decoded_publisher_tx cd =
      (STN_DATA_OK, cd\<lparr>cd_lifecycle := Some ?l\<rparr>)"
    using cd(2) ty sample_publisher_applied [OF cd(6,8,10,5,9)]
    by (simp add: apply_lifecycle_def lifecycle_failure_def)
  then have "apply_loop sample_sha sample_ed (\<lambda>_. True) record_context s history 0 1 (frames [sample_publisher_tx]) cd =
      (STN_DATA_OK, cd\<lparr>cd_lifecycle := Some ?l\<rparr>)"
    using front_tx_one(2) [OF sample_publisher_tx(2) [of sample_sha]] ty by (simp add: sample_publisher_tx(1))
  then have step: "transactions_step sample_sha sample_ed (\<lambda>_. True) record_context s history own
      \<lparr>blk_header = sample_first_header, blk_body = Some (frames [sample_publisher_tx])\<rparr> (cd\<lparr>cd_lifecycle := Some ?l\<rparr>)"
    using sample_scans(1) cd(1) unfolding transactions_step_def
    by (intro exI [of _ "no_flags\<lparr>has_lifecycle := True\<rparr>"] exI [of _ cd]) (simp add: no_flags_def)
  have run: "chain_run sample_sha sample_ed record_context [] s" by (rule run_start [OF assms])
  from record_step [OF run _ _ sample_first_parts _ _ _ _ _ _ _ _ step]
  obtain r base where v: "validate_candidate sample_sha sample_ed (\<lambda>_. True) record_context s history (Some sample_first) own =
      (r, Some (commit_candidate base (cd\<lparr>cd_lifecycle := Some ?l\<rparr>)))" by auto
  have "settled (commit_candidate base (cd\<lparr>cd_lifecycle := Some ?l\<rparr>))"
    using cd fresh accepted_store [OF cd(5,9)] accepted_store [OF cd(6,10)] buffer_wf_store [OF cd(5,9)]
      buffer_wf_store [OF cd(6,10)] by (simp add: settled_def commit_candidate_def)
  with v show thesis by (rule that)
qed

lemma empty_accepted:
  assumes "chain_run sample_sha sample_ed record_context [sample_first] s" "settled s"
  obtains r s' where "validate_candidate sample_sha sample_ed (\<lambda>_. True) record_context s history (Some sample_second) own =
      (r, Some s')" "settled s'"
proof -
  have h: "bh_version sample_second_header = 3" "bh_network_id sample_second_header = replicate 32 1"
      "bh_reserved_target sample_second_header = 0x40 # replicate 31 0" "bh_timestamp sample_second_header = 7"
      "bh_height sample_second_header = 1" "bh_previous_hash sample_second_header = replicate 32 9"
      "bh_transaction_commitment sample_second_header = replicate 32 9" "bh_transaction_count sample_second_header = 0"
    by (simp_all add: sample_second_header_def sample_genesis_header_def sample_block_header_def)
  have "\<exists>cd. transactions_step sample_sha sample_ed (\<lambda>_. True) record_context s history own
      \<lparr>blk_header = sample_second_header, blk_body = Some (frames [])\<rparr> cd \<and> cd_lifecycle cd = None"
    by (simp add: transactions_step_def h candidate_copies_def Let_def no_flags_def)
  then obtain cd where step: "transactions_step sample_sha sample_ed (\<lambda>_. True) record_context s history own
      \<lparr>blk_header = sample_second_header, blk_body = Some (frames [])\<rparr> cd" "cd_lifecycle cd = None" by blast
  from record_step [OF assms(1) _ _ sample_second_parts _ _ _ _ _ _ _ _ step(1)] h
  obtain r base where v: "validate_candidate sample_sha sample_ed (\<lambda>_. True) record_context s history (Some sample_second) own =
      (r, Some (commit_candidate base cd))" "cs_lifecycle base = cs_lifecycle s"
    using sample_first_decode [of sample_sha] by auto
  have "settled (commit_candidate base cd)"
    using assms(2) step(2) v(2) by (simp add: settled_def commit_candidate_def)
  with v(1) show thesis by (rule that)
qed

lemma published_accepted:
  assumes "chain_run sample_sha sample_ed record_context blocks s" "settled s" "blocks \<noteq> []" "length blocks < 10"
    "bh_timestamp (header_of sample_sha (last blocks)) = 7"
  obtains r s' where "validate_candidate sample_sha sample_ed (\<lambda>_. True) record_context s history
      (Some (published (word_of_nat (length blocks)))) own = (r, Some s')"
proof -
  let ?k = "word_of_nat (length blocks) :: u64"
  from assms(3,4) have k: "?k \<noteq> 0" "1 \<le> ?k"
    by (simp_all add: word_of_nat_eq_0_iff word_le_nat_alt unat_of_nat take_bit_nat_eq_self nat_dvd_not_less)
      (cases blocks; simp)
  from assms(2) obtain l where l: "cs_lifecycle s = Some l" "accepted (lc_grants l) = [sample_publisher_grant]"
     "lc_authority l = stn_authority_state_initialize" "olds (lc_rotation l) = []" "buffer_wf (lc_grants l)"
     "buffer_wf (lc_replay l)" "accepted (lc_replay l) = [sample_grant_key]"
     "consumed_count (lc_grants l) = 1" "consumed_count (lc_replay l) = 1" by (auto simp: settled_def)
  obtain cd l' where cd: "candidate_copies (\<lambda>_. True) s own 1 (no_flags\<lparr>has_lifecycle := True\<rparr>) = Some cd"
    "cd_lifecycle cd = Some l'" "granted l'"
    by (rule lifecycle_copied [OF l(1,5,6), of own]) (simp_all add: l granted_def)
  let ?l = "l'\<lparr>lc_replay := store_key (lc_replay l') sample_publication_key\<rparr>"
  have activation: "cs_activation s = 1"
    using chain_run_linked [OF assms(1)] record_activation by (simp add: tip_inv_def)
  have tx: "txn_type decoded_publication_tx = 1" "txn_record_bytes decoded_publication_tx = Some sample_publication_bytes"
    by (simp_all add: decoded_publication_tx_def)
  have "apply_lifecycle sample_ed True record_context s ?k decoded_publication_tx cd =
      (STN_DATA_OK, cd\<lparr>cd_lifecycle := Some ?l\<rparr>)"
    using cd(2) tx granted_publication [OF cd(3)] k activation
    by (simp add: apply_lifecycle_def lifecycle_failure_def not_less)
  then have "apply_loop sample_sha sample_ed (\<lambda>_. True) record_context s history ?k 1 (frames [sample_publication_tx]) cd =
      (STN_DATA_OK, cd\<lparr>cd_lifecycle := Some ?l\<rparr>)"
    using front_tx_one(2) [OF sample_publication_tx(2) [of sample_sha]] tx by (simp add: sample_publication_tx(1))
  then have step: "transactions_step sample_sha sample_ed (\<lambda>_. True) record_context s history own
      \<lparr>blk_header = published_header ?k, blk_body = Some (frames [sample_publication_tx])\<rparr> (cd\<lparr>cd_lifecycle := Some ?l\<rparr>)"
    using sample_scans(2) cd(1) k(2) activation unfolding transactions_step_def
    by (intro exI [of _ "no_flags\<lparr>has_lifecycle := True\<rparr>"] exI [of _ cd]) (simp add: no_flags_def)
  from record_step [OF assms(1,4) _ published_parts [OF k(1)] _ _ _ _ _ _ _ _ step] assms(3,5) that
  show thesis by auto
qed

section \<open>The two histories\<close>

definition current_history :: "bytes list" where "current_history = [sample_first, published 1]"
definition retained_history :: "bytes list" where "retained_history = [sample_first, sample_second, published 2]"

lemma history_headers:
  "header_of sha sample_first = sample_first_header" "header_of sha sample_second = sample_second_header"
  "header_of sha (published 1) = published_header 1" "header_of sha (published 2) = published_header 2"
  "bh_timestamp sample_second_header = 7"
  by (simp_all add: header_of_def sample_first_decode sample_second_decode published_decode)
     (simp add: sample_second_header_def sample_genesis_header_def sample_block_header_def)

lemma current_steps:
  assumes "stn_chain_initialize sample_sha (\<lambda>_. True) record_context = Inr s" "h1 = None \<or> h1 = Some []"
  obtains r1 s1 r2 s2 where
    "validate_candidate sample_sha sample_ed (\<lambda>_. True) record_context s h1 (Some sample_first) own = (r1, Some s1)"
    "validate_candidate sample_sha sample_ed (\<lambda>_. True) record_context s1 h2 (Some (published 1)) own = (r2, Some s2)"
proof -
  obtain r1 s1 where one: "validate_candidate sample_sha sample_ed (\<lambda>_. True) record_context s h1 (Some sample_first) own =
      (r1, Some s1)" "settled s1" by (rule first_accepted [OF assms(1)])
  have run: "chain_run sample_sha sample_ed record_context [sample_first] s1"
    using run_block [OF run_start [OF assms(1), of sample_ed] one(1) assms(2)] by simp
  show ?thesis
    by (rule published_accepted [OF run one(2), of h2 own]) (use history_headers that [OF one(1)] in simp_all)
qed

lemma retained_steps:
  assumes "stn_chain_initialize sample_sha (\<lambda>_. True) record_context = Inr s" "h1 = None \<or> h1 = Some []"
    "h2 = None \<or> h2 = Some [sample_first]"
  obtains r1 s1 r2 s2 r3 s3 where
    "validate_candidate sample_sha sample_ed (\<lambda>_. True) record_context s h1 (Some sample_first) own = (r1, Some s1)"
    "validate_candidate sample_sha sample_ed (\<lambda>_. True) record_context s1 h2 (Some sample_second) own = (r2, Some s2)"
    "validate_candidate sample_sha sample_ed (\<lambda>_. True) record_context s2 h3 (Some (published 2)) own = (r3, Some s3)"
proof -
  obtain r1 s1 where one: "validate_candidate sample_sha sample_ed (\<lambda>_. True) record_context s h1 (Some sample_first) own =
      (r1, Some s1)" "settled s1" by (rule first_accepted [OF assms(1)])
  have run: "chain_run sample_sha sample_ed record_context [sample_first] s1"
    using run_block [OF run_start [OF assms(1), of sample_ed] one(1) assms(2)] by simp
  obtain r2 s2 where two: "validate_candidate sample_sha sample_ed (\<lambda>_. True) record_context s1 h2 (Some sample_second) own =
      (r2, Some s2)" "settled s2" by (rule empty_accepted [OF run one(2)])
  have run': "chain_run sample_sha sample_ed record_context [sample_first, sample_second] s2"
    using run_block [OF run two(1) assms(3)] by simp
  show ?thesis
    by (rule published_accepted [OF run' two(2), of h3 own]) (use history_headers that [OF one(1) two(1)] in simp_all)
qed

lemma accepted_step:
  assumes "validate_candidate sha ed alloc c s history (Some b) own = (r, Some t)"
  shows "rp_acceptance r = STN_ACCEPTANCE_UNDER_CONTEXT"
  using assms unfolding candidate_stages by auto

definition ok_search :: search_alloc where
  "ok_search = \<lparr>qa_init = \<lambda>_. True, qa_block = \<lambda>_ _. True, qa_memory = True, qa_statement = \<lambda>_ _. True\<rparr>"

lemma ok_search_fields [simp]:
  "qa_init ok_search = (\<lambda>_. True)" "qa_block ok_search = (\<lambda>_ _. True)" "qa_memory ok_search"
  "qa_statement ok_search = (\<lambda>_ _. True)"
  by (simp_all add: ok_search_def)

lemma current_revalidated:
  assumes "stn_chain_initialize sample_sha (\<lambda>_. True) record_context = Inr s"
  obtains t where "revalidate_loop sample_sha sample_ed (\<lambda>_ _. True) record_context 0 current_history s = Inr t"
    "cs_activation t = 1"
proof -
  obtain r1 s1 r2 s2 where v:
    "validate_candidate sample_sha sample_ed (\<lambda>_. True) record_context s None (Some sample_first) False = (r1, Some s1)"
    "validate_candidate sample_sha sample_ed (\<lambda>_. True) record_context s1 None (Some (published 1)) False = (r2, Some s2)"
    using current_steps [OF assms, of None False None] by blast
  then have t: "revalidate_loop sample_sha sample_ed (\<lambda>_ _. True) record_context 0 current_history s = Inr s2"
    using accepted_step [OF v(1)] accepted_step [OF v(2)]
    by (simp add: current_history_def stn_chain_validate_candidate_def)
  have "cs_activation s2 = 1"
    using chain_run_linked [OF revalidate_run [OF t run_start [OF assms]]] record_activation by (simp add: tip_inv_def)
  with t show thesis by (rule that)
qed

section \<open>The eligible record\<close>

definition sample_entry :: entry where
  "sample_entry =
     (\<lparr>mt_found = True, mt_record_id = replicate 32 9, mt_height = 1, mt_block_id = replicate 32 9,
       mt_transaction = sample_publication_tx\<rparr>,
      \<lparr>cur_version = 1, cur_height = 1, cur_block_id = replicate 32 9, cur_position = 0\<rparr>)"

text \<open>The scratch state before the first block, and what the grant makes of it.\<close>

definition sample_start :: search_state where
  "sample_start = search_start record_context 1 2"

lemma search_start_facts:
  "lc_authority (ss_historical sample_start) = stn_authority_state_initialize"
  "olds (lc_rotation (ss_historical sample_start)) = []"
  "buffer_wf (lc_grants (ss_historical sample_start))"
  "buffer_wf (lc_replay (ss_historical sample_start))"
  "accepted (lc_grants (ss_historical sample_start)) = []"
  "accepted (lc_replay (ss_historical sample_start)) = []"
  "consumed_count (lc_grants (ss_historical sample_start)) = 0"
  "consumed_count (lc_replay (ss_historical sample_start)) = 0"
  "consumed_capacity (lc_grants (ss_historical sample_start)) = 1"
  "consumed_capacity (lc_replay (ss_historical sample_start)) = 2"
  "buffer_wf (ss_eligible sample_start)" "accepted (ss_eligible sample_start) = []"
  "consumed_count (ss_eligible sample_start) = 0"
  "consumed_capacity (ss_eligible sample_start) = 2"
  by (simp_all add: sample_start_def search_start_def stn_lifecycle_set_initial_identities_def stn_lifecycle_initialize_def
      key_buffer_initialize_def stn_replay_state_initialize_def buffer_wf_def buffer_valid_def accepted_def olds_def
      stn_identity_rotation_initialize_def Let_def del: stn_identity_derive.simps split: sum.splits)

lemma first_searched:
  obtains s where
    "\<forall>P st block height j. search_tx sample_sha sample_ed record_context P st True block height j sample_publisher_tx
       sample_start = Inr (Inr s)"
    "granted (ss_historical s)" "granted ((ss_historical s)\<lparr>lc_replay := ss_eligible s\<rparr>)"
proof -
  let ?s = sample_start
  note f = search_start_facts
  let ?h = "(ss_historical ?s)\<lparr>lc_replay := store_key (lc_replay (ss_historical ?s)) sample_grant_key,
    lc_grants := store_key (lc_grants (ss_historical ?s)) sample_publisher_grant\<rparr>"
  let ?t = "\<lparr>ss_historical = ?h, ss_eligible = store_key (ss_eligible ?s) sample_grant_key\<rparr> :: search_state"
  have room: "consumed_count (lc_replay (ss_historical ?s)) < consumed_capacity (lc_replay (ss_historical ?s))"
      "consumed_count (lc_grants (ss_historical ?s)) < consumed_capacity (lc_grants (ss_historical ?s))"
      "consumed_count (ss_eligible ?s) < consumed_capacity (ss_eligible ?s)"
    by (simp_all add: f)
  have h: "lifecycle_of sample_ed record_context (ss_historical ?s) decoded_publisher_tx = (STN_LIFECYCLE_OK, ?h)"
    using sample_publisher_applied [OF f(4,6) room(1) f(3) room(2)] by (simp add: lifecycle_of_def)
  have a: "accepted (lc_replay ?h) = [sample_grant_key]" using accepted_store [OF f(4) room(1)] f(6) by simp
  have "stn_replay_state_consume (ss_eligible ?s) (Some sample_grant_key) =
      (STN_REPLAY_FRESH, store_key (ss_eligible ?s) sample_grant_key)"
    using record_replay.consume_spec [OF f(11), of sample_grant_key sample_grant_key] room(3) f(12) by simp
  with h a have "search_advance sample_ed record_context ?s decoded_publisher_tx = Inr ?t"
    by (simp add: search_advance_def)
  then have "\<forall>P st block height j. search_tx sample_sha sample_ed record_context P st True block height j
      sample_publisher_tx ?s = Inr (Inr ?t)"
    using sample_publisher_tx(2) [of sample_sha] by (simp add: search_tx_def search_rest_def decoded_publisher_tx_def)
  moreover have "granted (ss_historical ?t)"
    using f accepted_store [OF f(3) room(2)] a buffer_wf_store [OF f(3) room(2)] buffer_wf_store [OF f(4) room(1)]
    by (simp add: granted_def)
  moreover from this have "granted ((ss_historical ?t)\<lparr>lc_replay := ss_eligible ?t\<rparr>)"
    using accepted_store [OF f(11) room(3)] buffer_wf_store [OF f(11) room(3)] f
    by (simp add: granted_def)
  ultimately show thesis by (rule that)
qed

lemma second_searched:
  assumes "granted (ss_historical s)" "granted ((ss_historical s)\<lparr>lc_replay := ss_eligible s\<rparr>)"
  shows "search_tx sample_sha sample_ed record_context always True False (published 1) 1 0 sample_publication_tx s =
      Inr (Inl sample_entry)"
    "\<exists>t. search_tx sample_sha sample_ed record_context never True False (published 1) 1 0 sample_publication_tx s =
      Inr (Inr t)"
proof -
  let ?o = "(ss_historical s)\<lparr>lc_replay := ss_eligible s\<rparr>"
  have tx: "txn_type decoded_publication_tx = 1" "txn_record_bytes decoded_publication_tx = Some sample_publication_bytes"
    by (simp_all add: decoded_publication_tx_def)
  have rid: "stn_record_id (Some sample_publication_bytes) (Some sample_sha) = Inr (replicate 32 9)"
    by (simp add: sample_publication_decode sample_sha_def del: stn_record_decode.simps)
  then have e: "publication_eligible sample_ed True record_context s decoded_publication_tx = Inr (Some (replicate 32 9))"
    using granted_publication(1) [OF assms(2)] tx by (simp add: publication_eligible_def del: stn_record_id.simps)
  have id: "stn_chain_block_id sample_sha (Some (published 1)) (Some sample_sha) = Inr (replicate 32 9)"
    by (rule any_block_id [OF published_parts]) simp
  show "search_tx sample_sha sample_ed record_context always True False (published 1) 1 0 sample_publication_tx s =
      Inr (Inl sample_entry)"
    using sample_publication_tx(2) [of sample_sha] tx e id
    by (simp add: search_tx_def always_def sample_entry_def)
  let ?h = "(ss_historical s)\<lparr>lc_replay := store_key (lc_replay (ss_historical s)) sample_publication_key\<rparr>"
  let ?e = "store_key (ss_eligible s) sample_publication_key"
  have c: "eligible_consume sample_ed record_context s decoded_publication_tx = Inr (s\<lparr>ss_eligible := ?e\<rparr>)"
    using granted_publication(2) [OF assms(2)] by (simp add: eligible_consume_def lifecycle_of_def)
  have g: "buffer_wf (ss_eligible s)" "accepted (ss_eligible s) = [sample_grant_key]"
      "consumed_count (ss_eligible s) < consumed_capacity (ss_eligible s)" "buffer_wf (lc_replay (ss_historical s))"
      "consumed_count (lc_replay (ss_historical s)) < consumed_capacity (lc_replay (ss_historical s))"
    using assms by (simp_all add: granted_def)
  have h: "lifecycle_of sample_ed record_context (ss_historical s) decoded_publication_tx = (STN_LIFECYCLE_OK, ?h)"
    using granted_publication(2) [OF assms(1)] by (simp add: lifecycle_of_def)
  have "last (accepted (lc_replay ?h)) = sample_publication_key" using accepted_store [OF g(4,5)] by simp
  moreover have "stn_replay_state_consume ?e (Some sample_publication_key) = (STN_REPLAY_REPLAY, ?e)"
    using record_replay.consume_spec [OF buffer_wf_store [OF g(1,3)], of sample_publication_key sample_publication_key]
      accepted_store [OF g(1,3)] by simp
  ultimately have "\<exists>t. search_advance sample_ed record_context (s\<lparr>ss_eligible := ?e\<rparr>) decoded_publication_tx = Inr t"
    using h by (simp add: search_advance_def)
  then show "\<exists>t. search_tx sample_sha sample_ed record_context never True False (published 1) 1 0 sample_publication_tx s =
      Inr (Inr t)"
    using sample_publication_tx(2) [of sample_sha] tx e c
    by (auto simp: search_tx_def never_def search_rest_def)
qed

lemma sample_counts: "count_loop sample_sha current_history 0 0 = Inr (2, 1)"
  using sample_publisher_tx(2) [of sample_sha] sample_publication_tx(2) [of sample_sha]
    front_tx_one(4) [OF sample_publisher_tx(2) [of sample_sha]] front_tx_one(4) [OF sample_publication_tx(2) [of sample_sha]]
  by (simp add: current_history_def sample_first_decode published_decode sample_publisher_tx(1) sample_publication_tx(1)
      decoded_publisher_tx_def decoded_publication_tx_def)

lemma sample_eligible:
  "eligible_blocks sample_sha sample_ed record_context (\<lambda>_ _. True) 1 0 current_history sample_start = Some [sample_entry]"
proof -
  obtain s where s: "\<forall>P st block height j. search_tx sample_sha sample_ed record_context P st True block height j
       sample_publisher_tx sample_start = Inr (Inr s)"
    "granted (ss_historical s)" "granted ((ss_historical s)\<lparr>lc_replay := ss_eligible s\<rparr>)" by (rule first_searched)
  from second_searched [OF s(2,3)] obtain t where t:
    "search_tx sample_sha sample_ed record_context always True False (published 1) 1 0 sample_publication_tx s =
      Inr (Inl sample_entry)"
    "search_tx sample_sha sample_ed record_context never True False (published 1) 1 0 sample_publication_tx s = Inr (Inr t)"
    by blast
  show ?thesis
    using s(1) t front_tx_one(4) [OF sample_publisher_tx(2) [of sample_sha]]
      front_tx_one(4) [OF sample_publication_tx(2) [of sample_sha]]
    by (simp add: current_history_def sample_first_decode published_decode sample_publisher_tx(1) sample_publication_tx(1)
        Let_def)
qed

lemma sample_records: "eligible_records sample_sha sample_ed ok_search record_context current_history = Some [sample_entry]"
proof -
  obtain s where s: "stn_chain_initialize sample_sha (\<lambda>_. True) record_context = Inr s" using record_initialize by blast
  obtain t where t: "revalidate_loop sample_sha sample_ed (\<lambda>_ _. True) record_context 0 current_history s = Inr t"
    "cs_activation t = 1" by (rule current_revalidated [OF s])
  have "current_history \<noteq> []" by (simp add: current_history_def)
  with s t sample_counts sample_eligible [unfolded sample_start_def] show ?thesis
    by (simp add: eligible_records_def)
qed

end
