(* ===== verification/Stn_Query_Claims.thy ===== *)
theory Stn_Query_Claims
  imports Stn_Query_Sample
begin

text \<open>
  The properties of the record queries and of the recovery of a consumer, with their witnesses on the
  two sample histories.
\<close>

section \<open>The sample resolution\<close>

definition sample_cursor :: stn_chain_cursor where
  "sample_cursor = \<lparr>cur_version = 1, cur_height = 2, cur_block_id = replicate 32 9, cur_position = 0\<rparr>"

definition ok_recovery :: recovery_alloc where
  "ok_recovery = \<lparr>pa_resolve = \<lparr>ra_current = ok_search, ra_retained = ok_search, ra_fork = \<lambda>_. (\<lambda>_. True, \<lambda>_ _. True)\<rparr>,
     pa_first = ok_search, pa_next = \<lambda>_. (ok_search, ok_search)\<rparr>"

lemma sample_second_height: "bh_height sample_second_header = 1"
  by (simp add: sample_second_header_def sample_genesis_header_def sample_block_header_def)

lemma sample_detached:
  "stn_chain_cursor_validate sample_sha sample_ed ok_search record_context (Some current_history) (Some sample_cursor) =
    STN_CURSOR_DETACHED"
proof -
  obtain s where s: "stn_chain_initialize sample_sha (\<lambda>_. True) record_context = Inr s" using record_initialize by blast
  obtain t where t: "revalidate_loop sample_sha sample_ed (\<lambda>_ _. True) record_context 0 current_history s = Inr t"
    by (rule current_revalidated [OF s])
  have "cursor_loop sample_sha sample_ed (\<lambda>_ _. True) record_context sample_cursor 0 current_history s STN_CURSOR_DETACHED =
      STN_CURSOR_DETACHED"
    by (rule cursor_loop_passes [OF t])
       (simp_all add: current_history_def sample_first_decode published_decode sample_cursor_def)
  with s show ?thesis
    by (simp add: stn_chain_cursor_validate_def current_history_def sample_cursor_def)
qed

lemma retained_revalidated:
  assumes "stn_chain_initialize sample_sha (\<lambda>_. True) record_context = Inr s"
  shows "\<exists>t. revalidate_loop sample_sha sample_ed (\<lambda>_ _. True) record_context 0 retained_history s = Inr t"
proof -
  obtain r1 s1 r2 s2 r3 s3 where v:
    "validate_candidate sample_sha sample_ed (\<lambda>_. True) record_context s None (Some sample_first) False = (r1, Some s1)"
    "validate_candidate sample_sha sample_ed (\<lambda>_. True) record_context s1 None (Some sample_second) False = (r2, Some s2)"
    "validate_candidate sample_sha sample_ed (\<lambda>_. True) record_context s2 None (Some (published 2)) False = (r3, Some s3)"
    using retained_steps [OF assms, of None None False None] by blast
  then show ?thesis
    using accepted_step [OF v(1)] accepted_step [OF v(2)] accepted_step [OF v(3)]
    by (simp add: retained_history_def stn_chain_validate_candidate_def)
qed

lemma sample_retained:
  "stn_chain_cursor_validate sample_sha sample_ed ok_search record_context (Some retained_history) (Some sample_cursor) =
    STN_CURSOR_VALID"
proof -
  obtain s where s: "stn_chain_initialize sample_sha (\<lambda>_. True) record_context = Inr s" using record_initialize by blast
  obtain t where t: "revalidate_loop sample_sha sample_ed (\<lambda>_ _. True) record_context 0 retained_history s = Inr t"
    using retained_revalidated [OF s] by blast
  have run: "chain_run sample_sha sample_ed record_context retained_history t"
    using revalidate_run [OF t run_start [OF s]] by simp
  have "located sample_sha record_context retained_history sample_cursor"
    using any_block_id [OF published_parts, of 2]
    by (simp add: located_def retained_history_def sample_cursor_def history_headers)
  then have "cursor_loop sample_sha sample_ed (\<lambda>_ _. True) record_context sample_cursor 0 retained_history s
      STN_CURSOR_DETACHED = STN_CURSOR_VALID"
    by (intro cursor_loop_located [OF t _ run_heights [OF run]])
       (simp_all add: retained_history_def sample_first_decode sample_second_decode published_decode)
  with s show ?thesis
    by (simp add: stn_chain_cursor_validate_def retained_history_def sample_cursor_def)
qed

lemma sample_reconstructs:
  "snd (stn_chain_reconstruct_history sample_sha sample_ed (\<lambda>_. True) (\<lambda>_ _. True) record_context (Some current_history)) \<noteq> None"
  "snd (stn_chain_reconstruct_history sample_sha sample_ed (\<lambda>_. True) (\<lambda>_ _. True) record_context (Some retained_history)) \<noteq> None"
proof -
  obtain s where s: "stn_chain_initialize sample_sha (\<lambda>_. True) record_context = Inr s" using record_initialize by blast
  obtain r1 s1 r2 s2 where v:
    "validate_candidate sample_sha sample_ed (\<lambda>_. True) record_context s (Some []) (Some sample_first) True = (r1, Some s1)"
    "validate_candidate sample_sha sample_ed (\<lambda>_. True) record_context s1 (Some [sample_first]) (Some (published 1)) True =
      (r2, Some s2)"
    using current_steps [OF s, of "Some []" True "Some [sample_first]"] by blast
  then show "snd (stn_chain_reconstruct_history sample_sha sample_ed (\<lambda>_. True) (\<lambda>_ _. True) record_context
      (Some current_history)) \<noteq> None"
    using s by (simp add: stn_chain_reconstruct_history_def current_history_def)
  obtain r1 s1 r2 s2 r3 s3 where w:
    "validate_candidate sample_sha sample_ed (\<lambda>_. True) record_context s (Some []) (Some sample_first) True = (r1, Some s1)"
    "validate_candidate sample_sha sample_ed (\<lambda>_. True) record_context s1 (Some [sample_first]) (Some sample_second) True =
      (r2, Some s2)"
    "validate_candidate sample_sha sample_ed (\<lambda>_. True) record_context s2 (Some [sample_first, sample_second])
      (Some (published 2)) True = (r3, Some s3)"
    using retained_steps [OF s, of "Some []" "Some [sample_first]" True "Some [sample_first, sample_second]"] by blast
  then show "snd (stn_chain_reconstruct_history sample_sha sample_ed (\<lambda>_. True) (\<lambda>_ _. True) record_context
      (Some retained_history)) \<noteq> None"
    using s by (simp add: stn_chain_reconstruct_history_def retained_history_def)
qed

lemma sample_shared: "shared sample_sha (Some sample_sha) current_history retained_history = 2"
  using any_block_id [OF sample_first_parts] any_block_id [OF published_parts] any_block_id [OF sample_second_parts]
  by (simp add: shared_def block_ids_def current_history_def retained_history_def)

lemma sample_resolved:
  "stn_chain_resolve_cursor_reorg sample_sha sample_ed (pa_resolve ok_recovery) record_context (Some current_history)
     (Some retained_history) (Some sample_cursor) =
   (STN_CURSOR_REORG_COMMON_ANCESTOR, Some \<lparr>an_height = 1, an_block_id = replicate 32 9\<rparr>)"
proof -
  let ?al = "\<lambda>_ :: nat. (\<lambda>_ :: chain_site. True, \<lambda>(_ :: nat) (_ :: chain_site). True)"
  obtain r out where f: "stn_fork_evaluate_history sample_sha sample_ed ?al record_context (Some current_history)
      (Some retained_history) = (r, out)" by force
  note cases = fork_evaluate_cases [of record_context "0x40 # replicate 31 0" sample_sha sample_ed ?al
      "Some current_history" "Some retained_history", OF record_context_fields(1), unfolded f prod.case]
  obtain plan where plan: "out = Some plan" using cases sample_reconstructs by (cases out) (auto split: if_splits)
  have p: "fr_result r \<in> {STN_FORK_CURRENT, STN_FORK_CANDIDATE, STN_FORK_TIE}" "pl_ancestor_index plan = 1"
      "pl_ancestor_id plan = replicate 32 9"
    using cases [unfolded plan option.case] sample_shared any_block_id [OF published_parts, of 1]
    by (auto simp: reorg_plan_def preference_def current_history_def)
  show ?thesis
    using sample_detached sample_retained f plan p
    by (auto simp: stn_chain_resolve_cursor_reorg_def ok_recovery_def retained_history_def)
qed

section \<open>Transactions the search does not know\<close>

text \<open>The search hands every transaction that is not a publication to the lifecycle handler.\<close>

definition lifecycle_type :: "u16 \<Rightarrow> bool" where
  "lifecycle_type ty \<longleftrightarrow>
     ty \<in> {STN_TX_PUBLICATION, STN_TX_AUTHORITY_GRANT, STN_TX_AUTHORITY_REVOKE, STN_TX_IDENTITY_ROTATE}"

lemma lifecycle_of_other:
  "\<not> lifecycle_type (txn_type tx) \<Longrightarrow> fst (lifecycle_of ed c s tx) \<noteq> STN_LIFECYCLE_OK"
  by (auto simp: lifecycle_of_def stn_lifecycle_apply_transaction_def lifecycle_type_def Let_def split: option.splits)

lemma search_tx_other:
  assumes "stn_transaction_decode sha (Some t) = Inr tx" "\<not> lifecycle_type (txn_type tx)"
  shows "search_tx sha ed c P st inactive block height j t s = Inl STN_DATA_PROVIDER_ERROR"
proof -
  obtain r h where h: "lifecycle_of ed c (ss_historical s) tx = (r, h)" by force
  with lifecycle_of_other [OF assms(2), of ed c "ss_historical s"] have "r \<noteq> STN_LIFECYCLE_OK" by simp
  with assms h show ?thesis
    by (simp add: search_tx_def search_rest_def search_advance_def lifecycle_type_def)
qed

text \<open>A transaction of a block, of another type.\<close>

definition holds_other :: "stn_hash_fn \<Rightarrow> bytes \<Rightarrow> bool" where
  "holds_other sha block \<longleftrightarrow> (\<exists>h ts t tx. block_parts sha block h ts \<and> t \<in> set ts \<and>
     stn_transaction_decode sha (Some t) = Inr tx \<and> \<not> lifecycle_type (txn_type tx))"

lemma search_txs_other:
  assumes "\<forall>t \<in> set ts. valid_tx sha t" "t \<in> set ts" "stn_transaction_decode sha (Some t) = Inr tx"
    "\<not> lifecycle_type (txn_type tx)"
  shows "search_txs sha ed c P statement inactive block height (length ts) j (frames ts) s \<noteq> Inr (Inr s')"
  using assms(1,2)
proof (induction ts arbitrary: j s)
  case (Cons u us)
  have span: "front_span (frames (u # us)) = (u, frames us)"
    using frame_read64 [OF valid_tx_length(2), of sha u "frames us"] Cons.prems(1)
      read_frame(2) [OF valid_tx_length(2), of sha u "frames us"]
    by (simp add: front_span_def Let_def)
  show ?case
  proof (cases "t = u")
    case True
    with search_tx_other [OF assms(3,4)] span show ?thesis by simp
  next
    case False
    with Cons.prems have "t \<in> set us" "\<forall>t \<in> set us. valid_tx sha t" by simp_all
    with span Cons.IH show ?thesis by (auto split: sum.splits)
  qed
qed simp

lemma search_blocks_other:
  assumes "b \<in> set blocks" "holds_other sha b"
  shows "search_blocks sha ed c P statement activation i blocks s \<noteq> Inr (Inr s')"
  using assms(1)
proof (induction blocks arbitrary: i s)
  case (Cons block blocks)
  show ?case
  proof (cases "b = block")
    case True
    from assms(2) obtain h ts t tx where t: "block_parts sha b h ts" "t \<in> set ts"
        "stn_transaction_decode sha (Some t) = Inr tx" "\<not> lifecycle_type (txn_type tx)"
      by (auto simp: holds_other_def)
    have "\<forall>t \<in> set ts. valid_tx sha t" "unat (bh_transaction_count h) = length ts"
      using t(1) by (auto simp: block_parts_def)
    with search_txs_other [OF _ t(2-4)] block_parts_decode(1) [OF t(1)] True show ?thesis
      by (auto split: sum.splits)
  next
    case False
    with Cons show ?thesis by (auto split: sum.splits)
  qed
qed simp

lemma record_search_other:
  assumes "b \<in> set blocks" "holds_other sha b"
  shows "record_search sha ed al c (Some blocks) P \<noteq> Inr None"
  using search_blocks_other [OF assms]
  by (auto simp: record_search_def split: sum.splits prod.splits if_splits)

section \<open>Properties\<close>

text \<open>
  C10. The record queries enumerate. When the history is revalidated and its searches find their memory,
  the first query answers the first eligible publication of the history, each next query from the
  position of one answers the one that follows it in chain order and END after the last, and a lookup
  answers the first one with the identifier. The positions increase strictly and each lies in a block of
  the history, within its transactions, so the traversal visits every eligible publication once.
\<close>

theorem record_enumeration:
  assumes "eligible_records sha ed al c blocks = Some es'" "eligible_records sha ed al' c blocks = Some es"
  shows "stn_chain_first_record sha ed al' c (Some blocks) =
      (case es of [] \<Rightarrow> (STN_FIRST_END, None) | e # _ \<Rightarrow> (STN_FIRST_RECORD, Some e)) \<and>
    (\<forall>i. i < length es \<longrightarrow> stn_chain_next_record sha ed al al' c (Some blocks) (Some (snd (es ! i))) =
      (if Suc i < length es then (STN_NEXT_RECORD, Some (es ! Suc i)) else (STN_NEXT_END, None))) \<and>
    (\<forall>key. stn_chain_lookup_record sha ed al' c (Some blocks) (Some key) =
      Inr (case find (\<lambda>e. mt_record_id (fst e) = key) es of None \<Rightarrow> no_match | Some e \<Rightarrow> fst e)) \<and>
    sorted_wrt entry_before es \<and> (\<forall>e \<in> set es. located sha c blocks (snd e))"
  using first_record_eligible [OF assms(2)] next_record_eligible [OF assms] lookup_record_eligible [OF assms(2)]
    eligible_records_positions [OF assms(2)] by blast

theorem record_enumeration_witness:
  "stn_chain_first_record sample_sha sample_ed ok_search record_context (Some current_history) =
      (STN_FIRST_RECORD, Some sample_entry) \<and>
   stn_chain_next_record sample_sha sample_ed ok_search ok_search record_context (Some current_history)
      (Some (snd sample_entry)) = (STN_NEXT_END, None) \<and>
   stn_chain_lookup_record sample_sha sample_ed ok_search record_context (Some current_history) (Some (replicate 32 9)) =
      Inr (fst sample_entry)"
  using record_enumeration [OF sample_records sample_records]
  by (auto simp: sample_entry_def)

text \<open>
  C11. The recovery of a consumer. When its cursor is detached from the current history but was valid in
  the one it retained, the plan rolls back to the last block the two histories share, and resumes after
  the last eligible record of the current history at or below that block; when there is none it resumes
  from the start. So no eligible record above the common ancestor is skipped and none below it is
  delivered again.
\<close>

theorem consumer_recovery_exact:
  assumes "stn_chain_resolve_cursor_reorg sha ed (pa_resolve al) c (Some blocks) retained cursor =
      (STN_CURSOR_REORG_COMMON_ANCESTOR, Some a)"
    "eligible_records sha ed (pa_first al) c blocks = Some es"
    "\<And>k. \<exists>fs. eligible_records sha ed (fst (pa_next al k)) c blocks = Some fs"
    "\<And>k. eligible_records sha ed (snd (pa_next al k)) c blocks = Some es"
  shows "stn_chain_build_consumer_recovery_plan sha ed al c (Some blocks) retained cursor =
      (if records_below (an_height a) es = []
       then (STN_RECOVERY_FROM_START, Some \<lparr>cp_rollback = a, cp_resume = zero_cursor\<rparr>)
       else (STN_RECOVERY_AFTER_CURSOR,
         Some \<lparr>cp_rollback = a, cp_resume = snd (last (records_below (an_height a) es))\<rparr>)) \<and>
    stn_chain_cursor_validate sha ed (ra_current (pa_resolve al)) c (Some blocks) cursor = STN_CURSOR_DETACHED \<and>
    stn_chain_cursor_validate sha ed (ra_retained (pa_resolve al)) c retained cursor = STN_CURSOR_VALID \<and>
    (\<exists>ys. retained = Some ys \<and> common_ancestor sha c blocks ys a)"
  using recovery_plan_eligible [OF assms] resolve_cases [OF assms(1)] by auto

theorem consumer_recovery_exact_witness:
  "stn_chain_build_consumer_recovery_plan sample_sha sample_ed ok_recovery record_context (Some current_history)
     (Some retained_history) (Some sample_cursor) =
   (STN_RECOVERY_AFTER_CURSOR, Some \<lparr>cp_rollback = \<lparr>an_height = 1, an_block_id = replicate 32 9\<rparr>,
      cp_resume = snd sample_entry\<rparr>)"
proof -
  have "records_below 1 [sample_entry] = [sample_entry]" by (simp add: records_below_def sample_entry_def)
  with consumer_recovery_exact [OF sample_resolved, of "[sample_entry]"] sample_records show ?thesis
    by (simp add: ok_recovery_def)
qed

text \<open>
  C24. A history the queries cannot finish. When a block of the history holds a transaction that is not a
  publication, grant, revocation or rotation (a contract action, a share, a transfer, ...), no traversal
  ever ends: the first query and every next query answer a record or an error, never END, although the
  block is accepted by the chain.
\<close>

theorem record_traversal_unfinished:
  assumes "b \<in> set blocks" "holds_other sha b"
  shows "fst (stn_chain_first_record sha ed al c (Some blocks)) \<noteq> STN_FIRST_END \<and>
    fst (stn_chain_next_record sha ed al al' c (Some blocks) cursor) \<noteq> STN_NEXT_END"
  using record_search_other [OF assms]
  by (auto simp: stn_chain_first_record_def stn_chain_next_record_def
      split: sum.splits option.splits stn_cursor_result.splits)

theorem record_traversal_unfinished_witness:
  "fst (stn_chain_first_record sample_sha sample_ed ok_search sample_context (Some [sample_block_bytes])) \<noteq> STN_FIRST_END"
proof -
  have "ucast (stn_wire_read (drop 6 sample_tx) 2) = (7 :: u16)"
    by (simp add: sample_tx_def transaction_magic_def stn_wire_read_def)
  moreover obtain tx where tx: "stn_transaction_decode sample_sha (Some sample_tx) = Inr tx"
    using sample_tx_valid(1) [of sample_sha] unfolding valid_tx_def tx_structure_iff by blast
  ultimately have "\<not> lifecycle_type (txn_type tx)"
    by (auto simp: tx_decode_iff lifecycle_type_def)
  with tx sample_parts have "holds_other sample_sha sample_block_bytes"
    unfolding holds_other_def by (metis list.set_intros(1))
  then show ?thesis
    using record_traversal_unfinished [of sample_block_bytes "[sample_block_bytes]" sample_sha sample_ed ok_search] by simp
qed

end
