(* ===== verification/Stn_Validation.thy ===== *)
theory Stn_Validation
  imports Stn_Chain_Candidate Stn_Sentinel
begin

text \<open>
  The validation pipeline of an intelligence record, \<^verbatim>\<open>src/src/stn_validation.c\<close>: seven stages in a fixed
  order over a caller's snapshot. The signature, authority and replay hooks are parameters of the
  context; a hook is None for a NULL pointer.
\<close>

section \<open>Context and report\<close>

record stn_validation_context =
  vc_expected_network :: bytes
  vc_time_configured :: bool
  vc_validation_time :: u64
  vc_future_tolerance_seconds :: u64
  vc_max_age_seconds :: u64
  vc_verify_signature :: "(bytes \<Rightarrow> bytes \<Rightarrow> bytes \<Rightarrow> bytes \<Rightarrow> stn_stage_status) option"
  vc_lookup_authority :: "(stn_record \<Rightarrow> stn_sentinel_intelligence \<Rightarrow> stn_stage_status) option"
  vc_check_replay :: "(stn_record \<Rightarrow> stn_stage_status) option"

record stn_validation_report =
  vr_structure :: stn_stage_status
  vr_payload :: stn_stage_status
  vr_network :: stn_stage_status
  vr_time :: stn_stage_status
  vr_signature :: stn_stage_status
  vr_authority :: stn_stage_status
  vr_replay :: stn_stage_status
  vr_acceptance :: stn_acceptance
  vr_envelope_error :: stn_record_status
  vr_payload_error :: stn_sentinel_intelligence_status

definition zero_validation_report :: stn_validation_report where
  "zero_validation_report =
     \<lparr>vr_structure = STN_STAGE_NOT_RUN, vr_payload = STN_STAGE_NOT_RUN, vr_network = STN_STAGE_NOT_RUN,
      vr_time = STN_STAGE_NOT_RUN, vr_signature = STN_STAGE_NOT_RUN, vr_authority = STN_STAGE_NOT_RUN,
      vr_replay = STN_STAGE_NOT_RUN, vr_acceptance = STN_ACCEPTANCE_REJECTED,
      vr_envelope_error = STN_RECORD_OK, vr_payload_error = STN_SENTINEL_INTELLIGENCE_OK\<rparr>"

definition sign_domain :: bytes where
  "sign_domain = ascii ''STN-CHAIN:RECORD:SIGN:1'' @ [0]"

definition checked_hook :: "stn_stage_status \<Rightarrow> stn_stage_status" where
  "checked_hook value = (if value = STN_STAGE_NOT_RUN then STN_STAGE_ERROR else value)"

definition stopped :: "stn_validation_report \<Rightarrow> stn_stage_status \<Rightarrow> stn_validation_report" where
  "stopped r status =
     r\<lparr>vr_acceptance := (case status of STN_STAGE_REJECT \<Rightarrow> STN_ACCEPTANCE_REJECTED
        | STN_STAGE_UNRESOLVED \<Rightarrow> STN_ACCEPTANCE_UNRESOLVED | _ \<Rightarrow> STN_ACCEPTANCE_ERROR)\<rparr>"

section \<open>The stages\<close>

definition time_stage :: "stn_validation_context \<Rightarrow> stn_record \<Rightarrow> stn_sentinel_intelligence \<Rightarrow> stn_stage_status" where
  "time_stage c r intelligence =
     (if si_observed_at intelligence > rec_issued_at r then STN_STAGE_REJECT
      else if \<not> vc_time_configured c then STN_STAGE_UNRESOLVED
      else if rec_issued_at r > vc_validation_time c \<and>
        rec_issued_at r - vc_validation_time c > vc_future_tolerance_seconds c then STN_STAGE_REJECT
      else if vc_max_age_seconds c \<noteq> 0 \<and> vc_validation_time c > rec_issued_at r \<and>
        vc_validation_time c - rec_issued_at r > vc_max_age_seconds c then STN_STAGE_REJECT
      else STN_STAGE_PASS)"

definition signature_stage :: "stn_validation_context \<Rightarrow> bytes \<Rightarrow> stn_record \<Rightarrow> stn_stage_status" where
  "signature_stage c bs r =
     (case vc_verify_signature c of
        None \<Rightarrow> STN_STAGE_UNRESOLVED
      | Some verify \<Rightarrow> checked_hook (verify sign_domain
          (take (STN_RECORD_HEADER_SIZE + unat (rec_payload_length r)) bs) (rec_signer_public_key r) (rec_signature r)))"

definition authority_stage ::
  "stn_validation_context \<Rightarrow> stn_record \<Rightarrow> stn_sentinel_intelligence \<Rightarrow> stn_stage_status" where
  "authority_stage c r intelligence =
     (case vc_lookup_authority c of None \<Rightarrow> STN_STAGE_UNRESOLVED | Some f \<Rightarrow> checked_hook (f r intelligence))"

definition replay_stage :: "stn_validation_context \<Rightarrow> stn_record \<Rightarrow> stn_stage_status" where
  "replay_stage c r =
     (case vc_check_replay c of None \<Rightarrow> STN_STAGE_UNRESOLVED | Some f \<Rightarrow> checked_hook (f r))"

definition stn_validate_intelligence_record ::
  "bytes option \<Rightarrow> stn_validation_context option \<Rightarrow> stn_validation_report" where
  "stn_validate_intelligence_record input context =
     (let r = zero_validation_report\<lparr>vr_acceptance := STN_ACCEPTANCE_ERROR\<rparr>
      in case (input, context) of
           (Some bs, Some c) \<Rightarrow>
             (case stn_record_decode (Some bs) of
                Inl e \<Rightarrow> stopped (r\<lparr>vr_envelope_error := e, vr_structure := STN_STAGE_REJECT\<rparr>) STN_STAGE_REJECT
              | Inr record \<Rightarrow>
                  (let r = r\<lparr>vr_structure := STN_STAGE_PASS\<rparr>
                   in case stn_sentinel_intelligence_decode (rec_payload record) of
                        Inl e \<Rightarrow> stopped (r\<lparr>vr_payload_error := e, vr_payload := STN_STAGE_REJECT\<rparr>) STN_STAGE_REJECT
                      | Inr intelligence \<Rightarrow>
                          (let r = r\<lparr>vr_payload := STN_STAGE_PASS\<rparr>;
                               network = (if memcmp (rec_network_id record) (vc_expected_network c) = 0
                                 then STN_STAGE_PASS else STN_STAGE_REJECT);
                               r = r\<lparr>vr_network := network\<rparr>
                           in if network \<noteq> STN_STAGE_PASS then stopped r network
                              else
                                (let time = time_stage c record intelligence; r = r\<lparr>vr_time := time\<rparr>
                                 in if time \<noteq> STN_STAGE_PASS then stopped r time
                                    else
                                      (let signature = signature_stage c bs record; r = r\<lparr>vr_signature := signature\<rparr>
                                       in if signature \<noteq> STN_STAGE_PASS then stopped r signature
                                          else
                                            (let authority = authority_stage c record intelligence;
                                                 r = r\<lparr>vr_authority := authority\<rparr>
                                             in if authority \<noteq> STN_STAGE_PASS then stopped r authority
                                                else
                                                  (let replay = replay_stage c record; r = r\<lparr>vr_replay := replay\<rparr>
                                                   in if replay \<noteq> STN_STAGE_PASS then stopped r replay
                                                      else r\<lparr>vr_acceptance := STN_ACCEPTANCE_UNDER_CONTEXT\<rparr>)))))))
         | _ \<Rightarrow> r)"

section \<open>The pipeline as a list of stages\<close>

text \<open>The window of time, in integers.\<close>

definition in_time :: "stn_validation_context \<Rightarrow> stn_record \<Rightarrow> stn_sentinel_intelligence \<Rightarrow> bool" where
  "in_time c r intelligence \<longleftrightarrow> vc_time_configured c \<and> unat (si_observed_at intelligence) \<le> unat (rec_issued_at r) \<and>
     unat (rec_issued_at r) \<le> unat (vc_validation_time c) + unat (vc_future_tolerance_seconds c) \<and>
     (vc_max_age_seconds c = 0 \<or>
      unat (vc_validation_time c) \<le> unat (rec_issued_at r) + unat (vc_max_age_seconds c))"

lemma time_stage_pass: "time_stage c r intelligence = STN_STAGE_PASS \<longleftrightarrow> in_time c r intelligence"
proof -
  have diff: "unat (a - b) = unat a - unat b" if "b < a" for a b :: u64
    using that by (intro unat_sub) simp
  have "(rec_issued_at r > vc_validation_time c \<and>
      rec_issued_at r - vc_validation_time c > vc_future_tolerance_seconds c) \<longleftrightarrow>
      \<not> unat (rec_issued_at r) \<le> unat (vc_validation_time c) + unat (vc_future_tolerance_seconds c)"
    using diff [of "vc_validation_time c" "rec_issued_at r"] by (auto simp: word_less_nat_alt)
  moreover have "(vc_validation_time c > rec_issued_at r \<and>
      vc_validation_time c - rec_issued_at r > vc_max_age_seconds c) \<longleftrightarrow>
      \<not> unat (vc_validation_time c) \<le> unat (rec_issued_at r) + unat (vc_max_age_seconds c)"
    using diff [of "rec_issued_at r" "vc_validation_time c"] by (auto simp: word_less_nat_alt)
  moreover have "si_observed_at intelligence > rec_issued_at r \<longleftrightarrow>
      \<not> unat (si_observed_at intelligence) \<le> unat (rec_issued_at r)"
    by (simp add: word_less_nat_alt not_le)
  ultimately show ?thesis unfolding time_stage_def in_time_def by simp
qed

lemma checked_hook_pass: "checked_hook v = STN_STAGE_PASS \<longleftrightarrow> v = STN_STAGE_PASS"
  by (simp add: checked_hook_def)

text \<open>What acceptance under the context means.\<close>

definition record_passes :: "stn_validation_context \<Rightarrow> bytes \<Rightarrow> bool" where
  "record_passes c bs \<longleftrightarrow>
     (\<exists>r intelligence verify authority replay. stn_record_decode (Some bs) = Inr r \<and>
        stn_sentinel_intelligence_decode (rec_payload r) = Inr intelligence \<and>
        rec_network_id r = vc_expected_network c \<and> in_time c r intelligence \<and>
        vc_verify_signature c = Some verify \<and>
        verify sign_domain (take (116 + unat (rec_payload_length r)) bs) (rec_signer_public_key r) (rec_signature r) =
          STN_STAGE_PASS \<and>
        vc_lookup_authority c = Some authority \<and> authority r intelligence = STN_STAGE_PASS \<and>
        vc_check_replay c = Some replay \<and> replay r = STN_STAGE_PASS)"

definition report_stages :: "stn_validation_report \<Rightarrow> stn_stage_status list" where
  "report_stages r = [vr_structure r, vr_payload r, vr_network r, vr_time r, vr_signature r, vr_authority r, vr_replay r]"

text \<open>The stages pass up to one that does not, and none runs after it; the acceptance is that one's.\<close>

definition stops_at_first :: "stn_validation_report \<Rightarrow> bool" where
  "stops_at_first r \<longleftrightarrow>
     (\<exists>k. k < 7 \<and> report_stages r ! k \<notin> {STN_STAGE_PASS, STN_STAGE_NOT_RUN} \<and>
        (\<forall>i < k. report_stages r ! i = STN_STAGE_PASS) \<and> (\<forall>i \<in> {k<..<7}. report_stages r ! i = STN_STAGE_NOT_RUN) \<and>
        vr_acceptance r = vr_acceptance (stopped r (report_stages r ! k)) \<and>
        vr_acceptance r \<noteq> STN_ACCEPTANCE_UNDER_CONTEXT)"

section \<open>The pipeline is exact\<close>

lemma stopped_rejects:
  assumes "v \<noteq> STN_STAGE_PASS" "v \<noteq> STN_STAGE_NOT_RUN"
  shows "vr_acceptance (stopped r v) \<noteq> STN_ACCEPTANCE_UNDER_CONTEXT"
  using assms by (cases v) (simp_all add: stopped_def)

lemma stopped_stages [simp]: "report_stages (stopped r v) = report_stages r"
  by (simp add: report_stages_def stopped_def)

text \<open>A report with k passed stages, one stage that stopped it and the others not run.\<close>

lemma stops_at_firstI:
  assumes "report_stages r = replicate k STN_STAGE_PASS @ v # replicate (6 - k) STN_STAGE_NOT_RUN" and "k < 7"
    and "v \<noteq> STN_STAGE_PASS" "v \<noteq> STN_STAGE_NOT_RUN"
  shows "stops_at_first (stopped r v)"
proof -
  have same: "vr_acceptance (stopped (stopped r v) v) = vr_acceptance (stopped r v)" by (simp add: stopped_def)
  have "report_stages r ! i = STN_STAGE_NOT_RUN" if "i \<in> {k<..<7}" for i
  proof -
    have "i - Suc k < 6 - k" using that by auto
    then show ?thesis using that assms(1) by (simp add: nth_append nth_Cons')
  qed
  then show ?thesis
    unfolding stops_at_first_def using assms same stopped_rejects [OF assms(3,4), of r]
    by (intro exI [of _ k]) (simp add: nth_append)
qed

lemma hook_not_unrun [simp]: "checked_hook v \<noteq> STN_STAGE_NOT_RUN"
  by (simp add: checked_hook_def)

lemma stages_run [simp]:
  "time_stage c r x \<noteq> STN_STAGE_NOT_RUN" "signature_stage c bs r \<noteq> STN_STAGE_NOT_RUN"
  "authority_stage c r x \<noteq> STN_STAGE_NOT_RUN" "replay_stage c r \<noteq> STN_STAGE_NOT_RUN"
  by (auto simp: time_stage_def signature_stage_def authority_stage_def replay_stage_def split: option.splits)

lemma stages_pass:
  "signature_stage c bs r = STN_STAGE_PASS \<longleftrightarrow> (\<exists>verify. vc_verify_signature c = Some verify \<and>
     verify sign_domain (take (116 + unat (rec_payload_length r)) bs) (rec_signer_public_key r) (rec_signature r) =
       STN_STAGE_PASS)"
  "authority_stage c r x = STN_STAGE_PASS \<longleftrightarrow>
     (\<exists>authority. vc_lookup_authority c = Some authority \<and> authority r x = STN_STAGE_PASS)"
  "replay_stage c r = STN_STAGE_PASS \<longleftrightarrow> (\<exists>replay. vc_check_replay c = Some replay \<and> replay r = STN_STAGE_PASS)"
  by (auto simp: signature_stage_def authority_stage_def replay_stage_def checked_hook_pass STN_RECORD_HEADER_SIZE_def
    split: option.splits)


lemma stopped_at_first:
  assumes "report_stages r =
      (let passed = takeWhile ((=) STN_STAGE_PASS) (report_stages r)
       in passed @ v # replicate (6 - length passed) STN_STAGE_NOT_RUN)"
    and "v \<noteq> STN_STAGE_PASS" "v \<noteq> STN_STAGE_NOT_RUN"
  shows "stops_at_first (stopped r v)"
proof -
  define passed where "passed = takeWhile ((=) STN_STAGE_PASS) (report_stages r)"
  have stages: "report_stages r = passed @ v # replicate (6 - length passed) STN_STAGE_NOT_RUN"
    using assms(1) unfolding Let_def passed_def .
  have "\<forall>y \<in> set passed. y = STN_STAGE_PASS" unfolding passed_def by (auto dest: set_takeWhileD)
  then obtain k where k: "passed = replicate k STN_STAGE_PASS" by (metis replicate_length_same)
  have "report_stages r = replicate k STN_STAGE_PASS @ v # replicate (6 - k) STN_STAGE_NOT_RUN"
    using stages unfolding k length_replicate .
  moreover have "k < 7"
    using arg_cong [OF calculation, of length] by (simp add: report_stages_def)
  ultimately show ?thesis using assms(2,3) by (rule stops_at_firstI)
qed

lemma validation_outcome:
  "if record_passes c bs
   then report_stages (stn_validate_intelligence_record (Some bs) (Some c)) = replicate 7 STN_STAGE_PASS \<and>
     vr_acceptance (stn_validate_intelligence_record (Some bs) (Some c)) = STN_ACCEPTANCE_UNDER_CONTEXT
   else stops_at_first (stn_validate_intelligence_record (Some bs) (Some c))"
proof (cases "stn_record_decode (Some bs)")
  case (Inl e)
  then show ?thesis
    by (simp add: stn_validate_intelligence_record_def record_passes_def del: stn_record_decode.simps)
      (rule stopped_at_first, simp_all add: report_stages_def zero_validation_report_def eval_nat_numeral)
next
  case decoded: (Inr r)
  show ?thesis
  proof (cases "stn_sentinel_intelligence_decode (rec_payload r)")
    case (Inl e)
    then show ?thesis using decoded
      by (simp add: stn_validate_intelligence_record_def record_passes_def del: stn_record_decode.simps)
        (rule stopped_at_first, simp_all add: report_stages_def zero_validation_report_def eval_nat_numeral)
  next
    case intelligence: (Inr x)
    have valid: "record_passes c bs \<longleftrightarrow> rec_network_id r = vc_expected_network c \<and> time_stage c r x = STN_STAGE_PASS \<and>
        signature_stage c bs r = STN_STAGE_PASS \<and> authority_stage c r x = STN_STAGE_PASS \<and>
        replay_stage c r = STN_STAGE_PASS"
      using decoded intelligence
      by (auto simp: record_passes_def time_stage_pass stages_pass simp del: stn_record_decode.simps)
    show ?thesis
      unfolding valid
      by (simp add: stn_validate_intelligence_record_def decoded intelligence Let_def report_stages_def
          zero_validation_report_def eval_nat_numeral del: stn_record_decode.simps, intro conjI impI;
        (rule stopped_at_first)?; simp add: report_stages_def eval_nat_numeral)
  qed
qed

text \<open>
  C35. The validation pipeline accepts a record under the context exactly when it is valid: it decodes
  to an intelligence record of the expected network, its times are in the window, and the three hooks
  exist and answer PASS on it. Then all seven stages pass. Any other record stops at the first stage
  that does not pass, no stage runs after it, and the acceptance says which kind of stop it was.
  Without a record or a context no stage runs and the acceptance is ERROR.
\<close>

theorem validation_exact:
  "(if record_passes c bs
    then report_stages (stn_validate_intelligence_record (Some bs) (Some c)) = replicate 7 STN_STAGE_PASS \<and>
      vr_acceptance (stn_validate_intelligence_record (Some bs) (Some c)) = STN_ACCEPTANCE_UNDER_CONTEXT
    else stops_at_first (stn_validate_intelligence_record (Some bs) (Some c))) \<and>
   (\<forall>input. stn_validate_intelligence_record input None = stn_validate_intelligence_record None (Some c)) \<and>
   stn_validate_intelligence_record None (Some c) = zero_validation_report\<lparr>vr_acceptance := STN_ACCEPTANCE_ERROR\<rparr>"
proof -
  have nulls: "stn_validate_intelligence_record input None = zero_validation_report\<lparr>vr_acceptance := STN_ACCEPTANCE_ERROR\<rparr>"
    "stn_validate_intelligence_record None (Some c) = zero_validation_report\<lparr>vr_acceptance := STN_ACCEPTANCE_ERROR\<rparr>" for input
    by (cases input) (simp_all add: stn_validate_intelligence_record_def Let_def)
  have "if record_passes c bs
    then report_stages (stn_validate_intelligence_record (Some bs) (Some c)) = replicate 7 STN_STAGE_PASS \<and>
      vr_acceptance (stn_validate_intelligence_record (Some bs) (Some c)) = STN_ACCEPTANCE_UNDER_CONTEXT
    else stops_at_first (stn_validate_intelligence_record (Some bs) (Some c))"
    by (rule validation_outcome)
  then show ?thesis using nulls by simp
qed

end
