(* ===== verification/Stn_Pending.thy ===== *)
theory Stn_Pending
  imports Stn_Validation Stn_Storage
begin

text \<open>
  The pool of pending transactions, \<^verbatim>\<open>src/src/stn_pending.c\<close>: entries sorted by transaction
  identifier, within a count and a byte budget, and the scan of an accepted history for entries it
  already holds.

  The used slots are a list, so the count is its length and the cleared slots behind it do not appear.
  An entry owns its transaction; None is the NULL of a probe entry. The allocator answers a bool. The
  pool and the output pointers are never NULL here; where the code treats a NULL pool differently from
  an error (admission), the pool is an option.
\<close>

section \<open>The pool\<close>

definition STN_PENDING_MAX_ENTRIES :: nat where [simp]: "STN_PENDING_MAX_ENTRIES = 128"
definition STN_PENDING_MAX_BYTES :: nat where [simp]: "STN_PENDING_MAX_BYTES = 262144"

datatype stn_pending_result =
    STN_PENDING_ACCEPTED | STN_PENDING_DUPLICATE | STN_PENDING_REPLAY | STN_PENDING_INVALID
  | STN_PENDING_UNAVAILABLE | STN_PENDING_CAPACITY | STN_PENDING_PROVIDER | STN_PENDING_SIGNATURE
  | STN_PENDING_AUTHORITY | STN_PENDING_TIME | STN_PENDING_NETWORK | STN_PENDING_UNSUPPORTED
  | STN_PENDING_NOT_FOUND

record stn_pending_entry =
  pe_id :: bytes
  pe_signer :: bytes
  pe_nonce :: bytes
  pe_transaction :: "bytes option"
  pe_length :: nat

record stn_pending =
  pool_entries :: "stn_pending_entry list"
  pool_bytes :: nat

definition stn_pending_init :: stn_pending where
  "stn_pending_init = \<lparr>pool_entries = [], pool_bytes = 0\<rparr>"

definition stn_pending_count :: "stn_pending option \<Rightarrow> nat" where
  "stn_pending_count p = (case p of None \<Rightarrow> 0 | Some pool \<Rightarrow> length (pool_entries pool))"

fun find_id :: "stn_pending_entry list \<Rightarrow> bytes \<Rightarrow> nat" where
  "find_id [] i = 0"
| "find_id (e # es) i = (if memcmp (pe_id e) i < 0 then Suc (find_id es i) else 0)"

definition found_at :: "stn_pending_entry list \<Rightarrow> bytes \<Rightarrow> nat \<Rightarrow> bool" where
  "found_at es i at \<longleftrightarrow> at < length es \<and> memcmp (pe_id (es ! at)) i = 0"

section \<open>Insertion\<close>

text \<open>
  The signer and the nonce an entry is filed under, by transaction type. A contract action has no
  nonce; its field stays zero.
\<close>

definition share_nonce :: "stn_share_evidence \<Rightarrow> bytes" where
  "share_nonce share = take 24 (sh_work_id share) @ nonce_bytes (sh_nonce share)"

text \<open>The signed statement of a grant, a revocation or a rotation; None when the record has none.\<close>

definition lifecycle_statement :: "u16 \<Rightarrow> bytes \<Rightarrow> bytes option" where
  "lifecycle_statement type b =
     (if type = STN_TX_AUTHORITY_GRANT
      then sum_right (stn_authority_grant_statement (Some (drop 1 b)) (Some (drop 33 b)) 256)
      else if type = STN_TX_AUTHORITY_REVOKE
      then sum_right (stn_authority_revocation_statement (Some (drop 1 b)) (Some (drop 33 b)) 256)
      else if type = STN_TX_IDENTITY_ROTATE
      then sum_right (stn_identity_rotation_statement (Some (drop 1 b)) (Some (drop 33 b)) 256)
      else None)"

definition insert_key ::
  "stn_hash_fn \<Rightarrow> stn_hash_provider \<Rightarrow> stn_transaction \<Rightarrow> stn_pending_result + (bytes \<times> bytes)" where
  "insert_key sha provider tx =
     (let r = txn_record_bytes tx
      in if txn_type tx = STN_TX_PUBLICATION
         then (case stn_record_decode r of Inl _ \<Rightarrow> Inl STN_PENDING_INVALID
           | Inr record \<Rightarrow> Inr (rec_signer_public_key record, rec_nonce record))
         else if txn_type tx = STN_TX_CONTRACT_ACTION
         then (case stn_contract_transaction_decode sha r of Inl _ \<Rightarrow> Inl STN_PENDING_INVALID
           | Inr t \<Rightarrow> Inr (ctx_actor t, replicate 32 0))
         else if txn_type tx = STN_TX_SHARE_EVIDENCE
         then (case stn_share_decode r of Inl _ \<Rightarrow> Inl STN_PENDING_INVALID
           | Inr share \<Rightarrow> Inr (addr_id (sh_miner share), share_nonce share))
         else if txn_type tx = STN_TX_COMPENSATION_DESTINATION
         then (case stn_compensation_destination_decode r of Inl _ \<Rightarrow> Inl STN_PENDING_INVALID
           | Inr d \<Rightarrow> Inr (addr_id (dest_identity d), addr_id (dest_wallet d)))
         else if txn_type tx = STN_TX_ISSUANCE
         then (case stn_issuance_decode r of Inl _ \<Rightarrow> Inl STN_PENDING_INVALID
           | Inr i \<Rightarrow> Inr (addr_id (dest_identity (iss_destination i)), iss_evidence_id i))
         else if txn_type tx = STN_TX_TRANSFER
         then (case stn_transfer_envelope_decode r of Inl _ \<Rightarrow> Inl STN_PENDING_INVALID
           | Inr e \<Rightarrow> Inr (env_controller e, env_nonce e))
         else
           (case lifecycle_statement (txn_type tx) (the r) of
              None \<Rightarrow> Inl STN_PENDING_INVALID
            | Some statement \<Rightarrow>
                (case stn_lifecycle_replay_nonce (txn_type tx) (Some statement) provider of
                   Inl _ \<Rightarrow> Inl STN_PENDING_PROVIDER
                 | Inr nonce \<Rightarrow> Inr (take 32 (drop 1 (the r)), nonce))))"

text \<open>The tail of both insertions: position, duplicate, capacity, allocation, shift.\<close>

definition pool_insert :: "bool \<Rightarrow> stn_pending_entry \<Rightarrow> stn_pending \<Rightarrow> stn_pending_result \<times> stn_pending" where
  "pool_insert alloc e p =
     (let es = pool_entries p; at = find_id es (pe_id e)
      in if found_at es (pe_id e) at then (STN_PENDING_DUPLICATE, p)
         else if length es \<ge> STN_PENDING_MAX_ENTRIES \<or> pe_length e > STN_PENDING_MAX_BYTES - pool_bytes p
         then (STN_PENDING_CAPACITY, p)
         else if \<not> alloc then (STN_PENDING_CAPACITY, p)
         else (STN_PENDING_ACCEPTED,
           \<lparr>pool_entries = take at es @ e # drop at es, pool_bytes = pool_bytes p + pe_length e\<rparr>))"

text \<open>The answer, the identifier written on acceptance, and the pool.\<close>

definition stn_pending_insert ::
  "stn_hash_fn \<Rightarrow> bool \<Rightarrow> stn_pending \<Rightarrow> bytes option \<Rightarrow> stn_hash_provider \<Rightarrow>
   stn_pending_result \<times> bytes option \<times> stn_pending" where
  "stn_pending_insert sha alloc p input provider =
     (case stn_transaction_decode sha input of
        Inl _ \<Rightarrow> (STN_PENDING_INVALID, None, p)
      | Inr tx \<Rightarrow>
          (case insert_key sha provider tx of
             Inl result \<Rightarrow> (result, None, p)
           | Inr (signer, nonce) \<Rightarrow>
               (case stn_transaction_id sha input provider of
                  Inl _ \<Rightarrow> (STN_PENDING_PROVIDER, None, p)
                | Inr i \<Rightarrow>
                    (case pool_insert alloc \<lparr>pe_id = i, pe_signer = signer, pe_nonce = nonce,
                         pe_transaction = input, pe_length = length (the input)\<rparr> p of
                       (result, p') \<Rightarrow>
                         (result, if result = STN_PENDING_ACCEPTED then Some i else None, p')))))"

section \<open>Lookup, removal, enumeration\<close>

definition stn_pending_lookup :: "stn_pending \<Rightarrow> bytes \<Rightarrow> nat \<Rightarrow> stn_pending_result + bytes" where
  "stn_pending_lookup p i capacity =
     (let es = pool_entries p; at = find_id es i
      in if \<not> found_at es i at then Inl STN_PENDING_NOT_FOUND
         else if capacity < pe_length (es ! at) then Inl STN_PENDING_CAPACITY
         else Inr (take (pe_length (es ! at)) (the (pe_transaction (es ! at)))))"

definition stn_pending_remove :: "stn_pending \<Rightarrow> bytes \<Rightarrow> stn_pending_result \<times> stn_pending" where
  "stn_pending_remove p i =
     (let es = pool_entries p; at = find_id es i
      in if \<not> found_at es i at then (STN_PENDING_NOT_FOUND, p)
         else (STN_PENDING_ACCEPTED,
           \<lparr>pool_entries = take at es @ drop (at + 1) es, pool_bytes = pool_bytes p - pe_length (es ! at)\<rparr>))"

definition stn_pending_enumerate :: "stn_pending \<Rightarrow> nat \<Rightarrow> nat \<Rightarrow> bytes list" where
  "stn_pending_enumerate p start capacity =
     (let es = pool_entries p;
          n = (if start < length es then length es - start else 0);
          n = (if n > capacity then capacity else n)
      in map (\<lambda>i. pe_id (es ! (start + i))) [0..<n])"

definition stn_pending_clear :: "stn_pending \<Rightarrow> stn_pending" where
  "stn_pending_clear p = \<lparr>pool_entries = [], pool_bytes = 0\<rparr>"

text \<open>Removal of the marked entries; there is one mark per slot.\<close>

fun prune_loop :: "stn_pending_entry list \<Rightarrow> bool list \<Rightarrow> nat \<Rightarrow> stn_pending_entry list \<times> nat" where
  "prune_loop [] remove left = ([], left)"
| "prune_loop (e # es) remove left =
     (if hd remove then prune_loop es (tl remove) (left - pe_length e)
      else (case prune_loop es (tl remove) left of (kept, left') \<Rightarrow> (e # kept, left')))"

definition stn_pending_prune :: "stn_pending \<Rightarrow> bool list \<Rightarrow> stn_pending" where
  "stn_pending_prune p remove =
     (case prune_loop (pool_entries p) remove (pool_bytes p) of
        (kept, left) \<Rightarrow> \<lparr>pool_entries = kept, pool_bytes = left\<rparr>)"

section \<open>The scan of the accepted history\<close>

text \<open>The function of a provider pointer that may be NULL itself.\<close>

definition provider_fn :: "stn_hash_provider option \<Rightarrow> stn_hash_provider" where
  "provider_fn provider = (case provider of None \<Rightarrow> None | Some hash \<Rightarrow> hash)"

text \<open>
  What the scan extracts from an accepted transaction: whether it is compared as a whole (lifecycle
  and contract transactions) or by signer and nonce. Without a hash the lifecycle records are not
  looked into.
\<close>

definition history_key ::
  "stn_hash_fn \<Rightarrow> stn_hash_provider option \<Rightarrow> stn_transaction \<Rightarrow> stn_data_status + (bool \<times> bytes \<times> bytes)" where
  "history_key sha provider tx =
     (let r = txn_record_bytes tx
      in if txn_type tx = STN_TX_CONTRACT_ACTION
         then (case stn_contract_transaction_decode sha r of Inl _ \<Rightarrow> Inl STN_DATA_CONTENT
           | Inr t \<Rightarrow> Inr (True, ctx_actor t, []))
         else if txn_type tx = STN_TX_SHARE_EVIDENCE
         then (case stn_share_decode r of Inl _ \<Rightarrow> Inl STN_DATA_CONTENT
           | Inr share \<Rightarrow> Inr (False, addr_id (sh_miner share), share_nonce share))
         else if txn_type tx = STN_TX_COMPENSATION_DESTINATION
         then (case stn_compensation_destination_decode r of Inl _ \<Rightarrow> Inl STN_DATA_CONTENT
           | Inr d \<Rightarrow> Inr (False, addr_id (dest_identity d), addr_id (dest_wallet d)))
         else if txn_type tx = STN_TX_ISSUANCE
         then (case stn_issuance_decode r of Inl _ \<Rightarrow> Inl STN_DATA_CONTENT
           | Inr i \<Rightarrow> Inr (False, addr_id (dest_identity (iss_destination i)), iss_evidence_id i))
         else if txn_type tx = STN_TX_TRANSFER
         then (case stn_transfer_envelope_decode r of Inl _ \<Rightarrow> Inl STN_DATA_CONTENT
           | Inr e \<Rightarrow> Inr (False, env_controller e, env_nonce e))
         else if txn_type tx = STN_TX_PUBLICATION
         then (case stn_record_decode r of Inl _ \<Rightarrow> Inl STN_DATA_CONTENT
           | Inr record \<Rightarrow> Inr (False, rec_signer_public_key record, rec_nonce record))
         else
           (let signer = take 32 (drop 1 (the r))
            in if provider = None then Inr (True, signer, [])
               else
                 (case lifecycle_statement (txn_type tx) (the r) of
                    None \<Rightarrow> Inl STN_DATA_CONTENT
                  | Some statement \<Rightarrow>
                      (case stn_lifecycle_replay_nonce (txn_type tx) (Some statement) (provider_fn provider) of
                         Inl _ \<Rightarrow> Inl STN_DATA_CONTENT
                       | Inr nonce \<Rightarrow> Inr (True, signer, nonce)))))"

definition same_nonce :: "stn_pending_entry \<Rightarrow> bytes \<Rightarrow> bytes \<Rightarrow> bool" where
  "same_nonce e signer nonce \<longleftrightarrow> memcmp (pe_signer e) signer = 0 \<and> memcmp (pe_nonce e) nonce = 0"

text \<open>
  The comparison of one entry. \<open>rest\<close> is the body from the length field of the transaction, which is
  where the code compares from. None is the comparison with a NULL transaction.
\<close>

definition entry_matches ::
  "bool \<Rightarrow> bool \<Rightarrow> nat \<Rightarrow> bytes \<Rightarrow> bytes \<Rightarrow> bytes \<Rightarrow> bytes \<Rightarrow> stn_pending_entry \<Rightarrow> bool option" where
  "entry_matches replay lifecycle n rest signer nonce i e =
     (if replay
      then if lifecycle
           then if pe_length e = n
                then (case pe_transaction e of None \<Rightarrow> None | Some t \<Rightarrow> Some (memcmp t (take n rest) = 0))
                else Some False
           else Some (same_nonce e signer nonce)
      else Some (memcmp (pe_id e) i = 0))"

fun mark_loop :: "(stn_pending_entry \<Rightarrow> bool option) \<Rightarrow> nat \<Rightarrow> stn_pending_entry list \<Rightarrow> bool list \<Rightarrow> bool list option" where
  "mark_loop f k [] marks = Some marks"
| "mark_loop f k (e # es) marks =
     (case f e of None \<Rightarrow> None
      | Some hit \<Rightarrow> mark_loop f (Suc k) es (if hit then marks[k := True] else marks))"

text \<open>
  The outer None is a read through NULL; inside are the status of a stop or the marks. The marks of a
  scan that stopped stay in the caller's buffer in the code, and every caller discards them.
\<close>

fun scan_txs ::
  "stn_hash_fn \<Rightarrow> stn_hash_provider option \<Rightarrow> bool \<Rightarrow> stn_pending_entry list \<Rightarrow> nat \<Rightarrow> bytes \<Rightarrow> bool list \<Rightarrow>
   bool list data_result option" where
  "scan_txs sha provider replay es 0 rest marks = Some (Inr marks)"
| "scan_txs sha provider replay es (Suc j) rest marks =
     (let n = unat (stn_wire_read rest 4); t = take n (drop 4 rest)
      in case stn_transaction_decode sha (Some t) of
           Inl _ \<Rightarrow> Some (Inl STN_DATA_CONTENT)
         | Inr tx \<Rightarrow>
             (case history_key sha provider tx of
                Inl status \<Rightarrow> Some (Inl status)
              | Inr (lifecycle, signer, nonce) \<Rightarrow>
                  (case (if replay then Inr [] else stn_transaction_id sha (Some t) (provider_fn provider)) of
                     Inl _ \<Rightarrow> Some (Inl STN_DATA_PROVIDER_ERROR)
                   | Inr i \<Rightarrow>
                       (case mark_loop (entry_matches replay lifecycle n rest signer nonce i) 0 es marks of
                          None \<Rightarrow> None
                        | Some marks' \<Rightarrow> scan_txs sha provider replay es j (drop (4 + n) rest) marks'))))"

fun scan_blocks ::
  "stn_hash_fn \<Rightarrow> stn_hash_provider option \<Rightarrow> bool \<Rightarrow> stn_pending_entry list \<Rightarrow> bytes list \<Rightarrow> bool list \<Rightarrow>
   bool list data_result option" where
  "scan_blocks sha provider replay es [] marks = Some (Inr marks)"
| "scan_blocks sha provider replay es (b # bs) marks =
     (case stn_block_decode sha (Some b) of
        Inl _ \<Rightarrow> Some (Inl STN_DATA_CONTENT)
      | Inr block \<Rightarrow>
          (case scan_txs sha provider replay es (unat (bh_transaction_count (blk_header block)))
                  (case blk_body block of None \<Rightarrow> [] | Some body \<Rightarrow> body) marks of
             Some (Inr marks') \<Rightarrow> scan_blocks sha provider replay es bs marks'
           | stop \<Rightarrow> stop))"

definition scan ::
  "stn_hash_fn \<Rightarrow> stn_pending \<Rightarrow> stn_storage_view option \<Rightarrow> bool \<Rightarrow> stn_hash_provider option \<Rightarrow>
   bool list data_result option" where
  "scan sha p view replay provider =
     (case view of
        None \<Rightarrow> Some (Inl STN_DATA_ARGUMENT)
      | Some v \<Rightarrow> scan_blocks sha provider replay (pool_entries p) (vw_blocks v)
          (replicate STN_PENDING_MAX_ENTRIES False))"

definition stn_pending_inclusions ::
  "stn_hash_fn \<Rightarrow> stn_pending \<Rightarrow> stn_storage_view option \<Rightarrow> stn_hash_provider option \<Rightarrow> bool list data_result option" where
  "stn_pending_inclusions sha p view provider = scan sha p view False provider"

section \<open>The inclusions of a committed candidate\<close>

text \<open>\<^verbatim>\<open>src/src/stn_pending_cleanup.c\<close>: by identifier only, with every bound checked; the first entry
  with the identifier is marked.\<close>

fun mark_first :: "bytes \<Rightarrow> nat \<Rightarrow> stn_pending_entry list \<Rightarrow> bool list \<Rightarrow> bool list" where
  "mark_first i k [] marks = marks"
| "mark_first i k (e # es) marks = (if memcmp (pe_id e) i = 0 then marks[k := True] else mark_first i (Suc k) es marks)"

text \<open>
  The marks are written into the caller's buffer as the loop goes, so a stop answers its status and
  the marks made up to it.
\<close>

fun committed_txs ::
  "stn_hash_fn \<Rightarrow> stn_hash_provider \<Rightarrow> stn_pending_entry list \<Rightarrow> nat \<Rightarrow> bytes \<Rightarrow> bool list \<Rightarrow>
   stn_data_status \<times> bool list" where
  "committed_txs sha provider es 0 rest marks = (if rest = [] then STN_DATA_OK else STN_DATA_CONTENT, marks)"
| "committed_txs sha provider es (Suc j) rest marks =
     (if length rest < 4 then (STN_DATA_CONTENT, marks)
      else
        (let n = unat (stn_wire_read rest 4); after = drop 4 rest
         in if n > length after then (STN_DATA_CONTENT, marks)
            else if stn_transaction_validate_structure sha (Some (take n after)) \<noteq> STN_DATA_OK
            then (STN_DATA_CONTENT, marks)
            else
              (case stn_transaction_id sha (Some (take n after)) provider of
                 Inl _ \<Rightarrow> (STN_DATA_PROVIDER_ERROR, marks)
               | Inr i \<Rightarrow> committed_txs sha provider es j (drop n after) (mark_first i 0 es marks))))"

fun committed_blocks ::
  "stn_hash_fn \<Rightarrow> stn_hash_provider \<Rightarrow> stn_pending_entry list \<Rightarrow> bytes list \<Rightarrow> bool list \<Rightarrow>
   stn_data_status \<times> bool list" where
  "committed_blocks sha provider es [] marks = (STN_DATA_OK, marks)"
| "committed_blocks sha provider es (b # bs) marks =
     (case stn_block_decode sha (Some b) of
        Inl _ \<Rightarrow> (STN_DATA_CONTENT, marks)
      | Inr block \<Rightarrow>
          (case committed_txs sha provider es (unat (bh_transaction_count (blk_header block)))
                  (case blk_body block of None \<Rightarrow> [] | Some body \<Rightarrow> body) marks of
             (status, marks') \<Rightarrow>
               if status \<noteq> STN_DATA_OK then (status, marks')
               else committed_blocks sha provider es bs marks'))"

text \<open>
  The status and the caller's buffer \<open>remove\<close>, which is cleared once the arguments are checked. The
  buffer itself is there; the NULL arguments are a missing view and a provider without its function.
\<close>

definition stn_pending_committed_inclusions ::
  "stn_hash_fn \<Rightarrow> stn_pending \<Rightarrow> stn_storage_view option \<Rightarrow> stn_hash_provider \<Rightarrow> bool list \<Rightarrow>
   stn_data_status \<times> bool list" where
  "stn_pending_committed_inclusions sha p view provider remove =
     (case (view, provider) of
        (Some v, Some _) \<Rightarrow>
          committed_blocks sha provider (pool_entries p) (vw_blocks v) (replicate STN_PENDING_MAX_ENTRIES False)
      | _ \<Rightarrow> (STN_DATA_ARGUMENT, remove))"

section \<open>Shares and issuances of an issuance's evidence\<close>

text \<open>A pending share that an issuance pays.\<close>

fun share_for_issuance ::
  "stn_hash_fn \<Rightarrow> stn_issuance_record \<Rightarrow> stn_compensation_state \<Rightarrow> stn_pending_entry list \<Rightarrow> bool data_result" where
  "share_for_issuance sha issuance mapping [] = Inr False"
| "share_for_issuance sha issuance mapping (e # es) =
     (case stn_transaction_decode sha (pe_transaction e) of
        Inl _ \<Rightarrow> Inl STN_DATA_CONTENT
      | Inr tx \<Rightarrow>
          if txn_type tx = STN_TX_SHARE_EVIDENCE
          then (case stn_share_decode (txn_record_bytes tx) of
             Inl _ \<Rightarrow> Inl STN_DATA_CONTENT
           | Inr share \<Rightarrow>
               if stn_issuance_bind_share sha (Some issuance) (Some share) mapping = STN_DATA_OK then Inr True
               else share_for_issuance sha issuance mapping es)
          else share_for_issuance sha issuance mapping es)"

definition pending_share_for_issuance ::
  "stn_hash_fn \<Rightarrow> stn_pending \<Rightarrow> stn_issuance_record \<Rightarrow> stn_compensation_state \<Rightarrow> bool data_result" where
  "pending_share_for_issuance sha p issuance mapping = share_for_issuance sha issuance mapping (pool_entries p)"

text \<open>The accepted share and the accepted issuance of an issuance's evidence; the pair of found flags.\<close>

definition issuance_flags ::
  "stn_hash_fn \<Rightarrow> stn_issuance_record \<Rightarrow> stn_compensation_state \<Rightarrow> stn_transaction \<Rightarrow> bool \<times> bool \<Rightarrow>
   (bool \<times> bool) data_result" where
  "issuance_flags sha issuance mapping tx flags =
     (case flags of (share_found, issuance_found) \<Rightarrow>
        if txn_type tx = STN_TX_SHARE_EVIDENCE
        then (case stn_share_decode (txn_record_bytes tx) of
           Inl _ \<Rightarrow> Inl STN_DATA_CONTENT
         | Inr share \<Rightarrow> Inr (share_found \<or>
             stn_issuance_bind_share sha (Some issuance) (Some share) mapping = STN_DATA_OK, issuance_found))
        else if txn_type tx = STN_TX_ISSUANCE
        then (case stn_issuance_decode (txn_record_bytes tx) of
           Inl _ \<Rightarrow> Inl STN_DATA_CONTENT
         | Inr earlier \<Rightarrow> Inr (share_found, issuance_found \<or> iss_reason earlier = iss_reason issuance \<and>
             memcmp (iss_evidence_id earlier) (iss_evidence_id issuance) = 0))
        else Inr flags)"

fun issuance_txs ::
  "stn_hash_fn \<Rightarrow> stn_issuance_record \<Rightarrow> stn_compensation_state \<Rightarrow> nat \<Rightarrow> bytes \<Rightarrow> bool \<times> bool \<Rightarrow>
   (bool \<times> bool) data_result" where
  "issuance_txs sha issuance mapping 0 rest flags = Inr flags"
| "issuance_txs sha issuance mapping (Suc j) rest flags =
     (if length rest < 4 then Inl STN_DATA_CONTENT
      else
        (let n = unat (ucast (stn_wire_read rest 4) :: u32); after = drop 4 rest
         in if n > length after then Inl STN_DATA_CONTENT
            else
              (case stn_transaction_decode sha (Some (take n after)) of
                 Inl _ \<Rightarrow> Inl STN_DATA_CONTENT
               | Inr tx \<Rightarrow>
                   (case issuance_flags sha issuance mapping tx flags of
                      Inl status \<Rightarrow> Inl status
                    | Inr flags' \<Rightarrow> issuance_txs sha issuance mapping j (drop n after) flags'))))"

fun issuance_blocks ::
  "stn_hash_fn \<Rightarrow> stn_issuance_record \<Rightarrow> stn_compensation_state \<Rightarrow> bytes list \<Rightarrow> bool \<times> bool \<Rightarrow>
   (bool \<times> bool) data_result" where
  "issuance_blocks sha issuance mapping [] flags = Inr flags"
| "issuance_blocks sha issuance mapping (b # bs) flags =
     (case stn_block_decode sha (Some b) of
        Inl _ \<Rightarrow> Inl STN_DATA_CONTENT
      | Inr block \<Rightarrow>
          (case issuance_txs sha issuance mapping (unat (bh_transaction_count (blk_header block)))
                  (case blk_body block of None \<Rightarrow> [] | Some body \<Rightarrow> body) flags of
             Inl status \<Rightarrow> Inl status
           | Inr flags' \<Rightarrow> issuance_blocks sha issuance mapping bs flags'))"

definition history_issuance_state ::
  "stn_hash_fn \<Rightarrow> stn_storage_view \<Rightarrow> stn_issuance_record \<Rightarrow> stn_compensation_state \<Rightarrow> (bool \<times> bool) data_result" where
  "history_issuance_state sha view issuance mapping =
     issuance_blocks sha issuance mapping (vw_blocks view) (False, False)"

end
