(* ===== verification/Stn_Pending_Admit.thy ===== *)
theory Stn_Pending_Admit
  imports Stn_Pending
begin

text \<open>
  Admission to the pending pool: publications and every other transaction type
  (\<^verbatim>\<open>src/src/stn_pending.c\<close>), block compensation evidence and issuances
  (\<^verbatim>\<open>src/src/stn_block_compensation_candidate.c\<close>), and shares
  (\<^verbatim>\<open>src/src/stn_share_pending.c\<close>). The pool, the view and the provider are pointers that may be
  NULL. An answer is the result, the report, the identifier and the pool; None in its place is a read
  through NULL.
\<close>

section \<open>Publications\<close>

type_synonym pending_answer = "stn_pending_result \<times> stn_validation_report \<times> bytes \<times> stn_pending option"

text \<open>The allocator of an admission: the statement of a publication check, and the entry.\<close>

record pending_alloc =
  pa_statement :: bool
  pa_entry :: bool

definition zero_hash :: bytes where "zero_hash = replicate 32 0"

definition disposition :: "stn_validation_report \<Rightarrow> stn_pending_result" where
  "disposition r =
     (if vr_acceptance r = STN_ACCEPTANCE_UNRESOLVED then STN_PENDING_UNAVAILABLE
      else if vr_acceptance r = STN_ACCEPTANCE_ERROR then STN_PENDING_PROVIDER
      else if vr_acceptance r = STN_ACCEPTANCE_UNDER_CONTEXT then STN_PENDING_ACCEPTED
      else if vr_envelope_error r = STN_RECORD_UNSUPPORTED then STN_PENDING_UNSUPPORTED
      else if vr_payload_error r = STN_SENTINEL_INTELLIGENCE_VERSION_ERROR then STN_PENDING_UNSUPPORTED
      else if vr_network r = STN_STAGE_REJECT then STN_PENDING_NETWORK
      else if vr_time r = STN_STAGE_REJECT then STN_PENDING_TIME
      else if vr_signature r = STN_STAGE_REJECT then STN_PENDING_SIGNATURE
      else if vr_authority r = STN_STAGE_REJECT then STN_PENDING_AUTHORITY
      else if vr_replay r = STN_STAGE_REJECT then STN_PENDING_REPLAY
      else STN_PENDING_INVALID)"

definition production_next :: "stn_storage_view option \<Rightarrow> bool" where
  "production_next active =
     (case active of
        None \<Rightarrow> False
      | Some v \<Rightarrow> cs_activation (vw_state v) \<noteq> 0 \<and>
          (cs_height (vw_state v) = 18446744073709551615 \<or>
           cs_height (vw_state v) + 1 \<ge> cs_activation (vw_state v)))"

text \<open>
  The gate of a publication: the lifecycle of the state once publications are in production, the
  caller's context before. An answer other than ACCEPTED stops the admission.
\<close>

definition publication_gate ::
  "ed25519 \<Rightarrow> bool \<Rightarrow> bytes option \<Rightarrow> stn_validation_context option \<Rightarrow> stn_storage_view \<Rightarrow> stn_hash_provider \<Rightarrow>
   stn_pending_result \<times> stn_validation_report" where
  "publication_gate ed alloc input c active hash =
     (if production_next (Some active)
      then
        (let checked = stn_lifecycle_check_publication ed alloc (cs_lifecycle (vw_state active)) input hash
         in if checked = STN_LIFECYCLE_PROVIDER \<or> checked = STN_LIFECYCLE_CAPACITY
            then (STN_PENDING_PROVIDER, zero_validation_report\<lparr>vr_acceptance := STN_ACCEPTANCE_ERROR\<rparr>)
            else if checked \<noteq> STN_LIFECYCLE_OK
            then (if checked = STN_LIFECYCLE_REPLAY then STN_PENDING_REPLAY
                  else if checked = STN_LIFECYCLE_INVALID then STN_PENDING_AUTHORITY else STN_PENDING_INVALID,
                  zero_validation_report\<lparr>vr_acceptance := STN_ACCEPTANCE_REJECTED\<rparr>)
            else (STN_PENDING_ACCEPTED, zero_validation_report\<lparr>vr_acceptance := STN_ACCEPTANCE_UNDER_CONTEXT\<rparr>))
      else
        (case c of
           None \<Rightarrow> (STN_PENDING_UNAVAILABLE, zero_validation_report\<lparr>vr_acceptance := STN_ACCEPTANCE_UNRESOLVED\<rparr>)
         | Some context \<Rightarrow>
             if memcmp (vc_expected_network context) (cs_network_id (vw_state active)) \<noteq> 0
             then (STN_PENDING_UNAVAILABLE, zero_validation_report\<lparr>vr_acceptance := STN_ACCEPTANCE_UNRESOLVED\<rparr>)
             else
               (let r = stn_validate_intelligence_record input c in (disposition r, r))))"

text \<open>What follows the gate: the network, the duplicate and replay checks, the scan and the insertion.\<close>

definition admit_entry ::
  "stn_hash_fn \<Rightarrow> bool \<Rightarrow> stn_pending \<Rightarrow> bytes \<Rightarrow> stn_pending_entry \<Rightarrow> stn_storage_view \<Rightarrow> stn_hash_provider \<Rightarrow>
   stn_validation_report \<Rightarrow> pending_answer option" where
  "admit_entry sha alloc p encoded e active hash report =
     (let es = pool_entries p
      in if found_at es (pe_id e) (find_id es (pe_id e))
         then Some (STN_PENDING_DUPLICATE, report, pe_id e, Some p)
         else if list_ex (\<lambda>x. same_nonce x (pe_signer e) (pe_nonce e)) es
         then Some (STN_PENDING_REPLAY, report, pe_id e, Some p)
         else
           (case scan sha \<lparr>pool_entries = [e], pool_bytes = 0\<rparr> (Some active) True (Some hash) of
              None \<Rightarrow> None
            | Some (Inl _) \<Rightarrow> Some (STN_PENDING_PROVIDER, report, pe_id e, Some p)
            | Some (Inr marks) \<Rightarrow>
                if marks ! 0 then Some (STN_PENDING_REPLAY, report, pe_id e, Some p)
                else
                  (case stn_pending_insert sha alloc p (Some encoded) hash of
                     (result, _, p') \<Rightarrow> Some (result, report, pe_id e, Some p'))))"

definition stn_pending_admit ::
  "stn_hash_fn \<Rightarrow> ed25519 \<Rightarrow> pending_alloc \<Rightarrow> stn_pending option \<Rightarrow> bytes option \<Rightarrow> stn_validation_context option \<Rightarrow>
   stn_storage_view option \<Rightarrow> stn_hash_provider option \<Rightarrow> pending_answer option" where
  "stn_pending_admit sha ed alloc pool input c view provider =
     (case (pool, view, provider) of
        (Some p, Some active, Some hash) \<Rightarrow>
          (case publication_gate ed (pa_statement alloc) input c active hash of
             (gate, report) \<Rightarrow>
               if gate \<noteq> STN_PENDING_ACCEPTED then Some (gate, report, zero_hash, pool)
               else
                 (case stn_record_decode input of
                    Inl _ \<Rightarrow> Some (STN_PENDING_INVALID, report, zero_hash, pool)
                  | Inr r \<Rightarrow>
                      if memcmp (rec_network_id r) (cs_network_id (vw_state active)) \<noteq> 0
                      then Some (STN_PENDING_NETWORK,
                        report\<lparr>vr_acceptance := STN_ACCEPTANCE_REJECTED, vr_network := STN_STAGE_REJECT\<rparr>, zero_hash, pool)
                      else
                        (let tx = \<lparr>txn_version = 1, txn_type = STN_TX_PUBLICATION, txn_record_bytes = input,
                             txn_record_length = word_of_nat (length (the input))\<rparr>
                         in case stn_transaction_encode sha (Some tx) STN_TX_MAX_SIZE of
                              Inl _ \<Rightarrow> Some (STN_PENDING_PROVIDER, report, zero_hash, pool)
                            | Inr encoded \<Rightarrow>
                                (case stn_transaction_id sha (Some encoded) hash of
                                   Inl _ \<Rightarrow> Some (STN_PENDING_PROVIDER, report, zero_hash, pool)
                                 | Inr i \<Rightarrow>
                                     admit_entry sha (pa_entry alloc) p encoded
                                       \<lparr>pe_id = i, pe_signer = rec_signer_public_key r, pe_nonce = rec_nonce r,
                                         pe_transaction = None, pe_length = length encoded\<rparr>
                                       active hash report))))
      | _ \<Rightarrow> Some (STN_PENDING_PROVIDER, zero_validation_report\<lparr>vr_acceptance := STN_ACCEPTANCE_ERROR\<rparr>, zero_hash, pool))"

section \<open>The other transaction types\<close>

text \<open>
  The insertion that ends every branch: ACCEPTED with the report of the branch, anything else REJECTED.
\<close>

definition admit_insert ::
  "stn_hash_fn \<Rightarrow> bool \<Rightarrow> stn_pending option \<Rightarrow> bytes option \<Rightarrow> stn_hash_provider option \<Rightarrow> bytes \<Rightarrow>
   stn_validation_report \<Rightarrow> stn_validation_report \<Rightarrow> pending_answer" where
  "admit_insert sha alloc pool input provider i report granted =
     (case pool of
        None \<Rightarrow> (STN_PENDING_INVALID, report\<lparr>vr_acceptance := STN_ACCEPTANCE_REJECTED\<rparr>, i, None)
      | Some p \<Rightarrow>
          (case stn_pending_insert sha alloc p input (provider_fn provider) of
             (result, i', p') \<Rightarrow>
               (result,
                if result = STN_PENDING_ACCEPTED then granted\<lparr>vr_acceptance := STN_ACCEPTANCE_UNDER_CONTEXT\<rparr>
                else report\<lparr>vr_acceptance := STN_ACCEPTANCE_REJECTED\<rparr>,
                case i' of None \<Rightarrow> i | Some x \<Rightarrow> x, Some p')))"

definition answer ::
  "stn_pending_result \<Rightarrow> stn_validation_report \<Rightarrow> stn_acceptance \<Rightarrow> bytes \<Rightarrow> stn_pending option \<Rightarrow> pending_answer" where
  "answer result report acceptance i pool = (result, report\<lparr>vr_acceptance := acceptance\<rparr>, i, pool)"

definition admit_malformed :: "stn_data_status \<Rightarrow> bytes option \<Rightarrow> stn_pending option \<Rightarrow> pending_answer" where
  "admit_malformed status input pool =
     (let report = zero_validation_report\<lparr>vr_structure := STN_STAGE_REJECT, vr_acceptance := STN_ACCEPTANCE_REJECTED\<rparr>
      in if status = STN_DATA_VERSION \<or> status = STN_DATA_TYPE then (STN_PENDING_UNSUPPORTED, report, zero_hash, pool)
         else if status = STN_DATA_CONTENT
         then (case stn_record_decode (map_option (drop STN_TX_HEADER_SIZE) input) of
            Inr _ \<Rightarrow> (STN_PENDING_INVALID, report\<lparr>vr_envelope_error := STN_RECORD_OK\<rparr>, zero_hash, pool)
          | Inl e \<Rightarrow>
              (if e = STN_RECORD_UNSUPPORTED then STN_PENDING_UNSUPPORTED else STN_PENDING_INVALID,
               report\<lparr>vr_envelope_error := e\<rparr>, zero_hash, pool))
         else (STN_PENDING_INVALID, report, zero_hash, pool))"

definition admit_contract ::
  "stn_hash_fn \<Rightarrow> bool \<Rightarrow> stn_pending option \<Rightarrow> bytes option \<Rightarrow> stn_storage_view option \<Rightarrow>
   stn_hash_provider option \<Rightarrow> pending_answer" where
  "admit_contract sha alloc pool input view provider =
     (let report = zero_validation_report
      in if pool = None \<or> view = None \<or> provider = None
         then answer STN_PENDING_UNAVAILABLE report STN_ACCEPTANCE_UNRESOLVED zero_hash pool
         else admit_insert sha alloc pool input provider zero_hash report (report\<lparr>vr_structure := STN_STAGE_PASS\<rparr>))"

definition admit_share ::
  "stn_hash_fn \<Rightarrow> bool \<Rightarrow> stn_pending option \<Rightarrow> bytes option \<Rightarrow> stn_transaction \<Rightarrow> stn_storage_view option \<Rightarrow>
   stn_hash_provider option \<Rightarrow> pending_answer" where
  "admit_share sha alloc pool input tx view provider =
     (let report = zero_validation_report
      in if pool = None \<or> view = None \<or> provider = None \<or> cs_shares (vw_state (the view)) = None
         then answer STN_PENDING_UNAVAILABLE report STN_ACCEPTANCE_UNRESOLVED zero_hash pool
         else
           (case stn_share_decode (txn_record_bytes tx) of
              Inl _ \<Rightarrow> answer STN_PENDING_INVALID (report\<lparr>vr_structure := STN_STAGE_REJECT\<rparr>) STN_ACCEPTANCE_REJECTED zero_hash pool
            | Inr share \<Rightarrow>
                (let replay = stn_share_replay_check (the (cs_shares (vw_state (the view)))) (Some share)
                 in if replay = STN_SHARE_REPLAY_DUPLICATE
                    then answer STN_PENDING_REPLAY report STN_ACCEPTANCE_REJECTED zero_hash pool
                    else if replay \<noteq> STN_SHARE_REPLAY_FRESH
                    then answer (if replay = STN_SHARE_REPLAY_CAPACITY then STN_PENDING_CAPACITY else STN_PENDING_PROVIDER)
                      report STN_ACCEPTANCE_ERROR zero_hash pool
                    else admit_insert sha alloc pool input provider zero_hash report report)))"

definition admit_issuance ::
  "stn_hash_fn \<Rightarrow> bool \<Rightarrow> stn_pending option \<Rightarrow> bytes option \<Rightarrow> stn_transaction \<Rightarrow> stn_storage_view option \<Rightarrow>
   stn_hash_provider option \<Rightarrow> pending_answer" where
  "admit_issuance sha alloc pool input tx view provider =
     (let report = zero_validation_report
      in if pool = None \<or> view = None \<or> provider = None \<or> cs_compensation (vw_state (the view)) = None
         then answer STN_PENDING_UNAVAILABLE report STN_ACCEPTANCE_UNRESOLVED zero_hash pool
         else
           (let active = the view; mapping = the (cs_compensation (vw_state active))
            in case stn_issuance_decode (txn_record_bytes tx) of
                 Inl _ \<Rightarrow> answer STN_PENDING_INVALID (report\<lparr>vr_structure := STN_STAGE_REJECT\<rparr>) STN_ACCEPTANCE_REJECTED zero_hash pool
               | Inr issuance \<Rightarrow>
                   if iss_reason issuance \<noteq> STN_ISSUANCE_REASON_SHARE
                   then answer STN_PENDING_UNAVAILABLE report STN_ACCEPTANCE_UNRESOLVED zero_hash pool
                   else
                     (case stn_compensation_state_lookup mapping (Some (dest_identity (iss_destination issuance))) of
                        Inl status \<Rightarrow>
                          if status = STN_DATA_UNRESOLVED
                          then answer STN_PENDING_UNAVAILABLE report STN_ACCEPTANCE_UNRESOLVED zero_hash pool
                          else answer (if status = STN_DATA_CAPACITY then STN_PENDING_CAPACITY else STN_PENDING_PROVIDER)
                            report STN_ACCEPTANCE_ERROR zero_hash pool
                      | Inr wallet \<Rightarrow>
                          if addr_type wallet \<noteq> STN_ADDRESS_WALLET \<or>
                            memcmp (addr_id wallet) (addr_id (dest_wallet (iss_destination issuance))) \<noteq> 0
                          then answer STN_PENDING_REPLAY report STN_ACCEPTANCE_REJECTED zero_hash pool
                          else
                            (case history_issuance_state sha active issuance mapping of
                               Inl _ \<Rightarrow> answer STN_PENDING_PROVIDER report STN_ACCEPTANCE_ERROR zero_hash pool
                             | Inr (share_accepted, issuance_accepted) \<Rightarrow>
                                 if issuance_accepted
                                 then answer STN_PENDING_REPLAY (report\<lparr>vr_replay := STN_STAGE_REJECT\<rparr>)
                                   STN_ACCEPTANCE_REJECTED zero_hash pool
                                 else
                                   (case (if share_accepted then Inr True
                                          else pending_share_for_issuance sha (the pool) issuance mapping) of
                                      Inl _ \<Rightarrow> answer STN_PENDING_PROVIDER report STN_ACCEPTANCE_ERROR zero_hash pool
                                    | Inr False \<Rightarrow>
                                        answer STN_PENDING_UNAVAILABLE report STN_ACCEPTANCE_UNRESOLVED zero_hash pool
                                    | Inr True \<Rightarrow>
                                        admit_insert sha alloc pool input provider zero_hash report
                                          (report\<lparr>vr_replay := STN_STAGE_PASS\<rparr>))))))"

definition admit_destination ::
  "stn_hash_fn \<Rightarrow> bool \<Rightarrow> stn_pending option \<Rightarrow> bytes option \<Rightarrow> stn_transaction \<Rightarrow> stn_storage_view option \<Rightarrow>
   stn_hash_provider option \<Rightarrow> pending_answer" where
  "admit_destination sha alloc pool input tx view provider =
     (let report = zero_validation_report
      in if pool = None \<or> view = None \<or> provider = None \<or> cs_compensation (vw_state (the view)) = None
         then answer STN_PENDING_UNAVAILABLE report STN_ACCEPTANCE_UNRESOLVED zero_hash pool
         else
           (case stn_compensation_destination_decode (txn_record_bytes tx) of
              Inl _ \<Rightarrow> answer STN_PENDING_INVALID (report\<lparr>vr_structure := STN_STAGE_REJECT\<rparr>) STN_ACCEPTANCE_REJECTED zero_hash pool
            | Inr d \<Rightarrow>
                (case stn_compensation_state_lookup (the (cs_compensation (vw_state (the view)))) (Some (dest_identity d)) of
                   Inr wallet \<Rightarrow>
                     if memcmp (addr_id wallet) (addr_id (dest_wallet d)) \<noteq> 0
                     then answer STN_PENDING_REPLAY report STN_ACCEPTANCE_REJECTED zero_hash pool
                     else admit_insert sha alloc pool input provider zero_hash report report
                 | Inl mapping \<Rightarrow>
                     if mapping \<noteq> STN_DATA_UNRESOLVED
                     then answer (if mapping = STN_DATA_CAPACITY then STN_PENDING_CAPACITY else STN_PENDING_PROVIDER)
                       report STN_ACCEPTANCE_ERROR zero_hash pool
                     else admit_insert sha alloc pool input provider zero_hash report report)))"

definition admit_transfer ::
  "stn_hash_fn \<Rightarrow> ed25519 \<Rightarrow> bool \<Rightarrow> stn_pending option \<Rightarrow> bytes option \<Rightarrow> stn_transaction \<Rightarrow> stn_storage_view option \<Rightarrow>
   stn_hash_provider option \<Rightarrow> pending_answer" where
  "admit_transfer sha ed alloc pool input tx view provider =
     (let report = zero_validation_report
      in if pool = None \<or> view = None \<or> provider = None \<or> cs_economy (vw_state (the view)) = None
         then answer STN_PENDING_UNAVAILABLE report STN_ACCEPTANCE_UNRESOLVED zero_hash pool
         else
           (case stn_transfer_envelope_decode (txn_record_bytes tx) of
              Inl _ \<Rightarrow> answer STN_PENDING_INVALID (report\<lparr>vr_structure := STN_STAGE_REJECT\<rparr>) STN_ACCEPTANCE_REJECTED zero_hash pool
            | Inr e \<Rightarrow>
                if stn_transfer_envelope_authorization_verify sha ed (Some e) \<noteq> STN_DATA_OK
                then answer STN_PENDING_SIGNATURE (report\<lparr>vr_signature := STN_STAGE_REJECT\<rparr>) STN_ACCEPTANCE_REJECTED zero_hash pool
                else
                  (let report = report\<lparr>vr_signature := STN_STAGE_PASS\<rparr>; es = pool_entries (the pool)
                   in case stn_economic_state_balance (own_state (the (cs_economy (vw_state (the view)))))
                        (Some (tr_source (env_transfer e))) of
                        Inl _ \<Rightarrow> answer STN_PENDING_PROVIDER report STN_ACCEPTANCE_ERROR zero_hash pool
                      | Inr balance \<Rightarrow>
                          if balance < tr_units (env_transfer e)
                          then answer STN_PENDING_INVALID report STN_ACCEPTANCE_REJECTED zero_hash pool
                          else
                            (case stn_transaction_id sha input (provider_fn provider) of
                               Inl _ \<Rightarrow> answer STN_PENDING_PROVIDER report STN_ACCEPTANCE_ERROR zero_hash pool
                             | Inr i \<Rightarrow>
                                 if found_at es i (find_id es i)
                                 then answer STN_PENDING_DUPLICATE report STN_ACCEPTANCE_REJECTED i pool
                                 else if list_ex (\<lambda>x. same_nonce x (env_controller e) (env_nonce e)) es
                                 then answer STN_PENDING_REPLAY (report\<lparr>vr_replay := STN_STAGE_REJECT\<rparr>)
                                   STN_ACCEPTANCE_REJECTED i pool
                                 else
                                   (let status = stn_chain_transfer_replay_check (vw_state (the view)) (Some e)
                                    in if status = STN_DATA_UNRESOLVED
                                       then answer STN_PENDING_UNAVAILABLE report STN_ACCEPTANCE_UNRESOLVED i pool
                                       else if status \<noteq> STN_DATA_OK \<and> status \<noteq> STN_DATA_DUPLICATE
                                       then answer STN_PENDING_PROVIDER report STN_ACCEPTANCE_ERROR i pool
                                       else if status = STN_DATA_DUPLICATE
                                       then answer STN_PENDING_REPLAY (report\<lparr>vr_replay := STN_STAGE_REJECT\<rparr>)
                                         STN_ACCEPTANCE_REJECTED i pool
                                       else
                                         (let report = report\<lparr>vr_replay := STN_STAGE_PASS\<rparr>
                                          in admit_insert sha alloc pool input provider i report report))))))"

definition admit_lifecycle ::
  "stn_hash_fn \<Rightarrow> bool \<Rightarrow> stn_pending option \<Rightarrow> bytes option \<Rightarrow> stn_validation_context option \<Rightarrow>
   stn_storage_view option \<Rightarrow> stn_hash_provider option \<Rightarrow> pending_answer" where
  "admit_lifecycle sha alloc pool input c view provider =
     (let report = zero_validation_report
      in case (c, view) of
           (Some context, Some active) \<Rightarrow>
             if memcmp (vc_expected_network context) (cs_network_id (vw_state active)) \<noteq> 0
             then answer STN_PENDING_UNAVAILABLE report STN_ACCEPTANCE_UNRESOLVED zero_hash pool
             else admit_insert sha alloc pool input provider zero_hash report report
         | _ \<Rightarrow> answer STN_PENDING_UNAVAILABLE report STN_ACCEPTANCE_UNRESOLVED zero_hash pool)"

definition stn_pending_admit_transaction ::
  "stn_hash_fn \<Rightarrow> ed25519 \<Rightarrow> pending_alloc \<Rightarrow> stn_pending option \<Rightarrow> bytes option \<Rightarrow> stn_validation_context option \<Rightarrow>
   stn_storage_view option \<Rightarrow> stn_hash_provider option \<Rightarrow> pending_answer option" where
  "stn_pending_admit_transaction sha ed alloc pool input c view provider =
     (case stn_transaction_decode sha input of
        Inl status \<Rightarrow> Some (admit_malformed status input pool)
      | Inr tx \<Rightarrow>
          if txn_type tx = STN_TX_CONTRACT_ACTION
          then Some (admit_contract sha (pa_entry alloc) pool input view provider)
          else if txn_type tx = STN_TX_SHARE_EVIDENCE
          then Some (admit_share sha (pa_entry alloc) pool input tx view provider)
          else if txn_type tx = STN_TX_ISSUANCE
          then Some (admit_issuance sha (pa_entry alloc) pool input tx view provider)
          else if txn_type tx = STN_TX_COMPENSATION_DESTINATION
          then Some (admit_destination sha (pa_entry alloc) pool input tx view provider)
          else if txn_type tx = STN_TX_TRANSFER
          then Some (admit_transfer sha ed (pa_entry alloc) pool input tx view provider)
          else if txn_type tx \<noteq> STN_TX_PUBLICATION
          then Some (admit_lifecycle sha (pa_entry alloc) pool input c view provider)
          else stn_pending_admit sha ed alloc pool (txn_record_bytes tx) c view provider)"

section \<open>Block compensation\<close>

definition pending_insert_block ::
  "stn_hash_fn \<Rightarrow> bool \<Rightarrow> stn_pending \<Rightarrow> bytes \<Rightarrow> stn_hash_provider \<Rightarrow> bytes \<Rightarrow> bytes \<Rightarrow>
   stn_pending_result \<times> bytes option \<times> stn_pending" where
  "pending_insert_block sha alloc p bs provider signer nonce =
     (case stn_transaction_id sha (Some bs) provider of
        Inl _ \<Rightarrow> (STN_PENDING_PROVIDER, None, p)
      | Inr i \<Rightarrow>
          (case pool_insert alloc \<lparr>pe_id = i, pe_signer = signer, pe_nonce = nonce, pe_transaction = Some bs,
               pe_length = length bs\<rparr> p of
             (result, p') \<Rightarrow>
               (result, if result = STN_PENDING_ACCEPTED \<or> result = STN_PENDING_DUPLICATE then Some i else None, p')))"

fun accepted_in :: "stn_hash_fn \<Rightarrow> bytes \<Rightarrow> bytes list \<Rightarrow> bool" where
  "accepted_in sha block_id [] = False"
| "accepted_in sha block_id (b # bs) =
     (case stn_chain_block_id sha (Some b) (Some sha) of
        Inl _ \<Rightarrow> False
      | Inr i \<Rightarrow> if memcmp i block_id = 0 then True else accepted_in sha block_id bs)"

definition accepted_block :: "stn_hash_fn \<Rightarrow> stn_storage_view option \<Rightarrow> bytes \<Rightarrow> bool" where
  "accepted_block sha active block_id =
     (case active of None \<Rightarrow> False | Some v \<Rightarrow> accepted_in sha block_id (vw_blocks v))"

text \<open>The first pending evidence an issuance is bound to.\<close>

fun evidence_loop ::
  "stn_hash_fn \<Rightarrow> stn_issuance_record \<Rightarrow> stn_compensation_state \<Rightarrow> stn_pending_entry list \<Rightarrow>
   stn_block_compensation_evidence option" where
  "evidence_loop sha issuance mapping [] = None"
| "evidence_loop sha issuance mapping (e # es) =
     (case stn_transaction_decode sha (pe_transaction e) of
        Inl _ \<Rightarrow> evidence_loop sha issuance mapping es
      | Inr tx \<Rightarrow>
          if txn_type tx \<noteq> STN_TX_BLOCK_COMPENSATION_EVIDENCE then evidence_loop sha issuance mapping es
          else
            (case stn_block_compensation_decode (txn_record_bytes tx) of
               Inl _ \<Rightarrow> evidence_loop sha issuance mapping es
             | Inr evidence \<Rightarrow>
                 if stn_issuance_bind_block sha (Some issuance) (Some evidence) mapping = STN_DATA_OK then Some evidence
                 else evidence_loop sha issuance mapping es))"

definition pending_block_evidence ::
  "stn_hash_fn \<Rightarrow> stn_pending \<Rightarrow> stn_issuance_record \<Rightarrow> stn_compensation_state \<Rightarrow>
   stn_block_compensation_evidence option" where
  "pending_block_evidence sha p issuance mapping = evidence_loop sha issuance mapping (pool_entries p)"

text \<open>The answer after an insertion of the pair's transactions.\<close>

definition block_inserted :: "bytes \<Rightarrow> stn_pending_result \<times> bytes option \<times> stn_pending \<Rightarrow> pending_answer" where
  "block_inserted i inserted =
     (case inserted of
        (result, i', p') \<Rightarrow>
          (result,
           zero_validation_report
             \<lparr>vr_structure := (if result = STN_PENDING_ACCEPTED then STN_STAGE_PASS else STN_STAGE_REJECT),
              vr_acceptance := (if result = STN_PENDING_ACCEPTED then STN_ACCEPTANCE_UNDER_CONTEXT
                else STN_ACCEPTANCE_REJECTED)\<rparr>,
           case i' of None \<Rightarrow> i | Some x \<Rightarrow> x, Some p'))"

definition admit_evidence ::
  "stn_hash_fn \<Rightarrow> bool \<Rightarrow> stn_pending option \<Rightarrow> bytes \<Rightarrow> stn_transaction \<Rightarrow> stn_storage_view option \<Rightarrow>
   stn_hash_provider option \<Rightarrow> pending_answer" where
  "admit_evidence sha alloc pool bs tx view provider =
     (let bad = answer STN_PENDING_INVALID zero_validation_report STN_ACCEPTANCE_REJECTED zero_hash pool
      in case (pool, provider, stn_block_compensation_decode (txn_record_bytes tx)) of
           (Some p, Some hash, Inr evidence) \<Rightarrow>
             if view = None \<or> \<not> accepted_block sha view (ev_block_id evidence) then bad
             else block_inserted zero_hash
               (pending_insert_block sha alloc p bs hash (addr_id (ev_miner evidence)) (ev_block_id evidence))
         | _ \<Rightarrow> bad)"

definition admit_block_issuance ::
  "stn_hash_fn \<Rightarrow> bool \<Rightarrow> stn_pending option \<Rightarrow> bytes \<Rightarrow> stn_issuance_record \<Rightarrow> stn_storage_view option \<Rightarrow>
   stn_hash_provider option \<Rightarrow> pending_answer" where
  "admit_block_issuance sha alloc pool bs issuance view provider =
     (let unavailable = answer STN_PENDING_UNAVAILABLE zero_validation_report STN_ACCEPTANCE_UNRESOLVED zero_hash pool
      in case (pool, view, provider) of
           (Some p, Some active, Some hash) \<Rightarrow>
             (case cs_compensation (vw_state active) of
                None \<Rightarrow> unavailable
              | Some mapping \<Rightarrow>
                  if pending_block_evidence sha p issuance mapping = None then unavailable
                  else block_inserted zero_hash
                    (pending_insert_block sha alloc p bs hash (addr_id (dest_identity (iss_destination issuance)))
                      (iss_evidence_id issuance)))
         | _ \<Rightarrow> unavailable)"

definition stn_block_compensation_pending_admit ::
  "stn_hash_fn \<Rightarrow> ed25519 \<Rightarrow> pending_alloc \<Rightarrow> stn_pending option \<Rightarrow> bytes option \<Rightarrow> stn_validation_context option \<Rightarrow>
   stn_storage_view option \<Rightarrow> stn_hash_provider option \<Rightarrow> pending_answer option" where
  "stn_block_compensation_pending_admit sha ed alloc pool input c view provider =
     (let general = stn_pending_admit_transaction sha ed alloc pool input c view provider
      in case stn_transaction_decode sha input of
           Inl _ \<Rightarrow> general
         | Inr tx \<Rightarrow>
             if txn_type tx = STN_TX_BLOCK_COMPENSATION_EVIDENCE
             then Some (admit_evidence sha (pa_entry alloc) pool (the input) tx view provider)
             else if txn_type tx = STN_TX_ISSUANCE
             then (case stn_issuance_decode (txn_record_bytes tx) of
                Inl _ \<Rightarrow> general
              | Inr issuance \<Rightarrow>
                  if iss_reason issuance = STN_ISSUANCE_REASON_BLOCK
                  then Some (admit_block_issuance sha (pa_entry alloc) pool (the input) issuance view provider)
                  else general)
             else general)"

section \<open>Shares\<close>

fun matching_share ::
  "stn_hash_fn \<Rightarrow> stn_issuance_record \<Rightarrow> stn_compensation_state \<Rightarrow> stn_pending_entry list \<Rightarrow> bool" where
  "matching_share sha issuance mapping [] = False"
| "matching_share sha issuance mapping (e # es) =
     (case stn_transaction_decode sha (pe_transaction e) of
        Inl _ \<Rightarrow> matching_share sha issuance mapping es
      | Inr tx \<Rightarrow>
          if txn_type tx \<noteq> STN_TX_SHARE_EVIDENCE then matching_share sha issuance mapping es
          else
            (case stn_share_decode (txn_record_bytes tx) of
               Inl _ \<Rightarrow> matching_share sha issuance mapping es
             | Inr share \<Rightarrow>
                 if stn_issuance_bind_share sha (Some issuance) (Some share) mapping = STN_DATA_OK then True
                 else matching_share sha issuance mapping es))"

definition pending_share_matches ::
  "stn_hash_fn \<Rightarrow> stn_pending \<Rightarrow> stn_issuance_record \<Rightarrow> stn_compensation_state \<Rightarrow> bool" where
  "pending_share_matches sha p issuance mapping = matching_share sha issuance mapping (pool_entries p)"

definition STN_BLOCK_REWARD_EVIDENCE_TX_SIZE :: nat where [simp]: "STN_BLOCK_REWARD_EVIDENCE_TX_SIZE = 77"
definition STN_BLOCK_REWARD_ISSUANCE_TX_SIZE :: nat where [simp]: "STN_BLOCK_REWARD_ISSUANCE_TX_SIZE = 118"

text \<open>Room for the share, its issuance and a block reward pair.\<close>

definition share_room :: "stn_pending \<Rightarrow> nat \<Rightarrow> bool" where
  "share_room p n \<longleftrightarrow>
     (let issuance_length = STN_TX_HEADER_SIZE + STN_ISSUANCE_CANONICAL_SIZE;
          reward_length = STN_BLOCK_REWARD_EVIDENCE_TX_SIZE + STN_BLOCK_REWARD_ISSUANCE_TX_SIZE
      in \<not> (length (pool_entries p) > STN_PENDING_MAX_ENTRIES - 4 \<or>
          n > STN_PENDING_MAX_BYTES - pool_bytes p \<or>
          issuance_length > STN_PENDING_MAX_BYTES - pool_bytes p - n \<or>
          reward_length > STN_PENDING_MAX_BYTES - pool_bytes p - n - issuance_length))"

text \<open>
  The outermost admission. \<open>report\<close> and \<open>i\<close> are what the caller's outputs held before the call: not
  every branch writes them.
\<close>

definition stn_share_pending_admit ::
  "stn_hash_fn \<Rightarrow> ed25519 \<Rightarrow> pending_alloc \<Rightarrow> stn_pending option \<Rightarrow> bytes option \<Rightarrow> stn_validation_context option \<Rightarrow>
   stn_storage_view option \<Rightarrow> stn_hash_provider option \<Rightarrow> stn_validation_report \<Rightarrow> bytes \<Rightarrow> pending_answer option" where
  "stn_share_pending_admit sha ed alloc pool input c view provider report i =
     (let general = stn_block_compensation_pending_admit sha ed alloc pool input c view provider
      in case stn_transaction_decode sha input of
           Inl _ \<Rightarrow> general
         | Inr tx \<Rightarrow>
             if txn_type tx = STN_TX_SHARE_EVIDENCE
             then (case pool of
                None \<Rightarrow> Some (STN_PENDING_UNAVAILABLE, report, i, pool)
              | Some p \<Rightarrow>
                  if \<not> share_room p (length (the input))
                  then Some (answer STN_PENDING_CAPACITY zero_validation_report STN_ACCEPTANCE_REJECTED i pool)
                  else general)
             else if txn_type tx = STN_TX_ISSUANCE
             then (case (stn_issuance_decode (txn_record_bytes tx), pool, view) of
                (Inr issuance, Some p, Some active) \<Rightarrow>
                  if iss_reason issuance = STN_ISSUANCE_REASON_SHARE \<and> cs_compensation (vw_state active) \<noteq> None \<and>
                    pending_share_matches sha p issuance (the (cs_compensation (vw_state active)))
                  then Some (block_inserted i (stn_pending_insert sha (pa_entry alloc) p input (provider_fn provider)))
                  else general
              | _ \<Rightarrow> general)
             else general)"

end
