(* ===== verification/Stn_Pending_Assemble.thy ===== *)
theory Stn_Pending_Assemble
  imports Stn_Pending_Admit
begin

text \<open>
  Assembly of a block body from the pool: the generic selection in the order of identifiers
  (\<^verbatim>\<open>src/src/stn_pending.c\<close>), and the one that appends block compensation pairs
  (\<^verbatim>\<open>src/src/stn_block_compensation_candidate.c\<close>).
\<close>

section \<open>Eligibility\<close>

text \<open>Inl stops the assembly, Inr tells whether the entry is taken.\<close>

definition share_ready :: "stn_hash_fn \<Rightarrow> stn_storage_view option \<Rightarrow> stn_transaction \<Rightarrow> bool data_result" where
  "share_ready sha view tx =
     (case (view, stn_share_decode (txn_record_bytes tx)) of
        (Some active, Inr share) \<Rightarrow>
          (case stn_block_header_decode (Some (sh_template_header share)) of
             Inl _ \<Rightarrow> Inl STN_DATA_CONTENT
           | Inr work_header \<Rightarrow>
               (let s = vw_state active; parent_index = unat (bh_height work_header - 1)
                in if \<not> cs_has_tip s \<or> cs_height s = 18446744073709551615 then Inr False
                   else if bh_height work_header \<ge> cs_height s + 1 then Inr False
                   else if bh_height work_header = 0 \<or> parent_index \<ge> length (vw_blocks active) then Inr False
                   else
                     (case stn_chain_block_id sha (Some (vw_blocks active ! parent_index)) (Some sha) of
                        Inl _ \<Rightarrow> Inr False
                      | Inr parent_id \<Rightarrow> Inr (memcmp parent_id (bh_previous_hash work_header) = 0))))
      | _ \<Rightarrow> Inl STN_DATA_CONTENT)"

definition issuance_ready :: "stn_hash_fn \<Rightarrow> stn_storage_view option \<Rightarrow> stn_transaction \<Rightarrow> bool data_result" where
  "issuance_ready sha view tx =
     (case view of
        None \<Rightarrow> Inl STN_DATA_CONTENT
      | Some active \<Rightarrow>
          (case (cs_compensation (vw_state active), stn_issuance_decode (txn_record_bytes tx)) of
             (Some mapping, Inr issuance) \<Rightarrow>
               if iss_reason issuance \<noteq> STN_ISSUANCE_REASON_SHARE then Inr False
               else
                 (case history_issuance_state sha active issuance mapping of
                    Inl status \<Rightarrow>
                      Inl (if status = STN_DATA_PROVIDER_ERROR then STN_DATA_PROVIDER_ERROR else STN_DATA_CONTENT)
                  | Inr (share_accepted, issuance_accepted) \<Rightarrow> Inr (\<not> issuance_accepted \<and> share_accepted))
           | _ \<Rightarrow> Inl STN_DATA_CONTENT))"

definition publication_ready ::
  "stn_hash_fn \<Rightarrow> ed25519 \<Rightarrow> bool \<Rightarrow> stn_validation_context option \<Rightarrow> stn_storage_view option \<Rightarrow> stn_transaction \<Rightarrow>
   bool data_result" where
  "publication_ready sha ed alloc c view tx =
     (if production_next view
      then
        (let s = vw_state (the view);
             checked = stn_lifecycle_check_publication ed alloc (cs_lifecycle s) (txn_record_bytes tx) (Some sha)
         in if checked = STN_LIFECYCLE_PROVIDER \<or> checked = STN_LIFECYCLE_CAPACITY then Inl STN_DATA_PROVIDER_ERROR
            else if checked \<noteq> STN_LIFECYCLE_OK then Inr False
            else
              (case stn_record_decode (txn_record_bytes tx) of
                 Inl _ \<Rightarrow> Inr False
               | Inr r \<Rightarrow> Inr (memcmp (rec_network_id r) (cs_network_id s) = 0)))
      else
        (case (c, view) of
           (Some context, Some active) \<Rightarrow>
             if memcmp (vc_expected_network context) (cs_network_id (vw_state active)) \<noteq> 0
             then Inl STN_DATA_UNRESOLVED
             else
               (let acceptance = vr_acceptance (stn_validate_intelligence_record (txn_record_bytes tx) c)
                in if acceptance = STN_ACCEPTANCE_ERROR then Inl STN_DATA_PROVIDER_ERROR
                   else Inr (acceptance = STN_ACCEPTANCE_UNDER_CONTEXT))
         | _ \<Rightarrow> Inl STN_DATA_UNRESOLVED))"

definition entry_ready ::
  "stn_hash_fn \<Rightarrow> ed25519 \<Rightarrow> bool \<Rightarrow> stn_validation_context option \<Rightarrow> stn_storage_view option \<Rightarrow> stn_pending_entry \<Rightarrow>
   bool data_result" where
  "entry_ready sha ed alloc c view e =
     (case stn_transaction_decode sha (pe_transaction e) of
        Inl _ \<Rightarrow> Inl STN_DATA_CONTENT
      | Inr tx \<Rightarrow>
          if txn_type tx = STN_TX_SHARE_EVIDENCE then share_ready sha view tx
          else if txn_type tx = STN_TX_ISSUANCE then issuance_ready sha view tx
          else if txn_type tx = STN_TX_PUBLICATION then publication_ready sha ed alloc c view tx
          else Inr True)"

section \<open>The generic assembly\<close>

text \<open>
  The loop over the enumerated identifiers. \<open>k\<close> counts them, for the allocator; \<open>used\<close> is the size of
  the frames selected so far.
\<close>

fun assemble_loop ::
  "stn_hash_fn \<Rightarrow> ed25519 \<Rightarrow> (nat \<Rightarrow> bool) \<Rightarrow> stn_validation_context option \<Rightarrow> stn_storage_view option \<Rightarrow>
   stn_pending_entry list \<Rightarrow> bool list \<Rightarrow> nat \<Rightarrow> nat \<Rightarrow> bytes list \<Rightarrow> stn_transaction_span list \<Rightarrow> nat \<Rightarrow>
   stn_transaction_span list data_result" where
  "assemble_loop sha ed alloc c view es replay capacity k [] selected used = Inr selected"
| "assemble_loop sha ed alloc c view es replay capacity k (i # ids) selected used =
     (if length selected \<ge> STN_BLOCK_MAX_TRANSACTIONS then Inr selected
      else
        (let at = find_id es i; e = es ! at
         in if replay ! at
            then assemble_loop sha ed alloc c view es replay capacity (Suc k) ids selected used
            else
              (case entry_ready sha ed (alloc k) c view e of
                 Inl status \<Rightarrow> Inl status
               | Inr False \<Rightarrow> assemble_loop sha ed alloc c view es replay capacity (Suc k) ids selected used
               | Inr True \<Rightarrow>
                   if pe_length e + 4 > STN_BLOCK_MAX_BODY - used then Inr selected
                   else if pe_length e + 4 > capacity - used then Inl STN_DATA_CAPACITY
                   else assemble_loop sha ed alloc c view es replay capacity (Suc k) ids
                     (selected @ [\<lparr>span_bytes = pe_transaction e, span_length = word_of_nat (pe_length e)\<rparr>])
                     (used + (4 + pe_length e)))))"

text \<open>The body and the number of its transactions. The outer None is a read through NULL in the scan.\<close>

definition stn_pending_assemble ::
  "stn_hash_fn \<Rightarrow> ed25519 \<Rightarrow> (nat \<Rightarrow> bool) \<Rightarrow> stn_pending \<Rightarrow> stn_validation_context option \<Rightarrow>
   stn_storage_view option \<Rightarrow> nat \<Rightarrow> (bytes \<times> u32) data_result option" where
  "stn_pending_assemble sha ed alloc p c view capacity =
     (if pool_entries p = [] then Some (Inr ([], 0))
      else
        (case scan sha p view True None of
           None \<Rightarrow> None
         | Some (Inl _) \<Rightarrow> Some (Inl STN_DATA_CONTENT)
         | Some (Inr replay) \<Rightarrow>
             (let ids = stn_pending_enumerate p 0 STN_PENDING_MAX_ENTRIES
              in case assemble_loop sha ed alloc c view (pool_entries p) replay capacity 0 ids [] 0 of
                   Inl status \<Rightarrow> Some (Inl status)
                 | Inr selected \<Rightarrow>
                     if selected = [] then Some (Inr ([], 0))
                     else
                       (let n = word_of_nat (length selected)
                        in case stn_block_body_encode sha (Some selected) n capacity of
                             Inl status \<Rightarrow> Some (Inl status)
                           | Inr body \<Rightarrow> Some (Inr (body, n))))))"

section \<open>Block compensation pairs\<close>

definition replayed_block_compensation ::
  "stn_hash_fn \<Rightarrow> stn_storage_view \<Rightarrow> stn_block_compensation_evidence \<Rightarrow> bool" where
  "replayed_block_compensation sha active evidence \<longleftrightarrow>
     (case cs_block_compensation (vw_state active) of
        None \<Rightarrow> False
      | Some replay \<Rightarrow>
          (case stn_block_compensation_id sha (Some evidence) of
             Inl _ \<Rightarrow> True
           | Inr i \<Rightarrow> list_ex (\<lambda>x. memcmp x i = 0) (take (bcr_count replay) (bcr_ids replay))))"

definition block_issuance_type :: "stn_hash_fn \<Rightarrow> stn_pending_entry \<Rightarrow> bool" where
  "block_issuance_type sha e \<longleftrightarrow>
     (case stn_transaction_decode sha (pe_transaction e) of
        Inl _ \<Rightarrow> False
      | Inr tx \<Rightarrow> txn_type tx = STN_TX_ISSUANCE \<and>
          (case stn_issuance_decode (txn_record_bytes tx) of
             Inl _ \<Rightarrow> False | Inr issuance \<Rightarrow> iss_reason issuance = STN_ISSUANCE_REASON_BLOCK))"

text \<open>The entries of the generic assembly.\<close>

fun generic_entries :: "stn_hash_fn \<Rightarrow> stn_pending_entry list \<Rightarrow> stn_pending_entry list data_result" where
  "generic_entries sha [] = Inr []"
| "generic_entries sha (e # es) =
     (case stn_transaction_decode sha (pe_transaction e) of
        Inl _ \<Rightarrow> Inl STN_DATA_CONTENT
      | Inr tx \<Rightarrow>
          (case generic_entries sha es of
             Inl status \<Rightarrow> Inl status
           | Inr rest \<Rightarrow>
               if txn_type tx = STN_TX_BLOCK_COMPENSATION_EVIDENCE \<or> block_issuance_type sha e then Inr rest
               else Inr (e # rest)))"

definition append_transaction :: "nat \<Rightarrow> bytes \<Rightarrow> u32 \<Rightarrow> stn_pending_entry \<Rightarrow> (bytes \<times> u32) data_result" where
  "append_transaction capacity body count e =
     (if pe_length e > 4294967295 \<or> pe_length e + 4 > capacity - length body \<or>
        unat count \<ge> STN_BLOCK_MAX_TRANSACTIONS
      then Inl STN_DATA_CAPACITY
      else Inr (body @ stn_wire_write 4 (word_of_nat (pe_length e)) @ take (pe_length e) (the (pe_transaction e)),
        count + 1))"

definition pair_fits :: "nat \<Rightarrow> u32 \<Rightarrow> nat \<Rightarrow> stn_pending_entry \<Rightarrow> stn_pending_entry option \<Rightarrow> bool" where
  "pair_fits written count capacity evidence issuance \<longleftrightarrow>
     (case issuance of
        None \<Rightarrow> False
      | Some i \<Rightarrow>
          (let first = pe_length evidence + 4; second = pe_length i + 4
           in \<not> (pe_length evidence > 4294967295 \<or> pe_length i > 4294967295) \<and>
              \<not> unat count > STN_BLOCK_MAX_TRANSACTIONS - 2 \<and>
              \<not> (pe_length evidence > SIZE_MAX - 4 \<or> pe_length i > SIZE_MAX - 4) \<and>
              \<not> first > capacity - written \<and> second \<le> capacity - written - first))"

text \<open>
  The first block issuance bound to an evidence. A pending entry that does not decode is CONTENT;
  without a compensation mapping no issuance is bound.
\<close>

fun bound_issuance ::
  "stn_hash_fn \<Rightarrow> stn_compensation_state option \<Rightarrow> stn_block_compensation_evidence \<Rightarrow> stn_pending_entry list \<Rightarrow>
   stn_pending_entry option data_result" where
  "bound_issuance sha mapping evidence [] = Inr None"
| "bound_issuance sha mapping evidence (e # es) =
     (case stn_transaction_decode sha (pe_transaction e) of
        Inl _ \<Rightarrow> Inl STN_DATA_CONTENT
      | Inr tx \<Rightarrow>
          if block_issuance_type sha e \<and> mapping \<noteq> None \<and>
            stn_issuance_bind_block sha (sum_right (stn_issuance_decode (txn_record_bytes tx))) (Some evidence)
              (the mapping) = STN_DATA_OK
          then Inr (Some e)
          else bound_issuance sha mapping evidence es)"

text \<open>The loop over the evidence; \<open>written\<close> holds the body so far and its count.\<close>

fun pairs_loop ::
  "stn_hash_fn \<Rightarrow> stn_storage_view \<Rightarrow> nat \<Rightarrow> stn_pending_entry list \<Rightarrow> stn_pending_entry list \<Rightarrow> bytes \<times> u32 \<Rightarrow>
   (bytes \<times> u32) data_result" where
  "pairs_loop sha active capacity all [] written = Inr written"
| "pairs_loop sha active capacity all (e # es) written =
     (let continue = pairs_loop sha active capacity all es
      in case stn_transaction_decode sha (pe_transaction e) of
           Inl _ \<Rightarrow> Inl STN_DATA_CONTENT
         | Inr tx \<Rightarrow>
             if txn_type tx \<noteq> STN_TX_BLOCK_COMPENSATION_EVIDENCE then continue written
             else
               (case stn_block_compensation_decode (txn_record_bytes tx) of
                  Inl _ \<Rightarrow> Inl STN_DATA_CONTENT
                | Inr evidence \<Rightarrow>
                    if \<not> accepted_block sha (Some active) (ev_block_id evidence) \<or>
                      replayed_block_compensation sha active evidence
                    then continue written
                    else
                      (case bound_issuance sha (cs_compensation (vw_state active)) evidence all of
                         Inl status \<Rightarrow> Inl status
                       | Inr issuance \<Rightarrow>
                           if \<not> pair_fits (length (fst written)) (snd written) capacity e issuance
                           then continue written
                           else
                             (case append_transaction capacity (fst written) (snd written) e of
                                Inl status \<Rightarrow> Inl status
                              | Inr (body, count) \<Rightarrow>
                                  (case append_transaction capacity body count (the issuance) of
                                     Inl status \<Rightarrow> Inl status
                                   | Inr written' \<Rightarrow> continue written')))))"

definition stn_block_compensation_pending_assemble ::
  "stn_hash_fn \<Rightarrow> ed25519 \<Rightarrow> (nat \<Rightarrow> bool) \<Rightarrow> stn_pending \<Rightarrow> stn_validation_context option \<Rightarrow>
   stn_storage_view option \<Rightarrow> nat \<Rightarrow> (bytes \<times> u32) data_result option" where
  "stn_block_compensation_pending_assemble sha ed alloc p c view capacity =
     (case view of
        None \<Rightarrow> Some (Inl STN_DATA_ARGUMENT)
      | Some active \<Rightarrow>
          (case generic_entries sha (pool_entries p) of
             Inl status \<Rightarrow> Some (Inl status)
           | Inr entries \<Rightarrow>
               (case stn_pending_assemble sha ed alloc
                       \<lparr>pool_entries = entries, pool_bytes = sum_list (map pe_length entries)\<rparr> c view capacity of
                  None \<Rightarrow> None
                | Some (Inl status) \<Rightarrow> Some (Inl status)
                | Some (Inr written) \<Rightarrow>
                    Some (pairs_loop sha active capacity (pool_entries p) (pool_entries p) written))))"

end
