(* ===== verification/Stn_Pending_Correct.thy ===== *)
theory Stn_Pending_Correct
  imports Stn_Pending_Assemble
begin

text \<open>
  The pool as a finite map from identifiers to transactions: its invariant, the operations on the map,
  and what an admission may do to it.
\<close>

section \<open>The invariant\<close>

definition pool_wf :: "stn_pending \<Rightarrow> bool" where
  "pool_wf p \<longleftrightarrow> sorted_by pe_id (pool_entries p) \<and> length (pool_entries p) \<le> 128 \<and>
     pool_bytes p = sum_list (map pe_length (pool_entries p)) \<and> pool_bytes p \<le> 262144"

definition pool_map :: "stn_pending \<Rightarrow> bytes \<rightharpoonup> stn_pending_entry" where
  "pool_map p = table pe_id (pool_entries p)"

text \<open>An entry holds a valid transaction, its length and its identifier.\<close>

definition entry_held :: "stn_hash_fn \<Rightarrow> stn_hash_provider \<Rightarrow> stn_pending_entry \<Rightarrow> bool" where
  "entry_held sha provider e \<longleftrightarrow>
     (\<exists>t. pe_transaction e = Some t \<and> pe_length e = length t \<and> stn_transaction_id sha (Some t) provider = Inr (pe_id e))"

lemma find_id_find_at: "find_id es i = find_at pe_id i es"
  by (induction es) simp_all

lemma found_table:
  assumes "sorted_by pe_id es"
  shows "found_at es i (find_id es i) \<longleftrightarrow> table pe_id es i \<noteq> None"
  using find_at_table [OF assms, of i] by (auto simp: found_at_def find_id_find_at)

lemma found_entry:
  assumes "sorted_by pe_id es" "table pe_id es i = Some e"
  shows "find_id es i < length es" "es ! find_id es i = e"
  using assms(2) unfolding find_at_table [OF assms(1)] find_id_find_at by (auto split: if_splits)

section \<open>The operations on the map\<close>

lemma pool_insert_iff:
  assumes "pool_wf p"
  shows "pool_insert alloc e p = (STN_PENDING_ACCEPTED, p') \<longleftrightarrow>
    alloc \<and> pool_map p (pe_id e) = None \<and> length (pool_entries p) < 128 \<and> pe_length e + pool_bytes p \<le> 262144 \<and>
    p' = \<lparr>pool_entries = insert_at (find_at pe_id (pe_id e) (pool_entries p)) e (pool_entries p),
      pool_bytes = pool_bytes p + pe_length e\<rparr>"
proof -
  have "pool_bytes p \<le> 262144" "sorted_by pe_id (pool_entries p)" using assms by (simp_all add: pool_wf_def)
  moreover from this have "found_at (pool_entries p) (pe_id e) (find_at pe_id (pe_id e) (pool_entries p)) \<longleftrightarrow>
      pool_map p (pe_id e) \<noteq> None"
    using found_table [of "pool_entries p" "pe_id e"] by (simp add: find_id_find_at pool_map_def)
  ultimately show ?thesis
    by (auto simp: pool_insert_def Let_def find_id_find_at insert_at_def)
qed

lemma pool_insert_refused: "pool_insert alloc e p = (r, p') \<Longrightarrow> r \<noteq> STN_PENDING_ACCEPTED \<Longrightarrow> p' = p"
  by (auto simp: pool_insert_def Let_def split: if_splits)

lemma pool_insert_wf:
  assumes "pool_wf p" "pool_insert alloc e p = (STN_PENDING_ACCEPTED, p')"
  shows "pool_wf p'" "pool_map p' = (pool_map p)(pe_id e \<mapsto> e)" "pool_map p (pe_id e) = None"
    "set (pool_entries p') = insert e (set (pool_entries p))"
proof -
  note i = assms(2) [unfolded pool_insert_iff [OF assms(1)]]
  have sorted: "sorted_by pe_id (pool_entries p)" using assms(1) by (simp add: pool_wf_def)
  show fresh: "pool_map p (pe_id e) = None" using i by simp
  then show "pool_map p' = (pool_map p)(pe_id e \<mapsto> e)"
    using i sorted by (simp add: pool_map_def table_insert_at)
  show "set (pool_entries p') = insert e (set (pool_entries p))" using i by simp
  have "sum_list (map pe_length (insert_at n e es)) = pe_length e + sum_list (map pe_length es)" for n es
  proof -
    have "sum_list (map pe_length (take n es)) + sum_list (map pe_length (drop n es)) = sum_list (map pe_length es)"
      by (metis append_take_drop_id map_append sum_list_append)
    then show ?thesis by (simp add: insert_at_def)
  qed
  then show "pool_wf p'"
    using i fresh sorted assms(1) by (auto simp: pool_wf_def pool_map_def sorted_insert_at)
qed

text \<open>Removal at an index of a sorted table.\<close>

lemma sorted_by_append:
  "sorted_by f (xs @ ys) \<longleftrightarrow> sorted_by f xs \<and> sorted_by f ys \<and> (\<forall>x \<in> set xs. \<forall>y \<in> set ys. memcmp (f x) (f y) < 0)"
  by (auto simp: sorted_by_def sorted_wrt_append)

lemma sorted_by_filter: "sorted_by f xs \<Longrightarrow> sorted_by f (filter q xs)"
  by (simp add: sorted_by_def sorted_wrt_filter)

lemma sorted_by_distinct: "sorted_by f xs \<Longrightarrow> distinct (map f xs)"
  by (induction xs) auto

lemma table_filter:
  assumes "sorted_by f xs"
  shows "table f (filter q xs) k = (case table f xs k of Some x \<Rightarrow> if q x then Some x else None | None \<Rightarrow> None)"
  using assms
proof (induction xs)
  case (Cons x xs)
  have "table f xs (f x) = None" using Cons.prems by (subst table_None_iff) auto
  then show ?case using Cons by auto
qed simp

lemma remove_filter:
  assumes "sorted_by pe_id es" "at < length es"
  shows "take at es @ drop (at + 1) es = filter (\<lambda>e. pe_id e \<noteq> pe_id (es ! at)) es"
proof -
  have split: "es = take at es @ es ! at # drop (at + 1) es" using assms(2) by (simp add: id_take_nth_drop)
  have "distinct (map pe_id (take at es @ es ! at # drop (at + 1) es))"
    using sorted_by_distinct [OF assms(1)] split by simp
  then have "pe_id (es ! at) \<notin> pe_id ` set (take at es)" "pe_id (es ! at) \<notin> pe_id ` set (drop (at + 1) es)"
    by auto
  then have "filter (\<lambda>e. pe_id e \<noteq> pe_id (es ! at)) (take at es) = take at es"
      "filter (\<lambda>e. pe_id e \<noteq> pe_id (es ! at)) (drop (at + 1) es) = drop (at + 1) es"
    by (metis (mono_tags, lifting) filter_True image_eqI)+
  moreover note arg_cong [OF split, of "filter (\<lambda>e. pe_id e \<noteq> pe_id (es ! at))"]
  ultimately show ?thesis by simp
qed

lemma sum_split: "sum_list (map g (filter q xs)) + sum_list (map g (filter (\<lambda>x. \<not> q x) xs)) = sum_list (map (g :: 'a \<Rightarrow> nat) xs)"
  by (induction xs) auto

text \<open>A pool that keeps a part of its entries.\<close>

lemma pool_wf_filter:
  assumes "pool_wf p"
  shows "pool_wf \<lparr>pool_entries = filter q (pool_entries p),
      pool_bytes = sum_list (map pe_length (filter q (pool_entries p)))\<rparr>"
  using assms sum_split [of pe_length q "pool_entries p"] le_trans [OF length_filter_le [of q "pool_entries p"]]
  by (auto simp: pool_wf_def sorted_by_filter)

lemma remove_iff:
  assumes "pool_wf p"
  shows "stn_pending_remove p i =
    (if pool_map p i = None then (STN_PENDING_NOT_FOUND, p)
     else (STN_PENDING_ACCEPTED,
       \<lparr>pool_entries = filter (\<lambda>e. pe_id e \<noteq> i) (pool_entries p),
        pool_bytes = sum_list (map pe_length (filter (\<lambda>e. pe_id e \<noteq> i) (pool_entries p)))\<rparr>))"
proof (cases "pool_map p i")
  case None
  then show ?thesis
    using assms by (simp add: stn_pending_remove_def Let_def pool_map_def pool_wf_def found_table)
next
  case (Some e)
  let ?es = "pool_entries p" and ?at = "find_id (pool_entries p) i"
  have sorted: "sorted_by pe_id ?es" using assms by (simp add: pool_wf_def)
  have at: "?at < length ?es" "?es ! ?at = e" and e: "pe_id e = i"
    using found_entry [OF sorted, of i e] table_key [of pe_id ?es i e] Some by (simp_all add: pool_map_def)
  have only: "filter (\<lambda>x. \<not> pe_id x \<noteq> i) ?es = [e]"
  proof -
    have "distinct (map pe_id (filter (\<lambda>x. pe_id x = i) ?es))"
      using sorted_by_distinct [OF sorted_by_filter [OF sorted]] .
    moreover have "set (map pe_id (filter (\<lambda>x. pe_id x = i) ?es)) = {i}"
      using at e nth_mem by force
    ultimately have "length (filter (\<lambda>x. pe_id x = i) ?es) = 1"
      using distinct_card by fastforce
    then obtain y where y: "filter (\<lambda>x. pe_id x = i) ?es = [y]" by (auto simp: length_Suc_conv)
    have "e \<in> set (filter (\<lambda>x. pe_id x = i) ?es)" using at e by auto
    then show ?thesis using y by simp
  qed
  have "pool_bytes p - pe_length e = sum_list (map pe_length (filter (\<lambda>x. pe_id x \<noteq> i) ?es))"
    using sum_split [of pe_length "\<lambda>x. pe_id x \<noteq> i" ?es] assms unfolding only by (simp add: pool_wf_def)
  then show ?thesis
    using Some remove_filter [OF sorted at(1)] found_table [OF sorted, of i] at e
    by (simp add: stn_pending_remove_def Let_def pool_map_def)
qed

text \<open>Pruning keeps the entries whose mark is clear.\<close>

definition unmarked :: "bool list \<Rightarrow> 'a list \<Rightarrow> 'a list" where
  "unmarked marks es = map fst (filter (\<lambda>(e, m). \<not> m) (zip es marks))"

lemma prune_loop_eq:
  assumes "length es \<le> length marks" "sum_list (map pe_length es) \<le> n"
  shows "prune_loop es marks n =
    (unmarked marks es, n - sum_list (map pe_length es) + sum_list (map pe_length (unmarked marks es)))"
  using assms
proof (induction es arbitrary: marks n)
  case (Cons e es)
  then obtain m ms where m: "marks = m # ms" by (cases marks) auto
  show ?case
    using Cons m by (cases m) (auto simp: unmarked_def)
qed (simp add: unmarked_def)

lemma prune_eq:
  assumes "pool_wf p" "length marks = 128"
  shows "stn_pending_prune p marks =
    \<lparr>pool_entries = unmarked marks (pool_entries p),
     pool_bytes = sum_list (map pe_length (unmarked marks (pool_entries p)))\<rparr>"
  using assms prune_loop_eq [of "pool_entries p" marks "pool_bytes p"]
  by (simp add: stn_pending_prune_def pool_wf_def)

lemma unmarked_filter:
  assumes "length es \<le> length marks" "\<And>k. k < length es \<Longrightarrow> marks ! k \<longleftrightarrow> q (es ! k)"
  shows "unmarked marks es = filter (\<lambda>e. \<not> q e) es"
  using assms
proof (induction es arbitrary: marks)
  case (Cons e es)
  then obtain m ms where m: "marks = m # ms" by (cases marks) auto
  have "m \<longleftrightarrow> q e" using Cons.prems(2) [of 0] m by simp
  moreover have "unmarked ms es = filter (\<lambda>e. \<not> q e) es"
    using Cons.prems(1) Cons.prems(2) [of "Suc k" for k] m by (intro Cons.IH) auto
  ultimately show ?case using m by (simp add: unmarked_def)
qed (simp add: unmarked_def)

text \<open>Whatever the marks, pruning a sorted pool filters it.\<close>

lemma unmarked_some_filter:
  assumes "distinct es" "length es \<le> length marks"
  shows "\<exists>q. unmarked marks es = filter q es"
proof -
  have "marks ! k \<longleftrightarrow> (\<exists>j < length es. es ! j = es ! k \<and> marks ! j)" if "k < length es" for k
    using assms(1) that nth_eq_iff_index_eq by blast
  then have "unmarked marks es = filter (\<lambda>e. \<not> (\<exists>j < length es. es ! j = e \<and> marks ! j)) es"
    using assms(2) by (intro unmarked_filter) auto
  then show ?thesis by blast
qed

lemma pool_distinct: "pool_wf p \<Longrightarrow> distinct (pool_entries p)"
  using sorted_by_distinct [of pe_id "pool_entries p"] by (simp add: pool_wf_def distinct_map)

lemma pool_map_entries: "pool_map p i = Some e \<Longrightarrow> e \<in> set (pool_entries p) \<and> pe_id e = i"
  unfolding pool_map_def by (auto dest: table_key)

lemma pool_map_member:
  assumes "pool_wf p" "e \<in> set (pool_entries p)"
  shows "pool_map p (pe_id e) = Some e"
  using assms table_nth [of pe_id "pool_entries p"] by (auto simp: pool_wf_def pool_map_def in_set_conv_nth)

text \<open>The removal and the pruning of a pool as restrictions of its map.\<close>

lemma pool_map_filter:
  assumes "pool_wf p"
  shows "pool_map \<lparr>pool_entries = filter q (pool_entries p), pool_bytes = n\<rparr> i =
    (case pool_map p i of Some e \<Rightarrow> if q e then Some e else None | None \<Rightarrow> None)"
  using assms by (simp add: pool_map_def table_filter pool_wf_def)

lemma remove_map:
  assumes "pool_wf p"
  shows "pool_map (snd (stn_pending_remove p i)) = (pool_map p)(i := None)"
proof
  fix k
  show "pool_map (snd (stn_pending_remove p i)) k = ((pool_map p)(i := None)) k"
    using pool_map_filter [OF assms, of "\<lambda>e. pe_id e \<noteq> i"] pool_map_entries [of p k]
    by (auto simp: remove_iff [OF assms] split: option.splits)
qed

lemma prune_map:
  assumes "pool_wf p" "length marks = 128"
    and "\<And>k. k < length (pool_entries p) \<Longrightarrow> marks ! k \<longleftrightarrow> pe_id (pool_entries p ! k) \<in> ids"
  shows "pool_map (stn_pending_prune p marks) = pool_map p |` (- ids)"
proof
  fix i
  have "unmarked marks (pool_entries p) = filter (\<lambda>e. pe_id e \<notin> ids) (pool_entries p)"
    using assms by (intro unmarked_filter) (simp_all add: pool_wf_def)
  then show "pool_map (stn_pending_prune p marks) i = (pool_map p |` (- ids)) i"
    using pool_map_filter [OF assms(1), of "\<lambda>e. pe_id e \<notin> ids"] pool_map_entries [of p i]
    by (auto simp: prune_eq [OF assms(1,2)] restrict_map_def split: option.splits)
qed

lemma lookup_iff:
  assumes "pool_wf p"
  shows "stn_pending_lookup p i capacity =
    (case pool_map p i of
       None \<Rightarrow> Inl STN_PENDING_NOT_FOUND
     | Some e \<Rightarrow> if capacity < pe_length e then Inl STN_PENDING_CAPACITY
         else Inr (take (pe_length e) (the (pe_transaction e))))"
proof -
  have sorted: "sorted_by pe_id (pool_entries p)" using assms by (simp add: pool_wf_def)
  show ?thesis
  proof (cases "pool_map p i")
    case (Some e)
    then have "found_at (pool_entries p) i (find_id (pool_entries p) i)" "pool_entries p ! find_id (pool_entries p) i = e"
      using found_table [OF sorted, of i] found_entry(2) [OF sorted, of i e] by (simp_all add: pool_map_def)
    then show ?thesis using Some by (simp add: stn_pending_lookup_def Let_def)
  qed (use found_table [OF sorted, of i] in \<open>simp add: stn_pending_lookup_def Let_def pool_map_def\<close>)
qed

lemma enumerate_iff:
  "stn_pending_enumerate p start capacity = take capacity (map pe_id (drop start (pool_entries p)))"
  by (rule nth_equalityI) (auto simp: stn_pending_enumerate_def Let_def min_def split: if_splits)

end
