(* ===== verification/Stn_Pending_Run.thy ===== *)
theory Stn_Pending_Run
  imports Stn_Pending_Correct
begin

text \<open>
  The life of a pool: which changes an admission may make, the step relation of the pool's operations,
  and the invariant of every pool they reach.
\<close>

section \<open>What an admission does\<close>

text \<open>
  The one-time key of a publication or a transfer: its signer and its nonce. The other types have none:
  the pool takes two contract actions of one actor, both filed under the nonce zero.
\<close>

definition one_time_key :: "stn_hash_fn \<Rightarrow> bytes \<Rightarrow> (bytes \<times> bytes) option" where
  "one_time_key sha t =
     (case stn_transaction_decode sha (Some t) of
        Inl _ \<Rightarrow> None
      | Inr tx \<Rightarrow>
          if txn_type tx = STN_TX_PUBLICATION
          then map_option (\<lambda>r. (rec_signer_public_key r, rec_nonce r)) (sum_right (stn_record_decode (txn_record_bytes tx)))
          else if txn_type tx = STN_TX_TRANSFER
          then map_option (\<lambda>e. (env_controller e, env_nonce e)) (sum_right (stn_transfer_envelope_decode (txn_record_bytes tx)))
          else None)"

text \<open>An entry made for a transaction, filed under its key.\<close>

definition entry_for :: "stn_hash_fn \<Rightarrow> stn_hash_provider \<Rightarrow> bytes \<Rightarrow> stn_pending_entry \<Rightarrow> bool" where
  "entry_for sha provider t e \<longleftrightarrow> pe_transaction e = Some t \<and> pe_length e = length t \<and>
     stn_transaction_id sha (Some t) provider = Inr (pe_id e) \<and>
     (\<forall>k. one_time_key sha t = Some k \<longrightarrow> k = (pe_signer e, pe_nonce e))"

text \<open>
  The outcome of an admission: an accepted transaction is inserted, under its identifier and with a
  fresh one-time key; anything else leaves the pool alone.
\<close>

definition admitted ::
  "stn_hash_fn \<Rightarrow> stn_hash_provider \<Rightarrow> stn_pending \<Rightarrow> bytes \<Rightarrow> stn_pending_result \<Rightarrow> bytes \<Rightarrow> stn_pending option \<Rightarrow> bool" where
  "admitted sha provider p t result i pool' \<longleftrightarrow>
     (if result = STN_PENDING_ACCEPTED
      then \<exists>e alloc p'. pool' = Some p' \<and> pool_insert alloc e p = (STN_PENDING_ACCEPTED, p') \<and> entry_for sha provider t e \<and>
        i = pe_id e \<and>
        (one_time_key sha t \<noteq> None \<longrightarrow> (\<forall>x \<in> set (pool_entries p). \<not> same_nonce x (pe_signer e) (pe_nonce e)))
      else pool' = Some p)"

lemma admitted_refused [simp]: "result \<noteq> STN_PENDING_ACCEPTED \<Longrightarrow> admitted sha provider p t result i (Some p)"
  by (simp add: admitted_def)

text \<open>The entry of an insertion.\<close>

lemma insert_key_one_time:
  assumes "stn_transaction_decode sha (Some t) = Inr tx" "insert_key sha provider tx = Inr (s, n)"
    "one_time_key sha t = Some k"
  shows "k = (s, n)"
  using assms by (auto simp: one_time_key_def insert_key_def Let_def split: if_splits sum.splits)

lemma insert_key_refusal: "insert_key sha provider tx \<noteq> Inl STN_PENDING_ACCEPTED"
  by (auto simp: insert_key_def Let_def split: sum.splits option.splits)

lemma insert_accepted:
  assumes "stn_pending_insert sha alloc p (Some t) provider = (STN_PENDING_ACCEPTED, i, p')"
  obtains e where "pool_insert alloc e p = (STN_PENDING_ACCEPTED, p')" "entry_for sha provider t e" "i = Some (pe_id e)"
proof -
  from assms obtain tx signer nonce d where d: "stn_transaction_decode sha (Some t) = Inr tx"
      "insert_key sha provider tx = Inr (signer, nonce)" "stn_transaction_id sha (Some t) provider = Inr d"
    by (auto simp: stn_pending_insert_def insert_key_refusal split: sum.splits prod.splits)
  define e where "e = \<lparr>pe_id = d, pe_signer = signer, pe_nonce = nonce, pe_transaction = Some t, pe_length = length t\<rparr>"
  have "pool_insert alloc e p = (STN_PENDING_ACCEPTED, p')" "i = Some (pe_id e)"
    using assms d by (auto simp: stn_pending_insert_def e_def split: prod.splits)
  moreover have "entry_for sha provider t e"
    using d insert_key_one_time [OF d(1,2)] by (simp add: entry_for_def e_def)
  ultimately show thesis using that by simp
qed

lemma insert_refused:
  "stn_pending_insert sha alloc p input provider = (r, i, p') \<Longrightarrow> r \<noteq> STN_PENDING_ACCEPTED \<Longrightarrow> p' = p \<and> i = None"
  by (auto simp: stn_pending_insert_def split: sum.splits prod.splits dest: pool_insert_refused)

lemma insert_admitted:
  assumes "stn_pending_insert sha alloc p (Some t) provider = (r, i', p')"
    and "r = STN_PENDING_ACCEPTED \<Longrightarrow> i' = Some i"
    and "\<And>s n. one_time_key sha t = Some (s, n) \<Longrightarrow> \<forall>x \<in> set (pool_entries p). \<not> same_nonce x s n"
  shows "admitted sha provider p t r i (Some p')"
proof (cases "r = STN_PENDING_ACCEPTED")
  case True
  then obtain e where e: "pool_insert alloc e p = (STN_PENDING_ACCEPTED, p')" "entry_for sha provider t e" "i' = Some (pe_id e)"
    using insert_accepted assms(1) by metis
  have "\<forall>x \<in> set (pool_entries p). \<not> same_nonce x (pe_signer e) (pe_nonce e)" if "one_time_key sha t \<noteq> None"
    using that assms(3) e(2) by (fastforce simp: entry_for_def)
  then show ?thesis using True e assms(2) by (auto simp: admitted_def)
next
  case False
  then show ?thesis using insert_refused [OF assms(1)] by simp
qed

lemma block_insert_admitted:
  assumes "pending_insert_block sha alloc p t provider s n = (r, i', p')" "one_time_key sha t = None"
  shows "admitted sha provider p t r (case i' of None \<Rightarrow> i | Some x \<Rightarrow> x) (Some p')"
proof (cases "r = STN_PENDING_ACCEPTED")
  case True
  then obtain d where d: "stn_transaction_id sha (Some t) provider = Inr d"
    using assms(1) by (auto simp: pending_insert_block_def split: sum.splits)
  define e where "e = \<lparr>pe_id = d, pe_signer = s, pe_nonce = n, pe_transaction = Some t, pe_length = length t\<rparr>"
  have "pool_insert alloc e p = (STN_PENDING_ACCEPTED, p')" "i' = Some (pe_id e)"
    using assms(1) d True by (auto simp: pending_insert_block_def e_def split: prod.splits)
  moreover have "entry_for sha provider t e" using d assms(2) by (simp add: entry_for_def e_def)
  ultimately show ?thesis using True assms(2) by (auto simp: admitted_def)
next
  case False
  then have "p' = p" using assms(1)
    by (auto simp: pending_insert_block_def split: sum.splits prod.splits dest: pool_insert_refused)
  then show ?thesis using False by simp
qed

section \<open>Every admission has that outcome\<close>

definition admitted_answer ::
  "stn_hash_fn \<Rightarrow> stn_hash_provider option \<Rightarrow> stn_pending \<Rightarrow> bytes \<Rightarrow> pending_answer \<Rightarrow> bool" where
  "admitted_answer sha provider p t a \<longleftrightarrow>
     admitted sha (provider_fn provider) p t (fst a) (fst (snd (snd a))) (snd (snd (snd a)))"

lemma admitted_answer_simps [simp]:
  "result \<noteq> STN_PENDING_ACCEPTED \<Longrightarrow> admitted_answer sha provider p t (answer result report acceptance i (Some p))"
  "result \<noteq> STN_PENDING_ACCEPTED \<Longrightarrow> admitted_answer sha provider p t (result, report, i, Some p)"
  by (simp_all add: admitted_answer_def answer_def)

lemma admit_insert_admitted [simp]:
  assumes "\<forall>s n. one_time_key sha t = Some (s, n) \<longrightarrow> (\<forall>x \<in> set (pool_entries p). \<not> same_nonce x s n)"
  shows "admitted_answer sha provider p t (admit_insert sha alloc (Some p) (Some t) provider i report granted)"
proof (cases "stn_pending_insert sha alloc p (Some t) (provider_fn provider)")
  case (fields r i' p')
  have "r = STN_PENDING_ACCEPTED \<Longrightarrow> i' = Some (case i' of None \<Rightarrow> i | Some x \<Rightarrow> x)"
    using insert_accepted fields by fastforce
  then show ?thesis
    using insert_admitted [OF fields, of "case i' of None \<Rightarrow> i | Some x \<Rightarrow> x"] assms fields
    by (simp add: admitted_answer_def admit_insert_def)
qed

lemma admitted_answer_if [simp]:
  "admitted_answer sha provider p t (if b then x else y) \<longleftrightarrow>
     (b \<longrightarrow> admitted_answer sha provider p t x) \<and> (\<not> b \<longrightarrow> admitted_answer sha provider p t y)"
  by simp

lemma malformed_admitted: "admitted_answer sha provider p t (admit_malformed status input (Some p))"
  by (auto simp: admit_malformed_def Let_def split: sum.splits)

lemma branches_admitted:
  assumes "one_time_key sha t = None"
  shows "admitted_answer sha provider p t (admit_contract sha alloc (Some p) (Some t) view provider)"
    "admitted_answer sha provider p t (admit_share sha alloc (Some p) (Some t) tx view provider)"
    "admitted_answer sha provider p t (admit_destination sha alloc (Some p) (Some t) tx view provider)"
    "admitted_answer sha provider p t (admit_issuance sha alloc (Some p) (Some t) tx view provider)"
    "admitted_answer sha provider p t (admit_lifecycle sha alloc (Some p) (Some t) c view provider)"
  using assms
  by (auto simp: admit_contract_def admit_share_def admit_destination_def admit_issuance_def admit_lifecycle_def Let_def
    split: sum.splits option.splits prod.splits bool.splits)

lemma transfer_admitted:
  assumes "stn_transaction_decode sha (Some t) = Inr tx" "txn_type tx = STN_TX_TRANSFER"
  shows "admitted_answer sha provider p t (admit_transfer sha ed alloc (Some p) (Some t) tx view provider)"
proof (cases "stn_transfer_envelope_decode (txn_record_bytes tx)")
  case (Inr e)
  have key: "one_time_key sha t = Some (env_controller e, env_nonce e)"
    using assms Inr by (simp add: one_time_key_def)
  show ?thesis
    unfolding admit_transfer_def Let_def Inr sum.case
    by (auto simp: key list_ex_iff split: sum.splits)
qed (auto simp: admit_transfer_def Let_def)

text \<open>A publication is encoded again from its record, which gives the transaction that was decoded.\<close>

lemma publication_encoded:
  assumes "stn_transaction_decode sha (Some t) = Inr tx" "txn_type tx = STN_TX_PUBLICATION"
  shows "stn_transaction_encode sha (Some \<lparr>txn_version = 1, txn_type = STN_TX_PUBLICATION,
      txn_record_bytes = txn_record_bytes tx, txn_record_length = word_of_nat (length (the (txn_record_bytes tx)))\<rparr>)
      STN_TX_MAX_SIZE = Inr t"
proof -
  have "tx = \<lparr>txn_version = 1, txn_type = STN_TX_PUBLICATION, txn_record_bytes = txn_record_bytes tx,
      txn_record_length = word_of_nat (length (the (txn_record_bytes tx)))\<rparr>"
    using assms tx_codec.dec_wf [OF assms(1)] unfolding tx_decode_iff
    by (auto simp: tx_ok_def wf_tx_def)
  then show ?thesis using tx_codec.enc_dec [OF assms(1)] by simp
qed

lemma entry_admitted:
  assumes "admit_entry sha alloc p t e active hash report = Some a" "one_time_key sha t = Some (pe_signer e, pe_nonce e)"
    "stn_transaction_id sha (Some t) hash = Inr (pe_id e)"
  shows "admitted_answer sha (Some hash) p t a"
proof -
  have fresh: "\<forall>x \<in> set (pool_entries p). \<not> same_nonce x s n"
    if "\<not> list_ex (\<lambda>x. same_nonce x (pe_signer e) (pe_nonce e)) (pool_entries p)" "one_time_key sha t = Some (s, n)" for s n
    using that assms(2) by (auto simp: list_ex_iff)
  have same: "i' = Some (pe_id e)"
    if "stn_pending_insert sha alloc p (Some t) hash = (STN_PENDING_ACCEPTED, i', p')" for i' p'
    using insert_accepted [OF that] assms(3) by (metis entry_for_def sum.inject(2))
  show ?thesis
    using assms(1) fresh
    by (auto simp: admit_entry_def Let_def admitted_answer_def provider_fn_def
      split: if_splits option.splits sum.splits prod.splits intro!: insert_admitted dest: same)
qed

lemma publication_admitted:
  assumes "stn_transaction_decode sha (Some t) = Inr tx" "txn_type tx = STN_TX_PUBLICATION"
    and "stn_pending_admit sha ed alloc (Some p) (txn_record_bytes tx) c view provider = Some a"
  shows "admitted_answer sha provider p t a"
proof -
  have "one_time_key sha t = Some (rec_signer_public_key r, rec_nonce r)" if "stn_record_decode (txn_record_bytes tx) = Inr r" for r
    using assms(1,2) that by (simp add: one_time_key_def)
  then show ?thesis
    using assms(3) publication_encoded [OF assms(1,2)]
    by (auto simp: stn_pending_admit_def Let_def split: option.splits prod.splits if_splits sum.splits
      intro: entry_admitted)
qed

lemma not_one_time:
  assumes "stn_transaction_decode sha (Some t) = Inr tx" "txn_type tx \<noteq> STN_TX_PUBLICATION" "txn_type tx \<noteq> STN_TX_TRANSFER"
  shows "one_time_key sha t = None"
  using assms by (simp add: one_time_key_def)

lemma transaction_admitted:
  assumes "stn_pending_admit_transaction sha ed alloc (Some p) (Some t) c view provider = Some a"
  shows "admitted_answer sha provider p t a"
proof (cases "stn_transaction_decode sha (Some t)")
  case (Inl status)
  then show ?thesis using assms malformed_admitted by (auto simp: stn_pending_admit_transaction_def)
next
  case (Inr tx)
  consider "txn_type tx = STN_TX_PUBLICATION" | "txn_type tx = STN_TX_TRANSFER"
    | "txn_type tx \<noteq> STN_TX_PUBLICATION" "txn_type tx \<noteq> STN_TX_TRANSFER" by blast
  then show ?thesis
  proof cases
    case 1
    then show ?thesis using assms Inr publication_admitted [OF Inr] by (simp add: stn_pending_admit_transaction_def)
  next
    case 2
    then show ?thesis using assms Inr transfer_admitted [OF Inr] by (auto simp: stn_pending_admit_transaction_def)
  next
    case 3
    then show ?thesis
      using assms Inr branches_admitted [OF not_one_time [OF Inr 3]]
      by (auto simp: stn_pending_admit_transaction_def split: if_splits)
  qed
qed

lemma block_inserted_admitted:
  assumes "one_time_key sha t = None"
  shows "admitted_answer sha (Some hash) p t (block_inserted i (pending_insert_block sha alloc p t hash s n))"
proof (cases "pending_insert_block sha alloc p t hash s n")
  case (fields r i' p')
  then show ?thesis
    using block_insert_admitted [OF fields assms, of i]
    by (simp add: admitted_answer_def block_inserted_def provider_fn_def)
qed

lemma pair_admitted:
  assumes "one_time_key sha t = None"
  shows "admitted_answer sha provider p t (admit_evidence sha alloc (Some p) t tx view provider)"
    "admitted_answer sha provider p t (admit_block_issuance sha alloc (Some p) t issuance view provider)"
  using block_inserted_admitted [OF assms]
  by (auto simp: admit_evidence_def admit_block_issuance_def Let_def split: option.splits sum.splits)

lemma compensation_admitted:
  assumes "stn_block_compensation_pending_admit sha ed alloc (Some p) (Some t) c view provider = Some a"
  shows "admitted_answer sha provider p t a"
proof (cases "stn_transaction_decode sha (Some t)")
  case (Inr tx)
  note key = not_one_time [OF Inr]
  show ?thesis
    using assms Inr pair_admitted key transaction_admitted [of sha ed alloc p t c view provider a]
    by (auto simp: stn_block_compensation_pending_admit_def Let_def split: if_splits sum.splits)
qed (use assms transaction_admitted in \<open>auto simp: stn_block_compensation_pending_admit_def Let_def\<close>)

lemma share_issuance_admitted:
  assumes "one_time_key sha t = None"
  shows "admitted_answer sha provider p t (block_inserted i (stn_pending_insert sha alloc p (Some t) (provider_fn provider)))"
proof (cases "stn_pending_insert sha alloc p (Some t) (provider_fn provider)")
  case (fields r i' p')
  have "r = STN_PENDING_ACCEPTED \<Longrightarrow> i' = Some (case i' of None \<Rightarrow> i | Some x \<Rightarrow> x)"
    using insert_accepted fields by fastforce
  then show ?thesis
    using insert_admitted [OF fields, of "case i' of None \<Rightarrow> i | Some x \<Rightarrow> x"] assms fields
    by (simp add: admitted_answer_def block_inserted_def)
qed

lemma share_admitted:
  assumes "stn_share_pending_admit sha ed alloc (Some p) (Some t) c view provider report i = Some a"
  shows "admitted_answer sha provider p t a"
proof (cases "stn_transaction_decode sha (Some t)")
  case (Inr tx)
  note general = compensation_admitted [of sha ed alloc p t c view provider a]
  show ?thesis
    using assms Inr general share_issuance_admitted not_one_time [OF Inr]
    by (auto simp: stn_share_pending_admit_def Let_def split: if_splits sum.splits option.splits prod.splits)
qed (use assms compensation_admitted in \<open>auto simp: stn_share_pending_admit_def Let_def\<close>)

section \<open>The life of a pool\<close>

inductive pool_step :: "stn_hash_fn \<Rightarrow> stn_hash_provider \<Rightarrow> stn_pending \<Rightarrow> stn_pending \<Rightarrow> bool" for sha hash where
  admit: "stn_share_pending_admit sha ed alloc (Some p) (Some t) c view (Some hash) report i =
    Some (result, report', i', Some p') \<Longrightarrow> pool_step sha hash p p'"
| remove: "pool_step sha hash p (snd (stn_pending_remove p i))"
| prune: "length marks = STN_PENDING_MAX_ENTRIES \<Longrightarrow> pool_step sha hash p (stn_pending_prune p marks)"
| clear: "pool_step sha hash p (stn_pending_clear p)"

text \<open>Sorted and within the budgets, every entry filed right, no one-time key twice.\<close>

definition entry_key :: "stn_hash_fn \<Rightarrow> stn_pending_entry \<Rightarrow> (bytes \<times> bytes) option" where
  "entry_key sha e = one_time_key sha (the (pe_transaction e))"

definition keys_unique :: "stn_hash_fn \<Rightarrow> stn_pending_entry set \<Rightarrow> bool" where
  "keys_unique sha es \<longleftrightarrow>
     (\<forall>a \<in> es. \<forall>b \<in> es. \<forall>k. entry_key sha a = Some k \<and> entry_key sha b = Some k \<longrightarrow> a = b)"

definition pool_inv :: "stn_hash_fn \<Rightarrow> stn_hash_provider \<Rightarrow> stn_pending \<Rightarrow> bool" where
  "pool_inv sha hash p \<longleftrightarrow> pool_wf p \<and>
     (\<forall>e \<in> set (pool_entries p). entry_for sha hash (the (pe_transaction e)) e) \<and>
     keys_unique sha (set (pool_entries p))"

lemma keys_unique_subset: "keys_unique sha es \<Longrightarrow> ds \<subseteq> es \<Longrightarrow> keys_unique sha ds"
  unfolding keys_unique_def by blast

lemma keys_unique_insert:
  "keys_unique sha es \<Longrightarrow> (\<And>x k. x \<in> es \<Longrightarrow> entry_key sha e = Some k \<Longrightarrow> entry_key sha x \<noteq> Some k) \<Longrightarrow>
   keys_unique sha (insert e es)"
  unfolding keys_unique_def by blast

lemma pool_inv_filter:
  assumes "pool_inv sha hash p"
  shows "pool_inv sha hash \<lparr>pool_entries = filter q (pool_entries p),
    pool_bytes = sum_list (map pe_length (filter q (pool_entries p)))\<rparr>"
  using assms pool_wf_filter [of p q] keys_unique_subset [of sha "set (pool_entries p)"]
  by (simp add: pool_inv_def)

lemma pool_inv_insert:
  assumes "pool_inv sha hash p" "pool_insert alloc e p = (STN_PENDING_ACCEPTED, p')" "entry_for sha hash t e"
    "one_time_key sha t \<noteq> None \<longrightarrow> (\<forall>x \<in> set (pool_entries p). \<not> same_nonce x (pe_signer e) (pe_nonce e))"
  shows "pool_inv sha hash p'"
proof -
  have wf: "pool_wf p" using assms(1) by (simp add: pool_inv_def)
  have t: "the (pe_transaction e) = t" using assms(3) by (simp add: entry_for_def)
  have "entry_key sha x \<noteq> Some k" if x: "x \<in> set (pool_entries p)" and k: "entry_key sha e = Some k" for x k
  proof
    assume same: "entry_key sha x = Some k"
    have "k = (pe_signer e, pe_nonce e)" using assms(3) k t unfolding entry_for_def entry_key_def by blast
    moreover have "k = (pe_signer x, pe_nonce x)"
      using assms(1) x same unfolding pool_inv_def entry_for_def entry_key_def by blast
    ultimately show False using assms(4) x k t by (auto simp: same_nonce_def entry_key_def)
  qed
  then have "keys_unique sha (insert e (set (pool_entries p)))"
    using assms(1) by (intro keys_unique_insert) (auto simp: pool_inv_def)
  then show ?thesis
    using assms(1,3) t pool_insert_wf(1,4) [OF wf assms(2)] unfolding pool_inv_def by simp
qed

lemma pool_step_inv:
  assumes "pool_step sha hash p p'" "pool_inv sha hash p"
  shows "pool_inv sha hash p'"
  using assms(1)
proof cases
  case (admit ed alloc t c view report i result report' i')
  then have "admitted sha hash p t result i' (Some p')"
    using share_admitted [OF admit] by (simp add: admitted_answer_def provider_fn_def)
  then show ?thesis
    using assms(2) pool_inv_insert by (fastforce simp: admitted_def split: if_splits)
next
  case (remove i)
  then show ?thesis
    using assms(2) pool_inv_filter [OF assms(2), of "\<lambda>e. pe_id e \<noteq> i"] remove_iff [of p i]
    by (simp add: pool_inv_def)
next
  case (prune marks)
  have wf: "pool_wf p" using assms(2) by (simp add: pool_inv_def)
  obtain q where "unmarked marks (pool_entries p) = filter q (pool_entries p)"
    using unmarked_some_filter [OF pool_distinct [OF wf], of marks] wf prune(2) by (auto simp: pool_wf_def)
  then show ?thesis using prune prune_eq [OF wf] pool_inv_filter [OF assms(2), of q] by simp
next
  case clear
  then show ?thesis by (simp add: stn_pending_clear_def pool_inv_def pool_wf_def keys_unique_def)
qed

end
