(* ===== verification/Stn_Pending_Scan.thy ===== *)
theory Stn_Pending_Scan
  imports Stn_Pending_Run
begin

text \<open>
  What the scans of an accepted history find: the committed inclusions are exactly the pooled
  transactions of its blocks; the scan by content never finds a lifecycle or a contract transaction,
  stops at block compensation evidence, and reads through the NULL transaction of the admission's
  probe.
\<close>

section \<open>The transactions of a history\<close>

fun unframe :: "nat \<Rightarrow> bytes \<Rightarrow> bytes list" where
  "unframe 0 r = []"
| "unframe (Suc k) r =
     (let n = unat (stn_wire_read r 4) in take n (drop 4 r) # unframe k (drop (4 + n) r))"

definition block_txs :: "stn_hash_fn \<Rightarrow> bytes \<Rightarrow> bytes list" where
  "block_txs sha b =
     (case stn_block_decode sha (Some b) of
        Inl _ \<Rightarrow> []
      | Inr block \<Rightarrow> unframe (unat (bh_transaction_count (blk_header block))) (the (blk_body block)))"

definition accepted_ids :: "stn_hash_fn \<Rightarrow> stn_hash_provider \<Rightarrow> bytes list \<Rightarrow> bytes set" where
  "accepted_ids sha hash blocks =
     {i. \<exists>b \<in> set blocks. \<exists>t \<in> set (block_txs sha b). stn_transaction_id sha (Some t) hash = Inr i}"

lemma read_frame_size:
  assumes "length t \<le> 66881"
  shows "unat (stn_wire_read (frame t @ r) 4) = length t" "take (length t) (drop 4 (frame t @ r)) = t"
    "drop (4 + length t) (frame t @ r) = r" "4 \<le> length (frame t @ r)" "drop (length t) (drop 4 (frame t @ r)) = r"
proof -
  show "unat (stn_wire_read (frame t @ r) 4) = length t"
    using read_frame(1) [OF assms, of r] by (simp add: unat_read_32 unat_wire_read)
qed (simp_all add: frame_def)

lemma unframe_frames: "\<forall>t \<in> set ts. length t \<le> 66881 \<Longrightarrow> unframe (length ts) (frames ts) = ts"
  by (induction ts) (simp_all add: Let_def read_frame_size read_frame_size [where r = "[]", simplified])

lemma block_txs_parts:
  assumes "block_parts sha b h ts"
  shows "block_txs sha b = ts"
proof -
  have "\<forall>t \<in> set ts. length t \<le> 66881" using assms valid_tx_length(2) by (auto simp: block_parts_def)
  moreover have "length ts = unat (bh_transaction_count h)" using assms by (simp add: block_parts_def)
  ultimately show ?thesis
    using block_parts_decode(1) [OF assms] unframe_frames [of ts] by (simp add: block_txs_def)
qed

lemma decoded_txs:
  assumes "stn_block_decode sha (Some b) = Inr block"
  shows "blk_body block = Some (frames (block_txs sha b))"
    "unat (bh_transaction_count (blk_header block)) = length (block_txs sha b)"
    "\<forall>t \<in> set (block_txs sha b). valid_tx sha t" "\<forall>t \<in> set (block_txs sha b). length t \<le> 66881"
proof -
  obtain ts where ts: "block_parts sha b (blk_header block) ts" "blk_body block = Some (frames ts)"
    using block_decode_parts [OF assms] by blast
  note txs = block_txs_parts [OF ts(1)]
  show "blk_body block = Some (frames (block_txs sha b))"
    "unat (bh_transaction_count (blk_header block)) = length (block_txs sha b)"
    "\<forall>t \<in> set (block_txs sha b). valid_tx sha t"
    using ts txs by (simp_all add: block_parts_def)
  then show "\<forall>t \<in> set (block_txs sha b). length t \<le> 66881" using valid_tx_length(2) by blast
qed

section \<open>Committed inclusions\<close>

lemma mark_first_length [simp]: "length (mark_first i k es marks) = length marks"
  by (induction es arbitrary: k) simp_all

lemma mark_first_nth:
  assumes "distinct (map pe_id es)" "k + length es \<le> length marks" "j < length marks"
  shows "mark_first i k es marks ! j \<longleftrightarrow> marks ! j \<or> k \<le> j \<and> j < k + length es \<and> pe_id (es ! (j - k)) = i"
  using assms
proof (induction es arbitrary: k)
  case (Cons e es)
  show ?case
  proof (cases "pe_id e = i")
    case True
    have "i \<notin> pe_id ` set es" using Cons.prems(1) True by auto
    then have "pe_id (es ! n) \<noteq> i" if "n < length es" for n using nth_mem [OF that] by (metis image_eqI)
    then have "\<not> (Suc k \<le> j \<and> j < k + length (e # es) \<and> pe_id ((e # es) ! (j - k)) = i)"
      by (auto simp: nth_Cons')
    then show ?thesis using True Cons.prems by (auto simp: nth_list_update nth_Cons' le_less Suc_le_eq)
  next
    case False
    then show ?thesis using Cons.IH [of "Suc k"] Cons.prems by (auto simp: nth_Cons' Suc_diff_le)
  qed
qed auto

text \<open>Marks that hold at the entries with an identifier of the set, and nowhere else.\<close>

definition marks_for :: "stn_pending_entry list \<Rightarrow> bytes set \<Rightarrow> bool list \<Rightarrow> bool" where
  "marks_for es ids marks \<longleftrightarrow> length marks = 128 \<and> (\<forall>k < length es. marks ! k \<longleftrightarrow> pe_id (es ! k) \<in> ids)"

lemma mark_first_for:
  assumes "marks_for es ids marks" "distinct (map pe_id es)" "length es \<le> 128"
  shows "marks_for es (insert i ids) (mark_first i 0 es marks)"
  using assms mark_first_nth [of es 0 marks _ i] by (auto simp: marks_for_def)

definition has_id :: "stn_hash_fn \<Rightarrow> stn_hash_provider \<Rightarrow> bytes \<Rightarrow> bool" where
  "has_id sha hash t \<longleftrightarrow> (\<exists>i. stn_transaction_id sha (Some t) hash = Inr i)"

lemma committed_txs_iff:
  assumes "\<forall>t \<in> set ts. valid_tx sha t"
  shows "committed_txs sha hash es (length ts) (frames ts) marks =
    (if \<forall>t \<in> set ts. has_id sha hash t then STN_DATA_OK else STN_DATA_PROVIDER_ERROR,
     fold (\<lambda>t m. mark_first (the (sum_right (stn_transaction_id sha (Some t) hash))) 0 es m)
       (takeWhile (has_id sha hash) ts) marks)"
  using assms
proof (induction ts arbitrary: marks)
  case (Cons t ts)
  then have t: "length t \<le> 66881" "valid_tx sha t" using valid_tx_length(2) by auto
  show ?case
  proof (cases "stn_transaction_id sha (Some t) hash")
    case (Inr i)
    then show ?thesis
      using Cons t read_frame_size [OF t(1), of "frames ts"] by (simp add: Let_def valid_tx_def has_id_def)
  next
    case (Inl status)
    then show ?thesis
      using t read_frame_size [OF t(1), of "frames ts"] by (simp add: Let_def valid_tx_def has_id_def)
  qed
qed simp

lemma fold_marks_for:
  assumes "distinct (map pe_id es)" "length es \<le> 128" "marks_for es ids marks"
    "\<forall>t \<in> set ts. has_id sha hash t"
  shows "marks_for es (ids \<union> {i. \<exists>t \<in> set ts. stn_transaction_id sha (Some t) hash = Inr i})
    (fold (\<lambda>t m. mark_first (the (sum_right (stn_transaction_id sha (Some t) hash))) 0 es m) ts marks)"
  using assms(3,4)
proof (induction ts arbitrary: ids marks)
  case (Cons t ts)
  then obtain i where i: "stn_transaction_id sha (Some t) hash = Inr i" by (auto simp: has_id_def)
  have "ids \<union> {i. \<exists>t \<in> set (t # ts). stn_transaction_id sha (Some t) hash = Inr i} =
      insert i ids \<union> {i. \<exists>t \<in> set ts. stn_transaction_id sha (Some t) hash = Inr i}"
    using i by auto
  then show ?case
    using Cons.IH [OF mark_first_for [OF Cons.prems(1) assms(1,2), of i]] Cons.prems(2) i by simp
qed simp

text \<open>
  The transactions the scan gets to read: those before the first block that does not decode and before
  the first transaction without an identifier. A history is readable when there is neither.
\<close>

fun read_txs :: "stn_hash_fn \<Rightarrow> stn_hash_provider \<Rightarrow> bytes list \<Rightarrow> bytes list" where
  "read_txs sha hash [] = []"
| "read_txs sha hash (b # bs) =
     (if isl (stn_block_decode sha (Some b)) then []
      else if \<forall>t \<in> set (block_txs sha b). has_id sha hash t then block_txs sha b @ read_txs sha hash bs
      else takeWhile (has_id sha hash) (block_txs sha b))"

definition read_ids :: "stn_hash_fn \<Rightarrow> stn_hash_provider \<Rightarrow> bytes list \<Rightarrow> bytes set" where
  "read_ids sha hash blocks = {i. \<exists>t \<in> set (read_txs sha hash blocks). stn_transaction_id sha (Some t) hash = Inr i}"

definition history_readable :: "stn_hash_fn \<Rightarrow> stn_hash_provider \<Rightarrow> bytes list \<Rightarrow> bool" where
  "history_readable sha hash blocks \<longleftrightarrow>
     (\<forall>b \<in> set blocks. (\<exists>block. stn_block_decode sha (Some b) = Inr block) \<and>
        (\<forall>t \<in> set (block_txs sha b). has_id sha hash t))"

lemma read_txs_all: "history_readable sha hash blocks \<Longrightarrow> read_txs sha hash blocks = concat (map (block_txs sha) blocks)"
  by (induction blocks) (auto simp: history_readable_def)

lemma read_ids_accepted:
  "read_ids sha hash blocks \<subseteq> accepted_ids sha hash blocks"
  "history_readable sha hash blocks \<Longrightarrow> read_ids sha hash blocks = accepted_ids sha hash blocks"
proof -
  show "read_ids sha hash blocks \<subseteq> accepted_ids sha hash blocks"
    by (induction blocks) (auto simp: read_ids_def accepted_ids_def dest: set_takeWhileD)
  show "history_readable sha hash blocks \<Longrightarrow> read_ids sha hash blocks = accepted_ids sha hash blocks"
    using read_txs_all [of sha hash blocks] by (auto simp: read_ids_def accepted_ids_def)
qed

text \<open>The status of the scan and its marks, which on a stop are those of what was read.\<close>

lemma committed_blocks_iff:
  assumes "distinct (map pe_id es)" "length es \<le> 128" "marks_for es ids marks"
  shows "case committed_blocks sha hash es blocks marks of (status, marks') \<Rightarrow>
    (status = STN_DATA_OK \<longleftrightarrow> history_readable sha hash blocks) \<and>
    status \<in> {STN_DATA_OK, STN_DATA_CONTENT, STN_DATA_PROVIDER_ERROR} \<and>
    marks_for es (ids \<union> read_ids sha hash blocks) marks'"
  using assms(3)
proof (induction blocks arbitrary: ids marks)
  case Nil
  then show ?case by (simp add: history_readable_def read_ids_def)
next
  case (Cons b bs)
  show ?case
  proof (cases "stn_block_decode sha (Some b)")
    case (Inl status)
    then show ?thesis using Cons.prems by (simp add: history_readable_def read_ids_def)
  next
    case (Inr block)
    note d = decoded_txs [OF Inr]
    let ?ts = "takeWhile (has_id sha hash) (block_txs sha b)"
    let ?ids = "{i. \<exists>t \<in> set ?ts. stn_transaction_id sha (Some t) hash = Inr i}"
    have "\<forall>t \<in> set ?ts. has_id sha hash t" by (auto dest: set_takeWhileD)
    note marked = fold_marks_for [OF assms(1,2) Cons.prems this] and txs = committed_txs_iff [OF d(3), of hash es marks]
    show ?thesis
    proof (cases "\<forall>t \<in> set (block_txs sha b). has_id sha hash t")
      case True
      then have whole: "?ts = block_txs sha b" by (simp add: takeWhile_eq_all_conv)
      let ?m = "fold (\<lambda>t m. mark_first (the (sum_right (stn_transaction_id sha (Some t) hash))) 0 es m) ?ts marks"
      have ids: "ids \<union> read_ids sha hash (b # bs) = (ids \<union> ?ids) \<union> read_ids sha hash bs"
        unfolding whole using True Inr by (auto simp: read_ids_def)
      have step: "committed_blocks sha hash es (b # bs) marks = committed_blocks sha hash es bs ?m"
        using Inr d txs True by simp
      have readable: "history_readable sha hash (b # bs) \<longleftrightarrow> history_readable sha hash bs"
        using Inr True by (simp add: history_readable_def)
      show ?thesis unfolding ids step readable by (rule Cons.IH [OF marked])
    next
      case False
      then have "ids \<union> read_ids sha hash (b # bs) = ids \<union> ?ids" using Inr by (auto simp: read_ids_def)
      then show ?thesis using Inr d txs False marked by (simp add: history_readable_def)
    qed
  qed
qed

section \<open>The scan by content\<close>

text \<open>
  A frame starts with its length, a transaction with its magic, so the bytes the scan compares with
  are never those of a pooled transaction.
\<close>

lemma frame_not_transaction:
  assumes "length t \<le> 66881" "valid_tx sha x"
  shows "memcmp x (take n (frame t @ r)) \<noteq> 0"
proof
  assume "memcmp x (take n (frame t @ r)) = 0"
  then have x: "x = take n (frame t @ r)" by simp
  have "12 \<le> length x" "take 4 x = transaction_magic"
    using assms(2) unfolding valid_tx_def tx_structure_iff tx_decode_iff by auto
  then have "take 4 (frame t) = transaction_magic" using x by (simp add: frame_def)
  then have "be (take 4 (frame t)) = be transaction_magic" by simp
  then have "length t = 1398034004"
    using read_frame(3) [OF assms(1)] by (simp add: unat_read_32 transaction_magic_def)
  then show False using assms(1) by simp
qed

text \<open>The scan of the assembly: entries with valid transactions, no hash, by content.\<close>

definition held :: "stn_hash_fn \<Rightarrow> stn_pending_entry \<Rightarrow> bool" where
  "held sha e \<longleftrightarrow> (\<exists>t. pe_transaction e = Some t \<and> pe_length e = length t \<and> valid_tx sha t)"

lemma entry_matches_held:
  assumes "held sha e" "length t \<le> 66881"
  shows "entry_matches True lifecycle (length t) (frame t @ r) signer nonce i e =
    Some (\<not> lifecycle \<and> same_nonce e signer nonce)"
proof -
  obtain x where x: "pe_transaction e = Some x" "pe_length e = length x" "valid_tx sha x"
    using assms(1) by (auto simp: held_def)
  show ?thesis
    using x frame_not_transaction [OF assms(2) x(3), of "length t" r]
    by (simp add: entry_matches_def del: memcmp_eq_0_iff)
qed

lemma mark_loop_some:
  assumes "\<forall>e \<in> set es. f e = Some (g e)" "k + length es \<le> length marks"
  shows "\<exists>marks'. mark_loop f k es marks = Some marks' \<and> length marks' = length marks \<and>
    (\<forall>j < length marks. marks' ! j \<longleftrightarrow> marks ! j \<or> k \<le> j \<and> j < k + length es \<and> g (es ! (j - k)))"
  using assms
proof (induction es arbitrary: k marks)
  case (Cons e es)
  define m0 where "m0 = (if g e then marks[k := True] else marks)"
  have m0: "length m0 = length marks" "k < length marks" "m0 ! j \<longleftrightarrow> marks ! j \<or> j = k \<and> g e" for j
    using Cons.prems(2) by (auto simp: m0_def nth_list_update)
  have "\<exists>marks'. mark_loop f (Suc k) es m0 = Some marks' \<and> length marks' = length m0 \<and>
      (\<forall>j < length m0. marks' ! j \<longleftrightarrow> m0 ! j \<or> Suc k \<le> j \<and> j < Suc k + length es \<and> g (es ! (j - Suc k)))"
    using Cons.prems m0(1) by (intro Cons.IH) auto
  then obtain marks' where m: "mark_loop f (Suc k) es m0 = Some marks'" "length marks' = length m0"
      "\<forall>j < length m0. marks' ! j \<longleftrightarrow> m0 ! j \<or> Suc k \<le> j \<and> j < Suc k + length es \<and> g (es ! (j - Suc k))"
    by blast
  have "marks' ! j \<longleftrightarrow> marks ! j \<or> k \<le> j \<and> j < k + length (e # es) \<and> g ((e # es) ! (j - k))" if "j < length marks" for j
  proof (cases "j = k")
    case False
    then show ?thesis using m(3) m0 that by (auto simp: nth_Cons')
  qed (use m(3) m0 that in auto)
  then show ?case using m m0(1) Cons.prems(1) by (auto simp: m0_def)
qed auto

text \<open>What the scan looks for: the signer and nonce of an accepted transaction of the other types.\<close>

definition content_key :: "stn_hash_fn \<Rightarrow> stn_hash_provider option \<Rightarrow> bytes \<Rightarrow> (bytes \<times> bytes) option" where
  "content_key sha provider t =
     (case stn_transaction_decode sha (Some t) of
        Inl _ \<Rightarrow> None
      | Inr tx \<Rightarrow>
          (case history_key sha provider tx of
             Inr (False, signer, nonce) \<Rightarrow> Some (signer, nonce)
           | _ \<Rightarrow> None))"

definition content_keys :: "stn_hash_fn \<Rightarrow> stn_hash_provider option \<Rightarrow> bytes list \<Rightarrow> (bytes \<times> bytes) set" where
  "content_keys sha provider ts = {k. \<exists>t \<in> set ts. content_key sha provider t = Some k}"

definition tx_readable :: "stn_hash_fn \<Rightarrow> stn_hash_provider option \<Rightarrow> bytes \<Rightarrow> bool" where
  "tx_readable sha provider t \<longleftrightarrow>
     (\<exists>tx k. stn_transaction_decode sha (Some t) = Inr tx \<and> history_key sha provider tx = Inr k)"

definition marks_by :: "stn_pending_entry list \<Rightarrow> (bytes \<times> bytes) set \<Rightarrow> bool list \<Rightarrow> bool" where
  "marks_by es keys marks \<longleftrightarrow>
     length marks = 128 \<and> (\<forall>k < length es. marks ! k \<longleftrightarrow> (pe_signer (es ! k), pe_nonce (es ! k)) \<in> keys)"

lemma content_keys_Cons:
  "content_keys sha provider (t # ts) =
     (case content_key sha provider t of None \<Rightarrow> {} | Some k \<Rightarrow> {k}) \<union> content_keys sha provider ts"
  by (auto simp: content_keys_def split: option.splits)

lemma history_key_data: "history_key sha provider tx = Inl s \<Longrightarrow> s = STN_DATA_CONTENT"
  by (auto simp: history_key_def Let_def split: if_splits sum.splits option.splits)

lemma scan_txs_content:
  assumes "\<forall>t \<in> set ts. valid_tx sha t" "\<forall>e \<in> set es. held sha e" "length es \<le> 128" "marks_by es keys marks"
  shows "case scan_txs sha provider True es (length ts) (frames ts) marks of
      None \<Rightarrow> False
    | Some (Inl s) \<Rightarrow> \<not> (\<forall>t \<in> set ts. tx_readable sha provider t)
    | Some (Inr marks') \<Rightarrow> (\<forall>t \<in> set ts. tx_readable sha provider t) \<and>
        marks_by es (keys \<union> content_keys sha provider ts) marks'"
  using assms(1,4)
proof (induction ts arbitrary: keys marks)
  case Nil
  then show ?case by (simp add: content_keys_def)
next
  case (Cons t ts)
  then have t: "length t \<le> 66881" "valid_tx sha t" using valid_tx_length(2) by auto
  then obtain tx where tx: "stn_transaction_decode sha (Some t) = Inr tx" unfolding valid_tx_def tx_structure_iff by blast
  note read = read_frame_size [OF t(1), of "frames ts"]
  show ?case
  proof (cases "history_key sha provider tx")
    case (Inl s)
    then show ?thesis using read tx by (simp add: Let_def tx_readable_def)
  next
    case (Inr key)
    obtain lifecycle signer nonce where key: "key = (lifecycle, signer, nonce)" by (cases key) auto
    let ?g = "\<lambda>e. \<not> lifecycle \<and> same_nonce e signer nonce"
    have "\<forall>e \<in> set es. entry_matches True lifecycle (length t) (frame t @ frames ts) signer nonce [] e = Some (?g e)"
      using entry_matches_held [OF _ t(1)] assms(2) by blast
    then have "\<exists>marks'. mark_loop (entry_matches True lifecycle (length t) (frame t @ frames ts) signer nonce []) 0 es marks =
        Some marks' \<and> length marks' = length marks \<and>
        (\<forall>j < length marks. marks' ! j \<longleftrightarrow> marks ! j \<or> 0 \<le> j \<and> j < 0 + length es \<and> ?g (es ! (j - 0)))"
      using assms(3) Cons.prems(2) by (intro mark_loop_some) (auto simp: marks_by_def)
    then obtain marks' where m: "mark_loop (entry_matches True lifecycle (length t) (frame t @ frames ts) signer nonce []) 0 es marks = Some marks'"
        "length marks' = length marks" "\<forall>j < length marks. marks' ! j \<longleftrightarrow> marks ! j \<or> j < length es \<and> ?g (es ! j)"
      by auto
    have "marks_by es (keys \<union> (case content_key sha provider t of None \<Rightarrow> {} | Some k \<Rightarrow> {k})) marks'"
      using m(2,3) Cons.prems(2) assms(3) tx Inr key
      by (auto simp: marks_by_def content_key_def same_nonce_def split: bool.splits)
    then show ?thesis
      using Cons.IH [of "keys \<union> (case content_key sha provider t of None \<Rightarrow> {} | Some k \<Rightarrow> {k})" marks'] Cons.prems(1)
        read tx Inr key m(1)
      by (auto simp: Let_def tx_readable_def content_keys_Cons Un_assoc split: option.splits sum.splits)
  qed
qed

end
