(* ===== verification/Stn_Pending_Claims.thy ===== *)
theory Stn_Pending_Claims
  imports Stn_Pending_Scan
begin

text \<open>
  The theorems on the pending pool: its invariant, the effect of an admission, the cleanup after a
  block, the soundness of an assembled body, and two errors of the scan of the history.
\<close>

section \<open>The history as a whole\<close>

definition history_txs :: "stn_hash_fn \<Rightarrow> bytes list \<Rightarrow> bytes list" where
  "history_txs sha blocks = concat (map (block_txs sha) blocks)"

definition blocks_decode :: "stn_hash_fn \<Rightarrow> bytes list \<Rightarrow> bool" where
  "blocks_decode sha blocks \<longleftrightarrow> (\<forall>b \<in> set blocks. \<exists>block. stn_block_decode sha (Some b) = Inr block)"

lemma history_simps [simp]:
  "history_txs sha [] = []" "history_txs sha (b # bs) = block_txs sha b @ history_txs sha bs"
  "blocks_decode sha []"
  "blocks_decode sha (b # bs) \<longleftrightarrow> (\<exists>block. stn_block_decode sha (Some b) = Inr block) \<and> blocks_decode sha bs"
  by (simp_all add: history_txs_def blocks_decode_def)

lemma content_keys_append:
  "content_keys sha provider (ts @ us) = content_keys sha provider ts \<union> content_keys sha provider us"
  by (auto simp: content_keys_def)

lemma scan_blocks_content:
  assumes "\<forall>e \<in> set es. held sha e" "length es \<le> 128" "marks_by es keys marks"
  shows "case scan_blocks sha provider True es blocks marks of
      None \<Rightarrow> False
    | Some (Inl s) \<Rightarrow> \<not> (blocks_decode sha blocks \<and> (\<forall>t \<in> set (history_txs sha blocks). tx_readable sha provider t))
    | Some (Inr marks') \<Rightarrow> blocks_decode sha blocks \<and> (\<forall>t \<in> set (history_txs sha blocks). tx_readable sha provider t) \<and>
        marks_by es (keys \<union> content_keys sha provider (history_txs sha blocks)) marks'"
  using assms(3)
proof (induction blocks arbitrary: keys marks)
  case Nil
  then show ?case by (simp add: content_keys_def)
next
  case (Cons b bs)
  show ?case
  proof (cases "stn_block_decode sha (Some b)")
    case (Inr block)
    note d = decoded_txs [OF Inr]
    note txs = scan_txs_content [OF d(3) assms(1,2) Cons.prems, of provider]
    show ?thesis
    proof (cases "scan_txs sha provider True es (length (block_txs sha b)) (frames (block_txs sha b)) marks")
      case (Some answer)
      show ?thesis
      proof (cases answer)
        case (Inr marks')
        then have m: "\<forall>t \<in> set (block_txs sha b). tx_readable sha provider t"
            "marks_by es (keys \<union> content_keys sha provider (block_txs sha b)) marks'"
          using txs Some by simp_all
        show ?thesis
          using Cons.IH [OF m(2)] m(1) Some Inr d \<open>stn_block_decode sha (Some b) = Inr block\<close>
          by (auto simp: content_keys_append Un_assoc split: option.splits sum.splits)
      qed (use txs Some d Inr in auto)
    qed (use txs in simp)
  qed simp
qed

lemma scan_content:
  assumes "\<forall>e \<in> set (pool_entries p). held sha e" "length (pool_entries p) \<le> 128"
  shows "case scan sha p (Some v) True provider of
      None \<Rightarrow> False
    | Some (Inl s) \<Rightarrow> \<not> (blocks_decode sha (vw_blocks v) \<and> (\<forall>t \<in> set (history_txs sha (vw_blocks v)). tx_readable sha provider t))
    | Some (Inr marks) \<Rightarrow> blocks_decode sha (vw_blocks v) \<and>
        (\<forall>t \<in> set (history_txs sha (vw_blocks v)). tx_readable sha provider t) \<and>
        marks_by (pool_entries p) (content_keys sha provider (history_txs sha (vw_blocks v))) marks"
  using scan_blocks_content [of "pool_entries p" sha "{}" "replicate 128 False" "vw_blocks v" provider] assms
  by (auto simp: scan_def marks_by_def split: option.splits sum.splits)

lemma entry_for_held: "entry_for sha hash t e \<Longrightarrow> held sha e"
  by (auto simp: entry_for_def held_def valid_tx_def stn_transaction_id_def split: if_splits)

text \<open>Block compensation evidence stops every scan with a hash.\<close>

lemma evidence_unreadable:
  assumes "stn_transaction_decode sha (Some t) = Inr tx" "txn_type tx = STN_TX_BLOCK_COMPENSATION_EVIDENCE"
    "provider \<noteq> None"
  shows "history_key sha provider tx = Inl STN_DATA_CONTENT"
  using assms by (auto simp: history_key_def lifecycle_statement_def Let_def)

definition evidence_tx :: "stn_hash_fn \<Rightarrow> bytes \<Rightarrow> bool" where
  "evidence_tx sha t \<longleftrightarrow>
     (\<exists>tx. stn_transaction_decode sha (Some t) = Inr tx \<and> txn_type tx = STN_TX_BLOCK_COMPENSATION_EVIDENCE)"

lemma scan_txs_evidence:
  assumes "\<forall>t \<in> set ts. valid_tx sha t" "provider \<noteq> None" "\<exists>t \<in> set ts. evidence_tx sha t"
  shows "scan_txs sha provider replay es (length ts) (frames ts) marks \<noteq> Some (Inr marks')"
  using assms(1,3)
proof (induction ts arbitrary: marks)
  case (Cons t ts)
  then have t: "length t \<le> 66881" using valid_tx_length(2) by auto
  note read = read_frame_size [OF t, of "frames ts"]
  show ?case
  proof (cases "evidence_tx sha t")
    case True
    then show ?thesis
      using read evidence_unreadable [of sha t, OF _ _ assms(2)] by (auto simp: Let_def evidence_tx_def)
  next
    case False
    then have "scan_txs sha provider replay es (length ts) (frames ts) ms \<noteq> Some (Inr marks')" for ms
      using Cons by auto
    then show ?thesis
      using read by (auto simp: Let_def split: sum.splits prod.splits option.splits)
  qed
qed simp

lemma scan_evidence:
  assumes "\<exists>t \<in> set (history_txs sha (vw_blocks v)). evidence_tx sha t" "provider \<noteq> None"
  shows "scan sha p (Some v) replay provider \<noteq> Some (Inr marks)"
proof -
  have "scan_blocks sha provider replay es blocks ms \<noteq> Some (Inr marks)"
    if "\<exists>t \<in> set (history_txs sha blocks). evidence_tx sha t" for es blocks ms
    using that
  proof (induction blocks arbitrary: ms)
    case (Cons b bs)
    show ?case
    proof (cases "stn_block_decode sha (Some b)")
      case (Inr block)
      note d = decoded_txs [OF Inr]
      consider "\<exists>t \<in> set (block_txs sha b). evidence_tx sha t" | "\<exists>t \<in> set (history_txs sha bs). evidence_tx sha t"
        using Cons.prems by auto
      then show ?thesis
      proof cases
        case 1
        then show ?thesis
          using scan_txs_evidence [OF d(3) assms(2) 1, of replay es ms] d Inr
          by (auto split: option.splits sum.splits)
      next
        case 2
        then show ?thesis using Cons.IH d Inr by (auto split: option.splits sum.splits)
      qed
    qed simp
  qed simp
  then show ?thesis using assms(1) by (simp add: scan_def)
qed

section \<open>The pool\<close>

text \<open>
  C12. In every pool that admissions, removals, prunings and clears reach from the empty one, the
  entries are sorted by identifier without repetition, at most 128 of at most 256 KiB in total, the
  byte count is their size, every entry holds a valid transaction filed under its identifier, and no
  two publications or transfers share their signer and nonce. Entries of the other types may.
\<close>

theorem pending_pool_consistent:
  assumes "(pool_step sha hash)\<^sup>*\<^sup>* stn_pending_init p"
  shows "pool_inv sha hash p"
  using assms
proof (induction rule: rtranclp_induct)
  case base
  show ?case by (simp add: stn_pending_init_def pool_inv_def pool_wf_def keys_unique_def)
next
  case (step p p')
  then show ?case using pool_step_inv by blast
qed

text \<open>
  C13. An admission is atomic: an accepted transaction is added to the pool under its identifier, which
  was free, and within the byte budget; after any other answer the pool is what it was.
\<close>

theorem pending_admission_atomic:
  assumes "pool_wf p"
    and "stn_share_pending_admit sha ed alloc (Some p) (Some t) c view (Some hash) report i =
      Some (result, report', i', pool')"
  shows "if result = STN_PENDING_ACCEPTED
    then (\<exists>e p'. pool' = Some p' \<and> entry_for sha hash t e \<and> i' = pe_id e \<and> pool_map p i' = None \<and>
      pool_map p' = (pool_map p)(i' \<mapsto> e) \<and> pool_wf p' \<and> pool_bytes p' = pool_bytes p + length t)
    else pool' = Some p"
proof -
  have adm: "admitted sha hash p t result i' pool'"
    using share_admitted [OF assms(2)] by (simp add: admitted_answer_def provider_fn_def)
  show ?thesis
  proof (cases "result = STN_PENDING_ACCEPTED")
    case True
    then obtain e a p' where e: "pool' = Some p'" "pool_insert a e p = (STN_PENDING_ACCEPTED, p')"
        "entry_for sha hash t e" "i' = pe_id e"
      using adm by (auto simp: admitted_def)
    moreover have "pool_bytes p' = pool_bytes p + length t"
      using e(2,3) by (simp add: pool_insert_iff [OF assms(1)] entry_for_def)
    ultimately show ?thesis using True pool_insert_wf [OF assms(1) e(2)] by auto
  qed (use adm in \<open>simp add: admitted_def\<close>)
qed


section \<open>Errors of the scan\<close>

lemma publication_through:
  assumes "stn_transaction_decode sha (Some t) = Inr tx" "txn_type tx = STN_TX_PUBLICATION"
  shows "stn_share_pending_admit sha ed alloc pool (Some t) c view provider report i =
    stn_pending_admit sha ed alloc pool (txn_record_bytes tx) c view provider"
  using assms
  by (simp add: stn_share_pending_admit_def stn_block_compensation_pending_admit_def
    stn_pending_admit_transaction_def Let_def)

text \<open>
  C26. Once the accepted history holds block compensation evidence, no publication is admitted to the
  pool any more: the scan of the history refuses the evidence transaction, so an admission that gets
  that far answers PROVIDER.
\<close>

theorem evidence_blocks_publications:
  assumes "\<exists>t \<in> set (history_txs sha (vw_blocks v)). evidence_tx sha t"
    and "stn_transaction_decode sha (Some t) = Inr tx" "txn_type tx = STN_TX_PUBLICATION"
    and "stn_share_pending_admit sha ed alloc pool (Some t) c (Some v) provider report i =
      Some (result, report', i', pool')"
  shows "result \<noteq> STN_PENDING_ACCEPTED"
proof
  assume accepted: "result = STN_PENDING_ACCEPTED"
  have "stn_pending_admit sha ed alloc pool (txn_record_bytes tx) c (Some v) provider =
      Some (STN_PENDING_ACCEPTED, report', i', pool')"
    using assms(4) publication_through [OF assms(2,3)] accepted by simp
  then obtain a p encoded e hash r where
    "admit_entry sha a p encoded e v hash r = Some (STN_PENDING_ACCEPTED, report', i', pool')"
    by (auto simp: stn_pending_admit_def Let_def split: option.splits prod.splits if_splits sum.splits)
  then obtain marks where "scan sha \<lparr>pool_entries = [e], pool_bytes = 0\<rparr> (Some v) True (Some hash) = Some (Inr marks)"
    by (auto simp: admit_entry_def Let_def split: if_splits option.splits sum.splits)
  then show False using scan_evidence [OF assms(1)] by simp
qed

text \<open>
  C25. The assembly selects a grant, revocation, rotation or contract action again that the history
  already holds: the scan compares the pooled bytes with the accepted transaction from its length
  field on, so they never agree.
\<close>

theorem accepted_lifecycle_selected:
  assumes "t \<in> set (history_txs sha (vw_blocks v))" "stn_transaction_decode sha (Some t) = Inr tx"
    and "txn_type tx \<in> {STN_TX_AUTHORITY_GRANT, STN_TX_AUTHORITY_REVOKE, STN_TX_IDENTITY_ROTATE, STN_TX_CONTRACT_ACTION}"
    and "blocks_decode sha (vw_blocks v)" "\<forall>t \<in> set (history_txs sha (vw_blocks v)). tx_readable sha None t"
    and "entry_for sha hash t e" "(pe_signer e, pe_nonce e) \<notin> content_keys sha None (history_txs sha (vw_blocks v))"
    and "length t + 4 \<le> capacity"
  shows "stn_pending_assemble sha ed alloc \<lparr>pool_entries = [e], pool_bytes = length t\<rparr> c (Some v) capacity =
    Some (Inr (frames [t], 1))"
proof -
  let ?p = "\<lparr>pool_entries = [e], pool_bytes = length t\<rparr>"
  have e: "pe_transaction e = Some t" "pe_length e = length t" using assms(6) by (simp_all add: entry_for_def)
  have t: "valid_tx sha t" "length t \<le> 66881"
    using assms(2) valid_tx_length(2) unfolding valid_tx_def tx_structure_iff by blast+
  obtain marks where marks: "scan sha ?p (Some v) True None = Some (Inr marks)" "\<not> marks ! 0"
    using scan_content [of ?p sha v None] entry_for_held [OF assms(6)] assms(4,5,7)
    by (auto simp: marks_by_def split: option.splits sum.splits)
  have ready: "entry_ready sha ed (alloc 0) c (Some v) e = Inr True"
    using assms(2,3) e by (auto simp: entry_ready_def)
  have body: "stn_block_body_encode sha (Some (span_list [t])) (word_of_nat (length [t])) capacity = Inr (frames [t])"
    using t assms(8) body_encode_iff [of "[t]" sha capacity "frames [t]"] by simp
  show ?thesis
    using marks ready body t(2) assms(8) e
    by (simp add: stn_pending_assemble_def stn_pending_enumerate_def Let_def span_list_def)
qed

end
