(* ===== verification/Stn_Pending_Body.thy ===== *)
theory Stn_Pending_Body
  imports Stn_Pending_Scan "HOL-Library.Sublist"
begin

text \<open>
  Soundness of the assembled body: which pooled transactions it frames and in which order, and that it
  passes the structure check of a block.
\<close>

section \<open>The generic selection\<close>

definition txs_of :: "stn_pending_entry list \<Rightarrow> bytes list" where
  "txs_of es = map (\<lambda>e. the (pe_transaction e)) es"

lemma txs_of_simps [simp]:
  "txs_of [] = []" "txs_of (e # es) = the (pe_transaction e) # txs_of es" "txs_of (es @ fs) = txs_of es @ txs_of fs"
  "length (txs_of es) = length es"
  by (simp_all add: txs_of_def)

lemma subseq_members: "subseq xs ys \<Longrightarrow> set xs \<subseteq> set ys"
  by (induction rule: list_emb.induct) auto

lemma held_tx:
  assumes "held sha e"
  shows "pe_transaction e = Some (the (pe_transaction e))" "pe_length e = length (the (pe_transaction e))"
    "valid_tx sha (the (pe_transaction e))" "length (the (pe_transaction e)) \<le> 66881"
  using assms valid_tx_length(2) by (auto simp: held_def)

lemma found_self:
  assumes "pool_wf p" "e \<in> set (pool_entries p)"
  shows "find_id (pool_entries p) (pe_id e) < length (pool_entries p)"
    "pool_entries p ! find_id (pool_entries p) (pe_id e) = e"
  using assms pool_map_member [OF assms] found_entry [of "pool_entries p" "pe_id e" e]
  by (simp_all add: pool_wf_def pool_map_def)

lemma subseq_filter_distinct: "subseq xs ys \<Longrightarrow> distinct ys \<Longrightarrow> \<exists>q. xs = filter q ys"
  by (metis subseq_conv_nths filter_in_nths)

definition selectable ::
  "stn_hash_fn \<Rightarrow> ed25519 \<Rightarrow> stn_validation_context option \<Rightarrow> stn_storage_view option \<Rightarrow> stn_pending_entry list \<Rightarrow>
   bool list \<Rightarrow> stn_pending_entry \<Rightarrow> bool" where
  "selectable sha ed c view es replay e \<longleftrightarrow>
     \<not> replay ! find_id es (pe_id e) \<and> (\<exists>alloc. entry_ready sha ed alloc c view e = Inr True)"

lemma assemble_loop_sound:
  assumes "\<forall>x \<in> set xs. es ! find_id es (pe_id x) = x \<and> held sha x"
    and "assemble_loop sha ed alloc c view es replay capacity k (map pe_id xs) (span_list sel) used = Inr out"
    and "length sel \<le> 32"
  shows "\<exists>js. subseq js xs \<and> out = span_list (sel @ txs_of js) \<and> length (sel @ txs_of js) \<le> 32 \<and>
    (\<forall>e \<in> set js. selectable sha ed c view es replay e)"
  using assms
proof (induction xs arbitrary: k sel used)
  case Nil
  then show ?case by (intro exI [of _ "[]"]) simp
next
  case (Cons x xs)
  have len: "length (span_list sel) = length sel" by (simp add: span_list_def)
  have x: "es ! find_id es (pe_id x) = x" "held sha x" using Cons.prems(1) by simp_all
  have span: "span_list sel @ [\<lparr>span_bytes = pe_transaction x, span_length = word_of_nat (pe_length x)\<rparr>] =
      span_list (sel @ [the (pe_transaction x)])"
    using held_tx [OF x(2)] by (simp add: span_list_def)
  consider (stop) "out = span_list sel"
    | (skip) k' where "assemble_loop sha ed alloc c view es replay capacity k' (map pe_id xs) (span_list sel) used = Inr out"
    | (take) k' used' where "length sel < 32" "selectable sha ed c view es replay x"
        "assemble_loop sha ed alloc c view es replay capacity k' (map pe_id xs) (span_list (sel @ [the (pe_transaction x)])) used' =
         Inr out"
  proof -
    note run = Cons.prems(2) [unfolded list.map assemble_loop.simps Let_def x(1) span len]
    show thesis
    proof (cases "length sel \<ge> 32")
      case True
      then show thesis using run stop by simp
    next
      case small: False
      show thesis
      proof (cases "replay ! find_id es (pe_id x)")
        case True
        then show thesis using run skip small by simp
      next
        case fresh: False
        show thesis
        proof (cases "entry_ready sha ed (alloc k) c view x")
          case (Inl status)
          then show thesis using run small fresh by simp
        next
          case (Inr ready)
          show thesis
          proof (cases ready)
            case True
            then have sel: "selectable sha ed c view es replay x" using fresh Inr by (auto simp: selectable_def)
            have "out = span_list sel \<or>
                assemble_loop sha ed alloc c view es replay capacity (Suc k) (map pe_id xs)
                  (span_list (sel @ [the (pe_transaction x)])) (used + (4 + pe_length x)) = Inr out"
              using run small fresh Inr True by (auto split: if_splits)
            then show thesis
            proof
              assume "out = span_list sel"
              then show thesis by (rule stop)
            next
              assume "assemble_loop sha ed alloc c view es replay capacity (Suc k) (map pe_id xs)
                  (span_list (sel @ [the (pe_transaction x)])) (used + (4 + pe_length x)) = Inr out"
              then show thesis by (rule take [rotated 2]) (use small sel in simp_all)
            qed
          next
            case False
            then show thesis using run skip small fresh Inr by simp
          qed
        qed
      qed
    qed
  qed
  then show ?case
  proof cases
    case stop
    then show ?thesis using Cons.prems(3) by (intro exI [of _ "[]"]) simp
  next
    case skip
    have "\<exists>js. subseq js xs \<and> out = span_list (sel @ txs_of js) \<and> length (sel @ txs_of js) \<le> 32 \<and>
        (\<forall>e \<in> set js. selectable sha ed c view es replay e)"
      using Cons.prems(1,3) by (intro Cons.IH [OF _ skip]) auto
    then show ?thesis by (blast intro: subseq_Cons')
  next
    case take
    have "\<exists>js. subseq js xs \<and> out = span_list ((sel @ [the (pe_transaction x)]) @ txs_of js) \<and>
        length ((sel @ [the (pe_transaction x)]) @ txs_of js) \<le> 32 \<and>
        (\<forall>e \<in> set js. selectable sha ed c view es replay e)"
      using Cons.prems(1) take(1) by (intro Cons.IH [OF _ take(3)]) auto
    then obtain js where "subseq js xs" "out = span_list ((sel @ [the (pe_transaction x)]) @ txs_of js)"
        "length ((sel @ [the (pe_transaction x)]) @ txs_of js) \<le> 32"
        "\<forall>e \<in> set js. selectable sha ed c view es replay e"
      by blast
    then show ?thesis using take(2) by (intro exI [of _ "x # js"]) auto
  qed
qed

text \<open>The generic assembly frames a selection of the entries, in the order of their identifiers.\<close>

lemma assemble_sound:
  assumes "pool_wf p" "\<forall>e \<in> set (pool_entries p). held sha e"
    and "stn_pending_assemble sha ed alloc p c view capacity = Some (Inr (body, n))"
  obtains js where "subseq js (pool_entries p)" "body = frames (txs_of js)" "unat n = length js" "length js \<le> 32"
    "length body \<le> capacity"
proof -
  have few: "length (pool_entries p) \<le> 128" using assms(1) by (simp add: pool_wf_def)
  have ids: "stn_pending_enumerate p 0 STN_PENDING_MAX_ENTRIES = map pe_id (pool_entries p)"
    using few by (simp add: enumerate_iff)
  consider "body = []" "n = 0"
    | replay out where "assemble_loop sha ed alloc c view (pool_entries p) replay capacity 0 (map pe_id (pool_entries p)) (span_list []) 0 = Inr out"
        "stn_block_body_encode sha (Some out) (word_of_nat (length out)) capacity = Inr body" "n = word_of_nat (length out)"
  proof (cases "pool_entries p = []")
    case True
    then show thesis using assms(3) that(1) by (simp add: stn_pending_assemble_def)
  next
    case False
    note run = assms(3) [unfolded stn_pending_assemble_def if_not_P [OF False] Let_def ids]
    obtain replay where replay: "scan sha p view True None = Some (Inr replay)"
      using run by (cases "scan sha p view True None") (auto split: sum.splits)
    obtain out where out: "assemble_loop sha ed alloc c view (pool_entries p) replay capacity 0 (map pe_id (pool_entries p)) [] 0 = Inr out"
      using run unfolding replay by (auto split: sum.splits)
    show thesis
    proof (cases "out = []")
      case True
      then show thesis using run that(1) unfolding replay by (simp add: out)
    next
      case some: False
      have body: "stn_block_body_encode sha (Some out) (word_of_nat (length out)) capacity = Inr body"
          "n = word_of_nat (length out)"
        using run some unfolding replay by (auto simp: out split: sum.splits)
      have "span_list [] = []" by (simp add: span_list_def)
      then show thesis using out body by (intro that(2) [of replay out]) simp_all
    qed
  qed
  then show thesis
  proof cases
    case 1
    then show thesis using that [of "[]"] by simp
  next
    case 2
    have "\<forall>x \<in> set (pool_entries p). pool_entries p ! find_id (pool_entries p) (pe_id x) = x \<and> held sha x"
      using found_self(2) [OF assms(1)] assms(2) by blast
    then have "\<exists>js. subseq js (pool_entries p) \<and> out = span_list ([] @ txs_of js) \<and> length ([] @ txs_of js) \<le> 32 \<and>
        (\<forall>e \<in> set js. selectable sha ed c view (pool_entries p) replay e)"
      by (rule assemble_loop_sound [OF _ 2(1)]) simp
    then obtain js where "subseq js (pool_entries p)" "out = span_list ([] @ txs_of js)" "length ([] @ txs_of js) \<le> 32"
      by blast
    then have js: "subseq js (pool_entries p)" "out = span_list (txs_of js)" "length js \<le> 32" by simp_all
    have held: "\<forall>e \<in> set js. held sha e" using subseq_members [OF js(1)] assms(2) by blast
    then have short: "\<forall>t \<in> set (txs_of js). length t \<le> 66881" using held_tx(4) by (auto simp: txs_of_def)
    have "body = frames (txs_of js)" "length (frames (txs_of js)) \<le> capacity"
      using 2(2) body_encode_iff [OF short, of sha capacity body] js by (simp_all add: span_list_def)
    moreover have "unat n = length js"
      using 2(3) js(2,3) by (simp add: span_list_def unsigned_of_nat take_bit_nat_eq_self)
    ultimately show thesis using that [OF js(1)] js(3) by simp
  qed
qed

section \<open>The reward pairs\<close>

lemma generic_entries_sound:
  assumes "generic_entries sha es = Inr gs"
  shows "subseq gs es \<and> (\<forall>e \<in> set gs. \<exists>tx. stn_transaction_decode sha (pe_transaction e) = Inr tx \<and>
    txn_type tx \<noteq> STN_TX_BLOCK_COMPENSATION_EVIDENCE \<and> \<not> block_issuance_type sha e)"
  using assms
proof (induction es arbitrary: gs)
  case (Cons e es)
  then obtain tx rest where e: "stn_transaction_decode sha (pe_transaction e) = Inr tx" "generic_entries sha es = Inr rest"
      "gs = (if txn_type tx = STN_TX_BLOCK_COMPENSATION_EVIDENCE \<or> block_issuance_type sha e then rest else e # rest)"
    by (auto split: sum.splits if_splits)
  show ?case
  proof (cases "txn_type tx = STN_TX_BLOCK_COMPENSATION_EVIDENCE \<or> block_issuance_type sha e")
    case True
    then show ?thesis using Cons.IH [OF e(2)] e(3) subseq_Cons' by auto
  next
    case False
    then have gs: "gs = e # rest" using e(3) by (simp only: if_False)
    have "subseq (e # rest) (e # es)" using Cons.IH [OF e(2)] by simp
    then show ?thesis using Cons.IH [OF e(2)] e(1) False unfolding gs by (simp only: list.set) blast
  qed
qed simp

text \<open>
  A pair: evidence for a block of the history that was not paid, and the issuance that pays it.
\<close>

definition reward_pair :: "stn_hash_fn \<Rightarrow> stn_storage_view \<Rightarrow> stn_pending_entry \<Rightarrow> stn_pending_entry \<Rightarrow> bool" where
  "reward_pair sha active e i \<longleftrightarrow>
     (\<exists>tx evidence tx' issuance mapping.
        stn_transaction_decode sha (pe_transaction e) = Inr tx \<and> txn_type tx = STN_TX_BLOCK_COMPENSATION_EVIDENCE \<and>
        stn_block_compensation_decode (txn_record_bytes tx) = Inr evidence \<and>
        accepted_block sha (Some active) (ev_block_id evidence) \<and> \<not> replayed_block_compensation sha active evidence \<and>
        stn_transaction_decode sha (pe_transaction i) = Inr tx' \<and> txn_type tx' = STN_TX_ISSUANCE \<and>
        stn_issuance_decode (txn_record_bytes tx') = Inr issuance \<and> cs_compensation (vw_state active) = Some mapping \<and>
        stn_issuance_bind_block sha (Some issuance) (Some evidence) mapping = STN_DATA_OK)"

lemma bound_issuance_sound:
  assumes "bound_issuance sha mapping evidence es = Inr (Some i)"
  shows "i \<in> set es \<and> (\<exists>tx issuance m. mapping = Some m \<and> stn_transaction_decode sha (pe_transaction i) = Inr tx \<and>
    txn_type tx = STN_TX_ISSUANCE \<and> stn_issuance_decode (txn_record_bytes tx) = Inr issuance \<and>
    stn_issuance_bind_block sha (Some issuance) (Some evidence) m = STN_DATA_OK)"
  using assms
proof (induction es)
  case (Cons e es)
  show ?case
  proof (cases "stn_transaction_decode sha (pe_transaction e)")
    case (Inr tx)
    show ?thesis
    proof (cases "block_issuance_type sha e \<and> mapping \<noteq> None \<and>
        stn_issuance_bind_block sha (sum_right (stn_issuance_decode (txn_record_bytes tx))) (Some evidence) (the mapping) =
          STN_DATA_OK")
      case True
      then have "i = e" using Cons.prems Inr by simp
      then show ?thesis using True Inr by (auto simp: block_issuance_type_def split: sum.splits)
    next
      case False
      then have "bound_issuance sha mapping evidence es = Inr (Some i)"
        using Cons.prems Inr by (simp only: bound_issuance.simps sum.case if_False)
      then show ?thesis using Cons.IH by auto
    qed
  qed (use Cons.prems in simp)
qed simp

lemma append_frame:
  assumes "held sha e" "append_transaction capacity (frames ts) count e = Inr (body, count')" "unat count = length ts"
  shows "body = frames (ts @ [the (pe_transaction e)])" "unat count' = length (ts @ [the (pe_transaction e)])"
    "length ts < 32" "length body \<le> capacity"
proof -
  note h = held_tx [OF assms(1)]
  have small: "word_of_nat (length (the (pe_transaction e))) = (ucast (word_of_nat (length (the (pe_transaction e))) :: u32) :: u64)"
    using h(4) by (simp add: word_unat_eq_iff unsigned_ucast_eq unsigned_of_nat take_bit_nat_eq_self)
  show len: "length ts < 32" using assms(2,3) by (auto simp: append_transaction_def not_le split: if_splits)
  show body: "body = frames (ts @ [the (pe_transaction e)])"
    using assms(2) h(2) small by (auto simp: append_transaction_def frames_def frame_def split: if_splits)
  have "count' = count + 1" using assms(2) by (auto simp: append_transaction_def split: if_splits)
  then show "unat count' = length (ts @ [the (pe_transaction e)])"
    using len assms(3) by (simp add: unat_word_ariths(1))
  have "pe_length e + 4 \<le> capacity - length (frames ts)"
    using assms(2) by (auto simp: append_transaction_def not_less split: if_splits)
  then show "length body \<le> capacity" using h(2) unfolding body frames_def by simp
qed

definition paired :: "(stn_pending_entry \<times> stn_pending_entry) list \<Rightarrow> stn_pending_entry list" where
  "paired prs = concat (map (\<lambda>(e, i). [e, i]) prs)"

lemma paired_simps [simp]: "paired [] = []" "paired ((e, i) # prs) = e # i # paired prs"
  by (simp_all add: paired_def)

lemma pairs_loop_sound:
  assumes "\<forall>e \<in> set es. held sha e" "\<forall>e \<in> set all. held sha e"
    and "pairs_loop sha active capacity all es (frames ts, n) = Inr (body, m)" "unat n = length ts" "length ts \<le> 32"
    and "length (frames ts) \<le> capacity"
  shows "\<exists>prs. subseq (map fst prs) es \<and> (\<forall>(e, i) \<in> set prs. i \<in> set all \<and> reward_pair sha active e i) \<and>
    body = frames (ts @ txs_of (paired prs)) \<and> unat m = length (ts @ txs_of (paired prs)) \<and>
    length (ts @ txs_of (paired prs)) \<le> 32 \<and> length body \<le> capacity"
  using assms(1,3-6)
proof (induction es arbitrary: ts n)
  case Nil
  then show ?case by (intro exI [of _ "[]"]) simp
next
  case (Cons e es)
  have e: "held sha e" "\<forall>e \<in> set es. held sha e" using Cons.prems(1) by simp_all
  have skip: ?case if "pairs_loop sha active capacity all es (frames ts, n) = Inr (body, m)"
    using Cons.IH [OF e(2) that Cons.prems(3-5)] by (blast intro: subseq_Cons')
  note run = Cons.prems(2) [unfolded pairs_loop.simps Let_def fst_conv snd_conv]
  obtain tx where tx: "stn_transaction_decode sha (pe_transaction e) = Inr tx"
    using run by (auto split: sum.splits)
  show ?case
  proof (cases "txn_type tx = STN_TX_BLOCK_COMPENSATION_EVIDENCE")
    case False
    then show ?thesis using run tx skip by simp
  next
    case evidence: True
    then obtain ev where ev: "stn_block_compensation_decode (txn_record_bytes tx) = Inr ev"
      using run tx by (auto split: sum.splits)
    note run = run [unfolded tx ev sum.case]
    show ?thesis
    proof (cases "accepted_block sha (Some active) (ev_block_id ev) \<and> \<not> replayed_block_compensation sha active ev")
      case False
      then show ?thesis using run evidence skip by auto
    next
      case eligible: True
      then obtain issuance where bound: "bound_issuance sha (cs_compensation (vw_state active)) ev all = Inr issuance"
        using run evidence by (auto split: sum.splits)
      note run = run [unfolded bound sum.case]
      show ?thesis
      proof (cases "pair_fits (length (frames ts)) n capacity e issuance")
        case False
        then show ?thesis using run evidence eligible skip by simp
      next
        case fits: True
        then obtain i where i: "issuance = Some i" by (cases issuance) (auto simp: pair_fits_def)
        note b = bound_issuance_sound [OF bound [unfolded i]]
        have held_i: "held sha i" using b assms(2) by blast
        obtain body1 n1 where one: "append_transaction capacity (frames ts) n e = Inr (body1, n1)"
          using run evidence eligible fits by (auto split: sum.splits)
        note f1 = append_frame [OF e(1) one Cons.prems(3)]
        obtain body2 n2 where two: "append_transaction capacity body1 n1 i = Inr (body2, n2)"
            "pairs_loop sha active capacity all es (body2, n2) = Inr (body, m)"
          using run evidence eligible fits one i by (auto split: sum.splits)
        note f2 = append_frame [OF held_i two(1) [unfolded f1(1)] f1(2)]
        obtain prs where prs: "subseq (map fst prs) es" "\<forall>(e, i) \<in> set prs. i \<in> set all \<and> reward_pair sha active e i"
            "body = frames (((ts @ [the (pe_transaction e)]) @ [the (pe_transaction i)]) @ txs_of (paired prs))"
            "unat m = length (((ts @ [the (pe_transaction e)]) @ [the (pe_transaction i)]) @ txs_of (paired prs))"
            "length (((ts @ [the (pe_transaction e)]) @ [the (pe_transaction i)]) @ txs_of (paired prs)) \<le> 32"
            "length body \<le> capacity"
          using Cons.IH [OF e(2) two(2) [unfolded f2(1)] f2(2)] f2(3,4) unfolding f2(1) by auto
        have "reward_pair sha active e i"
          using tx evidence ev eligible b unfolding reward_pair_def by blast
        then show ?thesis
          using prs b by (intro exI [of _ "(e, i) # prs"]) auto
      qed
    qed
  qed
qed

section \<open>The assembled body\<close>

text \<open>
  C15. An assembled body frames, in the order of their identifiers, a selection of the pooled
  transactions without block compensation, and then pairs of a pooled evidence and the pooled issuance
  bound to it, adjacent and in this order; each evidence is used once, names a block of the history and
  was not paid. There are at most 32 transactions, the body fits the caller's buffer, its count is
  theirs, and it passes the structure check of a block.
\<close>

theorem pending_body_sound:
  assumes "pool_inv sha hash p"
    and "stn_block_compensation_pending_assemble sha ed alloc p c (Some v) capacity = Some (Inr (body, n))"
  shows "\<exists>gs prs. subseq gs (pool_entries p) \<and>
    (\<forall>e \<in> set gs. \<exists>tx. stn_transaction_decode sha (pe_transaction e) = Inr tx \<and>
      txn_type tx \<noteq> STN_TX_BLOCK_COMPENSATION_EVIDENCE \<and> \<not> block_issuance_type sha e) \<and>
    subseq (map fst prs) (pool_entries p) \<and>
    (\<forall>(e, i) \<in> set prs. i \<in> set (pool_entries p) \<and> reward_pair sha v e i) \<and>
    body = frames (txs_of (gs @ paired prs)) \<and> unat n = length (gs @ paired prs) \<and> length (gs @ paired prs) \<le> 32 \<and>
    length body \<le> capacity \<and> stn_block_body_validate_structure sha (Some body) (length body) n = STN_DATA_OK"
proof -
  let ?es = "pool_entries p"
  have wf: "pool_wf p" and held: "\<forall>e \<in> set ?es. held sha e"
    using assms(1) by (auto simp: pool_inv_def held_def entry_for_def valid_tx_def stn_transaction_id_def split: if_splits)
  obtain es where es: "generic_entries sha ?es = Inr es"
    using assms(2) by (auto simp: stn_block_compensation_pending_assemble_def split: sum.splits)
  let ?g = "\<lparr>pool_entries = es, pool_bytes = sum_list (map pe_length es)\<rparr>"
  note ge = generic_entries_sound [OF es]
  obtain body0 n0 where gen: "stn_pending_assemble sha ed alloc ?g c (Some v) capacity = Some (Inr (body0, n0))"
      "pairs_loop sha v capacity ?es ?es (body0, n0) = Inr (body, n)"
    using assms(2) es by (auto simp: stn_block_compensation_pending_assemble_def split: sum.splits option.splits)
  have "\<exists>q. es = filter q ?es"
    using ge pool_distinct [OF wf] subseq_filter_distinct by blast
  then have "pool_wf ?g" using pool_wf_filter [OF wf] by auto
  moreover have "\<forall>e \<in> set es. held sha e" using ge subseq_members held by blast
  ultimately obtain gs where gs: "subseq gs es" "body0 = frames (txs_of gs)" "unat n0 = length gs" "length gs \<le> 32"
      "length body0 \<le> capacity"
    using assemble_sound [of ?g sha ed alloc c "Some v" capacity body0 n0] gen(1) by auto
  have "\<exists>prs. subseq (map fst prs) ?es \<and> (\<forall>(e, i) \<in> set prs. i \<in> set ?es \<and> reward_pair sha v e i) \<and>
      body = frames (txs_of gs @ txs_of (paired prs)) \<and> unat n = length (txs_of gs @ txs_of (paired prs)) \<and>
      length (txs_of gs @ txs_of (paired prs)) \<le> 32 \<and> length body \<le> capacity"
    using gen(2) gs by (intro pairs_loop_sound [OF held held]) auto
  then obtain prs where prs: "subseq (map fst prs) ?es" "\<forall>(e, i) \<in> set prs. i \<in> set ?es \<and> reward_pair sha v e i"
      "body = frames (txs_of (gs @ paired prs))" "unat n = length (gs @ paired prs)" "length (gs @ paired prs) \<le> 32"
      "length body \<le> capacity"
    by auto
  have members: "set (gs @ paired prs) \<subseteq> set ?es"
  proof -
    have "set (paired prs) \<subseteq> set ?es"
      using subseq_members [OF prs(1)] prs(2) by (fastforce simp: paired_def)
    then show ?thesis using subseq_members [OF gs(1)] ge subseq_members by fastforce
  qed
  have "\<forall>t \<in> set (txs_of (gs @ paired prs)). valid_tx sha t"
    using members held held_tx(3) by (fastforce simp: txs_of_def)
  then have "stn_block_body_validate_structure sha (Some body) (length body) n = STN_DATA_OK"
    unfolding body_structure_iff using prs(3-5) by (intro exI [of _ "txs_of (gs @ paired prs)"]) simp
  moreover have "subseq gs ?es" using gs(1) ge by (blast intro: subseq_order.order_trans)
  moreover have "\<forall>e \<in> set gs. \<exists>tx. stn_transaction_decode sha (pe_transaction e) = Inr tx \<and>
      txn_type tx \<noteq> STN_TX_BLOCK_COMPENSATION_EVIDENCE \<and> \<not> block_issuance_type sha e"
    using ge subseq_members [OF gs(1)] by blast
  ultimately show ?thesis using prs by blast
qed

end
