(* ===== verification/Stn_Pending_Sample.thy ===== *)
theory Stn_Pending_Sample
  imports Stn_Pending_Claims Stn_Pending_Body Stn_Query_Sample
begin

text \<open>
  Concrete pools and histories, at which the theorems on the pending pool are applied.
\<close>

section \<open>A block around a transaction\<close>

definition wrapping_header :: "bytes \<Rightarrow> stn_block_header" where
  "wrapping_header t = sample_block_header\<lparr>bh_body_length := word_of_nat (4 + length t)\<rparr>"

definition wrapping_block :: "bytes \<Rightarrow> bytes" where
  "wrapping_block t = header_layout (wrapping_header t) @ frames [t]"

lemma wrapping_parts:
  assumes "valid_tx sha t"
  shows "block_parts sha (wrapping_block t) (wrapping_header t) [t]"
proof -
  have len: "77 \<le> length t" "length t \<le> 66881" using valid_tx_length [OF assms] .
  have "unat (word_of_nat (4 + length t) :: u32) = 4 + length t"
    using len by (simp only: unsigned_of_nat) (simp add: take_bit_nat_eq_self)
  then have n: "unat (4 + word_of_nat (length t) :: u32) = 4 + length t" by simp
  have "stn_target_validate (Some (0x40 # replicate 31 0)) = STN_DATA_OK"
    by (simp add: target_validate_iff be_append)
  moreover have "\<not> 4 + (word_of_nat (length t) :: u32) < 81" "\<not> 66885 < 4 + (word_of_nat (length t) :: u32)"
    using n len by (simp_all add: word_less_nat_alt)
  ultimately have h: "wf_header (wrapping_header t)" "header_valid (wrapping_header t) = STN_DATA_OK"
    using n len by (simp_all add: wrapping_header_def wf_header_def header_valid_def sample_block_header_def nonzero_iff)
  then have "take 168 (wrapping_block t) = header_layout (wrapping_header t)"
      "drop 168 (wrapping_block t) = frames [t]" "168 \<le> length (wrapping_block t)"
    by (simp_all add: wrapping_block_def)
  then show ?thesis
    using header_decode_layout [OF h] assms n
    by (simp add: block_parts_def) (simp add: wrapping_header_def sample_block_header_def)
qed

lemma wrapping_history:
  assumes "valid_tx sha t"
  shows "history_txs sha [wrapping_block t] = [t]" "blocks_decode sha [wrapping_block t]" "block_txs sha (wrapping_block t) = [t]"
  using block_txs_parts [OF wrapping_parts [OF assms]] block_parts_decode(1) [OF wrapping_parts [OF assms]] by auto

definition sample_view :: "bytes list \<Rightarrow> u64 \<Rightarrow> stn_storage_view" where
  "sample_view blocks activation = \<lparr>vw_blocks = blocks, vw_state = (empty_state (replicate 32 1) activation)
     \<lparr>cs_lifecycle := Some sample_publisher, cs_compensation := Some compensation_new\<rparr>\<rparr>"

definition full_pool_alloc :: pending_alloc where
  "full_pool_alloc = \<lparr>pa_statement = True, pa_entry = True\<rparr>"

section \<open>A pooled destination\<close>

definition sample_pool_entry :: stn_pending_entry where
  "sample_pool_entry = \<lparr>pe_id = replicate 32 9, pe_signer = replicate 32 5, pe_nonce = replicate 32 5,
     pe_transaction = Some sample_tx, pe_length = 77\<rparr>"

definition sample_pool :: stn_pending where
  "sample_pool = \<lparr>pool_entries = [sample_pool_entry], pool_bytes = 77\<rparr>"

lemma sample_tx_decode:
  "stn_transaction_decode sha (Some sample_tx) = Inr \<lparr>txn_version = 1, txn_type = 7,
     txn_record_bytes = Some (STN_COMPENSATION_DESTINATION_VERSION # replicate 64 5), txn_record_length = 65\<rparr>"
proof -
  have fields: "ucast (stn_wire_read (drop 4 sample_tx) 2) = (1 :: u16)" "ucast (stn_wire_read (drop 6 sample_tx) 2) = (7 :: u16)"
      "ucast (stn_wire_read (drop 8 sample_tx) 4) = (65 :: u32)" "take 4 sample_tx = transaction_magic"
      "drop 12 sample_tx = STN_COMPENSATION_DESTINATION_VERSION # replicate 64 5"
    by (simp_all add: sample_tx_def transaction_magic_def stn_wire_read_def)
  show ?thesis
    unfolding tx_decode_iff fields using sample_tx_valid(2)
    by (simp add: tx_ok_def known_type_def transaction_content_def decode_statuses destination_decode_iff)
qed

lemma sample_tx_id: "valid_tx sample_sha t \<Longrightarrow> stn_transaction_id sample_sha (Some t) (Some sample_sha) = Inr (replicate 32 9)"
  by (simp add: transaction_id_iff sample_sha_def)

definition sample_destination_address :: stn_compensation_destination where
  "sample_destination_address = \<lparr>dest_identity = \<lparr>addr_type = STN_ADDRESS_IDENTITY, addr_id = replicate 32 5\<rparr>,
     dest_wallet = \<lparr>addr_type = STN_ADDRESS_WALLET, addr_id = replicate 32 5\<rparr>\<rparr>"

lemma sample_destination_decode:
  "stn_compensation_destination_decode (Some (STN_COMPENSATION_DESTINATION_VERSION # replicate 64 5)) =
     Inr sample_destination_address"
  by (simp add: destination_decode_iff sample_destination_address_def)

lemma sample_lookup:
  "addr_type i = STN_ADDRESS_IDENTITY \<Longrightarrow>
    stn_compensation_state_lookup compensation_new (Some i) = Inl STN_DATA_UNRESOLVED"
  by (simp add: stn_compensation_state_lookup.simps(2) compensation_new_def comp_bad_def comp_live_def)

lemma sample_admission:
  "stn_share_pending_admit sample_sha sample_ed full_pool_alloc (Some stn_pending_init) (Some sample_tx) None
     (Some (sample_view [] 0)) (Some (Some sample_sha)) zero_validation_report [] =
   Some (STN_PENDING_ACCEPTED, zero_validation_report\<lparr>vr_acceptance := STN_ACCEPTANCE_UNDER_CONTEXT\<rparr>,
     replicate 32 9, Some sample_pool)"
proof -
  have "stn_pending_insert sample_sha True stn_pending_init (Some sample_tx) (Some sample_sha) =
      (STN_PENDING_ACCEPTED, Some (replicate 32 9), sample_pool)"
    by (simp add: stn_pending_insert_def sample_tx_decode insert_key_def sample_destination_decode
      sample_tx_id [OF sample_tx_valid(1)] pool_insert_def stn_pending_init_def found_at_def sample_tx_valid(2)
      sample_pool_def sample_pool_entry_def sample_destination_address_def)
  then show ?thesis
    by (simp add: stn_share_pending_admit_def stn_block_compensation_pending_admit_def stn_pending_admit_transaction_def
      sample_tx_decode admit_destination_def sample_destination_decode sample_view_def full_pool_alloc_def
      sample_lookup sample_destination_address_def admit_insert_def provider_fn_def)
qed

theorem pending_pool_consistent_witness: "pool_inv sample_sha (Some sample_sha) sample_pool"
  using pending_pool_consistent [OF r_into_rtranclp, OF pool_step.admit, OF sample_admission] .

theorem pending_admission_atomic_witness:
  "pool_map sample_pool = [replicate 32 9 \<mapsto> sample_pool_entry] \<and> pool_bytes sample_pool = 77 \<and> pool_wf sample_pool"
proof -
  have "pool_wf stn_pending_init" by (simp add: stn_pending_init_def pool_wf_def)
  from pending_admission_atomic [OF this sample_admission] have
    "pool_wf sample_pool \<and> pool_bytes sample_pool = pool_bytes stn_pending_init + length sample_tx" by auto
  moreover have "pool_map sample_pool = [replicate 32 9 \<mapsto> sample_pool_entry]"
    by (auto simp: pool_map_def sample_pool_def sample_pool_entry_def)
  ultimately show ?thesis by (simp add: stn_pending_init_def sample_tx_valid(2))
qed

lemma sample_pool_wf: "pool_wf sample_pool" "pool_inv sample_sha (Some sample_sha) sample_pool"
proof -
  have init: "pool_inv sample_sha (Some sample_sha) stn_pending_init"
    by (simp add: stn_pending_init_def pool_inv_def pool_wf_def keys_unique_def)
  show "pool_inv sample_sha (Some sample_sha) sample_pool"
    by (rule pool_step_inv [OF pool_step.admit [OF sample_admission] init])
  then show "pool_wf sample_pool" by (simp add: pool_inv_def)
qed


lemma sample_assembly:
  "stn_block_compensation_pending_assemble sample_sha sample_ed (\<lambda>_. True) sample_pool None (Some (sample_view [] 0)) 100 =
     Some (Inr (frames [sample_tx], 1))"
proof -
  note tx = sample_tx_decode [of sample_sha]
  have held: "valid_tx sample_sha sample_tx" "length sample_tx = 77" using sample_tx_valid by auto
  have body: "stn_block_body_encode sample_sha (Some (span_list [sample_tx])) (word_of_nat (length [sample_tx])) 100 =
      Inr (frames [sample_tx])"
    using held body_encode_iff [of "[sample_tx]" sample_sha 100 "frames [sample_tx]"] by simp
  have ready: "entry_ready sample_sha sample_ed alloc None (Some (sample_view [] 0)) sample_pool_entry = Inr True" for alloc
    by (simp add: entry_ready_def sample_pool_entry_def tx)
  have e: "pe_transaction sample_pool_entry = Some sample_tx" "pe_length sample_pool_entry = 77"
      "pe_id sample_pool_entry = replicate 32 9"
    by (simp_all add: sample_pool_entry_def)
  have generic: "\<not> block_issuance_type sample_sha sample_pool_entry"
    by (simp add: e tx block_issuance_type_def)
  have "stn_pending_assemble sample_sha sample_ed (\<lambda>_. True) \<lparr>pool_entries = [sample_pool_entry], pool_bytes = 77\<rparr> None
      (Some (sample_view [] 0)) 100 = Some (Inr (frames [sample_tx], 1))"
    using body ready e held(2)
    by (simp add: stn_pending_assemble_def stn_pending_enumerate_def Let_def span_list_def scan_def sample_view_def)
  then show ?thesis
    by (simp add: stn_block_compensation_pending_assemble_def sample_pool_def generic e tx Let_def)
qed

theorem pending_body_sound_witness:
  "stn_block_body_validate_structure sample_sha (Some (frames [sample_tx])) (length (frames [sample_tx])) 1 = STN_DATA_OK"
  using pending_body_sound [OF sample_pool_wf(2) sample_assembly] by blast

section \<open>A grant in the history\<close>

definition sample_grant_entry :: stn_pending_entry where
  "sample_grant_entry = \<lparr>pe_id = replicate 32 9, pe_signer = replicate 32 5, pe_nonce = replicate 32 5,
     pe_transaction = Some sample_grant_tx, pe_length = 206\<rparr>"

theorem accepted_lifecycle_selected_witness:
  "stn_pending_assemble sample_sha sample_ed (\<lambda>_. True) \<lparr>pool_entries = [sample_grant_entry], pool_bytes = length sample_grant_tx\<rparr>
     None (Some (sample_view [wrapping_block sample_grant_tx] 0)) 1000 = Some (Inr (frames [sample_grant_tx], 1))"
proof -
  let ?v = "sample_view [wrapping_block sample_grant_tx] 0"
  note tx = sample_grant_tx_valid(4) [of sample_sha]
  have txs: "history_txs sample_sha (vw_blocks ?v) = [sample_grant_tx]" "blocks_decode sample_sha (vw_blocks ?v)"
    using wrapping_history [OF sample_grant_tx_valid(1) [of sample_sha]] by (simp_all add: sample_view_def)
  have key: "\<exists>s. history_key sample_sha None \<lparr>txn_version = 1, txn_type = 2, txn_record_bytes = Some sample_grant,
      txn_record_length = 194\<rparr> = Inr (True, s, [])"
    by (simp add: history_key_def Let_def)
  then have readable: "tx_readable sample_sha None sample_grant_tx" "content_key sample_sha None sample_grant_tx = None"
    using tx by (auto simp: tx_readable_def content_key_def)
  have entry: "entry_for sample_sha (Some sample_sha) sample_grant_tx sample_grant_entry"
    using sample_tx_id [OF sample_grant_tx_valid(1)] tx sample_grant_tx_valid(2)
    by (simp add: entry_for_def sample_grant_entry_def one_time_key_def)
  show ?thesis
    by (rule accepted_lifecycle_selected [OF _ tx _ txs(2) _ entry])
      (use txs readable in \<open>simp_all add: sample_grant_tx_valid(2) content_keys_def\<close>)
qed

section \<open>Block compensation evidence in the history\<close>

definition sample_evidence_tx :: bytes where
  "sample_evidence_tx = transaction_magic @ [0, 1, 0, 10, 0, 0, 0, 65] @ STN_BLOCK_COMPENSATION_VERSION # replicate 64 5"

lemma sample_bce_valid:
  "length sample_evidence_tx = 77" "valid_tx sha sample_evidence_tx"
  "stn_transaction_decode sha (Some sample_evidence_tx) = Inr \<lparr>txn_version = 1, txn_type = 10,
      txn_record_bytes = Some (STN_BLOCK_COMPENSATION_VERSION # replicate 64 5), txn_record_length = 65\<rparr>"
proof -
  show len: "length sample_evidence_tx = 77" by (simp add: sample_evidence_tx_def)
  have fields: "ucast (stn_wire_read (drop 4 sample_evidence_tx) 2) = (1 :: u16)"
      "ucast (stn_wire_read (drop 6 sample_evidence_tx) 2) = (10 :: u16)"
      "ucast (stn_wire_read (drop 8 sample_evidence_tx) 4) = (65 :: u32)" "take 4 sample_evidence_tx = transaction_magic"
      "drop 12 sample_evidence_tx = STN_BLOCK_COMPENSATION_VERSION # replicate 64 5"
    by (simp_all add: sample_evidence_tx_def transaction_magic_def stn_wire_read_def)
  show dec: "stn_transaction_decode sha (Some sample_evidence_tx) = Inr \<lparr>txn_version = 1, txn_type = 10,
      txn_record_bytes = Some (STN_BLOCK_COMPENSATION_VERSION # replicate 64 5), txn_record_length = 65\<rparr>"
    unfolding tx_decode_iff fields using len
    by (simp add: tx_ok_def known_type_def transaction_content_def block_compensation_structure_def nonzero_iff)
  then show "valid_tx sha sample_evidence_tx" unfolding valid_tx_def tx_structure_iff by blast
qed

lemma evidence_answer:
  "stn_share_pending_admit sample_sha sample_ed full_pool_alloc (Some stn_pending_init) (Some sample_publication_tx) None
     (Some (sample_view [wrapping_block sample_evidence_tx] 1)) (Some (Some sample_sha)) zero_validation_report [] =
   Some (STN_PENDING_PROVIDER, zero_validation_report\<lparr>vr_acceptance := STN_ACCEPTANCE_UNDER_CONTEXT\<rparr>,
     replicate 32 9, Some stn_pending_init)"
proof -
  let ?v = "sample_view [wrapping_block sample_evidence_tx] 1"
  note tx = sample_publication_tx(2) [of sample_sha] and ev = sample_bce_valid(3) [of sample_sha]
  have "stn_lifecycle_check_publication sample_ed True (Some sample_publisher) (Some sample_publication_bytes)
      (Some sample_sha) = STN_LIFECYCLE_OK"
    using publication_check_iff [of sample_publisher] sample_publisher_facts(1) sample_publication_decode
      sample_publication_ok unfolding lifecycle_inv_def by blast
  then have gate: "publication_gate sample_ed True (Some sample_publication_bytes) None ?v (Some sample_sha) =
      (STN_PENDING_ACCEPTED, zero_validation_report\<lparr>vr_acceptance := STN_ACCEPTANCE_UNDER_CONTEXT\<rparr>)"
    by (simp add: publication_gate_def production_next_def sample_view_def empty_state_def)
  note parts = block_parts_decode(1) [OF wrapping_parts [OF sample_bce_valid(2) [of sample_sha]]]
  have key: "history_key sample_sha (Some (Some sample_sha)) \<lparr>txn_version = 1, txn_type = 10,
      txn_record_bytes = Some (STN_BLOCK_COMPENSATION_VERSION # replicate 64 5), txn_record_length = 65\<rparr> =
      Inl STN_DATA_CONTENT"
    by (rule evidence_unreadable [OF ev]) simp_all
  have "scan_txs sample_sha (Some (Some sample_sha)) True es (length [sample_evidence_tx]) (frames [sample_evidence_tx]) ms =
      Some (Inl STN_DATA_CONTENT)" for es ms
    using read_frame_size [of sample_evidence_tx "[]"] ev key by (simp add: sample_bce_valid(1) Let_def)
  then have scan: "scan_blocks sample_sha (Some (Some sample_sha)) True es (vw_blocks ?v) ms = Some (Inl STN_DATA_CONTENT)" for es ms
    using decoded_txs [OF parts] wrapping_history(3) [OF sample_bce_valid(2) [of sample_sha]] parts
    by (simp add: sample_view_def)
  show ?thesis
    using gate scan publication_encoded [OF tx] sample_publication_decode sample_tx_id [OF sample_publication_tx(3)]
    by (simp add: publication_through [OF tx] stn_pending_admit_def decoded_publication_tx_def full_pool_alloc_def
      publication_network Let_def admit_entry_def scan_def stn_pending_init_def found_at_def)
      (simp add: sample_view_def empty_state_def)
qed

theorem evidence_blocks_publications_witness:
  "fst (the (stn_share_pending_admit sample_sha sample_ed full_pool_alloc (Some stn_pending_init) (Some sample_publication_tx)
     None (Some (sample_view [wrapping_block sample_evidence_tx] 1)) (Some (Some sample_sha)) zero_validation_report [])) \<noteq>
   STN_PENDING_ACCEPTED"
proof -
  let ?v = "sample_view [wrapping_block sample_evidence_tx] 1"
  have "\<exists>t \<in> set (history_txs sample_sha (vw_blocks ?v)). evidence_tx sample_sha t"
    using wrapping_history(1) [OF sample_bce_valid(2) [of sample_sha]] sample_bce_valid(3) [of sample_sha]
    by (simp add: sample_view_def evidence_tx_def)
  from evidence_blocks_publications [OF this sample_publication_tx(2) _ evidence_answer]
  show ?thesis by (simp add: evidence_answer decoded_publication_tx_def)
qed

end
