(* ===== verification/Spec2Isabelle.thy ===== *)
theory Spec2Isabelle
  imports Stn_Work_Correct Stn_Replay Stn_Acceptance Stn_Retarget Stn_Reward Stn_Share Stn_Contract_Lifecycle Stn_Lifecycle
    Stn_Publication Stn_Contract_Ledger Stn_Contract_Trace Stn_Sentinel Stn_Share_Payment
    Stn_Storage_Claims Stn_Query_Claims Stn_Pending_Sample
begin

text \<open>
  A verification library for STN-Chain, the proof-of-work chain of signed intelligence records under
  \<^verbatim>\<open>src/src\<close> and \<^verbatim>\<open>src/includes\<close>. The theories follow the C files: one group of definitions per
  component, with the names of the source, and the theorems that make the component correct.

  \<^bold>\<open>The program.\<close> A block (\<^verbatim>\<open>stn_block.c\<close>) is a header and a body of framed transactions
  (\<^verbatim>\<open>stn_transaction.c\<close>) of ten types: publications of signed records, authority grants and
  revocations, identity rotations, contract actions, share evidence, block compensation evidence,
  compensation destinations, issuances and transfers. \<^verbatim>\<open>stn_chain.c\<close> validates a candidate block in
  stages (context, prior state, link, required target, body, identifier, proof of work, transactions)
  and answers a new chain state, which owns a snapshot of each component: the identity lifecycle
  (\<^verbatim>\<open>stn_lifecycle.c\<close> over \<^verbatim>\<open>stn_authority.c\<close> and \<^verbatim>\<open>stn_replay.c\<close>), contracts
  (\<^verbatim>\<open>stn_contract*.c\<close>), shares, block compensation, compensation destinations and the economic state.
  Histories and batches are folds of this step.

  \<^bold>\<open>Theories and sources.\<close>
  \<^item> Stn_Prelude: \<^verbatim>\<open>stn_wire_internal.h\<close>, byte comparison, the results, the hash provider; generic lemmas on
    big-endian fields. Stn_Interfaces: the shared interfaces as locales (codecs, replay registries,
    sorted tables), interpreted by each component on its own definitions.
  \<^item> Stn_Record, Stn_Identity, Stn_Replay, Stn_Address, Stn_Sentinel: records, signatures, the nonce
    registry, addresses and wallets, the sentinel payload.
  \<^item> Stn_Work, Stn_Work_Correct, Stn_Retarget: \<^verbatim>\<open>stn_pow.c\<close>, 320-bit work, the retarget rule.
  \<^item> Stn_Transfer, Stn_Envelope, Stn_Compensation, Stn_Issuance, Stn_Economic, Stn_Acceptance:
    transfers, their envelopes and authorization, destinations, issuances, the balances, acceptance.
  \<^item> Stn_Share, Stn_Block_Compensation, Stn_Reward: share evidence, block compensation, rewards.
  \<^item> Stn_Authority, Stn_Rotation, Stn_Lifecycle, Stn_Publication: grants, revocations, rotations, the
    lifecycle of identities and the admission of publications.
  \<^item> Stn_Contract, Stn_Contract_Action, Stn_Contract_Lifecycle, Stn_Contract_Vote, Stn_Contract_Tx,
    Stn_Contract_Store, Stn_Contract_Ledger: contracts, their actions, votes, payloads and store.
    Stn_Contract_Trace is what a contract goes through until it is executed.
  \<^item> Stn_Block_Header, Stn_Transaction, Stn_Block: the wire formats of blocks and transactions.
  \<^item> Stn_Chain_Contract, Stn_Chain_State, Stn_Chain_Candidate: \<^verbatim>\<open>stn_chain.c\<close>, definitions only.
    Stn_Chain gives the declarative reading of an accepted candidate, Stn_Chain_Invariant and
    Stn_Chain_Run the invariant of all snapshots over runs of accepted blocks, Stn_Chain_Linked the
    links and the work, Stn_Chain_Target the retarget window, Stn_Chain_Correct and Stn_Chain_Batch
    the theorems on candidates, batches and histories, Stn_Share_Payment the payment of shares.
  \<^item> Stn_Fork, Stn_Recovery: \<^verbatim>\<open>stn_fork.c\<close>, the choice between histories, and the recovery of a consumer
    that a reorganization left behind.
  \<^item> Stn_Storage: \<^verbatim>\<open>stn_storage.c\<close>, definitions only. Stn_Storage_Format is the snapshot format,
    Stn_Storage_Correct the effect of each operation, Stn_Storage_Run the runs of operations on a
    backend and their invariant, Stn_Storage_Claims the theorems.
  \<^item> Stn_Query: cursors and record queries of \<^verbatim>\<open>stn_chain.c\<close>. Stn_Query_Correct relates them to the list
    of eligible records, Stn_Query_Sample is a history that has one, Stn_Query_Claims the theorems.
  \<^item> Stn_Validation: \<^verbatim>\<open>stn_validation.c\<close>, the staged validation of an intelligence record.
  \<^item> Stn_Pending, Stn_Pending_Admit, Stn_Pending_Assemble: the pool of pending transactions
    (\<^verbatim>\<open>stn_pending.c\<close>, \<^verbatim>\<open>stn_pending_cleanup.c\<close>, \<^verbatim>\<open>stn_share_pending.c\<close> and the pool part of
    \<^verbatim>\<open>stn_block_compensation_candidate.c\<close>), definitions only. Stn_Pending_Correct is the pool as a map,
    Stn_Pending_Run its life and invariant, Stn_Pending_Scan what the scans of a history
    find, Stn_Pending_Claims and Stn_Pending_Body the theorems, Stn_Pending_Sample the concrete
    pools and histories they are applied at.

  \<^bold>\<open>Conventions.\<close> A C struct is a record, an enum a datatype, an n-bit integer an n-bit word, a byte
  buffer a list of 8-bit words, a pointer that may be NULL an option. A function with an output
  parameter answers a sum: Inl a status, Inr the output; one that changes a state answers the
  status and the new state, so that what a failure leaves behind is part of the statement. Loops
  are structural recursions over the remaining count or list, and loops without such a bound are
  functions with a measure, so nothing is fuelled. SHA-256 (an interface of the platform) and the
  vendored Ed25519 verifier are parameters, as is the answer of each allocation; \<open>hash_fn_ok\<close> states
  the documented interface of the hash, a digest of 32 bytes or a provider error. From the fork
  choice on, output and context pointers are never NULL and a block span is its bytes. The storage
  backend is a record of functions over an abstract disk; \<open>provider_ok\<close> states its documented contract.

  \<^bold>\<open>Groups of lemmas.\<close> For each codec the two lemmas \<open>*_encode_iff\<close> and \<open>*_decode_iff\<close> say which values are
  encoded and which bytes are decoded; round trips and canonicity follow by the codec locale. For each
  registry or store the invariant, its preservation and the abstract map it refines. For each guard
  chain the exact condition of acceptance and that every refusal changes nothing, or what it changes.
  \<open>chain_run\<close> is the inductive set of states reachable by accepted blocks, \<open>chain_inv\<close> its invariant;
  \<open>pool_step\<close> and \<open>pool_inv\<close> are the same for the pending pool.

  \<^bold>\<open>Not modelled.\<close> Snapshots are values, so reference counts, sharing and release do not appear;
  the one failure that depends on a count, of \<^verbatim>\<open>stn_chain_state_share\<close>, is left open.
  The platform layer (sockets, files, threads, OpenSSL), the node shell, the RPC text and the mining
  service are I/O around this core. The peer protocol, the contract queries, the transaction status,
  the storage cache and the economic persistence read or carry what is modelled and have no
  definitions here. The vendored Ed25519 is third-party code. The contract response
  acceptance uses a transaction type and a snapshot operation that the repository does not define.
\<close>

end
